(* ===== verification/FINIX_Prelude.thy ===== *)
theory FINIX_Prelude
  imports Main "HOL-Library.Sublist" "HOL-Library.Word" "HOL-Library.Signed_Division"
begin

text \<open>
  Shared ground of the development: the types the Go services use everywhere (64-bit
  integers, instants and durations, byte strings, maps), the standard-library functions
  they call on them, the collections of facts the component theories fill, and two
  interfaces (an append-only log and a single-use token) that several components provide.
\<close>

section \<open>Fact collections\<close>

named_theorems finix_defs \<open>definitions of small helpers that proofs may always unfold\<close>
named_theorems frame_simps \<open>which fields an operation leaves alone\<close>
named_theorems i64_simps \<open>arithmetic modulo 2^64 in the signed representation\<close>

section \<open>Go's int64\<close>

text \<open>
  A Go \<open>int64\<close> is an \<open>int\<close> in the signed 64-bit range. Where an operation of the code can
  leave the range, the model applies \<open>i64\<close>, the wrap-around of two's complement, to the
  exact result; \<open>i64_sint\<close> ties it to the library's words.
\<close>

definition i64 :: "int \<Rightarrow> int" where
  "i64 x = (x + 2 ^ 63) mod 2 ^ 64 - 2 ^ 63"

definition is_i64 :: "int \<Rightarrow> bool" where
  "is_i64 x \<longleftrightarrow> - (2 ^ 63) \<le> x \<and> x < 2 ^ 63"

abbreviation max_int64 :: int where
  "max_int64 \<equiv> 2 ^ 63 - 1"

lemma i64_sint: "i64 x = sint (word_of_int x :: 64 word)"
  by (simp add: i64_def sint_uint uint_word_of_int signed_take_bit_eq_take_bit_shift take_bit_eq_mod
    mod_add_left_eq)

lemma i64_id [i64_simps]: "is_i64 x \<Longrightarrow> i64 x = x"
  by (simp add: i64_def is_i64_def)

lemma is_i64_i64 [simp]: "is_i64 (i64 x)"
proof -
  have "(x + 2 ^ 63) mod 2 ^ 64 < (2 :: int) ^ 64" by simp
  moreover have "0 \<le> (x + 2 ^ 63) mod (2 :: int) ^ 64" by simp
  ultimately show ?thesis by (simp add: i64_def is_i64_def)
qed

lemma i64_0 [simp]: "i64 0 = 0"
  by (simp add: i64_def)

lemma i64_cong_iff: "i64 x = i64 y \<longleftrightarrow> x mod 2 ^ 64 = y mod 2 ^ 64"
proof -
  have "i64 x = i64 y \<longleftrightarrow> (x + 2 ^ 63) mod 2 ^ 64 = (y + 2 ^ 63) mod (2 :: int) ^ 64"
    by (simp add: i64_def)
  also have "\<dots> \<longleftrightarrow> x mod 2 ^ 64 = y mod 2 ^ 64"
    by (simp add: mod_eq_dvd_iff)
  finally show ?thesis .
qed

lemma i64_mod: "i64 x mod 2 ^ 64 = x mod 2 ^ 64"
proof -
  have "i64 (i64 x) = i64 x" by (rule i64_id) simp
  then show ?thesis by (simp only: i64_cong_iff)
qed

lemma i64_add_left [i64_simps]: "i64 (i64 x + y) = i64 (x + y)"
  by (simp only: i64_cong_iff) (metis i64_mod mod_add_left_eq)

lemma i64_add_right [i64_simps]: "i64 (x + i64 y) = i64 (x + y)"
  by (metis i64_add_left add.commute)

lemma i64_diff_left [i64_simps]: "i64 (i64 x - y) = i64 (x - y)"
  by (simp only: i64_cong_iff) (metis i64_mod mod_diff_left_eq)

lemma i64_sum: "i64 (\<Sum>a\<in>A. i64 (f a)) = i64 (\<Sum>a\<in>A. f a)"
proof (induction A rule: infinite_finite_induct)
  case (insert x F)
  have "i64 (i64 (f x) + (\<Sum>a\<in>F. i64 (f a))) = i64 (f x + i64 (\<Sum>a\<in>F. i64 (f a)))"
    by (simp add: i64_simps)
  with insert show ?case by (simp add: i64_simps)
qed simp_all

section \<open>Instants and durations\<close>

text \<open>
  \<open>time.Time\<close> is the number of nanoseconds since Go's zero time, so \<open>IsZero\<close> is being 0 and
  \<open>Unix\<close> subtracts the seconds up to 1970. Every \<open>time.Now()\<close> of the code is an argument of
  the operation that reads it. \<open>Sub\<close> is exact here: it saturates only beyond 290 years.
\<close>

type_synonym time = int
type_synonym duration = int

abbreviation second :: duration where "second \<equiv> 1000000000"
abbreviation minute :: duration where "minute \<equiv> 60 * second"
abbreviation hour :: duration where "hour \<equiv> 3600 * second"

definition unix :: "time \<Rightarrow> int" where
  "unix t = t div second - 62135596800"

lemma unix_mono: "s \<le> t \<Longrightarrow> unix s \<le> unix t"
  by (simp add: unix_def zdiv_mono1)

lemma unix_add_seconds: "unix (t + k * second) = unix t + k"
  by (simp add: unix_def)

section \<open>Byte strings\<close>

text \<open>
  A Go string is a list of bytes. \<open>TrimSpace\<close>, \<open>ToLower\<close> and \<open>ToUpper\<close> are modelled on
  ASCII: they treat bytes above 127 as ordinary characters without case.
\<close>

definition is_space :: "char \<Rightarrow> bool" where
  "is_space c \<longleftrightarrow> c \<in> {CHR 0x09, CHR 0x0A, CHR 0x0B, CHR 0x0C, CHR 0x0D, CHR '' ''}"

definition TrimSpace :: "string \<Rightarrow> string" where
  "TrimSpace s = rev (dropWhile is_space (rev (dropWhile is_space s)))"

definition lower_char :: "char \<Rightarrow> char" where
  "lower_char c = (let n = (of_char c :: nat) in if 65 \<le> n \<and> n \<le> 90 then char_of (n + 32) else c)"

definition upper_char :: "char \<Rightarrow> char" where
  "upper_char c = (let n = (of_char c :: nat) in if 97 \<le> n \<and> n \<le> 122 then char_of (n - 32) else c)"

definition ToLower :: "string \<Rightarrow> string" where
  "ToLower s = map lower_char s"

definition ToUpper :: "string \<Rightarrow> string" where
  "ToUpper s = map upper_char s"

definition contains :: "string \<Rightarrow> string \<Rightarrow> bool" where
  "contains s sub \<longleftrightarrow> sublist sub s"

definition is_digit :: "char \<Rightarrow> bool" where
  "is_digit c \<longleftrightarrow> (let n = (of_char c :: nat) in 48 \<le> n \<and> n \<le> 57)"

lemma TrimSpace_Nil [simp]: "TrimSpace [] = []"
  by (simp add: TrimSpace_def)

lemma length_TrimSpace_le: "length (TrimSpace s) \<le> length s"
  unfolding TrimSpace_def
  by (metis dual_order.trans length_dropWhile_le length_rev)

lemma dropWhile_is_space_idem: "dropWhile P (dropWhile P s) = dropWhile P s"
  by (induction s) auto

lemma TrimSpace_id:
  assumes "s = [] \<or> \<not> is_space (hd s) \<and> \<not> is_space (last s)"
  shows "TrimSpace s = s"
proof (cases "s = []")
  case False
  then have "dropWhile is_space s = s" and "dropWhile is_space (rev s) = rev s"
    using assms by (cases s, auto) (cases s rule: rev_cases, auto)
  then show ?thesis by (simp add: TrimSpace_def)
qed simp

text \<open>Decimal output: \<open>%d\<close> of a natural number and the zero padding of \<open>%0wd\<close>.\<close>

fun dec_digits :: "nat \<Rightarrow> string" where
  "dec_digits n = (if n < 10 then [char_of (48 + n)]
                   else dec_digits (n div 10) @ [char_of (48 + n mod 10)])"

declare dec_digits.simps [simp del]

definition dec :: "int \<Rightarrow> string" where
  "dec x = (if x < 0 then ''-'' @ dec_digits (nat (- x)) else dec_digits (nat x))"

definition pad0 :: "nat \<Rightarrow> string \<Rightarrow> string" where
  "pad0 w s = replicate (w - length s) (CHR ''0'') @ s"

text \<open>
  \<open>Format(time.RFC3339Nano)\<close> of an instant in UTC: the proleptic Gregorian date, the clock, and
  the fraction of the second without trailing zeros (no fraction when it is zero).
\<close>

definition is_leap :: "int \<Rightarrow> bool" where
  "is_leap y \<longleftrightarrow> y mod 4 = 0 \<and> (y mod 100 \<noteq> 0 \<or> y mod 400 = 0)"

definition month_lengths :: "int \<Rightarrow> int list" where
  "month_lengths y = [31, if is_leap y then 29 else 28, 31, 30, 31, 30, 31, 31, 30, 31, 30, 31]"

fun month_day :: "int \<Rightarrow> int list \<Rightarrow> int \<Rightarrow> int \<times> int" where
  "month_day m [] d = (m, d + 1)"
| "month_day m (l # ls) d = (if d < l then (m, d + 1) else month_day (m + 1) ls (d - l))"

definition civil_date :: "time \<Rightarrow> int \<times> int \<times> int" where
  "civil_date t =
     (let d = t div (86400 * second);
          r400 = d mod 146097;
          n100 = min (r400 div 36524) 3;
          r100 = r400 - n100 * 36524;
          r4 = r100 mod 1461;
          n1 = min (r4 div 365) 3;
          y = 400 * (d div 146097) + 100 * n100 + 4 * (r100 div 1461) + n1 + 1
      in (y, month_day 1 (month_lengths y) (r4 - n1 * 365)))"

definition rfc3339nano :: "time \<Rightarrow> string" where
  "rfc3339nano t =
     (case civil_date t of (y, mo, d) \<Rightarrow>
        let s = t div second mod 86400;
            frac = rev (dropWhile (\<lambda>c. c = CHR ''0'') (rev (pad0 9 (dec (t mod second)))))
        in pad0 4 (dec y) @ ''-'' @ pad0 2 (dec mo) @ ''-'' @ pad0 2 (dec d) @ ''T'' @
           pad0 2 (dec (s div 3600)) @ '':'' @ pad0 2 (dec (s mod 3600 div 60)) @ '':'' @
           pad0 2 (dec (s mod 60)) @ (if frac = [] then [] else ''.'' @ frac) @ ''Z'')"

text \<open>Reading a decimal string back, to show that printing loses nothing.\<close>

definition undec :: "string \<Rightarrow> nat" where
  "undec s = foldl (\<lambda>a c. 10 * a + (of_char c - 48)) 0 s"

lemma undec_snoc: "undec (s @ [c]) = 10 * undec s + (of_char c - 48)"
  by (simp add: undec_def)

lemma undec_dec_digits: "undec (dec_digits n) = n"
proof (induction n rule: dec_digits.induct)
  case (1 n)
  have digit: "(of_char (char_of (48 + d) :: char) :: nat) = 48 + d" if "d < 10" for d :: nat
    using that by simp
  show ?case
  proof (cases "n < 10")
    case True
    then show ?thesis using digit [OF True] by (simp add: dec_digits.simps [of n] undec_def)
  next
    case False
    then have "undec (dec_digits (n div 10)) = n div 10" by (rule 1)
    then show ?thesis using False digit [of "n mod 10"]
      by (simp add: dec_digits.simps [of n] undec_snoc)
  qed
qed

lemma undec_pad0: "undec (pad0 w s) = undec s"
proof -
  have "undec (replicate k (CHR ''0'') @ s) = undec s" for k
    by (induction k) (simp_all add: undec_def)
  then show ?thesis by (simp add: pad0_def)
qed

lemma pad0_dec_inj [simp]: "pad0 w (dec (int m)) = pad0 w (dec (int n)) \<longleftrightarrow> m = n"
  by (auto simp: dec_def dest: arg_cong [where f = undec] simp: undec_pad0 undec_dec_digits)

lemma dec_inj [simp]: "dec (int m) = dec (int n) \<longleftrightarrow> m = n"
  by (metis pad0_dec_inj)

lemma dec_digits_chars: "c \<in> set (dec_digits n) \<Longrightarrow> is_digit c"
proof (induction n rule: dec_digits.induct)
  case (1 n)
  then show ?case by (auto simp: dec_digits.simps [of n] is_digit_def Let_def split: if_splits)
qed

lemma pad0_dec_chars: "c \<in> set (pad0 w (dec (int n))) \<Longrightarrow> is_digit c"
  by (auto simp: pad0_def dec_def is_digit_def dec_digits_chars [unfolded is_digit_def])

text \<open>A separator that does not occur in the pieces determines them.\<close>

lemma sep_split:
  "c \<notin> set a \<Longrightarrow> c \<notin> set b \<Longrightarrow> a @ c # x = b @ c # y \<longleftrightarrow> a = b \<and> x = y"
proof (induction a arbitrary: b)
  case Nil
  then show ?case by (cases b) auto
next
  case (Cons d a)
  then show ?case by (cases b) auto
qed

section \<open>Maps\<close>

text \<open>
  A Go map is a partial function. A missing key of a map of slices or booleans reads as the
  zero value, and ranging over a map to delete what has expired is a pointwise filter.
\<close>

definition get_list :: "('k \<rightharpoonup> 'v list) \<Rightarrow> 'k \<Rightarrow> 'v list" where
  "get_list m k = (case m k of None \<Rightarrow> [] | Some xs \<Rightarrow> xs)"

definition get_or :: "'v \<Rightarrow> ('k \<rightharpoonup> 'v) \<Rightarrow> 'k \<Rightarrow> 'v" where
  "get_or d m k = (case m k of None \<Rightarrow> d | Some v \<Rightarrow> v)"

definition keep_if :: "('v \<Rightarrow> bool) \<Rightarrow> ('k \<rightharpoonup> 'v) \<Rightarrow> ('k \<rightharpoonup> 'v)" where
  "keep_if P m = (\<lambda>k. case m k of None \<Rightarrow> None | Some v \<Rightarrow> if P v then Some v else None)"

lemma get_list_upd [simp]: "get_list (m(k \<mapsto> xs)) k' = (if k' = k then xs else get_list m k')"
  by (simp add: get_list_def)

lemma get_list_empty [simp]: "get_list (\<lambda>_. None) k = []"
  by (simp add: get_list_def)

lemma get_or_upd [simp]: "get_or d (m(k \<mapsto> v)) k' = (if k' = k then v else get_or d m k')"
  by (simp add: get_or_def)

lemma get_or_del [simp]: "get_or d (m(k := None)) k' = (if k' = k then d else get_or d m k')"
  by (simp add: get_or_def)

lemma get_or_empty [simp]: "get_or d (\<lambda>_. None) k = d"
  by (simp add: get_or_def)

lemma keep_if_Some_iff [simp]: "keep_if P m k = Some v \<longleftrightarrow> m k = Some v \<and> P v"
  by (auto simp: keep_if_def split: option.splits)

lemma keep_if_None_iff: "keep_if P m k = None \<longleftrightarrow> m k = None \<or> (\<exists>v. m k = Some v \<and> \<not> P v)"
  by (auto simp: keep_if_def split: option.splits)

section \<open>Lists\<close>

text \<open>Update of the first element that satisfies a predicate, the shape of the code's search loops.\<close>

fun update_first :: "('a \<Rightarrow> bool) \<Rightarrow> ('a \<Rightarrow> 'a) \<Rightarrow> 'a list \<Rightarrow> 'a list" where
  "update_first P f [] = []"
| "update_first P f (x # xs) = (if P x then f x # xs else x # update_first P f xs)"

lemma length_update_first [simp]: "length (update_first P f xs) = length xs"
  by (induction xs) auto

lemma update_first_none: "find P xs = None \<Longrightarrow> update_first P f xs = xs"
  by (induction xs) (auto split: if_splits)

lemma set_update_first_subset: "set (update_first P f xs) \<subseteq> set xs \<union> f ` {x \<in> set xs. P x}"
  by (induction xs) auto

lemma map_update_first:
  "(\<And>x. P x \<Longrightarrow> g (f x) = g x) \<Longrightarrow> map g (update_first P f xs) = map g xs"
  by (induction xs) auto

lemma sum_list_filter_split:
  fixes f :: "'a \<Rightarrow> int"
  shows "(\<Sum>x\<leftarrow>xs. if P x then f x else 0) = (\<Sum>x\<leftarrow>filter P xs. f x)"
  by (induction xs) auto

section \<open>Interface: an append-only log\<close>

text \<open>
  Several components promise that what has been recorded is never changed or dropped. The
  locale states it for one step; its lemmas carry it to every later state.
\<close>

locale append_only =
  fixes log_of :: "'s \<Rightarrow> 'e list"
    and step :: "'s \<Rightarrow> 's \<Rightarrow> bool"
  assumes step_appends: "step s t \<Longrightarrow> prefix (log_of s) (log_of t)"
begin

lemma run_appends: "step\<^sup>*\<^sup>* s t \<Longrightarrow> prefix (log_of s) (log_of t)"
proof (induction rule: rtranclp_induct)
  case base
  then show ?case by simp
next
  case (step t u)
  then show ?case by (blast intro: prefix_order.trans step_appends)
qed

lemma entry_stays:
  assumes "step\<^sup>*\<^sup>* s t" and "i < length (log_of s)"
  shows "i < length (log_of t) \<and> log_of t ! i = log_of s ! i"
  using run_appends [OF assms(1)] assms(2) by (auto simp: prefix_def nth_append)

lemma length_grows: "step\<^sup>*\<^sup>* s t \<Longrightarrow> length (log_of s) \<le> length (log_of t)"
  by (drule run_appends) (rule prefix_length_le)

end

section \<open>Interface: single-use tokens\<close>

text \<open>
  Challenges, rotated tokens and authorization codes are redeemed at most once. \<open>redeems s e\<close>
  is the token that event \<open>e\<close> redeems in state \<open>s\<close>, if any; \<open>spent\<close> says that a token can
  no longer be redeemed; \<open>ok s e k\<close> is what the environment owes: time does not run
  backwards and the event does not issue the token \<open>k\<close> again. \<open>trace\<close> lists the events of a
  run, each with the state it meets.
\<close>

fun trace :: "('s \<Rightarrow> 'ev \<Rightarrow> 's) \<Rightarrow> 's \<Rightarrow> 'ev list \<Rightarrow> ('s \<times> 'ev) list" where
  "trace step s [] = []"
| "trace step s (e # es) = (s, e) # trace step (step s e) es"

locale single_use =
  fixes step :: "'s \<Rightarrow> 'ev \<Rightarrow> 's"
    and redeems :: "'s \<Rightarrow> 'ev \<Rightarrow> 'k option"
    and spent :: "'s \<Rightarrow> 'k \<Rightarrow> bool"
    and ok :: "'s \<Rightarrow> 'ev \<Rightarrow> 'k \<Rightarrow> bool"
  assumes spent_blocks: "spent s k \<Longrightarrow> ok s e k \<Longrightarrow> redeems s e \<noteq> Some k"
    and redeem_spends: "redeems s e = Some k \<Longrightarrow> ok s e k \<Longrightarrow> spent (step s e) k"
    and spent_stays: "spent s k \<Longrightarrow> ok s e k \<Longrightarrow> spent (step s e) k"
begin

definition allowed :: "'s \<Rightarrow> 'ev list \<Rightarrow> 'k \<Rightarrow> bool" where
  "allowed s es k \<longleftrightarrow> (\<forall>(t, e) \<in> set (trace step s es). ok t e k)"

definition redemptions :: "'s \<Rightarrow> 'ev list \<Rightarrow> 'k \<Rightarrow> nat" where
  "redemptions s es k = length (filter (\<lambda>(t, e). redeems t e = Some k) (trace step s es))"

lemma spent_run: "spent s k \<Longrightarrow> allowed s es k \<Longrightarrow> spent (foldl step s es) k"
  by (induction es arbitrary: s) (auto simp: allowed_def intro: spent_stays)

lemma spent_never_redeemed: "spent s k \<Longrightarrow> allowed s es k \<Longrightarrow> redemptions s es k = 0"
proof (induction es arbitrary: s)
  case Nil
  then show ?case by (simp add: redemptions_def)
next
  case (Cons e es)
  then have "redeems s e \<noteq> Some k" and "spent (step s e) k"
    by (auto simp: allowed_def intro: spent_stays dest: spent_blocks)
  with Cons show ?case by (simp add: redemptions_def allowed_def)
qed

lemma redeemed_at_most_once: "allowed s es k \<Longrightarrow> redemptions s es k \<le> 1"
proof (induction es arbitrary: s)
  case Nil
  then show ?case by (simp add: redemptions_def)
next
  case (Cons e es)
  show ?case
  proof (cases "redeems s e = Some k")
    case True
    with Cons.prems have "spent (step s e) k" by (auto simp: allowed_def intro: redeem_spends)
    with Cons.prems have "redemptions (step s e) es k = 0"
      by (auto simp: allowed_def intro!: spent_never_redeemed)
    with True show ?thesis by (simp add: redemptions_def)
  next
    case False
    with Cons show ?thesis by (simp add: redemptions_def allowed_def)
  qed
qed

end

end
