(* ===== verification/AccountingLedger.thy ===== *)
theory AccountingLedger
  imports FINIX_Prelude
begin

text \<open>
  The double-entry accounting book of \<open>domain/platform/ledger_accounting.go\<close>: entries, the
  posting operations with their guards, the balance of an account, the per-user statement
  and the reconciliation check. Amounts are \<open>int64\<close> paise; sums wrap as Go's do. The two
  random entry ids and the clock are arguments of the operation that draws them.
\<close>

section \<open>Data\<close>

datatype LedgerEntryType = LedgerDebit | LedgerCredit

record AccountingLedgerEntry =
  le_ID :: string
  le_TransactionRef :: string
  le_AccountID :: string
  le_UserID :: string
  le_EntryType :: LedgerEntryType
  le_AmountPaise :: int
  le_CounterpartyRef :: string
  le_Narration :: string
  le_CreatedAt :: time

record AccountingLedger =
  al_entries :: "AccountingLedgerEntry list"
  al_suspenseAccount :: string

definition NewAccountingLedger :: AccountingLedger where
  "NewAccountingLedger = \<lparr>al_entries = [], al_suspenseAccount = ''acct-suspense''\<rparr>"

datatype post_error = AmountNotPositive int | AccountsRequired | SameAccount

type_synonym post_result = "post_error + AccountingLedgerEntry \<times> AccountingLedgerEntry"

section \<open>Posting\<close>

definition PostTransaction ::
  "string \<Rightarrow> string \<Rightarrow> time \<Rightarrow> string \<Rightarrow> string \<Rightarrow> string \<Rightarrow> string \<Rightarrow> string \<Rightarrow> int \<Rightarrow> string
     \<Rightarrow> AccountingLedger \<Rightarrow> post_result \<times> AccountingLedger" where
  "PostTransaction rnd1 rnd2 now ref debitAcc debitUser creditAcc creditUser amount narration al =
     (if amount \<le> 0 then (Inl (AmountNotPositive amount), al)
      else if debitAcc = '''' \<or> creditAcc = '''' then (Inl AccountsRequired, al)
      else if debitAcc = creditAcc then (Inl SameAccount, al)
      else
        let debitEntry = \<lparr>le_ID = ''ldr_'' @ rnd1, le_TransactionRef = ref, le_AccountID = debitAcc,
              le_UserID = debitUser, le_EntryType = LedgerDebit, le_AmountPaise = amount,
              le_CounterpartyRef = creditAcc, le_Narration = narration, le_CreatedAt = now\<rparr>;
            creditEntry = \<lparr>le_ID = ''ldr_'' @ rnd2, le_TransactionRef = ref, le_AccountID = creditAcc,
              le_UserID = creditUser, le_EntryType = LedgerCredit, le_AmountPaise = amount,
              le_CounterpartyRef = debitAcc, le_Narration = narration, le_CreatedAt = now\<rparr>
        in (Inr (debitEntry, creditEntry),
            al\<lparr>al_entries := al_entries al @ [debitEntry, creditEntry]\<rparr>))"

definition PostOutgoingPayment ::
  "string \<Rightarrow> string \<Rightarrow> time \<Rightarrow> string \<Rightarrow> string \<Rightarrow> string \<Rightarrow> string \<Rightarrow> int \<Rightarrow> string
     \<Rightarrow> AccountingLedger \<Rightarrow> post_result \<times> AccountingLedger" where
  "PostOutgoingPayment rnd1 rnd2 now ref userAcc userID recipientRef amount narration al =
     PostTransaction rnd1 rnd2 now ref userAcc userID recipientRef '''' amount narration al"

definition PostContribution ::
  "string \<Rightarrow> string \<Rightarrow> time \<Rightarrow> string \<Rightarrow> string \<Rightarrow> string \<Rightarrow> int \<Rightarrow> string
     \<Rightarrow> AccountingLedger \<Rightarrow> post_result \<times> AccountingLedger" where
  "PostContribution rnd1 rnd2 now ref userAcc userID amount goalName al =
     PostTransaction rnd1 rnd2 now ref userAcc userID ''goals-virtual'' userID amount
       (''Goal contribution: '' @ goalName) al"

definition PostRevenue ::
  "string \<Rightarrow> string \<Rightarrow> time \<Rightarrow> string \<Rightarrow> string \<Rightarrow> string \<Rightarrow> string \<Rightarrow> int \<Rightarrow> string
     \<Rightarrow> AccountingLedger \<Rightarrow> post_result \<times> AccountingLedger" where
  "PostRevenue rnd1 rnd2 now ref creditAcc userID sourceRef amount narration al =
     PostTransaction rnd1 rnd2 now ref sourceRef '''' creditAcc userID amount narration al"

section \<open>Reading\<close>

definition balance_step :: "string \<Rightarrow> int \<Rightarrow> AccountingLedgerEntry \<Rightarrow> int" where
  "balance_step accountID balance e =
     (if le_AccountID e \<noteq> accountID then balance
      else case le_EntryType e of
        LedgerCredit \<Rightarrow> i64 (balance + le_AmountPaise e)
      | LedgerDebit \<Rightarrow> i64 (balance - le_AmountPaise e))"

definition GetBalance :: "string \<Rightarrow> AccountingLedger \<Rightarrow> int" where
  "GetBalance accountID al = foldl (balance_step accountID) 0 (al_entries al)"

text \<open>The backwards loop of the statement: \<open>n\<close> entries are still to be visited.\<close>

fun entries_loop ::
  "AccountingLedgerEntry list \<Rightarrow> string \<Rightarrow> int \<Rightarrow> nat \<Rightarrow> AccountingLedgerEntry list
     \<Rightarrow> AccountingLedgerEntry list" where
  "entries_loop es userID limit 0 result = result"
| "entries_loop es userID limit (Suc i) result =
     (if int (length result) < limit
      then entries_loop es userID limit i
             (if le_UserID (es ! i) = userID then result @ [es ! i] else result)
      else result)"

definition GetEntriesByUser :: "string \<Rightarrow> int \<Rightarrow> AccountingLedger \<Rightarrow> AccountingLedgerEntry list" where
  "GetEntriesByUser userID limit al =
     entries_loop (al_entries al) userID limit (length (al_entries al)) []"

definition GetEntriesByTransaction :: "string \<Rightarrow> AccountingLedger \<Rightarrow> AccountingLedgerEntry list" where
  "GetEntriesByTransaction ref al = filter (\<lambda>e. le_TransactionRef e = ref) (al_entries al)"

definition verify_step :: "int \<times> int \<Rightarrow> AccountingLedgerEntry \<Rightarrow> int \<times> int" where
  "verify_step acc e = (case acc of (debits, credits) \<Rightarrow>
     (case le_EntryType e of
        LedgerDebit \<Rightarrow> (i64 (debits + le_AmountPaise e), credits)
      | LedgerCredit \<Rightarrow> (debits, i64 (credits + le_AmountPaise e))))"

definition VerifyBalance :: "AccountingLedger \<Rightarrow> int \<times> int \<times> bool" where
  "VerifyBalance al = (case foldl verify_step (0, 0) (al_entries al) of
     (debits, credits) \<Rightarrow> (debits, credits, debits = credits))"

definition EntryCount :: "AccountingLedger \<Rightarrow> int" where
  "EntryCount al = int (length (al_entries al))"

definition AllEntries :: "AccountingLedger \<Rightarrow> AccountingLedgerEntry list" where
  "AllEntries al = al_entries al"

section \<open>The book as a state machine\<close>

text \<open>
  Every mutation of the book goes through \<open>PostTransaction\<close>; a step is one call of it, with
  any arguments. The three wrappers are steps too.
\<close>

inductive acct_step :: "AccountingLedger \<Rightarrow> AccountingLedger \<Rightarrow> bool" where
  post: "acct_step al (snd (PostTransaction r1 r2 now ref da du ca cu amt narr al))"

inductive_cases acct_stepE: "acct_step al al'"

abbreviation acct_reachable :: "AccountingLedger \<Rightarrow> bool" where
  "acct_reachable al \<equiv> acct_step\<^sup>*\<^sup>* NewAccountingLedger al"

text \<open>The shape the postings keep: consecutive debit/credit pairs of one positive amount.\<close>

fun paired :: "AccountingLedgerEntry list \<Rightarrow> bool" where
  "paired [] \<longleftrightarrow> True"
| "paired [e] \<longleftrightarrow> False"
| "paired (d # c # es) \<longleftrightarrow>
     le_EntryType d = LedgerDebit \<and> le_EntryType c = LedgerCredit \<and>
     le_TransactionRef d = le_TransactionRef c \<and>
     le_AmountPaise d = le_AmountPaise c \<and> 0 < le_AmountPaise d \<and>
     le_AccountID d \<noteq> le_AccountID c \<and>
     le_CounterpartyRef d = le_AccountID c \<and> le_CounterpartyRef c = le_AccountID d \<and> paired es"

section \<open>Lemmas\<close>

lemma post_cases:
  obtains (refused) e where "PostTransaction r1 r2 now ref da du ca cu amt narr al = (Inl e, al)"
  | (posted) d c where
      "PostTransaction r1 r2 now ref da du ca cu amt narr al
         = (Inr (d, c), al\<lparr>al_entries := al_entries al @ [d, c]\<rparr>)"
      "paired [d, c]" "le_AccountID d = da" "le_AccountID c = ca" "le_AmountPaise d = amt"
      "le_UserID d = du" "le_UserID c = cu" "le_TransactionRef d = ref"
proof (cases "amt \<le> 0 \<or> da = [] \<or> ca = [] \<or> da = ca")
  case True
  then have "\<exists>e. PostTransaction r1 r2 now ref da du ca cu amt narr al = (Inl e, al)"
    by (auto simp: PostTransaction_def)
  then show thesis by (blast intro: refused)
next
  case False
  then show thesis
    by (intro posted) (simp add: PostTransaction_def Let_def, simp_all)
qed

lemma paired_append: "paired xs \<Longrightarrow> paired ys \<Longrightarrow> paired (xs @ ys)"
  by (induction xs rule: paired.induct) auto

lemma paired_even: "paired es \<Longrightarrow> even (length es)"
  by (induction es rule: paired.induct) auto

lemma paired_verify: "paired es \<Longrightarrow> foldl verify_step (x, x) es = (y, z) \<Longrightarrow> y = z"
  by (induction es arbitrary: x rule: paired.induct) (auto simp: verify_step_def)

lemma acct_step_paired: "acct_step al al' \<Longrightarrow> paired (al_entries al) \<Longrightarrow> paired (al_entries al')"
proof (erule acct_stepE)
  fix r1 r2 now ref da du ca cu amt narr
  assume eq: "al' = snd (PostTransaction r1 r2 now ref da du ca cu amt narr al)"
    and p: "paired (al_entries al)"
  show "paired (al_entries al')"
    by (rule post_cases [of r1 r2 now ref da du ca cu amt narr al])
       (use p eq in \<open>auto intro!: paired_append\<close>)
qed

lemma acct_reachable_paired: "acct_reachable al \<Longrightarrow> paired (al_entries al)"
  by (induction rule: rtranclp_induct) (auto simp: NewAccountingLedger_def acct_step_paired)

lemma acct_step_appends: "acct_step al al' \<Longrightarrow> prefix (al_entries al) (al_entries al')"
proof (erule acct_stepE)
  fix r1 r2 now ref da du ca cu amt narr
  assume eq: "al' = snd (PostTransaction r1 r2 now ref da du ca cu amt narr al)"
  show "prefix (al_entries al) (al_entries al')"
    by (rule post_cases [of r1 r2 now ref da du ca cu amt narr al]) (use eq in auto)
qed

interpretation book: append_only al_entries acct_step
  by unfold_locales (rule acct_step_appends)

lemma entries_loop_take:
  assumes "n \<le> length es"
  shows "entries_loop es u lim n res =
           res @ take (nat (lim - int (length res))) (rev (filter (\<lambda>e. le_UserID e = u) (take n es)))"
  using assms
proof (induction n arbitrary: res)
  case 0
  then show ?case by simp
next
  case (Suc i)
  have split: "take (Suc i) es = take i es @ [es ! i]"
    using Suc.prems by (simp add: take_Suc_conv_app_nth)
  show ?case
  proof (cases "int (length res) < lim")
    case True
    then obtain k where "nat (lim - int (length res)) = Suc k"
      by (metis gr0_implies_Suc diff_gt_0_iff_gt zero_less_nat_eq)
    moreover from this have "nat (lim - int (Suc (length res))) = k" by linarith
    ultimately show ?thesis using True Suc by (simp add: split)
  next
    case False
    then show ?thesis by simp
  qed
qed

text \<open>The balance of an account is the wrapped sum of its signed movements.\<close>

definition movement :: "string \<Rightarrow> AccountingLedgerEntry \<Rightarrow> int" where
  "movement accountID e =
     (if le_AccountID e \<noteq> accountID then 0
      else case le_EntryType e of LedgerCredit \<Rightarrow> le_AmountPaise e | LedgerDebit \<Rightarrow> - le_AmountPaise e)"

lemma foldl_balance: "foldl (balance_step a) (i64 b) es = i64 (b + (\<Sum>e\<leftarrow>es. movement a e))"
proof (induction es arbitrary: b)
  case Nil
  then show ?case by simp
next
  case (Cons e es)
  have "balance_step a (i64 b) e = i64 (b + movement a e)"
    by (simp add: balance_step_def movement_def i64_simps split: LedgerEntryType.split)
  with Cons show ?case by (simp add: algebra_simps)
qed

lemma GetBalance_sum: "GetBalance a al = i64 (\<Sum>e\<leftarrow>al_entries al. movement a e)"
  using foldl_balance [of a 0] by (simp add: GetBalance_def)

text \<open>The total of all movements over the accounts of the book is zero: money is only moved.\<close>

definition book_total :: "AccountingLedgerEntry list \<Rightarrow> int" where
  "book_total es = (\<Sum>e\<leftarrow>es. movement (le_AccountID e) e)"

lemma paired_total: "paired es \<Longrightarrow> book_total es = 0"
  by (induction es rule: paired.induct) (auto simp: book_total_def movement_def)

lemma movements_over_accounts:
  assumes "finite A" and "le_AccountID ` set es \<subseteq> A"
  shows "(\<Sum>a\<in>A. \<Sum>e\<leftarrow>es. movement a e) = book_total es"
  using assms(2)
proof (induction es)
  case Nil
  then show ?case by (simp add: book_total_def)
next
  case (Cons e es)
  have "(\<Sum>a\<in>A. movement a e) = (\<Sum>a\<in>A. if a = le_AccountID e then movement a e else 0)"
    by (rule sum.cong) (auto simp: movement_def)
  also have "\<dots> = movement (le_AccountID e) e"
    using Cons.prems assms(1) by simp
  finally show ?case using Cons by (simp add: book_total_def sum.distrib)
qed

section \<open>Properties\<close>

text \<open>
  C1: whatever has been posted, the reconciliation check succeeds (even where the two sums
  wrap), the entries come in pairs, and the balances of all accounts add up to zero.
\<close>
theorem books_balance:
  assumes "acct_reachable al"
  shows "snd (snd (VerifyBalance al)) \<and> even (EntryCount al) \<and>
         i64 (\<Sum>a \<in> le_AccountID ` set (AllEntries al). GetBalance a al) = 0"
proof (intro conjI)
  have p: "paired (al_entries al)" using assms by (rule acct_reachable_paired)
  show "snd (snd (VerifyBalance al))"
    using paired_verify [OF p] by (simp add: VerifyBalance_def split: prod.split)
  show "even (EntryCount al)" using paired_even [OF p] by (simp add: EntryCount_def)
  show "i64 (\<Sum>a \<in> le_AccountID ` set (AllEntries al). GetBalance a al) = 0"
    using paired_total [OF p]
    by (simp add: GetBalance_sum i64_sum AllEntries_def movements_over_accounts)
qed

definition sample_book :: AccountingLedger where
  "sample_book = snd (PostTransaction ''a1'' ''b2'' 5 ''tx1'' ''acc1'' ''u1'' ''acc2'' ''u2'' 250 ''rent''
     NewAccountingLedger)"

theorem books_balance_witness:
  "snd (snd (VerifyBalance sample_book)) \<and> even (EntryCount sample_book) \<and>
   i64 (\<Sum>a \<in> le_AccountID ` set (AllEntries sample_book). GetBalance a sample_book) = 0"
  by (rule books_balance) (simp add: sample_book_def acct_step.post r_into_rtranclp)

text \<open>
  A posting is refused, with the book untouched, exactly on a non-positive amount, a
  missing account or equal accounts; otherwise it appends one debit and one credit entry,
  lowers the debit account by the amount, raises the credit account by it and leaves every
  other account alone.
\<close>
theorem PostTransaction_effect:
  "(case PostTransaction r1 r2 now ref da du ca cu amt narr al of
      (Inl e, al') \<Rightarrow> al' = al \<and> (amt \<le> 0 \<or> da = [] \<or> ca = [] \<or> da = ca)
    | (Inr (d, c), al') \<Rightarrow>
        0 < amt \<and> da \<noteq> [] \<and> ca \<noteq> [] \<and> da \<noteq> ca \<and>
        AllEntries al' = AllEntries al @ [d, c] \<and>
        GetBalance a al' = i64 (GetBalance a al +
          (if a = da then - amt else if a = ca then amt else 0)))"
  by (auto simp: PostTransaction_def Let_def AllEntries_def GetBalance_sum movement_def i64_simps)

text \<open>
  A user's statement is the newest-first list of the entries of that user, cut at the limit
  (empty for a limit that is not positive).
\<close>
theorem GetEntriesByUser_newest_first:
  "GetEntriesByUser u lim al =
     take (nat lim) (rev (filter (\<lambda>e. le_UserID e = u) (AllEntries al)))"
  by (simp add: GetEntriesByUser_def AllEntries_def entries_loop_take)

text \<open>An entry once posted stays at its place, unchanged, in every later state of the book.\<close>
theorem entries_permanent:
  assumes "acct_step\<^sup>*\<^sup>* al al'" and "i < length (AllEntries al)"
  shows "i < length (AllEntries al') \<and> AllEntries al' ! i = AllEntries al ! i"
  using book.entry_stays [OF assms(1)] assms(2) by (simp add: AllEntries_def)

theorem entries_permanent_witness:
  "AllEntries (snd (PostRevenue ''c'' ''d'' 9 ''tx2'' ''acc1'' ''u1'' ''employer'' 90 ''pay'' sample_book)) ! 0
     = AllEntries sample_book ! 0"
proof -
  have "acct_step\<^sup>*\<^sup>* sample_book
      (snd (PostRevenue ''c'' ''d'' 9 ''tx2'' ''acc1'' ''u1'' ''employer'' 90 ''pay'' sample_book))"
    by (simp add: PostRevenue_def acct_step.post r_into_rtranclp)
  moreover have "0 < length (AllEntries sample_book)"
    by (simp add: AllEntries_def sample_book_def PostTransaction_def Let_def)
  ultimately show ?thesis using entries_permanent by blast
qed

end
