(* ===== verification/EventLedger.thy ===== *)
theory EventLedger
  imports FINIX_Prelude
begin

text \<open>
  The event ledger of \<open>domain/blockchain/ledger.go\<close>: hash-chained events, the smart-contract
  rules evaluated over an index of the prior events, the audit-only and the strict write,
  integrity verification and the Merkle root. \<open>H\<close> is \<open>sha256Hex\<close>; a result that needs it to
  be collision free says so, as "or two inputs with the same hash". A payload is the outcome
  of \<open>json.Marshal\<close> on it. The optional Fabric backend is a record of its operations over a
  remote state.
\<close>

section \<open>Data\<close>

record SmartContractResult =
  sc_RuleName :: string
  sc_Passed :: bool
  sc_Violation :: string
  sc_EnforcedAt :: time

definition zero_result :: SmartContractResult where
  "zero_result = \<lparr>sc_RuleName = [], sc_Passed = False, sc_Violation = [], sc_EnforcedAt = 0\<rparr>"

record Event =
  ev_ID :: string
  ev_UserID :: string
  ev_Action :: string
  ev_Resource :: string
  ev_PayloadHash :: string
  ev_PrevHash :: string
  ev_Hash :: string
  ev_Timestamp :: time
  ev_SmartContract :: SmartContractResult
  ev_TxID :: string
  ev_Seq :: int
  ev_Category :: string

definition zero_event :: Event where
  "zero_event = \<lparr>ev_ID = [], ev_UserID = [], ev_Action = [], ev_Resource = [], ev_PayloadHash = [],
     ev_PrevHash = [], ev_Hash = [], ev_Timestamp = 0, ev_SmartContract = zero_result,
     ev_TxID = [], ev_Seq = 0, ev_Category = []\<rparr>"

section \<open>The rule index\<close>

text \<open>\<open>RuleQuery\<close> is the interface the rules see; \<open>eventIndex\<close> is its in-memory provider.\<close>

record RuleQuery =
  rq_EventsByUser :: "string \<Rightarrow> Event list"
  rq_EventsByUserAndAction :: "string \<Rightarrow> string \<Rightarrow> Event list"
  rq_EventByPayloadHash :: "string \<Rightarrow> string \<Rightarrow> Event option"

record eventIndex =
  ix_byUser :: "string \<rightharpoonup> Event list"
  ix_byUserAction :: "string \<rightharpoonup> Event list"
  ix_byUserHash :: "string \<rightharpoonup> Event"

definition index_key :: "string \<Rightarrow> string \<Rightarrow> string" where
  "index_key u s = u @ [CHR 0x00] @ s"

definition index_event :: "eventIndex \<Rightarrow> Event \<Rightarrow> eventIndex" where
  "index_event idx ev =
     (let byUser = (ix_byUser idx)(ev_UserID ev \<mapsto> get_list (ix_byUser idx) (ev_UserID ev) @ [ev]);
          ak = index_key (ev_UserID ev) (ev_Action ev);
          byUserAction = (ix_byUserAction idx)(ak \<mapsto> get_list (ix_byUserAction idx) ak @ [ev]);
          hk = index_key (ev_UserID ev) (ev_PayloadHash ev);
          byUserHash =
            (if ev_PayloadHash ev \<noteq> [] \<and> ix_byUserHash idx hk = None
             then (ix_byUserHash idx)(hk \<mapsto> ev) else ix_byUserHash idx)
      in \<lparr>ix_byUser = byUser, ix_byUserAction = byUserAction, ix_byUserHash = byUserHash\<rparr>)"

definition newEventIndex :: "Event list \<Rightarrow> eventIndex" where
  "newEventIndex events =
     foldl index_event
       \<lparr>ix_byUser = \<lambda>_. None, ix_byUserAction = \<lambda>_. None, ix_byUserHash = \<lambda>_. None\<rparr> events"

definition index_query :: "eventIndex \<Rightarrow> RuleQuery" where
  "index_query idx =
     \<lparr>rq_EventsByUser = \<lambda>u. get_list (ix_byUser idx) u,
      rq_EventsByUserAndAction = \<lambda>u a. get_list (ix_byUserAction idx) (index_key u a),
      rq_EventByPayloadHash = \<lambda>u h. ix_byUserHash idx (index_key u h)\<rparr>"

section \<open>Smart-contract rules\<close>

type_synonym rule = "time \<Rightarrow> Event \<Rightarrow> RuleQuery \<Rightarrow> SmartContractResult"

definition passed_result :: "string \<Rightarrow> time \<Rightarrow> SmartContractResult" where
  "passed_result name now =
     \<lparr>sc_RuleName = name, sc_Passed = True, sc_Violation = [], sc_EnforcedAt = now\<rparr>"

definition CoolingOffRule :: rule where
  "CoolingOffRule now event q =
     (let result = passed_result ''cooling_off_enforcement'' now in
      if (ev_Action event = ''transaction_blocked'' \<or> ev_Action event = ''transaction_initiated'')
         \<and> list_ex (\<lambda>prevEv. ev_Timestamp event - ev_Timestamp prevEv < 6 * hour)
             (rq_EventsByUserAndAction q (ev_UserID event) ''transaction_blocked'')
      then result\<lparr>sc_Passed := False, sc_Violation :=
             ''cooling-off period active: previous blocked transaction within 6 hours''\<rparr>
      else result)"

definition ConsentRevocationRule :: rule where
  "ConsentRevocationRule now event q =
     (let result = passed_result ''consent_revocation_enforcement'' now in
      if (ev_Resource event = ''account_aggregator'' \<or> ev_Resource event = ''data_export'')
         \<and> list_ex (\<lambda>prevEv. ev_Timestamp prevEv < ev_Timestamp event)
             (rq_EventsByUserAndAction q (ev_UserID event) ''consent_revoked'')
      then result\<lparr>sc_Passed := False, sc_Violation :=
             ''consent was revoked before this data access event''\<rparr>
      else result)"

definition DoubleSpendRule :: rule where
  "DoubleSpendRule now event q =
     (let result = passed_result ''double_spend_prevention'' now in
      if ev_Action event = ''transaction_initiated'' then
        (case rq_EventByPayloadHash q (ev_UserID event) (ev_PayloadHash event) of
           None \<Rightarrow> result
         | Some prevEv \<Rightarrow>
             if ev_Action prevEv = ''transaction_initiated''
             then result\<lparr>sc_Passed := False, sc_Violation :=
                    ''duplicate transaction detected: same payload hash already exists''\<rparr>
             else result)
      else result)"

section \<open>The ledger and its Fabric backend\<close>

record FabricEvent =
  fe_ID :: string
  fe_UserID :: string
  fe_Action :: string
  fe_Resource :: string
  fe_Category :: string
  fe_PayloadHash :: string
  fe_PrevHash :: string
  fe_Hash :: string
  fe_Timestamp :: time
  fe_Seq :: int
  fe_TxID :: string
  fe_SmartContract :: SmartContractResult

record FabricProof =
  fp_MerkleRoot :: string
  fp_EventCount :: int
  fp_HeadHash :: string
  fp_Intact :: bool
  fp_Detail :: string

type_synonym payload = "string option"

record 'f FabricBackend =
  fb_RecordEvent :: "string \<Rightarrow> string \<Rightarrow> string \<Rightarrow> payload \<Rightarrow> 'f \<Rightarrow> (string + FabricEvent) \<times> 'f"
  fb_QueryByUser :: "string \<Rightarrow> 'f \<Rightarrow> string + FabricEvent list"
  fb_QueryByCategory :: "string \<Rightarrow> string \<Rightarrow> 'f \<Rightarrow> string + FabricEvent list"
  fb_GetProof :: "string \<Rightarrow> 'f \<Rightarrow> string + FabricProof"
  fb_VerifyCoolingOff :: "string \<Rightarrow> 'f \<Rightarrow> string + bool \<times> duration"
  fb_BlockHeight :: "'f \<Rightarrow> string + int"

record 'f Ledger =
  ld_events :: "Event list"
  ld_rules :: "rule list"
  ld_fabric :: "('f FabricBackend \<times> 'f) option"

definition registerDefaultRules :: "'f Ledger \<Rightarrow> 'f Ledger" where
  "registerDefaultRules l =
     l\<lparr>ld_rules := [CoolingOffRule, ConsentRevocationRule, DoubleSpendRule]\<rparr>"

definition NewLedger :: "'f Ledger" where
  "NewLedger = registerDefaultRules \<lparr>ld_events = [], ld_rules = [], ld_fabric = None\<rparr>"

definition UseFabric :: "('f FabricBackend \<times> 'f) option \<Rightarrow> 'f Ledger \<Rightarrow> 'f Ledger" where
  "UseFabric backend l = l\<lparr>ld_fabric := backend\<rparr>"

definition NewFabricLedger :: "'f FabricBackend \<times> 'f \<Rightarrow> 'f Ledger" where
  "NewFabricLedger backend = NewLedger\<lparr>ld_fabric := Some backend\<rparr>"

definition FabricEnabled :: "'f Ledger \<Rightarrow> bool" where
  "FabricEnabled l \<longleftrightarrow> ld_fabric l \<noteq> None"

definition AddRule :: "rule \<Rightarrow> 'f Ledger \<Rightarrow> 'f Ledger" where
  "AddRule r l = l\<lparr>ld_rules := ld_rules l @ [r]\<rparr>"

definition fromFabric :: "FabricEvent \<Rightarrow> Event" where
  "fromFabric fe =
     \<lparr>ev_ID = fe_ID fe, ev_UserID = fe_UserID fe, ev_Action = fe_Action fe,
      ev_Resource = fe_Resource fe, ev_PayloadHash = fe_PayloadHash fe,
      ev_PrevHash = fe_PrevHash fe, ev_Hash = fe_Hash fe, ev_Timestamp = fe_Timestamp fe,
      ev_SmartContract = fe_SmartContract fe, ev_TxID = fe_TxID fe, ev_Seq = fe_Seq fe,
      ev_Category = fe_Category fe\<rparr>"

definition categoryFor :: "string \<Rightarrow> string" where
  "categoryFor resource =
     (if resource \<in> {''transaction'', ''payment'', ''consent'', ''kyc'', ''goal'', ''security'',
                     ''audit'', ''blockchain_record''}
      then resource else ''audit'')"

section \<open>Writing\<close>

definition event_preimage :: "string \<Rightarrow> string \<Rightarrow> string \<Rightarrow> string \<Rightarrow> string \<Rightarrow> time \<Rightarrow> string" where
  "event_preimage prevHash payloadHash userID action resource now =
     prevHash @ payloadHash @ userID @ action @ resource @ rfc3339nano now"

text \<open>The rule loop; \<open>clk i\<close> is what the \<open>i\<close>-th rule reads from the clock.\<close>

fun run_rules ::
  "(nat \<Rightarrow> time) \<Rightarrow> nat \<Rightarrow> rule list \<Rightarrow> RuleQuery \<Rightarrow> Event \<Rightarrow> bool \<Rightarrow> string list
     \<Rightarrow> Event \<times> bool \<times> string list" where
  "run_rules clk i [] q ev allPassed violations = (ev, allPassed, violations)"
| "run_rules clk i (r # rs) q ev allPassed violations =
     (let result = r (clk i) ev q;
          ev' = ev\<lparr>ev_SmartContract := result\<rparr>
      in if \<not> sc_Passed result
         then run_rules clk (Suc i) rs q ev' False (violations @ [sc_Violation result])
         else run_rules clk (Suc i) rs q ev' allPassed violations)"

fun join :: "string \<Rightarrow> string list \<Rightarrow> string" where
  "join sep [] = []"
| "join sep [x] = x"
| "join sep (x # y # xs) = x @ sep @ join sep (y # xs)"

datatype write_error = MarshalError | FabricError string | SmartContractViolation string

definition writeEventInMemory ::
  "(string \<Rightarrow> string) \<Rightarrow> time \<Rightarrow> (nat \<Rightarrow> time) \<Rightarrow> string \<Rightarrow> string \<Rightarrow> string \<Rightarrow> payload \<Rightarrow> 'f Ledger
     \<Rightarrow> (Event \<times> string list \<times> write_error option) \<times> 'f Ledger" where
  "writeEventInMemory H now clk userID action resource payload l =
     (case payload of
        None \<Rightarrow> ((zero_event, [], Some MarshalError), l)
      | Some payloadBytes \<Rightarrow>
          let payloadHash = H payloadBytes;
              prevHash = (if 0 < length (ld_events l) then ev_Hash (last (ld_events l)) else []);
              idn = ''ledger-'' @ dec (int (length (ld_events l)) + 1);
              eventHash = H (event_preimage prevHash payloadHash userID action resource now);
              ev = zero_event\<lparr>ev_ID := idn, ev_UserID := userID, ev_Action := action,
                     ev_Resource := resource, ev_PayloadHash := payloadHash,
                     ev_PrevHash := prevHash, ev_Hash := eventHash, ev_Timestamp := now\<rparr>;
              query = index_query (newEventIndex (ld_events l))
          in case run_rules clk 0 (ld_rules l) query ev True [] of
               (ev1, allPassed, ruleViolations) \<Rightarrow>
                 let ev2 = (if \<not> allPassed
                            then ev1\<lparr>ev_SmartContract := (ev_SmartContract ev1)\<lparr>sc_Violation :=
                              ''smart contract violations: ['' @ join '' '' ruleViolations @ '']''\<rparr>\<rparr>
                            else ev1)
                 in ((ev2, ruleViolations, None), l\<lparr>ld_events := ld_events l @ [ev2]\<rparr>))"

definition fabric_write ::
  "string \<Rightarrow> string \<Rightarrow> string \<Rightarrow> payload \<Rightarrow> 'f FabricBackend \<Rightarrow> 'f \<Rightarrow> 'f Ledger
     \<Rightarrow> (Event \<times> write_error option) \<times> 'f Ledger" where
  "fabric_write userID action resource payload fb s l =
     (case fb_RecordEvent fb (categoryFor resource) userID action payload s of
        (Inl e, s') \<Rightarrow> ((zero_event, Some (FabricError e)), l\<lparr>ld_fabric := Some (fb, s')\<rparr>)
      | (Inr fe, s') \<Rightarrow> ((fromFabric fe, None), l\<lparr>ld_fabric := Some (fb, s')\<rparr>))"

definition WriteEvent ::
  "(string \<Rightarrow> string) \<Rightarrow> time \<Rightarrow> (nat \<Rightarrow> time) \<Rightarrow> string \<Rightarrow> string \<Rightarrow> string \<Rightarrow> payload \<Rightarrow> 'f Ledger
     \<Rightarrow> (Event \<times> write_error option) \<times> 'f Ledger" where
  "WriteEvent H now clk userID action resource payload l =
     (case ld_fabric l of
        Some (fb, s) \<Rightarrow> fabric_write userID action resource payload fb s l
      | None \<Rightarrow>
          (case writeEventInMemory H now clk userID action resource payload l of
             ((ev, _, err), l') \<Rightarrow> ((ev, err), l')))"

definition WriteEventStrict ::
  "(string \<Rightarrow> string) \<Rightarrow> time \<Rightarrow> (nat \<Rightarrow> time) \<Rightarrow> string \<Rightarrow> string \<Rightarrow> string \<Rightarrow> payload \<Rightarrow> 'f Ledger
     \<Rightarrow> (Event \<times> write_error option) \<times> 'f Ledger" where
  "WriteEventStrict H now clk userID action resource payload l =
     (case ld_fabric l of
        Some (fb, s) \<Rightarrow> fabric_write userID action resource payload fb s l
      | None \<Rightarrow>
          (case writeEventInMemory H now clk userID action resource payload l of
             ((ev, violations, Some e), l') \<Rightarrow> ((zero_event, Some e), l')
           | ((ev, violations, None), l') \<Rightarrow>
               if 0 < length violations
               then ((ev, Some (SmartContractViolation (join ''; '' violations))), l')
               else ((ev, None), l')))"

section \<open>Reading and verifying\<close>

definition EventsByUser :: "string \<Rightarrow> 'f Ledger \<Rightarrow> Event list" where
  "EventsByUser userID l =
     (let local = (if userID = [] then ld_events l
                   else filter (\<lambda>ev. ev_UserID ev = userID) (ld_events l)) in
      case ld_fabric l of
        Some (fb, s) \<Rightarrow>
          if userID \<noteq> [] then
            (case fb_QueryByUser fb userID s of
               Inr fes \<Rightarrow> map fromFabric fes
             | Inl _ \<Rightarrow> local)
          else local
      | None \<Rightarrow> local)"

fun cooling_scan :: "time \<Rightarrow> string \<Rightarrow> Event list \<Rightarrow> bool \<times> duration" where
  "cooling_scan now userID [] = (False, 0)"
| "cooling_scan now userID (ev # evs) =
     (if ev_UserID ev \<noteq> userID then cooling_scan now userID evs
      else if ev_Action ev \<noteq> ''transaction_initiated'' \<and> ev_Action ev \<noteq> ''transaction_blocked''
      then cooling_scan now userID evs
      else if \<not> sc_Passed (ev_SmartContract ev) then cooling_scan now userID evs
      else let coolingEnd = ev_Timestamp ev + 6 * hour in
        if now < coolingEnd then (True, coolingEnd - now) else cooling_scan now userID evs)"

definition VerifyCoolingOff :: "time \<Rightarrow> string \<Rightarrow> 'f Ledger \<Rightarrow> bool \<times> duration" where
  "VerifyCoolingOff now userID l =
     (case ld_fabric l of
        Some (fb, s) \<Rightarrow>
          (case fb_VerifyCoolingOff fb userID s of
             Inr ar \<Rightarrow> ar
           | Inl _ \<Rightarrow> cooling_scan now userID (ld_events l))
      | None \<Rightarrow> cooling_scan now userID (ld_events l))"

datatype integrity =
    Intact
  | ChainBroken string string string
  | HashMismatch string string string
  | FabricUnreachable string
  | FabricZeroHeight
  | FabricIntact int

fun verify_chain :: "(string \<Rightarrow> string) \<Rightarrow> string \<Rightarrow> Event list \<Rightarrow> integrity" where
  "verify_chain H expectedPrevHash [] = Intact"
| "verify_chain H expectedPrevHash (ev # evs) =
     (if ev_PrevHash ev \<noteq> expectedPrevHash
      then ChainBroken (ev_ID ev) expectedPrevHash (ev_PrevHash ev)
      else let expectedHash = H (event_preimage (ev_PrevHash ev) (ev_PayloadHash ev) (ev_UserID ev)
                                   (ev_Action ev) (ev_Resource ev) (ev_Timestamp ev)) in
        if ev_Hash ev \<noteq> expectedHash then HashMismatch (ev_ID ev) expectedHash (ev_Hash ev)
        else verify_chain H (ev_Hash ev) evs)"

definition VerifyIntegrity :: "(string \<Rightarrow> string) \<Rightarrow> 'f Ledger \<Rightarrow> bool \<times> integrity" where
  "VerifyIntegrity H l =
     (case ld_fabric l of
        Some (fb, s) \<Rightarrow>
          (case fb_BlockHeight fb s of
             Inl e \<Rightarrow> (False, FabricUnreachable e)
           | Inr height \<Rightarrow> if height = 0 then (False, FabricZeroHeight) else (True, FabricIntact height))
      | None \<Rightarrow> (case verify_chain H [] (ld_events l) of
            Intact \<Rightarrow> (True, Intact) | r \<Rightarrow> (False, r)))"

text \<open>One level of the Merkle tree pairs neighbours and pairs an odd last hash with itself.\<close>

fun merkle_level :: "(string \<Rightarrow> string) \<Rightarrow> string list \<Rightarrow> string list" where
  "merkle_level H [] = []"
| "merkle_level H [h] = [H (h @ h)]"
| "merkle_level H (h1 # h2 # hs) = H (h1 @ h2) # merkle_level H hs"

lemma length_merkle_level: "length (merkle_level H hs) = (length hs + 1) div 2"
  by (induction H hs rule: merkle_level.induct) auto

function merkle_fold :: "(string \<Rightarrow> string) \<Rightarrow> string list \<Rightarrow> string list" where
  "merkle_fold H hs = (if 1 < length hs then merkle_fold H (merkle_level H hs) else hs)"
  by auto
termination
  by (relation "measure (\<lambda>(H, hs). length hs)") (auto simp: length_merkle_level)

declare merkle_fold.simps [simp del]

definition MerkleRoot :: "(string \<Rightarrow> string) \<Rightarrow> string \<Rightarrow> 'f Ledger \<Rightarrow> string" where
  "MerkleRoot H userID l =
     (let local = (case map ev_Hash (EventsByUser userID l) of
                     [] \<Rightarrow> []
                   | hashes \<Rightarrow> hd (merkle_fold H hashes)) in
      case ld_fabric l of
        Some (fb, s) \<Rightarrow>
          if userID \<noteq> [] then
            (case fb_GetProof fb userID s of Inr proof \<Rightarrow> fp_MerkleRoot proof | Inl _ \<Rightarrow> local)
          else local
      | None \<Rightarrow> local)"

definition EventCount :: "'f Ledger \<Rightarrow> int" where
  "EventCount l = int (length (ld_events l))"

section \<open>What the rules ask of the index\<close>

definition nul_free :: "string \<Rightarrow> bool" where
  "nul_free u \<longleftrightarrow> CHR 0x00 \<notin> set u"

definition cooling_hit :: "Event \<Rightarrow> Event list \<Rightarrow> bool" where
  "cooling_hit ev prior \<longleftrightarrow> ev_Action ev \<in> {''transaction_blocked'', ''transaction_initiated''} \<and>
     (\<exists>p \<in> set prior. ev_UserID p = ev_UserID ev \<and> ev_Action p = ''transaction_blocked'' \<and>
        ev_Timestamp ev - ev_Timestamp p < 6 * hour)"

definition revoked_hit :: "Event \<Rightarrow> Event list \<Rightarrow> bool" where
  "revoked_hit ev prior \<longleftrightarrow> ev_Resource ev \<in> {''account_aggregator'', ''data_export''} \<and>
     (\<exists>p \<in> set prior. ev_UserID p = ev_UserID ev \<and> ev_Action p = ''consent_revoked'' \<and>
        ev_Timestamp p < ev_Timestamp ev)"

text \<open>Only the first event with the payload hash is consulted, whatever its action.\<close>

definition duplicate_hit :: "Event \<Rightarrow> Event list \<Rightarrow> bool" where
  "duplicate_hit ev prior \<longleftrightarrow> ev_Action ev = ''transaction_initiated'' \<and>
     (case find (\<lambda>p. ev_UserID p = ev_UserID ev \<and> ev_PayloadHash p = ev_PayloadHash ev) prior of
        None \<Rightarrow> False | Some p \<Rightarrow> ev_Action p = ''transaction_initiated'')"

locale rule_query =
  fixes q :: RuleQuery
    and prior :: "Event list"
    and known :: "string \<Rightarrow> bool"
  assumes by_user: "rq_EventsByUser q u = filter (\<lambda>e. ev_UserID e = u) prior"
    and by_action: "known u \<Longrightarrow>
          rq_EventsByUserAndAction q u a = filter (\<lambda>e. ev_UserID e = u \<and> ev_Action e = a) prior"
    and by_hash: "known u \<Longrightarrow> h \<noteq> [] \<Longrightarrow>
          rq_EventByPayloadHash q u h = find (\<lambda>e. ev_UserID e = u \<and> ev_PayloadHash e = h) prior"
begin

lemma cooling_passed:
  "known (ev_UserID ev) \<Longrightarrow> sc_Passed (CoolingOffRule now ev q) \<longleftrightarrow> \<not> cooling_hit ev prior"
  by (auto simp: CoolingOffRule_def cooling_hit_def passed_result_def by_action list_ex_iff Let_def)

lemma revocation_passed:
  "known (ev_UserID ev) \<Longrightarrow> sc_Passed (ConsentRevocationRule now ev q) \<longleftrightarrow> \<not> revoked_hit ev prior"
  by (auto simp: ConsentRevocationRule_def revoked_hit_def passed_result_def by_action list_ex_iff Let_def)

lemma double_spend_passed:
  "known (ev_UserID ev) \<Longrightarrow> ev_PayloadHash ev \<noteq> [] \<Longrightarrow>
     sc_Passed (DoubleSpendRule now ev q) \<longleftrightarrow> \<not> duplicate_hit ev prior"
  by (auto simp: DoubleSpendRule_def duplicate_hit_def passed_result_def by_hash Let_def
      split: option.splits)

lemmas rules_passed = cooling_passed revocation_passed double_spend_passed

end

lemma index_key_inj:
  "nul_free u \<Longrightarrow> nul_free v \<Longrightarrow> index_key u s = index_key v t \<longleftrightarrow> u = v \<and> s = t"
proof (induction u arbitrary: v)
  case Nil
  then show ?case by (cases v) (auto simp: index_key_def nul_free_def)
next
  case (Cons c u)
  then show ?case by (cases v) (auto simp: index_key_def nul_free_def)
qed

lemma newEventIndex_snoc: "newEventIndex (es @ [e]) = index_event (newEventIndex es) e"
  by (simp add: newEventIndex_def)

lemma index_by_user: "get_list (ix_byUser (newEventIndex es)) u = filter (\<lambda>e. ev_UserID e = u) es"
proof (induction es rule: rev_induct)
  case Nil
  then show ?case by (simp add: newEventIndex_def)
next
  case (snoc e es)
  then show ?case by (auto simp: newEventIndex_snoc index_event_def Let_def get_list_def)
qed

lemma index_by_action:
  assumes "nul_free u" and "\<forall>e \<in> set es. nul_free (ev_UserID e)"
  shows "get_list (ix_byUserAction (newEventIndex es)) (index_key u a)
           = filter (\<lambda>e. ev_UserID e = u \<and> ev_Action e = a) es"
  using assms(2)
proof (induction es rule: rev_induct)
  case Nil
  then show ?case by (simp add: newEventIndex_def)
next
  case (snoc e es)
  then show ?case using assms(1)
    by (auto simp: newEventIndex_snoc index_event_def Let_def index_key_inj get_list_def)
qed

lemma find_snoc: "find P (xs @ [x]) = (case find P xs of None \<Rightarrow> if P x then Some x else None | r \<Rightarrow> r)"
  by (induction xs) auto

lemma index_by_hash:
  assumes "nul_free u" and "h \<noteq> []" and "\<forall>e \<in> set es. nul_free (ev_UserID e)"
  shows "ix_byUserHash (newEventIndex es) (index_key u h)
           = find (\<lambda>e. ev_UserID e = u \<and> ev_PayloadHash e = h) es"
  using assms(3)
proof (induction es rule: rev_induct)
  case Nil
  then show ?case by (simp add: newEventIndex_def)
next
  case (snoc e es)
  then show ?case using assms(1,2)
    by (auto simp: newEventIndex_snoc index_event_def Let_def index_key_inj find_snoc
        split: option.splits)
qed

definition all_nul_free :: "Event list \<Rightarrow> bool" where
  "all_nul_free es \<longleftrightarrow> (\<forall>e \<in> set es. nul_free (ev_UserID e))"

interpretation idx: rule_query "index_query (newEventIndex es)" es "\<lambda>u. nul_free u \<and> all_nul_free es"
  for es
  by unfold_locales
     (auto simp: index_query_def index_by_user index_by_action index_by_hash all_nul_free_def)

section \<open>The chain\<close>

definition event_seal :: "Event \<Rightarrow> string" where
  "event_seal ev = event_preimage (ev_PrevHash ev) (ev_PayloadHash ev) (ev_UserID ev)
     (ev_Action ev) (ev_Resource ev) (ev_Timestamp ev)"

definition last_hash :: "string \<Rightarrow> Event list \<Rightarrow> string" where
  "last_hash p es = (if es = [] then p else ev_Hash (last es))"

lemma last_hash_simps [simp]:
  "last_hash p [] = p" "last_hash p (es @ [e]) = ev_Hash e"
  "last_hash p (e # es) = last_hash (ev_Hash e) es"
  by (auto simp: last_hash_def)

lemma verify_chain_snoc:
  "verify_chain H p (es @ [e]) = Intact \<longleftrightarrow>
     verify_chain H p es = Intact \<and> ev_PrevHash e = last_hash p es \<and> ev_Hash e = H (event_seal e)"
  by (induction es arbitrary: p) (auto simp: event_seal_def Let_def)

lemma run_rules_event:
  "\<exists>r. fst (run_rules clk i rs q ev ok vs) = ev\<lparr>ev_SmartContract := r\<rparr>"
proof (induction rs arbitrary: i ev ok vs)
  case Nil
  have "ev = ev\<lparr>ev_SmartContract := ev_SmartContract ev\<rparr>" by simp
  then show ?case by (simp only: run_rules.simps fst_conv) blast
next
  case (Cons r rs)
  let ?e = "ev\<lparr>ev_SmartContract := r (clk i) ev q\<rparr>"
  have "\<exists>x. fst (run_rules clk (Suc i) rs q ?e ok' vs') = ?e\<lparr>ev_SmartContract := x\<rparr>" for ok' vs'
    by (rule Cons.IH)
  then show ?case by (simp add: Let_def)
qed

text \<open>What a successful in-memory write appends: a sealed event linked to the last one.\<close>

lemma writeEventInMemory_appends:
  assumes "writeEventInMemory H now clk u a res (Some b) l = ((ev, vs, err), l')"
  shows "err = None \<and> l' = l\<lparr>ld_events := ld_events l @ [ev]\<rparr> \<and>
         ev_PrevHash ev = last_hash [] (ld_events l) \<and> ev_Hash ev = H (event_seal ev) \<and>
         ev_UserID ev = u \<and> ev_Action ev = a \<and> ev_Resource ev = res \<and>
         ev_PayloadHash ev = H b \<and> ev_Timestamp ev = now"
proof -
  let ?ev = "zero_event\<lparr>ev_ID := ''ledger-'' @ dec (int (length (ld_events l)) + 1), ev_UserID := u,
      ev_Action := a, ev_Resource := res, ev_PayloadHash := H b,
      ev_PrevHash := last_hash [] (ld_events l),
      ev_Hash := H (event_preimage (last_hash [] (ld_events l)) (H b) u a res now),
      ev_Timestamp := now\<rparr>"
  obtain e1 ok vs1 where
    run: "run_rules clk 0 (ld_rules l) (index_query (newEventIndex (ld_events l))) ?ev True []
            = (e1, ok, vs1)"
    by (metis prod_cases3)
  obtain r where e1: "e1 = ?ev\<lparr>ev_SmartContract := r\<rparr>"
    using run_rules_event [of clk 0 "ld_rules l"] run by (metis fst_conv)
  have "ev = e1 \<or> (\<exists>c. ev = e1\<lparr>ev_SmartContract := c\<rparr>)" and "err = None"
    and "l' = l\<lparr>ld_events := ld_events l @ [ev]\<rparr>"
    using assms run
    by (auto simp: writeEventInMemory_def Let_def last_hash_def split: if_splits)
  then show ?thesis using e1 by (auto simp: event_seal_def)
qed

lemma writeEventInMemory_fails:
  "writeEventInMemory H now clk u a res None l = ((zero_event, [], Some MarshalError), l)"
  by (simp add: writeEventInMemory_def)

text \<open>
  A step of the in-memory ledger: an audit-only write, a strict write, or one more rule.
\<close>

inductive ld_step :: "(string \<Rightarrow> string) \<Rightarrow> 'f Ledger \<Rightarrow> 'f Ledger \<Rightarrow> bool" for H where
  audit: "ld_fabric l = None \<Longrightarrow> ld_step H l (snd (WriteEvent H now clk u a res pl l))"
| strict: "ld_fabric l = None \<Longrightarrow> ld_step H l (snd (WriteEventStrict H now clk u a res pl l))"
| rule: "ld_fabric l = None \<Longrightarrow> ld_step H l (AddRule r l)"

inductive_cases ld_stepE: "ld_step H l l'"

lemma WriteEvent_local:
  "ld_fabric l = None \<Longrightarrow>
     WriteEvent H now clk u a res pl l =
       (case writeEventInMemory H now clk u a res pl l of ((ev, vs, err), l') \<Rightarrow> ((ev, err), l'))"
  by (simp add: WriteEvent_def)

lemma WriteEventStrict_local:
  "ld_fabric l = None \<Longrightarrow>
     snd (WriteEventStrict H now clk u a res pl l) = snd (writeEventInMemory H now clk u a res pl l)"
  by (auto simp: WriteEventStrict_def split: prod.split option.split)

lemma ld_step_cases:
  assumes "ld_step H l l'"
  shows "ld_fabric l = None \<and> ld_fabric l' = None \<and>
         (ld_events l' = ld_events l \<or>
          (\<exists>ev. ld_events l' = ld_events l @ [ev] \<and> ev_PrevHash ev = last_hash [] (ld_events l) \<and>
                ev_Hash ev = H (event_seal ev)))"
proof -
  have mem: "ld_fabric (snd (writeEventInMemory H now clk u a res pl l)) = ld_fabric l \<and>
      (ld_events (snd (writeEventInMemory H now clk u a res pl l)) = ld_events l \<or>
       (\<exists>ev. ld_events (snd (writeEventInMemory H now clk u a res pl l)) = ld_events l @ [ev] \<and>
          ev_PrevHash ev = last_hash [] (ld_events l) \<and> ev_Hash ev = H (event_seal ev)))"
    for now clk u a res pl
  proof (cases pl)
    case None
    then show ?thesis by (simp add: writeEventInMemory_fails)
  next
    case (Some b)
    obtain ev vs err l2 where "writeEventInMemory H now clk u a res pl l = ((ev, vs, err), l2)"
      by (metis prod.exhaust)
    with writeEventInMemory_appends [of H now clk u a res b l ev vs err l2] Some
    show ?thesis by auto
  qed
  from assms show ?thesis
  proof cases
    case (audit now clk u a res pl)
    then show ?thesis using mem [of now clk u a res pl]
      by (auto simp: WriteEvent_local split: prod.splits)
  next
    case (strict now clk u a res pl)
    then show ?thesis using mem [of now clk u a res pl] by (auto simp: WriteEventStrict_local)
  next
    case (rule r)
    then show ?thesis by (simp add: AddRule_def)
  qed
qed

lemma ld_step_intact:
  "ld_step H l l' \<Longrightarrow> verify_chain H [] (ld_events l) = Intact \<Longrightarrow>
     verify_chain H [] (ld_events l') = Intact"
  by (drule ld_step_cases) (auto simp: verify_chain_snoc)

lemma ld_step_appends: "ld_step H l l' \<Longrightarrow> prefix (ld_events l) (ld_events l')"
  by (drule ld_step_cases) auto

interpretation chain_log: append_only ld_events "ld_step H" for H
  by unfold_locales (rule ld_step_appends)

abbreviation ld_reachable :: "(string \<Rightarrow> string) \<Rightarrow> 'f Ledger \<Rightarrow> bool" where
  "ld_reachable H l \<equiv> (ld_step H)\<^sup>*\<^sup>* NewLedger l"

lemma NewLedger_fields [simp]:
  "ld_events NewLedger = []" "ld_fabric NewLedger = None"
  "ld_rules NewLedger = [CoolingOffRule, ConsentRevocationRule, DoubleSpendRule]"
  by (simp_all add: NewLedger_def registerDefaultRules_def)

lemma ld_reachable_intact:
  "ld_reachable H l \<Longrightarrow> ld_fabric l = None \<and> verify_chain H [] (ld_events l) = Intact"
  by (induction rule: rtranclp_induct) (auto dest: ld_step_cases ld_step_intact)

lemma VerifyIntegrity_local:
  "ld_fabric l = None \<Longrightarrow> fst (VerifyIntegrity H l) \<longleftrightarrow> verify_chain H [] (ld_events l) = Intact"
  by (simp add: VerifyIntegrity_def split: integrity.split)

section \<open>Tampering\<close>

text \<open>
  A fixed-length hash has collisions somewhere; what matters is that there is none among the
  strings actually hashed, so the hypotheses below are \<open>inj_on H\<close> of exactly those.
\<close>

abbreviation seals :: "Event list \<Rightarrow> string set" where
  "seals es \<equiv> event_seal ` set es"

lemma chain_seals_eq:
  assumes len: "\<And>x. length (H x) = n"
    and "verify_chain H [] es = Intact" "verify_chain H [] es' = Intact"
    and "length es = length es'" and "last_hash [] es = last_hash [] es'"
    and "inj_on H (seals es \<union> seals es')"
  shows "map event_seal es = map event_seal es'"
  using assms(2-)
proof (induction es arbitrary: es' rule: rev_induct)
  case Nil
  then show ?case by simp
next
  case (snoc e es)
  then obtain fs f where es': "es' = fs @ [f]" and l: "length es = length fs"
    by (metis length_append_singleton length_Suc_conv_rev)
  have ok: "verify_chain H [] es = Intact" "verify_chain H [] fs = Intact"
    and prev: "ev_PrevHash e = last_hash [] es" "ev_PrevHash f = last_hash [] fs"
    and hash: "ev_Hash e = H (event_seal e)" "ev_Hash f = H (event_seal f)"
    using snoc.prems by (auto simp: es' verify_chain_snoc)
  have "H (event_seal e) = H (event_seal f)" using snoc.prems by (simp add: es' hash)
  then have seal: "event_seal e = event_seal f"
    by (rule inj_onD [OF snoc.prems(5)]) (simp_all add: es')
  have lh: "length (last_hash [] xs) = (if xs = [] then 0 else n)"
    if "verify_chain H [] xs = Intact" for xs
    using that len by (cases xs rule: rev_cases) (auto simp: verify_chain_snoc)
  have "length (ev_PrevHash e) = length (ev_PrevHash f)"
    using l by (auto simp: prev lh ok)
  then have "last_hash [] es = last_hash [] fs"
    using seal by (simp add: event_seal_def event_preimage_def prev)
  moreover have "inj_on H (seals es \<union> seals fs)"
    using snoc.prems(5) by (rule inj_on_subset) (auto simp: es')
  ultimately have "map event_seal es = map event_seal fs"
    using snoc.IH ok l by blast
  with seal show ?case by (simp add: es')
qed

lemma verify_chain_Cons:
  "verify_chain H p (e # es) = Intact \<longleftrightarrow>
     ev_PrevHash e = p \<and> ev_Hash e = H (event_seal e) \<and> verify_chain H (ev_Hash e) es = Intact"
  by (auto simp: event_seal_def Let_def)

lemma seal_same_chain:
  assumes "ev_PrevHash e' = ev_PrevHash e" "ev_Hash e' = ev_Hash e" "event_seal e' = event_seal e"
  shows "verify_chain H p (xs @ e' # ys) = Intact \<longleftrightarrow> verify_chain H p (xs @ e # ys) = Intact"
  by (induction xs arbitrary: p) (simp_all add: verify_chain_Cons assms del: verify_chain.simps)

section \<open>The Merkle root\<close>

text \<open>The strings hashed on one level and on all levels.\<close>

fun level_inputs :: "string list \<Rightarrow> string set" where
  "level_inputs [] = {}"
| "level_inputs [h] = {h @ h}"
| "level_inputs (h1 # h2 # hs) = insert (h1 @ h2) (level_inputs hs)"

function merkle_inputs :: "(string \<Rightarrow> string) \<Rightarrow> string list \<Rightarrow> string set" where
  "merkle_inputs H hs =
     (if 1 < length hs then level_inputs hs \<union> merkle_inputs H (merkle_level H hs) else {})"
  by auto
termination
  by (relation "measure (\<lambda>(H, hs). length hs)") (auto simp: length_merkle_level)

declare merkle_inputs.simps [simp del]

lemma merkle_level_inj:
  assumes "length xs = length ys" and "\<forall>h \<in> set xs \<union> set ys. length h = n"
    and "merkle_level H xs = merkle_level H ys" and "inj_on H (level_inputs xs \<union> level_inputs ys)"
  shows "xs = ys"
  using assms
proof (induction xs arbitrary: ys rule: level_inputs.induct)
  case 1
  then show ?case by simp
next
  case (2 h)
  then obtain h' where ys: "ys = [h']" by (cases ys) auto
  have "h @ h = h' @ h'"
    by (rule inj_onD [OF 2(4)]) (use 2(3) in \<open>simp_all add: ys\<close>)
  moreover have "length h = length h'" using 2(2) by (simp add: ys)
  ultimately show ?case by (simp add: ys)
next
  case (3 a b hs)
  then obtain a' b' hs' where ys: "ys = a' # b' # hs'"
    by (metis length_Suc_conv)
  have rest: "merkle_level H hs = merkle_level H hs'"
    using 3(4) by (simp add: ys)
  have "a @ b = a' @ b'"
    by (rule inj_onD [OF 3(5)]) (use 3(4) in \<open>simp_all add: ys\<close>)
  moreover have "length a = length a'" using 3(3) by (simp add: ys)
  moreover have "hs = hs'"
  proof (rule 3(1))
    show "length hs = length hs'" using 3(2) by (simp add: ys)
    show "\<forall>h \<in> set hs \<union> set hs'. length h = n" using 3(3) by (simp add: ys)
    show "inj_on H (level_inputs hs \<union> level_inputs hs')"
      using 3(5) by (rule inj_on_subset) (auto simp: ys)
  qed (rule rest)
  ultimately show ?case by (simp add: ys)
qed

lemma merkle_level_sizes:
  "(\<And>x. length (H x) = n) \<Longrightarrow> h \<in> set (merkle_level H hs) \<Longrightarrow> length h = n"
  by (induction H hs rule: merkle_level.induct) auto

lemma merkle_fold_inj:
  assumes "\<And>x. length (H x) = n"
    and "length xs = length ys" and "\<forall>h \<in> set xs \<union> set ys. length h = n"
    and "merkle_fold H xs = merkle_fold H ys"
    and "inj_on H (merkle_inputs H xs \<union> merkle_inputs H ys)"
  shows "xs = ys"
  using assms
proof (induction H xs arbitrary: ys rule: merkle_fold.induct)
  case (1 H xs)
  show ?case
  proof (cases "1 < length xs")
    case True
    then have ins: "merkle_inputs H xs = level_inputs xs \<union> merkle_inputs H (merkle_level H xs)"
      "merkle_inputs H ys = level_inputs ys \<union> merkle_inputs H (merkle_level H ys)"
      using 1(3) by (simp_all add: merkle_inputs.simps [of H xs] merkle_inputs.simps [of H ys])
    have "merkle_level H xs = merkle_level H ys"
    proof (rule 1(1) [OF True])
      show "length (merkle_level H xs) = length (merkle_level H ys)"
        using 1(3) by (simp add: length_merkle_level)
      show "\<forall>h \<in> set (merkle_level H xs) \<union> set (merkle_level H ys). length h = n"
        using merkle_level_sizes [of H n] 1(2) by blast
      show "merkle_fold H (merkle_level H xs) = merkle_fold H (merkle_level H ys)"
        using 1(5) True 1(3) by (simp add: merkle_fold.simps [of H xs] merkle_fold.simps [of H ys])
      show "inj_on H (merkle_inputs H (merkle_level H xs) \<union> merkle_inputs H (merkle_level H ys))"
        using 1(6) by (rule inj_on_subset) (auto simp: ins)
    qed (rule 1(2))
    moreover have "inj_on H (level_inputs xs \<union> level_inputs ys)"
      using 1(6) by (rule inj_on_subset) (auto simp: ins)
    ultimately show ?thesis using 1(3,4) by (blast intro: merkle_level_inj)
  next
    case False
    with 1 show ?thesis by (simp add: merkle_fold.simps)
  qed
qed

lemma merkle_fold_single: "xs \<noteq> [] \<Longrightarrow> length (merkle_fold H xs) = 1"
proof (induction H xs rule: merkle_fold.induct)
  case (1 H xs)
  show ?case
  proof (cases "1 < length xs")
    case True
    then have "length (merkle_level H xs) > 0" by (simp add: length_merkle_level)
    with 1 True show ?thesis by (simp add: merkle_fold.simps [of H xs])
  next
    case False
    with 1(2) show ?thesis by (cases xs) (auto simp: merkle_fold.simps)
  qed
qed

lemma merkle_level_dup: "even (length xs) \<Longrightarrow> merkle_level H (xs @ [c, c]) = merkle_level H (xs @ [c])"
  by (induction H xs rule: merkle_level.induct) auto

lemma MerkleRoot_local:
  "ld_fabric l = None \<Longrightarrow> EventsByUser u l \<noteq> [] \<Longrightarrow>
     merkle_fold H (map ev_Hash (EventsByUser u l)) = [MerkleRoot H u l]"
  using merkle_fold_single [of "map ev_Hash (EventsByUser u l)" H]
  by (auto simp: MerkleRoot_def length_Suc_conv Let_def split: list.split)

section \<open>Properties\<close>

lemma hits_ignore_result [simp]:
  "cooling_hit (ev\<lparr>ev_SmartContract := r\<rparr>) p = cooling_hit ev p"
  "revoked_hit (ev\<lparr>ev_SmartContract := r\<rparr>) p = revoked_hit ev p"
  "duplicate_hit (ev\<lparr>ev_SmartContract := r\<rparr>) p = duplicate_hit ev p"
  by (simp_all add: cooling_hit_def revoked_hit_def duplicate_hit_def cong: option.case_cong)

lemma default_rules_violations:
  assumes "nul_free (ev_UserID ev)" "all_nul_free es" "ev_PayloadHash ev \<noteq> []"
  shows "snd (snd (run_rules clk 0 [CoolingOffRule, ConsentRevocationRule, DoubleSpendRule]
           (index_query (newEventIndex es)) ev True [])) = [] \<longleftrightarrow>
         \<not> cooling_hit ev es \<and> \<not> revoked_hit ev es \<and> \<not> duplicate_hit ev es"
  using assms by (simp add: Let_def idx.rules_passed)

lemma writeEventInMemory_violations:
  assumes "writeEventInMemory H now clk u a res (Some b) l = ((ev, vs, err), l')"
    and "ld_rules l = [CoolingOffRule, ConsentRevocationRule, DoubleSpendRule]"
    and "nul_free u" "all_nul_free (ld_events l)" "H b \<noteq> []"
  shows "vs = [] \<longleftrightarrow> \<not> cooling_hit ev (ld_events l) \<and> \<not> revoked_hit ev (ld_events l) \<and>
            \<not> duplicate_hit ev (ld_events l)"
proof -
  let ?q = "index_query (newEventIndex (ld_events l))"
  let ?e = "zero_event\<lparr>ev_ID := ''ledger-'' @ dec (int (length (ld_events l)) + 1), ev_UserID := u,
      ev_Action := a, ev_Resource := res, ev_PayloadHash := H b,
      ev_PrevHash := last_hash [] (ld_events l),
      ev_Hash := H (event_preimage (last_hash [] (ld_events l)) (H b) u a res now),
      ev_Timestamp := now\<rparr>"
  obtain e1 ok vs1 where run: "run_rules clk 0 (ld_rules l) ?q ?e True [] = (e1, ok, vs1)"
    by (metis prod_cases3)
  obtain r where e1: "e1 = ?e\<lparr>ev_SmartContract := r\<rparr>"
    using run_rules_event [of clk 0 "ld_rules l" ?q ?e True "[]"] run by auto
  have "vs = vs1" and "ev = e1 \<or> (\<exists>c. ev = e1\<lparr>ev_SmartContract := c\<rparr>)"
    using assms(1) run by (auto simp: writeEventInMemory_def Let_def last_hash_def split: if_splits)
  moreover have "vs1 = [] \<longleftrightarrow> \<not> cooling_hit ?e (ld_events l) \<and> \<not> revoked_hit ?e (ld_events l) \<and>
      \<not> duplicate_hit ?e (ld_events l)"
    using default_rules_violations [of ?e "ld_events l" clk] run assms(2-5) by simp
  ultimately show ?thesis using e1 by auto
qed

text \<open>
  On the in-memory path with the default rules, a strict write succeeds exactly when no
  transaction of the user was blocked in the last six hours, no earlier consent revocation
  meets a data access, and the first event with the same payload hash is not an initiated
  transaction; but the event is appended in either case, also when an error is returned.
\<close>
theorem strict_write_blocks:
  assumes "ld_fabric l = None" and "ld_rules l = ld_rules (NewLedger :: 'f Ledger)"
    and "nul_free u" and "all_nul_free (ld_events l)" and "H b \<noteq> []"
    and "WriteEventStrict H now clk u a res (Some b) (l :: 'f Ledger) = ((ev, err), l')"
  shows "(err = None \<longleftrightarrow> \<not> cooling_hit ev (ld_events l) \<and> \<not> revoked_hit ev (ld_events l) \<and>
            \<not> duplicate_hit ev (ld_events l)) \<and>
         ld_events l' = ld_events l @ [ev] \<and> ev_UserID ev = u \<and> ev_Action ev = a \<and>
         ev_Resource ev = res \<and> ev_PayloadHash ev = H b \<and> ev_Timestamp ev = now"
proof -
  obtain e vs er l2 where w: "writeEventInMemory H now clk u a res (Some b) l = ((e, vs, er), l2)"
    by (metis prod.exhaust)
  note app = writeEventInMemory_appends [OF w]
  have "vs = [] \<longleftrightarrow> \<not> cooling_hit e (ld_events l) \<and> \<not> revoked_hit e (ld_events l) \<and>
      \<not> duplicate_hit e (ld_events l)"
    using writeEventInMemory_violations [OF w] assms by simp
  then show ?thesis
    using assms(1,6) w app by (auto simp: WriteEventStrict_def split: if_splits)
qed

definition demo_clock :: "nat \<Rightarrow> time" where "demo_clock i = 0"

definition demo_ledger :: "unit Ledger" where
  "demo_ledger = snd (WriteEventStrict (\<lambda>x. ''h'' @ x) (10 * hour) demo_clock ''u'' ''transaction_blocked''
     ''transaction'' (Some ''p1'') NewLedger)"

theorem strict_write_blocks_witness:
  "\<exists>ev l'. WriteEventStrict (\<lambda>x. ''h'' @ x) (12 * hour) demo_clock ''u'' ''transaction_initiated''
     ''transaction'' (Some ''p2'') demo_ledger
       = ((ev, Some (SmartContractViolation
            ''cooling-off period active: previous blocked transaction within 6 hours'')), l') \<and>
     cooling_hit ev (ld_events demo_ledger) \<and> ld_events l' = ld_events demo_ledger @ [ev]"
proof -
  let ?w = "WriteEventStrict (\<lambda>x. ''h'' @ x) (12 * hour) demo_clock ''u'' ''transaction_initiated''
     ''transaction'' (Some ''p2'') demo_ledger"
  have fr: "ld_fabric demo_ledger = None" and ru: "ld_rules demo_ledger = ld_rules (NewLedger :: unit Ledger)"
    and nf: "nul_free ''u''" and an: "all_nul_free (ld_events demo_ledger)"
    and er: "snd (fst ?w) = Some (SmartContractViolation
            ''cooling-off period active: previous blocked transaction within 6 hours'')"
    by (simp_all add: demo_ledger_def WriteEventStrict_def writeEventInMemory_def Let_def
        newEventIndex_def index_query_def index_event_def zero_event_def passed_result_def
        CoolingOffRule_def ConsentRevocationRule_def DoubleSpendRule_def get_list_def nul_free_def
        all_nul_free_def index_key_def)
  obtain ev er' l' where w: "?w = ((ev, er'), l')" by (metis prod.exhaust)
  have "(er' = None \<longleftrightarrow> \<not> cooling_hit ev (ld_events demo_ledger) \<and>
      \<not> revoked_hit ev (ld_events demo_ledger) \<and> \<not> duplicate_hit ev (ld_events demo_ledger)) \<and>
      ld_events l' = ld_events demo_ledger @ [ev]"
    using strict_write_blocks [OF fr ru nf an _ w] by simp
  moreover have "\<not> revoked_hit ev (ld_events demo_ledger)" "\<not> duplicate_hit ev (ld_events demo_ledger)"
    using strict_write_blocks [OF fr ru nf an _ w]
    by (auto simp: revoked_hit_def duplicate_hit_def demo_ledger_def WriteEventStrict_def
        writeEventInMemory_def Let_def newEventIndex_def index_query_def index_event_def zero_event_def
        passed_result_def CoolingOffRule_def ConsentRevocationRule_def DoubleSpendRule_def get_list_def
        index_key_def)
  ultimately show ?thesis using er w by auto
qed

text \<open>
  C2: every in-memory ledger that the service can reach by audit-only writes, strict writes and
  added rules passes its integrity verification.
\<close>
theorem reachable_ledger_intact:
  assumes "ld_reachable H l"
  shows "VerifyIntegrity H l = (True, Intact)"
  using ld_reachable_intact [OF assms] by (simp add: VerifyIntegrity_def)

lemma demo_ledger_reachable: "ld_reachable (\<lambda>x. ''h'' @ x) demo_ledger"
  unfolding demo_ledger_def by (rule r_into_rtranclp) (rule ld_step.strict, simp)

theorem reachable_ledger_intact_witness:
  "VerifyIntegrity (\<lambda>x. ''h'' @ x) demo_ledger = (True, Intact)"
  by (rule reachable_ledger_intact) (rule demo_ledger_reachable)

text \<open>
  C3: the head hash commits to the history. Two in-memory ledgers that both verify, of the same
  length and with the same head hash, agree on every sealed string (previous hash, payload
  hash, user, action, resource and time), as long as the fixed-length hash does not collide on
  the strings the two ledgers actually sealed.
\<close>
theorem head_hash_binds_history:
  assumes "ld_fabric l = None" and "ld_fabric l' = None"
    and "fst (VerifyIntegrity H l)" and "fst (VerifyIntegrity H l')"
    and "EventCount l = EventCount l'"
    and "last_hash [] (ld_events l) = last_hash [] (ld_events l')"
    and "\<And>x. length (H x) = n" and "inj_on H (seals (ld_events l) \<union> seals (ld_events l'))"
  shows "map event_seal (ld_events l) = map event_seal (ld_events l')"
  using assms(1-6)
  by (intro chain_seals_eq [OF assms(7) _ _ _ _ assms(8)])
     (simp_all add: VerifyIntegrity_local EventCount_def)

definition const_hash :: "string \<Rightarrow> string" where "const_hash x = ''abcd''"

definition one_event_ledger :: "string \<Rightarrow> unit Ledger" where
  "one_event_ledger txid = NewLedger\<lparr>ld_events := [zero_event\<lparr>ev_UserID := ''u'', ev_Action := ''a'',
     ev_Hash := const_hash [], ev_TxID := txid\<rparr>]\<rparr>"

theorem head_hash_binds_history_witness:
  "map event_seal (ld_events (one_event_ledger ''t1'')) = map event_seal (ld_events (one_event_ledger ''t2''))"
  by (rule head_hash_binds_history [where H = const_hash and n = 4])
     (simp_all add: one_event_ledger_def VerifyIntegrity_local EventCount_def zero_event_def
       const_hash_def event_seal_def)

text \<open>
  The seal concatenates its fields without separators, so moving characters from the end of
  the user id to the front of the action of a stored event is not noticed by the verification,
  whatever the hash function.
\<close>
theorem field_shift_unnoticed:
  assumes "ld_fabric l = None" and "ld_events l = xs @ e # ys" and "ev_UserID e = u @ s"
  shows "VerifyIntegrity H (l\<lparr>ld_events := xs @ e\<lparr>ev_UserID := u, ev_Action := s @ ev_Action e\<rparr> # ys\<rparr>)
           = (True, Intact)
         \<longleftrightarrow> VerifyIntegrity H l = (True, Intact)"
proof -
  let ?e = "e\<lparr>ev_UserID := u, ev_Action := s @ ev_Action e\<rparr>"
  have "verify_chain H [] (xs @ ?e # ys) = Intact \<longleftrightarrow> verify_chain H [] (xs @ e # ys) = Intact"
    by (rule seal_same_chain) (simp_all add: event_seal_def event_preimage_def assms(3))
  then show ?thesis using assms(1,2) by (auto simp: VerifyIntegrity_def split: integrity.splits)
qed

theorem field_shift_unnoticed_witness:
  "VerifyIntegrity (\<lambda>x. ''h'' @ x) (demo_ledger\<lparr>ld_events :=
     [(hd (ld_events demo_ledger))\<lparr>ev_UserID := [], ev_Action := ''utransaction_blocked''\<rparr>]\<rparr>)
     = (True, Intact)"
proof -
  have ev: "ld_events demo_ledger = [] @ hd (ld_events demo_ledger) # []"
    and fr: "ld_fabric demo_ledger = None"
    and us: "ev_UserID (hd (ld_events demo_ledger)) = [] @ ''u''"
    and ac: "ev_Action (hd (ld_events demo_ledger)) = ''transaction_blocked''"
    by (simp_all add: demo_ledger_def WriteEventStrict_def writeEventInMemory_def Let_def
        newEventIndex_def index_query_def index_event_def zero_event_def passed_result_def
        CoolingOffRule_def ConsentRevocationRule_def DoubleSpendRule_def get_list_def)
  have "VerifyIntegrity (\<lambda>x. ''h'' @ x) demo_ledger = (True, Intact)"
    using ld_reachable_intact [OF demo_ledger_reachable] by (simp add: VerifyIntegrity_def)
  with field_shift_unnoticed [OF fr ev us, of "\<lambda>x. ''h'' @ x"] show ?thesis by (simp add: ac)
qed

text \<open>
  The Merkle root of a user's events binds their hashes: two in-memory ledgers with equally
  many events of the user and the same root have the same list of event hashes, if the
  fixed-length hash does not collide on the strings hashed in the two trees.
\<close>
theorem merkle_root_binds_hashes:
  assumes "ld_fabric l = None" and "ld_fabric l' = None"
    and "length (EventsByUser u l) = length (EventsByUser u l')"
    and "MerkleRoot H u l = MerkleRoot H u l'"
    and "\<And>x. length (H x) = n"
    and "\<forall>e \<in> set (EventsByUser u l) \<union> set (EventsByUser u l'). length (ev_Hash e) = n"
    and "inj_on H (merkle_inputs H (map ev_Hash (EventsByUser u l)) \<union>
                   merkle_inputs H (map ev_Hash (EventsByUser u l')))"
  shows "map ev_Hash (EventsByUser u l) = map ev_Hash (EventsByUser u l')"
proof (cases "EventsByUser u l = []")
  case True
  then show ?thesis using assms(3) by simp
next
  case False
  then have "EventsByUser u l' \<noteq> []" using assms(3) by auto
  with False show ?thesis
    using assms(1-4,6)
    by (intro merkle_fold_inj [OF assms(5) _ _ _ assms(7)]) (auto simp: MerkleRoot_local)
qed

theorem merkle_root_binds_hashes_witness:
  "map ev_Hash (EventsByUser ''u'' (one_event_ledger ''t1'')) =
   map ev_Hash (EventsByUser ''u'' (one_event_ledger ''t2''))"
  by (rule merkle_root_binds_hashes [where H = const_hash and n = 4])
     (simp_all add: one_event_ledger_def MerkleRoot_def EventsByUser_def zero_event_def
       const_hash_def merkle_inputs.simps merkle_fold.simps)

text \<open>
  The root does not bind how many events there are: an odd last event is paired with itself,
  so recording the same last event once more leaves the root as it is.
\<close>
theorem merkle_root_hides_duplicate:
  assumes "ld_fabric l = None" and "u \<noteq> []" and "ev_UserID e = u"
    and "even (length (EventsByUser u (l\<lparr>ld_events := es\<rparr>)))"
    and "EventsByUser u (l\<lparr>ld_events := es\<rparr>) \<noteq> []"
  shows "MerkleRoot H u (l\<lparr>ld_events := es @ [e, e]\<rparr>) = MerkleRoot H u (l\<lparr>ld_events := es @ [e]\<rparr>)"
proof -
  let ?hs = "map ev_Hash (filter (\<lambda>ev. ev_UserID ev = u) es)"
  have ne: "?hs \<noteq> []" and ev: "even (length ?hs)"
    using assms by (auto simp: EventsByUser_def)
  have "merkle_fold H (?hs @ [ev_Hash e, ev_Hash e]) = merkle_fold H (?hs @ [ev_Hash e])"
    using ne ev by (simp add: merkle_fold.simps [of H "_ @ _"] merkle_level_dup del: map_is_Nil_conv)
  then show ?thesis using assms(1-3) ne
    by (auto simp: MerkleRoot_def EventsByUser_def Let_def split: list.splits)
qed

theorem merkle_root_hides_duplicate_witness:
  "let e = zero_event\<lparr>ev_UserID := ''u''\<rparr>; f = e\<lparr>ev_Hash := ''x''\<rparr>;
       l = (NewLedger :: unit Ledger)
   in MerkleRoot const_hash ''u'' (l\<lparr>ld_events := [e, e] @ [f, f]\<rparr>)
        = MerkleRoot const_hash ''u'' (l\<lparr>ld_events := [e, e] @ [f]\<rparr>)"
  unfolding Let_def
  by (rule merkle_root_hides_duplicate) (simp_all add: EventsByUser_def)

text \<open>
  The in-memory cooling-off check is active exactly when the user has an initiated or blocked
  transaction younger than six hours whose recorded rule result passed; the time it reports is
  then positive.
\<close>
theorem VerifyCoolingOff_spec:
  assumes "ld_fabric l = None"
  shows "(fst (VerifyCoolingOff now u l) \<longleftrightarrow>
           (\<exists>ev \<in> set (ld_events l). ev_UserID ev = u \<and>
              ev_Action ev \<in> {''transaction_initiated'', ''transaction_blocked''} \<and>
              sc_Passed (ev_SmartContract ev) \<and> now < ev_Timestamp ev + 6 * hour)) \<and>
         (fst (VerifyCoolingOff now u l) \<longleftrightarrow> 0 < snd (VerifyCoolingOff now u l))"
proof -
  have "fst (cooling_scan now u es) \<longleftrightarrow>
      (\<exists>ev \<in> set es. ev_UserID ev = u \<and>
         ev_Action ev \<in> {''transaction_initiated'', ''transaction_blocked''} \<and>
         sc_Passed (ev_SmartContract ev) \<and> now < ev_Timestamp ev + 6 * hour)" for es
    by (induction es) (auto simp: Let_def)
  moreover have "fst (cooling_scan now u es) \<longleftrightarrow> 0 < snd (cooling_scan now u es)" for es
    by (induction es) (auto simp: Let_def)
  ultimately show ?thesis by (simp add: VerifyCoolingOff_def assms)
qed

theorem VerifyCoolingOff_spec_witness:
  "fst (VerifyCoolingOff (13 * hour) ''u'' demo_ledger) \<longleftrightarrow>
     0 < snd (VerifyCoolingOff (13 * hour) ''u'' demo_ledger)"
proof -
  have "ld_fabric demo_ledger = None"
    by (simp add: demo_ledger_def WriteEventStrict_local writeEventInMemory_def Let_def
        split: prod.split)
  then show ?thesis using VerifyCoolingOff_spec by blast
qed

end
