(* ===== verification/JsonText.thy ===== *)
theory JsonText
  imports EventLedger
begin

text \<open>
  What Go's \<open>encoding/json\<close> does to the strings and instants of a struct, for the chaincode: a
  Go string is a list of bytes that need not be UTF-8, and \<open>Marshal\<close> writes every byte that
  does not belong to a valid encoding as U+FFFD, so a string comes back from its JSON text
  unchanged exactly if it is valid UTF-8. Also hexadecimal digests, and which strings the
  Fabric stub accepts as attributes of a composite key (\<open>utf8.ValidString\<close>, without U+0000 and
  without U+10FFFF).
\<close>

section \<open>UTF-8\<close>

definition byte_in :: "nat \<Rightarrow> nat \<Rightarrow> char \<Rightarrow> bool" where
  "byte_in lo hi c \<longleftrightarrow> lo \<le> of_char c \<and> (of_char c :: nat) \<le> hi"

abbreviation cont_byte :: "char \<Rightarrow> bool" where
  "cont_byte \<equiv> byte_in 0x80 0xBF"

text \<open>
  \<open>utf8.DecodeRune\<close>: the length of the valid encoding a list of bytes starts with, 0 if there is
  none. Overlong forms, surrogates and values above U+10FFFF are not valid.
\<close>

definition rune_len :: "string \<Rightarrow> nat" where
  "rune_len s =
     (case s of
        [] \<Rightarrow> 0
      | a # s1 \<Rightarrow>
          if byte_in 0 0x7F a then 1
          else case s1 of
            [] \<Rightarrow> 0
          | b # s2 \<Rightarrow>
              if byte_in 0xC2 0xDF a then (if cont_byte b then 2 else 0)
              else case s2 of
                [] \<Rightarrow> 0
              | c # s3 \<Rightarrow>
                  if byte_in 0xE0 0xEF a then
                    (if byte_in (if of_char a = (0xE0 :: nat) then 0xA0 else 0x80)
                          (if of_char a = (0xED :: nat) then 0x9F else 0xBF) b \<and> cont_byte c
                     then 3 else 0)
                  else case s3 of
                    [] \<Rightarrow> 0
                  | d # _ \<Rightarrow>
                      if byte_in 0xF0 0xF4 a \<and>
                         byte_in (if of_char a = (0xF0 :: nat) then 0x90 else 0x80)
                           (if of_char a = (0xF4 :: nat) then 0x8F else 0xBF) b \<and>
                         cont_byte c \<and> cont_byte d
                      then 4 else 0)"

fun utf8_ok :: "string \<Rightarrow> bool" where
  "utf8_ok [] \<longleftrightarrow> True"
| "utf8_ok (b # bs) \<longleftrightarrow> (case rune_len (b # bs) of 0 \<Rightarrow> False | Suc n \<Rightarrow> utf8_ok (drop n bs))"

definition replacement :: string where
  "replacement = [CHR 0xEF, CHR 0xBF, CHR 0xBD]"

text \<open>A string after \<open>json.Marshal\<close> and \<open>json.Unmarshal\<close>.\<close>

fun json_string :: "string \<Rightarrow> string" where
  "json_string [] = []"
| "json_string (b # bs) =
     (case rune_len (b # bs) of
        0 \<Rightarrow> replacement @ json_string bs
      | Suc n \<Rightarrow> b # take n bs @ json_string (drop n bs))"

text \<open>The check of the stub on an attribute of a composite key, rune by rune.\<close>

fun attribute_ok :: "string \<Rightarrow> bool" where
  "attribute_ok [] \<longleftrightarrow> True"
| "attribute_ok (b # bs) \<longleftrightarrow>
     (case rune_len (b # bs) of
        0 \<Rightarrow> False
      | Suc n \<Rightarrow> b \<noteq> CHR 0x00 \<and> b # take n bs \<noteq> [CHR 0xF4, CHR 0x8F, CHR 0xBF, CHR 0xBF] \<and>
                 attribute_ok (drop n bs))"

subsection \<open>Lemmas\<close>

lemma rune_len_ascii: "(of_char b :: nat) < 128 \<Longrightarrow> rune_len (b # bs) = 1"
  by (simp add: rune_len_def byte_in_def)

lemma utf8_ok_json: "utf8_ok s \<Longrightarrow> json_string s = s"
  by (induction s rule: json_string.induct) (auto split: nat.splits)

lemma json_string_longer:
  "length s \<le> length (json_string s) \<and> (\<not> utf8_ok s \<longrightarrow> length s < length (json_string s))"
proof (induction s rule: json_string.induct)
  case (2 b bs)
  show ?case
  proof (cases "rune_len (b # bs)")
    case 0
    then show ?thesis using "2.IH"(1) by (simp add: replacement_def)
  next
    case (Suc n)
    then show ?thesis using "2.IH"(2) [OF Suc] by auto
  qed
qed simp

text \<open>A string survives its JSON text exactly if it is valid UTF-8.\<close>

lemma json_string_id_iff: "json_string s = s \<longleftrightarrow> utf8_ok s"
  using utf8_ok_json json_string_longer [of s] by (metis less_irrefl)

lemma attribute_utf8: "attribute_ok s \<Longrightarrow> utf8_ok s"
  by (induction s rule: utf8_ok.induct) (auto split: nat.splits)

lemma attribute_cons:
  "attribute_ok (b # bs) \<Longrightarrow> b \<noteq> CHR 0x00 \<and> (\<exists>n. rune_len (b # bs) = Suc n \<and> attribute_ok (drop n bs))"
  by (auto split: nat.splits)

lemma byte_in_pos: "byte_in lo hi CHR 0x00 \<Longrightarrow> lo = 0"
  by (simp add: byte_in_def)

lemma rune_tail:
  "rune_len (b # bs) = Suc n \<Longrightarrow> CHR 0x00 \<notin> set (take n bs)"
  unfolding rune_len_def
  by (auto split: list.splits if_splits dest!: byte_in_pos)

lemma attribute_nul_free: "attribute_ok s \<Longrightarrow> nul_free s"
proof (induction s rule: utf8_ok.induct)
  case 1
  then show ?case by (simp add: nul_free_def)
next
  case (2 b bs)
  obtain n where n: "rune_len (b # bs) = Suc n" "b \<noteq> CHR 0x00" "attribute_ok (drop n bs)"
    using attribute_cons [OF "2.prems"] by blast
  have "CHR 0x00 \<notin> set (take n bs @ drop n bs)"
    using "2.IH" [OF n(1,3)] rune_tail [OF n(1)] by (simp add: nul_free_def del: append_take_drop_id)
  with n(2) show ?case by (simp add: nul_free_def)
qed

text \<open>ASCII text, which the code builds itself: categories, sequence numbers and digests.\<close>

definition ascii :: "string \<Rightarrow> bool" where
  "ascii s \<longleftrightarrow> (\<forall>c \<in> set s. 0 < (of_char c :: nat) \<and> (of_char c :: nat) < 128)"

lemma ascii_attribute: "ascii s \<Longrightarrow> attribute_ok s"
proof (induction s)
  case (Cons b bs)
  then have "(of_char b :: nat) < 128" "0 < (of_char b :: nat)" by (simp_all add: ascii_def)
  moreover from this have "b \<noteq> CHR 0x00" "b \<noteq> CHR 0xF4" by auto
  ultimately show ?case using Cons by (simp add: rune_len_ascii ascii_def)
qed simp

lemma ascii_utf8: "ascii s \<Longrightarrow> utf8_ok s"
  by (rule attribute_utf8, rule ascii_attribute)

lemma ascii_json: "ascii s \<Longrightarrow> json_string s = s"
  by (rule utf8_ok_json, rule ascii_utf8)

lemma ascii_append [simp]: "ascii (s @ t) \<longleftrightarrow> ascii s \<and> ascii t"
  by (auto simp: ascii_def)

lemma ascii_digits: "ascii (pad0 w (dec (int n)))"
proof -
  have "0 < (of_char c :: nat) \<and> (of_char c :: nat) < 128" if "is_digit c" for c
    using that by (simp add: is_digit_def Let_def)
  then show ?thesis using pad0_dec_chars by (fastforce simp: ascii_def)
qed

declare attribute_ok.simps [simp del] utf8_ok.simps [simp del] json_string.simps [simp del]

section \<open>Hexadecimal\<close>

definition hex_digit :: "nat \<Rightarrow> char" where
  "hex_digit n = char_of (if n < 10 then 48 + n else 87 + n)"

text \<open>\<open>hex.EncodeToString\<close>.\<close>

definition hex_EncodeToString :: "string \<Rightarrow> string" where
  "hex_EncodeToString s =
     concat (map (\<lambda>c. [hex_digit (of_char c div 16), hex_digit (of_char c mod 16)]) s)"

lemma hex_digit_code: "n < 16 \<Longrightarrow> (of_char (hex_digit n) :: nat) = (if n < 10 then 48 + n else 87 + n)"
  by (simp add: hex_digit_def)

lemma hex_chars:
  assumes "x \<in> set (hex_EncodeToString s)"
  shows "\<exists>n < 16. x = hex_digit n"
proof -
  have "(of_char c :: nat) div 16 < 16" for c :: char
    using nat_of_char_less_256 [of c] by linarith
  then show ?thesis using assms by (auto simp: hex_EncodeToString_def) (metis mod_less_divisor zero_less_numeral)
qed

lemma ascii_hex: "ascii (hex_EncodeToString s)"
  using hex_chars by (fastforce simp: ascii_def hex_digit_code split: if_splits)

section \<open>Instants\<close>

text \<open>\<open>Time.MarshalJSON\<close> refuses a year that does not have four digits.\<close>

definition year_ok :: "time \<Rightarrow> bool" where
  "year_ok t \<longleftrightarrow> 0 \<le> fst (civil_date t) \<and> fst (civil_date t) \<le> 9999"

end
