(* ===== verification/Chaincode.thy ===== *)
theory Chaincode
  imports JsonText "HOL-Library.AList" "HOL-Library.List_Lexorder" "HOL-Library.Char_ord"
    "HOL-Library.Multiset"
begin

text \<open>
  The Hyperledger Fabric chaincode \<open>chaincode/finix/main.go\<close>: the per-user event history on
  the world state, its smart-contract rules, the proof and the cooling-off window. The world
  state is the peer's key/value store with the string keys the code builds; a value is the
  struct that its JSON decodes to, so writing passes every string through \<open>json_string\<close> and
  fails on an instant that JSON refuses. Each stub call may fail, as the context of the
  transaction says; a transaction that returns an error commits nothing (\<open>submit\<close>). SHA-256
  (as bytes), JSON validity and the text form of durations are parameters in \<open>cc_env\<close>.
\<close>

section \<open>Data\<close>

record cc_Event =
  ce_ID :: string
  ce_UserID :: string
  ce_Action :: string
  ce_Resource :: string
  ce_Category :: string
  ce_PayloadHash :: string
  ce_PrevHash :: string
  ce_Hash :: string
  ce_Timestamp :: time
  ce_Seq :: nat
  ce_TxID :: string
  ce_Payload :: string
  ce_SmartContract :: SmartContractResult

record chainHead =
  ch_Seq :: nat
  ch_Hash :: string

datatype proof_end = AllGood | BrokenAt string string string | MismatchAt string

record Proof =
  pf_UserID :: string
  pf_MerkleRoot :: string
  pf_EventCount :: int
  pf_HeadHash :: string
  pf_Intact :: bool
  pf_Detail :: proof_end

datatype wval = EventV cc_Event | HeadV chainHead | TextV string

text \<open>The world state and the events emitted by the transaction.\<close>

record world =
  kv :: "(string \<times> wval) list"
  emitted :: "cc_Event list"

datatype cc_call = GetTxTimestamp | GetHead | RangeScan | GetConfig | PutEvent | PutHead
  | SetEvent | GetStateEvent | PutConfig

record cc_ctx =
  tx_now :: time
  tx_id :: string
  tx_fails :: "cc_call \<Rightarrow> bool"

record cc_env =
  env_sha256 :: "string \<Rightarrow> string"
  env_json_valid :: "string \<Rightarrow> bool"
  env_ParseDuration :: "string \<Rightarrow> duration option"
  env_DurationString :: "duration \<Rightarrow> string"

datatype cc_error =
    UserIDRequired | ActionRequired | UnknownCategory string | InvalidJSON
  | StubFailed cc_call | BadCompositeKey | MarshalFailed | UnmarshalFailed
  | Rejected string string | EventNotFound string string nat | InvalidDuration string

type_synonym 'a cc = "(cc_error + 'a) \<times> world"

definition defaultCoolingOffWindow :: duration where
  "defaultCoolingOffWindow = 6 * hour"

definition coolingOffConfigKey :: string where
  "coolingOffConfigKey = ''config~coolingOffWindow''"

definition ValidCategories :: "string set" where
  "ValidCategories = {''transaction'', ''payment'', ''consent'', ''kyc'', ''goal'', ''security'',
     ''audit'', ''blockchain_record''}"

section \<open>Keys\<close>

text \<open>
  The stub's composite keys: the object type and the attributes, each closed by a NUL, after a
  leading NUL; an attribute that is not valid UTF-8 or contains U+0000 or U+10FFFF is refused.
\<close>

definition composite_key :: "string list \<Rightarrow> string" where
  "composite_key parts = CHR 0x00 # concat (map (\<lambda>a. a @ [CHR 0x00]) parts)"

definition CreateCompositeKey :: "string \<Rightarrow> string list \<Rightarrow> string option" where
  "CreateCompositeKey objectType attrs =
     (if list_all attribute_ok (objectType # attrs) then Some (composite_key (objectType # attrs)) else None)"

definition eventKey :: "string \<Rightarrow> string \<Rightarrow> nat \<Rightarrow> string option" where
  "eventKey userID category seq =
     CreateCompositeKey ''evt'' [userID, category, pad0 20 (dec (int seq))]"

definition headKey :: "string \<Rightarrow> string" where
  "headKey userID = ''hd'' @ ''~'' @ userID"

section \<open>State helpers\<close>

definition PutState :: "string \<Rightarrow> wval \<Rightarrow> world \<Rightarrow> world" where
  "PutState k v w = w\<lparr>kv := AList.update k v (kv w)\<rparr>"

text \<open>An event and a head as they come back from their JSON text.\<close>

definition json_result :: "SmartContractResult \<Rightarrow> SmartContractResult" where
  "json_result r = r\<lparr>sc_RuleName := json_string (sc_RuleName r), sc_Violation := json_string (sc_Violation r)\<rparr>"

definition json_event :: "cc_Event \<Rightarrow> cc_Event" where
  "json_event ev =
     \<lparr>ce_ID = json_string (ce_ID ev), ce_UserID = json_string (ce_UserID ev),
      ce_Action = json_string (ce_Action ev), ce_Resource = json_string (ce_Resource ev),
      ce_Category = json_string (ce_Category ev), ce_PayloadHash = json_string (ce_PayloadHash ev),
      ce_PrevHash = json_string (ce_PrevHash ev), ce_Hash = json_string (ce_Hash ev),
      ce_Timestamp = ce_Timestamp ev, ce_Seq = ce_Seq ev, ce_TxID = json_string (ce_TxID ev),
      ce_Payload = json_string (ce_Payload ev), ce_SmartContract = json_result (ce_SmartContract ev)\<rparr>"

definition json_head :: "chainHead \<Rightarrow> chainHead" where
  "json_head h = h\<lparr>ch_Hash := json_string (ch_Hash h)\<rparr>"

definition marshal_ok :: "cc_Event \<Rightarrow> bool" where
  "marshal_ok ev \<longleftrightarrow> year_ok (ce_Timestamp ev) \<and> year_ok (sc_EnforcedAt (ce_SmartContract ev))"

definition putEvent :: "cc_ctx \<Rightarrow> cc_Event \<Rightarrow> world \<Rightarrow> unit cc" where
  "putEvent ctx ev w =
     (case eventKey (ce_UserID ev) (ce_Category ev) (ce_Seq ev) of
        None \<Rightarrow> (Inl BadCompositeKey, w)
      | Some key \<Rightarrow>
          if \<not> marshal_ok ev then (Inl MarshalFailed, w)
          else if tx_fails ctx PutEvent then (Inl (StubFailed PutEvent), w)
          else (Inr (), PutState key (EventV (json_event ev)) w))"

definition readHead :: "cc_ctx \<Rightarrow> string \<Rightarrow> world \<Rightarrow> cc_error + chainHead" where
  "readHead ctx userID w =
     (if tx_fails ctx GetHead then Inl (StubFailed GetHead)
      else case map_of (kv w) (headKey userID) of
             None \<Rightarrow> Inr \<lparr>ch_Seq = 0, ch_Hash = []\<rparr>
           | Some (HeadV h) \<Rightarrow> Inr h
           | Some _ \<Rightarrow> Inl UnmarshalFailed)"

definition writeHead :: "cc_ctx \<Rightarrow> string \<Rightarrow> chainHead \<Rightarrow> world \<Rightarrow> unit cc" where
  "writeHead ctx userID h w =
     (if tx_fails ctx PutHead then (Inl (StubFailed PutHead), w)
      else (Inr (), PutState (headKey userID) (HeadV (json_head h)) w))"

fun unmarshal_events :: "(string \<times> wval) list \<Rightarrow> (cc_error + cc_Event list)" where
  "unmarshal_events [] = Inr []"
| "unmarshal_events ((k, EventV ev) # kvs) =
     (case unmarshal_events kvs of Inl e \<Rightarrow> Inl e | Inr evs \<Rightarrow> Inr (ev # evs))"
| "unmarshal_events ((k, _) # kvs) = Inl UnmarshalFailed"

text \<open>The range scan delivers the matching entries in key order; the code then sorts by sequence.\<close>

definition GetStateByPartialCompositeKey :: "string \<Rightarrow> world \<Rightarrow> (string \<times> wval) list" where
  "GetStateByPartialCompositeKey partialKey w =
     sort_key fst (filter (\<lambda>e. prefix partialKey (fst e)) (kv w))"

definition queryByPartial :: "cc_ctx \<Rightarrow> string list \<Rightarrow> world \<Rightarrow> cc_error + cc_Event list" where
  "queryByPartial ctx attrs w =
     (case CreateCompositeKey ''evt'' attrs of
        None \<Rightarrow> Inl BadCompositeKey
      | Some partialKey \<Rightarrow>
          if tx_fails ctx RangeScan then Inl (StubFailed RangeScan)
          else case unmarshal_events (GetStateByPartialCompositeKey partialKey w) of
                 Inl e \<Rightarrow> Inl e
               | Inr out \<Rightarrow> Inr (sort_key ce_Seq out))"

section \<open>Hashing\<close>

definition event_string :: "cc_Event \<Rightarrow> string" where
  "event_string ev = join ''|'' [ce_PrevHash ev, ce_PayloadHash ev, ce_UserID ev, ce_Action ev,
     ce_Resource ev, dec (int (ce_Seq ev)), rfc3339nano (ce_Timestamp ev)]"

definition cc_sha256Hex :: "cc_env \<Rightarrow> string \<Rightarrow> string" where
  "cc_sha256Hex env s = hex_EncodeToString (env_sha256 env s)"

definition eventHash :: "cc_env \<Rightarrow> cc_Event \<Rightarrow> string" where
  "eventHash env ev = cc_sha256Hex env (event_string ev)"

definition merkleRoot :: "cc_env \<Rightarrow> string list \<Rightarrow> string" where
  "merkleRoot env hashes = (if hashes = [] then [] else hd (merkle_fold (cc_sha256Hex env) hashes))"

section \<open>Rules\<close>

definition cc_passed :: "string \<Rightarrow> time \<Rightarrow> SmartContractResult" where
  "cc_passed name now = \<lparr>sc_RuleName = name, sc_Passed = True, sc_Violation = [], sc_EnforcedAt = now\<rparr>"

definition coolingOffRule ::
  "cc_env \<Rightarrow> duration \<Rightarrow> cc_Event \<Rightarrow> cc_Event list \<Rightarrow> time \<Rightarrow> SmartContractResult" where
  "coolingOffRule env window ev history now =
     (let res = cc_passed ''cooling_off_enforcement'' now in
      if ce_Action ev \<noteq> ''transaction_initiated'' \<and> ce_Action ev \<noteq> ''transaction_override'' then res
      else if list_ex (\<lambda>prev. \<not> (ce_UserID prev \<noteq> ce_UserID ev \<or> ce_Action prev \<noteq> ''transaction_blocked'')
                 \<and> ce_Timestamp ev - ce_Timestamp prev < window) history
      then res\<lparr>sc_Passed := False, sc_Violation :=
             ''cooling-off period active: a blocked transaction occurred within the last ''
               @ env_DurationString env window\<rparr>
      else res)"

fun revoked_scan :: "cc_Event \<Rightarrow> cc_Event list \<Rightarrow> bool \<Rightarrow> bool" where
  "revoked_scan ev [] revoked = revoked"
| "revoked_scan ev (prev # hist) revoked =
     (if ce_UserID prev \<noteq> ce_UserID ev then revoked_scan ev hist revoked
      else if ce_Action prev = ''consent_revoked'' then
        revoked_scan ev hist (if ce_Timestamp prev < ce_Timestamp ev then True else revoked)
      else if ce_Action prev = ''consent_granted'' \<or> ce_Action prev = ''consent_updated'' then
        revoked_scan ev hist (if ce_Timestamp prev < ce_Timestamp ev then False else revoked)
      else revoked_scan ev hist revoked)"

definition consentRevocationRule :: "cc_Event \<Rightarrow> cc_Event list \<Rightarrow> time \<Rightarrow> SmartContractResult" where
  "consentRevocationRule ev history now =
     (let res = cc_passed ''consent_revocation_enforcement'' now in
      if ce_Resource ev \<noteq> ''account_aggregator'' \<and> ce_Resource ev \<noteq> ''data_export'' \<and>
         ce_Action ev \<noteq> ''account_aggregator_sync'' \<and> ce_Action ev \<noteq> ''data_exported'' then res
      else if revoked_scan ev history False
      then res\<lparr>sc_Passed := False, sc_Violation := ''consent was revoked before this data access event''\<rparr>
      else res)"

definition doubleSpendRule :: "cc_Event \<Rightarrow> cc_Event list \<Rightarrow> time \<Rightarrow> SmartContractResult" where
  "doubleSpendRule ev history now =
     (let res = cc_passed ''double_spend_prevention'' now in
      if ce_Action ev \<noteq> ''transaction_initiated'' then res
      else if list_ex (\<lambda>prev. \<not> (ce_UserID prev \<noteq> ce_UserID ev \<or> ce_Action prev \<noteq> ''transaction_initiated'')
                 \<and> ce_PayloadHash prev = ce_PayloadHash ev \<and> ce_Timestamp prev \<noteq> ce_Timestamp ev) history
      then res\<lparr>sc_Passed := False, sc_Violation :=
             ''duplicate transaction detected: identical payload already recorded''\<rparr>
      else res)"

fun first_rejection ::
  "(cc_Event \<Rightarrow> cc_Event list \<Rightarrow> time \<Rightarrow> SmartContractResult) list \<Rightarrow> cc_Event \<Rightarrow> cc_Event list
     \<Rightarrow> time \<Rightarrow> SmartContractResult option" where
  "first_rejection [] ev history now = None"
| "first_rejection (r # rs) ev history now =
     (if \<not> sc_Passed (r ev history now) then Some (r ev history now)
      else first_rejection rs ev history now)"

definition enforceRules ::
  "cc_env \<Rightarrow> cc_Event \<Rightarrow> cc_Event list \<Rightarrow> time \<Rightarrow> duration \<Rightarrow> cc_error + SmartContractResult" where
  "enforceRules env ev history now coolingWindow =
     (case first_rejection [coolingOffRule env coolingWindow, consentRevocationRule, doubleSpendRule]
             ev history now of
        Some res \<Rightarrow> Inl (Rejected (sc_RuleName res) (sc_Violation res))
      | None \<Rightarrow> Inr (cc_passed ''all'' now))"

definition resolveCoolingOffWindow :: "cc_env \<Rightarrow> cc_ctx \<Rightarrow> world \<Rightarrow> duration" where
  "resolveCoolingOffWindow env ctx w =
     (if tx_fails ctx GetConfig then defaultCoolingOffWindow
      else case map_of (kv w) coolingOffConfigKey of
             Some (TextV data) \<Rightarrow>
               if data = [] then defaultCoolingOffWindow
               else (case env_ParseDuration env data of
                       None \<Rightarrow> defaultCoolingOffWindow
                     | Some d \<Rightarrow> if d \<le> 0 then defaultCoolingOffWindow else d)
           | _ \<Rightarrow> defaultCoolingOffWindow)"

section \<open>Writes\<close>

definition mk_event :: "cc_env \<Rightarrow> cc_ctx \<Rightarrow> string \<Rightarrow> string \<Rightarrow> string \<Rightarrow> string \<Rightarrow> chainHead \<Rightarrow> cc_Event" where
  "mk_event env ctx category userID action payloadJSON head =
     (let seq = (ch_Seq head + 1) mod 2 ^ 64;
          ev = \<lparr>ce_ID = userID @ ''-'' @ dec (int seq), ce_UserID = userID, ce_Action = action,
                 ce_Resource = category, ce_Category = category,
                 ce_PayloadHash = cc_sha256Hex env payloadJSON, ce_PrevHash = ch_Hash head, ce_Hash = [],
                 ce_Timestamp = tx_now ctx, ce_Seq = seq, ce_TxID = tx_id ctx,
                 ce_Payload = payloadJSON, ce_SmartContract = zero_result\<rparr>
      in ev\<lparr>ce_Hash := eventHash env ev\<rparr>)"

definition RecordEvent ::
  "cc_env \<Rightarrow> cc_ctx \<Rightarrow> string \<Rightarrow> string \<Rightarrow> string \<Rightarrow> string \<Rightarrow> world \<Rightarrow> cc_Event cc" where
  "RecordEvent env ctx category0 userID0 action0 payloadJSON0 w =
     (let category = TrimSpace category0; userID = TrimSpace userID0; action = TrimSpace action0 in
      if userID = [] then (Inl UserIDRequired, w)
      else if action = [] then (Inl ActionRequired, w)
      else if category \<notin> ValidCategories then (Inl (UnknownCategory category), w)
      else let payloadJSON = (if payloadJSON0 = [] then ''{}'' else payloadJSON0) in
        if \<not> env_json_valid env payloadJSON then (Inl InvalidJSON, w)
        else if tx_fails ctx GetTxTimestamp then (Inl (StubFailed GetTxTimestamp), w)
        else case readHead ctx userID w of
          Inl e \<Rightarrow> (Inl e, w)
        | Inr head \<Rightarrow>
            let ev = mk_event env ctx category userID action payloadJSON head in
            (case queryByPartial ctx [userID] w of
               Inl e \<Rightarrow> (Inl e, w)
             | Inr history \<Rightarrow>
                 (case enforceRules env ev history (tx_now ctx) (resolveCoolingOffWindow env ctx w) of
                    Inl e \<Rightarrow> (Inl e, w)
                  | Inr result \<Rightarrow>
                      let ev' = ev\<lparr>ce_SmartContract := result\<rparr> in
                      (case putEvent ctx ev' w of
                         (Inl e, w1) \<Rightarrow> (Inl e, w1)
                       | (Inr _, w1) \<Rightarrow>
                           (case writeHead ctx userID \<lparr>ch_Seq = ce_Seq ev', ch_Hash = ce_Hash ev'\<rparr> w1 of
                              (Inl e, w2) \<Rightarrow> (Inl e, w2)
                            | (Inr _, w2) \<Rightarrow>
                                if \<not> marshal_ok ev' then (Inl MarshalFailed, w2)
                                else if tx_fails ctx SetEvent then (Inl (StubFailed SetEvent), w2)
                                else (Inr ev', w2\<lparr>emitted := emitted w2 @ [json_event ev']\<rparr>))))))"

definition SetCoolingOffWindow :: "cc_env \<Rightarrow> cc_ctx \<Rightarrow> string \<Rightarrow> world \<Rightarrow> unit cc" where
  "SetCoolingOffWindow env ctx dur w =
     (case env_ParseDuration env (TrimSpace dur) of
        None \<Rightarrow> (Inl (InvalidDuration dur), w)
      | Some d \<Rightarrow>
          if d \<le> 0 then (Inl (InvalidDuration dur), w)
          else if tx_fails ctx PutConfig then (Inl (StubFailed PutConfig), w)
          else (Inr (), PutState coolingOffConfigKey (TextV (env_DurationString env d)) w))"

text \<open>A transaction commits its writes only when the chaincode returns without an error.\<close>

definition submit :: "(world \<Rightarrow> 'a cc) \<Rightarrow> world \<Rightarrow> 'a cc" where
  "submit tx w = (case tx w of (Inl e, _) \<Rightarrow> (Inl e, w) | (Inr r, w') \<Rightarrow> (Inr r, w'))"

section \<open>Reads\<close>

definition QueryByUser :: "cc_ctx \<Rightarrow> string \<Rightarrow> world \<Rightarrow> cc_error + cc_Event list" where
  "QueryByUser ctx userID w =
     (if TrimSpace userID = [] then Inl UserIDRequired else queryByPartial ctx [userID] w)"

definition QueryByCategory :: "cc_ctx \<Rightarrow> string \<Rightarrow> string \<Rightarrow> world \<Rightarrow> cc_error + cc_Event list" where
  "QueryByCategory ctx userID category w =
     (if TrimSpace userID = [] then Inl UserIDRequired
      else if category \<notin> ValidCategories then Inl (UnknownCategory category)
      else queryByPartial ctx [userID, category] w)"

definition GetEvent :: "cc_ctx \<Rightarrow> string \<Rightarrow> string \<Rightarrow> nat \<Rightarrow> world \<Rightarrow> cc_error + cc_Event" where
  "GetEvent ctx userID category seq w =
     (case eventKey userID category seq of
        None \<Rightarrow> Inl BadCompositeKey
      | Some key \<Rightarrow>
          if tx_fails ctx GetStateEvent then Inl (StubFailed GetStateEvent)
          else case map_of (kv w) key of
                 None \<Rightarrow> Inl (EventNotFound userID category seq)
               | Some (EventV ev) \<Rightarrow> Inr ev
               | Some _ \<Rightarrow> Inl UnmarshalFailed)"

text \<open>The proof loop: the previous hash, the hashes accepted so far, and the break with its detail.\<close>

fun proof_scan :: "cc_env \<Rightarrow> cc_Event list \<Rightarrow> string \<Rightarrow> string list \<Rightarrow> proof_end \<times> string \<times> string list" where
  "proof_scan env [] prev hashes = (AllGood, prev, hashes)"
| "proof_scan env (ev # evs) prev hashes =
     (if ce_PrevHash ev \<noteq> prev then (BrokenAt (ce_ID ev) prev (ce_PrevHash ev), prev, hashes)
      else if eventHash env ev \<noteq> ce_Hash ev then (MismatchAt (ce_ID ev), prev, hashes)
      else proof_scan env evs (ce_Hash ev) (hashes @ [ce_Hash ev]))"

definition GetProof :: "cc_env \<Rightarrow> cc_ctx \<Rightarrow> string \<Rightarrow> world \<Rightarrow> cc_error + Proof" where
  "GetProof env ctx userID w =
     (case queryByPartial ctx [userID] w of
        Inl e \<Rightarrow> Inl e
      | Inr events \<Rightarrow>
          let p = \<lparr>pf_UserID = userID, pf_MerkleRoot = [], pf_EventCount = int (length events),
                    pf_HeadHash = [], pf_Intact = True, pf_Detail = AllGood\<rparr> in
          if events = [] then Inr p
          else (case proof_scan env events [] [] of
                  (r, prev, hashes) \<Rightarrow>
                    Inr (p\<lparr>pf_HeadHash := prev, pf_MerkleRoot := merkleRoot env hashes,
                           pf_Intact := (r = AllGood), pf_Detail := r\<rparr>)))"

fun latest_blocked :: "cc_Event list \<Rightarrow> time \<Rightarrow> time" where
  "latest_blocked [] latest = latest"
| "latest_blocked (ev # evs) latest =
     (if ce_Action ev \<noteq> ''transaction_blocked'' then latest_blocked evs latest
      else latest_blocked evs (if latest < ce_Timestamp ev then ce_Timestamp ev else latest))"

definition coolingOffState :: "cc_Event list \<Rightarrow> time \<Rightarrow> duration \<Rightarrow> bool \<times> duration" where
  "coolingOffState events now window =
     (let latest = latest_blocked events 0 in
      if latest = 0 then (False, 0)
      else let end = latest + window in
        if now < end then (True, end - now) else (False, 0))"

text \<open>The reply carries whole seconds.\<close>

definition cc_VerifyCoolingOff :: "cc_env \<Rightarrow> cc_ctx \<Rightarrow> string \<Rightarrow> world \<Rightarrow> cc_error + bool \<times> int" where
  "cc_VerifyCoolingOff env ctx userID w =
     (if tx_fails ctx GetTxTimestamp then Inl (StubFailed GetTxTimestamp)
      else case queryByPartial ctx [userID, ''transaction''] w of
             Inl e \<Rightarrow> Inl e
           | Inr events \<Rightarrow>
               (case coolingOffState events (tx_now ctx) (resolveCoolingOffWindow env ctx w) of
                  (active, remaining) \<Rightarrow> Inr (active, remaining div second)))"

definition GetCoolingOffWindow :: "cc_env \<Rightarrow> cc_ctx \<Rightarrow> world \<Rightarrow> string" where
  "GetCoolingOffWindow env ctx w = env_DurationString env (resolveCoolingOffWindow env ctx w)"

section \<open>Keys do not collide\<close>

lemma nul_free_digits [simp]: "nul_free (pad0 w (dec (int n)))"
  using pad0_dec_chars by (fastforce simp: nul_free_def is_digit_def Let_def)

lemma nul_free_evt [simp]: "nul_free ''evt''"
  by (simp add: nul_free_def)

lemma nul_block_prefix:
  "nul_free a \<Longrightarrow> nul_free b \<Longrightarrow>
     prefix (a @ CHR 0x00 # x) (b @ CHR 0x00 # y) \<longleftrightarrow> a = b \<and> prefix x y"
proof (induction a arbitrary: b)
  case Nil
  then show ?case by (cases b) (auto simp: nul_free_def)
next
  case (Cons c a)
  then show ?case by (cases b) (auto simp: nul_free_def)
qed

lemma composite_prefix:
  "list_all nul_free as \<Longrightarrow> list_all nul_free bs \<Longrightarrow>
     prefix (composite_key as) (composite_key bs) \<longleftrightarrow> prefix as bs"
proof (induction as arbitrary: bs)
  case Nil
  then show ?case by (simp add: composite_key_def)
next
  case (Cons a as)
  then show ?case
    by (cases bs) (simp_all add: composite_key_def nul_block_prefix)
qed

lemma composite_inj:
  assumes "list_all nul_free as" "list_all nul_free bs"
  shows "composite_key as = composite_key bs \<longleftrightarrow> as = bs"
proof
  assume eq: "composite_key as = composite_key bs"
  then have "prefix as bs" "prefix bs as"
    using composite_prefix [OF assms] composite_prefix [OF assms(2,1)] by simp_all
  then show "as = bs" by (rule prefix_order.antisym)
qed simp

definition evkey :: "string \<Rightarrow> string \<Rightarrow> nat \<Rightarrow> string" where
  "evkey u c n = composite_key [''evt'', u, c, pad0 20 (dec (int n))]"

definition ukey :: "string \<Rightarrow> string" where
  "ukey u = composite_key [''evt'', u]"

lemma attribute_digits [simp]: "attribute_ok (pad0 w (dec (int n)))"
  by (rule ascii_attribute) (rule ascii_digits)

lemma attribute_evt [simp]: "attribute_ok ''evt''"
  by (rule ascii_attribute) (simp add: ascii_def)

lemma eventKey_evkey: "attribute_ok u \<Longrightarrow> attribute_ok c \<Longrightarrow> eventKey u c n = Some (evkey u c n)"
  by (simp add: eventKey_def CreateCompositeKey_def evkey_def)

lemma eventKey_None: "\<not> attribute_ok u \<Longrightarrow> eventKey u c n = None"
  by (simp add: eventKey_def CreateCompositeKey_def)

lemma ukey_prefix:
  "nul_free u \<Longrightarrow> nul_free v \<Longrightarrow> nul_free c \<Longrightarrow> prefix (ukey u) (evkey v c n) \<longleftrightarrow> u = v"
  by (simp add: ukey_def evkey_def composite_prefix)

lemma evkey_inj:
  "nul_free u \<Longrightarrow> nul_free v \<Longrightarrow> nul_free c \<Longrightarrow> nul_free d \<Longrightarrow>
     evkey u c m = evkey v d n \<longleftrightarrow> u = v \<and> c = d \<and> m = n"
  by (simp add: evkey_def composite_inj)

lemma ukey_not_head [simp]: "\<not> prefix (ukey u) (headKey v)"
  by (simp add: ukey_def composite_key_def headKey_def)

lemma ukey_not_config [simp]: "\<not> prefix (ukey u) coolingOffConfigKey"
  by (simp add: ukey_def composite_key_def coolingOffConfigKey_def)

lemma headKey_inj [simp]: "headKey u = headKey v \<longleftrightarrow> u = v"
  by (simp add: headKey_def)

lemma headKey_other [simp]: "headKey u \<noteq> evkey v c n" "headKey u \<noteq> coolingOffConfigKey"
  "evkey v c n \<noteq> headKey u" "coolingOffConfigKey \<noteq> headKey u"
  by (simp_all add: headKey_def evkey_def composite_key_def coolingOffConfigKey_def)

lemma category_ascii: "c \<in> ValidCategories \<Longrightarrow> ascii c"
  by (auto simp: ValidCategories_def ascii_def)

lemma category_attribute: "c \<in> ValidCategories \<Longrightarrow> attribute_ok c"
  by (rule ascii_attribute) (rule category_ascii)

lemma category_nul_free: "c \<in> ValidCategories \<Longrightarrow> nul_free c"
  by (rule attribute_nul_free) (rule category_attribute)

section \<open>The invariant of the world state\<close>

text \<open>
  \<open>entries u w\<close> is what a scan for the user meets, in the order it was written; \<open>chain\<close> is
  the promise about it: consecutive sequence numbers, valid categories and linked hashes.
  \<open>hashed\<close> says that each stored hash is the one its stored fields give; it can fail, because the
  hash is taken before the fields go through JSON.
\<close>

definition entries :: "string \<Rightarrow> world \<Rightarrow> (string \<times> wval) list" where
  "entries u w = filter (\<lambda>e. prefix (ukey u) (fst e)) (kv w)"

definition get_event :: "string \<times> wval \<Rightarrow> cc_Event list" where
  "get_event e = (case snd e of EventV ev \<Rightarrow> [ev] | _ \<Rightarrow> [])"

definition stored :: "string \<Rightarrow> world \<Rightarrow> cc_Event list" where
  "stored u w = concat (map get_event (entries u w))"

definition key_of :: "cc_Event \<Rightarrow> string" where
  "key_of ev = evkey (ce_UserID ev) (ce_Category ev) (ce_Seq ev)"

fun chain :: "string \<Rightarrow> nat \<Rightarrow> string \<Rightarrow> cc_Event list \<Rightarrow> bool" where
  "chain u n prev [] \<longleftrightarrow> True"
| "chain u n prev (e # es) \<longleftrightarrow>
     ce_UserID e = u \<and> ce_Category e \<in> ValidCategories \<and> ce_Resource e = ce_Category e \<and>
     ce_Seq e = Suc n \<and> ce_PrevHash e = prev \<and> ascii (ce_Hash e) \<and>
     chain u (Suc n) (ce_Hash e) es"

definition hashed :: "cc_env \<Rightarrow> cc_Event list \<Rightarrow> bool" where
  "hashed env es \<longleftrightarrow> (\<forall>e \<in> set es. ce_Hash e = eventHash env e)"

definition tip :: "cc_Event list \<Rightarrow> string" where
  "tip es = (if es = [] then [] else ce_Hash (last es))"

definition user_ok :: "string \<Rightarrow> world \<Rightarrow> bool" where
  "user_ok u w \<longleftrightarrow>
     chain u 0 [] (stored u w) \<and>
     entries u w = map (\<lambda>e. (key_of e, EventV e)) (stored u w) \<and>
     map_of (kv w) (headKey u) =
       (if stored u w = [] then None
        else Some (HeadV \<lparr>ch_Seq = length (stored u w), ch_Hash = tip (stored u w)\<rparr>))"

definition wf_world :: "world \<Rightarrow> bool" where
  "wf_world w \<longleftrightarrow> (\<forall>u. attribute_ok u \<longrightarrow> user_ok u w)"

lemma chain_snoc:
  "chain u n prev (es @ [e]) \<longleftrightarrow>
     chain u n prev es \<and>
     ce_UserID e = u \<and> ce_Category e \<in> ValidCategories \<and> ce_Resource e = ce_Category e \<and>
     ce_Seq e = Suc (n + length es) \<and> ce_PrevHash e = (if es = [] then prev else ce_Hash (last es)) \<and>
     ascii (ce_Hash e)"
  by (induction es arbitrary: n prev) auto

lemma chain_seqs: "chain u n prev es \<Longrightarrow> map ce_Seq es = [Suc n ..< Suc (n + length es)]"
proof (induction es arbitrary: n prev)
  case Nil
  then show ?case by simp
next
  case (Cons e es)
  have "map ce_Seq es = [Suc (Suc n) ..< Suc (Suc n + length es)]"
    by (rule Cons.IH [where prev = "ce_Hash e"]) (use Cons.prems in \<open>unfold chain.simps, blast\<close>)
  moreover have "ce_Seq e = Suc n" using Cons.prems by simp
  ultimately show ?case by (simp add: upt_conv_Cons del: upt_Suc)
qed

lemma chain_user: "chain u n prev es \<Longrightarrow> e \<in> set es \<Longrightarrow> ce_UserID e = u \<and> ce_Category e \<in> ValidCategories"
  by (induction es arbitrary: n prev) auto

lemma chain_seq_bound: "chain u n prev es \<Longrightarrow> e \<in> set es \<Longrightarrow> ce_Seq e \<le> n + length es"
  by (induction es arbitrary: n prev) fastforce+

lemma proof_scan_chain:
  "chain u n prev es \<Longrightarrow> hashed env es \<Longrightarrow>
     proof_scan env es prev hs
       = (AllGood, if es = [] then prev else ce_Hash (last es), hs @ map ce_Hash es)"
  by (induction es arbitrary: n prev hs) (auto simp: hashed_def)

lemma proof_scan_hashed: "fst (proof_scan env es prev hs) = AllGood \<Longrightarrow> hashed env es"
  by (induction es arbitrary: prev hs) (auto simp: hashed_def split: if_splits)

lemma chain_tip_ascii: "chain u n prev es \<Longrightarrow> ascii prev \<Longrightarrow> ascii (if es = [] then prev else ce_Hash (last es))"
  by (induction es arbitrary: n prev) auto

lemma unmarshal_map: "unmarshal_events (map (\<lambda>e. (k e, EventV e)) es) = Inr es"
  by (induction es) auto

lemma unmarshal_perm:
  "mset xs = mset (map (\<lambda>e. (k e, EventV e)) es) \<Longrightarrow>
     \<exists>es'. unmarshal_events xs = Inr es' \<and> mset es' = mset es"
proof -
  assume m: "mset xs = mset (map (\<lambda>e. (k e, EventV e)) es)"
  then have xs: "\<forall>x \<in> set xs. \<exists>e. x = (k e, EventV e)"
    by (metis (no_types, lifting) imageE list.set_map set_mset_mset)
  have "unmarshal_events xs = Inr (concat (map get_event xs))"
    using xs by (induction xs) (auto simp: get_event_def)
  moreover have "mset (concat (map get_event xs)) = mset es"
  proof -
    have "mset (concat (map get_event ys)) = (\<Sum>y\<in>#mset ys. mset (get_event y))" for ys
      by (induction ys) auto
    then have "mset (concat (map get_event xs)) =
        mset (concat (map get_event (map (\<lambda>e. (k e, EventV e)) es)))"
      using m by presburger
    also have "\<dots> = mset es" by (induction es) (auto simp: get_event_def)
    finally show ?thesis .
  qed
  ultimately show ?thesis by blast
qed

lemma queryByPartial_stored:
  assumes "user_ok u w" and "attribute_ok u" and "\<not> tx_fails ctx RangeScan"
  shows "queryByPartial ctx [u] w = Inr (stored u w)"
proof -
  have en: "filter (\<lambda>e. prefix (ukey u) (fst e)) (kv w) = map (\<lambda>e. (key_of e, EventV e)) (stored u w)"
    and ch: "chain u 0 [] (stored u w)"
    using assms(1) by (simp_all add: user_ok_def entries_def)
  obtain es' where es': "unmarshal_events (GetStateByPartialCompositeKey (ukey u) w) = Inr es'"
    and m: "mset es' = mset (stored u w)"
    using unmarshal_perm [of "GetStateByPartialCompositeKey (ukey u) w" key_of "stored u w"]
    by (auto simp: GetStateByPartialCompositeKey_def en)
  have seqs: "map ce_Seq (stored u w) = [Suc 0 ..< Suc (length (stored u w))]"
    using chain_seqs [OF ch] by simp
  have "sorted (map ce_Seq (stored u w))" and "distinct (map ce_Seq (stored u w))"
    unfolding seqs by (rule sorted_upt, rule distinct_upt)
  then have "inj_on ce_Seq (set es')"
    using mset_eq_setD [OF m] by (simp add: distinct_map)
  then have "sort_key ce_Seq es' = stored u w"
    using sort_key_inj_key_eq [OF m] \<open>sorted (map ce_Seq (stored u w))\<close> by blast
  then show ?thesis
    using assms(2,3) es' by (simp add: queryByPartial_def CreateCompositeKey_def ukey_def)
qed

lemma queryByPartial_bad: "\<not> attribute_ok u \<Longrightarrow> queryByPartial ctx (u # as) w = Inl BadCompositeKey"
  by (simp add: queryByPartial_def CreateCompositeKey_def)

lemma queryByPartial_fail: "tx_fails ctx RangeScan \<Longrightarrow> \<exists>e. queryByPartial ctx as w = Inl e"
  by (auto simp: queryByPartial_def split: option.split)

lemma readHead_ok:
  assumes "user_ok u w" and "\<not> tx_fails ctx GetHead"
  shows "readHead ctx u w = Inr \<lparr>ch_Seq = length (stored u w), ch_Hash = tip (stored u w)\<rparr>"
  using assms by (auto simp: readHead_def user_ok_def tip_def)

section \<open>Writing keeps the invariant\<close>

lemma update_new: "k \<notin> fst ` set xs \<Longrightarrow> AList.update k v xs = xs @ [(k, v)]"
  by (induction xs) auto

lemma filter_update_other: "\<not> P k \<Longrightarrow> filter (\<lambda>e. P (fst e)) (AList.update k v xs) = filter (\<lambda>e. P (fst e)) xs"
  by (induction xs) auto

lemma entries_PutState_other: "\<not> prefix (ukey u) k \<Longrightarrow> entries u (PutState k v w) = entries u w"
  using filter_update_other [of "prefix (ukey u)" k v "kv w"] by (simp add: entries_def PutState_def)

lemma entries_PutState_new:
  assumes "prefix (ukey u) k" and "k \<notin> fst ` set (entries u w)"
  shows "entries u (PutState k v w) = entries u w @ [(k, v)]"
proof -
  have "k \<notin> fst ` set (kv w)" using assms by (force simp: entries_def)
  then show ?thesis using assms(1) by (simp add: entries_def PutState_def update_new)
qed

lemma map_of_PutState: "map_of (kv (PutState k v w)) = (map_of (kv w))(k \<mapsto> v)"
  by (simp add: PutState_def update_conv')

lemma user_ok_cong:
  "entries u w' = entries u w \<Longrightarrow> map_of (kv w') (headKey u) = map_of (kv w) (headKey u) \<Longrightarrow>
     user_ok u w' = user_ok u w"
  by (simp add: user_ok_def stored_def)

definition record_writes :: "string \<Rightarrow> cc_Event \<Rightarrow> world \<Rightarrow> world" where
  "record_writes u ev w =
     PutState (headKey u) (HeadV \<lparr>ch_Seq = ce_Seq ev, ch_Hash = ce_Hash ev\<rparr>) (PutState (key_of ev) (EventV ev) w)"

lemma record_writes_own:
  assumes "user_ok u w" and "attribute_ok u"
    and "ce_UserID ev = u" "ce_Category ev \<in> ValidCategories" "ce_Resource ev = ce_Category ev"
    and "ce_Seq ev = Suc (length (stored u w))" "ce_PrevHash ev = tip (stored u w)"
    and "ascii (ce_Hash ev)"
  shows "user_ok u (record_writes u ev w)" and "stored u (record_writes u ev w) = stored u w @ [ev]"
proof -
  have ch: "chain u 0 [] (stored u w)"
    and en: "entries u w = map (\<lambda>e. (key_of e, EventV e)) (stored u w)"
    using assms(1) by (simp_all add: user_ok_def)
  have nf: "nul_free (ce_Category ev)" "nul_free u"
    using assms(2,4) by (simp_all add: category_nul_free attribute_nul_free)
  have "key_of ev \<notin> fst ` set (entries u w)"
  proof
    assume "key_of ev \<in> fst ` set (entries u w)"
    then obtain e where e: "e \<in> set (stored u w)" "key_of e = key_of ev" by (auto simp: en)
    then have "nul_free (ce_Category e)" "ce_UserID e = u"
      using chain_user [OF ch] by (auto intro: category_nul_free)
    then have "ce_Seq e = ce_Seq ev" using e nf assms(3) by (simp add: key_of_def evkey_inj)
    with chain_seq_bound [OF ch e(1)] assms(6) show False by simp
  qed
  moreover have "prefix (ukey u) (key_of ev)"
    using nf assms(3) by (simp add: key_of_def ukey_prefix)
  ultimately have en': "entries u (record_writes u ev w) = entries u w @ [(key_of ev, EventV ev)]"
    by (simp add: record_writes_def entries_PutState_other entries_PutState_new)
  then show st: "stored u (record_writes u ev w) = stored u w @ [ev]"
    by (simp add: stored_def get_event_def)
  have "chain u 0 [] (stored u w @ [ev])"
    using ch assms(3-8) by (simp add: chain_snoc tip_def)
  moreover have "map_of (kv (record_writes u ev w)) (headKey u)
      = Some (HeadV \<lparr>ch_Seq = ce_Seq ev, ch_Hash = ce_Hash ev\<rparr>)"
    by (simp add: record_writes_def map_of_PutState)
  ultimately show "user_ok u (record_writes u ev w)"
    using assms(6) by (simp add: user_ok_def st en' en tip_def)
qed

lemma record_writes_other:
  assumes "v \<noteq> u" "attribute_ok u" "attribute_ok v" "ce_UserID ev = u" "ce_Category ev \<in> ValidCategories"
  shows "entries v (record_writes u ev w) = entries v w"
    and "map_of (kv (record_writes u ev w)) (headKey v) = map_of (kv w) (headKey v)"
  using assms category_nul_free attribute_nul_free
  by (simp_all add: record_writes_def entries_PutState_other map_of_PutState key_of_def ukey_prefix)

section \<open>What an accepted transaction does\<close>

lemma attribute_json: "attribute_ok s \<Longrightarrow> json_string s = s"
  by (rule utf8_ok_json) (rule attribute_utf8)

lemma json_event_fields [simp]:
  "ce_UserID (json_event e) = json_string (ce_UserID e)" "ce_Action (json_event e) = json_string (ce_Action e)"
  "ce_Category (json_event e) = json_string (ce_Category e)"
  "ce_Resource (json_event e) = json_string (ce_Resource e)"
  "ce_PrevHash (json_event e) = json_string (ce_PrevHash e)" "ce_Hash (json_event e) = json_string (ce_Hash e)"
  "ce_PayloadHash (json_event e) = json_string (ce_PayloadHash e)"
  "ce_Timestamp (json_event e) = ce_Timestamp e" "ce_Seq (json_event e) = ce_Seq e"
  by (simp_all add: json_event_def)

lemma ascii_sha256 [simp]: "ascii (cc_sha256Hex env s)"
  by (simp add: cc_sha256Hex_def ascii_hex)

lemma ascii_eventHash [simp]: "ascii (eventHash env e)"
  by (simp add: eventHash_def)

lemma ascii_Nil [simp]: "ascii []"
  by (simp add: ascii_def)

lemma tip_ascii: "user_ok u w \<Longrightarrow> ascii (tip (stored u w))"
  using chain_tip_ascii [of u 0 "[]" "stored u w"] by (simp add: user_ok_def tip_def)

lemma event_string_result [simp]:
  "event_string (ev\<lparr>ce_SmartContract := r\<rparr>) = event_string ev"
  "event_string (ev\<lparr>ce_Hash := h\<rparr>) = event_string ev"
  by (simp_all add: event_string_def)

lemma eventHash_result [simp]:
  "eventHash env (ev\<lparr>ce_SmartContract := r\<rparr>) = eventHash env ev"
  "eventHash env (ev\<lparr>ce_Hash := h\<rparr>) = eventHash env ev"
  by (simp_all add: eventHash_def)

lemma mk_event_fields [simp]:
  "ce_UserID (mk_event env ctx c u a p h) = u" "ce_Action (mk_event env ctx c u a p h) = a"
  "ce_Category (mk_event env ctx c u a p h) = c" "ce_Resource (mk_event env ctx c u a p h) = c"
  "ce_PrevHash (mk_event env ctx c u a p h) = ch_Hash h"
  "ce_Seq (mk_event env ctx c u a p h) = (ch_Seq h + 1) mod 2 ^ 64"
  "ce_Timestamp (mk_event env ctx c u a p h) = tx_now ctx"
  "ce_PayloadHash (mk_event env ctx c u a p h) = cc_sha256Hex env p"
  "ce_Hash (mk_event env ctx c u a p h) = eventHash env (mk_event env ctx c u a p h)"
  "ce_Payload (mk_event env ctx c u a p h) = p" "ce_TxID (mk_event env ctx c u a p h) = tx_id ctx"
  by (simp_all add: mk_event_def Let_def eventHash_def event_string_def)

definition rules_pass :: "cc_env \<Rightarrow> duration \<Rightarrow> cc_Event \<Rightarrow> cc_Event list \<Rightarrow> time \<Rightarrow> bool" where
  "rules_pass env window ev history now \<longleftrightarrow>
     sc_Passed (coolingOffRule env window ev history now) \<and>
     sc_Passed (consentRevocationRule ev history now) \<and> sc_Passed (doubleSpendRule ev history now)"

lemma enforceRules_iff:
  "(\<exists>r. enforceRules env ev history now window = Inr r) \<longleftrightarrow> rules_pass env window ev history now"
  by (simp add: enforceRules_def rules_pass_def)

lemma enforceRules_at: "enforceRules env ev history now window = Inr r \<Longrightarrow> sc_EnforcedAt r = now"
  by (auto simp: enforceRules_def cc_passed_def Let_def split: if_splits)

lemma marshal_mk_event:
  "enforceRules env ev history (tx_now ctx) window = Inr r \<Longrightarrow>
     marshal_ok (mk_event env ctx c u a p h\<lparr>ce_SmartContract := r\<rparr>) \<longleftrightarrow> year_ok (tx_now ctx)"
  by (auto simp: marshal_ok_def dest: enforceRules_at)

lemma revoked_scan_result [simp]:
  "revoked_scan (ev\<lparr>ce_SmartContract := r\<rparr>) hist b = revoked_scan ev hist b"
  by (induction hist arbitrary: b) auto

lemma rules_pass_result [simp]:
  "rules_pass env window (ev\<lparr>ce_SmartContract := r\<rparr>) hist now = rules_pass env window ev hist now"
  by (simp add: rules_pass_def coolingOffRule_def consentRevocationRule_def doubleSpendRule_def
      cong: if_cong)

text \<open>The outcome of a successful call, in terms of what was stored before.\<close>

definition recorded ::
  "cc_env \<Rightarrow> cc_ctx \<Rightarrow> string \<Rightarrow> string \<Rightarrow> string \<Rightarrow> string \<Rightarrow> world \<Rightarrow> cc_Event \<Rightarrow> bool" where
  "recorded env ctx c u a p w ev \<longleftrightarrow>
     u \<noteq> [] \<and> a \<noteq> [] \<and> c \<in> ValidCategories \<and> attribute_ok u \<and>
     ce_UserID ev = u \<and> ce_Action ev = a \<and> ce_Category ev = c \<and> ce_Resource ev = c \<and>
     ce_Payload ev = p \<and> ce_PayloadHash ev = cc_sha256Hex env p \<and> ce_TxID ev = tx_id ctx \<and>
     ce_Timestamp ev = tx_now ctx \<and> ce_PrevHash ev = tip (stored u w) \<and>
     ce_Seq ev = Suc (length (stored u w)) \<and> ce_Hash ev = eventHash env ev \<and>
     rules_pass env (resolveCoolingOffWindow env ctx w) ev (stored u w) (tx_now ctx)"

lemma RecordEvent_accepted:
  assumes wf: "wf_world w"
    and len: "length (stored (TrimSpace u) w) < 2 ^ 64 - 1"
    and r: "RecordEvent env ctx c u a p w = (Inr ev, w')"
  shows "recorded env ctx (TrimSpace c) (TrimSpace u) (TrimSpace a) (if p = [] then ''{}'' else p) w ev"
    and "w' = (record_writes (TrimSpace u) (json_event ev) w)\<lparr>emitted := emitted w @ [json_event ev]\<rparr>"
proof -
  let ?u = "TrimSpace u"
  have scan: "\<not> tx_fails ctx RangeScan" and nf: "attribute_ok ?u" and gh: "\<not> tx_fails ctx GetHead"
    using r queryByPartial_fail [of ctx "[?u]" w] queryByPartial_bad [of ?u ctx "[]" w]
    by (auto simp: RecordEvent_def Let_def readHead_def split: if_splits sum.splits)
  have ok: "user_ok ?u w" using wf nf by (simp add: wf_world_def)
  let ?h = "\<lparr>ch_Seq = length (stored ?u w), ch_Hash = tip (stored ?u w)\<rparr>"
  let ?p = "if p = [] then ''{}'' else p"
  let ?ev = "mk_event env ctx (TrimSpace c) ?u (TrimSpace a) ?p ?h"
  note head = readHead_ok [OF ok gh] and query = queryByPartial_stored [OF ok nf scan]
  have cat: "TrimSpace c \<in> ValidCategories" and ne: "?u \<noteq> []" "TrimSpace a \<noteq> []"
    using r by (auto simp: RecordEvent_def Let_def split: if_splits)
  obtain res where en: "enforceRules env ?ev (stored ?u w) (tx_now ctx) (resolveCoolingOffWindow env ctx w) = Inr res"
    and ev: "ev = ?ev\<lparr>ce_SmartContract := res\<rparr>"
    and w': "w' = (record_writes ?u (json_event ev) w)\<lparr>emitted := emitted w @ [json_event ev]\<rparr>"
    using r nf cat category_attribute [OF cat]
    by (auto simp: RecordEvent_def Let_def head query putEvent_def writeHead_def eventKey_evkey
        record_writes_def key_of_def PutState_def json_head_def attribute_json
        split: if_splits sum.splits option.splits)
  show "w' = (record_writes ?u (json_event ev) w)\<lparr>emitted := emitted w @ [json_event ev]\<rparr>" by (rule w')
  have "rules_pass env (resolveCoolingOffWindow env ctx w) ev (stored ?u w) (tx_now ctx)"
    unfolding ev rules_pass_result using en by (auto simp: enforceRules_iff [symmetric])
  then show "recorded env ctx (TrimSpace c) ?u (TrimSpace a) ?p w ev"
    using cat ne nf len by (simp add: recorded_def ev)
qed

lemma entries_emitted [simp]: "entries u (w\<lparr>emitted := x\<rparr>) = entries u w"
  by (simp add: entries_def)

lemma stored_emitted [simp]: "stored u (w\<lparr>emitted := x\<rparr>) = stored u w"
  by (simp add: stored_def)

lemma user_ok_emitted [simp]: "user_ok u (w\<lparr>emitted := x\<rparr>) = user_ok u w"
  by (rule user_ok_cong) simp_all

lemma wf_world_emitted [simp]: "wf_world (w\<lparr>emitted := x\<rparr>) = wf_world w"
  by (simp add: wf_world_def)

lemma recorded_wf:
  assumes "wf_world w" and "recorded env ctx c u a p w ev"
  shows "wf_world (record_writes u (json_event ev) w)"
    and "stored u (record_writes u (json_event ev) w) = stored u w @ [json_event ev]"
    and "attribute_ok v \<Longrightarrow> v \<noteq> u \<Longrightarrow> stored v (record_writes u (json_event ev) w) = stored v w"
proof -
  let ?e = "json_event ev"
  have u: "user_ok u w" "attribute_ok u" using assms by (auto simp: wf_world_def recorded_def)
  have cat: "ce_Category ev \<in> ValidCategories" and same: "ce_UserID ev = u" "ce_Resource ev = ce_Category ev"
    "ce_Seq ev = Suc (length (stored u w))" "ce_PrevHash ev = tip (stored u w)"
    "ce_Hash ev = eventHash env ev"
    using assms(2) by (auto simp: recorded_def)
  have ev: "ce_UserID ?e = u" "ce_Category ?e \<in> ValidCategories" "ce_Resource ?e = ce_Category ?e"
    "ce_Seq ?e = Suc (length (stored u w))" "ce_PrevHash ?e = tip (stored u w)" "ascii (ce_Hash ?e)"
    using same cat attribute_json [OF u(2)] ascii_json [OF category_ascii [OF cat]] tip_ascii [OF u(1)]
    by (simp_all add: ascii_json)
  note own = record_writes_own [OF u ev]
  show "stored u (record_writes u (json_event ev) w) = stored u w @ [json_event ev]" by (rule own)
  show "attribute_ok v \<Longrightarrow> v \<noteq> u \<Longrightarrow> stored v (record_writes u (json_event ev) w) = stored v w"
    using record_writes_other [OF _ u(2) _ ev(1,2)] by (simp add: stored_def)
  show "wf_world (record_writes u (json_event ev) w)"
    unfolding wf_world_def
  proof (intro allI impI)
    fix v assume v: "attribute_ok v"
    show "user_ok v (record_writes u (json_event ev) w)"
    proof (cases "v = u")
      case True
      then show ?thesis using own by simp
    next
      case False
      then show ?thesis
        using user_ok_cong [OF record_writes_other [OF False u(2) v ev(1,2)]] assms(1) v
        by (simp add: wf_world_def)
    qed
  qed
qed

section \<open>The ledger as a state machine\<close>

text \<open>A committed transaction is a step; \<open>n\<close> transactions after the start give \<open>cc_after env n\<close>.\<close>

definition genesis :: world where
  "genesis = \<lparr>kv = [], emitted = []\<rparr>"

inductive cc_step :: "cc_env \<Rightarrow> world \<Rightarrow> world \<Rightarrow> bool" for env where
  recording: "cc_step env w (snd (submit (RecordEvent env ctx c u a p) w))"
| config: "cc_step env w (snd (submit (SetCoolingOffWindow env ctx d) w))"

abbreviation cc_after :: "cc_env \<Rightarrow> nat \<Rightarrow> world \<Rightarrow> bool" where
  "cc_after env n w \<equiv> (cc_step env ^^ n) genesis w"

lemma submit_error: "fst (submit tx w) = Inl e \<Longrightarrow> snd (submit tx w) = w"
  by (auto simp: submit_def split: prod.splits sum.splits)

lemma submit_ok: "submit tx w = (Inr r, w') \<longleftrightarrow> tx w = (Inr r, w')"
  by (auto simp: submit_def split: prod.splits sum.splits)

lemma SetCoolingOffWindow_keeps:
  "snd (submit (SetCoolingOffWindow env ctx d) w) = w \<or>
   (\<exists>t. snd (submit (SetCoolingOffWindow env ctx d) w) = PutState coolingOffConfigKey (TextV t) w)"
  by (auto simp: submit_def SetCoolingOffWindow_def split: option.splits)

lemma config_frame:
  "entries u (PutState coolingOffConfigKey v w) = entries u w"
  "stored u (PutState coolingOffConfigKey v w) = stored u w"
  "user_ok u (PutState coolingOffConfigKey v w) = user_ok u w"
proof -
  show e: "entries u (PutState coolingOffConfigKey v w) = entries u w"
    by (simp add: entries_PutState_other)
  then show "stored u (PutState coolingOffConfigKey v w) = stored u w"
    by (simp add: stored_def)
  show "user_ok u (PutState coolingOffConfigKey v w) = user_ok u w"
    by (rule user_ok_cong) (simp_all add: e map_of_PutState)
qed

lemma RecordEvent_step:
  assumes "wf_world w" and "\<forall>v. attribute_ok v \<longrightarrow> length (stored v w) < 2 ^ 64 - 1"
  shows "(\<exists>e. submit (RecordEvent env ctx c u a p) w = (Inl e, w)) \<or>
         (\<exists>ev w'. submit (RecordEvent env ctx c u a p) w = (Inr ev, w') \<and>
            recorded env ctx (TrimSpace c) (TrimSpace u) (TrimSpace a)
              (if p = [] then ''{}'' else p) w ev \<and>
            w' = (record_writes (TrimSpace u) (json_event ev) w)\<lparr>emitted := emitted w @ [json_event ev]\<rparr>)"
proof (cases "RecordEvent env ctx c u a p w")
  case (Pair r w')
  show ?thesis
  proof (cases r)
    case (Inl e)
    with Pair show ?thesis by (simp add: submit_def)
  next
    case (Inr ev)
    with Pair have r: "RecordEvent env ctx c u a p w = (Inr ev, w')" by simp
    have "attribute_ok (TrimSpace u)"
      using r queryByPartial_bad [of "TrimSpace u" ctx "[]" w]
      by (auto simp: RecordEvent_def Let_def split: if_splits sum.splits)
    then have "length (stored (TrimSpace u) w) < 2 ^ 64 - 1" using assms(2) by blast
    from RecordEvent_accepted [OF assms(1) this r] r show ?thesis by (auto simp: submit_def)
  qed
qed

lemma cc_after_wf:
  assumes "cc_after env n w" and "n < 2 ^ 64"
  shows "wf_world w \<and> (\<forall>u. attribute_ok u \<longrightarrow> length (stored u w) \<le> n)"
  using assms
proof (induction n arbitrary: w)
  case 0
  then have "w = genesis" by simp
  then show ?case
    by (simp add: genesis_def wf_world_def user_ok_def stored_def entries_def)
next
  case (Suc n)
  then obtain w0 where w0: "cc_after env n w0" and step: "cc_step env w0 w" by auto
  have wf: "wf_world w0" and len: "\<And>u. attribute_ok u \<Longrightarrow> length (stored u w0) \<le> n"
    using Suc.IH [OF w0] Suc.prems by auto
  then have bound: "\<forall>u. attribute_ok u \<longrightarrow> length (stored u w0) < 2 ^ 64 - 1"
    using Suc.prems by force
  from step show ?case
  proof cases
    case (recording ctx c u a p)
    from RecordEvent_step [OF wf bound, of env ctx c u a p] show ?thesis
    proof (elim disjE exE conjE)
      fix e assume "submit (RecordEvent env ctx c u a p) w0 = (Inl e, w0)"
      then show ?thesis using recording wf len by (simp add: le_SucI)
    next
      fix ev w'
      assume sub: "submit (RecordEvent env ctx c u a p) w0 = (Inr ev, w')"
        and rec: "recorded env ctx (TrimSpace c) (TrimSpace u) (TrimSpace a)
                    (if p = [] then ''{}'' else p) w0 ev"
        and w': "w' = (record_writes (TrimSpace u) (json_event ev) w0)\<lparr>emitted := emitted w0 @ [json_event ev]\<rparr>"
      have "length (stored v w') \<le> Suc n" if "attribute_ok v" for v
        using recorded_wf(2) [OF wf rec] recorded_wf(3) [OF wf rec that] len [OF that]
        by (cases "v = TrimSpace u") (auto simp: w')
      then show ?thesis using recorded_wf(1) [OF wf rec] sub recording by (simp add: w')
    qed
  next
    case (config ctx d)
    then show ?thesis
      using SetCoolingOffWindow_keeps [of env ctx d w0] wf len
      by (auto simp: wf_world_def config_frame le_SucI)
  qed
qed

lemma cc_after_user_ok: "cc_after env n w \<Longrightarrow> n < 2 ^ 64 \<Longrightarrow> attribute_ok u \<Longrightarrow> user_ok u w"
  using cc_after_wf by (simp add: wf_world_def)

lemma user_ok_chain: "user_ok u w \<Longrightarrow> chain u 0 [] (stored u w)"
  by (simp add: user_ok_def)

section \<open>Category queries and the cooling-off state\<close>

lemma sort_key_filter_stored:
  assumes "user_ok u w" and "attribute_ok u" and "attribute_ok c" and "\<not> tx_fails ctx RangeScan"
  shows "queryByPartial ctx [u, c] w = Inr (filter (\<lambda>e. ce_Category e = c) (stored u w))"
proof -
  let ?k = "composite_key [''evt'', u, c]" and ?es = "filter (\<lambda>e. ce_Category e = c) (stored u w)"
  have en: "entries u w = map (\<lambda>e. (key_of e, EventV e)) (stored u w)"
    and ch: "chain u 0 [] (stored u w)"
    using assms(1) by (simp_all add: user_ok_def)
  have nf: "nul_free u" "nul_free c" using assms(2,3) by (simp_all add: attribute_nul_free)
  have sub: "prefix (ukey u) k" if "prefix ?k k" for k
    using that nf by (auto simp: ukey_def composite_prefix intro: prefix_order.trans [rotated])
  have "filter (\<lambda>e. prefix ?k (fst e)) (kv w) = filter (\<lambda>e. prefix ?k (fst e)) (entries u w)"
    using sub by (auto simp: entries_def intro!: filter_cong)
  also have "\<dots> = map (\<lambda>e. (key_of e, EventV e)) (filter (\<lambda>e. prefix ?k (key_of e)) (stored u w))"
    by (simp add: en filter_map o_def)
  also have "filter (\<lambda>e. prefix ?k (key_of e)) (stored u w) = ?es"
  proof (rule filter_cong [OF refl])
    fix e assume "e \<in> set (stored u w)"
    then have "ce_UserID e = u" "nul_free (ce_Category e)"
      using chain_user [OF ch] by (auto intro: category_nul_free)
    then show "prefix ?k (key_of e) \<longleftrightarrow> ce_Category e = c"
      using nf by (auto simp: key_of_def evkey_def composite_prefix)
  qed
  finally have en': "filter (\<lambda>e. prefix ?k (fst e)) (kv w) = map (\<lambda>e. (key_of e, EventV e)) ?es" .
  obtain es' where es': "unmarshal_events (GetStateByPartialCompositeKey ?k w) = Inr es'"
    and m: "mset es' = mset ?es"
    using unmarshal_perm [of "GetStateByPartialCompositeKey ?k w" key_of ?es]
    by (auto simp: GetStateByPartialCompositeKey_def en')
  have seqs: "map ce_Seq (stored u w) = [Suc 0 ..< Suc (length (stored u w))]"
    using chain_seqs [OF ch] by simp
  have "sorted (map ce_Seq (stored u w))" and "distinct (map ce_Seq (stored u w))"
    unfolding seqs by (rule sorted_upt, rule distinct_upt)
  then have "sorted (map ce_Seq ?es)" and "inj_on ce_Seq (set ?es)"
    by (auto intro: sorted_filter simp: distinct_map inj_on_def)
  then have "sort_key ce_Seq es' = ?es"
    using sort_key_inj_key_eq [OF m] mset_eq_setD [OF m] by simp
  then show ?thesis
    using assms(2-4) es' by (simp add: queryByPartial_def CreateCompositeKey_def)
qed

lemma latest_blocked_le: "l \<le> latest_blocked es l"
  by (induction es arbitrary: l) (auto, meson order.trans less_imp_le)

lemma latest_blocked_bound:
  "now < latest_blocked es l + d \<longleftrightarrow>
     now < l + d \<or> (\<exists>e \<in> set es. ce_Action e = ''transaction_blocked'' \<and> now < ce_Timestamp e + d)"
  by (induction es arbitrary: l) auto

lemma latest_blocked_zero:
  "\<forall>e \<in> set es. ce_Action e = ''transaction_blocked'' \<longrightarrow> 0 < ce_Timestamp e \<Longrightarrow> 0 \<le> l \<Longrightarrow>
     latest_blocked es l = 0 \<longleftrightarrow> l = 0 \<and> (\<forall>e \<in> set es. ce_Action e \<noteq> ''transaction_blocked'')"
proof (induction es arbitrary: l)
  case (Cons e es)
  show ?case
  proof (cases "ce_Action e = ''transaction_blocked''")
    case True
    then have "0 < (if l < ce_Timestamp e then ce_Timestamp e else l)"
      using Cons.prems by (cases "l < ce_Timestamp e") auto
    then have "0 < latest_blocked es (if l < ce_Timestamp e then ce_Timestamp e else l)"
      using latest_blocked_le order.strict_trans2 by blast
    then show ?thesis using True by simp
  next
    case False
    then show ?thesis using Cons by simp
  qed
qed simp

lemma coolingOffState_iff:
  assumes "\<forall>e \<in> set es. ce_Action e = ''transaction_blocked'' \<longrightarrow> 0 < ce_Timestamp e"
  shows "fst (coolingOffState es now window) \<longleftrightarrow>
           (\<exists>e \<in> set es. ce_Action e = ''transaction_blocked'' \<and> now - ce_Timestamp e < window)"
proof (cases "latest_blocked es 0 = 0")
  case True
  then show ?thesis using latest_blocked_zero [OF assms, of 0] by (auto simp: coolingOffState_def)
next
  case False
  then obtain e where e: "e \<in> set es" "ce_Action e = ''transaction_blocked''"
    using latest_blocked_zero [OF assms, of 0] by auto
  have "now < latest_blocked es 0 + window \<longleftrightarrow>
      (\<exists>e \<in> set es. ce_Action e = ''transaction_blocked'' \<and> now < ce_Timestamp e + window)"
    unfolding latest_blocked_bound using assms e by force
  then show ?thesis using False by (auto simp: coolingOffState_def algebra_simps Let_def)
qed

text \<open>Blocked events at or before Go's zero instant are never the latest one.\<close>

lemma latest_blocked_positive:
  "0 \<le> l \<Longrightarrow> latest_blocked es l = latest_blocked (filter (\<lambda>e. 0 < ce_Timestamp e) es) l"
  by (induction es arbitrary: l) auto

lemma coolingOffState_exact:
  "fst (coolingOffState es now window) \<longleftrightarrow>
     (\<exists>e \<in> set es. ce_Action e = ''transaction_blocked'' \<and> 0 < ce_Timestamp e \<and> now - ce_Timestamp e < window)"
proof -
  have "coolingOffState es now window = coolingOffState (filter (\<lambda>e. 0 < ce_Timestamp e) es) now window"
    using latest_blocked_positive [of 0 es] by (simp add: coolingOffState_def)
  then show ?thesis by (simp add: coolingOffState_iff) blast
qed

section \<open>Runs whose recorded actions are text\<close>

text \<open>
  The steps of \<open>cc_step\<close>, where every action recorded for the user \<open>u\<close> is valid UTF-8. Nothing
  in the code asks for it.
\<close>

inductive cc_text_step :: "cc_env \<Rightarrow> string \<Rightarrow> world \<Rightarrow> world \<Rightarrow> bool" for env u where
  recording: "TrimSpace v = u \<longrightarrow> utf8_ok (TrimSpace a) \<Longrightarrow>
    cc_text_step env u w (snd (submit (RecordEvent env ctx c v a p) w))"
| config: "cc_text_step env u w (snd (submit (SetCoolingOffWindow env ctx d) w))"

lemma cc_text_step: "cc_text_step env u w w' \<Longrightarrow> cc_step env w w'"
  by (auto elim!: cc_text_step.cases intro: cc_step.intros)

lemma cc_text_after: "(cc_text_step env u ^^ n) w w' \<Longrightarrow> (cc_step env ^^ n) w w'"
  by (induction n arbitrary: w') (auto intro: cc_text_step)

lemma event_string_json:
  assumes "recorded env ctx c u a p w ev" and "user_ok u w"
  shows "event_string (json_event ev) = join ''|'' [ce_PrevHash ev, ce_PayloadHash ev, u, json_string a, c,
     dec (int (ce_Seq ev)), rfc3339nano (ce_Timestamp ev)]"
proof -
  have "ascii c" "json_string u = u" using assms(1)
    by (auto simp: recorded_def category_ascii attribute_json)
  then show ?thesis
    using assms tip_ascii [OF assms(2)] by (simp add: event_string_def recorded_def ascii_json)
qed

lemma recorded_hashed:
  assumes "recorded env ctx c u a p w ev" and "user_ok u w" and "utf8_ok a"
  shows "ce_Hash (json_event ev) = eventHash env (json_event ev)"
proof -
  have "event_string (json_event ev) = event_string ev"
    unfolding event_string_json [OF assms(1,2)]
    using assms(1,3) by (simp add: event_string_def recorded_def utf8_ok_json)
  moreover have "ce_Hash ev = eventHash env ev" using assms(1) by (simp add: recorded_def)
  ultimately show ?thesis by (simp add: eventHash_def ascii_json)
qed

lemma text_run:
  "(cc_text_step env u ^^ n) genesis w \<Longrightarrow> n < 2 ^ 64 \<Longrightarrow> attribute_ok u \<Longrightarrow> hashed env (stored u w)"
proof (induction n arbitrary: w)
  case 0
  then have "w = genesis" by simp
  then show ?case by (simp add: genesis_def hashed_def stored_def entries_def)
next
  case (Suc n)
  then obtain w0 where run: "(cc_text_step env u ^^ n) genesis w0" and step: "cc_text_step env u w0 w" by auto
  have hd: "hashed env (stored u w0)" using Suc.IH [OF run] Suc.prems by simp
  have wf: "wf_world w0" and "\<forall>v. attribute_ok v \<longrightarrow> length (stored v w0) < 2 ^ 64 - 1"
    using cc_after_wf [OF cc_text_after [OF run]] Suc.prems(2) by force+
  from step show ?case
  proof (cases rule: cc_text_step.cases)
    case (recording v a ctx c p)
    from RecordEvent_step [OF wf \<open>\<forall>v. attribute_ok v \<longrightarrow> _\<close>, of env ctx c v a p] show ?thesis
    proof (elim disjE exE conjE)
      fix e assume "submit (RecordEvent env ctx c v a p) w0 = (Inl e, w0)"
      then show ?thesis using recording hd by simp
    next
      fix ev w'
      assume sub: "submit (RecordEvent env ctx c v a p) w0 = (Inr ev, w')"
        and rec: "recorded env ctx (TrimSpace c) (TrimSpace v) (TrimSpace a)
                    (if p = [] then ''{}'' else p) w0 ev"
        and w': "w' = (record_writes (TrimSpace v) (json_event ev) w0)\<lparr>emitted := emitted w0 @ [json_event ev]\<rparr>"
      show ?thesis
      proof (cases "TrimSpace v = u")
        case True
        then have "ce_Hash (json_event ev) = eventHash env (json_event ev)"
          using recorded_hashed [OF rec] recording(2) wf Suc.prems(3) by (simp add: wf_world_def)
        then show ?thesis
          using hd recorded_wf(2) [OF wf rec] True recording(1) sub by (simp add: w' hashed_def)
      next
        case False
        then show ?thesis using hd recorded_wf(3) [OF wf rec Suc.prems(3)] recording(1) sub by (simp add: w')
      qed
    qed
  next
    case (config ctx d)
    then show ?thesis using SetCoolingOffWindow_keeps [of env ctx d w0] hd by (auto simp: config_frame)
  qed
qed

section \<open>When a transaction is accepted\<close>

text \<open>The latest consent event before \<open>now\<close> is a revocation.\<close>

definition revoked_at :: "time \<Rightarrow> cc_Event list \<Rightarrow> bool" where
  "revoked_at now hist =
     (case find (\<lambda>p. ce_Action p \<in> {''consent_revoked'', ''consent_granted'', ''consent_updated''} \<and>
                    ce_Timestamp p < now) (rev hist) of
        None \<Rightarrow> False | Some p \<Rightarrow> ce_Action p = ''consent_revoked'')"

lemma revoked_scan_snoc:
  "\<forall>p \<in> set (hist @ [x]). ce_UserID p = ce_UserID ev \<Longrightarrow>
     revoked_scan ev (hist @ [x]) b =
       (if ce_Timestamp x < ce_Timestamp ev \<and> ce_Action x = ''consent_revoked'' then True
        else if ce_Timestamp x < ce_Timestamp ev \<and> ce_Action x \<in> {''consent_granted'', ''consent_updated''}
        then False else revoked_scan ev hist b)"
  by (induction hist arbitrary: b) auto

lemma revoked_scan_iff:
  assumes "\<forall>p \<in> set hist. ce_UserID p = ce_UserID ev"
  shows "revoked_scan ev hist False \<longleftrightarrow> revoked_at (ce_Timestamp ev) hist"
  using assms
proof (induction hist rule: rev_induct)
  case Nil
  then show ?case by (simp add: revoked_at_def)
next
  case (snoc x hist)
  have "revoked_scan ev hist False \<longleftrightarrow> revoked_at (ce_Timestamp ev) hist"
    by (rule snoc.IH) (use snoc.prems in simp)
  then show ?case unfolding revoked_scan_snoc [OF snoc.prems]
    by (auto simp: revoked_at_def)
qed

lemma rules_pass_iff:
  assumes "\<forall>p \<in> set hist. ce_UserID p = ce_UserID ev" and "ce_Resource ev \<in> ValidCategories"
    and "ce_Timestamp ev = now"
  shows "rules_pass env window ev hist now \<longleftrightarrow>
     \<not> (ce_Action ev \<in> {''transaction_initiated'', ''transaction_override''} \<and>
        (\<exists>p \<in> set hist. ce_Action p = ''transaction_blocked'' \<and> now - ce_Timestamp p < window)) \<and>
     \<not> (ce_Action ev \<in> {''account_aggregator_sync'', ''data_exported''} \<and> revoked_at now hist) \<and>
     \<not> (ce_Action ev = ''transaction_initiated'' \<and>
        (\<exists>p \<in> set hist. ce_Action p = ''transaction_initiated'' \<and>
           ce_PayloadHash p = ce_PayloadHash ev \<and> ce_Timestamp p \<noteq> now))"
proof -
  have res: "ce_Resource ev \<noteq> ''account_aggregator''" "ce_Resource ev \<noteq> ''data_export''"
    using assms(2) by (auto simp: ValidCategories_def)
  have "sc_Passed (coolingOffRule env window ev hist now) \<longleftrightarrow>
     \<not> (ce_Action ev \<in> {''transaction_initiated'', ''transaction_override''} \<and>
        (\<exists>p \<in> set hist. ce_Action p = ''transaction_blocked'' \<and> now - ce_Timestamp p < window))"
    using assms(1,3) by (auto simp: coolingOffRule_def cc_passed_def Let_def list_ex_iff)
  moreover have "sc_Passed (consentRevocationRule ev hist now) \<longleftrightarrow>
     \<not> (ce_Action ev \<in> {''account_aggregator_sync'', ''data_exported''} \<and> revoked_at now hist)"
    using res revoked_scan_iff [OF assms(1)] assms(3)
    by (simp add: consentRevocationRule_def cc_passed_def Let_def)
  moreover have "sc_Passed (doubleSpendRule ev hist now) \<longleftrightarrow>
     \<not> (ce_Action ev = ''transaction_initiated'' \<and>
        (\<exists>p \<in> set hist. ce_Action p = ''transaction_initiated'' \<and>
           ce_PayloadHash p = ce_PayloadHash ev \<and> ce_Timestamp p \<noteq> now))"
    using assms(1,3) by (auto simp: doubleSpendRule_def cc_passed_def Let_def list_ex_iff)
  ultimately show ?thesis by (simp add: rules_pass_def)
qed

text \<open>A call with valid arguments and a stub that does not fail.\<close>

definition good_call :: "cc_env \<Rightarrow> cc_ctx \<Rightarrow> string \<Rightarrow> string \<Rightarrow> string \<Rightarrow> string \<Rightarrow> bool" where
  "good_call env ctx c u a p \<longleftrightarrow>
     TrimSpace u = u \<and> u \<noteq> [] \<and> attribute_ok u \<and> TrimSpace a = a \<and> a \<noteq> [] \<and> TrimSpace c = c \<and>
     c \<in> ValidCategories \<and> p \<noteq> [] \<and> env_json_valid env p \<and> (\<forall>k. \<not> tx_fails ctx k)"

lemma RecordEvent_good:
  assumes "good_call env ctx c u a p" and "user_ok u w"
  shows "(\<exists>ev w'. RecordEvent env ctx c u a p w = (Inr ev, w')) \<longleftrightarrow>
     year_ok (tx_now ctx) \<and> rules_pass env (resolveCoolingOffWindow env ctx w)
       (mk_event env ctx c u a p \<lparr>ch_Seq = length (stored u w), ch_Hash = tip (stored u w)\<rparr>)
       (stored u w) (tx_now ctx)"
proof -
  have nf: "attribute_ok u" "attribute_ok c" and f: "\<not> tx_fails ctx k" for k
    using assms(1) category_attribute by (auto simp: good_call_def)
  note head = readHead_ok [OF assms(2) f] and query = queryByPartial_stored [OF assms(2) nf(1) f]
  show ?thesis
    unfolding enforceRules_iff [symmetric]
    using assms(1) nf
    by (auto simp: RecordEvent_def Let_def good_call_def head query putEvent_def writeHead_def
        eventKey_evkey marshal_mk_event split: sum.splits)
qed

lemma report_iff:
  assumes "user_ok u w" and "attribute_ok u" and "\<And>k. \<not> tx_fails ctx k"
  shows "(\<exists>t. cc_VerifyCoolingOff env ctx u w = Inr (True, t)) \<longleftrightarrow>
    (\<exists>e \<in> set (stored u w). ce_Action e = ''transaction_blocked'' \<and> ce_Category e = ''transaction'' \<and>
       0 < ce_Timestamp e \<and> tx_now ctx - ce_Timestamp e < resolveCoolingOffWindow env ctx w)"
proof -
  let ?es = "filter (\<lambda>e. ce_Category e = ''transaction'') (stored u w)"
  have q: "queryByPartial ctx [u, ''transaction''] w = Inr ?es"
    by (rule sort_key_filter_stored [OF assms(1,2) _ assms(3)]) (simp add: category_attribute ValidCategories_def)
  have "(\<exists>t. cc_VerifyCoolingOff env ctx u w = Inr (True, t)) \<longleftrightarrow>
      fst (coolingOffState ?es (tx_now ctx) (resolveCoolingOffWindow env ctx w))"
    using assms(3) by (auto simp: cc_VerifyCoolingOff_def q split: prod.split)
  then show ?thesis unfolding coolingOffState_exact by auto
qed

lemma override_iff:
  assumes "good_call env ctx c u ''transaction_override'' p" and "user_ok u w"
  shows "(\<exists>ev w'. submit (RecordEvent env ctx c u ''transaction_override'' p) w = (Inr ev, w')) \<longleftrightarrow>
    year_ok (tx_now ctx) \<and> \<not> (\<exists>e \<in> set (stored u w). ce_Action e = ''transaction_blocked'' \<and>
       tx_now ctx - ce_Timestamp e < resolveCoolingOffWindow env ctx w)"
proof -
  have cat: "c \<in> ValidCategories" using assms(1) by (auto simp: good_call_def)
  have us: "\<forall>e \<in> set (stored u w). ce_UserID e = u" using chain_user [OF user_ok_chain [OF assms(2)]] by blast
  show ?thesis
    unfolding submit_ok RecordEvent_good [OF assms]
    by (subst rules_pass_iff) (use us cat in simp_all)
qed

section \<open>Properties\<close>

text \<open>
  C5: after any number of transactions below 2^64 in which every action recorded for a user was
  valid UTF-8, the on-chain proof of that user succeeds: the hash chain is intact, its head is
  the last stored event, the root is that of the stored hashes, and the sequence numbers are
  1, 2, 3, ... The other fields need no such condition: the code refuses a user that is not
  valid UTF-8, and hashes the payload before it stores it.
\<close>
theorem proofs_intact:
  assumes "(cc_text_step env u ^^ n) genesis w" and "n < 2 ^ 64" and "attribute_ok u" and "\<not> tx_fails ctx RangeScan"
  shows "\<exists>pf. GetProof env ctx u w = Inr pf \<and> pf_Intact pf \<and>
           pf_EventCount pf = int (length (stored u w)) \<and> pf_HeadHash pf = tip (stored u w) \<and>
           pf_MerkleRoot pf = merkleRoot env (map ce_Hash (stored u w)) \<and>
           map ce_Seq (stored u w) = [1 ..< Suc (length (stored u w))]"
proof -
  have ok: "user_ok u w" by (rule cc_after_user_ok [OF cc_text_after [OF assms(1)] assms(2,3)])
  note ch = user_ok_chain [OF ok]
  have "map ce_Seq (stored u w) = [1 ..< Suc (length (stored u w))]"
    using chain_seqs [OF ch] by (simp del: upt_Suc)
  then show ?thesis
    using queryByPartial_stored [OF ok assms(3,4)] proof_scan_chain [OF ch text_run [OF assms(1-3)], of "[]"]
    by (auto simp: GetProof_def tip_def merkleRoot_def Let_def simp del: upt_Suc)
qed

definition demo_env :: cc_env where
  "demo_env = \<lparr>env_sha256 = (\<lambda>x. ''h'' @ x), env_json_valid = (\<lambda>x. True),
     env_ParseDuration = (\<lambda>x. None), env_DurationString = (\<lambda>d. ''6h0m0s'')\<rparr>"

definition demo_ctx :: "time \<Rightarrow> cc_ctx" where
  "demo_ctx t = \<lparr>tx_now = t, tx_id = ''tx'', tx_fails = (\<lambda>k. False)\<rparr>"

definition demo_world :: world where
  "demo_world = snd (submit (RecordEvent demo_env (demo_ctx (10 * hour)) ''transaction'' ''u''
     ''transaction_blocked'' ''{}'') genesis)"

lemma demo_world_after: "cc_after demo_env 1 demo_world"
  unfolding demo_world_def relpowp_1 by (rule cc_step.recording)

lemma attribute_demo [simp]: "attribute_ok ''u''" "attribute_ok ''v''"
  by (simp_all add: ascii_attribute ascii_def)

lemma demo_world_text: "(cc_text_step demo_env ''u'' ^^ 1) genesis demo_world"
  unfolding demo_world_def relpowp_1
  by (rule cc_text_step.recording) (simp add: TrimSpace_def is_space_def ascii_utf8 ascii_def)

theorem proofs_intact_witness:
  "\<exists>pf. GetProof demo_env (demo_ctx 0) ''u'' demo_world = Inr pf \<and> pf_Intact pf"
  using proofs_intact [OF demo_world_text, of "demo_ctx 0"]
  by (auto simp: attribute_demo demo_ctx_def)

text \<open>
  A rejected transaction leaves the world state as it was; an accepted one adds exactly the
  returned event at the end of its user's history, with the next sequence number, and leaves
  every other user's history alone.
\<close>
theorem RecordEvent_effect:
  assumes "cc_after env n w" and "n < 2 ^ 64 - 1"
    and "submit (RecordEvent env ctx c u a p) w = (r, w')" and "\<not> tx_fails q RangeScan"
  shows "case r of
      Inl e \<Rightarrow> w' = w
    | Inr ev \<Rightarrow>
        ce_Seq ev = Suc (length (stored (TrimSpace u) w)) \<and> ce_UserID ev = TrimSpace u \<and>
        queryByPartial q [TrimSpace u] w' = Inr (stored (TrimSpace u) w @ [json_event ev]) \<and>
        (\<forall>v. attribute_ok v \<and> v \<noteq> TrimSpace u \<longrightarrow> queryByPartial q [v] w' = queryByPartial q [v] w)"
proof -
  let ?u = "TrimSpace u"
  have wf: "wf_world w" and "\<forall>v. attribute_ok v \<longrightarrow> length (stored v w) < 2 ^ 64 - 1"
    using cc_after_wf [OF assms(1)] assms(2) by force+
  from RecordEvent_step [OF this, of env ctx c u a p] show ?thesis
  proof (elim disjE exE conjE)
    fix e assume "submit (RecordEvent env ctx c u a p) w = (Inl e, w)"
    with assms(3) show ?thesis by auto
  next
    fix ev w2
    assume sub: "submit (RecordEvent env ctx c u a p) w = (Inr ev, w2)"
      and rec: "recorded env ctx (TrimSpace c) ?u (TrimSpace a) (if p = [] then ''{}'' else p) w ev"
      and w2: "w2 = (record_writes ?u (json_event ev) w)\<lparr>emitted := emitted w @ [json_event ev]\<rparr>"
    have eq: "r = Inr ev" "w' = w2" using sub assms(3) by auto
    have wf2: "wf_world w2" and st: "stored ?u w2 = stored ?u w @ [json_event ev]"
      and oth: "\<And>v. attribute_ok v \<Longrightarrow> v \<noteq> ?u \<Longrightarrow> stored v w2 = stored v w"
      using recorded_wf [OF wf rec] by (simp_all add: w2)
    have nf: "attribute_ok ?u" using rec by (simp add: recorded_def)
    have q: "queryByPartial q [v] x = Inr (stored v x)" if "wf_world x" "attribute_ok v" for v x
      using that assms(4) queryByPartial_stored [of v x q] by (simp add: wf_world_def)
    show ?thesis using rec wf wf2 nf by (simp add: eq q st oth recorded_def)
  qed
qed

theorem RecordEvent_effect_witness:
  "case fst (submit (RecordEvent demo_env (demo_ctx (11 * hour)) ''audit'' ''v'' ''login'' []) demo_world) of
      Inl e \<Rightarrow> snd (submit (RecordEvent demo_env (demo_ctx (11 * hour)) ''audit'' ''v'' ''login'' []) demo_world)
                 = demo_world
    | Inr ev \<Rightarrow> ce_UserID ev = TrimSpace ''v''"
  using RecordEvent_effect [OF demo_world_after _ prod.collapse [symmetric], of "demo_ctx 0"
      "demo_ctx (11 * hour)" "''audit''" "''v''" "''login''" "[]"]
  by (auto simp: demo_ctx_def split: sum.splits)

text \<open>
  C4: on-chain enforcement, exactly. A valid call is accepted if and only if its transaction
  time has a year of four digits (others do not marshal) and it is not an initiated or overridden transaction inside the cooling-off window of a blocked one, not a
  data access while the latest earlier consent event is a revocation, and not an initiated
  transaction whose payload was already recorded as one at another instant. A replay that
  carries the same transaction timestamp is accepted.
\<close>
theorem on_chain_enforcement:
  assumes "cc_after env n w" and "n < 2 ^ 64" and "good_call env ctx c u a p"
  shows "(\<exists>ev w'. submit (RecordEvent env ctx c u a p) w = (Inr ev, w')) \<longleftrightarrow>
     year_ok (tx_now ctx) \<and>
     \<not> (a \<in> {''transaction_initiated'', ''transaction_override''} \<and>
        (\<exists>e \<in> set (stored u w). ce_Action e = ''transaction_blocked'' \<and>
           tx_now ctx - ce_Timestamp e < resolveCoolingOffWindow env ctx w)) \<and>
     \<not> (a \<in> {''account_aggregator_sync'', ''data_exported''} \<and> revoked_at (tx_now ctx) (stored u w)) \<and>
     \<not> (a = ''transaction_initiated'' \<and>
        (\<exists>e \<in> set (stored u w). ce_Action e = ''transaction_initiated'' \<and>
           ce_PayloadHash e = cc_sha256Hex env p \<and> ce_Timestamp e \<noteq> tx_now ctx))"
proof -
  have "attribute_ok u" and cat: "c \<in> ValidCategories" using assms(3) by (auto simp: good_call_def)
  then have ok: "user_ok u w" using cc_after_user_ok [OF assms(1,2)] by blast
  have us: "\<forall>e \<in> set (stored u w). ce_UserID e = u" using chain_user [OF user_ok_chain [OF ok]] by blast
  show ?thesis
    unfolding submit_ok RecordEvent_good [OF assms(3) ok]
    by (subst rules_pass_iff) (use us cat in simp_all)
qed

lemma demo_genesis: "cc_after demo_env 0 genesis"
  by simp

lemma demo_year: "year_ok (tx_now (demo_ctx 7))" "year_ok (tx_now (demo_ctx (10 * hour)))"
  by (simp_all add: year_ok_def civil_date_def demo_ctx_def Let_def del: month_day.simps)

theorem on_chain_enforcement_witness:
  "\<exists>ev w'. submit (RecordEvent demo_env (demo_ctx 7) ''transaction'' ''u'' ''transaction_initiated'' ''{}'')
     genesis = (Inr ev, w')"
proof -
  have "good_call demo_env (demo_ctx 7) ''transaction'' ''u'' ''transaction_initiated'' ''{}''"
    by (simp add: good_call_def demo_env_def demo_ctx_def TrimSpace_def is_space_def attribute_demo
        ValidCategories_def)
  from on_chain_enforcement [OF demo_genesis _ this] show ?thesis
    using demo_year(1) by (simp add: genesis_def stored_def entries_def)
qed

text \<open>
  C6: what \<open>VerifyCoolingOff\<close> reports against what \<open>RecordEvent\<close> enforces, exactly. A valid
  override is rejected if and only if an active window is reported, or a blocked event that the
  report overlooks is recent: one of another category than transaction, which only the rule
  looks at, or one at or before Go's zero instant, or if its transaction time does not marshal.
\<close>
theorem cooling_off_report_agrees:
  assumes "cc_after env n w" and "n < 2 ^ 64" and "good_call env ctx c u ''transaction_override'' p"
  shows "\<not> (\<exists>ev w'. submit (RecordEvent env ctx c u ''transaction_override'' p) w = (Inr ev, w')) \<longleftrightarrow>
         (\<exists>t. cc_VerifyCoolingOff env ctx u w = Inr (True, t)) \<or>
         (\<exists>e \<in> set (stored u w). ce_Action e = ''transaction_blocked'' \<and>
            tx_now ctx - ce_Timestamp e < resolveCoolingOffWindow env ctx w \<and>
            (ce_Category e \<noteq> ''transaction'' \<or> ce_Timestamp e \<le> 0)) \<or>
         \<not> year_ok (tx_now ctx)"
proof -
  have u: "attribute_ok u" and f: "\<And>k. \<not> tx_fails ctx k" using assms(3) by (auto simp: good_call_def)
  then have ok: "user_ok u w" using cc_after_user_ok [OF assms(1,2)] by blast
  show ?thesis unfolding report_iff [OF ok u f] override_iff [OF assms(3) ok] using not_le by blast
qed

lemma demo_window [simp]: "resolveCoolingOffWindow demo_env ctx w = 6 * hour"
  by (simp add: resolveCoolingOffWindow_def demo_env_def defaultCoolingOffWindow_def
      split: option.split wval.split)

lemma demo_call: "c \<in> ValidCategories \<Longrightarrow> a \<in> {''transaction_blocked'', ''transaction_override''} \<Longrightarrow>
    good_call demo_env (demo_ctx t) c ''u'' a ''{}''"
  by (auto simp: good_call_def demo_env_def demo_ctx_def TrimSpace_def is_space_def ValidCategories_def)

lemma demo_stored:
  assumes "c \<in> ValidCategories"
  defines "w' \<equiv> snd (submit (RecordEvent demo_env (demo_ctx (10 * hour)) c ''u'' ''transaction_blocked'' ''{}'') genesis)"
  shows "\<exists>e. stored ''u'' w' = [e] \<and> ce_Action e = ''transaction_blocked'' \<and> ce_Category e = c \<and>
             ce_Timestamp e = 10 * hour"
    and "user_ok ''u'' w'"
proof -
  let ?tx = "RecordEvent demo_env (demo_ctx (10 * hour)) c ''u'' ''transaction_blocked'' ''{}''"
  have nil: "stored v genesis = []" for v by (simp add: genesis_def stored_def entries_def)
  have wf: "wf_world genesis" using cc_after_wf [OF demo_genesis] by simp
  then have ok: "user_ok ''u'' genesis" by (simp add: wf_world_def)
  note call = demo_call [OF assms(1), of "''transaction_blocked''" "10 * hour"]
  have "\<exists>ev w'. ?tx genesis = (Inr ev, w')"
    using assms(1) demo_year(2) by (subst RecordEvent_good [OF call ok]) (simp_all add: rules_pass_iff nil revoked_at_def)
  with RecordEvent_step [OF wf, of demo_env "demo_ctx (10 * hour)" c "''u''" "''transaction_blocked''" "''{}''"]
  obtain ev where rec: "recorded demo_env (demo_ctx (10 * hour)) (TrimSpace c) ''u'' ''transaction_blocked'' ''{}'' genesis ev"
    and w': "w' = (record_writes ''u'' (json_event ev) genesis)\<lparr>emitted := emitted genesis @ [json_event ev]\<rparr>"
    using call by (auto simp: nil good_call_def w'_def submit_def split: prod.splits sum.splits)
  have "ascii ''transaction_blocked''" by (simp add: ascii_def)
  then have "ce_Action (json_event ev) = ''transaction_blocked''" "ce_Category (json_event ev) = c"
    "ce_Timestamp (json_event ev) = 10 * hour"
    using rec call assms(1) by (simp_all add: recorded_def ascii_json category_ascii good_call_def demo_ctx_def)
  then show "\<exists>e. stored ''u'' w' = [e] \<and> ce_Action e = ''transaction_blocked'' \<and> ce_Category e = c \<and>
      ce_Timestamp e = 10 * hour"
    using recorded_wf(2) [OF wf rec] by (simp add: w' nil)
  show "user_ok ''u'' w'" using recorded_wf(1) [OF wf rec] by (simp add: w' wf_world_def)
qed

lemma demo_fails [simp]: "\<not> tx_fails (demo_ctx t) k"
  by (simp add: demo_ctx_def)

theorem cooling_off_report_agrees_witness:
  "\<not> (\<exists>ev w'. submit (RecordEvent demo_env (demo_ctx (11 * hour)) ''transaction'' ''u'' ''transaction_override'' ''{}'')
         demo_world = (Inr ev, w'))"
proof -
  have cat: "''transaction'' \<in> ValidCategories" by (simp add: ValidCategories_def)
  have "\<exists>t. cc_VerifyCoolingOff demo_env (demo_ctx (11 * hour)) ''u'' demo_world = Inr (True, t)"
    using demo_stored(1) [OF cat] unfolding demo_world_def
    by (subst report_iff [OF demo_stored(2) [OF cat]]) (auto simp: demo_ctx_def)
  then show ?thesis
    using cooling_off_report_agrees [OF demo_world_after _ demo_call [OF cat, of _ "11 * hour"]] by simp
qed

text \<open>
  A blocked event of another category is enforced and not reported: after one in the audit
  category an override is rejected although \<open>VerifyCoolingOff\<close> reports nothing.
\<close>

definition demo_hidden :: world where
  "demo_hidden = snd (submit (RecordEvent demo_env (demo_ctx (10 * hour)) ''audit'' ''u''
     ''transaction_blocked'' ''{}'') genesis)"

theorem hidden_block:
  "\<not> (\<exists>t. cc_VerifyCoolingOff demo_env (demo_ctx (11 * hour)) ''u'' demo_hidden = Inr (True, t)) \<and>
   \<not> (\<exists>ev w'. submit (RecordEvent demo_env (demo_ctx (11 * hour)) ''transaction'' ''u'' ''transaction_override'' ''{}'')
         demo_hidden = (Inr ev, w'))"
proof -
  have cat: "''audit'' \<in> ValidCategories" "''transaction'' \<in> ValidCategories" by (simp_all add: ValidCategories_def)
  obtain e where e: "stored ''u'' demo_hidden = [e]" "ce_Action e = ''transaction_blocked''" "ce_Category e = ''audit''"
    "ce_Timestamp e = 10 * hour"
    using demo_stored(1) [OF cat(1)] unfolding demo_hidden_def by blast
  have ok: "user_ok ''u'' demo_hidden" unfolding demo_hidden_def by (rule demo_stored(2) [OF cat(1)])
  show ?thesis
    unfolding report_iff [OF ok attribute_demo(1) demo_fails] override_iff [OF demo_call [OF cat(2)] ok, simplified]
    using e by (simp add: demo_ctx_def)
qed

text \<open>
  One byte that is not UTF-8 in an action is enough: if the two hashed strings do not collide,
  the proof of the user reports a mismatch from the next read on, although nobody touched the
  ledger.
\<close>
theorem invalid_action_breaks_proof:
  assumes "cc_after env n w" and "n < 2 ^ 64 - 1"
    and "submit (RecordEvent env ctx c u a p) w = (Inr ev, w')" and "\<not> utf8_ok (TrimSpace a)"
    and "cc_sha256Hex env (event_string (json_event ev)) = cc_sha256Hex env (event_string ev) \<longrightarrow>
           event_string (json_event ev) = event_string ev"
    and "\<not> tx_fails q RangeScan"
  shows "\<exists>pf. GetProof env q (TrimSpace u) w' = Inr pf \<and> \<not> pf_Intact pf"
proof -
  let ?u = "TrimSpace u"
  have wf: "wf_world w" and "\<forall>v. attribute_ok v \<longrightarrow> length (stored v w) < 2 ^ 64 - 1"
    using cc_after_wf [OF assms(1)] assms(2) by force+
  from RecordEvent_step [OF this, of env ctx c u a p] assms(3)
  have rec: "recorded env ctx (TrimSpace c) ?u (TrimSpace a) (if p = [] then ''{}'' else p) w ev"
    and w': "w' = (record_writes ?u (json_event ev) w)\<lparr>emitted := emitted w @ [json_event ev]\<rparr>" by auto
  have u: "attribute_ok ?u" "user_ok ?u w" using rec wf by (auto simp: recorded_def wf_world_def)
  have ok: "user_ok ?u w'" using recorded_wf(1) [OF wf rec] u by (simp add: w' wf_world_def)
  have st: "stored ?u w' = stored ?u w @ [json_event ev]" using recorded_wf(2) [OF wf rec] by (simp add: w')
  have "length (json_string (TrimSpace a)) \<noteq> length (TrimSpace a)"
    using json_string_longer [of "TrimSpace a"] assms(4) by simp
  then have "event_string (json_event ev) \<noteq> event_string ev"
    unfolding event_string_json [OF rec u(2)] using rec by (auto simp: event_string_def recorded_def)
  then have "eventHash env (json_event ev) \<noteq> eventHash env ev" using assms(5) by (auto simp: eventHash_def)
  then have "\<not> hashed env (stored ?u w')" using rec by (simp add: st hashed_def recorded_def ascii_json)
  then have "fst (proof_scan env (stored ?u w') [] []) \<noteq> AllGood" using proof_scan_hashed by blast
  then show ?thesis
    using queryByPartial_stored [OF ok u(1) assms(6)] st
    by (auto simp: GetProof_def Let_def split: prod.split)
qed

definition bar_free :: "string \<Rightarrow> bool" where
  "bar_free s \<longleftrightarrow> CHR ''|'' \<notin> set s"

lemma bar_free_dec: "CHR ''|'' \<notin> set (dec (int n))"
  using dec_digits_chars [of "CHR ''|''" n] by (auto simp: dec_def is_digit_def)

text \<open>
  Unlike the in-memory ledger, the on-chain event hash separates its fields: if two events
  hash alike, the hash does not collide on their two strings and no field contains the
  separator, then all the hashed fields agree.
\<close>
theorem eventHash_binds_fields:
  assumes "eventHash env e = eventHash env f" and "inj_on (cc_sha256Hex env) {event_string e, event_string f}"
    and "\<forall>g \<in> {e, f}. bar_free (ce_PrevHash g) \<and> bar_free (ce_PayloadHash g) \<and>
           bar_free (ce_UserID g) \<and> bar_free (ce_Action g) \<and> bar_free (ce_Resource g)"
  shows "ce_PrevHash e = ce_PrevHash f \<and> ce_PayloadHash e = ce_PayloadHash f \<and>
         ce_UserID e = ce_UserID f \<and> ce_Action e = ce_Action f \<and> ce_Resource e = ce_Resource f \<and>
         ce_Seq e = ce_Seq f \<and> rfc3339nano (ce_Timestamp e) = rfc3339nano (ce_Timestamp f)"
proof -
  have "event_string e = event_string f"
    using assms(1,2) by (auto simp: eventHash_def dest: inj_onD)
  then show ?thesis
    using assms(3) by (simp add: event_string_def bar_free_def sep_split bar_free_dec)
qed

theorem eventHash_binds_fields_witness:
  "let e = mk_event demo_env (demo_ctx 3) ''audit'' ''u'' ''login'' ''{}'' \<lparr>ch_Seq = 0, ch_Hash = []\<rparr>;
       f = e\<lparr>ce_TxID := ''other''\<rparr>
   in ce_UserID e = ce_UserID f \<and> ce_Seq e = ce_Seq f"
proof -
  let ?e = "mk_event demo_env (demo_ctx 3) ''audit'' ''u'' ''login'' ''{}'' \<lparr>ch_Seq = 0, ch_Hash = []\<rparr>"
  have s: "event_string (?e\<lparr>ce_TxID := ''other''\<rparr>) = event_string ?e" by (simp add: event_string_def)
  have "eventHash demo_env ?e = eventHash demo_env (?e\<lparr>ce_TxID := ''other''\<rparr>)"
    by (simp add: eventHash_def s)
  from eventHash_binds_fields [OF this] show ?thesis
    by (simp add: s bar_free_def demo_env_def)
qed

end
