(* ===== verification/Resilience.thy ===== *)
theory Resilience
  imports FINIX_Prelude
begin

text \<open>
  \<open>domain/platform/infrastructure.go\<close>: the secrets cache, the outbox with its worker (the loop
  body of \<open>startOutboxWorker\<close> in \<open>service.go\<close>) and the circuit breaker. A pointer into the
  outbox is the index of the event. A protected call of the breaker is two steps, the one
  before and the one after the caller's function, so that calls can overlap.
\<close>

section \<open>Secrets\<close>

datatype SecretsBackend = SecretsBackendEnv | SecretsBackendVault | OtherBackend string

record SecretsManager =
  sm_backend :: SecretsBackend
  sm_cache :: "string \<rightharpoonup> string"

definition backend_of :: "string \<Rightarrow> SecretsBackend" where
  "backend_of s = (if s = ''env'' then SecretsBackendEnv
                   else if s = ''vault'' then SecretsBackendVault else OtherBackend s)"

definition NewSecretsManager :: "(string \<Rightarrow> string) \<Rightarrow> SecretsManager" where
  "NewSecretsManager getenv =
     (let b = getenv ''FINIX_SECRETS_BACKEND'' in
      \<lparr>sm_backend = (if b = [] then SecretsBackendEnv else backend_of b), sm_cache = (\<lambda>_. None)\<rparr>)"

definition fetchFromVault :: "(string \<Rightarrow> string) \<Rightarrow> string \<Rightarrow> string" where
  "fetchFromVault getenv key = (if getenv ''VAULT_ADDR'' = [] then [] else [])"

definition GetSecret :: "(string \<Rightarrow> string) \<Rightarrow> string \<Rightarrow> SecretsManager \<Rightarrow> string \<times> SecretsManager" where
  "GetSecret getenv key sm =
     (case sm_cache sm key of
        Some v \<Rightarrow> (v, sm)
      | None \<Rightarrow>
          let v = (if sm_backend sm = SecretsBackendVault then fetchFromVault getenv key else getenv key)
          in (v, if v \<noteq> [] then sm\<lparr>sm_cache := (sm_cache sm)(key \<mapsto> v)\<rparr> else sm))"

section \<open>Outbox\<close>

record OutboxEvent =
  ob_ID :: string
  ob_Topic :: string
  ob_Payload :: string
  ob_CreatedAt :: time
  ob_Retries :: int
  ob_Processed :: bool

type_synonym Outbox = "OutboxEvent list"

definition NewOutbox :: Outbox where "NewOutbox = []"

definition Enqueue :: "string \<Rightarrow> time \<Rightarrow> string \<Rightarrow> string \<Rightarrow> Outbox \<Rightarrow> Outbox" where
  "Enqueue rnd now topic payload o1 =
     o1 @ [\<lparr>ob_ID = ''obx_'' @ rnd, ob_Topic = topic, ob_Payload = payload, ob_CreatedAt = now,
            ob_Retries = 0, ob_Processed = False\<rparr>]"

fun dequeue_loop :: "int \<Rightarrow> nat \<Rightarrow> Outbox \<Rightarrow> nat list \<Rightarrow> nat list" where
  "dequeue_loop limit i [] result = result"
| "dequeue_loop limit i (e # es) result =
     dequeue_loop limit (Suc i) es
       (if \<not> ob_Processed e \<and> int (length result) < limit then result @ [i] else result)"

definition Dequeue :: "int \<Rightarrow> Outbox \<Rightarrow> nat list" where
  "Dequeue limit o1 = dequeue_loop limit 0 o1 []"

definition MarkProcessed :: "string \<Rightarrow> Outbox \<Rightarrow> Outbox" where
  "MarkProcessed eventID = update_first (\<lambda>e. ob_ID e = eventID) (\<lambda>e. e\<lparr>ob_Processed := True\<rparr>)"

definition fail_event :: "OutboxEvent \<Rightarrow> OutboxEvent" where
  "fail_event e =
     (let e1 = e\<lparr>ob_Retries := ob_Retries e + 1\<rparr> in
      if ob_Retries e1 \<ge> 3 then e1\<lparr>ob_Processed := True\<rparr> else e1)"

definition MarkFailed :: "string \<Rightarrow> Outbox \<Rightarrow> Outbox" where
  "MarkFailed eventID = update_first (\<lambda>e. ob_ID e = eventID) fail_event"

definition PendingCount :: "Outbox \<Rightarrow> int" where
  "PendingCount o1 = int (length (filter (\<lambda>e. \<not> ob_Processed e) o1))"

definition Purge :: "time \<Rightarrow> duration \<Rightarrow> Outbox \<Rightarrow> Outbox" where
  "Purge now retention o1 =
     filter (\<lambda>e. \<not> (ob_Processed e \<and> ob_CreatedAt e < now - retention)) o1"

text \<open>
  One tick of the worker. \<open>pub\<close> is what the wired publisher answers (\<open>None\<close>: no publisher,
  every delivery succeeds).
\<close>

definition publishOutboxEvent :: "(OutboxEvent \<Rightarrow> bool) option \<Rightarrow> OutboxEvent \<Rightarrow> bool" where
  "publishOutboxEvent pub ev = (case pub of None \<Rightarrow> True | Some p \<Rightarrow> p ev)"

fun deliver :: "(OutboxEvent \<Rightarrow> bool) option \<Rightarrow> nat list \<Rightarrow> Outbox \<Rightarrow> Outbox" where
  "deliver pub [] o1 = o1"
| "deliver pub (i # is) o1 =
     (let ev = o1 ! i in
      if \<not> publishOutboxEvent pub ev then deliver pub is (MarkFailed (ob_ID ev) o1)
      else deliver pub is (MarkProcessed (ob_ID ev) o1))"

definition outbox_tick :: "(OutboxEvent \<Rightarrow> bool) option \<Rightarrow> time \<Rightarrow> Outbox \<Rightarrow> Outbox" where
  "outbox_tick pub now o1 = Purge now (6 * hour) (deliver pub (Dequeue 50 o1) o1)"

subsection \<open>Lemmas\<close>

lemma dequeue_loop_eq:
  "dequeue_loop limit i es res =
     res @ take (nat (limit - int (length res))) (map fst (filter (\<lambda>(j, e). \<not> ob_Processed e)
             (enumerate i es)))"
proof (induction limit i es res rule: dequeue_loop.induct)
  case (1 limit i result)
  then show ?case by simp
next
  case (2 limit i e es result)
  show ?case
  proof (cases "\<not> ob_Processed e \<and> int (length result) < limit")
    case True
    then have "nat (limit - int (length result)) = Suc (nat (limit - int (length (result @ [i]))))"
      unfolding length_append_singleton by linarith
    with 2 True show ?thesis by simp
  next
    case False
    with 2 show ?thesis by auto
  qed
qed

lemma Dequeue_spec:
  "Dequeue limit o1 = take (nat limit) (filter (\<lambda>i. \<not> ob_Processed (o1 ! i)) [0 ..< length o1])"
proof -
  have "enumerate 0 o1 = map (\<lambda>i. (i, o1 ! i)) [0 ..< length o1]"
    by (rule nth_equalityI) (simp_all add: nth_enumerate_eq)
  then have "map fst (filter (\<lambda>(j, e). \<not> ob_Processed e) (enumerate 0 o1))
      = filter (\<lambda>i. \<not> ob_Processed (o1 ! i)) [0 ..< length o1]"
    by (simp add: filter_map o_def)
  then show ?thesis by (simp add: Dequeue_def dequeue_loop_eq)
qed

lemma update_first_id:
  assumes "distinct (map ob_ID es)" and "i < length es"
  shows "update_first (\<lambda>e. ob_ID e = ob_ID (es ! i)) f es = es[i := f (es ! i)]"
  using assms
proof (induction es arbitrary: i)
  case Nil
  then show ?case by simp
next
  case (Cons e es)
  show ?case
  proof (cases i)
    case 0
    then show ?thesis by simp
  next
    case (Suc j)
    then have "ob_ID e \<noteq> ob_ID (es ! j)" using Cons.prems by force
    with Suc Cons show ?thesis by simp
  qed
qed

definition delivered :: "(OutboxEvent \<Rightarrow> bool) option \<Rightarrow> OutboxEvent \<Rightarrow> OutboxEvent" where
  "delivered pub e = (if publishOutboxEvent pub e then e\<lparr>ob_Processed := True\<rparr> else fail_event e)"

lemma delivered_ID [simp]: "ob_ID (delivered pub e) = ob_ID e"
  by (simp add: delivered_def fail_event_def Let_def)

lemma deliver_one:
  "distinct (map ob_ID o1) \<Longrightarrow> i < length o1 \<Longrightarrow>
     deliver pub (i # is) o1 = deliver pub is (o1[i := delivered pub (o1 ! i)])"
  by (simp add: Let_def MarkFailed_def MarkProcessed_def update_first_id delivered_def)

lemma deliver_nth:
  assumes "distinct (map ob_ID o1)" and "distinct is" and "set is \<subseteq> {..< length o1}"
  shows "length (deliver pub is o1) = length o1 \<and>
         (\<forall>i < length o1. deliver pub is o1 ! i = (if i \<in> set is then delivered pub (o1 ! i) else o1 ! i))"
  using assms
proof (induction "is" arbitrary: o1)
  case Nil
  then show ?case by simp
next
  case (Cons j js)
  let ?o = "o1[j := delivered pub (o1 ! j)]"
  have j: "j < length o1" using Cons.prems by simp
  have "map ob_ID ?o = map ob_ID o1"
    using j by (simp add: list_eq_iff_nth_eq nth_list_update)
  then have "distinct (map ob_ID ?o)" using Cons.prems by simp
  then have "length (deliver pub js ?o) = length ?o \<and>
      (\<forall>i < length ?o. deliver pub js ?o ! i = (if i \<in> set js then delivered pub (?o ! i) else ?o ! i))"
    by (rule Cons.IH) (use Cons.prems in auto)
  then show ?case
    using Cons.prems j by (auto simp: deliver_one nth_list_update simp del: deliver.simps(2))
qed

section \<open>Circuit breaker\<close>

datatype CircuitState = CircuitClosed | CircuitOpen | CircuitHalfOpen

record CircuitBreaker =
  cb_state :: CircuitState
  cb_failureCount :: int
  cb_successCount :: int
  cb_failureThreshold :: int
  cb_successThreshold :: int
  cb_resetTimeout :: duration
  cb_lastFailure :: time
  cb_lastStateChange :: time
  cb_halfOpenCount :: int

definition NewCircuitBreaker :: "time \<Rightarrow> int \<Rightarrow> int \<Rightarrow> duration \<Rightarrow> CircuitBreaker" where
  "NewCircuitBreaker now failureThreshold successThreshold resetTimeout =
     \<lparr>cb_state = CircuitClosed, cb_failureCount = 0, cb_successCount = 0,
      cb_failureThreshold = failureThreshold, cb_successThreshold = successThreshold,
      cb_resetTimeout = resetTimeout, cb_lastFailure = 0, cb_lastStateChange = now,
      cb_halfOpenCount = 0\<rparr>"

text \<open>\<open>halfOpenCount\<close> is an \<open>int32\<close> and wraps as one; the two other counters are \<open>int\<close>s.\<close>

definition i32 :: "int \<Rightarrow> int" where
  "i32 x = (x + 2 ^ 31) mod 2 ^ 32 - 2 ^ 31"

text \<open>Entry of \<open>Execute\<close>, up to the call of the function: admitted or \<open>ErrCircuitOpen\<close>.\<close>

definition Execute_begin :: "time \<Rightarrow> CircuitBreaker \<Rightarrow> bool \<times> CircuitBreaker" where
  "Execute_begin now cb =
     (case cb_state cb of
        CircuitOpen \<Rightarrow>
          if now - cb_lastStateChange cb > cb_resetTimeout cb
          then (True, cb\<lparr>cb_state := CircuitHalfOpen, cb_successCount := 0, cb_lastStateChange := now\<rparr>)
          else (False, cb)
      | CircuitHalfOpen \<Rightarrow>
          if cb_halfOpenCount cb > 0 then (False, cb)
          else (True, cb\<lparr>cb_halfOpenCount := i32 (cb_halfOpenCount cb + 1)\<rparr>)
      | CircuitClosed \<Rightarrow> (True, cb))"

text \<open>The rest of \<open>Execute\<close>, after the function returned without (\<open>ok\<close>) or with an error.\<close>

definition Execute_end :: "time \<Rightarrow> bool \<Rightarrow> CircuitBreaker \<Rightarrow> CircuitBreaker" where
  "Execute_end now ok cb0 =
     (let cb = (if cb_state cb0 = CircuitHalfOpen
                then cb0\<lparr>cb_halfOpenCount := i32 (cb_halfOpenCount cb0 - 1)\<rparr> else cb0) in
      if \<not> ok then
        let cb1 = cb\<lparr>cb_failureCount := i64 (cb_failureCount cb + 1), cb_lastFailure := now\<rparr>;
            cb2 = (if cb_failureCount cb1 \<ge> cb_failureThreshold cb1
                   then cb1\<lparr>cb_state := CircuitOpen, cb_lastStateChange := now\<rparr> else cb1)
        in if cb_state cb2 = CircuitHalfOpen
           then cb2\<lparr>cb_state := CircuitOpen, cb_lastStateChange := now\<rparr> else cb2
      else
        let cb1 = cb\<lparr>cb_failureCount := 0\<rparr> in
        if cb_state cb1 = CircuitHalfOpen then
          let cb2 = cb1\<lparr>cb_successCount := i64 (cb_successCount cb1 + 1)\<rparr> in
          if cb_successCount cb2 \<ge> cb_successThreshold cb2
          then cb2\<lparr>cb_state := CircuitClosed, cb_lastStateChange := now\<rparr> else cb2
        else cb1)"

text \<open>A call that runs alone.\<close>

definition Execute :: "time \<Rightarrow> time \<Rightarrow> bool \<Rightarrow> CircuitBreaker \<Rightarrow> bool \<times> CircuitBreaker" where
  "Execute now1 now2 ok cb =
     (case Execute_begin now1 cb of
        (True, cb') \<Rightarrow> (True, Execute_end now2 ok cb')
      | (False, cb') \<Rightarrow> (False, cb'))"

text \<open>Overlapping calls: the breaker and the number of admitted calls that have not returned.\<close>

inductive cb_step :: "CircuitBreaker \<times> nat \<Rightarrow> CircuitBreaker \<times> nat \<Rightarrow> bool" where
  admitted: "Execute_begin now cb = (True, cb') \<Longrightarrow> cb_step (cb, n) (cb', Suc n)"
| refused: "Execute_begin now cb = (False, cb') \<Longrightarrow> cb_step (cb, n) (cb', n)"
| returned: "cb_step (cb, Suc n) (Execute_end now ok cb, n)"

inductive_cases cb_stepE: "cb_step s t"

lemma i32_id: "- (2 ^ 31) \<le> x \<Longrightarrow> x < 2 ^ 31 \<Longrightarrow> i32 x = x"
  by (simp add: i32_def)

lemma i32_add: "i32 (i32 x + y) = i32 (x + y)"
proof -
  have "(i32 x + y + 2 ^ 31) mod 2 ^ 32 = (x + y + 2 ^ 31) mod 2 ^ 32"
    unfolding i32_def by (simp add: algebra_simps mod_simps)
  then show ?thesis by (simp only: i32_def [of "i32 x + y"] i32_def [of "x + y"])
qed

text \<open>
  What holds after \<open>n\<close> steps: the counter has moved down by at most \<open>n\<close>, and it is positive only
  while an admitted call of the half-open state has not returned.
\<close>

definition probe_ok :: "nat \<Rightarrow> CircuitBreaker \<times> nat \<Rightarrow> bool" where
  "probe_ok n s \<longleftrightarrow> (case s of (cb, k) \<Rightarrow>
     - int n \<le> cb_halfOpenCount cb \<and> cb_halfOpenCount cb \<le> 1 \<and>
     (cb_state cb \<noteq> CircuitHalfOpen \<longrightarrow> cb_halfOpenCount cb \<le> 0) \<and>
     (0 < cb_halfOpenCount cb \<longrightarrow> 0 < k))"

lemma probe_count:
  "- int n \<le> c \<Longrightarrow> c \<le> 1 \<Longrightarrow> n < 2 ^ 31 \<Longrightarrow> i32 (c - 1) = c - 1"
  "- int n \<le> c \<Longrightarrow> c \<le> 0 \<Longrightarrow> n < 2 ^ 31 \<Longrightarrow> i32 (c + 1) = c + 1"
  by (rule i32_id; simp)+

lemma cb_step_probe_ok:
  assumes "cb_step s t" and "probe_ok n s" and "n < 2 ^ 31"
  shows "probe_ok (Suc n) t"
  using assms(1)
proof cases
  case (admitted now cb cb' k)
  then show ?thesis using assms(2,3)
    by (auto simp: probe_ok_def Execute_begin_def probe_count split: CircuitState.splits if_splits)
next
  case (refused now cb cb' k)
  then show ?thesis using assms(2)
    by (auto simp: probe_ok_def Execute_begin_def split: CircuitState.splits if_splits)
next
  case (returned cb k now ok)
  have c: "i32 (cb_halfOpenCount cb - 1) = cb_halfOpenCount cb - 1"
    using assms(2,3) by (intro probe_count) (auto simp: probe_ok_def returned)
  show ?thesis using assms(2)
    unfolding returned probe_ok_def by (auto simp: Execute_end_def Let_def c)
qed

lemma cb_run_probe_ok:
  "(cb_step ^^ n) (NewCircuitBreaker t0 f s d, 0) st \<Longrightarrow> n \<le> 2 ^ 31 \<Longrightarrow> probe_ok n st"
proof (induction n arbitrary: st)
  case 0
  then have "st = (NewCircuitBreaker t0 f s d, 0)" by simp
  then show ?case by (simp add: probe_ok_def NewCircuitBreaker_def)
next
  case (Suc n)
  then obtain u where run: "(cb_step ^^ n) (NewCircuitBreaker t0 f s d, 0) u" and step: "cb_step u st" by auto
  show ?case by (rule cb_step_probe_ok [OF step Suc.IH [OF run]]) (use Suc.prems in simp_all)
qed

text \<open>\<open>n\<close> calls that arrive together: how many are admitted before any of them returns.\<close>

fun burst :: "nat \<Rightarrow> time \<Rightarrow> CircuitBreaker \<Rightarrow> nat" where
  "burst 0 now cb = 0"
| "burst (Suc n) now cb =
     (case Execute_begin now cb of (b, cb') \<Rightarrow> (if b then 1 else 0) + burst n now cb')"

text \<open>The open breaker probed \<open>k\<close> times, each time just after the reset timeout, failing each time.\<close>

definition probe_time :: "CircuitBreaker \<Rightarrow> time" where
  "probe_time cb = cb_lastStateChange cb + cb_resetTimeout cb + 1"

fun failed_probes :: "nat \<Rightarrow> CircuitBreaker \<Rightarrow> CircuitBreaker" where
  "failed_probes 0 cb = cb"
| "failed_probes (Suc k) cb = failed_probes k (snd (Execute (probe_time cb) (probe_time cb) False cb))"

lemma burst_half_open:
  "cb_state cb = CircuitHalfOpen \<Longrightarrow> cb_halfOpenCount cb = 1 - int m \<Longrightarrow> m \<le> 2 ^ 31 + 1 \<Longrightarrow>
     burst n now cb = min n m"
proof (induction n arbitrary: cb m)
  case 0
  then show ?case by simp
next
  case (Suc n)
  show ?case
  proof (cases m)
    case 0
    with Suc.prems have "burst n now cb = min n m" by (intro Suc.IH) auto
    with 0 Suc.prems show ?thesis by (simp add: Execute_begin_def)
  next
    case (Suc m')
    have c: "i32 (1 - int m + 1) = 1 - int m'" using Suc Suc.prems(3) by (subst i32_id) auto
    have "burst n now (cb\<lparr>cb_halfOpenCount := 1 - int m'\<rparr>) = min n m'"
      by (rule Suc.IH) (use Suc Suc.prems in auto)
    with c Suc.prems show ?thesis by (simp add: Execute_begin_def Suc del: of_nat_Suc)
  qed
qed

lemma failed_probe:
  assumes "cb_state cb = CircuitOpen"
  shows "cb_state (snd (Execute (probe_time cb) (probe_time cb) False cb)) = CircuitOpen"
    and "cb_halfOpenCount (snd (Execute (probe_time cb) (probe_time cb) False cb)) = i32 (cb_halfOpenCount cb - 1)"
    and "cb_successThreshold (snd (Execute (probe_time cb) (probe_time cb) False cb)) = cb_successThreshold cb"
  using assms by (simp_all add: Execute_def Execute_begin_def Execute_end_def probe_time_def Let_def)

lemma failed_probes_state:
  "cb_state cb = CircuitOpen \<Longrightarrow>
     cb_state (failed_probes k cb) = CircuitOpen \<and>
     cb_successThreshold (failed_probes k cb) = cb_successThreshold cb \<and>
     i32 (cb_halfOpenCount (failed_probes k cb)) = i32 (cb_halfOpenCount cb - int k)"
proof (induction k arbitrary: cb)
  case (Suc k)
  have "i32 (i32 (cb_halfOpenCount cb - 1) - int k) = i32 (cb_halfOpenCount cb - int (Suc k))"
    using i32_add [of "cb_halfOpenCount cb - 1" "- int k"] by (simp add: algebra_simps)
  then show ?case using Suc by (simp add: failed_probe)
qed simp

lemma failed_probes_range:
  "- (2 ^ 31) \<le> cb_halfOpenCount cb \<Longrightarrow> cb_halfOpenCount cb < 2 ^ 31 \<Longrightarrow> cb_state cb = CircuitOpen \<Longrightarrow>
     cb_halfOpenCount (failed_probes k cb) = i32 (cb_halfOpenCount cb - int k)"
proof -
  assume c: "- (2 ^ 31) \<le> cb_halfOpenCount cb" "cb_halfOpenCount cb < 2 ^ 31" and st: "cb_state cb = CircuitOpen"
  have "i32 (cb_halfOpenCount (failed_probes k cb)) = cb_halfOpenCount (failed_probes k cb)"
    using c st
  proof (induction k arbitrary: cb)
    case (Suc k)
    have "- (2 ^ 31) \<le> i32 x" "i32 x < 2 ^ 31" for x by (simp_all add: i32_def)
    with Suc show ?case by (simp add: failed_probe)
  qed (simp add: i32_id)
  then show ?thesis using failed_probes_state [OF st] by metis
qed

section \<open>Properties\<close>

text \<open>
  The outbox loses nothing. A pending event is still in the outbox, pending and with the
  same content, after a tick of the worker, unless the publisher accepted it in this tick or
  this was at least its third failed delivery.
\<close>
theorem outbox_keeps_pending:
  assumes "distinct (map ob_ID o1)" and "e \<in> set o1" and "\<not> ob_Processed e"
  shows "(\<exists>e' \<in> set (outbox_tick pub now o1). \<not> ob_Processed e' \<and> ob_ID e' = ob_ID e \<and>
            ob_Topic e' = ob_Topic e \<and> ob_Payload e' = ob_Payload e \<and>
            ob_Retries e' \<in> {ob_Retries e, ob_Retries e + 1}) \<or>
         publishOutboxEvent pub e \<or> 2 \<le> ob_Retries e"
proof -
  obtain i where i: "i < length o1" "o1 ! i = e" using assms(2) by (auto simp: in_set_conv_nth)
  let ?is = "Dequeue 50 o1"
  have "distinct ?is" and "set ?is \<subseteq> {..< length o1}"
    by (auto simp: Dequeue_spec dest: in_set_takeD)
  with assms(1) have d: "length (deliver pub ?is o1) = length o1"
    "deliver pub ?is o1 ! i = (if i \<in> set ?is then delivered pub e else e)"
    using deliver_nth [of o1 ?is pub] i by auto
  let ?e = "deliver pub ?is o1 ! i"
  have mem: "?e \<in> set (deliver pub ?is o1)" using d i by (metis nth_mem)
  show ?thesis
  proof (cases "publishOutboxEvent pub e \<or> 2 \<le> ob_Retries e")
    case False
    then have "\<not> ob_Processed ?e" "ob_ID ?e = ob_ID e" "ob_Topic ?e = ob_Topic e"
      "ob_Payload ?e = ob_Payload e" "ob_Retries ?e \<in> {ob_Retries e, ob_Retries e + 1}"
      using assms(3) by (auto simp: d(2) delivered_def fail_event_def Let_def)
    moreover from this mem have "?e \<in> set (outbox_tick pub now o1)"
      by (simp add: outbox_tick_def Purge_def)
    ultimately show ?thesis by blast
  qed blast
qed

theorem outbox_keeps_pending_witness:
  "\<exists>e' \<in> set (outbox_tick (Some (\<lambda>_. False)) 9 (Enqueue ''ab'' 5 ''topic'' ''body'' NewOutbox)).
     \<not> ob_Processed e' \<and> ob_Payload e' = ''body''"
proof -
  let ?o = "Enqueue ''ab'' 5 ''topic'' ''body'' NewOutbox"
  have "distinct (map ob_ID ?o)" and "hd ?o \<in> set ?o" and "\<not> ob_Processed (hd ?o)"
    by (simp_all add: Enqueue_def NewOutbox_def)
  from outbox_keeps_pending [OF this, of "Some (\<lambda>_. False)" 9] show ?thesis
    by (auto simp: Enqueue_def NewOutbox_def publishOutboxEvent_def)
qed

text \<open>
  C7: the breaker does not wedge within its first 2^31 steps, where a step is an admission, a
  refusal or a return of a call, in any overlapping order. In every state so reached a call is
  refused only while the breaker is open and the reset timeout has not passed, or while
  another admitted call is still running.
\<close>
theorem breaker_never_wedges:
  assumes "(cb_step ^^ n) (NewCircuitBreaker t0 f s d, 0) (cb, running)" and "n \<le> 2 ^ 31"
    and "\<not> fst (Execute_begin now cb)"
  shows "(cb_state cb = CircuitOpen \<and> now - cb_lastStateChange cb \<le> cb_resetTimeout cb) \<or>
         (cb_state cb = CircuitHalfOpen \<and> 0 < running)"
  using cb_run_probe_ok [OF assms(1,2)] assms(3)
  by (auto simp: probe_ok_def Execute_begin_def split: CircuitState.splits if_splits)

definition demo_breaker :: CircuitBreaker where
  "demo_breaker = Execute_end 10 False (NewCircuitBreaker 0 1 1 100)"

lemma demo_breaker_run: "(cb_step ^^ 2) (NewCircuitBreaker 0 1 1 100, 0) (demo_breaker, 0)"
proof -
  have "cb_step (NewCircuitBreaker 0 1 1 100, 0) (NewCircuitBreaker 0 1 1 100, Suc 0)"
    by (rule cb_step.admitted [of 5]) (simp add: Execute_begin_def NewCircuitBreaker_def)
  moreover have "cb_step (NewCircuitBreaker 0 1 1 100, Suc 0) (demo_breaker, 0)"
    unfolding demo_breaker_def by (rule cb_step.returned)
  ultimately show ?thesis by (auto simp: numeral_2_eq_2)
qed

theorem breaker_never_wedges_witness:
  "cb_state demo_breaker = CircuitOpen \<and> 50 - cb_lastStateChange demo_breaker \<le> cb_resetTimeout demo_breaker"
proof -
  have "\<not> fst (Execute_begin 50 demo_breaker)"
    by (simp add: demo_breaker_def Execute_begin_def Execute_end_def NewCircuitBreaker_def i64_def Let_def)
  from breaker_never_wedges [OF demo_breaker_run _ this] show ?thesis by simp
qed

text \<open>
  The bound is there for a reason. Each failed probe takes the counter one down, so after
  2^31 + 1 of them it has wrapped to the largest \<open>int32\<close>. If then a probe succeeds and more than
  one success is needed, the breaker stays half-open with a positive counter and no call in
  flight, and refuses every call for ever.
\<close>
theorem breaker_wedges_after_wrap:
  fixes t now :: time
  assumes "cb_state cb = CircuitOpen" and "cb_halfOpenCount cb = 0" and "2 \<le> cb_successThreshold cb"
  defines "cb1 \<equiv> failed_probes (2 ^ 31 + 1) cb"
  defines "cb2 \<equiv> snd (Execute (probe_time cb1) t True cb1)"
  shows "Execute_begin now cb2 = (False, cb2)"
proof -
  have st: "cb_state cb1 = CircuitOpen" "cb_successThreshold cb1 = cb_successThreshold cb"
    unfolding cb1_def using failed_probes_state [OF assms(1)] by auto
  have "cb_halfOpenCount cb1 = i32 (- (2 ^ 31 + 1))"
    unfolding cb1_def using failed_probes_range [of cb "2 ^ 31 + 1"] assms(1,2) by simp
  also have "\<dots> = 2 ^ 31 - 1" by (simp add: i32_def)
  finally have c: "cb_halfOpenCount cb1 = 2 ^ 31 - 1" .
  have "cb_state cb2 = CircuitHalfOpen \<and> cb_halfOpenCount cb2 = 2 ^ 31 - 2"
    using st assms(3) by (simp add: cb2_def Execute_def Execute_begin_def Execute_end_def probe_time_def
        Let_def c i32_def i64_def)
  then show ?thesis by (simp add: Execute_begin_def)
qed

text \<open>
  The half-open limit leaks. The call that moves the breaker from open to half-open does not
  count itself but is counted down when it returns, so after \<open>k\<close> failed probes the next
  half-open phase admits \<open>k + 2\<close> simultaneous calls instead of one.
\<close>
theorem half_open_burst:
  assumes "cb_state cb = CircuitOpen" and "cb_halfOpenCount cb = 0" and "k \<le> 2 ^ 31"
  shows "burst n (probe_time (failed_probes k cb)) (failed_probes k cb) = min n (k + 2)"
proof (cases n)
  case 0
  then show ?thesis by simp
next
  case (Suc m)
  let ?c = "failed_probes k cb"
  let ?h = "?c\<lparr>cb_state := CircuitHalfOpen, cb_successCount := 0, cb_lastStateChange := probe_time ?c\<rparr>"
  have st: "cb_state ?c = CircuitOpen" "cb_halfOpenCount ?c = - int k"
    using failed_probes_state [OF assms(1), of k] failed_probes_range [of cb k] assms
    by (auto simp: i32_id)
  have "burst m (probe_time ?c) ?h = min m (k + 1)"
    by (rule burst_half_open) (use assms(3) in \<open>simp_all add: st\<close>)
  then show ?thesis using st
    by (simp add: Suc Execute_begin_def) (simp add: probe_time_def)
qed

theorem half_open_burst_witness:
  "burst 5 (probe_time demo_breaker) demo_breaker = 2"
  using half_open_burst [of demo_breaker 0 5]
  by (simp add: demo_breaker_def Execute_end_def NewCircuitBreaker_def i64_def Let_def)

end
