(* ===== verification/JwtTokens.thy ===== *)
theory JwtTokens
  imports FINIX_Prelude
begin

text \<open>
  \<open>domain/security/jwt.go\<close>: issuing, verifying, refreshing and revoking HS256 tokens. The
  base64 codec is modelled; HMAC-SHA256 and the JSON codec of the claims are parameters
  (\<open>jwt_env\<close>). Each clock read of an operation is its own value of \<open>clk\<close>. Writes through the
  persistence hook are collected in \<open>jm_persisted\<close>.
\<close>

section \<open>Base64 without padding, URL alphabet\<close>

definition b64_alphabet :: string where
  "b64_alphabet = ''ABCDEFGHIJKLMNOPQRSTUVWXYZabcdefghijklmnopqrstuvwxyz0123456789-_''"

definition b64_char :: "nat \<Rightarrow> char" where
  "b64_char n = b64_alphabet ! n"

fun index_of :: "'a \<Rightarrow> 'a list \<Rightarrow> nat option" where
  "index_of x [] = None"
| "index_of x (y # ys) = (if x = y then Some 0 else map_option Suc (index_of x ys))"

definition b64_val :: "char \<Rightarrow> nat option" where
  "b64_val c = index_of c b64_alphabet"

abbreviation byte :: "char \<Rightarrow> nat" where "byte c \<equiv> of_char c"

fun EncodeToString :: "string \<Rightarrow> string" where
  "EncodeToString [] = []"
| "EncodeToString [a] = [b64_char (byte a div 4), b64_char (byte a mod 4 * 16)]"
| "EncodeToString [a, b] =
     [b64_char (byte a div 4), b64_char (byte a mod 4 * 16 + byte b div 16),
      b64_char (byte b mod 16 * 4)]"
| "EncodeToString (a # b # c # s) =
     [b64_char (byte a div 4), b64_char (byte a mod 4 * 16 + byte b div 16),
      b64_char (byte b mod 16 * 4 + byte c div 64), b64_char (byte c mod 64)] @ EncodeToString s"

fun decode_quads :: "nat list \<Rightarrow> string option" where
  "decode_quads [] = Some []"
| "decode_quads [x] = None"
| "decode_quads [x, y] = Some [char_of (x * 4 + y div 16)]"
| "decode_quads [x, y, z] = Some [char_of (x * 4 + y div 16), char_of (y mod 16 * 16 + z div 4)]"
| "decode_quads (x # y # z # u # s) =
     (case decode_quads s of
        None \<Rightarrow> None
      | Some r \<Rightarrow> Some ([char_of (x * 4 + y div 16), char_of (y mod 16 * 16 + z div 4),
                         char_of (z mod 4 * 64 + u)] @ r))"

text \<open>Carriage returns and line feeds are skipped, any other foreign character is an error.\<close>

definition DecodeString :: "string \<Rightarrow> string option" where
  "DecodeString s =
     (let vals = map b64_val (filter (\<lambda>c. c \<noteq> CHR 0x0A \<and> c \<noteq> CHR 0x0D) s) in
      if None \<in> set vals then None else decode_quads (map the vals))"

lemma b64_alphabet_props:
  "length b64_alphabet = 64" "distinct b64_alphabet"
  "\<forall>c \<in> set b64_alphabet. \<not> is_space c \<and> c \<noteq> CHR ''.''"
  by (simp_all add: b64_alphabet_def is_space_def)

lemma index_of_nth: "distinct xs \<Longrightarrow> n < length xs \<Longrightarrow> index_of (xs ! n) xs = Some n"
proof (induction xs arbitrary: n)
  case (Cons x xs)
  then show ?case by (cases n) (auto simp: nth_mem)
qed simp

lemma b64_val_char [simp]: "n < 64 \<Longrightarrow> b64_val (b64_char n) = Some n"
  by (simp add: b64_val_def b64_char_def index_of_nth b64_alphabet_props)

lemma b64_char_mem: "n < 64 \<Longrightarrow> b64_char n \<in> set b64_alphabet"
  by (simp add: b64_char_def b64_alphabet_props)

lemma byte_bound [simp]: "byte c < 256"
  using of_char_mod_256 by (metis mod_less_divisor zero_less_numeral)

lemma sextets:
  "byte a div 4 < 64" "byte a mod 4 * 16 < 64" "byte a mod 4 * 16 + byte b div 16 < 64"
  "byte b mod 16 * 4 < 64" "byte b mod 16 * 4 + byte c div 64 < 64" "byte c mod 64 < 64"
  using byte_bound [of a] byte_bound [of b] byte_bound [of c] by linarith+

lemma encode_chars: "c \<in> set (EncodeToString s) \<Longrightarrow> c \<in> set b64_alphabet"
  by (induction s rule: EncodeToString.induct) (auto simp: b64_char_mem sextets)

lemma small_quotients:
  "byte b div 16 div 16 = 0" "byte b div 16 mod 16 = byte b div 16"
  "byte c div 64 div 4 = 0" "byte c div 64 mod 4 = byte c div 64"
proof -
  have "byte b div 16 < 16" and "byte c div 64 < 4"
    using byte_bound [of b] byte_bound [of c] by linarith+
  then show "byte b div 16 div 16 = 0" "byte b div 16 mod 16 = byte b div 16"
    "byte c div 64 div 4 = 0" "byte c div 64 mod 4 = byte c div 64" by simp_all
qed

lemma decode_encode_quads:
  "None \<notin> set (map b64_val (EncodeToString s)) \<and>
   decode_quads (map the (map b64_val (EncodeToString s))) = Some s"
  by (induction s rule: EncodeToString.induct) (auto simp: sextets small_quotients)

lemma DecodeString_EncodeToString: "DecodeString (EncodeToString s) = Some s"
proof -
  have "c \<noteq> CHR 0x0A \<and> c \<noteq> CHR 0x0D" if "c \<in> set (EncodeToString s)" for c
    using encode_chars [OF that] b64_alphabet_props(3) by (auto simp: is_space_def)
  then have "filter (\<lambda>c. c \<noteq> CHR 0x0A \<and> c \<noteq> CHR 0x0D) (EncodeToString s) = EncodeToString s"
    by (simp add: filter_id_conv)
  then show ?thesis using decode_encode_quads [of s] by (simp add: DecodeString_def Let_def)
qed

section \<open>Data\<close>

record Claims =
  cl_Sub :: string
  cl_Role :: string
  cl_DeviceFP :: string
  cl_IAT :: int
  cl_EXP :: int
  cl_JTI :: string

record jwt_env =
  je_hmac :: "string \<Rightarrow> string \<Rightarrow> string"
  je_marshal :: "Claims \<Rightarrow> string option"
  je_unmarshal :: "string \<Rightarrow> Claims option"

text \<open>\<open>jm_lookup\<close> answers \<open>None\<close> when the database lookup fails.\<close>

record JWTManager =
  jm_secret :: string
  jm_revoked :: "string \<rightharpoonup> int"
  jm_persist :: bool
  jm_persisted :: "(string \<times> time) list"
  jm_lookup :: "(string \<Rightarrow> bool option) option"
  jm_failClosed :: bool

datatype jwt_error = TokenExpired | TokenInvalid | DeviceMismatch | TokenRevoked | JWTSecretUnset
  | JWTSecretShort | RefreshTooLate | UserIDRequired | RandomFailed | MarshalFailed

definition TokenTTL :: duration where "TokenTTL = 15 * minute"
definition RefreshGrace :: duration where "RefreshGrace = 5 * minute"
definition maxRefreshableAge :: duration where "maxRefreshableAge = 24 * hour"

definition NewJWTManagerWithSecret :: "string \<Rightarrow> JWTManager" where
  "NewJWTManagerWithSecret secret =
     \<lparr>jm_secret = secret, jm_revoked = (\<lambda>_. None), jm_persist = False, jm_persisted = [],
      jm_lookup = None, jm_failClosed = False\<rparr>"

definition NewJWTManager :: "(string \<Rightarrow> string) \<Rightarrow> jwt_error + JWTManager" where
  "NewJWTManager getenv =
     (let secret = TrimSpace (getenv ''FINIX_JWT_SECRET'') in
      if secret = [] then Inl JWTSecretUnset
      else if length secret < 16 then Inl JWTSecretShort
      else Inr (NewJWTManagerWithSecret secret))"

definition SetRevocationPersister :: "bool \<Rightarrow> JWTManager \<Rightarrow> JWTManager" where
  "SetRevocationPersister f m = m\<lparr>jm_persist := f\<rparr>"

definition SetRevocationLookup :: "(string \<Rightarrow> bool option) option \<Rightarrow> JWTManager \<Rightarrow> JWTManager" where
  "SetRevocationLookup f m = m\<lparr>jm_lookup := f\<rparr>"

definition SetRevocationFailClosed :: "bool \<Rightarrow> JWTManager \<Rightarrow> JWTManager" where
  "SetRevocationFailClosed v m = m\<lparr>jm_failClosed := v\<rparr>"

section \<open>Signing and parsing\<close>

definition hmac :: "jwt_env \<Rightarrow> JWTManager \<Rightarrow> string \<Rightarrow> string" where
  "hmac env m input = EncodeToString (je_hmac env (jm_secret m) input)"

definition jwt_header :: string where
  "jwt_header = EncodeToString
     ([CHR ''{'', CHR 0x22] @ ''alg'' @ [CHR 0x22, CHR '':'', CHR 0x22] @ ''HS256'' @
      [CHR 0x22, CHR '','', CHR 0x22] @ ''typ'' @ [CHR 0x22, CHR '':'', CHR 0x22] @ ''JWT'' @
      [CHR 0x22, CHR ''}''])"

definition sign :: "jwt_env \<Rightarrow> JWTManager \<Rightarrow> Claims \<Rightarrow> jwt_error + string" where
  "sign env m claims =
     (case je_marshal env claims of
        None \<Rightarrow> Inl MarshalFailed
      | Some payloadJSON \<Rightarrow>
          let payload = EncodeToString payloadJSON;
              signingInput = jwt_header @ ''.'' @ payload
          in Inr (signingInput @ ''.'' @ hmac env m signingInput))"

text \<open>\<open>strings.Split\<close> at a one-character separator.\<close>

fun split_on :: "char \<Rightarrow> string \<Rightarrow> string list" where
  "split_on sep [] = [[]]"
| "split_on sep (c # s) =
     (if c = sep then [] # split_on sep s
      else case split_on sep s of p # ps \<Rightarrow> (c # p) # ps | [] \<Rightarrow> [[c]])"

definition parse :: "jwt_env \<Rightarrow> JWTManager \<Rightarrow> string \<Rightarrow> jwt_error + Claims" where
  "parse env m token =
     (case split_on (CHR ''.'') (TrimSpace token) of
        [p0, p1, p2] \<Rightarrow>
          if p2 \<noteq> hmac env m (p0 @ ''.'' @ p1) then Inl TokenInvalid
          else (case DecodeString p1 of
                  None \<Rightarrow> Inl TokenInvalid
                | Some payloadJSON \<Rightarrow>
                    (case je_unmarshal env payloadJSON of
                       None \<Rightarrow> Inl TokenInvalid
                     | Some claims \<Rightarrow>
                         if cl_Sub claims = [] \<or> cl_EXP claims = 0 then Inl TokenInvalid
                         else Inr claims))
      | _ \<Rightarrow> Inl TokenInvalid)"

fun firstNonEmptyJWT :: "string list \<Rightarrow> string" where
  "firstNonEmptyJWT [] = []"
| "firstNonEmptyJWT (v # vs) = (if TrimSpace v \<noteq> [] then v else firstNonEmptyJWT vs)"

section \<open>Operations\<close>

definition IssueToken ::
  "jwt_env \<Rightarrow> string option \<Rightarrow> time \<Rightarrow> string \<Rightarrow> string \<Rightarrow> string \<Rightarrow> JWTManager \<Rightarrow> jwt_error + string" where
  "IssueToken env rnd now userID role deviceFP m =
     (if userID = [] then Inl UserIDRequired
      else case rnd of
        None \<Rightarrow> Inl RandomFailed
      | Some jti \<Rightarrow>
          sign env m \<lparr>cl_Sub = userID, cl_Role = firstNonEmptyJWT [role, ''customer''],
            cl_DeviceFP = deviceFP, cl_IAT = unix now, cl_EXP = unix (now + TokenTTL),
            cl_JTI = ''jti_'' @ jti\<rparr>)"

definition isRevoked :: "string \<Rightarrow> JWTManager \<Rightarrow> bool option" where
  "isRevoked jti m =
     (if jm_revoked m jti \<noteq> None then Some True
      else case jm_lookup m of Some lookup \<Rightarrow> lookup jti | None \<Rightarrow> Some False)"

definition revocationDenies :: "string \<Rightarrow> JWTManager \<Rightarrow> bool" where
  "revocationDenies jti m =
     (case isRevoked jti m of None \<Rightarrow> jm_failClosed m | Some revoked \<Rightarrow> revoked)"

definition VerifyToken :: "jwt_env \<Rightarrow> time \<Rightarrow> string \<Rightarrow> string \<Rightarrow> JWTManager \<Rightarrow> jwt_error + Claims" where
  "VerifyToken env now token expectedDeviceFP m =
     (case parse env m token of
        Inl e \<Rightarrow> Inl e
      | Inr claims \<Rightarrow>
          if unix now \<ge> cl_EXP claims then Inl TokenExpired
          else if revocationDenies (cl_JTI claims) m then Inl TokenRevoked
          else if cl_DeviceFP claims \<noteq> [] \<and>
                  (TrimSpace expectedDeviceFP = [] \<or> expectedDeviceFP \<noteq> cl_DeviceFP claims)
          then Inl DeviceMismatch
          else Inr claims)"

definition pruneLocked :: "time \<Rightarrow> JWTManager \<Rightarrow> JWTManager" where
  "pruneLocked now m = m\<lparr>jm_revoked := keep_if (\<lambda>exp. \<not> exp < unix now) (jm_revoked m)\<rparr>"

definition persist_revocation :: "string \<Rightarrow> time \<Rightarrow> JWTManager \<Rightarrow> JWTManager" where
  "persist_revocation jti exp m =
     (if jm_persist m then m\<lparr>jm_persisted := jm_persisted m @ [(jti, exp)]\<rparr> else m)"

definition RevokeToken :: "time \<Rightarrow> time \<Rightarrow> string \<Rightarrow> JWTManager \<Rightarrow> JWTManager" where
  "RevokeToken now1 now2 jti m =
     (if jti = [] then m
      else let exp = now1 + (TokenTTL + RefreshGrace);
               m1 = m\<lparr>jm_revoked := (jm_revoked m)(jti \<mapsto> unix exp)\<rparr>
           in persist_revocation jti exp (pruneLocked now2 m1))"

definition RevokeTokenString :: "jwt_env \<Rightarrow> time \<Rightarrow> time \<Rightarrow> string \<Rightarrow> JWTManager \<Rightarrow> JWTManager" where
  "RevokeTokenString env now1 now2 token m =
     (case parse env m token of Inl _ \<Rightarrow> m | Inr claims \<Rightarrow> RevokeToken now1 now2 (cl_JTI claims) m)"

definition claimForRotation :: "time \<Rightarrow> time \<Rightarrow> string \<Rightarrow> JWTManager \<Rightarrow> bool \<times> JWTManager" where
  "claimForRotation now1 now2 jti m =
     (if jti = [] then (False, m)
      else let exp = now1 + (TokenTTL + RefreshGrace) in
        if jm_revoked m jti \<noteq> None then (False, m)
        else let m1 = m\<lparr>jm_revoked := (jm_revoked m)(jti \<mapsto> unix exp)\<rparr>
             in (True, persist_revocation jti exp (pruneLocked now2 m1)))"

text \<open>
  A refresh takes the lock twice: in \<open>isRevoked\<close>, with the checks of the token around it, and in
  \<open>claimForRotation\<close>, after which the new token is issued. The clock reads of a refresh are those
  of the window check, the claim, the pruning and the new token.
\<close>

definition RefreshToken_check ::
  "jwt_env \<Rightarrow> time \<Rightarrow> string \<Rightarrow> string \<Rightarrow> JWTManager \<Rightarrow> jwt_error + Claims" where
  "RefreshToken_check env now0 token deviceFP m =
     (case parse env m token of
        Inl e \<Rightarrow> Inl e
      | Inr claims \<Rightarrow>
          if revocationDenies (cl_JTI claims) m then Inl TokenRevoked
          else if cl_DeviceFP claims \<noteq> [] \<and> deviceFP \<noteq> cl_DeviceFP claims then Inl DeviceMismatch
          else let now = unix now0 in
            if now \<ge> i64 (cl_EXP claims + RefreshGrace div second) then Inl RefreshTooLate
            else if cl_IAT claims > 0 \<and> i64 (now - cl_IAT claims) > maxRefreshableAge div second
            then Inl RefreshTooLate
            else Inr claims)"

definition RefreshToken_claim ::
  "jwt_env \<Rightarrow> time \<Rightarrow> time \<Rightarrow> time \<Rightarrow> string option \<Rightarrow> Claims \<Rightarrow> JWTManager
     \<Rightarrow> (jwt_error + string) \<times> JWTManager" where
  "RefreshToken_claim env now1 now2 now3 rnd claims m =
     (case claimForRotation now1 now2 (cl_JTI claims) m of
        (False, m') \<Rightarrow> (Inl TokenRevoked, m')
      | (True, m') \<Rightarrow>
          (IssueToken env rnd now3 (cl_Sub claims) (cl_Role claims) (cl_DeviceFP claims) m', m'))"

definition RefreshToken ::
  "jwt_env \<Rightarrow> (nat \<Rightarrow> time) \<Rightarrow> string option \<Rightarrow> string \<Rightarrow> string \<Rightarrow> JWTManager
     \<Rightarrow> (jwt_error + string) \<times> JWTManager" where
  "RefreshToken env clk rnd token deviceFP m =
     (case RefreshToken_check env (clk 0) token deviceFP m of
        Inl e \<Rightarrow> (Inl e, m)
      | Inr claims \<Rightarrow> RefreshToken_claim env (clk 1) (clk 2) (clk 3) rnd claims m)"

section \<open>Rotation is single use\<close>

text \<open>
  Concurrent refreshes and revocations. The state carries the last instant read and the
  refreshes that passed their checks and have not claimed yet, each with the instant of its
  check; \<open>RefreshClaim i\<close> is the claim of the \<open>i\<close>-th of them. A step does nothing if there is no such
  refresh.
\<close>

type_synonym jwt_state = "JWTManager \<times> time \<times> (Claims \<times> time) list"

datatype jwt_event =
    RefreshCheck time string string
  | RefreshClaim nat time time time "string option"
  | Revoke time time string

fun jwt_step :: "jwt_env \<Rightarrow> jwt_state \<Rightarrow> jwt_event \<Rightarrow> jwt_state" where
  "jwt_step env (m, T, ps) (RefreshCheck t token fp) =
     (case RefreshToken_check env t token fp m of
        Inl _ \<Rightarrow> (m, t, ps)
      | Inr c \<Rightarrow> (m, t, ps @ [(c, t)]))"
| "jwt_step env (m, T, ps) (RefreshClaim i t1 t2 t3 rnd) =
     (if i < length ps
      then (snd (RefreshToken_claim env t1 t2 t3 rnd (fst (ps ! i)) m), t2, take i ps @ drop (Suc i) ps)
      else (m, T, ps))"
| "jwt_step env (m, T, ps) (Revoke t1 t2 jti) = (RevokeToken t1 t2 jti m, t2, ps)"

fun jwt_mints :: "jwt_env \<Rightarrow> jwt_state \<Rightarrow> jwt_event \<Rightarrow> string option" where
  "jwt_mints env (m, T, ps) (RefreshClaim i t1 t2 t3 rnd) =
     (if i < length ps then
        case fst (RefreshToken_claim env t1 t2 t3 rnd (fst (ps ! i)) m) of
          Inr _ \<Rightarrow> Some (cl_JTI (fst (ps ! i))) | Inl _ \<Rightarrow> None
      else None)"
| "jwt_mints env s _ = None"

text \<open>
  \<open>E k\<close> is the expiry in the token with id \<open>k\<close>. What every step owes: the clock does not go back,
  the token was issued before (so its expiry is at most a TTL ahead of a mark), and ids are
  not reused for tokens with another expiry.
\<close>

fun jwt_owed :: "jwt_env \<Rightarrow> (string \<Rightarrow> int) \<Rightarrow> jwt_state \<Rightarrow> jwt_event \<Rightarrow> string \<Rightarrow> bool" where
  "jwt_owed env E (m, T, ps) (RefreshCheck t token fp) k \<longleftrightarrow>
     T \<le> t \<and> is_i64 (E k + 300) \<and>
     (case parse env m token of Inr c \<Rightarrow> cl_JTI c = k \<longrightarrow> cl_EXP c = E k | Inl _ \<Rightarrow> True)"
| "jwt_owed env E (m, T, ps) (RefreshClaim i t1 t2 t3 rnd) k \<longleftrightarrow>
     T \<le> t1 \<and> t1 \<le> t2 \<and> E k \<le> unix t1 + 900"
| "jwt_owed env E (m, T, ps) (Revoke t1 t2 jti) k \<longleftrightarrow> T \<le> t1 \<and> t1 \<le> t2 \<and> E k \<le> unix t1 + 900"

text \<open>A refresh of \<open>k\<close> does not stall: its claim comes at most 20 minutes after its check.\<close>

fun no_stall :: "jwt_state \<Rightarrow> jwt_event \<Rightarrow> string \<Rightarrow> bool" where
  "no_stall (m, T, ps) (RefreshClaim i t1 t2 t3 rnd) k \<longleftrightarrow>
     (i < length ps \<and> cl_JTI (fst (ps ! i)) = k \<longrightarrow> unix t2 \<le> unix (snd (ps ! i)) + 1200)"
| "no_stall s _ k \<longleftrightarrow> True"

text \<open>The checks that wait for their claim lie in the past.\<close>

fun jwt_past :: "jwt_state \<Rightarrow> bool" where
  "jwt_past (m, T, ps) \<longleftrightarrow> (\<forall>(c, t) \<in> set ps. t \<le> T)"

definition jwt_ok :: "jwt_env \<Rightarrow> (string \<Rightarrow> int) \<Rightarrow> jwt_state \<Rightarrow> jwt_event \<Rightarrow> string \<Rightarrow> bool" where
  "jwt_ok env E s e k \<longleftrightarrow> jwt_owed env E s e k \<and> no_stall s e k"

text \<open>
  \<open>k\<close> is spent: it is marked for longer than its window, and longer than any waiting refresh of
  it may take; or both times have passed.
\<close>

definition spent_by :: "int \<Rightarrow> string \<Rightarrow> int \<Rightarrow> (Claims \<times> time) list \<Rightarrow> bool" where
  "spent_by x k e ps \<longleftrightarrow> e + 300 \<le> x \<and> (\<forall>(c, t) \<in> set ps. cl_JTI c = k \<longrightarrow> unix t + 1200 \<le> x)"

fun jwt_spent :: "(string \<Rightarrow> int) \<Rightarrow> jwt_state \<Rightarrow> string \<Rightarrow> bool" where
  "jwt_spent E (m, T, ps) k \<longleftrightarrow>
     (case jm_revoked m k of Some x \<Rightarrow> spent_by x k (E k) ps | None \<Rightarrow> False) \<or>
     (E k + 300 \<le> unix T \<and> (\<forall>(c, t) \<in> set ps. cl_JTI c = k \<longrightarrow> unix t + 1200 < unix T))"

lemma unix_ttl: "unix (t + (TokenTTL + RefreshGrace)) = unix t + 1200"
  using unix_add_seconds [of t 1200] by (simp add: TokenTTL_def RefreshGrace_def)

lemma grace_seconds: "RefreshGrace div second = 300"
  by (simp add: RefreshGrace_def)

lemma revoked_after_mark:
  "jm_revoked (persist_revocation j x (pruneLocked t (m\<lparr>jm_revoked := (jm_revoked m)(j \<mapsto> e)\<rparr>)))
     = keep_if (\<lambda>x. \<not> x < unix t) ((jm_revoked m)(j \<mapsto> e))"
  by (simp add: persist_revocation_def pruneLocked_def)

lemma RevokeToken_revoked:
  "jm_revoked (RevokeToken t1 t2 j m) =
     (if j = [] then jm_revoked m
      else keep_if (\<lambda>x. \<not> x < unix t2) ((jm_revoked m)(j \<mapsto> unix t1 + 1200)))"
  by (simp add: RevokeToken_def Let_def revoked_after_mark unix_ttl)

lemma RefreshToken_check_Inr:
  "RefreshToken_check env t token fp m = Inr c \<Longrightarrow>
     parse env m token = Inr c \<and> jm_revoked m (cl_JTI c) = None \<and> unix t < i64 (cl_EXP c + 300)"
  by (auto simp: RefreshToken_check_def revocationDenies_def isRevoked_def grace_seconds Let_def
      split: sum.splits if_splits)

lemma claimForRotation_won:
  "fst (claimForRotation t1 t2 j m) \<longleftrightarrow> j \<noteq> [] \<and> jm_revoked m j = None"
  by (simp add: claimForRotation_def Let_def)

lemma RefreshToken_claim_revoked:
  "jm_revoked (snd (RefreshToken_claim env t1 t2 t3 rnd c m)) =
     (if cl_JTI c \<noteq> [] \<and> jm_revoked m (cl_JTI c) = None
      then keep_if (\<lambda>x. \<not> x < unix t2) ((jm_revoked m)(cl_JTI c \<mapsto> unix t1 + 1200)) else jm_revoked m)"
  by (auto simp: RefreshToken_claim_def claimForRotation_def Let_def revoked_after_mark unix_ttl)

lemma RefreshToken_claim_won:
  "fst (RefreshToken_claim env t1 t2 t3 rnd c m) = Inr token \<Longrightarrow>
     cl_JTI c \<noteq> [] \<and> jm_revoked m (cl_JTI c) = None"
  by (auto simp: RefreshToken_claim_def claimForRotation_def Let_def split: if_splits)

lemma jwt_mints_iff:
  "jwt_mints env (m, T, ps) e = Some k \<longleftrightarrow>
     (\<exists>i t1 t2 t3 rnd token. e = RefreshClaim i t1 t2 t3 rnd \<and> i < length ps \<and> cl_JTI (fst (ps ! i)) = k \<and>
        fst (RefreshToken_claim env t1 t2 t3 rnd (fst (ps ! i)) m) = Inr token)"
  by (cases e) (auto split: sum.splits)

lemma set_remove: "set (take i xs @ drop (Suc i) xs) \<subseteq> set xs"
  by (auto dest: in_set_takeD in_set_dropD)

text \<open>What marking one id and pruning does to a spent id: it stays spent.\<close>

lemma spent_after_mark:
  assumes "jwt_spent E (m, T, ps) k" and "T \<le> t2" and "j \<noteq> k"
    and "jm_revoked m' = keep_if (\<lambda>x. \<not> x < unix t2) ((jm_revoked m)(j \<mapsto> e))" and "set qs \<subseteq> set ps"
  shows "jwt_spent E (m', t2, qs) k"
  using assms unix_mono [OF assms(2)]
  by (fastforce simp: keep_if_def spent_by_def split: option.splits)

lemma spent_later:
  assumes "jwt_spent E (m, T, ps) k" and "T \<le> t2" and "jm_revoked m' = jm_revoked m" and "set qs \<subseteq> set ps"
  shows "jwt_spent E (m', t2, qs) k"
  using assms unix_mono [OF assms(2)] by (fastforce simp: spent_by_def split: option.splits)

text \<open>A mark of \<open>k\<close> itself outlives its window and every check that waits.\<close>

lemma mark_spends:
  assumes "\<forall>(c, t) \<in> set ps. t \<le> t1" and "E k \<le> unix t1 + 900"
    and "jm_revoked m' = keep_if (\<lambda>x. \<not> x < unix t2) ((jm_revoked m)(k \<mapsto> unix t1 + 1200))" and "set qs \<subseteq> set ps"
  shows "jwt_spent E (m', t2, qs) k"
proof -
  have "unix t + 1200 \<le> unix t1 + 1200" if "(c, t) \<in> set qs" for c t
    using assms(1,4) that unix_mono [of t t1] by force
  then have sp: "spent_by (unix t1 + 1200) k (E k) qs" using assms(2) by (fastforce simp: spent_by_def)
  show ?thesis
  proof (cases "unix t1 + 1200 < unix t2")
    case True
    then show ?thesis using sp by (fastforce simp: spent_by_def)
  next
    case False
    then show ?thesis using sp assms(3) by (simp add: keep_if_def)
  qed
qed

lemma pending_after: "jwt_past (m, T, ps) \<Longrightarrow> T \<le> t \<Longrightarrow> \<forall>(c, t0) \<in> set ps. t0 \<le> t"
  by (auto intro: order.trans)

lemma jwt_past_step: "jwt_past s \<Longrightarrow> jwt_owed env E s e k \<Longrightarrow> jwt_past (jwt_step env s e)"
proof (cases s, cases e)
  fix m T ps assume s: "s = (m, T, ps)" and past: "jwt_past s" and owed: "jwt_owed env E s e k"
  {
    fix t token fp assume "e = RefreshCheck t token fp"
    then show ?thesis using past owed by (auto simp: s split: sum.splits intro: order.trans)
  next
    fix i t1 t2 t3 rnd assume e: "e = RefreshClaim i t1 t2 t3 rnd"
    then have "T \<le> t2" using owed by (simp add: s)
    with past e show ?thesis using set_remove [of i ps] by (fastforce simp: s)
  next
    fix t1 t2 j assume "e = Revoke t1 t2 j"
    then show ?thesis using past owed by (auto simp: s intro: order.trans)
  }
qed

text \<open>
  The laws of a single-use token, with \<open>jwt_past\<close> as part of what a step may rely on; it is an
  invariant by \<open>jwt_past_step\<close>.
\<close>

interpretation rotation: single_use "jwt_step env" "jwt_mints env" "jwt_spent E"
  "\<lambda>s e k. jwt_past s \<and> jwt_ok env E s e k"
  for env E
proof
  fix s :: jwt_state and k e
  obtain m T ps where s: "s = (m, T, ps)" by (cases s)
  {
    assume sp: "jwt_spent E s k" and "jwt_past s \<and> jwt_ok env E s e k"
    then have ok: "jwt_owed env E s e k" "no_stall s e k" by (simp_all add: jwt_ok_def)
    show "jwt_mints env s e \<noteq> Some k"
    proof
      assume "jwt_mints env s e = Some k"
      then obtain i t1 t2 t3 rnd token where e: "e = RefreshClaim i t1 t2 t3 rnd" and i: "i < length ps"
        and k: "cl_JTI (fst (ps ! i)) = k"
        and won: "fst (RefreshToken_claim env t1 t2 t3 rnd (fst (ps ! i)) m) = Inr token"
        unfolding s jwt_mints_iff by blast
      have "jm_revoked m k = None" using RefreshToken_claim_won [OF won] k by simp
      then have "unix (snd (ps ! i)) + 1200 < unix T"
        using sp nth_mem [OF i] k by (auto simp: s split: prod.splits)
      moreover have "unix t2 \<le> unix (snd (ps ! i)) + 1200" using ok(2) i k by (simp add: s e)
      moreover have "unix T \<le> unix t2" using ok(1) by (intro unix_mono) (simp add: s e)
      ultimately show False by simp
    qed
  }
  {
    assume red: "jwt_mints env s e = Some k" and "jwt_past s \<and> jwt_ok env E s e k"
    then have ok: "jwt_past s" "jwt_owed env E s e k" by (simp_all add: jwt_ok_def)
    obtain i t1 t2 t3 rnd token where e: "e = RefreshClaim i t1 t2 t3 rnd" and i: "i < length ps"
      and k: "cl_JTI (fst (ps ! i)) = k"
      and won: "fst (RefreshToken_claim env t1 t2 t3 rnd (fst (ps ! i)) m) = Inr token"
      using red unfolding s jwt_mints_iff by blast
    have "jwt_spent E (snd (RefreshToken_claim env t1 t2 t3 rnd (fst (ps ! i)) m), t2, take i ps @ drop (Suc i) ps) k"
      by (rule mark_spends [OF _ _ _ set_remove, where m = m and ?t1.0 = t1])
         (use ok pending_after [of m T ps t1] RefreshToken_claim_won [OF won]
           in \<open>auto simp: s e k RefreshToken_claim_revoked\<close>)
    then show "jwt_spent E (jwt_step env s e) k" using i by (simp add: s e)
  }
  {
    assume sp: "jwt_spent E s k" and "jwt_past s \<and> jwt_ok env E s e k"
    then have ok: "jwt_past s" "jwt_owed env E s e k" by (simp_all add: jwt_ok_def)
    show "jwt_spent E (jwt_step env s e) k"
    proof (cases e)
      case (RefreshCheck t token fp)
      then have le: "T \<le> t" using ok(2) by (simp add: s)
      have "cl_JTI c \<noteq> k" if "RefreshToken_check env t token fp m = Inr c" for c
      proof
        assume k: "cl_JTI c = k"
        have c: "parse env m token = Inr c" "jm_revoked m k = None" "unix t < i64 (cl_EXP c + 300)"
          using RefreshToken_check_Inr [OF that] k by auto
        then have "cl_EXP c = E k" "is_i64 (E k + 300)" using ok(2) k by (auto simp: s RefreshCheck)
        with c sp unix_mono [OF le] show False by (simp add: s i64_id)
      qed
      then show ?thesis
        using spent_later [OF sp [unfolded s] le, of m ps]
        by (auto simp: s RefreshCheck spent_by_def split: sum.splits option.splits)
    next
      case (RefreshClaim i t1 t2 t3 rnd)
      then have le: "T \<le> t1" "T \<le> t2" using ok(2) by (auto simp: s)
      let ?c = "fst (ps ! i)" and ?qs = "take i ps @ drop (Suc i) ps"
      let ?m = "snd (RefreshToken_claim env t1 t2 t3 rnd ?c m)"
      have "jwt_spent E (?m, t2, ?qs) k"
      proof (cases "cl_JTI ?c \<noteq> [] \<and> jm_revoked m (cl_JTI ?c) = None")
        case True
        then have R: "jm_revoked ?m = keep_if (\<lambda>x. \<not> x < unix t2) ((jm_revoked m)(cl_JTI ?c \<mapsto> unix t1 + 1200))"
          by (simp add: RefreshToken_claim_revoked)
        show ?thesis
        proof (cases "cl_JTI ?c = k")
          case True
          show ?thesis
            by (rule mark_spends [OF pending_after [OF ok(1) [unfolded s] le(1)] _ R [unfolded True] set_remove])
               (use ok(2) in \<open>simp add: s RefreshClaim\<close>)
        next
          case False
          show ?thesis by (rule spent_after_mark [OF sp [unfolded s] le(2) False R set_remove])
        qed
      next
        case False
        then have "jm_revoked ?m = jm_revoked m" by (auto simp: RefreshToken_claim_revoked)
        then show ?thesis by (rule spent_later [OF sp [unfolded s] le(2) _ set_remove])
      qed
      then show ?thesis using sp by (auto simp: s RefreshClaim)
    next
      case (Revoke t1 t2 j)
      then have le: "T \<le> t1" "T \<le> t2" using ok(2) by (auto simp: s)
      have "jwt_spent E (RevokeToken t1 t2 j m, t2, ps) k"
      proof (cases "j = []")
        case True
        then show ?thesis using spent_later [OF sp [unfolded s] le(2)] by (simp add: RevokeToken_revoked)
      next
        case False
        then have R: "jm_revoked (RevokeToken t1 t2 j m) =
            keep_if (\<lambda>x. \<not> x < unix t2) ((jm_revoked m)(j \<mapsto> unix t1 + 1200))"
          by (simp add: RevokeToken_revoked)
        show ?thesis
        proof (cases "j = k")
          case True
          show ?thesis
            by (rule mark_spends [OF pending_after [OF ok(1) [unfolded s] le(1)] _ _ subset_refl])
               (use ok(2) R True in \<open>simp_all add: s Revoke\<close>)
        next
          case False
          show ?thesis by (rule spent_after_mark [OF sp [unfolded s] le(2) False R subset_refl])
        qed
      qed
      then show ?thesis by (simp add: s Revoke)
    qed
  }
qed

lemma jwt_trace_past:
  "jwt_past s \<Longrightarrow> \<forall>(t, e) \<in> set (trace (jwt_step env) s es). jwt_owed env E t e k \<Longrightarrow>
     (t, e) \<in> set (trace (jwt_step env) s es) \<Longrightarrow> jwt_past t"
proof (induction es arbitrary: s)
  case (Cons e' es)
  have "jwt_past (jwt_step env s e')" by (rule jwt_past_step [OF Cons.prems(1), where env = env and E = E and k = k]) (use Cons.prems(2) in simp)
  with Cons show ?case by fastforce
qed simp

subsection \<open>A revoked id\<close>

text \<open>Revocation needs no bound on stalls: a mark or the expiry is left, whatever is claimed.\<close>

fun jwt_dead :: "(string \<Rightarrow> int) \<Rightarrow> jwt_state \<Rightarrow> string \<Rightarrow> bool" where
  "jwt_dead E (m, T, ps) k \<longleftrightarrow>
     (case jm_revoked m k of Some x \<Rightarrow> E k + 300 \<le> x | None \<Rightarrow> False) \<or> E k + 300 \<le> unix T"

lemma dead_after_mark:
  assumes "jwt_dead E (m, T, ps) k" and "T \<le> t2" and "E k \<le> unix t1 + 900"
    and "jm_revoked m' = keep_if (\<lambda>x. \<not> x < unix t2) ((jm_revoked m)(j \<mapsto> unix t1 + 1200))"
  shows "jwt_dead E (m', t2, qs) k"
  using assms unix_mono [OF assms(2)] by (auto simp: keep_if_def split: option.splits)

lemma dead_later:
  "jwt_dead E (m, T, ps) k \<Longrightarrow> T \<le> t2 \<Longrightarrow> jm_revoked m' = jm_revoked m \<Longrightarrow> jwt_dead E (m', t2, qs) k"
  using unix_mono [of T t2] by (auto split: option.splits)

lemma jwt_dead_step: "jwt_dead E s k \<Longrightarrow> jwt_owed env E s e k \<Longrightarrow> jwt_dead E (jwt_step env s e) k"
proof (cases s, cases e)
  fix m T ps assume s: "s = (m, T, ps)" and d: "jwt_dead E s k" and ok: "jwt_owed env E s e k"
  {
    fix t token fp assume e: "e = RefreshCheck t token fp"
    then have "jwt_dead E (m, t, qs) k" for qs using dead_later [OF d [unfolded s]] ok by (simp add: s)
    then show ?thesis by (auto simp: s e split: sum.splits simp del: jwt_dead.simps)
  next
    fix i t1 t2 t3 rnd assume e: "e = RefreshClaim i t1 t2 t3 rnd"
    then have le: "T \<le> t2" "E k \<le> unix t1 + 900" using ok by (auto simp: s)
    have "jwt_dead E (snd (RefreshToken_claim env t1 t2 t3 rnd c m), t2, qs) k" for c qs
      using dead_after_mark [OF d [unfolded s] le] dead_later [OF d [unfolded s] le(1)]
      by (cases "cl_JTI c \<noteq> [] \<and> jm_revoked m (cl_JTI c) = None")
         (auto simp: RefreshToken_claim_revoked simp del: jwt_dead.simps)
    then show ?thesis using d by (auto simp: s e simp del: jwt_dead.simps)
  next
    fix t1 t2 j assume e: "e = Revoke t1 t2 j"
    then have le: "T \<le> t2" "E k \<le> unix t1 + 900" using ok by (auto simp: s)
    show ?thesis
      using dead_after_mark [OF d [unfolded s] le] dead_later [OF d [unfolded s] le(1)]
      by (cases "j = []") (auto simp: s e RevokeToken_revoked simp del: jwt_dead.simps)
  }
qed

lemma jwt_dead_run:
  "jwt_dead E s k \<Longrightarrow> \<forall>(t, e) \<in> set (trace (jwt_step env) s es). jwt_owed env E t e k \<Longrightarrow>
     jwt_dead E (foldl (jwt_step env) s es) k"
proof (induction es arbitrary: s)
  case (Cons e es)
  have "jwt_dead E (jwt_step env s e) k" by (rule jwt_dead_step [OF Cons.prems(1)]) (use Cons.prems(2) in simp)
  with Cons show ?case by simp
qed simp

section \<open>Issued tokens parse\<close>

lemma split_on_no_sep: "sep \<notin> set a \<Longrightarrow> split_on sep a = [a]"
  by (induction a) auto

lemma split_on_sep: "sep \<notin> set a \<Longrightarrow> split_on sep (a @ sep # s) = a # split_on sep s"
  by (induction a) auto

lemma no_dot: "CHR ''.'' \<notin> set (EncodeToString s)"
  using encode_chars b64_alphabet_props(3) by blast

lemma no_space: "c \<in> set (EncodeToString s) \<Longrightarrow> \<not> is_space c"
  using encode_chars b64_alphabet_props(3) by blast

definition json_laws :: "jwt_env \<Rightarrow> bool" where
  "json_laws env \<longleftrightarrow> (\<forall>c p. je_marshal env c = Some p \<longrightarrow> je_unmarshal env p = Some c)"

lemma parse_sign:
  assumes "json_laws env" and "sign env m c = Inr token" and "jm_secret m' = jm_secret m"
    and "cl_Sub c \<noteq> []" and "cl_EXP c \<noteq> 0"
  shows "parse env m' token = Inr c"
proof -
  obtain p where p: "je_marshal env c = Some p"
    and t: "token = jwt_header @ CHR ''.'' # EncodeToString p @ CHR ''.'' #
              hmac env m (jwt_header @ CHR ''.'' # EncodeToString p)"
    using assms(2) by (auto simp: sign_def Let_def split: option.splits)
  let ?sig = "hmac env m (jwt_header @ CHR ''.'' # EncodeToString p)"
  have hd: "hd token = hd jwt_header" and ne: "jwt_header \<noteq> []"
    unfolding t by (simp_all add: jwt_header_def)
  have "\<not> is_space (hd token)"
    using ne no_space [of "hd jwt_header"] unfolding hd jwt_header_def by (metis hd_in_set)
  moreover have "\<not> is_space (last token)"
  proof (cases "?sig = []")
    case True
    then show ?thesis by (simp add: t is_space_def)
  next
    case False
    then have "last token \<in> set ?sig" by (simp add: t)
    then show ?thesis unfolding hmac_def by (rule no_space)
  qed
  ultimately have "TrimSpace token = token" by (intro TrimSpace_id) simp
  moreover have hd_dot: "CHR ''.'' \<notin> set jwt_header" unfolding jwt_header_def by (rule no_dot)
  moreover have "split_on (CHR ''.'') token = [jwt_header, EncodeToString p, ?sig]"
    using hd_dot by (simp add: t split_on_sep split_on_no_sep no_dot hmac_def)
  moreover have "je_unmarshal env p = Some c" using assms(1) p by (simp add: json_laws_def)
  ultimately show ?thesis
    using assms(3-5) by (simp add: parse_def DecodeString_EncodeToString hmac_def)
qed

section \<open>Properties\<close>

text \<open>
  C8: rotation is single use, under any interleaving of refreshes and revocations in which a
  refresh is two steps, its checks and its claim. At most one refresh of the tokens with id
  \<open>k\<close> mints a new token, also after the revocation entry has been pruned, provided the clock does
  not go back, \<open>k\<close> belongs to tokens of one expiry that was at most a TTL ahead, and a refresh of
  \<open>k\<close> takes at most twenty minutes from its check to its claim.
\<close>
theorem token_rotated_at_most_once:
  assumes "\<forall>(t, e) \<in> set (trace (jwt_step env) (m, T, []) es). jwt_ok env E t e k"
  shows "length (filter (\<lambda>(t, e). jwt_mints env t e = Some k) (trace (jwt_step env) (m, T, []) es)) \<le> 1"
proof -
  let ?tr = "trace (jwt_step env) (m, T, []) es"
  have owed: "\<forall>(t, e) \<in> set ?tr. jwt_owed env E t e k" using assms unfolding jwt_ok_def by fast
  have "rotation.allowed env E (m, T, []) es k"
    unfolding rotation.allowed_def
  proof (rule ballI)
    fix x assume x: "x \<in> set ?tr"
    obtain t e where te: "x = (t, e)" by (cases x)
    have "jwt_past t" by (rule jwt_trace_past [OF _ owed x [unfolded te]]) simp
    then show "case x of (t, e) \<Rightarrow> jwt_past t \<and> jwt_ok env E t e k" using bspec [OF assms x] by (simp add: te)
  qed
  from rotation.redeemed_at_most_once [OF this] show ?thesis by (simp add: rotation.redemptions_def)
qed

definition demo_jwt :: jwt_env where
  "demo_jwt = \<lparr>je_hmac = (\<lambda>s x. ''m''),
     je_marshal = (\<lambda>c. Some (cl_Sub c)),
     je_unmarshal = (\<lambda>p. Some \<lparr>cl_Sub = p, cl_Role = ''customer'', cl_DeviceFP = [], cl_IAT = 100,
                                cl_EXP = 1000, cl_JTI = ''jti_a''\<rparr>)\<rparr>"

definition demo_token :: string where
  "demo_token = ''a.'' @ EncodeToString ''u'' @ ''.'' @ EncodeToString ''m''"

definition demo_time :: "int \<Rightarrow> time" where
  "demo_time n = (62135596800 + n) * second"

lemma unix_demo [simp]: "unix (demo_time n) = n"
  by (simp add: demo_time_def unix_def)

lemma demo_time_le [simp]: "demo_time a \<le> demo_time b \<longleftrightarrow> a \<le> b" "0 \<le> demo_time 200"
  by (simp_all add: demo_time_def)

definition demo_check :: jwt_event where
  "demo_check = RefreshCheck (demo_time 200) demo_token []"

definition demo_claim :: "int \<Rightarrow> jwt_event" where
  "demo_claim n = RefreshClaim 0 (demo_time n) (demo_time n) (demo_time n) (Some ''b'')"

definition demo_manager :: JWTManager where
  "demo_manager = NewJWTManagerWithSecret ''0123456789abcdef''"

lemma demo_parse:
  "parse demo_jwt m demo_token = Inr \<lparr>cl_Sub = ''u'', cl_Role = ''customer'', cl_DeviceFP = [],
     cl_IAT = 100, cl_EXP = 1000, cl_JTI = ''jti_a''\<rparr>"
proof -
  have "last (EncodeToString ''m'') \<in> set (EncodeToString ''m'')" by simp
  then have "\<not> is_space (last (EncodeToString ''m''))" by (rule no_space)
  then have "TrimSpace demo_token = demo_token"
    by (intro TrimSpace_id) (simp add: demo_token_def is_space_def)
  moreover have "split_on (CHR ''.'') demo_token = [''a'', EncodeToString ''u'', EncodeToString ''m'']"
    by (simp add: demo_token_def split_on_sep split_on_no_sep no_dot del: EncodeToString.simps)
  ultimately show ?thesis
    by (simp add: parse_def demo_jwt_def hmac_def DecodeString_EncodeToString del: EncodeToString.simps)
qed

lemma demo_checked:
  "jm_revoked m ''jti_a'' = None \<Longrightarrow> jm_lookup m = None \<Longrightarrow>
     RefreshToken_check demo_jwt (demo_time 200) demo_token [] m =
       Inr \<lparr>cl_Sub = ''u'', cl_Role = ''customer'', cl_DeviceFP = [], cl_IAT = 100, cl_EXP = 1000, cl_JTI = ''jti_a''\<rparr>"
  by (simp add: RefreshToken_check_def demo_parse revocationDenies_def isRevoked_def grace_seconds
      maxRefreshableAge_def i64_def)

text \<open>Two refreshes pass their checks before either claims.\<close>

theorem token_rotated_at_most_once_witness:
  "length (filter (\<lambda>(t, e). jwt_mints demo_jwt t e = Some ''jti_a'')
     (trace (jwt_step demo_jwt) (demo_manager, 0, []) [demo_check, demo_check, demo_claim 201, demo_claim 202])) \<le> 1"
proof (rule token_rotated_at_most_once [where E = "\<lambda>_. 1000"])
  have "jm_revoked demo_manager ''jti_a'' = None" "jm_lookup demo_manager = None"
    by (simp_all add: demo_manager_def NewJWTManagerWithSecret_def)
  note c = demo_checked [OF this]
  show "\<forall>(t, e) \<in> set (trace (jwt_step demo_jwt) (demo_manager, 0, [])
      [demo_check, demo_check, demo_claim 201, demo_claim 202]). jwt_ok demo_jwt (\<lambda>_. 1000) t e ''jti_a''"
    by (simp add: demo_check_def demo_claim_def c jwt_ok_def demo_parse is_i64_def)
qed

text \<open>
  The bound on stalls is there for a reason: the mark of the first claim lasts twenty minutes,
  and any revocation prunes it after that. A refresh that passed its checks before the first
  claim and claims only then mints a second token.
\<close>
theorem stalled_refresh_mints_again:
  "length (filter (\<lambda>(t, e). jwt_mints demo_jwt t e = Some ''jti_a'')
     (trace (jwt_step demo_jwt) (demo_manager, 0, [])
        [demo_check, demo_check, demo_claim 201, Revoke (demo_time 1500) (demo_time 1500) ''other'',
         demo_claim 1500])) = 2"
proof -
  let ?c = "\<lparr>cl_Sub = ''u'', cl_Role = ''customer'', cl_DeviceFP = [], cl_IAT = 100, cl_EXP = 1000, cl_JTI = ''jti_a''\<rparr>"
  have nil: "jm_revoked demo_manager ''jti_a'' = None" "jm_lookup demo_manager = None"
    by (simp_all add: demo_manager_def NewJWTManagerWithSecret_def)
  note c = demo_checked [OF this]
  define m1 where "m1 = snd (RefreshToken_claim demo_jwt (demo_time 201) (demo_time 201) (demo_time 201) (Some ''b'') ?c demo_manager)"
  define m2 where "m2 = RevokeToken (demo_time 1500) (demo_time 1500) ''other'' m1"
  have mint: "\<exists>token. fst (RefreshToken_claim demo_jwt t1 t2 t3 (Some ''b'') ?c m) = Inr token"
    if "jm_revoked m ''jti_a'' = None" for m t1 t2 t3
    using that by (simp add: RefreshToken_claim_def claimForRotation_def IssueToken_def sign_def demo_jwt_def Let_def)
  have "jm_revoked m2 ''jti_a'' = None"
    by (simp add: m2_def m1_def RevokeToken_revoked RefreshToken_claim_revoked nil keep_if_def)
  from mint [OF this, of "demo_time 1500" "demo_time 1500" "demo_time 1500"]
  obtain y where y: "fst (RefreshToken_claim demo_jwt (demo_time 1500) (demo_time 1500) (demo_time 1500) (Some ''b'') ?c m2) = Inr y"
    by blast
  from mint [OF nil(1), of "demo_time 201" "demo_time 201" "demo_time 201"]
  obtain x where x: "fst (RefreshToken_claim demo_jwt (demo_time 201) (demo_time 201) (demo_time 201) (Some ''b'') ?c demo_manager) = Inr x"
    by blast
  show ?thesis by (simp add: demo_check_def demo_claim_def c x y m1_def [symmetric] m2_def [symmetric])
qed

text \<open>
  C9: a revoked token is dead. After \<open>RevokeToken\<close> no later verification accepts a token with
  that id, whatever refreshes (those already checked included) and revocations happen in between and
  although its revocation entry is pruned after twenty minutes.
\<close>
theorem revoked_token_never_verifies:
  assumes "k \<noteq> []" and "t1 \<le> t2" and "E k \<le> unix t1 + 900"
    and "\<forall>(t, e) \<in> set (trace (jwt_step env) (RevokeToken t1 t2 k m, t2, ps) es). jwt_owed env E t e k"
    and "foldl (jwt_step env) (RevokeToken t1 t2 k m, t2, ps) es = (m', T', ps')" and "T' \<le> now"
    and "parse env m' token = Inr c" and "cl_JTI c = k" and "cl_EXP c = E k"
  shows "VerifyToken env now token fp m' \<in> {Inl TokenExpired, Inl TokenRevoked}"
proof -
  have "jwt_dead E (RevokeToken t1 t2 k m, t2, ps) k"
    using assms(1,3) unix_mono [OF assms(2)] by (auto simp: RevokeToken_revoked keep_if_def)
  then have "jwt_dead E (m', T', ps') k"
    using jwt_dead_run [OF _ assms(4)] assms(5) by simp
  moreover have "unix T' \<le> unix now" using assms(6) by (rule unix_mono)
  ultimately show ?thesis
    using assms(7-9)
    by (auto simp: VerifyToken_def revocationDenies_def isRevoked_def split: option.splits)
qed

theorem revoked_token_never_verifies_witness:
  "VerifyToken demo_jwt ((62135596800 + 300) * second) demo_token []
     (RevokeToken ((62135596800 + 200) * second) ((62135596800 + 200) * second) ''jti_a'' demo_manager)
     \<in> {Inl TokenExpired, Inl TokenRevoked}"
  by (rule revoked_token_never_verifies [where E = "\<lambda>_. 1000" and env = demo_jwt and es = "[]"
        and c = "\<lparr>cl_Sub = ''u'', cl_Role = ''customer'', cl_DeviceFP = [], cl_IAT = 100, cl_EXP = 1000,
                  cl_JTI = ''jti_a''\<rparr>"
        and T' = "(62135596800 + 200) * second" and k = "''jti_a''" and ps = "[]" and ps' = "[]"])
     (simp_all add: demo_parse unix_def)

text \<open>
  An issued token verifies, at the manager with the same secret, for exactly the next 900
  seconds of the Unix clock, unless it is revoked, and only for the device it is bound to; the
  claims come back as they were issued.
\<close>
theorem issued_token_verifies:
  assumes "json_laws env" and "IssueToken env (Some rnd) t u role fp m = Inr token"
    and "jm_secret m' = jm_secret m" and "unix t + 900 \<noteq> 0"
  shows "VerifyToken env now token fp' m' =
     (if unix t + 900 \<le> unix now then Inl TokenExpired
      else if revocationDenies (''jti_'' @ rnd) m' then Inl TokenRevoked
      else if fp \<noteq> [] \<and> (TrimSpace fp' = [] \<or> fp' \<noteq> fp) then Inl DeviceMismatch
      else Inr \<lparr>cl_Sub = u, cl_Role = firstNonEmptyJWT [role, ''customer''], cl_DeviceFP = fp,
                cl_IAT = unix t, cl_EXP = unix t + 900, cl_JTI = ''jti_'' @ rnd\<rparr>)"
proof -
  have exp: "unix (t + TokenTTL) = unix t + 900"
    using unix_add_seconds [of t 900] by (simp add: TokenTTL_def)
  let ?c = "\<lparr>cl_Sub = u, cl_Role = firstNonEmptyJWT [role, ''customer''], cl_DeviceFP = fp,
                cl_IAT = unix t, cl_EXP = unix t + 900, cl_JTI = ''jti_'' @ rnd\<rparr>"
  have "u \<noteq> []" and "sign env m ?c = Inr token"
    using assms(2) by (auto simp: IssueToken_def exp split: if_splits)
  then have "parse env m' token = Inr ?c"
    using assms(1,3,4) by (intro parse_sign) auto
  then show ?thesis by (auto simp: VerifyToken_def)
qed

definition demo_json :: jwt_env where
  "demo_json = \<lparr>je_hmac = (\<lambda>s x. s @ x),
     je_marshal = (\<lambda>c. if cl_Sub c = ''u'' \<and> cl_Role c = ''customer'' \<and> cl_DeviceFP c = ''d'' \<and>
                            cl_IAT c = 200 \<and> cl_EXP c = 1100 \<and> cl_JTI c = ''jti_b'' then Some ''x'' else None),
     je_unmarshal = (\<lambda>p. Some \<lparr>cl_Sub = ''u'', cl_Role = ''customer'', cl_DeviceFP = ''d'', cl_IAT = 200,
                                cl_EXP = 1100, cl_JTI = ''jti_b''\<rparr>)\<rparr>"

theorem issued_token_verifies_witness:
  "\<exists>token c. IssueToken demo_json (Some ''b'') ((62135596800 + 200) * second) ''u'' [] ''d'' demo_manager
       = Inr token \<and>
     VerifyToken demo_json ((62135596800 + 900) * second) token ''d'' demo_manager = Inr c \<and> cl_Sub c = ''u''"
proof -
  have laws: "json_laws demo_json" by (simp add: json_laws_def demo_json_def)
  have "\<exists>token. IssueToken demo_json (Some ''b'') ((62135596800 + 200) * second) ''u'' [] ''d'' demo_manager
       = Inr token"
    by (simp add: IssueToken_def sign_def demo_json_def unix_def TokenTTL_def TrimSpace_def is_space_def Let_def)
  then obtain token where tk:
    "IssueToken demo_json (Some ''b'') ((62135596800 + 200) * second) ''u'' [] ''d'' demo_manager = Inr token"
    by blast
  have "VerifyToken demo_json ((62135596800 + 900) * second) token ''d'' demo_manager =
      Inr \<lparr>cl_Sub = ''u'', cl_Role = ''customer'', cl_DeviceFP = ''d'', cl_IAT = 200, cl_EXP = 1100,
           cl_JTI = ''jti_b''\<rparr>"
    using issued_token_verifies [OF laws tk refl, of "(62135596800 + 900) * second" "''d''"]
    by (simp add: unix_def TrimSpace_def is_space_def revocationDenies_def isRevoked_def demo_manager_def
        NewJWTManagerWithSecret_def)
  with tk show ?thesis by fastforce
qed

end
