(* ===== verification/SimBinding.thy ===== *)
theory SimBinding
  imports FINIX_Prelude
begin

text \<open>
  \<open>domain/security/sim_binding.go\<close>: binding challenges, their verification, the binding record
  with its bearer token (UBT) and revocation. Random values are arguments, \<open>None\<close> for a failed
  read of the random source; \<open>hm\<close> is the keyed digest HMAC-SHA256 in hex. Records are mutated
  in place in the code; nothing else aliases them, as \<open>GetBinding\<close> hands out a copy.
\<close>

section \<open>Data\<close>

definition simBindingChallengeTTL :: duration where
  "simBindingChallengeTTL = 10 * minute"

record SIMBindingRecord =
  sb_UserID :: string
  sb_MobileNumber :: string
  sb_DeviceID :: string
  sb_SIMHash :: string
  sb_UBT :: string
  sb_Verified :: bool
  sb_VerifiedAt :: time
  sb_CreatedAt :: time
  sb_LastCheckedAt :: time
  sb_RevokedAt :: "time option"

record SIMBindingChallenge =
  sc_ChallengeID :: string
  sc_UserID :: string
  sc_MobileNumber :: string
  sc_DeviceID :: string
  sc_VNNCode :: string
  sc_CreatedAt :: time
  sc_ExpiresAt :: time
  sc_Verified :: bool

record SIMBindingManager =
  sm_bindings :: "string \<rightharpoonup> SIMBindingRecord"
  sm_challenges :: "string \<rightharpoonup> SIMBindingChallenge"

datatype sim_error = SimArgsRequired | SimRandomFailed | SimChallengeNotFound | SimChallengeUsed
  | SimChallengeExpired | VNNMismatch | NoBinding | BindingRevoked | UBTMismatch | SIMMismatch

definition NewSIMBindingManager :: SIMBindingManager where
  "NewSIMBindingManager = \<lparr>sm_bindings = (\<lambda>_. None), sm_challenges = (\<lambda>_. None)\<rparr>"

section \<open>Operations\<close>

definition pruneExpiredChallenges :: "time \<Rightarrow> SIMBindingManager \<Rightarrow> SIMBindingManager" where
  "pruneExpiredChallenges now m =
     m\<lparr>sm_challenges := keep_if (\<lambda>c. \<not> sc_ExpiresAt c < now) (sm_challenges m)\<rparr>"

definition CreateBindingChallenge ::
  "string option \<Rightarrow> string option \<Rightarrow> time \<Rightarrow> string \<Rightarrow> string \<Rightarrow> string \<Rightarrow> SIMBindingManager
     \<Rightarrow> (sim_error + SIMBindingChallenge) \<times> SIMBindingManager" where
  "CreateBindingChallenge rndID rndVNN now userID mobileNumber deviceID m =
     (if userID = [] \<or> mobileNumber = [] then (Inl SimArgsRequired, m)
      else case rndID of None \<Rightarrow> (Inl SimRandomFailed, m)
      | Some challengeID \<Rightarrow>
          (case rndVNN of None \<Rightarrow> (Inl SimRandomFailed, m)
           | Some vnn \<Rightarrow>
               let ch = \<lparr>sc_ChallengeID = challengeID, sc_UserID = userID,
                          sc_MobileNumber = mobileNumber, sc_DeviceID = deviceID,
                          sc_VNNCode = ''VNN-'' @ vnn, sc_CreatedAt = now,
                          sc_ExpiresAt = now + simBindingChallengeTTL, sc_Verified = False\<rparr>;
                   m1 = pruneExpiredChallenges now m
               in (Inr ch, m1\<lparr>sm_challenges := (sm_challenges m1)(challengeID \<mapsto> ch)\<rparr>)))"

definition simHashKey :: "(string \<Rightarrow> string) \<Rightarrow> string" where
  "simHashKey getenv =
     (let k = TrimSpace (getenv ''FINIX_SIM_HASH_KEY'') in
      if k \<noteq> [] then k else TrimSpace (getenv ''FINIX_JWT_SECRET''))"

definition hashSIMICCID :: "(string \<Rightarrow> string \<Rightarrow> string) \<Rightarrow> (string \<Rightarrow> string) \<Rightarrow> string \<Rightarrow> string" where
  "hashSIMICCID hm getenv iccid = hm (simHashKey getenv) iccid"

text \<open>\<open>now1\<close> is read for the expiry test and \<open>now2\<close> for the record.\<close>

definition VerifyBindingChallenge ::
  "(string \<Rightarrow> string \<Rightarrow> string) \<Rightarrow> (string \<Rightarrow> string) \<Rightarrow> string option \<Rightarrow> time \<Rightarrow> time
     \<Rightarrow> string \<Rightarrow> string \<Rightarrow> string \<Rightarrow> SIMBindingManager
     \<Rightarrow> (sim_error + SIMBindingRecord) \<times> SIMBindingManager" where
  "VerifyBindingChallenge hm getenv rndUBT now1 now2 challengeID vnnCode simICCID m =
     (case sm_challenges m challengeID of
        None \<Rightarrow> (Inl SimChallengeNotFound, m)
      | Some ch \<Rightarrow>
          if sc_Verified ch then (Inl SimChallengeUsed, m)
          else if sc_ExpiresAt ch < now1
          then (Inl SimChallengeExpired, m\<lparr>sm_challenges := (sm_challenges m)(challengeID := None)\<rparr>)
          else if vnnCode \<noteq> sc_VNNCode ch then (Inl VNNMismatch, m)
          else let simHash = hashSIMICCID hm getenv simICCID in
            (case rndUBT of
               None \<Rightarrow> (Inl SimRandomFailed, m)
             | Some u \<Rightarrow>
                 let r = \<lparr>sb_UserID = sc_UserID ch, sb_MobileNumber = sc_MobileNumber ch,
                          sb_DeviceID = sc_DeviceID ch, sb_SIMHash = simHash, sb_UBT = ''ubt_'' @ u,
                          sb_Verified = True, sb_VerifiedAt = now2, sb_CreatedAt = now2,
                          sb_LastCheckedAt = now2, sb_RevokedAt = None\<rparr>
                 in (Inr r, m\<lparr>sm_bindings := (sm_bindings m)(sc_UserID ch \<mapsto> r),
                              sm_challenges := (sm_challenges m)(challengeID := None)\<rparr>)))"

definition VerifyUBT :: "string \<Rightarrow> string \<Rightarrow> SIMBindingManager \<Rightarrow> sim_error + bool" where
  "VerifyUBT userID ubt m =
     (case sm_bindings m userID of
        None \<Rightarrow> Inl NoBinding
      | Some r \<Rightarrow>
          if sb_RevokedAt r \<noteq> None then Inl BindingRevoked
          else if sb_UBT r \<noteq> ubt then Inl UBTMismatch
          else Inr True)"

definition ReverifySIM ::
  "time \<Rightarrow> string \<Rightarrow> string \<Rightarrow> SIMBindingManager \<Rightarrow> (sim_error + bool) \<times> SIMBindingManager" where
  "ReverifySIM now userID currentSIMHash m =
     (case sm_bindings m userID of
        None \<Rightarrow> (Inl NoBinding, m)
      | Some r \<Rightarrow>
          if sb_SIMHash r \<noteq> currentSIMHash then (Inl SIMMismatch, m)
          else (Inr True, m\<lparr>sm_bindings := (sm_bindings m)(userID \<mapsto> r\<lparr>sb_LastCheckedAt := now\<rparr>)\<rparr>))"

definition RevokeBinding ::
  "time \<Rightarrow> string \<Rightarrow> SIMBindingManager \<Rightarrow> (sim_error + unit) \<times> SIMBindingManager" where
  "RevokeBinding now userID m =
     (case sm_bindings m userID of
        None \<Rightarrow> (Inl NoBinding, m)
      | Some r \<Rightarrow> (Inr (), m\<lparr>sm_bindings :=
                       (sm_bindings m)(userID \<mapsto> r\<lparr>sb_RevokedAt := Some now, sb_UBT := []\<rparr>)\<rparr>))"

definition GetBinding :: "string \<Rightarrow> SIMBindingManager \<Rightarrow> sim_error + SIMBindingRecord" where
  "GetBinding userID m = (case sm_bindings m userID of None \<Rightarrow> Inl NoBinding | Some r \<Rightarrow> Inr r)"

definition IsBound :: "string \<Rightarrow> SIMBindingManager \<Rightarrow> bool" where
  "IsBound userID m =
     (case sm_bindings m userID of
        None \<Rightarrow> False | Some r \<Rightarrow> sb_Verified r \<and> sb_RevokedAt r = None)"

definition DetectSIMSwap :: "string \<Rightarrow> string \<Rightarrow> SIMBindingManager \<Rightarrow> bool" where
  "DetectSIMSwap userID currentSIMHash m =
     (case sm_bindings m userID of None \<Rightarrow> False | Some r \<Rightarrow> sb_SIMHash r \<noteq> currentSIMHash)"

section \<open>Runs\<close>

text \<open>The events of a manager, each with its arguments.\<close>

datatype sim_event =
    CreateEv "string option" "string option" time string string string
  | VerifyEv "string option" time time string string string
  | ReverifyEv time string string
  | RevokeEv time string

fun sim_step ::
  "(string \<Rightarrow> string \<Rightarrow> string) \<Rightarrow> (string \<Rightarrow> string) \<Rightarrow> SIMBindingManager \<Rightarrow> sim_event \<Rightarrow> SIMBindingManager" where
  "sim_step hm env m (CreateEv r1 r2 now u mob dev) = snd (CreateBindingChallenge r1 r2 now u mob dev m)"
| "sim_step hm env m (VerifyEv r t1 t2 cid vnn iccid) =
     snd (VerifyBindingChallenge hm env r t1 t2 cid vnn iccid m)"
| "sim_step hm env m (ReverifyEv t u h) = snd (ReverifySIM t u h m)"
| "sim_step hm env m (RevokeEv t u) = snd (RevokeBinding t u m)"

text \<open>The challenge a successful verification consumes.\<close>

fun sim_redeems ::
  "(string \<Rightarrow> string \<Rightarrow> string) \<Rightarrow> (string \<Rightarrow> string) \<Rightarrow> SIMBindingManager \<Rightarrow> sim_event \<Rightarrow> string option" where
  "sim_redeems hm env m (VerifyEv r t1 t2 cid vnn iccid) =
     (case fst (VerifyBindingChallenge hm env r t1 t2 cid vnn iccid m) of
        Inr _ \<Rightarrow> Some cid | Inl _ \<Rightarrow> None)"
| "sim_redeems hm env m e = None"

text \<open>The random source does not draw the id \<open>k\<close> again.\<close>

fun sim_fresh :: "SIMBindingManager \<Rightarrow> sim_event \<Rightarrow> string \<Rightarrow> bool" where
  "sim_fresh m (CreateEv r1 r2 now u mob dev) k \<longleftrightarrow> r1 \<noteq> Some k"
| "sim_fresh m e k \<longleftrightarrow> True"

lemma sim_step_challenge_gone:
  "sm_challenges m k = None \<Longrightarrow> sim_fresh m e k \<Longrightarrow> sm_challenges (sim_step hm env m e) k = None"
  by (cases e)
     (auto simp: CreateBindingChallenge_def pruneExpiredChallenges_def VerifyBindingChallenge_def
       ReverifySIM_def RevokeBinding_def Let_def keep_if_def split: option.splits)

lemma VerifyBindingChallenge_ok:
  assumes "VerifyBindingChallenge hm env r t1 t2 cid vnn iccid m = (Inr b, m')"
  shows "sm_challenges m' cid = None \<and>
         (\<exists>ch. sm_challenges m cid = Some ch \<and> t1 \<le> sc_ExpiresAt ch \<and> vnn = sc_VNNCode ch \<and>
            sm_bindings m' = (sm_bindings m)(sc_UserID ch \<mapsto> b) \<and> sb_UserID b = sc_UserID ch \<and>
            sb_MobileNumber b = sc_MobileNumber ch \<and> sb_DeviceID b = sc_DeviceID ch \<and>
            sb_SIMHash b = hashSIMICCID hm env iccid \<and> sb_RevokedAt b = None)"
  using assms
  by (auto simp: VerifyBindingChallenge_def Let_def split: option.splits if_splits)

interpretation sim: single_use "sim_step hm env" "sim_redeems hm env"
    "\<lambda>m k. sm_challenges m k = None" sim_fresh
  for hm env
proof
  fix m k e
  assume "sm_challenges m k = None" "sim_fresh m e k"
  then show "sm_challenges (sim_step hm env m e) k = None" by (rule sim_step_challenge_gone)
next
  fix m k e
  assume "sm_challenges m k = None" "sim_fresh m e k"
  then show "sim_redeems hm env m e \<noteq> Some k"
    by (cases e) (auto simp: VerifyBindingChallenge_def split: sum.splits)
next
  fix m k e
  assume "sim_redeems hm env m e = Some k"
  then show "sm_challenges (sim_step hm env m e) k = None"
    by (cases e) (auto simp: VerifyBindingChallenge_def Let_def split: option.splits if_splits sum.splits)
qed

section \<open>Properties\<close>

text \<open>
  A binding challenge is consumed by at most one successful verification in any run of the
  manager in which its id is not drawn again.
\<close>
theorem sim_challenge_single_use:
  assumes "\<forall>(t, e) \<in> set (trace (sim_step hm env) m es). sim_fresh t e k"
  shows "length (filter (\<lambda>(t, e). sim_redeems hm env t e = Some k) (trace (sim_step hm env) m es)) \<le> 1"
  using sim.redeemed_at_most_once [of hm env m es k] assms
  by (simp add: sim.allowed_def sim.redemptions_def)

definition demo_hm :: "string \<Rightarrow> string \<Rightarrow> string" where "demo_hm k x = x"
definition demo_env :: "string \<Rightarrow> string" where "demo_env x = []"

theorem sim_challenge_single_use_witness:
  "length (filter (\<lambda>(t, e). sim_redeems demo_hm demo_env t e = Some ''c1'')
     (trace (sim_step demo_hm demo_env)
        (snd (CreateBindingChallenge (Some ''c1'') (Some ''7'') 5 ''u'' ''99'' ''d'' NewSIMBindingManager))
        [VerifyEv (Some ''t'') 6 6 ''c1'' ''VNN-7'' ''89'', VerifyEv (Some ''s'') 7 7 ''c1'' ''VNN-7'' ''89''])) \<le> 1"
  by (rule sim_challenge_single_use) simp

text \<open>
  A bearer token starts to be accepted only through a verification of an unexpired challenge
  of that user with its VNN code, which stores exactly this token; and revoking the binding ends
  the acceptance of every token of the user.
\<close>
theorem UBT_only_from_verified_challenge:
  assumes "VerifyUBT u t (sim_step hm env m e) = Inr True"
  shows "(VerifyUBT u t m = Inr True \<and> (\<forall>now. e \<noteq> RevokeEv now u)) \<or>
         (\<exists>r t1 t2 cid iccid ch. e = VerifyEv (Some r) t1 t2 cid (sc_VNNCode ch) iccid \<and>
            sm_challenges m cid = Some ch \<and> sc_UserID ch = u \<and> \<not> sc_Verified ch \<and>
            t1 \<le> sc_ExpiresAt ch \<and> t = ''ubt_'' @ r)"
proof (cases e)
  case (CreateEv r1 r2 now u' mob dev)
  then have "sm_bindings (sim_step hm env m e) = sm_bindings m"
    by (simp add: CreateBindingChallenge_def pruneExpiredChallenges_def Let_def split: option.split)
  then show ?thesis using assms CreateEv by (simp add: VerifyUBT_def)
next
  case (VerifyEv r t1 t2 cid vnn iccid)
  show ?thesis
  proof (cases "VerifyUBT u t m = Inr True")
    case True
    then show ?thesis using VerifyEv by simp
  next
    case False
    then have "sm_bindings (sim_step hm env m e) u \<noteq> sm_bindings m u"
      using assms by (auto simp: VerifyUBT_def)
    then obtain ch x where ch: "sm_challenges m cid = Some ch" "\<not> sc_Verified ch" "t1 \<le> sc_ExpiresAt ch"
      "vnn = sc_VNNCode ch" "r = Some x" "sc_UserID ch = u"
      by (auto simp: VerifyEv VerifyBindingChallenge_def Let_def split: option.splits if_splits)
    then have "t = ''ubt_'' @ x"
      using assms by (auto simp: VerifyEv VerifyBindingChallenge_def VerifyUBT_def Let_def split: if_splits)
    then show ?thesis using ch VerifyEv by blast
  qed
next
  case (ReverifyEv t0 u' h)
  have "VerifyUBT u t (snd (ReverifySIM t0 u' h m)) = VerifyUBT u t m"
    by (cases "sm_bindings m u'"; cases "u = u'") (simp_all add: VerifyUBT_def ReverifySIM_def)
  then show ?thesis using assms by (simp add: ReverifyEv)
next
  case (RevokeEv t0 u')
  have "VerifyUBT u' t (snd (RevokeBinding t0 u' m)) \<noteq> Inr True"
    by (cases "sm_bindings m u'") (simp_all add: VerifyUBT_def RevokeBinding_def)
  moreover have "VerifyUBT u t (snd (RevokeBinding t0 u' m)) = VerifyUBT u t m" if "u' \<noteq> u"
    using that by (cases "sm_bindings m u'") (simp_all add: VerifyUBT_def RevokeBinding_def)
  ultimately show ?thesis using assms by (cases "u' = u") (auto simp: RevokeEv)
qed

definition demo_sim :: SIMBindingManager where
  "demo_sim = snd (CreateBindingChallenge (Some ''c1'') (Some ''7'') 5 ''u'' ''99'' ''d'' NewSIMBindingManager)"

definition demo_verify :: sim_event where
  "demo_verify = VerifyEv (Some ''t'') 6 6 ''c1'' ''VNN-7'' ''89''"

theorem UBT_only_from_verified_challenge_witness:
  "(VerifyUBT ''u'' ''ubt_t'' demo_sim = Inr True \<and> (\<forall>now. demo_verify \<noteq> RevokeEv now ''u'')) \<or>
   (\<exists>r t1 t2 cid iccid ch. demo_verify = VerifyEv (Some r) t1 t2 cid (sc_VNNCode ch) iccid \<and>
      sm_challenges demo_sim cid = Some ch \<and> sc_UserID ch = ''u'' \<and> \<not> sc_Verified ch \<and>
      t1 \<le> sc_ExpiresAt ch \<and> ''ubt_t'' = ''ubt_'' @ r)"
proof (rule UBT_only_from_verified_challenge)
  show "VerifyUBT ''u'' ''ubt_t'' (sim_step demo_hm demo_env demo_sim demo_verify) = Inr True"
    by (simp add: demo_sim_def demo_verify_def VerifyUBT_def CreateBindingChallenge_def
        pruneExpiredChallenges_def Let_def VerifyBindingChallenge_def simBindingChallengeTTL_def
        NewSIMBindingManager_def)
qed

end
