(* ===== verification/Passkey.thy ===== *)
theory Passkey
  imports FINIX_Prelude
begin

text \<open>
  \<open>domain/security/webauthn.go\<close>: passkey registrations and challenges. A verification runs in
  two phases, as in the code: a read phase that validates and snapshots under the read lock,
  the signature check on the snapshot, and a commit phase under the write lock. Between the two
  other operations may run; attempts that have passed the check wait in \<open>pending\<close>. The public
  key parser, SHA-256 and the ECDSA verification are parameters (\<open>pk_env\<close>).
\<close>

section \<open>Data\<close>

definition challengeTTL :: duration where "challengeTTL = 5 * minute"

record PasskeyRegistration =
  pr_KeyID :: string
  pr_UserID :: string
  pr_PublicKey :: string
  pr_SignCount :: int
  pr_CreatedAt :: time
  pr_LastUsedAt :: time
  pr_DeviceName :: string

record PasskeyChallenge =
  pc_ChallengeID :: string
  pc_Challenge :: string
  pc_UserID :: string
  pc_Action :: string
  pc_CreatedAt :: time
  pc_ExpiresAt :: time
  pc_Used :: bool

record PasskeyManager =
  pm_registrations :: "string \<rightharpoonup> PasskeyRegistration list"
  pm_challenges :: "string \<rightharpoonup> PasskeyChallenge"

record 'key pk_env =
  pk_parse :: "string \<Rightarrow> 'key option"
  pk_sha256 :: "string \<Rightarrow> string"
  pk_verify :: "'key \<Rightarrow> string \<Rightarrow> string \<Rightarrow> bool"

datatype pk_error = ChallengeNotFound | ChallengeExpired | ChallengeUsed | InvalidSignature
  | KeyIDNotFound | RegistrationExists | ChallengeActionMismatch | BadPublicKey | PkRandomFailed

definition NewPasskeyManager :: PasskeyManager where
  "NewPasskeyManager = \<lparr>pm_registrations = (\<lambda>_. None), pm_challenges = (\<lambda>_. None)\<rparr>"

section \<open>Challenges\<close>

definition pruneChallenges :: "time \<Rightarrow> PasskeyManager \<Rightarrow> PasskeyManager" where
  "pruneChallenges now pm = pm\<lparr>pm_challenges := keep_if (\<lambda>c. \<not> pc_ExpiresAt c < now) (pm_challenges pm)\<rparr>"

definition CreateChallengeForAction ::
  "string option \<Rightarrow> string option \<Rightarrow> time \<Rightarrow> string \<Rightarrow> string \<Rightarrow> PasskeyManager
     \<Rightarrow> (pk_error + PasskeyChallenge) \<times> PasskeyManager" where
  "CreateChallengeForAction rndBytes rndID now userID action pm =
     (case rndBytes of None \<Rightarrow> (Inl PkRandomFailed, pm)
      | Some bytes \<Rightarrow>
          (case rndID of None \<Rightarrow> (Inl PkRandomFailed, pm)
           | Some cid \<Rightarrow>
               let ch = \<lparr>pc_ChallengeID = cid, pc_Challenge = bytes, pc_UserID = userID,
                          pc_Action = action, pc_CreatedAt = now,
                          pc_ExpiresAt = now + challengeTTL, pc_Used = False\<rparr>;
                   pm1 = pruneChallenges now pm
               in (Inr ch, pm1\<lparr>pm_challenges := (pm_challenges pm1)(cid \<mapsto> ch)\<rparr>)))"

definition CreateChallenge ::
  "string option \<Rightarrow> string option \<Rightarrow> time \<Rightarrow> string \<Rightarrow> PasskeyManager
     \<Rightarrow> (pk_error + PasskeyChallenge) \<times> PasskeyManager" where
  "CreateChallenge rndBytes rndID now userID pm = CreateChallengeForAction rndBytes rndID now userID [] pm"

section \<open>Verification\<close>

text \<open>What the read phase hands to the signature check: public key, challenge bytes, bound action.\<close>

definition read_phase ::
  "time \<Rightarrow> string \<Rightarrow> string \<Rightarrow> string \<Rightarrow> string \<Rightarrow> PasskeyManager
     \<Rightarrow> pk_error + string \<times> string \<times> string" where
  "read_phase now userID challengeID keyID expectedAction pm =
     (case pm_challenges pm challengeID of
        None \<Rightarrow> Inl ChallengeNotFound
      | Some ch \<Rightarrow>
          if pc_Used ch then Inl ChallengeUsed
          else if pc_ExpiresAt ch < now then Inl ChallengeExpired
          else if pc_UserID ch \<noteq> userID then Inl InvalidSignature
          else if expectedAction \<noteq> [] \<and> pc_Action ch \<noteq> expectedAction then Inl ChallengeActionMismatch
          else case find (\<lambda>r. pr_KeyID r = keyID) (get_list (pm_registrations pm) userID) of
                 None \<Rightarrow> Inl KeyIDNotFound
               | Some reg \<Rightarrow> Inr (pr_PublicKey reg, pc_Challenge ch, pc_Action ch))"

definition signed_bytes :: "string \<Rightarrow> string \<Rightarrow> string" where
  "signed_bytes challengeBytes boundAction =
     (if boundAction \<noteq> [] then challengeBytes @ CHR 0x00 # boundAction else challengeBytes)"

definition check_signature ::
  "'key pk_env \<Rightarrow> string \<Rightarrow> string \<times> string \<times> string \<Rightarrow> pk_error + bool" where
  "check_signature env signature snap =
     (case snap of (pubKeyDER, challengeBytes, boundAction) \<Rightarrow>
        (case pk_parse env pubKeyDER of
           None \<Rightarrow> Inl BadPublicKey
         | Some pubKey \<Rightarrow>
             Inr (pk_verify env pubKey (pk_sha256 env (signed_bytes challengeBytes boundAction)) signature)))"

definition commit_phase ::
  "time \<Rightarrow> string \<Rightarrow> string \<Rightarrow> string \<Rightarrow> PasskeyManager \<Rightarrow> (pk_error + bool) \<times> PasskeyManager" where
  "commit_phase now userID challengeID keyID pm =
     (case pm_challenges pm challengeID of
        None \<Rightarrow> (Inl ChallengeUsed, pm)
      | Some cur \<Rightarrow>
          if pc_Used cur then (Inl ChallengeUsed, pm)
          else
            let chs = (pm_challenges pm)(challengeID \<mapsto> cur\<lparr>pc_Used := True\<rparr>);
                regs = (case pm_registrations pm userID of
                          None \<Rightarrow> pm_registrations pm
                        | Some rs \<Rightarrow> (pm_registrations pm)(userID \<mapsto>
                            update_first (\<lambda>r. pr_KeyID r = keyID)
                              (\<lambda>r. r\<lparr>pr_SignCount := (pr_SignCount r + 1) mod 2 ^ 32,
                                     pr_LastUsedAt := now\<rparr>) rs))
            in (Inr True, \<lparr>pm_registrations = regs, pm_challenges = chs\<rparr>))"

text \<open>A verification that is not interrupted between its phases.\<close>

definition VerifyChallengeForAction ::
  "'key pk_env \<Rightarrow> time \<Rightarrow> time \<Rightarrow> string \<Rightarrow> string \<Rightarrow> string \<Rightarrow> string \<Rightarrow> string \<Rightarrow> PasskeyManager
     \<Rightarrow> (pk_error + bool) \<times> PasskeyManager" where
  "VerifyChallengeForAction env now1 now2 userID challengeID signature keyID expectedAction pm =
     (case read_phase now1 userID challengeID keyID expectedAction pm of
        Inl e \<Rightarrow> (Inl e, pm)
      | Inr snap \<Rightarrow>
          (case check_signature env signature snap of
             Inl e \<Rightarrow> (Inl e, pm)
           | Inr valid \<Rightarrow>
               if \<not> valid then (Inr False, pm)
               else commit_phase now2 userID challengeID keyID pm))"

definition VerifyChallenge ::
  "'key pk_env \<Rightarrow> time \<Rightarrow> time \<Rightarrow> string \<Rightarrow> string \<Rightarrow> string \<Rightarrow> string \<Rightarrow> PasskeyManager
     \<Rightarrow> (pk_error + bool) \<times> PasskeyManager" where
  "VerifyChallenge env now1 now2 userID challengeID signature keyID pm =
     VerifyChallengeForAction env now1 now2 userID challengeID signature keyID [] pm"

section \<open>Registrations\<close>

definition Register ::
  "time \<Rightarrow> string \<Rightarrow> string \<Rightarrow> string \<Rightarrow> string \<Rightarrow> PasskeyManager \<Rightarrow> (pk_error + unit) \<times> PasskeyManager" where
  "Register now userID keyID deviceName publicKey pm =
     (if list_ex (\<lambda>reg. pr_KeyID reg = keyID) (get_list (pm_registrations pm) userID)
      then (Inl RegistrationExists, pm)
      else (Inr (), pm\<lparr>pm_registrations := (pm_registrations pm)(userID \<mapsto>
              get_list (pm_registrations pm) userID @
              [\<lparr>pr_KeyID = keyID, pr_UserID = userID, pr_PublicKey = publicKey, pr_SignCount = 0,
                pr_CreatedAt = now, pr_LastUsedAt = 0, pr_DeviceName = deviceName\<rparr>])\<rparr>))"

definition ListRegistrations :: "string \<Rightarrow> PasskeyManager \<Rightarrow> PasskeyRegistration list" where
  "ListRegistrations userID pm = get_list (pm_registrations pm) userID"

fun remove_key :: "string \<Rightarrow> PasskeyRegistration list \<Rightarrow> PasskeyRegistration list option" where
  "remove_key keyID [] = None"
| "remove_key keyID (reg # regs) =
     (if pr_KeyID reg = keyID then Some regs else map_option ((#) reg) (remove_key keyID regs))"

definition RemoveRegistration ::
  "string \<Rightarrow> string \<Rightarrow> PasskeyManager \<Rightarrow> (pk_error + unit) \<times> PasskeyManager" where
  "RemoveRegistration userID keyID pm =
     (case remove_key keyID (get_list (pm_registrations pm) userID) of
        None \<Rightarrow> (Inl KeyIDNotFound, pm)
      | Some regs \<Rightarrow> (Inr (), pm\<lparr>pm_registrations := (pm_registrations pm)(userID \<mapsto> regs)\<rparr>))"

definition HasRegistration :: "string \<Rightarrow> PasskeyManager \<Rightarrow> bool" where
  "HasRegistration userID pm \<longleftrightarrow> 0 < length (get_list (pm_registrations pm) userID)"

section \<open>Interleaved runs\<close>

text \<open>
  An attempt that has passed the signature check: user, challenge and key. \<open>Begin\<close> is a read
  phase with its check, \<open>Commit i\<close> lets the \<open>i\<close>-th waiting attempt run its commit phase.
\<close>

type_synonym attempt = "string \<times> string \<times> string"

datatype pk_event =
    NewChallenge "string option" "string option" time string string
  | Begin time string string string string string
  | Commit time nat
  | AddKey time string string string string
  | DropKey string string

type_synonym pk_state = "PasskeyManager \<times> attempt list"

fun pk_step :: "'key pk_env \<Rightarrow> pk_state \<Rightarrow> pk_event \<Rightarrow> pk_state" where
  "pk_step env (pm, pend) (NewChallenge r1 r2 now u a) =
     (snd (CreateChallengeForAction r1 r2 now u a pm), pend)"
| "pk_step env (pm, pend) (Begin now u cid sig kid act) =
     (case read_phase now u cid kid act pm of
        Inr snap \<Rightarrow> if check_signature env sig snap = Inr True then (pm, pend @ [(u, cid, kid)]) else (pm, pend)
      | Inl _ \<Rightarrow> (pm, pend))"
| "pk_step env (pm, pend) (Commit now i) =
     (if i < length pend
      then case pend ! i of (u, cid, kid) \<Rightarrow>
             (snd (commit_phase now u cid kid pm), take i pend @ drop (Suc i) pend)
      else (pm, pend))"
| "pk_step env (pm, pend) (AddKey now u kid dev pk) = (snd (Register now u kid dev pk pm), pend)"
| "pk_step env (pm, pend) (DropKey u kid) = (snd (RemoveRegistration u kid pm), pend)"

text \<open>The challenge that an event's commit phase consumes.\<close>

fun pk_consumes :: "pk_state \<Rightarrow> pk_event \<Rightarrow> string option" where
  "pk_consumes (pm, pend) (Commit now i) =
     (if i < length pend
      then case pend ! i of (u, cid, kid) \<Rightarrow>
             (if fst (commit_phase now u cid kid pm) = Inr True then Some cid else None)
      else None)"
| "pk_consumes s e = None"

fun pk_fresh :: "pk_state \<Rightarrow> pk_event \<Rightarrow> string \<Rightarrow> bool" where
  "pk_fresh s (NewChallenge r1 r2 now u a) k \<longleftrightarrow> r2 \<noteq> Some k"
| "pk_fresh s e k \<longleftrightarrow> True"

definition pk_spent :: "pk_state \<Rightarrow> string \<Rightarrow> bool" where
  "pk_spent s k \<longleftrightarrow> (case pm_challenges (fst s) k of None \<Rightarrow> True | Some ch \<Rightarrow> pc_Used ch)"

lemma commit_consumes:
  "fst (commit_phase now u cid kid pm) = Inr True \<longleftrightarrow>
     (\<exists>ch. pm_challenges pm cid = Some ch \<and> \<not> pc_Used ch)"
  by (auto simp: commit_phase_def Let_def split: option.splits)

lemma commit_challenges:
  "pm_challenges (snd (commit_phase now u cid kid pm)) k =
     (if k = cid then map_option (\<lambda>ch. ch\<lparr>pc_Used := True\<rparr>) (pm_challenges pm k) else pm_challenges pm k)"
  by (auto simp: commit_phase_def Let_def split: option.splits)

lemma registrations_frame [simp]:
  "pm_challenges (snd (Register now u kid dev pk pm)) = pm_challenges pm"
  "pm_challenges (snd (RemoveRegistration u kid pm)) = pm_challenges pm"
  by (auto simp: Register_def RemoveRegistration_def split: option.splits)

lemma pk_step_spent: "pk_spent s k \<Longrightarrow> pk_fresh s e k \<Longrightarrow> pk_spent (pk_step env s e) k"
  by (cases s; cases e)
     (auto simp: pk_spent_def CreateChallengeForAction_def pruneChallenges_def keep_if_def Let_def
       commit_challenges split: option.splits sum.splits prod.splits)

interpretation passkey: single_use "pk_step env" pk_consumes pk_spent pk_fresh
  for env
proof
  fix s k e
  assume "pk_spent s k" "pk_fresh s e k"
  then show "pk_consumes s e \<noteq> Some k"
    by (cases s; cases e) (auto simp: pk_spent_def commit_consumes split: option.splits prod.splits)
next
  fix s k e
  assume "pk_consumes s e = Some k" "pk_fresh s e k"
  then show "pk_spent (pk_step env s e) k"
    by (cases s; cases e)
       (auto simp: pk_spent_def commit_challenges commit_consumes split: if_splits option.splits prod.splits)
next
  fix s k e
  assume "pk_spent s k" "pk_fresh s e k"
  then show "pk_spent (pk_step env s e) k" by (rule pk_step_spent)
qed

section \<open>Properties\<close>

text \<open>
  C10: a passkey challenge authorises at most once: however the phases of concurrent
  verifications interleave with each other and with other operations, at most one commit phase
  for the challenge succeeds, as long as its id is not drawn again.
\<close>
theorem passkey_challenge_single_use:
  assumes "\<forall>(t, e) \<in> set (trace (pk_step env) s es). pk_fresh t e k"
  shows "length (filter (\<lambda>(t, e). pk_consumes t e = Some k) (trace (pk_step env) s es)) \<le> 1"
  using passkey.redeemed_at_most_once [of env s es k] assms
  by (simp add: passkey.allowed_def passkey.redemptions_def)

definition demo_pk :: "unit pk_env" where
  "demo_pk = \<lparr>pk_parse = (\<lambda>_. Some ()), pk_sha256 = (\<lambda>x. x), pk_verify = (\<lambda>_ d s. d = s)\<rparr>"

theorem passkey_challenge_single_use_witness:
  "length (filter (\<lambda>(t, e). pk_consumes t e = Some ''c'')
     (trace (pk_step demo_pk)
        (snd (CreateChallenge (Some ''xx'') (Some ''c'') 1 ''u'' (snd (Register 0 ''u'' ''k'' ''phone'' ''pub''
           NewPasskeyManager))), [])
        [Begin 2 ''u'' ''c'' ''xx'' ''k'' [], Begin 3 ''u'' ''c'' ''xx'' ''k'' [], Commit 4 0, Commit 5 0])) \<le> 1"
  by (rule passkey_challenge_single_use) auto

text \<open>
  A verification succeeds exactly when the challenge exists, is unused and not expired, was
  issued to this user and, if an action is demanded, for that action, the user has the key
  registered, and the signature over the challenge bytes and the action it was issued for
  verifies under that key; success marks the challenge used.
\<close>
theorem VerifyChallengeForAction_iff:
  "fst (VerifyChallengeForAction env now1 now2 u cid sig kid act pm) = Inr True \<longleftrightarrow>
     (\<exists>ch reg key.
        pm_challenges pm cid = Some ch \<and> \<not> pc_Used ch \<and> now1 \<le> pc_ExpiresAt ch \<and>
        pc_UserID ch = u \<and> (act = [] \<or> pc_Action ch = act) \<and>
        find (\<lambda>r. pr_KeyID r = kid) (ListRegistrations u pm) = Some reg \<and>
        pk_parse env (pr_PublicKey reg) = Some key \<and>
        pk_verify env key (pk_sha256 env (signed_bytes (pc_Challenge ch) (pc_Action ch))) sig \<and>
        pm_challenges (snd (VerifyChallengeForAction env now1 now2 u cid sig kid act pm)) cid
          = Some (ch\<lparr>pc_Used := True\<rparr>))"
proof -
  have commit: "fst (commit_phase now2 u cid kid pm) = Inr True \<and>
      pm_challenges (snd (commit_phase now2 u cid kid pm)) cid = Some (ch\<lparr>pc_Used := True\<rparr>)"
    if "pm_challenges pm cid = Some ch" "\<not> pc_Used ch" for ch
    using that by (simp add: commit_phase_def Let_def)
  show ?thesis
  proof (cases "read_phase now1 u cid kid act pm")
    case (Inl e)
    then show ?thesis
      by (auto simp: VerifyChallengeForAction_def read_phase_def ListRegistrations_def
          split: option.splits if_splits)
  next
    case (Inr snap)
    then obtain ch reg where ch: "pm_challenges pm cid = Some ch" "\<not> pc_Used ch" "now1 \<le> pc_ExpiresAt ch"
      "pc_UserID ch = u" "act = [] \<or> pc_Action ch = act"
      "find (\<lambda>r. pr_KeyID r = kid) (ListRegistrations u pm) = Some reg"
      "snap = (pr_PublicKey reg, pc_Challenge ch, pc_Action ch)"
      by (auto simp: read_phase_def ListRegistrations_def split: option.splits if_splits)
    note c = commit [OF ch(1,2)]
    have eq: "VerifyChallengeForAction env now1 now2 u cid sig kid act pm =
        (case check_signature env sig snap of
           Inl e \<Rightarrow> (Inl e, pm)
         | Inr valid \<Rightarrow> if \<not> valid then (Inr False, pm) else commit_phase now2 u cid kid pm)"
      using Inr by (simp add: VerifyChallengeForAction_def)
    show ?thesis
      using ch c by (auto simp: eq check_signature_def split: option.splits)
  qed
qed

end
