(* ===== verification/Float64.thy ===== *)
theory Float64
  imports Complex_Main FINIX_Prelude
begin

text \<open>
  Go's \<open>float64\<close>. A finite value is the rational it denotes and an arithmetic operation is the
  exact operation followed by \<open>fl\<close>, rounding to nearest with ties to even at 53 significant
  bits (and at the fixed scale of the subnormals). Overflow to infinity is left out of \<open>fl\<close>:
  the code's magnitudes stay far below \<open>2 ^ 1023\<close>. \<open>float64\<close> adds the special values for the
  places that test for them. The lemmas give what the components use: \<open>fl\<close> is monotone, exact
  on the integers up to \<open>2 ^ 53\<close>, and therefore keeps a value inside integer bounds.
\<close>

section \<open>The binary exponent\<close>

definition pow2 :: "int \<Rightarrow> rat" where
  "pow2 e = (if 0 \<le> e then 2 ^ nat e else 1 / 2 ^ nat (- e))"

lemma pow2_pos [simp]: "0 < pow2 e"
  by (simp add: pow2_def)

lemma pow2_add_nat: "pow2 (e + int k) = pow2 e * 2 ^ k"
proof -
  consider "0 \<le> e" | "e < 0" "0 \<le> e + int k" | "e + int k < 0" by linarith
  then show ?thesis
  proof cases
    case 1
    then show ?thesis by (simp add: pow2_def nat_add_distrib power_add)
  next
    case 2
    then have "k = nat (- e) + nat (e + int k)" by linarith
    then have "(2 :: rat) ^ k = 2 ^ nat (- e) * 2 ^ nat (e + int k)" by (metis power_add)
    with 2 show ?thesis by (simp add: pow2_def)
  next
    case 3
    then have "nat (- e) = k + nat (- (e + int k))" by linarith
    then have "(2 :: rat) ^ nat (- e) = 2 ^ k * 2 ^ nat (- (e + int k))" by (metis power_add)
    with 3 show ?thesis by (simp add: pow2_def)
  qed
qed

lemma pow2_le: "a \<le> b \<Longrightarrow> pow2 a \<le> pow2 b"
  using pow2_add_nat [of a "nat (b - a)"] by simp

lemma pow2_less_iff: "pow2 a < pow2 b \<longleftrightarrow> a < b"
proof
  assume "pow2 a < pow2 b"
  then show "a < b" using pow2_le [of b a] by force
next
  assume "a < b"
  then have "pow2 (a + 1) \<le> pow2 b" by (intro pow2_le) simp
  moreover have "pow2 (a + 1) = 2 * pow2 a" using pow2_add_nat [of a 1] by simp
  ultimately show "pow2 a < pow2 b" using pow2_pos [of a] by linarith
qed

function bits :: "int \<Rightarrow> int" where
  "bits n = (if n \<le> 0 then 0 else bits (n div 2) + 1)"
  by pat_completeness auto

termination bits
  by (relation "measure nat") auto

declare bits.simps [simp del]

lemma bits_nonneg: "0 \<le> bits n"
proof (induction n rule: bits.induct)
  case (1 n)
  then show ?case by (cases "n \<le> 0") (simp_all add: bits.simps [of n])
qed

lemma bits_Suc: "0 < n \<Longrightarrow> nat (bits n) = Suc (nat (bits (n div 2)))"
  using bits_nonneg [of "n div 2"] by (simp add: bits.simps [of n] nat_add_distrib)

lemma bits_power: "0 < n \<Longrightarrow> (2 :: int) ^ nat (bits n) = 2 * 2 ^ nat (bits (n div 2))"
  by (simp only: bits_Suc power_Suc)

lemma bits_upper: "n < 2 ^ nat (bits n)"
proof (induction n rule: bits.induct)
  case (1 n)
  show ?case
  proof (cases "n \<le> 0")
    case True
    then show ?thesis by (simp add: bits.simps [of n])
  next
    case False
    with 1 have "n div 2 < 2 ^ nat (bits (n div 2))" by simp
    moreover have "(2 :: int) ^ nat (bits n) = 2 * 2 ^ nat (bits (n div 2))"
      using False by (intro bits_power) simp
    ultimately show ?thesis by linarith
  qed
qed

lemma bits_lower: "0 < n \<Longrightarrow> 2 ^ nat (bits n) \<le> 2 * n"
proof (induction n rule: bits.induct)
  case (1 n)
  show ?case
  proof (cases "n = 1")
    case True
    then show ?thesis by (simp add: bits.simps)
  next
    case False
    with 1 have "2 ^ nat (bits (n div 2)) \<le> 2 * (n div 2)" by simp
    with bits_power [OF "1.prems"] show ?thesis by linarith
  qed
qed

definition exponent :: "rat \<Rightarrow> int" where
  "exponent x = (case quotient_of x of (n, d) \<Rightarrow>
     let e = bits n - bits d in if pow2 e \<le> x then e else e - 1)"

lemma exponent_bounds:
  assumes "0 < x"
  shows "pow2 (exponent x) \<le> x" and "x < pow2 (exponent x + 1)"
proof -
  obtain n d where q: "quotient_of x = (n, d)" by fastforce
  then have d: "0 < d" by (rule quotient_of_denom_pos)
  have x: "x = of_int n / of_int d" using quotient_of_div [OF q] .
  with assms d have n: "0 < n" by (simp add: zero_less_divide_iff)
  define b c where "b = nat (bits n)" and "c = nat (bits d)"
  then have bc: "bits n = int b" "bits d = int c" by (simp_all add: bits_nonneg)
  have nb: "n < 2 ^ b" "2 ^ b \<le> 2 * n" and dc: "d < 2 ^ c" "2 ^ c \<le> 2 * d"
    using bits_upper [of n] bits_upper [of d] bits_lower [OF n] bits_lower [OF d] by (simp_all add: b_def c_def)
  have r: "(of_int n :: rat) < 2 ^ b" "(2 :: rat) ^ b \<le> 2 * of_int n"
      "(of_int d :: rat) < 2 ^ c" "(2 :: rat) ^ c \<le> 2 * of_int d"
    using of_int_less_iff [where 'a = rat, THEN iffD2, OF nb(1)] of_int_le_iff [where 'a = rat, THEN iffD2, OF nb(2)]
      of_int_less_iff [where 'a = rat, THEN iffD2, OF dc(1)] of_int_le_iff [where 'a = rat, THEN iffD2, OF dc(2)]
    by simp_all
  have e: "pow2 (int b - int c) * 2 ^ c = 2 ^ b"
    using pow2_add_nat [of "int b - int c" c] by (simp add: pow2_def)
  have upper: "x < pow2 (int b - int c + 1)"
  proof -
    have "of_int n * 2 ^ c < 2 ^ b * (2 * (of_int d :: rat))"
      using r n d by (intro mult_less_le_imp_less) auto
    then have "x < 2 * 2 ^ b / 2 ^ c" using d by (simp add: x field_simps)
    also have "\<dots> = 2 * pow2 (int b - int c)" using e by (simp add: field_simps)
    also have "\<dots> = pow2 (int b - int c + 1)" using pow2_add_nat [of "int b - int c" 1] by simp
    finally show ?thesis .
  qed
  have lower: "pow2 (int b - int c - 1) \<le> x"
  proof -
    have "2 ^ b * of_int d \<le> 2 * of_int n * (2 ^ c :: rat)"
      using r n d by (intro mult_mono) auto
    then have "2 ^ b / 2 ^ c \<le> 2 * x" using d by (simp add: x field_simps)
    moreover have "pow2 (int b - int c) = 2 * pow2 (int b - int c - 1)"
      using pow2_add_nat [of "int b - int c - 1" 1] by simp
    moreover have "2 ^ b / 2 ^ c = pow2 (int b - int c)" using e by (simp add: field_simps)
    ultimately show ?thesis by linarith
  qed
  show "pow2 (exponent x) \<le> x" and "x < pow2 (exponent x + 1)"
    using upper lower by (auto simp: exponent_def q bc Let_def)
qed

lemma exponent_mono:
  assumes "0 < x" and "x \<le> y"
  shows "exponent x \<le> exponent y"
proof -
  have "pow2 (exponent x) < pow2 (exponent y + 1)"
    using exponent_bounds [of x] exponent_bounds [of y] assms by linarith
  then show ?thesis by (simp add: pow2_less_iff)
qed

section \<open>Rounding\<close>

definition round_even :: "rat \<Rightarrow> int" where
  "round_even x = (let f = \<lfloor>x\<rfloor>; r = x - of_int f in
     if r < 1 / 2 then f else if r > 1 / 2 then f + 1 else if even f then f else f + 1)"

lemma round_even_of_int [simp]: "round_even (of_int n) = n"
  by (simp add: round_even_def)

lemma round_even_bounds: "\<lfloor>x\<rfloor> \<le> round_even x" "round_even x \<le> \<lfloor>x\<rfloor> + 1"
  by (simp_all add: round_even_def Let_def)

lemma round_even_mono:
  assumes "x \<le> y"
  shows "round_even x \<le> round_even y"
proof (cases "\<lfloor>x\<rfloor> = \<lfloor>y\<rfloor>")
  case True
  with assms show ?thesis by (auto simp: round_even_def Let_def)
next
  case False
  with floor_mono [OF assms] show ?thesis
    using round_even_bounds [of x] round_even_bounds [of y] by linarith
qed

definition ulp :: "rat \<Rightarrow> rat" where
  "ulp x = pow2 (max (exponent x) (- 1022) - 52)"

definition fl_pos :: "rat \<Rightarrow> rat" where
  "fl_pos x = of_int (round_even (x / ulp x)) * ulp x"

definition fl :: "rat \<Rightarrow> rat" where
  "fl x = (if x = 0 then 0 else if 0 < x then fl_pos x else - fl_pos (- x))"

lemma ulp_pos [simp]: "0 < ulp x"
  by (simp add: ulp_def)

lemma fl_pos_nonneg: "0 < x \<Longrightarrow> 0 \<le> fl_pos x"
proof -
  assume "0 < x"
  then have "0 \<le> x / ulp x" by (simp add: less_imp_le)
  then have "0 \<le> \<lfloor>x / ulp x\<rfloor>" by (simp only: zero_le_floor)
  with round_even_bounds(1) [of "x / ulp x"] have "0 \<le> round_even (x / ulp x)" by linarith
  then show ?thesis by (simp add: fl_pos_def less_imp_le)
qed

text \<open>A multiple of the spacing is representable, and rounding does not pass it.\<close>

lemma fl_pos_le_multiple: "x \<le> of_int k * ulp x \<Longrightarrow> fl_pos x \<le> of_int k * ulp x"
  using round_even_mono [of "x / ulp x" "of_int k"] by (simp add: fl_pos_def field_simps)

lemma fl_pos_ge_multiple: "of_int k * ulp x \<le> x \<Longrightarrow> of_int k * ulp x \<le> fl_pos x"
  using round_even_mono [of "of_int k" "x / ulp x"] by (simp add: fl_pos_def field_simps)

lemma pow2_multiple:
  assumes "max (exponent x) (- 1022) - 52 \<le> e"
  obtains k :: int where "pow2 e = of_int k * ulp x"
proof -
  have "pow2 e = ulp x * 2 ^ nat (e - (max (exponent x) (- 1022) - 52))"
    using pow2_add_nat [of "max (exponent x) (- 1022) - 52" "nat (e - (max (exponent x) (- 1022) - 52))"]
      assms by (simp add: ulp_def)
  then have "pow2 e = of_int (2 ^ nat (e - (max (exponent x) (- 1022) - 52))) * ulp x"
    by (simp add: mult.commute)
  then show thesis by (rule that)
qed

lemma fl_pos_mono:
  assumes "0 < x" and "x \<le> y"
  shows "fl_pos x \<le> fl_pos y"
proof (cases "max (exponent x) (- 1022) = max (exponent y) (- 1022)")
  case True
  then have "ulp x = ulp y" by (simp add: ulp_def)
  with assms show ?thesis
    using round_even_mono [OF divide_right_mono [OF assms(2)], of "ulp y"]
    by (simp add: fl_pos_def less_imp_le)
next
  case False
  let ?e = "exponent y"
  have e: "exponent x \<le> ?e" using exponent_mono [OF assms] .
  with False have lt: "exponent x < ?e" and low: "- 1022 < ?e" by linarith+
  have y: "pow2 ?e \<le> y" using exponent_bounds(1) [of y] assms by simp
  have "x < pow2 (exponent x + 1)" using exponent_bounds(2) [of x] assms by simp
  also have "\<dots> \<le> pow2 ?e" using lt by (intro pow2_le) simp
  finally have x: "x \<le> pow2 ?e" by simp
  obtain k where k: "pow2 ?e = of_int k * ulp x" using pow2_multiple [of x ?e] lt low by fastforce
  obtain l where l: "pow2 ?e = of_int l * ulp y" using pow2_multiple [of y ?e] low by fastforce
  have "fl_pos x \<le> pow2 ?e" using x fl_pos_le_multiple [of x k] by (simp add: k)
  also have "\<dots> \<le> fl_pos y" using y fl_pos_ge_multiple [of l y] by (simp add: l)
  finally show ?thesis .
qed

lemma fl_mono: "x \<le> y \<Longrightarrow> fl x \<le> fl y"
  using fl_pos_mono [of x y] fl_pos_mono [of "- y" "- x"] fl_pos_nonneg [of y] fl_pos_nonneg [of "- x"]
  by (auto simp: fl_def)

lemma fl_0 [simp]: "fl 0 = 0"
  by (simp add: fl_def)

lemma fl_minus: "fl (- x) = - fl x"
  by (simp add: fl_def)

lemma fl_pos_of_int:
  assumes "0 < n" and "n \<le> 2 ^ 53"
  shows "fl_pos (of_int n) = of_int n"
proof -
  let ?e = "exponent (of_int n)"
  have lo: "pow2 0 \<le> (of_int n :: rat)" using assms by (simp add: pow2_def)
  have "pow2 ?e \<le> (of_int n :: rat)" using exponent_bounds(1) [of "of_int n"] assms by simp
  also have "(of_int n :: rat) \<le> of_int (2 ^ 53)" using assms(2) by (simp only: of_int_le_iff)
  also have "\<dots> = pow2 53" by (simp add: pow2_def)
  finally have hi: "?e \<le> 53" using pow2_less_iff [of 53 ?e] by linarith
  have "pow2 0 < pow2 (?e + 1)" using lo exponent_bounds(2) [of "of_int n"] assms by simp
  then have "0 \<le> ?e" using pow2_less_iff by simp
  then have ulp: "ulp (of_int n) = pow2 (?e - 52)" by (simp add: ulp_def)
  show ?thesis
  proof (cases "?e = 53")
    case True
    then have "pow2 53 \<le> (of_int n :: rat)" using exponent_bounds(1) [of "of_int n"] assms by simp
    then have "(of_int (2 ^ 53) :: rat) \<le> of_int n" by (simp add: pow2_def)
    then have "n = 2 ^ 53" using assms(2) by (simp only: of_int_le_iff)
    moreover have "ulp (of_int n) = 2" using True by (simp only: ulp) (simp add: pow2_def)
    ultimately have "(of_int n :: rat) = of_int (2 ^ 52) * ulp (of_int n)" by simp
    then show ?thesis by (metis antisym fl_pos_ge_multiple fl_pos_le_multiple order_refl)
  next
    case False
    with hi have "pow2 (?e - 52) = 1 / 2 ^ nat (52 - ?e)" by (auto simp: pow2_def)
    then have "(of_int n :: rat) = of_int (n * 2 ^ nat (52 - ?e)) * ulp (of_int n)"
      by (simp add: ulp)
    then show ?thesis by (metis antisym fl_pos_ge_multiple fl_pos_le_multiple order_refl)
  qed
qed

lemma fl_of_int: "\<bar>n\<bar> \<le> 2 ^ 53 \<Longrightarrow> fl (of_int n) = of_int n"
  using fl_pos_of_int [of n] fl_pos_of_int [of "- n"] by (auto simp: fl_def)

lemma fl_numeral: "numeral n \<le> (2 :: int) ^ 53 \<Longrightarrow> fl (numeral n) = numeral n"
  using fl_of_int [of "numeral n"] by simp

lemma fl_1 [simp]: "fl 1 = 1"
  using fl_of_int [of 1] by simp

lemma fl_range:
  assumes "of_int a \<le> x" and "x \<le> of_int b" and "\<bar>a\<bar> \<le> 2 ^ 53" and "\<bar>b\<bar> \<le> 2 ^ 53"
  shows "of_int a \<le> fl x" and "fl x \<le> of_int b"
  using fl_mono [OF assms(1)] fl_mono [OF assms(2)] assms(3, 4) by (simp_all add: fl_of_int)

lemma fl_nonneg: "0 \<le> x \<Longrightarrow> 0 \<le> fl x"
  using fl_mono [of 0 x] by simp

lemma fl_unit: "0 \<le> x \<Longrightarrow> x \<le> 1 \<Longrightarrow> 0 \<le> fl x \<and> fl x \<le> 1"
  using fl_range [of 0 x 1] by simp

text \<open>Rounding twice changes nothing: a rounded value is a multiple of its own spacing.\<close>

lemma fl_pos_multiple: "y = of_int k * ulp y \<Longrightarrow> fl_pos y = y"
  by (metis antisym fl_pos_ge_multiple fl_pos_le_multiple order_refl)

lemma ulp_multiple:
  assumes "max (exponent y) (- 1022) \<le> max (exponent x) (- 1022)"
  obtains k :: int where "ulp x = of_int k * ulp y"
  using pow2_multiple [of y "max (exponent x) (- 1022) - 52"] assms
  by (auto simp: ulp_def)

lemma fl_pos_idem:
  assumes x: "0 < x" and pos: "0 < fl_pos x"
  shows "fl_pos (fl_pos x) = fl_pos x"
proof (cases "max (exponent (fl_pos x)) (- 1022) \<le> max (exponent x) (- 1022)")
  case True
  then obtain k where "ulp x = of_int k * ulp (fl_pos x)" by (rule ulp_multiple)
  then have "fl_pos x = of_int (round_even (x / ulp x) * k) * ulp (fl_pos x)"
    by (simp add: fl_pos_def [of x])
  then show ?thesis by (rule fl_pos_multiple)
next
  case False
  let ?y = "fl_pos x"
  from False have lt: "exponent x + 1 \<le> exponent ?y" and low: "- 1022 < exponent ?y" by linarith+
  have "x \<le> pow2 (exponent x + 1)" using exponent_bounds(2) [OF x] by simp
  also have "\<dots> \<le> pow2 (exponent ?y)" using lt by (rule pow2_le)
  finally have le: "x \<le> pow2 (exponent ?y)" .
  obtain k where k: "pow2 (exponent ?y) = of_int k * ulp x"
    using pow2_multiple [of x "exponent ?y"] lt low by fastforce
  have "?y \<le> pow2 (exponent ?y)" using le fl_pos_le_multiple [of x k] by (simp add: k)
  with exponent_bounds(1) [OF pos] have y: "?y = pow2 (exponent ?y)" by simp
  obtain l where "pow2 (exponent ?y) = of_int l * ulp ?y"
    using pow2_multiple [of ?y "exponent ?y"] low by fastforce
  with y have "?y = of_int l * ulp ?y" by simp
  then show ?thesis by (rule fl_pos_multiple)
qed

lemma fl_idem [simp]: "fl (fl x) = fl x"
proof -
  have "fl (fl_pos x) = fl_pos x" if "0 < x" for x
    using fl_pos_idem [OF that] fl_pos_nonneg [OF that] by (auto simp: fl_def)
  then show ?thesis
    by (cases "x = 0"; cases "0 < x") (simp_all add: fl_def [of x] fl_minus)
qed

text \<open>Adding a non-negative amount to a rounded value never lowers it.\<close>

lemma fl_add_ge: "fl s = s \<Longrightarrow> 0 \<le> t \<Longrightarrow> s \<le> fl (s + t)"
  using fl_mono [of s "s + t"] by simp

section \<open>Special values\<close>

datatype float64 = Fin rat | PInf | NInf | NaN

section \<open>Durations as floats\<close>

text \<open>\<open>Duration.Hours\<close>: the whole hours plus the rest as a fraction, truncating towards zero.\<close>

definition hours_of :: "duration \<Rightarrow> rat" where
  "hours_of d = fl (of_int (d div hour) + fl (of_int (d mod hour) / 3600000000000))"

definition Hours :: "duration \<Rightarrow> rat" where
  "Hours d = (if d < 0 then - hours_of (- d) else hours_of d)"

text \<open>\<open>int(x)\<close> of a float truncates.\<close>

definition int_of_float :: "rat \<Rightarrow> int" where
  "int_of_float x = (if x < 0 then - \<lfloor>- x\<rfloor> else \<lfloor>x\<rfloor>)"

end
