(* ===== verification/AdaptiveAuth.thy ===== *)
theory AdaptiveAuth
  imports Float64
begin

text \<open>
  \<open>domain/security/adaptive_auth.go\<close> (the five authentication tiers) and
  \<open>domain/security/threat_response.go\<close> (the playbooks and the login-failure counters). A
  \<open>float64\<close> score is the rational it denotes; the literal 0.7 is the nearest double. A formatted
  message is the constructor of its format with the formatted values.
\<close>

section \<open>Tiers\<close>

datatype AdaptiveAuthTier = TierBiometricOnly | TierBiometricAck | TierBiometricPlusOTP
  | TierBlockIdentityVerify | TierSilentEscalation

definition tier_name :: "AdaptiveAuthTier \<Rightarrow> string" where
  "tier_name t = (case t of
      TierBiometricOnly \<Rightarrow> ''biometric_only''
    | TierBiometricAck \<Rightarrow> ''biometric_plus_ack''
    | TierBiometricPlusOTP \<Rightarrow> ''biometric_plus_otp''
    | TierBlockIdentityVerify \<Rightarrow> ''block_identity_verify''
    | TierSilentEscalation \<Rightarrow> ''silent_escalation'')"

definition float_0_7 :: rat where
  "float_0_7 = 6305039478318694 / 9007199254740992"

record SessionRiskProfile =
  sr_UserID :: string
  sr_DeviceTrustScore :: rat
  sr_BehaviouralDrift :: rat
  sr_SessionAge :: duration
  sr_FailedAuthAttempts :: int
  sr_LastSuccessfulAuth :: time
  sr_IsAnomalousSession :: bool
  sr_IsTrustedDevice :: bool

record TransactionRiskProfile =
  tr_RiskScore :: rat
  tr_RiskLevel :: string
  tr_AmountPaise :: int
  tr_IsNewRecipient :: bool
  tr_AmountVsAverage :: float64

datatype xai_reason =
    XHighRisk rat bool
  | XAnomalousSession
  | XMediumSession
  | XMediumTransaction rat
  | XNormal
  | XText string

datatype background_alert = NoAlert | AnomalousAlert string rat

record AuthDecision =
  ad_Tier :: AdaptiveAuthTier
  ad_TierName :: string
  ad_RequireBiometric :: bool
  ad_RequireOTP :: bool
  ad_RequireAck :: bool
  ad_RequireManualReview :: bool
  ad_IsBlocked :: bool
  ad_SilentEscalation :: bool
  ad_ReducedTxLimit :: int
  ad_BackgroundAlert :: background_alert
  ad_XAIReason :: xai_reason

record AdaptiveAuthManager =
  aa_userLimits :: "string \<rightharpoonup> int"
  aa_defaultLimit :: int
  aa_highValueLimit :: int

definition NewAdaptiveAuthManager :: AdaptiveAuthManager where
  "NewAdaptiveAuthManager =
     \<lparr>aa_userLimits = (\<lambda>_. None), aa_defaultLimit = 100000 * 100, aa_highValueLimit = 100000 * 100\<rparr>"

definition biometric_decision :: "AdaptiveAuthTier \<Rightarrow> string \<Rightarrow> xai_reason \<Rightarrow> AuthDecision" where
  "biometric_decision tier name reason =
     \<lparr>ad_Tier = tier, ad_TierName = name, ad_RequireBiometric = True, ad_RequireOTP = False,
      ad_RequireAck = False, ad_RequireManualReview = False, ad_IsBlocked = False,
      ad_SilentEscalation = False, ad_ReducedTxLimit = 0, ad_BackgroundAlert = NoAlert,
      ad_XAIReason = reason\<rparr>"

definition EvaluateAuthTier ::
  "AdaptiveAuthManager \<Rightarrow> SessionRiskProfile \<Rightarrow> TransactionRiskProfile \<Rightarrow> AuthDecision" where
  "EvaluateAuthTier a session txn =
     (if tr_RiskLevel txn = ''high'' \<or> tr_RiskScore txn \<ge> 70 then
        let requireManualReview = tr_AmountPaise txn > aa_highValueLimit a in
        (biometric_decision TierBlockIdentityVerify ''block_identity_verify''
           (XHighRisk (tr_RiskScore txn) requireManualReview))
          \<lparr>ad_RequireOTP := True, ad_RequireManualReview := requireManualReview, ad_IsBlocked := True\<rparr>
      else if sr_IsAnomalousSession session \<or> sr_BehaviouralDrift session > float_0_7 then
        (biometric_decision TierSilentEscalation ''silent_escalation'' XAnomalousSession)
          \<lparr>ad_SilentEscalation := True, ad_ReducedTxLimit := aa_defaultLimit a div 2,
            ad_BackgroundAlert := AnomalousAlert (sr_UserID session) (sr_BehaviouralDrift session)\<rparr>
      else if sr_DeviceTrustScore session < float_0_7 \<or> sr_FailedAuthAttempts session > 0
              \<or> sr_SessionAge session > 10 * minute then
        (biometric_decision TierBiometricPlusOTP ''biometric_plus_otp'' XMediumSession)
          \<lparr>ad_RequireOTP := True\<rparr>
      else if tr_RiskLevel txn = ''medium'' \<or> (tr_RiskScore txn \<ge> 40 \<and> tr_RiskScore txn < 70) then
        (biometric_decision TierBiometricAck ''biometric_plus_ack'' (XMediumTransaction (tr_RiskScore txn)))
          \<lparr>ad_RequireAck := True\<rparr>
      else biometric_decision TierBiometricOnly ''biometric_only'' XNormal)"

definition SetUserLimit :: "string \<Rightarrow> int \<Rightarrow> AdaptiveAuthManager \<Rightarrow> AdaptiveAuthManager" where
  "SetUserLimit userID limit a = a\<lparr>aa_userLimits := (aa_userLimits a)(userID \<mapsto> limit)\<rparr>"

definition GetUserLimit :: "string \<Rightarrow> AdaptiveAuthManager \<Rightarrow> int" where
  "GetUserLimit userID a = get_or (aa_defaultLimit a) (aa_userLimits a) userID"

definition ResetUserLimit :: "string \<Rightarrow> AdaptiveAuthManager \<Rightarrow> AdaptiveAuthManager" where
  "ResetUserLimit userID a = a\<lparr>aa_userLimits := (aa_userLimits a)(userID := None)\<rparr>"

section \<open>Threat response\<close>

datatype ThreatType = ThreatSIMSwap | ThreatDeviceCompromise | ThreatCredentialStuffing
  | ThreatMassFraudPattern | OtherThreat string

record ThreatResponse =
  th_ThreatType :: ThreatType
  th_UserID :: string
  th_Action :: string
  th_SessionTerminationRequested :: bool
  th_TransactionSuspensionRequested :: bool
  th_EmergencyAlertRequested :: bool
  th_EmailAlertRequested :: bool
  th_PushNotificationRequested :: bool
  th_CAPTCHARequested :: bool
  th_RateLimitEscalated :: bool
  th_ManualReviewRequired :: bool
  th_RequiresVideoKYC :: bool
  th_BlockchainLogRequested :: bool
  th_Timestamp :: time
  th_XAIReason :: string

record ThreatResponseManager =
  tm_activeThreats :: "string \<rightharpoonup> ThreatResponse list"
  tm_credentialAttempts :: "string \<rightharpoonup> int"
  tm_rateLimitEscalated :: "string \<rightharpoonup> bool"

definition NewThreatResponseManager :: ThreatResponseManager where
  "NewThreatResponseManager = \<lparr>tm_activeThreats = (\<lambda>_. None), tm_credentialAttempts = (\<lambda>_. None),
     tm_rateLimitEscalated = (\<lambda>_. None)\<rparr>"

definition playbookSIMSwap :: "ThreatResponse \<Rightarrow> ThreatResponse" where
  "playbookSIMSwap r = r
     \<lparr>th_Action := ''session_termination_transaction_suspension_video_kyc_required'',
      th_SessionTerminationRequested := True, th_TransactionSuspensionRequested := True,
      th_EmailAlertRequested := True, th_EmergencyAlertRequested := True, th_RequiresVideoKYC := True,
      th_ManualReviewRequired := True, th_XAIReason :=
        ''SIM swap confirmed. All sessions terminated, outgoing transactions suspended. '' @
        ''Emergency alert sent to your registered email. Re-access requires video KYC verification.''\<rparr>"

definition playbookDeviceCompromise :: "ThreatResponse \<Rightarrow> ThreatResponse" where
  "playbookDeviceCompromise r = r
     \<lparr>th_Action := ''transaction_suspension_device_lock'', th_TransactionSuspensionRequested := True,
      th_PushNotificationRequested := True, th_EmailAlertRequested := True, th_XAIReason :=
        ''Device compromise detected (root/jailbreak). Transaction functionality suspended. '' @
        ''Please re-verify your identity on a clean device to restore access. Your financial data is safe.''\<rparr>"

text \<open>The metadata is given by its string entry \<open>ip\<close>; \<open>None\<close> if absent or no string.\<close>

definition getStringFromMap :: "string option \<Rightarrow> string \<Rightarrow> string" where
  "getStringFromMap v fallback = (case v of Some s \<Rightarrow> if s \<noteq> [] then s else fallback | None \<Rightarrow> fallback)"

definition playbookCredentialStuffing ::
  "string option \<Rightarrow> ThreatResponse \<Rightarrow> ThreatResponseManager \<Rightarrow> ThreatResponse \<times> ThreatResponseManager" where
  "playbookCredentialStuffing ip0 r m =
     (let ip = getStringFromMap ip0 ''unknown'' in
      (r\<lparr>th_Action := ''rate_limit_escalation_captcha_threat_intel_share'', th_CAPTCHARequested := True,
         th_RateLimitEscalated := True, th_XAIReason :=
           ''Credential stuffing attack detected. Rate limiting escalated, CAPTCHA challenges enabled. '' @
           ''Attack signature shared with the broader ecosystem threat intelligence feed.''\<rparr>,
       m\<lparr>tm_rateLimitEscalated := (tm_rateLimitEscalated m)(ip \<mapsto> True)\<rparr>))"

definition playbookMassFraud :: "ThreatResponse \<Rightarrow> ThreatResponse" where
  "playbookMassFraud r = r
     \<lparr>th_Action := ''emergency_broadcast_manual_review_elevation'', th_EmergencyAlertRequested := True,
      th_EmailAlertRequested := True, th_PushNotificationRequested := True,
      th_ManualReviewRequired := True, th_XAIReason :=
        ''Mass fraud pattern detected affecting multiple users. Emergency broadcast sent via push notification, '' @
        ''SMS, and email. Affected transaction types temporarily elevated to manual review.''\<rparr>"

definition RespondToThreat ::
  "time \<Rightarrow> ThreatType \<Rightarrow> string \<Rightarrow> string option \<Rightarrow> ThreatResponseManager
     \<Rightarrow> ThreatResponse \<times> ThreatResponseManager" where
  "RespondToThreat now threat userID ip m =
     (let r0 = \<lparr>th_ThreatType = threat, th_UserID = userID, th_Action = [],
                th_SessionTerminationRequested = False, th_TransactionSuspensionRequested = False,
                th_EmergencyAlertRequested = False, th_EmailAlertRequested = False,
                th_PushNotificationRequested = False, th_CAPTCHARequested = False,
                th_RateLimitEscalated = False, th_ManualReviewRequired = False,
                th_RequiresVideoKYC = False, th_BlockchainLogRequested = True, th_Timestamp = now,
                th_XAIReason = []\<rparr>;
          rm = (case threat of
                  ThreatSIMSwap \<Rightarrow> (playbookSIMSwap r0, m)
                | ThreatDeviceCompromise \<Rightarrow> (playbookDeviceCompromise r0, m)
                | ThreatCredentialStuffing \<Rightarrow> playbookCredentialStuffing ip r0 m
                | ThreatMassFraudPattern \<Rightarrow> (playbookMassFraud r0, m)
                | OtherThreat _ \<Rightarrow>
                    (r0\<lparr>th_Action := ''no_playbook_defined'', th_XAIReason :=
                       ''Unknown threat type - no automated playbook available.''\<rparr>, m))
      in (fst rm, (snd rm)\<lparr>tm_activeThreats := (tm_activeThreats (snd rm))
            (userID \<mapsto> get_list (tm_activeThreats (snd rm)) userID @ [fst rm])\<rparr>))"

definition RecordFailedLogin :: "string \<Rightarrow> ThreatResponseManager \<Rightarrow> ThreatResponseManager" where
  "RecordFailedLogin ip m =
     m\<lparr>tm_credentialAttempts := (tm_credentialAttempts m)(ip \<mapsto> get_or 0 (tm_credentialAttempts m) ip + 1)\<rparr>"

definition ResetFailedLogins :: "string \<Rightarrow> ThreatResponseManager \<Rightarrow> ThreatResponseManager" where
  "ResetFailedLogins ip m = m\<lparr>tm_credentialAttempts := (tm_credentialAttempts m)(ip := None)\<rparr>"

definition IsCredentialStuffingDetected :: "string \<Rightarrow> ThreatResponseManager \<Rightarrow> bool" where
  "IsCredentialStuffingDetected ip m \<longleftrightarrow> get_or 0 (tm_credentialAttempts m) ip \<ge> 10"

definition IsRateLimitEscalated :: "string \<Rightarrow> ThreatResponseManager \<Rightarrow> bool" where
  "IsRateLimitEscalated ip m \<longleftrightarrow> get_or False (tm_rateLimitEscalated m) ip"

definition GetActiveThreats :: "string \<Rightarrow> ThreatResponseManager \<Rightarrow> ThreatResponse list" where
  "GetActiveThreats userID m = get_list (tm_activeThreats m) userID"

definition ClearThreats :: "string \<Rightarrow> ThreatResponseManager \<Rightarrow> ThreatResponseManager" where
  "ClearThreats userID m = m\<lparr>tm_activeThreats := (tm_activeThreats m)(userID := None)\<rparr>"

section \<open>Properties\<close>

definition high_risk :: "TransactionRiskProfile \<Rightarrow> bool" where
  "high_risk txn \<longleftrightarrow> tr_RiskLevel txn = ''high'' \<or> tr_RiskScore txn \<ge> 70"

definition anomalous :: "SessionRiskProfile \<Rightarrow> bool" where
  "anomalous s \<longleftrightarrow> sr_IsAnomalousSession s \<or> sr_BehaviouralDrift s > float_0_7"

definition medium_session :: "SessionRiskProfile \<Rightarrow> bool" where
  "medium_session s \<longleftrightarrow> sr_DeviceTrustScore s < float_0_7 \<or> sr_FailedAuthAttempts s > 0
     \<or> sr_SessionAge s > 10 * minute"

definition medium_txn :: "TransactionRiskProfile \<Rightarrow> bool" where
  "medium_txn t \<longleftrightarrow> tr_RiskLevel t = ''medium'' \<or> tr_RiskScore t \<ge> 40"

lemmas risk_classes = high_risk_def anomalous_def medium_session_def medium_txn_def

lemma EvaluateAuthTier_tier:
  "ad_Tier (EvaluateAuthTier a s t) =
     (if high_risk t then TierBlockIdentityVerify
      else if anomalous s then TierSilentEscalation
      else if medium_session s then TierBiometricPlusOTP
      else if medium_txn t then TierBiometricAck else TierBiometricOnly)"
  by (auto simp: EvaluateAuthTier_def risk_classes biometric_decision_def Let_def)

text \<open>
  What a payment must present. A biometric always; it is blocked exactly for a high-risk
  transaction; an OTP is asked exactly for a high-risk transaction or for a medium-risk
  session that is not anomalous (so an anomalous session is asked less than a medium one); an
  acknowledgement exactly for a medium transaction in a session without findings; manual review
  exactly for a blocked amount above the limit. The tier's name is that of the tier.
\<close>
theorem auth_requirements:
  "let d = EvaluateAuthTier a s t in
     ad_RequireBiometric d \<and> ad_TierName d = tier_name (ad_Tier d) \<and>
     ad_IsBlocked d = high_risk t \<and>
     ad_RequireOTP d = (high_risk t \<or> medium_session s \<and> \<not> anomalous s) \<and>
     ad_RequireAck d = (medium_txn t \<and> \<not> high_risk t \<and> \<not> anomalous s \<and> \<not> medium_session s) \<and>
     ad_RequireManualReview d = (high_risk t \<and> tr_AmountPaise t > aa_highValueLimit a) \<and>
     ad_SilentEscalation d = (anomalous s \<and> \<not> high_risk t)"
  by (auto simp: EvaluateAuthTier_def risk_classes biometric_decision_def tier_name_def Let_def)

end
