(* ===== verification/RiskEngine.thy ===== *)
theory RiskEngine
  imports Float64
begin

text \<open>
  \<open>domain/transaction\<close>: the risk signal, its normalisation (\<open>safety.go\<close>), the additive
  heuristic (\<open>heuristic.go\<close>), the choice between the model and the heuristic
  (\<open>risk_engine.go\<close>) and the projection on the model's named features (\<open>risk_features.go\<close>). The
  trained model with its preprocessing file is the optional function \<open>re_onnx\<close>. The five ratios
  have a type of their own: \<open>float64\<close> on input, finite after normalisation. The lemmas show that
  the score stays in its range for every input, undefined ratios included, and that worse
  signals never score lower.
\<close>

section \<open>Signals\<close>

datatype RiskLevel = RiskLow | RiskMedium | RiskHigh

text \<open>Levels are ordered by severity.\<close>

definition severity :: "RiskLevel \<Rightarrow> nat" where
  "severity l = (case l of RiskLow \<Rightarrow> 0 | RiskMedium \<Rightarrow> 1 | RiskHigh \<Rightarrow> 2)"

instantiation RiskLevel :: linorder
begin

definition less_eq_RiskLevel :: "RiskLevel \<Rightarrow> RiskLevel \<Rightarrow> bool" where
  "less_eq_RiskLevel a b \<longleftrightarrow> severity a \<le> severity b"

definition less_RiskLevel :: "RiskLevel \<Rightarrow> RiskLevel \<Rightarrow> bool" where
  "less_RiskLevel a b \<longleftrightarrow> severity a < severity b"

instance
  by intro_classes (auto simp: less_eq_RiskLevel_def less_RiskLevel_def severity_def split: RiskLevel.splits)

end

text \<open>The raw inputs that only the model reads.\<close>

record ExtendedInputs =
  xi_TransactionAmount :: rat
  xi_TransactionsLast24h :: int
  xi_AccountAgeDays :: int
  xi_CurrentBalance :: rat
  xi_MonthlyIncome :: rat
  xi_RegisteredDeviceMatch :: bool
  xi_RootedDevice :: bool
  xi_EmulatorDetected :: bool
  xi_OTPVerified :: bool
  xi_BiometricVerified :: bool
  xi_RecipientVerified :: bool
  xi_RecipientAccountAgeDays :: int
  xi_MarketVolatilityIndex :: rat
  xi_GeoVelocityFlag :: bool
  xi_StructuringFlag :: bool
  xi_TransactionType :: string
  xi_PaymentChannel :: string
  xi_MerchantCategory :: string
  xi_Currency :: string
  xi_AccountType :: string
  xi_Occupation :: string
  xi_KYCStatus :: string
  xi_DeviceType :: string
  xi_AuthenticationMethod :: string

record 'r RiskSignal =
  rs_AmountVsAverage :: 'r
  rs_IsNewRecipient :: bool
  rs_HourOfDay :: int
  rs_FailedPINAttempts :: int
  rs_VelocityCount1Hr :: int
  rs_BalanceImpact :: 'r
  rs_RecipientGNNScore :: 'r
  rs_BehaviourDrift :: 'r
  rs_SessionTrustScore :: 'r
  rs_IsColdStart :: bool
  rs_ext :: ExtendedInputs

record AmountTermParams =
  at_K :: rat
  at_Cap :: rat
  at_ClipMax :: rat
  at_FloorAvgPaise :: int
  at_BalanceClipMax :: rat

definition defaultAmountTerm :: AmountTermParams where
  "defaultAmountTerm =
     \<lparr>at_K = 12, at_Cap = 30, at_ClipMax = 25, at_FloorAvgPaise = 50000, at_BalanceClipMax = 1\<rparr>"

section \<open>Normalisation\<close>

definition clampFloat :: "float64 \<Rightarrow> rat \<Rightarrow> rat \<Rightarrow> rat \<Rightarrow> rat" where
  "clampFloat x lo hi nanInf = (case x of
      Fin r \<Rightarrow> if r < lo then lo else if r > hi then hi else r
    | _ \<Rightarrow> nanInf)"

definition normaliseSignal :: "float64 RiskSignal \<Rightarrow> AmountTermParams \<Rightarrow> rat RiskSignal" where
  "normaliseSignal sig amt =
     \<lparr>rs_AmountVsAverage = clampFloat (rs_AmountVsAverage sig) 0 (at_ClipMax amt) (at_ClipMax amt),
      rs_IsNewRecipient = rs_IsNewRecipient sig,
      rs_HourOfDay = rs_HourOfDay sig,
      rs_FailedPINAttempts = rs_FailedPINAttempts sig,
      rs_VelocityCount1Hr = rs_VelocityCount1Hr sig,
      rs_BalanceImpact = clampFloat (rs_BalanceImpact sig) 0 (at_BalanceClipMax amt) (at_BalanceClipMax amt),
      rs_RecipientGNNScore = clampFloat (rs_RecipientGNNScore sig) 0 1 1,
      rs_BehaviourDrift = clampFloat (rs_BehaviourDrift sig) 0 1 1,
      rs_SessionTrustScore = clampFloat (rs_SessionTrustScore sig) 0 1 0,
      rs_IsColdStart = rs_IsColdStart sig,
      rs_ext = rs_ext sig\<rparr>"

text \<open>A normalised signal passed on as a signal.\<close>

definition as_signal :: "rat RiskSignal \<Rightarrow> float64 RiskSignal" where
  "as_signal sig =
     \<lparr>rs_AmountVsAverage = Fin (rs_AmountVsAverage sig), rs_IsNewRecipient = rs_IsNewRecipient sig,
      rs_HourOfDay = rs_HourOfDay sig, rs_FailedPINAttempts = rs_FailedPINAttempts sig,
      rs_VelocityCount1Hr = rs_VelocityCount1Hr sig, rs_BalanceImpact = Fin (rs_BalanceImpact sig),
      rs_RecipientGNNScore = Fin (rs_RecipientGNNScore sig),
      rs_BehaviourDrift = Fin (rs_BehaviourDrift sig),
      rs_SessionTrustScore = Fin (rs_SessionTrustScore sig), rs_IsColdStart = rs_IsColdStart sig,
      rs_ext = rs_ext sig\<rparr>"

section \<open>The heuristic\<close>

datatype risk_reason = RAmount rat | RText string

record Assessment =
  as_Level :: RiskLevel
  as_Score :: rat
  as_Reason :: "risk_reason list"

definition minFloat :: "rat \<Rightarrow> rat \<Rightarrow> rat" where
  "minFloat a b = (if a < b then a else b)"

text \<open>
  Each \<open>if\<close> of the function is a triple: its condition, what it adds to the score and the
  reasons it appends. An \<open>if\<close> with its \<open>else if\<close> is one triple.
\<close>

definition amount_term :: "AmountTermParams \<Rightarrow> rat \<Rightarrow> rat" where
  "amount_term amt x = clampFloat (Fin (fl (fl (x - 1) * at_K amt))) 0 (at_Cap amt) (at_Cap amt)"

definition score_terms :: "AmountTermParams \<Rightarrow> rat RiskSignal \<Rightarrow> (bool \<times> rat \<times> risk_reason list) list" where
  "score_terms amt sig =
     [(rs_AmountVsAverage sig > 1, amount_term amt (rs_AmountVsAverage sig),
         if rs_AmountVsAverage sig > 3 then [RAmount (rs_AmountVsAverage sig)] else []),
      (rs_IsNewRecipient sig, 15, [RText ''recipient is new or unverified'']),
      (rs_HourOfDay sig \<le> 4 \<or> rs_HourOfDay sig \<ge> 23, 10,
         [RText ''transaction requested at an unusual hour'']),
      (rs_FailedPINAttempts sig > 0, minFloat (fl (of_int (i64 (rs_FailedPINAttempts sig * 5)))) 15,
         [RText ''multiple recent PIN failures'']),
      (rs_VelocityCount1Hr sig \<ge> 3, minFloat (fl (of_int (i64 (rs_VelocityCount1Hr sig * 2)))) 10,
         [RText ''high transaction velocity in the last hour'']),
      (rs_BalanceImpact sig > fl (8 / 10) \<or> rs_BalanceImpact sig > 1 / 2,
         if rs_BalanceImpact sig > fl (8 / 10) then 10 else 5,
         if rs_BalanceImpact sig > fl (8 / 10)
         then [RText ''this transfer would materially drain your balance''] else []),
      (rs_RecipientGNNScore sig > 0, minFloat (fl (rs_RecipientGNNScore sig * 20)) 20,
         if rs_RecipientGNNScore sig \<ge> fl (6 / 10)
         then [RText ''recipient appears close to known high-risk payment graph nodes''] else []),
      (rs_BehaviourDrift sig > 0, minFloat (fl (rs_BehaviourDrift sig * 20)) 20,
         if rs_BehaviourDrift sig \<ge> fl (6 / 10)
         then [RText ''session behaviour differs from your normal interaction pattern''] else []),
      (rs_SessionTrustScore sig < fl (4 / 10) \<or> rs_SessionTrustScore sig < fl (7 / 10),
         if rs_SessionTrustScore sig < fl (4 / 10) then 15 else 8,
         if rs_SessionTrustScore sig < fl (4 / 10)
         then [RText ''device and session trust score is low''] else [])]"

definition level_of :: "rat \<Rightarrow> RiskLevel" where
  "level_of score = (if score \<ge> 70 then RiskHigh else if score \<ge> 40 then RiskMedium else RiskLow)"

definition add_terms :: "(bool \<times> rat \<times> risk_reason list) list \<Rightarrow> rat \<Rightarrow> rat" where
  "add_terms ts s = foldl (\<lambda>s (c, t, _). if c then fl (s + t) else s) s ts"

definition assess :: "AmountTermParams \<Rightarrow> float64 RiskSignal \<Rightarrow> Assessment" where
  "assess amt sig0 =
     (let sig = normaliseSignal sig0 amt;
          score = add_terms (score_terms amt sig) 0;
          reasons = concat [rs. (c, t, rs) \<leftarrow> score_terms amt sig, c]
      in \<lparr>as_Level = level_of score, as_Score = minFloat score 100,
          as_Reason = if reasons = [] then [RText ''transaction aligns with your normal behavior'']
                      else reasons\<rparr>)"

section \<open>The model\<close>

definition assessmentFromProbs :: "rat list \<Rightarrow> float64 RiskSignal \<Rightarrow> Assessment" where
  "assessmentFromProbs probs sig =
     (if length probs < 2 then
        \<lparr>as_Level = RiskLow, as_Score = 0, as_Reason = [RText ''insufficient model output'']\<rparr>
      else
        let pFraud = probs ! 1;
            level = (if pFraud \<ge> fl (70 / 100) then RiskHigh
                     else if pFraud \<ge> fl (40 / 100) then RiskMedium else RiskLow)
        in \<lparr>as_Level = level, as_Score = minFloat (fl (pFraud * 100)) 100,
            as_Reason = if level \<noteq> RiskLow then [RText ''ML model flagged elevated fraud probability'']
                        else [RText ''transaction aligns with your normal behavior'']\<rparr>)"

definition boolF :: "bool \<Rightarrow> rat" where "boolF b = (if b then 1 else 0)"

definition putIfPos :: "string \<Rightarrow> rat \<Rightarrow> (string \<times> rat) list" where
  "putIfPos key v = (if v > 0 then [(key, v)] else [])"

definition putIfSet :: "string \<Rightarrow> string \<Rightarrow> (string \<times> string) list" where
  "putIfSet key v = (if v \<noteq> [] then [(key, v)] else [])"

definition featureMaps :: "rat RiskSignal \<Rightarrow> (string \<times> rat) list \<times> (string \<times> string) list" where
  "featureMaps s = (let x = rs_ext s in
     ([(''amount_vs_average'', rs_AmountVsAverage s),
       (''velocity_term'', min (fl (fl (of_int (rs_VelocityCount1Hr s)) * 2)) 10),
       (''balance_impact'', rs_BalanceImpact s),
       (''transactions_last_1h'', fl (of_int (rs_VelocityCount1Hr s))),
       (''failed_pin_attempts'', fl (of_int (rs_FailedPINAttempts s))),
       (''session_trust_score'', rs_SessionTrustScore s),
       (''recipient_gnn_score'', rs_RecipientGNNScore s),
       (''recipient_seen_before'', boolF (\<not> rs_IsNewRecipient s)),
       (''registered_device_match'', boolF (xi_RegisteredDeviceMatch x)),
       (''rooted_device'', boolF (xi_RootedDevice x)),
       (''emulator_detected'', boolF (xi_EmulatorDetected x)),
       (''otp_verified'', boolF (xi_OTPVerified x)),
       (''biometric_verified'', boolF (xi_BiometricVerified x)),
       (''recipient_verified'', boolF (xi_RecipientVerified x)),
       (''geo_velocity_flag'', boolF (xi_GeoVelocityFlag x)),
       (''structuring_flag'', boolF (xi_StructuringFlag x))] @
      putIfPos ''transaction_amount'' (xi_TransactionAmount x) @
      putIfPos ''transactions_last_24h'' (fl (of_int (xi_TransactionsLast24h x))) @
      putIfPos ''account_age_days'' (fl (of_int (xi_AccountAgeDays x))) @
      putIfPos ''current_balance'' (xi_CurrentBalance x) @
      putIfPos ''monthly_income'' (xi_MonthlyIncome x) @
      putIfPos ''recipient_account_age_days'' (fl (of_int (xi_RecipientAccountAgeDays x))) @
      putIfPos ''market_volatility_index'' (xi_MarketVolatilityIndex x),
      putIfSet ''transaction_type'' (xi_TransactionType x) @
      putIfSet ''payment_channel'' (xi_PaymentChannel x) @
      putIfSet ''merchant_category'' (xi_MerchantCategory x) @
      putIfSet ''currency'' (xi_Currency x) @
      putIfSet ''account_type'' (xi_AccountType x) @
      putIfSet ''occupation'' (xi_Occupation x) @
      putIfSet ''kyc_status'' (xi_KYCStatus x) @
      putIfSet ''device_type'' (xi_DeviceType x) @
      putIfSet ''authentication_method'' (xi_AuthenticationMethod x)))"

record RiskEngine =
  re_amt :: AmountTermParams
  re_coldStartMonths :: int
  re_onnx :: "((string \<times> rat) list \<times> (string \<times> string) list \<Rightarrow> rat list option) option"

definition ColdStart :: "RiskEngine \<Rightarrow> int \<Rightarrow> bool" where
  "ColdStart e accountAgeMonths \<longleftrightarrow>
     re_coldStartMonths e > 0 \<and> accountAgeMonths < re_coldStartMonths e"

definition Evaluate :: "RiskEngine \<Rightarrow> float64 RiskSignal \<Rightarrow> Assessment" where
  "Evaluate e sig0 =
     (let sig = normaliseSignal sig0 (re_amt e) in
      case re_onnx e of
        Some predict \<Rightarrow>
          if \<not> rs_IsColdStart sig then
            (case predict (featureMaps sig) of
               Some probs \<Rightarrow> if length probs = 2 then assessmentFromProbs probs (as_signal sig)
                             else assess (re_amt e) (as_signal sig)
             | None \<Rightarrow> assess (re_amt e) (as_signal sig))
          else assess (re_amt e) (as_signal sig)
      | None \<Rightarrow> assess (re_amt e) (as_signal sig))"

section \<open>Bounds\<close>

lemma clampFloat_bounds:
  assumes "lo \<le> hi" and "lo \<le> v" and "v \<le> hi"
  shows "lo \<le> clampFloat x lo hi v" and "clampFloat x lo hi v \<le> hi"
  using assms by (auto simp: clampFloat_def split: float64.split)

lemma normalise_as_signal:
  assumes "0 \<le> at_ClipMax amt" and "0 \<le> at_BalanceClipMax amt"
  shows "normaliseSignal (as_signal (normaliseSignal sig amt)) amt = normaliseSignal sig amt"
proof -
  have id: "clampFloat (Fin x) lo hi v = x" if "lo \<le> x" "x \<le> hi" for x lo hi v
    using that by (simp add: clampFloat_def)
  show ?thesis
    using assms by (simp add: normaliseSignal_def as_signal_def id clampFloat_bounds)
qed

lemma add_terms_Nil [simp]: "add_terms [] s = s"
  by (simp add: add_terms_def)

lemma add_terms_Cons [simp]:
  "add_terms ((c, t, r) # ts) s = add_terms ts (if c then fl (s + t) else s)"
  by (simp add: add_terms_def)

lemma add_terms_ge:
  "\<forall>(c, t, r) \<in> set ts. c \<longrightarrow> 0 \<le> t \<Longrightarrow> fl s = s \<Longrightarrow> s \<le> add_terms ts s"
proof (induction ts arbitrary: s)
  case (Cons x ts)
  obtain c t r where x: "x = (c, t, r)" by (cases x)
  have "s \<le> fl (s + t)" if c using Cons.prems x that by (intro fl_add_ge) auto
  moreover have "u \<le> add_terms ts u" if "fl u = u" for u using Cons.prems that by (intro Cons.IH) auto
  ultimately show ?case using Cons.prems x by (auto intro: order_trans)
qed simp

text \<open>A term list is worse than another when every term that counts there counts here, with at least its weight.\<close>

definition worse_term :: "bool \<times> rat \<times> risk_reason list \<Rightarrow> bool \<times> rat \<times> risk_reason list \<Rightarrow> bool" where
  "worse_term a b = (case (a, b) of ((c, t, _), (c', t', _)) \<Rightarrow> (c' \<longrightarrow> 0 \<le> t') \<and> (c \<longrightarrow> c' \<and> t \<le> t'))"

lemma add_terms_mono:
  "list_all2 worse_term ts us \<Longrightarrow> fl s = s \<Longrightarrow> fl s' = s' \<Longrightarrow> s \<le> s' \<Longrightarrow>
   add_terms ts s \<le> add_terms us s'"
proof (induction ts us arbitrary: s s' rule: list_all2_induct)
  case (Cons x ts y us)
  obtain c t r where x: "x = (c, t, r)" by (cases x)
  obtain c' t' r' where y: "y = (c', t', r')" by (cases y)
  have t': "c' \<Longrightarrow> 0 \<le> t'" and ct: "c \<Longrightarrow> c' \<and> t \<le> t'" using Cons.hyps(1) x y by (auto simp: worse_term_def)
  have 1: "fl (s + t) \<le> fl (s' + t')" if c using ct [OF that] Cons.prems by (intro fl_mono) auto
  have 2: "s \<le> fl (s' + t')" if c' using fl_add_ge [OF Cons.prems(2) t' [OF that]] Cons.prems(3) by linarith
  from 1 2 show ?case using Cons ct x y by (auto intro!: Cons.IH)
qed simp

lemma level_of_mono: "s \<le> s' \<Longrightarrow> level_of s \<le> level_of s'"
  by (auto simp: level_of_def less_eq_RiskLevel_def severity_def)

lemma minFloat_mono: "a \<le> a' \<Longrightarrow> minFloat a b \<le> minFloat a' b"
  by (auto simp: minFloat_def)

lemma minFloat_nonneg: "0 \<le> a \<Longrightarrow> 0 \<le> b \<Longrightarrow> 0 \<le> minFloat a b"
  by (simp add: minFloat_def)

text \<open>The parameters and counters for which the score is meaningful: no counter wraps around.\<close>

definition params_ok :: "AmountTermParams \<Rightarrow> bool" where
  "params_ok amt \<longleftrightarrow> 0 \<le> at_K amt \<and> 0 \<le> at_Cap amt \<and> 0 \<le> at_ClipMax amt \<and> 0 \<le> at_BalanceClipMax amt"

definition counters_ok :: "'r RiskSignal \<Rightarrow> bool" where
  "counters_ok sig \<longleftrightarrow> rs_FailedPINAttempts sig * 5 < 2 ^ 63 \<and> rs_VelocityCount1Hr sig * 2 < 2 ^ 63"

definition ratio_le :: "float64 \<Rightarrow> float64 \<Rightarrow> bool" where
  "ratio_le x y \<longleftrightarrow> (case y of Fin b \<Rightarrow> (case x of Fin a \<Rightarrow> a \<le> b | _ \<Rightarrow> False) | _ \<Rightarrow> True)"

definition trust_ge :: "float64 \<Rightarrow> float64 \<Rightarrow> bool" where
  "trust_ge x y \<longleftrightarrow> (case y of Fin b \<Rightarrow> (case x of Fin a \<Rightarrow> b \<le> a | _ \<Rightarrow> False) | _ \<Rightarrow> True)"

text \<open>The second signal is at least as suspicious as the first in every input the heuristic reads.\<close>

definition riskier :: "float64 RiskSignal \<Rightarrow> float64 RiskSignal \<Rightarrow> bool" where
  "riskier a b \<longleftrightarrow> ratio_le (rs_AmountVsAverage a) (rs_AmountVsAverage b) \<and>
     (rs_IsNewRecipient a \<longrightarrow> rs_IsNewRecipient b) \<and>
     (rs_HourOfDay a \<le> 4 \<or> rs_HourOfDay a \<ge> 23 \<longrightarrow> rs_HourOfDay b \<le> 4 \<or> rs_HourOfDay b \<ge> 23) \<and>
     rs_FailedPINAttempts a \<le> rs_FailedPINAttempts b \<and>
     rs_VelocityCount1Hr a \<le> rs_VelocityCount1Hr b \<and>
     ratio_le (rs_BalanceImpact a) (rs_BalanceImpact b) \<and>
     ratio_le (rs_RecipientGNNScore a) (rs_RecipientGNNScore b) \<and>
     ratio_le (rs_BehaviourDrift a) (rs_BehaviourDrift b) \<and>
     trust_ge (rs_SessionTrustScore a) (rs_SessionTrustScore b)"

lemma clampFloat_ratio_mono:
  "ratio_le x y \<Longrightarrow> 0 \<le> hi \<Longrightarrow> clampFloat x 0 hi hi \<le> clampFloat y 0 hi hi"
  by (auto simp: ratio_le_def clampFloat_def split: float64.splits)

lemma clampFloat_trust_mono: "trust_ge x y \<Longrightarrow> clampFloat y 0 1 0 \<le> clampFloat x 0 1 0"
  by (auto simp: trust_ge_def clampFloat_def split: float64.splits)

lemma amount_term_bounds:
  "params_ok amt \<Longrightarrow> 0 \<le> amount_term amt x \<and> amount_term amt x \<le> at_Cap amt"
  by (simp add: amount_term_def params_ok_def clampFloat_bounds)

lemma amount_term_mono:
  assumes "params_ok amt" and "x \<le> y"
  shows "amount_term amt x \<le> amount_term amt y"
proof -
  have "fl (x - 1) * at_K amt \<le> fl (y - 1) * at_K amt"
    using assms by (intro mult_right_mono fl_mono) (auto simp: params_ok_def)
  then have "fl (fl (x - 1) * at_K amt) \<le> fl (fl (y - 1) * at_K amt)" by (rule fl_mono)
  with assms(1) show ?thesis by (auto simp: amount_term_def clampFloat_def params_ok_def)
qed

lemma i64_count: "0 < n \<Longrightarrow> 0 \<le> k \<Longrightarrow> n * k < 2 ^ 63 \<Longrightarrow> i64 (n * k) = n * k"
  by (rule i64_id) (simp add: is_i64_def order_trans [of _ 0])

lemma terms_nonneg:
  assumes "params_ok amt" and "counters_ok sig"
  shows "\<forall>(c, t, r) \<in> set (score_terms amt (normaliseSignal sig amt)). c \<longrightarrow> 0 \<le> t"
proof -
  have "0 \<le> fl (x * 20)" if "0 < x" for x using that by (simp add: fl_nonneg)
  moreover have "0 \<le> fl (of_int (i64 (n * k)))" if "0 < n" "0 \<le> k" "n * k < 2 ^ 63" for n k
    using that by (simp add: i64_count fl_nonneg)
  ultimately show ?thesis
    using assms by (simp add: score_terms_def normaliseSignal_def amount_term_bounds counters_ok_def minFloat_nonneg)
qed

lemma terms_worse:
  assumes "params_ok amt" and b: "counters_ok b" and "riskier a b"
  shows "list_all2 worse_term (score_terms amt (normaliseSignal a amt)) (score_terms amt (normaliseSignal b amt))"
proof -
  let ?a = "normaliseSignal a amt" and ?b = "normaliseSignal b amt"
  have cl: "rs_AmountVsAverage ?a \<le> rs_AmountVsAverage ?b" "rs_BalanceImpact ?a \<le> rs_BalanceImpact ?b"
      "rs_RecipientGNNScore ?a \<le> rs_RecipientGNNScore ?b" "rs_BehaviourDrift ?a \<le> rs_BehaviourDrift ?b"
      "rs_SessionTrustScore ?b \<le> rs_SessionTrustScore ?a"
    using assms by (simp_all add: normaliseSignal_def riskier_def params_ok_def clampFloat_ratio_mono clampFloat_trust_mono)
  have counts: "minFloat (fl (of_int (i64 (m * k)))) c \<le> minFloat (fl (of_int (i64 (n * k)))) c"
    if "0 < m" "m \<le> n" "0 < k" "n * k < 2 ^ 63" for m n k c
  proof -
    have "m * k \<le> n * k" using that by simp
    with that have "m * k < 2 ^ 63" "0 \<le> k" "0 < n" by linarith+
    with that have "i64 (m * k) = m * k" "i64 (n * k) = n * k" by (simp_all add: i64_count)
    with \<open>m * k \<le> n * k\<close> show ?thesis by (intro minFloat_mono fl_mono) (simp only: of_int_le_iff)
  qed
  have twenty: "minFloat (fl (x * 20)) 20 \<le> minFloat (fl (y * 20)) 20" if "x \<le> y" for x y
    using that by (intro minFloat_mono fl_mono) simp
  have nonneg: "\<forall>(c, t, r) \<in> set (score_terms amt ?b). c \<longrightarrow> 0 \<le> t" using terms_nonneg assms by simp
  have "rs_FailedPINAttempts b * 5 < 2 ^ 63" "rs_VelocityCount1Hr b * 2 < 2 ^ 63"
    using b by (simp_all add: counters_ok_def)
  moreover have "rs_IsNewRecipient ?a = rs_IsNewRecipient a" "rs_HourOfDay ?a = rs_HourOfDay a"
     "rs_FailedPINAttempts ?a = rs_FailedPINAttempts a" "rs_VelocityCount1Hr ?a = rs_VelocityCount1Hr a"
     "rs_IsNewRecipient ?b = rs_IsNewRecipient b" "rs_HourOfDay ?b = rs_HourOfDay b"
     "rs_FailedPINAttempts ?b = rs_FailedPINAttempts b" "rs_VelocityCount1Hr ?b = rs_VelocityCount1Hr b"
    by (simp_all add: normaliseSignal_def)
  moreover have "rs_IsNewRecipient a \<longrightarrow> rs_IsNewRecipient b"
     "rs_HourOfDay a \<le> 4 \<or> rs_HourOfDay a \<ge> 23 \<longrightarrow> rs_HourOfDay b \<le> 4 \<or> rs_HourOfDay b \<ge> 23"
     "rs_FailedPINAttempts a \<le> rs_FailedPINAttempts b" "rs_VelocityCount1Hr a \<le> rs_VelocityCount1Hr b"
    using assms(3) by (simp_all add: riskier_def)
  ultimately show ?thesis
    using cl nonneg amount_term_mono [OF assms(1) cl(1)] twenty [OF cl(3)] twenty [OF cl(4)]
    by (simp add: score_terms_def worse_term_def counts del: of_int_mult)
qed

section \<open>Properties\<close>

lemma assess_simps:
  "as_Level (assess amt sig) = level_of (add_terms (score_terms amt (normaliseSignal sig amt)) 0)"
  "as_Score (assess amt sig) = minFloat (add_terms (score_terms amt (normaliseSignal sig amt)) 0) 100"
  by (simp_all add: assess_def Let_def)

lemma Evaluate_heuristic:
  assumes "params_ok (re_amt e)" and "re_onnx e = None \<or> rs_IsColdStart sig"
  shows "Evaluate e sig = assess (re_amt e) sig"
proof -
  have "assess (re_amt e) (as_signal (normaliseSignal sig (re_amt e))) = assess (re_amt e) sig"
    using assms(1) by (simp add: assess_def params_ok_def normalise_as_signal)
  then show ?thesis
    using assms(2) by (auto simp: Evaluate_def normaliseSignal_def Let_def split: option.splits)
qed

text \<open>
  The heuristic answers every signal, undefined ratios included, with a score between 0 and
  100, and its level is high exactly from 70 and medium exactly from 40 on. (The counters must
  not be so large that scaling them wraps around.)
\<close>

theorem heuristic_score_bounded:
  assumes "params_ok (re_amt e)" and "counters_ok sig" and "re_onnx e = None \<or> rs_IsColdStart sig"
  shows "0 \<le> as_Score (Evaluate e sig) \<and> as_Score (Evaluate e sig) \<le> 100 \<and>
    as_Level (Evaluate e sig) = (if as_Score (Evaluate e sig) \<ge> 70 then RiskHigh
      else if as_Score (Evaluate e sig) \<ge> 40 then RiskMedium else RiskLow)"
proof -
  have "0 \<le> add_terms (score_terms (re_amt e) (normaliseSignal sig (re_amt e))) 0"
    using assms(1, 2) by (intro add_terms_ge terms_nonneg) auto
  then show ?thesis
    unfolding Evaluate_heuristic [OF assms(1, 3)] assess_simps by (auto simp: minFloat_def level_of_def)
qed

text \<open>
  C11: the heuristic is monotone: if every input of a second signal is at least as suspicious (a
  NaN or infinite ratio counts as the most suspicious one), its score and its level are at
  least as high. This holds where the heuristic decides, that is without a model or for
  cold-start signals, and while the counters of the second signal do not wrap when they are
  multiplied (\<open>counters_ok\<close>); \<open>pin_counter_wraps\<close> shows that it fails beyond.
\<close>

theorem heuristic_monotone:
  assumes "params_ok (re_amt e)" and "counters_ok b" and "riskier a b"
    and "re_onnx e = None \<or> rs_IsColdStart a \<and> rs_IsColdStart b"
  shows "as_Score (Evaluate e a) \<le> as_Score (Evaluate e b) \<and> as_Level (Evaluate e a) \<le> as_Level (Evaluate e b)"
proof -
  have "add_terms (score_terms (re_amt e) (normaliseSignal a (re_amt e))) 0
      \<le> add_terms (score_terms (re_amt e) (normaliseSignal b (re_amt e))) 0"
    using assms(1-3) by (intro add_terms_mono terms_worse) auto
  moreover have "Evaluate e a = assess (re_amt e) a" "Evaluate e b = assess (re_amt e) b"
    using Evaluate_heuristic [OF assms(1)] assms(4) by auto
  ultimately show ?thesis by (simp add: assess_simps minFloat_mono level_of_mono)
qed

section \<open>Concrete signals\<close>

definition no_inputs :: ExtendedInputs where
  "no_inputs = \<lparr>xi_TransactionAmount = 0, xi_TransactionsLast24h = 0, xi_AccountAgeDays = 0,
     xi_CurrentBalance = 0, xi_MonthlyIncome = 0, xi_RegisteredDeviceMatch = False,
     xi_RootedDevice = False, xi_EmulatorDetected = False, xi_OTPVerified = False,
     xi_BiometricVerified = False, xi_RecipientVerified = False, xi_RecipientAccountAgeDays = 0,
     xi_MarketVolatilityIndex = 0, xi_GeoVelocityFlag = False, xi_StructuringFlag = False,
     xi_TransactionType = [], xi_PaymentChannel = [], xi_MerchantCategory = [], xi_Currency = [],
     xi_AccountType = [], xi_Occupation = [], xi_KYCStatus = [], xi_DeviceType = [],
     xi_AuthenticationMethod = []\<rparr>"

definition calm_signal :: "float64 RiskSignal" where
  "calm_signal = \<lparr>rs_AmountVsAverage = Fin (1 / 2), rs_IsNewRecipient = False, rs_HourOfDay = 12,
     rs_FailedPINAttempts = 0, rs_VelocityCount1Hr = 0, rs_BalanceImpact = Fin (1 / 4),
     rs_RecipientGNNScore = Fin 0, rs_BehaviourDrift = Fin 0, rs_SessionTrustScore = Fin 1,
     rs_IsColdStart = False, rs_ext = no_inputs\<rparr>"

definition wild_signal :: "float64 RiskSignal" where
  "wild_signal = calm_signal\<lparr>rs_AmountVsAverage := PInf, rs_IsNewRecipient := True,
     rs_FailedPINAttempts := 3, rs_BalanceImpact := NaN, rs_SessionTrustScore := NaN\<rparr>"

definition plain_engine :: RiskEngine where
  "plain_engine = \<lparr>re_amt = defaultAmountTerm, re_coldStartMonths = 3, re_onnx = None\<rparr>"

lemma heuristic_score_bounded_witness:
  "0 \<le> as_Score (Evaluate plain_engine wild_signal) \<and> as_Score (Evaluate plain_engine wild_signal) \<le> 100"
  using heuristic_score_bounded [of plain_engine wild_signal]
  by (simp add: plain_engine_def wild_signal_def calm_signal_def params_ok_def counters_ok_def defaultAmountTerm_def)

lemma heuristic_monotone_witness:
  "as_Level (Evaluate plain_engine calm_signal) \<le> as_Level (Evaluate plain_engine wild_signal)"
  using heuristic_monotone [of plain_engine wild_signal calm_signal]
  by (simp add: plain_engine_def wild_signal_def calm_signal_def params_ok_def counters_ok_def
    defaultAmountTerm_def riskier_def ratio_le_def trust_ge_def)

text \<open>
  The counter of failed PIN attempts comes from the client and is multiplied by 5 as an
  integer: a huge count wraps around to a negative contribution and hides a risky payment.
\<close>

lemma pin_counter_wraps:
  "as_Level (Evaluate plain_engine wild_signal) = RiskHigh"
  "as_Level (Evaluate plain_engine (wild_signal\<lparr>rs_FailedPINAttempts := 2 ^ 61\<rparr>)) = RiskLow"
  by code_simp+

end
