(* ===== verification/FraudGraph.thy ===== *)
theory FraudGraph
  imports Float64 "HOL-Library.AList"
begin

text \<open>
  The payment graph of \<open>domain/fraud/gnn.go\<close>: nodes, edges shared between the forward and the
  reverse index, risk propagation over three hops, the generation-checked cache, pruning and
  the keyword prior for unknown recipients. A Go map that the code ranges over is an
  association list, in some iteration order. An edge is a cell of \<open>fg_store\<close> and both indexes
  hold its address, so an update through one is seen through the other. \<open>H\<close> is the SHA-256 hex
  digest. The generation counter is unbounded (the code's wraps after \<open>2 ^ 64\<close> mutations).
\<close>

section \<open>Data\<close>

record GraphEdge =
  ge_To :: string
  ge_Weight :: rat
  ge_TxCount :: int
  ge_TotalAmt :: int
  ge_FirstTxAt :: time
  ge_LastTxAt :: time

record GraphNode =
  gn_ID :: string
  gn_IsFraud :: bool
  gn_IsMule :: bool
  gn_RiskScore :: rat
  gn_Edges :: "(string \<times> nat) list"
  gn_LastUpdate :: time

record FraudGraph =
  fg_nodes :: "(string \<times> GraphNode) list"
  fg_inEdges :: "(string \<times> (string \<times> nat) list) list"
  fg_store :: "GraphEdge list"
  fg_gen :: int
  fg_cache :: "string \<rightharpoonup> rat \<times> int"

definition maxHops :: nat where "maxHops = 3"
definition riskDecayFactor :: rat where "riskDecayFactor = fl (6 / 10)"
definition fraudNodeRisk :: rat where "fraudNodeRisk = 1"
definition muleNodeRisk :: rat where "muleNodeRisk = fl (8 / 10)"
definition maxGraphSize :: nat where "maxGraphSize = 10000"

section \<open>Weights\<close>

definition structuringWeight :: "GraphEdge \<Rightarrow> rat" where
  "structuringWeight e =
     (let countSignal = fl (fl (of_int (ge_TxCount e)) / 10);
          amtSignal = fl (fl (of_int (ge_TotalAmt e)) / 100000000);
          velSignal =
            (if ge_TxCount e \<ge> 2 \<and> ge_FirstTxAt e \<noteq> 0 then
               let days0 = fl (Hours (ge_LastTxAt e - ge_FirstTxAt e) / 24);
                   days = (if days0 < fl (1 / 24) then fl (1 / 24) else days0)
               in fl (fl (fl (of_int (ge_TxCount e)) / days) / 10)
             else 0)
      in min (max countSignal (max amtSignal velSignal)) 1)"

section \<open>Nodes and edges\<close>

definition hashRecipient :: "(string \<Rightarrow> string) \<Rightarrow> string \<Rightarrow> string" where
  "hashRecipient H recipient = take 32 (H (ToLower (TrimSpace recipient)))"

definition fresh_node :: "time \<Rightarrow> string \<Rightarrow> GraphNode" where
  "fresh_node now nodeID = \<lparr>gn_ID = nodeID, gn_IsFraud = False, gn_IsMule = False, gn_RiskScore = 0,
     gn_Edges = [], gn_LastUpdate = now\<rparr>"

definition getOrCreateNode :: "time \<Rightarrow> string \<Rightarrow> FraudGraph \<Rightarrow> GraphNode \<times> FraudGraph" where
  "getOrCreateNode now nodeID fg =
     (case map_of (fg_nodes fg) nodeID of
        Some n \<Rightarrow> (n, fg)
      | None \<Rightarrow> (fresh_node now nodeID,
          fg\<lparr>fg_nodes := AList.update nodeID (fresh_node now nodeID) (fg_nodes fg)\<rparr>))"

definition set_node :: "string \<Rightarrow> GraphNode \<Rightarrow> FraudGraph \<Rightarrow> FraudGraph" where
  "set_node nodeID n fg = fg\<lparr>fg_nodes := AList.update nodeID n (fg_nodes fg)\<rparr>"

definition knownFraud :: "string list" where
  "knownFraud = [''unknown-urgent'', ''lottery-winner'', ''free-prize'',
     ''fake-investment'', ''otp-scammer'', ''phishing-agent'']"

definition knownMules :: "string list" where
  "knownMules = [''mule-account-1'', ''mule-account-2'', ''mule-account-3'',
     ''rapid-withdrawal-node'', ''suspicious-beneficiary'']"

definition seedKnownFraudNodes :: "(string \<Rightarrow> string) \<Rightarrow> time \<Rightarrow> FraudGraph \<Rightarrow> FraudGraph" where
  "seedKnownFraudNodes H now fg =
     (let fg1 = fold (\<lambda>r. set_node (hashRecipient H r)
            ((fresh_node now (hashRecipient H r))\<lparr>gn_IsFraud := True, gn_RiskScore := fraudNodeRisk\<rparr>)) knownFraud fg
      in fold (\<lambda>r. set_node (hashRecipient H r)
            ((fresh_node now (hashRecipient H r))\<lparr>gn_IsMule := True, gn_RiskScore := muleNodeRisk\<rparr>)) knownMules fg1)"

definition NewFraudGraph :: "(string \<Rightarrow> string) \<Rightarrow> time \<Rightarrow> FraudGraph" where
  "NewFraudGraph H now = seedKnownFraudNodes H now
     \<lparr>fg_nodes = [], fg_inEdges = [], fg_store = [], fg_gen = 0, fg_cache = (\<lambda>_. None)\<rparr>"

definition in_senders :: "FraudGraph \<Rightarrow> string \<Rightarrow> (string \<times> nat) list" where
  "in_senders fg target = (case map_of (fg_inEdges fg) target of None \<Rightarrow> [] | Some m \<Rightarrow> m)"

section \<open>Pruning\<close>

text \<open>The two clean-up loops for a node that goes, then the node itself.\<close>

definition unlink_target :: "string \<Rightarrow> string \<Rightarrow> FraudGraph \<Rightarrow> FraudGraph" where
  "unlink_target i toID fg =
     (case map_of (fg_inEdges fg) toID of
        None \<Rightarrow> fg
      | Some senders \<Rightarrow>
          let senders' = AList.delete i senders in
          fg\<lparr>fg_inEdges := if senders' = [] then AList.delete toID (fg_inEdges fg)
                           else AList.update toID senders' (fg_inEdges fg)\<rparr>)"

definition unlink_sender :: "string \<Rightarrow> string \<Rightarrow> FraudGraph \<Rightarrow> FraudGraph" where
  "unlink_sender i senderID fg =
     (case map_of (fg_nodes fg) senderID of
        None \<Rightarrow> fg
      | Some sender \<Rightarrow> set_node senderID (sender\<lparr>gn_Edges := AList.delete i (gn_Edges sender)\<rparr>) fg)"

definition remove_node :: "string \<Rightarrow> GraphNode \<Rightarrow> FraudGraph \<Rightarrow> FraudGraph" where
  "remove_node i node fg =
     (let fg1 = fold (unlink_target i) (map fst (gn_Edges node)) fg;
          fg2 = fold (unlink_sender i) (map fst (in_senders fg1 i)) fg1
      in fg2\<lparr>fg_inEdges := AList.delete i (fg_inEdges fg2), fg_cache := (fg_cache fg2)(i := None),
             fg_nodes := AList.delete i (fg_nodes fg2)\<rparr>)"

definition prune_step :: "time \<Rightarrow> string \<Rightarrow> FraudGraph \<times> bool \<Rightarrow> FraudGraph \<times> bool" where
  "prune_step cutoff i = (\<lambda>(fg, pruned).
     case map_of (fg_nodes fg) i of
       None \<Rightarrow> (fg, pruned)
     | Some node \<Rightarrow>
         if gn_IsFraud node \<or> gn_IsMule node \<or> \<not> gn_LastUpdate node < cutoff then (fg, pruned)
         else (remove_node i node fg, True))"

definition pruneOldNodes :: "time \<Rightarrow> FraudGraph \<Rightarrow> FraudGraph" where
  "pruneOldNodes now fg =
     (case fold (prune_step (now - 30 * 24 * hour)) (map fst (fg_nodes fg)) (fg, False) of
        (fg1, pruned) \<Rightarrow> if pruned then fg1\<lparr>fg_gen := fg_gen fg1 + 1\<rparr> else fg1)"

section \<open>Recording payments and marks\<close>

definition link_edge :: "time \<Rightarrow> string \<Rightarrow> string \<Rightarrow> GraphNode \<Rightarrow> FraudGraph \<Rightarrow> nat \<times> FraudGraph" where
  "link_edge now fromID toID fromNode fg =
     (case map_of (gn_Edges fromNode) toID of
        Some a \<Rightarrow> (a, fg)
      | None \<Rightarrow>
          let a = length (fg_store fg);
              edge = \<lparr>ge_To = toID, ge_Weight = 0, ge_TxCount = 0, ge_TotalAmt = 0,
                      ge_FirstTxAt = now, ge_LastTxAt = 0\<rparr>;
              fg1 = set_node fromID (fromNode\<lparr>gn_Edges := AList.update toID a (gn_Edges fromNode)\<rparr>)
                      (fg\<lparr>fg_store := fg_store fg @ [edge]\<rparr>)
          in (a, fg1\<lparr>fg_inEdges :=
               AList.update toID (AList.update fromID a (in_senders fg1 toID)) (fg_inEdges fg1)\<rparr>))"

definition bump_edge :: "time \<Rightarrow> int \<Rightarrow> GraphEdge \<Rightarrow> GraphEdge" where
  "bump_edge now amountPaise e =
     (let e1 = e\<lparr>ge_TxCount := ge_TxCount e + 1, ge_TotalAmt := i64 (ge_TotalAmt e + amountPaise),
                 ge_LastTxAt := now\<rparr>
      in e1\<lparr>ge_Weight := structuringWeight e1\<rparr>)"

definition AddTransaction ::
  "(string \<Rightarrow> string) \<Rightarrow> time \<Rightarrow> string \<Rightarrow> string \<Rightarrow> int \<Rightarrow> FraudGraph \<Rightarrow> FraudGraph" where
  "AddTransaction H now payer payee amountPaise fg =
     (let fromID = hashRecipient H payer;
          toID = hashRecipient H payee;
          fg1 = (if length (fg_nodes fg) \<ge> maxGraphSize then pruneOldNodes now fg else fg);
          fg2 = snd (getOrCreateNode now fromID fg1);
          fg3 = snd (getOrCreateNode now toID fg2)
      in case getOrCreateNode now fromID fg3 of (fromNode, _) \<Rightarrow>
         case link_edge now fromID toID fromNode fg3 of (a, fg4) \<Rightarrow>
           fg4\<lparr>fg_store := (fg_store fg4)[a := bump_edge now amountPaise (fg_store fg4 ! a)],
               fg_gen := fg_gen fg4 + 1\<rparr>)"

definition MarkAsFraud :: "(string \<Rightarrow> string) \<Rightarrow> time \<Rightarrow> string \<Rightarrow> FraudGraph \<Rightarrow> FraudGraph" where
  "MarkAsFraud H now recipient fg =
     (case getOrCreateNode now (hashRecipient H recipient) fg of (node, fg1) \<Rightarrow>
        (set_node (hashRecipient H recipient) (node\<lparr>gn_IsFraud := True, gn_RiskScore := fraudNodeRisk\<rparr>) fg1)
          \<lparr>fg_gen := fg_gen fg1 + 1\<rparr>)"

definition MarkAsMule :: "(string \<Rightarrow> string) \<Rightarrow> time \<Rightarrow> string \<Rightarrow> FraudGraph \<Rightarrow> FraudGraph" where
  "MarkAsMule H now recipient fg =
     (case getOrCreateNode now (hashRecipient H recipient) fg of (node, fg1) \<Rightarrow>
        (set_node (hashRecipient H recipient)
           (node\<lparr>gn_IsMule := True, gn_RiskScore := max (gn_RiskScore node) muleNodeRisk\<rparr>) fg1)
          \<lparr>fg_gen := fg_gen fg1 + 1\<rparr>)"

section \<open>Scoring\<close>

definition is_token_char :: "char \<Rightarrow> bool" where
  "is_token_char c = (let n = (of_char c :: nat) in 97 \<le> n \<and> n \<le> 122 \<or> 48 \<le> n \<and> n \<le> 57)"

fun tokens_of :: "string \<Rightarrow> string \<Rightarrow> string list" where
  "tokens_of [] cur = (if cur = [] then [] else [rev cur])"
| "tokens_of (c # cs) cur =
     (if is_token_char c then tokens_of cs (c # cur)
      else if cur = [] then tokens_of cs [] else rev cur # tokens_of cs [])"

definition tokenize :: "string \<Rightarrow> string list" where
  "tokenize s = tokens_of s []"

definition riskKeywords :: "(string \<times> rat) list" where
  "riskKeywords =
     map (\<lambda>k. (k, fl (9 / 10)))
       [''unknown'', ''urgent'', ''lottery'', ''prize'', ''winner'', ''free'', ''gift'', ''claim'',
        ''verify'', ''otp'', ''hack'', ''suspended'', ''blocked'', ''limited''] @
     map (\<lambda>k. (k, 1 / 2))
       [''temp'', ''test'', ''demo'', ''fake'', ''invest'', ''scheme'', ''offer'', ''deal'']"

definition patternBasedScore :: "string \<Rightarrow> rat" where
  "patternBasedScore recipient =
     (let r = ToLower (TrimSpace recipient) in
      if r = [] then 1 / 2
      else
        let score1 = foldl (\<lambda>score tok. case map_of riskKeywords tok of
                Some w \<Rightarrow> max score w | None \<Rightarrow> score) 0 (tokenize r);
            score2 = (if length r \<le> 3 then max score1 (fl (4 / 10)) else score1)
        in if score2 = 0 then fl (1 / 10) else score2)"

definition edge_weight :: "FraudGraph \<Rightarrow> nat \<Rightarrow> rat" where
  "edge_weight fg a = ge_Weight (fg_store fg ! a)"

definition propagate :: "rat \<Rightarrow> rat \<Rightarrow> rat" where
  "propagate risk weight = fl (fl (risk * riskDecayFactor) * weight)"

definition reverse_risks :: "FraudGraph \<Rightarrow> string \<Rightarrow> rat list" where
  "reverse_risks fg nodeID = concat (map (\<lambda>(senderID, a).
     case map_of (fg_nodes fg) senderID of
       None \<Rightarrow> []
     | Some sender \<Rightarrow>
         if \<not> gn_IsFraud sender \<and> \<not> gn_IsMule sender then []
         else [propagate (if gn_IsFraud sender then fraudNodeRisk else muleNodeRisk) (edge_weight fg a)])
     (in_senders fg nodeID))"

definition forward_risks :: "FraudGraph \<Rightarrow> (string \<Rightarrow> rat) \<Rightarrow> GraphNode \<Rightarrow> rat list" where
  "forward_risks fg further node = concat (map (\<lambda>(neighborID, a).
     case map_of (fg_nodes fg) neighborID of
       None \<Rightarrow> []
     | Some neighbor \<Rightarrow>
         let neighborRisk = (if gn_IsFraud neighbor then fraudNodeRisk
                             else if gn_IsMule neighbor then muleNodeRisk
                             else further neighborID)
         in if neighborRisk > 0 then [propagate neighborRisk (edge_weight fg a)] else [])
     (gn_Edges node))"

fun computeNHopRisk :: "FraudGraph \<Rightarrow> string \<Rightarrow> nat \<Rightarrow> string set \<Rightarrow> rat" where
  "computeNHopRisk fg nodeID 0 visited = 0"
| "computeNHopRisk fg nodeID (Suc hopsRemaining) visited =
     (if nodeID \<in> visited then 0
      else case map_of (fg_nodes fg) nodeID of
        None \<Rightarrow> 0
      | Some node \<Rightarrow>
          foldl max 0
            (forward_risks fg (\<lambda>j. computeNHopRisk fg j hopsRemaining (insert nodeID visited)) node @
             reverse_risks fg nodeID))"

definition node_risk :: "FraudGraph \<Rightarrow> string \<Rightarrow> GraphNode \<Rightarrow> rat" where
  "node_risk fg nodeID node =
     (if gn_IsFraud node then fraudNodeRisk else if gn_IsMule node then muleNodeRisk
      else computeNHopRisk fg nodeID maxHops {})"

definition GetRiskScore :: "(string \<Rightarrow> string) \<Rightarrow> string \<Rightarrow> FraudGraph \<Rightarrow> rat \<times> FraudGraph" where
  "GetRiskScore H recipient fg =
     (let nodeID = hashRecipient H recipient in
      case map_of (fg_nodes fg) nodeID of
        None \<Rightarrow> (patternBasedScore recipient, fg)
      | Some node \<Rightarrow>
          let computed = (let risk = node_risk fg nodeID node in
                (risk, fg\<lparr>fg_cache := (fg_cache fg)(nodeID \<mapsto> (risk, fg_gen fg))\<rparr>))
          in case fg_cache fg nodeID of
               Some (risk, g) \<Rightarrow> if g = fg_gen fg then (risk, fg) else computed
             | None \<Rightarrow> computed)"

definition GetStats :: "FraudGraph \<Rightarrow> int \<times> int \<times> int \<times> int" where
  "GetStats fg = (let ns = map snd (fg_nodes fg) in
     (int (length ns), \<Sum>n\<leftarrow>ns. int (length (gn_Edges n)),
      int (length (filter gn_IsFraud ns)), int (length (filter gn_IsMule ns))))"

section \<open>The two indexes\<close>

definition fwd :: "FraudGraph \<Rightarrow> string \<Rightarrow> string \<Rightarrow> nat option" where
  "fwd fg f t = (case map_of (fg_nodes fg) f of None \<Rightarrow> None | Some n \<Rightarrow> map_of (gn_Edges n) t)"

definition bwd :: "FraudGraph \<Rightarrow> string \<Rightarrow> string \<Rightarrow> nat option" where
  "bwd fg f t = map_of (in_senders fg t) f"

definition graph_inv :: "FraudGraph \<Rightarrow> bool" where
  "graph_inv fg \<longleftrightarrow> (\<forall>f t. fwd fg f t = bwd fg f t) \<and>
     (\<forall>f t a. fwd fg f t = Some a \<longrightarrow> a < length (fg_store fg) \<and> map_of (fg_nodes fg) t \<noteq> None) \<and>
     (\<forall>e \<in> set (fg_store fg). 0 \<le> ge_TxCount e \<and> 0 \<le> ge_Weight e \<and> ge_Weight e \<le> 1)"

lemmas alist_simps = update_conv' delete_conv'

lemma nodes_set_node [simp]: "map_of (fg_nodes (set_node i n fg)) = (map_of (fg_nodes fg))(i \<mapsto> n)"
  by (simp add: set_node_def alist_simps)

lemma set_node_frame [simp]:
  "fg_inEdges (set_node i n fg) = fg_inEdges fg" "fg_store (set_node i n fg) = fg_store fg"
  "fg_gen (set_node i n fg) = fg_gen fg" "fg_cache (set_node i n fg) = fg_cache fg"
  "in_senders (set_node i n fg) t = in_senders fg t" "bwd (set_node i n fg) f t = bwd fg f t"
  by (simp_all add: set_node_def in_senders_def bwd_def)

lemma fwd_set_node: "fwd (set_node i n fg) f t = (if f = i then map_of (gn_Edges n) t else fwd fg f t)"
  by (simp add: fwd_def)

lemma getOrCreateNode_snd:
  "fwd (snd (getOrCreateNode now i fg)) = fwd fg" "bwd (snd (getOrCreateNode now i fg)) = bwd fg"
  "fg_store (snd (getOrCreateNode now i fg)) = fg_store fg" "fg_gen (snd (getOrCreateNode now i fg)) = fg_gen fg"
  "fg_cache (snd (getOrCreateNode now i fg)) = fg_cache fg"
  "in_senders (snd (getOrCreateNode now i fg)) = in_senders fg"
  "map_of (fg_nodes (snd (getOrCreateNode now i fg))) =
     (if map_of (fg_nodes fg) i = None then (map_of (fg_nodes fg))(i \<mapsto> fresh_node now i) else map_of (fg_nodes fg))"
  by (auto simp: getOrCreateNode_def fwd_def bwd_def in_senders_def fresh_node_def alist_simps fun_eq_iff
      split: option.splits)

lemma getOrCreateNode_fst:
  "fst (getOrCreateNode now i fg) = (case map_of (fg_nodes fg) i of None \<Rightarrow> fresh_node now i | Some n \<Rightarrow> n)"
  by (simp add: getOrCreateNode_def split: option.split)

lemma getOrCreateNode_edges: "map_of (gn_Edges (fst (getOrCreateNode now i fg))) t = fwd fg i t"
  by (simp add: getOrCreateNode_fst fwd_def fresh_node_def split: option.split)

lemma getOrCreateNode_inv [intro]: "graph_inv fg \<Longrightarrow> graph_inv (snd (getOrCreateNode now i fg))"
  by (auto simp: graph_inv_def getOrCreateNode_snd)

subsection \<open>Removing a node\<close>

lemma unlink_target_frame [simp]:
  "fg_nodes (unlink_target i t fg) = fg_nodes fg" "fg_store (unlink_target i t fg) = fg_store fg"
  "fg_gen (unlink_target i t fg) = fg_gen fg" "fg_cache (unlink_target i t fg) = fg_cache fg"
  by (simp_all add: unlink_target_def Let_def split: option.splits)

lemma bwd_unlink_target: "bwd (unlink_target i toID fg) f t = (if f = i \<and> t = toID then None else bwd fg f t)"
proof (cases "map_of (fg_inEdges fg) toID")
  case None
  then show ?thesis by (auto simp: unlink_target_def bwd_def in_senders_def)
next
  case (Some senders)
  have e: "map_of (AList.delete i senders) f = (if f = i then None else map_of senders f)"
    by (simp add: alist_simps)
  show ?thesis
  proof (cases "AList.delete i senders = []")
    case True
    with e have "f \<noteq> i \<Longrightarrow> map_of senders f = None" by simp
    with Some True show ?thesis by (auto simp: unlink_target_def bwd_def in_senders_def alist_simps)
  next
    case False
    with Some show ?thesis
      by (auto simp: unlink_target_def bwd_def in_senders_def alist_simps Let_def)
  qed
qed

lemma unlink_targets:
  "fg_nodes (fold (unlink_target i) ts fg) = fg_nodes fg \<and> fg_store (fold (unlink_target i) ts fg) = fg_store fg \<and>
   fg_gen (fold (unlink_target i) ts fg) = fg_gen fg \<and> fg_cache (fold (unlink_target i) ts fg) = fg_cache fg \<and>
   (\<forall>f t. bwd (fold (unlink_target i) ts fg) f t = (if f = i \<and> t \<in> set ts then None else bwd fg f t))"
  by (induction ts arbitrary: fg) (auto simp: bwd_unlink_target)

lemma unlink_sender_frame [simp]:
  "fg_inEdges (unlink_sender i f fg) = fg_inEdges fg" "fg_store (unlink_sender i f fg) = fg_store fg"
  "fg_gen (unlink_sender i f fg) = fg_gen fg" "fg_cache (unlink_sender i f fg) = fg_cache fg"
  "map_of (fg_nodes (unlink_sender i f fg)) j = None \<longleftrightarrow> map_of (fg_nodes fg) j = None"
  by (auto simp: unlink_sender_def split: option.splits)

lemma fwd_unlink_sender: "fwd (unlink_sender i s fg) f t = (if f = s \<and> t = i then None else fwd fg f t)"
  by (auto simp: unlink_sender_def fwd_set_node alist_simps fwd_def split: option.splits)

lemma unlink_senders:
  "fg_inEdges (fold (unlink_sender i) ss fg) = fg_inEdges fg \<and> fg_store (fold (unlink_sender i) ss fg) = fg_store fg \<and>
   fg_gen (fold (unlink_sender i) ss fg) = fg_gen fg \<and> fg_cache (fold (unlink_sender i) ss fg) = fg_cache fg \<and>
   (\<forall>j. map_of (fg_nodes (fold (unlink_sender i) ss fg)) j = None \<longleftrightarrow> map_of (fg_nodes fg) j = None) \<and>
   (\<forall>f t. fwd (fold (unlink_sender i) ss fg) f t = (if f \<in> set ss \<and> t = i then None else fwd fg f t))"
  by (induction ss arbitrary: fg) (auto simp: fwd_unlink_sender)

text \<open>A removed node takes exactly its own edges with it, in both indexes.\<close>

lemma remove_node_edges:
  assumes inv: "graph_inv fg" and node: "map_of (fg_nodes fg) i = Some node"
  shows "fwd (remove_node i node fg) f t = (if f = i \<or> t = i then None else fwd fg f t)"
    and "bwd (remove_node i node fg) f t = (if f = i \<or> t = i then None else fwd fg f t)"
    and "map_of (fg_nodes (remove_node i node fg)) j = None \<longleftrightarrow> j = i \<or> map_of (fg_nodes fg) j = None"
proof -
  define fg1 where "fg1 = fold (unlink_target i) (map fst (gn_Edges node)) fg"
  define fg2 where "fg2 = fold (unlink_sender i) (map fst (in_senders fg1 i)) fg1"
  have mirror: "fwd fg f t = bwd fg f t" for f t using inv by (simp add: graph_inv_def)
  have fwd1: "fwd fg1 f t = fwd fg f t" and nodes1: "fg_nodes fg1 = fg_nodes fg" for f t
    using unlink_targets [of i "map fst (gn_Edges node)" fg] by (simp_all add: fg1_def fwd_def)
  have i_edges: "t \<in> set (map fst (gn_Edges node)) \<longleftrightarrow> fwd fg i t \<noteq> None" for t
    using node by (simp add: fwd_def map_of_eq_None_iff)
  have bwd1: "bwd fg1 f t = (if f = i then None else bwd fg f t)" for f t
    using unlink_targets [of i "map fst (gn_Edges node)" fg] i_edges [of t] mirror [of i t]
    by (auto simp: fg1_def)
  have "f \<in> set (map fst (in_senders fg1 i)) \<longleftrightarrow> bwd fg1 f i \<noteq> None" for f
    by (simp add: bwd_def map_of_eq_None_iff)
  then have senders: "f \<in> set (map fst (in_senders fg1 i)) \<longleftrightarrow> f \<noteq> i \<and> fwd fg f i \<noteq> None" for f
    using bwd1 mirror by auto
  have fwd2: "f \<noteq> i \<Longrightarrow> fwd fg2 f t = (if t = i then None else fwd fg f t)" for f t
    using unlink_senders [of i "map fst (in_senders fg1 i)" fg1] senders [of f] fwd1 by (auto simp: fg2_def)
  have in2: "fg_inEdges fg2 = fg_inEdges fg1" and nodes2: "map_of (fg_nodes fg2) j = None \<longleftrightarrow> map_of (fg_nodes fg) j = None" for j
    using unlink_senders [of i "map fst (in_senders fg1 i)" fg1] nodes1 by (simp_all add: fg2_def)
  have r: "remove_node i node fg = fg2\<lparr>fg_inEdges := AList.delete i (fg_inEdges fg2),
      fg_cache := (fg_cache fg2)(i := None), fg_nodes := AList.delete i (fg_nodes fg2)\<rparr>"
    by (simp add: remove_node_def Let_def fg1_def fg2_def)
  show "fwd (remove_node i node fg) f t = (if f = i \<or> t = i then None else fwd fg f t)"
    using fwd2 [of f t] by (auto simp: r fwd_def alist_simps)
  show "bwd (remove_node i node fg) f t = (if f = i \<or> t = i then None else fwd fg f t)"
    using bwd1 [of f t] mirror [of f t] in2 by (auto simp: r bwd_def in_senders_def alist_simps)
  show "map_of (fg_nodes (remove_node i node fg)) j = None \<longleftrightarrow> j = i \<or> map_of (fg_nodes fg) j = None"
    using nodes2 [of j] by (auto simp: r alist_simps)
qed

lemma remove_node_frame [simp]:
  "fg_store (remove_node i node fg) = fg_store fg" "fg_gen (remove_node i node fg) = fg_gen fg"
  "fg_cache (remove_node i node fg) = (fg_cache fg)(i := None)"
  using unlink_targets [of i "map fst (gn_Edges node)" fg]
    unlink_senders [of i "map fst (in_senders (fold (unlink_target i) (map fst (gn_Edges node)) fg) i)"
      "fold (unlink_target i) (map fst (gn_Edges node)) fg"]
  by (simp_all add: remove_node_def Let_def)

lemma remove_node_inv:
  "graph_inv fg \<Longrightarrow> map_of (fg_nodes fg) i = Some node \<Longrightarrow> graph_inv (remove_node i node fg)"
  using remove_node_edges [of fg i node] by (auto simp: graph_inv_def)

subsection \<open>Pruning\<close>

text \<open>What a pruning pass leaves: the same generation, no new cache entry, and nothing at all unless a node went.\<close>

definition prune_rel :: "FraudGraph \<Rightarrow> FraudGraph \<times> bool \<Rightarrow> bool" where
  "prune_rel fg0 = (\<lambda>(fg, pruned). graph_inv fg \<and> fg_gen fg = fg_gen fg0 \<and> fg_cache fg \<subseteq>\<^sub>m fg_cache fg0 \<and>
     (\<not> pruned \<longrightarrow> fg = fg0))"

lemma prune_step_rel: "prune_rel fg0 p \<Longrightarrow> prune_rel fg0 (prune_step cutoff i p)"
  by (cases p) (auto simp: prune_rel_def prune_step_def remove_node_inv map_le_def split: option.splits)

lemma prune_fold_rel: "prune_rel fg0 p \<Longrightarrow> prune_rel fg0 (fold (prune_step cutoff) is p)"
  by (induction "is" arbitrary: p) (simp_all add: prune_step_rel)

lemma fwd_upd [simp]: "fwd (fg\<lparr>fg_gen := g\<rparr>) = fwd fg" "fwd (fg\<lparr>fg_cache := c\<rparr>) = fwd fg"
  "fwd (fg\<lparr>fg_store := st\<rparr>) = fwd fg" "fwd (fg\<lparr>fg_inEdges := ie\<rparr>) = fwd fg"
  by (simp_all add: fwd_def fun_eq_iff split: option.split)

lemma bwd_upd [simp]: "bwd (fg\<lparr>fg_gen := g\<rparr>) = bwd fg" "bwd (fg\<lparr>fg_cache := c\<rparr>) = bwd fg"
  "bwd (fg\<lparr>fg_store := st\<rparr>) = bwd fg"
  by (simp_all add: bwd_def in_senders_def fun_eq_iff)

lemma graph_inv_upd [simp]: "graph_inv (fg\<lparr>fg_gen := g\<rparr>) = graph_inv fg" "graph_inv (fg\<lparr>fg_cache := c\<rparr>) = graph_inv fg"
  by (simp_all add: graph_inv_def)

text \<open>The cache is right: its entries of the current generation are what a fresh computation gives.\<close>

definition cache_inv :: "FraudGraph \<Rightarrow> bool" where
  "cache_inv fg \<longleftrightarrow> (\<forall>i r g. fg_cache fg i = Some (r, g) \<longrightarrow> g \<le> fg_gen fg \<and>
     (g = fg_gen fg \<longrightarrow> (\<exists>node. map_of (fg_nodes fg) i = Some node \<and> r = node_risk fg i node)))"

definition cache_old :: "FraudGraph \<Rightarrow> bool" where
  "cache_old fg \<longleftrightarrow> (\<forall>i r g. fg_cache fg i = Some (r, g) \<longrightarrow> g \<le> fg_gen fg)"

lemma cache_inv_old [intro]: "cache_inv fg \<Longrightarrow> cache_old fg"
  by (auto simp: cache_inv_def cache_old_def)

lemma cache_inv_bump: "cache_old fg \<Longrightarrow> cache_inv (fg\<lparr>fg_gen := fg_gen fg + 1\<rparr>)"
  by (fastforce simp: cache_inv_def cache_old_def)

lemma pruneOldNodes_inv:
  assumes "graph_inv fg" and "cache_old fg"
  shows "graph_inv (pruneOldNodes now fg) \<and> cache_old (pruneOldNodes now fg)"
proof -
  let ?r = "fold (prune_step (now - 30 * 24 * hour)) (map fst (fg_nodes fg)) (fg, False)"
  have "prune_rel fg (fg, False)" using assms by (simp add: prune_rel_def)
  then have r: "prune_rel fg ?r" by (rule prune_fold_rel)
  obtain fg1 b where e: "?r = (fg1, b)" by fastforce
  with r have gi: "graph_inv fg1" and gen: "fg_gen fg1 = fg_gen fg" and le: "fg_cache fg1 \<subseteq>\<^sub>m fg_cache fg"
    by (auto simp: prune_rel_def)
  have old: "g \<le> fg_gen fg1" if c: "fg_cache fg1 i = Some (x, g)" for i x g
  proof -
    have "fg_cache fg i = Some (x, g)" using le c by (force simp: map_le_def)
    with gen assms(2) show ?thesis by (simp add: cache_old_def)
  qed
  then have "cache_old fg1" by (auto simp: cache_old_def)
  moreover from old have "cache_old (fg1\<lparr>fg_gen := fg_gen fg1 + 1\<rparr>)" by (fastforce simp: cache_old_def)
  ultimately show ?thesis using gi e by (auto simp: pruneOldNodes_def)
qed

subsection \<open>A recorded payment\<close>

lemma structuringWeight_unit: "0 \<le> ge_TxCount e \<Longrightarrow> 0 \<le> structuringWeight e \<and> structuringWeight e \<le> 1"
  by (simp add: structuringWeight_def Let_def le_max_iff_disj fl_nonneg)

lemma link_edge_inv:
  assumes inv: "graph_inv fg" and f: "map_of (fg_nodes fg) f = Some node" and t: "map_of (fg_nodes fg) t \<noteq> None"
  shows "graph_inv (snd (link_edge now f t node fg)) \<and>
    fst (link_edge now f t node fg) < length (fg_store (snd (link_edge now f t node fg))) \<and>
    fg_gen (snd (link_edge now f t node fg)) = fg_gen fg \<and>
    fg_cache (snd (link_edge now f t node fg)) = fg_cache fg \<and>
    fwd (snd (link_edge now f t node fg)) f t = Some (fst (link_edge now f t node fg))"
proof (cases "map_of (gn_Edges node) t")
  case (Some a)
  with f have "fwd fg f t = Some a" by (simp add: fwd_def)
  with inv Some show ?thesis by (auto simp: link_edge_def graph_inv_def)
next
  case None
  define a where "a = length (fg_store fg)"
  define fg' where "fg' = snd (link_edge now f t node fg)"
  have fst: "fst (link_edge now f t node fg) = a" using None by (simp add: link_edge_def Let_def a_def)
  have st: "fg_store fg' = fg_store fg @ [\<lparr>ge_To = t, ge_Weight = 0, ge_TxCount = 0, ge_TotalAmt = 0,
      ge_FirstTxAt = now, ge_LastTxAt = 0\<rparr>]"
    using None by (simp add: fg'_def link_edge_def Let_def)
  have fw: "fwd fg' g u = (if g = f \<and> u = t then Some a else fwd fg g u)" for g u
    using None f by (auto simp: fg'_def link_edge_def Let_def a_def fwd_set_node alist_simps)
      (auto simp: fwd_def)
  have bw: "bwd fg' g u = (if g = f \<and> u = t then Some a else bwd fg g u)" for g u
    using None by (auto simp: fg'_def link_edge_def Let_def a_def bwd_def in_senders_def alist_simps)
  have nd: "map_of (fg_nodes fg') u = None \<longleftrightarrow> map_of (fg_nodes fg) u = None" for u
    using None f by (auto simp: fg'_def link_edge_def Let_def)
  have "fwd fg g u = Some b \<Longrightarrow> b < length (fg_store fg) \<and> map_of (fg_nodes fg) u \<noteq> None" for g u b
    using inv by (auto simp: graph_inv_def)
  then have "graph_inv fg'"
    using inv t unfolding graph_inv_def fw bw st by (auto simp: nd a_def less_SucI)
  moreover have "fg_gen fg' = fg_gen fg" "fg_cache fg' = fg_cache fg"
    using None by (simp_all add: fg'_def link_edge_def Let_def)
  ultimately show ?thesis by (simp add: fst fw flip: fg'_def) (simp add: st a_def)
qed

lemma store_update_inv:
  assumes inv: "graph_inv fg" and a: "a < length (fg_store fg)"
  shows "graph_inv (fg\<lparr>fg_store := (fg_store fg)[a := bump_edge now m (fg_store fg ! a)]\<rparr>)"
proof -
  have e: "0 \<le> ge_TxCount (fg_store fg ! a)" using inv a by (simp add: graph_inv_def)
  let ?e = "bump_edge now m (fg_store fg ! a)"
  have "0 \<le> ge_TxCount ?e \<and> 0 \<le> ge_Weight ?e \<and> ge_Weight ?e \<le> 1"
    using e by (simp add: bump_edge_def Let_def structuringWeight_unit)
  then have "\<forall>x \<in> set ((fg_store fg)[a := ?e]). 0 \<le> ge_TxCount x \<and> 0 \<le> ge_Weight x \<and> ge_Weight x \<le> 1"
    using inv set_update_subset_insert [of "fg_store fg" a ?e] by (auto simp: graph_inv_def)
  with inv show ?thesis by (simp add: graph_inv_def)
qed

lemma AddTransaction_inv:
  assumes inv: "graph_inv fg" and old: "cache_old fg"
  shows "graph_inv (AddTransaction H now payer payee m fg) \<and> cache_inv (AddTransaction H now payer payee m fg)"
proof -
  let ?f = "hashRecipient H payer" and ?t = "hashRecipient H payee"
  define fg1 where "fg1 = (if length (fg_nodes fg) \<ge> maxGraphSize then pruneOldNodes now fg else fg)"
  define fg3 where "fg3 = snd (getOrCreateNode now ?t (snd (getOrCreateNode now ?f fg1)))"
  define node where "node = fst (getOrCreateNode now ?f fg3)"
  define fg4 where "fg4 = snd (link_edge now ?f ?t node fg3)"
  define a where "a = fst (link_edge now ?f ?t node fg3)"
  have 1: "graph_inv fg1 \<and> cache_old fg1" using pruneOldNodes_inv [OF assms] assms by (simp add: fg1_def)
  then have 3: "graph_inv fg3" "cache_old fg3"
    by (auto simp: fg3_def cache_old_def getOrCreateNode_snd)
  have nodes: "map_of (fg_nodes fg3) ?f = Some node" "map_of (fg_nodes fg3) ?t \<noteq> None"
    by (auto simp: node_def fg3_def getOrCreateNode_snd getOrCreateNode_fst split: option.split)
  have 4: "graph_inv fg4" "a < length (fg_store fg4)" "cache_old fg4"
    using link_edge_inv [OF 3(1) nodes, of now] 3(2) by (simp_all add: fg4_def a_def cache_old_def)
  define fg5 where "fg5 = fg4\<lparr>fg_store := (fg_store fg4)[a := bump_edge now m (fg_store fg4 ! a)]\<rparr>"
  have 5: "graph_inv fg5" "cache_old fg5"
    using store_update_inv [OF 4(1, 2)] 4(3) by (simp_all add: fg5_def cache_old_def)
  have "AddTransaction H now payer payee m fg = fg5\<lparr>fg_gen := fg_gen fg5 + 1\<rparr>"
    by (simp add: AddTransaction_def Let_def fg5_def fg4_def a_def node_def fg3_def fg1_def split_beta)
  with 5 show ?thesis by (simp add: cache_inv_bump)
qed

lemma mark_inv:
  assumes inv: "graph_inv fg" and old: "cache_old fg" and e: "gn_Edges n = gn_Edges (fst (getOrCreateNode now i fg))"
  shows "graph_inv (set_node i n (snd (getOrCreateNode now i fg))) \<and>
    cache_old (set_node i n (snd (getOrCreateNode now i fg)))"
proof -
  have fw: "fwd (set_node i n (snd (getOrCreateNode now i fg))) = fwd fg"
    by (auto simp: fun_eq_iff fwd_set_node getOrCreateNode_snd e getOrCreateNode_edges)
  moreover have bw: "bwd (set_node i n (snd (getOrCreateNode now i fg))) = bwd fg"
    by (simp add: fun_eq_iff getOrCreateNode_snd)
  ultimately show ?thesis
    using inv old by (auto simp: graph_inv_def cache_old_def getOrCreateNode_snd)
qed

lemma mark_bump:
  assumes "graph_inv fg" and "cache_old fg" and "gn_Edges n = gn_Edges (fst (getOrCreateNode now i fg))"
  shows "graph_inv ((set_node i n (snd (getOrCreateNode now i fg)))\<lparr>fg_gen := fg_gen fg + 1\<rparr>) \<and>
    cache_inv ((set_node i n (snd (getOrCreateNode now i fg)))\<lparr>fg_gen := fg_gen fg + 1\<rparr>)"
proof -
  let ?fg = "set_node i n (snd (getOrCreateNode now i fg))"
  have "graph_inv ?fg" and "cache_inv (?fg\<lparr>fg_gen := fg_gen ?fg + 1\<rparr>)"
    using mark_inv [OF assms] cache_inv_bump [of ?fg] by simp_all
  then show ?thesis by (simp add: getOrCreateNode_snd)
qed

lemma MarkAsFraud_inv:
  "graph_inv fg \<Longrightarrow> cache_old fg \<Longrightarrow>
   graph_inv (MarkAsFraud H now r fg) \<and> cache_inv (MarkAsFraud H now r fg)"
  using mark_bump [of fg _ now "hashRecipient H r"]
  by (simp add: MarkAsFraud_def split_beta getOrCreateNode_snd)

lemma MarkAsMule_inv:
  "graph_inv fg \<Longrightarrow> cache_old fg \<Longrightarrow>
   graph_inv (MarkAsMule H now r fg) \<and> cache_inv (MarkAsMule H now r fg)"
  using mark_bump [of fg _ now "hashRecipient H r"]
  by (simp add: MarkAsMule_def split_beta getOrCreateNode_snd)

section \<open>Scores\<close>

lemma edge_weight_cache [simp]: "edge_weight (fg\<lparr>fg_cache := c\<rparr>) = edge_weight fg"
  by (simp add: edge_weight_def fun_eq_iff)

lemma risks_cache [simp]:
  "reverse_risks (fg\<lparr>fg_cache := c\<rparr>) = reverse_risks fg"
  "forward_risks (fg\<lparr>fg_cache := c\<rparr>) = forward_risks fg"
  unfolding reverse_risks_def [abs_def] forward_risks_def [abs_def] in_senders_def edge_weight_cache by simp_all

lemma computeNHopRisk_cache [simp]:
  "computeNHopRisk (fg\<lparr>fg_cache := c\<rparr>) i h visited = computeNHopRisk fg i h visited"
proof (induction h arbitrary: i visited)
  case (Suc h)
  then have "(\<lambda>j. computeNHopRisk (fg\<lparr>fg_cache := c\<rparr>) j h (insert i visited))
      = (\<lambda>j. computeNHopRisk fg j h (insert i visited))" by simp
  then show ?case
    unfolding computeNHopRisk.simps risks_cache by (cases "map_of (fg_nodes fg) i") simp_all
qed simp

lemma node_risk_cache [simp]: "node_risk (fg\<lparr>fg_cache := c\<rparr>) i node = node_risk fg i node"
  by (simp add: node_risk_def)

lemma GetRiskScore_inv:
  assumes "graph_inv fg" and "cache_inv fg"
  shows "graph_inv (snd (GetRiskScore H r fg)) \<and> cache_inv (snd (GetRiskScore H r fg))"
  using assms by (auto simp: GetRiskScore_def Let_def cache_inv_def split: option.splits)

lemma GetRiskScore_fresh:
  assumes "cache_inv fg"
  shows "fst (GetRiskScore H r fg) = (case map_of (fg_nodes fg) (hashRecipient H r) of
    None \<Rightarrow> patternBasedScore r | Some node \<Rightarrow> node_risk fg (hashRecipient H r) node)"
  using assms by (fastforce simp: GetRiskScore_def Let_def cache_inv_def split: option.splits)

text \<open>Every score lies between 0 and 1; a node that is not flagged itself gets at most one decay factor.\<close>

lemma riskDecayFactor_bounds: "0 \<le> riskDecayFactor" "riskDecayFactor \<le> 1"
  using fl_unit [of "6 / 10"] by (simp_all add: riskDecayFactor_def)

lemma muleNodeRisk_bounds: "0 \<le> muleNodeRisk" "muleNodeRisk \<le> 1"
  using fl_unit [of "8 / 10"] by (simp_all add: muleNodeRisk_def)

lemma propagate_bounds:
  assumes "0 \<le> r" "r \<le> 1" "0 \<le> w" "w \<le> 1"
  shows "0 \<le> propagate r w \<and> propagate r w \<le> riskDecayFactor"
proof -
  have "fl (r * riskDecayFactor) \<le> fl riskDecayFactor"
    using assms riskDecayFactor_bounds by (intro fl_mono) (simp add: mult_left_le_one_le)
  then have p: "0 \<le> fl (r * riskDecayFactor)" "fl (r * riskDecayFactor) \<le> riskDecayFactor"
    using assms riskDecayFactor_bounds by (simp_all add: fl_nonneg riskDecayFactor_def)
  have "fl (fl (r * riskDecayFactor) * w) \<le> fl riskDecayFactor"
    using p assms mult_left_le [of w "fl (r * riskDecayFactor)"] by (intro fl_mono) linarith
  with p assms show ?thesis by (simp add: propagate_def fl_nonneg riskDecayFactor_def)
qed

lemma foldl_max_bounds:
  "\<forall>x \<in> set xs. (x :: rat) \<le> b \<Longrightarrow> m \<le> b \<Longrightarrow> m \<le> foldl max m xs \<and> foldl max m xs \<le> b"
proof (induction xs arbitrary: m)
  case (Cons x xs)
  then have "max m x \<le> foldl max (max m x) xs \<and> foldl max (max m x) xs \<le> b" by (intro Cons.IH) auto
  then show ?case by auto
qed simp

lemma edge_weight_bounds:
  assumes "graph_inv fg" and "fwd fg f t = Some a"
  shows "0 \<le> edge_weight fg a" "edge_weight fg a \<le> 1"
proof -
  have "a < length (fg_store fg)" and "\<forall>e \<in> set (fg_store fg). 0 \<le> ge_Weight e \<and> ge_Weight e \<le> 1"
    using assms by (auto simp: graph_inv_def)
  then show "0 \<le> edge_weight fg a" "edge_weight fg a \<le> 1" by (auto simp: edge_weight_def)
qed

subsection \<open>Keys\<close>

text \<open>The association lists are maps: no key occurs twice.\<close>

definition keys_ok :: "FraudGraph \<Rightarrow> bool" where
  "keys_ok fg \<longleftrightarrow> (\<forall>t. distinct (map fst (in_senders fg t))) \<and>
     (\<forall>i n. map_of (fg_nodes fg) i = Some n \<longrightarrow> distinct (map fst (gn_Edges n)))"

lemma keys_ok_upd [simp]:
  "keys_ok (fg\<lparr>fg_gen := g\<rparr>) = keys_ok fg" "keys_ok (fg\<lparr>fg_cache := c\<rparr>) = keys_ok fg"
  "keys_ok (fg\<lparr>fg_store := st\<rparr>) = keys_ok fg"
  by (simp_all add: keys_ok_def in_senders_def)

lemma keys_ok_set_node: "keys_ok fg \<Longrightarrow> distinct (map fst (gn_Edges n)) \<Longrightarrow> keys_ok (set_node i n fg)"
  by (simp add: keys_ok_def)

lemma keys_ok_in_update:
  "keys_ok fg \<Longrightarrow> distinct (map fst m) \<Longrightarrow> keys_ok (fg\<lparr>fg_inEdges := AList.update t m (fg_inEdges fg)\<rparr>)"
  by (auto simp: keys_ok_def in_senders_def alist_simps)

lemma keys_ok_in_delete: "keys_ok fg \<Longrightarrow> keys_ok (fg\<lparr>fg_inEdges := AList.delete t (fg_inEdges fg)\<rparr>)"
  by (auto simp: keys_ok_def in_senders_def alist_simps)

lemma keys_ok_node: "keys_ok fg \<Longrightarrow> map_of (fg_nodes fg) i = Some n \<Longrightarrow> distinct (map fst (gn_Edges n))"
  by (simp add: keys_ok_def)

lemma keys_ok_senders: "keys_ok fg \<Longrightarrow> distinct (map fst (in_senders fg t))"
  by (simp add: keys_ok_def)

lemma keys_ok_unlink_target: "keys_ok fg \<Longrightarrow> keys_ok (unlink_target i t fg)"
  using keys_ok_senders [of fg t]
  by (auto simp: unlink_target_def Let_def in_senders_def distinct_delete
    intro!: keys_ok_in_update keys_ok_in_delete split: option.splits)

lemma keys_ok_unlink_sender: "keys_ok fg \<Longrightarrow> keys_ok (unlink_sender i f fg)"
  by (auto simp: unlink_sender_def distinct_delete keys_ok_node intro!: keys_ok_set_node split: option.splits)

lemma keys_ok_folds:
  "keys_ok fg \<Longrightarrow> keys_ok (fold (unlink_target i) ts fg)"
  "keys_ok fg \<Longrightarrow> keys_ok (fold (unlink_sender i) ss fg)"
  by (induction ts arbitrary: fg, simp_all add: keys_ok_unlink_target)
     (induction ss arbitrary: fg, simp_all add: keys_ok_unlink_sender)

lemma keys_ok_drop_node: "keys_ok fg \<Longrightarrow> keys_ok (fg\<lparr>fg_nodes := AList.delete i (fg_nodes fg)\<rparr>)"
  by (auto simp: keys_ok_def in_senders_def alist_simps)

lemma keys_ok_remove_node: "keys_ok fg \<Longrightarrow> keys_ok (remove_node i node fg)"
  using keys_ok_drop_node [OF keys_ok_in_delete [OF keys_ok_folds(2) [OF keys_ok_folds(1)]], of fg i]
  by (simp add: remove_node_def Let_def keys_ok_def in_senders_def)

lemma keys_ok_prune: "keys_ok fg \<Longrightarrow> keys_ok (pruneOldNodes now fg)"
proof -
  assume ok: "keys_ok fg"
  have step: "keys_ok (fst p) \<Longrightarrow> keys_ok (fst (prune_step c i p))" for c i p
    by (cases p) (simp add: prune_step_def keys_ok_remove_node split: option.split)
  have "keys_ok (fst p) \<Longrightarrow> keys_ok (fst (fold (prune_step c) is p))" for c "is" p
    by (induction "is" arbitrary: p) (simp_all add: step)
  with ok have "keys_ok (fst (fold (prune_step (now - 30 * 24 * hour)) (map fst (fg_nodes fg)) (fg, False)))"
    by simp
  then show ?thesis by (auto simp: pruneOldNodes_def split: prod.split)
qed

lemma keys_ok_getOrCreate: "keys_ok fg \<Longrightarrow> keys_ok (snd (getOrCreateNode now i fg))"
  by (simp add: getOrCreateNode_def keys_ok_set_node [unfolded set_node_def] fresh_node_def split: option.split)

lemma distinct_getOrCreate: "keys_ok fg \<Longrightarrow> distinct (map fst (gn_Edges (fst (getOrCreateNode now i fg))))"
  by (simp add: getOrCreateNode_fst fresh_node_def keys_ok_node split: option.split)

lemma keys_ok_link_edge:
  assumes ok: "keys_ok fg" and node: "distinct (map fst (gn_Edges node))"
  shows "keys_ok (snd (link_edge now f t node fg))"
proof (cases "map_of (gn_Edges node) t")
  case None
  let ?a = "length (fg_store fg)"
  define fg1 where "fg1 = set_node f (node\<lparr>gn_Edges := AList.update t ?a (gn_Edges node)\<rparr>)
    (fg\<lparr>fg_store := fg_store fg @ [\<lparr>ge_To = t, ge_Weight = 0, ge_TxCount = 0, ge_TotalAmt = 0,
       ge_FirstTxAt = now, ge_LastTxAt = 0\<rparr>]\<rparr>)"
  have 1: "keys_ok fg1" using ok node by (auto simp: fg1_def distinct_update intro!: keys_ok_set_node)
  have "keys_ok (fg1\<lparr>fg_inEdges := AList.update t (AList.update f ?a (in_senders fg1 t)) (fg_inEdges fg1)\<rparr>)"
    by (rule keys_ok_in_update [OF 1 distinct_update [OF keys_ok_senders [OF 1]]])
  then show ?thesis using None by (simp only: link_edge_def Let_def fg1_def option.case snd_conv)
qed (simp add: link_edge_def ok)

lemma keys_ok_AddTransaction:
  assumes ok: "keys_ok fg"
  shows "keys_ok (AddTransaction H now payer payee m fg)"
proof -
  let ?f = "hashRecipient H payer" and ?t = "hashRecipient H payee"
  define fg1 where "fg1 = (if length (fg_nodes fg) \<ge> maxGraphSize then pruneOldNodes now fg else fg)"
  define fg3 where "fg3 = snd (getOrCreateNode now ?t (snd (getOrCreateNode now ?f fg1)))"
  have "keys_ok fg3" using ok by (simp add: fg3_def fg1_def keys_ok_getOrCreate keys_ok_prune)
  then have "keys_ok (snd (link_edge now ?f ?t (fst (getOrCreateNode now ?f fg3)) fg3))"
    by (intro keys_ok_link_edge distinct_getOrCreate)
  then show ?thesis by (simp add: AddTransaction_def Let_def split_beta flip: fg1_def fg3_def)
qed

lemma keys_ok_Mark:
  "keys_ok fg \<Longrightarrow> keys_ok (MarkAsFraud H now r fg)"
  "keys_ok fg \<Longrightarrow> keys_ok (MarkAsMule H now r fg)"
  by (simp_all add: MarkAsFraud_def MarkAsMule_def split_beta keys_ok_set_node keys_ok_getOrCreate distinct_getOrCreate)

subsection \<open>Ranges\<close>

lemma reverse_risks_bounds:
  assumes inv: "graph_inv fg" and dist: "distinct (map fst (in_senders fg i))"
  shows "\<forall>x \<in> set (reverse_risks fg i). 0 \<le> x \<and> x \<le> riskDecayFactor"
proof -
  have "0 \<le> edge_weight fg a \<and> edge_weight fg a \<le> 1" if "(f, a) \<in> set (in_senders fg i)" for f a
  proof -
    have "bwd fg f i = Some a" using that dist by (simp add: bwd_def)
    with inv have "fwd fg f i = Some a" by (simp add: graph_inv_def)
    then show ?thesis using edge_weight_bounds [OF inv] by blast
  qed
  then show ?thesis
    using riskDecayFactor_bounds muleNodeRisk_bounds
    by (auto simp: reverse_risks_def fraudNodeRisk_def intro!: propagate_bounds [THEN conjunct1]
      propagate_bounds [THEN conjunct2] split: option.splits if_splits)
qed

lemma forward_risks_bounds:
  assumes inv: "graph_inv fg" and ok: "keys_ok fg" and node: "map_of (fg_nodes fg) i = Some node"
    and further: "\<And>j. 0 \<le> further j \<and> further j \<le> 1"
  shows "\<forall>x \<in> set (forward_risks fg further node). 0 \<le> x \<and> x \<le> riskDecayFactor"
proof -
  have "0 \<le> edge_weight fg a \<and> edge_weight fg a \<le> 1" if "(t, a) \<in> set (gn_Edges node)" for t a
  proof -
    have "fwd fg i t = Some a" using that node keys_ok_node [OF ok node] by (simp add: fwd_def)
    then show ?thesis using edge_weight_bounds [OF inv] by blast
  qed
  then show ?thesis
    using further riskDecayFactor_bounds muleNodeRisk_bounds
    by (auto simp: forward_risks_def fraudNodeRisk_def Let_def intro!: propagate_bounds [THEN conjunct1]
      propagate_bounds [THEN conjunct2] split: option.splits if_splits)
qed

lemma computeNHopRisk_bounds:
  assumes "graph_inv fg" and "keys_ok fg"
  shows "0 \<le> computeNHopRisk fg i h visited \<and> computeNHopRisk fg i h visited \<le> riskDecayFactor"
proof (induction h arbitrary: i visited)
  case (Suc h)
  show ?case
  proof (cases "i \<in> visited \<or> map_of (fg_nodes fg) i = None")
    case False
    then obtain node where node: "map_of (fg_nodes fg) i = Some node" by auto
    have "0 \<le> computeNHopRisk fg j h (insert i visited) \<and> computeNHopRisk fg j h (insert i visited) \<le> 1" for j
      using Suc.IH [of j "insert i visited"] riskDecayFactor_bounds by linarith
    from forward_risks_bounds [OF assms node this] reverse_risks_bounds [OF assms(1) keys_ok_senders [OF assms(2), of i]]
    have "\<forall>x \<in> set (forward_risks fg (\<lambda>j. computeNHopRisk fg j h (insert i visited)) node @ reverse_risks fg i).
        x \<le> riskDecayFactor" by auto
    from foldl_max_bounds [OF this riskDecayFactor_bounds(1)] False node show ?thesis by simp
  qed (auto simp: riskDecayFactor_bounds)
qed (simp add: riskDecayFactor_bounds)

lemma fl_literals: "1 / 2 \<le> fl (9 / 10)" "fl (4 / 10) \<le> 1 / 2" "fl (1 / 10) \<le> 1 / 2" "fl (9 / 10) \<le> 1"
  by code_simp+

lemma riskKeywords_bounds: "map_of riskKeywords tok = Some w \<Longrightarrow> 0 \<le> w \<and> w \<le> fl (9 / 10)"
proof -
  assume "map_of riskKeywords tok = Some w"
  then have "(tok, w) \<in> set riskKeywords" by (rule map_of_SomeD)
  then have "w = fl (9 / 10) \<or> w = 1 / 2" by (auto simp: riskKeywords_def)
  then show ?thesis using fl_literals(1) by (auto simp: fl_nonneg)
qed

lemma keyword_fold_bounds:
  "0 \<le> s \<Longrightarrow> s \<le> fl (9 / 10) \<Longrightarrow>
   0 \<le> foldl (\<lambda>score tok. case map_of riskKeywords tok of Some w \<Rightarrow> max score w | None \<Rightarrow> score) s toks \<and>
   foldl (\<lambda>score tok. case map_of riskKeywords tok of Some w \<Rightarrow> max score w | None \<Rightarrow> score) s toks \<le> fl (9 / 10)"
proof (induction toks arbitrary: s)
  case (Cons tok toks)
  show ?case
  proof (cases "map_of riskKeywords tok")
    case (Some w)
    with riskKeywords_bounds [OF Some] Cons.prems Cons.IH [of "max s w"] show ?thesis by simp
  qed (use Cons in simp)
qed simp

lemma patternBasedScore_bounds: "0 \<le> patternBasedScore r \<and> patternBasedScore r \<le> fl (9 / 10)"
proof -
  define s where "s = foldl (\<lambda>score tok. case map_of riskKeywords tok of Some w \<Rightarrow> max score w | None \<Rightarrow> score)
    0 (tokenize (ToLower (TrimSpace r)))"
  have "0 \<le> s \<and> s \<le> fl (9 / 10)" unfolding s_def by (rule keyword_fold_bounds) (simp_all add: fl_nonneg)
  then show ?thesis
    using fl_literals unfolding patternBasedScore_def Let_def s_def [symmetric]
    by (auto simp: le_max_iff_disj fl_nonneg)
qed

section \<open>Reachable graphs\<close>

inductive graph_reach :: "(string \<Rightarrow> string) \<Rightarrow> FraudGraph \<Rightarrow> bool" for H where
  start: "graph_reach H (NewFraudGraph H now)"
| payment: "graph_reach H fg \<Longrightarrow> graph_reach H (AddTransaction H now payer payee m fg)"
| fraud: "graph_reach H fg \<Longrightarrow> graph_reach H (MarkAsFraud H now r fg)"
| mule: "graph_reach H fg \<Longrightarrow> graph_reach H (MarkAsMule H now r fg)"
| score: "graph_reach H fg \<Longrightarrow> graph_reach H (snd (GetRiskScore H r fg))"

text \<open>Seeding creates nodes without edges and touches nothing else.\<close>

definition bare :: "FraudGraph \<Rightarrow> bool" where
  "bare fg \<longleftrightarrow> (\<forall>i n. map_of (fg_nodes fg) i = Some n \<longrightarrow> gn_Edges n = []) \<and>
     fg_inEdges fg = [] \<and> fg_store fg = [] \<and> fg_cache fg = (\<lambda>_. None)"

lemma bare_set_node: "bare fg \<Longrightarrow> gn_Edges n = [] \<Longrightarrow> bare (set_node i n fg)"
  by (simp add: bare_def)

lemma bare_fold: "bare fg \<Longrightarrow> (\<And>r. gn_Edges (mk r) = []) \<Longrightarrow> bare (fold (\<lambda>r. set_node (key r) (mk r)) rs fg)"
  by (induction rs arbitrary: fg) (simp_all add: bare_set_node)

lemma NewFraudGraph_start: "bare (NewFraudGraph H now)"
  unfolding NewFraudGraph_def seedKnownFraudNodes_def Let_def
  by (intro bare_fold) (simp_all add: bare_def fresh_node_def)

lemma graph_reach_inv: "graph_reach H fg \<Longrightarrow> graph_inv fg \<and> cache_inv fg \<and> keys_ok fg"
proof (induction rule: graph_reach.induct)
  case (start now)
  have "fwd (NewFraudGraph H now) f t = None" "in_senders (NewFraudGraph H now) t = []" for f t
    using NewFraudGraph_start [of H now] by (auto simp: bare_def fwd_def in_senders_def split: option.split)
  then show ?case
    using NewFraudGraph_start [of H now] by (auto simp: bare_def graph_inv_def cache_inv_def keys_ok_def bwd_def)
next
  case (payment fg now payer payee m)
  then show ?case
    using AddTransaction_inv [OF _ cache_inv_old, of fg] keys_ok_AddTransaction [of fg] by simp
next
  case (fraud fg now r)
  then show ?case using MarkAsFraud_inv [OF _ cache_inv_old, of fg] keys_ok_Mark(1) [of fg] by simp
next
  case (mule fg now r)
  then show ?case using MarkAsMule_inv [OF _ cache_inv_old, of fg] keys_ok_Mark(2) [of fg] by simp
next
  case (score fg r)
  then have "keys_ok (snd (GetRiskScore H r fg))"
    by (auto simp: GetRiskScore_def Let_def split: option.splits)
  then show ?case using GetRiskScore_inv [of fg H r] score by auto
qed

section \<open>Properties\<close>

text \<open>
  C12: In every reachable graph the reverse index holds exactly the forward edges, and it holds
  the same edge objects: whatever updates a payment's edge through one index is what the other
  index sees. Every edge's target is a node.
\<close>

theorem indexes_share_edges:
  assumes "graph_reach H fg"
  shows "fwd fg payer payee = bwd fg payer payee \<and>
    (fwd fg payer payee \<noteq> None \<longrightarrow> map_of (fg_nodes fg) payer \<noteq> None \<and> map_of (fg_nodes fg) payee \<noteq> None)"
proof -
  have inv: "graph_inv fg" using graph_reach_inv [OF assms] by simp
  then have "fwd fg payer payee = bwd fg payer payee"
    and "fwd fg payer payee \<noteq> None \<Longrightarrow> map_of (fg_nodes fg) payee \<noteq> None"
    by (auto simp: graph_inv_def)
  moreover have "fwd fg payer payee \<noteq> None \<Longrightarrow> map_of (fg_nodes fg) payer \<noteq> None"
    by (auto simp: fwd_def split: option.splits)
  ultimately show ?thesis by blast
qed

text \<open>
  C13: In every reachable graph the score of a recipient is the freshly computed one, cached or
  not; it is 1 for a known fraud account and 0.8 for a known mule, at most one decay factor
  (0.6) for any other known account, at most 0.9 for an unknown one, and never negative.
\<close>

theorem score_fresh_and_bounded:
  assumes "graph_reach H fg"
  shows "case map_of (fg_nodes fg) (hashRecipient H r) of
      None \<Rightarrow> fst (GetRiskScore H r fg) = patternBasedScore r \<and> 0 \<le> patternBasedScore r \<and>
        patternBasedScore r \<le> fl (9 / 10)
    | Some node \<Rightarrow>
        fst (GetRiskScore H r fg) =
          (if gn_IsFraud node then 1 else if gn_IsMule node then fl (8 / 10)
           else computeNHopRisk fg (hashRecipient H r) maxHops {}) \<and>
        0 \<le> fst (GetRiskScore H r fg) \<and>
        (\<not> gn_IsFraud node \<and> \<not> gn_IsMule node \<longrightarrow> fst (GetRiskScore H r fg) \<le> fl (6 / 10))"
proof -
  have inv: "graph_inv fg" "cache_inv fg" "keys_ok fg" using graph_reach_inv [OF assms] by auto
  have "0 \<le> computeNHopRisk fg i maxHops {} \<and> computeNHopRisk fg i maxHops {} \<le> fl (6 / 10)" for i
    using computeNHopRisk_bounds [OF inv(1, 3)] by (simp add: riskDecayFactor_def)
  then show ?thesis
    using GetRiskScore_fresh [OF inv(2)] patternBasedScore_bounds [of r]
    by (simp add: node_risk_def fraudNodeRisk_def muleNodeRisk_def fl_nonneg split: option.split)
qed

section \<open>Concrete graphs\<close>

definition demo_graph :: FraudGraph where
  "demo_graph = AddTransaction (\<lambda>s. s) 5 ''bad'' ''clean-a'' 100000
     (MarkAsFraud (\<lambda>s. s) 4 ''bad'' (NewFraudGraph (\<lambda>s. s) 3))"

lemma demo_graph_reach: "graph_reach (\<lambda>s. s) demo_graph"
  by (simp add: demo_graph_def graph_reach.intros)

lemma indexes_share_edges_witness: "fwd demo_graph ''bad'' ''clean-a'' = bwd demo_graph ''bad'' ''clean-a''"
  using indexes_share_edges [OF demo_graph_reach] by blast

lemma score_fresh_and_bounded_witness: "0 \<le> fst (GetRiskScore (\<lambda>s. s) ''bad'' demo_graph)"
  using score_fresh_and_bounded [OF demo_graph_reach, of "''bad''"] by (auto split: option.splits)

text \<open>
  \<open>LastUpdate\<close> is written only when a node is created, so the pruning pass, meant for nodes not
  updated in 30 days, removes an account that paid a second before.
\<close>

definition month_later :: time where "month_later = 31 * 24 * hour"

definition empty_graph :: FraudGraph where
  "empty_graph = \<lparr>fg_nodes = [], fg_inEdges = [], fg_store = [], fg_gen = 0, fg_cache = (\<lambda>_. None)\<rparr>"

lemma active_node_pruned:
  "fg_nodes (pruneOldNodes (month_later + second)
     (AddTransaction (\<lambda>s. s) month_later ''a'' ''b'' 100000 (AddTransaction (\<lambda>s. s) 0 ''a'' ''b'' 100000 empty_graph))) = []"
  by code_simp

end
