(* ===== verification/PlatformState.thy ===== *)
theory PlatformState
  imports AccountingLedger EventLedger Resilience JwtTokens SimBinding Passkey AdaptiveAuth RiskEngine
    FraudGraph "HOL-Library.AList"
begin

text \<open>
  The state of the platform service (\<open>domain/platform/service.go\<close>) as far as money, goals,
  transactions and step-up authentication need it, the helpers every operation uses (ids, audit,
  notifications, the idempotency cache) and the debit. An operation runs under the service lock
  and is modelled at one instant \<open>now\<close>; background goroutines, the optional database and the
  delivery of server-sent events are left out. \<open>sv_env\<close> holds the two library functions whose
  results the model never looks into: the JSON encoder (\<open>None\<close> when it fails) and SHA-256.
\<close>

section \<open>Data\<close>

record User =
  us_ID :: string
  us_Name :: string
  us_Mobile :: string
  us_Email :: string
  us_CKYC :: string
  us_KIN :: string
  us_UBT :: string
  us_EKYCVerified :: bool
  us_BiometricEnabled :: bool
  us_DeviceBound :: bool
  us_SIMBound :: bool
  us_NudgePreference :: string
  us_CreatedAt :: time

record Account =
  ac_ID :: string
  ac_AccountHolderName :: string
  ac_BankName :: string
  ac_Branch :: string
  ac_IFSCCode :: string
  ac_AccountNumberMaskedToken :: string
  ac_UPIID :: string
  ac_AccountType :: string
  ac_VerificationStatus :: string
  ac_Nickname :: string
  ac_PrimaryAccountFlag :: bool
  ac_AccountToken :: string
  ac_TokenProvider :: string
  ac_AccountVerificationAt :: "time option"
  ac_AccountVerificationMethod :: string
  ac_BalancePaise :: int
  ac_LinkedAt :: time

record Transaction =
  txn_ID :: string
  txn_UserID :: string
  txn_AmountPaise :: int
  txn_Currency :: string
  txn_DebitCredit :: string
  txn_Recipient :: string
  txn_MerchantName :: string
  txn_Channel :: string
  txn_Description :: string
  txn_Status :: string
  txn_RiskLevel :: RiskLevel
  txn_RiskScore :: rat
  txn_XAIReason :: xai_reason
  txn_DilithiumSignature :: "string option"
  txn_CreatedAt :: time
  txn_IdempotencyKey :: string
  txn_CoolingOffUntil :: "time option"

record TransactionResult =
  res_TransactionID :: string
  res_Status :: string
  res_RiskLevel :: RiskLevel
  res_RiskScore :: rat
  res_XAIReason :: xai_reason
  res_CoolingOffUntil :: "time option"
  res_StepUpRequired :: bool
  res_RequiredTier :: string
  res_RequireBiometric :: bool
  res_RequireOTP :: bool
  res_RequireManualReview :: bool
  res_DilithiumSignature :: "string option"

record Goal =
  gl_ID :: string
  gl_Name :: string
  gl_Description :: string
  gl_TargetAmountPaise :: int
  gl_Currency :: string
  gl_SavedAmountPaise :: int
  gl_MonthlyContributionPaise :: int
  gl_Frequency :: string
  gl_Priority :: string
  gl_StartDate :: time
  gl_TargetDate :: time
  gl_Status :: string
  gl_LinkedAccount :: string
  gl_ProgressPercent :: rat
  gl_ShortfallEstimatePaise :: int
  gl_CreatedAt :: time

record AuditEvent =
  au_ID :: string
  au_Timestamp :: time
  au_UserID :: string
  au_EventType :: string
  au_TriggeredBy :: string
  au_Outcome :: string
  au_Details :: string
  au_XAIReason :: string

record NotificationItem =
  ni_ID :: string
  ni_Category :: string
  ni_Title :: string
  ni_Body :: string
  ni_Severity :: string
  ni_Read :: bool
  ni_CreatedAt :: time

record AggregatorStatus =
  ag_LinkedInstitutionID :: string
  ag_ConnectorStatus :: string
  ag_LastSyncTimestamp :: "time option"
  ag_NumberOfAccountsAggregated :: int

record AuthProfile =
  ap_InternalUserID :: string
  ap_FullName :: string
  ap_MobileNumber :: string
  ap_Email :: string
  ap_PasswordHash :: string
  ap_OTPCode :: string
  ap_OTPExpiryTime :: "time option"
  ap_OTPAttempts :: int
  ap_DeviceIDFingerprint :: string
  ap_DeviceType :: string
  ap_AppVersion :: string
  ap_LastLoginTime :: "time option"
  ap_IPAddress :: string
  ap_SessionTokenID :: string
  ap_SessionStartTime :: "time option"
  ap_SessionExpiry :: "time option"
  ap_TrustedDeviceFlag :: bool
  ap_FailedLoginCount :: int
  ap_PINLockedUntil :: "time option"
  ap_DeviceChallengePublicKeyID :: string
  ap_ChallengeNonceID :: string
  ap_ChallengeStatus :: string
  ap_RegisteredKeyFingerprint :: string
  ap_StepUpAuthRequiredFlag :: bool
  ap_Role :: string
  ap_KYCVerified :: bool
  ap_BiometricEnabled :: bool

text \<open>The zero value of the struct.\<close>

definition blank_profile :: AuthProfile where
  "blank_profile =
     \<lparr>ap_InternalUserID = [], ap_FullName = [], ap_MobileNumber = [], ap_Email = [], ap_PasswordHash = [],
      ap_OTPCode = [], ap_OTPExpiryTime = None, ap_OTPAttempts = 0, ap_DeviceIDFingerprint = [],
      ap_DeviceType = [], ap_AppVersion = [], ap_LastLoginTime = None, ap_IPAddress = [],
      ap_SessionTokenID = [], ap_SessionStartTime = None, ap_SessionExpiry = None,
      ap_TrustedDeviceFlag = False, ap_FailedLoginCount = 0, ap_PINLockedUntil = None,
      ap_DeviceChallengePublicKeyID = [], ap_ChallengeNonceID = [], ap_ChallengeStatus = [],
      ap_RegisteredKeyFingerprint = [], ap_StepUpAuthRequiredFlag = False, ap_Role = [],
      ap_KYCVerified = False, ap_BiometricEnabled = False\<rparr>"

record KYCProfile =
  kp_UserID :: string
  kp_FullName :: string
  kp_DateOfBirth :: string
  kp_Gender :: string
  kp_MobileNumber :: string
  kp_Email :: string
  kp_PermanentAddress :: string
  kp_CommunicationAddress :: string
  kp_PANMasked :: string
  kp_AadhaarMaskedOrHash :: string
  kp_KYCDocumentTypes :: "string list"
  kp_KYCDocumentFiles :: "string list"
  kp_KYCStatus :: string
  kp_KYCSubmissionDate :: "time option"
  kp_Verifier :: string
  kp_Occupation :: string
  kp_Employer :: string
  kp_AnnualIncome :: string
  kp_TaxResidency :: string
  kp_NomineeDetails :: string
  kp_KYCVerifierID :: string
  kp_KYCDocumentHashRef :: string
  kp_KYCRejectionReason :: string
  kp_KYCVerificationMethod :: string

record ChallengeState =
  cs_ChallengeID :: string
  cs_NonceID :: string
  cs_Status :: string
  cs_CreatedAt :: time
  cs_VerifiedAt :: time

text \<open>
  The maps of the service that logins and sessions use. \<open>lg_sessions\<close> is an association list,
  because the code ranges over it; its order is an iteration order. The session store keeps a
  value with its expiry under each key.
\<close>

record LoginMaps =
  lg_mobileIndex :: "string \<rightharpoonup> string"
  lg_ckycIndex :: "string \<rightharpoonup> string"
  lg_sessions :: "(string \<times> string) list"
  lg_sessionStart :: "string \<rightharpoonup> time"
  lg_sessionExpiry :: "string \<rightharpoonup> time"
  lg_sessionDevice :: "string \<rightharpoonup> string"
  lg_sessionStore :: "string \<rightharpoonup> string \<times> time"
  lg_challenges :: "string \<rightharpoonup> string"
  lg_challengeState :: "string \<rightharpoonup> ChallengeState"
  lg_kycProfiles :: "string \<rightharpoonup> KYCProfile"
  lg_jwt :: "JWTManager option"
  lg_passkey :: PasskeyManager
  lg_simBinding :: SIMBindingManager

text \<open>What a customer owns, owes and has agreed to, and the vault of account tokens.\<close>

record InvestmentHolding =
  ih_ID :: string
  ih_Name :: string
  ih_InstrumentName :: string
  ih_Category :: string
  ih_QuantityUnits :: float64
  ih_AvgPurchasePricePaise :: int
  ih_CurrentValuePaise :: int
  ih_InvestedPaise :: int
  ih_LastValuationDate :: time
  ih_SIPAmountPaise :: int
  ih_SIPFrequency :: string
  ih_SIPStartDate :: time
  ih_SIPStatus :: string
  ih_BrokerFundHouse :: string
  ih_DividendsPaise :: int
  ih_TaxLotDate :: time
  ih_CAGR :: float64
  ih_RecommendationID :: string
  ih_RecommendationExplainability :: string
  ih_CreatedAt :: time

record InsurancePolicy =
  ip_PolicyID :: string
  ip_PolicyType :: string
  ip_Insurer :: string
  ip_SumAssuredPaise :: int
  ip_PremiumPaise :: int
  ip_NextDueDate :: string

record LoanRecord =
  lr_LoanID :: string
  lr_Lender :: string
  lr_LoanType :: string
  lr_OutstandingPaise :: int
  lr_EMIPaise :: int
  lr_InterestRate :: float64
  lr_RemainingMonths :: int

record NotificationSetting =
  ns_Category :: string
  ns_Enabled :: bool

record NetWorthAsset =
  nw_ID :: string
  nw_Type :: string
  nw_Description :: string
  nw_ValuePaise :: int
  nw_ValuationDate :: time
  nw_ValuationSource :: string

record EmergencyContact =
  ec_ID :: string
  ec_Name :: string
  ec_Relationship :: string
  ec_Phone :: string
  ec_Email :: string

record PersonalMaps =
  pe_consents :: "string \<rightharpoonup> (string \<rightharpoonup> bool)"
  pe_notifications :: "string \<rightharpoonup> NotificationSetting list"
  pe_investments :: "string \<rightharpoonup> InvestmentHolding list"
  pe_insurance :: "string \<rightharpoonup> InsurancePolicy list"
  pe_loans :: "string \<rightharpoonup> LoanRecord list"
  pe_netWorthAssets :: "string \<rightharpoonup> NetWorthAsset list"
  pe_emergencyContacts :: "string \<rightharpoonup> EmergencyContact list"
  pe_tokenMap :: "string \<rightharpoonup> string"
  pe_reverseTokenMap :: "string \<rightharpoonup> string"

record InitiateTransactionRequest =
  rq_AmountPaise :: int
  rq_Recipient :: string
  rq_Channel :: string
  rq_SessionTrustScore :: rat
  rq_BehaviourDrift :: rat
  rq_FailedPINAttempts :: int

record RefundInfo =
  rf_RefundID :: string
  rf_AmountPaise :: int
  rf_Reason :: string
  rf_Status :: string
  rf_InitiatedAt :: time
  rf_CompletedAt :: "time option"

record ReceiptVerification =
  rv_Verified :: bool
  rv_VerifiedAt :: "time option"
  rv_VerifiedBy :: string
  rv_VerifierType :: string
  rv_ReceiptHash :: string

record Payment =
  py_ID :: string
  py_UserID :: string
  py_BeneficiaryID :: string
  py_BeneficiaryName :: string
  py_BeneficiaryAccount :: string
  py_AmountPaise :: int
  py_Currency :: string
  py_Method :: string
  py_Status :: string
  py_RiskLevel :: string
  py_RiskScore :: rat
  py_StartedAt :: time
  py_CompletedAt :: "time option"
  py_BankReference :: string
  py_OTPVerified :: bool
  py_UserConsent :: bool
  py_RefundInfo :: "RefundInfo option"
  py_PaymentIntentID :: string
  py_UPIIntentID :: string
  py_QRCodePayload :: string
  py_ReceiptVerification :: "ReceiptVerification option"
  py_SIPID :: string
  py_PaymentTimelineID :: string
  py_StepUpChallengeID :: string
  py_DeviceChallengeKeyID :: string
  py_DilithiumSignature :: "string option"
  py_CreatedAt :: time

record Beneficiary =
  bn_ID :: string
  bn_BeneficiaryName :: string
  bn_RelationshipDescription :: string
  bn_UPIIDOrBankDetails :: string
  bn_DateAdded :: time
  bn_AddedBy :: string
  bn_VerificationStatus :: string
  bn_TrustScore :: rat
  bn_Notes :: string
  bn_ApproverID :: string
  bn_ApprovalTimestamp :: "time option"
  bn_CoolingActionID :: string
  bn_ApprovalInitiationID :: string

record FraudReport =
  fr_ID :: string
  fr_UserID :: string
  fr_Description :: string
  fr_CreatedAt :: time

text \<open>What the cooling-off check reads of a stored investment order.\<close>

record InvestmentOrder =
  io_order_id :: string
  io_status :: string
  io_cooling_off_until :: "time option"

record ModelParams =
  mp_Version :: string
  mp_AmountTerm :: AmountTermParams
  mp_CoolingBaseMinutes :: int

text \<open>What is marshalled to JSON for the ledger and the outbox.\<close>

datatype ledger_payload =
    PAudit AuditEvent
  | PTransaction Transaction
  | PResult TransactionResult
  | PGoal Goal
  | PRiskEvent string string rat RiskLevel string string string
  | PPayment Payment
  | PFraudReport FraudReport
  | PValidation string bool string rat string string string string
  | PFields "(string \<times> string) list"

record sv_env =
  env_H :: "string \<Rightarrow> string"
  env_json :: "ledger_payload \<Rightarrow> string option"

record 'f Service =
  sv_counter :: int
  sv_users :: "string \<rightharpoonup> User"
  sv_authProfiles :: "string \<rightharpoonup> AuthProfile"
  sv_login :: LoginMaps
  sv_personal :: PersonalMaps
  sv_accounts :: "string \<rightharpoonup> Account list"
  sv_transactions :: "string \<rightharpoonup> Transaction list"
  sv_payments :: "string \<rightharpoonup> Payment list"
  sv_beneficiaries :: "string \<rightharpoonup> string set"
  sv_beneficiaryRecords :: "string \<rightharpoonup> Beneficiary list"
  sv_aggregatorStatus :: "string \<rightharpoonup> AggregatorStatus"
  sv_idempotencyResult :: "(string \<times> TransactionResult) list"
  sv_idempotencyExpiry :: "(string \<times> time) list"
  sv_goalIdempotency :: "string \<rightharpoonup> Goal"
  sv_goals :: "string \<rightharpoonup> Goal list"
  sv_fraudReports :: "FraudReport list"
  sv_investmentOrders :: "string \<rightharpoonup> InvestmentOrder list"
  sv_audit :: "AuditEvent list"
  sv_freezeState :: "string \<rightharpoonup> bool"
  sv_ledger :: "'f Ledger"
  sv_otpAttempts :: "string \<rightharpoonup> int"
  sv_otpLockUntil :: "string \<rightharpoonup> time"
  sv_adaptiveAuth :: AdaptiveAuthManager
  sv_threatResponse :: ThreatResponseManager
  sv_riskEngine :: RiskEngine
  sv_fraudGraph :: FraudGraph
  sv_notificationCenter :: "string \<rightharpoonup> NotificationItem list"
  sv_accountingLedger :: AccountingLedger
  sv_outbox :: Outbox
  sv_dilithium :: "(string \<Rightarrow> string option) option"
  sv_params :: ModelParams

datatype svc_error =
    UserNotFound | UserIDMissing | Unauthorized | IdempotencyKeyRequired | AmountMustBePositive | RecipientRequired
  | InsufficientFunds | LedgerRejected write_error | TransactionIDRequired | BiometricAndOTPRequired
  | NotPendingOverride | TransactionNotFound | BiometricRequired
  | OTPRequired | OTPTooManyAttempts | OTPExpired | OTPLocked | OTPInvalid | AuthProfileNotFound
  | RandomSourceFailed | CoolingOffWindowExpired string
  | TargetMustBePositive | GoalNameRequired | TargetDateInPast | ContributionMustBePositive
  | ContributionTooLarge | GoalNotActive | ContributionOverflow | GoalNotFound | GoalAlreadyDissolved
  | OnlyActiveCanPause | OnlyPausedCanResume | BankNameAndMaskRequired | AccountNotFound
  | BeneficiaryDetailsRequired | BeneficiaryNotFound | PayeeRequired | InsufficientBalance | PaymentNotFound
  | ReceiptAlreadyVerified | DescriptionRequired | NilMapPanic

type_synonym ('f, 'a) svc = "(svc_error + 'a) \<times> 'f Service"

section \<open>Small helpers\<close>

definition firstNonEmpty :: "string \<Rightarrow> string \<Rightarrow> string" where
  "firstNonEmpty value fallback = (if TrimSpace value \<noteq> [] then value else fallback)"

definition clamp :: "rat \<Rightarrow> rat \<Rightarrow> rat \<Rightarrow> rat" where
  "clamp value minValue maxValue =
     (if value < minValue then minValue else if value > maxValue then maxValue else value)"

text \<open>Rupees with two decimals, as \<open>%.2f\<close> and \<open>StringFixed(2)\<close> print an amount in paise.\<close>

definition rupees :: "int \<Rightarrow> string" where
  "rupees p = (let a = \<bar>p\<bar> in
     (if p < 0 then ''-'' else []) @ dec (a div 100) @ ''.'' @ pad0 2 (dec (a mod 100)))"

definition FormatMoney :: "int \<Rightarrow> string" where
  "FormatMoney paise = ''INR '' @ rupees paise"

definition nextID :: "string \<Rightarrow> 'f Service \<Rightarrow> string \<times> 'f Service" where
  "nextID pfx s =
     (let v = (sv_counter s + 1) mod 2 ^ 64
      in (pfx @ ''-'' @ pad0 6 (dec v), s\<lparr>sv_counter := v\<rparr>))"

definition ledger_write ::
  "sv_env \<Rightarrow> time \<Rightarrow> string \<Rightarrow> string \<Rightarrow> string \<Rightarrow> ledger_payload \<Rightarrow> 'f Service \<Rightarrow> 'f Service" where
  "ledger_write env now userID action resource p s =
     s\<lparr>sv_ledger := snd (WriteEvent (env_H env) now (\<lambda>_. now) userID action resource (env_json env p) (sv_ledger s))\<rparr>"

definition appendAudit ::
  "sv_env \<Rightarrow> time \<Rightarrow> string \<Rightarrow> string \<Rightarrow> string \<Rightarrow> string \<Rightarrow> string \<Rightarrow> string
     \<Rightarrow> 'f Service \<Rightarrow> 'f Service" where
  "appendAudit env now userID eventType resource outcome details triggeredBy s =
     (case nextID ''audit'' s of (i, s1) \<Rightarrow>
        let item = \<lparr>au_ID = i, au_Timestamp = now, au_UserID = userID, au_EventType = eventType,
                    au_TriggeredBy = triggeredBy, au_Outcome = outcome, au_Details = details,
                    au_XAIReason = []\<rparr>
        in ledger_write env now userID eventType resource (PAudit item)
             (s1\<lparr>sv_audit := sv_audit s1 @ [item]\<rparr>))"

definition PushNotification ::
  "time \<Rightarrow> string \<Rightarrow> string \<Rightarrow> string \<Rightarrow> string \<Rightarrow> 'f Service \<Rightarrow> 'f Service" where
  "PushNotification now userID category title body s =
     (case nextID ''notif'' s of (i, s1) \<Rightarrow>
        let item = \<lparr>ni_ID = i, ni_Category = category, ni_Title = title, ni_Body = body, ni_Severity = [],
                    ni_Read = False, ni_CreatedAt = now\<rparr>;
            items = item # get_list (sv_notificationCenter s1) userID
        in s1\<lparr>sv_notificationCenter := (sv_notificationCenter s1)(userID \<mapsto> take 100 items)\<rparr>)"

section \<open>The idempotency cache\<close>

text \<open>The two Go maps are association lists; the list order is an iteration order.\<close>

definition idempotencyTTL :: duration where "idempotencyTTL = 24 * hour"
definition idempotencyMaxEntries :: nat where "idempotencyMaxEntries = 10000"

fun oldest_loop :: "(string \<times> time) list \<Rightarrow> bool \<Rightarrow> string \<Rightarrow> time \<Rightarrow> string" where
  "oldest_loop [] first oldestKey oldest = oldestKey"
| "oldest_loop ((k, e) # es) first oldestKey oldest =
     (if first \<or> e < oldest then oldest_loop es False k e else oldest_loop es first oldestKey oldest)"

lemma oldest_loop_mem:
  "oldest_loop es first key t \<in> insert key (fst ` set es)"
  by (induction es first key t rule: oldest_loop.induct) auto

function evict_oldest ::
  "(string \<times> 'r) list \<times> (string \<times> time) list \<Rightarrow> (string \<times> 'r) list \<times> (string \<times> time) list" where
  "evict_oldest (rs, es) =
     (if length rs > idempotencyMaxEntries then
        let k = oldest_loop es True [] 0 in
        if k = [] then (rs, es) else evict_oldest (AList.delete k rs, AList.delete k es)
      else (rs, es))"
  by pat_completeness auto

lemma length_delete_less: "k \<in> fst ` set es \<Longrightarrow> length (AList.delete k es) < length es"
  by (auto simp: AList.delete_eq intro!: length_filter_less)

termination evict_oldest
proof (relation "measure (\<lambda>(rs, es). length es)", goal_cases)
  case 1
  show ?case by simp
next
  case (2 rs es k)
  then have "k \<in> fst ` set es" using oldest_loop_mem [of es True "[]" 0] by auto
  then show ?case by (simp add: length_delete_less)
qed

declare evict_oldest.simps [simp del]

definition pruneIdempotency :: "time \<Rightarrow> 'f Service \<Rightarrow> 'f Service" where
  "pruneIdempotency now s =
     (let expired = (\<lambda>k. case map_of (sv_idempotencyExpiry s) k of Some e \<Rightarrow> e < now | None \<Rightarrow> False);
          rs = filter (\<lambda>(k, _). \<not> expired k) (sv_idempotencyResult s);
          es = filter (\<lambda>(k, _). \<not> expired k) (sv_idempotencyExpiry s)
      in case evict_oldest (rs, es) of (rs', es') \<Rightarrow>
           s\<lparr>sv_idempotencyResult := rs', sv_idempotencyExpiry := es'\<rparr>)"

definition setIdempotent :: "time \<Rightarrow> string \<Rightarrow> TransactionResult \<Rightarrow> 'f Service \<Rightarrow> 'f Service" where
  "setIdempotent now key res s =
     pruneIdempotency now (s\<lparr>sv_idempotencyResult := AList.update key res (sv_idempotencyResult s),
       sv_idempotencyExpiry := AList.update key (now + idempotencyTTL) (sv_idempotencyExpiry s)\<rparr>)"

section \<open>Balances and the debit\<close>

definition totalBalance :: "Account list \<Rightarrow> int" where
  "totalBalance accts =
     foldl (\<lambda>total a. if ac_BalancePaise a > 0 then i64 (total + ac_BalancePaise a) else total) 0 accts"

definition totalBalanceLocked :: "string \<Rightarrow> 'f Service \<Rightarrow> int" where
  "totalBalanceLocked userID s = totalBalance (get_list (sv_accounts s) userID)"

fun debit_loop :: "Account list \<Rightarrow> int \<Rightarrow> Account list" where
  "debit_loop [] remaining = []"
| "debit_loop (a # as) remaining =
     (if remaining \<le> 0 then a # as
      else if ac_BalancePaise a \<le> 0 then a # debit_loop as remaining
      else if ac_BalancePaise a \<ge> remaining
      then a\<lparr>ac_BalancePaise := ac_BalancePaise a - remaining\<rparr> # as
      else a\<lparr>ac_BalancePaise := 0\<rparr> # debit_loop as (remaining - ac_BalancePaise a))"

definition applyDebitToFirstAccount :: "string \<Rightarrow> int \<Rightarrow> 'f Service \<Rightarrow> ('f, unit) svc" where
  "applyDebitToFirstAccount userID amount s =
     (if amount \<le> 0 then (Inr (), s)
      else if totalBalanceLocked userID s < amount then (Inl InsufficientFunds, s)
      else (Inr (), s\<lparr>sv_accounts := (sv_accounts s)
              (userID \<mapsto> debit_loop (get_list (sv_accounts s) userID) amount)\<rparr>))"

section \<open>What a debit does\<close>

definition funds :: "Account list \<Rightarrow> int" where
  "funds accts = (\<Sum>a\<leftarrow>accts. ac_BalancePaise a)"

text \<open>No account is overdrawn and the total fits an \<open>int64\<close>.\<close>

definition solvent :: "Account list \<Rightarrow> bool" where
  "solvent accts \<longleftrightarrow> (\<forall>a \<in> set accts. 0 \<le> ac_BalancePaise a) \<and> funds accts < 2 ^ 63"

lemma funds_simps [simp]: "funds [] = 0" "funds (a # as) = ac_BalancePaise a + funds as"
  by (simp_all add: funds_def)

lemma funds_nonneg: "\<forall>a \<in> set accts. 0 \<le> ac_BalancePaise a \<Longrightarrow> 0 \<le> funds accts"
  by (induction accts) auto

lemma totalBalance_acc:
  "\<forall>a \<in> set accts. 0 \<le> ac_BalancePaise a \<Longrightarrow> 0 \<le> t \<Longrightarrow> t + funds accts < 2 ^ 63 \<Longrightarrow>
   foldl (\<lambda>total a. if ac_BalancePaise a > 0 then i64 (total + ac_BalancePaise a) else total) t accts
     = t + funds accts"
proof (induction accts arbitrary: t)
  case (Cons a accts)
  have "0 \<le> funds accts" using Cons.prems by (intro funds_nonneg) auto
  then have "i64 (t + ac_BalancePaise a) = t + ac_BalancePaise a"
    using Cons.prems by (intro i64_id) (auto simp: is_i64_def)
  then show ?case using Cons.prems by (auto simp: Cons.IH)
qed simp

lemma totalBalance_funds: "solvent accts \<Longrightarrow> totalBalance accts = funds accts"
  by (simp add: totalBalance_def totalBalance_acc solvent_def)

lemma debit_loop_nonneg:
  "\<forall>a \<in> set accts. 0 \<le> ac_BalancePaise a \<Longrightarrow> \<forall>a \<in> set (debit_loop accts m). 0 \<le> ac_BalancePaise a"
  by (induction accts m rule: debit_loop.induct) auto

lemma debit_loop_funds:
  "\<forall>a \<in> set accts. 0 \<le> ac_BalancePaise a \<Longrightarrow> 0 \<le> m \<Longrightarrow> m \<le> funds accts \<Longrightarrow>
   funds (debit_loop accts m) = funds accts - m"
  by (induction accts m rule: debit_loop.induct) auto

text \<open>Only balances change.\<close>

definition without_balance :: "Account \<Rightarrow> Account" where
  "without_balance a = a\<lparr>ac_BalancePaise := 0\<rparr>"

lemma debit_loop_frame: "map without_balance (debit_loop accts m) = map without_balance accts"
  by (induction accts m rule: debit_loop.induct) (auto simp: without_balance_def)

lemma debit_loop_solvent: "solvent accts \<Longrightarrow> 0 \<le> m \<Longrightarrow> m \<le> funds accts \<Longrightarrow> solvent (debit_loop accts m)"
  using debit_loop_nonneg [of accts m] debit_loop_funds [of accts m] by (simp add: solvent_def)

definition user_funds :: "'f Service \<Rightarrow> string \<Rightarrow> int" where
  "user_funds s u = funds (get_list (sv_accounts s) u)"

definition all_solvent :: "'f Service \<Rightarrow> bool" where
  "all_solvent s \<longleftrightarrow> (\<forall>u. solvent (get_list (sv_accounts s) u))"

text \<open>The debit on an abstract purse: a sum that may not become negative.\<close>

definition purse_debit :: "string \<Rightarrow> int \<Rightarrow> (string \<Rightarrow> int) \<Rightarrow> (string \<Rightarrow> int) option" where
  "purse_debit u m F = (if m \<le> 0 then Some F else if F u < m then None else Some (F(u := F u - m)))"

lemma applyDebit_cases:
  assumes "all_solvent s"
  obtains (none) "m \<le> 0" "applyDebitToFirstAccount u m s = (Inr (), s)"
  | (short) "0 < m" "user_funds s u < m" "applyDebitToFirstAccount u m s = (Inl InsufficientFunds, s)"
  | (paid) s' where "0 < m" "m \<le> user_funds s u" "applyDebitToFirstAccount u m s = (Inr (), s')"
      "s' = s\<lparr>sv_accounts := (sv_accounts s)(u \<mapsto> debit_loop (get_list (sv_accounts s) u) m)\<rparr>"
      "user_funds s' = (user_funds s)(u := user_funds s u - m)" "all_solvent s'"
proof -
  let ?accts = "get_list (sv_accounts s) u"
  let ?s = "s\<lparr>sv_accounts := (sv_accounts s)(u \<mapsto> debit_loop ?accts m)\<rparr>"
  have sol: "solvent ?accts" using assms by (simp add: all_solvent_def)
  have total: "totalBalanceLocked u s = user_funds s u"
    using sol by (simp add: totalBalanceLocked_def user_funds_def totalBalance_funds)
  consider "m \<le> 0" | "0 < m" "user_funds s u < m" | "0 < m" "m \<le> user_funds s u" by linarith
  then show thesis
  proof cases
    case 3
    then have "funds (debit_loop ?accts m) = funds ?accts - m" "solvent (debit_loop ?accts m)"
      using sol by (auto simp: user_funds_def solvent_def debit_loop_funds debit_loop_nonneg)
    then have "user_funds ?s = (user_funds s)(u := user_funds s u - m)" "all_solvent ?s"
      using assms by (auto simp: user_funds_def fun_eq_iff all_solvent_def)
    with 3 total show thesis by (intro paid [of ?s]) (simp_all add: applyDebitToFirstAccount_def)
  qed (use total in \<open>auto intro: none short simp: applyDebitToFirstAccount_def\<close>)
qed

section \<open>Interface: a purse\<close>

text \<open>
  What the clients of the debit rely on: it either refuses and changes nothing, or takes exactly
  the amount from the purse it is given, which holds at least that much.
\<close>

locale purse =
  fixes ok :: "'s \<Rightarrow> bool"
    and purse_of :: "'s \<Rightarrow> 'u \<Rightarrow> int"
    and take_out :: "'u \<Rightarrow> int \<Rightarrow> 's \<Rightarrow> 's option"
  assumes purse_nonneg: "ok s \<Longrightarrow> 0 \<le> purse_of s u"
    and take_out_ok: "ok s \<Longrightarrow> take_out u m s = Some s' \<Longrightarrow> ok s'"
    and take_out_funds: "ok s \<Longrightarrow> take_out u m s = Some s' \<Longrightarrow>
      purse_of s' = (purse_of s)(u := purse_of s u - max 0 m)"
begin

text \<open>A run of attempted debits; a refused one leaves the state.\<close>

fun attempts :: "('u \<times> int) list \<Rightarrow> 's \<Rightarrow> 's" where
  "attempts [] s = s"
| "attempts ((u, m) # as) s = (case take_out u m s of None \<Rightarrow> attempts as s | Some s' \<Rightarrow> attempts as s')"

fun paid_out :: "'u \<Rightarrow> ('u \<times> int) list \<Rightarrow> 's \<Rightarrow> int" where
  "paid_out v [] s = 0"
| "paid_out v ((u, m) # as) s = (case take_out u m s of
      None \<Rightarrow> paid_out v as s
    | Some s' \<Rightarrow> (if u = v then max 0 m else 0) + paid_out v as s')"

lemma attempts_conserve: "ok s \<Longrightarrow> purse_of (attempts as s) v = purse_of s v - paid_out v as s \<and> ok (attempts as s)"
proof (induction "as" arbitrary: s)
  case (Cons a as)
  obtain u m where a: "a = (u, m)" by fastforce
  show ?case
  proof (cases "take_out u m s")
    case (Some s')
    with take_out_ok [OF Cons.prems Some] take_out_funds [OF Cons.prems Some] Cons.IH [of s']
    show ?thesis by (simp add: a)
  qed (use Cons a in simp)
qed simp

lemma no_overspending: "ok s \<Longrightarrow> paid_out v as s \<le> purse_of s v"
  using attempts_conserve [of s "as" v] purse_nonneg [of "attempts as s" v] by linarith

end

definition take_debit :: "string \<Rightarrow> int \<Rightarrow> 'f Service \<Rightarrow> 'f Service option" where
  "take_debit u m s = (case applyDebitToFirstAccount u m s of (Inr _, s') \<Rightarrow> Some s' | (Inl _, _) \<Rightarrow> None)"

interpretation wallet: purse all_solvent user_funds take_debit
proof
  fix s :: "'f Service" and u
  assume "all_solvent s"
  then show "0 \<le> user_funds s u"
    by (auto simp: user_funds_def all_solvent_def solvent_def intro: funds_nonneg)
next
  fix s s' :: "'f Service" and u m
  assume "all_solvent s" and "take_debit u m s = Some s'"
  then show "all_solvent s'" and "user_funds s' = (user_funds s)(u := user_funds s u - max 0 m)"
    by (cases rule: applyDebit_cases [of s m u]; auto simp: take_debit_def fun_eq_iff)+
qed

section \<open>A new service\<close>

definition defaultParams :: ModelParams where
  "defaultParams = \<lparr>mp_Version = ''srishti-math-v1'', mp_AmountTerm = defaultAmountTerm,
     mp_CoolingBaseMinutes = 240\<rparr>"

definition UseModelParams :: "ModelParams \<Rightarrow> 'f Service \<Rightarrow> 'f Service" where
  "UseModelParams p s = (if TrimSpace (mp_Version p) = [] then s else s\<lparr>sv_params := p\<rparr>)"

definition fresh_login :: LoginMaps where
  "fresh_login =
     \<lparr>lg_mobileIndex = (\<lambda>_. None), lg_ckycIndex = (\<lambda>_. None), lg_sessions = [],
      lg_sessionStart = (\<lambda>_. None), lg_sessionExpiry = (\<lambda>_. None), lg_sessionDevice = (\<lambda>_. None),
      lg_sessionStore = (\<lambda>_. None), lg_challenges = (\<lambda>_. None), lg_challengeState = (\<lambda>_. None),
      lg_kycProfiles = (\<lambda>_. None), lg_jwt = None, lg_passkey = NewPasskeyManager,
      lg_simBinding = NewSIMBindingManager\<rparr>"

definition fresh_personal :: PersonalMaps where
  "fresh_personal =
     \<lparr>pe_consents = (\<lambda>_. None), pe_notifications = (\<lambda>_. None), pe_investments = (\<lambda>_. None),
      pe_insurance = (\<lambda>_. None), pe_loans = (\<lambda>_. None), pe_netWorthAssets = (\<lambda>_. None),
      pe_emergencyContacts = (\<lambda>_. None), pe_tokenMap = (\<lambda>_. None), pe_reverseTokenMap = (\<lambda>_. None)\<rparr>"

definition fresh_service :: "RiskEngine \<Rightarrow> FraudGraph \<Rightarrow> 'f Service" where
  "fresh_service engine graph =
     \<lparr>sv_counter = 0, sv_users = (\<lambda>_. None), sv_authProfiles = (\<lambda>_. None),
      sv_login = fresh_login, sv_personal = fresh_personal, sv_accounts = (\<lambda>_. None),
      sv_transactions = (\<lambda>_. None), sv_payments = (\<lambda>_. None),
      sv_beneficiaries = (\<lambda>_. None), sv_beneficiaryRecords = (\<lambda>_. None), sv_aggregatorStatus = (\<lambda>_. None),
      sv_idempotencyResult = [], sv_idempotencyExpiry = [], sv_goalIdempotency = (\<lambda>_. None),
      sv_goals = (\<lambda>_. None), sv_fraudReports = [],
      sv_investmentOrders = (\<lambda>_. None), sv_audit = [], sv_freezeState = (\<lambda>_. None), sv_ledger = NewLedger,
      sv_otpAttempts = (\<lambda>_. None), sv_otpLockUntil = (\<lambda>_. None),
      sv_adaptiveAuth = NewAdaptiveAuthManager, sv_threatResponse = NewThreatResponseManager,
      sv_riskEngine = engine, sv_fraudGraph = graph, sv_notificationCenter = (\<lambda>_. None),
      sv_accountingLedger = NewAccountingLedger, sv_outbox = NewOutbox, sv_dilithium = None,
      sv_params = defaultParams\<rparr>"

definition NewService :: "(string \<Rightarrow> string) \<Rightarrow> RiskEngine \<Rightarrow> time \<Rightarrow> 'f Service" where
  "NewService H engine now = fresh_service engine (NewFraudGraph H now)"

text \<open>A user with two accounts, for the concrete runs; nothing is encoded, so no event is recorded.\<close>

definition demo_env :: sv_env where
  "demo_env = \<lparr>env_H = (\<lambda>s. s), env_json = (\<lambda>_. None)\<rparr>"

definition demo_user :: User where
  "demo_user = \<lparr>us_ID = ''u1'', us_Name = ''Asha'', us_Mobile = ''9'', us_Email = [],
     us_CKYC = [], us_KIN = [], us_UBT = [], us_EKYCVerified = True,
     us_BiometricEnabled = True, us_DeviceBound = True, us_SIMBound = True,
     us_NudgePreference = [], us_CreatedAt = 0\<rparr>"

definition demo_account :: "string \<Rightarrow> int \<Rightarrow> Account" where
  "demo_account i balance = \<lparr>ac_ID = i, ac_AccountHolderName = ''Asha'', ac_BankName = ''Bank'',
     ac_Branch = ''NA'', ac_IFSCCode = ''NA'', ac_AccountNumberMaskedToken = ''XX1'', ac_UPIID = [],
     ac_AccountType = ''savings'', ac_VerificationStatus = ''pending'', ac_Nickname = [],
     ac_PrimaryAccountFlag = False, ac_AccountToken = [], ac_TokenProvider = ''bank'',
     ac_AccountVerificationAt = None, ac_AccountVerificationMethod = ''upi'',
     ac_BalancePaise = balance, ac_LinkedAt = 0\<rparr>"

definition demo_service :: "unit Service" where
  "demo_service = (fresh_service plain_engine empty_graph)
     \<lparr>sv_users := [''u1'' \<mapsto> demo_user],
      sv_authProfiles := [''u1'' \<mapsto> blank_profile\<lparr>ap_InternalUserID := ''u1'', ap_Role := ''user''\<rparr>],
      sv_accounts := [''u1'' \<mapsto> [demo_account ''acct-1'' 30000, demo_account ''acct-2'' 50000]],
      sv_beneficiaries := [''u1'' \<mapsto> {}]\<rparr>"

end
