(* ===== verification/PlatformStepUp.thy ===== *)
theory PlatformStepUp
  imports PlatformState
begin

text \<open>
  Step-up authentication and the emergency freeze: one-time passwords (\<open>GenerateOTP\<close>,
  \<open>VerifyOTPToken\<close> in \<open>service_expansion.go\<close>), \<open>EmergencyFreeze\<close> and \<open>Unfreeze\<close>
  (\<open>service.go\<close>, \<open>frontend_compat.go\<close>). A call reads the clock once. The lemmas bound the guesses
  a code can meet and say what lifting a freeze takes.
\<close>

section \<open>One-time passwords\<close>

definition requireUser :: "string \<Rightarrow> 'f Service \<Rightarrow> svc_error option" where
  "requireUser userID s =
     (if TrimSpace userID = [] then Some Unauthorized
      else if sv_users s userID = None then Some UserNotFound else None)"

definition otp_key :: "string \<Rightarrow> string" where
  "otp_key userID = ''otp:'' @ userID"

definition otp_locked :: "time \<Rightarrow> string \<Rightarrow> 'f Service \<Rightarrow> bool" where
  "otp_locked now userID s \<longleftrightarrow>
     (case sv_otpLockUntil s (otp_key userID) of None \<Rightarrow> False | Some until \<Rightarrow> now < until)"

definition set_profile :: "string \<Rightarrow> AuthProfile \<Rightarrow> 'f Service \<Rightarrow> 'f Service" where
  "set_profile userID p s = s\<lparr>sv_authProfiles := (sv_authProfiles s)(userID \<mapsto> p)\<rparr>"

definition reset_otp_counters :: "string \<Rightarrow> 'f Service \<Rightarrow> 'f Service" where
  "reset_otp_counters userID s =
     s\<lparr>sv_otpAttempts := (sv_otpAttempts s)(otp_key userID \<mapsto> 0),
       sv_otpLockUntil := (sv_otpLockUntil s)(otp_key userID := None)\<rparr>"

text \<open>\<open>random\<close> is the big-endian number of the first four random bytes, \<open>None\<close> if reading them fails.\<close>

definition GenerateOTP ::
  "sv_env \<Rightarrow> int option \<Rightarrow> time \<Rightarrow> string \<Rightarrow> 'f Service \<Rightarrow> ('f, string) svc" where
  "GenerateOTP env random now userID s =
     (case requireUser userID s of
        Some e \<Rightarrow> (Inl e, s)
      | None \<Rightarrow>
          (case sv_authProfiles s userID of
             None \<Rightarrow> (Inl AuthProfileNotFound, s)
           | Some profile \<Rightarrow>
               if otp_locked now userID s then (Inl OTPTooManyAttempts, s)
               else (case random of
                   None \<Rightarrow> (Inl RandomSourceFailed, s)
                 | Some n \<Rightarrow>
                     let otp = pad0 6 (dec (n mod 1000000));
                         s1 = set_profile userID (profile\<lparr>ap_OTPCode := otp,
                                ap_OTPExpiryTime := Some (now + 10 * minute), ap_OTPAttempts := 0\<rparr>) s
                     in (Inr otp, appendAudit env now userID ''otp_generated'' ''auth'' ''success''
                           ''OTP generated for step-up verification'' ''System'' (reset_otp_counters userID s1)))))"

text \<open>A failed attempt is counted; the third one locks for half an hour and restarts the count.\<close>

definition count_failure ::
  "time \<Rightarrow> string \<Rightarrow> svc_error \<Rightarrow> svc_error \<Rightarrow> 'f Service \<Rightarrow> ('f, unit) svc" where
  "count_failure now userID lock_error error s =
     (let k = otp_key userID; n = get_or 0 (sv_otpAttempts s) k + 1 in
      if n \<ge> 3 then
        (Inl lock_error, s\<lparr>sv_otpLockUntil := (sv_otpLockUntil s)(k \<mapsto> now + 30 * minute),
                           sv_otpAttempts := (sv_otpAttempts s)(k \<mapsto> 0)\<rparr>)
      else (Inl error, s\<lparr>sv_otpAttempts := (sv_otpAttempts s)(k \<mapsto> n)\<rparr>))"

definition VerifyOTPToken :: "sv_env \<Rightarrow> time \<Rightarrow> string \<Rightarrow> string \<Rightarrow> 'f Service \<Rightarrow> ('f, unit) svc" where
  "VerifyOTPToken env now userID otp0 s =
     (case requireUser userID s of
        Some e \<Rightarrow> (Inl e, s)
      | None \<Rightarrow>
          let otp = TrimSpace otp0 in
          if otp = [] then (Inl OTPRequired, s)
          else if otp_locked now userID s then (Inl OTPTooManyAttempts, s)
          else (case sv_authProfiles s userID of
              None \<Rightarrow> (Inl AuthProfileNotFound, s)
            | Some profile \<Rightarrow>
                if (case ap_OTPExpiryTime profile of None \<Rightarrow> True | Some e \<Rightarrow> now > e)
                then count_failure now userID OTPTooManyAttempts OTPExpired s
                else if ap_OTPCode profile \<noteq> otp
                then count_failure now userID OTPLocked OTPInvalid s
                else
                  let s1 = set_profile userID (profile\<lparr>ap_OTPCode := [], ap_OTPExpiryTime := None,
                             ap_OTPAttempts := 0\<rparr>) s
                  in (Inr (), appendAudit env now userID ''otp_verified'' ''auth'' ''success''
                        ''OTP verification successful'' ''System'' (reset_otp_counters userID s1))))"

section \<open>Freeze\<close>

record UnfreezeRequest =
  ur_OTP :: string
  ur_BiometricOK :: bool
  ur_VerificationMethod :: string

definition biometricSatisfied :: "UnfreezeRequest \<Rightarrow> bool" where
  "biometricSatisfied r \<longleftrightarrow> ur_BiometricOK r \<or>
     ToLower (TrimSpace (ur_VerificationMethod r)) \<in> {''biometric'', ''face'', ''fingerprint''}"

text \<open>The argument is the value of \<open>FINIX_REQUIRE_BIOMETRIC_CHALLENGE\<close>.\<close>

definition unfreezeOTPRequired :: "string \<Rightarrow> bool" where
  "unfreezeOTPRequired flag \<longleftrightarrow> ToLower (TrimSpace flag) \<in> {''true'', ''1'', ''yes'', ''on''}"

definition set_freeze :: "string \<Rightarrow> bool \<Rightarrow> 'f Service \<Rightarrow> 'f Service" where
  "set_freeze userID b s = s\<lparr>sv_freezeState := (sv_freezeState s)(userID \<mapsto> b)\<rparr>"

definition frozen :: "string \<Rightarrow> 'f Service \<Rightarrow> bool" where
  "frozen userID s = get_or False (sv_freezeState s) userID"

definition EmergencyFreeze :: "sv_env \<Rightarrow> time \<Rightarrow> string \<Rightarrow> bool \<Rightarrow> 'f Service \<Rightarrow> ('f, bool \<times> string) svc" where
  "EmergencyFreeze env now userID testMode s =
     (if sv_users s userID = None then (Inl UserNotFound, s)
      else
        let s1 = (if \<not> testMode then set_freeze userID True s else s);
            mode = (if testMode then ''test'' else ''live'');
            s2 = appendAudit env now userID ''emergency_freeze'' ''security'' ''success''
                   ''Emergency freeze flow triggered'' ''User'' s1;
            s3 = ledger_write env now userID ''emergency_freeze'' ''security'' (PFields [(''mode'', mode)]) s2
        in (Inr (frozen userID s3, mode), s3))"

definition lift_freeze :: "sv_env \<Rightarrow> time \<Rightarrow> string \<Rightarrow> 'f Service \<Rightarrow> ('f, unit) svc" where
  "lift_freeze env now userID s =
     (if sv_users s userID = None then (Inl UserNotFound, s)
      else
        let s1 = appendAudit env now userID ''emergency_unfreeze'' ''security'' ''success''
                   ''Emergency freeze removed after step-up verification'' ''User'' (set_freeze userID False s)
        in (Inr (), ledger_write env now userID ''emergency_unfreeze'' ''security''
                      (PFields [(''frozen'', ''false'')]) s1))"

definition Unfreeze ::
  "sv_env \<Rightarrow> string \<Rightarrow> time \<Rightarrow> string \<Rightarrow> UnfreezeRequest \<Rightarrow> 'f Service \<Rightarrow> ('f, unit) svc" where
  "Unfreeze env flag now userID req s =
     (if \<not> biometricSatisfied req then (Inl BiometricRequired, s)
      else
        let otp = TrimSpace (ur_OTP req) in
        if unfreezeOTPRequired flag \<and> otp = [] then (Inl BiometricAndOTPRequired, s)
        else if otp \<noteq> [] then
          (case VerifyOTPToken env now userID otp s of
             (Inl e, s1) \<Rightarrow> (Inl e, s1)
           | (Inr _, s1) \<Rightarrow> lift_freeze env now userID s1)
        else lift_freeze env now userID s)"

section \<open>Frames\<close>

text \<open>Audit and ledger writes touch the id counter, the audit trail and the event ledger only.\<close>

lemma nextID_snd [simp]: "snd (nextID p s) = s\<lparr>sv_counter := (sv_counter s + 1) mod 2 ^ 64\<rparr>"
  by (simp add: nextID_def Let_def)

lemma ledger_write_frame [frame_simps]:
  "sv_users (ledger_write env now u a r p s) = sv_users s"
  "sv_authProfiles (ledger_write env now u a r p s) = sv_authProfiles s"
  "sv_accounts (ledger_write env now u a r p s) = sv_accounts s"
  "sv_transactions (ledger_write env now u a r p s) = sv_transactions s"
  "sv_beneficiaries (ledger_write env now u a r p s) = sv_beneficiaries s"
  "sv_goals (ledger_write env now u a r p s) = sv_goals s"
  "sv_goalIdempotency (ledger_write env now u a r p s) = sv_goalIdempotency s"
  "sv_idempotencyResult (ledger_write env now u a r p s) = sv_idempotencyResult s"
  "sv_idempotencyExpiry (ledger_write env now u a r p s) = sv_idempotencyExpiry s"
  "sv_freezeState (ledger_write env now u a r p s) = sv_freezeState s"
  "sv_otpAttempts (ledger_write env now u a r p s) = sv_otpAttempts s"
  "sv_otpLockUntil (ledger_write env now u a r p s) = sv_otpLockUntil s"
  "sv_accountingLedger (ledger_write env now u a r p s) = sv_accountingLedger s"
  "sv_audit (ledger_write env now u a r p s) = sv_audit s"
  "sv_aggregatorStatus (ledger_write env now u a r p s) = sv_aggregatorStatus s"
  by (simp_all add: ledger_write_def)

lemma appendAudit_frame [frame_simps]:
  "sv_users (appendAudit env now u a r oc d tr s) = sv_users s"
  "sv_authProfiles (appendAudit env now u a r oc d tr s) = sv_authProfiles s"
  "sv_accounts (appendAudit env now u a r oc d tr s) = sv_accounts s"
  "sv_transactions (appendAudit env now u a r oc d tr s) = sv_transactions s"
  "sv_beneficiaries (appendAudit env now u a r oc d tr s) = sv_beneficiaries s"
  "sv_goals (appendAudit env now u a r oc d tr s) = sv_goals s"
  "sv_goalIdempotency (appendAudit env now u a r oc d tr s) = sv_goalIdempotency s"
  "sv_idempotencyResult (appendAudit env now u a r oc d tr s) = sv_idempotencyResult s"
  "sv_idempotencyExpiry (appendAudit env now u a r oc d tr s) = sv_idempotencyExpiry s"
  "sv_freezeState (appendAudit env now u a r oc d tr s) = sv_freezeState s"
  "sv_otpAttempts (appendAudit env now u a r oc d tr s) = sv_otpAttempts s"
  "sv_otpLockUntil (appendAudit env now u a r oc d tr s) = sv_otpLockUntil s"
  "sv_accountingLedger (appendAudit env now u a r oc d tr s) = sv_accountingLedger s"
  "sv_aggregatorStatus (appendAudit env now u a r oc d tr s) = sv_aggregatorStatus s"
  by (simp_all add: appendAudit_def nextID_def Let_def frame_simps)

lemma step_up_frame [frame_simps]:
  "sv_users (reset_otp_counters u s) = sv_users s" "sv_authProfiles (reset_otp_counters u s) = sv_authProfiles s"
  "sv_freezeState (reset_otp_counters u s) = sv_freezeState s" "sv_accounts (reset_otp_counters u s) = sv_accounts s"
  "sv_users (set_profile u p s) = sv_users s" "sv_freezeState (set_profile u p s) = sv_freezeState s"
  "sv_authProfiles (set_profile u p s) = (sv_authProfiles s)(u \<mapsto> p)"
  "sv_otpAttempts (set_profile u p s) = sv_otpAttempts s" "sv_otpLockUntil (set_profile u p s) = sv_otpLockUntil s"
  "sv_accounts (set_profile u p s) = sv_accounts s"
  "sv_freezeState (set_freeze u b s) = (sv_freezeState s)(u \<mapsto> b)"
  "sv_accounts (set_freeze u b s) = sv_accounts s" "sv_users (set_freeze u b s) = sv_users s"
  "sv_otpAttempts (reset_otp_counters u s) = (sv_otpAttempts s)(otp_key u \<mapsto> 0)"
  "sv_otpLockUntil (reset_otp_counters u s) = (sv_otpLockUntil s)(otp_key u := None)"
  by (simp_all add: reset_otp_counters_def set_profile_def set_freeze_def)

section \<open>Interface: a budget\<close>

text \<open>
  Something that a run may consume only so much of: every event's charge is covered by what is
  left, so the charges of a run never exceed the initial budget.
\<close>

locale budget =
  fixes step :: "'s \<Rightarrow> 'ev \<Rightarrow> 's"
    and charge :: "'s \<Rightarrow> 'ev \<Rightarrow> nat"
    and left :: "'s \<Rightarrow> nat"
    and inv :: "'s \<Rightarrow> bool"
    and ok :: "'ev \<Rightarrow> bool"
  assumes inv_step: "inv s \<Longrightarrow> ok e \<Longrightarrow> inv (step s e)"
    and covered: "inv s \<Longrightarrow> ok e \<Longrightarrow> charge s e + left (step s e) \<le> left s"
begin

lemma charges_bounded:
  "inv s \<Longrightarrow> \<forall>e \<in> set es. ok e \<Longrightarrow> (\<Sum>(t, e) \<leftarrow> trace step s es. charge t e) \<le> left s"
proof (induction es arbitrary: s)
  case (Cons e es)
  then have "(\<Sum>(t, e) \<leftarrow> trace step (step s e) es. charge t e) \<le> left (step s e)"
    by (intro Cons.IH inv_step) auto
  moreover have "charge s e + left (step s e) \<le> left s" using Cons.prems by (intro covered) auto
  ultimately show ?case by simp
qed simp

end

section \<open>Guesses\<close>

text \<open>
  A verification call: its time, the caller and the code offered. \<open>compared\<close> holds when the call
  got as far as comparing the code.
\<close>

type_synonym otp_call = "time \<times> string \<times> string"

definition otp_step :: "sv_env \<Rightarrow> 'f Service \<Rightarrow> otp_call \<Rightarrow> 'f Service" where
  "otp_step env s = (\<lambda>(now, v, otp). snd (VerifyOTPToken env now v otp s))"

definition compared :: "sv_env \<Rightarrow> string \<Rightarrow> 'f Service \<Rightarrow> otp_call \<Rightarrow> bool" where
  "compared env u s = (\<lambda>(now, v, otp). v = u \<and>
     fst (VerifyOTPToken env now v otp s) \<in> {Inr (), Inl OTPInvalid, Inl OTPLocked})"

definition accepted :: "sv_env \<Rightarrow> string \<Rightarrow> 'f Service \<Rightarrow> otp_call \<Rightarrow> bool" where
  "accepted env u s = (\<lambda>(now, v, otp). v = u \<and> fst (VerifyOTPToken env now v otp s) = Inr ())"

definition otp_expiry :: "string \<Rightarrow> 'f Service \<Rightarrow> time option" where
  "otp_expiry u s = (case sv_authProfiles s u of None \<Rightarrow> None | Some p \<Rightarrow> ap_OTPExpiryTime p)"

definition otp_attempts :: "string \<Rightarrow> 'f Service \<Rightarrow> int" where
  "otp_attempts u s = get_or 0 (sv_otpAttempts s) (otp_key u)"

definition otp_lock :: "string \<Rightarrow> 'f Service \<Rightarrow> time option" where
  "otp_lock u s = sv_otpLockUntil s (otp_key u)"

lemmas otp_views = otp_expiry_def otp_attempts_def otp_lock_def

lemma otp_key_inj [simp]: "otp_key u = otp_key v \<longleftrightarrow> u = v"
  by (simp add: otp_key_def)

text \<open>The four ways a verification can go.\<close>

lemma VerifyOTPToken_cases:
  obtains (refused) e where "VerifyOTPToken env now u otp s = (Inl e, s)" "e \<notin> {OTPInvalid, OTPLocked}"
  | (expired) p where "sv_authProfiles s u = Some p" "\<not> otp_locked now u s"
      "\<forall>e. ap_OTPExpiryTime p = Some e \<longrightarrow> e < now"
      "VerifyOTPToken env now u otp s = count_failure now u OTPTooManyAttempts OTPExpired s"
  | (wrong) p e where "sv_authProfiles s u = Some p" "\<not> otp_locked now u s"
      "ap_OTPExpiryTime p = Some e" "now \<le> e" "ap_OTPCode p \<noteq> TrimSpace otp"
      "VerifyOTPToken env now u otp s = count_failure now u OTPLocked OTPInvalid s"
  | (right) p e where "sv_authProfiles s u = Some p" "\<not> otp_locked now u s"
      "ap_OTPExpiryTime p = Some e" "now \<le> e" "ap_OTPCode p = TrimSpace otp"
      "VerifyOTPToken env now u otp s = (Inr (), appendAudit env now u ''otp_verified'' ''auth'' ''success''
         ''OTP verification successful'' ''System'' (reset_otp_counters u
           (set_profile u (p\<lparr>ap_OTPCode := [], ap_OTPExpiryTime := None, ap_OTPAttempts := 0\<rparr>) s)))"
proof (cases "requireUser u s = None \<and> TrimSpace otp \<noteq> [] \<and> \<not> otp_locked now u s \<and> sv_authProfiles s u \<noteq> None")
  case False
  have "\<exists>e. VerifyOTPToken env now u otp s = (Inl e, s) \<and> e \<notin> {OTPInvalid, OTPLocked}"
  proof (cases "requireUser u s")
    case (Some e)
    then have "e \<in> {Unauthorized, UserNotFound}" by (auto simp: requireUser_def split: if_splits)
    with Some show ?thesis by (auto simp: VerifyOTPToken_def)
  qed (use False in \<open>auto simp: VerifyOTPToken_def Let_def split: option.split\<close>)
  then show thesis using refused by blast
next
  case True
  then obtain p where p: "sv_authProfiles s u = Some p" by auto
  note V = VerifyOTPToken_def True p Let_def
  show thesis
  proof (cases "ap_OTPExpiryTime p")
    case None
    then show thesis using p True by (intro expired [of p]) (simp_all add: V)
  next
    case (Some e)
    consider "e < now" | "now \<le> e" "ap_OTPCode p = TrimSpace otp" | "now \<le> e" "ap_OTPCode p \<noteq> TrimSpace otp"
      by linarith
    then show thesis
    proof cases
      case 1
      then show thesis using p True Some by (intro expired [of p]) (simp_all add: V)
    next
      case 2
      then show thesis using p True Some by (intro right [of p e]) (simp_all add: V)
    next
      case 3
      then show thesis using p True Some by (intro wrong [of p e]) (simp_all add: V)
    qed
  qed
qed

lemma count_failure_views:
  "otp_expiry v (snd (count_failure now u le er s)) = otp_expiry v s"
  "otp_attempts v (snd (count_failure now u le er s)) =
     (if v = u then if otp_attempts u s + 1 \<ge> 3 then 0 else otp_attempts u s + 1 else otp_attempts v s)"
  "otp_lock v (snd (count_failure now u le er s)) =
     (if v = u \<and> otp_attempts u s + 1 \<ge> 3 then Some (now + 30 * minute) else otp_lock v s)"
  "sv_authProfiles (snd (count_failure now u le er s)) = sv_authProfiles s"
  "fst (count_failure now u le er s) = Inl (if otp_attempts u s + 1 \<ge> 3 then le else er)"
  by (auto simp: count_failure_def otp_views Let_def)

lemma otp_step_views:
  assumes "v \<noteq> u"
  shows "otp_expiry u (otp_step env s (now, v, otp)) = otp_expiry u s \<and>
    otp_attempts u (otp_step env s (now, v, otp)) = otp_attempts u s \<and>
    otp_lock u (otp_step env s (now, v, otp)) = otp_lock u s"
  by (cases rule: VerifyOTPToken_cases [of env now v otp s])
    (use assms in \<open>simp_all add: otp_step_def count_failure_views\<close>, simp add: otp_views frame_simps)

text \<open>The guesses that remain for a code of user \<open>u\<close> that expires at \<open>E\<close>.\<close>

definition guesses_left :: "string \<Rightarrow> time \<Rightarrow> 'f Service \<Rightarrow> nat" where
  "guesses_left u E s = (if otp_expiry u s = None \<or> (\<exists>L. otp_lock u s = Some L \<and> E < L) then 0
     else nat (3 - otp_attempts u s))"

definition otp_ok :: "string \<Rightarrow> time \<Rightarrow> 'f Service \<Rightarrow> bool" where
  "otp_ok u E s \<longleftrightarrow> (otp_expiry u s = None \<or> otp_expiry u s = Some E) \<and>
     0 \<le> otp_attempts u s \<and> otp_attempts u s \<le> 2"

lemma otp_own_step:
  assumes inv: "otp_ok u E s" and time: "E < now + 30 * minute"
  shows "otp_ok u E (otp_step env s (now, u, otp)) \<and>
    (if compared env u s (now, u, otp) then 1 else 0) + guesses_left u E (otp_step env s (now, u, otp))
      \<le> guesses_left u E s"
proof (cases rule: VerifyOTPToken_cases [of env now u otp s])
  case (refused e)
  then show ?thesis using inv by (auto simp: otp_step_def compared_def)
next
  case (expired p)
  then show ?thesis
    using inv time
    by (auto simp: otp_step_def compared_def count_failure_views otp_ok_def guesses_left_def)
next
  case (wrong p e)
  then have exp: "otp_expiry u s = Some e" by (simp add: otp_expiry_def)
  with inv have e: "e = E" by (simp add: otp_ok_def)
  have "\<not> (\<exists>L. otp_lock u s = Some L \<and> E < L)"
    using wrong(2, 4) e by (auto simp: otp_locked_def otp_lock_def)
  then have g: "guesses_left u E s = nat (3 - otp_attempts u s)" using exp by (auto simp: guesses_left_def)
  show ?thesis
    using inv time wrong exp g
    by (auto simp: otp_step_def compared_def count_failure_views otp_ok_def guesses_left_def)
next
  case (right p e)
  then have exp: "otp_expiry u s = Some e" by (simp add: otp_expiry_def)
  with inv have e: "e = E" by (simp add: otp_ok_def)
  have "\<not> (\<exists>L. otp_lock u s = Some L \<and> E < L)"
    using right(2, 4) e by (auto simp: otp_locked_def otp_lock_def)
  then have g: "1 \<le> guesses_left u E s" using exp inv by (auto simp: guesses_left_def otp_ok_def)
  have "otp_expiry u (otp_step env s (now, u, otp)) = None" "otp_attempts u (otp_step env s (now, u, otp)) = 0"
    using right by (simp_all add: otp_step_def otp_views frame_simps)
  then have "guesses_left u E (otp_step env s (now, u, otp)) = 0" "otp_ok u E (otp_step env s (now, u, otp))"
    by (simp_all add: guesses_left_def otp_ok_def)
  then show ?thesis using g by simp
qed

definition after_issue :: "time \<Rightarrow> otp_call \<Rightarrow> bool" where
  "after_issue t0 = (\<lambda>(now, _, _). t0 \<le> now)"

interpretation guesses: budget "otp_step env" "\<lambda>s e. if compared env u s e then 1 else 0"
    "guesses_left u (t0 + 10 * minute)" "otp_ok u (t0 + 10 * minute)" "after_issue t0"
  for env u t0
proof
  fix s :: "'a Service" and e
  assume a: "otp_ok u (t0 + 10 * minute) s" "after_issue t0 e"
  obtain now v otp where e: "e = (now, v, otp)" by (cases e)
  have "otp_ok u (t0 + 10 * minute) (otp_step env s e) \<and> (if compared env u s e then 1 else 0)
      + guesses_left u (t0 + 10 * minute) (otp_step env s e) \<le> guesses_left u (t0 + 10 * minute) s"
  proof (cases "v = u")
    case True
    with otp_own_step [OF a(1), of now env otp] a(2) e show ?thesis by (simp add: after_issue_def)
  next
    case False
    with otp_step_views [OF False, of env s now otp] a(1) e show ?thesis
      by (simp add: otp_ok_def guesses_left_def compared_def)
  qed
  then show "otp_ok u (t0 + 10 * minute) (otp_step env s e)"
    and "(if compared env u s e then 1 else 0)
      + guesses_left u (t0 + 10 * minute) (otp_step env s e) \<le> guesses_left u (t0 + 10 * minute) s" by auto
qed

text \<open>One acceptance per code: it needs an expiry time and removes it.\<close>

lemma accepted_step:
  "(if accepted env u s e then 1 else 0) + (if otp_expiry u (otp_step env s e) = None then 0 else 1)
     \<le> (if otp_expiry u s = None then 0 else (1 :: nat))"
proof -
  obtain now v otp where e: "e = (now, v, otp)" by (cases e)
  show ?thesis
  proof (cases "v = u")
    case True
    show ?thesis
      by (cases rule: VerifyOTPToken_cases [of env now u otp s])
        (auto simp: e True accepted_def otp_step_def count_failure_views, auto simp: otp_views frame_simps)
  next
    case False
    with otp_step_views [OF False, of env s now otp] show ?thesis by (simp add: e accepted_def)
  qed
qed

interpretation acceptances: budget "otp_step env" "\<lambda>s e. if accepted env u s e then 1 else 0"
    "\<lambda>s. if otp_expiry u s = None then 0 else 1" "\<lambda>_. True" "\<lambda>_. True"
  for env u
  by unfold_locales (simp_all add: accepted_step)

lemma charge_count: "(\<Sum>(t, e) \<leftarrow> xs. if P t e then 1 else 0) = length (filter (\<lambda>(t, e). P t e) xs)"
  by (induction xs) auto

lemma GenerateOTP_state:
  assumes "GenerateOTP env random t0 u s = (Inr code, s1)"
  shows "otp_expiry u s1 = Some (t0 + 10 * minute) \<and> otp_attempts u s1 = 0 \<and> otp_lock u s1 = None"
  using assms by (auto simp: GenerateOTP_def Let_def otp_views frame_simps split: option.splits if_splits)

section \<open>Properties\<close>

text \<open>
  C14: A generated code meets at most three guesses: whatever verification calls follow (of any
  user, until the next code is generated), at most three of the owner's get as far as comparing
  the code, and at most one is accepted.
\<close>

theorem otp_guesses_bounded:
  assumes "GenerateOTP env random t0 u s = (Inr code, s1)" and "\<forall>(now, v, otp) \<in> set calls. t0 \<le> now"
  shows "length (filter (\<lambda>(t, e). compared env u t e) (trace (otp_step env) s1 calls)) \<le> 3 \<and>
    length (filter (\<lambda>(t, e). accepted env u t e) (trace (otp_step env) s1 calls)) \<le> 1"
proof -
  have s1: "otp_ok u (t0 + 10 * minute) s1" "guesses_left u (t0 + 10 * minute) s1 = 3" "otp_expiry u s1 \<noteq> None"
    using GenerateOTP_state [OF assms(1)] by (simp_all add: otp_ok_def guesses_left_def)
  have "\<forall>e \<in> set calls. after_issue t0 e" using assms(2) by (auto simp: after_issue_def)
  from guesses.charges_bounded [OF s1(1) this, of env] acceptances.charges_bounded [where u = u and env = env and es = calls and s = s1] s1
  show ?thesis by (simp add: charge_count)
qed

text \<open>
  Lifting a freeze takes a biometric factor, and in production mode a code that verifies; a
  code that is supplied must verify in either mode. A refused attempt leaves every freeze as it
  was, a successful one lifts the caller's only.
\<close>

theorem unfreeze_needs_step_up:
  "case Unfreeze env flag now u req s of
      (Inr _, s') \<Rightarrow> biometricSatisfied req \<and> (unfreezeOTPRequired flag \<longrightarrow> TrimSpace (ur_OTP req) \<noteq> []) \<and>
        (TrimSpace (ur_OTP req) \<noteq> [] \<longrightarrow>
           fst (VerifyOTPToken env now u (TrimSpace (ur_OTP req)) s) = Inr ()) \<and>
        sv_freezeState s' = (sv_freezeState s)(u \<mapsto> False)
    | (Inl _, s') \<Rightarrow> sv_freezeState s' = sv_freezeState s"
proof -
  have verify: "sv_freezeState (snd (VerifyOTPToken env now u otp s)) = sv_freezeState s" for otp
    by (cases rule: VerifyOTPToken_cases [of env now u otp s])
      (simp_all add: count_failure_def Let_def frame_simps)
  have lift: "case lift_freeze env now u t of (Inr _, t') \<Rightarrow> sv_freezeState t' = (sv_freezeState t)(u \<mapsto> False)
      | (Inl _, t') \<Rightarrow> sv_freezeState t' = sv_freezeState t" for t :: "'a Service"
    by (simp add: lift_freeze_def Let_def frame_simps)
  show ?thesis
  proof (cases "fst (VerifyOTPToken env now u (TrimSpace (ur_OTP req)) s)")
    case (Inl e)
    then show ?thesis
      using verify [of "TrimSpace (ur_OTP req)"] lift [of s]
      by (auto simp: Unfreeze_def Let_def split: prod.splits sum.splits)
  next
    case (Inr x)
    then show ?thesis
      using verify [of "TrimSpace (ur_OTP req)"] lift [of s]
        lift [of "snd (VerifyOTPToken env now u (TrimSpace (ur_OTP req)) s)"]
      by (auto simp: Unfreeze_def Let_def split: prod.splits sum.splits)
  qed
qed

section \<open>A concrete run\<close>

lemma demo_generate: "fst (GenerateOTP demo_env (Some 42) 100 ''u1'' demo_service) = Inr ''000042''"
  by code_simp

lemma otp_guesses_bounded_witness:
  "length (filter (\<lambda>(t, e). compared demo_env ''u1'' t e)
     (trace (otp_step demo_env) (snd (GenerateOTP demo_env (Some 42) 100 ''u1'' demo_service))
        [(101, ''u1'', ''1''), (102, ''u1'', ''2''), (103, ''u1'', ''000042''), (104, ''u1'', ''4'')])) \<le> 3"
proof -
  have "GenerateOTP demo_env (Some 42) 100 ''u1'' demo_service
      = (Inr ''000042'', snd (GenerateOTP demo_env (Some 42) 100 ''u1'' demo_service))"
    by (rule prod_eqI) (simp_all add: demo_generate)
  from otp_guesses_bounded [OF this, of "[(101, ''u1'', ''1''), (102, ''u1'', ''2''), (103, ''u1'', ''000042''), (104, ''u1'', ''4'')]"]
  show ?thesis by simp
qed

lemma unfreeze_needs_step_up_witness:
  "sv_freezeState (snd (Unfreeze demo_env [] 0 ''u1'' \<lparr>ur_OTP = [], ur_BiometricOK = True, ur_VerificationMethod = []\<rparr>
     (set_freeze ''u1'' True demo_service))) ''u1'' = Some False"
proof -
  let ?r = "Unfreeze demo_env [] 0 ''u1'' \<lparr>ur_OTP = [], ur_BiometricOK = True, ur_VerificationMethod = []\<rparr>
     (set_freeze ''u1'' True demo_service)"
  have "fst ?r = Inr ()"
    by (simp add: Unfreeze_def biometricSatisfied_def unfreezeOTPRequired_def lift_freeze_def set_freeze_def Let_def
      demo_service_def fresh_service_def TrimSpace_def ToLower_def)
  with unfreeze_needs_step_up [where env = demo_env and flag = "[]" and now = 0 and u = "''u1''"
      and req = "\<lparr>ur_OTP = [], ur_BiometricOK = True, ur_VerificationMethod = []\<rparr>"
      and s = "set_freeze ''u1'' True demo_service"]
  show ?thesis by (auto split: prod.splits sum.splits)
qed

end
