(* ===== verification/PlatformTransactions.thy ===== *)
theory PlatformTransactions
  imports PlatformStepUp
begin

text \<open>
  Payments (\<open>InitiateTransaction\<close>, \<open>OverrideTransaction\<close>, \<open>ValidateRisk\<close>,
  \<open>TransactionHistory\<close> and their helpers in \<open>domain/platform/service.go\<close>). A payment passes the
  idempotency cache, the guards, the freeze, the risk engine and adaptive authentication, is
  recorded, then checked strictly by the event ledger, and only then posted and debited. \<open>rnd\<close>
  supplies the random strings a call draws.
\<close>

section \<open>Inputs of the risk engine\<close>

definition level_string :: "RiskLevel \<Rightarrow> string" where
  "level_string l = (case l of RiskLow \<Rightarrow> ''low'' | RiskMedium \<Rightarrow> ''medium'' | RiskHigh \<Rightarrow> ''high'')"

definition fdiv :: "rat \<Rightarrow> rat \<Rightarrow> float64" where
  "fdiv x y = (if y \<noteq> 0 then Fin (fl (x / y)) else if x > 0 then PInf else if x < 0 then NInf else NaN)"

definition historicalAverageAmount :: "Transaction list \<Rightarrow> rat" where
  "historicalAverageAmount history =
     (if history = [] then 0
      else fl (fl (of_int (foldl (\<lambda>total t. i64 (total + txn_AmountPaise t)) 0 history))
               / fl (of_int (int (length history)))))"

definition velocityLastHour :: "Transaction list \<Rightarrow> time \<Rightarrow> int" where
  "velocityLastHour history now = int (length (filter (\<lambda>t. now - txn_CreatedAt t \<le> hour) history))"

definition balanceImpact :: "int \<Rightarrow> Account list \<Rightarrow> rat" where
  "balanceImpact amountPaise accounts =
     (let totalBalance = foldl (\<lambda>total a. i64 (total + ac_BalancePaise a)) 0 accounts
      in if totalBalance \<le> 0 then 1
         else clamp (fl (fl (of_int amountPaise) / fl (of_int totalBalance))) 0 1)"

definition coolingOffWindow :: "'f Service \<Rightarrow> duration" where
  "coolingOffWindow s = (let minutes = mp_CoolingBaseMinutes (sv_params s)
     in (if minutes \<le> 0 then 240 else minutes) * minute)"

definition known_recipient :: "string \<Rightarrow> string \<Rightarrow> 'f Service \<Rightarrow> bool" where
  "known_recipient userID recipient s \<longleftrightarrow>
     (case sv_beneficiaries s userID of None \<Rightarrow> False | Some b \<Rightarrow> ToLower recipient \<in> b)"

definition average_floor :: "string \<Rightarrow> 'f Service \<Rightarrow> rat" where
  "average_floor userID s =
     (let avg = historicalAverageAmount (get_list (sv_transactions s) userID);
          floor = fl (of_int (at_FloorAvgPaise (mp_AmountTerm (sv_params s))))
      in if avg < floor then floor else avg)"

definition risk_signal ::
  "time \<Rightarrow> string \<Rightarrow> InitiateTransactionRequest \<Rightarrow> rat \<Rightarrow> 'f Service \<Rightarrow> float64 RiskSignal" where
  "risk_signal now userID req gnn s =
     (let history = get_list (sv_transactions s) userID;
          accts = get_list (sv_accounts s) userID
      in \<lparr>rs_AmountVsAverage = fdiv (fl (of_int (rq_AmountPaise req))) (average_floor userID s),
          rs_IsNewRecipient = \<not> known_recipient userID (rq_Recipient req) s,
          rs_HourOfDay = now div hour mod 24,
          rs_FailedPINAttempts = rq_FailedPINAttempts req,
          rs_VelocityCount1Hr = velocityLastHour history now,
          rs_BalanceImpact = Fin (balanceImpact (rq_AmountPaise req) accts),
          rs_RecipientGNNScore = Fin gnn,
          rs_BehaviourDrift = Fin (clamp (rq_BehaviourDrift req) 0 1),
          rs_SessionTrustScore = Fin (clamp (rq_SessionTrustScore req) 0 1),
          rs_IsColdStart = False,
          rs_ext = no_inputs
            \<lparr>xi_TransactionAmount := fl (fl (of_int (rq_AmountPaise req)) / 100),
             xi_CurrentBalance := (case accts of [] \<Rightarrow> 0 | a # _ \<Rightarrow> fl (fl (of_int (ac_BalancePaise a)) / 100)),
             xi_AccountAgeDays := (case sv_users s userID of None \<Rightarrow> 0
               | Some u \<Rightarrow> int_of_float (fl (Hours (now - us_CreatedAt u) / 24))),
             xi_AccountType := (case accts of [] \<Rightarrow> [] | a # _ \<Rightarrow> ac_AccountType a),
             xi_PaymentChannel := rq_Channel req, xi_Currency := ''INR''\<rparr>\<rparr>)"

definition auth_decision ::
  "string \<Rightarrow> InitiateTransactionRequest \<Rightarrow> Assessment \<Rightarrow> 'f Service \<Rightarrow> AuthDecision" where
  "auth_decision userID req assessment s =
     EvaluateAuthTier (sv_adaptiveAuth s)
       \<lparr>sr_UserID = userID, sr_DeviceTrustScore = clamp (rq_SessionTrustScore req) 0 1,
        sr_BehaviouralDrift = clamp (rq_BehaviourDrift req) 0 1, sr_SessionAge = 0,
        sr_FailedAuthAttempts = rq_FailedPINAttempts req, sr_LastSuccessfulAuth = 0,
        sr_IsAnomalousSession = False,
        sr_IsTrustedDevice = (case sv_users s userID of None \<Rightarrow> False | Some u \<Rightarrow> us_DeviceBound u)\<rparr>
       \<lparr>tr_RiskScore = as_Score assessment, tr_RiskLevel = level_string (as_Level assessment),
        tr_AmountPaise = rq_AmountPaise req,
        tr_IsNewRecipient = \<not> known_recipient userID (rq_Recipient req) s,
        tr_AmountVsAverage = fdiv (fl (of_int (rq_AmountPaise req))) (average_floor userID s)\<rparr>"

definition initial_status :: "AuthDecision \<Rightarrow> string" where
  "initial_status d = (if ad_IsBlocked d then ''blocked''
     else if ad_RequireOTP d \<or> ad_RequireAck d then ''warning_ack_required'' else ''success'')"

section \<open>Initiating a payment\<close>

definition cache_key :: "string \<Rightarrow> string \<Rightarrow> string" where
  "cache_key userID idempotencyKey = userID @ '':'' @ idempotencyKey"

text \<open>A cache hit is answered; an expired entry is dropped and counts as a miss.\<close>

definition cached_result :: "time \<Rightarrow> string \<Rightarrow> 'f Service \<Rightarrow> TransactionResult option \<times> 'f Service" where
  "cached_result now key s =
     (case map_of (sv_idempotencyResult s) key of
        None \<Rightarrow> (None, s)
      | Some cached \<Rightarrow>
          (case map_of (sv_idempotencyExpiry s) key of
             None \<Rightarrow> (Some cached, s)
           | Some e \<Rightarrow>
               if now < e then (Some cached, s)
               else (None, s\<lparr>sv_idempotencyResult := AList.delete key (sv_idempotencyResult s),
                             sv_idempotencyExpiry := AList.delete key (sv_idempotencyExpiry s)\<rparr>)))"

definition freeze_reason :: string where
  "freeze_reason = ''Outgoing transactions are currently frozen for your protection.''"

definition frozen_result :: "string \<Rightarrow> TransactionResult" where
  "frozen_result i = \<lparr>res_TransactionID = i, res_Status = ''blocked'', res_RiskLevel = RiskHigh,
     res_RiskScore = 100, res_XAIReason = XText freeze_reason, res_CoolingOffUntil = None,
     res_StepUpRequired = True, res_RequiredTier = [], res_RequireBiometric = False,
     res_RequireOTP = False, res_RequireManualReview = False, res_DilithiumSignature = None\<rparr>"

definition refuse_frozen ::
  "sv_env \<Rightarrow> time \<Rightarrow> string \<Rightarrow> string \<Rightarrow> 'f Service \<Rightarrow> ('f, TransactionResult) svc" where
  "refuse_frozen env now userID key s =
     (case nextID ''txn'' s of (i, s1) \<Rightarrow>
        let res = frozen_result i;
            s2 = setIdempotent now key res s1;
            s3 = appendAudit env now userID ''transaction_blocked'' ''transaction'' ''blocked'' freeze_reason ''AI'' s2
        in (Inr res, ledger_write env now userID ''transaction_blocked'' ''transaction'' (PResult res) s3))"

definition new_transaction ::
  "time \<Rightarrow> string \<Rightarrow> string \<Rightarrow> InitiateTransactionRequest \<Rightarrow> string \<Rightarrow> Assessment \<Rightarrow> AuthDecision
     \<Rightarrow> 'f Service \<Rightarrow> Transaction" where
  "new_transaction now userID idempotencyKey req txnID assessment d s =
     (let txn = \<lparr>txn_ID = txnID, txn_UserID = userID, txn_AmountPaise = rq_AmountPaise req,
            txn_Currency = ''INR'', txn_DebitCredit = ''debit'', txn_Recipient = rq_Recipient req,
            txn_MerchantName = rq_Recipient req, txn_Channel = firstNonEmpty (rq_Channel req) ''upi'',
            txn_Description = ''Payment to '' @ rq_Recipient req @ '' of INR '' @ rupees (rq_AmountPaise req),
            txn_Status = initial_status d, txn_RiskLevel = as_Level assessment,
            txn_RiskScore = as_Score assessment, txn_XAIReason = ad_XAIReason d,
            txn_DilithiumSignature = None, txn_CreatedAt = now, txn_IdempotencyKey = idempotencyKey,
            txn_CoolingOffUntil = (if ad_IsBlocked d then Some (now + coolingOffWindow s) else None)\<rparr>;
          txData = txnID @ '':'' @ userID @ '':'' @ dec (rq_AmountPaise req) @ '':'' @ rq_Recipient req @
                   '':'' @ rfc3339nano now
      in case sv_dilithium s of
           None \<Rightarrow> txn
         | Some signer \<Rightarrow> txn\<lparr>txn_DilithiumSignature := signer txData\<rparr>)"

definition publish_decision ::
  "sv_env \<Rightarrow> string \<Rightarrow> time \<Rightarrow> Transaction \<Rightarrow> 'f Service \<Rightarrow> 'f Service" where
  "publish_decision env r now txn s =
     (case env_json env (PRiskEvent (txn_ID txn) (txn_UserID txn) (txn_RiskScore txn) (txn_RiskLevel txn)
                           (txn_Status txn) (mp_Version (sv_params s)) (rfc3339nano now)) of
        Some payload \<Rightarrow> s\<lparr>sv_outbox := Enqueue r now ''risk.decision'' payload (sv_outbox s)\<rparr>
      | None \<Rightarrow> s)"

definition append_transaction :: "string \<Rightarrow> Transaction \<Rightarrow> 'f Service \<Rightarrow> 'f Service" where
  "append_transaction userID txn s =
     s\<lparr>sv_transactions := (sv_transactions s)(userID \<mapsto> get_list (sv_transactions s) userID @ [txn])\<rparr>"

text \<open>Writing into a missing inner map is a nil-map panic.\<close>

definition add_beneficiary :: "string \<Rightarrow> string \<Rightarrow> 'f Service \<Rightarrow> 'f Service option" where
  "add_beneficiary userID recipient s =
     (case sv_beneficiaries s userID of
        None \<Rightarrow> None
      | Some b \<Rightarrow> Some (s\<lparr>sv_beneficiaries := (sv_beneficiaries s)(userID \<mapsto> insert (ToLower recipient) b)\<rparr>))"

definition set_last_blocked :: "string \<Rightarrow> 'f Service \<Rightarrow> 'f Service" where
  "set_last_blocked userID s =
     (case get_list (sv_transactions s) userID of
        [] \<Rightarrow> s
      | txns \<Rightarrow> s\<lparr>sv_transactions := (sv_transactions s)
            (userID \<mapsto> butlast txns @ [(last txns)\<lparr>txn_Status := ''blocked''\<rparr>])\<rparr>)"

definition em_dash :: string where
  "em_dash = [CHR 0xE2, CHR 0x80, CHR 0x94]"

definition post_payment :: "(nat \<Rightarrow> string) \<Rightarrow> time \<Rightarrow> Transaction \<Rightarrow> 'f Service \<Rightarrow> 'f Service" where
  "post_payment rnd now txn s =
     (case get_list (sv_accounts s) (txn_UserID txn) of
        [] \<Rightarrow> s
      | a # _ \<Rightarrow>
          let narration = ''Payment to '' @ txn_Recipient txn @ '' '' @ em_dash @ '' '' @
                FormatMoney (txn_AmountPaise txn)
          in s\<lparr>sv_accountingLedger := snd (PostOutgoingPayment (rnd 1) (rnd 2) now (txn_ID txn) (ac_ID a)
                 (txn_UserID txn) (txn_Recipient txn) (txn_AmountPaise txn) narration
                 (sv_accountingLedger s))\<rparr>)"

definition respond_if_blocked :: "time \<Rightarrow> Transaction \<Rightarrow> 'f Service \<Rightarrow> 'f Service" where
  "respond_if_blocked now txn s =
     (if txn_Status txn = ''blocked'' \<and> txn_RiskScore txn \<ge> 70
      then s\<lparr>sv_threatResponse :=
             snd (RespondToThreat now ThreatDeviceCompromise (txn_UserID txn) None (sv_threatResponse s))\<rparr>
      else s)"

definition violation_error :: "write_error \<Rightarrow> string" where
  "violation_error e = (case e of
      SmartContractViolation v \<Rightarrow> ''smart contract violation: '' @ v
    | _ \<Rightarrow> [])"

definition transaction_result :: "Transaction \<Rightarrow> AuthDecision \<Rightarrow> TransactionResult" where
  "transaction_result txn d =
     \<lparr>res_TransactionID = txn_ID txn, res_Status = txn_Status txn, res_RiskLevel = txn_RiskLevel txn,
      res_RiskScore = txn_RiskScore txn, res_XAIReason = txn_XAIReason txn,
      res_CoolingOffUntil = txn_CoolingOffUntil txn, res_StepUpRequired = txn_Status txn \<noteq> ''success'',
      res_RequiredTier = ad_TierName d, res_RequireBiometric = ad_RequireBiometric d,
      res_RequireOTP = ad_RequireOTP d, res_RequireManualReview = ad_RequireManualReview d,
      res_DilithiumSignature = txn_DilithiumSignature txn\<rparr>"

text \<open>After the ledger accepted the event: post and debit, then answer, cache and notify.\<close>

definition complete_payment ::
  "sv_env \<Rightarrow> time \<Rightarrow> string \<Rightarrow> Transaction \<Rightarrow> AuthDecision \<Rightarrow> 'f Service \<Rightarrow> ('f, TransactionResult) svc" where
  "complete_payment env now key txn d s =
     (let status = txn_Status txn; userID = txn_UserID txn;
          s1 = respond_if_blocked now txn s;
          s2 = appendAudit env now userID ''transaction_initiated'' ''transaction'' status
                 (''Transaction '' @ status @ '' for INR '' @ rupees (txn_AmountPaise txn)) ''AI'' s1;
          res = transaction_result txn d;
          s3 = setIdempotent now key res s2;
          s4 = (if status = ''blocked''
                then PushNotification now userID ''security'' ''Transaction Blocked''
                       (''INR '' @ rupees (txn_AmountPaise txn) @ '' to '' @ txn_Recipient txn @
                        '' was blocked due to risk assessment.'') s3
                else s3)
      in (Inr res, s4))"

definition settle_payment ::
  "sv_env \<Rightarrow> (nat \<Rightarrow> string) \<Rightarrow> time \<Rightarrow> string \<Rightarrow> Transaction \<Rightarrow> AuthDecision
     \<Rightarrow> 'f Service \<Rightarrow> ('f, TransactionResult) svc" where
  "settle_payment env rnd now key txn d s =
     (if txn_Status txn = ''success'' then
        (case applyDebitToFirstAccount (txn_UserID txn) (txn_AmountPaise txn) (post_payment rnd now txn s) of
           (Inl e, s1) \<Rightarrow> (Inl e, s1)
         | (Inr _, s1) \<Rightarrow> complete_payment env now key txn d s1)
      else complete_payment env now key txn d s)"

definition submit_payment ::
  "sv_env \<Rightarrow> (nat \<Rightarrow> string) \<Rightarrow> time \<Rightarrow> string \<Rightarrow> Transaction \<Rightarrow> AuthDecision
     \<Rightarrow> 'f Service \<Rightarrow> ('f, TransactionResult) svc" where
  "submit_payment env rnd now key txn d s =
     (let userID = txn_UserID txn;
          s1 = s\<lparr>sv_fraudGraph := AddTransaction (env_H env) now userID (txn_Recipient txn)
                 (txn_AmountPaise txn) (sv_fraudGraph s)\<rparr>
      in case WriteEventStrict (env_H env) now (\<lambda>_. now) userID ''transaction_initiated'' ''transaction''
                (env_json env (PTransaction txn)) (sv_ledger s1) of
           ((_, None), l) \<Rightarrow> settle_payment env rnd now key txn d (s1\<lparr>sv_ledger := l\<rparr>)
         | ((_, Some e), l) \<Rightarrow>
             let s2 = s1\<lparr>sv_ledger := l\<rparr> in
             (case e of
                SmartContractViolation v \<Rightarrow>
                  (Inl (LedgerRejected e),
                   appendAudit env now userID ''transaction_initiated'' ''transaction'' ''blocked''
                     (''Blocked by blockchain smart contract: '' @ violation_error e) ''SmartContract''
                     (set_last_blocked userID s2))
              | _ \<Rightarrow> (Inl (LedgerRejected e), s2)))"

definition assess_payment ::
  "sv_env \<Rightarrow> (nat \<Rightarrow> string) \<Rightarrow> time \<Rightarrow> string \<Rightarrow> string \<Rightarrow> string \<Rightarrow> InitiateTransactionRequest
     \<Rightarrow> 'f Service \<Rightarrow> ('f, TransactionResult) svc" where
  "assess_payment env rnd now userID idempotencyKey key req s =
     (case GetRiskScore (env_H env) (rq_Recipient req) (sv_fraudGraph s) of (gnn, g) \<Rightarrow>
        let s1 = s\<lparr>sv_fraudGraph := g\<rparr>;
            assessment = Evaluate (sv_riskEngine s1) (risk_signal now userID req gnn s1);
            d = auth_decision userID req assessment s1
        in case nextID ''txn'' s1 of (txnID, s2) \<Rightarrow>
           let txn = new_transaction now userID idempotencyKey req txnID assessment d s2;
               s3 = append_transaction userID txn (publish_decision env (rnd 0) now txn s2)
           in if txn_Status txn = ''blocked'' then submit_payment env rnd now key txn d s3
              else (case add_beneficiary userID (rq_Recipient req) s3 of
                      None \<Rightarrow> (Inl NilMapPanic, s3)
                    | Some s4 \<Rightarrow> submit_payment env rnd now key txn d s4))"

definition InitiateTransaction ::
  "sv_env \<Rightarrow> (nat \<Rightarrow> string) \<Rightarrow> time \<Rightarrow> string \<Rightarrow> string \<Rightarrow> InitiateTransactionRequest
     \<Rightarrow> 'f Service \<Rightarrow> ('f, TransactionResult) svc" where
  "InitiateTransaction env rnd now userID idempotencyKey req s =
     (if sv_users s userID = None then (Inl UserNotFound, s)
      else if idempotencyKey = [] then (Inl IdempotencyKeyRequired, s)
      else
        let key = cache_key userID idempotencyKey in
        case cached_result now key s of
          (Some cached, s1) \<Rightarrow> (Inr cached, s1)
        | (None, s1) \<Rightarrow>
            if rq_AmountPaise req \<le> 0 then (Inl AmountMustBePositive, s1)
            else if TrimSpace (rq_Recipient req) = [] then (Inl RecipientRequired, s1)
            else if get_or False (sv_freezeState s1) userID then refuse_frozen env now userID key s1
            else assess_payment env rnd now userID idempotencyKey key req s1)"

section \<open>Override after step-up\<close>

record OverrideRequest =
  or_TransactionID :: string
  or_BiometricOK :: bool
  or_OTP :: string

definition highValuePaise :: int where "highValuePaise = 100000 * 100"

definition set_status :: "string \<Rightarrow> string \<Rightarrow> string \<Rightarrow> 'f Service \<Rightarrow> 'f Service" where
  "set_status userID txID status s =
     s\<lparr>sv_transactions := (sv_transactions s)(userID \<mapsto>
         update_first (\<lambda>t. txn_ID t = txID) (\<lambda>t. t\<lparr>txn_Status := status\<rparr>)
           (get_list (sv_transactions s) userID))\<rparr>"

definition override_result :: "Transaction \<Rightarrow> bool \<Rightarrow> TransactionResult" where
  "override_result tx manualReview =
     \<lparr>res_TransactionID = txn_ID tx, res_Status = txn_Status tx, res_RiskLevel = txn_RiskLevel tx,
      res_RiskScore = txn_RiskScore tx,
      res_XAIReason = XText ''Override completed after biometric + OTP verification.'',
      res_CoolingOffUntil = None, res_StepUpRequired = False, res_RequiredTier = [],
      res_RequireBiometric = False, res_RequireOTP = False, res_RequireManualReview = manualReview,
      res_DilithiumSignature = None\<rparr>"

definition record_override ::
  "sv_env \<Rightarrow> time \<Rightarrow> string \<Rightarrow> Transaction \<Rightarrow> bool \<Rightarrow> 'f Service \<Rightarrow> 'f Service" where
  "record_override env now userID tx manualReview s =
     (let s1 = appendAudit env now userID ''transaction_override'' ''transaction'' ''success''
                 ''High-risk transaction overridden after step-up authentication'' ''User'' s;
          s2 = ledger_write env now userID ''transaction_override'' ''transaction'' (PTransaction tx) s1
      in if manualReview then
           ledger_write env now userID ''manual_review_queued'' ''audit''
             (PFields [(''transactionId'', txn_ID tx), (''amountPaise'', dec (txn_AmountPaise tx)),
                       (''reason'', ''high_value_override'')])
             (appendAudit env now userID ''manual_review_queued'' ''transaction'' ''flagged''
               (''High-value override ('' @ FormatMoney (txn_AmountPaise tx) @ '') queued for manual review'')
               ''System'' s2)
         else s2)"

text \<open>The status is set through a pointer into the stored list, before the debit is tried.\<close>

definition override_pending ::
  "sv_env \<Rightarrow> time \<Rightarrow> string \<Rightarrow> Transaction \<Rightarrow> 'f Service \<Rightarrow> ('f, TransactionResult) svc" where
  "override_pending env now userID tx0 s =
     (if txn_Status tx0 \<noteq> ''blocked'' \<and> txn_Status tx0 \<noteq> ''warning_ack_required''
      then (Inl NotPendingOverride, s)
      else
        let manualReview = txn_AmountPaise tx0 \<ge> highValuePaise;
            tx = tx0\<lparr>txn_Status := ''success''\<rparr>;
            s1 = set_status userID (txn_ID tx0) ''success'' s
        in case applyDebitToFirstAccount userID (txn_AmountPaise tx) s1 of
             (Inl e, s2) \<Rightarrow> (Inl e, s2)
           | (Inr _, s2) \<Rightarrow>
               (case add_beneficiary userID (txn_Recipient tx) s2 of
                  None \<Rightarrow> (Inl NilMapPanic, s2)
                | Some s3 \<Rightarrow>
                    (Inr (override_result tx manualReview), record_override env now userID tx manualReview s3)))"

definition OverrideTransaction ::
  "sv_env \<Rightarrow> time \<Rightarrow> string \<Rightarrow> OverrideRequest \<Rightarrow> 'f Service \<Rightarrow> ('f, TransactionResult) svc" where
  "OverrideTransaction env now userID req s =
     (if TrimSpace (or_TransactionID req) = [] then (Inl TransactionIDRequired, s)
      else if \<not> or_BiometricOK req \<or> TrimSpace (or_OTP req) = [] then (Inl BiometricAndOTPRequired, s)
      else case VerifyOTPToken env now userID (or_OTP req) s of
          (Inl e, s1) \<Rightarrow> (Inl e, s1)
        | (Inr _, s1) \<Rightarrow>
            (case find (\<lambda>t. txn_ID t = or_TransactionID req) (get_list (sv_transactions s1) userID) of
               None \<Rightarrow> (Inl TransactionNotFound, s1)
             | Some tx \<Rightarrow> override_pending env now userID tx s1))"

section \<open>Verdicts of the validation worker\<close>

record ValidationVerdict =
  vv_AgreesWithML :: bool
  vv_SuggestedLevel :: string
  vv_Confidence :: rat
  vv_Rationale :: string
  vv_RecommendedAction :: string

text \<open>The new status of a transaction, if the verdict changes it.\<close>

definition verdict_status :: "ValidationVerdict \<Rightarrow> string \<Rightarrow> string option" where
  "verdict_status v status =
     (if vv_AgreesWithML v then
        if vv_SuggestedLevel v = ''critical'' \<and> status \<noteq> ''blocked'' then Some ''blocked'' else None
      else if vv_RecommendedAction v \<in> {''step_up'', ''cooling_off''} then
        if status \<noteq> ''blocked'' then Some ''warning_ack_required'' else None
      else if vv_RecommendedAction v = ''block'' then Some ''blocked''
      else if vv_RecommendedAction v = ''dismiss'' then
        if status = ''blocked'' \<or> status = ''warning_ack_required'' then Some ''success'' else None
      else None)"

definition verdict_level :: "ValidationVerdict \<Rightarrow> RiskLevel \<Rightarrow> RiskLevel" where
  "verdict_level v l =
     (if vv_SuggestedLevel v = ''low'' then RiskLow
      else if vv_SuggestedLevel v = ''medium'' then RiskMedium
      else if vv_SuggestedLevel v = ''high'' then RiskHigh else l)"

definition apply_verdict :: "ValidationVerdict \<Rightarrow> Transaction \<Rightarrow> Transaction" where
  "apply_verdict v tx =
     tx\<lparr>txn_Status := (case verdict_status v (txn_Status tx) of None \<Rightarrow> txn_Status tx | Some st \<Rightarrow> st),
        txn_RiskLevel := verdict_level v (txn_RiskLevel tx)\<rparr>"

record ValidateRiskResponse =
  vr_Applied :: bool
  vr_NewStatus :: string
  vr_OldStatus :: string

text \<open>\<open>order\<close> lists the users in the order in which the range over the map visits them.\<close>

definition ValidateRisk ::
  "sv_env \<Rightarrow> string list \<Rightarrow> time \<Rightarrow> string \<Rightarrow> ValidationVerdict \<Rightarrow> 'f Service
     \<Rightarrow> ('f, ValidateRiskResponse) svc" where
  "ValidateRisk env order now txID v s =
     (case find (\<lambda>u. find (\<lambda>t. txn_ID t = txID) (get_list (sv_transactions s) u) \<noteq> None) order of
        None \<Rightarrow> (Inl TransactionNotFound, s)
      | Some u \<Rightarrow>
          (case find (\<lambda>t. txn_ID t = txID) (get_list (sv_transactions s) u) of
             None \<Rightarrow> (Inl TransactionNotFound, s)
           | Some tx \<Rightarrow>
               if (case txn_CoolingOffUntil tx of None \<Rightarrow> False | Some until \<Rightarrow> now > until)
               then (Inl (CoolingOffWindowExpired (txn_Status tx)), s)
               else
                 let tx' = apply_verdict v tx;
                     s1 = s\<lparr>sv_transactions := (sv_transactions s)(u \<mapsto>
                            update_first (\<lambda>t. txn_ID t = txID) (apply_verdict v) (get_list (sv_transactions s) u))\<rparr>;
                     s2 = appendAudit env now (txn_UserID tx) ''risk_validation'' ''transaction'' ''applied''
                            (''Risk validation applied: agrees_with_ml='' @
                             (if vv_AgreesWithML v then ''true'' else ''false'') @ '', action='' @
                             vv_RecommendedAction v @ '', new_status='' @ txn_Status tx') ''AI'' s1;
                     s3 = ledger_write env now (txn_UserID tx) ''risk_validation'' ''transaction''
                            (PValidation txID (vv_AgreesWithML v) (vv_SuggestedLevel v) (vv_Confidence v)
                              (vv_Rationale v) (vv_RecommendedAction v) (txn_Status tx) (txn_Status tx')) s2
                 in (Inr \<lparr>vr_Applied = verdict_status v (txn_Status tx) \<noteq> None,
                          vr_NewStatus = txn_Status tx', vr_OldStatus = txn_Status tx\<rparr>, s3)))"

text \<open>Newest first; among equal times the model keeps the stored order, \<open>sort.Slice\<close> may not.\<close>

definition TransactionHistory :: "string \<Rightarrow> 'f Service \<Rightarrow> Transaction list" where
  "TransactionHistory userID s = sort_key (\<lambda>t. - txn_CreatedAt t) (get_list (sv_transactions s) userID)"

section \<open>Frames\<close>

text \<open>
  The money of a service is its accounts; \<open>same_money\<close> says that two states agree on them and on
  the double-entry ledger.
\<close>

definition same_money :: "'f Service \<Rightarrow> 'f Service \<Rightarrow> bool" where
  "same_money s t \<longleftrightarrow> sv_accounts s = sv_accounts t \<and> sv_accountingLedger s = sv_accountingLedger t"

lemma same_money_refl [simp]: "same_money s s"
  by (simp add: same_money_def)

lemma same_money_trans [trans]: "same_money s t \<Longrightarrow> same_money t u \<Longrightarrow> same_money s u"
  by (simp add: same_money_def)

lemma same_money_funds: "same_money s t \<Longrightarrow> user_funds s = user_funds t \<and> all_solvent s = all_solvent t"
  unfolding same_money_def user_funds_def [abs_def] all_solvent_def by simp

lemma money_frame [simp]:
  "same_money (s\<lparr>sv_counter := c\<rparr>) t = same_money s t"
  "same_money (s\<lparr>sv_fraudGraph := g\<rparr>) t = same_money s t"
  "same_money (s\<lparr>sv_ledger := l\<rparr>) t = same_money s t"
  "same_money (s\<lparr>sv_outbox := ob\<rparr>) t = same_money s t"
  "same_money (s\<lparr>sv_transactions := tx\<rparr>) t = same_money s t"
  "same_money (s\<lparr>sv_beneficiaries := bn\<rparr>) t = same_money s t"
  "same_money (s\<lparr>sv_idempotencyResult := ir\<rparr>) t = same_money s t"
  "same_money (s\<lparr>sv_idempotencyExpiry := ie\<rparr>) t = same_money s t"
  "same_money (s\<lparr>sv_threatResponse := tr\<rparr>) t = same_money s t"
  "same_money (s\<lparr>sv_notificationCenter := nc\<rparr>) t = same_money s t"
  "same_money (s\<lparr>sv_authProfiles := ap\<rparr>) t = same_money s t"
  "same_money (s\<lparr>sv_otpAttempts := oa\<rparr>) t = same_money s t"
  "same_money (s\<lparr>sv_otpLockUntil := ol\<rparr>) t = same_money s t"
  "same_money (s\<lparr>sv_freezeState := fs\<rparr>) t = same_money s t"
  "same_money (s\<lparr>sv_audit := au\<rparr>) t = same_money s t"
  by (simp_all add: same_money_def)

lemma money_ops [simp]:
  "same_money (ledger_write env now u a r p s) t = same_money s t"
  "same_money (appendAudit env now u a r oc d tr s) t = same_money s t"
  "same_money (pruneIdempotency now s) t = same_money s t"
  "same_money (setIdempotent now k res s) t = same_money s t"
  "same_money (PushNotification now u c ti b s) t = same_money s t"
  "same_money (publish_decision env rn now txn s) t = same_money s t"
  "same_money (append_transaction u txn s) t = same_money s t"
  "same_money (set_last_blocked u s) t = same_money s t"
  "same_money (set_status u i st s) t = same_money s t"
  "same_money (respond_if_blocked now txn s) t = same_money s t"
  by (simp_all add: ledger_write_def appendAudit_def pruneIdempotency_def setIdempotent_def PushNotification_def
    publish_decision_def append_transaction_def set_last_blocked_def set_status_def respond_if_blocked_def
    nextID_def Let_def split: prod.splits option.splits list.splits)

lemma add_beneficiary_money: "add_beneficiary u r s = Some s' \<Longrightarrow> same_money s' t = same_money s t"
  by (auto simp: add_beneficiary_def split: option.splits)

lemma cached_result_money: "cached_result now k s = (r, s') \<Longrightarrow> same_money s' s"
  by (auto simp: cached_result_def split: option.splits if_splits)

lemma refuse_frozen_money: "same_money (snd (refuse_frozen env now u k s)) s"
  by (simp add: refuse_frozen_def Let_def split: prod.split) (simp add: nextID_def Let_def)

lemma complete_payment_money: "same_money (snd (complete_payment env now k txn d s)) s"
  by (simp add: complete_payment_def Let_def)

lemma complete_payment_result: "fst (complete_payment env now k txn d s) = Inr (transaction_result txn d)"
  by (simp add: complete_payment_def Let_def)

lemma VerifyOTPToken_money: "same_money (snd (VerifyOTPToken env now u otp s)) s"
  by (cases rule: VerifyOTPToken_cases [of env now u otp s])
    (simp_all add: count_failure_def Let_def reset_otp_counters_def set_profile_def)

text \<open>The users, the goals and the cache.\<close>

definition core ::
  "'f Service \<Rightarrow> (string \<rightharpoonup> User) \<times> (string \<rightharpoonup> Goal list) \<times> (string \<times> TransactionResult) list \<times> (string \<times> time) list" where
  "core s = (sv_users s, sv_goals s, sv_idempotencyResult s, sv_idempotencyExpiry s)"

lemma core_frame [simp]:
  "core (s\<lparr>sv_counter := c\<rparr>) = core s" "core (s\<lparr>sv_fraudGraph := g\<rparr>) = core s"
  "core (s\<lparr>sv_ledger := l\<rparr>) = core s" "core (s\<lparr>sv_outbox := ob\<rparr>) = core s"
  "core (s\<lparr>sv_transactions := tx\<rparr>) = core s" "core (s\<lparr>sv_beneficiaries := bn\<rparr>) = core s"
  "core (s\<lparr>sv_threatResponse := tr\<rparr>) = core s" "core (s\<lparr>sv_notificationCenter := nc\<rparr>) = core s"
  "core (s\<lparr>sv_accounts := ac\<rparr>) = core s" "core (s\<lparr>sv_accountingLedger := al\<rparr>) = core s"
  "core (s\<lparr>sv_audit := au\<rparr>) = core s"
  by (simp_all add: core_def)

lemma core_ops [simp]:
  "core (ledger_write env now u a r p s) = core s"
  "core (appendAudit env now u a r oc d tr s) = core s"
  "core (PushNotification now u c ti b s) = core s"
  "core (publish_decision env rn now txn s) = core s"
  "core (append_transaction u txn s) = core s"
  "core (set_last_blocked u s) = core s"
  "core (respond_if_blocked now txn s) = core s"
  "core (post_payment rnd now txn s) = core s"
  "core (snd (applyDebitToFirstAccount u m s)) = core s"
  by (simp_all add: ledger_write_def appendAudit_def PushNotification_def publish_decision_def
    append_transaction_def set_last_blocked_def respond_if_blocked_def post_payment_def
    applyDebitToFirstAccount_def nextID_def Let_def split: prod.splits option.splits list.splits)

lemma core_setIdempotent:
  "core s = core t \<Longrightarrow> core (setIdempotent now k res s) = core (setIdempotent now k res t)"
  by (simp add: core_def setIdempotent_def pruneIdempotency_def split: prod.split)

lemma add_beneficiary_core: "add_beneficiary u r s = Some s' \<Longrightarrow> core s' = core s"
  by (auto simp: add_beneficiary_def split: option.splits)

section \<open>The stages of a payment\<close>

text \<open>Recording and assessing a payment moves no money and leaves the cache; then it is submitted.\<close>

lemma new_transaction_fields:
  "txn_UserID (new_transaction now u ik req i a d s) = u"
  "txn_AmountPaise (new_transaction now u ik req i a d s) = rq_AmountPaise req"
  "txn_Status (new_transaction now u ik req i a d s) = initial_status d"
  "txn_ID (new_transaction now u ik req i a d s) = i"
  "txn_RiskScore (new_transaction now u ik req i a d s) = as_Score a"
  "txn_RiskLevel (new_transaction now u ik req i a d s) = as_Level a"
  by (simp_all add: new_transaction_def Let_def split: option.split)

lemma assess_payment_cases:
  assumes r: "assess_payment env rnd now u ik k req s = (r, s')"
  obtains (panic) "r = Inl NilMapPanic" "same_money s' s" "core s' = core s" "sv_beneficiaries s u = None"
  | (submitted) txn d t where "submit_payment env rnd now k txn d t = (r, s')" "txn_UserID txn = u"
      "txn_AmountPaise txn = rq_AmountPaise req" "same_money t s" "core t = core s"
      "\<exists>gnn a. a = Evaluate (sv_riskEngine s) (risk_signal now u req gnn s) \<and> d = auth_decision u req a s \<and>
         txn_Status txn = initial_status d \<and> txn_RiskScore txn = as_Score a \<and> txn_RiskLevel txn = as_Level a"
      "sv_ledger t = sv_ledger s"
proof -
  obtain gnn g where g: "GetRiskScore (env_H env) (rq_Recipient req) (sv_fraudGraph s) = (gnn, g)" by fastforce
  define s1 where "s1 = s\<lparr>sv_fraudGraph := g\<rparr>"
  define a where "a = Evaluate (sv_riskEngine s1) (risk_signal now u req gnn s1)"
  define d where "d = auth_decision u req a s1"
  obtain i s2 where i: "nextID ''txn'' s1 = (i, s2)" by fastforce
  define txn where "txn = new_transaction now u ik req i a d s2"
  define s3 where "s3 = append_transaction u txn (publish_decision env (rnd 0) now txn s2)"
  have sm: "same_money s3 s" "core s3 = core s" using i by (auto simp: s3_def s1_def nextID_def Let_def)
  have rest: "sv_beneficiaries s3 = sv_beneficiaries s" "sv_ledger s3 = sv_ledger s"
    using i by (auto simp: s3_def s1_def nextID_def Let_def append_transaction_def publish_decision_def split: option.splits)
  have tx: "txn_UserID txn = u" "txn_AmountPaise txn = rq_AmountPaise req"
    by (simp_all add: txn_def new_transaction_fields)
  have views: "risk_signal now u req gnn s1 = risk_signal now u req gnn s" "auth_decision u req b s1 = auth_decision u req b s" for b
    by (simp_all add: s1_def risk_signal_def auth_decision_def known_recipient_def average_floor_def Let_def)
  have gate: "\<exists>gnn a. a = Evaluate (sv_riskEngine s) (risk_signal now u req gnn s) \<and> d = auth_decision u req a s \<and>
         txn_Status txn = initial_status d \<and> txn_RiskScore txn = as_Score a \<and> txn_RiskLevel txn = as_Level a"
    by (rule exI [of _ gnn], rule exI [of _ a])
      (use views in \<open>simp add: a_def d_def txn_def new_transaction_fields s1_def\<close>)
  have r': "(if txn_Status txn = ''blocked'' then submit_payment env rnd now k txn d s3
      else case add_beneficiary u (rq_Recipient req) s3 of None \<Rightarrow> (Inl NilMapPanic, s3)
        | Some s4 \<Rightarrow> submit_payment env rnd now k txn d s4) = (r, s')"
    using r unfolding assess_payment_def g prod.case Let_def s1_def [symmetric] a_def [symmetric]
      d_def [symmetric] i txn_def [symmetric] s3_def [symmetric] .
  show thesis
  proof (cases "txn_Status txn = ''blocked''")
    case True
    with r' submitted [OF _ tx sm gate rest(2)] show thesis by simp
  next
    case False
    show thesis
    proof (cases "add_beneficiary u (rq_Recipient req) s3")
      case None
      with r' False sm panic rest(1) show thesis by (simp add: add_beneficiary_def split: option.splits)
    next
      case (Some s4)
      then have "sv_ledger s4 = sv_ledger s" using rest(2) by (auto simp: add_beneficiary_def split: option.splits)
      with Some r' False sm submitted [OF _ tx _ _ gate, of s4]
        add_beneficiary_money [OF Some, of s] add_beneficiary_core [OF Some] show thesis by simp
    qed
  qed
qed

text \<open>A submitted payment is settled, unless the ledger refuses it.\<close>

lemma submit_payment_cases:
  assumes r: "submit_payment env rnd now k txn d s = (r, s')"
  obtains (settled) t where "settle_payment env rnd now k txn d t = (r, s')" "same_money t s" "core t = core s"
  | (rejected) e where "r = Inl (LedgerRejected e)" "same_money s' s" "core s' = core s"
proof -
  let ?g = "AddTransaction (env_H env) now (txn_UserID txn) (txn_Recipient txn) (txn_AmountPaise txn) (sv_fraudGraph s)"
  obtain ev err l where w: "WriteEventStrict (env_H env) now (\<lambda>_. now) (txn_UserID txn) ''transaction_initiated''
      ''transaction'' (env_json env (PTransaction txn)) (sv_ledger s) = ((ev, err), l)"
    by (metis surj_pair)
  show thesis
  proof (cases err)
    case None
    with r w show thesis
      by (intro settled [of "s\<lparr>sv_fraudGraph := ?g\<rparr>\<lparr>sv_ledger := l\<rparr>"]) (simp_all add: submit_payment_def Let_def)
  next
    case (Some e)
    have "r = Inl (LedgerRejected e) \<and> same_money s' s \<and> core s' = core s"
      using r w Some by (cases e) (auto simp: submit_payment_def Let_def)
    then show thesis using rejected by blast
  qed
qed

end
