(* ===== verification/PaymentGuarantees.thy ===== *)
theory PaymentGuarantees
  imports PlatformTransactions
begin

text \<open>
  What the payment path guarantees: how much money an attempt moves, what a freeze stops, that a
  retry is answered with the first result, that the idempotency cache stays bounded, and what an
  override of a held payment does.
\<close>

section \<open>What a payment does to the money\<close>

text \<open>
  The money outcome of a payment attempt: the payer's funds lose the amount exactly when the
  attempt is answered with success, and nothing else moves.
\<close>

definition paid_or_unchanged ::
  "string \<Rightarrow> int \<Rightarrow> svc_error + TransactionResult \<Rightarrow> 'f Service \<Rightarrow> 'f Service \<Rightarrow> bool" where
  "paid_or_unchanged u m r s s' \<longleftrightarrow> all_solvent s' \<and>
     user_funds s' = (case r of
         Inr res \<Rightarrow> if res_Status res = ''success'' then (user_funds s)(u := user_funds s u - m) else user_funds s
       | Inl _ \<Rightarrow> user_funds s) \<and>
     (case r of Inr res \<Rightarrow> res_Status res = ''success'' \<longrightarrow> m \<le> user_funds s u | Inl _ \<Rightarrow> True)"

lemma post_payment_funds:
  "user_funds (post_payment rnd now txn s) = user_funds s" "all_solvent (post_payment rnd now txn s) = all_solvent s"
  "sv_accounts (post_payment rnd now txn s) = sv_accounts s"
  by (simp_all add: post_payment_def user_funds_def all_solvent_def fun_eq_iff split: list.split)

lemma settle_payment_money:
  assumes sol: "all_solvent s" and m: "0 < txn_AmountPaise txn"
    and r: "settle_payment env rnd now k txn d s = (r, s')"
  shows "paid_or_unchanged (txn_UserID txn) (txn_AmountPaise txn) r s s'"
proof (cases "txn_Status txn = ''success''")
  case False
  then have r': "r = Inr (transaction_result txn d)" and s': "same_money s' s"
    using r complete_payment_money [of env now k txn d s] complete_payment_result [of env now k txn d s]
    by (simp_all add: settle_payment_def)
  with False sol same_money_funds [OF s'] show ?thesis
    by (simp add: paid_or_unchanged_def transaction_result_def)
next
  case True
  let ?p = "post_payment rnd now txn s"
  have "all_solvent ?p" using sol by (simp add: post_payment_funds)
  then show ?thesis
  proof (cases rule: applyDebit_cases [of ?p "txn_AmountPaise txn" "txn_UserID txn"])
    case none
    with m show ?thesis by simp
  next
    case short
    with r True sol show ?thesis by (auto simp: settle_payment_def paid_or_unchanged_def post_payment_funds)
  next
    case (paid t)
    have c: "same_money (snd (complete_payment env now k txn d t)) t"
      "fst (complete_payment env now k txn d t) = Inr (transaction_result txn d)"
      by (simp_all add: complete_payment_money complete_payment_result)
    from r True paid(3) have "complete_payment env now k txn d t = (r, s')" by (simp add: settle_payment_def)
    with c have "r = Inr (transaction_result txn d)" "same_money s' t" by simp_all
    with paid True same_money_funds [of s' t] show ?thesis
      by (simp add: paid_or_unchanged_def transaction_result_def post_payment_funds)
  qed
qed

lemma paid_or_unchanged_same: "same_money s t \<Longrightarrow> paid_or_unchanged u m r s s' = paid_or_unchanged u m r t s'"
  using same_money_funds [of s t] by (cases r) (simp_all add: paid_or_unchanged_def)

lemma unchanged_error: "all_solvent s \<Longrightarrow> same_money s' s \<Longrightarrow> paid_or_unchanged u m (Inl e) s s'"
  using same_money_funds [of s' s] by (simp add: paid_or_unchanged_def)

lemma submit_payment_money:
  assumes sol: "all_solvent s" and m: "0 < txn_AmountPaise txn"
    and r: "submit_payment env rnd now k txn d s = (r, s')"
  shows "paid_or_unchanged (txn_UserID txn) (txn_AmountPaise txn) r s s'"
  using r
proof (cases rule: submit_payment_cases)
  case (settled t)
  have "all_solvent t" using sol same_money_funds [OF settled(2)] by simp
  from settle_payment_money [OF this m settled(1)] show ?thesis
    using paid_or_unchanged_same [OF settled(2)] by simp
next
  case (rejected e)
  with sol show ?thesis by (simp add: unchanged_error)
qed

lemma assess_payment_money:
  assumes sol: "all_solvent s" and m: "0 < rq_AmountPaise req"
    and r: "assess_payment env rnd now u ik k req s = (r, s')"
  shows "paid_or_unchanged u (rq_AmountPaise req) r s s'"
  using r
proof (cases rule: assess_payment_cases)
  case panic
  with sol show ?thesis by (simp add: unchanged_error)
next
  case (submitted txn d t)
  have "all_solvent t" using sol same_money_funds [OF submitted(4)] by simp
  from submit_payment_money [OF this _ submitted(1)] show ?thesis
    using paid_or_unchanged_same [OF submitted(4)] m submitted(2, 3) by simp
qed

section \<open>What a payment does to the idempotency cache\<close>

text \<open>An attempt stores its result, or leaves the cache (and then answers an error).\<close>

definition stored_or_error ::
  "time \<Rightarrow> string \<Rightarrow> svc_error + TransactionResult \<Rightarrow> 'f Service \<Rightarrow> 'f Service \<Rightarrow> bool" where
  "stored_or_error now k r s s' \<longleftrightarrow> (case r of
      Inr res \<Rightarrow> core s' = core (setIdempotent now k res s)
    | Inl _ \<Rightarrow> core s' = core s)"

lemma stored_or_error_cong: "core s = core t \<Longrightarrow> stored_or_error now k r s s' = stored_or_error now k r t s'"
  using core_setIdempotent [of s t now k] by (cases r) (simp_all add: stored_or_error_def)

lemma complete_payment_core:
  "core (snd (complete_payment env now k txn d s)) = core (setIdempotent now k (transaction_result txn d) s)"
  by (auto simp: complete_payment_def Let_def intro!: core_setIdempotent)

lemma settle_payment_core:
  assumes "settle_payment env rnd now k txn d s = (r, s')"
  shows "stored_or_error now k r s s'"
proof -
  have complete: "stored_or_error now k r t s'" if "complete_payment env now k txn d t = (r, s')" for t
    using that complete_payment_core [of env now k txn d t] complete_payment_result [of env now k txn d t]
    by (simp add: stored_or_error_def)
  obtain e t where d: "applyDebitToFirstAccount (txn_UserID txn) (txn_AmountPaise txn) (post_payment rnd now txn s) = (e, t)"
    by fastforce
  then have t: "core t = core s"
    using core_ops(9) [of "txn_UserID txn" "txn_AmountPaise txn" "post_payment rnd now txn s"] by simp
  then show ?thesis
    using assms d complete [of s] complete [of t] stored_or_error_cong [OF t]
    by (cases e) (auto simp: settle_payment_def stored_or_error_def split: if_splits)
qed

lemma submit_payment_core:
  assumes "submit_payment env rnd now k txn d s = (r, s')"
  shows "stored_or_error now k r s s'"
  using assms
proof (cases rule: submit_payment_cases)
  case (settled t)
  then show ?thesis using settle_payment_core [OF settled(1)] stored_or_error_cong [OF settled(3)] by simp
qed (simp add: stored_or_error_def)

lemma assess_payment_core:
  assumes "assess_payment env rnd now u ik k req s = (r, s')"
  shows "stored_or_error now k r s s'"
  using assms
proof (cases rule: assess_payment_cases)
  case (submitted txn d t)
  then show ?thesis using submit_payment_core [OF submitted(1)] stored_or_error_cong [OF submitted(5)] by simp
qed (simp add: stored_or_error_def)

lemma refuse_frozen_core:
  "refuse_frozen env now u k s = (r, s') \<Longrightarrow> stored_or_error now k r s s' \<and> (\<exists>res. r = Inr res \<and> res_Status res = ''blocked'')"
proof -
  assume r: "refuse_frozen env now u k s = (r, s')"
  obtain i s1 where i: "nextID ''txn'' s = (i, s1)" by fastforce
  then have "core s1 = core s" by (auto simp: nextID_def Let_def)
  from core_setIdempotent [OF this, of now k "frozen_result i"] r i show ?thesis
    by (auto simp: refuse_frozen_def Let_def stored_or_error_def) (simp add: frozen_result_def)
qed

text \<open>The three ways of an attempt: answered from the cache, refused, or stored.\<close>

lemma InitiateTransaction_core:
  assumes "InitiateTransaction env rnd now u ik req s = (r, s')"
  obtains (hit) cached where "cached_result now (cache_key u ik) s = (Some cached, s')" "r = Inr cached"
      "sv_users s u \<noteq> None" "ik \<noteq> []"
  | (error) e where "r = Inl e" "core s' = core s \<or> core s' = core (snd (cached_result now (cache_key u ik) s))"
  | (stored) res t where "cached_result now (cache_key u ik) s = (None, t)" "r = Inr res"
      "core s' = core (setIdempotent now (cache_key u ik) res t)" "sv_users s u \<noteq> None" "ik \<noteq> []"
proof -
  obtain c t where c: "cached_result now (cache_key u ik) s = (c, t)" by fastforce
  consider "sv_users s u = None \<or> ik = []"
    | cached where "sv_users s u \<noteq> None" "ik \<noteq> []" "c = Some cached"
    | "sv_users s u \<noteq> None" "ik \<noteq> []" "c = None" "rq_AmountPaise req \<le> 0 \<or> TrimSpace (rq_Recipient req) = []"
    | "sv_users s u \<noteq> None" "ik \<noteq> []" "c = None" "0 < rq_AmountPaise req" "TrimSpace (rq_Recipient req) \<noteq> []"
    by (metis linorder_not_less not_Some_eq)
  then show thesis
  proof cases
    case 1
    with assms have "core s' = core s" "\<exists>e. r = Inl e" by (auto simp: InitiateTransaction_def split: if_splits)
    then show thesis using error by blast
  next
    case (2 cached)
    with assms c have "r = Inr cached" "s' = t" by (simp_all add: InitiateTransaction_def Let_def)
    with 2 c hit show thesis by simp
  next
    case 3
    with assms c have "core s' = core t" "\<exists>e. r = Inl e"
      by (auto simp: InitiateTransaction_def Let_def split: if_splits)
    with c error show thesis by auto
  next
    case 4
    with assms c have "refuse_frozen env now u (cache_key u ik) t = (r, s') \<or>
        assess_payment env rnd now u ik (cache_key u ik) req t = (r, s')"
      by (auto simp: InitiateTransaction_def Let_def split: if_splits)
    then have "stored_or_error now (cache_key u ik) r t s'"
      using refuse_frozen_core assess_payment_core by blast
    then show thesis using 4 c error stored by (cases r) (simp_all add: stored_or_error_def)
  qed
qed

section \<open>The cache keeps what it stored\<close>

lemma map_of_filter_keys:
  "map_of (filter (\<lambda>(k, _). P k) al) key = (if P key then map_of al key else None)"
  by (induction al) auto

lemma dom_filter_keys: "dom (map_of (filter (\<lambda>(k, _). P k) al)) = {k \<in> dom (map_of al). P k}"
  by (auto simp: map_of_filter_keys split: if_splits)

lemma length_update_le: "length (AList.update k v al) \<le> Suc (length al)"
  by (induction al) auto

text \<open>The two maps of the cache have the same keys, none of them empty.\<close>

definition cache_ok :: "(string \<times> 'r) list \<times> (string \<times> time) list \<Rightarrow> bool" where
  "cache_ok c \<longleftrightarrow> dom (map_of (fst c)) = dom (map_of (snd c)) \<and> [] \<notin> dom (map_of (snd c))"

lemma oldest_loop_key: "es \<noteq> [] \<Longrightarrow> oldest_loop es True k0 t0 \<in> dom (map_of es)"
proof (cases es)
  case (Cons x es')
  obtain k e where x: "x = (k, e)" by fastforce
  then show ?thesis using oldest_loop_mem [of es' False k e] Cons by (auto simp: dom_map_of_conv_image_fst)
qed simp

lemma cache_ok_delete: "cache_ok (rs, es) \<Longrightarrow> cache_ok (AList.delete k rs, AList.delete k es)"
  by (simp add: cache_ok_def delete_conv')

text \<open>Eviction ends below the bound, and does nothing below it.\<close>

lemma evict_oldest_bounded:
  "cache_ok (rs, es) \<Longrightarrow> cache_ok (evict_oldest (rs, es)) \<and> length (fst (evict_oldest (rs, es))) \<le> idempotencyMaxEntries"
proof (induction "(rs, es)" arbitrary: rs es rule: evict_oldest.induct)
  case (1 rs es)
  show ?case
  proof (cases "length rs > idempotencyMaxEntries")
    case False
    then show ?thesis using "1.prems" by (simp add: evict_oldest.simps [of rs es])
  next
    case True
    then have "dom (map_of rs) \<noteq> {}" by (cases rs) auto
    with "1.prems" have "es \<noteq> []" by (auto simp: cache_ok_def)
    then have "oldest_loop es True [] 0 \<in> dom (map_of es)" by (rule oldest_loop_key)
    with "1.prems" have ne: "oldest_loop es True [] 0 \<noteq> []" by (metis cache_ok_def snd_conv)
    from "1.hyps" [OF True refl ne cache_ok_delete [OF "1.prems"]] True ne show ?thesis
      by (simp add: evict_oldest.simps [of rs es] Let_def)
  qed
qed

lemma evict_oldest_id: "length rs \<le> idempotencyMaxEntries \<Longrightarrow> evict_oldest (rs, es) = (rs, es)"
  by (simp add: evict_oldest.simps [of rs es])

definition cache_of :: "'f Service \<Rightarrow> (string \<times> TransactionResult) list \<times> (string \<times> time) list" where
  "cache_of s = (sv_idempotencyResult s, sv_idempotencyExpiry s)"

lemma pruneIdempotency_cache:
  assumes "cache_ok (cache_of s)"
  shows "cache_ok (cache_of (pruneIdempotency now s)) \<and>
    length (sv_idempotencyResult (pruneIdempotency now s)) \<le> idempotencyMaxEntries"
proof -
  define P where "P = (\<lambda>k. \<not> (case map_of (sv_idempotencyExpiry s) k of Some e \<Rightarrow> e < now | None \<Rightarrow> False))"
  let ?rs = "filter (\<lambda>(k, _). P k) (sv_idempotencyResult s)" and ?es = "filter (\<lambda>(k, _). P k) (sv_idempotencyExpiry s)"
  have ok: "cache_ok (?rs, ?es)"
    using assms by (simp add: cache_ok_def cache_of_def dom_filter_keys)
  obtain rs' es' where e: "evict_oldest (?rs, ?es) = (rs', es')" by fastforce
  then have "pruneIdempotency now s = s\<lparr>sv_idempotencyResult := rs', sv_idempotencyExpiry := es'\<rparr>"
    by (simp add: pruneIdempotency_def Let_def P_def)
  then show ?thesis using evict_oldest_bounded [OF ok] e by (simp add: cache_of_def)
qed

lemma setIdempotent_cache:
  assumes "cache_ok (cache_of s)" and "k \<noteq> []"
  shows "cache_ok (cache_of (setIdempotent now k res s)) \<and>
    length (sv_idempotencyResult (setIdempotent now k res s)) \<le> idempotencyMaxEntries"
  unfolding setIdempotent_def
  by (rule pruneIdempotency_cache) (use assms in \<open>simp add: cache_ok_def cache_of_def update_conv'\<close>)

lemma cached_result_miss:
  "cached_result now k s = (None, t) \<Longrightarrow>
   sv_users t = sv_users s \<and> length (sv_idempotencyResult t) \<le> length (sv_idempotencyResult s) \<and>
   (cache_ok (cache_of s) \<longrightarrow> cache_ok (cache_of t)) \<and> same_money t s"
  by (auto simp: cached_result_def cache_of_def cache_ok_delete length_delete_le split: option.splits if_splits)

lemma setIdempotent_users [simp]:
  "sv_users (setIdempotent now k res s) = sv_users s" "sv_goals (setIdempotent now k res s) = sv_goals s"
  by (simp_all add: setIdempotent_def pruneIdempotency_def Let_def split: prod.split)

lemma InitiateTransaction_users:
  "sv_users (snd (InitiateTransaction env rnd now u ik req s)) = sv_users s \<and>
   sv_goals (snd (InitiateTransaction env rnd now u ik req s)) = sv_goals s"
proof -
  obtain r s' where r: "InitiateTransaction env rnd now u ik req s = (r, s')" by fastforce
  have miss: "sv_users (snd (cached_result now k s)) = sv_users s \<and> sv_goals (snd (cached_result now k s)) = sv_goals s" for k
    by (simp add: cached_result_def split: option.split)
  have cong: "sv_users a = sv_users b \<and> sv_goals a = sv_goals b" if "core a = core b" for a b :: "'a Service"
    using that by (simp add: core_def)
  from r have "sv_users s' = sv_users s \<and> sv_goals s' = sv_goals s"
  proof (cases rule: InitiateTransaction_core)
    case (hit cached)
    with miss show ?thesis by (metis snd_conv)
  next
    case (error e)
    with miss cong show ?thesis by metis
  next
    case (stored res t)
    with miss cong [OF stored(3)] show ?thesis by (metis setIdempotent_users snd_conv)
  qed
  with r show ?thesis by simp
qed

section \<open>Retries\<close>

text \<open>One payment attempt: when, the random strings it draws, who, under which key, and what.\<close>

type_synonym payment_call = "time \<times> (nat \<Rightarrow> string) \<times> string \<times> string \<times> InitiateTransactionRequest"

definition pay_step :: "sv_env \<Rightarrow> 'f Service \<Rightarrow> payment_call \<Rightarrow> 'f Service" where
  "pay_step env s = (\<lambda>(now, rnd, u, ik, req). snd (InitiateTransaction env rnd now u ik req s))"

definition call_time :: "payment_call \<Rightarrow> time" where
  "call_time = (\<lambda>(now, _). now)"

text \<open>The cache answers key \<open>k\<close> with \<open>res\<close> until \<open>E\<close>, and has room for \<open>n\<close> more entries.\<close>

definition remembered :: "string \<Rightarrow> TransactionResult \<Rightarrow> time \<Rightarrow> nat \<Rightarrow> 'f Service \<Rightarrow> bool" where
  "remembered k res E n s \<longleftrightarrow> map_of (sv_idempotencyResult s) k = Some res \<and>
     map_of (sv_idempotencyExpiry s) k = Some E \<and> length (sv_idempotencyResult s) + n \<le> idempotencyMaxEntries"

lemma remembered_core: "core s' = core s \<Longrightarrow> remembered k res E n s' = remembered k res E n s"
  by (simp add: remembered_def core_def)

definition unexpired :: "time \<Rightarrow> (string \<times> time) list \<Rightarrow> string \<Rightarrow> bool" where
  "unexpired now es j \<longleftrightarrow> \<not> (case map_of es j of Some e \<Rightarrow> e < now | None \<Rightarrow> False)"

lemma setIdempotent_cached:
  assumes small: "length (sv_idempotencyResult s) < idempotencyMaxEntries"
  shows "setIdempotent now k res s =
    (let es = AList.update k (now + idempotencyTTL) (sv_idempotencyExpiry s)
     in s\<lparr>sv_idempotencyResult := filter (\<lambda>(j, _). unexpired now es j) (AList.update k res (sv_idempotencyResult s)),
          sv_idempotencyExpiry := filter (\<lambda>(j, _). unexpired now es j) es\<rparr>)"
proof -
  let ?es = "AList.update k (now + idempotencyTTL) (sv_idempotencyExpiry s)"
  let ?rs = "AList.update k res (sv_idempotencyResult s)"
  have "length (filter (\<lambda>(j, _). unexpired now ?es j) ?rs) \<le> idempotencyMaxEntries"
    using length_filter_le [of "\<lambda>(j, _). unexpired now ?es j" ?rs]
      length_update_le [of k res "sv_idempotencyResult s"] small by linarith
  then show ?thesis
    by (simp add: setIdempotent_def pruneIdempotency_def evict_oldest_id unexpired_def [abs_def] Let_def)
qed

lemma setIdempotent_remembers:
  assumes room: "length (sv_idempotencyResult s) + Suc n \<le> idempotencyMaxEntries"
  shows "remembered k res (now + idempotencyTTL) n (setIdempotent now k res s)"
    and "remembered j res' E (Suc n) s \<Longrightarrow> now < E \<Longrightarrow> j \<noteq> k \<Longrightarrow> remembered j res' E n (setIdempotent now k res s)"
proof -
  let ?es = "AList.update k (now + idempotencyTTL) (sv_idempotencyExpiry s)"
  let ?rs = "AList.update k res (sv_idempotencyResult s)"
  have "length (sv_idempotencyResult s) < idempotencyMaxEntries" using room by simp
  note set = setIdempotent_cached [OF this, of now k res]
  have len: "length (filter (\<lambda>(j, _). unexpired now ?es j) ?rs) + n \<le> idempotencyMaxEntries"
    using length_filter_le [of "\<lambda>(j, _). unexpired now ?es j" ?rs]
      length_update_le [of k res "sv_idempotencyResult s"] room by linarith
  show "remembered k res (now + idempotencyTTL) n (setIdempotent now k res s)"
    using len by (simp add: set remembered_def map_of_filter_keys update_conv' unexpired_def idempotencyTTL_def Let_def)
  show "remembered j res' E (Suc n) s \<Longrightarrow> now < E \<Longrightarrow> j \<noteq> k \<Longrightarrow> remembered j res' E n (setIdempotent now k res s)"
    using len by (simp add: set remembered_def map_of_filter_keys update_conv' unexpired_def Let_def)
qed

lemma cached_result_hit:
  "remembered k res E n s \<Longrightarrow> now < E \<Longrightarrow> cached_result now k s = (Some res, s)"
  by (simp add: remembered_def cached_result_def)

lemma cached_result_keeps:
  "remembered j res E n s \<Longrightarrow> j \<noteq> k \<Longrightarrow> remembered j res E n (snd (cached_result now k s))"
  using length_delete_le [of k "sv_idempotencyResult s"]
  by (simp add: remembered_def cached_result_def delete_conv' split: option.split)

lemma pay_step_remembers:
  assumes mem: "remembered k res E (Suc n) s" and time: "now < E"
  shows "remembered k res E n (snd (InitiateTransaction env rnd now u ik req s))"
proof -
  obtain r s' where r: "InitiateTransaction env rnd now u ik req s = (r, s')" by fastforce
  have less: "remembered k res E n t" if "remembered k res E (Suc n) t" for t :: "'a Service"
    using that by (simp add: remembered_def)
  have miss: "cache_key u ik \<noteq> k" if "fst (cached_result now (cache_key u ik) s) = None"
    using that cached_result_hit [OF mem time] by auto
  from r have "remembered k res E n s'"
  proof (cases rule: InitiateTransaction_core)
    case (hit cached)
    then have "s' = s" by (auto simp: cached_result_def split: option.splits if_splits)
    with less [OF mem] show ?thesis by simp
  next
    case (error e)
    have rem: "remembered k res E (Suc n) (snd (cached_result now (cache_key u ik) s))"
      using mem cached_result_hit [OF mem time] cached_result_keeps [OF mem, of "cache_key u ik" now]
      by (cases "cache_key u ik = k") simp_all
    from error(2) show ?thesis
    proof
      assume "core s' = core s"
      from remembered_core [OF this] less [OF mem] show ?thesis by simp
    next
      assume "core s' = core (snd (cached_result now (cache_key u ik) s))"
      from remembered_core [OF this] less [OF rem] show ?thesis by simp
    qed
  next
    case (stored res' t)
    with miss have k: "k \<noteq> cache_key u ik" by auto
    have t: "remembered k res E (Suc n) t" using cached_result_keeps [OF mem k, of now] stored(1) by simp
    then have "length (sv_idempotencyResult t) + Suc n \<le> idempotencyMaxEntries" by (simp add: remembered_def)
    from setIdempotent_remembers(2) [OF this t time k] show ?thesis unfolding remembered_core [OF stored(3)] .
  qed
  with r show ?thesis by simp
qed

lemma pay_steps_remember:
  "remembered k res E (n + length calls) s \<Longrightarrow> \<forall>c \<in> set calls. call_time c < E \<Longrightarrow>
   remembered k res E n (foldl (pay_step env) s calls)"
proof (induction calls arbitrary: s)
  case (Cons c calls)
  obtain now rnd u ik req where c: "c = (now, rnd, u, ik, req)" by (cases c)
  have "remembered k res E (n + length calls) (pay_step env s c)"
    using pay_step_remembers [of k res E "n + length calls" s now] Cons.prems
    by (simp add: c pay_step_def call_time_def)
  then show ?case using Cons by simp
qed simp

section \<open>What a success takes\<close>

lemma initial_success:
  assumes "initial_status (auth_decision u req a s) = ''success''"
  shows "as_Score a < 70 \<and> as_Level a \<noteq> RiskHigh \<and>
    (clamp (rq_BehaviourDrift req) 0 1 > float_0_7 \<or>
     (as_Score a < 40 \<and> as_Level a = RiskLow \<and> clamp (rq_SessionTrustScore req) 0 1 \<ge> float_0_7 \<and>
      rq_FailedPINAttempts req \<le> 0))"
  using assms
  by (cases "as_Level a")
    (auto simp: initial_status_def auth_decision_def EvaluateAuthTier_def biometric_decision_def level_string_def
      not_less Let_def split: if_splits)

lemma submit_payment_result:
  assumes "submit_payment env rnd now k txn d s = (Inr res, s')"
  shows "res = transaction_result txn d"
  using assms
proof (cases rule: submit_payment_cases)
  case (settled t)
  then show ?thesis
  proof -
    have "res = transaction_result txn d" if "complete_payment env now k txn d v = (Inr res, s')" for v
      using complete_payment_result [of env now k txn d v] that by simp
    then show ?thesis using settled(1)
      by (auto simp: settle_payment_def split: if_splits prod.splits sum.splits)
  qed
qed simp

lemma InitiateTransaction_fresh:
  assumes "InitiateTransaction env rnd now u ik req s = (r, s')" and "cached_result now (cache_key u ik) s = (None, t)"
  obtains (invalid) e where "r = Inl e" "s' = s \<or> s' = t"
  | (frozen) "frozen u s" "refuse_frozen env now u (cache_key u ik) t = (r, s')"
  | (assessed) "\<not> frozen u s" "0 < rq_AmountPaise req" "TrimSpace (rq_Recipient req) \<noteq> []"
      "assess_payment env rnd now u ik (cache_key u ik) req t = (r, s')"
proof -
  have "frozen u t = frozen u s"
    using assms(2) by (auto simp: cached_result_def frozen_def split: option.splits if_splits)
  then show thesis
    using assms invalid frozen assessed
    by (simp add: InitiateTransaction_def Let_def frozen_def [of u t] split: if_splits) (metis prod.inject)+
qed

section \<open>How many accounts a payment leaves\<close>

definition account_count :: "'f Service \<Rightarrow> string \<Rightarrow> nat" where
  "account_count s u = length (get_list (sv_accounts s) u)"

lemma same_money_count: "same_money s t \<Longrightarrow> account_count s = account_count t"
  by (simp add: same_money_def account_count_def [abs_def])

lemma debit_count: "account_count (snd (applyDebitToFirstAccount u m s)) = account_count s"
proof -
  have "length (debit_loop accts k) = length accts" for accts k
    using arg_cong [OF debit_loop_frame, of length accts k] by simp
  then show ?thesis by (simp add: applyDebitToFirstAccount_def account_count_def fun_eq_iff)
qed

lemma settle_payment_count: "account_count (snd (settle_payment env rnd now k txn d s)) = account_count s"
proof -
  have complete: "account_count (snd (complete_payment env now k txn d t)) = account_count t" for t :: "'a Service"
    by (rule same_money_count [OF complete_payment_money])
  obtain e t where d: "applyDebitToFirstAccount (txn_UserID txn) (txn_AmountPaise txn) (post_payment rnd now txn s) = (e, t)"
    by fastforce
  moreover have "account_count (post_payment rnd now txn s) = account_count s"
    by (simp add: account_count_def fun_eq_iff post_payment_funds)
  ultimately have "account_count t = account_count s"
    using debit_count [of "txn_UserID txn" "txn_AmountPaise txn" "post_payment rnd now txn s"] by simp
  then show ?thesis using d complete by (simp add: settle_payment_def split: sum.split)
qed

lemma InitiateTransaction_count: "account_count (snd (InitiateTransaction env rnd now u ik req s)) = account_count s"
proof -
  have submit: "account_count t' = account_count t" if "submit_payment env rnd now k txn d t = (r, t')"
    for k txn d r and t t' :: "'a Service"
    using that
  proof (cases rule: submit_payment_cases)
    case (settled v)
    then show ?thesis using settle_payment_count [of env rnd now k txn d v] same_money_count [OF settled(2)] by simp
  next
    case (rejected e)
    then show ?thesis using same_money_count by blast
  qed
  have assess: "account_count t' = account_count t" if "assess_payment env rnd now u ik k req t = (r, t')"
    for k r and t t' :: "'a Service"
    using that
  proof (cases rule: assess_payment_cases)
    case panic
    then show ?thesis using same_money_count by blast
  next
    case (submitted txn d v)
    then show ?thesis using submit [OF submitted(1)] same_money_count [OF submitted(4)] by simp
  qed
  obtain r s' where r: "InitiateTransaction env rnd now u ik req s = (r, s')" by fastforce
  obtain c t where c: "cached_result now (cache_key u ik) s = (c, t)" by fastforce
  note t = same_money_count [OF cached_result_money [OF c]]
  show ?thesis
  proof (cases c)
    case (Some res)
    with r c t show ?thesis by (auto simp: InitiateTransaction_def Let_def split: if_splits)
  next
    case None
    from r c [unfolded None] have "account_count s' = account_count s"
    proof (cases rule: InitiateTransaction_fresh)
      case (invalid e)
      with t show ?thesis by auto
    next
      case frozen
      with refuse_frozen_money [of env now u "cache_key u ik" t] same_money_count [of s' t] t show ?thesis by simp
    next
      case assessed
      with assess t show ?thesis by metis
    qed
    with r show ?thesis by simp
  qed
qed

section \<open>Overrides\<close>

lemma VerifyOTPToken_transactions:
  "sv_transactions (snd (VerifyOTPToken env now u otp s)) = sv_transactions s"
  "sv_beneficiaries (snd (VerifyOTPToken env now u otp s)) = sv_beneficiaries s"
  by (cases rule: VerifyOTPToken_cases [of env now u otp s],
      simp_all add: count_failure_def Let_def reset_otp_counters_def set_profile_def frame_simps)+

lemma find_update_first:
  "find (\<lambda>t. txn_ID t = i) txs = Some tx \<Longrightarrow>
   find (\<lambda>t. txn_ID t = i) (update_first (\<lambda>t. txn_ID t = i) (txn_Status_update g) txs) = Some (txn_Status_update g tx)"
  by (induction txs) (auto split: if_splits)

lemma set_status_find:
  assumes "find (\<lambda>t. txn_ID t = txn_ID tx) (get_list (sv_transactions s) u) = Some tx"
  shows "find (\<lambda>t. txn_ID t = txn_ID tx) (get_list (sv_transactions (set_status u (txn_ID tx) st s)) u)
    = Some (tx\<lparr>txn_Status := st\<rparr>)"
  using find_update_first [OF assms, of "\<lambda>_. st"] by (simp add: set_status_def)

lemma record_override_frame:
  "same_money (record_override env now u tx m s) t = same_money s t"
  "sv_transactions (record_override env now u tx m s) = sv_transactions s"
  by (simp_all add: record_override_def Let_def frame_simps)

text \<open>The debit of an override, which does nothing on an amount that is not positive.\<close>

lemma override_pending_effect:
  assumes sol: "all_solvent s" and tx: "find (\<lambda>t. txn_ID t = txn_ID tx) (get_list (sv_transactions s) u) = Some tx"
    and ben: "sv_beneficiaries s u \<noteq> None"
  shows "case override_pending env now u tx s of
      (Inl _, s') \<Rightarrow> user_funds s' = user_funds s \<and> all_solvent s'
    | (Inr res, s') \<Rightarrow> txn_Status tx \<in> {''blocked'', ''warning_ack_required''} \<and>
        find (\<lambda>t. txn_ID t = txn_ID tx) (get_list (sv_transactions s') u) = Some (tx\<lparr>txn_Status := ''success''\<rparr>) \<and>
        user_funds s' = (user_funds s)(u := user_funds s u - max 0 (txn_AmountPaise tx)) \<and> all_solvent s'"
proof -
  let ?s = "set_status u (txn_ID tx) ''success'' s"
  have s: "user_funds ?s = user_funds s" "all_solvent ?s" using same_money_funds [of ?s s] sol by simp_all
  obtain b where b: "sv_beneficiaries s u = Some b" using ben by auto
  have recorded: "case (Inr (override_result tx' m), record_override env now u tx' m s3) of (_, s') \<Rightarrow>
      find (\<lambda>t. txn_ID t = txn_ID tx) (get_list (sv_transactions s') u) = Some (tx\<lparr>txn_Status := ''success''\<rparr>) \<and>
      user_funds s' = user_funds s2 \<and> all_solvent s' = all_solvent s2"
    if "add_beneficiary u r s2 = Some s3" "sv_transactions s2 = sv_transactions ?s" for tx' m r s2 and s3 :: "'a Service"
  proof -
    have "same_money (record_override env now u tx' m s3) s2" "sv_transactions s3 = sv_transactions s2"
      using that(1) add_beneficiary_money [OF that(1), of s2]
      by (auto simp: record_override_frame add_beneficiary_def split: option.splits)
    with that(2) set_status_find [OF tx, of "''success''"] same_money_funds [of "record_override env now u tx' m s3" s2]
    show ?thesis by (simp add: record_override_frame)
  qed
  show ?thesis
  proof (cases "txn_Status tx = ''blocked'' \<or> txn_Status tx = ''warning_ack_required''")
    case False
    with sol show ?thesis by (simp add: override_pending_def)
  next
    case True
    from s(2) show ?thesis
    proof (cases rule: applyDebit_cases [of ?s "txn_AmountPaise tx" u])
      case none
      obtain s3 where s3: "add_beneficiary u (txn_Recipient tx) ?s = Some s3"
        using b by (simp add: add_beneficiary_def set_status_def)
      from recorded [OF s3 refl] True none s s3 show ?thesis by (auto simp: override_pending_def Let_def fun_eq_iff)
    next
      case short
      with True s show ?thesis by (auto simp: override_pending_def Let_def)
    next
      case (paid s2)
      then obtain s3 where s3: "add_beneficiary u (txn_Recipient tx) s2 = Some s3"
        using b by (simp add: add_beneficiary_def set_status_def)
      have "sv_transactions s2 = sv_transactions ?s" using paid(4) by simp
      from recorded [OF s3 this] True paid(1, 2, 3, 5, 6) s s3 show ?thesis
        by (auto simp: override_pending_def Let_def fun_eq_iff)
    qed
  qed
qed

lemma InitiateTransaction_money:
  assumes "all_solvent s"
  shows "case InitiateTransaction env rnd now u ik req s of (r, s') \<Rightarrow>
    all_solvent s' \<and>
    (if fst (cached_result now (cache_key u ik) s) = None \<and> (\<exists>res. r = Inr res \<and> res_Status res = ''success'')
     then 0 < rq_AmountPaise req \<and> rq_AmountPaise req \<le> user_funds s u \<and>
       user_funds s' = (user_funds s)(u := user_funds s u - rq_AmountPaise req)
     else user_funds s' = user_funds s)"
proof -
  obtain r s' where r: "InitiateTransaction env rnd now u ik req s = (r, s')" by fastforce
  obtain c t where c: "cached_result now (cache_key u ik) s = (c, t)" by fastforce
  note t = same_money_funds [OF cached_result_money [OF c]]
  show ?thesis
  proof (cases c)
    case (Some res)
    then have "same_money s' s"
      using r c cached_result_money [OF c] by (auto simp: InitiateTransaction_def Let_def split: if_splits)
    from same_money_funds [OF this] assms Some c r show ?thesis by simp
  next
    case None
    from r c [unfolded None] show ?thesis
    proof (cases rule: InitiateTransaction_fresh)
      case (invalid e)
      with assms r t show ?thesis by auto
    next
      case frozen
      from refuse_frozen_money [of env now u "cache_key u ik" t] refuse_frozen_core [OF frozen(2)] frozen(2)
      show ?thesis using same_money_funds [of s' t] assms r t by auto
    next
      case assessed
      have "paid_or_unchanged u (rq_AmountPaise req) r t s'"
        using assms t assess_payment_money [OF _ assessed(2, 4)] by simp
      then show ?thesis using r c None assessed(2) t by (cases r) (auto simp: paid_or_unchanged_def)
    qed
  qed
qed

section \<open>Properties\<close>

text \<open>
  C15: A payment attempt moves money exactly when it is fresh (not answered from the idempotency
  cache) and answered with success: then the payer's funds, which held at least the amount, lose
  exactly it. Otherwise, and for every other user, the funds are unchanged; no account is ever
  overdrawn.
\<close>

theorem payment_moves_money:
  assumes "all_solvent s"
  shows "case InitiateTransaction env rnd now u ik req s of (r, s') \<Rightarrow>
    all_solvent s' \<and>
    (if fst (cached_result now (cache_key u ik) s) = None \<and> (\<exists>res. r = Inr res \<and> res_Status res = ''success'')
     then 0 < rq_AmountPaise req \<and> rq_AmountPaise req \<le> user_funds s u \<and>
       user_funds s' = (user_funds s)(u := user_funds s u - rq_AmountPaise req)
     else user_funds s' = user_funds s)"
  by (rule InitiateTransaction_money [OF assms])

text \<open>
  C16: What it takes for a fresh attempt to be paid at once: the user is not frozen, the amount is
  positive, the recipient is named, the assessed risk is below 70 and not high; and either the
  session drifts by more than 0.7 (the silent escalation, which asks only for a biometric) or the
  risk is low, the session trusted and no PIN attempt failed.
\<close>

theorem payment_is_gated:
  assumes "InitiateTransaction env rnd now u ik req s = (Inr res, s')"
    and "fst (cached_result now (cache_key u ik) s) = None" and "res_Status res = ''success''"
  shows "\<not> frozen u s \<and> 0 < rq_AmountPaise req \<and> TrimSpace (rq_Recipient req) \<noteq> [] \<and>
    res_RiskScore res < 70 \<and> res_RiskLevel res \<noteq> RiskHigh \<and>
    (clamp (rq_BehaviourDrift req) 0 1 > float_0_7 \<or>
     (res_RiskScore res < 40 \<and> res_RiskLevel res = RiskLow \<and>
      clamp (rq_SessionTrustScore req) 0 1 \<ge> float_0_7 \<and> rq_FailedPINAttempts req \<le> 0))"
proof -
  obtain t where "cached_result now (cache_key u ik) s = (None, t)" using assms(2) by (metis prod.collapse)
  from assms(1) this show ?thesis
  proof (cases rule: InitiateTransaction_fresh)
    case frozen
    with refuse_frozen_core [OF frozen(2)] assms(3) show ?thesis by simp
  next
    case assessed
    from assessed(4) show ?thesis
    proof (cases rule: assess_payment_cases)
      case (submitted txn d t')
      from submitted(6) obtain a where a: "d = auth_decision u req a t" "txn_Status txn = initial_status d"
          "txn_RiskScore txn = as_Score a" "txn_RiskLevel txn = as_Level a" by blast
      have "res = transaction_result txn d" using submit_payment_result [OF submitted(1)] .
      then have res: "res_Status res = txn_Status txn" "res_RiskScore res = as_Score a" "res_RiskLevel res = as_Level a"
        by (simp_all add: transaction_result_def a(3, 4))
      with a(1, 2) assms(3) have "initial_status (auth_decision u req a t) = ''success''" by simp
      from initial_success [OF this] res assessed(1, 2, 3) show ?thesis by simp
    qed simp
  qed simp
qed

text \<open>
  A frozen user pays nothing and records nothing: a fresh attempt leaves the accounts, the
  double-entry book, the transactions and the known recipients as they were, and is answered with
  an error or the blocked result.
\<close>

theorem freeze_stops_payments:
  assumes "frozen u s" and "fst (cached_result now (cache_key u ik) s) = None"
  shows "case InitiateTransaction env rnd now u ik req s of (r, s') \<Rightarrow>
    sv_accounts s' = sv_accounts s \<and> sv_accountingLedger s' = sv_accountingLedger s \<and>
    sv_transactions s' = sv_transactions s \<and> sv_beneficiaries s' = sv_beneficiaries s \<and>
    (case r of Inl _ \<Rightarrow> True | Inr res \<Rightarrow> \<exists>i. res = frozen_result i)"
proof -
  obtain t where t: "cached_result now (cache_key u ik) s = (None, t)" using assms(2) by (metis prod.collapse)
  then have keeps: "same_money t s" "sv_transactions t = sv_transactions s" "sv_beneficiaries t = sv_beneficiaries s"
    by (auto simp: cached_result_def split: option.splits if_splits)
  obtain r s' where r: "InitiateTransaction env rnd now u ik req s = (r, s')" by fastforce
  from r t show ?thesis
  proof (cases rule: InitiateTransaction_fresh)
    case (invalid e)
    with r keeps show ?thesis by (auto simp: same_money_def)
  next
    case frozen
    then have "sv_transactions s' = sv_transactions t" "sv_beneficiaries s' = sv_beneficiaries t"
        "\<exists>i. r = Inr (frozen_result i)"
      by (auto simp: refuse_frozen_def Let_def nextID_def frame_simps setIdempotent_def pruneIdempotency_def
        split: prod.splits)
    with r keeps refuse_frozen_money [of env now u "cache_key u ik" t] frozen(2) show ?thesis
      by (auto simp: same_money_def)
  qed (use assms in simp)
qed

text \<open>
  C17: Retrying is safe: once a fresh attempt has been answered, a retry with the same key within
  24 hours gets that very answer and changes nothing, whatever payment attempts (of any user)
  came in between, as long as the cache has room for them.
\<close>

theorem retry_answers_first_result:
  assumes first: "InitiateTransaction env rnd now u ik req s = (Inr res, s')"
    and fresh: "fst (cached_result now (cache_key u ik) s) = None"
    and between: "\<forall>c \<in> set calls. call_time c < now + idempotencyTTL"
    and room: "length (sv_idempotencyResult s) + length calls < idempotencyMaxEntries"
    and time: "now' < now + idempotencyTTL"
  shows "InitiateTransaction env' rnd' now' u ik req' (foldl (pay_step env) s' calls)
      = (Inr res, foldl (pay_step env) s' calls)"
proof -
  let ?k = "cache_key u ik" and ?E = "now + idempotencyTTL"
  have users: "sv_users (foldl (pay_step env) t calls) = sv_users t" for t
  proof (induction calls arbitrary: t)
    case (Cons c calls)
    have "sv_users (pay_step env t c) = sv_users t"
      by (simp add: pay_step_def InitiateTransaction_users split: prod.split)
    with Cons show ?case by simp
  qed simp
  from first have "remembered ?k res ?E (length calls) s' \<and> sv_users s u \<noteq> None \<and> ik \<noteq> []"
  proof (cases rule: InitiateTransaction_core)
    case (stored res' t)
    then have "length (sv_idempotencyResult t) \<le> length (sv_idempotencyResult s)"
      using cached_result_miss by blast
    with room have "length (sv_idempotencyResult t) + Suc (length calls) \<le> idempotencyMaxEntries" by simp
    from setIdempotent_remembers(1) [OF this, of ?k res now] stored show ?thesis
      using remembered_core [OF stored(3)] by simp
  qed (use fresh in simp_all)
  then have rem: "remembered ?k res ?E (length calls) s'" and u: "sv_users s u \<noteq> None" "ik \<noteq> []" by auto
  have "remembered ?k res ?E 0 (foldl (pay_step env) s' calls)"
    using pay_steps_remember [of ?k res ?E 0 calls s' env] rem between by simp
  from cached_result_hit [OF this time] u users [of s'] InitiateTransaction_users [of env rnd now u ik req s] first
  show ?thesis by (simp add: InitiateTransaction_def)
qed

text \<open>
  The idempotency cache never holds more than 10000 results and its two maps keep the same
  keys, none of them empty, through any payment attempt; eviction ends.
\<close>

theorem idempotency_cache_bounded:
  assumes "cache_ok (cache_of s)" and "length (sv_idempotencyResult s) \<le> idempotencyMaxEntries"
  shows "case InitiateTransaction env rnd now u ik req s of (_, s') \<Rightarrow>
    cache_ok (cache_of s') \<and> length (sv_idempotencyResult s') \<le> idempotencyMaxEntries"
proof -
  have cong: "cache_of a = cache_of b \<and> length (sv_idempotencyResult a) = length (sv_idempotencyResult b)"
    if "core a = core b" for a b :: "'a Service"
    using that by (simp add: core_def cache_of_def)
  obtain r s' where r: "InitiateTransaction env rnd now u ik req s = (r, s')" by fastforce
  obtain c t where c: "cached_result now (cache_key u ik) s = (c, t)" by fastforce
  have t: "cache_ok (cache_of t) \<and> length (sv_idempotencyResult t) \<le> idempotencyMaxEntries"
    using c cached_result_miss [of now "cache_key u ik" s t] assms
    by (cases c) (auto simp: cached_result_def split: option.splits if_splits)
  from r have "cache_ok (cache_of s') \<and> length (sv_idempotencyResult s') \<le> idempotencyMaxEntries"
  proof (cases rule: InitiateTransaction_core)
    case (hit cached)
    with c t show ?thesis by simp
  next
    case (error e)
    with c t assms cong [of s' s] cong [of s' t] show ?thesis by auto
  next
    case (stored res t')
    have "cache_key u ik \<noteq> []" by (simp add: cache_key_def)
    from setIdempotent_cache [OF _ this, of t' now res] stored c t cong [OF stored(3)] show ?thesis by auto
  qed
  with r show ?thesis by simp
qed

text \<open>
  Over a user with a recipient map, an override is answered with success only for a transaction of the caller that was held
  (blocked or waiting for acknowledgement), after a one-time code verified; the payer's funds then
  lose the transaction's amount and the transaction is marked successful. An error moves no money.
\<close>

theorem override_pays_held_transaction:
  assumes "all_solvent s" and ben: "sv_beneficiaries s u \<noteq> None"
  shows "case OverrideTransaction env now u req s of
      (Inl _, s') \<Rightarrow> user_funds s' = user_funds s \<and> all_solvent s'
    | (Inr res, s') \<Rightarrow> or_BiometricOK req \<and> fst (VerifyOTPToken env now u (or_OTP req) s) = Inr () \<and>
        (\<exists>tx. find (\<lambda>t. txn_ID t = or_TransactionID req) (get_list (sv_transactions s) u) = Some tx \<and>
          txn_Status tx \<in> {''blocked'', ''warning_ack_required''} \<and>
          find (\<lambda>t. txn_ID t = or_TransactionID req) (get_list (sv_transactions s') u)
            = Some (tx\<lparr>txn_Status := ''success''\<rparr>) \<and>
          user_funds s' = (user_funds s)(u := user_funds s u - max 0 (txn_AmountPaise tx))) \<and> all_solvent s'"
proof -
  obtain v t where v: "VerifyOTPToken env now u (or_OTP req) s = (v, t)" by fastforce
  have t: "same_money t s" "sv_transactions t = sv_transactions s" "sv_beneficiaries t = sv_beneficiaries s"
    using VerifyOTPToken_money [of env now u "or_OTP req" s] VerifyOTPToken_transactions [of env now u "or_OTP req" s] v
    by simp_all
  note t' = same_money_funds [OF t(1)]
  show ?thesis
  proof (cases "TrimSpace (or_TransactionID req) = [] \<or> \<not> or_BiometricOK req \<or> TrimSpace (or_OTP req) = []")
    case True
    then show ?thesis using assms by (auto simp: OverrideTransaction_def)
  next
    case False
    show ?thesis
    proof (cases "find (\<lambda>t. txn_ID t = or_TransactionID req) (get_list (sv_transactions s) u)")
      case None
      with False assms v t t' show ?thesis by (auto simp: OverrideTransaction_def split: sum.split)
    next
      case (Some tx)
      then have "txn_ID tx = or_TransactionID req" by (auto simp: find_Some_iff)
      with override_pending_effect [of t tx u env now] Some False assms v t t' show ?thesis
        by (auto simp: OverrideTransaction_def split: sum.split prod.splits)
    qed
  qed
qed

text \<open>
  An override whose debit fails still marks the held transaction successful: it is answered
  with insufficient funds and moves no money, but the stored status has already been changed.
\<close>

theorem failed_override_marks_success:
  assumes "all_solvent s" and "or_BiometricOK req" and "TrimSpace (or_TransactionID req) \<noteq> []"
    and "VerifyOTPToken env now u (or_OTP req) s = (Inr (), t)"
    and "find (\<lambda>t. txn_ID t = or_TransactionID req) (get_list (sv_transactions s) u) = Some tx"
    and "txn_Status tx \<in> {''blocked'', ''warning_ack_required''}" and "user_funds s u < txn_AmountPaise tx"
  shows "case OverrideTransaction env now u req s of (r, s') \<Rightarrow> r = Inl InsufficientFunds \<and>
    user_funds s' = user_funds s \<and>
    find (\<lambda>t. txn_ID t = or_TransactionID req) (get_list (sv_transactions s') u) = Some (tx\<lparr>txn_Status := ''success''\<rparr>)"
proof -
  have t: "same_money t s" "sv_transactions t = sv_transactions s"
    using VerifyOTPToken_money [of env now u "or_OTP req" s] VerifyOTPToken_transactions [of env now u "or_OTP req" s] assms(4)
    by simp_all
  have tx: "txn_ID tx = or_TransactionID req" using assms(5) by (auto simp: find_Some_iff)
  have otp: "TrimSpace (or_OTP req) \<noteq> []"
    using assms(4) by (auto simp: VerifyOTPToken_def split: option.splits)
  let ?t = "set_status u (txn_ID tx) ''success'' t"
  have "same_money ?t s" using t(1) by simp
  note f = same_money_funds [OF this]
  have "0 \<le> user_funds s u" by (rule wallet.purse_nonneg [OF assms(1)])
  then have "applyDebitToFirstAccount u (txn_AmountPaise tx) ?t = (Inl InsufficientFunds, ?t)"
    using applyDebit_cases [of ?t "txn_AmountPaise tx" u] f assms(1, 7) by force
  then show ?thesis
    using assms t tx otp f set_status_find [of tx t u "''success''"]
    by (simp add: OverrideTransaction_def override_pending_def Let_def)
qed

section \<open>Concrete runs\<close>

text \<open>A service whose trained model finds every payment harmless, and a payment of 100 rupees.\<close>

definition pay_env :: sv_env where
  "pay_env = \<lparr>env_H = (\<lambda>_. ''h''), env_json = (\<lambda>_. Some ''{}'')\<rparr>"

definition pay_service :: "unit Service" where
  "pay_service = demo_service\<lparr>sv_riskEngine := plain_engine\<lparr>re_onnx := Some (\<lambda>_. Some [1, 0])\<rparr>\<rparr>"

definition pay_request :: InitiateTransactionRequest where
  "pay_request = \<lparr>rq_AmountPaise = 10000, rq_Recipient = ''Ravi'', rq_Channel = ''upi'',
     rq_SessionTrustScore = 1, rq_BehaviourDrift = 0, rq_FailedPINAttempts = 0\<rparr>"

definition pay :: "string \<Rightarrow> string \<Rightarrow> unit Service \<Rightarrow> (unit, TransactionResult) svc" where
  "pay u ik s = InitiateTransaction pay_env (\<lambda>_. ''r'') (12 * hour) u ik pay_request s"

lemma demo_solvent: "all_solvent demo_service"
  by (simp add: all_solvent_def demo_service_def fresh_service_def get_list_def solvent_def demo_account_def)

lemma pay_service_solvent: "all_solvent pay_service"
  using demo_solvent by (simp add: pay_service_def all_solvent_def)

lemma fl_thresholds: "0 < fl (70 / 100)" "0 < fl (40 / 100)" "fl 0 = 0"
  by code_simp+

lemma pay_rating:
  "\<not> rs_IsColdStart sig \<Longrightarrow> as_Level (Evaluate (sv_riskEngine pay_service) sig) = RiskLow \<and>
    as_Score (Evaluate (sv_riskEngine pay_service) sig) = 0"
  using fl_thresholds
  by (simp add: pay_service_def plain_engine_def Evaluate_def Let_def normaliseSignal_def assessmentFromProbs_def
    minFloat_def not_le)

lemma pay_recorded:
  "snd (fst (WriteEventStrict (\<lambda>_. ''h'') (12 * hour) (\<lambda>_. 12 * hour) ''u1'' ''transaction_initiated'' ''transaction''
     (Some ''{}'') (NewLedger :: unit Ledger))) = None"
  by code_simp

lemma pay_accepted:
  assumes "sv_accounts s = sv_accounts demo_service" and "sv_ledger s = NewLedger"
    and "txn_Status txn = ''success''" and "txn_UserID txn = ''u1''" and "txn_AmountPaise txn = 10000"
  shows "\<exists>res. fst (submit_payment pay_env rnd (12 * hour) k txn d (s :: unit Service)) = Inr res \<and> res_Status res = ''success''"
proof -
  obtain ev l where w: "WriteEventStrict (\<lambda>_. ''h'') (12 * hour) (\<lambda>_. 12 * hour) ''u1'' ''transaction_initiated'' ''transaction''
     (Some ''{}'') (NewLedger :: unit Ledger) = ((ev, None), l)"
    using pay_recorded by (metis prod.collapse)
  have debit: "fst (applyDebitToFirstAccount ''u1'' 10000 t) = Inr ()"
    if "sv_accounts t = sv_accounts demo_service" for t :: "unit Service"
    using that by (simp add: applyDebitToFirstAccount_def totalBalanceLocked_def totalBalance_def demo_service_def
      fresh_service_def get_list_def demo_account_def i64_def)
  let ?t = "s\<lparr>sv_fraudGraph := AddTransaction (\<lambda>_. ''h'') (12 * hour) ''u1'' (txn_Recipient txn) 10000 (sv_fraudGraph s)\<rparr>
      \<lparr>sv_ledger := l\<rparr>"
  have "submit_payment pay_env rnd (12 * hour) k txn d s = settle_payment pay_env rnd (12 * hour) k txn d ?t"
    using w assms by (simp add: submit_payment_def pay_env_def Let_def)
  moreover have "fst (applyDebitToFirstAccount ''u1'' 10000 (post_payment rnd (12 * hour) txn ?t)) = Inr ()"
    by (rule debit) (simp add: post_payment_funds assms(1))
  then obtain v where "applyDebitToFirstAccount ''u1'' 10000 (post_payment rnd (12 * hour) txn ?t) = (Inr (), v)"
    by (metis prod.collapse)
  ultimately show ?thesis
    using assms(3, 4, 5) by (simp add: settle_payment_def complete_payment_result transaction_result_def)
qed

lemma pay_request_amount: "rq_AmountPaise pay_request = 10000"
  by (simp add: pay_request_def)

lemma pay_funds: "user_funds pay_service ''u1'' = 80000"
  by (simp add: user_funds_def pay_service_def demo_service_def fresh_service_def get_list_def demo_account_def)

lemma pay_miss: "cached_result (12 * hour) (cache_key ''u1'' ''k1'') pay_service = (None, pay_service)"
  by (simp add: cached_result_def pay_service_def demo_service_def fresh_service_def)

lemma pay_succeeds: "\<exists>res. fst (pay ''u1'' ''k1'' pay_service) = Inr res \<and> res_Status res = ''success''"
proof -
  obtain r s' where r: "pay ''u1'' ''k1'' pay_service = (r, s')" by fastforce
  have "assess_payment pay_env (\<lambda>_. ''r'') (12 * hour) ''u1'' ''k1'' (cache_key ''u1'' ''k1'') pay_request pay_service = (r, s')"
    using r pay_miss
    by (simp add: pay_def InitiateTransaction_def pay_request_def)
      (simp add: pay_service_def demo_service_def fresh_service_def TrimSpace_def is_space_def)
  then show ?thesis
  proof (cases rule: assess_payment_cases)
    case panic
    then show ?thesis by (simp add: pay_service_def demo_service_def)
  next
    case (submitted txn d t)
    from submitted(6) obtain gnn a where a: "a = Evaluate (sv_riskEngine pay_service) (risk_signal (12 * hour) ''u1'' pay_request gnn pay_service)"
      "d = auth_decision ''u1'' pay_request a pay_service" "txn_Status txn = initial_status d" by blast
    have "as_Level a = RiskLow" "as_Score a = 0"
      using pay_rating [of "risk_signal (12 * hour) ''u1'' pay_request gnn pay_service"] a(1)
      by (simp_all add: risk_signal_def Let_def)
    then have "txn_Status txn = ''success''"
      by (simp add: a(2, 3) initial_status_def auth_decision_def EvaluateAuthTier_def biometric_decision_def
        level_string_def pay_request_def clamp_def float_0_7_def)
    moreover have "sv_accounts t = sv_accounts demo_service" "sv_ledger t = NewLedger"
      using submitted(4, 7) by (simp_all add: same_money_def pay_service_def demo_service_def fresh_service_def)
    ultimately show ?thesis
      using pay_accepted [of t txn "\<lambda>_. ''r''"] submitted(1, 2, 3) r by (metis fst_conv pay_request_amount)
  qed
qed

lemma payment_moves_money_witness:
  "all_solvent (snd (pay ''u1'' ''k1'' pay_service)) \<and> user_funds (snd (pay ''u1'' ''k1'' pay_service)) ''u1'' = 70000"
  using payment_moves_money [OF pay_service_solvent, where env = pay_env and rnd = "\<lambda>_. ''r''" and now = "12 * hour"
      and u = "''u1''" and ik = "''k1''" and req = pay_request]
    pay_succeeds pay_miss pay_funds
  by (auto simp: pay_def pay_request_amount split: prod.splits)

lemma payment_is_gated_witness: "\<not> frozen ''u1'' pay_service"
proof -
  obtain res s' where "InitiateTransaction pay_env (\<lambda>_. ''r'') (12 * hour) ''u1'' ''k1'' pay_request pay_service = (Inr res, s')"
    "res_Status res = ''success''"
    using pay_succeeds unfolding pay_def by (metis prod.collapse)
  from payment_is_gated [OF this(1) _ this(2)] pay_miss show ?thesis by simp
qed

lemma freeze_stops_payments_witness:
  "sv_accounts (snd (pay ''u1'' ''k1'' (set_freeze ''u1'' True pay_service))) = sv_accounts (set_freeze ''u1'' True pay_service)"
proof -
  have "frozen ''u1'' (set_freeze ''u1'' True pay_service)" by (simp add: frozen_def set_freeze_def)
  moreover have "fst (cached_result (12 * hour) (cache_key ''u1'' ''k1'') (set_freeze ''u1'' True pay_service)) = None"
    by (simp add: cached_result_def set_freeze_def pay_service_def demo_service_def fresh_service_def)
  ultimately show ?thesis
    using freeze_stops_payments [of "''u1''" "set_freeze ''u1'' True pay_service" "12 * hour" "''k1''" pay_env "\<lambda>_. ''r''" pay_request]
    by (simp add: pay_def split: prod.splits)
qed

lemma retry_answers_first_result_witness:
  "snd (pay ''u1'' ''k1'' (snd (pay ''u1'' ''k2'' (snd (pay ''u1'' ''k1'' pay_service)))))
     = snd (pay ''u1'' ''k2'' (snd (pay ''u1'' ''k1'' pay_service)))"
proof -
  obtain res s' where "InitiateTransaction pay_env (\<lambda>_. ''r'') (12 * hour) ''u1'' ''k1'' pay_request pay_service = (Inr res, s')"
    using pay_succeeds unfolding pay_def by (metis prod.collapse)
  from retry_answers_first_result [OF this, of "[(12 * hour, \<lambda>_. ''r'', ''u1'', ''k2'', pay_request)]" "12 * hour" pay_env "\<lambda>_. ''r''"]
    this pay_miss
  show ?thesis
    by (simp add: pay_def pay_step_def call_time_def idempotencyTTL_def idempotencyMaxEntries_def pay_service_def
      demo_service_def fresh_service_def)
qed

lemma idempotency_cache_bounded_witness:
  "length (sv_idempotencyResult (snd (pay ''u1'' ''k1'' pay_service))) \<le> 10000"
  using idempotency_cache_bounded [of pay_service pay_env "\<lambda>_. ''r''" "12 * hour" "''u1''" "''k1''" pay_request]
  by (simp add: cache_ok_def cache_of_def pay_def pay_service_def demo_service_def fresh_service_def
    idempotencyMaxEntries_def split: prod.splits)

text \<open>A held payment of 1000 rupees, more than the user has, and one of 100 rupees.\<close>

definition held :: "string \<Rightarrow> int \<Rightarrow> Transaction" where
  "held i m = \<lparr>txn_ID = i, txn_UserID = ''u1'', txn_AmountPaise = m, txn_Currency = ''INR'',
     txn_DebitCredit = ''debit'', txn_Recipient = ''Ravi'', txn_MerchantName = ''Ravi'', txn_Channel = ''upi'',
     txn_Description = [], txn_Status = ''blocked'', txn_RiskLevel = RiskHigh, txn_RiskScore = 80,
     txn_XAIReason = XText [], txn_DilithiumSignature = None, txn_CreatedAt = 0, txn_IdempotencyKey = ''k'',
     txn_CoolingOffUntil = None\<rparr>"

definition held_service :: "unit Service" where
  "held_service = demo_service\<lparr>sv_transactions := [''u1'' \<mapsto> [held ''t1'' 100000, held ''t2'' 10000]],
     sv_authProfiles := [''u1'' \<mapsto> blank_profile\<lparr>ap_InternalUserID := ''u1'', ap_OTPCode := ''123456'',
        ap_OTPExpiryTime := Some (10 * minute), ap_Role := ''user''\<rparr>]\<rparr>"

definition override :: "string \<Rightarrow> OverrideRequest" where
  "override i = \<lparr>or_TransactionID = i, or_BiometricOK = True, or_OTP = ''123456''\<rparr>"

lemma held_solvent: "all_solvent held_service"
  using demo_solvent by (simp add: held_service_def all_solvent_def)

lemma held_code: "fst (VerifyOTPToken demo_env 0 ''u1'' ''123456'' held_service) = Inr ()"
  by code_simp

lemma held_lists:
  "find (\<lambda>t. txn_ID t = ''t2'') (get_list (sv_transactions held_service) ''u1'') = Some (held ''t2'' 10000)"
  "user_funds held_service ''u1'' = 80000" "txn_AmountPaise (held i m) = m"
  by (simp_all add: held_service_def held_def user_funds_def demo_service_def fresh_service_def get_list_def
    demo_account_def)

lemma override_succeeds: "\<exists>res. fst (OverrideTransaction demo_env 0 ''u1'' (override ''t2'') held_service) = Inr res"
proof -
  have "case fst (OverrideTransaction demo_env 0 ''u1'' (override ''t2'') held_service) of Inr _ \<Rightarrow> True | Inl _ \<Rightarrow> False"
    by code_simp
  then show ?thesis by (auto split: sum.splits)
qed

lemma override_pays_held_transaction_witness:
  "user_funds (snd (OverrideTransaction demo_env 0 ''u1'' (override ''t2'') held_service)) ''u1'' = 70000"
proof -
  have "sv_beneficiaries held_service ''u1'' \<noteq> None" by (simp add: held_service_def demo_service_def)
  from override_pays_held_transaction [OF held_solvent this, where env = demo_env and now = 0 and req = "override ''t2''"] override_succeeds held_lists
  show ?thesis by (auto simp: override_def split: prod.splits)
qed

lemma failed_override_marks_success_witness:
  "fst (OverrideTransaction demo_env 0 ''u1'' (override ''t1'') held_service) = Inl InsufficientFunds"
proof -
  obtain t where "VerifyOTPToken demo_env 0 ''u1'' (or_OTP (override ''t1'')) held_service = (Inr (), t)"
    using held_code by (metis override_def OverrideRequest.select_convs(3) prod.collapse)
  from failed_override_marks_success [OF held_solvent _ _ this, where tx = "held ''t1'' 100000"] show ?thesis
    by (simp add: override_def held_service_def held_def demo_service_def fresh_service_def user_funds_def
      demo_account_def TrimSpace_def is_space_def split: prod.splits)
qed

end
