(* ===== verification/PlatformGoals.thy ===== *)
theory PlatformGoals
  imports PaymentGuarantees
begin

text \<open>
  Savings goals (\<open>CreateGoal\<close>, \<open>Goals\<close>, \<open>GoalByID\<close>, \<open>ContributeGoal\<close>, \<open>CloseGoal\<close>,
  \<open>DissolveGoal\<close>, \<open>PauseGoal\<close>, \<open>ResumeGoal\<close>, \<open>GoalNudge\<close> of \<open>domain/platform/service.go\<close>). A
  contribution is debited from the accounts, a dissolved goal is credited to the first one. The
  lemmas give the effect of each operation on the funds and on the savings.
\<close>

section \<open>Operations\<close>

record GoalCreateRequest =
  gq_Name :: string
  gq_Description :: string
  gq_TargetAmountPaise :: int
  gq_Currency :: string
  gq_MonthlyContributionPaise :: int
  gq_Frequency :: string
  gq_Priority :: string
  gq_StartDate :: time
  gq_TargetDate :: time
  gq_LinkedAccount :: string

record GoalContributionRequest =
  gc_AmountPaise :: int
  gc_IdempotencyKey :: string

definition computeGoalProgress :: "Goal \<Rightarrow> Goal" where
  "computeGoalProgress g =
     (let g1 = (if gl_TargetAmountPaise g > 0 then
                  g\<lparr>gl_ProgressPercent := clamp (fl (fl (fl (of_int (gl_SavedAmountPaise g))
                      / fl (of_int (gl_TargetAmountPaise g))) * 100)) 0 100\<rparr>
                else g);
          shortfall = i64 (gl_TargetAmountPaise g1 - gl_SavedAmountPaise g1)
      in g1\<lparr>gl_ShortfallEstimatePaise := (if shortfall < 0 then 0 else shortfall)\<rparr>)"

definition set_goals :: "string \<Rightarrow> Goal list \<Rightarrow> 'f Service \<Rightarrow> 'f Service" where
  "set_goals userID gs s = s\<lparr>sv_goals := (sv_goals s)(userID \<mapsto> gs)\<rparr>"

definition CreateGoal :: "sv_env \<Rightarrow> time \<Rightarrow> string \<Rightarrow> GoalCreateRequest \<Rightarrow> 'f Service \<Rightarrow> ('f, Goal) svc" where
  "CreateGoal env now userID req s =
     (if gq_TargetAmountPaise req \<le> 0 then (Inl TargetMustBePositive, s)
      else if TrimSpace (gq_Name req) = [] then (Inl GoalNameRequired, s)
      else if gq_TargetDate req < now then (Inl TargetDateInPast, s)
      else
        let startDate = (if gq_StartDate req = 0 then now else gq_StartDate req)
        in case nextID ''goal'' s of (i, s1) \<Rightarrow>
          let goal = computeGoalProgress
                \<lparr>gl_ID = i, gl_Name = gq_Name req, gl_Description = gq_Description req,
                 gl_TargetAmountPaise = gq_TargetAmountPaise req,
                 gl_Currency = firstNonEmpty (gq_Currency req) ''INR'', gl_SavedAmountPaise = 0,
                 gl_MonthlyContributionPaise = gq_MonthlyContributionPaise req,
                 gl_Frequency = firstNonEmpty (gq_Frequency req) ''monthly'',
                 gl_Priority = firstNonEmpty (gq_Priority req) ''medium'', gl_StartDate = startDate,
                 gl_TargetDate = gq_TargetDate req, gl_Status = ''active'',
                 gl_LinkedAccount = gq_LinkedAccount req, gl_ProgressPercent = 0,
                 gl_ShortfallEstimatePaise = 0, gl_CreatedAt = now\<rparr>;
              s2 = set_goals userID (get_list (sv_goals s1) userID @ [goal]) s1;
              s3 = appendAudit env now userID ''goal_created'' ''goal'' ''success''
                     ''Financial goal created'' ''User'' s2
          in (Inr goal, ledger_write env now userID ''goal_created'' ''goal'' (PGoal goal) s3))"

definition Goals :: "string \<Rightarrow> 'f Service \<Rightarrow> Goal list" where
  "Goals userID s = map computeGoalProgress (get_list (sv_goals s) userID)"

definition find_goal :: "string \<Rightarrow> string \<Rightarrow> 'f Service \<Rightarrow> Goal option" where
  "find_goal userID goalID s = find (\<lambda>g. gl_ID g = goalID) (get_list (sv_goals s) userID)"

definition change_goal :: "string \<Rightarrow> string \<Rightarrow> (Goal \<Rightarrow> Goal) \<Rightarrow> 'f Service \<Rightarrow> 'f Service" where
  "change_goal userID goalID f s =
     set_goals userID (update_first (\<lambda>g. gl_ID g = goalID) f (get_list (sv_goals s) userID)) s"

definition GoalByID :: "string \<Rightarrow> string \<Rightarrow> 'f Service \<Rightarrow> svc_error + Goal" where
  "GoalByID userID goalID s =
     (case find_goal userID goalID s of None \<Rightarrow> Inl GoalNotFound | Some g \<Rightarrow> Inr (computeGoalProgress g))"

definition maxContributionPaise :: int where "maxContributionPaise = 100000000"

definition goal_key :: "string \<Rightarrow> string \<Rightarrow> string \<Rightarrow> string" where
  "goal_key userID goalID key =
     (if TrimSpace key \<noteq> [] then userID @ '':'' @ goalID @ '':'' @ TrimSpace key else [])"

text \<open>A contribution to a goal that was found.\<close>

definition add_saving :: "int \<Rightarrow> Goal \<Rightarrow> Goal" where
  "add_saving amount g =
     (let g1 = g\<lparr>gl_SavedAmountPaise := i64 (gl_SavedAmountPaise g + amount)\<rparr>
      in if gl_SavedAmountPaise g1 \<ge> gl_TargetAmountPaise g1 then g1\<lparr>gl_Status := ''completed''\<rparr> else g1)"

definition contribute ::
  "sv_env \<Rightarrow> time \<Rightarrow> string \<Rightarrow> string \<Rightarrow> string \<Rightarrow> int \<Rightarrow> Goal \<Rightarrow> 'f Service \<Rightarrow> ('f, Goal) svc" where
  "contribute env now userID goalID idemKey amount g s =
     (if gl_Status g \<noteq> ''active'' then (Inl GoalNotActive, s)
      else if gl_SavedAmountPaise g > 2 ^ 63 - 1 - amount then (Inl ContributionOverflow, s)
      else case applyDebitToFirstAccount userID amount s of
          (Inl e, s1) \<Rightarrow> (Inl e, s1)
        | (Inr _, s1) \<Rightarrow>
            let s2 = change_goal userID goalID (add_saving amount) s1;
                goal = computeGoalProgress (add_saving amount g);
                s3 = (if idemKey \<noteq> [] then s2\<lparr>sv_goalIdempotency := (sv_goalIdempotency s2)(idemKey \<mapsto> goal)\<rparr> else s2);
                s4 = appendAudit env now userID ''goal_contribution'' ''goal'' ''success''
                       ''Goal contribution recorded'' ''User'' s3
            in (Inr goal, ledger_write env now userID ''goal_contribution'' ''goal'' (PGoal goal) s4))"

definition ContributeGoal ::
  "sv_env \<Rightarrow> time \<Rightarrow> string \<Rightarrow> string \<Rightarrow> GoalContributionRequest \<Rightarrow> 'f Service \<Rightarrow> ('f, Goal) svc" where
  "ContributeGoal env now userID goalID req s =
     (let idemKey = goal_key userID goalID (gc_IdempotencyKey req);
          cached = (if idemKey \<noteq> [] then sv_goalIdempotency s idemKey else None)
      in case cached of
           Some g \<Rightarrow> (Inr g, s)
         | None \<Rightarrow>
             if gc_AmountPaise req \<le> 0 then (Inl ContributionMustBePositive, s)
             else if gc_AmountPaise req > maxContributionPaise then (Inl ContributionTooLarge, s)
             else (case find_goal userID goalID s of
                 None \<Rightarrow> (Inl GoalNotFound, s)
               | Some g \<Rightarrow> contribute env now userID goalID idemKey (gc_AmountPaise req) g s))"

definition CloseGoal :: "sv_env \<Rightarrow> time \<Rightarrow> string \<Rightarrow> string \<Rightarrow> 'f Service \<Rightarrow> ('f, Goal) svc" where
  "CloseGoal env now userID goalID s =
     (case find_goal userID goalID s of
        None \<Rightarrow> (Inl GoalNotFound, s)
      | Some g \<Rightarrow>
          let s1 = change_goal userID goalID (\<lambda>g. g\<lparr>gl_Status := ''closed''\<rparr>) s;
              goal = g\<lparr>gl_Status := ''closed''\<rparr>;
              s2 = appendAudit env now userID ''goal_closed'' ''goal'' ''success''
                     ''Goal closed and funds unlocked'' ''User'' s1
          in (Inr goal, ledger_write env now userID ''goal_closed'' ''goal'' (PGoal goal) s2))"

text \<open>The savings go to the first account; without an account they are only set to zero.\<close>

definition credit_first :: "string \<Rightarrow> int \<Rightarrow> 'f Service \<Rightarrow> 'f Service" where
  "credit_first userID amount s =
     (case get_list (sv_accounts s) userID of
        [] \<Rightarrow> s
      | a # rest \<Rightarrow> s\<lparr>sv_accounts := (sv_accounts s)
            (userID \<mapsto> a\<lparr>ac_BalancePaise := i64 (ac_BalancePaise a + amount)\<rparr> # rest)\<rparr>)"

definition dissolved :: "Goal \<Rightarrow> Goal" where
  "dissolved g = computeGoalProgress (g\<lparr>gl_Status := ''dissolved'',
     gl_SavedAmountPaise := (if gl_SavedAmountPaise g > 0 then 0 else gl_SavedAmountPaise g)\<rparr>)"

definition DissolveGoal :: "sv_env \<Rightarrow> time \<Rightarrow> string \<Rightarrow> string \<Rightarrow> 'f Service \<Rightarrow> ('f, Goal) svc" where
  "DissolveGoal env now userID goalID s =
     (if sv_users s userID = None then (Inl UserNotFound, s)
      else case find_goal userID goalID s of
          None \<Rightarrow> (Inl GoalNotFound, s)
        | Some g \<Rightarrow>
            if gl_Status g = ''dissolved'' then (Inl GoalAlreadyDissolved, s)
            else
              let s1 = (if gl_SavedAmountPaise g > 0 then credit_first userID (gl_SavedAmountPaise g) s else s)
              in (Inr (dissolved g),
                  appendAudit env now userID ''goal_dissolved'' ''goal'' ''success'' ''Goal dissolved'' ''User''
                    (change_goal userID goalID dissolved s1)))"

definition switch_goal ::
  "string \<Rightarrow> string \<Rightarrow> svc_error \<Rightarrow> string \<Rightarrow> string \<Rightarrow> 'f Service \<Rightarrow> ('f, Goal) svc" where
  "switch_goal old new e userID goalID s =
     (case find_goal userID goalID s of
        None \<Rightarrow> (Inl GoalNotFound, s)
      | Some g \<Rightarrow>
          if gl_Status g \<noteq> old then (Inl e, s)
          else (Inr (g\<lparr>gl_Status := new\<rparr>), change_goal userID goalID (\<lambda>g. g\<lparr>gl_Status := new\<rparr>) s))"

definition PauseGoal :: "string \<Rightarrow> string \<Rightarrow> 'f Service \<Rightarrow> ('f, Goal) svc" where
  "PauseGoal = switch_goal ''active'' ''paused'' OnlyActiveCanPause"

definition ResumeGoal :: "string \<Rightarrow> string \<Rightarrow> 'f Service \<Rightarrow> ('f, Goal) svc" where
  "ResumeGoal = switch_goal ''paused'' ''active'' OnlyPausedCanResume"

text \<open>\<open>%.0f\<close>: the nearest integer, ties to the even one.\<close>

definition whole :: "rat \<Rightarrow> string" where
  "whole x = (let n = \<lfloor>x\<rfloor>; d = x - of_int n
     in dec (if d < 1 / 2 \<or> (d = 1 / 2 \<and> even n) then n else n + 1))"

definition GoalNudge :: "string \<Rightarrow> string \<Rightarrow> string \<Rightarrow> 'f Service \<Rightarrow> svc_error + string \<times> string" where
  "GoalNudge userID goalID nudgeType s =
     (case find_goal userID goalID s of
        None \<Rightarrow> Inl GoalNotFound
      | Some g \<Rightarrow> Inr
         (if nudgeType = ''contribution_reminder'' then
            (''You'' @ [CHR 0x27] @ ''re '' @ whole (gl_ProgressPercent g) @ ''% toward '' @ gl_Name g @
             ''. A small top-up now keeps you on track.'', ''contribute'')
          else if nudgeType = ''deadline_warning'' then
            (gl_Name g @ '' target date is approaching. Current shortfall: '' @
             FormatMoney (gl_ShortfallEstimatePaise g) @ ''.'', ''simulate'')
          else if nudgeType = ''milestone_celebration'' then
            (''Congratulations! '' @ gl_Name g @ '' has passed '' @ whole (gl_ProgressPercent g) @
             ''% completion.'', ''view'')
          else (''Stay consistent with contributions to reach your goal on time.'', ''contribute'')))"

section \<open>What the operations do to the savings\<close>

definition savings :: "Goal list \<Rightarrow> int" where
  "savings gs = (\<Sum>g\<leftarrow>gs. gl_SavedAmountPaise g)"

definition user_savings :: "'f Service \<Rightarrow> string \<Rightarrow> int" where
  "user_savings s u = savings (get_list (sv_goals s) u)"

lemma savings_simps [simp]: "savings [] = 0" "savings (g # gs) = gl_SavedAmountPaise g + savings gs"
  "savings (gs @ hs) = savings gs + savings hs"
  by (simp_all add: savings_def)

lemma savings_nonneg: "\<forall>g \<in> set gs. 0 \<le> gl_SavedAmountPaise g \<Longrightarrow> 0 \<le> savings gs"
  by (induction gs) auto

lemma savings_member: "\<forall>g \<in> set gs. 0 \<le> gl_SavedAmountPaise g \<Longrightarrow> g \<in> set gs \<Longrightarrow> gl_SavedAmountPaise g \<le> savings gs"
  by (induction gs) (fastforce dest: savings_nonneg)+

lemma savings_update:
  "find P gs = Some g \<Longrightarrow>
   savings (update_first P f gs) = savings gs - gl_SavedAmountPaise g + gl_SavedAmountPaise (f g)"
  by (induction gs) (auto split: if_splits)

lemma progress_saved [simp]:
  "gl_SavedAmountPaise (computeGoalProgress g) = gl_SavedAmountPaise g"
  "gl_Status (computeGoalProgress g) = gl_Status g" "gl_ID (computeGoalProgress g) = gl_ID g"
  by (simp_all add: computeGoalProgress_def Let_def)

lemma add_saving_saved [simp]:
  "gl_SavedAmountPaise (add_saving m g) = i64 (gl_SavedAmountPaise g + m)" "gl_ID (add_saving m g) = gl_ID g"
  by (simp_all add: add_saving_def Let_def)

lemma dissolved_saved [simp]:
  "gl_SavedAmountPaise (dissolved g) = (if gl_SavedAmountPaise g > 0 then 0 else gl_SavedAmountPaise g)"
  "gl_Status (dissolved g) = ''dissolved''"
  by (simp_all add: dissolved_def)

text \<open>Goals and money: what the other fields do not touch.\<close>

definition same_savings :: "'f Service \<Rightarrow> 'f Service \<Rightarrow> bool" where
  "same_savings s t \<longleftrightarrow> sv_goals s = sv_goals t"

lemma same_savings_frame [simp]:
  "same_savings (appendAudit env now u a r oc d tr s) t = same_savings s t"
  "same_savings (ledger_write env now u a r p s) t = same_savings s t"
  "same_savings (s\<lparr>sv_goalIdempotency := gi\<rparr>) t = same_savings s t"
  "same_savings (s\<lparr>sv_counter := c\<rparr>) t = same_savings s t"
  "same_savings (s\<lparr>sv_accounts := ac\<rparr>) t = same_savings s t"
  "same_savings s s"
  by (simp_all add: same_savings_def frame_simps)

lemma user_savings_same: "same_savings s t \<Longrightarrow> user_savings s = user_savings t"
  by (simp add: same_savings_def user_savings_def [abs_def])

lemma set_goals_views [simp]:
  "user_savings (set_goals u gs s) = (user_savings s)(u := savings gs)"
  "user_funds (set_goals u gs s) = user_funds s" "all_solvent (set_goals u gs s) = all_solvent s"
  "sv_accounts (set_goals u gs s) = sv_accounts s" "sv_users (set_goals u gs s) = sv_users s"
  "sv_goals (set_goals u gs s) = (sv_goals s)(u \<mapsto> gs)"
  by (simp_all add: set_goals_def user_savings_def user_funds_def all_solvent_def fun_eq_iff)

lemma change_goal_savings:
  "find_goal u i s = Some g \<Longrightarrow> user_savings (change_goal u i f s)
     = (user_savings s)(u := user_savings s u - gl_SavedAmountPaise g + gl_SavedAmountPaise (f g))"
  by (simp add: change_goal_def find_goal_def savings_update user_savings_def fun_eq_iff)

lemma user_funds_frame [simp]:
  "user_funds (appendAudit env now u a r oc d tr s) = user_funds s"
  "user_funds (ledger_write env now u a r p s) = user_funds s"
  "user_funds (s\<lparr>sv_goalIdempotency := gi\<rparr>) = user_funds s" "user_funds (s\<lparr>sv_counter := c\<rparr>) = user_funds s"
  "user_savings (appendAudit env now u a r oc d tr s) = user_savings s"
  "user_savings (ledger_write env now u a r p s) = user_savings s"
  "user_savings (s\<lparr>sv_goalIdempotency := gi\<rparr>) = user_savings s" "user_savings (s\<lparr>sv_counter := c\<rparr>) = user_savings s"
  "user_savings (s\<lparr>sv_accounts := ac\<rparr>) = user_savings s"
  by (simp_all add: user_funds_def user_savings_def fun_eq_iff frame_simps)

text \<open>
  The goals of a user are well-formed: nothing saved is negative, savings exist only where there
  is an account, and everything a user owns fits an \<open>int64\<close>.
\<close>

definition goals_ok :: "'f Service \<Rightarrow> bool" where
  "goals_ok s \<longleftrightarrow> (\<forall>u. (\<forall>g \<in> set (get_list (sv_goals s) u). 0 \<le> gl_SavedAmountPaise g) \<and>
     (0 < user_savings s u \<longrightarrow> get_list (sv_accounts s) u \<noteq> []) \<and>
     user_funds s u + user_savings s u < 2 ^ 63)"

definition money_ok :: "'f Service \<Rightarrow> bool" where
  "money_ok s \<longleftrightarrow> all_solvent s \<and> goals_ok s"

section \<open>Properties\<close>

text \<open>
  A fresh contribution of an allowed amount to a goal is accepted exactly when the goal is
  active, the sum fits an \<open>int64\<close> and the accounts hold the amount. Then the funds lose it, the
  goal gains it and is completed exactly when it reaches its target; otherwise nothing changes.
\<close>

theorem contribution_effect:
  assumes "all_solvent s" and "0 < m" and "m \<le> maxContributionPaise" and "find_goal u i s = Some g"
    and "0 \<le> gl_SavedAmountPaise g" and "gl_SavedAmountPaise g < 2 ^ 63"
  shows "case ContributeGoal env now u i \<lparr>gc_AmountPaise = m, gc_IdempotencyKey = []\<rparr> s of
      (Inr g', s') \<Rightarrow> gl_Status g = ''active'' \<and> gl_SavedAmountPaise g + m < 2 ^ 63 \<and> m \<le> user_funds s u \<and>
        gl_SavedAmountPaise g' = gl_SavedAmountPaise g + m \<and>
        gl_Status g' = (if gl_SavedAmountPaise g + m \<ge> gl_TargetAmountPaise g then ''completed'' else ''active'') \<and>
        user_funds s' = (user_funds s)(u := user_funds s u - m) \<and>
        user_savings s' = (user_savings s)(u := user_savings s u + m)
    | (Inl _, s') \<Rightarrow> s' = s \<and>
        (gl_Status g \<noteq> ''active'' \<or> gl_SavedAmountPaise g + m \<ge> 2 ^ 63 \<or> user_funds s u < m)"
proof -
  have c: "ContributeGoal env now u i \<lparr>gc_AmountPaise = m, gc_IdempotencyKey = []\<rparr> s = contribute env now u i [] m g s"
    using assms(2, 3, 4) by (simp add: ContributeGoal_def goal_key_def Let_def)
  show ?thesis
  proof (cases "gl_Status g = ''active'' \<and> gl_SavedAmountPaise g \<le> 2 ^ 63 - 1 - m")
    case False
    then show ?thesis unfolding c by (auto simp: contribute_def)
  next
    case True
    then have fit: "i64 (gl_SavedAmountPaise g + m) = gl_SavedAmountPaise g + m"
      using assms(2, 5) by (intro i64_id) (simp add: is_i64_def)
    from assms(1) show ?thesis
    proof (cases rule: applyDebit_cases [of s m u])
      case (paid v)
      have v: "find_goal u i v = Some g" "user_savings v = user_savings s"
        using paid(4) assms(4) by (simp_all add: find_goal_def)
      have "user_funds (change_goal u i (add_saving m) v) = user_funds v" by (simp add: change_goal_def)
      then show ?thesis
        using True paid(1, 2, 3, 5) change_goal_savings [OF v(1), of "add_saving m"] v(2) fit
        unfolding c by (auto simp: contribute_def Let_def add_saving_def)
    qed (use True assms(2) in \<open>auto simp: c contribute_def\<close>)
  qed
qed

definition demo_goal :: Goal where
  "demo_goal = \<lparr>gl_ID = ''g'', gl_Name = ''Bike'', gl_Description = [], gl_TargetAmountPaise = 10000,
     gl_Currency = ''INR'', gl_SavedAmountPaise = 5000, gl_MonthlyContributionPaise = 0, gl_Frequency = ''monthly'',
     gl_Priority = ''medium'', gl_StartDate = 0, gl_TargetDate = 9, gl_Status = ''active'', gl_LinkedAccount = [],
     gl_ProgressPercent = 50, gl_ShortfallEstimatePaise = 5000, gl_CreatedAt = 0\<rparr>"

definition goal_service :: "unit Service" where
  "goal_service = set_goals ''u1'' [demo_goal] demo_service"

lemma contribution_effect_witness:
  "case ContributeGoal demo_env 1 ''u1'' ''g'' \<lparr>gc_AmountPaise = 5000, gc_IdempotencyKey = []\<rparr> goal_service of
     (Inr g', s') \<Rightarrow> gl_Status g' = ''completed'' | (Inl _, _) \<Rightarrow> False"
proof -
  have "all_solvent goal_service" "find_goal ''u1'' ''g'' goal_service = Some demo_goal"
    "user_funds goal_service ''u1'' = 80000"
    using demo_solvent
    by (simp_all add: goal_service_def find_goal_def demo_goal_def user_funds_def demo_service_def fresh_service_def
      demo_account_def get_list_def)
  from contribution_effect [OF this(1) _ _ this(2), of 5000 demo_env 1] this(3) show ?thesis
    by (simp add: demo_goal_def maxContributionPaise_def split: prod.splits sum.splits)
qed

end
