(* ===== verification/PlatformAccounts.thy ===== *)
theory PlatformAccounts
  imports PaymentGuarantees
begin

text \<open>
  Linked accounts, known payees, the account aggregator, bank payments and their receipts, fraud
  reports, the cooling-off query and the reconciliation (\<open>domain/platform/service.go\<close>,
  \<open>service_payment.go\<close>, \<open>service_expansion.go\<close>). The bank adapter is code behind an interface: a
  \<open>bank\<close> holds what its two queries answer, \<open>None\<close> an error. \<open>rnd\<close> is a random string the call
  draws, \<open>mule\<close> the scores of the mule model, which is not modelled.
\<close>

section \<open>Accounts\<close>

record LinkAccountRequest =
  lq_AccountHolderName :: string
  lq_BankName :: string
  lq_Branch :: string
  lq_IFSCCode :: string
  lq_MaskedAccount :: string
  lq_UPIID :: string
  lq_AccountType :: string
  lq_VerificationStatus :: string
  lq_Nickname :: string
  lq_PrimaryAccountFlag :: bool
  lq_AccountToken :: string
  lq_TokenProvider :: string
  lq_AccountVerificationMethod :: string
  lq_BalancePaise :: int

definition set_accounts :: "string \<Rightarrow> Account list \<Rightarrow> 'f Service \<Rightarrow> 'f Service" where
  "set_accounts userID accts s = s\<lparr>sv_accounts := (sv_accounts s)(userID \<mapsto> accts)\<rparr>"

definition zero_aggregator :: AggregatorStatus where
  "zero_aggregator = \<lparr>ag_LinkedInstitutionID = [], ag_ConnectorStatus = [], ag_LastSyncTimestamp = None,
     ag_NumberOfAccountsAggregated = 0\<rparr>"

definition connected :: "AggregatorStatus \<Rightarrow> AggregatorStatus" where
  "connected agg = (if ag_ConnectorStatus agg = [] then agg\<lparr>ag_ConnectorStatus := ''connected''\<rparr> else agg)"

text \<open>The aggregator's entry after the accounts changed.\<close>

definition touch_aggregator :: "time \<Rightarrow> string \<Rightarrow> int \<Rightarrow> 'f Service \<Rightarrow> 'f Service" where
  "touch_aggregator now userID n s =
     (let agg = (get_or zero_aggregator (sv_aggregatorStatus s) userID)
            \<lparr>ag_NumberOfAccountsAggregated := n, ag_LastSyncTimestamp := Some now\<rparr>
      in s\<lparr>sv_aggregatorStatus := (sv_aggregatorStatus s)(userID \<mapsto> connected agg)\<rparr>)"

definition clear_primary :: "Account list \<Rightarrow> Account list" where
  "clear_primary accts = map (\<lambda>a. a\<lparr>ac_PrimaryAccountFlag := False\<rparr>) accts"

definition new_account :: "string \<Rightarrow> string \<Rightarrow> time \<Rightarrow> LinkAccountRequest \<Rightarrow> User \<Rightarrow> Account" where
  "new_account i rnd now req user =
     \<lparr>ac_ID = i, ac_AccountHolderName = firstNonEmpty (lq_AccountHolderName req) (us_Name user),
      ac_BankName = lq_BankName req, ac_Branch = firstNonEmpty (lq_Branch req) ''NA'',
      ac_IFSCCode = ToUpper (firstNonEmpty (lq_IFSCCode req) ''NA''),
      ac_AccountNumberMaskedToken = lq_MaskedAccount req, ac_UPIID = lq_UPIID req,
      ac_AccountType = (if lq_AccountType req = [] then ''savings'' else lq_AccountType req),
      ac_VerificationStatus = firstNonEmpty (lq_VerificationStatus req) ''pending'',
      ac_Nickname = lq_Nickname req, ac_PrimaryAccountFlag = lq_PrimaryAccountFlag req,
      ac_AccountToken = firstNonEmpty (lq_AccountToken req) (''accttok_'' @ rnd),
      ac_TokenProvider = firstNonEmpty (lq_TokenProvider req) ''bank'',
      ac_AccountVerificationAt = Some now,
      ac_AccountVerificationMethod = firstNonEmpty (lq_AccountVerificationMethod req) ''upi'',
      ac_BalancePaise = 0, ac_LinkedAt = now\<rparr>"

definition LinkAccount ::
  "sv_env \<Rightarrow> string \<Rightarrow> time \<Rightarrow> string \<Rightarrow> LinkAccountRequest \<Rightarrow> 'f Service \<Rightarrow> ('f, Account) svc" where
  "LinkAccount env rnd now userID req s =
     (case sv_users s userID of
        None \<Rightarrow> (Inl UserNotFound, s)
      | Some user \<Rightarrow>
          if TrimSpace (lq_BankName req) = [] \<or> TrimSpace (lq_MaskedAccount req) = []
          then (Inl BankNameAndMaskRequired, s)
          else (case nextID ''acct'' s of (i, s1) \<Rightarrow>
            let acct = new_account i rnd now req user;
                old = get_list (sv_accounts s1) userID;
                accts = (if ac_PrimaryAccountFlag acct then clear_primary old else old) @ [acct];
                s2 = touch_aggregator now userID (int (length accts)) (set_accounts userID accts s1)
            in (Inr acct, appendAudit env now userID ''account_linked'' ''account_aggregator'' ''success''
                  ''New account linked successfully'' ''User'' s2)))"

definition Accounts :: "string \<Rightarrow> 'f Service \<Rightarrow> svc_error + Account list" where
  "Accounts userID s = (if sv_users s userID = None then Inl UserNotFound else Inr (get_list (sv_accounts s) userID))"

record UpdateAccountRequest =
  uq_Nickname :: string
  uq_PrimaryAccountFlag :: "bool option"
  uq_VerificationStatus :: string
  uq_AccountVerificationMethod :: string

definition trimmed_or :: "string \<Rightarrow> string \<Rightarrow> string" where
  "trimmed_or value old = (let v = TrimSpace value in if v \<noteq> [] then v else old)"

definition edit_account :: "time \<Rightarrow> UpdateAccountRequest \<Rightarrow> Account \<Rightarrow> Account" where
  "edit_account now req a =
     a\<lparr>ac_Nickname := trimmed_or (uq_Nickname req) (ac_Nickname a),
       ac_PrimaryAccountFlag := (case uq_PrimaryAccountFlag req of None \<Rightarrow> ac_PrimaryAccountFlag a | Some b \<Rightarrow> b),
       ac_VerificationStatus := trimmed_or (uq_VerificationStatus req) (ac_VerificationStatus a),
       ac_AccountVerificationMethod := trimmed_or (uq_AccountVerificationMethod req) (ac_AccountVerificationMethod a),
       ac_AccountVerificationAt := Some now\<rparr>"

definition UpdateAccount ::
  "sv_env \<Rightarrow> time \<Rightarrow> string \<Rightarrow> string \<Rightarrow> UpdateAccountRequest \<Rightarrow> 'f Service \<Rightarrow> ('f, Account) svc" where
  "UpdateAccount env now userID accountID req s =
     (if sv_users s userID = None then (Inl UserNotFound, s)
      else
        let accts = get_list (sv_accounts s) userID in
        case find (\<lambda>a. ac_ID a = accountID) accts of
          None \<Rightarrow> (Inl AccountNotFound, s)
        | Some a \<Rightarrow>
            let accts1 = (if uq_PrimaryAccountFlag req = Some True then clear_primary accts else accts);
                accts2 = update_first (\<lambda>a. ac_ID a = accountID) (edit_account now req) accts1;
                s1 = touch_aggregator now userID (int (length accts2)) (set_accounts userID accts2 s)
            in (Inr (edit_account now req a),
                appendAudit env now userID ''account_updated'' ''account_aggregator'' ''success''
                  ''Account metadata updated'' ''User'' s1))"

definition AggregatorStatusOf :: "string \<Rightarrow> 'f Service \<Rightarrow> svc_error + AggregatorStatus" where
  "AggregatorStatusOf userID s =
     (if sv_users s userID = None then Inl UserNotFound
      else Inr (connected ((get_or zero_aggregator (sv_aggregatorStatus s) userID)
        \<lparr>ag_NumberOfAccountsAggregated := int (length (get_list (sv_accounts s) userID))\<rparr>)))"

definition SyncAggregator ::
  "sv_env \<Rightarrow> time \<Rightarrow> string \<Rightarrow> string \<Rightarrow> string \<Rightarrow> 'f Service \<Rightarrow> ('f, AggregatorStatus) svc" where
  "SyncAggregator env now userID linkedInstitutionID connectorStatus s =
     (if sv_users s userID = None then (Inl UserNotFound, s)
      else
        let st = get_or zero_aggregator (sv_aggregatorStatus s) userID;
            st1 = st\<lparr>ag_LinkedInstitutionID := trimmed_or linkedInstitutionID (ag_LinkedInstitutionID st)\<rparr>;
            st2 = (if TrimSpace connectorStatus \<noteq> [] then st1\<lparr>ag_ConnectorStatus := TrimSpace connectorStatus\<rparr>
                   else connected st1);
            st3 = st2\<lparr>ag_LastSyncTimestamp := Some now,
                      ag_NumberOfAccountsAggregated := int (length (get_list (sv_accounts s) userID))\<rparr>
        in (Inr st3, appendAudit env now userID ''aggregator_sync_completed'' ''account_aggregator'' ''success''
              ''Aggregator sync completed'' ''System''
              (s\<lparr>sv_aggregatorStatus := (sv_aggregatorStatus s)(userID \<mapsto> st3)\<rparr>)))"

section \<open>Payees\<close>

record bank =
  bk_VerifyUPI :: "string \<Rightarrow> (string \<times> bool) option"
  bk_GetBalance :: "string \<Rightarrow> int option"

record CreateBeneficiaryRequest =
  cb_BeneficiaryName :: string
  cb_RelationshipDescription :: string
  cb_UPIIDOrBankDetails :: string
  cb_TrustScore :: rat
  cb_Notes :: string

definition payee_status :: "bank option \<Rightarrow> string \<Rightarrow> string" where
  "payee_status bank details =
     (case bank of
        None \<Rightarrow> ''pending''
      | Some b \<Rightarrow>
          if CHR ''@'' \<in> set details then
            (case bk_VerifyUPI b details of
               None \<Rightarrow> ''pending''
             | Some (status, ok) \<Rightarrow> if ok then ''verified'' else firstNonEmpty status ''not_found'')
          else ''pending'')"

definition set_payees :: "string \<Rightarrow> Beneficiary list \<Rightarrow> 'f Service \<Rightarrow> 'f Service" where
  "set_payees userID bs s = s\<lparr>sv_beneficiaryRecords := (sv_beneficiaryRecords s)(userID \<mapsto> bs)\<rparr>"

definition CreateBeneficiary ::
  "sv_env \<Rightarrow> bank option \<Rightarrow> string \<Rightarrow> time \<Rightarrow> string \<Rightarrow> CreateBeneficiaryRequest \<Rightarrow> 'f Service
     \<Rightarrow> ('f, Beneficiary) svc" where
  "CreateBeneficiary env bank rnd now userID req s =
     (if sv_users s userID = None then (Inl UserNotFound, s)
      else if TrimSpace (cb_BeneficiaryName req) = [] \<or> TrimSpace (cb_UPIIDOrBankDetails req) = []
      then (Inl BeneficiaryDetailsRequired, s)
      else
        let details = TrimSpace (cb_UPIIDOrBankDetails req);
            status = payee_status bank details
        in case nextID ''ben'' s of (i, s1) \<Rightarrow>
          let b = \<lparr>bn_ID = i, bn_BeneficiaryName = TrimSpace (cb_BeneficiaryName req),
                 bn_RelationshipDescription = TrimSpace (cb_RelationshipDescription req),
                 bn_UPIIDOrBankDetails = details, bn_DateAdded = now, bn_AddedBy = userID,
                 bn_VerificationStatus = status, bn_TrustScore = clamp (cb_TrustScore req) 0 100,
                 bn_Notes = TrimSpace (cb_Notes req), bn_ApproverID = [], bn_ApprovalTimestamp = None,
                 bn_CoolingActionID = [], bn_ApprovalInitiationID = ''approve_'' @ rnd\<rparr>
          in (Inr b, appendAudit env now userID ''beneficiary_created'' ''beneficiary'' ''success''
                (''Beneficiary created (bank verification: '' @ status @ '')'') ''User''
                (set_payees userID (get_list (sv_beneficiaryRecords s1) userID @ [b]) s1)))"

definition Beneficiaries :: "string \<Rightarrow> 'f Service \<Rightarrow> svc_error + Beneficiary list" where
  "Beneficiaries userID s =
     (if sv_users s userID = None then Inl UserNotFound else Inr (get_list (sv_beneficiaryRecords s) userID))"

record ApproveBeneficiaryRequest =
  aq_ApproverID :: string
  aq_Approved :: bool
  aq_CoolingActionID :: string

definition decide_payee :: "time \<Rightarrow> ApproveBeneficiaryRequest \<Rightarrow> Beneficiary \<Rightarrow> Beneficiary" where
  "decide_payee now req b =
     b\<lparr>bn_ApproverID := TrimSpace (aq_ApproverID req), bn_ApprovalTimestamp := Some now,
       bn_CoolingActionID := TrimSpace (aq_CoolingActionID req),
       bn_VerificationStatus := (if aq_Approved req then ''approved'' else ''rejected'')\<rparr>"

definition ApproveBeneficiary ::
  "sv_env \<Rightarrow> time \<Rightarrow> string \<Rightarrow> string \<Rightarrow> ApproveBeneficiaryRequest \<Rightarrow> 'f Service \<Rightarrow> ('f, Beneficiary) svc" where
  "ApproveBeneficiary env now userID beneficiaryID req s =
     (if sv_users s userID = None then (Inl UserNotFound, s)
      else
        let bs = get_list (sv_beneficiaryRecords s) userID in
        case find (\<lambda>b. bn_ID b = beneficiaryID) bs of
          None \<Rightarrow> (Inl BeneficiaryNotFound, s)
        | Some b \<Rightarrow>
            let s1 = set_payees userID (update_first (\<lambda>b. bn_ID b = beneficiaryID) (decide_payee now req) bs) s;
                by = firstNonEmpty (aq_ApproverID req) ''System''
            in (Inr (decide_payee now req b),
                if aq_Approved req then
                  appendAudit env now userID ''beneficiary_approved'' ''beneficiary'' ''success''
                    ''Beneficiary approved'' by
                    (s1\<lparr>sv_beneficiaries := (sv_beneficiaries s1)(userID \<mapsto>
                        get_or {} (sv_beneficiaries s1) userID
                          \<union> {ToLower (bn_BeneficiaryName b), ToLower (bn_UPIIDOrBankDetails b)})\<rparr>)
                else
                  appendAudit env now userID ''beneficiary_approval_rejected'' ''beneficiary'' ''rejected''
                    ''Beneficiary approval rejected'' by s1))"

section \<open>Properties\<close>

definition primaries :: "Account list \<Rightarrow> nat" where
  "primaries accts = length (filter ac_PrimaryAccountFlag accts)"

lemma primaries_clear [simp]: "primaries (clear_primary accts) = 0"
  by (simp add: primaries_def clear_primary_def filter_empty_conv)

lemma primaries_edit:
  assumes "uq_PrimaryAccountFlag req = Some True \<longrightarrow> primaries accts = 0" and "primaries accts \<le> 1"
  shows "primaries (update_first P (edit_account now req) accts) \<le> 1"
proof -
  have "primaries (update_first P (edit_account now req) xs) \<le> (if uq_PrimaryAccountFlag req = Some True then Suc (primaries xs) else primaries xs)" for xs
    by (induction xs) (auto simp: primaries_def edit_account_def split: option.splits)
  from this [of accts] assms show ?thesis by (auto split: if_splits)
qed

text \<open>
  However accounts are linked and edited, a user keeps at most one primary account; a linked
  account starts with a zero balance whatever the request claims, and editing changes no balance.
\<close>

theorem one_primary_account:
  assumes "primaries (get_list (sv_accounts s) u) \<le> 1"
  shows "(case LinkAccount env rnd now u req s of (r, s') \<Rightarrow>
      primaries (get_list (sv_accounts s') u) \<le> 1 \<and>
      (\<forall>a. r = Inr a \<longrightarrow> ac_BalancePaise a = 0 \<and>
         map ac_BalancePaise (get_list (sv_accounts s') u) = map ac_BalancePaise (get_list (sv_accounts s) u) @ [0])) \<and>
    (case UpdateAccount env now u i ureq s of (_, s') \<Rightarrow>
      primaries (get_list (sv_accounts s') u) \<le> 1 \<and>
      map ac_BalancePaise (get_list (sv_accounts s') u) = map ac_BalancePaise (get_list (sv_accounts s) u))"
proof
  have [simp]: "map ac_BalancePaise (clear_primary xs) = map ac_BalancePaise xs"
      "map ac_BalancePaise (update_first P (edit_account now ureq) xs) = map ac_BalancePaise xs" for P xs
    by (simp add: clear_primary_def) (induction xs; simp add: edit_account_def)
  obtain j t where j: "nextID ''acct'' s = (j, t)" by fastforce
  then have t: "sv_accounts t = sv_accounts s" by (auto simp: nextID_def Let_def)
  have new: "ac_BalancePaise (new_account j rnd now req user) = 0"
      "ac_PrimaryAccountFlag (new_account j rnd now req user) = lq_PrimaryAccountFlag req" for user
    by (simp_all add: new_account_def)
  have snoc: "primaries (xs @ [a]) = primaries xs + (if ac_PrimaryAccountFlag a then 1 else 0)" for xs a
    by (simp add: primaries_def)
  show "(case LinkAccount env rnd now u req s of (r, s') \<Rightarrow>
      primaries (get_list (sv_accounts s') u) \<le> 1 \<and>
      (\<forall>a. r = Inr a \<longrightarrow> ac_BalancePaise a = 0 \<and>
         map ac_BalancePaise (get_list (sv_accounts s') u) = map ac_BalancePaise (get_list (sv_accounts s) u) @ [0]))"
    using assms j t
    by (auto simp: LinkAccount_def Let_def new snoc frame_simps touch_aggregator_def set_accounts_def split: option.split)
  show "(case UpdateAccount env now u i ureq s of (_, s') \<Rightarrow>
      primaries (get_list (sv_accounts s') u) \<le> 1 \<and>
      map ac_BalancePaise (get_list (sv_accounts s') u) = map ac_BalancePaise (get_list (sv_accounts s) u))"
    using assms primaries_edit [of ureq]
    by (auto simp: UpdateAccount_def Let_def frame_simps touch_aggregator_def set_accounts_def split: option.split)
qed

lemma one_primary_account_witness:
  "primaries (get_list (sv_accounts (snd (UpdateAccount demo_env 5 ''u1'' ''acct-2''
      \<lparr>uq_Nickname = ''Joint'', uq_PrimaryAccountFlag = Some True, uq_VerificationStatus = [],
       uq_AccountVerificationMethod = []\<rparr> demo_service))) ''u1'') \<le> 1"
proof -
  have "primaries (get_list (sv_accounts demo_service) ''u1'') \<le> 1"
    by (simp add: primaries_def demo_service_def fresh_service_def get_list_def demo_account_def)
  from one_primary_account [OF this, where env = demo_env and now = 5 and i = "''acct-2''" and ureq = "\<lparr>uq_Nickname = ''Joint'',
      uq_PrimaryAccountFlag = Some True, uq_VerificationStatus = [], uq_AccountVerificationMethod = []\<rparr>"]
  have "case UpdateAccount demo_env 5 ''u1'' ''acct-2'' \<lparr>uq_Nickname = ''Joint'', uq_PrimaryAccountFlag = Some True,
      uq_VerificationStatus = [], uq_AccountVerificationMethod = []\<rparr> demo_service of
      (_, s') \<Rightarrow> primaries (get_list (sv_accounts s') ''u1'') \<le> 1" by (auto split: prod.splits)
  then show ?thesis by (simp add: case_prod_beta)
qed

end
