(* ===== verification/PlatformPayments.thy ===== *)
theory PlatformPayments
  imports PlatformAccounts
begin

text \<open>
  Bank payments and receipts (\<open>service_payment.go\<close>), the cooling-off query
  (\<open>service_expansion.go\<close>), fraud reports, the reconciliation of the balances with the double-entry
  book and the paging helper (\<open>service.go\<close>).
\<close>

section \<open>Bank payments\<close>

record InitiatePaymentRequest =
  pq_BeneficiaryID :: string
  pq_BeneficiaryName :: string
  pq_BeneficiaryAccount :: string
  pq_AmountPaise :: int
  pq_Currency :: string
  pq_Method :: string
  pq_OTPVerified :: bool
  pq_UserConsent :: bool
  pq_QRCodePayload :: string
  pq_PaymentIntentID :: string
  pq_UPIIntentID :: string
  pq_SIPID :: string

definition payee_unverified :: "bank option \<Rightarrow> InitiatePaymentRequest \<Rightarrow> bool" where
  "payee_unverified bank req =
     (case bank of
        None \<Rightarrow> False
      | Some b \<Rightarrow>
          let payee = TrimSpace (firstNonEmpty (pq_BeneficiaryAccount req) (pq_BeneficiaryName req)) in
          CHR ''@'' \<in> set payee \<and> (case bk_VerifyUPI b payee of None \<Rightarrow> False | Some (_, ok) \<Rightarrow> \<not> ok))"

text \<open>The balance of the first account the bank answers for.\<close>

fun first_balance :: "bank \<Rightarrow> Account list \<Rightarrow> int option" where
  "first_balance b [] = None"
| "first_balance b (a # as) = (case bk_GetBalance b (ac_UPIID a) of None \<Rightarrow> first_balance b as | Some bal \<Rightarrow> Some bal)"

definition bank_balance_short :: "bank option \<Rightarrow> int \<Rightarrow> Account list \<Rightarrow> bool" where
  "bank_balance_short bank amount accts =
     (case bank of
        None \<Rightarrow> False
      | Some b \<Rightarrow> (case first_balance b accts of None \<Rightarrow> False | Some bal \<Rightarrow> bal < amount))"

definition gnnScoreForRecipient ::
  "sv_env \<Rightarrow> (string \<rightharpoonup> rat) \<Rightarrow> string \<Rightarrow> 'f Service \<Rightarrow> rat \<times> 'f Service" where
  "gnnScoreForRecipient env mule recipient s =
     (case mule recipient of
        Some score \<Rightarrow> (score, s)
      | None \<Rightarrow> (case GetRiskScore (env_H env) recipient (sv_fraudGraph s) of
          (score, g) \<Rightarrow> (score, s\<lparr>sv_fraudGraph := g\<rparr>)))"

definition payment_score :: "bool \<Rightarrow> rat \<Rightarrow> rat" where
  "payment_score unverified score = (if unverified \<and> score < fl (55 / 100) then fl (55 / 100) else score)"

definition payment_level :: "rat \<Rightarrow> string" where
  "payment_level score =
     (if score > fl (8 / 10) then ''high'' else if score > 1 / 2 then ''medium'' else ''low'')"

definition new_payment ::
  "string \<Rightarrow> time \<Rightarrow> string \<Rightarrow> InitiatePaymentRequest \<Rightarrow> rat \<Rightarrow> 'f Service \<Rightarrow> Payment" where
  "new_payment i now userID req score s =
     (let payData = i @ '':'' @ userID @ '':'' @ pq_BeneficiaryName req @ '':'' @ dec (pq_AmountPaise req) @ '':'' @
            rfc3339nano now
      in \<lparr>py_ID = i, py_UserID = userID, py_BeneficiaryID = pq_BeneficiaryID req,
          py_BeneficiaryName = pq_BeneficiaryName req, py_BeneficiaryAccount = pq_BeneficiaryAccount req,
          py_AmountPaise = pq_AmountPaise req, py_Currency = firstNonEmpty (pq_Currency req) ''INR'',
          py_Method = firstNonEmpty (pq_Method req) ''upi'', py_Status = ''initiated'',
          py_RiskLevel = payment_level score, py_RiskScore = score, py_StartedAt = now,
          py_CompletedAt = None, py_BankReference = [], py_OTPVerified = pq_OTPVerified req,
          py_UserConsent = pq_UserConsent req, py_RefundInfo = None,
          py_PaymentIntentID = pq_PaymentIntentID req, py_UPIIntentID = pq_UPIIntentID req,
          py_QRCodePayload = pq_QRCodePayload req, py_ReceiptVerification = None, py_SIPID = pq_SIPID req,
          py_PaymentTimelineID = [], py_StepUpChallengeID = [], py_DeviceChallengeKeyID = [],
          py_DilithiumSignature = (case sv_dilithium s of None \<Rightarrow> None | Some signer \<Rightarrow> signer payData),
          py_CreatedAt = now\<rparr>)"

definition set_payments :: "string \<Rightarrow> Payment list \<Rightarrow> 'f Service \<Rightarrow> 'f Service" where
  "set_payments userID ps s = s\<lparr>sv_payments := (sv_payments s)(userID \<mapsto> ps)\<rparr>"

definition block_last_payment :: "string \<Rightarrow> 'f Service \<Rightarrow> 'f Service" where
  "block_last_payment userID s =
     (case get_list (sv_payments s) userID of
        [] \<Rightarrow> s
      | ps \<Rightarrow> set_payments userID (butlast ps @ [(last ps)\<lparr>py_Status := ''blocked''\<rparr>]) s)"

definition record_payment :: "sv_env \<Rightarrow> time \<Rightarrow> string \<Rightarrow> Payment \<Rightarrow> 'f Service \<Rightarrow> ('f, Payment) svc" where
  "record_payment env now userID p s =
     (let s1 = appendAudit env now userID ''payment_initiated'' ''payment'' ''initiated''
                 (''Payment '' @ py_ID p @ '' for INR '' @ rupees (py_AmountPaise p) @ '' via '' @ py_Method p) ''User''
                 (set_payments userID (get_list (sv_payments s) userID @ [p]) s)
      in case WriteEventStrict (env_H env) now (\<lambda>_. now) userID ''payment_initiated'' ''payment''
                (env_json env (PPayment p)) (sv_ledger s1) of
           ((_, None), l) \<Rightarrow> (Inr p, s1\<lparr>sv_ledger := l\<rparr>)
         | ((_, Some e), l) \<Rightarrow>
             let s2 = s1\<lparr>sv_ledger := l\<rparr> in
             (case e of
                SmartContractViolation v \<Rightarrow>
                  (Inl (LedgerRejected e),
                   appendAudit env now userID ''payment_initiated'' ''payment'' ''blocked''
                     (''Blocked by blockchain smart contract: '' @ violation_error e) ''SmartContract''
                     (block_last_payment userID s2))
              | _ \<Rightarrow> (Inl (LedgerRejected e), s2)))"

definition InitiatePayment ::
  "sv_env \<Rightarrow> bank option \<Rightarrow> (string \<rightharpoonup> rat) \<Rightarrow> time \<Rightarrow> string \<Rightarrow> InitiatePaymentRequest
     \<Rightarrow> 'f Service \<Rightarrow> ('f, Payment) svc" where
  "InitiatePayment env bank mule now userID req s =
     (if sv_users s userID = None then (Inl UserNotFound, s)
      else if pq_AmountPaise req \<le> 0 then (Inl AmountMustBePositive, s)
      else if TrimSpace (pq_BeneficiaryName req) = [] \<and> TrimSpace (pq_BeneficiaryAccount req) = []
      then (Inl PayeeRequired, s)
      else if bank_balance_short bank (pq_AmountPaise req) (get_list (sv_accounts s) userID)
      then (Inl InsufficientBalance, s)
      else case nextID ''pay'' s of (i, s1) \<Rightarrow>
        (case gnnScoreForRecipient env mule (pq_BeneficiaryName req) s1 of (gnn, s2) \<Rightarrow>
          let score = payment_score (payee_unverified bank req) gnn
          in record_payment env now userID (new_payment i now userID req score s2) s2))"

definition ListPayments :: "string \<Rightarrow> 'f Service \<Rightarrow> svc_error + Payment list" where
  "ListPayments userID s =
     (if sv_users s userID = None then Inl UserNotFound else Inr (get_list (sv_payments s) userID))"

definition find_payment :: "string \<Rightarrow> string \<Rightarrow> 'f Service \<Rightarrow> Payment option" where
  "find_payment userID paymentID s = find (\<lambda>p. py_ID p = paymentID) (get_list (sv_payments s) userID)"

definition GetPayment :: "string \<Rightarrow> string \<Rightarrow> 'f Service \<Rightarrow> svc_error + Payment" where
  "GetPayment userID paymentID s =
     (if sv_users s userID = None then Inl UserNotFound
      else case find_payment userID paymentID s of None \<Rightarrow> Inl PaymentNotFound | Some p \<Rightarrow> Inr p)"

record VerifyReceiptRequest =
  vq_ReceiptHash :: string
  vq_VerifiedBy :: string
  vq_VerifierType :: string

definition verify_receipt :: "time \<Rightarrow> VerifyReceiptRequest \<Rightarrow> Payment \<Rightarrow> Payment" where
  "verify_receipt now req p =
     p\<lparr>py_ReceiptVerification := Some \<lparr>rv_Verified = True, rv_VerifiedAt = Some now,
          rv_VerifiedBy = vq_VerifiedBy req, rv_VerifierType = firstNonEmpty (vq_VerifierType req) ''user'',
          rv_ReceiptHash = vq_ReceiptHash req\<rparr>,
       py_Status := ''completed'', py_CompletedAt := Some now\<rparr>"

definition VerifyPaymentReceipt ::
  "sv_env \<Rightarrow> time \<Rightarrow> string \<Rightarrow> string \<Rightarrow> VerifyReceiptRequest \<Rightarrow> 'f Service \<Rightarrow> ('f, Payment) svc" where
  "VerifyPaymentReceipt env now userID paymentID req s =
     (if sv_users s userID = None then (Inl UserNotFound, s)
      else case find_payment userID paymentID s of
          None \<Rightarrow> (Inl PaymentNotFound, s)
        | Some p \<Rightarrow>
            if (case py_ReceiptVerification p of None \<Rightarrow> False | Some r \<Rightarrow> rv_Verified r)
            then (Inl ReceiptAlreadyVerified, s)
            else
              let p' = verify_receipt now req p;
                  s1 = set_payments userID (update_first (\<lambda>p. py_ID p = paymentID) (verify_receipt now req)
                         (get_list (sv_payments s) userID)) s;
                  s2 = appendAudit env now userID ''payment_receipt_verified'' ''payment'' ''completed''
                         (''Payment '' @ paymentID @ '' receipt verified by '' @ vq_VerifiedBy req) ''User'' s1
              in (Inr p', ledger_write env now userID ''payment_receipt_verified'' ''payment'' (PPayment p') s2))"

section \<open>Queries and reports\<close>

definition active_hold :: "time \<Rightarrow> time option \<Rightarrow> duration option" where
  "active_hold now until = (case until of Some t \<Rightarrow> if t > now then Some (t - now) else None | None \<Rightarrow> None)"

fun first_some :: "('a \<Rightarrow> 'b option) \<Rightarrow> 'a list \<Rightarrow> 'b option" where
  "first_some f [] = None"
| "first_some f (x # xs) = (case f x of Some y \<Rightarrow> Some y | None \<Rightarrow> first_some f xs)"

definition txn_hold :: "time \<Rightarrow> string \<Rightarrow> Transaction \<Rightarrow> duration option" where
  "txn_hold now txID tx =
     (if txID \<noteq> [] \<and> txn_ID tx \<noteq> txID then None else active_hold now (txn_CoolingOffUntil tx))"

definition order_hold :: "time \<Rightarrow> string \<Rightarrow> InvestmentOrder \<Rightarrow> duration option" where
  "order_hold now txID order =
     (if txID \<noteq> [] \<and> io_order_id order \<noteq> txID then None
      else if io_status order \<noteq> ''cooling_off'' then None
      else active_hold now (io_cooling_off_until order))"

definition CoolingOffState :: "time \<Rightarrow> string \<Rightarrow> string \<Rightarrow> 'f Service \<Rightarrow> svc_error + bool \<times> duration" where
  "CoolingOffState now userID txID s =
     (if TrimSpace userID = [] then Inl UserIDMissing
      else case requireUser userID s of
          Some e \<Rightarrow> Inl e
        | None \<Rightarrow>
            (case (if ld_fabric (sv_ledger s) \<noteq> None then VerifyCoolingOff now userID (sv_ledger s) else (False, 0)) of
               (True, remaining) \<Rightarrow> Inr (True, remaining)
             | (False, _) \<Rightarrow>
                 (case first_some (txn_hold now txID) (get_list (sv_transactions s) userID) of
                    Some remaining \<Rightarrow> Inr (True, remaining)
                  | None \<Rightarrow>
                      (case first_some (order_hold now txID) (get_list (sv_investmentOrders s) userID) of
                         Some remaining \<Rightarrow> Inr (True, remaining)
                       | None \<Rightarrow> Inr (False, 0)))))"

definition ReportFraud :: "sv_env \<Rightarrow> time \<Rightarrow> string \<Rightarrow> string \<Rightarrow> 'f Service \<Rightarrow> ('f, FraudReport) svc" where
  "ReportFraud env now userID description s =
     (if sv_users s userID = None then (Inl UserNotFound, s)
      else if TrimSpace description = [] then (Inl DescriptionRequired, s)
      else case nextID ''fraud'' s of (i, s1) \<Rightarrow>
        let report = \<lparr>fr_ID = i, fr_UserID = userID, fr_Description = description, fr_CreatedAt = now\<rparr>;
            s2 = s1\<lparr>sv_fraudReports := sv_fraudReports s1 @ [report],
                    sv_fraudGraph := MarkAsFraud (env_H env) now (TrimSpace description) (sv_fraudGraph s1)\<rparr>;
            s3 = appendAudit env now userID ''fraud_report_submitted'' ''security'' ''success''
                   ''Fraud report submitted'' ''User'' s2
        in (Inr report, ledger_write env now userID ''fraud_report_submitted'' ''security'' (PFraudReport report) s3))"

text \<open>Accounts checked, mismatches, debits, credits, balanced, entries; \<open>order\<close> lists the users of the map.\<close>

definition ReconcileBalances :: "string list \<Rightarrow> 'f Service \<Rightarrow> int \<times> int \<times> int \<times> int \<times> bool \<times> int" where
  "ReconcileBalances order s =
     (let accts = concat (map (get_list (sv_accounts s)) order);
          mismatches = filter (\<lambda>a. ac_BalancePaise a \<noteq> GetBalance (ac_ID a) (sv_accountingLedger s)) accts
      in case VerifyBalance (sv_accountingLedger s) of (debits, credits, balanced) \<Rightarrow>
           (int (length accts), int (length mismatches), debits, credits, balanced,
            EntryCount (sv_accountingLedger s)))"

definition LedgerEntries :: "string \<Rightarrow> int \<Rightarrow> 'f Service \<Rightarrow> AccountingLedgerEntry list" where
  "LedgerEntries userID limit s = GetEntriesByUser userID limit (sv_accountingLedger s)"

text \<open>A slice whose bounds are out of order panics (\<open>None\<close>).\<close>

definition slice :: "int \<Rightarrow> int \<Rightarrow> 'a list \<Rightarrow> 'a list option" where
  "slice lo hi xs = (if 0 \<le> lo \<and> lo \<le> hi \<and> hi \<le> int (length xs)
     then Some (take (nat (hi - lo)) (drop (nat lo) xs)) else None)"

definition PaginateList :: "'a list \<Rightarrow> int \<Rightarrow> int \<Rightarrow> ('a list \<times> int) option" where
  "PaginateList xs page0 limit0 =
     (let limit = (if limit0 \<le> 0 then 20 else limit0);
          page = (if page0 \<le> 0 then 1 else page0);
          total = int (length xs);
          start = i64 ((page - 1) * limit)
      in if start \<ge> total then Some ([], total)
         else
           let stop0 = i64 (start + limit);
               stop = (if stop0 > total then total else stop0)
           in (case slice start stop xs of None \<Rightarrow> None | Some ys \<Rightarrow> Some (ys, total)))"

section \<open>Properties\<close>

text \<open>
  A page of a list is exactly its slice as long as the page arithmetic stays within an
  \<open>int64\<close>, and then never panics: no page is skipped or repeated, pages beyond the end are empty.
\<close>

theorem page_is_slice:
  assumes "0 < page" and "0 < limit" and "page * limit < 2 ^ 63"
  shows "PaginateList xs page limit
     = Some (take (nat limit) (drop (nat ((page - 1) * limit)) xs), int (length xs))"
proof -
  define st where "st = (page - 1) * limit"
  have "0 \<le> st" "st + limit = page * limit" using assms by (simp_all add: st_def left_diff_distrib)
  with assms have st: "0 \<le> st" "i64 st = st" "i64 (st + limit) = st + limit"
    by (auto intro!: i64_id simp: is_i64_def)
  have page: "PaginateList xs page limit =
      (if st \<ge> int (length xs) then Some ([], int (length xs))
       else let stop = (if st + limit > int (length xs) then int (length xs) else st + limit)
            in case slice st stop xs of None \<Rightarrow> None | Some ys \<Rightarrow> Some (ys, int (length xs)))"
    using assms by (simp add: PaginateList_def Let_def st_def [symmetric] st(2, 3))
  show ?thesis
    using st(1) assms(2) unfolding page st_def [symmetric]
    by (auto simp: slice_def Let_def nat_diff_distrib nat_add_distrib)
qed

lemma page_is_slice_witness: "PaginateList [1 :: int, 2, 3, 4, 5] 2 2 = Some ([3, 4], 5)"
  using page_is_slice [of 2 2 "[1 :: int, 2, 3, 4, 5]"] by simp

text \<open>Beyond an \<open>int64\<close> the start of the page is negative and the slice panics.\<close>

lemma page_overflow_panics: "PaginateList [1 :: int, 2] (2 ^ 63 - 1) 2 = None"
  by code_simp

end
