(* ===== verification/MoneyRefinement.thy ===== *)
theory MoneyRefinement
  imports PlatformGoals PlatformPayments
begin

text \<open>
  The money of the platform service against an abstract purse: two numbers per user, what the accounts hold and
  what the goals have saved. A locale says what it means that steps of the service are actions of the purse, and
  what then follows for the wealth of a user over a run. Here the operations on payments, goals, accounts and
  payees (\<open>exec\<close>) are shown to be such actions; \<open>MoneyFlows\<close> adds everything else and states the properties.
\<close>

section \<open>The abstract purse\<close>

type_synonym purses = "(string \<Rightarrow> int) \<times> (string \<Rightarrow> int)"

datatype money_action = Keep | Spend string int | Save string int | Release string int | Open string int

fun abstract_step :: "money_action \<Rightarrow> purses \<Rightarrow> purses option" where
  "abstract_step Keep (F, G) = Some (F, G)"
| "abstract_step (Spend u m) (F, G) = (if 0 \<le> m \<and> m \<le> F u then Some (F(u := F u - m), G) else None)"
| "abstract_step (Save u m) (F, G) =
     (if 0 \<le> m \<and> m \<le> F u then Some (F(u := F u - m), G(u := G u + m)) else None)"
| "abstract_step (Release u m) (F, G) =
     (if 0 \<le> m \<and> m \<le> G u then Some (F(u := F u + m), G(u := G u - m)) else None)"
| "abstract_step (Open u m) (F, G) = (if 0 \<le> m \<and> F u = 0 \<and> G u = 0 then Some (F(u := m), G) else None)"

definition spent :: "string \<Rightarrow> money_action \<Rightarrow> int" where
  "spent u a = (case a of Spend v m \<Rightarrow> if v = u then m else 0 | _ \<Rightarrow> 0)"

definition gained :: "string \<Rightarrow> money_action \<Rightarrow> int" where
  "gained u a = (case a of Open v m \<Rightarrow> if v = u then m else 0 | _ \<Rightarrow> 0)"

definition wealth :: "string \<Rightarrow> purses \<Rightarrow> int" where
  "wealth u p = fst p u + snd p u"

lemma abstract_step_wealth: "abstract_step a p = Some q \<Longrightarrow> wealth u q = wealth u p - spent u a + gained u a"
  by (cases a; cases p) (auto simp: wealth_def spent_def gained_def split: if_splits)

lemma spent_nonneg: "abstract_step a p = Some q \<Longrightarrow> 0 \<le> spent u a"
  by (cases a; cases p) (auto simp: spent_def split: if_splits)

section \<open>Interface: a simulation\<close>

text \<open>Runs of a step: whether each step was allowed in its state, and how much one user was given on the way.\<close>

fun run_allowed_by :: "('s \<Rightarrow> 'op \<Rightarrow> 's) \<Rightarrow> ('s \<Rightarrow> 'op \<Rightarrow> bool) \<Rightarrow> 's \<Rightarrow> 'op list \<Rightarrow> bool" where
  "run_allowed_by step ok s [] \<longleftrightarrow> True"
| "run_allowed_by step ok s (e # es) \<longleftrightarrow> ok s e \<and> run_allowed_by step ok (step s e) es"

fun run_total :: "('s \<Rightarrow> 'op \<Rightarrow> 's) \<Rightarrow> ('s \<Rightarrow> 'op \<Rightarrow> int) \<Rightarrow> 's \<Rightarrow> 'op list \<Rightarrow> int" where
  "run_total step f s [] = 0"
| "run_total step f s (e # es) = f s e + run_total step f (step s e) es"

text \<open>
  A concrete step that always is one abstract action on the abstraction of its state. A purse is opened only for a
  user who holds none, and then the user holds one for good.
\<close>

locale simulation =
  fixes inv :: "'s \<Rightarrow> bool"
    and abs :: "'s \<Rightarrow> purses"
    and step :: "'s \<Rightarrow> 'op \<Rightarrow> 's"
    and allowed :: "'s \<Rightarrow> 'op \<Rightarrow> bool"
    and may_spend :: "string \<Rightarrow> 'op \<Rightarrow> bool"
    and grant :: "string \<Rightarrow> 's \<Rightarrow> 'op \<Rightarrow> int"
    and holds :: "'s \<Rightarrow> string \<Rightarrow> bool"
    and amount :: int
  assumes inv_step: "inv s \<Longrightarrow> allowed s e \<Longrightarrow> inv (step s e)"
    and simulated: "inv s \<Longrightarrow> allowed s e \<Longrightarrow> \<exists>a. abstract_step a (abs s) = Some (abs (step s e)) \<and>
      (\<forall>u. 0 < spent u a \<longrightarrow> may_spend u e) \<and> (\<forall>u. gained u a = grant u s e)"
    and granted: "inv s \<Longrightarrow> allowed s e \<Longrightarrow> grant u s e = 0 \<or> grant u s e = amount \<and> \<not> holds s u \<and> holds (step s e) u"
    and held: "inv s \<Longrightarrow> allowed s e \<Longrightarrow> holds s u \<Longrightarrow> holds (step s e) u"
begin

lemma run_inv: "inv s \<Longrightarrow> run_allowed_by step allowed s es \<Longrightarrow> inv (foldl step s es)"
  by (induction es arbitrary: s) (simp_all add: inv_step)

lemma run_wealth:
  "inv s \<Longrightarrow> run_allowed_by step allowed s es \<Longrightarrow>
   wealth u (abs (foldl step s es)) \<le> wealth u (abs s) + run_total step (grant u) s es \<and>
   ((\<forall>e \<in> set es. \<not> may_spend u e) \<longrightarrow>
     wealth u (abs (foldl step s es)) = wealth u (abs s) + run_total step (grant u) s es)"
proof (induction es arbitrary: s)
  case (Cons e es)
  then have al: "allowed s e" and rest: "run_allowed_by step allowed (step s e) es" by simp_all
  obtain a where a: "abstract_step a (abs s) = Some (abs (step s e))" "0 < spent u a \<longrightarrow> may_spend u e"
      "gained u a = grant u s e"
    using simulated [OF Cons.prems(1) al] by blast
  have "wealth u (abs (step s e)) = wealth u (abs s) - spent u a + gained u a" by (rule abstract_step_wealth [OF a(1)])
  moreover have "0 \<le> spent u a" by (rule spent_nonneg [OF a(1)])
  ultimately show ?case
    using Cons.IH [OF inv_step [OF Cons.prems(1) al] rest] a(2,3) by (cases "may_spend u e") auto
qed simp

lemma run_grants:
  "inv s \<Longrightarrow> run_allowed_by step allowed s es \<Longrightarrow>
   run_total step (grant u) s es = 0 \<or> run_total step (grant u) s es = amount \<and> \<not> holds s u"
proof (induction es arbitrary: s)
  case (Cons e es)
  then have al: "allowed s e" and rest: "run_allowed_by step allowed (step s e) es" by simp_all
  show ?case
    using granted [OF Cons.prems(1) al, of u] held [OF Cons.prems(1) al, of u]
      Cons.IH [OF inv_step [OF Cons.prems(1) al] rest] by auto
qed simp

end

section \<open>The operations of the service\<close>

datatype operation =
    Pay "nat \<Rightarrow> string" string InitiateTransactionRequest
  | Override OverrideRequest
  | Validate "string list" string ValidationVerdict
  | NewOTP "int option"
  | CheckOTP string
  | Freeze bool
  | Thaw string UnfreezeRequest
  | NewGoal GoalCreateRequest
  | Contribute string GoalContributionRequest
  | Close string
  | Dissolve string
  | Pause string
  | Resume string
  | Link string LinkAccountRequest
  | EditAccount string UpdateAccountRequest
  | Sync string string
  | NewPayee "bank option" string CreateBeneficiaryRequest
  | DecidePayee string ApproveBeneficiaryRequest
  | BankPayment "bank option" "string \<rightharpoonup> rat" InitiatePaymentRequest
  | Receipt string VerifyReceiptRequest
  | Report string

text \<open>One operation: its time, its user and what it is.\<close>

type_synonym call = "time \<times> string \<times> operation"

fun exec :: "sv_env \<Rightarrow> 'f Service \<Rightarrow> call \<Rightarrow> 'f Service" where
  "exec env s (now, u, Pay rnd ik req) = snd (InitiateTransaction env rnd now u ik req s)"
| "exec env s (now, u, Override req) = snd (OverrideTransaction env now u req s)"
| "exec env s (now, u, Validate order i v) = snd (ValidateRisk env order now i v s)"
| "exec env s (now, u, NewOTP random) = snd (GenerateOTP env random now u s)"
| "exec env s (now, u, CheckOTP otp) = snd (VerifyOTPToken env now u otp s)"
| "exec env s (now, u, Freeze test) = snd (EmergencyFreeze env now u test s)"
| "exec env s (now, u, Thaw flag req) = snd (Unfreeze env flag now u req s)"
| "exec env s (now, u, NewGoal req) = snd (CreateGoal env now u req s)"
| "exec env s (now, u, Contribute i req) = snd (ContributeGoal env now u i req s)"
| "exec env s (now, u, Close i) = snd (CloseGoal env now u i s)"
| "exec env s (now, u, Dissolve i) = snd (DissolveGoal env now u i s)"
| "exec env s (now, u, Pause i) = snd (PauseGoal u i s)"
| "exec env s (now, u, Resume i) = snd (ResumeGoal u i s)"
| "exec env s (now, u, Link rnd req) = snd (LinkAccount env rnd now u req s)"
| "exec env s (now, u, EditAccount i req) = snd (UpdateAccount env now u i req s)"
| "exec env s (now, u, Sync i c) = snd (SyncAggregator env now u i c s)"
| "exec env s (now, u, NewPayee bank rnd req) = snd (CreateBeneficiary env bank rnd now u req s)"
| "exec env s (now, u, DecidePayee i req) = snd (ApproveBeneficiary env now u i req s)"
| "exec env s (now, u, BankPayment bank mule req) = snd (InitiatePayment env bank mule now u req s)"
| "exec env s (now, u, Receipt i req) = snd (VerifyPaymentReceipt env now u i req s)"
| "exec env s (now, u, Report d) = snd (ReportFraud env now u d s)"

text \<open>Only a payment and an override may spend, and only what is the caller's.\<close>

fun may_spend :: "string \<Rightarrow> call \<Rightarrow> bool" where
  "may_spend u (now, v, op) \<longleftrightarrow> u = v \<and> (case op of Pay _ _ _ \<Rightarrow> True | Override _ \<Rightarrow> True | _ \<Rightarrow> False)"

definition abs_money :: "'f Service \<Rightarrow> purses" where
  "abs_money s = (user_funds s, user_savings s)"

section \<open>Operations that move no money\<close>

text \<open>Nothing moves between \<open>s\<close> and \<open>t\<close>, and what is well-formed stays so.\<close>

definition calm :: "'f Service \<Rightarrow> 'f Service \<Rightarrow> bool" where
  "calm s t \<longleftrightarrow> user_funds t = user_funds s \<and> user_savings t = user_savings s \<and>
     (all_solvent s \<longrightarrow> all_solvent t) \<and> (\<forall>u. account_count s u \<le> account_count t u) \<and>
     (\<forall>u. (\<forall>g \<in> set (get_list (sv_goals s) u). 0 \<le> gl_SavedAmountPaise g) \<longrightarrow>
        (\<forall>g \<in> set (get_list (sv_goals t) u). 0 \<le> gl_SavedAmountPaise g))"

lemma count_nonempty: "get_list (sv_accounts s) u \<noteq> [] \<longleftrightarrow> 0 < account_count s u"
  by (simp add: account_count_def)

lemma calm_ok: "calm s t \<Longrightarrow> money_ok s \<Longrightarrow> money_ok t"
  unfolding calm_def money_ok_def goals_ok_def count_nonempty by (metis order_less_le_trans)

lemma calm_abs: "calm s t \<Longrightarrow> abstract_step Keep (abs_money s) = Some (abs_money t)"
  by (simp add: calm_def abs_money_def)

lemma calm_same: "sv_accounts t = sv_accounts s \<Longrightarrow> sv_goals t = sv_goals s \<Longrightarrow> calm s t"
  by (simp add: calm_def user_funds_def [abs_def] user_savings_def [abs_def] all_solvent_def account_count_def)

lemma calm_refl [simp]: "calm s s"
  by (simp add: calm_same)

text \<open>An operation is still when it touches neither the accounts nor the goals.\<close>

definition still :: "'f Service \<Rightarrow> 'f Service \<Rightarrow> bool" where
  "still s t \<longleftrightarrow> sv_accounts t = sv_accounts s \<and> sv_goals t = sv_goals s"

lemma still_calm: "still s t \<Longrightarrow> calm s t"
  by (simp add: still_def calm_same)

lemma still_frame [simp]:
  "still s s"
  "still s (appendAudit env now u a r oc d tr t) = still s t"
  "still s (ledger_write env now u a r p t) = still s t"
  "still s (t\<lparr>sv_counter := c\<rparr>) = still s t" "still s (t\<lparr>sv_ledger := l\<rparr>) = still s t"
  "still s (t\<lparr>sv_fraudGraph := g\<rparr>) = still s t" "still s (t\<lparr>sv_fraudReports := fr\<rparr>) = still s t"
  "still s (t\<lparr>sv_transactions := tx\<rparr>) = still s t" "still s (t\<lparr>sv_payments := ps\<rparr>) = still s t"
  "still s (t\<lparr>sv_beneficiaries := bs\<rparr>) = still s t" "still s (t\<lparr>sv_beneficiaryRecords := br\<rparr>) = still s t"
  "still s (t\<lparr>sv_aggregatorStatus := ag\<rparr>) = still s t" "still s (t\<lparr>sv_authProfiles := ap\<rparr>) = still s t"
  "still s (t\<lparr>sv_otpAttempts := oa\<rparr>) = still s t" "still s (t\<lparr>sv_otpLockUntil := ol\<rparr>) = still s t"
  "still s (t\<lparr>sv_freezeState := fs\<rparr>) = still s t"
  by (simp_all add: still_def frame_simps)

lemmas still_defs = Let_def set_profile_def reset_otp_counters_def set_freeze_def count_failure_def lift_freeze_def
  set_payees_def set_payments_def block_last_payment_def touch_aggregator_def
lemmas still_splits = option.split prod.split sum.split list.split write_error.split

lemma nextID_still: "nextID p s = (i, t) \<Longrightarrow> still s t"
  by (auto simp: nextID_def Let_def)

lemma still_trans: "still s t \<Longrightarrow> still t v \<Longrightarrow> still s v"
  by (simp add: still_def)

lemma otp_still: "still s (snd (GenerateOTP env random now u s))" "still s (snd (VerifyOTPToken env now u otp s))"
  by (simp_all add: GenerateOTP_def VerifyOTPToken_def still_defs split: still_splits)

lemma freeze_still: "still s (snd (EmergencyFreeze env now u test s))"
  by (simp add: EmergencyFreeze_def still_defs)

lemma thaw_still: "still s (snd (Unfreeze env flag now u req s))"
proof -
  have lift: "still t (snd (lift_freeze env now u t))" for t :: "'a Service"
    by (simp add: still_defs)
  obtain r t where v: "VerifyOTPToken env now u (TrimSpace (ur_OTP req)) s = (r, t)" by fastforce
  then have "still s t" using otp_still(2) by (metis snd_conv)
  with v lift [of s] lift [of t] show ?thesis
    by (auto simp: Unfreeze_def Let_def intro: still_trans split: sum.split)
qed

lemma validate_still: "still s (snd (ValidateRisk env order now i v s))"
  by (simp add: ValidateRisk_def Let_def split: option.split)

lemma sync_still: "still s (snd (SyncAggregator env now u i c s))"
  by (simp add: SyncAggregator_def Let_def)

lemma payee_still: "still s (snd (CreateBeneficiary env bank rnd now u req s))" "still s (snd (ApproveBeneficiary env now u i areq s))"
  by (auto simp: CreateBeneficiary_def ApproveBeneficiary_def nextID_def still_defs split: option.split)

lemma bank_payment_still: "still s (snd (InitiatePayment env bank mule now u req s))"
proof -
  have recorded: "still t (snd (record_payment env now u p t))" for p and t :: "'a Service"
    by (simp add: record_payment_def still_defs split: still_splits)
  have score: "still t v" if "gnnScoreForRecipient env mule r t = (x, v)" for r x and t v :: "'a Service"
    using that by (auto simp: gnnScoreForRecipient_def split: option.splits prod.splits)
  obtain i s1 where i: "nextID ''pay'' s = (i, s1)" by fastforce
  obtain x s2 where x: "gnnScoreForRecipient env mule (pq_BeneficiaryName req) s1 = (x, s2)" by fastforce
  have "still s s2" by (rule still_trans [OF nextID_still [OF i] score [OF x]])
  from still_trans [OF this recorded] show ?thesis by (simp add: InitiatePayment_def Let_def i x)
qed

lemma receipt_still: "still s (snd (VerifyPaymentReceipt env now u i req s))"
  by (simp add: VerifyPaymentReceipt_def still_defs split: option.split)

lemma report_still: "still s (snd (ReportFraud env now u d s))"
  by (auto simp: ReportFraud_def nextID_def still_defs)

text \<open>Linking adds an empty account, editing one keeps its balance.\<close>

lemma funds_balances: "map ac_BalancePaise xs = map ac_BalancePaise ys \<Longrightarrow> funds xs = funds ys \<and> solvent xs = solvent ys"
proof -
  assume eq: "map ac_BalancePaise xs = map ac_BalancePaise ys"
  have conv: "(\<forall>a \<in> set zs. 0 \<le> ac_BalancePaise a) \<longleftrightarrow> (\<forall>b \<in> set (map ac_BalancePaise zs). 0 \<le> b)" for zs by simp
  show ?thesis by (simp only: funds_def solvent_def conv eq simp_thms)
qed

lemma calm_accounts:
  assumes "funds accts = funds (get_list (sv_accounts s) u)" and "solvent (get_list (sv_accounts s) u) \<Longrightarrow> solvent accts"
    and "length (get_list (sv_accounts s) u) \<le> length accts" and "sv_accounts t = (sv_accounts s)(u \<mapsto> accts)"
    and "sv_goals t = sv_goals s"
  shows "calm s t"
proof -
  have "user_funds t = user_funds s" "user_savings t = user_savings s"
    by (rule ext, simp add: user_funds_def user_savings_def assms(1, 4, 5))+
  then show ?thesis
    unfolding calm_def all_solvent_def account_count_def using assms(2, 3) by (simp add: assms(4, 5))
qed

lemma clear_primary_balances: "map ac_BalancePaise (clear_primary xs) = map ac_BalancePaise xs"
  by (simp add: clear_primary_def)

lemma edit_balances:
  "map ac_BalancePaise (update_first P (edit_account now req) xs) = map ac_BalancePaise xs"
  by (induction xs) (simp_all add: edit_account_def)

lemma link_calm: "calm s (snd (LinkAccount env rnd now u req s))"
proof (cases "\<exists>e. LinkAccount env rnd now u req s = (Inl e, s)")
  case True
  then show ?thesis by auto
next
  case False
  then obtain user where user: "sv_users s u = Some user"
      and filled: "TrimSpace (lq_BankName req) \<noteq> []" "TrimSpace (lq_MaskedAccount req) \<noteq> []"
    by (auto simp: LinkAccount_def split: option.splits if_splits)
  obtain i s1 where i: "nextID ''acct'' s = (i, s1)" by fastforce
  define acct where "acct = new_account i rnd now req user"
  define old where "old = (if ac_PrimaryAccountFlag acct then clear_primary (get_list (sv_accounts s) u) else get_list (sv_accounts s) u)"
  have s1: "sv_accounts s1 = sv_accounts s" "sv_goals s1 = sv_goals s" using nextID_still [OF i] by (simp_all add: still_def)
  have old: "funds old = funds (get_list (sv_accounts s) u) \<and> solvent old = solvent (get_list (sv_accounts s) u)"
    by (rule funds_balances) (simp add: old_def clear_primary_balances)
  have zero: "ac_BalancePaise acct = 0" by (simp add: acct_def new_account_def)
  have f: "funds (old @ [acct]) = funds old" using zero by (simp add: funds_def)
  show ?thesis
  proof (rule calm_accounts [of "old @ [acct]" s u])
    show "length (get_list (sv_accounts s) u) \<le> length (old @ [acct])" by (simp add: old_def clear_primary_def)
    show "sv_accounts (snd (LinkAccount env rnd now u req s)) = (sv_accounts s)(u \<mapsto> old @ [acct])"
      using user filled i s1
      by (simp add: LinkAccount_def acct_def [symmetric] old_def Let_def frame_simps touch_aggregator_def set_accounts_def)
    show "sv_goals (snd (LinkAccount env rnd now u req s)) = sv_goals s"
      using user filled i s1 by (simp add: LinkAccount_def Let_def frame_simps touch_aggregator_def set_accounts_def)
  qed (use old f zero in \<open>auto simp: solvent_def\<close>)
qed

lemma edit_calm: "calm s (snd (UpdateAccount env now u i req s))"
proof (cases "\<exists>e. UpdateAccount env now u i req s = (Inl e, s)")
  case True
  then show ?thesis by auto
next
  case False
  then obtain a usr where user: "sv_users s u = Some usr" and a: "find (\<lambda>a. ac_ID a = i) (get_list (sv_accounts s) u) = Some a"
    by (auto simp: UpdateAccount_def Let_def split: option.splits if_splits)
  let ?accts = "update_first (\<lambda>a. ac_ID a = i) (edit_account now req)
    (if uq_PrimaryAccountFlag req = Some True then clear_primary (get_list (sv_accounts s) u) else get_list (sv_accounts s) u)"
  have b: "map ac_BalancePaise ?accts = map ac_BalancePaise (get_list (sv_accounts s) u)"
    by (simp add: edit_balances clear_primary_balances)
  show ?thesis
  proof (rule calm_accounts [of ?accts s u])
    show "sv_accounts (snd (UpdateAccount env now u i req s)) = (sv_accounts s)(u \<mapsto> ?accts)"
      using user a by (simp add: UpdateAccount_def Let_def frame_simps touch_aggregator_def set_accounts_def)
    show "sv_goals (snd (UpdateAccount env now u i req s)) = sv_goals s"
      using user a by (simp add: UpdateAccount_def Let_def frame_simps touch_aggregator_def set_accounts_def)
  qed (use funds_balances [OF b] map_eq_imp_length_eq [OF b] in simp_all)
qed

text \<open>Creating a goal and changing its status saves nothing.\<close>

lemma calm_goals:
  assumes "sv_accounts t = sv_accounts s" and "sv_goals t = (sv_goals s)(u \<mapsto> gs)" and "savings gs = user_savings s u"
    and "\<forall>g \<in> set (get_list (sv_goals s) u). 0 \<le> gl_SavedAmountPaise g \<Longrightarrow> \<forall>g \<in> set gs. 0 \<le> gl_SavedAmountPaise g"
  shows "calm s t"
proof -
  have "user_funds t = user_funds s" "user_savings t = user_savings s"
    using assms(3) by (rule_tac [!] ext) (simp_all add: user_funds_def user_savings_def assms(1, 2))
  then show ?thesis
    unfolding calm_def all_solvent_def account_count_def using assms(4) by (simp add: assms(1, 2))
qed

lemma create_goal_calm: "calm s (snd (CreateGoal env now u req s))"
proof (cases "gq_TargetAmountPaise req \<le> 0 \<or> TrimSpace (gq_Name req) = [] \<or> gq_TargetDate req < now")
  case False
  obtain i s1 where i: "nextID ''goal'' s = (i, s1)" by fastforce
  then have s1: "sv_accounts s1 = sv_accounts s" "sv_goals s1 = sv_goals s" using nextID_still [OF i] by (simp_all add: still_def)
  obtain g t where t: "CreateGoal env now u req s = (Inr g, t)" "gl_SavedAmountPaise g = 0"
      "sv_accounts t = sv_accounts s" "sv_goals t = (sv_goals s)(u \<mapsto> get_list (sv_goals s) u @ [g])"
    using False i s1 by (simp add: CreateGoal_def Let_def frame_simps)
  have "calm s t" by (rule calm_goals [OF t(3, 4)]) (use t(2) in \<open>auto simp: user_savings_def\<close>)
  with t(1) show ?thesis by simp
qed (auto simp: CreateGoal_def)

lemma change_goal_calm:
  assumes "\<And>g. gl_SavedAmountPaise (f g) = gl_SavedAmountPaise g"
  shows "calm s (change_goal u i f s)"
proof (rule calm_goals [of _ s u])
  show "savings (update_first (\<lambda>g. gl_ID g = i) f (get_list (sv_goals s) u)) = user_savings s u"
    by (cases "find (\<lambda>g. gl_ID g = i) (get_list (sv_goals s) u)")
      (simp_all add: update_first_none savings_update assms user_savings_def)
  show "\<forall>g \<in> set (update_first (\<lambda>g. gl_ID g = i) f (get_list (sv_goals s) u)). 0 \<le> gl_SavedAmountPaise g"
    if "\<forall>g \<in> set (get_list (sv_goals s) u). 0 \<le> gl_SavedAmountPaise g"
    using that set_update_first_subset [of "\<lambda>g. gl_ID g = i" f "get_list (sv_goals s) u"] assms by auto
qed (simp_all add: change_goal_def)

lemma calm_trans: "calm s t \<Longrightarrow> calm t v \<Longrightarrow> calm s v"
  unfolding calm_def by (metis order_trans)

lemma calm_still: "calm s t \<Longrightarrow> still t v \<Longrightarrow> calm s v"
  by (rule calm_trans [OF _ still_calm])

lemma calm_audit:
  "calm s t \<Longrightarrow> calm s (appendAudit env now u a r oc d tr t)" "calm s t \<Longrightarrow> calm s (ledger_write env now u a r p t)"
  by (erule calm_still, simp)+

lemma goal_status_calm:
  "calm s (snd (CloseGoal env now u i s))" "calm s (snd (PauseGoal u i s))" "calm s (snd (ResumeGoal u i s))"
  by (auto simp: CloseGoal_def PauseGoal_def ResumeGoal_def switch_goal_def Let_def
    intro!: calm_audit change_goal_calm split: option.split)

section \<open>Operations that move money\<close>

text \<open>A step of the purse on a well-formed state, in which nobody loses an account.\<close>

definition moves :: "money_action \<Rightarrow> 'f Service \<Rightarrow> 'f Service \<Rightarrow> bool" where
  "moves a s t \<longleftrightarrow> abstract_step a (abs_money s) = Some (abs_money t) \<and> money_ok t \<and>
     (\<forall>u. account_count s u \<le> account_count t u)"

lemma calm_moves: "money_ok s \<Longrightarrow> calm s t \<Longrightarrow> moves Keep s t"
  using calm_ok calm_abs by (auto simp: moves_def calm_def)

lemma spend_moves:
  assumes ok: "money_ok s" and "0 \<le> m" and "m \<le> user_funds s u"
    and "user_funds t = (user_funds s)(u := user_funds s u - m)" and "all_solvent t"
    and "account_count t = account_count s" and "sv_goals t = sv_goals s"
  shows "moves (Spend u m) s t"
proof -
  have sav: "user_savings t = user_savings s" by (simp add: user_savings_def [abs_def] assms(7))
  have "goals_ok t"
    unfolding goals_ok_def count_nonempty assms(4, 6, 7) sav
  proof (intro allI conjI)
    fix v
    have g: "(\<forall>g \<in> set (get_list (sv_goals s) v). 0 \<le> gl_SavedAmountPaise g)"
      "0 < user_savings s v \<longrightarrow> 0 < account_count s v" "user_funds s v + user_savings s v < 2 ^ 63"
      using ok by (simp_all add: money_ok_def goals_ok_def count_nonempty)
    then show "\<forall>g \<in> set (get_list (sv_goals s) v). 0 \<le> gl_SavedAmountPaise g"
      "0 < user_savings s v \<longrightarrow> 0 < account_count s v"
      "((user_funds s)(u := user_funds s u - m)) v + user_savings s v < 2 ^ 63"
      using assms(2) by auto
  qed
  then show ?thesis using assms(2-6) sav by (simp add: moves_def abs_money_def money_ok_def)
qed

lemma pay_moves:
  assumes ok: "money_ok s"
  shows "\<exists>m. moves (Spend u m) s (snd (InitiateTransaction env rnd now u ik req s))"
proof -
  obtain r t where r: "InitiateTransaction env rnd now u ik req s = (r, t)" by fastforce
  note goals = InitiateTransaction_users [of env rnd now u ik req s, unfolded r snd_conv]
  note count = InitiateTransaction_count [of env rnd now u ik req s, unfolded r snd_conv]
  have sol: "all_solvent s" using ok by (simp add: money_ok_def)
  have "0 \<le> user_funds s u" by (rule wallet.purse_nonneg [OF sol])
  have "\<exists>m \<ge> 0. m \<le> user_funds s u \<and> user_funds t = (user_funds s)(u := user_funds s u - m) \<and> all_solvent t"
  proof (cases "fst (cached_result now (cache_key u ik) s) = None \<and> (\<exists>res. r = Inr res \<and> res_Status res = ''success'')")
    case True
    with InitiateTransaction_money [OF sol, where env = env and rnd = rnd and now = now and u = u and ik = ik and req = req] r
    show ?thesis by (intro exI [of _ "rq_AmountPaise req"]) simp
  next
    case False
    with InitiateTransaction_money [OF sol, where env = env and rnd = rnd and now = now and u = u and ik = ik and req = req] r
      \<open>0 \<le> user_funds s u\<close>
    show ?thesis by (intro exI [of _ 0]) simp
  qed
  then obtain m where "0 \<le> m" "m \<le> user_funds s u" "user_funds t = (user_funds s)(u := user_funds s u - m)" "all_solvent t"
    by blast
  from spend_moves [OF ok this count] goals r show ?thesis by auto
qed

text \<open>A debit, whatever follows it, spends what it takes.\<close>

lemma debit_moves:
  assumes ok: "money_ok s" and d: "applyDebitToFirstAccount u m s = (r, t)"
  shows "(\<exists>e. r = Inl e) \<and> t = s \<or> r = Inr () \<and> moves (Spend u (max 0 m)) s t \<and> sv_goals t = sv_goals s \<and>
    sv_beneficiaries t = sv_beneficiaries s \<and> sv_transactions t = sv_transactions s"
proof -
  have sol: "all_solvent s" using ok by (simp add: money_ok_def)
  have "0 \<le> user_funds s u" by (rule wallet.purse_nonneg [OF sol])
  have count: "account_count t = account_count s" using debit_count [of u m s] d by simp
  from sol show ?thesis
  proof (cases rule: applyDebit_cases [of s m u])
    case none
    with d ok \<open>0 \<le> user_funds s u\<close> show ?thesis by (auto simp: moves_def abs_money_def)
  next
    case short
    with d show ?thesis by auto
  next
    case (paid v)
    then have "t = v" "sv_goals t = sv_goals s" "r = Inr ()" using d by simp_all
    with spend_moves [OF ok _ paid(2), of t] paid count d show ?thesis by auto
  qed
qed

lemma still_views: "still s t \<Longrightarrow> abs_money t = abs_money s \<and> account_count t = account_count s"
  by (simp add: still_def abs_money_def user_funds_def [abs_def] user_savings_def [abs_def] account_count_def [abs_def])

lemma moves_still: "moves a s t \<Longrightarrow> still t v \<Longrightarrow> moves a s v"
  unfolding moves_def using still_views [of t v] calm_ok [OF still_calm] by metis

lemma still_moves: "still s t \<Longrightarrow> moves a t v \<Longrightarrow> moves a s v"
  unfolding moves_def using still_views [of s t] by metis

lemma stay_moves:
  assumes "money_ok s" and "still s t"
  shows "\<exists>m. moves (Spend u m) s t"
proof -
  have "moves (Spend u 0) s s" using assms(1) wallet.purse_nonneg [of s u] by (simp add: moves_def abs_money_def money_ok_def)
  from moves_still [OF this assms(2)] show ?thesis by blast
qed

lemma override_moves:
  assumes ok: "money_ok s"
  shows "\<exists>m. moves (Spend u m) s (snd (OverrideTransaction env now u req s))"
proof -
  note keep = stay_moves [OF ok]
  obtain r t where v: "VerifyOTPToken env now u (or_OTP req) s = (r, t)" by fastforce
  have st: "still s t" using otp_still(2) [of s env now u "or_OTP req"] v by simp
  have pend: "\<exists>m. moves (Spend u m) s (snd (override_pending env now u tx t))" for tx
  proof -
    let ?t = "set_status u (txn_ID tx) ''success'' t"
    have st': "still s ?t" using st by (simp add: set_status_def)
    obtain e v where d: "applyDebitToFirstAccount u (txn_AmountPaise tx) ?t = (e, v)" by fastforce
    have "money_ok ?t" by (rule calm_ok [OF still_calm [OF st'] ok])
    from debit_moves [OF this d] show ?thesis
    proof
      assume "(\<exists>er. e = Inl er) \<and> v = ?t"
      with d keep [OF st] keep [OF st'] show ?thesis by (auto simp: override_pending_def Let_def)
    next
      assume m: "e = Inr () \<and> moves (Spend u (max 0 (txn_AmountPaise tx))) ?t v \<and> sv_goals v = sv_goals ?t \<and>
        sv_beneficiaries v = sv_beneficiaries ?t \<and> sv_transactions v = sv_transactions ?t"
      have "still v (record_override env now u x b w) = still v w" for w :: "'a Service" and x b
        by (simp add: record_override_def Let_def)
      moreover have "still v w" if "add_beneficiary u y v = Some w" for y w
        using that by (auto simp: add_beneficiary_def split: option.splits)
      ultimately have "still v (snd (override_pending env now u tx t))" if "txn_Status tx = ''blocked'' \<or> txn_Status tx = ''warning_ack_required''"
        using that d m by (auto simp: override_pending_def Let_def split: option.split)
      moreover have "moves (Spend u (max 0 (txn_AmountPaise tx))) s v"
        using m by (blast intro: still_moves [OF st'])
      ultimately have "\<exists>m. moves (Spend u m) s (snd (override_pending env now u tx t))"
        if "txn_Status tx = ''blocked'' \<or> txn_Status tx = ''warning_ack_required''"
        using that moves_still by blast
      moreover have "snd (override_pending env now u tx t) = t"
        if "\<not> (txn_Status tx = ''blocked'' \<or> txn_Status tx = ''warning_ack_required'')"
        using that by (simp add: override_pending_def)
      ultimately show ?thesis using keep [OF st] by metis
    qed
  qed
  show ?thesis
    using v keep [of s] keep [OF st] pend by (auto simp: OverrideTransaction_def split: sum.split option.split)
qed

text \<open>A contribution saves what it takes, a dissolved goal releases what it saved.\<close>

lemma goals_ok_change:
  assumes ok: "money_ok s" and find: "find_goal u i s = Some g" and nonneg: "0 \<le> gl_SavedAmountPaise (f g)"
    and t: "sv_goals t = sv_goals (change_goal u i f s)" and cnt: "0 < account_count t u" "\<forall>v. account_count s v \<le> account_count t v"
    and total: "\<forall>v. user_funds t v + user_savings t v = user_funds s v + user_savings s v"
    and sol: "all_solvent t"
  shows "money_ok t"
proof -
  have sav: "user_savings t = user_savings (change_goal u i f s)" using t by (simp add: user_savings_def [abs_def])
  have old: "(\<forall>g \<in> set (get_list (sv_goals s) v). 0 \<le> gl_SavedAmountPaise g)"
      "0 < user_savings s v \<longrightarrow> 0 < account_count s v" "user_funds s v + user_savings s v < 2 ^ 63" for v
    using ok by (simp_all add: money_ok_def goals_ok_def count_nonempty)
  have new: "\<forall>g \<in> set (update_first (\<lambda>g. gl_ID g = i) f gs). 0 \<le> gl_SavedAmountPaise g"
    if "find (\<lambda>g. gl_ID g = i) gs = Some g" "\<forall>g \<in> set gs. 0 \<le> gl_SavedAmountPaise g" for gs
    using that nonneg by (induction gs) (auto split: if_splits)
  have "(\<forall>g \<in> set (get_list (sv_goals t) v). 0 \<le> gl_SavedAmountPaise g)" for v
    using old(1) [of v] new [OF find [unfolded find_goal_def] old(1)] by (simp add: t change_goal_def)
  moreover have "0 < user_savings t v \<longrightarrow> 0 < account_count t v" for v
    using old(2) [of v] cnt sav change_goal_savings [OF find, of f] order_less_le_trans
    by (cases "v = u") (auto simp: fun_upd_def)
  ultimately show ?thesis
    using old(3) total sol by (simp add: money_ok_def goals_ok_def count_nonempty)
qed

lemma find_goal_bounds:
  assumes "money_ok s" and "find_goal u i s = Some g"
  shows "0 \<le> gl_SavedAmountPaise g" and "gl_SavedAmountPaise g \<le> user_savings s u"
proof -
  have "g \<in> set (get_list (sv_goals s) u)" using assms(2) by (auto simp: find_goal_def find_Some_iff)
  moreover have "\<forall>g \<in> set (get_list (sv_goals s) u). 0 \<le> gl_SavedAmountPaise g"
    using assms(1) by (simp add: money_ok_def goals_ok_def)
  ultimately show "0 \<le> gl_SavedAmountPaise g" "gl_SavedAmountPaise g \<le> user_savings s u"
    using savings_member by (auto simp: user_savings_def)
qed

lemma contribute_moves:
  assumes ok: "money_ok s" and m: "0 < m" and find: "find_goal u i s = Some g"
  shows "moves Keep s (snd (contribute env now u i key m g s)) \<or> moves (Save u m) s (snd (contribute env now u i key m g s))"
proof (cases "gl_Status g = ''active'' \<and> gl_SavedAmountPaise g \<le> 2 ^ 63 - 1 - m")
  case False
  with calm_moves [OF ok calm_refl] show ?thesis by (auto simp: contribute_def)
next
  case True
  obtain r t where d: "applyDebitToFirstAccount u m s = (r, t)" by fastforce
  have sol: "all_solvent s" using ok by (simp add: money_ok_def)
  from sol show ?thesis
  proof (cases rule: applyDebit_cases [of s m u])
    case none
    with m show ?thesis by simp
  next
    case short
    with True calm_moves [OF ok calm_refl] show ?thesis by (simp add: contribute_def)
  next
    case (paid v)
    let ?v = "snd (contribute env now u i key m g s)"
    have v: "sv_goals v = sv_goals s" "find_goal u i v = Some g" using paid(4) find by (simp_all add: find_goal_def)
    have st: "still (change_goal u i (add_saving m) v) ?v"
      using True paid(3) by (simp add: contribute_def Let_def) (simp add: still_def frame_simps)
    have sav: "gl_SavedAmountPaise (add_saving m g) = gl_SavedAmountPaise g + m"
      using True m find_goal_bounds(1) [OF ok find] by (simp add: i64_id is_i64_def)
    have F: "user_funds ?v = (user_funds s)(u := user_funds s u - m)"
      using still_calm [OF st] paid(5) by (simp add: calm_def change_goal_def)
    have G: "user_savings ?v = (user_savings s)(u := user_savings s u + m)"
      using still_calm [OF st] change_goal_savings [OF v(2), of "add_saving m"] sav paid(4)
      by (simp add: calm_def)
    have count: "account_count ?v = account_count s"
      using st debit_count [of u m s] paid(3) by (simp add: still_def account_count_def [abs_def] change_goal_def)
    have "0 < account_count s u"
      using paid(1, 2) by (cases "get_list (sv_accounts s) u") (auto simp: account_count_def user_funds_def)
    moreover have "sv_goals ?v = sv_goals (change_goal u i (add_saving m) s)"
      using st v(1) by (simp add: still_def change_goal_def)
    moreover have "all_solvent ?v" using still_calm [OF st] paid(6) by (simp add: calm_def change_goal_def)
    ultimately have "money_ok ?v"
      using goals_ok_change [OF ok find, of "add_saving m" ?v] find_goal_bounds(1) [OF ok find] sav m F G count by simp
    then show ?thesis using F G count paid(1, 2) by (simp add: moves_def abs_money_def)
  qed
qed

lemma contribute_goal_moves:
  assumes ok: "money_ok s"
  shows "\<exists>a. moves a s (snd (ContributeGoal env now u i req s)) \<and> (\<forall>v. spent v a = 0 \<and> gained v a = 0)"
proof -
  have keep: ?thesis if "snd (ContributeGoal env now u i req s) = s"
    using that calm_moves [OF ok calm_refl] by (intro exI [of _ Keep]) (simp add: spent_def gained_def)
  let ?key = "goal_key u i (gc_IdempotencyKey req)"
  consider "snd (ContributeGoal env now u i req s) = s"
    | g where "0 < gc_AmountPaise req" "find_goal u i s = Some g"
        "ContributeGoal env now u i req s = contribute env now u i ?key (gc_AmountPaise req) g s"
  proof (cases "if ?key \<noteq> [] then sv_goalIdempotency s ?key else None")
    case None
    then have c: "ContributeGoal env now u i req s =
        (if gc_AmountPaise req \<le> 0 then (Inl ContributionMustBePositive, s)
         else if gc_AmountPaise req > maxContributionPaise then (Inl ContributionTooLarge, s)
         else (case find_goal u i s of None \<Rightarrow> (Inl GoalNotFound, s)
           | Some g \<Rightarrow> contribute env now u i ?key (gc_AmountPaise req) g s))"
      by (simp add: ContributeGoal_def Let_def)
    show thesis
    proof (cases "gc_AmountPaise req \<le> 0 \<or> gc_AmountPaise req > maxContributionPaise \<or> find_goal u i s = None")
      case True
      with c that(1) show thesis by auto
    next
      case False
      with c that(2) show thesis by auto
    qed
  next
    case (Some g)
    with that(1) show thesis by (simp add: ContributeGoal_def Let_def)
  qed
  then show ?thesis
  proof cases
    case (2 g)
    from contribute_moves [OF ok 2(1, 2)] 2(3) show ?thesis by (metis (no_types) spent_def gained_def money_action.case)
  qed (rule keep)
qed

text \<open>Dissolving credits the first account; without one there is nothing saved to credit.\<close>

lemma credit_first_views:
  assumes ok: "money_ok s" and c: "0 < c" "c \<le> user_savings s u"
  shows "user_funds (credit_first u c s) = (user_funds s)(u := user_funds s u + c) \<and> all_solvent (credit_first u c s) \<and>
    account_count (credit_first u c s) = account_count s \<and> sv_goals (credit_first u c s) = sv_goals s \<and> 0 < account_count s u"
proof -
  have sol: "all_solvent s" and acc: "get_list (sv_accounts s) u \<noteq> []" and total: "user_funds s u + user_savings s u < 2 ^ 63"
    using ok c by (auto simp: money_ok_def goals_ok_def)
  obtain a rest where a: "get_list (sv_accounts s) u = a # rest" using acc by (cases "get_list (sv_accounts s) u") auto
  have sol_u: "solvent (a # rest)" using sol a by (metis all_solvent_def)
  then have "0 \<le> ac_BalancePaise a" "0 \<le> funds rest" by (auto simp: solvent_def intro: funds_nonneg)
  with a total c have wrap: "i64 (ac_BalancePaise a + c) = ac_BalancePaise a + c"
    by (intro i64_id) (auto simp: is_i64_def user_funds_def)
  have s': "credit_first u c s = s\<lparr>sv_accounts := (sv_accounts s)(u \<mapsto> a\<lparr>ac_BalancePaise := ac_BalancePaise a + c\<rparr> # rest)\<rparr>"
    by (simp add: credit_first_def a wrap)
  have "user_funds (credit_first u c s) = (user_funds s)(u := user_funds s u + c)"
    by (rule ext) (simp add: s' user_funds_def a)
  moreover have "all_solvent (credit_first u c s)"
    using sol sol_u total c a \<open>0 \<le> ac_BalancePaise a\<close> by (simp add: s' all_solvent_def solvent_def user_funds_def)
  moreover have "account_count (credit_first u c s) = account_count s"
    by (rule ext) (simp add: s' account_count_def a)
  ultimately show ?thesis using a by (simp add: s' account_count_def)
qed

lemma dissolve_moves:
  assumes ok: "money_ok s"
  shows "\<exists>a. moves a s (snd (DissolveGoal env now u i s)) \<and> (\<forall>v. spent v a = 0 \<and> gained v a = 0)"
proof -
  have keep: ?thesis if "calm s (snd (DissolveGoal env now u i s))"
    using that calm_moves [OF ok] by (intro exI [of _ Keep]) (simp add: spent_def gained_def)
  consider "snd (DissolveGoal env now u i s) = s"
    | g where "sv_users s u \<noteq> None" "find_goal u i s = Some g" "gl_Status g \<noteq> ''dissolved''"
  proof (cases "sv_users s u = None \<or> find_goal u i s = None \<or> (\<exists>g. find_goal u i s = Some g \<and> gl_Status g = ''dissolved'')")
    case True
    with that(1) show thesis by (auto simp: DissolveGoal_def)
  next
    case False
    with that(2) show thesis by auto
  qed
  then show ?thesis
  proof cases
    case 1
    then show ?thesis using keep by simp
  next
    case (2 g)
    let ?c = "gl_SavedAmountPaise g"
    let ?v = "snd (DissolveGoal env now u i s)"
    note b = find_goal_bounds [OF ok 2(2)]
    show ?thesis
    proof (cases "0 < ?c")
      case False
      then have "?c = 0" using b by simp
      have st: "still (change_goal u i dissolved s) ?v"
        using 2 False by (auto simp: DissolveGoal_def Let_def)
      have "calm s (change_goal u i dissolved s)"
      proof (rule calm_goals [of _ s u])
        show "savings (update_first (\<lambda>g. gl_ID g = i) dissolved (get_list (sv_goals s) u)) = user_savings s u"
          using 2(2) \<open>?c = 0\<close> by (simp add: find_goal_def savings_update user_savings_def)
        show "\<forall>g \<in> set (update_first (\<lambda>g. gl_ID g = i) dissolved (get_list (sv_goals s) u)). 0 \<le> gl_SavedAmountPaise g"
          if "\<forall>g \<in> set (get_list (sv_goals s) u). 0 \<le> gl_SavedAmountPaise g"
          using that set_update_first_subset [of "\<lambda>g. gl_ID g = i" dissolved "get_list (sv_goals s) u"] by auto
      qed (simp_all add: change_goal_def)
      from calm_still [OF this st] show ?thesis by (rule keep)
    next
      case True
      let ?s = "credit_first u ?c s"
      note cr = credit_first_views [OF ok True b(2)]
      have st: "still (change_goal u i dissolved ?s) ?v"
        using 2 True by (auto simp: DissolveGoal_def Let_def)
      have find: "find_goal u i ?s = Some g" using cr 2(2) by (simp add: find_goal_def)
      have F: "user_funds ?v = (user_funds s)(u := user_funds s u + ?c)"
        using still_calm [OF st] cr by (simp add: calm_def change_goal_def)
      have G: "user_savings ?v = (user_savings s)(u := user_savings s u - ?c)"
        using still_calm [OF st] change_goal_savings [OF find, of dissolved] True cr
        by (simp add: calm_def user_savings_def [abs_def])
      have count: "account_count ?v = account_count s"
        using st cr by (simp add: still_def account_count_def [abs_def] change_goal_def)
      moreover have "sv_goals ?v = sv_goals (change_goal u i dissolved s)"
        using st cr by (simp add: still_def change_goal_def)
      moreover have "all_solvent ?v" using still_calm [OF st] cr by (simp add: calm_def change_goal_def)
      ultimately have "money_ok ?v"
        using goals_ok_change [OF ok 2(2), of dissolved ?v] True F G cr by simp
      then have "moves (Release u ?c) s ?v" using F G count True b(2) by (simp add: moves_def abs_money_def)
      then show ?thesis by (intro exI [of _ "Release u ?c"]) (simp add: spent_def gained_def)
    qed
  qed
qed

section \<open>The operations as actions\<close>

lemma exec_moves:
  assumes ok: "money_ok s"
  shows "\<exists>a. moves a s (exec env s e) \<and> (\<forall>u. gained u a = 0 \<and> (0 < spent u a \<longrightarrow> may_spend u e))"
proof -
  obtain now u op where e: "e = (now, u, op)" by (cases e)
  have keep: "\<exists>a. moves a s t \<and> (\<forall>u. gained u a = 0 \<and> (0 < spent u a \<longrightarrow> may_spend u e))" if "calm s t" for t
    using calm_moves [OF ok that] by (intro exI [of _ Keep]) (simp add: spent_def gained_def)
  show ?thesis
  proof (cases op)
    case (Pay rnd ik req)
    obtain m where "moves (Spend u m) s (snd (InitiateTransaction env rnd now u ik req s))" using pay_moves [OF ok] by blast
    then show ?thesis using e Pay by (intro exI [of _ "Spend u m"]) (simp add: spent_def gained_def)
  next
    case (Override req)
    obtain m where "moves (Spend u m) s (snd (OverrideTransaction env now u req s))" using override_moves [OF ok] by blast
    then show ?thesis using e Override by (intro exI [of _ "Spend u m"]) (simp add: spent_def gained_def)
  next
    case (Contribute i req)
    then show ?thesis using e contribute_goal_moves [OF ok, of env now u i req] by force
  next
    case (Dissolve i)
    then show ?thesis using e dissolve_moves [OF ok, of env now u i] by force
  qed (rule keep, simp add: e create_goal_calm goal_status_calm link_calm edit_calm still_calm otp_still freeze_still
    thaw_still validate_still sync_still payee_still bank_payment_still receipt_still report_still)+
qed

end
