(* ===== verification/PlatformLogin.thy ===== *)
theory PlatformLogin
  imports PlatformStepUp
begin

text \<open>
  Logins and sessions: \<open>auth_pin.go\<close> (PIN login with its lockouts, refresh, setting the PIN), the
  passkey login, \<open>AuthenticateToken\<close> and the invalidation of sessions in \<open>service.go\<close>, and the
  in-memory session store of \<open>oauth_redis_telemetry.go\<close>. The bcrypt hash and its comparison, the
  codec and HMAC of tokens, the signature check of passkeys and the parser of stored expiries are
  parameters (\<open>login_env\<close>). A refresh runs in three phases without a common lock, and they are
  three definitions. \<open>AuthenticateToken\<close> reads the clock twice (\<open>t1\<close>, \<open>t2\<close>): once to restore a
  session from the store, once to compare with the expiry.
\<close>

section \<open>Requests and errors\<close>

record 'key login_env =
  le_sv :: sv_env
  le_hash :: "string \<Rightarrow> string option"
  le_compare :: "string \<Rightarrow> string \<Rightarrow> bool"
  le_jwt :: jwt_env
  le_pk :: "'key pk_env"
  le_parse_time :: "string \<Rightarrow> time option"
  le_key_error :: string

record PinLoginRequest =
  pl_Mobile :: string
  pl_CKYC :: string
  pl_UserID :: string
  pl_PIN :: string
  pl_DeviceIDFingerprint :: string

record PinLoginResponse =
  pn_UserID :: string
  pn_AccessToken :: string
  pn_ExpiresIn :: int
  pn_Name :: string
  pn_UBT :: string
  pn_CKYC :: string

record LoginVerifyRequest =
  lv_UserID :: string
  lv_ChallengeID :: string
  lv_Signature :: string
  lv_KeyID :: string
  lv_DeviceIDFingerprint :: string

datatype login_error =
    IdentifierRequired | CKYCNotTenDigits | PINRequired | FingerprintRequired | InvalidCredentials
  | InvalidMobileOrPIN | TemporarilyLocked | RefreshUnsupported | TokenRequired | DeviceChanged
  | RefreshRefused jwt_error | UserIDRequiredForPIN | NoAuthProfile | PINAlreadySet | DeviceNotRecognised
  | PINLength | HashFailed | VerificationFailed | SignatureRequired | KeyIDRequired | BadSignatureEncoding
  | SignatureRefused | BindingNotConfigured | BindingMismatch | AuthenticationFailed | ChallengeFailed pk_error

type_synonym ('f, 'a) login = "(login_error + 'a) \<times> 'f Service"

definition with_login :: "(LoginMaps \<Rightarrow> LoginMaps) \<Rightarrow> 'f Service \<Rightarrow> 'f Service" where
  "with_login f s = s\<lparr>sv_login := f (sv_login s)\<rparr>"

definition audit ::
  "'key login_env \<Rightarrow> time \<Rightarrow> string \<Rightarrow> string \<Rightarrow> string \<Rightarrow> string \<Rightarrow> string \<Rightarrow> 'f Service \<Rightarrow> 'f Service" where
  "audit env now userID event outcome details by s =
     appendAudit (le_sv env) now userID event ''auth'' outcome details by s"

section \<open>The session store\<close>

definition store_Set :: "time \<Rightarrow> string \<Rightarrow> string \<Rightarrow> duration \<Rightarrow> LoginMaps \<Rightarrow> LoginMaps" where
  "store_Set now key value ttl lm = lm\<lparr>lg_sessionStore := (lg_sessionStore lm)(key \<mapsto> (value, now + ttl))\<rparr>"

definition store_Get :: "time \<Rightarrow> string \<Rightarrow> LoginMaps \<Rightarrow> string option" where
  "store_Get now key lm =
     (case lg_sessionStore lm key of
        None \<Rightarrow> None
      | Some (value, expires) \<Rightarrow> if now > expires then None else Some value)"

definition store_Delete :: "string \<Rightarrow> LoginMaps \<Rightarrow> LoginMaps" where
  "store_Delete key lm = lm\<lparr>lg_sessionStore := (lg_sessionStore lm)(key := None)\<rparr>"

definition store_Exists :: "time \<Rightarrow> string \<Rightarrow> LoginMaps \<Rightarrow> bool" where
  "store_Exists now key lm \<longleftrightarrow>
     (case lg_sessionStore lm key of None \<Rightarrow> False | Some (_, expires) \<Rightarrow> now < expires)"

text \<open>One tick of the clean-up loop.\<close>

definition store_cleanup :: "time \<Rightarrow> LoginMaps \<Rightarrow> LoginMaps" where
  "store_cleanup now lm =
     lm\<lparr>lg_sessionStore := keep_if (\<lambda>(_, expires). \<not> now > expires) (lg_sessionStore lm)\<rparr>"

definition session_key :: "string \<Rightarrow> string" where "session_key token = ''session:'' @ token"
definition device_key :: "string \<Rightarrow> string" where "device_key token = ''session_device:'' @ token"
definition expiry_key :: "string \<Rightarrow> string" where "expiry_key token = ''session_expiry:'' @ token"

section \<open>Opening and dropping sessions\<close>

definition session_ttl :: duration where "session_ttl = 15 * minute"

definition open_session :: "time \<Rightarrow> string \<Rightarrow> string \<Rightarrow> string \<Rightarrow> LoginMaps \<Rightarrow> LoginMaps" where
  "open_session now token userID device lm =
     store_Set now (device_key token) device session_ttl
       (store_Set now (session_key token) userID session_ttl
         (lm\<lparr>lg_sessions := AList.update token userID (lg_sessions lm),
            lg_sessionStart := (lg_sessionStart lm)(token \<mapsto> now),
            lg_sessionExpiry := (lg_sessionExpiry lm)(token \<mapsto> now + session_ttl),
            lg_sessionDevice := (lg_sessionDevice lm)(token \<mapsto> device)\<rparr>))"

definition drop_session :: "string \<Rightarrow> LoginMaps \<Rightarrow> LoginMaps" where
  "drop_session token lm =
     lm\<lparr>lg_sessions := AList.delete token (lg_sessions lm),
        lg_sessionStart := (lg_sessionStart lm)(token := None),
        lg_sessionExpiry := (lg_sessionExpiry lm)(token := None),
        lg_sessionDevice := (lg_sessionDevice lm)(token := None)\<rparr>"

text \<open>The profile fields a login and a refresh write.\<close>

definition profile_session :: "time \<Rightarrow> string \<Rightarrow> AuthProfile \<Rightarrow> AuthProfile" where
  "profile_session now token p =
     p\<lparr>ap_SessionTokenID := token, ap_SessionStartTime := Some now, ap_SessionExpiry := Some (now + session_ttl)\<rparr>"

definition profile_signed_out :: "AuthProfile \<Rightarrow> AuthProfile" where
  "profile_signed_out p =
     p\<lparr>ap_SessionTokenID := [], ap_SessionStartTime := None, ap_SessionExpiry := None,
       ap_StepUpAuthRequiredFlag := True\<rparr>"

definition change_profile :: "string \<Rightarrow> (AuthProfile \<Rightarrow> AuthProfile) \<Rightarrow> 'f Service \<Rightarrow> 'f Service" where
  "change_profile userID f s =
     (case sv_authProfiles s userID of None \<Rightarrow> s | Some p \<Rightarrow> set_profile userID (f p) s)"

text \<open>Every session of the user: its token is revoked when it is a JWT, its entries are deleted.\<close>

definition user_tokens :: "string \<Rightarrow> LoginMaps \<Rightarrow> string list" where
  "user_tokens userID lm = map fst (filter (\<lambda>(_, uid). uid = userID) (lg_sessions lm))"

definition revoke_and_drop :: "'key login_env \<Rightarrow> time \<Rightarrow> string \<Rightarrow> LoginMaps \<Rightarrow> LoginMaps" where
  "revoke_and_drop env now token lm =
     (let lm1 = (case lg_jwt lm of
                   None \<Rightarrow> lm
                 | Some m \<Rightarrow> lm\<lparr>lg_jwt := Some (RevokeTokenString (le_jwt env) now now token m)\<rparr>)
      in store_Delete (expiry_key token) (store_Delete (device_key token)
           (store_Delete (session_key token) (drop_session token lm1))))"

definition invalidateAllSessionsLocked :: "'key login_env \<Rightarrow> time \<Rightarrow> string \<Rightarrow> 'f Service \<Rightarrow> 'f Service" where
  "invalidateAllSessionsLocked env now userID s =
     change_profile userID profile_signed_out
       (with_login (\<lambda>lm. fold (revoke_and_drop env now) (user_tokens userID lm) lm) s)"

section \<open>PIN login\<close>

definition HashPIN :: "'key login_env \<Rightarrow> string \<Rightarrow> login_error + string" where
  "HashPIN env pin =
     (if length pin < 4 \<or> length pin > 6 then Inl PINLength
      else case le_hash env pin of None \<Rightarrow> Inl HashFailed | Some h \<Rightarrow> Inr h)"

definition VerifyPIN :: "'key login_env \<Rightarrow> string \<Rightarrow> string \<Rightarrow> bool" where
  "VerifyPIN env hashed pin = le_compare env hashed pin"

definition trim_login :: "PinLoginRequest \<Rightarrow> PinLoginRequest" where
  "trim_login req = \<lparr>pl_Mobile = TrimSpace (pl_Mobile req), pl_CKYC = TrimSpace (pl_CKYC req),
     pl_UserID = TrimSpace (pl_UserID req), pl_PIN = TrimSpace (pl_PIN req),
     pl_DeviceIDFingerprint = TrimSpace (pl_DeviceIDFingerprint req)\<rparr>"

definition ckyc_ok :: "string \<Rightarrow> bool" where
  "ckyc_ok n \<longleftrightarrow> length n = 10 \<and> list_all is_digit n"

definition resolve_login :: "PinLoginRequest \<Rightarrow> 'f Service \<Rightarrow> string option" where
  "resolve_login req s =
     (if pl_CKYC req \<noteq> [] then lg_ckycIndex (sv_login s) (pl_CKYC req)
      else if pl_Mobile req \<noteq> [] then lg_mobileIndex (sv_login s) (pl_Mobile req)
      else if sv_users s (pl_UserID req) = None then None else Some (pl_UserID req))"

text \<open>How long the \<open>n\<close>-th failure in a row locks the PIN.\<close>

definition lock_delay :: "int \<Rightarrow> duration option" where
  "lock_delay n =
     (if n \<ge> 15 then Some (24 * hour) else if n \<ge> 10 then Some (30 * minute)
      else if n \<ge> 5 then Some (5 * minute) else None)"

definition count_pin_failure :: "time \<Rightarrow> AuthProfile \<Rightarrow> AuthProfile" where
  "count_pin_failure now p =
     (let n = ap_FailedLoginCount p + 1 in
      p\<lparr>ap_FailedLoginCount := n,
        ap_PINLockedUntil := (case lock_delay n of None \<Rightarrow> ap_PINLockedUntil p | Some d \<Rightarrow> Some (now + d))\<rparr>)"

definition pin_locked :: "time \<Rightarrow> AuthProfile \<Rightarrow> bool" where
  "pin_locked now p \<longleftrightarrow> (case ap_PINLockedUntil p of None \<Rightarrow> False | Some until \<Rightarrow> now < until)"

definition login_token ::
  "'key login_env \<Rightarrow> string \<Rightarrow> string option \<Rightarrow> time \<Rightarrow> string \<Rightarrow> AuthProfile \<Rightarrow> string \<Rightarrow> LoginMaps \<Rightarrow> string" where
  "login_token env rnd jrnd now userID profile device lm =
     (case lg_jwt lm of
        None \<Rightarrow> ''swt_'' @ rnd
      | Some m \<Rightarrow>
          (case IssueToken (le_jwt env) jrnd now userID
                  (if ap_Role profile \<noteq> [] then ap_Role profile else ''customer'') device m of
             Inr token \<Rightarrow> token
           | Inl _ \<Rightarrow> ''swt_'' @ rnd))"

definition profile_logged_in :: "time \<Rightarrow> string \<Rightarrow> string \<Rightarrow> AuthProfile \<Rightarrow> AuthProfile" where
  "profile_logged_in now token device p =
     (profile_session now token p)
       \<lparr>ap_LastLoginTime := Some now, ap_FailedLoginCount := 0, ap_PINLockedUntil := None,
        ap_DeviceIDFingerprint := (if ap_DeviceIDFingerprint p = [] then device else ap_DeviceIDFingerprint p)\<rparr>"

definition check_pin ::
  "'key login_env \<Rightarrow> time \<Rightarrow> string \<Rightarrow> string option \<Rightarrow> PinLoginRequest \<Rightarrow> User \<Rightarrow> string \<Rightarrow> AuthProfile
     \<Rightarrow> 'f Service \<Rightarrow> ('f, PinLoginResponse) login" where
  "check_pin env now rnd jrnd req user userID profile s =
     (if pin_locked now profile then
        (Inl TemporarilyLocked, audit env now userID ''pin_login_locked'' ''failure''
           ''PIN login attempted while locked'' ''System'' s)
      else if \<not> VerifyPIN env (ap_PasswordHash profile) (pl_PIN req) then
        (Inl InvalidMobileOrPIN, audit env now userID ''pin_login_failed'' ''failure'' ''Invalid PIN'' ''System''
           (set_profile userID (count_pin_failure now profile) s))
      else
        let device = pl_DeviceIDFingerprint req;
            token = login_token env rnd jrnd now userID profile device (sv_login s)
        in (Inr \<lparr>pn_UserID = userID, pn_AccessToken = token, pn_ExpiresIn = 900, pn_Name = us_Name user,
                 pn_UBT = us_UBT user, pn_CKYC = us_CKYC user\<rparr>,
            audit env now userID ''pin_login_success'' ''success'' ''PIN login successful'' ''User''
              (set_profile userID (profile_logged_in now token device profile)
                (with_login (open_session now token userID device) s))))"

definition LoginWithPIN ::
  "'key login_env \<Rightarrow> time \<Rightarrow> string \<Rightarrow> string option \<Rightarrow> PinLoginRequest \<Rightarrow> 'f Service
     \<Rightarrow> ('f, PinLoginResponse) login" where
  "LoginWithPIN env now rnd jrnd req0 s =
     (let req = trim_login req0 in
      if pl_CKYC req = [] \<and> pl_Mobile req = [] \<and> pl_UserID req = [] then (Inl IdentifierRequired, s)
      else if pl_CKYC req \<noteq> [] \<and> \<not> ckyc_ok (pl_CKYC req) then (Inl CKYCNotTenDigits, s)
      else if pl_PIN req = [] then (Inl PINRequired, s)
      else if pl_DeviceIDFingerprint req = [] then (Inl FingerprintRequired, s)
      else case resolve_login req s of
        None \<Rightarrow> (Inl InvalidCredentials, s)
      | Some userID \<Rightarrow>
          (case sv_users s userID of
             None \<Rightarrow> (Inl InvalidMobileOrPIN, s)
           | Some user \<Rightarrow>
               (case sv_authProfiles s userID of
                  None \<Rightarrow> (Inl InvalidMobileOrPIN, s)
                | Some profile \<Rightarrow>
                    if ap_PasswordHash profile = [] then (Inl InvalidMobileOrPIN, s)
                    else check_pin env now rnd jrnd req user userID profile s)))"

section \<open>Setting the PIN\<close>

definition SetPIN :: "'key login_env \<Rightarrow> time \<Rightarrow> string \<Rightarrow> string \<Rightarrow> 'f Service \<Rightarrow> ('f, unit) login" where
  "SetPIN env now userID pin s =
     (case sv_authProfiles s userID of
        None \<Rightarrow> (Inl NoAuthProfile, s)
      | Some profile \<Rightarrow>
          (case HashPIN env pin of
             Inl e \<Rightarrow> (Inl e, s)
           | Inr h \<Rightarrow>
               (Inr (), audit env now userID ''pin_set'' ''success'' ''PIN set successfully'' ''User''
                  (invalidateAllSessionsLocked env now userID
                    (set_profile userID (profile\<lparr>ap_PasswordHash := h\<rparr>) s)))))"

definition SetInitialPIN ::
  "'key login_env \<Rightarrow> time \<Rightarrow> time \<Rightarrow> string \<Rightarrow> string \<Rightarrow> string \<Rightarrow> 'f Service \<Rightarrow> ('f, unit) login" where
  "SetInitialPIN env now1 now2 userID0 pin fingerprint0 s =
     (let userID = TrimSpace userID0; fingerprint = TrimSpace fingerprint0 in
      if userID = [] then (Inl UserIDRequiredForPIN, s)
      else case sv_authProfiles s userID of
        None \<Rightarrow> (Inl NoAuthProfile, s)
      | Some profile \<Rightarrow>
          let registered = TrimSpace (ap_DeviceIDFingerprint profile) in
          if ap_PasswordHash profile \<noteq> [] then (Inl PINAlreadySet, s)
          else if registered \<noteq> [] \<and> ToLower registered \<noteq> ToLower fingerprint then
            (Inl DeviceNotRecognised, audit env now1 userID ''pin_set_device_mismatch'' ''failure''
               ''initial PIN setup attempted from an unregistered device'' ''System'' s)
          else SetPIN env now2 userID pin s)"

section \<open>Authenticating a token\<close>

definition restored_expiry :: "'key login_env \<Rightarrow> time \<Rightarrow> string \<Rightarrow> LoginMaps \<Rightarrow> time" where
  "restored_expiry env t1 token lm =
     (case store_Get t1 (expiry_key token) lm of
        None \<Rightarrow> t1
      | Some str \<Rightarrow>
          if str = [] then t1 else (case le_parse_time env str of Some t \<Rightarrow> t | None \<Rightarrow> t1))"

definition find_session :: "'key login_env \<Rightarrow> time \<Rightarrow> string \<Rightarrow> LoginMaps \<Rightarrow> string option \<times> LoginMaps" where
  "find_session env t1 token lm =
     (case map_of (lg_sessions lm) token of
        Some uid \<Rightarrow> (Some uid, lm)
      | None \<Rightarrow>
          (case store_Get t1 (session_key token) lm of
             None \<Rightarrow> (None, lm)
           | Some uid \<Rightarrow>
               if uid = [] then (None, lm)
               else (Some uid, lm\<lparr>lg_sessions := AList.update token uid (lg_sessions lm),
                       lg_sessionStart := (lg_sessionStart lm)(token \<mapsto> t1),
                       lg_sessionExpiry := (lg_sessionExpiry lm)(token \<mapsto> restored_expiry env t1 token lm)\<rparr>)))"

definition device_matches :: "string \<Rightarrow> string \<Rightarrow> LoginMaps \<Rightarrow> bool" where
  "device_matches token device lm \<longleftrightarrow>
     (case lg_sessionDevice lm token of
        None \<Rightarrow> True
      | Some bound \<Rightarrow> bound = [] \<or> TrimSpace device \<noteq> [] \<and> device = bound)"

definition AuthenticateToken ::
  "'key login_env \<Rightarrow> time \<Rightarrow> time \<Rightarrow> string \<Rightarrow> string \<Rightarrow> 'f Service \<Rightarrow> string option \<times> 'f Service" where
  "AuthenticateToken env t1 t2 token device s =
     (case find_session env t1 token (sv_login s) of
        (None, lm) \<Rightarrow> (None, s\<lparr>sv_login := lm\<rparr>)
      | (Some uid, lm) \<Rightarrow>
          let s1 = s\<lparr>sv_login := lm\<rparr> in
          (case lg_sessionExpiry lm token of
             None \<Rightarrow> (None, s1)
           | Some expiry \<Rightarrow>
               if t2 > expiry then
                 (None, change_profile uid
                    (\<lambda>p. if ap_SessionTokenID p = token then profile_signed_out p else p)
                    (with_login (drop_session token) s1))
               else if \<not> device_matches token device lm then (None, s1)
               else (Some uid, s1)))"

definition GetRole :: "string \<Rightarrow> 'f Service \<Rightarrow> string" where
  "GetRole userID s =
     (case sv_authProfiles s userID of
        None \<Rightarrow> ''customer''
      | Some p \<Rightarrow> if ap_Role p \<noteq> [] then ap_Role p else ''customer'')"

section \<open>Refreshing a token\<close>

text \<open>First phase, under the read lock: the device recorded for the session.\<close>

definition refresh_check :: "string \<Rightarrow> string \<Rightarrow> 'f Service \<Rightarrow> login_error + string \<times> string" where
  "refresh_check oldToken0 deviceFP s =
     (let oldToken = TrimSpace oldToken0; presented = TrimSpace deviceFP in
      if lg_jwt (sv_login s) = None then Inl RefreshUnsupported
      else if oldToken = [] then Inl TokenRequired
      else case lg_sessionDevice (sv_login s) oldToken of
        None \<Rightarrow> Inr (oldToken, presented)
      | Some stored \<Rightarrow>
          if stored \<noteq> [] \<and> presented \<noteq> stored then Inl DeviceChanged else Inr (oldToken, presented))"

text \<open>Second phase, in the token manager: the rotation and the claims of the new token.\<close>

definition refresh_mint ::
  "'key login_env \<Rightarrow> (nat \<Rightarrow> time) \<Rightarrow> string option \<Rightarrow> string \<Rightarrow> string \<Rightarrow> 'f Service
     \<Rightarrow> ('f, string \<times> Claims) login" where
  "refresh_mint env clk jrnd oldToken device s =
     (case lg_jwt (sv_login s) of
        None \<Rightarrow> (Inl RefreshUnsupported, s)
      | Some m \<Rightarrow>
          (case RefreshToken (le_jwt env) clk jrnd oldToken device m of
             (r, m') \<Rightarrow>
               let s1 = with_login (\<lambda>lm. lm\<lparr>lg_jwt := Some m'\<rparr>) s in
               (case r of
                  Inl e \<Rightarrow> (Inl (RefreshRefused e), s1)
                | Inr newToken \<Rightarrow>
                    (case VerifyToken (le_jwt env) (clk 4) newToken device m' of
                       Inl e \<Rightarrow> (Inl (RefreshRefused e), s1)
                     | Inr claims \<Rightarrow> (Inr (newToken, claims), s1)))))"

text \<open>Third phase, under the write lock: the old session goes, the new one is registered.\<close>

definition refresh_register :: "time \<Rightarrow> string \<Rightarrow> string \<Rightarrow> Claims \<Rightarrow> 'f Service \<Rightarrow> PinLoginResponse \<times> 'f Service" where
  "refresh_register now oldToken newToken claims s =
     (let s1 = change_profile (cl_Sub claims) (profile_session now newToken)
                 (with_login (\<lambda>lm. open_session now newToken (cl_Sub claims) (cl_DeviceFP claims)
                                     (drop_session oldToken lm)) s)
      in (\<lparr>pn_UserID = cl_Sub claims, pn_AccessToken = newToken, pn_ExpiresIn = 900,
           pn_Name = (case sv_users s (cl_Sub claims) of None \<Rightarrow> [] | Some u \<Rightarrow> us_Name u),
           pn_UBT = (case sv_users s (cl_Sub claims) of None \<Rightarrow> [] | Some u \<Rightarrow> us_UBT u), pn_CKYC = []\<rparr>, s1))"

definition sv_RefreshToken ::
  "'key login_env \<Rightarrow> (nat \<Rightarrow> time) \<Rightarrow> string option \<Rightarrow> string \<Rightarrow> string \<Rightarrow> 'f Service
     \<Rightarrow> ('f, PinLoginResponse) login" where
  "sv_RefreshToken env clk jrnd oldToken0 deviceFP s =
     (case refresh_check oldToken0 deviceFP s of
        Inl e \<Rightarrow> (Inl e, s)
      | Inr (oldToken, device) \<Rightarrow>
          (case refresh_mint env clk jrnd oldToken device s of
             (Inl e, s1) \<Rightarrow> (Inl e, s1)
           | (Inr (newToken, claims), s1) \<Rightarrow>
               (case refresh_register (clk 5) oldToken newToken claims s1 of (r, s2) \<Rightarrow> (Inr r, s2))))"

section \<open>Passkey login\<close>

text \<open>\<open>base64.StdEncoding.DecodeString\<close>: line breaks are skipped, the padding is required.\<close>

definition std_alphabet :: string where
  "std_alphabet = ''ABCDEFGHIJKLMNOPQRSTUVWXYZabcdefghijklmnopqrstuvwxyz0123456789+/''"

definition strip_padding :: "string \<Rightarrow> string" where
  "strip_padding t =
     (let r = rev t in
      if take 2 r = ''=='' then rev (drop 2 r) else if take 1 r = ''='' then rev (drop 1 r) else t)"

definition StdDecodeString :: "string \<Rightarrow> string option" where
  "StdDecodeString s =
     (let t = filter (\<lambda>c. c \<noteq> CHR 0x0A \<and> c \<noteq> CHR 0x0D) s in
      if length t mod 4 \<noteq> 0 then None
      else let vals = map (\<lambda>c. index_of c std_alphabet) (strip_padding t) in
        if None \<in> set vals then None else decode_quads (map the vals))"

definition pk_error_text :: "'key login_env \<Rightarrow> pk_error \<Rightarrow> string" where
  "pk_error_text env e = (case e of
      ChallengeNotFound \<Rightarrow> ''passkey challenge not found''
    | ChallengeExpired \<Rightarrow> ''passkey challenge has expired''
    | ChallengeUsed \<Rightarrow> ''passkey challenge already used''
    | InvalidSignature \<Rightarrow> ''invalid passkey signature''
    | KeyIDNotFound \<Rightarrow> ''passkey key ID not found for user''
    | RegistrationExists \<Rightarrow> ''passkey registration already exists for this key ID''
    | ChallengeActionMismatch \<Rightarrow> ''passkey challenge was issued for a different action''
    | BadPublicKey \<Rightarrow> le_key_error env
    | PkRandomFailed \<Rightarrow> [])"

definition sv_CreateChallenge ::
  "'key login_env \<Rightarrow> string option \<Rightarrow> string option \<Rightarrow> string \<Rightarrow> time \<Rightarrow> string \<Rightarrow> 'f Service
     \<Rightarrow> ('f, PasskeyChallenge) login" where
  "sv_CreateChallenge env rndBytes rndID nonce now userID s =
     (case sv_users s userID of
        None \<Rightarrow> (Inl AuthenticationFailed, s)
      | Some user \<Rightarrow>
          if \<not> us_BiometricEnabled user then (Inl AuthenticationFailed, s)
          else (case CreateChallenge rndBytes rndID now (us_ID user) (lg_passkey (sv_login s)) of
              (Inl e, pm) \<Rightarrow> (Inl (ChallengeFailed e), with_login (\<lambda>lm. lm\<lparr>lg_passkey := pm\<rparr>) s)
            | (Inr ch, pm) \<Rightarrow>
                let st = \<lparr>cs_ChallengeID = pc_ChallengeID ch, cs_NonceID = ''nonce_'' @ nonce,
                          cs_Status = ''created'', cs_CreatedAt = now, cs_VerifiedAt = 0\<rparr>
                in (Inr ch, change_profile (us_ID user)
                      (\<lambda>p. p\<lparr>ap_ChallengeNonceID := cs_NonceID st, ap_ChallengeStatus := ''created''\<rparr>)
                      (with_login (\<lambda>lm. lm\<lparr>lg_passkey := pm,
                          lg_challenges := (lg_challenges lm)(us_ID user \<mapsto> pc_ChallengeID ch),
                          lg_challengeState := (lg_challengeState lm)(us_ID user \<mapsto> st)\<rparr>) s))))"

definition failed_signature :: "'key login_env \<Rightarrow> time \<Rightarrow> string \<Rightarrow> string \<Rightarrow> 'f Service \<Rightarrow> 'f Service" where
  "failed_signature env now userID reason s =
     (let s1 = audit env now userID ''login_failed'' ''failure''
                 (''Biometric signature verification failed: '' @ reason) ''System'' s
      in case sv_authProfiles s1 userID of
           None \<Rightarrow> s1
         | Some p \<Rightarrow>
             let n = ap_FailedLoginCount p + 1;
                 s2 = set_profile userID (p\<lparr>ap_FailedLoginCount := n\<rparr>) s1
             in if n \<ge> 10
                then s2\<lparr>sv_threatResponse :=
                       snd (RespondToThreat now ThreatCredentialStuffing userID None (sv_threatResponse s2))\<rparr>
                else s2)"

text \<open>The device recorded at registration must be presented.\<close>

definition binding_error :: "string \<Rightarrow> string \<Rightarrow> 'f Service \<Rightarrow> (login_error \<times> string) option" where
  "binding_error userID supplied s =
     (if supplied = [] then Some (FingerprintRequired, ''Empty device fingerprint supplied'')
      else case sv_authProfiles s userID of
        None \<Rightarrow> None
      | Some p \<Rightarrow>
          let expected = TrimSpace (ap_DeviceIDFingerprint p) in
          if expected = [] then Some (BindingNotConfigured, ''Device binding not configured'')
          else if expected \<noteq> supplied then Some (BindingMismatch, ''Device binding mismatch detected'')
          else None)"

definition accept_passkey :: "'key login_env \<Rightarrow> time \<Rightarrow> string \<Rightarrow> string \<Rightarrow> string \<Rightarrow> 'f Service \<Rightarrow> 'f Service" where
  "accept_passkey env now token userID device s =
     audit env now userID ''login_success'' ''success''
       ''Biometric login verified with ECDSA device-bound signature'' ''User''
       (change_profile userID
         (\<lambda>p. (profile_session now token p)\<lparr>ap_LastLoginTime := Some now, ap_ChallengeStatus := ''verified'',
                 ap_ChallengeNonceID := [], ap_FailedLoginCount := 0\<rparr>)
         (with_login (\<lambda>lm. (open_session now token userID device lm)
             \<lparr>lg_challenges := (lg_challenges lm)(userID := None),
              lg_challengeState := (case lg_challengeState lm userID of
                  None \<Rightarrow> lg_challengeState lm
                | Some st \<Rightarrow> (lg_challengeState lm)
                    (userID \<mapsto> st\<lparr>cs_Status := ''verified'', cs_VerifiedAt := now\<rparr>))\<rparr>) s))"

definition VerifyLogin ::
  "'key login_env \<Rightarrow> time \<Rightarrow> string \<Rightarrow> LoginVerifyRequest \<Rightarrow> 'f Service \<Rightarrow> ('f, string) login" where
  "VerifyLogin env now rnd req s =
     (case sv_users s (lv_UserID req) of
        None \<Rightarrow> (Inl VerificationFailed, s)
      | Some user \<Rightarrow>
          let u = us_ID user; cid = lv_ChallengeID req in
          if lg_challenges (sv_login s) u \<noteq> Some cid then (Inl VerificationFailed, s)
          else if TrimSpace (lv_Signature req) = [] then (Inl SignatureRequired, s)
          else if TrimSpace (lv_KeyID req) = [] then (Inl KeyIDRequired, s)
          else (case StdDecodeString (lv_Signature req) of
            None \<Rightarrow> (Inl BadSignatureEncoding, s)
          | Some signature \<Rightarrow>
              (case VerifyChallenge (le_pk env) now now u cid signature (lv_KeyID req) (lg_passkey (sv_login s)) of
                 (r, pm) \<Rightarrow>
                   let s1 = with_login (\<lambda>lm. lm\<lparr>lg_passkey := pm\<rparr>) s;
                       supplied = TrimSpace (lv_DeviceIDFingerprint req) in
                   (case r of
                      Inl e \<Rightarrow> (Inl SignatureRefused, failed_signature env now u (pk_error_text env e) s1)
                    | Inr False \<Rightarrow> (Inl SignatureRefused, failed_signature env now u ''<nil>'' s1)
                    | Inr True \<Rightarrow>
                        (case binding_error u supplied s1 of
                           Some (e, details) \<Rightarrow>
                             (Inl e, audit env now u ''login_failed'' ''failure'' details ''System'' s1)
                         | None \<Rightarrow>
                             let token = ''swt_'' @ rnd in
                             (Inr token, accept_passkey env now token u supplied s1))))))"

end
