(* ===== verification/DataProtection.thy ===== *)
theory DataProtection
  imports PlatformLogin
begin

text \<open>
  \<open>domain/platform/data_protection.go\<close>: encryption of stored fields, masking, and the vault of
  account tokens. AES-GCM is a parameter (\<open>seal\<close>, \<open>unseal\<close>, both under the process key); the
  base64 codec around it is modelled. The vault is two maps behind a lock that is released between
  its look-up and its commit, so these are two definitions.
\<close>

section \<open>Padded base64\<close>

definition std_char :: "nat \<Rightarrow> char" where
  "std_char n = std_alphabet ! n"

fun sextets_of :: "string \<Rightarrow> nat list" where
  "sextets_of [] = []"
| "sextets_of [a] = [byte a div 4, byte a mod 4 * 16]"
| "sextets_of [a, b] = [byte a div 4, byte a mod 4 * 16 + byte b div 16, byte b mod 16 * 4]"
| "sextets_of (a # b # c # s) =
     [byte a div 4, byte a mod 4 * 16 + byte b div 16, byte b mod 16 * 4 + byte c div 64, byte c mod 64]
       @ sextets_of s"

definition StdEncodeToString :: "string \<Rightarrow> string" where
  "StdEncodeToString s =
     (let t = map std_char (sextets_of s) in t @ replicate ((4 - length t mod 4) mod 4) (CHR ''=''))"

lemma std_alphabet_props:
  "length std_alphabet = 64" "distinct std_alphabet"
  "\<forall>c \<in> set std_alphabet. c \<noteq> CHR 0x0A \<and> c \<noteq> CHR 0x0D \<and> c \<noteq> CHR ''=''"
  by (simp_all add: std_alphabet_def)

lemma sextets_of_bound: "n \<in> set (sextets_of s) \<Longrightarrow> n < 64"
  by (induction s rule: sextets_of.induct) (auto simp: sextets)

lemma sextets_of_length: "length (sextets_of s) mod 4 \<noteq> 1"
  by (induction s rule: sextets_of.induct) simp_all

lemma decode_sextets: "decode_quads (sextets_of s) = Some s"
  by (induction s rule: sextets_of.induct) (auto simp: small_quotients)

lemma std_chars:
  assumes "\<forall>n \<in> set ns. n < 64"
  shows "\<forall>c \<in> set (map std_char ns). c \<noteq> CHR 0x0A \<and> c \<noteq> CHR 0x0D \<and> c \<noteq> CHR ''=''"
    and "map (\<lambda>c. index_of c std_alphabet) (map std_char ns) = map Some ns"
proof -
  have "std_char n \<in> set std_alphabet" if "n < 64" for n using that by (simp add: std_char_def std_alphabet_props)
  then show "\<forall>c \<in> set (map std_char ns). c \<noteq> CHR 0x0A \<and> c \<noteq> CHR 0x0D \<and> c \<noteq> CHR ''=''"
    using assms std_alphabet_props(3) by fastforce
  show "map (\<lambda>c. index_of c std_alphabet) (map std_char ns) = map Some ns"
    using assms by (auto simp: std_char_def index_of_nth std_alphabet_props)
qed

lemma strip_padding_replicate:
  assumes "CHR ''='' \<notin> set t" and "k \<le> 2"
  shows "strip_padding (t @ replicate k (CHR ''='')) = t"
proof -
  have hd: "c \<noteq> CHR ''=''" if "rev t = c # r" for c r
    using assms(1) that by (metis list.set_intros(1) set_rev)
  have one: "take 1 (rev t) \<noteq> ''=''" and two: "take 2 (rev t) \<noteq> ''==''"
    by (cases "rev t"; simp add: hd numeral_2_eq_2)+
  consider "k = 0" | "k = 1" | "k = 2" using assms(2) by linarith
  then show ?thesis
  proof cases
    case 2
    have "take 2 (CHR ''='' # rev t) \<noteq> ''==''" using one by (simp add: numeral_2_eq_2)
    then show ?thesis by (simp add: strip_padding_def Let_def 2)
  qed (use one two in \<open>simp_all add: strip_padding_def Let_def numeral_2_eq_2\<close>)
qed

lemma padding:
  fixes n :: nat
  assumes "n mod 4 \<noteq> 1"
  shows "(4 - n mod 4) mod 4 \<le> 2" and "(n + (4 - n mod 4) mod 4) mod 4 = 0"
proof -
  define q r where "q = n div 4" and "r = n mod 4"
  then have n: "n = 4 * q + r" and r: "n mod 4 = r" "r < 4" by simp_all
  have "r \<in> {0, 2, 3}" using assms r by auto
  then show "(4 - n mod 4) mod 4 \<le> 2" and "(n + (4 - n mod 4) mod 4) mod 4 = 0"
    unfolding r(1) by (elim insertE emptyE; simp add: n)+
qed

lemma StdDecode_StdEncode: "StdDecodeString (StdEncodeToString s) = Some s"
proof -
  let ?t = "map std_char (sextets_of s)" and ?k = "(4 - length (sextets_of s) mod 4) mod 4"
  have t: "c \<noteq> CHR 0x0A \<and> c \<noteq> CHR 0x0D \<and> c \<noteq> CHR ''=''" if "c \<in> set ?t" for c
    using that std_chars(1) sextets_of_bound by blast
  have enc: "StdEncodeToString s = ?t @ replicate ?k (CHR ''='')"
    by (simp add: StdEncodeToString_def Let_def)
  have filt: "filter (\<lambda>c. c \<noteq> CHR 0x0A \<and> c \<noteq> CHR 0x0D) (StdEncodeToString s) = StdEncodeToString s"
  proof (intro filter_True ballI)
    fix c assume "c \<in> set (StdEncodeToString s)"
    then have "c \<in> set ?t \<or> c \<in> set (replicate ?k (CHR ''=''))" unfolding enc set_append by (rule UnE; simp)
    then show "c \<noteq> CHR 0x0A \<and> c \<noteq> CHR 0x0D"
    proof
      assume "c \<in> set ?t"
      from t [OF this] show ?thesis by (elim conjE, intro conjI)
    next
      assume "c \<in> set (replicate ?k (CHR ''=''))"
      then have "c = CHR ''=''" by (simp split: if_splits)
      then show ?thesis by simp
    qed
  qed
  have eq: "CHR ''='' \<notin> set ?t"
  proof
    assume "CHR ''='' \<in> set ?t"
    from t [OF this] show False by simp
  qed
  have k: "?k \<le> 2" by (rule padding(1) [OF sextets_of_length])
  have strip: "strip_padding (StdEncodeToString s) = ?t"
    unfolding enc by (rule strip_padding_replicate [OF eq k])
  have len: "length (StdEncodeToString s) mod 4 = 0" 
    unfolding enc using padding(2) [OF sextets_of_length, of s] by simp
  have vals: "map (\<lambda>c. index_of c std_alphabet) ?t = map Some (sextets_of s)"
    using sextets_of_bound by (intro std_chars(2)) blast
  show ?thesis unfolding StdDecodeString_def Let_def filt strip vals using len decode_sextets [of s]
    by (simp add: image_iff comp_def)
qed

section \<open>Encrypted fields\<close>

definition nonceSize :: nat where "nonceSize = 12"

definition EncryptField :: "(string \<Rightarrow> string \<Rightarrow> string) \<Rightarrow> string option \<Rightarrow> string \<Rightarrow> string" where
  "EncryptField seal nonce plaintext =
     (if plaintext = [] then []
      else case nonce of None \<Rightarrow> [] | Some n \<Rightarrow> StdEncodeToString (n @ seal n plaintext))"

definition DecryptField :: "(string \<Rightarrow> string \<Rightarrow> string option) \<Rightarrow> string \<Rightarrow> string" where
  "DecryptField unseal ciphertextB64 =
     (if ciphertextB64 = [] then []
      else case StdDecodeString ciphertextB64 of
        None \<Rightarrow> []
      | Some ciphertext \<Rightarrow>
          if length ciphertext < nonceSize then []
          else case unseal (take nonceSize ciphertext) (drop nonceSize ciphertext) of None \<Rightarrow> [] | Some p \<Rightarrow> p)"

text \<open>What AES-GCM promises: opening a sealed text under its nonce gives the text back.\<close>

definition cipher_ok :: "(string \<Rightarrow> string \<Rightarrow> string) \<Rightarrow> (string \<Rightarrow> string \<Rightarrow> string option) \<Rightarrow> bool" where
  "cipher_ok seal unseal \<longleftrightarrow> (\<forall>n p. length n = nonceSize \<longrightarrow> unseal n (seal n p) = Some p)"

lemma StdEncode_Nil_iff [simp]: "StdEncodeToString s = [] \<longleftrightarrow> s = []"
  by (cases s rule: sextets_of.cases) (simp_all add: StdEncodeToString_def)

lemma DecryptField_EncryptField:
  "cipher_ok seal unseal \<Longrightarrow> length n = nonceSize \<Longrightarrow> DecryptField unseal (EncryptField seal (Some n) p) = p"
  by (auto simp: DecryptField_def EncryptField_def StdDecode_StdEncode cipher_ok_def nonceSize_def)

section \<open>Masking\<close>

definition last_chars :: "nat \<Rightarrow> string \<Rightarrow> string" where
  "last_chars k s = drop (length s - k) s"

definition MaskPhone :: "string \<Rightarrow> string" where
  "MaskPhone phone =
     (if length phone < 4 then ''XXXX''
      else if take 1 phone = ''+'' \<and> length phone \<ge> 7 then take 3 phone @ ''XXXXXX'' @ last_chars 4 phone
      else ''XXXXXX'' @ last_chars 4 phone)"

definition MaskEmail :: "string \<Rightarrow> string" where
  "MaskEmail email =
     (if email = [] then []
      else if CHR ''@'' \<notin> set email then replicate (length email) (CHR ''*'')
      else
        let local = takeWhile (\<lambda>c. c \<noteq> CHR ''@'') email; domain = drop (length local + 1) email
        in if length local \<le> 1 then local @ ''***@'' @ domain
           else if length local \<le> 3 then take 1 local @ ''***@'' @ domain
           else take 2 local @ ''***@'' @ domain)"

definition MaskPAN :: "string \<Rightarrow> string" where
  "MaskPAN pan =
     (if length pan < 5 then replicate (length pan) (CHR ''X'')
      else replicate (length pan - 5) (CHR ''X'') @ last_chars 5 pan)"

definition MaskAadhaar :: "string \<Rightarrow> string" where
  "MaskAadhaar ref = (if length ref < 4 then ''XXXX'' else ''XXXX-XXXX-'' @ last_chars 4 ref)"

definition SanitizeForResponse :: "string \<Rightarrow> string \<Rightarrow> bool \<Rightarrow> string" where
  "SanitizeForResponse field viewerRole isOwner =
     (if isOwner then field
      else if viewerRole \<in> {''admin'', ''auditor'', ''compliance_officer''} then field
      else replicate (length field) (CHR ''*''))"

section \<open>The token vault\<close>

definition tokenize_lookup :: "string \<Rightarrow> PersonalMaps \<Rightarrow> string option" where
  "tokenize_lookup plain v = pe_reverseTokenMap v plain"

definition tokenize_commit :: "string \<Rightarrow> string \<Rightarrow> PersonalMaps \<Rightarrow> string \<times> PersonalMaps" where
  "tokenize_commit rnd plain v =
     (let token = ''acct_tok_'' @ rnd in
      case pe_reverseTokenMap v plain of
        Some existing \<Rightarrow> (existing, v)
      | None \<Rightarrow> (token, v\<lparr>pe_tokenMap := (pe_tokenMap v)(token \<mapsto> plain),
                         pe_reverseTokenMap := (pe_reverseTokenMap v)(plain \<mapsto> token)\<rparr>))"

definition TokenizeAccount :: "string \<Rightarrow> string \<Rightarrow> PersonalMaps \<Rightarrow> string \<times> PersonalMaps" where
  "TokenizeAccount rnd plain v =
     (case tokenize_lookup plain v of Some token \<Rightarrow> (token, v) | None \<Rightarrow> tokenize_commit rnd plain v)"

definition ResolveToken :: "string \<Rightarrow> PersonalMaps \<Rightarrow> string option" where
  "ResolveToken token v = pe_tokenMap v token"

definition vault_ok :: "PersonalMaps \<Rightarrow> bool" where
  "vault_ok v \<longleftrightarrow> (\<forall>plain token. pe_reverseTokenMap v plain = Some token \<longleftrightarrow> pe_tokenMap v token = Some plain)"

text \<open>
  Goroutines between the two locks: each commit of a run comes with its own random suffix, and any number
  of others may have run since its look-up.
\<close>

fun commits :: "(string \<times> string) list \<Rightarrow> PersonalMaps \<Rightarrow> PersonalMaps" where
  "commits [] v = v"
| "commits ((rnd, plain) # cs) v = commits cs (snd (tokenize_commit rnd plain v))"

text \<open>No suffix is drawn that is the suffix of a token in use.\<close>

fun draws_fresh :: "(string \<times> string) list \<Rightarrow> PersonalMaps \<Rightarrow> bool" where
  "draws_fresh [] v \<longleftrightarrow> True"
| "draws_fresh ((rnd, plain) # cs) v \<longleftrightarrow>
     pe_tokenMap v (''acct_tok_'' @ rnd) = None \<and> draws_fresh cs (snd (tokenize_commit rnd plain v))"

lemma tokenize_commit_ok:
  assumes "vault_ok v" and "pe_tokenMap v (''acct_tok_'' @ rnd) = None"
  shows "vault_ok (snd (tokenize_commit rnd plain v))"
    and "ResolveToken (fst (tokenize_commit rnd plain v)) (snd (tokenize_commit rnd plain v)) = Some plain"
proof -
  have "pe_reverseTokenMap v plain = None \<Longrightarrow> pe_tokenMap v token \<noteq> Some plain" for token
    using assms(1) by (metis option.distinct(1) vault_ok_def)
  moreover have "pe_reverseTokenMap v other \<noteq> Some (''acct_tok_'' @ rnd)" for other
    using assms by (metis option.distinct(1) vault_ok_def)
  ultimately show "vault_ok (snd (tokenize_commit rnd plain v))"
  proof (cases "pe_reverseTokenMap v plain")
    case None
    with assms \<open>\<And>token. _ \<Longrightarrow> pe_tokenMap v token \<noteq> Some plain\<close> \<open>\<And>other. pe_reverseTokenMap v other \<noteq> _\<close>
    show ?thesis by (simp add: tokenize_commit_def vault_ok_def Let_def)
  qed (use assms in \<open>simp add: tokenize_commit_def Let_def\<close>)
  show "ResolveToken (fst (tokenize_commit rnd plain v)) (snd (tokenize_commit rnd plain v)) = Some plain"
    using assms by (auto simp: tokenize_commit_def vault_ok_def ResolveToken_def Let_def split: option.splits)
qed

lemma commit_keeps:
  assumes "pe_tokenMap v (''acct_tok_'' @ rnd) = None" and "pe_tokenMap v token = Some plain"
  shows "pe_tokenMap (snd (tokenize_commit rnd other v)) token = Some plain"
  using assms by (auto simp: tokenize_commit_def Let_def split: option.splits)

lemma commits_ok:
  "vault_ok v \<Longrightarrow> draws_fresh cs v \<Longrightarrow>
   vault_ok (commits cs v) \<and> (\<forall>token plain. pe_tokenMap v token = Some plain \<longrightarrow> pe_tokenMap (commits cs v) token = Some plain)"
proof (induction cs arbitrary: v)
  case (Cons c cs)
  obtain rnd plain where c: "c = (rnd, plain)" by fastforce
  have fresh: "pe_tokenMap v (''acct_tok_'' @ rnd) = None" using Cons.prems(2) by (simp add: c)
  then show ?case
    using Cons.IH [OF tokenize_commit_ok(1) [OF Cons.prems(1) fresh]] Cons.prems(2) commit_keeps [OF fresh]
    by (simp add: c)
qed simp

text \<open>
  C29: the vault of account tokens loses and confuses nothing, also when calls interleave between the two locks: the
  token a call answers resolves to its account number after any further calls, every later call for the number answers
  the same token, and no other number gets it.
\<close>
theorem account_token_resolves:
  assumes "vault_ok v" and "draws_fresh (before @ (rnd, plain) # after) v"
  shows "let v1 = commits before v; token = fst (tokenize_commit rnd plain v1);
             v2 = commits after (snd (tokenize_commit rnd plain v1)) in
    ResolveToken token v2 = Some plain \<and>
    (\<forall>rnd' other. fst (TokenizeAccount rnd' plain v2) = token \<and>
       (tokenize_lookup other v2 = Some token \<longrightarrow> other = plain))"
proof -
  have split: "draws_fresh (xs @ ys) w \<longleftrightarrow> draws_fresh xs w \<and> draws_fresh ys (commits xs w)" for xs ys w
    by (induction xs w rule: draws_fresh.induct) auto
  let ?v1 = "commits before v" and ?c = "tokenize_commit rnd plain (commits before v)"
  have v1: "vault_ok ?v1" "pe_tokenMap ?v1 (''acct_tok_'' @ rnd) = None" "draws_fresh after (snd ?c)"
    using assms commits_ok [of v before] by (simp_all add: split)
  note ok = tokenize_commit_ok [OF v1(1,2)]
  have v2: "vault_ok (commits after (snd ?c))" "ResolveToken (fst ?c) (commits after (snd ?c)) = Some plain"
    using commits_ok [OF ok(1) v1(3)] ok(2) by (auto simp: ResolveToken_def)
  then have l: "tokenize_lookup plain (commits after (snd ?c)) = Some (fst ?c)"
    by (simp add: vault_ok_def ResolveToken_def tokenize_lookup_def)
  have "other = plain" if "tokenize_lookup other (commits after (snd ?c)) = Some (fst ?c)" for other
    using that v2 by (simp add: vault_ok_def ResolveToken_def tokenize_lookup_def)
  then show ?thesis using v2(2) by (simp add: Let_def TokenizeAccount_def l)
qed

theorem account_token_resolves_witness:
  "ResolveToken ''acct_tok_a'' (commits [(''b'', ''222'')] (snd (tokenize_commit ''a'' ''111'' fresh_personal)))
     = Some ''111''"
proof -
  have "vault_ok fresh_personal" by (simp add: vault_ok_def fresh_personal_def)
  moreover have "draws_fresh ([] @ (''a'', ''111'') # [(''b'', ''222'')]) fresh_personal"
    by (simp add: fresh_personal_def tokenize_commit_def Let_def)
  ultimately show ?thesis
    using account_token_resolves [of fresh_personal "[]" "''a''" "''111''" "[(''b'', ''222'')]"]
    by (simp add: Let_def tokenize_commit_def fresh_personal_def)
qed

end
