(* ===== verification/PlatformOnboarding.thy ===== *)
theory PlatformOnboarding
  imports DataProtection
begin

text \<open>
  Becoming a customer: registration, e-KYC, the registration of a biometric key, the authentication
  and KYC profiles and the small personal records (consents, contacts, assets) of
  \<open>domain/platform/service.go\<close>, with the checks of \<open>domain/security/ekyc.go\<close>. The outside
  SIM and KYC providers, the cipher, random strings and the formatted due dates are parameters.
  Writes to the optional database are left out.
\<close>

section \<open>Environment, requests and errors\<close>

text \<open>
  \<open>oe_sim\<close>: the outside SIM check of a mobile number (\<open>None\<close> when the provider fails);
  \<open>oe_kin\<close>: the outside KIN generator; \<open>oe_due t k\<close>: the date \<open>k\<close> months after \<open>t\<close> in the local zone.
\<close>

record 'key onb_env =
  oe_login :: "'key login_env"
  oe_hmac :: "string \<Rightarrow> string \<Rightarrow> string"
  oe_getenv :: "string \<Rightarrow> string"
  oe_seal :: "string \<Rightarrow> string \<Rightarrow> string"
  oe_unseal :: "string \<Rightarrow> string \<Rightarrow> string option"
  oe_sim :: "(string \<Rightarrow> bool option) option"
  oe_kin :: "(string \<Rightarrow> string \<Rightarrow> string option) option"
  oe_due :: "time \<Rightarrow> int \<Rightarrow> string"

abbreviation oe_sv :: "'key onb_env \<Rightarrow> sv_env" where "oe_sv env \<equiv> le_sv (oe_login env)"

text \<open>The fresh random strings of one registration.\<close>

record reg_random =
  rr_uuid :: string
  rr_ubt :: string
  rr_simID :: "string option"
  rr_vnn :: "string option"
  rr_bindUBT :: "string option"
  rr_nonce1 :: "string option"
  rr_nonce2 :: "string option"
  rr_token :: string
  rr_acctToken :: string

record RegisterRequest =
  rg_Name :: string
  rg_Mobile :: string
  rg_Email :: string
  rg_DeviceIDFingerprint :: string
  rg_DeviceType :: string
  rg_AppVersion :: string
  rg_IPAddress :: string
  rg_PIN :: string

record EKYCRequest =
  ek_UserID :: string
  ek_PanLast4 :: string
  ek_AadhaarLast4 :: string

record BiometricSetupRequest =
  bs_UserID :: string
  bs_PublicKeyB64 :: string
  bs_KeyID :: string
  bs_DeviceName :: string

record UpdateAuthProfileRequest =
  ua_FullName :: string
  ua_Email :: string
  ua_DeviceIDFingerprint :: string
  ua_DeviceType :: string
  ua_AppVersion :: string
  ua_IPAddress :: string
  ua_TrustedDeviceFlag :: "bool option"
  ua_DeviceChallengePublicKeyID :: string
  ua_RegisteredKeyFingerprint :: string
  ua_StepUpAuthRequiredFlag :: "bool option"

text \<open>The request of \<open>UpsertKYCProfile\<close> has the same writable fields as the profile.\<close>

type_synonym UpsertKYCProfileRequest = KYCProfile

datatype onb_error =
    OnbUserNotFound | MobileRequired | DeviceFingerprintRequired | InvalidKYCDetails | PANNotFourDigits
  | AadhaarNotFourDigits | BiometricSetupFailed | PublicKeyRequired | BadPublicKeyEncoding | PasskeyRefused pk_error
  | OnbNoAuthProfile | NoKYCProfile | ConsentTypeRequired | NudgePreferenceRequired | FeedbackIncomplete
  | AssetNotFound | ContactNotFound | NilUserPanic

type_synonym ('f, 'a) onb = "(onb_error + 'a) \<times> 'f Service"

definition with_personal :: "(PersonalMaps \<Rightarrow> PersonalMaps) \<Rightarrow> 'f Service \<Rightarrow> 'f Service" where
  "with_personal f s = s\<lparr>sv_personal := f (sv_personal s)\<rparr>"

section \<open>Calendar\<close>

text \<open>\<open>AddDate(0, months, 0)\<close>: the month is normalised, a day past its end runs into the next one.\<close>

definition days_of :: "int \<Rightarrow> int \<Rightarrow> int \<Rightarrow> int" where
  "days_of y mo d =
     365 * (y - 1) + (y - 1) div 4 - (y - 1) div 100 + (y - 1) div 400 +
     sum_list (take (nat (mo - 1)) (month_lengths y)) + d - 1"

definition AddDate :: "int \<Rightarrow> int \<Rightarrow> time \<Rightarrow> time" where
  "AddDate years months t =
     (case civil_date t of (y, mo, d) \<Rightarrow>
        let m = mo - 1 + months
        in days_of (y + years + m div 12) (m mod 12 + 1) d * (86400 * second) + t mod (86400 * second))"

section \<open>Registration\<close>

definition ckycAllocationBase :: int where "ckycAllocationBase = 3000000001"

function ckyc_loop :: "(string \<rightharpoonup> string) \<Rightarrow> int \<Rightarrow> string" where
  "ckyc_loop index n =
     (if n \<le> 9999999999 then if index (dec n) = None then dec n else ckyc_loop index (n + 1) else [])"
  by pat_completeness auto

termination ckyc_loop
  by (relation "measure (\<lambda>(index, n). nat (10000000000 - n))") auto

declare ckyc_loop.simps [simp del]

definition allocateCKYCLocked :: "(string \<rightharpoonup> string) \<Rightarrow> string" where
  "allocateCKYCLocked index = ckyc_loop index ckycAllocationBase"

definition trim_register :: "RegisterRequest \<Rightarrow> RegisterRequest" where
  "trim_register req =
     \<lparr>rg_Name = (if TrimSpace (rg_Name req) = [] then ''FINIX User'' else TrimSpace (rg_Name req)),
      rg_Mobile = TrimSpace (rg_Mobile req), rg_Email = TrimSpace (rg_Email req),
      rg_DeviceIDFingerprint = TrimSpace (rg_DeviceIDFingerprint req),
      rg_DeviceType = TrimSpace (rg_DeviceType req), rg_AppVersion = TrimSpace (rg_AppVersion req),
      rg_IPAddress = TrimSpace (rg_IPAddress req), rg_PIN = rg_PIN req\<rparr>"

text \<open>The SIM binding: the token it issues, if the challenge is created and verified.\<close>

definition bind_sim ::
  "'key onb_env \<Rightarrow> time \<Rightarrow> reg_random \<Rightarrow> string \<Rightarrow> RegisterRequest \<Rightarrow> SIMBindingManager
     \<Rightarrow> string option \<times> SIMBindingManager" where
  "bind_sim env now rnd userID req m =
     (let simHash = hashSIMICCID (oe_hmac env) (oe_getenv env) (rg_Mobile req @ '':'' @ rg_DeviceIDFingerprint req);
          externalSIMOK = (case oe_sim env of None \<Rightarrow> True
                           | Some confirm \<Rightarrow> (case confirm (rg_Mobile req) of None \<Rightarrow> True | Some ok \<Rightarrow> ok))
      in if \<not> externalSIMOK then (None, m)
         else case CreateBindingChallenge (rr_simID rnd) (rr_vnn rnd) now userID (rg_Mobile req)
                     (rg_DeviceIDFingerprint req) m of
           (Inl _, m1) \<Rightarrow> (None, m1)
         | (Inr ch, m1) \<Rightarrow>
             (case VerifyBindingChallenge (oe_hmac env) (oe_getenv env) (rr_bindUBT rnd) now now
                     (sc_ChallengeID ch) (sc_VNNCode ch) simHash m1 of
                (Inl _, m2) \<Rightarrow> (None, m2)
              | (Inr record, m2) \<Rightarrow> (Some (sb_UBT record), m2)))"

definition seedPortfolio :: "'key onb_env \<Rightarrow> time \<Rightarrow> string \<Rightarrow> PersonalMaps \<Rightarrow> PersonalMaps" where
  "seedPortfolio env now userID pm =
     (let holding = (\<lambda>i name instrument category units avg current invested sip freq start status house dividends cagr.
            \<lparr>ih_ID = i, ih_Name = name, ih_InstrumentName = instrument, ih_Category = category,
             ih_QuantityUnits = units, ih_AvgPurchasePricePaise = avg, ih_CurrentValuePaise = current,
             ih_InvestedPaise = invested, ih_LastValuationDate = now, ih_SIPAmountPaise = sip,
             ih_SIPFrequency = freq, ih_SIPStartDate = start, ih_SIPStatus = status, ih_BrokerFundHouse = house,
             ih_DividendsPaise = dividends, ih_TaxLotDate = 0, ih_CAGR = cagr, ih_RecommendationID = [],
             ih_RecommendationExplainability = [], ih_CreatedAt = now\<rparr>)
      in pm\<lparr>pe_investments := (pe_investments pm)(userID \<mapsto>
              [holding ''holding-001'' ''Nifty Index Fund'' ''NIFTY 50 Index Fund'' ''mutual_fund''
                 (Fin (fl (1205 / 10))) 29875 4200000 3600000 2500000 ''monthly'' (AddDate 0 (- 6) now) ''active''
                 ''HDFC AMC'' 45000 (Fin (fl (128 / 10))),
               holding ''holding-002'' ''PPF'' ''Public Provident Fund'' ''ppf''
                 (Fin 1) 1700000 1900000 1700000 125000 ''yearly'' (AddDate (- 2) 0 now) ''active''
                 ''State Bank of India'' 88000 (Fin (fl (71 / 10))),
               holding ''holding-003'' ''Gold ETF'' ''SBI Gold ETF'' ''gold''
                 (Fin 55) 16727 1100000 920000 0 [] now ''inactive'' ''SBI Mutual Fund'' 0 (Fin (fl (85 / 10)))]),
            pe_insurance := (pe_insurance pm)(userID \<mapsto>
              [\<lparr>ip_PolicyID = ''POL-1001'', ip_PolicyType = ''term_life'', ip_Insurer = ''LIC'',
                ip_SumAssuredPaise = 100000000, ip_PremiumPaise = 240000, ip_NextDueDate = oe_due env now 1\<rparr>,
               \<lparr>ip_PolicyID = ''POL-2001'', ip_PolicyType = ''health'', ip_Insurer = ''New India Assurance'',
                ip_SumAssuredPaise = 10000000, ip_PremiumPaise = 65000, ip_NextDueDate = oe_due env now 2\<rparr>]),
            pe_loans := (pe_loans pm)(userID \<mapsto>
              [\<lparr>lr_LoanID = ''LOAN-3001'', lr_Lender = ''SBI'', lr_LoanType = ''home'',
                lr_OutstandingPaise = 320000000, lr_EMIPaise = 2850000, lr_InterestRate = Fin (fl (855 / 100)),
                lr_RemainingMonths = 212\<rparr>,
               \<lparr>lr_LoanID = ''LOAN-3002'', lr_Lender = ''HDFC'', lr_LoanType = ''car'',
                lr_OutstandingPaise = 4600000, lr_EMIPaise = 165000, lr_InterestRate = Fin (fl (92 / 10)),
                lr_RemainingMonths = 34\<rparr>])\<rparr>)"

definition default_consents :: "string \<rightharpoonup> bool" where
  "default_consents = [''analytics'' \<mapsto> True, ''market_data'' \<mapsto> True, ''notifications'' \<mapsto> True,
     ''sms_scanning'' \<mapsto> False, ''model_improvement'' \<mapsto> True]"

definition default_notifications :: "NotificationSetting list" where
  "default_notifications = map (\<lambda>c. \<lparr>ns_Category = c, ns_Enabled = True\<rparr>)
     [''transactions'', ''security'', ''goals'', ''insights'', ''tax'']"

definition new_user :: "time \<Rightarrow> string \<Rightarrow> string \<Rightarrow> string \<Rightarrow> bool \<Rightarrow> RegisterRequest \<Rightarrow> User" where
  "new_user now userID ckyc ubt simBound req =
     \<lparr>us_ID = userID, us_Name = rg_Name req, us_Mobile = rg_Mobile req, us_Email = rg_Email req,
      us_CKYC = ckyc, us_KIN = [], us_UBT = ubt, us_EKYCVerified = False, us_BiometricEnabled = False,
      us_DeviceBound = (rg_DeviceIDFingerprint req \<noteq> []), us_SIMBound = simBound,
      us_NudgePreference = ''moderate'', us_CreatedAt = now\<rparr>"

definition initial_pin_hash :: "'key onb_env \<Rightarrow> string \<Rightarrow> string" where
  "initial_pin_hash env pin =
     (if pin = [] then [] else case HashPIN (oe_login env) pin of Inl _ \<Rightarrow> [] | Inr h \<Rightarrow> h)"

definition new_auth_profile :: "'key onb_env \<Rightarrow> reg_random \<Rightarrow> string \<Rightarrow> RegisterRequest \<Rightarrow> AuthProfile" where
  "new_auth_profile env rnd userID req =
     blank_profile\<lparr>ap_InternalUserID := userID, ap_FullName := rg_Name req,
       ap_MobileNumber := EncryptField (oe_seal env) (rr_nonce1 rnd) (rg_Mobile req),
       ap_Email := EncryptField (oe_seal env) (rr_nonce2 rnd) (rg_Email req),
       ap_DeviceIDFingerprint := rg_DeviceIDFingerprint req,
       ap_DeviceType := firstNonEmpty (rg_DeviceType req) ''android'',
       ap_AppVersion := firstNonEmpty (rg_AppVersion req) ''0.1.0'',
       ap_IPAddress := rg_IPAddress req, ap_TrustedDeviceFlag := True, ap_ChallengeStatus := ''not_created'',
       ap_StepUpAuthRequiredFlag := False, ap_Role := ''customer'',
       ap_PasswordHash := initial_pin_hash env (rg_PIN req)\<rparr>"

definition blank_kyc :: KYCProfile where
  "blank_kyc = \<lparr>kp_UserID = [], kp_FullName = [], kp_DateOfBirth = [], kp_Gender = [], kp_MobileNumber = [],
     kp_Email = [], kp_PermanentAddress = [], kp_CommunicationAddress = [], kp_PANMasked = [],
     kp_AadhaarMaskedOrHash = [], kp_KYCDocumentTypes = [], kp_KYCDocumentFiles = [], kp_KYCStatus = [],
     kp_KYCSubmissionDate = None, kp_Verifier = [], kp_Occupation = [], kp_Employer = [], kp_AnnualIncome = [],
     kp_TaxResidency = [], kp_NomineeDetails = [], kp_KYCVerifierID = [], kp_KYCDocumentHashRef = [],
     kp_KYCRejectionReason = [], kp_KYCVerificationMethod = []\<rparr>"

definition new_kyc :: "string \<Rightarrow> RegisterRequest \<Rightarrow> KYCProfile" where
  "new_kyc userID req = blank_kyc\<lparr>kp_UserID := userID, kp_FullName := rg_Name req, kp_MobileNumber := rg_Mobile req,
     kp_Email := rg_Email req, kp_KYCStatus := ''pending'', kp_KYCVerificationMethod := ''manual''\<rparr>"

definition first_account :: "time \<Rightarrow> reg_random \<Rightarrow> string \<Rightarrow> string \<Rightarrow> RegisterRequest \<Rightarrow> Account" where
  "first_account now rnd acctID token req =
     \<lparr>ac_ID = acctID, ac_AccountHolderName = rg_Name req, ac_BankName = ''PSB Demo Bank'',
      ac_Branch = ''Main Branch'', ac_IFSCCode = ''PSBD0001001'', ac_AccountNumberMaskedToken = token,
      ac_UPIID = ToLower (filter (\<lambda>c. c \<noteq> CHR '' '') (rg_Name req)) @ ''@psb'', ac_AccountType = ''savings'',
      ac_VerificationStatus = ''verified'', ac_Nickname = ''Primary Savings'', ac_PrimaryAccountFlag = True,
      ac_AccountToken = ''accttok_'' @ rr_acctToken rnd, ac_TokenProvider = ''bank'',
      ac_AccountVerificationAt = Some now, ac_AccountVerificationMethod = ''upi'',
      ac_BalancePaise = 8500000, ac_LinkedAt = now\<rparr>"

text \<open>The records of a new customer, before the audit entry.\<close>

definition enrol ::
  "'key onb_env \<Rightarrow> time \<Rightarrow> reg_random \<Rightarrow> string \<Rightarrow> RegisterRequest \<Rightarrow> 'f Service \<Rightarrow> User \<times> 'f Service" where
  "enrol env now rnd userID req s =
     (case bind_sim env now rnd userID req (lg_simBinding (sv_login s)) of (bound, sim) \<Rightarrow>
        let ubt = (case bound of None \<Rightarrow> ''ubt_'' @ rr_ubt rnd | Some u \<Rightarrow> u);
            ckyc = allocateCKYCLocked (lg_ckycIndex (sv_login s));
            user = new_user now userID ckyc ubt (bound \<noteq> None) req;
            s1 = with_login (\<lambda>lm. lm\<lparr>lg_simBinding := sim, lg_ckycIndex := (lg_ckycIndex lm)(ckyc \<mapsto> userID),
                   lg_kycProfiles := (lg_kycProfiles lm)(userID \<mapsto> new_kyc userID req),
                   lg_mobileIndex := (lg_mobileIndex lm)(rg_Mobile req \<mapsto> userID)\<rparr>)
                 (set_profile userID (new_auth_profile env rnd userID req)
                   (s\<lparr>sv_users := (sv_users s)(userID \<mapsto> user)\<rparr>))
        in case nextID ''acct'' s1 of (acctID, s2) \<Rightarrow>
           case nextID ''acct'' s2 of (_, s3) \<Rightarrow>
           case TokenizeAccount (rr_token rnd) ''XXXXXX1001'' (sv_personal s3) of (token, pm) \<Rightarrow>
             (user, s3\<lparr>sv_accounts := (sv_accounts s3)(userID \<mapsto> [first_account now rnd acctID token req]),
                sv_beneficiaries := (sv_beneficiaries s3)(userID \<mapsto> {}),
                sv_beneficiaryRecords := (sv_beneficiaryRecords s3)(userID \<mapsto> []),
                sv_aggregatorStatus := (sv_aggregatorStatus s3)(userID \<mapsto>
                  \<lparr>ag_LinkedInstitutionID = [], ag_ConnectorStatus = ''connected'',
                   ag_LastSyncTimestamp = Some now, ag_NumberOfAccountsAggregated = 1\<rparr>),
                sv_personal := seedPortfolio env now userID
                  (pm\<lparr>pe_consents := (pe_consents pm)(userID \<mapsto> default_consents),
                      pe_notifications := (pe_notifications pm)(userID \<mapsto> default_notifications)\<rparr>)\<rparr>))"

definition sv_Register ::
  "'key onb_env \<Rightarrow> time \<Rightarrow> reg_random \<Rightarrow> RegisterRequest \<Rightarrow> 'f Service \<Rightarrow> ('f, string \<times> string) onb" where
  "sv_Register env now rnd req0 s =
     (let req = trim_register req0 in
      if rg_Mobile req = [] then (Inl MobileRequired, s)
      else if rg_DeviceIDFingerprint req = [] then (Inl DeviceFingerprintRequired, s)
      else case lg_mobileIndex (sv_login s) (rg_Mobile req) of
        Some existingID \<Rightarrow>
          (case sv_users s existingID of
             Some user \<Rightarrow> (Inr (us_ID user, us_UBT user), s)
           | None \<Rightarrow> (Inl NilUserPanic, s))
      | None \<Rightarrow>
          (case enrol env now rnd (''usr_'' @ rr_uuid rnd) req s of (user, s1) \<Rightarrow>
             (Inr (us_ID user, us_UBT user),
              appendAudit (oe_sv env) now (us_ID user) ''registration_completed'' ''system'' ''success''
                ''User registration and SIM binding completed'' ''System'' s1)))"

section \<open>e-KYC\<close>

definition four_digits :: "string \<Rightarrow> bool" where
  "four_digits s \<longleftrightarrow> length s = 4 \<and> list_all is_digit s"

definition is_upper :: "char \<Rightarrow> bool" where
  "is_upper c \<longleftrightarrow> (let n = (of_char c :: nat) in 65 \<le> n \<and> n \<le> 90)"

text \<open>The pattern of a PAN: five letters, four digits, a letter.\<close>

definition panRegex :: "string \<Rightarrow> bool" where
  "panRegex s \<longleftrightarrow> length s = 10 \<and> list_all is_upper (take 5 s) \<and>
     list_all is_digit (take 4 (drop 5 s)) \<and> list_all is_upper (drop 9 s)"

definition VerifyPAN :: "string \<Rightarrow> bool" where
  "VerifyPAN pan \<longleftrightarrow> (let p = ToUpper (TrimSpace pan) in length p = 10 \<and> panRegex p)"

definition VerifyPANLast4 :: "string \<Rightarrow> onb_error + unit" where
  "VerifyPANLast4 last4 = (if four_digits (TrimSpace last4) then Inr () else Inl PANNotFourDigits)"

definition VerifyAadhaarLast4 :: "string \<Rightarrow> onb_error + unit" where
  "VerifyAadhaarLast4 last4 = (if four_digits (TrimSpace last4) then Inr () else Inl AadhaarNotFourDigits)"

definition GenerateKIN :: "(string \<Rightarrow> string) \<Rightarrow> string \<Rightarrow> string \<Rightarrow> string" where
  "GenerateKIN H uidHash panLast4 =
     (let hexStr = take 8 (H (uidHash @ panLast4)); checksum = (\<Sum>c\<leftarrow>hexStr. int (of_char c)) mod 100
      in ''KIN-'' @ ToUpper hexStr @ ''-'' @ pad0 2 (dec checksum))"

definition kin_for :: "'key onb_env \<Rightarrow> string \<Rightarrow> string \<Rightarrow> string" where
  "kin_for env aadhaar pan =
     (let own = GenerateKIN (env_H (oe_sv env)) aadhaar pan in
      case oe_kin env of
        None \<Rightarrow> own
      | Some f \<Rightarrow> (case f aadhaar pan of None \<Rightarrow> own | Some kin \<Rightarrow> if kin \<noteq> [] then kin else own))"

definition mark_verified :: "time \<Rightarrow> EKYCRequest \<Rightarrow> KYCProfile \<Rightarrow> KYCProfile" where
  "mark_verified now req p =
     p\<lparr>kp_PANMasked := ''XXXXXX'' @ ToUpper (ek_PanLast4 req),
       kp_AadhaarMaskedOrHash := ''XXXXXXXX'' @ ek_AadhaarLast4 req, kp_KYCStatus := ''verified'',
       kp_KYCSubmissionDate := Some now,
       kp_KYCVerificationMethod := firstNonEmpty (kp_KYCVerificationMethod p) ''offline_xml+nsdl'',
       kp_KYCVerifierID := firstNonEmpty (kp_KYCVerifierID p) ''system-verifier''\<rparr>"

definition kyc_or_new :: "string \<Rightarrow> User \<Rightarrow> string \<Rightarrow> KYCProfile option \<Rightarrow> KYCProfile" where
  "kyc_or_new userID user status p = (case p of
      Some profile \<Rightarrow> profile
    | None \<Rightarrow> blank_kyc\<lparr>kp_UserID := userID, kp_FullName := us_Name user, kp_MobileNumber := us_Mobile user,
                kp_Email := us_Email user, kp_KYCStatus := status\<rparr>)"

definition set_user :: "string \<Rightarrow> User \<Rightarrow> 'f Service \<Rightarrow> 'f Service" where
  "set_user userID user s = s\<lparr>sv_users := (sv_users s)(userID \<mapsto> user)\<rparr>"

definition set_kyc :: "string \<Rightarrow> KYCProfile \<Rightarrow> 'f Service \<Rightarrow> 'f Service" where
  "set_kyc userID p = with_login (\<lambda>lm. lm\<lparr>lg_kycProfiles := (lg_kycProfiles lm)(userID \<mapsto> p)\<rparr>)"

definition VerifyEKYC :: "'key onb_env \<Rightarrow> time \<Rightarrow> EKYCRequest \<Rightarrow> 'f Service \<Rightarrow> ('f, User) onb" where
  "VerifyEKYC env now req s =
     (case sv_users s (ek_UserID req) of
        None \<Rightarrow> (Inl OnbUserNotFound, s)
      | Some user \<Rightarrow>
          if length (TrimSpace (ek_PanLast4 req)) \<noteq> 4 \<or> length (TrimSpace (ek_AadhaarLast4 req)) \<noteq> 4
          then (Inl InvalidKYCDetails, s)
          else case VerifyPANLast4 (ek_PanLast4 req) of
            Inl e \<Rightarrow> (Inl e, s)
          | Inr _ \<Rightarrow>
              (case VerifyAadhaarLast4 (ek_AadhaarLast4 req) of
                 Inl e \<Rightarrow> (Inl e, s)
               | Inr _ \<Rightarrow>
                   let user' = user\<lparr>us_EKYCVerified := True,
                         us_KIN := kin_for env (ek_AadhaarLast4 req) (ek_PanLast4 req)\<rparr>;
                       p = kyc_or_new (us_ID user) user [] (lg_kycProfiles (sv_login s) (us_ID user))
                   in (Inr user', appendAudit (oe_sv env) now (us_ID user) ''ekyc_verified'' ''kyc'' ''success''
                         ''Aadhaar offline XML + PAN verification successful'' ''System''
                         (set_kyc (us_ID user) (mark_verified now req p) (set_user (ek_UserID req) user' s)))))"

section \<open>Biometric key\<close>

definition shortenFingerprint :: "(string \<Rightarrow> string) \<Rightarrow> string \<Rightarrow> string" where
  "shortenFingerprint H value = (let t = TrimSpace value in if t = [] then [] else take 16 (H t))"

definition device_name :: "string \<Rightarrow> User \<Rightarrow> string" where
  "device_name given user =
     (if given \<noteq> [] then given else if us_Name user \<noteq> [] then us_Name user else ''unknown'')"

definition RegisterBiometric ::
  "'key onb_env \<Rightarrow> time \<Rightarrow> string \<Rightarrow> BiometricSetupRequest \<Rightarrow> 'f Service \<Rightarrow> ('f, User) onb" where
  "RegisterBiometric env now rnd req s =
     (case sv_users s (bs_UserID req) of
        None \<Rightarrow> (Inl BiometricSetupFailed, s)
      | Some user \<Rightarrow>
          if \<not> us_EKYCVerified user then (Inl BiometricSetupFailed, s)
          else if TrimSpace (bs_PublicKeyB64 req) = [] then (Inl PublicKeyRequired, s)
          else case StdDecodeString (bs_PublicKeyB64 req) of
            None \<Rightarrow> (Inl BadPublicKeyEncoding, s)
          | Some key \<Rightarrow>
              let keyID = (if TrimSpace (bs_KeyID req) = [] then ''key_'' @ rnd else TrimSpace (bs_KeyID req)) in
              (case Register now (us_ID user) keyID (device_name (bs_DeviceName req) user) key
                      (lg_passkey (sv_login s)) of
                 (Inl e, pm) \<Rightarrow> (Inl (PasskeyRefused e), with_login (\<lambda>lm. lm\<lparr>lg_passkey := pm\<rparr>) s)
               | (Inr _, pm) \<Rightarrow>
                   let user' = user\<lparr>us_BiometricEnabled := True\<rparr> in
                   (Inr user', appendAudit (oe_sv env) now (us_ID user) ''biometric_setup'' ''security'' ''success''
                      ''Device-bound biometric key registered with real public key'' ''User''
                      (change_profile (us_ID user)
                        (\<lambda>p. p\<lparr>ap_DeviceChallengePublicKeyID := keyID,
                               ap_RegisteredKeyFingerprint :=
                                 shortenFingerprint (env_H (oe_sv env)) (bs_PublicKeyB64 req)\<rparr>)
                        (set_user (bs_UserID req) user'
                          (with_login (\<lambda>lm. lm\<lparr>lg_passkey := pm\<rparr>) s))))))"

section \<open>Profiles\<close>

definition Profile :: "string \<Rightarrow> 'f Service \<Rightarrow> onb_error + User" where
  "Profile userID s = (case sv_users s userID of None \<Rightarrow> Inl OnbUserNotFound | Some user \<Rightarrow> Inr user)"

definition sv_AuthProfile :: "'key onb_env \<Rightarrow> string \<Rightarrow> 'f Service \<Rightarrow> onb_error + AuthProfile" where
  "sv_AuthProfile env userID s =
     (case sv_users s userID of
        None \<Rightarrow> Inl OnbUserNotFound
      | Some user \<Rightarrow>
          (case sv_authProfiles s userID of
             None \<Rightarrow> Inl OnbNoAuthProfile
           | Some p \<Rightarrow> Inr (p\<lparr>ap_InternalUserID := (if ap_InternalUserID p = [] then userID else ap_InternalUserID p),
                ap_KYCVerified := us_EKYCVerified user, ap_BiometricEnabled := us_BiometricEnabled user,
                ap_MobileNumber := DecryptField (oe_unseal env) (ap_MobileNumber p),
                ap_Email := DecryptField (oe_unseal env) (ap_Email p),
                ap_PasswordHash := [], ap_OTPCode := []\<rparr>)))"

text \<open>A text field of a request replaces the stored one unless it is blank.\<close>

definition or_keep :: "string \<Rightarrow> string \<Rightarrow> string" where
  "or_keep value old = (if TrimSpace value \<noteq> [] then TrimSpace value else old)"

definition edit_auth_profile :: "UpdateAuthProfileRequest \<Rightarrow> AuthProfile \<Rightarrow> AuthProfile" where
  "edit_auth_profile req p =
     p\<lparr>ap_FullName := or_keep (ua_FullName req) (ap_FullName p), ap_Email := or_keep (ua_Email req) (ap_Email p),
       ap_DeviceIDFingerprint := or_keep (ua_DeviceIDFingerprint req) (ap_DeviceIDFingerprint p),
       ap_DeviceType := or_keep (ua_DeviceType req) (ap_DeviceType p),
       ap_AppVersion := or_keep (ua_AppVersion req) (ap_AppVersion p),
       ap_IPAddress := or_keep (ua_IPAddress req) (ap_IPAddress p),
       ap_DeviceChallengePublicKeyID :=
         or_keep (ua_DeviceChallengePublicKeyID req) (ap_DeviceChallengePublicKeyID p),
       ap_RegisteredKeyFingerprint := or_keep (ua_RegisteredKeyFingerprint req) (ap_RegisteredKeyFingerprint p),
       ap_TrustedDeviceFlag :=
         (case ua_TrustedDeviceFlag req of None \<Rightarrow> ap_TrustedDeviceFlag p | Some b \<Rightarrow> b),
       ap_StepUpAuthRequiredFlag :=
         (case ua_StepUpAuthRequiredFlag req of None \<Rightarrow> ap_StepUpAuthRequiredFlag p | Some b \<Rightarrow> b)\<rparr>"

definition UpdateAuthProfile ::
  "'key onb_env \<Rightarrow> time \<Rightarrow> string \<Rightarrow> UpdateAuthProfileRequest \<Rightarrow> 'f Service \<Rightarrow> ('f, AuthProfile) onb" where
  "UpdateAuthProfile env now userID req s =
     (case sv_users s userID of
        None \<Rightarrow> (Inl OnbUserNotFound, s)
      | Some user \<Rightarrow>
          let p0 = (case sv_authProfiles s userID of Some p \<Rightarrow> p | None \<Rightarrow>
                blank_profile\<lparr>ap_InternalUserID := userID, ap_FullName := us_Name user,
                  ap_MobileNumber := us_Mobile user, ap_Email := us_Email user, ap_ChallengeStatus := ''not_created''\<rparr>);
              p = edit_auth_profile req p0;
              user' = user\<lparr>us_Name := or_keep (ua_FullName req) (us_Name user),
                           us_Email := or_keep (ua_Email req) (us_Email user)\<rparr>
          in (Inr p, appendAudit (oe_sv env) now userID ''auth_profile_updated'' ''auth'' ''success''
                ''Auth profile updated'' ''User'' (set_user userID user' (set_profile userID p s))))"

definition AuthProfile_SanitizeForAPI :: "AuthProfile \<Rightarrow> AuthProfile" where
  "AuthProfile_SanitizeForAPI a =
     a\<lparr>ap_PasswordHash := [], ap_OTPCode := [], ap_MobileNumber := MaskPhone (ap_MobileNumber a),
       ap_Email := MaskEmail (ap_Email a), ap_Role := [], ap_DeviceChallengePublicKeyID := [],
       ap_ChallengeNonceID := [], ap_SessionTokenID := []\<rparr>"

definition sv_KYCProfile :: "string \<Rightarrow> 'f Service \<Rightarrow> onb_error + KYCProfile" where
  "sv_KYCProfile userID s =
     (case sv_users s userID of
        None \<Rightarrow> Inl OnbUserNotFound
      | Some _ \<Rightarrow> (case lg_kycProfiles (sv_login s) userID of None \<Rightarrow> Inl NoKYCProfile | Some p \<Rightarrow> Inr p))"

definition KYCProfile_SanitizeForAPI :: "KYCProfile \<Rightarrow> KYCProfile" where
  "KYCProfile_SanitizeForAPI k =
     k\<lparr>kp_MobileNumber := MaskPhone (kp_MobileNumber k), kp_Email := MaskEmail (kp_Email k),
       kp_PANMasked := MaskPAN (kp_PANMasked k), kp_AadhaarMaskedOrHash := MaskAadhaar (kp_AadhaarMaskedOrHash k)\<rparr>"

definition edit_kyc :: "UpsertKYCProfileRequest \<Rightarrow> KYCProfile \<Rightarrow> KYCProfile" where
  "edit_kyc req p =
     p\<lparr>kp_FullName := or_keep (kp_FullName req) (kp_FullName p),
       kp_DateOfBirth := or_keep (kp_DateOfBirth req) (kp_DateOfBirth p),
       kp_Gender := or_keep (kp_Gender req) (kp_Gender p), kp_Email := or_keep (kp_Email req) (kp_Email p),
       kp_PermanentAddress := or_keep (kp_PermanentAddress req) (kp_PermanentAddress p),
       kp_CommunicationAddress := or_keep (kp_CommunicationAddress req) (kp_CommunicationAddress p),
       kp_PANMasked := or_keep (kp_PANMasked req) (kp_PANMasked p),
       kp_AadhaarMaskedOrHash := or_keep (kp_AadhaarMaskedOrHash req) (kp_AadhaarMaskedOrHash p),
       kp_KYCDocumentTypes := (if kp_KYCDocumentTypes req \<noteq> [] then kp_KYCDocumentTypes req else kp_KYCDocumentTypes p),
       kp_KYCDocumentFiles := (if kp_KYCDocumentFiles req \<noteq> [] then kp_KYCDocumentFiles req else kp_KYCDocumentFiles p),
       kp_Verifier := or_keep (kp_Verifier req) (kp_Verifier p),
       kp_Occupation := or_keep (kp_Occupation req) (kp_Occupation p),
       kp_Employer := or_keep (kp_Employer req) (kp_Employer p),
       kp_AnnualIncome := or_keep (kp_AnnualIncome req) (kp_AnnualIncome p),
       kp_TaxResidency := or_keep (kp_TaxResidency req) (kp_TaxResidency p),
       kp_NomineeDetails := or_keep (kp_NomineeDetails req) (kp_NomineeDetails p),
       kp_KYCVerifierID := or_keep (kp_KYCVerifierID req) (kp_KYCVerifierID p),
       kp_KYCDocumentHashRef := or_keep (kp_KYCDocumentHashRef req) (kp_KYCDocumentHashRef p),
       kp_KYCRejectionReason := or_keep (kp_KYCRejectionReason req) (kp_KYCRejectionReason p),
       kp_KYCVerificationMethod := or_keep (kp_KYCVerificationMethod req) (kp_KYCVerificationMethod p)\<rparr>"

definition UpsertKYCProfile ::
  "'key onb_env \<Rightarrow> time \<Rightarrow> string \<Rightarrow> UpsertKYCProfileRequest \<Rightarrow> 'f Service \<Rightarrow> ('f, KYCProfile) onb" where
  "UpsertKYCProfile env now userID req s =
     (case sv_users s userID of
        None \<Rightarrow> (Inl OnbUserNotFound, s)
      | Some user \<Rightarrow>
          let p = (edit_kyc req (kyc_or_new userID user ''pending'' (lg_kycProfiles (sv_login s) userID)))
                    \<lparr>kp_KYCSubmissionDate := Some now\<rparr>;
              user' = user\<lparr>us_Name := or_keep (kp_FullName req) (us_Name user),
                us_Email := or_keep (kp_Email req) (us_Email user),
                us_EKYCVerified := (us_EKYCVerified user \<or> ToLower (kp_KYCStatus p) = ''verified'')\<rparr>
          in (Inr p, appendAudit (oe_sv env) now userID ''kyc_profile_upserted'' ''kyc'' ''success''
                ''KYC profile updated'' ''User'' (set_user userID user' (set_kyc userID p s))))"

section \<open>Consents, preferences, contacts and assets\<close>

definition SetConsent ::
  "'key onb_env \<Rightarrow> time \<Rightarrow> string \<Rightarrow> string \<Rightarrow> bool \<Rightarrow> 'f Service \<Rightarrow> ('f, string \<times> bool) onb" where
  "SetConsent env now userID consentType0 granted s =
     (let consentType = TrimSpace consentType0; word = (if granted then ''true'' else ''false'') in
      if sv_users s userID = None then (Inl OnbUserNotFound, s)
      else if consentType = [] then (Inl ConsentTypeRequired, s)
      else
        let granted_map = (case pe_consents (sv_personal s) userID of None \<Rightarrow> (\<lambda>_. None) | Some m \<Rightarrow> m);
            s1 = with_personal (\<lambda>pm. pm\<lparr>pe_consents :=
                   (pe_consents pm)(userID \<mapsto> granted_map(consentType \<mapsto> granted))\<rparr>) s
        in (Inr (consentType, granted),
            ledger_write (oe_sv env) now userID ''consent_updated'' ''consent''
              (PFields [(''granted'', word), (''type'', consentType)])
              (appendAudit (oe_sv env) now userID ''consent_updated'' ''consent''
                (if granted then ''granted'' else ''revoked'') ''Consent preference changed'' ''User'' s1)))"

definition SetNudgePreference ::
  "'key onb_env \<Rightarrow> time \<Rightarrow> string \<Rightarrow> string \<Rightarrow> 'f Service \<Rightarrow> ('f, string) onb" where
  "SetNudgePreference env now userID preference0 s =
     (let preference = ToLower (TrimSpace preference0) in
      case sv_users s userID of
        None \<Rightarrow> (Inl OnbUserNotFound, s)
      | Some user \<Rightarrow>
          if preference = [] then (Inl NudgePreferenceRequired, s)
          else (Inr preference, appendAudit (oe_sv env) now userID ''nudge_preference_updated'' ''settings''
                  ''success'' ''Nudge preference updated'' ''User''
                  (set_user userID (user\<lparr>us_NudgePreference := preference\<rparr>) s)))"

definition NotificationSettings :: "string \<Rightarrow> 'f Service \<Rightarrow> onb_error + NotificationSetting list" where
  "NotificationSettings userID s =
     (if sv_users s userID = None then Inl OnbUserNotFound
      else Inr (get_list (pe_notifications (sv_personal s)) userID))"

definition SubmitFeedback ::
  "'key onb_env \<Rightarrow> time \<Rightarrow> string \<Rightarrow> string \<Rightarrow> string \<Rightarrow> 'f Service \<Rightarrow> ('f, unit) onb" where
  "SubmitFeedback env now userID category msg s =
     (if sv_users s userID = None then (Inl OnbUserNotFound, s)
      else if TrimSpace category = [] \<or> TrimSpace msg = [] then (Inl FeedbackIncomplete, s)
      else (Inr (), appendAudit (oe_sv env) now userID ''feedback_submitted'' ''settings'' ''success''
              ''User submitted product feedback'' ''User'' s))"

definition AddNetWorthAsset ::
  "'key onb_env \<Rightarrow> time \<Rightarrow> string \<Rightarrow> NetWorthAsset \<Rightarrow> 'f Service \<Rightarrow> ('f, NetWorthAsset) onb" where
  "AddNetWorthAsset env now userID req s =
     (if sv_users s userID = None then (Inl OnbUserNotFound, s)
      else case nextID ''nwa'' s of (i, s1) \<Rightarrow>
        let asset = req\<lparr>nw_ID := i, nw_ValuationDate := now,
              nw_ValuationSource := (if nw_ValuationSource req = [] then ''user_entered'' else nw_ValuationSource req)\<rparr>
        in (Inr asset, appendAudit (oe_sv env) now userID ''networth_asset_added'' ''portfolio'' ''success''
              ''Asset added'' ''User''
              (with_personal (\<lambda>pm. pm\<lparr>pe_netWorthAssets := (pe_netWorthAssets pm)
                 (userID \<mapsto> get_list (pe_netWorthAssets pm) userID @ [asset])\<rparr>) s1)))"

text \<open>The first element that satisfies a predicate is cut out.\<close>

fun remove_first :: "('a \<Rightarrow> bool) \<Rightarrow> 'a list \<Rightarrow> 'a list option" where
  "remove_first P [] = None"
| "remove_first P (x # xs) = (if P x then Some xs else map_option ((#) x) (remove_first P xs))"

definition RemoveNetWorthAsset :: "string \<Rightarrow> string \<Rightarrow> 'f Service \<Rightarrow> ('f, unit) onb" where
  "RemoveNetWorthAsset userID assetID s =
     (case remove_first (\<lambda>a. nw_ID a = assetID) (get_list (pe_netWorthAssets (sv_personal s)) userID) of
        None \<Rightarrow> (Inl AssetNotFound, s)
      | Some assets \<Rightarrow> (Inr (), with_personal (\<lambda>pm. pm\<lparr>pe_netWorthAssets :=
                          (pe_netWorthAssets pm)(userID \<mapsto> assets)\<rparr>) s))"

definition EmergencyContacts :: "string \<Rightarrow> 'f Service \<Rightarrow> EmergencyContact list" where
  "EmergencyContacts userID s = get_list (pe_emergencyContacts (sv_personal s)) userID"

definition AddEmergencyContact ::
  "'key onb_env \<Rightarrow> time \<Rightarrow> string \<Rightarrow> EmergencyContact \<Rightarrow> 'f Service \<Rightarrow> ('f, EmergencyContact) onb" where
  "AddEmergencyContact env now userID req s =
     (if sv_users s userID = None then (Inl OnbUserNotFound, s)
      else case nextID ''emc'' s of (i, s1) \<Rightarrow>
        let contact = req\<lparr>ec_ID := i\<rparr>
        in (Inr contact, appendAudit (oe_sv env) now userID ''emergency_contact_added'' ''security'' ''success''
              ''Emergency contact added'' ''User''
              (with_personal (\<lambda>pm. pm\<lparr>pe_emergencyContacts := (pe_emergencyContacts pm)
                 (userID \<mapsto> get_list (pe_emergencyContacts pm) userID @ [contact])\<rparr>) s1)))"

definition DeleteEmergencyContact :: "string \<Rightarrow> string \<Rightarrow> 'f Service \<Rightarrow> ('f, unit) onb" where
  "DeleteEmergencyContact userID contactID s =
     (case remove_first (\<lambda>c. ec_ID c = contactID) (get_list (pe_emergencyContacts (sv_personal s)) userID) of
        None \<Rightarrow> (Inl ContactNotFound, s)
      | Some contacts \<Rightarrow> (Inr (), with_personal (\<lambda>pm. pm\<lparr>pe_emergencyContacts :=
                            (pe_emergencyContacts pm)(userID \<mapsto> contacts)\<rparr>) s))"

end
