(* ===== verification/OnboardingGuarantees.thy ===== *)
theory OnboardingGuarantees
  imports PlatformOnboarding
begin

text \<open>
  What becoming a customer guarantees, over runs of registrations, verifications and profile edits:
  the indexes that logins use name exactly one customer per handle, and nobody is KYC-verified
  without a verification of four digits each. Where the profile operations do less than their comments
  say, the theorems say what they do: an edit answers the live one-time code, an edited e-mail address cannot be
  read back, and no real PAN passes the check of its last four characters.
\<close>

section \<open>Runs\<close>

datatype onb_event =
    Enrol time reg_random RegisterRequest
  | Ekyc time EKYCRequest
  | Biometric time string BiometricSetupRequest
  | EditAuth time string UpdateAuthProfileRequest
  | EditKYC time string UpsertKYCProfileRequest
  | Consent time string string bool
  | Nudge time string string
  | Feedback time string string string
  | AddAsset time string NetWorthAsset
  | RemoveAsset string string
  | AddContact time string EmergencyContact
  | RemoveContact string string

fun onb_step :: "'key onb_env \<Rightarrow> 'f Service \<Rightarrow> onb_event \<Rightarrow> 'f Service" where
  "onb_step env s (Enrol t rnd req) = snd (sv_Register env t rnd req s)"
| "onb_step env s (Ekyc t req) = snd (VerifyEKYC env t req s)"
| "onb_step env s (Biometric t rnd req) = snd (RegisterBiometric env t rnd req s)"
| "onb_step env s (EditAuth t u req) = snd (UpdateAuthProfile env t u req s)"
| "onb_step env s (EditKYC t u req) = snd (UpsertKYCProfile env t u req s)"
| "onb_step env s (Consent t u c g) = snd (SetConsent env t u c g s)"
| "onb_step env s (Nudge t u p) = snd (SetNudgePreference env t u p s)"
| "onb_step env s (Feedback t u c m) = snd (SubmitFeedback env t u c m s)"
| "onb_step env s (AddAsset t u a) = snd (AddNetWorthAsset env t u a s)"
| "onb_step env s (RemoveAsset u i) = snd (RemoveNetWorthAsset u i s)"
| "onb_step env s (AddContact t u c) = snd (AddEmergencyContact env t u c s)"
| "onb_step env s (RemoveContact u i) = snd (DeleteEmergencyContact u i s)"

text \<open>A registration draws an unused id, and the numbers from 3000000001 to 9999999999 are not exhausted.\<close>

fun onb_allowed :: "'f Service \<Rightarrow> onb_event \<Rightarrow> bool" where
  "onb_allowed s (Enrol t rnd req) \<longleftrightarrow>
     sv_users s (''usr_'' @ rr_uuid rnd) = None \<and> allocateCKYCLocked (lg_ckycIndex (sv_login s)) \<noteq> []"
| "onb_allowed s e \<longleftrightarrow> True"

fun onb_run :: "'key onb_env \<Rightarrow> onb_event list \<Rightarrow> 'f Service \<Rightarrow> 'f Service" where
  "onb_run env [] s = s"
| "onb_run env (e # es) s = onb_run env es (onb_step env s e)"

fun run_allowed :: "'key onb_env \<Rightarrow> onb_event list \<Rightarrow> 'f Service \<Rightarrow> bool" where
  "run_allowed env [] s \<longleftrightarrow> True"
| "run_allowed env (e # es) s \<longleftrightarrow> onb_allowed s e \<and> run_allowed env es (onb_step env s e)"

section \<open>Frames\<close>

lemma onb_frame [simp]:
  "sv_login (appendAudit e now v a r oc d b s) = sv_login s"
  "sv_personal (appendAudit e now v a r oc d b s) = sv_personal s"
  "sv_login (ledger_write e now v a r pl s) = sv_login s" "sv_users (ledger_write e now v a r pl s) = sv_users s"
  "sv_authProfiles (ledger_write e now v a r pl s) = sv_authProfiles s"
  "sv_users (set_profile u p s) = sv_users s" "sv_login (set_profile u p s) = sv_login s"
  "sv_authProfiles (set_profile u p s) = (sv_authProfiles s)(u \<mapsto> p)"
  "sv_users (change_profile u f s) = sv_users s" "sv_login (change_profile u f s) = sv_login s"
  "sv_login (with_login g s) = g (sv_login s)" "sv_users (with_login g s) = sv_users s"
  "sv_authProfiles (with_login g s) = sv_authProfiles s"
  "sv_users (with_personal h s) = sv_users s" "sv_login (with_personal h s) = sv_login s"
  "sv_authProfiles (with_personal h s) = sv_authProfiles s"
  "sv_users (set_user u x s) = (sv_users s)(u \<mapsto> x)" "sv_login (set_user u x s) = sv_login s"
  "sv_authProfiles (set_user u x s) = sv_authProfiles s"
  "sv_users (set_kyc u kp s) = sv_users s" "sv_authProfiles (set_kyc u kp s) = sv_authProfiles s"
  "sv_login (set_kyc u kp s) = (sv_login s)\<lparr>lg_kycProfiles := (lg_kycProfiles (sv_login s))(u \<mapsto> kp)\<rparr>"
  by (simp_all add: set_profile_def change_profile_def with_login_def with_personal_def set_user_def set_kyc_def
    appendAudit_def ledger_write_def nextID_def Let_def split: option.split)

lemma onb_frame_audit [simp]:
  "sv_users (appendAudit e now v a r oc d b s) = sv_users s"
  "sv_authProfiles (appendAudit e now v a r oc d b s) = sv_authProfiles s"
  by (simp_all add: frame_simps)

lemma change_profile_at [simp]:
  "sv_authProfiles (change_profile u f s) v =
     (if v = u then map_option f (sv_authProfiles s u) else sv_authProfiles s v)"
  by (auto simp: change_profile_def split: option.split)

section \<open>CKYC numbers\<close>

lemma dec_digits_length: "n < 10 ^ Suc k \<Longrightarrow> 10 ^ k \<le> n \<Longrightarrow> length (dec_digits n) = Suc k"
proof (induction k arbitrary: n)
  case 0
  then show ?case by (simp add: dec_digits.simps [of n])
next
  case (Suc k)
  have "1 \<le> (10 :: nat) ^ k" by simp
  then have "10 \<le> n" using Suc.prems(2) unfolding power_Suc by linarith
  moreover have "n div 10 < 10 ^ Suc k" "10 ^ k \<le> n div 10" using Suc.prems by auto
  ultimately show ?case using Suc.IH [of "n div 10"] by (simp add: dec_digits.simps [of n])
qed

lemma dec_ckyc_ok:
  assumes "1000000000 \<le> n" and "n \<le> 9999999999"
  shows "ckyc_ok (dec n)" and "dec n \<noteq> []"
proof -
  have "length (dec_digits (nat n)) = 10" using assms dec_digits_length [of "nat n" 9] by simp
  moreover have "list_all is_digit (dec_digits (nat n))" by (simp add: list_all_iff dec_digits_chars)
  ultimately show "ckyc_ok (dec n)" "dec n \<noteq> []" using assms by (auto simp: ckyc_ok_def dec_def)
qed

lemma ckyc_loop_free:
  "1000000000 \<le> n \<Longrightarrow> ckyc_loop index n \<noteq> [] \<Longrightarrow> index (ckyc_loop index n) = None \<and> ckyc_ok (ckyc_loop index n)"
proof (induction index n rule: ckyc_loop.induct)
  case (1 index n)
  then show ?case using dec_ckyc_ok [of n] by (auto simp: ckyc_loop.simps [of index n])
qed

lemma allocate_free:
  "allocateCKYCLocked index \<noteq> [] \<Longrightarrow>
   index (allocateCKYCLocked index) = None \<and> ckyc_ok (allocateCKYCLocked index)"
  unfolding allocateCKYCLocked_def by (rule ckyc_loop_free) (simp_all add: ckycAllocationBase_def)

section \<open>The customer directory\<close>

definition kyc_verified :: "KYCProfile \<Rightarrow> bool" where
  "kyc_verified p \<longleftrightarrow> ToLower (kp_KYCStatus p) = ''verified''"

definition customer_ok :: "'f Service \<Rightarrow> string \<Rightarrow> User \<Rightarrow> bool" where
  "customer_ok s u x \<longleftrightarrow> us_ID x = u \<and>
     lg_mobileIndex (sv_login s) (us_Mobile x) = Some u \<and> lg_ckycIndex (sv_login s) (us_CKYC x) = Some u \<and>
     ckyc_ok (us_CKYC x) \<and> sv_authProfiles s u \<noteq> None \<and>
     (\<exists>p. lg_kycProfiles (sv_login s) u = Some p \<and> (kyc_verified p \<longleftrightarrow> us_EKYCVerified x)) \<and>
     (us_BiometricEnabled x \<longrightarrow> us_EKYCVerified x)"

definition directory :: "'f Service \<Rightarrow> bool" where
  "directory s \<longleftrightarrow> (\<forall>u x. sv_users s u = Some x \<longrightarrow> customer_ok s u x) \<and>
     (\<forall>m u. lg_mobileIndex (sv_login s) m = Some u \<longrightarrow> (\<exists>x. sv_users s u = Some x \<and> us_Mobile x = m)) \<and>
     (\<forall>c u. lg_ckycIndex (sv_login s) c = Some u \<longrightarrow> (\<exists>x. sv_users s u = Some x \<and> us_CKYC x = c))"

lemma directoryD:
  assumes "directory s"
  shows "sv_users s u = Some x \<Longrightarrow> customer_ok s u x"
    and "lg_mobileIndex (sv_login s) m = Some u \<Longrightarrow> \<exists>x. sv_users s u = Some x \<and> us_Mobile x = m"
    and "lg_ckycIndex (sv_login s) c = Some u \<Longrightarrow> \<exists>x. sv_users s u = Some x \<and> us_CKYC x = c"
  using assms by (auto simp: directory_def)

text \<open>An operation that changes one customer and keeps the handles keeps the directory.\<close>

lemma directory_edit:
  assumes d: "directory s" and x: "sv_users s u = Some x"
    and users: "sv_users s' = (sv_users s)(u \<mapsto> x')"
    and same: "us_ID x' = us_ID x" "us_Mobile x' = us_Mobile x" "us_CKYC x' = us_CKYC x"
    and index: "lg_mobileIndex (sv_login s') = lg_mobileIndex (sv_login s)"
      "lg_ckycIndex (sv_login s') = lg_ckycIndex (sv_login s)"
    and profiles: "\<And>v. sv_authProfiles s v \<noteq> None \<Longrightarrow> sv_authProfiles s' v \<noteq> None"
    and kyc: "\<And>v. v \<noteq> u \<Longrightarrow> lg_kycProfiles (sv_login s') v = lg_kycProfiles (sv_login s) v"
      "\<And>p. lg_kycProfiles (sv_login s) u = Some p \<Longrightarrow> kyc_verified p = us_EKYCVerified x \<Longrightarrow>
        \<exists>p'. lg_kycProfiles (sv_login s') u = Some p' \<and> kyc_verified p' = us_EKYCVerified x'"
    and bio: "(us_BiometricEnabled x \<Longrightarrow> us_EKYCVerified x) \<Longrightarrow> us_BiometricEnabled x' \<Longrightarrow> us_EKYCVerified x'"
  shows "directory s'"
proof -
  have ok: "customer_ok s u x" using d x by (rule directoryD)
  have "customer_ok s' v y" if "sv_users s' v = Some y" for v y
  proof (cases "v = u")
    case True
    then have "y = x'" using that users by simp
    with True ok same index profiles kyc(2) bio show ?thesis by (auto simp: customer_ok_def)
  next
    case False
    then have "customer_ok s v y" using that users directoryD(1) [OF d] by simp
    with False index profiles kyc(1) show ?thesis by (simp add: customer_ok_def)
  qed
  moreover have "\<exists>y. sv_users s' v = Some y \<and> us_Mobile y = m"
    if "lg_mobileIndex (sv_login s') m = Some v" for m v
    using directoryD(2) [OF d, of m v] that index users same x by (cases "v = u") auto
  moreover have "\<exists>y. sv_users s' v = Some y \<and> us_CKYC y = c"
    if "lg_ckycIndex (sv_login s') c = Some v" for c v
    using directoryD(3) [OF d, of c v] that index users same x by (cases "v = u") auto
  ultimately show ?thesis by (simp add: directory_def)
qed

text \<open>An operation that touches neither customers nor indexes.\<close>

lemma directory_frame:
  "directory s \<Longrightarrow> sv_users s' = sv_users s \<Longrightarrow> sv_authProfiles s' = sv_authProfiles s \<Longrightarrow>
   lg_mobileIndex (sv_login s') = lg_mobileIndex (sv_login s) \<Longrightarrow>
   lg_ckycIndex (sv_login s') = lg_ckycIndex (sv_login s) \<Longrightarrow>
   lg_kycProfiles (sv_login s') = lg_kycProfiles (sv_login s) \<Longrightarrow> directory s'"
  by (simp add: directory_def customer_ok_def)

lemma enrol_views:
  assumes "enrol env now rnd u req s = (x, s')"
  shows "\<exists>ubt bound. x = new_user now u (allocateCKYCLocked (lg_ckycIndex (sv_login s))) ubt bound req"
    and "sv_users s' = (sv_users s)(u \<mapsto> x)"
    and "sv_authProfiles s' = (sv_authProfiles s)(u \<mapsto> new_auth_profile env rnd u req)"
    and "lg_mobileIndex (sv_login s') = (lg_mobileIndex (sv_login s))(rg_Mobile req \<mapsto> u)"
    and "lg_ckycIndex (sv_login s') =
      (lg_ckycIndex (sv_login s))(allocateCKYCLocked (lg_ckycIndex (sv_login s)) \<mapsto> u)"
    and "lg_kycProfiles (sv_login s') = (lg_kycProfiles (sv_login s))(u \<mapsto> new_kyc u req)"
  using assms by (auto simp: enrol_def Let_def nextID_def new_user_def split: prod.splits)

lemma pending_not_verified: "ToLower ''pending'' \<noteq> ''verified''" "ToLower ''verified'' = ''verified''"
  by code_simp+

lemma directory_enrol:
  assumes d: "directory s" and fresh: "sv_users s u = None" "lg_mobileIndex (sv_login s) (rg_Mobile req) = None"
    and left: "allocateCKYCLocked (lg_ckycIndex (sv_login s)) \<noteq> []"
    and e: "enrol env now rnd u req s = (x, s')"
  shows "directory s'"
proof -
  let ?c = "allocateCKYCLocked (lg_ckycIndex (sv_login s))"
  note v = enrol_views [OF e]
  note free = allocate_free [OF left]
  have x: "us_ID x = u" "us_Mobile x = rg_Mobile req" "us_CKYC x = ?c" "\<not> us_EKYCVerified x" "\<not> us_BiometricEnabled x"
    using v(1) by (auto simp: new_user_def)
  have new: "\<not> kyc_verified (new_kyc u req)" by (simp add: kyc_verified_def new_kyc_def pending_not_verified)
  have "customer_ok s' w y" if "sv_users s' w = Some y" for w y
  proof (cases "w = u")
    case True
    then have "y = x" using that v(2) by simp
    then show ?thesis using True x new free by (simp add: customer_ok_def v)
  next
    case False
    then have y: "sv_users s w = Some y" using that v(2) by simp
    then have "customer_ok s w y" by (rule directoryD(1) [OF d])
    moreover have "us_Mobile y \<noteq> rg_Mobile req" "us_CKYC y \<noteq> ?c"
      using calculation fresh(2) free by (auto simp: customer_ok_def)
    ultimately show ?thesis using False by (simp add: customer_ok_def v)
  qed
  moreover have "\<exists>y. sv_users s' w = Some y \<and> us_Mobile y = m" if "lg_mobileIndex (sv_login s') m = Some w" for m w
    using that x fresh directoryD(2) [OF d, of m w] by (cases "m = rg_Mobile req") (auto simp: v)
  moreover have "\<exists>y. sv_users s' w = Some y \<and> us_CKYC y = c" if "lg_ckycIndex (sv_login s') c = Some w" for c w
    using that x fresh directoryD(3) [OF d, of c w] by (cases "c = ?c") (auto simp: v)
  ultimately show ?thesis by (simp add: directory_def)
qed

lemma directory_Register:
  assumes "directory s" and "onb_allowed s (Enrol t rnd req)"
  shows "directory (snd (sv_Register env t rnd req s))"
proof (cases "rg_Mobile (trim_register req) = [] \<or> rg_DeviceIDFingerprint (trim_register req) = [] \<or>
    lg_mobileIndex (sv_login s) (rg_Mobile (trim_register req)) \<noteq> None")
  case True
  then show ?thesis using assms(1) by (auto simp: sv_Register_def Let_def split: option.splits)
next
  case False
  obtain x s1 where e: "enrol env t rnd (''usr_'' @ rr_uuid rnd) (trim_register req) s = (x, s1)" by fastforce
  from False assms have "directory s1" by (intro directory_enrol [OF _ _ _ _ e]) auto
  then have "directory (appendAudit (oe_sv env) t (us_ID x) ''registration_completed'' ''system'' ''success''
      ''User registration and SIM binding completed'' ''System'' s1)"
    by (rule directory_frame) simp_all
  then show ?thesis using False by (auto simp: sv_Register_def Let_def e simp del: append_Cons)
qed


lemma directory_step:
  assumes "directory s" and "onb_allowed s e"
  shows "directory (onb_step env s e)"
proof (cases e)
  case (Enrol t rnd req)
  then show ?thesis using assms directory_Register by simp
next
  case (Ekyc t req)
  show ?thesis
  proof (cases "fst (VerifyEKYC env t req s)")
    case (Inl err)
    then have "snd (VerifyEKYC env t req s) = s"
      by (auto simp: VerifyEKYC_def Let_def split: option.splits sum.splits if_splits)
    then show ?thesis using assms Ekyc by simp
  next
    case (Inr x')
    then obtain x where x: "sv_users s (ek_UserID req) = Some x"
      by (auto simp: VerifyEKYC_def split: option.splits)
    have ok: "customer_ok s (ek_UserID req) x" using assms(1) x by (rule directoryD)
    show ?thesis unfolding Ekyc onb_step.simps using Inr x ok
      by (intro directory_edit [OF assms(1) x, of _ "x\<lparr>us_EKYCVerified := True,
            us_KIN := kin_for env (ek_AadhaarLast4 req) (ek_PanLast4 req)\<rparr>"])
         (auto simp: VerifyEKYC_def Let_def customer_ok_def kyc_verified_def mark_verified_def pending_not_verified
           kyc_or_new_def split: sum.splits if_splits option.splits)
  qed
next
  case (Biometric t rnd req)
  show ?thesis
  proof (cases "fst (RegisterBiometric env t rnd req s)")
    case (Inl err)
    then have "directory (snd (RegisterBiometric env t rnd req s))"
      by (intro directory_frame [OF assms(1)])
         (auto simp: RegisterBiometric_def Let_def split: option.splits sum.splits prod.splits if_splits)
    then show ?thesis using Biometric by simp
  next
    case (Inr x')
    then obtain x where x: "sv_users s (bs_UserID req) = Some x"
      by (auto simp: RegisterBiometric_def split: option.splits)
    have ok: "customer_ok s (bs_UserID req) x" using assms(1) x by (rule directoryD)
    show ?thesis unfolding Biometric onb_step.simps using Inr x ok
      by (intro directory_edit [OF assms(1) x, of _ "x\<lparr>us_BiometricEnabled := True\<rparr>"])
         (auto simp: RegisterBiometric_def Let_def customer_ok_def split: sum.splits if_splits option.splits prod.splits)
  qed
next
  case (EditAuth t u req)
  show ?thesis
  proof (cases "sv_users s u")
    case None
    then show ?thesis using assms EditAuth by (simp add: UpdateAuthProfile_def)
  next
    case (Some x)
    show ?thesis unfolding EditAuth onb_step.simps using Some
      by (intro directory_edit [OF assms(1) Some, of _ "x\<lparr>us_Name := or_keep (ua_FullName req) (us_Name x),
            us_Email := or_keep (ua_Email req) (us_Email x)\<rparr>"])
         (auto simp: UpdateAuthProfile_def Let_def)
  qed
next
  case (EditKYC t u req)
  show ?thesis
  proof (cases "sv_users s u")
    case None
    then show ?thesis using assms EditKYC by (simp add: UpsertKYCProfile_def)
  next
    case (Some x)
    have ok: "customer_ok s u x" using assms(1) Some by (rule directoryD)
    then obtain p where p: "lg_kycProfiles (sv_login s) u = Some p" "kyc_verified p \<longleftrightarrow> us_EKYCVerified x"
      by (auto simp: customer_ok_def)
    show ?thesis unfolding EditKYC onb_step.simps using Some p
      by (intro directory_edit [OF assms(1) Some, of _ "x\<lparr>us_Name := or_keep (kp_FullName req) (us_Name x),
            us_Email := or_keep (kp_Email req) (us_Email x)\<rparr>"])
         (auto simp: UpsertKYCProfile_def Let_def kyc_or_new_def kyc_verified_def edit_kyc_def)
  qed
next
  case (Nudge t u pref)
  show ?thesis
  proof (cases "sv_users s u")
    case None
    then show ?thesis using assms Nudge by (simp add: SetNudgePreference_def Let_def)
  next
    case (Some x)
    show ?thesis
    proof (cases "ToLower (TrimSpace pref) = []")
      case True
      then show ?thesis using assms Nudge Some by (simp add: SetNudgePreference_def Let_def)
    next
      case False
      then show ?thesis unfolding Nudge onb_step.simps using Some
        by (intro directory_edit [OF assms(1) Some, of _ "x\<lparr>us_NudgePreference := ToLower (TrimSpace pref)\<rparr>"])
           (auto simp: SetNudgePreference_def Let_def)
    qed
  qed
qed (use directory_frame [OF assms(1)] in
  \<open>auto simp: SetConsent_def SubmitFeedback_def AddNetWorthAsset_def RemoveNetWorthAsset_def AddEmergencyContact_def
     DeleteEmergencyContact_def nextID_def Let_def intro!: directory_frame [OF assms(1)] split: option.splits\<close>)

lemma directory_run: "directory s \<Longrightarrow> run_allowed env es s \<Longrightarrow> directory (onb_run env es s)"
  by (induction es arbitrary: s) (auto intro: directory_step)

lemma directory_fresh: "directory (fresh_service engine graph)"
  by (simp add: directory_def fresh_service_def fresh_login_def)


section \<open>Customers\<close>

lemma or_keep_simps [simp]: "or_keep [] old = old"
  by (simp add: or_keep_def)

lemma step_verifies:
  assumes d: "directory s" and y: "sv_users (onb_step env s e) u = Some y" "us_EKYCVerified y"
    and n: "\<forall>x. sv_users s u = Some x \<longrightarrow> \<not> us_EKYCVerified x"
  shows "\<exists>t req. e = Ekyc t req \<and> ek_UserID req = u \<and> four_digits (TrimSpace (ek_PanLast4 req)) \<and>
    four_digits (TrimSpace (ek_AadhaarLast4 req)) \<and> (\<exists>x. fst (VerifyEKYC env t req s) = Inr x)"
proof (cases e)
  case (Enrol t rnd req)
  obtain x s1 where en: "enrol env t (rnd) (''usr_'' @ rr_uuid rnd) (trim_register req) s = (x, s1)" by fastforce
  have "\<not> us_EKYCVerified x" using enrol_views(1) [OF en] by (auto simp: new_user_def)
  then show ?thesis using Enrol y n enrol_views(2) [OF en]
    by (auto simp: sv_Register_def Let_def en simp del: append_Cons split: if_splits option.splits)
next
  case (Ekyc t req)
  then show ?thesis using y n
    by (auto simp: VerifyEKYC_def VerifyPANLast4_def VerifyAadhaarLast4_def Let_def split: option.splits if_splits)
next
  case (Biometric t rnd req)
  then show ?thesis using y n
    by (auto simp: RegisterBiometric_def Let_def split: option.splits if_splits sum.splits prod.splits)
next
  case (EditAuth t v req)
  then show ?thesis using y n by (auto simp: UpdateAuthProfile_def Let_def split: option.splits if_splits)
next
  case (EditKYC t v req)
  show ?thesis
  proof (cases "sv_users s v")
    case None
    then show ?thesis using EditKYC y n by (simp add: UpsertKYCProfile_def)
  next
    case (Some x)
    then obtain p where "lg_kycProfiles (sv_login s) v = Some p" "kyc_verified p \<longleftrightarrow> us_EKYCVerified x"
      using directoryD(1) [OF d Some] by (auto simp: customer_ok_def)
    then show ?thesis using EditKYC y n Some
      by (auto simp: UpsertKYCProfile_def Let_def kyc_or_new_def kyc_verified_def edit_kyc_def split: if_splits)
  qed
next
  case (Nudge t v p)
  then show ?thesis using y n by (auto simp: SetNudgePreference_def Let_def split: option.splits if_splits)
qed (use y n in \<open>auto simp: SetConsent_def SubmitFeedback_def AddNetWorthAsset_def RemoveNetWorthAsset_def
     AddEmergencyContact_def DeleteEmergencyContact_def nextID_def Let_def split: option.splits if_splits\<close>)

text \<open>
  C27: every customer can be reached by exactly their own handles: after any run of registrations,
  verifications, profile edits and changes of consents, contacts and assets, a login that
  names a CKYC number, a mobile number or an id resolves to the customer who has it, every customer's three
  handles resolve to them, the CKYC number has ten digits, the customer has a profile to log in with, and a
  biometric key is registered only for the verified.
\<close>
theorem handles_name_one_customer:
  fixes s :: "'f Service"
  assumes "run_allowed env es (fresh_service engine graph :: 'f Service)"
    and "s = onb_run env es (fresh_service engine graph)"
  shows "(resolve_login req s = Some u \<longrightarrow> (\<exists>x. sv_users s u = Some x \<and> us_ID x = u \<and>
      (if pl_CKYC req \<noteq> [] then us_CKYC x = pl_CKYC req
       else if pl_Mobile req \<noteq> [] then us_Mobile x = pl_Mobile req else u = pl_UserID req))) \<and>
    (sv_users s u = Some x \<longrightarrow> ckyc_ok (us_CKYC x) \<and> sv_authProfiles s u \<noteq> None \<and>
      lg_ckycIndex (sv_login s) (us_CKYC x) = Some u \<and> lg_mobileIndex (sv_login s) (us_Mobile x) = Some u \<and>
      (us_BiometricEnabled x \<longrightarrow> us_EKYCVerified x))"
proof -
  have d: "directory s" unfolding assms(2) using directory_run [OF directory_fresh assms(1)] .
  have "\<exists>x. sv_users s u = Some x \<and> us_ID x = u \<and>
      (if pl_CKYC req \<noteq> [] then us_CKYC x = pl_CKYC req
       else if pl_Mobile req \<noteq> [] then us_Mobile x = pl_Mobile req else u = pl_UserID req)"
    if "resolve_login req s = Some u"
    using that directoryD [OF d] unfolding customer_ok_def resolve_login_def by (fastforce split: if_splits)
  then show ?thesis using directoryD(1) [OF d, of u x] by (auto simp: customer_ok_def)
qed

text \<open>
  C28: nobody becomes KYC-verified by editing profiles: if a customer is verified after a run and was not before, the
  run contains an accepted verification of that customer with four digits for the PAN and four for the Aadhaar number.
\<close>
theorem verified_only_by_ekyc:
  assumes "directory s" and "run_allowed env es s"
    and "sv_users (onb_run env es s) u = Some x" and "us_EKYCVerified x"
    and "\<forall>y. sv_users s u = Some y \<longrightarrow> \<not> us_EKYCVerified y"
  shows "\<exists>es1 t req es2. es = es1 @ Ekyc t req # es2 \<and> ek_UserID req = u \<and>
    four_digits (TrimSpace (ek_PanLast4 req)) \<and> four_digits (TrimSpace (ek_AadhaarLast4 req)) \<and>
    (\<exists>y. fst (VerifyEKYC env t req (onb_run env es1 s)) = Inr y)"
  using assms
proof (induction es arbitrary: s)
  case (Cons e es)
  let ?s = "onb_step env s e"
  have d: "directory ?s" using Cons.prems directory_step [of s e env] by simp
  show ?case
  proof (cases "\<exists>y. sv_users ?s u = Some y \<and> us_EKYCVerified y")
    case False
    then obtain es1 t req es2 where "es = es1 @ Ekyc t req # es2" and r: "ek_UserID req = u"
        "four_digits (TrimSpace (ek_PanLast4 req))" "four_digits (TrimSpace (ek_AadhaarLast4 req))"
        "\<exists>y. fst (VerifyEKYC env t req (onb_run env es1 ?s)) = Inr y"
      using Cons.IH [OF d] Cons.prems by auto
    then have "e # es = (e # es1) @ Ekyc t req # es2" by simp
    moreover have "\<exists>y. fst (VerifyEKYC env t req (onb_run env (e # es1) s)) = Inr y" using r(4) by simp
    ultimately show ?thesis using r(1-3) by blast
  next
    case True
    then obtain y where y: "sv_users ?s u = Some y" "us_EKYCVerified y" by blast
    obtain t req where e: "e = Ekyc t req" and r: "ek_UserID req = u"
        "four_digits (TrimSpace (ek_PanLast4 req))" "four_digits (TrimSpace (ek_AadhaarLast4 req))"
        "\<exists>y. fst (VerifyEKYC env t req s) = Inr y"
      using step_verifies [OF Cons.prems(1) y Cons.prems(5)] by blast
    have "e # es = [] @ Ekyc t req # es" by (simp add: e)
    moreover have "\<exists>y. fst (VerifyEKYC env t req (onb_run env [] s)) = Inr y" using r(4) by simp
    ultimately show ?thesis using r(1-3) by blast
  qed
qed simp


section \<open>What a profile edit answers\<close>

lemma onb_frame_otp [simp]:
  "sv_otpLockUntil (set_user u x s) = sv_otpLockUntil s" "sv_otpAttempts (set_user u x s) = sv_otpAttempts s"
  "sv_otpLockUntil (set_profile u p s) = sv_otpLockUntil s" "sv_otpAttempts (set_profile u p s) = sv_otpAttempts s"
  "sv_otpLockUntil (appendAudit e now v a r oc d b s) = sv_otpLockUntil s"
  by (simp_all add: set_user_def set_profile_def appendAudit_def ledger_write_def nextID_def Let_def)

lemma edit_keeps_secrets [simp]:
  "ap_OTPCode (edit_auth_profile req p) = ap_OTPCode p"
  "ap_OTPExpiryTime (edit_auth_profile req p) = ap_OTPExpiryTime p"
  "ap_PasswordHash (edit_auth_profile req p) = ap_PasswordHash p"
  by (simp_all add: edit_auth_profile_def)

lemma pad0_nonempty: "pad0 (Suc k) d \<noteq> []" "pad0 6 d \<noteq> []"
  by (cases d; simp add: pad0_def)+

lemma digits_TrimSpace:
  assumes "\<forall>c \<in> set s. is_digit c"
  shows "TrimSpace s = s"
proof -
  have "is_digit c \<Longrightarrow> \<not> is_space c" for c by (auto simp: is_digit_def is_space_def Let_def)
  then show ?thesis using assms by (intro TrimSpace_id) (cases "s = []"; simp)
qed

text \<open>
  The one-time code is no second factor while profiles can be edited: any profile edit after a code was
  generated, also an empty one, answers the stored hash of the PIN and the live code, and the code so obtained verifies
  until it expires.
\<close>
theorem profile_edit_discloses_otp:
  assumes "GenerateOTP (oe_sv env) random t1 u s = (Inr otp, s1)"
    and "UpdateAuthProfile env t2 u req s1 = (Inr p, s2)" and "t3 \<le> t1 + 10 * minute"
  shows "ap_OTPCode p = otp \<and> fst (VerifyOTPToken (oe_sv env) t3 u (ap_OTPCode p) s2) = Inr () \<and>
    (\<exists>q. sv_authProfiles s u = Some q \<and> ap_PasswordHash p = ap_PasswordHash q)"
proof -
  obtain q n where q: "requireUser u s = None" "sv_authProfiles s u = Some q" "otp = pad0 6 (dec (n mod 1000000))"
    "s1 = appendAudit (oe_sv env) t1 u ''otp_generated'' ''auth'' ''success'' ''OTP generated for step-up verification''
       ''System'' (reset_otp_counters u (set_profile u (q\<lparr>ap_OTPCode := otp,
         ap_OTPExpiryTime := Some (t1 + 10 * minute), ap_OTPAttempts := 0\<rparr>) s))"
    using assms(1) by (auto simp: GenerateOTP_def Let_def split: option.splits if_splits)
  have s1: "sv_authProfiles s1 u = Some (q\<lparr>ap_OTPCode := otp, ap_OTPExpiryTime := Some (t1 + 10 * minute),
        ap_OTPAttempts := 0\<rparr>)" "sv_users s1 = sv_users s" "sv_otpLockUntil s1 (otp_key u) = None"
    by (simp_all add: q(4) frame_simps reset_otp_counters_def)
  obtain x where x: "sv_users s1 u = Some x" using assms(2) by (auto simp: UpdateAuthProfile_def split: option.splits)
  have p: "p = edit_auth_profile req (q\<lparr>ap_OTPCode := otp, ap_OTPExpiryTime := Some (t1 + 10 * minute),
        ap_OTPAttempts := 0\<rparr>)"
    and s2: "sv_authProfiles s2 u = Some p" "sv_users s2 u \<noteq> None" "sv_otpLockUntil s2 (otp_key u) = None"
    using assms(2) x s1 by (auto simp: UpdateAuthProfile_def Let_def)
  have "n mod 1000000 = int (nat (n mod 1000000))" by simp
  then have "\<forall>c \<in> set otp. is_digit c" unfolding q(3) using pad0_dec_chars by metis
  then have "TrimSpace otp = otp" by (rule digits_TrimSpace)
  moreover have "otp \<noteq> []" unfolding q(3) by (rule pad0_nonempty)
  moreover have "requireUser u s2 = None" using q(1) s2(2) by (auto simp: requireUser_def split: if_splits)
  ultimately show ?thesis using s2 assms(3) q(2)
    by (simp add: VerifyOTPToken_def Let_def p otp_locked_def)
qed

lemma strip_padding_keeps:
  assumes "c \<in> set t" and "c \<noteq> CHR ''=''"
  shows "c \<in> set (strip_padding t)"
proof -
  have *: "c \<in> set (drop k r)" if "c \<in> set r" "take k r = replicate m (CHR ''='')" for r k m
  proof -
    have "c \<in> set (take k r) \<or> c \<in> set (drop k r)" using that(1) by (metis Un_iff append_take_drop_id set_append)
    then show ?thesis using that(2) assms(2) by auto
  qed
  show ?thesis using * [of "rev t" 1 1] * [of "rev t" 2 2] assms(1)
    by (simp add: strip_padding_def Let_def numeral_2_eq_2)
qed

text \<open>
  An e-mail address that is changed in the profile is lost to its owner: the edit stores it in clear, the
  profile query decrypts what is stored, and an address with an at sign is no base64, so the query answers none.
\<close>
theorem edited_email_unreadable:
  assumes "UpdateAuthProfile env t u req s = (Inr p, s')" and "CHR ''@'' \<in> set (TrimSpace (ua_Email req))"
  shows "ap_Email p = TrimSpace (ua_Email req) \<and> (\<exists>q. sv_AuthProfile env u s' = Inr q \<and> ap_Email q = [])"
proof -
  let ?e = "TrimSpace (ua_Email req)"
  let ?t = "filter (\<lambda>c. c \<noteq> CHR 0x0A \<and> c \<noteq> CHR 0x0D) ?e"
  have "CHR ''@'' \<in> set ?t" using assms(2) by simp
  then have "CHR ''@'' \<in> set (strip_padding ?t)" by (rule strip_padding_keeps) simp
  moreover have "index_of (CHR ''@'') std_alphabet = None" by code_simp
  ultimately have "None \<in> set (map (\<lambda>c. index_of c std_alphabet) (strip_padding ?t))" by force
  then have "StdDecodeString ?e = None" by (simp add: StdDecodeString_def Let_def)
  then have "DecryptField (oe_unseal env) ?e = []" by (simp add: DecryptField_def)
  moreover have e: "?e \<noteq> []" using assms(2) by auto
  obtain x where x: "sv_users s u = Some x" using assms(1) by (auto simp: UpdateAuthProfile_def split: option.splits)
  have "ap_Email p = ?e" "sv_authProfiles s' u = Some p" "sv_users s' u \<noteq> None"
    using assms(1) x e by (auto simp: UpdateAuthProfile_def Let_def edit_auth_profile_def or_keep_def)
  ultimately show ?thesis by (auto simp: sv_AuthProfile_def)
qed

section \<open>What registration answers\<close>

lemma Register_new:
  assumes "sv_Register env t rnd req s = (Inr (u, ubt), s')"
    and "lg_mobileIndex (sv_login s) (TrimSpace (rg_Mobile req)) = None"
  obtains x where "u = ''usr_'' @ rr_uuid rnd" and "sv_users s' u = Some x"
    and "sv_authProfiles s' u = Some (new_auth_profile env rnd u (trim_register req))"
proof -
  obtain x s1 where e: "enrol env t rnd (''usr_'' @ rr_uuid rnd) (trim_register req) s = (x, s1)" by fastforce
  have m: "rg_Mobile (trim_register req) = TrimSpace (rg_Mobile req)" by (simp add: trim_register_def)
  have id: "us_ID x = ''usr_'' @ rr_uuid rnd" using enrol_views(1) [OF e] by (auto simp: new_user_def)
  have "u = us_ID x" "sv_users s' = sv_users s1" "sv_authProfiles s' = sv_authProfiles s1"
    using assms e by (auto simp: sv_Register_def Let_def m simp del: append_Cons split: if_splits)
  then show thesis using enrol_views(2,3) [OF e] id by (intro that [of x]) auto
qed

text \<open>
  What a new customer registers can be read back: with a cipher that opens what it seals and nonces of twelve
  bytes, the profile of a registered customer answers the trimmed mobile number and e-mail address, and neither a PIN hash nor a code.
\<close>
theorem registered_contacts_readable:
  assumes "sv_Register env t rnd req s = (Inr (u, ubt), s')"
    and "lg_mobileIndex (sv_login s) (TrimSpace (rg_Mobile req)) = None"
    and "cipher_ok (oe_seal env) (oe_unseal env)"
    and "rr_nonce1 rnd = Some n1" and "rr_nonce2 rnd = Some n2" and "length n1 = nonceSize" and "length n2 = nonceSize"
  shows "\<exists>q. sv_AuthProfile env u s' = Inr q \<and> ap_MobileNumber q = TrimSpace (rg_Mobile req) \<and>
    ap_Email q = TrimSpace (rg_Email req) \<and> ap_PasswordHash q = [] \<and> ap_OTPCode q = []"
proof -
  obtain x where "sv_users s' u = Some x"
      and p: "sv_authProfiles s' u = Some (new_auth_profile env rnd u (trim_register req))"
    using Register_new [OF assms(1,2)] by blast
  moreover have "DecryptField (oe_unseal env) (EncryptField (oe_seal env) (rr_nonce1 rnd) y) = y"
      "DecryptField (oe_unseal env) (EncryptField (oe_seal env) (rr_nonce2 rnd) y) = y" for y
    using assms(3-) by (simp_all add: DecryptField_EncryptField)
  ultimately show ?thesis by (simp add: sv_AuthProfile_def new_auth_profile_def trim_register_def)
qed

text \<open>
  The answer to a registration with a known mobile number is the customer's id and bearer token, whoever asks and
  from whatever device.
\<close>
theorem known_mobile_reveals_token:
  assumes "directory s" and "sv_users s u = Some x" and "us_Mobile x = TrimSpace (rg_Mobile req)"
    and "TrimSpace (rg_Mobile req) \<noteq> []" and "TrimSpace (rg_DeviceIDFingerprint req) \<noteq> []"
  shows "sv_Register env t rnd req s = (Inr (u, us_UBT x), s)"
  using directoryD(1) [OF assms(1,2)] assms(2-)
  by (simp add: sv_Register_def Let_def trim_register_def customer_ok_def)

section \<open>PAN\<close>

lemma last_dropWhile: "s \<noteq> [] \<Longrightarrow> \<not> P (last s) \<Longrightarrow> dropWhile P s \<noteq> [] \<and> last (dropWhile P s) = last s"
  by (induction s) (auto split: if_splits)

lemma last_TrimSpace:
  assumes "s \<noteq> []" and "\<not> is_space (last s)"
  shows "TrimSpace s \<noteq> []" and "last (TrimSpace s) = last s"
proof -
  have d: "dropWhile is_space s \<noteq> []" "last (dropWhile is_space s) = last s"
    using last_dropWhile [of s is_space] assms by auto
  then have "dropWhile is_space (rev (dropWhile is_space s)) = rev (dropWhile is_space s)"
    using assms(2) by (cases "dropWhile is_space s" rule: rev_cases) auto
  then show "TrimSpace s \<noteq> []" "last (TrimSpace s) = last s" using d by (simp_all add: TrimSpace_def)
qed

text \<open>
  No customer can pass e-KYC with the last four characters of a real PAN: a PAN that the pattern of
  \<open>VerifyPAN\<close> accepts ends in a letter, and the check of the last four characters asks for four digits.
\<close>
theorem real_pan_refused:
  assumes "VerifyPAN pan" and "sv_users s (ek_UserID req) \<noteq> None"
    and "ek_PanLast4 req = last_chars 4 (TrimSpace pan)" and "length (TrimSpace (ek_AadhaarLast4 req)) = 4"
  shows "\<exists>e. fst (VerifyEKYC env t req s) = Inl e"
proof -
  let ?p = "TrimSpace pan" and ?l = "last_chars 4 (TrimSpace pan)"
  have p: "length ?p = 10" "is_upper (ToUpper ?p ! 9)"
    using assms(1) by (auto simp: VerifyPAN_def panRegex_def Let_def ToUpper_def list_all_length)
  moreover have "last ?p = ?p ! 9" using p(1) by (cases "?p = []") (simp_all add: last_conv_nth)
  ultimately have up: "is_upper (upper_char (last ?p))" by (simp add: ToUpper_def)
  have letter: "\<not> is_space c \<and> \<not> is_digit c" if "is_upper (upper_char c)" for c
    using that by (auto simp: is_upper_def upper_char_def is_space_def is_digit_def Let_def split: if_splits)
  have l: "?l \<noteq> []" "last ?l = last ?p" using p(1) by (auto simp: last_chars_def)
  then have "TrimSpace ?l \<noteq> []" "last (TrimSpace ?l) = last ?p"
    using last_TrimSpace [of ?l] letter [OF up] by simp_all
  then have "\<not> list_all is_digit (TrimSpace ?l)" using letter [OF up] by (metis last_in_set list_all_iff)
  then show ?thesis using assms(2,3) by (auto simp: VerifyEKYC_def VerifyPANLast4_def four_digits_def)
qed

section \<open>A concrete customer\<close>

definition demo_onb :: "unit onb_env" where
  "demo_onb = \<lparr>oe_login = \<lparr>le_sv = demo_env, le_hash = Some, le_compare = (=),
       le_jwt = \<lparr>je_hmac = (\<lambda>k s. s), je_marshal = (\<lambda>c. None), je_unmarshal = (\<lambda>s. None)\<rparr>,
       le_pk = \<lparr>pk_parse = (\<lambda>s. None), pk_sha256 = (\<lambda>s. s), pk_verify = (\<lambda>k d g. False)\<rparr>,
       le_parse_time = (\<lambda>s. None), le_key_error = []\<rparr>,
     oe_hmac = (\<lambda>k s. s), oe_getenv = (\<lambda>n. []), oe_seal = (\<lambda>n p. p), oe_unseal = (\<lambda>n c. Some c),
     oe_sim = None, oe_kin = None, oe_due = (\<lambda>t k. [])\<rparr>"

definition demo_random :: reg_random where
  "demo_random = \<lparr>rr_uuid = ''1'', rr_ubt = ''a'', rr_simID = Some ''c'', rr_vnn = Some ''v'',
     rr_bindUBT = Some ''b'', rr_nonce1 = Some ''nnnnnnnnnnnn'', rr_nonce2 = Some ''mmmmmmmmmmmm'',
     rr_token = ''t'', rr_acctToken = ''x''\<rparr>"

definition demo_register :: RegisterRequest where
  "demo_register = \<lparr>rg_Name = ''Asha'', rg_Mobile = ''98'', rg_Email = ''a@b'', rg_DeviceIDFingerprint = ''d'',
     rg_DeviceType = [], rg_AppVersion = [], rg_IPAddress = [], rg_PIN = []\<rparr>"

definition demo_ekyc :: EKYCRequest where
  "demo_ekyc = \<lparr>ek_UserID = ''usr_1'', ek_PanLast4 = ''1234'', ek_AadhaarLast4 = ''5678''\<rparr>"

abbreviation demo_start :: "unit Service" where "demo_start \<equiv> fresh_service plain_engine empty_graph"

lemma demo_trimmed: "trim_register demo_register = demo_register"
  by (simp add: trim_register_def demo_register_def TrimSpace_def is_space_def)

lemma demo_enrolled:
  obtains x where "sv_users (onb_step demo_onb demo_start (Enrol 0 demo_random demo_register)) ''usr_1'' = Some x"
    and "us_ID x = ''usr_1''" and "us_Mobile x = ''98''" and "\<not> us_EKYCVerified x"
proof -
  obtain x s1 where e: "enrol demo_onb 0 demo_random (''usr_'' @ rr_uuid demo_random) demo_register demo_start = (x, s1)"
    by fastforce
  have "rg_Mobile demo_register = ''98''" "rg_DeviceIDFingerprint demo_register = ''d''" "rr_uuid demo_random = ''1''"
      "lg_mobileIndex (sv_login demo_start) = (\<lambda>_. None)"
    by (simp_all add: demo_register_def demo_random_def fresh_service_def fresh_login_def)
  then have "sv_users (onb_step demo_onb demo_start (Enrol 0 demo_random demo_register)) ''usr_1'' = Some x"
      "us_ID x = ''usr_1''" "us_Mobile x = ''98''" "\<not> us_EKYCVerified x"
    using enrol_views(1,2) [OF e] e by (auto simp: sv_Register_def Let_def demo_trimmed new_user_def)
  then show thesis by (rule that)
qed

lemma demo_allowed: "run_allowed demo_onb [Enrol 0 demo_random demo_register, Ekyc 1 demo_ekyc] demo_start"
proof -
  have "allocateCKYCLocked (\<lambda>_. None) = dec 3000000001"
    by (simp add: allocateCKYCLocked_def ckycAllocationBase_def ckyc_loop.simps [of _ 3000000001])
  then show ?thesis using dec_ckyc_ok(2) [of 3000000001] by (simp add: fresh_service_def fresh_login_def)
qed

theorem handles_name_one_customer_witness:
  "\<exists>x. sv_users (onb_run demo_onb [Enrol 0 demo_random demo_register] demo_start) ''usr_1'' = Some x \<and>
     ckyc_ok (us_CKYC x)"
proof -
  obtain x where x: "sv_users (onb_step demo_onb demo_start (Enrol 0 demo_random demo_register)) ''usr_1'' = Some x"
    using demo_enrolled by blast
  moreover have "run_allowed demo_onb [Enrol 0 demo_random demo_register] demo_start" using demo_allowed by simp
  ultimately show ?thesis
    using handles_name_one_customer [of demo_onb "[Enrol 0 demo_random demo_register]" plain_engine empty_graph _ _ "''usr_1''" x]
    by auto
qed

theorem verified_only_by_ekyc_witness:
  "\<exists>es1 t req es2. [Enrol 0 demo_random demo_register, Ekyc 1 demo_ekyc] = es1 @ Ekyc t req # es2 \<and>
     ek_UserID req = ''usr_1''"
proof -
  obtain x where x: "sv_users (onb_step demo_onb demo_start (Enrol 0 demo_random demo_register)) ''usr_1'' = Some x"
      "us_ID x = ''usr_1''"
    using demo_enrolled by blast
  have "TrimSpace ''1234'' = ''1234''" "TrimSpace ''5678'' = ''5678''" "four_digits ''1234''" "four_digits ''5678''"
    by code_simp+
  then obtain y where "sv_users (onb_run demo_onb [Enrol 0 demo_random demo_register, Ekyc 1 demo_ekyc] demo_start) ''usr_1''
      = Some y" "us_EKYCVerified y"
    using x by (simp add: VerifyEKYC_def VerifyPANLast4_def VerifyAadhaarLast4_def demo_ekyc_def Let_def del: onb_step.simps(1))
  moreover have "sv_users demo_start ''usr_1'' = None" by (simp add: fresh_service_def)
  ultimately show ?thesis
    using verified_only_by_ekyc [OF directory_fresh demo_allowed] by fastforce
qed


definition no_edit :: UpdateAuthProfileRequest where
  "no_edit = \<lparr>ua_FullName = [], ua_Email = [], ua_DeviceIDFingerprint = [], ua_DeviceType = [], ua_AppVersion = [],
     ua_IPAddress = [], ua_TrustedDeviceFlag = None, ua_DeviceChallengePublicKeyID = [],
     ua_RegisteredKeyFingerprint = [], ua_StepUpAuthRequiredFlag = None\<rparr>"

theorem profile_edit_discloses_otp_witness:
  "\<exists>otp s1 p s2. GenerateOTP demo_env (Some 42) 0 ''u1'' demo_service = (Inr otp, s1) \<and>
     UpdateAuthProfile demo_onb 1 ''u1'' no_edit s1 = (Inr p, s2) \<and> ap_OTPCode p = otp \<and>
     fst (VerifyOTPToken demo_env 2 ''u1'' (ap_OTPCode p) s2) = Inr ()"
proof -
  have sv: "oe_sv demo_onb = demo_env" by (simp add: demo_onb_def)
  have u: "requireUser ''u1'' demo_service = None" "\<not> otp_locked 0 ''u1'' demo_service"
      "\<exists>q. sv_authProfiles demo_service ''u1'' = Some q" "sv_users demo_service ''u1'' = Some demo_user"
    by (simp_all add: requireUser_def demo_service_def otp_locked_def fresh_service_def TrimSpace_def is_space_def)
  then obtain otp s1 where g: "GenerateOTP demo_env (Some 42) 0 ''u1'' demo_service = (Inr otp, s1)"
    by (auto simp: GenerateOTP_def Let_def)
  then have "sv_users s1 ''u1'' = Some demo_user" using u
    by (auto simp: GenerateOTP_def Let_def frame_simps reset_otp_counters_def)
  then obtain p s2 where e: "UpdateAuthProfile demo_onb 1 ''u1'' no_edit s1 = (Inr p, s2)"
    by (auto simp: UpdateAuthProfile_def Let_def)
  show ?thesis using profile_edit_discloses_otp [of demo_onb, unfolded sv, OF g e, of 2] g e by auto
qed

definition email_edit :: UpdateAuthProfileRequest where
  "email_edit = no_edit\<lparr>ua_Email := ''a@b''\<rparr>"

lemma demo_email: "TrimSpace ''a@b'' = ''a@b''"
  by code_simp

theorem edited_email_unreadable_witness:
  "\<exists>p s' q. UpdateAuthProfile demo_onb 1 ''u1'' email_edit demo_service = (Inr p, s') \<and> ap_Email p = ''a@b'' \<and>
     sv_AuthProfile demo_onb ''u1'' s' = Inr q \<and> ap_Email q = []"
proof -
  have "sv_users demo_service ''u1'' = Some demo_user" by (simp add: demo_service_def)
  then obtain p s' where e: "UpdateAuthProfile demo_onb 1 ''u1'' email_edit demo_service = (Inr p, s')"
    by (auto simp: UpdateAuthProfile_def Let_def)
  have "TrimSpace (ua_Email email_edit) = ''a@b''" by (simp add: email_edit_def demo_email)
  then show ?thesis using edited_email_unreadable [OF e] e by auto
qed

theorem registered_contacts_readable_witness:
  "\<exists>u ubt s' q. sv_Register demo_onb 0 demo_random demo_register demo_start = (Inr (u, ubt), s') \<and>
     sv_AuthProfile demo_onb u s' = Inr q \<and> ap_MobileNumber q = ''98'' \<and> ap_Email q = ''a@b''"
proof -
  have t: "TrimSpace (rg_Mobile demo_register) = ''98''" "TrimSpace (rg_Email demo_register) = ''a@b''"
    by (simp_all add: demo_register_def TrimSpace_def is_space_def)
  obtain x s1 where en: "enrol demo_onb 0 demo_random (''usr_'' @ rr_uuid demo_random) demo_register demo_start = (x, s1)"
    by fastforce
  obtain u ubt s' where r: "sv_Register demo_onb 0 demo_random demo_register demo_start = (Inr (u, ubt), s')"
    using en demo_trimmed
    by (auto simp: sv_Register_def Let_def demo_register_def fresh_service_def fresh_login_def split: prod.splits)
  have "\<exists>q. sv_AuthProfile demo_onb u s' = Inr q \<and> ap_MobileNumber q = TrimSpace (rg_Mobile demo_register) \<and>
      ap_Email q = TrimSpace (rg_Email demo_register) \<and> ap_PasswordHash q = [] \<and> ap_OTPCode q = []"
  proof (rule registered_contacts_readable [OF r])
    show "rr_nonce1 demo_random = Some ''nnnnnnnnnnnn''" "rr_nonce2 demo_random = Some ''mmmmmmmmmmmm''"
      by (simp_all add: demo_random_def)
  qed (simp_all add: fresh_service_def fresh_login_def cipher_ok_def demo_onb_def nonceSize_def)
  then show ?thesis using r t by auto
qed

definition real_pan :: string where "real_pan = ''ABCDE1234F''"

theorem real_pan_refused_witness:
  "\<exists>e. fst (VerifyEKYC demo_onb 0 \<lparr>ek_UserID = ''u1'', ek_PanLast4 = last_chars 4 (TrimSpace real_pan),
     ek_AadhaarLast4 = ''5678''\<rparr> demo_service) = Inl e"
proof (rule real_pan_refused)
  show "VerifyPAN real_pan" by code_simp
qed (simp_all add: demo_service_def TrimSpace_def is_space_def)

end
