(* ===== verification/SessionGuarantees.thy ===== *)
theory SessionGuarantees
  imports PlatformLogin
begin

text \<open>
  What logins and sessions guarantee, over runs of login events: how fast PINs can be guessed, that
  an authenticated token was opened by a login less than fifteen minutes ago, that a PIN change ends
  every session, and how a refresh that overlaps a PIN change escapes it.
\<close>

section \<open>Runs\<close>

datatype login_event =
    PinLogin time string "string option" PinLoginRequest
  | PasskeyLogin time string LoginVerifyRequest
  | AskChallenge "string option" "string option" string time string
  | ChangePIN time string string
  | FirstPIN time time string string string
  | Authenticate time time string string
  | RefreshSession "nat \<Rightarrow> time" "string option" string string
  | StoreTick time

fun event_time :: "login_event \<Rightarrow> time" where
  "event_time (PinLogin t r j q) = t"
| "event_time (PasskeyLogin t r q) = t"
| "event_time (AskChallenge b i n t u) = t"
| "event_time (ChangePIN t u p) = t"
| "event_time (FirstPIN t1 t2 u p f) = t2"
| "event_time (Authenticate t1 t2 k d) = t2"
| "event_time (RefreshSession clk j k d) = clk 5"
| "event_time (StoreTick t) = t"

fun login_step :: "'key login_env \<Rightarrow> 'f Service \<Rightarrow> login_event \<Rightarrow> 'f Service" where
  "login_step env s (PinLogin t r j q) = snd (LoginWithPIN env t r j q s)"
| "login_step env s (PasskeyLogin t r q) = snd (VerifyLogin env t r q s)"
| "login_step env s (AskChallenge b i n t u) = snd (sv_CreateChallenge env b i n t u s)"
| "login_step env s (ChangePIN t u p) = snd (SetPIN env t u p s)"
| "login_step env s (FirstPIN t1 t2 u p f) = snd (SetInitialPIN env t1 t2 u p f s)"
| "login_step env s (Authenticate t1 t2 k d) = snd (AuthenticateToken env t1 t2 k d s)"
| "login_step env s (RefreshSession clk j k d) = snd (sv_RefreshToken env clk j k d s)"
| "login_step env s (StoreTick t) = with_login (store_cleanup t) s"

text \<open>The session an event opens: token, user, bound device and instant.\<close>

fun opened :: "'key login_env \<Rightarrow> 'f Service \<Rightarrow> login_event \<Rightarrow> (string \<times> string \<times> string \<times> time) option" where
  "opened env s (PinLogin t r j q) =
     (case fst (LoginWithPIN env t r j q s) of
        Inr resp \<Rightarrow> Some (pn_AccessToken resp, pn_UserID resp, TrimSpace (pl_DeviceIDFingerprint q), t)
      | Inl _ \<Rightarrow> None)"
| "opened env s (PasskeyLogin t r q) =
     (case (fst (VerifyLogin env t r q s), sv_users s (lv_UserID q)) of
        (Inr token, Some user) \<Rightarrow> Some (token, us_ID user, TrimSpace (lv_DeviceIDFingerprint q), t)
      | _ \<Rightarrow> None)"
| "opened env s (RefreshSession clk j k d) =
     (case refresh_check k d s of
        Inl _ \<Rightarrow> None
      | Inr (oldToken, device) \<Rightarrow>
          (case fst (refresh_mint env clk j oldToken device s) of
             Inr (newToken, c) \<Rightarrow> Some (newToken, cl_Sub c, cl_DeviceFP c, clk 5)
           | Inl _ \<Rightarrow> None))"
| "opened env s e = None"

section \<open>Frames\<close>

lemma login_frame [simp]:
  "sv_login (set_profile u p s) = sv_login s" "sv_login (change_profile u f s) = sv_login s"
  "sv_login (with_login g s) = g (sv_login s)" "sv_login (audit env now v e oc d b s) = sv_login s"
  "sv_authProfiles (with_login g s) = sv_authProfiles s"
  "sv_authProfiles (audit env now v e oc d b s) = sv_authProfiles s"
  "sv_users (with_login g s) = sv_users s" "sv_users (audit env now v e oc d b s) = sv_users s"
  by (simp_all add: set_profile_def change_profile_def with_login_def audit_def appendAudit_def ledger_write_def
    nextID_def Let_def split: option.split)

lemma profiles_change [simp]:
  "sv_authProfiles (set_profile u p s) v = (if v = u then Some p else sv_authProfiles s v)"
  "sv_authProfiles (change_profile u f s) v =
     (if v = u then map_option f (sv_authProfiles s u) else sv_authProfiles s v)"
  by (auto simp: set_profile_def change_profile_def split: option.split)

lemma keys_differ [simp]:
  "expiry_key t \<noteq> session_key k" "expiry_key t \<noteq> device_key k" "session_key k \<noteq> device_key t"
  "session_key k \<noteq> expiry_key t" "device_key k \<noteq> expiry_key t" "device_key t \<noteq> session_key k"
  "session_key t = session_key k \<longleftrightarrow> t = k" "device_key t = device_key k \<longleftrightarrow> t = k"
  "expiry_key t = expiry_key k \<longleftrightarrow> t = k"
  by (simp_all add: session_key_def device_key_def expiry_key_def)

lemma drop_session_sessions [simp]:
  "map_of (lg_sessions (drop_session k lm)) = (map_of (lg_sessions lm))(k := None)"
  "lg_sessionExpiry (drop_session k lm) = (lg_sessionExpiry lm)(k := None)"
  "lg_sessionDevice (drop_session k lm) = (lg_sessionDevice lm)(k := None)"
  "lg_sessionStore (drop_session k lm) = lg_sessionStore lm"
  "lg_jwt (drop_session k lm) = lg_jwt lm"
  by (auto simp: drop_session_def AList.delete_conv)

lemma open_session_views [simp]:
  "map_of (lg_sessions (open_session now k u d lm)) = (map_of (lg_sessions lm))(k \<mapsto> u)"
  "lg_sessionExpiry (open_session now k u d lm) = (lg_sessionExpiry lm)(k \<mapsto> now + session_ttl)"
  "lg_sessionDevice (open_session now k u d lm) = (lg_sessionDevice lm)(k \<mapsto> d)"
  "lg_sessionStore (open_session now k u d lm) = (lg_sessionStore lm)
     (session_key k \<mapsto> (u, now + session_ttl), device_key k \<mapsto> (d, now + session_ttl))"
  "lg_jwt (open_session now k u d lm) = lg_jwt lm"
  by (auto simp: open_session_def store_Set_def AList.update_conv)

lemma store_Delete_views [simp]:
  "lg_sessions (store_Delete k lm) = lg_sessions lm" "lg_sessionExpiry (store_Delete k lm) = lg_sessionExpiry lm"
  "lg_sessionDevice (store_Delete k lm) = lg_sessionDevice lm" "lg_jwt (store_Delete k lm) = lg_jwt lm"
  "lg_sessionStore (store_Delete k lm) = (lg_sessionStore lm)(k := None)"
  by (simp_all add: store_Delete_def)

section \<open>A PIN change ends the sessions\<close>

lemma revoke_and_drop_views:
  "map_of (lg_sessions (revoke_and_drop env now k lm)) = (map_of (lg_sessions lm))(k := None)"
  "lg_sessionExpiry (revoke_and_drop env now k lm) = (lg_sessionExpiry lm)(k := None)"
  "lg_sessionDevice (revoke_and_drop env now k lm) = (lg_sessionDevice lm)(k := None)"
  "lg_sessionStore (revoke_and_drop env now k lm) = (lg_sessionStore lm)
     (session_key k := None, device_key k := None, expiry_key k := None)"
  "lg_jwt (revoke_and_drop env now k lm) =
     map_option (RevokeTokenString (le_jwt env) now now k) (lg_jwt lm)"
  by (auto simp: revoke_and_drop_def Let_def AList.delete_conv drop_session_def split: option.split)

lemma revoke_fold_views:
  "map_of (lg_sessions (fold (revoke_and_drop env now) ks lm)) k =
     (if k \<in> set ks then None else map_of (lg_sessions lm) k)"
  "lg_sessionExpiry (fold (revoke_and_drop env now) ks lm) k =
     (if k \<in> set ks then None else lg_sessionExpiry lm k)"
  "lg_sessionDevice (fold (revoke_and_drop env now) ks lm) k =
     (if k \<in> set ks then None else lg_sessionDevice lm k)"
  "lg_sessionStore (fold (revoke_and_drop env now) ks lm) (session_key k) =
     (if k \<in> set ks then None else lg_sessionStore lm (session_key k))"
  "lg_sessionStore lm (expiry_key k) = None \<Longrightarrow>
     lg_sessionStore (fold (revoke_and_drop env now) ks lm) (expiry_key k) = None"
  "lg_jwt (fold (revoke_and_drop env now) ks lm) =
     map_option (fold (RevokeTokenString (le_jwt env) now now) ks) (lg_jwt lm)"
  by (induction ks arbitrary: lm) (auto simp: revoke_and_drop_views option.map_comp option.map_id comp_def id_def option.map_ident)

text \<open>A revocation keeps every revocation that the clock has not passed.\<close>

lemma RevokeTokenString_keeps:
  assumes "\<exists>x. jm_revoked m j = Some x \<and> unix now \<le> x"
  shows "\<exists>x. jm_revoked (RevokeTokenString env now now k m) j = Some x \<and> unix now \<le> x"
  using assms by (auto simp: RevokeTokenString_def RevokeToken_revoked split: sum.split)

lemma RevokeTokenString_secret [simp]: "jm_secret (RevokeTokenString env t1 t2 k m) = jm_secret m"
  by (simp add: RevokeTokenString_def RevokeToken_def persist_revocation_def pruneLocked_def Let_def
    split: sum.split)

lemma parse_secret:
  assumes "jm_secret m' = jm_secret m"
  shows "parse env m' k = parse env m k"
proof -
  have "hmac env m' = hmac env m" by (intro ext) (simp add: hmac_def assms)
  then show ?thesis by (simp only: parse_def)
qed

lemma parse_revoked [simp]: "parse env (RevokeTokenString env' t1 t2 k' m) k = parse env m k"
  by (rule parse_secret) simp

lemma parse_revoke_fold [simp]: "parse env (fold (RevokeTokenString env' now now) ks m) k = parse env m k"
  by (induction ks arbitrary: m) auto

lemma revoke_fold_keeps:
  "\<exists>x. jm_revoked m j = Some x \<and> unix now \<le> x \<Longrightarrow>
   \<exists>x. jm_revoked (fold (RevokeTokenString env now now) ks m) j = Some x \<and> unix now \<le> x"
  by (induction ks arbitrary: m) (auto intro: RevokeTokenString_keeps)

lemma revoke_fold_revokes:
  "k \<in> set ks \<Longrightarrow> parse env m k = Inr c \<Longrightarrow> cl_JTI c \<noteq> [] \<Longrightarrow>
   jm_revoked (fold (RevokeTokenString env now now) ks m) (cl_JTI c) \<noteq> None"
proof (induction ks arbitrary: m)
  case (Cons a ks)
  show ?case
  proof (cases "a = k")
    case True
    with Cons.prems have "jm_revoked (RevokeTokenString env now now a m) (cl_JTI c) = Some (unix now + 1200)"
      by (simp add: RevokeTokenString_def RevokeToken_revoked)
    then show ?thesis using revoke_fold_keeps [of "RevokeTokenString env now now a m" "cl_JTI c" now env ks] by auto
  next
    case False
    with Cons show ?thesis by simp
  qed
qed simp

lemma user_tokens_mem: "map_of (lg_sessions lm) k = Some u \<Longrightarrow> k \<in> set (user_tokens u lm)"
  by (force simp: user_tokens_def dest: map_of_SomeD)

lemma SetPIN_cases:
  obtains (refused) e where "SetPIN env now u pin s = (Inl e, s)"
  | (changed) p h where "sv_authProfiles s u = Some p"
      "SetPIN env now u pin s = (Inr (), audit env now u ''pin_set'' ''success'' ''PIN set successfully'' ''User''
         (invalidateAllSessionsLocked env now u (set_profile u (p\<lparr>ap_PasswordHash := h\<rparr>) s)))"
  by (cases "sv_authProfiles s u"; cases "HashPIN env pin") (auto simp: SetPIN_def)

lemma SetPIN_login:
  assumes "SetPIN env now u pin s = (Inr (), s')"
  shows "sv_login s' = fold (revoke_and_drop env now) (user_tokens u (sv_login s)) (sv_login s)"
  using assms by (cases rule: SetPIN_cases [of env now u pin s]) (auto simp: invalidateAllSessionsLocked_def)

lemma AuthenticateToken_unknown:
  "map_of (lg_sessions (sv_login s)) k = None \<Longrightarrow> store_Get t1 (session_key k) (sv_login s) = None \<Longrightarrow>
   fst (AuthenticateToken env t1 t2 k d s) = None"
  by (simp add: AuthenticateToken_def find_session_def)

lemma revoked_denied: "jm_revoked m j \<noteq> None \<Longrightarrow> revocationDenies j m"
  by (simp add: revocationDenies_def isRevoked_def)

lemma RefreshToken_revoked_refused:
  assumes "\<And>c. parse env m k = Inr c \<Longrightarrow> cl_JTI c = [] \<or> jm_revoked m (cl_JTI c) \<noteq> None"
  shows "\<exists>e. fst (RefreshToken env clk rnd k d m) = Inl e"
proof (cases "parse env m k")
  case (Inr c)
  then consider "cl_JTI c = []" | "jm_revoked m (cl_JTI c) \<noteq> None" using assms by blast
  then show ?thesis
    by cases (auto simp: RefreshToken_def RefreshToken_check_def RefreshToken_claim_def Inr revoked_denied
        claimForRotation_def Let_def)
qed (simp add: RefreshToken_def RefreshToken_check_def)

lemma refresh_mint_refused:
  assumes "\<And>m. lg_jwt (sv_login s) = Some m \<Longrightarrow> \<exists>e. fst (RefreshToken (le_jwt env) clk jrnd k d m) = Inl e"
  shows "\<exists>e s'. refresh_mint env clk jrnd k d s = (Inl e, s')"
  using assms by (auto simp: refresh_mint_def Let_def split: option.split prod.split sum.split)

text \<open>
  C22: after a successful change of the PIN no token that belonged to a session of the user
  authenticates any more, from no device and at no time, and none can be refreshed: the session
  and its copy in the store are gone, and a JWT is revoked in the token manager, so that it does not
  verify either.
\<close>
theorem no_session_survives_pin_change:
  assumes "SetPIN env now u pin s = (Inr (), s')"
    and "map_of (lg_sessions (sv_login s)) token = Some u" and "TrimSpace token = token"
  shows "fst (AuthenticateToken env t1 t2 token device s') = None \<and>
    (\<exists>e. fst (sv_RefreshToken env clk jrnd token device' s') = Inl e) \<and>
    (\<forall>m. lg_jwt (sv_login s') = Some m \<longrightarrow>
       (case VerifyToken (le_jwt env) t token device m of Inl e \<Rightarrow> True | Inr c \<Rightarrow> cl_JTI c = []))"
proof -
  let ?ks = "user_tokens u (sv_login s)"
  note lm = SetPIN_login [OF assms(1)]
  have k: "token \<in> set ?ks" using assms(2) by (rule user_tokens_mem)
  have a: "fst (AuthenticateToken env t1 t2 token device s') = None"
    by (rule AuthenticateToken_unknown) (simp_all add: lm revoke_fold_views k store_Get_def)
  have r: "cl_JTI c = [] \<or> jm_revoked m (cl_JTI c) \<noteq> None"
    if "lg_jwt (sv_login s') = Some m" "parse (le_jwt env) m token = Inr c" for m c
    using that by (auto simp: lm revoke_fold_views dest: revoke_fold_revokes [OF k, of "le_jwt env" _ c now])
  have "\<exists>e. fst (sv_RefreshToken env clk jrnd token device' s') = Inl e"
  proof -
    obtain e s'' where "refresh_mint env clk jrnd token (TrimSpace device') s' = (Inl e, s'')"
      using refresh_mint_refused [OF RefreshToken_revoked_refused [OF r]] by blast
    then show ?thesis
      using assms(3) by (auto simp: sv_RefreshToken_def refresh_check_def Let_def split: option.split)
  qed
  moreover have "case VerifyToken (le_jwt env) t token device m of Inl e \<Rightarrow> True | Inr c \<Rightarrow> cl_JTI c = []"
    if "lg_jwt (sv_login s') = Some m" for m
    using r [OF that] by (auto simp: VerifyToken_def revoked_denied split: sum.split)
  ultimately show ?thesis using a by simp
qed

section \<open>Where a session comes from\<close>

text \<open>
  \<open>os\<close> are the sessions opened so far, \<open>rs\<close> those restored from the store, with the reading of the
  clock at which they were. Each entry of the session map is an opened one, with its expiry and
  device, or a restored one, which expires at the instant it was restored: no expiry is ever
  stored.
\<close>

definition sessions_from ::
  "(string \<times> string \<times> string \<times> time) set \<Rightarrow> (string \<times> string \<times> time) set \<Rightarrow> LoginMaps \<Rightarrow> bool" where
  "sessions_from os rs lm \<longleftrightarrow>
     (\<forall>k u. map_of (lg_sessions lm) k = Some u \<longrightarrow>
        (\<exists>d t. (k, u, d, t) \<in> os \<and> lg_sessionExpiry lm k = Some (t + session_ttl) \<and>
               lg_sessionDevice lm k = Some d) \<or>
        (\<exists>r. (k, u, r) \<in> rs \<and> lg_sessionExpiry lm k = Some r)) \<and>
     (\<forall>k. lg_sessionStore lm (expiry_key k) = None)"

text \<open>The session an event restores from the store: token, user and reading of the clock.\<close>

definition restored :: "'f Service \<Rightarrow> login_event \<Rightarrow> (string \<times> string \<times> time) option" where
  "restored s e =
     (case e of
        Authenticate t1 t2 k d \<Rightarrow>
          (case (map_of (lg_sessions (sv_login s)) k, store_Get t1 (session_key k) (sv_login s)) of
             (None, Some u) \<Rightarrow> if u = [] then None else Some (k, u, t1)
           | _ \<Rightarrow> None)
      | _ \<Rightarrow> None)"

lemma restored_other [simp]:
  "restored s (PinLogin t r j q) = None" "restored s (PasskeyLogin t r lq) = None"
  "restored s (AskChallenge b i n t v) = None" "restored s (ChangePIN t v p) = None"
  "restored s (FirstPIN t1 t2 v p f) = None" "restored s (RefreshSession clk j k d) = None"
  "restored s (StoreTick t) = None"
  by (simp_all add: restored_def)

lemma sessions_from_mono: "sessions_from os rs lm \<Longrightarrow> os \<subseteq> os' \<Longrightarrow> rs \<subseteq> rs' \<Longrightarrow> sessions_from os' rs' lm"
  unfolding sessions_from_def by blast

lemma sessions_from_open:
  "sessions_from os rs lm \<Longrightarrow> sessions_from (insert (k, u, d, t) os) rs (open_session t k u d lm)"
  by (fastforce simp: sessions_from_def)

lemma sessions_from_drop: "sessions_from os rs lm \<Longrightarrow> sessions_from os rs (drop_session k lm)"
  by (fastforce simp: sessions_from_def)

lemma sessions_from_fold:
  "sessions_from os rs lm \<Longrightarrow> sessions_from os rs (fold (revoke_and_drop env now) ks lm)"
  by (fastforce simp: sessions_from_def revoke_fold_views split: if_splits)

lemma sessions_from_other [simp]:
  "sessions_from os rs (lm\<lparr>lg_jwt := j\<rparr>) \<longleftrightarrow> sessions_from os rs lm"
  "sessions_from os rs (lm\<lparr>lg_passkey := pm\<rparr>) \<longleftrightarrow> sessions_from os rs lm"
  "sessions_from os rs (lm\<lparr>lg_challenges := cs\<rparr>) \<longleftrightarrow> sessions_from os rs lm"
  "sessions_from os rs (lm\<lparr>lg_challengeState := st\<rparr>) \<longleftrightarrow> sessions_from os rs lm"
  by (simp_all add: sessions_from_def)

lemma sessions_from_cleanup: "sessions_from os rs lm \<Longrightarrow> sessions_from os rs (store_cleanup t lm)"
  by (simp add: sessions_from_def store_cleanup_def keep_if_def)

lemma AuthenticateToken_from:
  fixes s :: "'f Service" and t1 t2 :: time and k d :: string
  assumes inv: "sessions_from os rs (sv_login s)"
  defines "rs' \<equiv> rs \<union> set_option (restored s (Authenticate t1 t2 k d))"
  shows "sessions_from os rs' (sv_login (snd (AuthenticateToken env t1 t2 k d s)))"
    and "fst (AuthenticateToken env t1 t2 k d s) = Some u \<Longrightarrow>
      (\<exists>b t. (k, u, b, t) \<in> os \<and> t2 \<le> t + session_ttl \<and> (b = [] \<or> d = b)) \<or>
      (\<exists>r. (k, u, r) \<in> rs' \<and> t2 \<le> r)"
proof -
  let ?lm = "sv_login s"
  let ?lm1 = "snd (find_session env t1 k ?lm)"
  have e: "lg_sessionStore ?lm (expiry_key k) = None" using inv by (simp add: sessions_from_def)
  then have r: "restored_expiry env t1 k ?lm = t1" by (simp add: restored_expiry_def store_Get_def)
  have inv1: "sessions_from os rs' ?lm1"
  proof (cases "restored s (Authenticate t1 t2 k d)")
    case None
    then have "?lm1 = ?lm" by (auto simp: restored_def find_session_def split: option.splits if_splits)
    then show ?thesis using sessions_from_mono [OF inv subset_refl, of rs'] by (simp add: rs'_def)
  next
    case (Some x)
    then obtain v where v: "map_of (lg_sessions ?lm) k = None" "store_Get t1 (session_key k) ?lm = Some v"
        "v \<noteq> []" "x = (k, v, t1)"
      by (auto simp: restored_def split: option.splits if_splits)
    then have "?lm1 = ?lm\<lparr>lg_sessions := AList.update k v (lg_sessions ?lm),
        lg_sessionStart := (lg_sessionStart ?lm)(k \<mapsto> t1), lg_sessionExpiry := (lg_sessionExpiry ?lm)(k \<mapsto> t1)\<rparr>"
      by (simp add: find_session_def r)
    then show ?thesis using inv Some v
      by (fastforce simp: sessions_from_def rs'_def AList.update_conv)
  qed
  show "sessions_from os rs' (sv_login (snd (AuthenticateToken env t1 t2 k d s)))"
    using inv1 sessions_from_drop [OF inv1, of k]
    by (auto simp: AuthenticateToken_def Let_def split: prod.split option.split)
  show "(\<exists>b t. (k, u, b, t) \<in> os \<and> t2 \<le> t + session_ttl \<and> (b = [] \<or> d = b)) \<or>
      (\<exists>r. (k, u, r) \<in> rs' \<and> t2 \<le> r)"
    if ok: "fst (AuthenticateToken env t1 t2 k d s) = Some u"
  proof -
    obtain x where f: "fst (find_session env t1 k ?lm) = Some u" "lg_sessionExpiry ?lm1 k = Some x"
        "t2 \<le> x" "device_matches k d ?lm1"
      using ok by (auto simp: AuthenticateToken_def Let_def not_less split: prod.splits option.splits if_splits)
    then have "map_of (lg_sessions ?lm1) k = Some u"
      by (auto simp: find_session_def AList.update_conv split: option.splits if_splits)
    then show ?thesis using inv1 f(2-4) by (fastforce simp: sessions_from_def device_matches_def)
  qed
qed

text \<open>How a login can go; a successful one opens the session it answers with.\<close>

lemma LoginWithPIN_cases:
  obtains (refused) e where "LoginWithPIN env now rnd jrnd q s = (Inl e, s)"
  | (checked) u user p where "resolve_login (trim_login q) s = Some u" "sv_users s u = Some user"
      "sv_authProfiles s u = Some p" "ap_PasswordHash p \<noteq> []"
      "LoginWithPIN env now rnd jrnd q s = check_pin env now rnd jrnd (trim_login q) user u p s"
proof (cases "\<exists>e. LoginWithPIN env now rnd jrnd q s = (Inl e, s)")
  case True
  then show thesis using refused by blast
next
  case False
  then obtain u user p where "resolve_login (trim_login q) s = Some u" "sv_users s u = Some user"
      "sv_authProfiles s u = Some p" "ap_PasswordHash p \<noteq> []"
    by (auto simp: LoginWithPIN_def Let_def split: if_splits option.splits)
  then show thesis using False
    by (intro checked) (auto simp: LoginWithPIN_def Let_def split: if_splits)
qed

lemma VerifyLogin_cases:
  obtains (refused) e where "VerifyLogin env now rnd q s = (Inl e, s)"
  | (failed) u e reason pm where
      "VerifyLogin env now rnd q s =
        (Inl e, failed_signature env now u reason (with_login (\<lambda>lm. lm\<lparr>lg_passkey := pm\<rparr>) s))"
  | (unbound) u e details pm where
      "VerifyLogin env now rnd q s =
        (Inl e, audit env now u ''login_failed'' ''failure'' details ''System''
                  (with_login (\<lambda>lm. lm\<lparr>lg_passkey := pm\<rparr>) s))"
  | (accepted) user pm where "sv_users s (lv_UserID q) = Some user"
      "VerifyLogin env now rnd q s =
        (Inr (''swt_'' @ rnd), accept_passkey env now (''swt_'' @ rnd) (us_ID user)
          (TrimSpace (lv_DeviceIDFingerprint q)) (with_login (\<lambda>lm. lm\<lparr>lg_passkey := pm\<rparr>) s))"
proof (cases "sv_users s (lv_UserID q)")
  case None
  then show thesis using refused by (simp add: VerifyLogin_def)
next
  case (Some user)
  note V = VerifyLogin_def Some Let_def
  let ?u = "us_ID user"
  show thesis
  proof (cases "\<exists>e. VerifyLogin env now rnd q s = (Inl e, s)")
    case True
    then show thesis using refused by blast
  next
    case False
    then obtain sig where sig: "lg_challenges (sv_login s) ?u = Some (lv_ChallengeID q)"
        "TrimSpace (lv_Signature q) \<noteq> []" "TrimSpace (lv_KeyID q) \<noteq> []"
        "StdDecodeString (lv_Signature q) = Some sig"
      by (auto simp: V split: if_splits option.splits)
    obtain r pm where c: "VerifyChallenge (le_pk env) now now ?u (lv_ChallengeID q) sig (lv_KeyID q)
        (lg_passkey (sv_login s)) = (r, pm)" by fastforce
    show thesis
    proof (cases r)
      case (Inl e)
      then show thesis using sig c by (intro failed) (simp add: V)
    next
      case (Inr b)
      show thesis
      proof (cases b)
        case False
        then show thesis using sig c Inr by (intro failed) (simp add: V)
      next
        case True
        then show thesis using sig c Inr Some
          by (cases "binding_error ?u (TrimSpace (lv_DeviceIDFingerprint q))
                       (with_login (\<lambda>lm. lm\<lparr>lg_passkey := pm\<rparr>) s)")
             (auto simp: V intro: unbound accepted)
      qed
    qed
  qed
qed

text \<open>Every event keeps the map of sessions accounted for.\<close>

lemma SetPIN_from:
  assumes "sessions_from os rs (sv_login s)"
  shows "sessions_from os rs (sv_login (snd (SetPIN env now u pin s)))"
  by (cases rule: SetPIN_cases [of env now u pin s])
     (auto simp: invalidateAllSessionsLocked_def intro: sessions_from_fold assms)

lemma failed_signature_login [simp]: "sv_login (failed_signature env now u r s) = sv_login s"
  by (simp add: failed_signature_def Let_def split: option.split)

lemma accept_passkey_login:
  "\<exists>cs st. sv_login (accept_passkey env now k u d s) =
     (open_session now k u d (sv_login s))\<lparr>lg_challenges := cs, lg_challengeState := st\<rparr>"
  by (auto simp: accept_passkey_def)

lemma refresh_mint_login:
  "\<exists>j. sv_login (snd (refresh_mint env clk jrnd k d s)) = (sv_login s)\<lparr>lg_jwt := j\<rparr>"
proof (cases "lg_jwt (sv_login s)")
  case None
  then show ?thesis by (auto simp: refresh_mint_def intro!: exI [of _ "lg_jwt (sv_login s)"])
next
  case (Some m)
  then show ?thesis by (auto simp: refresh_mint_def Let_def split: prod.split sum.split)
qed

lemma sv_RefreshToken_cases:
  obtains (refused) e where "sv_RefreshToken env clk j k d s = (Inl e, s)"
      "opened env s (RefreshSession clk j k d) = None"
  | (unminted) old dev e s1 where "refresh_mint env clk j old dev s = (Inl e, s1)"
      "sv_RefreshToken env clk j k d s = (Inl e, s1)" "opened env s (RefreshSession clk j k d) = None"
  | (minted) old dev new c s1 where "refresh_mint env clk j old dev s = (Inr (new, c), s1)"
      "snd (sv_RefreshToken env clk j k d s) = snd (refresh_register (clk 5) old new c s1)"
      "opened env s (RefreshSession clk j k d) = Some (new, cl_Sub c, cl_DeviceFP c, clk 5)"
proof (cases "refresh_check k d s")
  case (Inl e)
  then show thesis by (intro refused) (simp_all add: sv_RefreshToken_def)
next
  case (Inr a)
  obtain old dev where a: "a = (old, dev)" by fastforce
  obtain r s1 where m: "refresh_mint env clk j old dev s = (r, s1)" by fastforce
  show thesis
  proof (cases r)
    case (Inl e)
    then show thesis using Inr a m by (intro unminted) (simp_all add: sv_RefreshToken_def)
  next
    case (Inr nc)
    then show thesis using \<open>refresh_check k d s = Inr a\<close> a m
      by (cases nc) (auto simp: sv_RefreshToken_def split: prod.split intro!: minted)
  qed
qed

lemma login_step_from:
  assumes inv: "sessions_from os rs (sv_login s)"
  shows "sessions_from (os \<union> set_option (opened env s e)) (rs \<union> set_option (restored s e))
    (sv_login (login_step env s e))"
proof (cases e)
  case (PinLogin t r j q)
  show ?thesis
  proof (cases rule: LoginWithPIN_cases [of env t r j q s])
    case (checked u user p)
    then show ?thesis using inv
      by (auto simp: PinLogin check_pin_def Let_def trim_login_def intro: sessions_from_open)
  qed (use inv PinLogin in simp)
next
  case (PasskeyLogin t r q)
  show ?thesis
  proof (cases rule: VerifyLogin_cases [of env t r q s])
    case (accepted user pm)
    let ?s = "with_login (\<lambda>lm. lm\<lparr>lg_passkey := pm\<rparr>) s"
    obtain cs st where "sv_login (accept_passkey env t (''swt_'' @ r) (us_ID user)
          (TrimSpace (lv_DeviceIDFingerprint q)) ?s) =
        (open_session t (''swt_'' @ r) (us_ID user) (TrimSpace (lv_DeviceIDFingerprint q)) (sv_login ?s))
          \<lparr>lg_challenges := cs, lg_challengeState := st\<rparr>"
      using accept_passkey_login by blast
    then show ?thesis using inv accepted by (simp add: PasskeyLogin sessions_from_open)
  qed (use inv PasskeyLogin in simp_all)
next
  case (AskChallenge b i n t u)
  then show ?thesis using inv
    by (auto simp: sv_CreateChallenge_def Let_def split: option.split prod.split sum.split)
next
  case (ChangePIN t u p)
  then show ?thesis using SetPIN_from [OF inv, of env] by simp
next
  case (FirstPIN t1 t2 u p f)
  then show ?thesis using SetPIN_from [OF inv, of env] inv
    by (simp add: SetInitialPIN_def Let_def split: option.split)
next
  case (Authenticate t1 t2 k d)
  then show ?thesis using AuthenticateToken_from(1) [OF inv] by simp
next
  case (RefreshSession clk j k d)
  show ?thesis
  proof (cases rule: sv_RefreshToken_cases [of env clk j k d s])
    case (unminted old dev e' s1)
    then show ?thesis using refresh_mint_login [of env clk j old dev s] inv RefreshSession by auto
  next
    case (minted old dev new c s1)
    then have "sessions_from os rs (sv_login s1)" using refresh_mint_login [of env clk j old dev s] inv by auto
    then show ?thesis using minted
      by (simp add: RefreshSession refresh_register_def Let_def sessions_from_open sessions_from_drop)
  qed (use inv RefreshSession in simp)
next
  case (StoreTick t)
  then show ?thesis using sessions_from_cleanup [OF inv] by simp
qed

definition openings :: "'key login_env \<Rightarrow> 'f Service \<Rightarrow> login_event list \<Rightarrow> (string \<times> string \<times> string \<times> time) set" where
  "openings env s es = (\<Union>(t, e) \<in> set (trace (login_step env) s es). set_option (opened env t e))"

definition restorings :: "'key login_env \<Rightarrow> 'f Service \<Rightarrow> login_event list \<Rightarrow> (string \<times> string \<times> time) set" where
  "restorings env s es = (\<Union>(t, e) \<in> set (trace (login_step env) s es). set_option (restored t e))"

lemma run_sessions_from:
  "sessions_from os rs (sv_login s) \<Longrightarrow>
   sessions_from (os \<union> openings env s es) (rs \<union> restorings env s es) (sv_login (foldl (login_step env) s es))"
proof (induction es arbitrary: s os rs)
  case (Cons e es)
  then have "sessions_from ((os \<union> set_option (opened env s e)) \<union> openings env (login_step env s e) es)
      ((rs \<union> set_option (restored s e)) \<union> restorings env (login_step env s e) es)
      (sv_login (foldl (login_step env) (login_step env s e) es))"
    by (intro Cons.IH login_step_from)
  then show ?case by (simp add: openings_def restorings_def Un_assoc)
qed (simp add: openings_def restorings_def)

lemma trace_snoc: "trace step s (es @ [e]) = trace step s es @ [(foldl step s es, e)]"
  by (induction es arbitrary: s) auto

text \<open>
  C20: in any run of logins, refreshes, PIN changes and authentications from a service without
  sessions, a token authenticates as a user only if an earlier event of the run opened a session for
  exactly this token and user, at most fifteen minutes ago, and, if the session is bound to a device,
  only from that device. The one exception: a session that is only in the store is restored with the
  current reading of the clock as its expiry, because the code never stores an expiry, and passes
  until a later reading exceeds that one.
\<close>
theorem authenticated_session_was_opened:
  assumes "lg_sessions (sv_login s) = []" and "\<forall>k. lg_sessionStore (sv_login s) (expiry_key k) = None"
    and "fst (AuthenticateToken env t1 t2 token device (foldl (login_step env) s es)) = Some u"
  shows "(\<exists>(t, e) \<in> set (trace (login_step env) s es). \<exists>b t0.
      opened env t e = Some (token, u, b, t0) \<and> t2 \<le> t0 + session_ttl \<and> (b = [] \<or> device = b)) \<or>
    (\<exists>(t, e) \<in> set (trace (login_step env) s (es @ [Authenticate t1 t2 token device])). \<exists>r.
      restored t e = Some (token, u, r) \<and> t2 \<le> r)"
proof -
  have "sessions_from {} {} (sv_login s)" using assms(1, 2) by (simp add: sessions_from_def)
  then have "sessions_from ({} \<union> openings env s es) ({} \<union> restorings env s es) (sv_login (foldl (login_step env) s es))"
    by (rule run_sessions_from)
  from AuthenticateToken_from(2) [OF this assms(3)] show ?thesis
    unfolding openings_def restorings_def trace_snoc by fastforce
qed

text \<open>
  The exception is real: with two equal readings a session that only the store knows authenticates,
  from any device, although it was bound to one.
\<close>
theorem stored_session_in_one_instant:
  assumes "map_of (lg_sessions (sv_login s)) k = None" and "store_Get t (session_key k) (sv_login s) = Some u"
    and "u \<noteq> []" and "lg_sessionStore (sv_login s) (expiry_key k) = None" and "lg_sessionDevice (sv_login s) k = None"
  shows "fst (AuthenticateToken env t t k d s) = Some u"
  using assms by (simp add: AuthenticateToken_def find_session_def restored_expiry_def store_Get_def device_matches_def Let_def
      split: option.splits)

section \<open>How fast a PIN can be guessed\<close>

text \<open>
  A PIN login that got as far as comparing the PIN with the hash of \<open>u\<close>, and one that did so in
  vain. \<open>lock_span n\<close> adds up the lockouts after the first \<open>n\<close> failures.
\<close>

definition pin_compared :: "'key login_env \<Rightarrow> string \<Rightarrow> 'f Service \<Rightarrow> login_event \<Rightarrow> bool" where
  "pin_compared env u s e =
     (case e of
        PinLogin t r j q \<Rightarrow>
          resolve_login (trim_login q) s = Some u \<and> sv_users s u \<noteq> None \<and>
          (case sv_authProfiles s u of
             None \<Rightarrow> False
           | Some p \<Rightarrow> ap_PasswordHash p \<noteq> [] \<and>
               (case fst (LoginWithPIN env t r j q s) of
                  Inr _ \<Rightarrow> True | Inl er \<Rightarrow> er = InvalidMobileOrPIN))
      | _ \<Rightarrow> False)"

definition wrong_guess :: "'key login_env \<Rightarrow> string \<Rightarrow> 'f Service \<Rightarrow> login_event \<Rightarrow> bool" where
  "wrong_guess env u s e \<longleftrightarrow> pin_compared env u s e \<and> opened env s e = None"

definition signs_in :: "'key login_env \<Rightarrow> string \<Rightarrow> 'f Service \<Rightarrow> login_event \<Rightarrow> bool" where
  "signs_in env u s e =
     (case e of
        RefreshSession clk j k d \<Rightarrow> False
      | _ \<Rightarrow> (case opened env s e of Some (k, v, d, t) \<Rightarrow> v = u | None \<Rightarrow> False))"

fun lock_span :: "nat \<Rightarrow> duration" where
  "lock_span 0 = 0"
| "lock_span (Suc n) = lock_span n + (case lock_delay (int (Suc n)) of None \<Rightarrow> 0 | Some d \<Rightarrow> d)"

lemma lock_delay_mono:
  "m \<le> n \<Longrightarrow> (case lock_delay m of None \<Rightarrow> 0 | Some d \<Rightarrow> d) \<le> (case lock_delay n of None \<Rightarrow> 0 | Some d \<Rightarrow> d)"
  by (simp add: lock_delay_def)

lemma lock_span_long: "lock_span (14 + k) = 175 * minute + int k * (24 * hour)"
proof (induction k)
  case 0
  show ?case by code_simp
next
  case (Suc k)
  have "lock_delay (int (Suc (14 + k))) = Some (24 * hour)" by (simp add: lock_delay_def)
  then have "lock_span (14 + Suc k) = lock_span (14 + k) + 24 * hour" by (simp only: add_Suc_right lock_span.simps) simp
  with Suc show ?case by (simp add: algebra_simps)
qed

text \<open>The counter and the lock of a profile: a wrong guess counts and locks, nothing else resets them.\<close>

definition guard_of :: "AuthProfile \<Rightarrow> int \<times> time option" where
  "guard_of p = (ap_FailedLoginCount p, ap_PINLockedUntil p)"

lemma guard_updates [simp]:
  "guard_of (p\<lparr>ap_PasswordHash := h\<rparr>) = guard_of p" "guard_of (profile_signed_out p) = guard_of p"
  "guard_of (profile_session now k p) = guard_of p"
  "guard_of (p\<lparr>ap_ChallengeNonceID := n, ap_ChallengeStatus := c\<rparr>) = guard_of p"
  by (simp_all add: guard_of_def profile_signed_out_def profile_session_def)

definition guards_kept :: "string \<Rightarrow> 'f Service \<Rightarrow> 'f Service \<Rightarrow> bool" where
  "guards_kept u s s' \<longleftrightarrow>
     (\<forall>p. sv_authProfiles s u = Some p \<longrightarrow>
        (\<exists>p'. sv_authProfiles s' u = Some p' \<and> ap_FailedLoginCount p \<le> ap_FailedLoginCount p' \<and>
              ap_PINLockedUntil p' = ap_PINLockedUntil p))"

lemma guards_kept_refl [simp]: "guards_kept u s s"
  by (simp add: guards_kept_def)

lemma guards_kept_trans: "guards_kept u s t \<Longrightarrow> guards_kept u t s' \<Longrightarrow> guards_kept u s s'"
  by (fastforce simp: guards_kept_def)

lemma guards_kept_same: "sv_authProfiles s' u = sv_authProfiles s u \<Longrightarrow> guards_kept u s s'"
  by (simp add: guards_kept_def)

lemma guards_kept_audit [simp]:
  "guards_kept u s (audit env now v e oc d b s') \<longleftrightarrow> guards_kept u s s'"
  "guards_kept u s (with_login g s') \<longleftrightarrow> guards_kept u s s'"
  "guards_kept u (with_login g s) s' \<longleftrightarrow> guards_kept u s s'"
  by (simp_all add: guards_kept_def)

lemma guards_kept_change:
  assumes "\<And>p. guard_of (f p) = guard_of p"
  shows "guards_kept u s (change_profile v f s') \<longleftrightarrow> guards_kept u s s'"
proof -
  have "ap_FailedLoginCount (f p) = ap_FailedLoginCount p \<and> ap_PINLockedUntil (f p) = ap_PINLockedUntil p" for p
    using assms [of p] by (simp add: guard_of_def)
  then show ?thesis by (auto simp: guards_kept_def)
qed

lemma SetPIN_guards: "guards_kept u s (snd (SetPIN env now v pin s))"
  by (cases rule: SetPIN_cases [of env now v pin s])
     (auto simp: invalidateAllSessionsLocked_def guards_kept_change, auto simp: guards_kept_def)

lemma AuthenticateToken_guards: "guards_kept u s (snd (AuthenticateToken env t1 t2 k d s))"
proof -
  have lm: "guards_kept u s (s\<lparr>sv_login := lm\<rparr>)" for lm by (rule guards_kept_same) simp
  have f: "guard_of (if ap_SessionTokenID p = k then profile_signed_out p else p) = guard_of p" for p by simp
  show ?thesis
    by (simp add: AuthenticateToken_def Let_def guards_kept_change [OF f] lm split: prod.split option.split)
qed

lemma failed_signature_guards: "guards_kept u s (failed_signature env now v r s)"
  by (auto simp: failed_signature_def Let_def guards_kept_def split: option.split)

lemma refresh_mint_guards: "guards_kept u s (snd (refresh_mint env clk j k d s))"
  by (auto simp: refresh_mint_def Let_def split: option.split prod.split sum.split)

lemma sv_RefreshToken_guards: "guards_kept u s (snd (sv_RefreshToken env clk j k d s))"
proof (cases rule: sv_RefreshToken_cases [of env clk j k d s])
  case (unminted old dev e s1)
  then show ?thesis using refresh_mint_guards [of u s env clk j old dev] by simp
next
  case (minted old dev new c s1)
  then show ?thesis using refresh_mint_guards [of u s env clk j old dev]
    by (simp add: refresh_register_def Let_def guards_kept_change)
qed simp

text \<open>One event: either a wrong guess, made while the PIN was not locked, or no relief.\<close>

lemma login_step_guards:
  assumes p: "sv_authProfiles s u = Some p" and no: "\<not> signs_in env u s e"
  shows "if wrong_guess env u s e
    then \<not> pin_locked (event_time e) p \<and>
         sv_authProfiles (login_step env s e) u = Some (count_pin_failure (event_time e) p)
    else guards_kept u s (login_step env s e)"
proof (cases e)
  case (PinLogin t r j q)
  show ?thesis
  proof (cases rule: LoginWithPIN_cases [of env t r j q s])
    case (refused er)
    show ?thesis
    proof (cases "wrong_guess env u s e")
      case True
      then obtain v user p' where "resolve_login (trim_login q) s = Some u" "sv_users s u = Some user"
          "ap_PasswordHash p \<noteq> []" "er = InvalidMobileOrPIN"
        using p by (auto simp: wrong_guess_def pin_compared_def PinLogin refused split: option.splits)
      then have "LoginWithPIN env t r j q s = check_pin env t r j (trim_login q) user u p s"
        using refused p by (auto simp: LoginWithPIN_def Let_def split: if_splits)
      with refused have "check_pin env t r j (trim_login q) user u p s = (Inl InvalidMobileOrPIN, s)"
        using \<open>er = InvalidMobileOrPIN\<close> by simp
      then have "sv_authProfiles s u = Some (count_pin_failure t p)" "\<not> pin_locked t p"
        by (auto simp: check_pin_def Let_def split: if_splits dest!: arg_cong [where f = "\<lambda>x. sv_authProfiles x u"])
      then show ?thesis using True by (simp add: PinLogin refused)
    qed (simp add: PinLogin refused)
  next
    case (checked v user p')
    show ?thesis
    proof (cases "v = u")
      case True
      with checked p have [simp]: "p' = p" by simp
      show ?thesis using checked True no
        by (auto simp: PinLogin check_pin_def Let_def wrong_guess_def pin_compared_def signs_in_def
          guards_kept_change)
    next
      case False
      then have "\<not> wrong_guess env u s e" using checked by (simp add: wrong_guess_def pin_compared_def PinLogin)
      then show ?thesis using checked False
        by (auto simp: PinLogin check_pin_def Let_def guards_kept_def)
    qed
  qed
next
  case (PasskeyLogin t r q)
  then have nw: "\<not> wrong_guess env u s e" by (simp add: wrong_guess_def pin_compared_def)
  have "guards_kept u s (snd (VerifyLogin env t r q s))"
  proof (cases rule: VerifyLogin_cases [of env t r q s])
    case (failed v er reason pm)
    then show ?thesis
      using failed_signature_guards [of u "with_login (\<lambda>lm. lm\<lparr>lg_passkey := pm\<rparr>) s" env t v reason] by simp
  next
    case (accepted user pm)
    then have "us_ID user \<noteq> u" using no by (auto simp: signs_in_def PasskeyLogin)
    then show ?thesis using accepted by (auto simp: accept_passkey_def guards_kept_def)
  qed simp_all
  then show ?thesis using nw by (simp add: PasskeyLogin)
next
  case (AskChallenge b i n t v)
  then show ?thesis
    by (auto simp: wrong_guess_def pin_compared_def sv_CreateChallenge_def Let_def guards_kept_change
      split: option.split prod.split sum.split)
next
  case (FirstPIN t1 t2 v pin f)
  then show ?thesis using SetPIN_guards [of u s env t2 "TrimSpace v" pin]
    by (simp add: wrong_guess_def pin_compared_def SetInitialPIN_def Let_def split: option.split)
qed (simp_all add: wrong_guess_def pin_compared_def SetPIN_guards AuthenticateToken_guards sv_RefreshToken_guards)

text \<open>After \<open>g\<close> wrong guesses the next comparison is \<open>lock_span g\<close> away from the start.\<close>

definition guess_barrier :: "string \<Rightarrow> time \<Rightarrow> nat \<Rightarrow> time \<Rightarrow> 'f Service \<Rightarrow> bool" where
  "guess_barrier u start g now s \<longleftrightarrow>
     (\<exists>p. sv_authProfiles s u = Some p \<and> int g \<le> ap_FailedLoginCount p \<and>
          start + lock_span g \<le> (case ap_PINLockedUntil p of None \<Rightarrow> now | Some l \<Rightarrow> max l now))"

lemma guess_barrier_step:
  assumes inv: "guess_barrier u start g now s" and le: "now \<le> event_time e"
    and no: "\<not> signs_in env u s e"
  shows "guess_barrier u start (if wrong_guess env u s e then Suc g else g) (event_time e) (login_step env s e)"
proof -
  obtain p where p: "sv_authProfiles s u = Some p" "int g \<le> ap_FailedLoginCount p"
      "start + lock_span g \<le> (case ap_PINLockedUntil p of None \<Rightarrow> now | Some l \<Rightarrow> max l now)"
    using inv by (auto simp: guess_barrier_def)
  note step = login_step_guards [OF p(1) no]
  show ?thesis
  proof (cases "wrong_guess env u s e")
    case False
    then obtain p' where p': "sv_authProfiles (login_step env s e) u = Some p'"
        "ap_FailedLoginCount p \<le> ap_FailedLoginCount p'" "ap_PINLockedUntil p' = ap_PINLockedUntil p"
      using step p(1) by (auto simp: guards_kept_def)
    have "(case ap_PINLockedUntil p of None \<Rightarrow> now | Some l \<Rightarrow> max l now)
        \<le> (case ap_PINLockedUntil p of None \<Rightarrow> event_time e | Some l \<Rightarrow> max l (event_time e))"
      using le by (auto split: option.split)
    then show ?thesis using False p p' by (simp add: guess_barrier_def)
  next
    case True
    let ?n = "ap_FailedLoginCount p + 1" and ?t = "event_time e"
    have reached: "start + lock_span g \<le> ?t"
      using True step p(3) le by (auto simp: pin_locked_def split: option.splits)
    have "(case lock_delay (int (Suc g)) of None \<Rightarrow> 0 | Some d \<Rightarrow> d) \<le>
        (case lock_delay ?n of None \<Rightarrow> 0 | Some d \<Rightarrow> d)"
      using p(2) by (intro lock_delay_mono) simp
    then have "start + lock_span (Suc g) \<le>
        (case (case lock_delay ?n of None \<Rightarrow> ap_PINLockedUntil p | Some d \<Rightarrow> Some (?t + d)) of
           None \<Rightarrow> ?t | Some l \<Rightarrow> max l ?t)"
      using reached by (auto split: option.splits)
    then show ?thesis using True step p(2)
      by (auto simp: guess_barrier_def count_pin_failure_def Let_def)
  qed
qed

lemma guess_barrier_run:
  "guess_barrier u start g now s \<Longrightarrow> sorted (now # map event_time es) \<Longrightarrow>
   \<forall>(t, e) \<in> set (trace (login_step env) s es). \<not> signs_in env u t e \<Longrightarrow>
   guess_barrier u start (g + length (filter (\<lambda>(t, e). wrong_guess env u t e) (trace (login_step env) s es)))
     (last (now # map event_time es)) (foldl (login_step env) s es)"
proof (induction es arbitrary: s g now)
  case (Cons e es)
  have "guess_barrier u start (if wrong_guess env u s e then Suc g else g) (event_time e) (login_step env s e)"
    using Cons.prems by (intro guess_barrier_step) auto
  from Cons.IH [OF this] Cons.prems show ?case by (auto split: if_splits)
qed simp

text \<open>
  C21: however PIN logins, passkey attempts, PIN changes, refreshes and authentications interleave, as
  long as nobody signs in as the user, a PIN that is compared after \<open>n\<close> wrong ones is compared at
  least \<open>lock_span n\<close> after the start: the first five come freely, then the locks of five minutes,
  half an hour and a day add up, so that the fifteenth takes 175 minutes and each further one a day
  (\<open>lock_span_long\<close>).
\<close>
theorem pin_guesses_rate_limited:
  assumes "sv_authProfiles s u = Some p" and "0 \<le> ap_FailedLoginCount p"
    and "sorted (start # map event_time (es @ [e]))"
    and "\<forall>(t, e) \<in> set (trace (login_step env) s es). \<not> signs_in env u t e"
    and "pin_compared env u (foldl (login_step env) s es) e"
  shows "lock_span (length (filter (\<lambda>(t, e). wrong_guess env u t e) (trace (login_step env) s es)))
    \<le> event_time e - start"
proof -
  let ?s = "foldl (login_step env) s es" and ?T = "last (start # map event_time es)"
  let ?n = "length (filter (\<lambda>(t, e). wrong_guess env u t e) (trace (login_step env) s es))"
  have "guess_barrier u start 0 start s" using assms(1, 2) by (auto simp: guess_barrier_def split: option.split)
  moreover have "sorted (start # map event_time es)" using assms(3) by (auto simp: sorted_append)
  ultimately have "guess_barrier u start ?n ?T ?s" using guess_barrier_run [of u start 0] assms(4) by fastforce
  then obtain p' where p': "sv_authProfiles ?s u = Some p'"
      "start + lock_span ?n \<le> (case ap_PINLockedUntil p' of None \<Rightarrow> ?T | Some l \<Rightarrow> max l ?T)"
    unfolding guess_barrier_def by blast
  have "?T \<le> event_time e"
    using assms(3) by (cases es rule: rev_cases) (auto simp: sorted_append)
  moreover have "\<not> pin_locked (event_time e) p'"
    using assms(5) p'(1)
    by (auto simp: pin_compared_def LoginWithPIN_def Let_def check_pin_def
      split: login_event.splits if_splits option.splits)
  ultimately show ?thesis using p'(2) by (auto simp: pin_locked_def split: option.splits)
qed

section \<open>A refresh that overlaps a PIN change\<close>

text \<open>
  The new token of a refresh that was minted before a PIN change and is registered after it
  authenticates the user for the next fifteen minutes: the third phase of the refresh does not look
  again whether the session it replaces still exists.
\<close>
theorem refresh_survives_pin_change:
  assumes "refresh_mint env clk jrnd old presented s = (Inr (new, c), s1)"
    and "SetPIN env now (cl_Sub c) pin s1 = (Inr (), s2)"
    and "cl_DeviceFP c = [] \<or> TrimSpace (cl_DeviceFP c) \<noteq> []"
    and "t2 \<le> t0 + session_ttl"
  shows "fst (AuthenticateToken env t1 t2 new (cl_DeviceFP c) (snd (refresh_register t0 old new c s2)))
    = Some (cl_Sub c)"
  using assms(3, 4)
  by (auto simp: refresh_register_def Let_def AuthenticateToken_def find_session_def device_matches_def)

section \<open>A concrete service\<close>

text \<open>Signatures are constant, the payload of a token is its id; the hash of a PIN is the PIN.\<close>

definition demo_codec :: jwt_env where
  "demo_codec = \<lparr>je_hmac = (\<lambda>s x. ''m''), je_marshal = (\<lambda>c. Some (cl_JTI c)),
     je_unmarshal = (\<lambda>p. Some \<lparr>cl_Sub = ''u1'', cl_Role = ''customer'', cl_DeviceFP = ''d'', cl_IAT = 100,
                                cl_EXP = 1000, cl_JTI = p\<rparr>)\<rparr>"

definition demo_login :: "unit login_env" where
  "demo_login = \<lparr>le_sv = demo_env, le_hash = Some, le_compare = (=), le_jwt = demo_codec,
     le_pk = \<lparr>pk_parse = (\<lambda>_. None), pk_sha256 = (\<lambda>x. x), pk_verify = (\<lambda>_ _ _. False)\<rparr>,
     le_parse_time = (\<lambda>_. None), le_key_error = []\<rparr>"

definition pin_service :: "unit Service" where
  "pin_service = demo_service\<lparr>sv_authProfiles :=
     [''u1'' \<mapsto> blank_profile\<lparr>ap_InternalUserID := ''u1'', ap_PasswordHash := ''1234''\<rparr>]\<rparr>"

definition demo_pin :: "string \<Rightarrow> PinLoginRequest" where
  "demo_pin pin = \<lparr>pl_Mobile = [], pl_CKYC = [], pl_UserID = ''u1'', pl_PIN = pin,
     pl_DeviceIDFingerprint = ''d''\<rparr>"

definition old_token :: string where
  "old_token = ''h.'' @ EncodeToString ''old'' @ ''.'' @ EncodeToString ''m''"

definition jwt_service :: "unit Service" where
  "jwt_service = with_login (\<lambda>lm. open_session ((62135596800 + 100) * second) old_token ''u1'' ''d''
     (lm\<lparr>lg_jwt := Some (NewJWTManagerWithSecret ''0123456789abcdef'')\<rparr>)) pin_service"

lemma old_token_trimmed: "TrimSpace old_token = old_token"
  by code_simp

lemma jwt_service_pin: "\<exists>s'. SetPIN demo_login ((62135596800 + 200) * second) ''u1'' ''5678'' jwt_service = (Inr (), s')"
  by (simp add: SetPIN_def HashPIN_def jwt_service_def with_login_def pin_service_def demo_service_def demo_login_def)

theorem no_session_survives_pin_change_witness:
  "\<exists>s'. SetPIN demo_login ((62135596800 + 200) * second) ''u1'' ''5678'' jwt_service = (Inr (), s') \<and>
     fst (AuthenticateToken demo_login 0 0 old_token ''d'' s') = None"
proof -
  obtain s' where s': "SetPIN demo_login ((62135596800 + 200) * second) ''u1'' ''5678'' jwt_service = (Inr (), s')"
    using jwt_service_pin by blast
  have "map_of (lg_sessions (sv_login jwt_service)) old_token = Some ''u1''" by (simp add: jwt_service_def)
  then show ?thesis using no_session_survives_pin_change [OF s' _ old_token_trimmed] s' by blast
qed

theorem authenticated_session_was_opened_witness:
  "(\<exists>(t, e) \<in> set (trace (login_step demo_login) pin_service [PinLogin 5 ''k'' None (demo_pin ''1234'')]).
     \<exists>b t0. opened demo_login t e = Some (''swt_k'', ''u1'', b, t0) \<and> 8 \<le> t0 + session_ttl \<and> (b = [] \<or> ''d'' = b)) \<or>
   (\<exists>(t, e) \<in> set (trace (login_step demo_login) pin_service
        ([PinLogin 5 ''k'' None (demo_pin ''1234'')] @ [Authenticate 7 8 ''swt_k'' ''d''])).
      \<exists>r. restored t e = Some (''swt_k'', ''u1'', r) \<and> 8 \<le> r)"
proof (rule authenticated_session_was_opened)
  show "fst (AuthenticateToken demo_login 7 8 ''swt_k'' ''d''
      (foldl (login_step demo_login) pin_service [PinLogin 5 ''k'' None (demo_pin ''1234'')])) = Some ''u1''"
    by code_simp
qed (simp_all add: pin_service_def demo_service_def fresh_service_def fresh_login_def)

definition wrong_pins :: "login_event list" where
  "wrong_pins = map (\<lambda>i. PinLogin i ''k'' None (demo_pin ''0000'')) [1, 2, 3, 4, 5]"

theorem pin_guesses_rate_limited_witness:
  "lock_span (length (filter (\<lambda>(t, e). wrong_guess demo_login ''u1'' t e)
       (trace (login_step demo_login) pin_service wrong_pins)))
     \<le> event_time (PinLogin (6 * minute) ''k'' None (demo_pin ''1234'')) - 0"
proof (rule pin_guesses_rate_limited)
  show "sv_authProfiles pin_service ''u1'' =
      Some (blank_profile\<lparr>ap_InternalUserID := ''u1'', ap_PasswordHash := ''1234''\<rparr>)"
    by (simp add: pin_service_def)
  show "0 \<le> ap_FailedLoginCount (blank_profile\<lparr>ap_InternalUserID := ''u1'', ap_PasswordHash := ''1234''\<rparr>)"
    by (simp add: blank_profile_def)
  show "sorted (0 # map event_time (wrong_pins @ [PinLogin (6 * minute) ''k'' None (demo_pin ''1234'')]))"
    by (simp add: wrong_pins_def)
  show "\<forall>(t, e) \<in> set (trace (login_step demo_login) pin_service wrong_pins). \<not> signs_in demo_login ''u1'' t e"
    by code_simp
  show "pin_compared demo_login ''u1'' (foldl (login_step demo_login) pin_service wrong_pins)
      (PinLogin (6 * minute) ''k'' None (demo_pin ''1234''))"
    by code_simp
qed

definition refresh_clock :: "nat \<Rightarrow> time" where
  "refresh_clock i = (62135596800 + 200) * second"

lemma demo_refresh_mint:
  "fst (refresh_mint demo_login refresh_clock (Some ''new'') old_token ''d'' jwt_service) =
     Inr (''eyJhbGciOiJIUzI1NiIsInR5cCI6IkpXVCJ9.anRpX25ldw.bQ'',
          \<lparr>cl_Sub = ''u1'', cl_Role = ''customer'', cl_DeviceFP = ''d'', cl_IAT = 100, cl_EXP = 1000,
           cl_JTI = ''jti_new''\<rparr>)"
  by code_simp

theorem refresh_survives_pin_change_witness:
  "\<exists>new c s1 s2.
     refresh_mint demo_login refresh_clock (Some ''new'') old_token ''d'' jwt_service = (Inr (new, c), s1) \<and>
     SetPIN demo_login ((62135596800 + 200) * second) (cl_Sub c) ''5678'' s1 = (Inr (), s2) \<and>
     fst (AuthenticateToken demo_login 0 ((62135596800 + 300) * second) new (cl_DeviceFP c)
       (snd (refresh_register ((62135596800 + 200) * second) old_token new c s2))) = Some (cl_Sub c)"
proof -
  obtain s1 where s1: "refresh_mint demo_login refresh_clock (Some ''new'') old_token ''d'' jwt_service =
      (Inr (''eyJhbGciOiJIUzI1NiIsInR5cCI6IkpXVCJ9.anRpX25ldw.bQ'',
          \<lparr>cl_Sub = ''u1'', cl_Role = ''customer'', cl_DeviceFP = ''d'', cl_IAT = 100, cl_EXP = 1000,
           cl_JTI = ''jti_new''\<rparr>), s1)"
    using demo_refresh_mint by (metis prod.collapse)
  have "sv_authProfiles s1 = sv_authProfiles jwt_service"
    using s1 by (auto simp: refresh_mint_def Let_def split: option.splits prod.splits sum.splits)
  then obtain s2 where s2: "SetPIN demo_login ((62135596800 + 200) * second) ''u1'' ''5678'' s1 = (Inr (), s2)"
    by (auto simp: SetPIN_def HashPIN_def jwt_service_def with_login_def pin_service_def demo_login_def)
  show ?thesis
    using refresh_survives_pin_change [OF s1, of _ "''5678''" s2 "(62135596800 + 300) * second"
        "(62135596800 + 200) * second" 0] s1 s2
    by (fastforce simp: TrimSpace_def is_space_def session_ttl_def)
qed

end
