(* ===== verification/FloatArith.thy ===== *)
theory FloatArith
  imports Float64
begin

text \<open>
  Arithmetic on Go's \<open>float64\<close> with infinities and NaN, for the code that computes with rates and
  ratios: the four operations round the exact result and overflow to an infinity, the comparisons are
  false on NaN, \<open>math.Round\<close> rounds half away from zero, the conversion to \<open>int64\<close> of a value out of
  range is the minimum (as on amd64), and \<open>math.Pow\<close> with an integral exponent is the library's loop
  of squarings on the mantissa. The sign of zero is left out: no code modelled here divides by a
  negative zero.
\<close>

section \<open>Operations\<close>

definition overflow_bound :: rat where
  "overflow_bound = 2 ^ 1024"

lemma overflow_bound_code [code]:
  "overflow_bound = 179769313486231590772930519078902473361797697894230657273430081157732675805500963132708477322407536021120113879871393357658789768814416622492847430639474124377767893424865485276302219601246094119453082952085005768838150682342462881473913110540827237163350510684586298239947245938479716304835356329624224137216"
  by (simp add: overflow_bound_def)

definition f64 :: "rat \<Rightarrow> float64" where
  "f64 x = (let y = fl x in
     if overflow_bound \<le> y then PInf else if y \<le> - overflow_bound then NInf else Fin y)"

definition of_int64 :: "int \<Rightarrow> float64" where
  "of_int64 n = f64 (of_int n)"

definition sign_of :: "float64 \<Rightarrow> rat" where
  "sign_of x = (case x of Fin a \<Rightarrow> sgn a | PInf \<Rightarrow> 1 | NInf \<Rightarrow> - 1 | NaN \<Rightarrow> 0)"

definition inf_of :: "rat \<Rightarrow> float64" where
  "inf_of s = (if 0 < s then PInf else if s < 0 then NInf else NaN)"

definition fneg :: "float64 \<Rightarrow> float64" where
  "fneg x = (case x of Fin a \<Rightarrow> Fin (- a) | PInf \<Rightarrow> NInf | NInf \<Rightarrow> PInf | NaN \<Rightarrow> NaN)"

fun fadd :: "float64 \<Rightarrow> float64 \<Rightarrow> float64" where
  "fadd (Fin a) (Fin b) = f64 (a + b)"
| "fadd NaN y = NaN"
| "fadd x NaN = NaN"
| "fadd PInf NInf = NaN"
| "fadd NInf PInf = NaN"
| "fadd (Fin a) y = y"
| "fadd x y = x"

definition fsub :: "float64 \<Rightarrow> float64 \<Rightarrow> float64" where
  "fsub x y = fadd x (fneg y)"

fun fmul :: "float64 \<Rightarrow> float64 \<Rightarrow> float64" where
  "fmul (Fin a) (Fin b) = f64 (a * b)"
| "fmul x y = inf_of (sign_of x * sign_of y)"

fun fdiv :: "float64 \<Rightarrow> float64 \<Rightarrow> float64" where
  "fdiv (Fin a) (Fin b) = (if b = 0 then inf_of (sgn a) else f64 (a / b))"
| "fdiv NaN y = NaN"
| "fdiv x NaN = NaN"
| "fdiv (Fin a) y = Fin 0"
| "fdiv x (Fin b) = inf_of (sign_of x * (if b < 0 then - 1 else 1))"
| "fdiv x y = NaN"

fun flt :: "float64 \<Rightarrow> float64 \<Rightarrow> bool" where
  "flt (Fin a) (Fin b) \<longleftrightarrow> a < b"
| "flt NaN y \<longleftrightarrow> False"
| "flt x NaN \<longleftrightarrow> False"
| "flt x PInf \<longleftrightarrow> x \<noteq> PInf"
| "flt NInf y \<longleftrightarrow> y \<noteq> NInf"
| "flt x y \<longleftrightarrow> False"

definition feq :: "float64 \<Rightarrow> float64 \<Rightarrow> bool" where
  "feq x y \<longleftrightarrow> x \<noteq> NaN \<and> x = y"

definition fle :: "float64 \<Rightarrow> float64 \<Rightarrow> bool" where
  "fle x y \<longleftrightarrow> flt x y \<or> feq x y"

section \<open>Rounding to integers\<close>

definition round_away :: "rat \<Rightarrow> int" where
  "round_away x = (if x < 0 then - \<lfloor>- x + 1 / 2\<rfloor> else \<lfloor>x + 1 / 2\<rfloor>)"

definition to_int64 :: "int \<Rightarrow> int" where
  "to_int64 n = (if is_i64 n then n else - (2 ^ 63))"

lemma round_away_of_int [simp]: "round_away (of_int n) = n"
proof -
  have "\<lfloor>of_int m + 1 / 2 :: rat\<rfloor> = m" for m by (simp add: floor_unique)
  from this [of n] this [of "- n"] show ?thesis by (simp add: round_away_def)
qed

lemma round_away_0 [simp]: "round_away 0 = 0"
  using round_away_of_int [of 0] by simp

lemma round_away_nonneg: "0 \<le> x \<Longrightarrow> 0 \<le> round_away x"
  by (simp add: round_away_def)

lemma round_away_neg: "x < 0 \<Longrightarrow> round_away x \<le> 0"
  by (simp add: round_away_def)

lemma round_away_mono:
  assumes "x \<le> y"
  shows "round_away x \<le> round_away y"
proof -
  have "\<lfloor>x + 1 / 2\<rfloor> \<le> \<lfloor>y + 1 / 2\<rfloor>" and "\<lfloor>- y + 1 / 2\<rfloor> \<le> \<lfloor>- x + 1 / 2\<rfloor>"
    using assms by (intro floor_mono; simp)+
  moreover have "round_away x \<le> round_away y" if "x < 0" "\<not> y < 0"
    using round_away_neg [of x] round_away_nonneg [of y] that by simp
  ultimately show ?thesis
    using assms by (cases "x < 0"; cases "y < 0") (simp_all add: round_away_def)
qed

section \<open>Powers\<close>

text \<open>The loop of \<open>math.Pow\<close>: \<open>a1 * 2 ^ ae\<close> is the product so far, \<open>x1 * 2 ^ xe\<close> the current square.\<close>

function pow_loop :: "int \<Rightarrow> rat \<Rightarrow> int \<Rightarrow> rat \<Rightarrow> int \<Rightarrow> rat \<times> int" where
  "pow_loop i a1 ae x1 xe =
     (if i \<le> 0 then (a1, ae)
      else if xe < - 4096 \<or> 4096 < xe then (a1, ae + xe)
      else
        let (a1', ae') = (if odd i then (fl (a1 * x1), ae + xe) else (a1, ae));
            sq = fl (x1 * x1)
        in if sq < 1 / 2 then pow_loop (i div 2) a1' ae' (fl (sq + sq)) (2 * xe - 1)
           else pow_loop (i div 2) a1' ae' sq (2 * xe))"
  by pat_completeness auto

termination pow_loop
  by (relation "measure (\<lambda>(i, a1, ae, x1, xe). nat i)") auto

declare pow_loop.simps [simp del]

text \<open>\<open>math.Frexp\<close> of a non-zero value: the mantissa in \<open>[1/2, 1)\<close> and the exponent.\<close>

definition frexp :: "rat \<Rightarrow> rat \<times> int" where
  "frexp x = (let e = exponent \<bar>x\<bar> + 1 in (x / pow2 e, e))"

text \<open>\<open>math.Pow(x, y)\<close> for the float \<open>y\<close> of a positive integer \<open>n\<close>.\<close>

definition Pow :: "float64 \<Rightarrow> int \<Rightarrow> float64" where
  "Pow x n =
     (if x = Fin 1 then Fin 1
      else if n = 1 then x
      else case x of
        NaN \<Rightarrow> NaN
      | PInf \<Rightarrow> PInf
      | NInf \<Rightarrow> if odd n then NInf else PInf
      | Fin a \<Rightarrow>
          if a = 0 then Fin 0
          else if n \<ge> 2 ^ 63 then (if a = - 1 then Fin 1 else if \<bar>a\<bar> < 1 then Fin 0 else PInf)
          else (case frexp a of
                  (x1, xe) \<Rightarrow> (case pow_loop n 1 0 x1 xe of (a1, ae) \<Rightarrow> f64 (a1 * pow2 ae))))"

section \<open>Values in range\<close>

lemma f64_small:
  assumes "\<bar>x\<bar> \<le> 2 ^ 53"
  shows "f64 x = Fin (fl x)"
proof -
  have "of_int (- (2 ^ 53)) \<le> x" and "x \<le> of_int (2 ^ 53)" using assms by (simp_all add: abs_le_iff)
  then have "of_int (- (2 ^ 53)) \<le> fl x" and "fl x \<le> of_int (2 ^ 53)" by (rule fl_range; simp)+
  moreover have "(2 :: rat) ^ 53 < 2 ^ 1024" by (rule power_strict_increasing) simp_all
  ultimately show ?thesis by (simp add: f64_def overflow_bound_def Let_def)
qed

lemma of_int64_small: "\<bar>n\<bar> \<le> 2 ^ 53 \<Longrightarrow> of_int64 n = Fin (of_int n)"
  by (simp add: of_int64_def f64_small fl_of_int abs_le_iff flip: of_int_power of_int_minus)

end
