(* ===== verification/EdgeGates.thy ===== *)
theory EdgeGates
  imports FloatArith
begin

text \<open>
  The HTTP middleware, \<open>api/middleware\<close>: a gate looks at a request and its own state and either
  hands the request on, with what it has added to the context, or answers with a status. Headers are looked up by
  their canonical names. The verifiers and fetchers a gate is built with, SHA-256 in hexadecimal and the JSON decoder
  are arguments. Durations between two instants are below 292 years.
\<close>

section \<open>Requests\<close>

datatype Role = RoleCustomer | RoleAgent | RoleComplianceOfficer | RoleAdmin | RoleAuditor

record http_request =
  rq_Method :: string
  rq_Path :: string
  rq_RemoteAddr :: string
  rq_Header :: "string \<Rightarrow> string"
  rq_Body :: "string option"
  rq_UserID :: "string option"
  rq_Role :: "Role option"

datatype gate = Pass http_request | Reject nat string string

text \<open>Status, code (empty for a plain text answer) and message.\<close>

fun passes :: "gate \<Rightarrow> bool" where
  "passes (Pass r) = True"
| "passes (Reject st code msg) = False"

definition UserIDFromContext :: "http_request \<Rightarrow> string option" where
  "UserIDFromContext r = (case rq_UserID r of Some u \<Rightarrow> if u \<noteq> [] then Some u else None | None \<Rightarrow> None)"

text \<open>The user of a gate that answers 401 without one.\<close>

definition gate_user :: "http_request \<Rightarrow> string option" where
  "gate_user r = (case UserIDFromContext r of None \<Rightarrow> None | Some u \<Rightarrow> if TrimSpace u = [] then None else Some u)"

text \<open>\<open>net.SplitHostPort\<close>: the host, unless the address is malformed.\<close>

definition index_byte :: "char \<Rightarrow> string \<Rightarrow> nat option" where
  "index_byte c s = (let k = length (takeWhile (\<lambda>x. x \<noteq> c) s) in if k < length s then Some k else None)"

definition last_byte :: "char \<Rightarrow> string \<Rightarrow> nat option" where
  "last_byte c s = map_option (\<lambda>k. length s - 1 - k) (index_byte c (rev s))"

definition SplitHost :: "string \<Rightarrow> string option" where
  "SplitHost hp =
     (case last_byte (CHR '':'') hp of None \<Rightarrow> None
      | Some i \<Rightarrow>
          if hd hp = CHR ''['' then
            (case index_byte (CHR '']'') hp of None \<Rightarrow> None
             | Some e \<Rightarrow>
                 if e + 1 \<noteq> i \<or> CHR ''['' \<in> set (drop 1 hp) \<or> CHR '']'' \<in> set (drop (e + 1) hp) then None
                 else Some (take (e - 1) (drop 1 hp)))
          else if CHR '':'' \<in> set (take i hp) \<or> CHR ''['' \<in> set hp \<or> CHR '']'' \<in> set hp then None
          else Some (take i hp))"

definition ClientIP :: "http_request \<Rightarrow> string" where
  "ClientIP r =
     (let xff = TrimSpace (rq_Header r ''X-Forwarded-For''); ip = TrimSpace (takeWhile (\<lambda>c. c \<noteq> CHR '','') xff);
          xr = TrimSpace (rq_Header r ''X-Real-IP'')
      in if xff \<noteq> [] \<and> ip \<noteq> [] then ip else if xr \<noteq> [] then xr
         else case SplitHost (rq_RemoteAddr r) of None \<Rightarrow> rq_RemoteAddr r | Some host \<Rightarrow> host)"

section \<open>Rate limit\<close>

record rl_state =
  rl_buckets :: "string \<rightharpoonup> time \<times> int"
  rl_lastSweep :: time

definition rl_max :: "int \<Rightarrow> int" where "rl_max m = (if m \<le> 0 then 60 else m)"
definition rl_window :: "duration \<Rightarrow> duration" where "rl_window w = (if w \<le> 0 then minute else w)"

definition new_limiter :: "time \<Rightarrow> rl_state" where
  "new_limiter now = \<lparr>rl_buckets = (\<lambda>_. None), rl_lastSweep = now\<rparr>"

definition rl_sweep :: "duration \<Rightarrow> time \<Rightarrow> rl_state \<Rightarrow> rl_state" where
  "rl_sweep window now st =
     (if now - rl_lastSweep st \<ge> window
      then \<lparr>rl_buckets = keep_if (\<lambda>b. \<not> now - fst b \<ge> window) (rl_buckets st), rl_lastSweep = now\<rparr> else st)"

text \<open>The bucket a request is counted in, before it is counted.\<close>

definition rl_bucket :: "duration \<Rightarrow> time \<Rightarrow> string \<Rightarrow> rl_state \<Rightarrow> time \<times> int" where
  "rl_bucket window now key st =
     (case rl_buckets st key of None \<Rightarrow> (now, 0)
      | Some b \<Rightarrow> if now - fst b \<ge> window then (now, 0) else b)"

definition RateLimit :: "int \<Rightarrow> duration \<Rightarrow> time \<Rightarrow> http_request \<Rightarrow> rl_state \<Rightarrow> gate \<times> rl_state" where
  "RateLimit max0 window0 now r st =
     (let window = rl_window window0; st1 = rl_sweep window now st; key = ClientIP r;
          (start, n) = rl_bucket window now key st1
      in (if n + 1 > rl_max max0 then Reject 429 [] ''rate limit exceeded'' else Pass r,
          st1\<lparr>rl_buckets := (rl_buckets st1)(key \<mapsto> (start, n + 1))\<rparr>))"

section \<open>Idempotency keys\<close>

record idem_entry =
  ie_bodyHash :: string
  ie_expires :: time

record idem_state =
  id_seen :: "string \<rightharpoonup> idem_entry"
  id_lastSweep :: time

definition idem_ttl :: duration where "idem_ttl = 24 * hour"

text \<open>\<open>len(seen) > maxEntries\<close> is an argument: the size of a map is not a function of its lookups.\<close>

definition idem_sweep :: "bool \<Rightarrow> time \<Rightarrow> idem_state \<Rightarrow> idem_state" where
  "idem_sweep crowded now st =
     (if now - id_lastSweep st \<ge> hour \<or> crowded
      then \<lparr>id_seen = keep_if (\<lambda>e. \<not> now > ie_expires e) (id_seen st), id_lastSweep = now\<rparr> else st)"

definition HasPrefixPath :: "string \<Rightarrow> string \<Rightarrow> bool" where
  "HasPrefixPath path p \<longleftrightarrow> take (length p) path = p"

definition needs_key :: "string list \<Rightarrow> http_request \<Rightarrow> bool" where
  "needs_key paths r \<longleftrightarrow>
     ToUpper (rq_Method r) \<in> {''POST'', ''PATCH''} \<and> list_ex (HasPrefixPath (rq_Path r)) paths"

definition read_body :: "http_request \<Rightarrow> string" where
  "read_body r = (case rq_Body r of None \<Rightarrow> [] | Some b \<Rightarrow> take (2 ^ 20) b)"

definition store_key :: "http_request \<Rightarrow> string" where
  "store_key r = (case UserIDFromContext r of None \<Rightarrow> ''anon'' | Some u \<Rightarrow> u) @ ''|'' @ rq_Path r @ ''|'' @
     TrimSpace (rq_Header r ''Idempotency-Key'')"

definition RequireIdempotency ::
  "(string \<Rightarrow> string) \<Rightarrow> string list \<Rightarrow> bool \<Rightarrow> time \<Rightarrow> http_request \<Rightarrow> idem_state \<Rightarrow> gate \<times> idem_state" where
  "RequireIdempotency H paths crowded now r st =
     (if \<not> needs_key paths r then (Pass r, st)
      else if TrimSpace (rq_Header r ''Idempotency-Key'') = [] then (Reject 400 [] ''idempotency key required'', st)
      else
        let body = read_body r; hash = H body; k = store_key r; st1 = idem_sweep crowded now st;
            r' = (if rq_Body r = None then r else r\<lparr>rq_Body := Some body\<rparr>);
            fresh = (Pass r', st1\<lparr>id_seen := (id_seen st1)(k \<mapsto> \<lparr>ie_bodyHash = hash, ie_expires = now + idem_ttl\<rparr>)\<rparr>)
        in (case id_seen st1 k of None \<Rightarrow> fresh
            | Some e \<Rightarrow>
                if now < ie_expires e then
                  (if ie_bodyHash e \<noteq> hash
                   then (Reject 409 [] ''idempotency key reused with a different request body'', st1)
                   else (Pass r', st1))
                else fresh))"

section \<open>Tokens and roles\<close>

definition RequireScopedToken :: "string \<Rightarrow> string \<Rightarrow> http_request \<Rightarrow> gate" where
  "RequireScopedToken headerName0 expected0 r =
     (let headerName = (if TrimSpace headerName0 = [] then ''X-Internal-Token'' else TrimSpace headerName0);
          expected = TrimSpace expected0; provided = TrimSpace (rq_Header r headerName)
      in if expected = [] then Reject 503 [] ''scope token not configured''
         else if provided = [] then Reject 401 [] ''missing scope token''
         else if provided \<noteq> expected then Reject 403 [] ''invalid scope token''
         else Pass r)"

fun roleHierarchy :: "Role \<Rightarrow> nat" where
  "roleHierarchy RoleCustomer = 1"
| "roleHierarchy RoleAgent = 2"
| "roleHierarchy RoleComplianceOfficer = 3"
| "roleHierarchy RoleAdmin = 4"
| "roleHierarchy RoleAuditor = 4"

definition ParseRole :: "string \<Rightarrow> Role" where
  "ParseRole s0 =
     (let s = ToLower (TrimSpace s0) in
      if s = ''agent'' then RoleAgent
      else if s = ''compliance_officer'' \<or> s = ''compliance'' then RoleComplianceOfficer
      else if s = ''admin'' then RoleAdmin else if s = ''auditor'' then RoleAuditor else RoleCustomer)"

definition RequireRole :: "Role list \<Rightarrow> http_request \<Rightarrow> gate" where
  "RequireRole allowed r =
     (case rq_Role r of
        None \<Rightarrow> Reject 403 [] ''role not found in context''
      | Some role \<Rightarrow> if role \<in> set allowed then Pass r
          else Reject 403 [] ''insufficient permissions for this endpoint'')"

definition all_roles :: "Role list" where
  "all_roles = [RoleCustomer, RoleAgent, RoleComplianceOfficer, RoleAdmin, RoleAuditor]"

definition RoleFunc :: "Role \<Rightarrow> Role list" where
  "RoleFunc minRole = filter (\<lambda>role. roleHierarchy role \<ge> roleHierarchy minRole) all_roles"

definition RequireMinRole :: "Role \<Rightarrow> http_request \<Rightarrow> gate" where
  "RequireMinRole minRole = RequireRole (RoleFunc minRole)"

record TokenClaims =
  tk_UserID :: string
  tk_Role :: string
  tk_DeviceFP :: string

text \<open>A verified token's claims, or the code of the failure.\<close>

type_synonym jwt_verify = "string \<Rightarrow> string \<Rightarrow> string + TokenClaims"
type_synonym authenticator = "string \<Rightarrow> string \<Rightarrow> string option"

definition with_identity :: "string \<Rightarrow> Role option \<Rightarrow> http_request \<Rightarrow> http_request" where
  "with_identity uid role r =
     r\<lparr>rq_UserID := Some uid, rq_Role := (case role of None \<Rightarrow> rq_Role r | Some x \<Rightarrow> Some x)\<rparr>"

definition legacy_auth ::
  "authenticator \<Rightarrow> (string \<Rightarrow> string) option \<Rightarrow> string \<Rightarrow> string \<Rightarrow> http_request \<Rightarrow> gate" where
  "legacy_auth authenticator roleFetcher token fp r =
     (case authenticator token fp of
        Some uid \<Rightarrow>
          if uid = [] then Reject 401 ''token_invalid'' ''invalid session token or device mismatch''
          else Pass (with_identity uid (map_option (\<lambda>f. ParseRole (f uid)) roleFetcher) r)
      | None \<Rightarrow> Reject 401 ''token_invalid'' ''invalid session token or device mismatch'')"

definition Auth ::
  "jwt_verify option \<Rightarrow> authenticator \<Rightarrow> (string \<Rightarrow> string) option \<Rightarrow> http_request \<Rightarrow> gate" where
  "Auth verify authenticator roleFetcher r =
     (let header = TrimSpace (rq_Header r ''Authorization''); token = TrimSpace (drop 7 header);
          fp = TrimSpace (rq_Header r ''X-Device-Fingerprint'')
      in if take 7 (ToLower header) \<noteq> ''bearer ''
         then Reject 401 ''missing_token'' ''missing or invalid authorization header''
         else if token = [] then Reject 401 ''missing_token'' ''missing bearer token''
         else (case verify of None \<Rightarrow> legacy_auth authenticator roleFetcher token fp r
               | Some v \<Rightarrow>
                   (case v token fp of
                      Inr claims \<Rightarrow>
                        let role = (if tk_Role claims = [] then
                                      (case roleFetcher of None \<Rightarrow> [] | Some f \<Rightarrow> f (tk_UserID claims))
                                    else tk_Role claims)
                        in Pass (with_identity (tk_UserID claims) (Some (ParseRole role)) r)
                    | Inl code \<Rightarrow>
                        if code = ''token_expired'' then Reject 401 code ''session expired; please re-authenticate''
                        else if code = ''device_mismatch''
                        then Reject 401 code ''device fingerprint does not match this session''
                        else if code = ''token_revoked'' then Reject 401 code ''session has been revoked''
                        else legacy_auth authenticator roleFetcher token fp r)))"

section \<open>Step-up gates\<close>

text \<open>A verifier answers an error text or nothing, and leaves the state of the service.\<close>

type_synonym 's bio_verifier = "string \<Rightarrow> string \<Rightarrow> string \<Rightarrow> 's \<Rightarrow> string option \<times> 's"
type_synonym 's otp_verifier = "string \<Rightarrow> string \<Rightarrow> 's \<Rightarrow> string option \<times> 's"

definition BiometricChallengeEnforced :: "string \<Rightarrow> bool" where
  "BiometricChallengeEnforced flag \<longleftrightarrow> ToLower (TrimSpace flag) \<in> {''true'', ''1'', ''yes'', ''on''}"

definition challenge_headers :: "http_request \<Rightarrow> string \<times> string" where
  "challenge_headers r =
     (TrimSpace (rq_Header r ''X-Biometric-Challenge-Id''), TrimSpace (rq_Header r ''X-Biometric-Challenge''))"

definition RequireBiometricChallenge ::
  "string \<Rightarrow> 's bio_verifier \<Rightarrow> http_request \<Rightarrow> 's \<Rightarrow> gate \<times> 's" where
  "RequireBiometricChallenge flag verifier r s =
     (case gate_user r of None \<Rightarrow> (Reject 401 [] ''unauthorized'', s)
      | Some uid \<Rightarrow>
          let (challengeID, signature) = challenge_headers r in
          if challengeID = [] \<or> signature = [] then
            (if BiometricChallengeEnforced flag then
               (if challengeID = []
                then (Reject 401 [] ''biometric challenge ID is required (X-Biometric-Challenge-ID header)'', s)
                else (Reject 401 [] ''biometric challenge signature is required (X-Biometric-Challenge header)'', s))
             else (Pass r, s))
          else case verifier uid challengeID signature s of
              (Some e, s') \<Rightarrow> (Reject 401 [] e, s')
            | (None, s') \<Rightarrow> (Pass r, s'))"

text \<open>The amounts of a decoded body.\<close>

record amount_fields =
  af_AmountPaise :: "int option"
  af_OrderAmountPaise :: "int option"
  af_UnitsAmountPaise :: "int option"
  af_Amount :: "rat option"

text \<open>The conversion of a \<open>float64\<close> to \<open>int64\<close>; out of range it is the least integer, as on amd64.\<close>

definition int64_of :: "rat \<Rightarrow> int" where
  "int64_of x = (let n = int_of_float x in if - (2 ^ 63) \<le> n \<and> n < 2 ^ 63 then n else - (2 ^ 63))"

definition peekAmountPaise :: "(string \<Rightarrow> amount_fields option) \<Rightarrow> http_request \<Rightarrow> int" where
  "peekAmountPaise decode r =
     (let raw = read_body r in
      if raw = [] then 0
      else case decode raw of None \<Rightarrow> 0
      | Some b \<Rightarrow>
          (case (af_AmountPaise b, af_OrderAmountPaise b, af_UnitsAmountPaise b, af_Amount b) of
             (Some x, _, _, _) \<Rightarrow> x
           | (None, Some x, _, _) \<Rightarrow> x
           | (None, None, Some x, _) \<Rightarrow> x
           | (None, None, None, Some a) \<Rightarrow> int64_of (fl (a * 100))
           | _ \<Rightarrow> 0))"

definition RequireBiometricAboveAmount ::
  "(string \<Rightarrow> amount_fields option) \<Rightarrow> int \<Rightarrow> 's bio_verifier \<Rightarrow> http_request \<Rightarrow> 's \<Rightarrow> gate \<times> 's" where
  "RequireBiometricAboveAmount decode threshold verifier r s =
     (let r' = (if rq_Body r = None then r else r\<lparr>rq_Body := Some (read_body r)\<rparr>) in
      if peekAmountPaise decode r < threshold then (Pass r', s)
      else case gate_user r of None \<Rightarrow> (Reject 401 ''token_invalid'' ''unauthorized'', s)
      | Some uid \<Rightarrow>
          let (challengeID, signature) = challenge_headers r in
          if challengeID = [] \<or> signature = []
          then (Reject 401 ''step_up_required'' ''high-value order requires biometric re-authentication'', s)
          else case verifier uid challengeID signature s of
              (Some e, s') \<Rightarrow> (Reject 401 ''step_up_required'' e, s')
            | (None, s') \<Rightarrow> (Pass r', s'))"

text \<open>A decoded object maps a key to its text, if its value is a string.\<close>

definition extractOTPFromPayload :: "(string \<Rightarrow> string option) \<Rightarrow> string" where
  "extractOTPFromPayload payload =
     (case payload ''otp'' of Some v \<Rightarrow> v
      | None \<Rightarrow> (case payload ''otpToken'' of Some v \<Rightarrow> v
          | None \<Rightarrow> (case payload ''otp_token'' of Some v \<Rightarrow> v | None \<Rightarrow> [])))"

definition RequireOTPVerification ::
  "(string \<Rightarrow> (string \<Rightarrow> string option) option) \<Rightarrow> 's otp_verifier \<Rightarrow> http_request \<Rightarrow> 's \<Rightarrow> gate \<times> 's" where
  "RequireOTPVerification decode verifier r s =
     (case gate_user r of None \<Rightarrow> (Reject 401 [] ''unauthorized'', s)
      | Some uid \<Rightarrow>
          (case rq_Body r of None \<Rightarrow> (Reject 400 [] ''request body is required'', s)
           | Some raw \<Rightarrow>
               (case (if TrimSpace raw = [] then Some (\<lambda>_. None) else decode raw) of
                  None \<Rightarrow> (Reject 400 [] ''invalid json body'', s)
                | Some payload \<Rightarrow>
                    let otp = TrimSpace (extractOTPFromPayload payload) in
                    if otp = [] then (Reject 400 [] ''otp token is required'', s)
                    else case verifier uid otp s of
                        (Some e, s') \<Rightarrow> (Reject 401 [] e, s')
                      | (None, s') \<Rightarrow> (Pass r, s'))))"

text \<open>The checker answers an error text, or whether a lock is active.\<close>

definition EnforceCoolingOff ::
  "(string \<Rightarrow> string \<Rightarrow> string + bool) option \<Rightarrow> string \<Rightarrow> http_request \<Rightarrow> gate" where
  "EnforceCoolingOff checker txID r =
     (case checker of None \<Rightarrow> Pass r
      | Some check \<Rightarrow>
          (case gate_user r of None \<Rightarrow> Reject 401 [] ''unauthorized''
           | Some uid \<Rightarrow>
               (case check uid (TrimSpace txID) of
                  Inl e \<Rightarrow> Reject 400 [] e
                | Inr active \<Rightarrow> if active then Reject 423 [] ''cooling-off lock active'' else Pass r)))"

definition RequirePQCSession :: "(string \<Rightarrow> bool) option \<Rightarrow> http_request \<Rightarrow> gate" where
  "RequirePQCSession validator r =
     (let sid = TrimSpace (rq_Header r ''X-PQC-Session'') in
      if sid = [] then Reject 401 [] ''PQC session is required (X-PQC-Session header)''
      else if (case validator of None \<Rightarrow> False | Some v \<Rightarrow> \<not> v sid)
      then Reject 401 [] ''invalid or expired PQC session''
      else Pass r)"

section \<open>How many requests pass\<close>

definition rl_step :: "int \<Rightarrow> duration \<Rightarrow> rl_state \<Rightarrow> time \<times> http_request \<Rightarrow> rl_state" where
  "rl_step m w st e = snd (RateLimit m w (fst e) (snd e) st)"

definition admitted :: "int \<Rightarrow> duration \<Rightarrow> string \<Rightarrow> rl_state \<times> time \<times> http_request \<Rightarrow> bool" where
  "admitted m w k x \<longleftrightarrow> (case x of (st, now, r) \<Rightarrow> ClientIP r = k \<and> passes (fst (RateLimit m w now r st)))"

text \<open>What an address may still send from an instant on, within one window.\<close>

definition credit :: "int \<Rightarrow> time \<Rightarrow> string \<Rightarrow> rl_state \<Rightarrow> nat" where
  "credit M t0 k st =
     (case rl_buckets st k of None \<Rightarrow> nat M
      | Some (a, n) \<Rightarrow> nat (M - n) + (if t0 \<le> a then 0 else nat M))"

lemma keep_if_at: "keep_if P m k = (case m k of None \<Rightarrow> None | Some v \<Rightarrow> if P v then Some v else None)"
  by (simp add: keep_if_def split: option.split)

lemma credit_sweep: "now < t0 + W \<Longrightarrow> credit M t0 k (rl_sweep W now st) \<le> credit M t0 k st"
  by (auto simp: credit_def rl_sweep_def keep_if_at split: option.split prod.split)

lemma credit_count:
  assumes "t0 \<le> now" and "now < t0 + W" and "1 \<le> M" and "rl_bucket W now k st = (a, n)"
  shows "credit M t0 k (st\<lparr>rl_buckets := (rl_buckets st)(k \<mapsto> (a, n + 1))\<rparr>) + (if n + 1 \<le> M then 1 else 0)
    \<le> credit M t0 k st"
  using assms by (auto simp: credit_def rl_bucket_def split: option.splits if_splits)

lemma credit_step:
  assumes "t0 \<le> now" and "now < t0 + rl_window w"
  shows "credit (rl_max m) t0 k (rl_step m w st (now, r)) + (if admitted m w k (st, now, r) then 1 else 0)
    \<le> credit (rl_max m) t0 k st"
proof -
  let ?W = "rl_window w" and ?M = "rl_max m" and ?key = "ClientIP r"
  let ?st = "rl_sweep ?W now st"
  obtain a n where b: "rl_bucket ?W now ?key ?st = (a, n)" by fastforce
  have M: "1 \<le> ?M" by (simp add: rl_max_def)
  have st': "rl_step m w st (now, r) = ?st\<lparr>rl_buckets := (rl_buckets ?st)(?key \<mapsto> (a, n + 1))\<rparr>"
    and ad: "admitted m w k (st, now, r) \<longleftrightarrow> ?key = k \<and> n + 1 \<le> ?M"
    using b by (auto simp: rl_step_def admitted_def RateLimit_def Let_def)
  have "credit ?M t0 k (rl_step m w st (now, r)) + (if admitted m w k (st, now, r) then 1 else 0) \<le> credit ?M t0 k ?st"
  proof (cases "?key = k")
    case True
    with credit_count [OF assms M b] show ?thesis by (simp add: st' ad)
  next
    case False
    then show ?thesis unfolding st' ad by (simp add: credit_def)
  qed
  with credit_sweep [OF assms(2), of ?M k st] show ?thesis by linarith
qed

lemma credit_run:
  assumes "\<forall>(now, r) \<in> set es. t0 \<le> now \<and> now < t0 + rl_window w"
  shows "length (filter (admitted m w k) (trace (rl_step m w) st es)) \<le> credit (rl_max m) t0 k st"
  using assms
proof (induction es arbitrary: st)
  case (Cons e es)
  obtain now r where e: "e = (now, r)" by fastforce
  have "length (filter (admitted m w k) (trace (rl_step m w) (rl_step m w st e) es)) \<le> credit (rl_max m) t0 k (rl_step m w st e)"
    using Cons by simp
  with credit_step [of t0 now w m k st r] Cons.prems show ?case by (auto simp: e split: if_splits)
qed simp

definition counts_ok :: "rl_state \<Rightarrow> bool" where
  "counts_ok st \<longleftrightarrow> (\<forall>k a n. rl_buckets st k = Some (a, n) \<longrightarrow> 0 \<le> n)"

lemma counts_ok_step: "counts_ok st \<Longrightarrow> counts_ok (rl_step m w st e)"
  by (cases e) (auto simp: counts_ok_def rl_step_def RateLimit_def rl_sweep_def rl_bucket_def keep_if_at Let_def
      split: prod.splits option.splits if_splits)

lemma counts_ok_run: "counts_ok st \<Longrightarrow> counts_ok (foldl (rl_step m w) st es)"
  by (induction es arbitrary: st) (auto intro: counts_ok_step)

text \<open>C33: in any span of time of one window's length, whatever came before, at most twice the configured number of
  requests of one client address passes the rate limiter.\<close>

theorem rate_limit_holds:
  assumes "\<forall>(now, r) \<in> set es. t0 \<le> now \<and> now < t0 + rl_window w"
  shows "length (filter (admitted m w k) (trace (rl_step m w) (foldl (rl_step m w) (new_limiter t) before) es))
    \<le> 2 * nat (rl_max m)"
proof -
  let ?st = "foldl (rl_step m w) (new_limiter t) before"
  have "counts_ok ?st" by (rule counts_ok_run) (simp add: counts_ok_def new_limiter_def)
  moreover have "nat (M - n) \<le> nat M" if "0 \<le> n" for M n :: int using that by simp
  ultimately have "credit (rl_max m) t0 k ?st \<le> 2 * nat (rl_max m)"
    by (fastforce simp: credit_def counts_ok_def mult_2 intro: add_mono trans_le_add1 split: option.split)
  with credit_run [OF assms, of m k ?st] show ?thesis by linarith
qed

definition demo_request :: http_request where
  "demo_request = \<lparr>rq_Method = ''POST'', rq_Path = ''/v1/transactions/initiate'', rq_RemoteAddr = ''10.0.0.1:4711'',
     rq_Header = (\<lambda>h. if h = ''Idempotency-Key'' then ''k1'' else []), rq_Body = Some ''a'', rq_UserID = Some ''u1'',
     rq_Role = None\<rparr>"

lemma rate_limit_holds_witness:
  "length (filter (admitted 1 minute ''10.0.0.1'') (trace (rl_step 1 minute)
     (foldl (rl_step 1 minute) (new_limiter 0) [(5, demo_request)])
     [(minute - 1, demo_request), (minute + 5, demo_request), (minute + 6, demo_request)])) \<le> 2 * nat (rl_max 1)"
proof (rule rate_limit_holds)
  show "\<forall>(now, r) \<in> set [(minute - 1, demo_request), (minute + 5, demo_request), (minute + 6, demo_request)].
      minute - 1 \<le> now \<and> now < minute - 1 + rl_window minute"
    by (simp add: rl_window_def)
qed

text \<open>The address is what the caller says it is: two headers, two buckets.\<close>

theorem forged_address_gets_new_bucket:
  "ClientIP (demo_request\<lparr>rq_Header := (\<lambda>h. if h = ''X-Forwarded-For'' then ''1.1.1.1'' else [])\<rparr>) = ''1.1.1.1'' \<and>
   ClientIP (demo_request\<lparr>rq_Header := (\<lambda>h. if h = ''X-Forwarded-For'' then ''2.2.2.2'' else [])\<rparr>) = ''2.2.2.2''"
  by (simp add: ClientIP_def demo_request_def Let_def TrimSpace_def is_space_def)

section \<open>A key stands for one body\<close>

definition idem_step ::
  "(string \<Rightarrow> string) \<Rightarrow> string list \<Rightarrow> idem_state \<Rightarrow> bool \<times> time \<times> http_request \<Rightarrow> idem_state" where
  "idem_step H ps st e = (case e of (crowded, now, r) \<Rightarrow> snd (RequireIdempotency H ps crowded now r st))"

lemma key_entry_stays:
  assumes "id_seen st k = Some e" and "now < ie_expires e"
  shows "id_seen (idem_step H ps st (crowded, now, r)) k = Some e"
proof -
  have "id_seen (idem_sweep crowded now st) k = Some e"
    using assms by (simp add: idem_sweep_def keep_if_at)
  with assms show ?thesis
    by (auto simp: idem_step_def RequireIdempotency_def Let_def split: option.split)
qed

lemma entry_stays_run:
  "id_seen st k = Some e \<Longrightarrow> \<forall>(crowded, now, r) \<in> set es. now < ie_expires e \<Longrightarrow>
   id_seen (foldl (idem_step H ps) st es) k = Some e"
proof (induction es arbitrary: st)
  case (Cons x es)
  obtain crowded now r where x: "x = (crowded, now, r)" by (cases x) auto
  show ?case using Cons.prems key_entry_stays [OF Cons.prems(1), of now H ps crowded r] by (auto simp: x intro!: Cons.IH)
qed simp

text \<open>C34: once a request with an idempotency key has passed, for a day every request of the same user and path
  that reuses the key with a body of another digest is refused with 409, whatever was sent in between.\<close>

theorem idempotency_key_binds_body:
  assumes "needs_key ps r" and "id_seen st (store_key r) = None"
    and "RequireIdempotency H ps c0 t r st = (Pass r1, st1)"
    and "\<forall>(crowded, now, q) \<in> set es. now < t + idem_ttl"
    and "needs_key ps r'" and "store_key r' = store_key r" and "H (read_body r') \<noteq> H (read_body r)"
    and "TrimSpace (rq_Header r' ''Idempotency-Key'') \<noteq> []" and "now < t + idem_ttl"
  shows "fst (RequireIdempotency H ps c now r' (foldl (idem_step H ps) st1 es)) =
    Reject 409 [] ''idempotency key reused with a different request body''"
proof -
  let ?e = "\<lparr>ie_bodyHash = H (read_body r), ie_expires = t + idem_ttl\<rparr>"
  let ?st = "foldl (idem_step H ps) st1 es"
  have "id_seen (idem_sweep c0 t st) (store_key r) = None" using assms(2) by (simp add: idem_sweep_def keep_if_at)
  then have "id_seen st1 (store_key r) = Some ?e"
    using assms(1,3) by (auto simp: RequireIdempotency_def Let_def split: if_splits)
  then have "id_seen ?st (store_key r) = Some ?e" using assms(4) by (intro entry_stays_run) auto
  then have "id_seen (idem_sweep c now ?st) (store_key r') = Some ?e"
    using assms(6,9) by (simp add: idem_sweep_def keep_if_at)
  then show ?thesis using assms(5,7,8,9) by (simp add: RequireIdempotency_def Let_def)
qed

lemma demo_key: "TrimSpace ''k1'' = ''k1''"
  by (simp add: TrimSpace_def is_space_def)

lemma idempotency_key_binds_body_witness:
  "\<exists>r1 st1. RequireIdempotency (\<lambda>b. b) [''/v1/transactions''] False 1 demo_request
       \<lparr>id_seen = (\<lambda>_. None), id_lastSweep = 0\<rparr> = (Pass r1, st1) \<and>
     fst (RequireIdempotency (\<lambda>b. b) [''/v1/transactions''] True 9 (demo_request\<lparr>rq_Body := Some ''b''\<rparr>)
       (foldl (idem_step (\<lambda>b. b) [''/v1/transactions'']) st1 [(True, 5, demo_request)])) =
     Reject 409 [] ''idempotency key reused with a different request body''"
proof -
  let ?st = "\<lparr>id_seen = (\<lambda>_. None), id_lastSweep = 0\<rparr>"
  have n: "needs_key [''/v1/transactions''] (demo_request\<lparr>rq_Body := b\<rparr>)" for b
    by (simp add: needs_key_def demo_request_def HasPrefixPath_def ToUpper_def upper_char_def)
  then have n0: "needs_key [''/v1/transactions''] demo_request" using n [of "Some ''a''"] by (simp add: demo_request_def)
  obtain r1 st1 where p: "RequireIdempotency (\<lambda>b. b) [''/v1/transactions''] False 1 demo_request ?st = (Pass r1, st1)"
    using n0 demo_key by (simp add: RequireIdempotency_def Let_def idem_sweep_def demo_request_def)
  have k: "store_key (demo_request\<lparr>rq_Body := b\<rparr>) = store_key demo_request" for b
    by (simp add: store_key_def UserIDFromContext_def)
  have b: "read_body (demo_request\<lparr>rq_Body := Some ''b''\<rparr>) = ''b''" "read_body demo_request = ''a''"
    by (simp_all add: read_body_def demo_request_def)
  have "fst (RequireIdempotency (\<lambda>b. b) [''/v1/transactions''] True 9 (demo_request\<lparr>rq_Body := Some ''b''\<rparr>)
       (foldl (idem_step (\<lambda>b. b) [''/v1/transactions'']) st1 [(True, 5, demo_request)])) =
     Reject 409 [] ''idempotency key reused with a different request body''"
    by (rule idempotency_key_binds_body [OF n0 _ p _ n k])
      (simp_all add: b idem_ttl_def demo_key, simp add: demo_request_def demo_key)
  with p show ?thesis by blast
qed

section \<open>Roles\<close>

theorem min_role_admits:
  "passes (RequireMinRole m r) \<longleftrightarrow> (\<exists>role. rq_Role r = Some role \<and> roleHierarchy m \<le> roleHierarchy role)"
proof -
  have "role \<in> set all_roles" for role by (cases role) (simp_all add: all_roles_def)
  then show ?thesis by (auto simp: RequireMinRole_def RequireRole_def RoleFunc_def split: option.split)
qed

fun then_gate :: "gate \<Rightarrow> (http_request \<Rightarrow> gate) \<Rightarrow> gate" where
  "then_gate (Pass r) f = f r"
| "then_gate (Reject st c m) f = Reject st c m"

text \<open>The gates of \<open>/v1/compliance\<close>.\<close>

definition compliance_gates ::
  "string \<Rightarrow> jwt_verify option \<Rightarrow> authenticator \<Rightarrow> (string \<Rightarrow> string) \<Rightarrow> http_request \<Rightarrow> gate" where
  "compliance_gates token verify authenticator getRole r =
     then_gate (RequireScopedToken ''X-Admin-Token'' token r)
       (\<lambda>r. then_gate (Auth verify authenticator (Some getRole) r) (RequireRole [RoleComplianceOfficer, RoleAdmin]))"

lemma then_gate_Pass: "then_gate g f = Pass r \<longleftrightarrow> (\<exists>q. g = Pass q \<and> f q = Pass r)"
  by (cases g) auto

text \<open>The compliance route needs both secrets: the configured token, which is never empty, and a credential
  that the session layer resolves to a user whose role is compliance officer or administrator.\<close>

theorem compliance_needs_both:
  assumes "compliance_gates token verify authenticator getRole r = Pass r'"
  shows "TrimSpace (rq_Header r ''X-Admin-Token'') = TrimSpace token \<and> TrimSpace token \<noteq> [] \<and>
    rq_Role r' \<in> {Some RoleComplianceOfficer, Some RoleAdmin} \<and>
    (\<exists>cred fp uid. rq_UserID r' = Some uid \<and>
      (authenticator cred fp = Some uid \<or> (\<exists>v claims. verify = Some v \<and> v cred fp = Inr claims \<and> tk_UserID claims = uid)))"
proof -
  from assms obtain q where q: "RequireScopedToken ''X-Admin-Token'' token r = Pass q"
      and a: "Auth verify authenticator (Some getRole) q = Pass r'"
      and role: "rq_Role r' \<in> {Some RoleComplianceOfficer, Some RoleAdmin}"
    by (auto simp: compliance_gates_def then_gate_Pass RequireRole_def split: option.splits if_splits)
  have h: "TrimSpace ''X-Admin-Token'' = ''X-Admin-Token''" by (simp add: TrimSpace_def is_space_def)
  have "TrimSpace (rq_Header r ''X-Admin-Token'') = TrimSpace token \<and> TrimSpace token \<noteq> []"
    using q by (auto simp: RequireScopedToken_def Let_def h split: if_splits)
  moreover have "\<exists>cred fp uid. rq_UserID r' = Some uid \<and>
      (authenticator cred fp = Some uid \<or> (\<exists>v claims. verify = Some v \<and> v cred fp = Inr claims \<and> tk_UserID claims = uid))"
    using a unfolding Auth_def legacy_auth_def Let_def
    by (auto simp: with_identity_def split: if_splits option.splits sum.splits) blast+
  ultimately show ?thesis using role by simp
qed

definition officer_request :: http_request where
  "officer_request = demo_request\<lparr>rq_Header := (\<lambda>h. if h = ''Authorization'' then ''Bearer t''
     else if h = ''X-Admin-Token'' then ''s'' else [])\<rparr>"

lemma lower_bearer: "take 7 (ToLower ''Bearer t'') = ''bearer ''"
  by code_simp

lemma officer_passes:
  "compliance_gates ''s'' None (\<lambda>t fp. if t = ''t'' then Some ''u9'' else None) (\<lambda>u. ''admin'') officer_request =
   Pass (officer_request\<lparr>rq_UserID := Some ''u9'', rq_Role := Some RoleAdmin\<rparr>)"
  using lower_bearer
  by (simp add: compliance_gates_def RequireScopedToken_def Auth_def legacy_auth_def with_identity_def RequireRole_def
      ParseRole_def officer_request_def demo_request_def Let_def TrimSpace_def is_space_def)
     (simp add: ToLower_def lower_char_def)

lemma compliance_needs_both_witness:
  "TrimSpace (rq_Header officer_request ''X-Admin-Token'') = TrimSpace ''s'' \<and> TrimSpace ''s'' \<noteq> []"
  using compliance_needs_both [OF officer_passes] by blast

end
