(* ===== verification/StepUpRoutes.thy ===== *)
theory StepUpRoutes
  imports PlatformPayments DataProtection PlatformLogin EdgeGates
begin

text \<open>
  Operations that ask for a second factor, and the routes that lead to them: passkey step-up, SIM binding by
  token, UPI PINs, investment orders, changes of a savings plan and of a nominee (\<open>service_expansion.go\<close>),
  behind the gates \<open>api/router.go\<close> puts before them. JSON decoding, the text of an error and the text of a
  decoded value that is not a string are arguments.
\<close>

section \<open>Decoded bodies\<close>

text \<open>A decoded value; an object lists its keys once.\<close>

datatype json = JNull | JBool bool | JNumber rat | JString string | JArray "json list" | JObject "(string \<times> json) list"

type_synonym json_body = "string \<Rightarrow> json option"

definition expString :: "(json \<Rightarrow> string) \<Rightarrow> json_body \<Rightarrow> string \<Rightarrow> string" where
  "expString fmt data key =
     (case data key of None \<Rightarrow> [] | Some JNull \<Rightarrow> [] | Some (JString v) \<Rightarrow> v | Some v \<Rightarrow> fmt v)"

text \<open>\<open>strconv.ParseInt(s, 10, 64)\<close>.\<close>

definition ParseInt :: "string \<Rightarrow> int option" where
  "ParseInt s =
     (let neg = (s \<noteq> [] \<and> hd s = CHR ''-''); digits = (if s \<noteq> [] \<and> hd s \<in> {CHR ''-'', CHR ''+''} then tl s else s);
          n = (if neg then - int (undec digits) else int (undec digits))
      in if digits \<noteq> [] \<and> list_all is_digit digits \<and> is_i64 n then Some n else None)"

definition expInt64 :: "json_body \<Rightarrow> string \<Rightarrow> int" where
  "expInt64 data key =
     (case data key of
        Some (JNumber x) \<Rightarrow> int64_of x
      | Some (JString v) \<Rightarrow> (case ParseInt (TrimSpace v) of Some n \<Rightarrow> n | None \<Rightarrow> 0)
      | _ \<Rightarrow> 0)"

record EndpointInput =
  ei_PathParams :: "string \<Rightarrow> string"
  ei_Body :: json_body
  ei_Headers :: "string \<Rightarrow> string"

section \<open>State\<close>

record simBindingRecord =
  sbr_UserID :: string
  sbr_Mobile :: string
  sbr_DeviceID :: string
  sbr_SimHash :: string
  sbr_UBTToken :: string
  sbr_Status :: string
  sbr_VerifiedAt :: "time option"

record upiPinRecord =
  up_PinHash :: string
  up_FailedAttempts :: int
  up_LockedUntil :: "time option"
  up_UpdatedAt :: time

text \<open>A record of a savings plan; a field that was never written is nil.\<close>

record sip_record =
  si_sip_id :: string
  si_action :: string
  si_fund_id :: "string option"
  si_amount :: "int option"
  si_old_amount :: "int option"
  si_frequency :: "string option"
  si_start_date :: "string option"
  si_updated_at :: "time option"
  si_otp_verified :: bool

record nominee_change =
  nc_policy_id :: string
  nc_old_nominee :: string
  nc_new_nominee :: string
  nc_status :: string
  nc_cooloff_until :: time
  nc_otp_verified :: bool
  nc_bio_verified :: bool

record blockchain_record =
  bc_id :: string
  bc_record_type :: string
  bc_reference_id :: string
  bc_payload_hash :: string
  bc_merkle_root :: string
  bc_block_number :: int
  bc_tx_hash :: string
  bc_created_at :: time

text \<open>The service with the part of its expanded state that these operations write.\<close>

record 'f exp_service =
  xs_service :: "'f Service"
  xs_simBindings :: "string \<rightharpoonup> simBindingRecord"
  xs_upiPins :: "string \<rightharpoonup> upiPinRecord"
  xs_sipActions :: "string \<rightharpoonup> sip_record"
  xs_nomineeChanges :: "string \<rightharpoonup> nominee_change list"
  xs_blockchainData :: "string \<rightharpoonup> blockchain_record list"

datatype exp_error =
    ExpService svc_error | ChallengeIDRequired | ChallengeSignatureRequired | StepUpNotEnabled | SetupRequired
  | BadSignatureEncoding | NoStepUpKey | StepUpChallengeFailed pk_error | BiometricVerificationFailed pk_error
  | BiometricSignatureFailed | MobileAndDeviceRequired | UBTAndDeviceRequired | UBTNotFound | ForbiddenForUser
  | AccountIDRequired | AccountNotOwned | BothPINsRequired | PINsDiffer | UPIPINTooShort | UBTRequired | UBTInvalid
  | OrderAmountRequired | SIPIDRequired

type_synonym ('f, 'a) exp = "(exp_error + 'a) \<times> 'f exp_service"

definition on_service :: "('f Service \<Rightarrow> 'f Service) \<Rightarrow> 'f exp_service \<Rightarrow> 'f exp_service" where
  "on_service f x = x\<lparr>xs_service := f (xs_service x)\<rparr>"

section \<open>Passkey step-up\<close>

text \<open>The checks before the passkey manager is asked; \<open>verify\<close> is its verification.\<close>

definition step_up ::
  "(string \<Rightarrow> string \<Rightarrow> string \<Rightarrow> PasskeyManager \<Rightarrow> (pk_error + bool) \<times> PasskeyManager) \<Rightarrow> string \<Rightarrow> string \<Rightarrow> string
     \<Rightarrow> 'f Service \<Rightarrow> (exp_error + unit) \<times> 'f Service" where
  "step_up verify userID challengeID0 signature0 s =
     (case requireUser userID s of Some e \<Rightarrow> (Inl (ExpService e), s)
      | None \<Rightarrow>
          let challengeID = TrimSpace challengeID0; signature = TrimSpace signature0 in
          if challengeID = [] then (Inl ChallengeIDRequired, s)
          else if signature = [] then (Inl ChallengeSignatureRequired, s)
          else (case sv_users s userID of None \<Rightarrow> (Inl StepUpNotEnabled, s)
            | Some user \<Rightarrow>
                if \<not> us_BiometricEnabled user then (Inl StepUpNotEnabled, s)
                else (case StdDecodeString signature of None \<Rightarrow> (Inl BadSignatureEncoding, s)
                  | Some bytes \<Rightarrow>
                      (case sv_authProfiles s userID of None \<Rightarrow> (Inl NoStepUpKey, s)
                       | Some profile \<Rightarrow>
                           if ap_DeviceChallengePublicKeyID profile = [] then (Inl NoStepUpKey, s)
                           else (case verify challengeID bytes (ap_DeviceChallengePublicKeyID profile)
                                        (lg_passkey (sv_login s)) of
                               (Inl e, pm) \<Rightarrow>
                                 (Inl (BiometricVerificationFailed e), with_login (\<lambda>lm. lm\<lparr>lg_passkey := pm\<rparr>) s)
                             | (Inr valid, pm) \<Rightarrow>
                                 (if valid then Inr () else Inl BiometricSignatureFailed,
                                  with_login (\<lambda>lm. lm\<lparr>lg_passkey := pm\<rparr>) s))))))"

definition VerifyBiometricChallenge ::
  "'key pk_env \<Rightarrow> time \<Rightarrow> string \<Rightarrow> string \<Rightarrow> string \<Rightarrow> 'f Service \<Rightarrow> (exp_error + unit) \<times> 'f Service" where
  "VerifyBiometricChallenge pk now userID challengeID signature s =
     step_up (\<lambda>cid sig key. VerifyChallenge pk now now userID cid sig key) userID challengeID signature s"

definition VerifyBiometricChallengeForAction ::
  "'key pk_env \<Rightarrow> time \<Rightarrow> string \<Rightarrow> string \<Rightarrow> string \<Rightarrow> string \<Rightarrow> 'f Service \<Rightarrow> (exp_error + unit) \<times> 'f Service" where
  "VerifyBiometricChallengeForAction pk now userID challengeID signature action s =
     step_up (\<lambda>cid sig key. VerifyChallengeForAction pk now now userID cid sig key (TrimSpace action))
       userID challengeID signature s"

definition new_step_up ::
  "(PasskeyManager \<Rightarrow> (pk_error + PasskeyChallenge) \<times> PasskeyManager) \<Rightarrow> string \<Rightarrow> 'f Service
     \<Rightarrow> (exp_error + string \<times> string) \<times> 'f Service" where
  "new_step_up create userID s =
     (case requireUser userID s of Some e \<Rightarrow> (Inl (ExpService e), s)
      | None \<Rightarrow>
          (case sv_users s userID of None \<Rightarrow> (Inl SetupRequired, s)
           | Some user \<Rightarrow>
               if \<not> us_BiometricEnabled user then (Inl SetupRequired, s)
               else (case create (lg_passkey (sv_login s)) of
                   (Inl e, pm) \<Rightarrow> (Inl (StepUpChallengeFailed e), with_login (\<lambda>lm. lm\<lparr>lg_passkey := pm\<rparr>) s)
                 | (Inr ch, pm) \<Rightarrow>
                     (Inr (pc_ChallengeID ch, StdEncodeToString (pc_Challenge ch)),
                      with_login (\<lambda>lm. lm\<lparr>lg_passkey := pm\<rparr>) s))))"

definition CreateStepUpChallenge ::
  "string option \<Rightarrow> string option \<Rightarrow> time \<Rightarrow> string \<Rightarrow> 'f Service \<Rightarrow> (exp_error + string \<times> string) \<times> 'f Service" where
  "CreateStepUpChallenge rndBytes rndID now userID s =
     new_step_up (CreateChallenge rndBytes rndID now userID) userID s"

definition CreateStepUpChallengeForAction ::
  "string option \<Rightarrow> string option \<Rightarrow> time \<Rightarrow> string \<Rightarrow> string \<Rightarrow> 'f Service
     \<Rightarrow> (exp_error + string \<times> string) \<times> 'f Service" where
  "CreateStepUpChallengeForAction rndBytes rndID now userID action s =
     new_step_up (CreateChallengeForAction rndBytes rndID now userID (TrimSpace action)) userID s"

section \<open>Shared helpers\<close>

definition userIDByMobile :: "string \<Rightarrow> 'f Service \<Rightarrow> string" where
  "userIDByMobile mobile s = get_or [] (lg_mobileIndex (sv_login s)) mobile"

definition accountBelongsToUser :: "string \<Rightarrow> string \<Rightarrow> 'f Service \<Rightarrow> bool" where
  "accountBelongsToUser userID accountID s \<longleftrightarrow>
     list_ex (\<lambda>a. ac_ID a = accountID) (get_list (sv_accounts s) userID)"

definition recordExpandedAudit ::
  "sv_env \<Rightarrow> time \<Rightarrow> string \<Rightarrow> string \<Rightarrow> string \<Rightarrow> string \<Rightarrow> 'f Service \<Rightarrow> 'f Service" where
  "recordExpandedAudit env now userID eventType resource details s =
     (if TrimSpace userID = [] then s
      else appendAudit env now userID eventType resource ''success'' details ''System'' s)"

definition UnixNano :: "time \<Rightarrow> int" where
  "UnixNano t = i64 (t - 62135596800 * second)"

text \<open>\<open>payload\<close> is the printed payload, \<open>rnd\<close> a random string.\<close>

definition appendBlockchainRecordLocked ::
  "sv_env \<Rightarrow> string \<Rightarrow> time \<Rightarrow> string \<Rightarrow> string \<Rightarrow> string \<Rightarrow> string \<Rightarrow> 'f exp_service \<Rightarrow> 'f exp_service" where
  "appendBlockchainRecordLocked env rnd now userID0 recordType referenceID payload x =
     (let userID = (if TrimSpace userID0 = [] then ''internal'' else userID0); H = env_H env;
          item = \<lparr>bc_id = ''bc-'' @ rnd, bc_record_type = recordType, bc_reference_id = referenceID,
            bc_payload_hash = H payload, bc_merkle_root = MerkleRoot H userID (sv_ledger (xs_service x)),
            bc_block_number = unix now,
            bc_tx_hash = H (recordType @ '':'' @ referenceID @ '':'' @ dec (UnixNano now)), bc_created_at = now\<rparr>;
          x1 = x\<lparr>xs_blockchainData := (xs_blockchainData x)(userID \<mapsto> get_list (xs_blockchainData x) userID @ [item])\<rparr>
      in on_service (ledger_write env now userID ''blockchain_record'' recordType
           (PFields [(''id'', bc_id item), (''record_type'', recordType), (''reference_id'', referenceID),
              (''payload_hash'', bc_payload_hash item), (''merkle_root'', bc_merkle_root item),
              (''tx_hash'', bc_tx_hash item)])) x1)"

section \<open>SIM binding by token\<close>

definition auth_sim_bind ::
  "sv_env \<Rightarrow> (json \<Rightarrow> string) \<Rightarrow> string \<Rightarrow> time \<Rightarrow> EndpointInput \<Rightarrow> 'f exp_service \<Rightarrow> ('f, string) exp" where
  "auth_sim_bind env fmt rnd now input x =
     (let mobile = TrimSpace (expString fmt (ei_Body input) ''mobile'');
          deviceID = TrimSpace (expString fmt (ei_Body input) ''device_id'')
      in if mobile = [] \<or> deviceID = [] then (Inl MobileAndDeviceRequired, x)
         else
           let ubt = ''ubt_'' @ rnd; linkedUser = userIDByMobile mobile (xs_service x);
               x1 = x\<lparr>xs_simBindings := (xs_simBindings x)(ubt \<mapsto>
                 \<lparr>sbr_UserID = linkedUser, sbr_Mobile = mobile, sbr_DeviceID = deviceID,
                  sbr_SimHash = env_H env (mobile @ '':'' @ deviceID), sbr_UBTToken = ubt, sbr_Status = ''active'',
                  sbr_VerifiedAt = Some now\<rparr>)\<rparr>
           in (Inr ubt,
               if linkedUser \<noteq> []
               then on_service (recordExpandedAudit env now linkedUser ''sim_bind_initiated'' ''auth''
                      ''SIM bind initiated with UBT'') x1
               else x1))"

text \<open>\<open>iccid_hash\<close> is the keyed hash of the SIM binding, \<open>detect\<close> the answer of an outside provider. The
  result says whether a swap was detected.\<close>

definition auth_sim_bind_reverify ::
  "sv_env \<Rightarrow> (json \<Rightarrow> string) \<Rightarrow> (string \<Rightarrow> string) \<Rightarrow> (string \<Rightarrow> bool option) \<Rightarrow> time \<Rightarrow> string \<Rightarrow> EndpointInput
     \<Rightarrow> 'f exp_service \<Rightarrow> ('f, string \<times> bool) exp" where
  "auth_sim_bind_reverify env fmt iccid_hash detect now userID input x =
     (case requireUser userID (xs_service x) of Some e \<Rightarrow> (Inl (ExpService e), x)
      | None \<Rightarrow>
          let token = TrimSpace (expString fmt (ei_Body input) ''ubt_token'');
              deviceID = TrimSpace (expString fmt (ei_Body input) ''device_id'')
          in if token = [] \<or> deviceID = [] then (Inl UBTAndDeviceRequired, x)
             else (case xs_simBindings x token of None \<Rightarrow> (Inl UBTNotFound, x)
               | Some record \<Rightarrow>
                   if sbr_UserID record \<noteq> [] \<and> sbr_UserID record \<noteq> userID then (Inl ForbiddenForUser, x)
                   else
                     let x1 = x\<lparr>xs_simBindings := (xs_simBindings x)(token \<mapsto>
                           record\<lparr>sbr_UserID := userID, sbr_DeviceID := deviceID, sbr_Status := ''active'',
                             sbr_VerifiedAt := Some now\<rparr>)\<rparr>;
                         s1 = xs_service x1;
                         swapped = (DetectSIMSwap userID (iccid_hash (sbr_Mobile record @ '':'' @ deviceID))
                             (lg_simBinding (sv_login s1)) \<or> detect userID = Some True)
                     in if swapped then
                          (Inr (token, True),
                           on_service (\<lambda>s. recordExpandedAudit env now userID ''sim_swap_detected'' ''auth''
                               ''SIM swap detected during re-verification''
                               (s\<lparr>sv_threatResponse :=
                                  snd (RespondToThreat now ThreatSIMSwap userID None (sv_threatResponse s))\<rparr>)) x1)
                        else
                          (Inr (token, False),
                           on_service (recordExpandedAudit env now userID ''sim_bind_reverified'' ''auth''
                               ''UBT re-verification completed'') x1)))"

definition auth_kin :: "string \<Rightarrow> string \<Rightarrow> 'f exp_service \<Rightarrow> ('f, string) exp" where
  "auth_kin rnd userID x =
     (case requireUser userID (xs_service x) of Some e \<Rightarrow> (Inl (ExpService e), x)
      | None \<Rightarrow>
          (case sv_users (xs_service x) userID of None \<Rightarrow> (Inr [], x)
           | Some user \<Rightarrow>
               if TrimSpace (us_KIN user) = [] then
                 let kin = ''KIN-'' @ ToUpper rnd
                 in (Inr kin, on_service (\<lambda>s. s\<lparr>sv_users := (sv_users s)(userID \<mapsto> user\<lparr>us_KIN := kin\<rparr>)\<rparr>) x)
               else (Inr (us_KIN user), x)))"

section \<open>UPI PIN\<close>

definition verify_otp :: "sv_env \<Rightarrow> time \<Rightarrow> string \<Rightarrow> string \<Rightarrow> 'f exp_service \<Rightarrow> ('f, unit) exp" where
  "verify_otp env now userID otp x =
     (case VerifyOTPToken env now userID otp (xs_service x) of
        (Inl e, s) \<Rightarrow> (Inl (ExpService e), x\<lparr>xs_service := s\<rparr>)
      | (Inr _, s) \<Rightarrow> (Inr (), x\<lparr>xs_service := s\<rparr>))"

definition upi_pin_check :: "(json \<Rightarrow> string) \<Rightarrow> string \<Rightarrow> EndpointInput \<Rightarrow> 'f Service \<Rightarrow> exp_error option" where
  "upi_pin_check fmt userID input s =
     (let accountID = TrimSpace (ei_PathParams input ''accountID'');
          newPIN = TrimSpace (expString fmt (ei_Body input) ''new_pin'');
          confirmPIN = TrimSpace (expString fmt (ei_Body input) ''confirm_pin'')
      in if accountID = [] then Some AccountIDRequired
         else if \<not> accountBelongsToUser userID accountID s then Some AccountNotOwned
         else if newPIN = [] \<or> confirmPIN = [] then Some BothPINsRequired
         else if newPIN \<noteq> confirmPIN then Some PINsDiffer
         else if length newPIN < 4 then Some UPIPINTooShort else None)"

text \<open>On a device that does not call itself trusted a reset names a token.\<close>

definition reset_token_check :: "(json \<Rightarrow> string) \<Rightarrow> EndpointInput \<Rightarrow> 'f exp_service \<Rightarrow> exp_error option" where
  "reset_token_check fmt input x =
     (if ToLower (TrimSpace (ei_Headers input ''X-Device-Trusted'')) = ''true'' then None
      else
        let token = TrimSpace (expString fmt (ei_Body input) ''ubt_token'')
        in if token = [] then Some UBTRequired
           else if xs_simBindings x token = None then Some UBTInvalid else None)"

definition store_upi_pin ::
  "sv_env \<Rightarrow> (json \<Rightarrow> string) \<Rightarrow> bool \<Rightarrow> time \<Rightarrow> string \<Rightarrow> EndpointInput \<Rightarrow> 'f exp_service \<Rightarrow> 'f exp_service" where
  "store_upi_pin env fmt reset now userID input x =
     (let accountID = TrimSpace (ei_PathParams input ''accountID'');
          newPIN = TrimSpace (expString fmt (ei_Body input) ''new_pin'')
      in on_service (recordExpandedAudit env now userID (if reset then ''upi_pin_reset'' else ''upi_pin_set'')
             ''security'' ''UPI PIN updated'')
           (x\<lparr>xs_upiPins := (xs_upiPins x)(accountID \<mapsto>
              \<lparr>up_PinHash = env_H env (newPIN @ '':'' @ accountID), up_FailedAttempts = 0, up_LockedUntil = None,
               up_UpdatedAt = now\<rparr>)\<rparr>))"

definition upi_pin_update ::
  "sv_env \<Rightarrow> (json \<Rightarrow> string) \<Rightarrow> bool \<Rightarrow> time \<Rightarrow> string \<Rightarrow> EndpointInput \<Rightarrow> 'f exp_service \<Rightarrow> ('f, unit) exp" where
  "upi_pin_update env fmt reset now userID input x =
     (case requireUser userID (xs_service x) of Some e \<Rightarrow> (Inl (ExpService e), x)
      | None \<Rightarrow>
          (case upi_pin_check fmt userID input (xs_service x) of Some e \<Rightarrow> (Inl e, x)
           | None \<Rightarrow>
               (case verify_otp env now userID (expString fmt (ei_Body input) ''otp'') x of
                  (Inl e, x1) \<Rightarrow> (Inl e, x1)
                | (Inr _, x1) \<Rightarrow>
                    (case (if reset then reset_token_check fmt input x1 else None) of
                       Some e \<Rightarrow> (Inl e, x1)
                     | None \<Rightarrow> (Inr (), store_upi_pin env fmt reset now userID input x1)))))"

section \<open>Investment orders and savings plans\<close>

record order_view =
  ov_order_id :: string
  ov_holding_id :: string
  ov_order_type :: string
  ov_amount :: int
  ov_risk_score :: rat
  ov_status :: string
  ov_cooling_off_until :: "time option"

definition record_order ::
  "sv_env \<Rightarrow> (order_view \<Rightarrow> string) \<Rightarrow> string \<Rightarrow> time \<Rightarrow> string \<Rightarrow> order_view \<Rightarrow> 'f exp_service \<Rightarrow> 'f exp_service" where
  "record_order env print_order rnd now userID order x =
     on_service (recordExpandedAudit env now userID ''investment_order'' ''investment'' ''Investment order recorded'')
       (appendBlockchainRecordLocked env rnd now userID ''investment_trade'' (ov_order_id order) (print_order order)
         (on_service (\<lambda>s. s\<lparr>sv_investmentOrders := (sv_investmentOrders s)(userID \<mapsto>
             get_list (sv_investmentOrders s) userID @
             [\<lparr>io_order_id = ov_order_id order, io_status = ov_status order,
               io_cooling_off_until = ov_cooling_off_until order\<rparr>])\<rparr>) x))"

text \<open>The order itself, once the second factor is settled.\<close>

definition place_order ::
  "sv_env \<Rightarrow> (order_view \<Rightarrow> string) \<Rightarrow> (json \<Rightarrow> string) \<Rightarrow> string \<Rightarrow> string \<Rightarrow> time \<Rightarrow> string \<Rightarrow> int \<Rightarrow> EndpointInput
     \<Rightarrow> 'f exp_service \<Rightarrow> ('f, order_view) exp" where
  "place_order env print_order fmt rnd1 rnd2 now userID amount input x =
     (let body = ei_Body input; orderType = firstNonEmpty (expString fmt body ''order_type'') ''buy'';
          holdingID = TrimSpace (expString fmt body ''holding_id'');
          (risk, fg) = GetRiskScore (env_H env) (firstNonEmpty (expString fmt body ''instrument'') holdingID)
             (sv_fraudGraph (xs_service x));
          x1 = on_service (\<lambda>s. s\<lparr>sv_fraudGraph := fg\<rparr>) x;
          held = (risk > fl (8 / 10)); status = (if held then ''cooling_off'' else ''executed'');
          (paid, s2) = (if ToLower orderType = ''buy'' \<and> \<not> held
             then applyDebitToFirstAccount userID amount (xs_service x1) else (Inr (), xs_service x1));
          x2 = x1\<lparr>xs_service := s2\<rparr>;
          order = \<lparr>ov_order_id = ''order-'' @ rnd1, ov_holding_id = holdingID, ov_order_type = orderType,
            ov_amount = amount, ov_risk_score = risk, ov_status = status,
            ov_cooling_off_until = (if held then Some (now + coolingOffWindow (xs_service x1)) else None)\<rparr>
      in case paid of Inl e \<Rightarrow> (Inl (ExpService e), x2)
         | Inr _ \<Rightarrow> (Inr order, record_order env print_order rnd2 now userID order x2))"

definition lift_step_up ::
  "('f Service \<Rightarrow> (exp_error + unit) \<times> 'f Service) \<Rightarrow> 'f exp_service \<Rightarrow> ('f, unit) exp" where
  "lift_step_up f x = (case f (xs_service x) of (r, s) \<Rightarrow> (r, x\<lparr>xs_service := s\<rparr>))"

definition challenge_of :: "EndpointInput \<Rightarrow> string \<times> string" where
  "challenge_of input = (ei_Headers input ''X-Biometric-Challenge-Id'', ei_Headers input ''X-Biometric-Challenge'')"

definition investment_order ::
  "sv_env \<Rightarrow> 'key pk_env \<Rightarrow> (order_view \<Rightarrow> string) \<Rightarrow> (json \<Rightarrow> string) \<Rightarrow> string \<Rightarrow> string \<Rightarrow> time \<Rightarrow> string \<Rightarrow> EndpointInput
     \<Rightarrow> 'f exp_service \<Rightarrow> ('f, order_view) exp" where
  "investment_order env pk print_order fmt rnd1 rnd2 now userID input x =
     (case requireUser userID (xs_service x) of Some e \<Rightarrow> (Inl (ExpService e), x)
      | None \<Rightarrow>
          let amount = expInt64 (ei_Body input) ''amount''; (cid, sig) = challenge_of input in
          if amount \<le> 0 then (Inl OrderAmountRequired, x)
          else if amount > 25000 * 100 then
            (case lift_step_up (VerifyBiometricChallenge pk now userID (TrimSpace cid) (TrimSpace sig)) x of
               (Inl e, x1) \<Rightarrow> (Inl e, x1)
             | (Inr _, x1) \<Rightarrow> place_order env print_order fmt rnd1 rnd2 now userID amount input x1)
          else place_order env print_order fmt rnd1 rnd2 now userID amount input x)"

datatype sip_change = SipPause | SipStop | SipModify

definition sip_action_name :: "sip_change \<Rightarrow> string" where
  "sip_action_name a = (case a of SipPause \<Rightarrow> ''pause'' | SipStop \<Rightarrow> ''stop'' | SipModify \<Rightarrow> ''modify'')"

definition investment_sip_start ::
  "sv_env \<Rightarrow> (json \<Rightarrow> string) \<Rightarrow> (time \<Rightarrow> string) \<Rightarrow> string \<Rightarrow> time \<Rightarrow> string \<Rightarrow> EndpointInput \<Rightarrow> 'f exp_service
     \<Rightarrow> ('f, sip_record) exp" where
  "investment_sip_start env fmt format_date rnd now userID input x =
     (case requireUser userID (xs_service x) of Some e \<Rightarrow> (Inl (ExpService e), x)
      | None \<Rightarrow>
          let sipID = ''sip-'' @ rnd; body = ei_Body input;
              entry = \<lparr>si_sip_id = sipID, si_action = ''start'', si_fund_id = Some (expString fmt body ''fund_id''),
                si_amount = Some (expInt64 body ''amount''), si_old_amount = None,
                si_frequency = Some (firstNonEmpty (expString fmt body ''frequency'') ''monthly''),
                si_start_date = Some (firstNonEmpty (expString fmt body ''start_date'') (format_date now)),
                si_updated_at = None, si_otp_verified = True\<rparr>
          in (Inr entry, on_service (recordExpandedAudit env now userID ''sip_started'' ''investment'' ''SIP started'')
                (x\<lparr>xs_sipActions := (xs_sipActions x)(sipID \<mapsto> entry)\<rparr>)))"

definition investment_sip_change ::
  "sv_env \<Rightarrow> (json \<Rightarrow> string) \<Rightarrow> sip_change \<Rightarrow> time \<Rightarrow> string \<Rightarrow> EndpointInput \<Rightarrow> 'f exp_service
     \<Rightarrow> ('f, sip_record) exp" where
  "investment_sip_change env fmt change now userID input x =
     (case requireUser userID (xs_service x) of Some e \<Rightarrow> (Inl (ExpService e), x)
      | None \<Rightarrow>
          (case verify_otp env now userID (expString fmt (ei_Body input) ''otp'') x of
             (Inl e, x1) \<Rightarrow> (Inl e, x1)
           | (Inr _, x1) \<Rightarrow>
               let sipID = TrimSpace (ei_PathParams input ''sipID'') in
               if sipID = [] then (Inl SIPIDRequired, x1)
               else
                 let rec0 = (case xs_sipActions x1 sipID of Some r \<Rightarrow> r
                       | None \<Rightarrow> \<lparr>si_sip_id = sipID, si_action = [], si_fund_id = None, si_amount = None,
                           si_old_amount = None, si_frequency = None, si_start_date = None, si_updated_at = None,
                           si_otp_verified = False\<rparr>);
                     rec1 = rec0\<lparr>si_action := sip_action_name change, si_updated_at := Some now,
                       si_old_amount := si_amount rec0,
                       si_amount := (if change = SipModify then Some (expInt64 (ei_Body input) ''new_amount'')
                         else si_amount rec0), si_otp_verified := True\<rparr>
                 in (Inr rec1, on_service (recordExpandedAudit env now userID (''sip_'' @ sip_action_name change)
                       ''investment'' ''SIP action updated'')
                     (x1\<lparr>xs_sipActions := (xs_sipActions x1)(sipID \<mapsto> rec1)\<rparr>))))"

definition insurance_nominee_change ::
  "sv_env \<Rightarrow> 'key pk_env \<Rightarrow> (json \<Rightarrow> string) \<Rightarrow> time \<Rightarrow> string \<Rightarrow> EndpointInput \<Rightarrow> 'f exp_service
     \<Rightarrow> ('f, nominee_change) exp" where
  "insurance_nominee_change env pk fmt now userID input x =
     (case requireUser userID (xs_service x) of Some e \<Rightarrow> (Inl (ExpService e), x)
      | None \<Rightarrow>
          (case verify_otp env now userID (expString fmt (ei_Body input) ''otp'') x of
             (Inl e, x1) \<Rightarrow> (Inl e, x1)
           | (Inr _, x1) \<Rightarrow>
               let (cid, sig) = challenge_of input in
               (case lift_step_up (VerifyBiometricChallenge pk now userID cid sig) x1 of
                  (Inl e, x2) \<Rightarrow> (Inl e, x2)
                | (Inr _, x2) \<Rightarrow>
                    let policyID = TrimSpace (ei_PathParams input ''policyID'');
                        entry = \<lparr>nc_policy_id = policyID,
                          nc_old_nominee = expString fmt (ei_Body input) ''old_nominee'',
                          nc_new_nominee = expString fmt (ei_Body input) ''new_nominee'',
                          nc_status = ''pending_cooloff'', nc_cooloff_until = now + 24 * hour,
                          nc_otp_verified = True, nc_bio_verified = True\<rparr>
                    in (Inr entry, on_service (recordExpandedAudit env now userID ''insurance_nominee_change''
                          ''insurance'' ''Nominee change initiated with cooloff'')
                        (x2\<lparr>xs_nomineeChanges := (xs_nomineeChanges x2)
                           (policyID \<mapsto> get_list (xs_nomineeChanges x2) policyID @ [entry])\<rparr>)))))"

section \<open>Routes\<close>

text \<open>The body as the decoder reads it, and an answer.\<close>

datatype decoded = Decoded json_body | EmptyInput | Malformed
datatype 'a answer = Answer 'a | Refused nat string

fun refused :: "'a answer \<Rightarrow> bool" where
  "refused (Answer a) = False"
| "refused (Refused st msg) = True"

definition forwardableHeaders :: "string list" where
  "forwardableHeaders = [''Content-Type'', ''Idempotency-Key'', ''X-Device-Fingerprint'', ''X-Device-Trusted'',
     ''X-Biometric-Challenge-Id'', ''X-Biometric-Challenge'']"

definition statusForExpandedError :: "string \<Rightarrow> nat" where
  "statusForExpandedError msg =
     (let m = ToLower msg in
      if contains m ''unauthorized'' \<or> contains m ''token'' then 401
      else if contains m ''forbidden'' then 403 else if contains m ''not found'' then 404
      else if contains m ''locked'' \<or> contains m ''cooling-off'' then 423 else 400)"

definition endpoint_body :: "bool \<Rightarrow> (string \<Rightarrow> decoded) \<Rightarrow> http_request \<Rightarrow> json_body option" where
  "endpoint_body requireBody decode r =
     (case rq_Body r of
        None \<Rightarrow> if requireBody then None else Some (\<lambda>_. None)
      | Some raw \<Rightarrow>
          if \<not> requireBody \<and> raw = [] then Some (\<lambda>_. None)
          else (case decode raw of Decoded body \<Rightarrow> Some body
                | EmptyInput \<Rightarrow> if requireBody then None else Some (\<lambda>_. None)
                | Malformed \<Rightarrow> None))"

text \<open>\<open>say\<close> is the text of an error, \<open>params\<close> the parameters of the path.\<close>

definition expandedEndpoint ::
  "(exp_error \<Rightarrow> string) \<Rightarrow> bool \<Rightarrow> bool \<Rightarrow> (string \<Rightarrow> decoded) \<Rightarrow> (string \<Rightarrow> string)
     \<Rightarrow> (string \<Rightarrow> EndpointInput \<Rightarrow> 'f exp_service \<Rightarrow> ('f, 'a) exp) \<Rightarrow> http_request \<Rightarrow> 'f exp_service
     \<Rightarrow> 'a answer \<times> 'f exp_service" where
  "expandedEndpoint say requireAuth requireBody decode params handler r x =
     (if requireAuth \<and> gate_user r = None then (Refused 401 ''unauthorized'', x)
      else case endpoint_body requireBody decode r of None \<Rightarrow> (Refused 400 [], x)
      | Some body \<Rightarrow>
          let uid = (if requireAuth then the (gate_user r) else []);
              headers = (\<lambda>h. if h \<in> set forwardableHeaders then rq_Header r h else [])
          in (case handler uid \<lparr>ei_PathParams = params, ei_Body = body, ei_Headers = headers\<rparr> x of
                (Inr v, x1) \<Rightarrow> (Answer v, x1)
              | (Inl e, x1) \<Rightarrow> (Refused (statusForExpandedError (say e)) (say e), x1)))"

text \<open>A gate before a route, both with the service as their state.\<close>

definition behind ::
  "(http_request \<Rightarrow> 's \<Rightarrow> gate \<times> 's) \<Rightarrow> (http_request \<Rightarrow> 's \<Rightarrow> 'a answer \<times> 's) \<Rightarrow> http_request \<Rightarrow> 's \<Rightarrow> 'a answer \<times> 's" where
  "behind gate route r x =
     (case gate r x of (Pass r1, x1) \<Rightarrow> route r1 x1 | (Reject st code msg, x1) \<Rightarrow> (Refused st msg, x1))"

definition as_verifier :: "(exp_error \<Rightarrow> string) \<Rightarrow> ('f, unit) exp \<Rightarrow> string option \<times> 'f exp_service" where
  "as_verifier say res = (case res of (Inl e, x) \<Rightarrow> (Some (say e), x) | (Inr _, x) \<Rightarrow> (None, x))"

text \<open>The surroundings of a route: the environment, the texts and the decoders of the gate and of the endpoint.\<close>

record 'key route_cfg =
  rc_env :: sv_env
  rc_pk :: "'key pk_env"
  rc_say :: "exp_error \<Rightarrow> string"
  rc_fmt :: "json \<Rightarrow> string"
  rc_payload :: "string \<Rightarrow> (string \<Rightarrow> string option) option"
  rc_amounts :: "string \<Rightarrow> amount_fields option"
  rc_decode :: "string \<Rightarrow> decoded"
  rc_challenge_flag :: string

definition otp_gate :: "'key route_cfg \<Rightarrow> time \<Rightarrow> http_request \<Rightarrow> 'f exp_service \<Rightarrow> gate \<times> 'f exp_service" where
  "otp_gate cfg now =
     RequireOTPVerification (rc_payload cfg) (\<lambda>uid otp x. as_verifier (rc_say cfg) (verify_otp (rc_env cfg) now uid otp x))"

definition biometric_gate :: "'key route_cfg \<Rightarrow> time \<Rightarrow> http_request \<Rightarrow> 'f exp_service \<Rightarrow> gate \<times> 'f exp_service" where
  "biometric_gate cfg now =
     RequireBiometricChallenge (rc_challenge_flag cfg)
       (\<lambda>uid cid sig x. as_verifier (rc_say cfg) (lift_step_up (VerifyBiometricChallenge (rc_pk cfg) now uid cid sig) x))"

definition amount_gate :: "'key route_cfg \<Rightarrow> time \<Rightarrow> http_request \<Rightarrow> 'f exp_service \<Rightarrow> gate \<times> 'f exp_service" where
  "amount_gate cfg now =
     RequireBiometricAboveAmount (rc_amounts cfg) 2500000
       (\<lambda>uid cid sig x. as_verifier (rc_say cfg) (lift_step_up (VerifyBiometricChallenge (rc_pk cfg) now uid cid sig) x))"

definition cooling_gate :: "'key route_cfg \<Rightarrow> time \<Rightarrow> http_request \<Rightarrow> 'f exp_service \<Rightarrow> gate \<times> 'f exp_service" where
  "cooling_gate cfg now r x =
     (EnforceCoolingOff (Some (\<lambda>uid txID. case CoolingOffState now uid txID (xs_service x) of
          Inl e \<Rightarrow> Inl (rc_say cfg (ExpService e)) | Inr (active, _) \<Rightarrow> Inr active)) [] r, x)"

text \<open>The routes; each check reads the clock on its own.\<close>

definition upi_pin_set_route ::
  "'key route_cfg \<Rightarrow> time \<Rightarrow> time \<Rightarrow> (string \<Rightarrow> string) \<Rightarrow> http_request \<Rightarrow> 'f exp_service \<Rightarrow> unit answer \<times> 'f exp_service" where
  "upi_pin_set_route cfg t1 t2 params =
     behind (otp_gate cfg t1) (expandedEndpoint (rc_say cfg) True True (rc_decode cfg) params
       (\<lambda>uid input. upi_pin_update (rc_env cfg) (rc_fmt cfg) False t2 uid input))"

definition upi_pin_reset_route ::
  "'key route_cfg \<Rightarrow> time \<Rightarrow> time \<Rightarrow> time \<Rightarrow> (string \<Rightarrow> string) \<Rightarrow> http_request \<Rightarrow> 'f exp_service
     \<Rightarrow> unit answer \<times> 'f exp_service" where
  "upi_pin_reset_route cfg t1 t2 t3 params =
     behind (otp_gate cfg t1) (behind (biometric_gate cfg t2)
       (expandedEndpoint (rc_say cfg) True True (rc_decode cfg) params
         (\<lambda>uid input. upi_pin_update (rc_env cfg) (rc_fmt cfg) True t3 uid input)))"

definition sip_change_route ::
  "'key route_cfg \<Rightarrow> sip_change \<Rightarrow> time \<Rightarrow> time \<Rightarrow> (string \<Rightarrow> string) \<Rightarrow> http_request \<Rightarrow> 'f exp_service
     \<Rightarrow> sip_record answer \<times> 'f exp_service" where
  "sip_change_route cfg change t1 t2 params =
     behind (otp_gate cfg t1) (expandedEndpoint (rc_say cfg) True True (rc_decode cfg) params
       (\<lambda>uid input. investment_sip_change (rc_env cfg) (rc_fmt cfg) change t2 uid input))"

definition nominee_change_route ::
  "'key route_cfg \<Rightarrow> time \<Rightarrow> time \<Rightarrow> time \<Rightarrow> (string \<Rightarrow> string) \<Rightarrow> http_request \<Rightarrow> 'f exp_service
     \<Rightarrow> nominee_change answer \<times> 'f exp_service" where
  "nominee_change_route cfg t1 t2 t3 params =
     behind (otp_gate cfg t1) (behind (biometric_gate cfg t2)
       (expandedEndpoint (rc_say cfg) True True (rc_decode cfg) params
         (\<lambda>uid input. insurance_nominee_change (rc_env cfg) (rc_pk cfg) (rc_fmt cfg) t3 uid input)))"

definition investment_order_route ::
  "'key route_cfg \<Rightarrow> (order_view \<Rightarrow> string) \<Rightarrow> string \<Rightarrow> string \<Rightarrow> time \<Rightarrow> time \<Rightarrow> time \<Rightarrow> (string \<Rightarrow> string) \<Rightarrow> http_request
     \<Rightarrow> 'f exp_service \<Rightarrow> order_view answer \<times> 'f exp_service" where
  "investment_order_route cfg print_order rnd1 rnd2 t1 t2 t3 params =
     behind (amount_gate cfg t1) (behind (cooling_gate cfg t2)
       (expandedEndpoint (rc_say cfg) True True (rc_decode cfg) params
         (\<lambda>uid input. investment_order (rc_env cfg) (rc_pk cfg) print_order (rc_fmt cfg) rnd1 rnd2 t3 uid input)))"

definition sim_bind_reverify_route ::
  "'key route_cfg \<Rightarrow> (string \<Rightarrow> string) \<Rightarrow> (string \<Rightarrow> bool option) \<Rightarrow> time \<Rightarrow> http_request \<Rightarrow> 'f exp_service
     \<Rightarrow> (string \<times> bool) answer \<times> 'f exp_service" where
  "sim_bind_reverify_route cfg iccid_hash detect now =
     expandedEndpoint (rc_say cfg) True True (rc_decode cfg) (\<lambda>_. [])
       (\<lambda>uid input. auth_sim_bind_reverify (rc_env cfg) (rc_fmt cfg) iccid_hash detect now uid input)"

section \<open>A credential that is checked twice\<close>

text \<open>A check that a success uses up.\<close>

locale one_shot =
  fixes check :: "'a \<Rightarrow> 's \<Rightarrow> ('e + unit) \<times> 's"
    and used_up :: "'s \<Rightarrow> bool"
  assumes success_uses_up: "check a s = (Inr (), s') \<Longrightarrow> used_up s'"
    and used_up_refuses: "used_up s \<Longrightarrow> fst (check a s) \<noteq> Inr ()"
begin

lemma second_refused:
  assumes "check a s = (Inr (), s1)" and "used_up s1 \<Longrightarrow> used_up s2"
  shows "check b s2 \<noteq> (Inr (), s3)"
  using used_up_refuses [OF assms(2) [OF success_uses_up [OF assms(1)]], of b] by auto

end

lemma otp_success:
  assumes "VerifyOTPToken env now u otp s = (Inr (), s')"
  shows "otp_expiry u s' = None"
  using assms by (auto simp: VerifyOTPToken_def count_failure_def otp_expiry_def Let_def frame_simps
      split: option.splits if_splits)

lemma otp_spent:
  assumes "otp_expiry u s = None"
  shows "fst (VerifyOTPToken env now u otp s) \<noteq> Inr ()"
  using assms by (auto simp: VerifyOTPToken_def count_failure_def otp_expiry_def Let_def split: option.splits if_splits)

interpretation otp_check: one_shot "\<lambda>(now, otp) s. VerifyOTPToken env now u otp s" "\<lambda>s. otp_expiry u s = None"
  for env u
  by unfold_locales (auto dest: otp_success simp: otp_spent)

definition challenge_used :: "string \<Rightarrow> 'f Service \<Rightarrow> bool" where
  "challenge_used cid s \<longleftrightarrow>
     (case pm_challenges (lg_passkey (sv_login s)) (TrimSpace cid) of None \<Rightarrow> False | Some ch \<Rightarrow> pc_Used ch)"

text \<open>What a step-up that succeeds has found and left.\<close>

lemma step_up_success:
  assumes "VerifyBiometricChallenge pk now u cid sig s = (Inr (), s')"
  shows "\<exists>ch. pm_challenges (lg_passkey (sv_login s)) (TrimSpace cid) = Some ch \<and> \<not> pc_Used ch \<and>
    pc_UserID ch = u \<and> now \<le> pc_ExpiresAt ch \<and> challenge_used cid s'"
proof -
  from assms obtain bytes key pm where v: "VerifyChallenge pk now now u (TrimSpace cid) bytes key (lg_passkey (sv_login s)) =
      (Inr True, pm)" and s': "s' = with_login (\<lambda>lm. lm\<lparr>lg_passkey := pm\<rparr>) s"
    unfolding VerifyBiometricChallenge_def step_up_def Let_def
    by (auto split: option.splits if_splits prod.splits sum.splits)
  from v have "fst (VerifyChallengeForAction pk now now u (TrimSpace cid) bytes key [] (lg_passkey (sv_login s))) = Inr True"
    by (simp add: VerifyChallenge_def)
  from this [unfolded VerifyChallengeForAction_iff] v show ?thesis
    by (auto simp: VerifyChallenge_def challenge_used_def s' with_login_def)
qed

lemma step_up_uses: "VerifyBiometricChallenge pk now u cid sig s = (Inr (), s') \<Longrightarrow> challenge_used cid s'"
  by (blast dest: step_up_success)

lemma passkey_otp_frame:
  assumes "VerifyBiometricChallenge pk now u cid sig s = (res, s')"
  shows "otp_expiry v s' = otp_expiry v s"
  using assms by (auto simp: VerifyBiometricChallenge_def step_up_def Let_def with_login_def otp_expiry_def
      split: option.splits if_splits prod.splits sum.splits)

lemma step_up_refuses: "challenge_used cid s \<Longrightarrow> fst (VerifyBiometricChallenge pk now u cid sig s) \<noteq> Inr ()"
  by (cases "VerifyBiometricChallenge pk now u cid sig s") (auto simp: challenge_used_def dest!: step_up_success)

interpretation passkey_check: one_shot "\<lambda>(now, u, sig) s. VerifyBiometricChallenge pk now u cid sig s" "challenge_used cid"
  for pk cid
proof
  fix a s s'
  assume "(case a of (now, u, sig) \<Rightarrow> VerifyBiometricChallenge pk now u cid sig) s = (Inr (), s')"
  then show "challenge_used cid s'" by (cases a) (auto dest: step_up_success)
next
  fix a s
  assume "challenge_used cid s"
  then show "fst ((case a of (now, u, sig) \<Rightarrow> VerifyBiometricChallenge pk now u cid sig) s) \<noteq> Inr ()"
    by (cases a) (auto simp: step_up_refuses)
qed

section \<open>Routes that check a code twice\<close>

definition code_spent :: "string \<Rightarrow> 'f exp_service \<Rightarrow> bool" where
  "code_spent u x \<longleftrightarrow> otp_expiry u (xs_service x) = None"

lemma verify_otp_spent: "code_spent u x \<Longrightarrow> \<exists>e. fst (verify_otp env now u otp x) = Inl e"
  using otp_check.used_up_refuses [of u "xs_service x" env "(now, otp)"]
  by (auto simp: verify_otp_def code_spent_def split: prod.split sum.split)

lemma otp_gate_spends:
  assumes "otp_gate cfg now r x = (Pass r1, x1)"
  shows "r1 = r \<and> (\<exists>u. gate_user r = Some u \<and> code_spent u x1)"
  using assms
  by (auto simp: otp_gate_def RequireOTPVerification_def as_verifier_def verify_otp_def code_spent_def Let_def
      dest: otp_success split: option.splits if_splits prod.splits sum.splits)

lemma biometric_gate_keeps:
  assumes "biometric_gate cfg now r x = (Pass r1, x1)" and "code_spent u x"
  shows "r1 = r \<and> code_spent u x1"
  using assms
  by (auto simp: biometric_gate_def RequireBiometricChallenge_def as_verifier_def lift_step_up_def code_spent_def Let_def
      passkey_otp_frame split: option.splits if_splits prod.splits sum.splits)

lemma endpoint_refuses:
  assumes "gate_user r = Some u" and "\<And>input. \<exists>e. fst (handler u input x) = Inl e"
  shows "refused (fst (expandedEndpoint say True True decode params handler r x))"
  using assms by (auto simp: expandedEndpoint_def Let_def split: option.split prod.split sum.split)
     (metis Inl_Inr_False fst_conv)

lemma upi_pin_spent: "code_spent u x \<Longrightarrow> \<exists>e. fst (upi_pin_update env fmt reset now u input x) = Inl e"
  using verify_otp_spent [of u x env now]
  by (auto simp: upi_pin_update_def split: option.split prod.split sum.split) (metis Inl_Inr_False fst_conv)+

lemma sip_change_spent: "code_spent u x \<Longrightarrow> \<exists>e. fst (investment_sip_change env fmt c now u input x) = Inl e"
  using verify_otp_spent [of u x env now]
  by (auto simp: investment_sip_change_def split: option.split prod.split sum.split) (metis Inl_Inr_False fst_conv)+

lemma nominee_spent: "code_spent u x \<Longrightarrow> \<exists>e. fst (insurance_nominee_change env pk fmt now u input x) = Inl e"
  using verify_otp_spent [of u x env now]
  by (auto simp: insurance_nominee_change_def split: option.split prod.split sum.split) (metis Inl_Inr_False fst_conv)+

text \<open>Whatever stands behind the gate, if it refuses once the code is gone, the route refuses.\<close>

lemma behind_otp_refuses:
  assumes "\<And>r x u. gate_user r = Some u \<Longrightarrow> code_spent u x \<Longrightarrow> refused (fst (route r x))"
  shows "refused (fst (behind (otp_gate cfg now) route r x))"
proof (cases "otp_gate cfg now r x")
  case (Pair g x1)
  then show ?thesis using assms otp_gate_spends [of cfg now r x] by (cases g) (auto simp: behind_def)
qed

lemma behind_biometric_refuses:
  assumes "\<And>x. code_spent u x \<Longrightarrow> refused (fst (route r x))" and "code_spent u x"
  shows "refused (fst (behind (biometric_gate cfg now) route r x))"
proof (cases "biometric_gate cfg now r x")
  case (Pair g x1)
  then show ?thesis using assms biometric_gate_keeps [of cfg now r x _ x1 u] by (cases g) (auto simp: behind_def)
qed

text \<open>C35: setting or resetting a UPI PIN, pausing, stopping or changing a savings plan and changing a nominee are
  refused to every request in every state: the gate of the route accepts the one-time code and clears it, and the
  operation behind the gate asks for the same code again.\<close>

theorem otp_routes_always_refuse:
  "refused (fst (upi_pin_set_route cfg t1 t2 params r x)) \<and>
   refused (fst (upi_pin_reset_route cfg t1 t2 t3 params r x)) \<and>
   refused (fst (sip_change_route cfg change t1 t2 params r x)) \<and>
   refused (fst (nominee_change_route cfg t1 t2 t3 params r x))"
  unfolding upi_pin_set_route_def upi_pin_reset_route_def sip_change_route_def nominee_change_route_def
  by (intro conjI behind_otp_refuses behind_biometric_refuses endpoint_refuses upi_pin_spent sip_change_spent nominee_spent)

text \<open>Without its gate the operation accepts a fresh code.\<close>

theorem upi_pin_set_accepts_fresh_code:
  assumes "VerifyOTPToken env now u (expString fmt (ei_Body input) ''otp'') (xs_service x) = (Inr (), s1)"
    and "requireUser u (xs_service x) = None" and "upi_pin_check fmt u input (xs_service x) = None"
  shows "upi_pin_update env fmt False now u input x =
    (Inr (), store_upi_pin env fmt False now u input (x\<lparr>xs_service := s1\<rparr>))"
  using assms by (simp add: upi_pin_update_def verify_otp_def)

section \<open>Orders\<close>

lemma record_order_frame:
  "sv_login (xs_service (record_order env p rnd now u ord x)) = sv_login (xs_service x)"
  "sv_accounts (xs_service (record_order env p rnd now u ord x)) = sv_accounts (xs_service x)"
  by (simp_all add: record_order_def recordExpandedAudit_def appendBlockchainRecordLocked_def on_service_def
      appendAudit_def nextID_def ledger_write_def Let_def)

text \<open>An order that is placed: what it leaves of the passkeys and of the money.\<close>

lemma place_order_frame:
  assumes "place_order env p fmt r1 r2 now u amount input x = (Inr ord, x')"
  shows "sv_login (xs_service x') = sv_login (xs_service x) \<and> ov_amount ord = amount"
  using assms
  by (auto simp: place_order_def record_order_frame on_service_def applyDebitToFirstAccount_def Let_def
      split: prod.splits sum.splits if_splits)

lemma place_order_money:
  assumes "place_order env p fmt r1 r2 now u amount input x = (Inr ord, x')" and "0 < amount"
    and "all_solvent (xs_service x)"
  shows "user_funds (xs_service x') = (user_funds (xs_service x))
    (u := user_funds (xs_service x) u -
      (if ToLower (ov_order_type ord) = ''buy'' \<and> ov_status ord = ''executed'' then amount else 0))"
proof -
  obtain risk fg where g: "GetRiskScore (env_H env) (firstNonEmpty (expString fmt (ei_Body input) ''instrument'')
      (TrimSpace (expString fmt (ei_Body input) ''holding_id''))) (sv_fraudGraph (xs_service x)) = (risk, fg)"
    by fastforce
  let ?s = "xs_service x\<lparr>sv_fraudGraph := fg\<rparr>"
  have same: "user_funds ?s = user_funds (xs_service x)" and sol: "all_solvent ?s"
    using assms(3) by (simp_all add: user_funds_def fun_eq_iff all_solvent_def)
  have money: "user_funds (xs_service (record_order env p r2 now u o2 y)) = user_funds (xs_service y)" for o2 y
    by (simp add: user_funds_def fun_eq_iff record_order_frame)
  from sol show ?thesis
    by (cases rule: applyDebit_cases [of ?s amount u])
      (use assms(1,2) in \<open>auto simp: place_order_def g on_service_def money same Let_def split: if_splits\<close>)
qed

lemma investment_order_cases:
  assumes "investment_order env pk p fmt r1 r2 now u input x = (Inr ord, x')"
  obtains (small) "0 < ov_amount ord" "ov_amount ord \<le> 2500000"
      "place_order env p fmt r1 r2 now u (ov_amount ord) input x = (Inr ord, x')"
  | (large) s1 where "2500000 < ov_amount ord"
      "VerifyBiometricChallenge pk now u (TrimSpace (ei_Headers input ''X-Biometric-Challenge-Id''))
         (TrimSpace (ei_Headers input ''X-Biometric-Challenge'')) (xs_service x) = (Inr (), s1)"
      "place_order env p fmt r1 r2 now u (ov_amount ord) input (x\<lparr>xs_service := s1\<rparr>) = (Inr ord, x')"
proof -
  let ?a = "expInt64 (ei_Body input) ''amount''"
  have pos: "0 < ?a" using assms by (auto simp: investment_order_def Let_def split: option.splits if_splits prod.splits)
  show thesis
  proof (cases "2500000 < ?a")
    case True
    with assms pos obtain s1 where v: "VerifyBiometricChallenge pk now u
         (TrimSpace (ei_Headers input ''X-Biometric-Challenge-Id''))
         (TrimSpace (ei_Headers input ''X-Biometric-Challenge'')) (xs_service x) = (Inr (), s1)"
      and pl: "place_order env p fmt r1 r2 now u ?a input (x\<lparr>xs_service := s1\<rparr>) = (Inr ord, x')"
      by (auto simp: investment_order_def challenge_of_def lift_step_up_def Let_def
          split: option.splits if_splits prod.splits sum.splits)
    from place_order_frame [OF pl] have "ov_amount ord = ?a" by simp
    with True v pl show ?thesis by (intro large) simp_all
  next
    case False
    with assms pos have pl: "place_order env p fmt r1 r2 now u ?a input x = (Inr ord, x')"
      by (auto simp: investment_order_def challenge_of_def Let_def split: option.splits if_splits prod.splits)
    from place_order_frame [OF pl] have "ov_amount ord = ?a" by simp
    with False pos pl show ?thesis by (intro small) simp_all
  qed
qed

lemma step_up_money:
  assumes "VerifyBiometricChallenge pk now u cid sig s = (res, s')"
  shows "sv_accounts s' = sv_accounts s"
  using assms by (auto simp: VerifyBiometricChallenge_def step_up_def Let_def with_login_def
      split: option.splits if_splits prod.splits sum.splits)

text \<open>C36: an accepted investment order of more than 25,000 rupees has used up a challenge of the customer that was
  unused and not expired; and any accepted order takes exactly its amount from the customer's funds if it is a
  purchase that is not held, and otherwise moves no money, a sale included.\<close>

theorem accepted_order_settles:
  assumes "investment_order env pk p fmt r1 r2 now u input x = (Inr ord, x')" and "all_solvent (xs_service x)"
  shows "(2500000 < ov_amount ord \<longrightarrow>
      (\<exists>ch. pm_challenges (lg_passkey (sv_login (xs_service x)))
             (TrimSpace (TrimSpace (ei_Headers input ''X-Biometric-Challenge-Id''))) = Some ch \<and>
         \<not> pc_Used ch \<and> pc_UserID ch = u \<and> now \<le> pc_ExpiresAt ch) \<and>
      challenge_used (TrimSpace (ei_Headers input ''X-Biometric-Challenge-Id'')) (xs_service x')) \<and>
    user_funds (xs_service x') = (user_funds (xs_service x))
      (u := user_funds (xs_service x) u -
        (if ToLower (ov_order_type ord) = ''buy'' \<and> ov_status ord = ''executed'' then ov_amount ord else 0))"
  using assms(1)
proof (cases rule: investment_order_cases)
  case small
  with place_order_money [OF small(3,1) assms(2)] show ?thesis by simp
next
  case (large s1)
  let ?x = "x\<lparr>xs_service := s1\<rparr>"
  note acc = step_up_money [OF large(2)]
  have same: "user_funds s1 = user_funds (xs_service x)" by (rule ext) (simp add: user_funds_def acc)
  have "all_solvent (xs_service ?x)" using assms(2) by (simp add: all_solvent_def acc)
  then have money: "user_funds (xs_service x') = (user_funds s1)
      (u := user_funds s1 u -
        (if ToLower (ov_order_type ord) = ''buy'' \<and> ov_status ord = ''executed'' then ov_amount ord else 0))"
    using place_order_money [OF large(3)] large(1) by simp
  have "sv_login (xs_service x') = sv_login s1" using place_order_frame [OF large(3)] by simp
  then have "challenge_used c (xs_service x') = challenge_used c s1" for c by (simp add: challenge_used_def)
  with step_up_success [OF large(2)] money same show ?thesis by auto
qed

section \<open>Large orders on their route\<close>

lemma large_amount:
  assumes "2500001 \<le> a" and "a \<le> 10 ^ 13"
  shows "2500000 < int64_of a" and "2500000 \<le> int64_of (fl (a * 100))"
proof -
  have int: "int64_of x = \<lfloor>x\<rfloor>" if "0 \<le> x" "x \<le> 10 ^ 15" for x :: rat
  proof -
    have "\<lfloor>x\<rfloor> \<le> 10 ^ 15" using that(2) by (simp add: floor_le_iff)
    with that(1) show ?thesis by (simp add: int64_of_def int_of_float_def Let_def)
  qed
  show "2500000 < int64_of a" using assms by (subst int) (simp_all add: less_floor_iff)
  have "fl 250000000 \<le> fl (a * 100)" "fl (a * 100) \<le> fl 1000000000000000" using assms by (auto intro: fl_mono)
  then have "250000000 \<le> fl (a * 100)" "fl (a * 100) \<le> 10 ^ 15" by (simp_all add: fl_numeral)
  then show "2500000 \<le> int64_of (fl (a * 100))" by (subst int) (simp_all add: le_floor_iff)
qed

lemma investment_order_used:
  assumes "challenge_used (TrimSpace (ei_Headers input ''X-Biometric-Challenge-Id'')) (xs_service x)"
    and "2500000 < expInt64 (ei_Body input) ''amount''"
  shows "\<exists>e. fst (investment_order env pk p fmt r1 r2 now u input x) = Inl e"
  using passkey_check.used_up_refuses [OF assms(1), of pk "(now, u, TrimSpace (ei_Headers input ''X-Biometric-Challenge''))"]
    assms(2)
  by (auto simp: investment_order_def challenge_of_def lift_step_up_def Let_def split: option.split prod.split sum.split)

lemma amount_gate_spends:
  assumes "amount_gate cfg now r x = (Pass q, x1)" and "2500000 \<le> peekAmountPaise (rc_amounts cfg) r"
    and "rq_Body r = Some raw"
  shows "q = r\<lparr>rq_Body := Some (read_body r)\<rparr> \<and>
    challenge_used (TrimSpace (rq_Header r ''X-Biometric-Challenge-Id'')) (xs_service x1)"
  using assms
  by (auto simp: amount_gate_def RequireBiometricAboveAmount_def challenge_headers_def as_verifier_def lift_step_up_def Let_def
      dest: step_up_uses split: option.splits if_splits prod.splits sum.splits)

lemma cooling_gate_passes: "cooling_gate cfg now r x = (Pass q, x1) \<Longrightarrow> q = r \<and> x1 = x"
  by (auto simp: cooling_gate_def EnforceCoolingOff_def split: option.splits sum.splits if_splits)

lemma behind_refuses:
  "(\<And>q x1. gate r x = (Pass q, x1) \<Longrightarrow> refused (fst (route q x1))) \<Longrightarrow> refused (fst (behind gate route r x))"
  by (auto simp: behind_def split: prod.split gate.split)

lemma endpoint_refuses_body:
  assumes "endpoint_body True decode r = Some body"
    and "\<And>u. \<exists>e. fst (handler u \<lparr>ei_PathParams = params, ei_Body = body,
      ei_Headers = (\<lambda>h. if h \<in> set forwardableHeaders then rq_Header r h else [])\<rparr> x) = Inl e"
  shows "refused (fst (expandedEndpoint say True True decode params handler r x))"
  using assms(1) assms(2) [of "the (gate_user r)"]
  by (auto simp: expandedEndpoint_def Let_def split: option.split prod.split sum.split)

text \<open>An order of more than 25,000 rupees whose body names its amount in the one field the operation reads is
  never accepted on its route: the gate takes the amount for rupees, spends the challenge of the headers, and the
  operation then verifies the same challenge again.\<close>

theorem large_order_never_accepted:
  assumes "rq_Body r = Some raw" and "raw \<noteq> []" and "length raw \<le> 2 ^ 20"
    and "rc_amounts cfg raw = Some \<lparr>af_AmountPaise = None, af_OrderAmountPaise = None, af_UnitsAmountPaise = None,
      af_Amount = Some a\<rparr>"
    and "rc_decode cfg raw = Decoded body" and "body ''amount'' = Some (JNumber a)"
    and "2500001 \<le> a" and "a \<le> 10 ^ 13"
  shows "refused (fst (investment_order_route cfg p r1 r2 t1 t2 t3 params r x))"
  unfolding investment_order_route_def
proof (intro behind_refuses)
  fix q x1 q' x2
  assume gate: "amount_gate cfg t1 r x = (Pass q, x1)" and "cooling_gate cfg t2 q x1 = (Pass q', x2)"
  then have q': "q' = q" "x2 = x1" by (auto dest: cooling_gate_passes)
  have body: "read_body r = raw" using assms(1,3) by (simp add: read_body_def)
  have "2500000 \<le> peekAmountPaise (rc_amounts cfg) r"
    using assms(2,4) large_amount(2) [OF assms(7,8)] by (simp add: peekAmountPaise_def body Let_def)
  from amount_gate_spends [OF gate this assms(1)]
  have q: "q = r\<lparr>rq_Body := Some raw\<rparr>"
    and used: "challenge_used (TrimSpace (rq_Header q ''X-Biometric-Challenge-Id'')) (xs_service x1)"
    by (simp_all add: body)
  show "refused (fst (expandedEndpoint (rc_say cfg) True True (rc_decode cfg) params
      (investment_order (rc_env cfg) (rc_pk cfg) p (rc_fmt cfg) r1 r2 t3) q' x2))"
  proof (rule endpoint_refuses_body)
    show "endpoint_body True (rc_decode cfg) q' = Some body" by (simp add: q' q endpoint_body_def assms(5))
    show "\<exists>e. fst (investment_order (rc_env cfg) (rc_pk cfg) p (rc_fmt cfg) r1 r2 t3 u
        \<lparr>ei_PathParams = params, ei_Body = body,
         ei_Headers = (\<lambda>h. if h \<in> set forwardableHeaders then rq_Header q' h else [])\<rparr> x2) = Inl e" for u
      by (rule investment_order_used)
        (use used in \<open>simp_all add: q' forwardableHeaders_def expInt64_def assms(6) large_amount(1) [OF assms(7,8)]\<close>)
  qed
qed

section \<open>Concrete requests\<close>

definition order_challenge :: PasskeyChallenge where
  "order_challenge = \<lparr>pc_ChallengeID = ''c1'', pc_Challenge = ''n'', pc_UserID = ''u1'', pc_Action = [],
     pc_CreatedAt = 0, pc_ExpiresAt = 100, pc_Used = False\<rparr>"

definition order_key :: PasskeyRegistration where
  "order_key = \<lparr>pr_KeyID = ''k1'', pr_UserID = ''u1'', pr_PublicKey = ''p'', pr_SignCount = 0, pr_CreatedAt = 0,
     pr_LastUsedAt = 0, pr_DeviceName = ''phone''\<rparr>"

definition order_service :: "unit exp_service" where
  "order_service = \<lparr>xs_service = demo_service
       \<lparr>sv_authProfiles := [''u1'' \<mapsto> blank_profile\<lparr>ap_InternalUserID := ''u1'',
          ap_DeviceChallengePublicKeyID := ''k1''\<rparr>],
        sv_accounts := [''u1'' \<mapsto> [demo_account ''acct-1'' 4000000]],
        sv_login := fresh_login\<lparr>lg_passkey := \<lparr>pm_registrations = [''u1'' \<mapsto> [order_key]],
          pm_challenges = [''c1'' \<mapsto> order_challenge]\<rparr>\<rparr>\<rparr>,
     xs_simBindings = (\<lambda>_. None), xs_upiPins = (\<lambda>_. None), xs_sipActions = (\<lambda>_. None),
     xs_nomineeChanges = (\<lambda>_. None), xs_blockchainData = (\<lambda>_. None)\<rparr>"

definition order_pk :: "unit pk_env" where
  "order_pk = \<lparr>pk_parse = (\<lambda>_. Some ()), pk_sha256 = (\<lambda>b. b), pk_verify = (\<lambda>_ _ _. True)\<rparr>"

definition order_input :: EndpointInput where
  "order_input = \<lparr>ei_PathParams = (\<lambda>_. []), ei_Body = [''amount'' \<mapsto> JNumber 3000000],
     ei_Headers = (\<lambda>h. if h = ''X-Biometric-Challenge-Id'' then ''c1''
       else if h = ''X-Biometric-Challenge'' then ''AAAA'' else [])\<rparr>"

definition large_order :: order_view where
  "large_order = \<lparr>ov_order_id = ''order-a'', ov_holding_id = [], ov_order_type = ''buy'', ov_amount = 3000000,
     ov_risk_score = 1 / 2, ov_status = ''executed'', ov_cooling_off_until = None\<rparr>"

lemma demo_trim: "TrimSpace ''c1'' = ''c1''" "TrimSpace ''AAAA'' = ''AAAA''" "TrimSpace ''u1'' = ''u1''"
  by (simp_all add: TrimSpace_def is_space_def)

lemma demo_decode: "StdDecodeString ''AAAA'' = Some [CHR 0x00, CHR 0x00, CHR 0x00]"
  by code_simp

lemma order_verified:
  "\<exists>s1. VerifyBiometricChallenge order_pk 5 ''u1'' ''c1'' ''AAAA'' (xs_service order_service) = (Inr (), s1) \<and>
     sv_accounts s1 = sv_accounts (xs_service order_service) \<and>
     sv_fraudGraph s1 = sv_fraudGraph (xs_service order_service)"
  by (simp add: VerifyBiometricChallenge_def step_up_def requireUser_def demo_trim demo_decode order_service_def
      demo_service_def demo_user_def fresh_service_def fresh_login_def VerifyChallenge_def VerifyChallengeForAction_def
      read_phase_def check_signature_def commit_phase_def order_pk_def order_challenge_def order_key_def
      with_login_def get_list_def Let_def)

lemma some_risk: "GetRiskScore H [] empty_graph = (1 / 2, empty_graph)" "\<not> fl (4 / 5) * 2 < 1"
  by (simp add: GetRiskScore_def empty_graph_def patternBasedScore_def Let_def ToLower_def) code_simp

lemma large_order_placed:
  "\<exists>x'. investment_order demo_env order_pk (\<lambda>_. []) (\<lambda>_. []) ''a'' ''b'' 5 ''u1'' order_input order_service = (Inr large_order, x')"
proof -
  from order_verified obtain s1
    where s1: "VerifyBiometricChallenge order_pk 5 ''u1'' ''c1'' ''AAAA'' (xs_service order_service) = (Inr (), s1)"
      "sv_accounts s1 = [''u1'' \<mapsto> [demo_account ''acct-1'' 4000000]]" "sv_fraudGraph s1 = empty_graph"
    by (auto simp: order_service_def demo_service_def fresh_service_def)
  have user: "requireUser ''u1'' (xs_service order_service) = None"
    by (simp add: requireUser_def demo_trim order_service_def demo_service_def)
  have amount: "expInt64 [''amount'' \<mapsto> JNumber 3000000] ''amount'' = 3000000"
    by (simp add: expInt64_def int64_of_def int_of_float_def)
  have "applyDebitToFirstAccount ''u1'' 3000000 (s1\<lparr>sv_fraudGraph := empty_graph\<rparr>) =
      (Inr (), s1\<lparr>sv_fraudGraph := empty_graph, sv_accounts := [''u1'' \<mapsto> [demo_account ''acct-1'' 1000000]]\<rparr>)"
    by (simp add: applyDebitToFirstAccount_def totalBalanceLocked_def totalBalance_def s1 get_list_def demo_account_def
        i64_id is_i64_def)
  then show ?thesis
    by (simp add: investment_order_def user amount challenge_of_def order_input_def demo_trim lift_step_up_def s1
        place_order_def expString_def firstNonEmpty_def some_risk on_service_def large_order_def ToLower_def lower_char_def
        Let_def)
qed

lemma order_solvent: "all_solvent (xs_service order_service)"
  by (simp add: all_solvent_def order_service_def solvent_def get_list_def demo_account_def)

lemma accepted_order_settles_witness:
  "\<exists>x'. investment_order demo_env order_pk (\<lambda>_. []) (\<lambda>_. []) ''a'' ''b'' 5 ''u1'' order_input order_service = (Inr large_order, x') \<and>
     user_funds (xs_service x') ''u1'' = 1000000 \<and> challenge_used (TrimSpace ''c1'') (xs_service x')"
proof -
  from large_order_placed obtain x' where x': "investment_order demo_env order_pk (\<lambda>_. []) (\<lambda>_. []) ''a'' ''b'' 5 ''u1''
      order_input order_service = (Inr large_order, x')" by blast
  have "user_funds (xs_service order_service) ''u1'' = 4000000"
    by (simp add: user_funds_def order_service_def get_list_def demo_account_def)
  with accepted_order_settles [OF x' order_solvent] x' show ?thesis
    by (simp add: large_order_def order_input_def ToLower_def lower_char_def)
qed

definition order_cfg :: "unit route_cfg" where
  "order_cfg = \<lparr>rc_env = demo_env, rc_pk = order_pk, rc_say = (\<lambda>_. []), rc_fmt = (\<lambda>_. []), rc_payload = (\<lambda>_. None),
     rc_amounts = (\<lambda>_. Some \<lparr>af_AmountPaise = None, af_OrderAmountPaise = None, af_UnitsAmountPaise = None,
       af_Amount = Some 3000000\<rparr>),
     rc_decode = (\<lambda>_. Decoded [''amount'' \<mapsto> JNumber 3000000]), rc_challenge_flag = ''true''\<rparr>"

definition order_request :: http_request where
  "order_request = demo_request\<lparr>rq_Header := ei_Headers order_input\<rparr>"

lemma large_order_never_accepted_witness:
  "refused (fst (investment_order_route order_cfg (\<lambda>_. []) ''a'' ''b'' 4 4 5 (\<lambda>_. []) order_request order_service))"
  by (rule large_order_never_accepted [where raw = "''a''" and a = 3000000 and body = "[''amount'' \<mapsto> JNumber 3000000]"])
     (simp_all add: order_request_def demo_request_def order_cfg_def)

text \<open>A second amount field takes the order past its gate without a challenge.\<close>

lemma amount_gate_reads_other_field:
  "fst (amount_gate (order_cfg\<lparr>rc_amounts := (\<lambda>_. Some \<lparr>af_AmountPaise = Some 1, af_OrderAmountPaise = None,
     af_UnitsAmountPaise = None, af_Amount = Some 3000000\<rparr>)\<rparr>) 4 demo_request x) = Pass demo_request"
  by (simp add: amount_gate_def RequireBiometricAboveAmount_def peekAmountPaise_def read_body_def demo_request_def order_cfg_def)

end
