(* ===== verification/HealthScore.thy ===== *)
theory HealthScore
  imports FloatArith "HOL-Library.Multiset"
begin

text \<open>
  The financial health score, \<open>domain/healthscore\<close>: \<open>derive.go\<close> turns the facts
  about a customer into the inputs of \<open>calculator.go\<close>. Every amount is an \<open>int64\<close>, so every
  intermediate value is a finite \<open>float64\<close> far below \<open>2 ^ 1023\<close>: the values are
  rationals, rounded after each operation. Instants are read in UTC.
\<close>

section \<open>Calendar\<close>

text \<open>\<open>Format("2006-01")\<close> prints the year and the month; a key is that pair.\<close>

definition month_key :: "time \<Rightarrow> int \<times> int" where
  "month_key t = (let (y, m, d) = civil_date t in (y, m))"

text \<open>
  \<open>AddDate(0, k, 0)\<close> moves the month number and keeps the day number: a day past the end of the
  month runs on into the next one. Days count from the first of January of the year 1.
\<close>

definition days_before_month :: "int \<Rightarrow> nat \<Rightarrow> int" where
  "days_before_month y m =
     365 * (y - 1) + (y - 1) div 4 - (y - 1) div 100 + (y - 1) div 400 + sum_list (take m (month_lengths y))"

definition AddMonths :: "time \<Rightarrow> int \<Rightarrow> time" where
  "AddMonths t k =
     (let (y, m, d) = civil_date t; n = m - 1 + k
      in (days_before_month (y + n div 12) (nat (n mod 12)) + d - 1) * (86400 * second) + t mod (86400 * second))"

text \<open>\<open>Sub\<close> saturates; \<open>Seconds\<close> adds whole seconds and the fraction.\<close>

definition Sub :: "time \<Rightarrow> time \<Rightarrow> duration" where
  "Sub t u = max (- (2 ^ 63)) (min (2 ^ 63 - 1) (t - u))"

definition Seconds :: "duration \<Rightarrow> rat" where
  "Seconds d = fl (fl (of_int (d sdiv 10 ^ 9)) + fl (of_int (d smod 10 ^ 9) / 10 ^ 9))"

section \<open>Arithmetic\<close>

definition hs_clamp :: "rat \<Rightarrow> rat \<Rightarrow> rat \<Rightarrow> rat" where
  "hs_clamp v lo hi = (if v < lo then lo else if v > hi then hi else v)"

definition abs64 :: "int \<Rightarrow> int" where
  "abs64 v = (if v < 0 then i64 (- v) else v)"

text \<open>\<open>math.Sqrt\<close>: the integer root at 400 extra bits, with a sticky half where it is not exact.\<close>

function isqrt :: "int \<Rightarrow> int" where
  "isqrt n = (if n \<le> 0 then 0 else let r = 2 * isqrt (n div 4) in if (r + 1) * (r + 1) \<le> n then r + 1 else r)"
  by auto
termination by (relation "measure nat") auto

declare isqrt.simps [simp del]

definition Sqrt :: "rat \<Rightarrow> rat" where
  "Sqrt x =
     (let n = \<lfloor>x * 2 ^ 800\<rfloor>; r = isqrt n
      in if of_int (r * r) = x * 2 ^ 800 then fl (of_int r / 2 ^ 400) else fl ((of_int r + 1 / 2) / 2 ^ 400))"

section \<open>Calculator\<close>

record Input =
  in_EmergencyFundMonths :: rat
  in_DebtToIncomeRatio :: rat
  in_SavingsRate :: rat
  in_DiversificationScore :: rat
  in_InsuranceCoverageScore :: rat
  in_GoalOnTrackRatio :: rat
  in_BehaviourQualityScore :: rat
  in_MonthlyHistoricalScores :: "rat list"

record Pillar =
  pi_Name :: string
  pi_Weight :: rat
  pi_Score :: rat

record HealthResult =
  hr_Score300To900 :: int
  hr_Band :: string
  hr_Pillars :: "Pillar list"

definition ratioScore :: "rat \<Rightarrow> rat \<Rightarrow> rat" where
  "ratioScore value target = (if target \<le> 0 then 0 else hs_clamp (fl (fl (value / target) * 100)) 0 100)"

definition liquidityScore :: "rat \<Rightarrow> rat" where
  "liquidityScore months = ratioScore months 6"

definition debtScore :: "rat \<Rightarrow> rat" where
  "debtScore dti = (if dti \<le> 0 then 100 else if dti \<ge> 1 then 0 else hs_clamp (fl (fl (1 - dti) * 100)) 0 100)"

definition last_six :: "rat list \<Rightarrow> rat list" where
  "last_six scores =
     (let trimmed = drop (length scores - 6) scores
      in replicate (6 - length trimmed) (hd trimmed) @ trimmed)"

definition history_weights :: "rat list" where
  "history_weights = map fl [5 / 100, 8 / 100, 10 / 100, 15 / 100, 25 / 100, 37 / 100]"

definition weigh :: "(rat \<times> rat) list \<Rightarrow> rat" where
  "weigh xs = foldl (\<lambda>s (x, w). fl (s + fl (x * w))) 0 xs"

definition modifier_of :: "rat \<Rightarrow> rat" where
  "modifier_of w = (if w \<ge> 80 then fl (105 / 100) else if w \<ge> 65 then fl (102 / 100)
     else if w \<le> 40 then fl (94 / 100) else 1)"

definition resilienceModifier :: "rat list \<Rightarrow> rat" where
  "resilienceModifier scores =
     (if scores = [] then 1
      else modifier_of (weigh (zip (map (\<lambda>x. hs_clamp x 0 100) (last_six scores)) history_weights)))"

text \<open>A target of 0.35, as an untyped constant.\<close>

definition savingsRateTarget :: rat where "savingsRateTarget = 35 / 100"
definition neutralSavingsRate :: rat where "neutralSavingsRate = fl (savingsRateTarget * 6 / 10)"

definition pillars :: "Input \<Rightarrow> Pillar list" where
  "pillars i =
     [\<lparr>pi_Name = ''Liquidity'', pi_Weight = fl (18 / 100), pi_Score = liquidityScore (in_EmergencyFundMonths i)\<rparr>,
      \<lparr>pi_Name = ''DebtHealth'', pi_Weight = fl (18 / 100), pi_Score = debtScore (in_DebtToIncomeRatio i)\<rparr>,
      \<lparr>pi_Name = ''SavingsBehaviour'', pi_Weight = fl (15 / 100),
        pi_Score = ratioScore (in_SavingsRate i) (fl savingsRateTarget)\<rparr>,
      \<lparr>pi_Name = ''InvestmentQuality'', pi_Weight = fl (15 / 100),
        pi_Score = hs_clamp (in_DiversificationScore i) 0 100\<rparr>,
      \<lparr>pi_Name = ''ProtectionCoverage'', pi_Weight = fl (15 / 100),
        pi_Score = hs_clamp (in_InsuranceCoverageScore i) 0 100\<rparr>,
      \<lparr>pi_Name = ''GoalAlignment'', pi_Weight = fl (12 / 100), pi_Score = ratioScore (in_GoalOnTrackRatio i) 1\<rparr>,
      \<lparr>pi_Name = ''FinancialBehaviour'', pi_Weight = fl (7 / 100),
        pi_Score = hs_clamp (in_BehaviourQualityScore i) 0 100\<rparr>]"

definition Calculate :: "Input \<Rightarrow> HealthResult" where
  "Calculate i =
     (let ps = pillars i;
          w = weigh (map (\<lambda>p. (pi_Score p, pi_Weight p)) ps);
          weighted = hs_clamp (fl (w * resilienceModifier (in_MonthlyHistoricalScores i))) 0 100;
          rawScore = round_away (fl (300 + fl (fl (weighted / 100) * 600)))
      in \<lparr>hr_Score300To900 = rawScore,
          hr_Band = (if rawScore \<ge> 750 then ''green'' else if rawScore \<ge> 550 then ''amber'' else ''red''),
          hr_Pillars = ps\<rparr>)"

section \<open>Facts\<close>

record TxnFact =
  tf_AmountPaise :: int
  tf_Credit :: bool
  tf_At :: time

record HoldingFact =
  hf_Category :: string
  hf_CurrentValuePaise :: int

record GoalFact =
  gf_SavedPaise :: int
  gf_TargetPaise :: int
  gf_Priority :: string
  gf_StartDate :: time
  gf_TargetDate :: time

record Facts =
  fa_Now :: time
  fa_LiquidBalancePaise :: int
  fa_Transactions :: "TxnFact list"
  fa_Investments :: "HoldingFact list"
  fa_Goals :: "GoalFact list"
  fa_InsuranceCoverPaise :: int
  fa_LiabilitiesPaise :: int
  fa_MonthlyEMIPaise :: int

record bucket =
  bk_key :: "int \<times> int"
  bk_creditsPaise :: int
  bk_debitsPaise :: int
  bk_debitCount :: int
  bk_hasObservation :: bool

definition window_keys :: "time \<Rightarrow> (int \<times> int) list" where
  "window_keys now = map (\<lambda>i. month_key (AddMonths now (int i - 5))) [0..<6]"

text \<open>A key that two months share points to the later one.\<close>

definition bucket_index :: "time \<Rightarrow> int \<times> int \<Rightarrow> nat option" where
  "bucket_index now = map_of (rev (zip (window_keys now) [0..<6]))"

definition observe :: "TxnFact \<Rightarrow> bucket \<Rightarrow> bucket" where
  "observe t b =
     (let amount = abs64 (tf_AmountPaise t); b = b\<lparr>bk_hasObservation := True\<rparr>
      in if tf_Credit t then b\<lparr>bk_creditsPaise := i64 (bk_creditsPaise b + amount)\<rparr>
         else b\<lparr>bk_debitsPaise := i64 (bk_debitsPaise b + amount), bk_debitCount := i64 (bk_debitCount b + 1)\<rparr>)"

definition add_txn :: "time \<Rightarrow> bucket list \<Rightarrow> TxnFact \<Rightarrow> bucket list" where
  "add_txn now bs t =
     (if tf_At t = 0 \<or> tf_At t > now then bs
      else case bucket_index now (month_key (tf_At t)) of None \<Rightarrow> bs | Some i \<Rightarrow> bs[i := observe t (bs ! i)])"

text \<open>The wall clock stands in for a missing instant.\<close>

definition monthlyBuckets :: "time \<Rightarrow> TxnFact list \<Rightarrow> time \<Rightarrow> bucket list" where
  "monthlyBuckets clock txns now0 =
     (let now = (if now0 = 0 then clock else now0)
      in foldl (add_txn now)
           (map (\<lambda>k. \<lparr>bk_key = k, bk_creditsPaise = 0, bk_debitsPaise = 0, bk_debitCount = 0,
              bk_hasObservation = False\<rparr>) (window_keys now)) txns)"

definition float_sum :: "int list \<Rightarrow> rat" where
  "float_sum vs = foldl (\<lambda>s v. fl (s + fl (of_int v))) 0 vs"

definition average :: "int list \<Rightarrow> rat" where
  "average vs = (if vs = [] then 0 else fl (float_sum vs / of_nat (length vs)))"

definition averageDebits :: "bucket list \<Rightarrow> rat" where
  "averageDebits bs = average (map bk_debitsPaise (filter bk_hasObservation bs))"

definition averageCredits :: "bucket list \<Rightarrow> rat" where
  "averageCredits bs = average (map bk_creditsPaise (filter bk_hasObservation bs))"

definition emergencyFundMonths :: "int \<Rightarrow> rat \<Rightarrow> rat" where
  "emergencyFundMonths liquid avgSpend =
     (if avgSpend \<le> 0 then (if liquid > 0 then 6 else 0) else hs_clamp (fl (fl (of_int liquid) / avgSpend)) 0 24)"

definition debtToIncome :: "int \<Rightarrow> rat \<Rightarrow> int \<Rightarrow> int \<Rightarrow> rat" where
  "debtToIncome emi avgIncome liabilities liquid =
     (if avgIncome > 0 then hs_clamp (fl (fl (of_int emi) / avgIncome)) 0 1
      else let assets = fl (of_int liquid); debt = fl (of_int liabilities)
           in if fl (assets + debt) \<le> 0 then 0 else hs_clamp (fl (debt / fl (assets + debt))) 0 1)"

definition savingsRate :: "rat \<Rightarrow> rat \<Rightarrow> rat" where
  "savingsRate avgIncome avgSpend =
     (if avgIncome \<le> 0 then neutralSavingsRate else hs_clamp (fl (fl (avgIncome - avgSpend) / avgIncome)) 0 1)"

text \<open>The totals of the categories, in order of first appearance, and the sum of all.\<close>

fun add_category :: "string \<Rightarrow> int \<Rightarrow> (string \<times> int) list \<Rightarrow> (string \<times> int) list" where
  "add_category c v [] = [(c, v)]"
| "add_category c v ((d, w) # ds) = (if d = c then (d, i64 (w + v)) # ds else (d, w) # add_category c v ds)"

definition byCategory :: "HoldingFact list \<Rightarrow> (string \<times> int) list" where
  "byCategory hs = foldl (\<lambda>m h. if hf_CurrentValuePaise h \<le> 0 then m
     else add_category (if hf_Category h = [] then ''other'' else hf_Category h) (hf_CurrentValuePaise h) m) [] hs"

definition total_value :: "HoldingFact list \<Rightarrow> int" where
  "total_value hs = foldl (\<lambda>t h. if hf_CurrentValuePaise h \<le> 0 then t else i64 (t + hf_CurrentValuePaise h)) 0 hs"

text \<open>A loop over a Go map meets the categories in any order, which \<open>order\<close> chooses.\<close>

definition diversification :: "((string \<times> int) list \<Rightarrow> (string \<times> int) list) \<Rightarrow> HoldingFact list \<Rightarrow> rat" where
  "diversification order holdings =
     (let cats = byCategory holdings; total = total_value holdings in
      if total \<le> 0 \<or> cats = [] then 0
      else
        let hhi = foldl (\<lambda>s (c, v). let w = fl (fl (of_int v) / fl (of_int total)) in fl (s + fl (w * w))) 0 (order cats);
            n = of_nat (length cats);
            evenness = (if n > 1 then fl (fl (1 - hhi) / fl (1 - fl (1 / n))) else 0);
            breadth = hs_clamp (fl (n / 4)) 0 1
        in hs_clamp (fl (100 * fl (fl (fl (6 / 10) * breadth) + fl (fl (4 / 10) * evenness)))) 0 100)"

definition protection :: "int \<Rightarrow> rat \<Rightarrow> int \<Rightarrow> rat" where
  "protection cover avgIncome liabilities =
     (let required = fl (fl (of_int liabilities) + fl (fl (avgIncome * 12) * 10)) in
      if required \<le> 0 then (if cover > 0 then 100 else 50)
      else hs_clamp (fl (fl (fl (of_int cover) / required) * 100)) 0 100)"

definition priorityWeight :: "string \<Rightarrow> rat" where
  "priorityWeight p = (if p = ''high'' then fl (3 / 2) else if p = ''low'' then fl (6 / 10) else 1)"

definition goal_ratio :: "time \<Rightarrow> GoalFact \<Rightarrow> rat" where
  "goal_ratio now g =
     (let actual = hs_clamp (fl (fl (of_int (gf_SavedPaise g)) / fl (of_int (gf_TargetPaise g)))) 0 1;
          expected = (if gf_TargetDate g > gf_StartDate g \<and> gf_StartDate g \<noteq> 0
            then hs_clamp (fl (Seconds (Sub now (gf_StartDate g)) / Seconds (Sub (gf_TargetDate g) (gf_StartDate g)))) 0 1
            else 1)
      in if expected > 0 then hs_clamp (fl (actual / expected)) 0 1 else 1)"

definition goalOnTrack :: "time \<Rightarrow> GoalFact list \<Rightarrow> time \<Rightarrow> rat" where
  "goalOnTrack clock goals now0 =
     (if goals = [] then 0
      else
        let now = (if now0 = 0 then clock else now0);
            (weighted, weightSum) = foldl (\<lambda>(s, ws) g. if gf_TargetPaise g \<le> 0 then (s, ws)
                else let w = priorityWeight (gf_Priority g) in (fl (s + fl (goal_ratio now g * w)), fl (ws + w)))
              (0, 0) goals
        in if weightSum = 0 then 0 else hs_clamp (fl (weighted / weightSum)) 0 1)"

definition behaviourQuality :: "bucket list \<Rightarrow> rat" where
  "behaviourQuality bs =
     (let values = map (\<lambda>b. fl (of_int (bk_debitsPaise b))) (filter bk_hasObservation bs) in
      if length values < 2 then 60
      else
        let n = of_nat (length values);
            mean = fl (foldl (\<lambda>s v. fl (s + v)) 0 values / n)
        in if mean \<le> 0 then 60
           else
             let variance = fl (foldl (\<lambda>s v. let d = fl (v - mean) in fl (s + fl (d * d))) 0 values / n);
                 cv = fl (Sqrt variance / mean)
             in hs_clamp (fl (fl (1 - hs_clamp (fl (cv / fl (6 / 10))) 0 1) * 100)) 0 100)"

definition monthly_score :: "bucket \<Rightarrow> rat" where
  "monthly_score b =
     (if \<not> bk_hasObservation b \<or> bk_creditsPaise b \<le> 0 then 60
      else let c = fl (of_int (bk_creditsPaise b))
           in hs_clamp (fl (fl (fl (c - fl (of_int (bk_debitsPaise b))) / c) * 100)) 0 100)"

definition monthlyHistory :: "bucket list \<Rightarrow> rat list" where
  "monthlyHistory bs = map monthly_score bs"

definition Derive :: "((string \<times> int) list \<Rightarrow> (string \<times> int) list) \<Rightarrow> time \<Rightarrow> Facts \<Rightarrow> Input" where
  "Derive order clock f =
     (let monthly = monthlyBuckets clock (fa_Transactions f) (fa_Now f);
          avgSpend = averageDebits monthly; avgIncome = averageCredits monthly
      in \<lparr>in_EmergencyFundMonths = emergencyFundMonths (fa_LiquidBalancePaise f) avgSpend,
          in_DebtToIncomeRatio = debtToIncome (fa_MonthlyEMIPaise f) avgIncome (fa_LiabilitiesPaise f)
            (fa_LiquidBalancePaise f),
          in_SavingsRate = savingsRate avgIncome avgSpend,
          in_DiversificationScore = diversification order (fa_Investments f),
          in_InsuranceCoverageScore = protection (fa_InsuranceCoverPaise f) avgIncome (fa_LiabilitiesPaise f),
          in_GoalOnTrackRatio = goalOnTrack clock (fa_Goals f) (fa_Now f),
          in_BehaviourQualityScore = behaviourQuality monthly,
          in_MonthlyHistoricalScores = monthlyHistory monthly\<rparr>)"

section \<open>The score\<close>

lemma hs_clamp_bounds: "lo \<le> hi \<Longrightarrow> lo \<le> hs_clamp v lo hi \<and> hs_clamp v lo hi \<le> hi"
  by (simp add: hs_clamp_def)

lemma hs_clamp_mono: "v \<le> w \<Longrightarrow> lo \<le> hi \<Longrightarrow> hs_clamp v lo hi \<le> hs_clamp w lo hi"
  by (simp add: hs_clamp_def)

lemma ratioScore_bounds: "0 \<le> ratioScore v t \<and> ratioScore v t \<le> 100"
  by (simp add: ratioScore_def hs_clamp_bounds)

lemma ratioScore_mono: "v \<le> w \<Longrightarrow> ratioScore v t \<le> ratioScore w t"
  unfolding ratioScore_def
  by (auto intro!: hs_clamp_mono fl_mono mult_right_mono divide_right_mono)

lemma debtScore_bounds: "0 \<le> debtScore v \<and> debtScore v \<le> 100"
  by (simp add: debtScore_def hs_clamp_bounds)

lemma debtScore_antimono: "v \<le> w \<Longrightarrow> debtScore w \<le> debtScore v"
  using hs_clamp_bounds [of 0 100] unfolding debtScore_def
  by (auto intro!: hs_clamp_mono fl_mono mult_right_mono)

definition weighs_less :: "rat \<times> rat \<Rightarrow> rat \<times> rat \<Rightarrow> bool" where
  "weighs_less a b \<longleftrightarrow> 0 \<le> fst a \<and> fst a \<le> fst b \<and> 0 \<le> snd a \<and> snd a = snd b"

lemma weigh_mono:
  "list_all2 weighs_less xs ys \<Longrightarrow> 0 \<le> weigh xs \<and> weigh xs \<le> weigh ys"
proof -
  have "list_all2 weighs_less xs ys \<Longrightarrow> 0 \<le> s \<Longrightarrow> s \<le> t \<Longrightarrow>
      0 \<le> foldl (\<lambda>s (x, w). fl (s + fl (x * w))) s xs \<and>
      foldl (\<lambda>s (x, w). fl (s + fl (x * w))) s xs \<le> foldl (\<lambda>s (x, w). fl (s + fl (x * w))) t ys" for s t
  proof (induction xs ys arbitrary: s t rule: list_all2_induct)
    case (Cons a as b bs)
    obtain x w y where ab: "a = (x, w)" "b = (y, w)" "0 \<le> x" "x \<le> y" "0 \<le> w"
      using Cons(1) by (cases a; cases b) (auto simp: weighs_less_def)
    then have "0 \<le> fl (x * w)" "fl (x * w) \<le> fl (y * w)"
      by (auto intro!: fl_nonneg fl_mono mult_right_mono)
    then have "0 \<le> fl (s + fl (x * w))" "fl (s + fl (x * w)) \<le> fl (t + fl (y * w))"
      using Cons.prems by (auto intro!: fl_nonneg fl_mono)
    then show ?case using Cons.IH ab by simp
  qed simp
  from this [of 0 0] show "list_all2 weighs_less xs ys \<Longrightarrow> 0 \<le> weigh xs \<and> weigh xs \<le> weigh ys"
    by (simp add: weigh_def)
qed

lemma modifier_mono: "v \<le> w \<Longrightarrow> modifier_of v \<le> modifier_of w"
  and modifier_nonneg: "0 \<le> modifier_of v"
proof -
  have "fl (94 / 100) \<le> 1" "1 \<le> fl (102 / 100)" "fl (102 / 100) \<le> fl (105 / 100)" "0 \<le> fl (94 / 100)"
    using fl_mono [of "94 / 100" 1] fl_mono [of 1 "102 / 100"] by (auto intro!: fl_mono fl_nonneg)
  then show "v \<le> w \<Longrightarrow> modifier_of v \<le> modifier_of w" "0 \<le> modifier_of v"
    by (auto simp: modifier_of_def)
qed

lemma last_six_mono: "list_all2 (\<le>) as bs \<Longrightarrow> as \<noteq> [] \<Longrightarrow> list_all2 (\<le>) (last_six as) (last_six bs)"
proof -
  assume a: "list_all2 (\<le>) as bs" "as \<noteq> []"
  let ?a = "drop (length as - 6) as" and ?b = "drop (length as - 6) bs"
  have ab: "list_all2 (\<le>) ?a ?b" "length bs = length as"
    using a by (auto simp: list_all2_lengthD list_all2_dropI)
  have "?a \<noteq> []" using a(2) by (cases as) auto
  then have "hd ?a \<le> hd ?b" using ab(1) by (cases ?a; cases ?b) auto
  then have "list_all2 (\<le>) (replicate n (hd ?a)) (replicate n (hd ?b))" for n
    by (simp add: list_all2_conv_all_nth)
  with ab show ?thesis unfolding last_six_def Let_def by (auto intro!: list_all2_appendI)
qed

lemma history_mono:
  "list_all2 (\<le>) as bs \<Longrightarrow> 0 \<le> resilienceModifier as \<and> resilienceModifier as \<le> resilienceModifier bs"
proof (cases "as = []")
  case False
  assume "list_all2 (\<le>) as bs"
  note l = last_six_mono [OF this False]
  let ?f = "\<lambda>xs. zip (map (\<lambda>x. hs_clamp x 0 100) (last_six xs)) history_weights"
  have w: "w \<in> set history_weights \<Longrightarrow> 0 \<le> w" for w
    by (auto simp: history_weights_def intro!: fl_nonneg)
  have "list_all2 weighs_less (?f as) (?f bs)"
    using l w by (auto simp: list_all2_conv_all_nth weighs_less_def hs_clamp_bounds intro!: hs_clamp_mono)
  then have "weigh (?f as) \<le> weigh (?f bs)" using weigh_mono by blast
  moreover have "bs \<noteq> []" using False \<open>list_all2 (\<le>) as bs\<close> by auto
  ultimately show ?thesis using False by (simp add: resilienceModifier_def modifier_mono modifier_nonneg)
qed (simp add: resilienceModifier_def)

text \<open>One customer is at least as well off as another in every input.\<close>

definition better_input :: "Input \<Rightarrow> Input \<Rightarrow> bool" where
  "better_input a b \<longleftrightarrow> in_EmergencyFundMonths a \<le> in_EmergencyFundMonths b \<and>
     in_DebtToIncomeRatio b \<le> in_DebtToIncomeRatio a \<and> in_SavingsRate a \<le> in_SavingsRate b \<and>
     in_DiversificationScore a \<le> in_DiversificationScore b \<and>
     in_InsuranceCoverageScore a \<le> in_InsuranceCoverageScore b \<and>
     in_GoalOnTrackRatio a \<le> in_GoalOnTrackRatio b \<and>
     in_BehaviourQualityScore a \<le> in_BehaviourQualityScore b \<and>
     list_all2 (\<le>) (in_MonthlyHistoricalScores a) (in_MonthlyHistoricalScores b)"

lemma pillars_mono:
  "better_input a b \<Longrightarrow> list_all2 weighs_less (map (\<lambda>p. (pi_Score p, pi_Weight p)) (pillars a))
     (map (\<lambda>p. (pi_Score p, pi_Weight p)) (pillars b))"
  by (simp add: better_input_def pillars_def weighs_less_def liquidityScore_def ratioScore_bounds debtScore_bounds
      hs_clamp_bounds ratioScore_mono debtScore_antimono hs_clamp_mono fl_nonneg)

definition raw_score :: "rat \<Rightarrow> int" where
  "raw_score weighted = round_away (fl (300 + fl (fl (weighted / 100) * 600)))"

lemma raw_score_mono: "v \<le> w \<Longrightarrow> raw_score v \<le> raw_score w"
  unfolding raw_score_def
  by (auto intro!: round_away_mono fl_mono add_left_mono mult_right_mono divide_right_mono)

lemma raw_score_ends: "raw_score 0 = 300" "raw_score 100 = 900"
  using round_away_of_int [of 300] round_away_of_int [of 900]
  by (simp_all add: raw_score_def fl_numeral)

lemma Calculate_score:
  "hr_Score300To900 (Calculate i) = raw_score (hs_clamp (fl (weigh (map (\<lambda>p. (pi_Score p, pi_Weight p)) (pillars i)) *
     resilienceModifier (in_MonthlyHistoricalScores i))) 0 100)"
  by (simp add: Calculate_def raw_score_def Let_def)

lemma Calculate_bounds: "300 \<le> hr_Score300To900 (Calculate i) \<and> hr_Score300To900 (Calculate i) \<le> 900"
proof -
  have "raw_score 0 \<le> raw_score (hs_clamp v 0 100)" "raw_score (hs_clamp v 0 100) \<le> raw_score 100" for v
    using hs_clamp_bounds [of 0 100 v] by (auto intro: raw_score_mono)
  then show ?thesis by (simp add: Calculate_score raw_score_ends)
qed

lemma Calculate_mono: "better_input a b \<Longrightarrow> hr_Score300To900 (Calculate a) \<le> hr_Score300To900 (Calculate b)"
proof -
  assume better: "better_input a b"
  then have "list_all2 (\<le>) (in_MonthlyHistoricalScores a) (in_MonthlyHistoricalScores b)"
    by (simp add: better_input_def)
  note h = history_mono [OF this] and w = weigh_mono [OF pillars_mono [OF better]]
  show ?thesis unfolding Calculate_score
    using h w by (intro raw_score_mono hs_clamp_mono fl_mono mult_mono) linarith+
qed

section \<open>The score of a customer\<close>

text \<open>Facts that differ in the cash and the cover only.\<close>

definition richer :: "Facts \<Rightarrow> Facts \<Rightarrow> bool" where
  "richer f g \<longleftrightarrow> (\<exists>cash cover. g = f\<lparr>fa_LiquidBalancePaise := cash, fa_InsuranceCoverPaise := cover\<rparr> \<and>
     0 \<le> fa_LiquidBalancePaise f \<and> fa_LiquidBalancePaise f \<le> cash \<and> fa_InsuranceCoverPaise f \<le> cover)"

lemma fund_mono: "a \<le> b \<Longrightarrow> emergencyFundMonths a s \<le> emergencyFundMonths b s"
  unfolding emergencyFundMonths_def by (auto intro!: hs_clamp_mono fl_mono divide_right_mono)

lemma protection_mono: "a \<le> b \<Longrightarrow> protection a inc l \<le> protection b inc l"
  unfolding protection_def Let_def
  by (auto intro!: hs_clamp_mono fl_mono mult_right_mono divide_right_mono)

lemma leverage_antimono:
  assumes "0 \<le> a" and "a \<le> b" and "0 \<le> l"
  shows "debtToIncome e inc l b \<le> debtToIncome e inc l a"
proof (cases "inc > 0")
  case False
  let ?A = "fl (fl (of_int a) + fl (of_int l))" and ?B = "fl (fl (of_int b) + fl (of_int l))"
  have l: "0 \<le> fl (of_int l :: rat)" and a: "0 \<le> fl (of_int a :: rat)" "fl (of_int a :: rat) \<le> fl (of_int b)"
    using assms by (auto intro: fl_nonneg fl_mono)
  then have AB: "0 \<le> ?A" "?A \<le> ?B" by (auto intro!: fl_nonneg fl_mono)
  show ?thesis
  proof (cases "?A \<le> 0")
    case True
    have "fl (fl (of_int l)) \<le> ?A" using a by (intro fl_mono) auto
    then have "fl (of_int l :: rat) = 0" using True l by simp
    then show ?thesis using True False AB by (simp add: debtToIncome_def hs_clamp_def Let_def)
  next
    case 2: False
    then have "fl (of_int l) / ?B \<le> fl (of_int l) / ?A" using AB l by (intro divide_left_mono) auto
    then show ?thesis using 2 False AB
      by (auto simp: debtToIncome_def Let_def intro!: hs_clamp_mono fl_mono)
  qed
qed (simp add: debtToIncome_def)

lemma richer_input:
  assumes "richer f g" and "0 \<le> fa_LiabilitiesPaise f"
  shows "better_input (Derive order clock f) (Derive order clock g)"
proof -
  obtain cash cover where g: "g = f\<lparr>fa_LiquidBalancePaise := cash, fa_InsuranceCoverPaise := cover\<rparr>"
      "0 \<le> fa_LiquidBalancePaise f" "fa_LiquidBalancePaise f \<le> cash" "fa_InsuranceCoverPaise f \<le> cover"
    using assms(1) by (auto simp: richer_def)
  show ?thesis
    using assms(2) g by (simp add: better_input_def Derive_def Let_def fund_mono protection_mono leverage_antimono
        list.rel_refl)
qed

text \<open>More cash or more insurance cover never lowers the score, in floating point.\<close>

theorem more_cash_never_hurts:
  assumes "richer f g" and "0 \<le> fa_LiabilitiesPaise f"
  shows "hr_Score300To900 (Calculate (Derive order clock f)) \<le> hr_Score300To900 (Calculate (Derive order clock g))"
  by (rule Calculate_mono, rule richer_input, fact+)

text \<open>An empty customer, and the same with cash.\<close>

definition empty_facts :: Facts where
  "empty_facts = \<lparr>fa_Now = 1, fa_LiquidBalancePaise = 0, fa_Transactions = [], fa_Investments = [], fa_Goals = [],
     fa_InsuranceCoverPaise = 0, fa_LiabilitiesPaise = 5000, fa_MonthlyEMIPaise = 0\<rparr>"

lemma more_cash_never_hurts_witness:
  "hr_Score300To900 (Calculate (Derive id 1 empty_facts)) \<le>
   hr_Score300To900 (Calculate (Derive id 1 (empty_facts\<lparr>fa_LiquidBalancePaise := 20000, fa_InsuranceCoverPaise := 0\<rparr>)))"
  by (rule more_cash_never_hurts) (auto simp: richer_def empty_facts_def)

lemma pillar_bounds: "p \<in> set (pillars i) \<Longrightarrow> 0 \<le> pi_Score p \<and> pi_Score p \<le> 100"
  by (auto simp: pillars_def liquidityScore_def ratioScore_bounds debtScore_bounds hs_clamp_bounds)

text \<open>
  C31: whatever the inputs, those derived from any facts of a customer included, the score is
  between 300 and 900, it has seven pillars, each between 0 and 100, the band is green from 750,
  amber from 550 and red below, and a customer who is at least as well off in every input, the
  history month by month, never scores lower, although every operation rounds.
\<close>

theorem health_score_in_range:
  "hr_Score300To900 (Calculate i) \<in> {300..900} \<and>
   length (hr_Pillars (Calculate i)) = 7 \<and> (\<forall>p \<in> set (hr_Pillars (Calculate i)). 0 \<le> pi_Score p \<and> pi_Score p \<le> 100) \<and>
   (hr_Band (Calculate i) = ''green'' \<longleftrightarrow> 750 \<le> hr_Score300To900 (Calculate i)) \<and>
   (hr_Band (Calculate i) = ''amber'' \<longleftrightarrow> 550 \<le> hr_Score300To900 (Calculate i) \<and> hr_Score300To900 (Calculate i) < 750) \<and>
   (hr_Band (Calculate i) = ''red'' \<longleftrightarrow> hr_Score300To900 (Calculate i) < 550) \<and>
   (better_input i j \<longrightarrow> hr_Score300To900 (Calculate i) \<le> hr_Score300To900 (Calculate j))"
proof -
  have "hr_Pillars (Calculate i) = pillars i" by (simp add: Calculate_def Let_def)
  then have "length (hr_Pillars (Calculate i)) = 7"
    "\<forall>p \<in> set (hr_Pillars (Calculate i)). 0 \<le> pi_Score p \<and> pi_Score p \<le> 100"
    using pillar_bounds [of _ i] by (simp_all add: pillars_def)
  moreover have "hr_Band (Calculate i) = (if hr_Score300To900 (Calculate i) \<ge> 750 then ''green''
      else if hr_Score300To900 (Calculate i) \<ge> 550 then ''amber'' else ''red'')"
    by (simp add: Calculate_def Let_def)
  ultimately show ?thesis using Calculate_bounds [of i] Calculate_mono [of i j] by simp
qed

theorem health_score_in_range_witness:
  "hr_Score300To900 (Calculate (Derive id 1 empty_facts)) \<le>
     hr_Score300To900 (Calculate (Derive id 1 (empty_facts\<lparr>fa_LiquidBalancePaise := 20000\<rparr>))) \<and>
   300 \<le> hr_Score300To900 (Calculate (Derive id 1 empty_facts)) \<and>
   pi_Score (hd (hr_Pillars (Calculate (Derive id 1 empty_facts)))) \<le> 100"
proof -
  have "richer empty_facts (empty_facts\<lparr>fa_LiquidBalancePaise := 20000, fa_InsuranceCoverPaise := 0\<rparr>)"
    by (auto simp: richer_def empty_facts_def)
  then have "better_input (Derive id 1 empty_facts) (Derive id 1 (empty_facts\<lparr>fa_LiquidBalancePaise := 20000\<rparr>))"
    using richer_input [of empty_facts _ id 1] by (simp add: empty_facts_def)
  moreover have "hd (hr_Pillars (Calculate (Derive id 1 empty_facts))) \<in> set (hr_Pillars (Calculate (Derive id 1 empty_facts)))"
    by (simp add: Calculate_def pillars_def Let_def)
  ultimately show ?thesis
    using health_score_in_range [of "Derive id 1 empty_facts" "Derive id 1 (empty_facts\<lparr>fa_LiquidBalancePaise := 20000\<rparr>)"]
    by auto
qed

section \<open>The window of months\<close>

text \<open>The order of the transactions does not matter.\<close>

lemma length_add_txn [simp]: "length (add_txn now bs t) = length bs"
  by (simp add: add_txn_def split: option.split)

lemma observe_commute: "observe t (observe u b) = observe u (observe t b)"
  by (simp add: observe_def Let_def i64_add_left i64_add_right ac_simps)

lemma add_txn_commute: "add_txn now (add_txn now bs t) u = add_txn now (add_txn now bs u) t"
proof -
  have "bs[i := observe t (bs ! i), j := observe u (bs[i := observe t (bs ! i)] ! j)] =
      bs[j := observe u (bs ! j), i := observe t (bs[j := observe u (bs ! j)] ! i)]" for i j
    by (cases "i < length bs"; cases "i = j") (auto simp: observe_commute list_update_swap list_update_beyond not_less)
  then show ?thesis by (auto simp: add_txn_def split: option.split)
qed

lemma buckets_any_order:
  "mset ts = mset us \<Longrightarrow> monthlyBuckets clock ts now = monthlyBuckets clock us now"
  unfolding monthlyBuckets_def Let_def foldl_conv_fold
  by (rule fun_cong [OF fold_multiset_equiv]) (auto simp: add_txn_commute fun_eq_iff)

text \<open>On the last day of March the window holds October, December twice, January and March twice: the
  payments of November and February are older than the window.\<close>

definition mar_31 :: time where "mar_31 = (days_before_month 2025 2 + 30) * (86400 * second)"

lemma window_skips_months:
  "window_keys mar_31 = [(2024, 10), (2024, 12), (2024, 12), (2025, 1), (2025, 3), (2025, 3)]"
  by code_simp

lemma february_ignored:
  assumes "month_key (tf_At t) = (2025, 2)"
  shows "add_txn mar_31 bs t = bs"
  using assms by (simp add: add_txn_def bucket_index_def window_skips_months upt_rec)

end
