(* ===== verification/CustomerViews.thy ===== *)
theory CustomerViews
  imports HealthScore PlatformOnboarding
begin

text \<open>
  What the service derives from its state and shows a customer: the health score with its facts, net worth,
  portfolio summary, dashboard, persona, security status, and the classification of a text message
  (\<open>service.go\<close>). Market values and the answer of the retrieval service are arguments.
\<close>

section \<open>Health score\<close>

definition EqualFold :: "string \<Rightarrow> string \<Rightarrow> bool" where
  "EqualFold a b \<longleftrightarrow> ToLower a = ToLower b"

definition totalLiabilityPaiseLocked :: "string \<Rightarrow> 'f Service \<Rightarrow> int" where
  "totalLiabilityPaiseLocked userID s =
     foldl (\<lambda>t l. i64 (t + lr_OutstandingPaise l)) 0 (get_list (pe_loans (sv_personal s)) userID)"

definition settled :: "Transaction \<Rightarrow> bool" where
  "settled t \<longleftrightarrow> txn_Status t = [] \<or> txn_Status t = ''success'' \<or> txn_Status t = ''completed''"

definition health_facts :: "time \<Rightarrow> string \<Rightarrow> 'f Service \<Rightarrow> Facts" where
  "health_facts now userID s =
     \<lparr>fa_Now = now, fa_LiquidBalancePaise = totalBalanceLocked userID s,
      fa_Transactions = map (\<lambda>t. \<lparr>tf_AmountPaise = txn_AmountPaise t,
          tf_Credit = EqualFold (txn_DebitCredit t) ''credit'', tf_At = txn_CreatedAt t\<rparr>)
        (filter settled (get_list (sv_transactions s) userID)),
      fa_Investments = map (\<lambda>h. \<lparr>hf_Category = ih_Category h, hf_CurrentValuePaise = ih_CurrentValuePaise h\<rparr>)
        (get_list (pe_investments (sv_personal s)) userID),
      fa_Goals = map (\<lambda>g. \<lparr>gf_SavedPaise = gl_SavedAmountPaise g, gf_TargetPaise = gl_TargetAmountPaise g,
          gf_Priority = gl_Priority g, gf_StartDate = gl_StartDate g, gf_TargetDate = gl_TargetDate g\<rparr>)
        (filter (\<lambda>g. gl_Status g = [] \<or> gl_Status g = ''active'') (get_list (sv_goals s) userID)),
      fa_InsuranceCoverPaise = foldl (\<lambda>t p. i64 (t + ip_SumAssuredPaise p)) 0
        (get_list (pe_insurance (sv_personal s)) userID),
      fa_LiabilitiesPaise = totalLiabilityPaiseLocked userID s,
      fa_MonthlyEMIPaise = foldl (\<lambda>t l. i64 (t + lr_EMIPaise l)) 0 (get_list (pe_loans (sv_personal s)) userID)\<rparr>"

text \<open>\<open>order\<close> is the order in which a loop over a map meets its keys.\<close>

type_synonym map_order = "(string \<times> int) list \<Rightarrow> (string \<times> int) list"

definition healthScoreLocked :: "map_order \<Rightarrow> time \<Rightarrow> string \<Rightarrow> 'f Service \<Rightarrow> HealthResult" where
  "healthScoreLocked order now userID s = Calculate (Derive order now (health_facts now userID s))"

definition known_user :: "string \<Rightarrow> 'f Service \<Rightarrow> 'a \<Rightarrow> onb_error + 'a" where
  "known_user userID s x = (if sv_users s userID = None then Inl OnbUserNotFound else Inr x)"

definition sv_HealthScore :: "map_order \<Rightarrow> time \<Rightarrow> string \<Rightarrow> 'f Service \<Rightarrow> onb_error + HealthResult" where
  "sv_HealthScore order now userID s = known_user userID s (healthScoreLocked order now userID s)"

section \<open>Net worth\<close>

definition totalAssetPaiseLocked :: "string \<Rightarrow> 'f Service \<Rightarrow> int" where
  "totalAssetPaiseLocked userID s =
     (let t1 = foldl (\<lambda>t a. i64 (t + ac_BalancePaise a)) 0 (get_list (sv_accounts s) userID);
          t2 = foldl (\<lambda>t h. i64 (t + ih_CurrentValuePaise h)) t1 (get_list (pe_investments (sv_personal s)) userID)
      in foldl (\<lambda>t p. i64 (t + ip_SumAssuredPaise p sdiv 20)) t2 (get_list (pe_insurance (sv_personal s)) userID))"

definition netWorthPaiseLocked :: "string \<Rightarrow> 'f Service \<Rightarrow> int" where
  "netWorthPaiseLocked userID s = i64 (totalAssetPaiseLocked userID s - totalLiabilityPaiseLocked userID s)"

record NetWorthLiability =
  nl_ID :: string
  nl_Type :: string
  nl_Description :: string
  nl_LoanAmountPaise :: int
  nl_OutstandingPaise :: int
  nl_EMIPaise :: int
  nl_InterestRate :: float64
  nl_MaturityDate :: time

record NetWorthSnapshot =
  ns_Assets :: "NetWorthAsset list"
  ns_Liabilities :: "NetWorthLiability list"
  ns_TotalAssetsPaise :: int
  ns_TotalLiabilitiesPaise :: int
  ns_NetWorthPaise :: int
  ns_TrendArrow :: string
  ns_ValuationDate :: time

definition buildNetWorthAssetsLocked :: "time \<Rightarrow> string \<Rightarrow> 'f Service \<Rightarrow> NetWorthAsset list" where
  "buildNetWorthAssetsLocked now userID s =
     get_list (pe_netWorthAssets (sv_personal s)) userID @
     map (\<lambda>a. \<lparr>nw_ID = ''sys-'' @ ac_ID a, nw_Type = ''bank_account'',
         nw_Description = ac_BankName a @ '' '' @ ac_AccountType a, nw_ValuePaise = ac_BalancePaise a,
         nw_ValuationDate = now, nw_ValuationSource = ''bank_provided''\<rparr>) (get_list (sv_accounts s) userID) @
     map (\<lambda>h. \<lparr>nw_ID = ''sys-'' @ ih_ID h, nw_Type = ih_Category h, nw_Description = ih_InstrumentName h,
         nw_ValuePaise = ih_CurrentValuePaise h, nw_ValuationDate = ih_LastValuationDate h,
         nw_ValuationSource = ''market''\<rparr>) (get_list (pe_investments (sv_personal s)) userID)"

definition buildNetWorthLiabilitiesLocked :: "time \<Rightarrow> string \<Rightarrow> 'f Service \<Rightarrow> NetWorthLiability list" where
  "buildNetWorthLiabilitiesLocked now userID s =
     map (\<lambda>l. \<lparr>nl_ID = ''sys-'' @ lr_LoanID l, nl_Type = lr_LoanType l, nl_Description = lr_Lender l,
         nl_LoanAmountPaise = lr_OutstandingPaise l, nl_OutstandingPaise = lr_OutstandingPaise l,
         nl_EMIPaise = lr_EMIPaise l, nl_InterestRate = lr_InterestRate l,
         nl_MaturityDate = AddMonths now (lr_RemainingMonths l)\<rparr>) (get_list (pe_loans (sv_personal s)) userID)"

definition sv_NetWorthSnapshot :: "time \<Rightarrow> string \<Rightarrow> 'f Service \<Rightarrow> onb_error + NetWorthSnapshot" where
  "sv_NetWorthSnapshot now userID s =
     known_user userID s
       (let assets = buildNetWorthAssetsLocked now userID s; liabilities = buildNetWorthLiabilitiesLocked now userID s;
            totalA = foldl (\<lambda>t a. i64 (t + nw_ValuePaise a)) 0 assets;
            totalL = foldl (\<lambda>t l. i64 (t + nl_OutstandingPaise l)) 0 liabilities
        in \<lparr>ns_Assets = assets, ns_Liabilities = liabilities, ns_TotalAssetsPaise = totalA,
            ns_TotalLiabilitiesPaise = totalL, ns_NetWorthPaise = i64 (totalA - totalL),
            ns_TrendArrow = (if totalA < totalL then ''down'' else if totalA = totalL then ''flat'' else ''up''),
            ns_ValuationDate = now\<rparr>)"

record Portfolio =
  po_assetsPaise :: int
  po_liabilityPaise :: int
  po_netWorthPaise :: int
  po_assetLiabilityRatio :: rat
  po_healthScore :: HealthResult

definition PortfolioSummary :: "map_order \<Rightarrow> time \<Rightarrow> string \<Rightarrow> 'f Service \<Rightarrow> onb_error + Portfolio" where
  "PortfolioSummary order now userID s =
     known_user userID s
       (let assets = totalAssetPaiseLocked userID s; liability = totalLiabilityPaiseLocked userID s
        in \<lparr>po_assetsPaise = assets, po_liabilityPaise = liability, po_netWorthPaise = i64 (assets - liability),
            po_assetLiabilityRatio =
              (if liability > 0 then fl (fl (of_int assets) / fl (of_int liability)) else 0),
            po_healthScore = healthScoreLocked order now userID s\<rparr>)"

definition Investments :: "string \<Rightarrow> 'f Service \<Rightarrow> onb_error + InvestmentHolding list" where
  "Investments userID s = known_user userID s (get_list (pe_investments (sv_personal s)) userID)"

definition Insurance :: "string \<Rightarrow> 'f Service \<Rightarrow> onb_error + InsurancePolicy list" where
  "Insurance userID s = known_user userID s (get_list (pe_insurance (sv_personal s)) userID)"

definition Loans :: "string \<Rightarrow> 'f Service \<Rightarrow> onb_error + LoanRecord list" where
  "Loans userID s = known_user userID s (get_list (pe_loans (sv_personal s)) userID)"

section \<open>Dashboard, persona, security\<close>

record MarketSnapshot =
  ms_Sensex :: rat
  ms_NiftyChangePercent :: rat
  ms_GoldPer10g :: rat

record DashboardResponse =
  db_Greeting :: string
  db_NetWorthPaise :: int
  db_WeekDeltaPaise :: int
  db_HealthScore :: int
  db_RiskBand :: string
  db_MarketSensex :: rat
  db_MarketGoldPer10g :: rat
  db_FreezeActive :: bool

definition Dashboard ::
  "map_order \<Rightarrow> MarketSnapshot \<Rightarrow> time \<Rightarrow> string \<Rightarrow> 'f Service \<Rightarrow> onb_error + DashboardResponse" where
  "Dashboard order market now userID s =
     (case sv_users s userID of None \<Rightarrow> Inl OnbUserNotFound
      | Some user \<Rightarrow>
          let netWorth = netWorthPaiseLocked userID s; health = healthScoreLocked order now userID s
          in Inr \<lparr>db_Greeting = ''Good morning, '' @ us_Name user, db_NetWorthPaise = netWorth,
               db_WeekDeltaPaise = int_of_float (fl (fl (of_int netWorth) * fl (12 / 1000))),
               db_HealthScore = hr_Score300To900 health, db_RiskBand = hr_Band health,
               db_MarketSensex = ms_Sensex market, db_MarketGoldPer10g = ms_GoldPer10g market,
               db_FreezeActive = (sv_freezeState s userID = Some True)\<rparr>)"

text \<open>The equity exposure moved by today's change of the index.\<close>

definition portfolio_impact :: "MarketSnapshot \<Rightarrow> string \<Rightarrow> 'f Service \<Rightarrow> int" where
  "portfolio_impact market userID s =
     (let equity = foldl (\<lambda>t h. if EqualFold (ih_Category h) ''equity'' \<or> EqualFold (ih_Category h) ''mutual_fund''
            then i64 (t + ih_CurrentValuePaise h) else t) 0 (get_list (pe_investments (sv_personal s)) userID)
      in int_of_float (fl (fl (fl (of_int equity) * ms_NiftyChangePercent market) / 100)))"

definition detectPersonaLocked :: "string \<Rightarrow> 'f Service \<Rightarrow> string" where
  "detectPersonaLocked userID s =
     (if length (get_list (pe_investments (sv_personal s)) userID) > 5 then ''Active Investor''
      else if length (get_list (sv_transactions s) userID) > 20 then ''Life-Event Driven''
      else ''Cautious Saver'')"

record PersonaResponse =
  pr_Persona :: string
  pr_Explanation :: string
  pr_ContestRoute :: string
  pr_Traits :: "string list"
  pr_Confidence :: rat

definition persona_response :: "string \<Rightarrow> string \<Rightarrow> string list \<Rightarrow> rat \<Rightarrow> PersonaResponse" where
  "persona_response persona explanation traits confidence =
     \<lparr>pr_Persona = persona, pr_Explanation = explanation, pr_ContestRoute = ''/v1/insights/persona/contest'',
      pr_Traits = traits, pr_Confidence = confidence\<rparr>"

definition Persona :: "string \<Rightarrow> 'f Service \<Rightarrow> onb_error + PersonaResponse" where
  "Persona userID s =
     known_user userID s
       (if length (get_list (pe_investments (sv_personal s)) userID) > 5 then
          persona_response ''Active Investor''
            ''Your holding diversity and order frequency indicate active portfolio management.''
            [''active_trader'', ''high_risk_tolerance'', ''diversified''] (fl (85 / 100))
        else if length (get_list (sv_transactions s) userID) > 20 then
          persona_response ''Life-Event Driven''
            ''Your transaction and goal activity clusters around milestone spending windows.''
            [''milestone_focused'', ''moderate_risk_tolerance'', ''event_driven''] (fl (82 / 100))
        else
          persona_response (detectPersonaLocked userID s)
            ''You consistently preserve liquidity and prefer lower-volatility instruments.''
            [''low_risk_tolerance'', ''consistent_saver'', ''liquidity_focused''] (fl (78 / 100)))"

record SecurityHealth =
  sh_BiometricLock :: bool
  sh_DeviceBinding :: bool
  sh_SIMBinding :: bool
  sh_TransactionMonitoring :: bool
  sh_SMSScannerEnabled :: bool
  sh_AntiPhishingContacts :: bool
  sh_AccountFrozen :: bool

definition SecurityStatus :: "string \<Rightarrow> 'f Service \<Rightarrow> onb_error + SecurityHealth" where
  "SecurityStatus userID s =
     (case sv_users s userID of None \<Rightarrow> Inl OnbUserNotFound
      | Some user \<Rightarrow> Inr \<lparr>sh_BiometricLock = us_BiometricEnabled user, sh_DeviceBinding = us_DeviceBound user,
          sh_SIMBinding = us_SIMBound user, sh_TransactionMonitoring = True,
          sh_SMSScannerEnabled =
            (case pe_consents (sv_personal s) userID of None \<Rightarrow> False | Some m \<Rightarrow> m ''sms_scanning'' = Some True),
          sh_AntiPhishingContacts = True, sh_AccountFrozen = (sv_freezeState s userID = Some True)\<rparr>)"

section \<open>Text messages\<close>

text \<open>The pattern \<open>https?://[^\s]+\<close>, leftmost matches that do not overlap.\<close>

definition re_space :: "char \<Rightarrow> bool" where
  "re_space c \<longleftrightarrow> (let n = (of_char c :: nat) in n = 9 \<or> n = 10 \<or> n = 12 \<or> n = 13 \<or> n = 32)"

definition HasPrefix :: "string \<Rightarrow> string \<Rightarrow> bool" where
  "HasPrefix s p \<longleftrightarrow> take (length p) s = p"

definition url_at :: "string \<Rightarrow> string option" where
  "url_at s =
     (let n = (if HasPrefix s ''https://'' then 8 else if HasPrefix s ''http://'' then 7 else 0);
          rest = takeWhile (\<lambda>c. \<not> re_space c) (drop n s)
      in if n = 0 \<or> rest = [] then None else Some (take n s @ rest))"

lemma url_at_nonempty: "url_at s = Some u \<Longrightarrow> u \<noteq> []"
  by (auto simp: url_at_def Let_def split: if_splits)

function FindURLs :: "string \<Rightarrow> string list" where
  "FindURLs [] = []"
| "FindURLs (c # cs) =
     (case url_at (c # cs) of None \<Rightarrow> FindURLs cs | Some u \<Rightarrow> u # FindURLs (drop (length u) (c # cs)))"
  by pat_completeness auto
termination by (relation "measure length") (auto dest: url_at_nonempty)

text \<open>The labels of the addresses and the verdict, for a sender in lower case.\<close>

definition judge_url :: "string \<Rightarrow> string list \<times> string \<Rightarrow> string \<Rightarrow> string list \<times> string" where
  "judge_url sender acc u =
     (if contains u ''bit.ly'' \<or> contains u ''tinyurl'' \<or> contains u ''shorturl''
      then (fst acc @ [''short_url_'' @ u], ''malicious'')
      else if (contains u ''bank'' \<or> contains u ''upi'' \<or> contains u ''sbi'' \<or> contains u ''hdfc'') \<and> \<not> contains u sender
      then (fst acc @ [''spoofed_bank_url_'' @ u], ''malicious'')
      else acc)"

definition judge_urls :: "string \<Rightarrow> string list \<Rightarrow> string list \<times> string" where
  "judge_urls sender urls = foldl (judge_url sender) ([], if urls = [] then ''none'' else ''suspicious'') urls"

definition asks_otp :: "string \<Rightarrow> bool" where
  "asks_otp m \<longleftrightarrow> contains m ''share otp'' \<or> contains m ''share your otp'' \<or> contains m ''otp share''"

definition asks_pin :: "string \<Rightarrow> bool" where
  "asks_pin m \<longleftrightarrow> contains m ''upi pin'' \<or> contains m ''internet banking pin'' \<or> contains m ''net banking pin''"

definition urges :: "string \<Rightarrow> bool" where
  "urges m \<longleftrightarrow> contains m ''immediately click'' \<or> contains m ''click immediately'' \<or> contains m ''action required''"

record sms_verdict =
  sms_badge :: string
  sms_reason :: string
  sms_indicators :: "string list"
  sms_url :: string

text \<open>A dash in a text is three bytes of UTF-8.\<close>

definition dash :: string where "dash = [CHR 0xE2, CHR 0x80, CHR 0x94]"

definition classify_sms :: "string \<Rightarrow> string \<Rightarrow> sms_verdict" where
  "classify_sms from text =
     (let sender = ToUpper (TrimSpace from); message = ToLower text; urls = FindURLs message;
          (found, urlResult) = judge_urls (ToLower sender) urls
      in if asks_otp message then
           \<lparr>sms_badge = ''red'', sms_reason = ''Message requests OTP sharing '' @ dash @
              '' no legitimate bank asks for OTP sharing outside official flow.'',
            sms_indicators = found @ [''otp_solicitation''], sms_url = urlResult\<rparr>
         else if asks_pin message then
           \<lparr>sms_badge = ''red'', sms_reason = ''Message requests banking PIN '' @ dash @
              '' this is a hallmark of credential theft.'',
            sms_indicators = found @ [''pin_solicitation''], sms_url = urlResult\<rparr>
         else if urges message then
           \<lparr>sms_badge = ''amber'',
            sms_reason = ''Urgency language detected. Verify independently before clicking any links.'',
            sms_indicators = found @ [''urgency_social_engineering''], sms_url = urlResult\<rparr>
         else if HasPrefix sender ''+91'' \<or> (urls \<noteq> [] \<and> urlResult = ''malicious'') then
           \<lparr>sms_badge = ''red'',
            sms_reason = ''Bank impersonation signal detected from non-bank sender or malicious URL.'',
            sms_indicators = found @ [''non_bank_sender_format''], sms_url = urlResult\<rparr>
         else if \<not> HasPrefix sender ''VK-'' \<and> \<not> HasPrefix sender ''VM-'' then
           \<lparr>sms_badge = ''amber'',
            sms_reason = ''Sender not matched in RBI-style bank sender pattern. Use caution before acting.'',
            sms_indicators = found @ [''unregistered_sender''], sms_url = urlResult\<rparr>
         else
           \<lparr>sms_badge = ''green'', sms_reason = ''Sender and template match known safe banking patterns.'',
            sms_indicators = found, sms_url = urlResult\<rparr>)"

record rag_answer =
  ra_Badge :: string
  ra_Confidence :: rat
  ra_Reason :: string
  ra_Indicators :: "string list"

text \<open>The retrieval service overrules the local verdict when it is sure enough.\<close>

definition rag_override :: "rag_answer option \<Rightarrow> sms_verdict \<Rightarrow> sms_verdict" where
  "rag_override answer v =
     (case answer of None \<Rightarrow> v
      | Some a \<Rightarrow>
          if ra_Confidence a \<ge> fl (85 / 100)
          then \<lparr>sms_badge = ra_Badge a, sms_reason = ra_Reason a, sms_indicators = ra_Indicators a,
                sms_url = (if ra_Indicators a = [] then sms_url v else hd (ra_Indicators a))\<rparr>
          else v)"

datatype sms_error = SmsUserNotFound | SenderAndMessageRequired

record SMSScanResult =
  sr_verdict :: sms_verdict
  sr_DeviceTrustScore :: rat
  sr_RegisteredDeviceID :: string
  sr_TrustedDevice :: bool
  sr_HashChainVerified :: bool

definition ScanSMS ::
  "sv_env \<Rightarrow> (string \<Rightarrow> string \<Rightarrow> rag_answer option) \<Rightarrow> time \<Rightarrow> string \<Rightarrow> string \<Rightarrow> string \<Rightarrow> 'f Service
     \<Rightarrow> (sms_error + SMSScanResult) \<times> 'f Service" where
  "ScanSMS env rag now userID sender message s =
     (case sv_users s userID of None \<Rightarrow> (Inl SmsUserNotFound, s)
      | Some u \<Rightarrow>
          if TrimSpace sender = [] \<or> TrimSpace message = [] then (Inl SenderAndMessageRequired, s)
          else
            let hc = fst (VerifyIntegrity (env_H env) (sv_ledger s));
                v = classify_sms sender message;
                s1 = appendAudit env now userID ''sms_scanned'' ''security'' (sms_badge v)
                       (''SMS fraud classification: '' @ sms_reason v) ''AI'' s;
                s2 = ledger_write env now userID ''sms_scanned'' ''security''
                       (PFields ([(''badge'', sms_badge v), (''reason'', sms_reason v)] @
                          map (\<lambda>i. (''indicators'', i)) (sms_indicators v))) s1
            in (Inr \<lparr>sr_verdict = rag_override (rag sender message) v,
                  sr_DeviceTrustScore = (if us_DeviceBound u then fl (85 / 100) else fl (25 / 100)),
                  sr_RegisteredDeviceID = shortenFingerprint (env_H env) (us_ID u @ '':device''),
                  sr_TrustedDevice = us_DeviceBound u, sr_HashChainVerified = hc\<rparr>, s2))"

section \<open>The two net worths\<close>

lemma i64_add_cong: "i64 a = i64 a' \<Longrightarrow> i64 (a + c) = i64 (a' + c)"
  by (metis i64_add_left)

lemma foldl_i64: "i64 (foldl (\<lambda>t a. i64 (t + f a)) t xs) = i64 (t + (\<Sum>a\<leftarrow>xs. f a))"
proof (induction xs arbitrary: t)
  case (Cons x xs)
  then show ?case using i64_add_left [of "t + f x"] by (simp add: add.assoc)
qed simp

lemma foldl_i64_add: "i64 (foldl (\<lambda>t a. i64 (t + f a)) t xs + c) = i64 (t + ((\<Sum>a\<leftarrow>xs. f a) + c))"
  using i64_add_cong [OF foldl_i64] by (simp add: add.assoc)

definition own_assets :: "string \<Rightarrow> 'f Service \<Rightarrow> int" where
  "own_assets userID s = (\<Sum>a\<leftarrow>get_list (pe_netWorthAssets (sv_personal s)) userID. nw_ValuePaise a)"

definition cover_twentieths :: "string \<Rightarrow> 'f Service \<Rightarrow> int" where
  "cover_twentieths userID s = (\<Sum>p\<leftarrow>get_list (pe_insurance (sv_personal s)) userID. ip_SumAssuredPaise p sdiv 20)"

definition market_assets :: "string \<Rightarrow> 'f Service \<Rightarrow> int" where
  "market_assets userID s = (\<Sum>a\<leftarrow>get_list (sv_accounts s) userID. ac_BalancePaise a) +
     (\<Sum>h\<leftarrow>get_list (pe_investments (sv_personal s)) userID. ih_CurrentValuePaise h)"

definition debts :: "string \<Rightarrow> 'f Service \<Rightarrow> int" where
  "debts userID s = (\<Sum>l\<leftarrow>get_list (pe_loans (sv_personal s)) userID. lr_OutstandingPaise l)"

lemma i64_diff_cong: "i64 a = i64 a' \<Longrightarrow> i64 b = i64 b' \<Longrightarrow> i64 (a - b) = i64 (a' - b')"
  unfolding i64_cong_iff by (rule mod_diff_cong)

lemma totals:
  "i64 (totalAssetPaiseLocked u s) = i64 (market_assets u s + cover_twentieths u s)"
  "i64 (totalLiabilityPaiseLocked u s) = i64 (debts u s)"
  by (simp_all only: totalAssetPaiseLocked_def totalLiabilityPaiseLocked_def Let_def foldl_i64 foldl_i64_add
      market_assets_def cover_twentieths_def debts_def add.assoc add_0)

lemma netWorth_total: "netWorthPaiseLocked u s = i64 (market_assets u s + cover_twentieths u s - debts u s)"
  unfolding netWorthPaiseLocked_def by (rule i64_diff_cong [OF totals])

lemma snapshot_total:
  "sv_NetWorthSnapshot now u s = Inr n \<Longrightarrow> ns_NetWorthPaise n = i64 (own_assets u s + market_assets u s - debts u s)"
proof -
  assume "sv_NetWorthSnapshot now u s = Inr n"
  then have "ns_NetWorthPaise n = i64 (foldl (\<lambda>t a. i64 (t + nw_ValuePaise a)) 0 (buildNetWorthAssetsLocked now u s) -
      foldl (\<lambda>t l. i64 (t + nl_OutstandingPaise l)) 0 (buildNetWorthLiabilitiesLocked now u s))"
    by (auto simp: sv_NetWorthSnapshot_def known_user_def Let_def split: if_splits)
  also have "\<dots> = i64 (own_assets u s + market_assets u s - debts u s)"
    by (rule i64_diff_cong)
      (simp_all add: foldl_i64 foldl_i64_add buildNetWorthAssetsLocked_def buildNetWorthLiabilitiesLocked_def
        own_assets_def market_assets_def debts_def comp_def add.assoc)
  finally show ?thesis .
qed

text \<open>The two screens that show a net worth disagree by what the customer entered by hand and a twentieth
  of the insurance cover, exactly: the snapshot counts the one and the summary, with the dashboard, the other.\<close>

theorem net_worth_screens_disagree:
  assumes "sv_NetWorthSnapshot now u s = Inr n" and "PortfolioSummary order now' u s = Inr p"
    and "Dashboard order' market now'' u s = Inr d"
  shows "db_NetWorthPaise d = po_netWorthPaise p \<and>
    i64 (ns_NetWorthPaise n - po_netWorthPaise p) = i64 (own_assets u s - cover_twentieths u s)"
proof -
  have p: "po_netWorthPaise p = netWorthPaiseLocked u s" "db_NetWorthPaise d = netWorthPaiseLocked u s"
    using assms(2,3) by (auto simp: PortfolioSummary_def Dashboard_def known_user_def Let_def netWorthPaiseLocked_def
        split: if_splits option.splits)
  have "i64 (ns_NetWorthPaise n - po_netWorthPaise p) =
      i64 (own_assets u s + market_assets u s - debts u s - (market_assets u s + cover_twentieths u s - debts u s))"
    unfolding p netWorth_total snapshot_total [OF assms(1)] by (rule i64_diff_cong) (simp_all add: is_i64_i64 i64_id)
  with p show ?thesis by simp
qed

text \<open>A customer with a ring of 70 paise and a policy of 2000 paise.\<close>

definition view_service :: "unit Service" where
  "view_service = demo_service\<lparr>sv_personal := fresh_personal\<lparr>
     pe_netWorthAssets := [''u1'' \<mapsto> [\<lparr>nw_ID = ''a1'', nw_Type = ''gold'', nw_Description = ''ring'',
       nw_ValuePaise = 70, nw_ValuationDate = 0, nw_ValuationSource = ''self''\<rparr>]],
     pe_insurance := [''u1'' \<mapsto> [\<lparr>ip_PolicyID = ''p1'', ip_PolicyType = ''term_life'', ip_Insurer = ''LIC'',
       ip_SumAssuredPaise = 2000, ip_PremiumPaise = 10, ip_NextDueDate = []\<rparr>]]\<rparr>\<rparr>"

lemma net_worth_screens_disagree_witness:
  "\<exists>n p. sv_NetWorthSnapshot 1 ''u1'' view_service = Inr n \<and> PortfolioSummary id 1 ''u1'' view_service = Inr p \<and>
     i64 (ns_NetWorthPaise n - po_netWorthPaise p) = - 30"
proof -
  have u: "sv_users view_service ''u1'' = Some demo_user" by (simp add: view_service_def demo_service_def)
  then obtain n p d where r: "sv_NetWorthSnapshot 1 ''u1'' view_service = Inr n"
      "PortfolioSummary id 1 ''u1'' view_service = Inr p"
      "Dashboard id \<lparr>ms_Sensex = 0, ms_NiftyChangePercent = 0, ms_GoldPer10g = 0\<rparr> 1 ''u1'' view_service = Inr d"
    by (simp add: sv_NetWorthSnapshot_def PortfolioSummary_def Dashboard_def known_user_def Let_def)
  have "own_assets ''u1'' view_service - cover_twentieths ''u1'' view_service = - 30"
    by (simp add: own_assets_def cover_twentieths_def view_service_def get_list_def signed_divide_int_def)
  moreover have "i64 (- 30) = - 30" by (simp add: i64_id is_i64_def)
  ultimately show ?thesis using net_worth_screens_disagree [OF r] r by auto
qed

section \<open>What a badge says\<close>

definition bad_url :: "string \<Rightarrow> string \<Rightarrow> bool" where
  "bad_url sender u \<longleftrightarrow> contains u ''bit.ly'' \<or> contains u ''tinyurl'' \<or> contains u ''shorturl'' \<or>
     (contains u ''bank'' \<or> contains u ''upi'' \<or> contains u ''sbi'' \<or> contains u ''hdfc'') \<and> \<not> contains u sender"

lemma judge_malicious:
  "snd (foldl (judge_url sender) acc urls) = ''malicious'' \<longleftrightarrow>
   snd acc = ''malicious'' \<or> (\<exists>u \<in> set urls. bad_url sender u)"
  by (induction urls arbitrary: acc) (auto simp: judge_url_def bad_url_def)

definition lures :: "string \<Rightarrow> string \<Rightarrow> bool" where
  "lures from text \<longleftrightarrow> HasPrefix (ToUpper (TrimSpace from)) ''+91'' \<or>
     (\<exists>u \<in> set (FindURLs (ToLower text)). bad_url (ToLower (ToUpper (TrimSpace from))) u)"

lemma classify_badge:
  "sms_badge (classify_sms from text) =
     (let m = ToLower text; sender = ToUpper (TrimSpace from) in
      if asks_otp m \<or> asks_pin m then ''red'' else if urges m then ''amber'' else if lures from text then ''red''
      else if HasPrefix sender ''VK-'' \<or> HasPrefix sender ''VM-'' then ''green'' else ''amber'')"
proof -
  obtain found verdict where j: "judge_urls (ToLower (ToUpper (TrimSpace from))) (FindURLs (ToLower text)) = (found, verdict)"
    by fastforce
  have "snd (judge_urls sender urls) = ''malicious'' \<longleftrightarrow> (\<exists>u \<in> set urls. bad_url sender u)" for sender urls
    unfolding judge_urls_def judge_malicious by simp
  from this [of "ToLower (ToUpper (TrimSpace from))" "FindURLs (ToLower text)"]
  have "FindURLs (ToLower text) \<noteq> [] \<and> verdict = ''malicious'' \<longleftrightarrow>
      (\<exists>u \<in> set (FindURLs (ToLower text)). bad_url (ToLower (ToUpper (TrimSpace from))) u)"
    unfolding j by auto
  then show ?thesis unfolding classify_sms_def Let_def lures_def j prod.case by simp
qed

text \<open>The badge of a message that no retrieval service overrules. A request for a code or a PIN is red
  and green is left to a registered sender with no lure; but wording that urges is always amber, also where
  the address in it would be red without the wording.\<close>

theorem sms_badge_meaning:
  "(sms_badge (classify_sms from text) = ''green'' \<longleftrightarrow>
      \<not> asks_otp (ToLower text) \<and> \<not> asks_pin (ToLower text) \<and> \<not> urges (ToLower text) \<and> \<not> lures from text \<and>
      (HasPrefix (ToUpper (TrimSpace from)) ''VK-'' \<or> HasPrefix (ToUpper (TrimSpace from)) ''VM-'')) \<and>
   (sms_badge (classify_sms from text) = ''red'' \<longleftrightarrow>
      asks_otp (ToLower text) \<or> asks_pin (ToLower text) \<or> \<not> urges (ToLower text) \<and> lures from text)"
  unfolding classify_badge Let_def by simp

text \<open>The same link, red without the urgent words and amber with them.\<close>

theorem urgency_hides_the_link:
  "sms_badge (classify_sms ''VK-SBI'' ''go to http://bit.ly/x'') = ''red'' \<and>
   sms_badge (classify_sms ''VK-SBI'' ''Action required: go to http://bit.ly/x'') = ''amber''"
  by code_simp

end
