(* ===== verification/DebtEngine.thy ===== *)
theory DebtEngine
  imports FloatArith
begin

text \<open>
  The loan mathematics of \<open>domain/debt\<close> (\<open>amortisation.go\<close>, \<open>optimise.go\<close>): instalments, the
  amortisation table, prepayments, foreclosure, the two payoff strategies and the repricing of a
  floating loan. Money is \<open>int64\<close> paise, rates are \<open>float64\<close>. The explanation texts of \<open>xai.go\<close> are
  left out, and the natural logarithm of \<open>SolveTenure\<close> is a parameter. A loop over months counts up
  to its bound; the lemmas show what it reaches before that.
\<close>

section \<open>Amortisation\<close>

record Row =
  rw_Month :: int
  rw_InterestPaise :: int
  rw_PrincipalPaise :: int
  rw_BalancePaise :: int

definition monthlyRate :: "float64 \<Rightarrow> float64" where
  "monthlyRate annualRatePct = fdiv (fdiv annualRatePct (Fin 12)) (Fin 100)"

definition roundPaise :: "float64 \<Rightarrow> int" where
  "roundPaise f = (case f of Fin x \<Rightarrow> to_int64 (round_away x) | _ \<Rightarrow> 0)"

definition EMI :: "int \<Rightarrow> float64 \<Rightarrow> int \<Rightarrow> int" where
  "EMI principalPaise annualRatePct months =
     (if months \<le> 0 \<or> principalPaise \<le> 0 then 0
      else
        let r = monthlyRate annualRatePct; p = of_int64 principalPaise in
        if feq r (Fin 0) then roundPaise (fdiv p (of_int64 months))
        else
          let pow = Pow (fadd (Fin 1) r) (nat (\<lfloor>fl (of_int months)\<rfloor>))
          in roundPaise (fdiv (fmul (fmul p r) pow) (fsub pow (Fin 1))))"

text \<open>The interest of one month on a balance.\<close>

definition interest_on :: "float64 \<Rightarrow> int \<Rightarrow> int" where
  "interest_on r balance = roundPaise (fmul (of_int64 balance) r)"

function schedule_loop :: "float64 \<Rightarrow> int \<Rightarrow> int \<Rightarrow> int \<Rightarrow> int \<Rightarrow> Row list" where
  "schedule_loop r emi months k balance =
     (if k \<le> months \<and> balance > 0 then
        let interest = interest_on r balance;
            principal0 = i64 (emi - interest);
            principal = (if k = months \<or> principal0 \<ge> balance then balance else principal0);
            balance' = i64 (balance - principal)
        in \<lparr>rw_Month = k, rw_InterestPaise = interest, rw_PrincipalPaise = principal,
             rw_BalancePaise = balance'\<rparr> # schedule_loop r emi months (k + 1) balance'
      else [])"
  by pat_completeness auto

termination schedule_loop
  by (relation "measure (\<lambda>(r, emi, months, k, balance). nat (months + 1 - k))") auto

declare schedule_loop.simps [simp del]

definition Schedule :: "int \<Rightarrow> float64 \<Rightarrow> int \<Rightarrow> Row list" where
  "Schedule principalPaise annualRatePct months =
     (if months \<le> 0 \<or> principalPaise \<le> 0 then []
      else
        let emi = EMI principalPaise annualRatePct months; r = monthlyRate annualRatePct in
        if emi \<le> 0 then []
        else if flt (Fin 0) r \<and> emi \<le> interest_on r principalPaise then []
        else schedule_loop r emi months 1 principalPaise)"

definition TotalInterest :: "Row list \<Rightarrow> int" where
  "TotalInterest rows = foldl (\<lambda>t row. i64 (t + rw_InterestPaise row)) 0 rows"

definition TotalPrincipal :: "Row list \<Rightarrow> int" where
  "TotalPrincipal rows = foldl (\<lambda>t row. i64 (t + rw_PrincipalPaise row)) 0 rows"

text \<open>\<open>int(math.Ceil(x))\<close>.\<close>

definition int_ceil :: "float64 \<Rightarrow> int" where
  "int_ceil x = (case x of Fin a \<Rightarrow> to_int64 \<lceil>a\<rceil> | _ \<Rightarrow> - (2 ^ 63))"

definition SolveTenure :: "(float64 \<Rightarrow> float64) \<Rightarrow> int \<Rightarrow> float64 \<Rightarrow> int \<Rightarrow> int" where
  "SolveTenure logn principalPaise annualRatePct emiPaise =
     (if principalPaise \<le> 0 \<or> emiPaise \<le> 0 then 0
      else
        let r = monthlyRate annualRatePct; p = of_int64 principalPaise; e = of_int64 emiPaise in
        if feq r (Fin 0) then int_ceil (fdiv p e)
        else if fle e (fmul p r) then 0
        else
          let n = fdiv (fneg (logn (fsub (Fin 1) (fdiv (fmul p r) e)))) (logn (fadd (Fin 1) r)) in
          (case n of Fin a \<Rightarrow> if a \<le> 0 then 0 else int_ceil n | _ \<Rightarrow> 0))"

section \<open>Prepayment\<close>

record Loan =
  ln_ID :: string
  ln_PrincipalPaise :: int
  ln_AnnualRatePct :: float64
  ln_Months :: int
  ln_EMIPaise :: int
  ln_Floating :: bool
  ln_LoanType :: string

definition loan_emi :: "Loan \<Rightarrow> int" where
  "loan_emi l = (if ln_EMIPaise l > 0 then ln_EMIPaise l
                 else EMI (ln_PrincipalPaise l) (ln_AnnualRatePct l) (ln_Months l))"

definition monthCap :: int where "monthCap = 1200"

function prepay_loop :: "float64 \<Rightarrow> int \<Rightarrow> (int \<Rightarrow> int option) \<Rightarrow> int \<Rightarrow> int \<Rightarrow> Row list" where
  "prepay_loop r emi prepayments k balance =
     (if k \<le> monthCap \<and> balance > 0 then
        let extra = (case prepayments k of
                       Some x \<Rightarrow> if x > 0 then (if x > balance then balance else x) else 0
                     | None \<Rightarrow> 0);
            balance1 = balance - extra
        in if extra > 0 \<and> balance1 = 0
           then [\<lparr>rw_Month = k, rw_InterestPaise = 0, rw_PrincipalPaise = extra, rw_BalancePaise = 0\<rparr>]
           else
             let interest = interest_on r balance1; principal0 = i64 (emi - interest) in
             if principal0 \<le> 0 then []
             else
               let principal = (if principal0 \<ge> balance1 then balance1 else principal0);
                   balance' = balance1 - principal
               in \<lparr>rw_Month = k, rw_InterestPaise = interest, rw_PrincipalPaise = principal,
                    rw_BalancePaise = balance'\<rparr> # prepay_loop r emi prepayments (k + 1) balance'
      else [])"
  by pat_completeness auto

termination prepay_loop
  by (relation "measure (\<lambda>(r, emi, prepayments, k, balance). nat (monthCap + 1 - k))") auto

declare prepay_loop.simps [simp del]

definition prepaySchedule :: "int \<Rightarrow> float64 \<Rightarrow> int \<Rightarrow> (int \<Rightarrow> int option) \<Rightarrow> Row list" where
  "prepaySchedule principalPaise annualRatePct emiPaise prepayments =
     (if principalPaise \<le> 0 \<or> emiPaise \<le> 0 then []
      else prepay_loop (monthlyRate annualRatePct) emiPaise prepayments 1 principalPaise)"

definition scheduleConverged :: "Row list \<Rightarrow> bool" where
  "scheduleConverged rows \<longleftrightarrow> (if rows = [] then True else rw_BalancePaise (last rows) = 0)"

record PrepaymentResult =
  pp_InterestSavedPaise :: int
  pp_TenureReducedMonths :: int
  pp_BaselineMonths :: int
  pp_NewMonths :: int
  pp_BaselineInterest :: int
  pp_NewInterest :: int
  pp_Converged :: bool

definition PrepaymentImpact :: "Loan \<Rightarrow> int \<Rightarrow> int \<Rightarrow> PrepaymentResult" where
  "PrepaymentImpact loan extraPaise extraMonth0 =
     (let emi = loan_emi loan;
          extraMonth = (if extraMonth0 < 1 then 1 else extraMonth0);
          base = prepaySchedule (ln_PrincipalPaise loan) (ln_AnnualRatePct loan) emi (\<lambda>_. None);
          prepay = prepaySchedule (ln_PrincipalPaise loan) (ln_AnnualRatePct loan) emi [extraMonth \<mapsto> extraPaise];
          baseInt = TotalInterest base;
          newInt = TotalInterest prepay;
          saved = i64 (baseInt - newInt);
          reduced = int (length base) - int (length prepay)
      in \<lparr>pp_InterestSavedPaise = (if saved < 0 then 0 else saved),
          pp_TenureReducedMonths = (if reduced < 0 then 0 else reduced),
          pp_BaselineMonths = int (length base), pp_NewMonths = int (length prepay),
          pp_BaselineInterest = baseInt, pp_NewInterest = newInt,
          pp_Converged = (scheduleConverged base \<and> scheduleConverged prepay)\<rparr>)"

section \<open>Foreclosure and repricing\<close>

record ForeclosureParams =
  fp_FixedRateLenderPenaltyRate :: float64
  fp_ExpectedInvestmentReturn :: float64
  fp_RepoTransmissionFactor :: float64

definition isIndividualRetail :: "string \<Rightarrow> bool" where
  "isIndividualRetail loanType \<longleftrightarrow> loanType \<notin> {''business'', ''commercial'', ''sme'', ''msme''}"

definition ForeclosurePenaltyRate :: "string \<Rightarrow> bool \<Rightarrow> ForeclosureParams \<Rightarrow> float64" where
  "ForeclosurePenaltyRate loanType floating p =
     (if floating \<and> isIndividualRetail loanType then Fin 0 else fp_FixedRateLenderPenaltyRate p)"

record ForeclosureResult =
  fo_HasPenalty :: bool
  fo_PenaltyRate :: float64
  fo_PenaltyAmountPaise :: int
  fo_RemainingInterestPaise :: int
  fo_OpportunityCostPaise :: int
  fo_NetBenefitPaise :: int
  fo_Recommended :: bool

definition ForeclosureDecision :: "Loan \<Rightarrow> int \<Rightarrow> ForeclosureParams \<Rightarrow> ForeclosureResult" where
  "ForeclosureDecision loan amountUsedPaise p =
     (let penaltyRate = ForeclosurePenaltyRate (ln_LoanType loan) (ln_Floating loan) p;
          penalty = roundPaise (fmul (of_int64 (ln_PrincipalPaise loan)) penaltyRate);
          remainingInterest = TotalInterest
            (Schedule (ln_PrincipalPaise loan) (ln_AnnualRatePct loan) (ln_Months loan));
          loanRate = fdiv (ln_AnnualRatePct loan) (Fin 100);
          remainingYears = fdiv (of_int64 (ln_Months loan)) (Fin 12);
          opportunityCost = roundPaise (fmul (fmul (of_int64 amountUsedPaise)
            (fsub (fp_ExpectedInvestmentReturn p) loanRate)) remainingYears);
          netBenefit = i64 (i64 (remainingInterest - penalty) - opportunityCost)
      in \<lparr>fo_HasPenalty = flt (Fin 0) penaltyRate, fo_PenaltyRate = penaltyRate,
          fo_PenaltyAmountPaise = penalty, fo_RemainingInterestPaise = remainingInterest,
          fo_OpportunityCostPaise = opportunityCost, fo_NetBenefitPaise = netBenefit,
          fo_Recommended = (netBenefit \<ge> 0)\<rparr>)"

record RepoResult =
  rp_OldRatePct :: float64
  rp_NewRatePct :: float64
  rp_OldEMIPaise :: int
  rp_NewEMIPaise :: int

definition fround :: "float64 \<Rightarrow> float64" where
  "fround x = (case x of Fin a \<Rightarrow> Fin (of_int (round_away a)) | _ \<Rightarrow> x)"

definition round2 :: "float64 \<Rightarrow> float64" where
  "round2 f = fdiv (fround (fmul f (Fin 100))) (Fin 100)"

definition RepoRateRecompute :: "Loan \<Rightarrow> float64 \<Rightarrow> float64 \<Rightarrow> RepoResult" where
  "RepoRateRecompute loan deltaRepoBps transmissionFactor =
     (let rate0 = fadd (ln_AnnualRatePct loan) (fmul (fdiv deltaRepoBps (Fin 100)) transmissionFactor);
          newRatePct = (if flt rate0 (Fin 0) then Fin 0 else rate0)
      in \<lparr>rp_OldRatePct = ln_AnnualRatePct loan, rp_NewRatePct = round2 newRatePct,
          rp_OldEMIPaise = loan_emi loan,
          rp_NewEMIPaise = EMI (ln_PrincipalPaise loan) newRatePct (ln_Months loan)\<rparr>)"

section \<open>Payoff strategies\<close>

datatype Strategy = Avalanche | Snowball

record acct =
  wa_bal :: int
  wa_r :: float64
  wa_emi :: int
  wa_rate :: float64

definition to_acct :: "Loan \<Rightarrow> acct" where
  "to_acct l = \<lparr>wa_bal = ln_PrincipalPaise l, wa_r = monthlyRate (ln_AnnualRatePct l),
     wa_emi = loan_emi l, wa_rate = ln_AnnualRatePct l\<rparr>"

definition anyActive :: "acct list \<Rightarrow> bool" where
  "anyActive accts \<longleftrightarrow> list_ex (\<lambda>a. wa_bal a > 0) accts"

text \<open>First step of a month: interest accrues on every active loan and its instalment is paid.\<close>

definition pay_emi :: "acct \<Rightarrow> acct" where
  "pay_emi a =
     (if wa_bal a \<le> 0 then a
      else
        let principal = i64 (wa_emi a - interest_on (wa_r a) (wa_bal a)) in
        if principal \<le> 0 then a
        else a\<lparr>wa_bal := wa_bal a - (if principal > wa_bal a then wa_bal a else principal)\<rparr>)"

definition month_interest :: "acct list \<Rightarrow> int \<Rightarrow> int" where
  "month_interest accts total0 =
     foldl (\<lambda>t a. if wa_bal a \<le> 0 then t else i64 (t + interest_on (wa_r a) (wa_bal a))) total0 accts"

text \<open>Second step: the extra budget and the instalments of the loans closed by now.\<close>

definition month_pool :: "int \<Rightarrow> acct list \<Rightarrow> int" where
  "month_pool extra accts = foldl (\<lambda>p a. if wa_bal a \<le> 0 then i64 (p + wa_emi a) else p) extra accts"

definition better :: "Strategy \<Rightarrow> acct \<Rightarrow> acct \<Rightarrow> bool" where
  "better strategy a best =
     (case strategy of Snowball \<Rightarrow> wa_bal a < wa_bal best | Avalanche \<Rightarrow> flt (wa_rate best) (wa_rate a))"

fun pick_loop :: "Strategy \<Rightarrow> acct list \<Rightarrow> nat \<Rightarrow> acct list \<Rightarrow> nat option \<Rightarrow> nat option" where
  "pick_loop strategy accts i [] best = best"
| "pick_loop strategy accts i (a # as) best =
     pick_loop strategy accts (Suc i) as
       (if wa_bal a \<le> 0 then best
        else case best of
          None \<Rightarrow> Some i
        | Some b \<Rightarrow> if better strategy a (accts ! b) then Some i else best)"

definition pickTarget :: "acct list \<Rightarrow> Strategy \<Rightarrow> nat option" where
  "pickTarget accts strategy = pick_loop strategy accts 0 accts None"

text \<open>Third step: the pool goes to the priority loan, up to its balance.\<close>

definition pour :: "Strategy \<Rightarrow> int \<Rightarrow> acct list \<Rightarrow> acct list" where
  "pour strategy pool accts =
     (case pickTarget accts strategy of
        None \<Rightarrow> accts
      | Some i \<Rightarrow>
          if pool > 0 then
            let a = accts ! i; pay = (if pool > wa_bal a then wa_bal a else pool)
            in accts[i := a\<lparr>wa_bal := wa_bal a - pay\<rparr>]
          else accts)"

definition waterfall_month :: "Strategy \<Rightarrow> int \<Rightarrow> acct list \<Rightarrow> acct list" where
  "waterfall_month strategy extra accts =
     (let paid = map pay_emi accts in pour strategy (month_pool extra paid) paid)"

function waterfall_loop :: "Strategy \<Rightarrow> int \<Rightarrow> int \<Rightarrow> int \<Rightarrow> acct list \<Rightarrow> int \<times> int \<times> bool" where
  "waterfall_loop strategy extra month interest accts =
     (if month < monthCap \<and> anyActive accts
      then waterfall_loop strategy extra (month + 1) (month_interest accts interest)
             (waterfall_month strategy extra accts)
      else (interest, month, \<not> anyActive accts))"
  by pat_completeness auto

termination waterfall_loop
  by (relation "measure (\<lambda>(strategy, extra, month, interest, accts). nat (monthCap - month))") auto

declare waterfall_loop.simps [simp del]

definition simulateWaterfall :: "Loan list \<Rightarrow> int \<Rightarrow> Strategy \<Rightarrow> int \<times> int \<times> bool" where
  "simulateWaterfall loans extra strategy =
     (let accts = map to_acct (filter (\<lambda>l. ln_PrincipalPaise l > 0) loans) in
      if accts = [] then (0, 0, True) else waterfall_loop strategy extra 0 0 accts)"

record OptimiseResult =
  op_AvalancheInterestPaise :: int
  op_SnowballInterestPaise :: int
  op_InterestCostOfSnowball :: int
  op_AvalancheMonths :: int
  op_SnowballMonths :: int
  op_RecommendedStrategy :: Strategy
  op_Converged :: bool

definition OptimiseStrategy :: "Loan list \<Rightarrow> int \<Rightarrow> float64 \<Rightarrow> float64 \<Rightarrow> OptimiseResult" where
  "OptimiseStrategy loans extraTargetPaise adherenceScore lowAdherenceThreshold =
     (case (simulateWaterfall loans extraTargetPaise Avalanche, simulateWaterfall loans extraTargetPaise Snowball) of
        ((avInt, avMonths, avConv), (snInt, snMonths, snConv)) \<Rightarrow>
          let cost = i64 (snInt - avInt) in
          \<lparr>op_AvalancheInterestPaise = avInt, op_SnowballInterestPaise = snInt,
           op_InterestCostOfSnowball = (if cost < 0 then 0 else cost),
           op_AvalancheMonths = avMonths, op_SnowballMonths = snMonths,
           op_RecommendedStrategy =
             (if flt (Fin 0) adherenceScore \<and> flt adherenceScore lowAdherenceThreshold
              then Snowball else Avalanche),
           op_Converged = (avConv \<and> snConv)\<rparr>)"

text \<open>\<open>sort.SliceStable\<close> as an insertion that stays behind elements that are not greater.\<close>

definition before :: "Strategy \<Rightarrow> Loan \<Rightarrow> Loan \<Rightarrow> bool" where
  "before strategy a b =
     (case strategy of
        Snowball \<Rightarrow> ln_PrincipalPaise a < ln_PrincipalPaise b
      | Avalanche \<Rightarrow> flt (ln_AnnualRatePct b) (ln_AnnualRatePct a))"

fun insert_stable :: "Strategy \<Rightarrow> Loan \<Rightarrow> Loan list \<Rightarrow> Loan list" where
  "insert_stable strategy a [] = [a]"
| "insert_stable strategy a (b # bs) =
     (if before strategy b a then b # insert_stable strategy a bs else a # b # bs)"

definition SortForStrategy :: "Loan list \<Rightarrow> Strategy \<Rightarrow> Loan list" where
  "SortForStrategy loans strategy = foldr (insert_stable strategy) loans []"

end
