(* ===== verification/CreditAndLoans.thy ===== *)
theory CreditAndLoans
  imports StepUpRoutes CustomerViews DebtEngine
begin

text \<open>
  Card utilisation and pay-later obligations (\<open>domain/credit/credit.go\<close>) and the loan endpoints of
  \<open>service_expansion.go\<close>, which feed the customer's loans into the debt engine. Amounts are
  \<open>int64\<close>, ratios finite \<open>float64\<close> values. The parsers of RFC 3339 dates and of floats are arguments.
\<close>

section \<open>Utilisation\<close>

record CreditParams =
  cp_UtilisationAlert :: rat
  cp_AlertLeadDays :: int
  cp_BNPLProviders :: "string list"
  cp_BNPLMerchantCategoryCodes :: "string list"

definition default_credit :: CreditParams where
  "default_credit = \<lparr>cp_UtilisationAlert = fl (30 / 100), cp_AlertLeadDays = 5,
     cp_BNPLProviders = [''lazypay'', ''simpl'', ''zestmoney'', ''slice'', ''amazon pay later'', ''flipkart pay later'',
       ''paytm postpaid'', ''ollo'', ''kreditbee'', ''mobikwik zip''],
     cp_BNPLMerchantCategoryCodes = [''6012'', ''6051'']\<rparr>"

record Card =
  cd_ID :: string
  cd_OutstandingPaise :: int
  cd_LimitPaise :: int
  cd_StatementDate :: time

definition Utilisation :: "int \<Rightarrow> int \<Rightarrow> rat" where
  "Utilisation outstanding limit = (if limit \<le> 0 then 0 else fl (fl (of_int outstanding) / fl (of_int limit)))"

definition AggregateUtilisation :: "Card list \<Rightarrow> rat" where
  "AggregateUtilisation cards =
     Utilisation (foldl (\<lambda>t c. i64 (t + cd_OutstandingPaise c)) 0 cards) (foldl (\<lambda>t c. i64 (t + cd_LimitPaise c)) 0 cards)"

record CardUtilisation =
  cu_CardID :: string
  cu_Utilisation :: rat
  cu_Breached :: bool
  cu_DaysToStatement :: int
  cu_AlertInLead :: bool

record UtilisationReport =
  ur_Aggregate :: rat
  ur_Cards :: "CardUtilisation list"
  ur_AnyAlert :: bool

definition daysBetween :: "time \<Rightarrow> time \<Rightarrow> int" where
  "daysBetween now future = int_of_float (fl (Hours (Sub future now) / 24))"

definition card_utilisation :: "CreditParams \<Rightarrow> time \<Rightarrow> Card \<Rightarrow> CardUtilisation" where
  "card_utilisation p now c =
     (let u = Utilisation (cd_OutstandingPaise c) (cd_LimitPaise c); days = daysBetween now (cd_StatementDate c);
          breached = (u \<ge> cp_UtilisationAlert p)
      in \<lparr>cu_CardID = cd_ID c, cu_Utilisation = u, cu_Breached = breached, cu_DaysToStatement = days,
          cu_AlertInLead = (breached \<and> days \<ge> 0 \<and> days \<le> cp_AlertLeadDays p)\<rparr>)"

definition EvaluateUtilisation :: "CreditParams \<Rightarrow> time \<Rightarrow> Card list \<Rightarrow> UtilisationReport" where
  "EvaluateUtilisation p now cards =
     (let rows = map (card_utilisation p now) cards
      in \<lparr>ur_Aggregate = AggregateUtilisation cards, ur_Cards = rows, ur_AnyAlert = list_ex cu_AlertInLead rows\<rparr>)"

section \<open>Pay later\<close>

definition EffectiveAPR :: "int \<Rightarrow> int \<Rightarrow> int \<Rightarrow> rat" where
  "EffectiveAPR totalRepayable principalPaise tenureDays =
     (if principalPaise \<le> 0 \<or> tenureDays \<le> 0 then 0
      else
        let costRatio = fl (fl (fl (of_int totalRepayable) / fl (of_int principalPaise)) - 1)
        in fl (costRatio * fl (365 / fl (of_int tenureDays))))"

definition IsBNPLObligation :: "CreditParams \<Rightarrow> string \<Rightarrow> string \<Rightarrow> bool" where
  "IsBNPLObligation p mcc counterparty =
     (if list_ex (\<lambda>code. TrimSpace mcc = code) (cp_BNPLMerchantCategoryCodes p) then True
      else
        let name = ToLower (TrimSpace counterparty)
        in name \<noteq> [] \<and> list_ex (\<lambda>provider. provider \<noteq> [] \<and> contains name provider) (cp_BNPLProviders p))"

record Obligation =
  ob_Provider :: string
  ob_DueAmountPaise :: int
  ob_DueDate :: time

definition TotalBNPLOutstanding :: "Obligation list \<Rightarrow> int" where
  "TotalBNPLOutstanding obs = foldl (\<lambda>t b. if ob_DueAmountPaise b > 0 then i64 (t + ob_DueAmountPaise b) else t) 0 obs"

section \<open>Bodies\<close>

text \<open>A \<open>JObject\<close> lists the entries of a decoded map, one for each key.\<close>

definition json_objects :: "json option \<Rightarrow> json_body list" where
  "json_objects v =
     (case v of Some (JArray xs) \<Rightarrow> concat (map (\<lambda>x. case x of JObject m \<Rightarrow> [map_of m] | _ \<Rightarrow> []) xs) | _ \<Rightarrow> [])"

text \<open>A date, or a number of days from now, or now. The product of days wraps around.\<close>

definition body_date :: "(string \<Rightarrow> time option) \<Rightarrow> (json \<Rightarrow> string) \<Rightarrow> time \<Rightarrow> string \<Rightarrow> string \<Rightarrow> json_body \<Rightarrow> time" where
  "body_date parse_date fmt now date_key days_key m =
     (let s = expString fmt m date_key; d = expInt64 m days_key in
      if s \<noteq> [] then (case parse_date s of Some t \<Rightarrow> t | None \<Rightarrow> now)
      else if d \<noteq> 0 then now + i64 (d * 24 * hour) else now)"

definition parseCards :: "(string \<Rightarrow> time option) \<Rightarrow> (json \<Rightarrow> string) \<Rightarrow> time \<Rightarrow> json_body \<Rightarrow> Card list" where
  "parseCards parse_date fmt now body =
     map (\<lambda>m. \<lparr>cd_ID = expString fmt m ''id'', cd_OutstandingPaise = expInt64 m ''outstanding_paise'',
            cd_LimitPaise = expInt64 m ''limit_paise'',
            cd_StatementDate = body_date parse_date fmt now ''statement_date'' ''statement_in_days'' m\<rparr>)
       (json_objects (body ''cards''))"

definition parseBNPLObligations ::
  "CreditParams \<Rightarrow> (string \<Rightarrow> time option) \<Rightarrow> (json \<Rightarrow> string) \<Rightarrow> time \<Rightarrow> json_body \<Rightarrow> (Obligation \<times> rat) list" where
  "parseBNPLObligations p parse_date fmt now body =
     map (\<lambda>m. (\<lparr>ob_Provider = expString fmt m ''provider'', ob_DueAmountPaise = expInt64 m ''due_amount_paise'',
             ob_DueDate = body_date parse_date fmt now ''due_date'' ''due_in_days'' m\<rparr>,
           EffectiveAPR (expInt64 m ''total_repayable_paise'') (expInt64 m ''principal_paise'') (expInt64 m ''tenure_days'')))
       (filter (\<lambda>m. IsBNPLObligation p (expString fmt m ''mcc'') (expString fmt m ''provider''))
         (json_objects (body ''obligations'')))"

definition expFloat :: "(string \<Rightarrow> float64 option) \<Rightarrow> json_body \<Rightarrow> string \<Rightarrow> float64" where
  "expFloat parse_float data key =
     (case data key of
        Some (JNumber x) \<Rightarrow> Fin x
      | Some (JString v) \<Rightarrow> (case parse_float (TrimSpace v) of Some f \<Rightarrow> f | None \<Rightarrow> Fin 0)
      | _ \<Rightarrow> Fin 0)"

section \<open>Endpoints\<close>

definition for_user :: "string \<Rightarrow> 'f Service \<Rightarrow> (exp_error + 'a) \<Rightarrow> exp_error + 'a" where
  "for_user userID s res = (case requireUser userID s of Some e \<Rightarrow> Inl (ExpService e) | None \<Rightarrow> res)"

definition loan_credit_utilisation ::
  "CreditParams \<Rightarrow> (string \<Rightarrow> time option) \<Rightarrow> (json \<Rightarrow> string) \<Rightarrow> time \<Rightarrow> string \<Rightarrow> EndpointInput \<Rightarrow> 'f Service
     \<Rightarrow> exp_error + UtilisationReport" where
  "loan_credit_utilisation p parse_date fmt now userID input s =
     for_user userID s (Inr (EvaluateUtilisation p now (parseCards parse_date fmt now (ei_Body input))))"

text \<open>Each obligation with its rate if that is positive, and the total.\<close>

definition loan_bnpl ::
  "CreditParams \<Rightarrow> (string \<Rightarrow> time option) \<Rightarrow> (json \<Rightarrow> string) \<Rightarrow> time \<Rightarrow> string \<Rightarrow> EndpointInput \<Rightarrow> 'f Service
     \<Rightarrow> exp_error + (Obligation \<times> rat option) list \<times> int" where
  "loan_bnpl p parse_date fmt now userID input s =
     for_user userID s
       (let rows = parseBNPLObligations p parse_date fmt now (ei_Body input)
        in Inr (map (\<lambda>(b, apr). (b, if apr > 0 then Some apr else None)) rows, TotalBNPLOutstanding (map fst rows)))"

definition inferFloating :: "string \<Rightarrow> bool" where
  "inferFloating loanType \<longleftrightarrow>
     ToLower (TrimSpace loanType) \<in> {''home'', ''education'', ''car'', ''auto'', ''vehicle''}"

definition toDebtLoan :: "LoanRecord \<Rightarrow> bool \<Rightarrow> Loan" where
  "toDebtLoan l floating =
     \<lparr>ln_ID = lr_LoanID l, ln_PrincipalPaise = lr_OutstandingPaise l, ln_AnnualRatePct = lr_InterestRate l,
      ln_Months = lr_RemainingMonths l, ln_EMIPaise = lr_EMIPaise l, ln_Floating = floating,
      ln_LoanType = lr_LoanType l\<rparr>"

definition findLoan :: "string \<Rightarrow> string \<Rightarrow> 'f Service \<Rightarrow> LoanRecord option" where
  "findLoan userID loanID s = find (\<lambda>l. lr_LoanID l = loanID) (get_list (pe_loans (sv_personal s)) userID)"

definition with_loan ::
  "string \<Rightarrow> EndpointInput \<Rightarrow> 'f Service \<Rightarrow> (LoanRecord \<Rightarrow> 'a) \<Rightarrow> (exp_error + 'a option)" where
  "with_loan userID input s f =
     for_user userID s
       (Inr (map_option f (findLoan userID (TrimSpace (ei_PathParams input ''loanID'')) s)))"

record prepayment_view =
  pv_result :: PrepaymentResult
  pv_debt_free_date :: time

text \<open>\<open>None\<close> is the answer that the loan was not found.\<close>

definition loan_prepayment_simulate ::
  "time \<Rightarrow> string \<Rightarrow> EndpointInput \<Rightarrow> 'f Service \<Rightarrow> exp_error + prepayment_view option" where
  "loan_prepayment_simulate now userID input s =
     with_loan userID input s (\<lambda>loan.
       let extra0 = expInt64 (ei_Body input) ''extra_amount''; extra = (if extra0 \<le> 0 then lr_EMIPaise loan else extra0);
           month0 = expInt64 (ei_Body input) ''extra_month''; month = (if month0 \<le> 0 then 1 else month0);
           res = PrepaymentImpact (toDebtLoan loan (inferFloating (lr_LoanType loan))) extra month
       in \<lparr>pv_result = res, pv_debt_free_date = AddMonths now (pp_NewMonths res)\<rparr>)"

definition loan_foreclosure_check ::
  "ForeclosureParams \<Rightarrow> string \<Rightarrow> EndpointInput \<Rightarrow> 'f Service \<Rightarrow> exp_error + ForeclosureResult option" where
  "loan_foreclosure_check fp userID input s =
     with_loan userID input s (\<lambda>loan.
       let floating = (case ei_Body input ''floating'' of Some (JBool b) \<Rightarrow> b | _ \<Rightarrow> inferFloating (lr_LoanType loan))
       in ForeclosureDecision (toDebtLoan loan floating) (lr_OutstandingPaise loan) fp)"

record strategy_view =
  st_result :: OptimiseResult
  st_alternative :: Strategy

definition loan_optimisation_strategy ::
  "float64 \<Rightarrow> (string \<Rightarrow> float64 option) \<Rightarrow> string \<Rightarrow> EndpointInput \<Rightarrow> 'f Service \<Rightarrow> exp_error + strategy_view" where
  "loan_optimisation_strategy lowAdherence parse_float userID input s =
     for_user userID s
       (let loans = map (\<lambda>r. toDebtLoan r (inferFloating (lr_LoanType r))) (get_list (pe_loans (sv_personal s)) userID);
            extra0 = expInt64 (ei_Body input) ''extra_amount''; extra = (if extra0 \<le> 0 then 1000000 else extra0);
            res = OptimiseStrategy loans extra (expFloat parse_float (ei_Body input) ''adherence_score'') lowAdherence
        in Inr \<lparr>st_result = res,
             st_alternative = (if op_RecommendedStrategy res = Snowball then Avalanche else Snowball)\<rparr>)"

definition largest_loan :: "LoanRecord \<Rightarrow> LoanRecord list \<Rightarrow> LoanRecord" where
  "largest_loan first recs = foldl (\<lambda>t r. if lr_OutstandingPaise r > lr_OutstandingPaise t then r else t) first recs"

text \<open>The repricing of the largest loan, if there is a loan.\<close>

definition loan_rate_update_notify ::
  "float64 \<Rightarrow> (string \<Rightarrow> float64 option) \<Rightarrow> string \<Rightarrow> EndpointInput \<Rightarrow> 'f Service
     \<Rightarrow> exp_error + float64 \<times> (string \<times> float64 \<times> RepoResult) option" where
  "loan_rate_update_notify transmission parse_float userID input s =
     for_user userID s
       (let repo0 = expFloat parse_float (ei_Body input) ''repo_rate'';
            newRepo = (if fle repo0 (Fin 0) then Fin (fl (65 / 10)) else repo0);
            bps0 = expFloat parse_float (ei_Body input) ''delta_bps'';
            bps = (if bps0 = Fin 0 then Fin 25 else bps0)
        in Inr (newRepo, case get_list (pe_loans (sv_personal s)) userID of [] \<Rightarrow> None
             | r # rs \<Rightarrow> let target = largest_loan r (r # rs)
                 in Some (lr_LoanID target, bps, RepoRateRecompute (toDebtLoan target True) bps transmission)))"

definition loan_verify_payment_link ::
  "(json \<Rightarrow> string) \<Rightarrow> string \<Rightarrow> EndpointInput \<Rightarrow> 'f Service \<Rightarrow> exp_error + bool" where
  "loan_verify_payment_link fmt userID input s =
     for_user userID s
       (let url = ToLower (TrimSpace (expString fmt (ei_Body input) ''url''))
        in Inr (contains url ''sbi.co.in'' \<or> contains url ''hdfcbank.com''))"

definition loan_debt_free_date :: "time \<Rightarrow> string \<Rightarrow> 'f Service \<Rightarrow> exp_error + time" where
  "loan_debt_free_date now userID s =
     for_user userID s
       (Inr (AddMonths now (foldl (\<lambda>m l. if lr_RemainingMonths l > m then lr_RemainingMonths l else m) 0
          (get_list (pe_loans (sv_personal s)) userID))))"

section \<open>The window of an alert\<close>

lemma fl_fraction:
  assumes "0 \<le> r" and "r \<le> (3600000000000 :: int)"
  shows "0 \<le> fl (of_int r / 3600000000000)" and "fl (of_int r / 3600000000000) \<le> 1"
proof -
  have "0 \<le> (of_int r :: rat) / 3600000000000" "(of_int r :: rat) / 3600000000000 \<le> 1"
    using assms by (simp_all add: divide_le_eq)
  from fl_unit [OF this] show "0 \<le> fl (of_int r / 3600000000000)" "fl (of_int r / 3600000000000) \<le> 1"
    by simp_all
qed

lemma hours_of_mono:
  assumes "0 \<le> d" and "d \<le> e" and "e \<le> 2 ^ 63"
  shows "hours_of d \<le> hours_of e"
proof -
  let ?q = "\<lambda>x. x div hour" and ?r = "\<lambda>x. x mod hour"
  let ?f = "\<lambda>x. fl (of_int (?r x) / 3600000000000)"
  have le: "?q d \<le> ?q e" using assms(2) by (simp add: zdiv_mono1)
  have r: "0 \<le> ?r x" "?r x \<le> 3600000000000" for x :: int using pos_mod_bound [of hour x] by simp_all
  show ?thesis
  proof (cases "?q d = ?q e")
    case True
    then have "?r d \<le> ?r e" using assms(2) by (metis add_le_cancel_left mult_div_mod_eq)
    then have "?f d \<le> ?f e" by (intro fl_mono divide_right_mono) simp_all
    then show ?thesis using True unfolding hours_of_def by (intro fl_mono) simp
  next
    case False
    with le have "?q d + 1 \<le> ?q e" by simp
    then have "(of_int (?q d) :: rat) + 1 \<le> of_int (?q e)" by (metis of_int_1 of_int_add of_int_le_iff)
    then show ?thesis
      using fl_fraction(2) [OF r, of d] fl_fraction(1) [OF r, of e] unfolding hours_of_def by (intro fl_mono) linarith
  qed
qed

lemma hours_of_nonneg: "0 \<le> d \<Longrightarrow> d \<le> 2 ^ 63 \<Longrightarrow> 0 \<le> hours_of d"
  using hours_of_mono [of 0 d] by (simp add: hours_of_def)

lemma Hours_mono:
  assumes "d \<le> e" and "- (2 ^ 63) \<le> d" and "e \<le> 2 ^ 63"
  shows "Hours d \<le> Hours e"
proof -
  consider "0 \<le> d" | "d < 0" "0 \<le> e" | "e < 0" using assms(1) by linarith
  then show ?thesis
  proof cases
    case 1
    with assms show ?thesis using hours_of_mono [of d e] by (simp add: Hours_def)
  next
    case 2
    then have "0 \<le> hours_of (- d)" "0 \<le> hours_of e" using assms by (auto intro: hours_of_nonneg)
    with 2 show ?thesis by (simp add: Hours_def)
  next
    case 3
    with assms have "hours_of (- e) \<le> hours_of (- d)" by (intro hours_of_mono) simp_all
    with 3 assms(1) show ?thesis by (simp add: Hours_def)
  qed
qed

text \<open>The days between, at the two ends of the window.\<close>

lemma window_ends:
  "fl (Hours (- 86400000000000) / 24) = - 1" "- 1 < fl (Hours (- 86399999999999) / 24)"
  "fl (Hours 518400000000000 / 24) = 6" "fl (Hours 518399999999999 / 24) < 6"
  by code_simp+

lemma truncates_low: "0 \<le> int_of_float y \<longleftrightarrow> - 1 < y"
proof -
  have "\<lfloor>- y\<rfloor> < 1 \<longleftrightarrow> - y < 1" "0 \<le> \<lfloor>y\<rfloor> \<longleftrightarrow> 0 \<le> y" by simp_all
  then show ?thesis by (cases "y < 0") (simp_all only: int_of_float_def if_True if_False, linarith+)
qed

lemma truncates_high: "int_of_float y \<le> 5 \<longleftrightarrow> y < 6"
proof -
  have "\<lfloor>y\<rfloor> < 6 \<longleftrightarrow> y < 6" "0 \<le> \<lfloor>- y\<rfloor> \<longleftrightarrow> 0 \<le> - y" by (simp_all add: floor_less_iff)
  then show ?thesis by (cases "y < 0") (simp_all only: int_of_float_def if_True if_False, linarith+)
qed

lemma days_window:
  "0 \<le> daysBetween now future \<and> daysBetween now future \<le> 5 \<longleftrightarrow>
     - 24 * hour < future - now \<and> future - now < 144 * hour"
proof -
  let ?x = "Sub future now" and ?f = "\<lambda>d. fl (Hours d / 24)"
  have range: "- (2 ^ 63) \<le> ?x" "?x \<le> 2 ^ 63" by (simp_all add: Sub_def)
  have mono: "?f d \<le> ?f e" if "d \<le> e" "- (2 ^ 63) \<le> d" "e \<le> 2 ^ 63" for d e
    using Hours_mono [OF that] by (intro fl_mono divide_right_mono) simp_all
  have "- 1 < ?f ?x \<longleftrightarrow> - 86400000000000 < ?x"
    using mono [of ?x "- 86400000000000"] mono [of "- 86399999999999" ?x] range window_ends(1,2) by fastforce
  moreover have "?f ?x < 6 \<longleftrightarrow> ?x < 518400000000000"
    using mono [of 518400000000000 ?x] mono [of ?x 518399999999999] range window_ends(3,4) by fastforce
  moreover have "- 86400000000000 < ?x \<longleftrightarrow> - 24 * hour < future - now" "?x < 518400000000000 \<longleftrightarrow> future - now < 144 * hour"
    by (auto simp: Sub_def)
  ultimately show ?thesis by (simp add: daysBetween_def truncates_low truncates_high)
qed

text \<open>With the default parameters an alert is raised exactly when some card is used to 30 per cent or more and its
  statement is less than six days ahead or less than a day past: a statement that has just been written still
  alerts, and so does one that is more than five days ahead.\<close>

theorem alert_window:
  "ur_AnyAlert (EvaluateUtilisation default_credit now cards) \<longleftrightarrow>
     (\<exists>c \<in> set cards. fl (30 / 100) \<le> Utilisation (cd_OutstandingPaise c) (cd_LimitPaise c) \<and>
        now - 24 * hour < cd_StatementDate c \<and> cd_StatementDate c < now + 144 * hour)"
proof -
  have "cu_AlertInLead (card_utilisation default_credit now c) \<longleftrightarrow>
      fl (30 / 100) \<le> Utilisation (cd_OutstandingPaise c) (cd_LimitPaise c) \<and>
      now - 24 * hour < cd_StatementDate c \<and> cd_StatementDate c < now + 144 * hour" for c
    using days_window [of now "cd_StatementDate c"]
    by (auto simp: card_utilisation_def default_credit_def Let_def)
  then show ?thesis by (simp add: EvaluateUtilisation_def Let_def list_ex_iff)
qed

section \<open>The cost of paying later\<close>

lemma fl_not_tiny:
  "1 / 1152921504606846976 \<le> x \<Longrightarrow> 1 / 1152921504606846976 \<le> fl x" "1 / 1329227995784915872903807060280344576 \<le> x \<Longrightarrow> 1 / 1329227995784915872903807060280344576 \<le> fl x"
proof -
  have "fl (1 / 1152921504606846976) = 1 / 1152921504606846976" "fl (1 / 1329227995784915872903807060280344576) = 1 / 1329227995784915872903807060280344576" by code_simp+
  then show "1 / 1152921504606846976 \<le> x \<Longrightarrow> 1 / 1152921504606846976 \<le> fl x" "1 / 1329227995784915872903807060280344576 \<le> x \<Longrightarrow> 1 / 1329227995784915872903807060280344576 \<le> fl x"
    using fl_mono [of "1 / 1152921504606846976" x] fl_mono [of "1 / 1329227995784915872903807060280344576" x] by simp_all
qed

text \<open>The rounded ratio of two amounts up to 2^52 exceeds one by a visible step exactly when the first is greater.\<close>

lemma cost_visible:
  assumes "0 < p" and "p \<le> 2 ^ 52" and "p < t"
  shows "1 / 1152921504606846976 \<le> fl (fl (of_int t / of_int p) - 1)"
proof -
  have "(of_int p :: rat) + 1 \<le> of_int t" using assms(3) by (metis of_int_1 of_int_add of_int_le_iff zless_imp_add1_zle)
  moreover have p: "0 < (of_int p :: rat)" using assms(1) by simp
  moreover have "(of_int p :: rat) \<le> of_int (2 ^ 52)" using assms(2) by (simp only: of_int_le_iff)
  ultimately have "1 + 1 / 4503599627370496 \<le> (of_int t :: rat) / of_int p" by (simp add: field_simps)
  then have "fl (1 + 1 / 4503599627370496) \<le> fl (of_int t / of_int p)" by (rule fl_mono)
  moreover have "fl (1 + 1 / 4503599627370496) = 1 + 1 / 4503599627370496" by code_simp
  ultimately show ?thesis by (intro fl_not_tiny(1)) simp
qed

lemma no_cost:
  assumes "0 < p" and "t \<le> p"
  shows "fl (fl (of_int t / of_int p) - 1) \<le> 0"
proof -
  have "(of_int t :: rat) / of_int p \<le> 1" using assms by simp
  from fl_mono [OF this] have "fl (of_int t / of_int p) - 1 \<le> 0" by simp
  from fl_mono [OF this] show ?thesis by simp
qed

text \<open>A repayment has a positive rate exactly when it is more than was borrowed.\<close>

theorem apr_shows_every_fee:
  assumes "0 < p" and "p \<le> 2 ^ 52" and "0 \<le> t" and "t \<le> 2 ^ 53" and "0 < n" and "n \<le> 2 ^ 53"
  shows "0 < EffectiveAPR t p n \<longleftrightarrow> p < t"
proof -
  let ?cost = "fl (fl (of_int t / of_int p) - 1)" and ?year = "fl (365 / of_int n)"
  have exact: "fl (of_int t) = of_int t" "fl (of_int p) = of_int p" "fl (of_int n) = of_int n"
    using assms by (simp_all add: fl_of_int)
  have apr: "EffectiveAPR t p n = fl (?cost * ?year)" using assms by (simp add: EffectiveAPR_def exact)
  have "(of_int n :: rat) \<le> of_int (2 ^ 53)" using assms(6) by (simp only: of_int_le_iff)
  then have "1 / 1152921504606846976 \<le> 365 / (of_int n :: rat)" using assms(5) by (simp add: field_simps)
  then have year: "1 / 1152921504606846976 \<le> ?year" by (rule fl_not_tiny(1))
  show ?thesis
  proof (cases "p < t")
    case True
    have "(1 / 1152921504606846976) * (1 / 1152921504606846976) \<le> ?cost * ?year"
      using cost_visible [OF assms(1,2) True] year by (intro mult_mono) simp_all
    then have "1 / 1329227995784915872903807060280344576 \<le> ?cost * ?year" by simp
    from fl_not_tiny(2) [OF this] have "0 < fl (?cost * ?year)" by (rule less_le_trans [rotated]) simp
    with True apr show ?thesis by simp
  next
    case False
    moreover have "0 \<le> ?year" using year by (rule order_trans [rotated]) simp
    ultimately have "?cost * ?year \<le> 0" using no_cost [of p t] assms(1) by (simp add: mult_le_0_iff)
    from fl_mono [OF this] False apr show ?thesis by simp
  qed
qed

section \<open>Answers that mislead\<close>

text \<open>An instalment that does not cover the interest leaves an empty table, and the endpoint answers no months, no
  interest and today as the day the debt is gone.\<close>

theorem unpayable_loan_looks_free:
  assumes "requireUser u s = None" and "findLoan u (TrimSpace (ei_PathParams input ''loanID'')) s = Some l"
    and "0 < lr_OutstandingPaise l" and "0 < lr_EMIPaise l"
    and "i64 (lr_EMIPaise l - interest_on (monthlyRate (lr_InterestRate l)) (lr_OutstandingPaise l)) \<le> 0"
    and "1 < expInt64 (ei_Body input) ''extra_month''"
  shows "\<exists>v. loan_prepayment_simulate now u input s = Inr (Some v) \<and> pp_BaselineMonths (pv_result v) = 0 \<and>
    pp_NewMonths (pv_result v) = 0 \<and> pp_Converged (pv_result v) \<and> pv_debt_free_date v = AddMonths now 0"
proof -
  have empty: "prepaySchedule (lr_OutstandingPaise l) (lr_InterestRate l) (lr_EMIPaise l) m = []" if "m 1 = None" for m
    using assms(3-5) that by (subst (1) prepaySchedule_def) (simp add: prepay_loop.simps monthCap_def Let_def)
  show ?thesis
    using assms by (simp add: loan_prepayment_simulate_def with_loan_def for_user_def PrepaymentImpact_def toDebtLoan_def
        loan_emi_def empty scheduleConverged_def Let_def)
qed

text \<open>A payment link is verified if the name of a bank occurs anywhere in it.\<close>

theorem foreign_link_verified:
  assumes "requireUser u s = None" and "ei_Body input ''url'' = Some (JString ''http://a.b/sbi.co.in'')"
  shows "loan_verify_payment_link fmt u input s = Inr True"
proof -
  have "contains (ToLower (TrimSpace ''http://a.b/sbi.co.in'')) ''sbi.co.in''" by code_simp
  with assms show ?thesis by (simp add: loan_verify_payment_link_def for_user_def expString_def Let_def)
qed

end
