(* ===== verification/TransactionEndpoints.thy ===== *)
theory TransactionEndpoints
  imports PaymentGuarantees CreditAndLoans
begin

text \<open>
  The endpoints of \<open>service_expansion.go\<close> about single transactions, payees, goals and the history of the net
  worth, and what happens when a verdict of the validation worker or a request to schedule meets a payment that
  has already been settled.
\<close>

section \<open>Errors and results\<close>

datatype view_error = ViewService svc_error | TxIDRequired | PayeeIDRequired | GoalIDRequired

type_synonym ('f, 'a) view = "(view_error + 'a) \<times> 'f Service"

definition known_customer :: "string \<Rightarrow> 'f Service \<Rightarrow> ('f, 'a) view \<Rightarrow> ('f, 'a) view" where
  "known_customer userID s res = (case requireUser userID s of Some e \<Rightarrow> (Inl (ViewService e), s) | None \<Rightarrow> res)"

definition path_id :: "string \<Rightarrow> EndpointInput \<Rightarrow> string" where
  "path_id key input = TrimSpace (ei_PathParams input key)"

section \<open>Transactions\<close>

definition tx_cooling_off_status ::
  "time \<Rightarrow> string \<Rightarrow> EndpointInput \<Rightarrow> 'f Service \<Rightarrow> ('f, string \<times> bool \<times> int) view" where
  "tx_cooling_off_status now userID input s =
     known_customer userID s
       (let txID = path_id ''txID'' input in
        if txID = [] then (Inl TxIDRequired, s)
        else case CoolingOffState now userID txID s of
            Inl e \<Rightarrow> (Inl (ViewService e), s)
          | Inr (active, remaining) \<Rightarrow> (Inr (txID, active, int_of_float (Seconds remaining)), s))"

definition tx_schedule ::
  "sv_env \<Rightarrow> time \<Rightarrow> string \<Rightarrow> EndpointInput \<Rightarrow> 'f Service \<Rightarrow> ('f, string \<times> time) view" where
  "tx_schedule env now userID input s =
     known_customer userID s
       (let txID = path_id ''txID'' input in
        if txID = [] then (Inl TxIDRequired, s)
        else if find (\<lambda>t. txn_ID t = txID) (get_list (sv_transactions s) userID) = None
        then (Inl (ViewService TransactionNotFound), s)
        else
          let scheduledFor = now + coolingOffWindow s;
              txs = update_first (\<lambda>t. txn_ID t = txID)
                (\<lambda>t. t\<lparr>txn_Status := ''scheduled'', txn_CoolingOffUntil := Some scheduledFor\<rparr>)
                (get_list (sv_transactions s) userID)
          in (Inr (txID, scheduledFor),
              appendAudit env now userID ''transaction_scheduled'' ''transaction'' ''success''
                ''Blocked transaction scheduled after cooling window'' ''User''
                (s\<lparr>sv_transactions := (sv_transactions s)(userID \<mapsto> txs)\<rparr>)))"

record risk_view =
  rk_tx_id :: string
  rk_risk_level :: RiskLevel
  rk_risk_score :: rat
  rk_beneficiary_risk :: rat
  rk_xai_reason :: xai_reason

text \<open>The graph remembers the score it computes.\<close>

definition graph_score :: "sv_env \<Rightarrow> string \<Rightarrow> 'f Service \<Rightarrow> rat \<times> 'f Service" where
  "graph_score env recipient s =
     (case GetRiskScore (env_H env) recipient (sv_fraudGraph s) of (score, g) \<Rightarrow> (score, s\<lparr>sv_fraudGraph := g\<rparr>))"

definition tx_risk_score :: "sv_env \<Rightarrow> string \<Rightarrow> EndpointInput \<Rightarrow> 'f Service \<Rightarrow> ('f, risk_view) view" where
  "tx_risk_score env userID input s =
     known_customer userID s
       (let txID = path_id ''txID'' input in
        if txID = [] then (Inl TxIDRequired, s)
        else case find (\<lambda>t. txn_ID t = txID) (get_list (sv_transactions s) userID) of
            None \<Rightarrow> (Inl (ViewService TransactionNotFound), s)
          | Some tx \<Rightarrow>
              (case graph_score env (txn_Recipient tx) s of (score, s1) \<Rightarrow>
                 (Inr \<lparr>rk_tx_id = txn_ID tx, rk_risk_level = txn_RiskLevel tx, rk_risk_score = txn_RiskScore tx,
                       rk_beneficiary_risk = score, rk_xai_reason = txn_XAIReason tx\<rparr>, s1)))"

section \<open>Payees\<close>

definition risk_tier :: "rat \<Rightarrow> string" where
  "risk_tier score = (if score > fl (8 / 10) then ''high'' else if score > 1 / 2 then ''medium'' else ''low'')"

definition beneficiary_risk_check ::
  "sv_env \<Rightarrow> (json \<Rightarrow> string) \<Rightarrow> string \<Rightarrow> EndpointInput \<Rightarrow> 'f Service \<Rightarrow> ('f, string \<times> int) view" where
  "beneficiary_risk_check env fmt userID input s =
     known_customer userID s
       (let recipient0 = expString fmt (ei_Body input) ''beneficiary'';
            recipient = (if recipient0 = [] then ei_PathParams input ''beneficiaryID'' else recipient0)
        in if TrimSpace recipient = [] then (Inl PayeeIDRequired, s)
           else case graph_score env recipient s of (score, s1) \<Rightarrow>
             (Inr (risk_tier score, int_of_float (fl (fl (1 - score) * 6))), s1))"

definition beneficiary_delete ::
  "sv_env \<Rightarrow> time \<Rightarrow> string \<Rightarrow> EndpointInput \<Rightarrow> 'f Service \<Rightarrow> ('f, string) view" where
  "beneficiary_delete env now userID input s =
     known_customer userID s
       (let i = path_id ''beneficiaryID'' input; bs = get_list (sv_beneficiaryRecords s) userID in
        if find (\<lambda>b. bn_ID b = i) bs = None then (Inl (ViewService BeneficiaryNotFound), s)
        else (Inr i, appendAudit env now userID ''beneficiary_deleted'' ''beneficiary'' ''success''
               ''Beneficiary soft deleted'' ''User''
               (set_payees userID (update_first (\<lambda>b. bn_ID b = i) (bn_VerificationStatus_update (\<lambda>_. ''deleted'')) bs) s)))"

text \<open>The payee, and whether the graph finds it suspicious.\<close>

definition beneficiary_detail :: "sv_env \<Rightarrow> string \<Rightarrow> EndpointInput \<Rightarrow> 'f Service \<Rightarrow> ('f, Beneficiary \<times> bool) view" where
  "beneficiary_detail env userID input s =
     known_customer userID s
       (case Beneficiaries userID s of Inl e \<Rightarrow> (Inl (ViewService e), s)
        | Inr list \<Rightarrow>
            (case find (\<lambda>b. bn_ID b = path_id ''beneficiaryID'' input) list of
               None \<Rightarrow> (Inl (ViewService BeneficiaryNotFound), s)
             | Some item \<Rightarrow>
                 (case graph_score env (bn_BeneficiaryName item) s of (score, s1) \<Rightarrow> (Inr (item, score > 1 / 2), s1))))"

record recent_payee =
  rp_name :: string
  rp_last_paid_at :: time
  rp_amount_paise :: int

fun recent_loop :: "string set \<Rightarrow> recent_payee list \<Rightarrow> Transaction list \<Rightarrow> recent_payee list" where
  "recent_loop seen recent [] = recent"
| "recent_loop seen recent (tx # txs) =
     (let recipient = TrimSpace (txn_Recipient tx) in
      if recipient = [] \<or> recipient \<in> seen then recent_loop seen recent txs
      else
        let recent1 = recent @ [\<lparr>rp_name = recipient, rp_last_paid_at = txn_CreatedAt tx,
                                 rp_amount_paise = txn_AmountPaise tx\<rparr>]
        in if length recent1 = 5 then recent1 else recent_loop (insert recipient seen) recent1 txs)"

definition beneficiaries_recent :: "string \<Rightarrow> 'f Service \<Rightarrow> ('f, recent_payee list) view" where
  "beneficiaries_recent userID s =
     known_customer userID s (Inr (recent_loop {} [] (TransactionHistory userID s)), s)"

section \<open>Net worth over a year\<close>

text \<open>The weeks back from now, oldest first, and the trend.\<close>

definition dashboard_net_worth_history ::
  "time \<Rightarrow> string \<Rightarrow> 'f Service \<Rightarrow> ('f, (time \<times> int) list \<times> string) view" where
  "dashboard_net_worth_history now userID s =
     known_customer userID s
       (let base = netWorthPaiseLocked userID s;
            rows = map (\<lambda>i. (now - 7 * i * 24 * hour, i64 (base + (51 - i) * 3500 * 100))) (rev [0..51]);
            first = snd (hd rows); final = snd (last rows)
        in (Inr (rows, if final > first then ''up'' else if final < first then ''down'' else ''flat''), s))"

text \<open>No operation writes the reason or the instant of a freeze that this endpoint reads, so it answers their
  defaults.\<close>

definition security_freeze_status :: "string \<Rightarrow> 'f Service \<Rightarrow> ('f, bool \<times> string \<times> time option) view" where
  "security_freeze_status userID s =
     known_customer userID s (Inr (get_or False (sv_freezeState s) userID, ''user_initiated'', None), s)"

section \<open>A settled payment is charged again\<close>

text \<open>A verdict that puts a payment on hold, whatever state it is in.\<close>

definition escalates :: "ValidationVerdict \<Rightarrow> bool" where
  "escalates v \<longleftrightarrow>
     (if vv_AgreesWithML v then vv_SuggestedLevel v = ''critical''
      else vv_RecommendedAction v \<in> {''step_up'', ''cooling_off'', ''block''})"

lemma escalated_status:
  assumes "escalates v" and "txn_Status tx \<noteq> ''blocked''"
  shows "txn_Status (apply_verdict v tx) \<in> {''blocked'', ''warning_ack_required''}"
  using assms by (auto simp: escalates_def apply_verdict_def verdict_status_def split: if_splits)

lemma apply_verdict_fields [simp]:
  "txn_ID (apply_verdict v tx) = txn_ID tx" "txn_AmountPaise (apply_verdict v tx) = txn_AmountPaise tx"
  by (simp_all add: apply_verdict_def)

lemma find_update_first_same:
  assumes "find P xs = Some x" and "\<And>y. P y \<Longrightarrow> P (f y)"
  shows "find P (update_first P f xs) = Some (f x)"
  using assms by (induction xs) (auto split: if_splits)

text \<open>What a verdict within the window leaves: the same money, and the transaction as the verdict wants it.\<close>

lemma ValidateRisk_state:
  assumes "find (\<lambda>w. find (\<lambda>t. txn_ID t = i) (get_list (sv_transactions s) w) \<noteq> None) order = Some u"
    and "find (\<lambda>t. txn_ID t = i) (get_list (sv_transactions s) u) = Some tx"
    and "\<not> (case txn_CoolingOffUntil tx of None \<Rightarrow> False | Some until \<Rightarrow> now > until)"
    and s': "s' = snd (ValidateRisk env order now i v s)"
  shows "same_money s' s" and "sv_beneficiaries s' = sv_beneficiaries s"
    and "find (\<lambda>t. txn_ID t = i) (get_list (sv_transactions s') u) = Some (apply_verdict v tx)"
  using assms(1-3) find_update_first_same [OF assms(2), of "apply_verdict v"]
  by (simp_all add: s' ValidateRisk_def Let_def frame_simps)

text \<open>C37: a payment that has been debited and settled, and is then put on hold by a verdict of the validation
  worker, is debited a second time when the customer confirms it with passkey and code.\<close>

theorem settled_payment_charged_again:
  assumes "all_solvent s" and "sv_beneficiaries s u \<noteq> None"
    and "find (\<lambda>w. find (\<lambda>t. txn_ID t = i) (get_list (sv_transactions s) w) \<noteq> None) order = Some u"
    and "find (\<lambda>t. txn_ID t = i) (get_list (sv_transactions s) u) = Some tx"
    and "txn_Status tx = ''success''" and "txn_CoolingOffUntil tx = None" and "escalates v"
    and "or_TransactionID req = i"
    and "fst (OverrideTransaction env now2 u req (snd (ValidateRisk env order now1 i v s))) = Inr res"
  shows "user_funds (snd (OverrideTransaction env now2 u req (snd (ValidateRisk env order now1 i v s)))) =
    (user_funds s)(u := user_funds s u - max 0 (txn_AmountPaise tx))"
proof -
  let ?s = "snd (ValidateRisk env order now1 i v s)"
  have state: "same_money ?s s" "sv_beneficiaries ?s = sv_beneficiaries s"
    "find (\<lambda>t. txn_ID t = i) (get_list (sv_transactions ?s) u) = Some (apply_verdict v tx)"
    using ValidateRisk_state [OF assms(3,4) _ refl] assms(6) by simp_all
  note funds = same_money_funds [OF state(1)]
  have "all_solvent ?s" "sv_beneficiaries ?s u \<noteq> None" using funds state(2) assms(1,2) by simp_all
  from override_pays_held_transaction [OF this, where env = env and now = now2 and req = req] assms(8,9) state(3) funds(1)
  show ?thesis by (auto split: prod.splits sum.splits)
qed

section \<open>Scheduling\<close>

text \<open>A transaction that has been scheduled is neither paid nor payable: nothing carries it out, and an override
  is refused. The request looks at no status, so a settled payment can be scheduled as well.\<close>

lemma tx_schedule_state:
  assumes "fst (tx_schedule env now u input s) = Inr (i, until)"
    and s': "s' = snd (tx_schedule env now u input s)"
  obtains tx where "find (\<lambda>t. txn_ID t = i) (get_list (sv_transactions s) u) = Some tx"
    and "find (\<lambda>t. txn_ID t = i) (get_list (sv_transactions s') u) =
      Some (tx\<lparr>txn_Status := ''scheduled'', txn_CoolingOffUntil := Some until\<rparr>)"
    and "same_money s' s" and "until = now + coolingOffWindow s" and "i = path_id ''txID'' input"
    and "requireUser u s = None"
proof -
  have ok: "requireUser u s = None" "i = path_id ''txID'' input" "until = now + coolingOffWindow s" "i \<noteq> []"
    "find (\<lambda>t. txn_ID t = i) (get_list (sv_transactions s) u) \<noteq> None"
    using assms(1) by (auto simp: tx_schedule_def known_customer_def Let_def split: option.splits if_splits)
  then obtain tx where tx: "find (\<lambda>t. txn_ID t = i) (get_list (sv_transactions s) u) = Some tx" by auto
  let ?f = "\<lambda>t. t\<lparr>txn_Status := ''scheduled'', txn_CoolingOffUntil := Some until\<rparr>"
  have "find (\<lambda>t. txn_ID t = i) (update_first (\<lambda>t. txn_ID t = i) ?f (get_list (sv_transactions s) u)) = Some (?f tx)"
    by (rule find_update_first_same [OF tx]) simp
  with ok tx that show thesis
    by (simp add: s' tx_schedule_def known_customer_def Let_def frame_simps)
qed

theorem scheduled_never_paid:
  assumes "fst (tx_schedule env now u input s) = Inr (i, until)" and "or_TransactionID req = i"
  shows "user_funds (snd (tx_schedule env now u input s)) = user_funds s \<and>
    (\<nexists>res. fst (OverrideTransaction env now2 u req (snd (tx_schedule env now u input s))) = Inr res)"
proof -
  let ?s = "snd (tx_schedule env now u input s)"
  obtain tx where tx: "find (\<lambda>t. txn_ID t = i) (get_list (sv_transactions ?s) u) =
      Some (tx\<lparr>txn_Status := ''scheduled'', txn_CoolingOffUntil := Some until\<rparr>)" and "same_money ?s s"
    by (rule tx_schedule_state [OF assms(1) refl]) blast
  moreover have "\<nexists>res. fst (OverrideTransaction env now2 u req ?s) = Inr res"
    using tx assms(2) VerifyOTPToken_transactions(1) [of env now2 u "or_OTP req" ?s]
    by (auto simp: OverrideTransaction_def override_pending_def split: sum.splits prod.splits)
  ultimately show ?thesis using same_money_funds(1) [of ?s s] by blast
qed

section \<open>Recent payees\<close>

definition first_names :: "Transaction list \<Rightarrow> string list" where
  "first_names txs = rev (remdups (rev (filter (\<lambda>r. r \<noteq> []) (map (\<lambda>t. TrimSpace (txn_Recipient t)) txs))))"

lemma remdups_snoc: "remdups (ys @ [x]) = removeAll x (remdups ys) @ [x]"
  by (induction ys) auto

lemma firsts_Cons:
  "rev (remdups (rev (x # xs))) = x # rev (remdups (rev (filter (\<lambda>y. y \<noteq> x) xs)))"
proof -
  have "removeAll x (remdups (rev xs)) = remdups (rev (filter (\<lambda>y. y \<noteq> x) xs))"
    by (simp add: removeAll_filter_not_eq remdups_filter rev_filter eq_commute [of x])
  then show ?thesis by (simp add: remdups_snoc)
qed

lemma recent_loop_names:
  assumes "length recent < 5"
  shows "map rp_name (recent_loop seen recent txs) =
    take 5 (map rp_name recent @ rev (remdups (rev (filter (\<lambda>r. r \<noteq> [] \<and> r \<notin> seen)
      (map (\<lambda>t. TrimSpace (txn_Recipient t)) txs)))))"
  using assms
proof (induction txs arbitrary: seen recent)
  case (Cons tx txs)
  let ?r = "TrimSpace (txn_Recipient tx)" and ?names = "map (\<lambda>t. TrimSpace (txn_Recipient t)) txs"
  have filters: "filter (\<lambda>y. y \<noteq> ?r) (filter (\<lambda>r. r \<noteq> [] \<and> r \<notin> seen) ?names) =
      filter (\<lambda>r. r \<noteq> [] \<and> r \<notin> insert ?r seen) ?names"
    by (auto simp: conj_ac intro: filter_cong)
  show ?case
  proof (cases "?r = [] \<or> ?r \<in> seen")
    case True
    then show ?thesis using Cons by auto
  next
    case False
    let ?p = "\<lparr>rp_name = ?r, rp_last_paid_at = txn_CreatedAt tx, rp_amount_paise = txn_AmountPaise tx\<rparr>"
    have "rev (remdups (rev (filter (\<lambda>r. r \<noteq> [] \<and> r \<notin> seen) (map (\<lambda>t. TrimSpace (txn_Recipient t)) (tx # txs))))) =
        ?r # rev (remdups (rev (filter (\<lambda>r. r \<noteq> [] \<and> r \<notin> insert ?r seen) ?names)))"
      using False firsts_Cons [of ?r "filter (\<lambda>r. r \<noteq> [] \<and> r \<notin> seen) ?names"] filters by simp
    moreover have "map rp_name (recent_loop seen recent (tx # txs)) =
        take 5 (map rp_name recent @ ?r # rev (remdups (rev (filter (\<lambda>r. r \<noteq> [] \<and> r \<notin> insert ?r seen) ?names))))"
      using False Cons.prems Cons.IH [of "recent @ [?p]" "insert ?r seen"]
      by (cases "length recent = 4") (simp_all add: Let_def)
    ultimately show ?thesis by simp
  qed
qed simp

text \<open>An entry is the first transaction of its name.\<close>

lemma recent_loop_entries:
  assumes "p \<in> set (recent_loop seen recent txs)" and "p \<notin> set recent"
  shows "rp_name p \<notin> seen \<and> rp_name p \<noteq> [] \<and> (\<exists>pre tx post. txs = pre @ tx # post \<and> TrimSpace (txn_Recipient tx) = rp_name p \<and>
    txn_CreatedAt tx = rp_last_paid_at p \<and> txn_AmountPaise tx = rp_amount_paise p \<and>
    (\<forall>t \<in> set pre. TrimSpace (txn_Recipient t) \<noteq> rp_name p))"
  using assms
proof (induction txs arbitrary: seen recent)
  case (Cons tx txs)
  let ?r = "TrimSpace (txn_Recipient tx)"
  let ?p = "\<lparr>rp_name = ?r, rp_last_paid_at = txn_CreatedAt tx, rp_amount_paise = txn_AmountPaise tx\<rparr>"
  consider (skip) "?r = [] \<or> ?r \<in> seen" | (here) "\<not> (?r = [] \<or> ?r \<in> seen)" "p = ?p"
    | (later) "\<not> (?r = [] \<or> ?r \<in> seen)" "p \<noteq> ?p" by blast
  then show ?case
  proof cases
    case skip
    then have "p \<in> set (recent_loop seen recent txs)" using Cons.prems(1) by auto
    note IH = Cons.IH [OF this Cons.prems(2)]
    then obtain pre t post where "txs = pre @ t # post" "TrimSpace (txn_Recipient t) = rp_name p"
      "txn_CreatedAt t = rp_last_paid_at p" "txn_AmountPaise t = rp_amount_paise p"
      "\<forall>t \<in> set pre. TrimSpace (txn_Recipient t) \<noteq> rp_name p" by blast
    moreover have "?r \<noteq> rp_name p" using IH skip by auto
    ultimately show ?thesis using IH by (intro conjI exI [of _ "tx # pre"] exI [of _ t] exI [of _ post]) auto
  next
    case here
    have "rp_name p = ?r" "rp_last_paid_at p = txn_CreatedAt tx" "rp_amount_paise p = txn_AmountPaise tx"
      unfolding here(2) by simp_all
    with here(1) show ?thesis by (intro conjI exI [of _ "[]"] exI [of _ tx] exI [of _ txs]) auto
  next
    case later
    then have "p \<in> set (recent_loop (insert ?r seen) (recent @ [?p]) txs)"
      using Cons.prems by (auto simp: Let_def split: if_splits)
    moreover have "p \<notin> set (recent @ [?p])" using later Cons.prems(2) by simp
    note IH = Cons.IH [OF calculation this]
    then obtain pre t post where "txs = pre @ t # post" "TrimSpace (txn_Recipient t) = rp_name p"
      "txn_CreatedAt t = rp_last_paid_at p" "txn_AmountPaise t = rp_amount_paise p"
      "\<forall>t \<in> set pre. TrimSpace (txn_Recipient t) \<noteq> rp_name p" by blast
    then show ?thesis using IH by (intro conjI exI [of _ "tx # pre"] exI [of _ t] exI [of _ post]) auto
  qed
qed simp

text \<open>The recent payees are the first five distinct recipients of the history, the newest payment first, each
  with the time of the latest payment to it.\<close>

theorem recent_payees_reference:
  assumes "beneficiaries_recent u s = (Inr recent, s')"
  shows "map rp_name recent = take 5 (first_names (TransactionHistory u s)) \<and>
    (\<forall>p \<in> set recent. \<exists>t \<in> set (get_list (sv_transactions s) u). TrimSpace (txn_Recipient t) = rp_name p \<and>
       txn_CreatedAt t = rp_last_paid_at p \<and> txn_AmountPaise t = rp_amount_paise p \<and>
       (\<forall>t' \<in> set (get_list (sv_transactions s) u). TrimSpace (txn_Recipient t') = rp_name p \<longrightarrow>
          txn_CreatedAt t' \<le> rp_last_paid_at p))"
proof
  have recent: "recent = recent_loop {} [] (TransactionHistory u s)"
    using assms by (auto simp: beneficiaries_recent_def known_customer_def split: option.splits)
  then show "map rp_name recent = take 5 (first_names (TransactionHistory u s))"
    using recent_loop_names [of "[]" "{}" "TransactionHistory u s"] by (simp add: first_names_def)
  show "\<forall>p \<in> set recent. \<exists>t \<in> set (get_list (sv_transactions s) u). TrimSpace (txn_Recipient t) = rp_name p \<and>
       txn_CreatedAt t = rp_last_paid_at p \<and> txn_AmountPaise t = rp_amount_paise p \<and>
       (\<forall>t' \<in> set (get_list (sv_transactions s) u). TrimSpace (txn_Recipient t') = rp_name p \<longrightarrow>
          txn_CreatedAt t' \<le> rp_last_paid_at p)"
  proof
    fix p assume "p \<in> set recent"
    then obtain pre t post where split: "TransactionHistory u s = pre @ t # post" "TrimSpace (txn_Recipient t) = rp_name p"
      "txn_CreatedAt t = rp_last_paid_at p" "txn_AmountPaise t = rp_amount_paise p"
      "\<forall>t \<in> set pre. TrimSpace (txn_Recipient t) \<noteq> rp_name p"
      using recent_loop_entries [of p "{}" "[]" "TransactionHistory u s"] recent by auto
    have elems: "set (TransactionHistory u s) = set (get_list (sv_transactions s) u)"
      by (simp add: TransactionHistory_def)
    have "sorted (map (\<lambda>t. - txn_CreatedAt t) (pre @ t # post))"
      using split(1) sorted_sort_key [of "\<lambda>t. - txn_CreatedAt t"] by (metis TransactionHistory_def)
    then have "\<forall>t' \<in> set post. txn_CreatedAt t' \<le> txn_CreatedAt t" by (simp add: sorted_append)
    then show "\<exists>t \<in> set (get_list (sv_transactions s) u). TrimSpace (txn_Recipient t) = rp_name p \<and>
       txn_CreatedAt t = rp_last_paid_at p \<and> txn_AmountPaise t = rp_amount_paise p \<and>
       (\<forall>t' \<in> set (get_list (sv_transactions s) u). TrimSpace (txn_Recipient t') = rp_name p \<longrightarrow>
          txn_CreatedAt t' \<le> rp_last_paid_at p)"
      using split unfolding elems [symmetric] by (intro bexI [of _ t]) auto
  qed
qed

section \<open>The history of the net worth\<close>

text \<open>The history is drawn back from the figure of today, so it rises for everybody, and its last row is not the
  net worth.\<close>

theorem net_worth_always_rises:
  assumes "requireUser u s = None" and "netWorthPaiseLocked u s \<le> 2 ^ 62" and "- (2 ^ 62) \<le> netWorthPaiseLocked u s"
  shows "\<exists>rows. dashboard_net_worth_history now u s = (Inr (rows, ''up''), s) \<and>
    snd (last rows) = netWorthPaiseLocked u s + 17850000"
proof -
  let ?b = "netWorthPaiseLocked u s"
  let ?row = "\<lambda>i. (now - 7 * i * 24 * hour, i64 (?b + (51 - i) * 3500 * 100))"
  have ends: "hd (rev [0..51::int]) = 51" "last (rev [0..51::int]) = 0" "rev [0..51::int] \<noteq> []"
    by (simp_all add: hd_rev last_rev) (simp_all add: upto.simps [of 0] upto_rec2 [of _ 51])
  then have "snd (hd (map ?row (rev [0..51]))) = ?b" "snd (last (map ?row (rev [0..51]))) = ?b + 17850000"
    using assms(2,3) by (simp_all add: hd_map last_map i64_id is_i64_def del: rev_map)
  then show ?thesis using assms(1) by (simp add: dashboard_net_worth_history_def known_customer_def Let_def)
qed

section \<open>Concrete runs\<close>

text \<open>A payment of 100 rupees is settled, held by a verdict, and confirmed: it has cost 200 rupees.\<close>

definition critical_verdict :: ValidationVerdict where
  "critical_verdict = \<lparr>vv_AgreesWithML = True, vv_SuggestedLevel = ''critical'', vv_Confidence = 1,
     vv_Rationale = [], vv_RecommendedAction = ''block''\<rparr>"

definition settled_service :: "unit Service" where
  "settled_service = held_service\<lparr>sv_transactions := [''u1'' \<mapsto> [(held ''t2'' 10000)\<lparr>txn_Status := ''success''\<rparr>]]\<rparr>"

lemma settled_payment_charged_again_witness:
  "user_funds settled_service ''u1'' = 80000 \<and>
   user_funds (snd (OverrideTransaction demo_env 0 ''u1'' (override ''t2'')
     (snd (ValidateRisk demo_env [''u1''] 0 ''t2'' critical_verdict settled_service)))) ''u1'' = 70000"
proof -
  have "case fst (OverrideTransaction demo_env 0 ''u1'' (override ''t2'')
      (snd (ValidateRisk demo_env [''u1''] 0 ''t2'' critical_verdict settled_service))) of Inr _ \<Rightarrow> True | Inl _ \<Rightarrow> False"
    by code_simp
  then obtain res where res: "fst (OverrideTransaction demo_env 0 ''u1'' (override ''t2'')
      (snd (ValidateRisk demo_env [''u1''] 0 ''t2'' critical_verdict settled_service))) = Inr res"
    by (auto split: sum.splits)
  have funds: "all_solvent settled_service" "user_funds settled_service ''u1'' = 80000"
    using held_solvent held_lists(2) by (simp_all add: settled_service_def all_solvent_def user_funds_def)
  have "user_funds (snd (OverrideTransaction demo_env 0 ''u1'' (override ''t2'')
     (snd (ValidateRisk demo_env [''u1''] 0 ''t2'' critical_verdict settled_service)))) =
    (user_funds settled_service)(''u1'' := user_funds settled_service ''u1'' -
       max 0 (txn_AmountPaise ((held ''t2'' 10000)\<lparr>txn_Status := ''success''\<rparr>)))"
    using funds(1)
    by (rule settled_payment_charged_again [OF _ _ _ _ _ _ _ _ res])
      (simp_all add: settled_service_def held_service_def demo_service_def held_def critical_verdict_def escalates_def
        override_def)
  with funds show ?thesis by (simp add: held_lists)
qed

definition paid_twice_service :: "unit Service" where
  "paid_twice_service = settled_service\<lparr>sv_transactions :=
     [''u1'' \<mapsto> [held ''t1'' 5, (held ''t2'' 7)\<lparr>txn_CreatedAt := 9\<rparr>]]\<rparr>"

lemma recent_payees_reference_witness:
  "\<exists>recent. fst (beneficiaries_recent ''u1'' paid_twice_service) = Inr recent \<and> map rp_name recent = [''Ravi'']"
proof -
  have "case fst (beneficiaries_recent ''u1'' paid_twice_service) of Inr _ \<Rightarrow> True | Inl _ \<Rightarrow> False" by code_simp
  then obtain recent s' where run: "beneficiaries_recent ''u1'' paid_twice_service = (Inr recent, s')"
    by (cases "beneficiaries_recent ''u1'' paid_twice_service") (auto split: sum.splits)
  moreover have "take 5 (first_names (TransactionHistory ''u1'' paid_twice_service)) = [''Ravi'']" by code_simp
  ultimately show ?thesis using recent_payees_reference [OF run] by simp
qed

end
