(* ===== verification/BankEvents.thy ===== *)
theory BankEvents
  imports TransactionEndpoints
begin

text \<open>
  The bank connection and the events a bank delivers over it (\<open>domain/platform/aiml.go\<close>): an event is scored,
  stored as a transaction, posted and debited. The adapter that makes the connection, the text of a list of risk
  reasons and fresh random strings are arguments. The instant of an event is in UTC.
\<close>

section \<open>Data\<close>

record BankConnectionRequest =
  bq_Provider :: string
  bq_BaseURL :: string
  bq_ClientID :: string
  bq_Sandbox :: bool

record BankConnectionStatus =
  bs_ConnectionID :: string
  bs_Provider :: string
  bs_BaseURL :: string
  bs_ClientID :: string
  bs_Connected :: bool
  bs_Sandbox :: bool
  bs_ConnectedAt :: time
  bs_LastHeartbeatAt :: time

record BankTransactionEvent =
  be_EventID :: string
  be_BankCustomerID :: string
  be_BankAccountID :: string
  be_AmountPaise :: int
  be_Counterparty :: string
  be_Channel :: string
  be_EventTimestamp :: time
  be_DeviceTrustScore :: rat
  be_BehaviourDrift :: rat
  be_FailedAuthAttempts :: int
  be_IsSynthetic :: bool
  be_Source :: string

record RealtimeDetectionResult =
  rd_EventID :: string
  rd_UserID :: string
  rd_BankAccountID :: string
  rd_RiskLevel :: RiskLevel
  rd_RiskScore :: float64
  rd_Action :: string
  rd_RequiresStepUp :: bool
  rd_Reason :: string
  rd_IsSynthetic :: bool
  rd_ModelVersion :: string
  rd_ProcessedAt :: time

record 'f bank_service =
  bk_service :: "'f Service"
  bk_connections :: "string \<rightharpoonup> BankConnectionStatus"
  bk_detections :: "string \<rightharpoonup> RealtimeDetectionResult list"

datatype bank_error = BankService svc_error | AdapterFailed string | NotConnected | CustomerMismatch | CounterpartyRequired

type_synonym ('f, 'a) bank_call = "(bank_error + 'a) \<times> 'f bank_service"

definition with_service :: "('f Service \<Rightarrow> 'f Service) \<Rightarrow> 'f bank_service \<Rightarrow> 'f bank_service" where
  "with_service f k = k\<lparr>bk_service := f (bk_service k)\<rparr>"

section \<open>The connection\<close>

text \<open>\<open>adapter\<close> is the answer of an injected bank provider, if there is one.\<close>

definition new_connection ::
  "string \<Rightarrow> time \<Rightarrow> string \<Rightarrow> BankConnectionRequest \<Rightarrow> 'f bank_service \<Rightarrow> BankConnectionStatus" where
  "new_connection rnd now userID req k =
     (let status = \<lparr>bs_ConnectionID = ''bankconn_'' @ rnd,
            bs_Provider = firstNonEmpty (TrimSpace (bq_Provider req)) ''sandbox-bank'',
            bs_BaseURL = firstNonEmpty (TrimSpace (bq_BaseURL req)) ''https://sandbox-bank.local'',
            bs_ClientID = firstNonEmpty (TrimSpace (bq_ClientID req)) ''FINIX-client'', bs_Connected = True,
            bs_Sandbox = bq_Sandbox req, bs_ConnectedAt = now, bs_LastHeartbeatAt = now\<rparr>
      in case bk_connections k userID of
           None \<Rightarrow> status
         | Some existing \<Rightarrow> status\<lparr>bs_ConnectionID := bs_ConnectionID existing, bs_ConnectedAt := bs_ConnectedAt existing\<rparr>)"

definition ConnectBankAPI ::
  "sv_env \<Rightarrow> (string + BankConnectionStatus) option \<Rightarrow> string \<Rightarrow> time \<Rightarrow> string \<Rightarrow> BankConnectionRequest \<Rightarrow> 'f bank_service
     \<Rightarrow> ('f, BankConnectionStatus) bank_call" where
  "ConnectBankAPI env adapter rnd now userID req k =
     (if sv_users (bk_service k) userID = None then (Inl (BankService UserNotFound), k)
      else case (case adapter of None \<Rightarrow> Inr (new_connection rnd now userID req k) | Some answer \<Rightarrow> answer) of
          Inl e \<Rightarrow> (Inl (AdapterFailed e), k)
        | Inr status \<Rightarrow>
            (Inr status, with_service (appendAudit env now userID ''bank_api_connected'' ''bank_api'' ''success''
               ''Bank API connector configured'' ''System'') (k\<lparr>bk_connections := (bk_connections k)(userID \<mapsto> status)\<rparr>)))"

definition BankConnection :: "string \<Rightarrow> 'f bank_service \<Rightarrow> bank_error + BankConnectionStatus" where
  "BankConnection userID k =
     (if sv_users (bk_service k) userID = None then Inl (BankService UserNotFound)
      else case bk_connections k userID of None \<Rightarrow> Inl NotConnected | Some status \<Rightarrow> Inr status)"

section \<open>An event\<close>

definition fill_event :: "string \<Rightarrow> string \<Rightarrow> time \<Rightarrow> BankTransactionEvent \<Rightarrow> BankTransactionEvent" where
  "fill_event userID rnd now e =
     e\<lparr>be_EventID := (if TrimSpace (be_EventID e) = [] then ''bankevt_'' @ rnd else be_EventID e),
       be_EventTimestamp := (if be_EventTimestamp e = 0 then now else be_EventTimestamp e),
       be_Channel := firstNonEmpty (TrimSpace (be_Channel e)) ''bank_transfer'',
       be_Source := firstNonEmpty (TrimSpace (be_Source e)) ''bank_api'',
       be_BankCustomerID := firstNonEmpty (TrimSpace (be_BankCustomerID e)) userID\<rparr>"

definition event_error :: "string \<Rightarrow> BankTransactionEvent \<Rightarrow> 'f bank_service \<Rightarrow> bank_error option" where
  "event_error userID e k =
     (if sv_users (bk_service k) userID = None then Some (BankService UserNotFound)
      else if (case bk_connections k userID of None \<Rightarrow> True | Some c \<Rightarrow> \<not> bs_Connected c) then Some NotConnected
      else if TrimSpace (be_BankCustomerID e) \<noteq> [] \<and> TrimSpace (be_BankCustomerID e) \<noteq> userID then Some CustomerMismatch
      else if be_AmountPaise e \<le> 0 then Some (BankService AmountMustBePositive)
      else if TrimSpace (be_Counterparty e) = [] then Some CounterpartyRequired else None)"

text \<open>The signal is the one of a payment with the fields of the event, taken at the event's instant.\<close>

definition event_request :: "BankTransactionEvent \<Rightarrow> InitiateTransactionRequest" where
  "event_request e =
     \<lparr>rq_AmountPaise = be_AmountPaise e, rq_Recipient = be_Counterparty e, rq_Channel = be_Channel e,
      rq_SessionTrustScore = be_DeviceTrustScore e, rq_BehaviourDrift = be_BehaviourDrift e,
      rq_FailedPINAttempts = be_FailedAuthAttempts e\<rparr>"

definition event_action :: "RiskLevel \<Rightarrow> string" where
  "event_action l = (case l of RiskLow \<Rightarrow> ''allow'' | RiskMedium \<Rightarrow> ''step_up'' | RiskHigh \<Rightarrow> ''block'')"

definition event_status :: "RiskLevel \<Rightarrow> string" where
  "event_status l = (case l of RiskLow \<Rightarrow> ''success'' | RiskMedium \<Rightarrow> ''warning_ack_required'' | RiskHigh \<Rightarrow> ''blocked'')"

definition event_transaction ::
  "(risk_reason list \<Rightarrow> string) \<Rightarrow> string \<Rightarrow> string \<Rightarrow> BankTransactionEvent \<Rightarrow> Assessment \<Rightarrow> Transaction" where
  "event_transaction reason rnd userID e a =
     \<lparr>txn_ID = ''banktxn_'' @ rnd, txn_UserID = userID, txn_AmountPaise = be_AmountPaise e, txn_Currency = ''INR'',
      txn_DebitCredit = ''debit'', txn_Recipient = be_Counterparty e, txn_MerchantName = be_Counterparty e,
      txn_Channel = be_Channel e,
      txn_Description = ''Bank transaction to '' @ be_Counterparty e @ '' of INR '' @ rupees (be_AmountPaise e) @
        '' via '' @ be_Channel e,
      txn_Status = event_status (as_Level a), txn_RiskLevel = as_Level a, txn_RiskScore = as_Score a,
      txn_XAIReason = XText (reason (as_Reason a)), txn_DilithiumSignature = None, txn_CreatedAt = be_EventTimestamp e,
      txn_IdempotencyKey = be_EventID e, txn_CoolingOffUntil = None\<rparr>"

definition post_event ::
  "string \<Rightarrow> string \<Rightarrow> time \<Rightarrow> string \<Rightarrow> BankTransactionEvent \<Rightarrow> 'f Service \<Rightarrow> 'f Service" where
  "post_event rnd1 rnd2 now userID e s =
     (case get_list (sv_accounts s) userID of [] \<Rightarrow> s
      | a # _ \<Rightarrow>
          let narration = ''Bank tx to '' @ be_Counterparty e @ '' '' @ em_dash @ '' INR '' @ rupees (be_AmountPaise e) @
                '' via '' @ be_Channel e
          in s\<lparr>sv_accountingLedger := snd (PostOutgoingPayment rnd1 rnd2 now (be_EventID e) (ac_ID a) userID
                 (be_Counterparty e) (be_AmountPaise e) narration (sv_accountingLedger s))\<rparr>)"

definition block_last_event :: "string \<Rightarrow> 'f Service \<Rightarrow> 'f Service" where
  "block_last_event userID s =
     (case get_list (sv_transactions s) userID of [] \<Rightarrow> s
      | txns \<Rightarrow> s\<lparr>sv_transactions := (sv_transactions s)(userID \<mapsto> butlast txns @
          [(last txns)\<lparr>txn_Status := ''blocked'', txn_XAIReason := XText ''Blocked: insufficient funds for debit.''\<rparr>])\<rparr>)"

text \<open>A settled event is posted first and debited then; a debit that fails takes the posting back nowhere.
  \<open>None\<close> is the panic of a write into a missing map.\<close>

definition settle_event ::
  "string \<Rightarrow> string \<Rightarrow> time \<Rightarrow> string \<Rightarrow> BankTransactionEvent \<Rightarrow> 'f Service \<Rightarrow> bool \<times> 'f Service" where
  "settle_event rnd1 rnd2 now userID e s =
     (case applyDebitToFirstAccount userID (be_AmountPaise e) (post_event rnd1 rnd2 now userID e s) of
        (Inl _, s1) \<Rightarrow> (True, block_last_event userID s1)
      | (Inr _, s1) \<Rightarrow>
          (case add_beneficiary userID (be_Counterparty e) s1 of None \<Rightarrow> (False, s1) | Some s2 \<Rightarrow> (True, s2)))"

definition event_detection ::
  "(risk_reason list \<Rightarrow> string) \<Rightarrow> time \<Rightarrow> string \<Rightarrow> BankTransactionEvent \<Rightarrow> Assessment \<Rightarrow> RealtimeDetectionResult" where
  "event_detection reason now userID e a =
     \<lparr>rd_EventID = be_EventID e, rd_UserID = userID,
      rd_BankAccountID = firstNonEmpty (TrimSpace (be_BankAccountID e)) ''unknown'', rd_RiskLevel = as_Level a,
      rd_RiskScore = round2 (Fin (as_Score a)), rd_Action = event_action (as_Level a),
      rd_RequiresStepUp = (as_Level a \<noteq> RiskLow), rd_Reason = reason (as_Reason a),
      rd_IsSynthetic = be_IsSynthetic e, rd_ModelVersion = ''risk-engine-v1'', rd_ProcessedAt = now\<rparr>"

definition record_detection ::
  "sv_env \<Rightarrow> time \<Rightarrow> string \<Rightarrow> RealtimeDetectionResult \<Rightarrow> 'f bank_service \<Rightarrow> 'f bank_service" where
  "record_detection env now userID det k =
     (let updated = take 500 (det # get_list (bk_detections k) userID);
          k1 = k\<lparr>bk_detections := (bk_detections k)(userID \<mapsto> updated),
                 bk_connections := (case bk_connections k userID of None \<Rightarrow> bk_connections k
                   | Some c \<Rightarrow> (bk_connections k)(userID \<mapsto> c\<lparr>bs_LastHeartbeatAt := now\<rparr>))\<rparr>
      in with_service (appendAudit env now userID ''bank_event_detected'' ''bank_api'' (rd_Action det) (rd_Reason det) ''AI'') k1)"

definition assess_event :: "sv_env \<Rightarrow> string \<Rightarrow> BankTransactionEvent \<Rightarrow> 'f Service \<Rightarrow> Assessment \<times> 'f Service" where
  "assess_event env userID e s =
     (case graph_score env (be_Counterparty e) s of (gnn, s1) \<Rightarrow>
        (Evaluate (sv_riskEngine s1) (risk_signal (be_EventTimestamp e) userID (event_request e) gnn s1), s1))"

text \<open>\<open>rnd 0\<close> names the event, \<open>rnd 1\<close> the transaction, \<open>rnd 2\<close> and \<open>rnd 3\<close> the entries.\<close>

definition IngestBankEvent ::
  "sv_env \<Rightarrow> (risk_reason list \<Rightarrow> string) \<Rightarrow> (nat \<Rightarrow> string) \<Rightarrow> time \<Rightarrow> string \<Rightarrow> BankTransactionEvent \<Rightarrow> 'f bank_service
     \<Rightarrow> ('f, RealtimeDetectionResult) bank_call" where
  "IngestBankEvent env reason rnd now userID event k =
     (case event_error userID event k of Some err \<Rightarrow> (Inl err, k)
      | None \<Rightarrow>
          let e = fill_event userID (rnd 0) now event in
          case assess_event env userID e (bk_service k) of (a, s1) \<Rightarrow>
            let s2 = append_transaction userID (event_transaction reason (rnd 1) userID e a) s1;
                s3 = s2\<lparr>sv_fraudGraph := AddTransaction (env_H env) now userID (be_Counterparty e) (be_AmountPaise e)
                       (sv_fraudGraph s2)\<rparr>
            in case (if as_Level a = RiskLow then settle_event (rnd 2) (rnd 3) now userID e s3 else (True, s3)) of
                 (False, s4) \<Rightarrow> (Inl (BankService NilMapPanic), k\<lparr>bk_service := s4\<rparr>)
               | (True, s4) \<Rightarrow>
                   let det = event_detection reason now userID e a
                   in (Inr det, record_detection env now userID det (k\<lparr>bk_service := s4\<rparr>)))"

definition RealtimeDetections :: "string \<Rightarrow> int \<Rightarrow> 'f bank_service \<Rightarrow> bank_error + RealtimeDetectionResult list" where
  "RealtimeDetections userID limit0 k =
     (if sv_users (bk_service k) userID = None then Inl (BankService UserNotFound)
      else let limit = (if limit0 \<le> 0 then 50 else if limit0 > 200 then 200 else limit0)
           in Inr (take (nat limit) (get_list (bk_detections k) userID)))"

section \<open>What an event does to the money\<close>

lemma post_event_frame [simp]:
  "sv_accounts (post_event r1 r2 now u e s) = sv_accounts s" "sv_transactions (post_event r1 r2 now u e s) = sv_transactions s"
  "sv_beneficiaries (post_event r1 r2 now u e s) = sv_beneficiaries s"
  by (simp_all add: post_event_def split: list.split)

lemma accounts_funds:
  "sv_accounts s = sv_accounts t \<Longrightarrow> user_funds s = user_funds t" "sv_accounts s = sv_accounts t \<Longrightarrow> all_solvent s = all_solvent t"
  by (simp_all add: user_funds_def [abs_def] all_solvent_def)

lemma block_last_event_frame [simp]:
  "sv_accounts (block_last_event u s) = sv_accounts s" "sv_accountingLedger (block_last_event u s) = sv_accountingLedger s"
  "sv_beneficiaries (block_last_event u s) = sv_beneficiaries s"
  by (simp_all add: block_last_event_def split: list.split)

lemma block_last_event_last:
  "get_list (sv_transactions s) u \<noteq> [] \<Longrightarrow> last (get_list (sv_transactions (block_last_event u s)) u) =
     (last (get_list (sv_transactions s) u))\<lparr>txn_Status := ''blocked'', txn_XAIReason := XText ''Blocked: insufficient funds for debit.''\<rparr>"
  by (simp add: block_last_event_def split: list.split)

lemma settle_event_effect:
  assumes "all_solvent s" and "sv_beneficiaries s u \<noteq> None" and "0 < be_AmountPaise e"
    and "get_list (sv_transactions s) u \<noteq> []"
  obtains (paid) s' where "settle_event r1 r2 now u e s = (True, s')" "be_AmountPaise e \<le> user_funds s u"
      "user_funds s' = (user_funds s)(u := user_funds s u - be_AmountPaise e)" "all_solvent s'"
      "sv_transactions s' = sv_transactions s" "sv_beneficiaries s' u \<noteq> None"
  | (short) s' where "settle_event r1 r2 now u e s = (True, s')" "user_funds s u < be_AmountPaise e"
      "sv_accounts s' = sv_accounts s" "sv_accountingLedger s' = sv_accountingLedger (post_event r1 r2 now u e s)"
      "txn_Status (last (get_list (sv_transactions s') u)) = ''blocked''" "sv_beneficiaries s' u \<noteq> None"
proof -
  let ?s = "post_event r1 r2 now u e s"
  have funds: "user_funds ?s = user_funds s" "all_solvent ?s" using accounts_funds [of ?s s] assms(1) by simp_all
  from funds(2) show ?thesis
  proof (cases rule: applyDebit_cases [where m = "be_AmountPaise e" and u = u])
    case none
    with assms(3) show ?thesis by simp
  next
    case short
    with that(2) funds(1) assms(2,4) show ?thesis
      by (simp add: settle_event_def block_last_event_last)
  next
    case (paid s')
    moreover obtain b where "sv_beneficiaries s u = Some b" using assms(2) by auto
    ultimately show ?thesis using that(1) funds(1)
      by (simp add: settle_event_def add_beneficiary_def user_funds_def [abs_def] all_solvent_def)
  qed
qed

lemma assess_event_frame:
  assumes "assess_event env u e s = (a, s1)"
  shows "sv_accounts s1 = sv_accounts s" "sv_accountingLedger s1 = sv_accountingLedger s"
    "sv_beneficiaries s1 = sv_beneficiaries s" "sv_transactions s1 = sv_transactions s"
  using assms by (auto simp: assess_event_def graph_score_def split: prod.splits)

lemma record_detection_frame [simp]:
  "sv_accounts (bk_service (record_detection env now u d k)) = sv_accounts (bk_service k)"
  "sv_accountingLedger (bk_service (record_detection env now u d k)) = sv_accountingLedger (bk_service k)"
  "sv_transactions (bk_service (record_detection env now u d k)) = sv_transactions (bk_service k)"
  "sv_beneficiaries (bk_service (record_detection env now u d k)) = sv_beneficiaries (bk_service k)"
  by (simp_all add: record_detection_def with_service_def Let_def frame_simps)

lemma fill_event_fields [simp]:
  "be_AmountPaise (fill_event u r now e) = be_AmountPaise e" "be_Counterparty (fill_event u r now e) = be_Counterparty e"
  by (simp_all add: fill_event_def)

text \<open>A valid event: what is scored, stored and answered.\<close>

lemma IngestBankEvent_valid:
  assumes "event_error u ev k = None" and "all_solvent (bk_service k)" and "sv_beneficiaries (bk_service k) u \<noteq> None"
  obtains a s3 k' where "a = fst (assess_event env u (fill_event u (rnd 0) now ev) (bk_service k))"
    "sv_accounts s3 = sv_accounts (bk_service k)" "sv_accountingLedger s3 = sv_accountingLedger (bk_service k)"
    "all_solvent s3" "user_funds s3 = user_funds (bk_service k)" "sv_beneficiaries s3 u \<noteq> None"
    "get_list (sv_transactions s3) u \<noteq> []"
    "last (get_list (sv_transactions s3) u) = event_transaction reason (rnd 1) u (fill_event u (rnd 0) now ev) a"
    "IngestBankEvent env reason rnd now u ev k =
       (case (if as_Level a = RiskLow then settle_event (rnd 2) (rnd 3) now u (fill_event u (rnd 0) now ev) s3 else (True, s3)) of
          (False, s4) \<Rightarrow> (Inl (BankService NilMapPanic), k\<lparr>bk_service := s4\<rparr>)
        | (True, s4) \<Rightarrow> (Inr (event_detection reason now u (fill_event u (rnd 0) now ev) a),
            record_detection env now u (event_detection reason now u (fill_event u (rnd 0) now ev) a) (k\<lparr>bk_service := s4\<rparr>)))"
proof -
  let ?e = "fill_event u (rnd 0) now ev"
  obtain a s1 where a: "assess_event env u ?e (bk_service k) = (a, s1)" by fastforce
  define s2 where "s2 = append_transaction u (event_transaction reason (rnd 1) u ?e a) s1"
  define s3 where "s3 = s2\<lparr>sv_fraudGraph := AddTransaction (env_H env) now u (be_Counterparty ?e) (be_AmountPaise ?e) (sv_fraudGraph s2)\<rparr>"
  have s3: "sv_accounts s3 = sv_accounts (bk_service k)" "sv_accountingLedger s3 = sv_accountingLedger (bk_service k)"
    "sv_beneficiaries s3 = sv_beneficiaries (bk_service k)"
    "get_list (sv_transactions s3) u = get_list (sv_transactions s1) u @ [event_transaction reason (rnd 1) u ?e a]"
    using assess_event_frame [OF a] by (simp_all add: s3_def s2_def append_transaction_def)
  have run: "IngestBankEvent env reason rnd now u ev k =
      (case (if as_Level a = RiskLow then settle_event (rnd 2) (rnd 3) now u ?e s3 else (True, s3)) of
         (False, s4) \<Rightarrow> (Inl (BankService NilMapPanic), k\<lparr>bk_service := s4\<rparr>)
       | (True, s4) \<Rightarrow> (Inr (event_detection reason now u ?e a),
           record_detection env now u (event_detection reason now u ?e a) (k\<lparr>bk_service := s4\<rparr>)))"
    unfolding IngestBankEvent_def s3_def s2_def Let_def assms(1) option.case a prod.case ..
  have "get_list (sv_transactions s3) u \<noteq> []"
    "last (get_list (sv_transactions s3) u) = event_transaction reason (rnd 1) u ?e a" using s3(4) by simp_all
  then show ?thesis
    using that [OF _ s3(1,2) _ _ _ _ _ run] a s3(3) assms accounts_funds [OF s3(1)] by simp
qed

text \<open>What a delivery does, with the level it was given.\<close>

lemma bank_event_run:
  assumes "all_solvent (bk_service k)" and "sv_beneficiaries (bk_service k) u \<noteq> None"
  shows "case IngestBankEvent env reason rnd now u ev k of
      (Inl err, k') \<Rightarrow> k' = k \<and> event_error u ev k = Some err
    | (Inr det, k') \<Rightarrow> event_error u ev k = None \<and> all_solvent (bk_service k') \<and>
        (let paid = (rd_RiskLevel det = RiskLow \<and> be_AmountPaise ev \<le> user_funds (bk_service k) u) in
         user_funds (bk_service k') = (if paid
           then (user_funds (bk_service k))(u := user_funds (bk_service k) u - be_AmountPaise ev) else user_funds (bk_service k)) \<and>
         (txn_Status (last (get_list (sv_transactions (bk_service k')) u)) = ''success'' \<longleftrightarrow> paid)) \<and>
        sv_beneficiaries (bk_service k') u \<noteq> None \<and>
        rd_RiskLevel det = as_Level (fst (assess_event env u (fill_event u (rnd 0) now ev) (bk_service k)))"
proof (cases "event_error u ev k")
  case (Some err)
  then show ?thesis by (simp add: IngestBankEvent_def)
next
  case None
  let ?e = "fill_event u (rnd 0) now ev"
  from None assms obtain a s3 where lv: "a = fst (assess_event env u ?e (bk_service k))" and v: "all_solvent s3" "user_funds s3 = user_funds (bk_service k)"
    "sv_beneficiaries s3 u \<noteq> None" "get_list (sv_transactions s3) u \<noteq> []"
    "last (get_list (sv_transactions s3) u) = event_transaction reason (rnd 1) u ?e a"
    "IngestBankEvent env reason rnd now u ev k =
       (case (if as_Level a = RiskLow then settle_event (rnd 2) (rnd 3) now u ?e s3 else (True, s3)) of
          (False, s4) \<Rightarrow> (Inl (BankService NilMapPanic), k\<lparr>bk_service := s4\<rparr>)
        | (True, s4) \<Rightarrow> (Inr (event_detection reason now u ?e a),
            record_detection env now u (event_detection reason now u ?e a) (k\<lparr>bk_service := s4\<rparr>)))"
    by (rule IngestBankEvent_valid [of u ev k env rnd now reason]) blast
  have pos: "0 < be_AmountPaise ?e" using None by (auto simp: event_error_def split: if_splits)
  have level: "rd_RiskLevel (event_detection reason now u ?e a) = as_Level a" by (simp add: event_detection_def)
  have final: "all_solvent (bk_service (record_detection env now u d (k\<lparr>bk_service := s4\<rparr>))) = all_solvent s4"
    "user_funds (bk_service (record_detection env now u d (k\<lparr>bk_service := s4\<rparr>))) = user_funds s4" for d s4
    using accounts_funds [of "bk_service (record_detection env now u d (k\<lparr>bk_service := s4\<rparr>))" s4] by simp_all
  show ?thesis
  proof (cases "as_Level a = RiskLow")
    case True
    from v(1,3) pos v(4) show ?thesis
    proof (cases rule: settle_event_effect [where ?r1.0 = "rnd 2" and ?r2.0 = "rnd 3" and now = now])
      case (paid s4)
      with True None lv v(2,5,6) level final show ?thesis
        by (simp add: event_transaction_def event_status_def Let_def)
    next
      case (short s4)
      with True None lv v(1,2,6) level final accounts_funds [OF short(3)] show ?thesis by (simp add: Let_def)
    qed
  next
    case False
    with None lv v level final show ?thesis
      by (auto simp: event_transaction_def event_status_def Let_def split: RiskLevel.split)
  qed
qed

text \<open>C38: an event of the bank is refused with nothing changed, or it keeps the funds or takes exactly its amount from
  its customer; it takes the amount exactly when it is scored low and the funds suffice, and it is stored as
  successful exactly then.\<close>

theorem bank_event_effect:
  assumes "all_solvent (bk_service k)" and "sv_beneficiaries (bk_service k) u \<noteq> None"
  shows "case IngestBankEvent env reason rnd now u ev k of
      (Inl err, k') \<Rightarrow> k' = k \<and> event_error u ev k = Some err
    | (Inr det, k') \<Rightarrow> event_error u ev k = None \<and> all_solvent (bk_service k') \<and>
        (let paid = (rd_RiskLevel det = RiskLow \<and> be_AmountPaise ev \<le> user_funds (bk_service k) u) in
         user_funds (bk_service k') = (if paid
           then (user_funds (bk_service k))(u := user_funds (bk_service k) u - be_AmountPaise ev) else user_funds (bk_service k)) \<and>
         (txn_Status (last (get_list (sv_transactions (bk_service k')) u)) = ''success'' \<longleftrightarrow> paid))"
  using bank_event_run [OF assms, where env = env and reason = reason and rnd = rnd and now = now and ev = ev] by (auto simp: Let_def split: prod.splits sum.splits if_splits)

text \<open>The same event delivered twice is charged twice: its name is stored but looked up nowhere.\<close>

theorem replayed_event_charged_again:
  assumes "all_solvent (bk_service k)" and "sv_beneficiaries (bk_service k) u \<noteq> None"
    and "IngestBankEvent env reason rnd now u ev k = (Inr det, k1)" and "rd_RiskLevel det = RiskLow"
    and "IngestBankEvent env reason rnd' now' u ev k1 = (Inr det', k2)" and "rd_RiskLevel det' = RiskLow"
    and "2 * be_AmountPaise ev \<le> user_funds (bk_service k) u" and "0 < be_AmountPaise ev"
  shows "user_funds (bk_service k2) u = user_funds (bk_service k) u - 2 * be_AmountPaise ev"
proof -
  have 1: "all_solvent (bk_service k1)" "sv_beneficiaries (bk_service k1) u \<noteq> None"
    "user_funds (bk_service k1) u = user_funds (bk_service k) u - be_AmountPaise ev"
    using bank_event_run [OF assms(1,2), where env = env and reason = reason and rnd = rnd and now = now and ev = ev] assms(3,4,7,8) by (simp_all add: Let_def)
  then show ?thesis
    using bank_event_run [OF 1(1,2), where env = env and reason = reason and rnd = rnd' and now = now' and ev = ev] assms(5-8) by (simp add: Let_def)
qed

text \<open>An event scored low whose customer has too little money is answered as allowed and posted in the book, although
  nothing is debited: the book and the accounts part.\<close>

theorem short_event_still_posted:
  assumes "all_solvent (bk_service k)" and "sv_beneficiaries (bk_service k) u \<noteq> None"
    and "event_error u ev k = None" and "user_funds (bk_service k) u < be_AmountPaise ev"
    and "as_Level (fst (assess_event env u (fill_event u (rnd 0) now ev) (bk_service k))) = RiskLow"
    and "get_list (sv_accounts (bk_service k)) u = acct # accts" and "ac_ID acct \<noteq> []" and "ac_ID acct \<noteq> be_Counterparty ev"
  shows "\<exists>det k'. IngestBankEvent env reason rnd now u ev k = (Inr det, k') \<and> rd_Action det = ''allow'' \<and>
    user_funds (bk_service k') = user_funds (bk_service k) \<and>
    length (al_entries (sv_accountingLedger (bk_service k'))) = length (al_entries (sv_accountingLedger (bk_service k))) + 2"
proof -
  let ?e = "fill_event u (rnd 0) now ev"
  have pos: "0 < be_AmountPaise ?e" "be_Counterparty ev \<noteq> []"
    using assms(3) by (auto simp: event_error_def split: if_splits)
  from assms(3,1,2) obtain a s3 where v: "a = fst (assess_event env u ?e (bk_service k))"
    "sv_accounts s3 = sv_accounts (bk_service k)" "sv_accountingLedger s3 = sv_accountingLedger (bk_service k)"
    "all_solvent s3" "user_funds s3 = user_funds (bk_service k)" "sv_beneficiaries s3 u \<noteq> None"
    "get_list (sv_transactions s3) u \<noteq> []"
    "IngestBankEvent env reason rnd now u ev k =
       (case (if as_Level a = RiskLow then settle_event (rnd 2) (rnd 3) now u ?e s3 else (True, s3)) of
          (False, s4) \<Rightarrow> (Inl (BankService NilMapPanic), k\<lparr>bk_service := s4\<rparr>)
        | (True, s4) \<Rightarrow> (Inr (event_detection reason now u ?e a),
            record_detection env now u (event_detection reason now u ?e a) (k\<lparr>bk_service := s4\<rparr>)))"
    by (rule IngestBankEvent_valid [of u ev k env rnd now reason]) blast
  from v(4,6) pos(1) v(7) show ?thesis
  proof (cases rule: settle_event_effect [where ?r1.0 = "rnd 2" and ?r2.0 = "rnd 3" and now = now])
    case (paid s4)
    with v(5) assms(4) show ?thesis by simp
  next
    case (short s4)
    let ?k = "record_detection env now u (event_detection reason now u ?e a) (k\<lparr>bk_service := s4\<rparr>)"
    have "user_funds (bk_service ?k) = user_funds (bk_service k)"
      using accounts_funds(1) [of "bk_service ?k" s3] short(3) v(5) by simp
    moreover have "length (al_entries (sv_accountingLedger (bk_service ?k))) =
        length (al_entries (sv_accountingLedger (bk_service k))) + 2"
      using short(4) v(2,3) assms(6-8) pos
      by (simp add: post_event_def PostOutgoingPayment_def PostTransaction_def Let_def)
    moreover have "rd_Action (event_detection reason now u ?e a) = ''allow''" using assms(5) v(1)
      by (simp add: event_detection_def event_action_def)
    ultimately show ?thesis using v(1,8) assms(5) short(1) by simp
  qed
qed

text \<open>No freeze stops an event: whatever is frozen, the same answer is given and the same money is taken.\<close>

theorem freeze_does_not_stop_events:
  assumes "all_solvent (bk_service k)" and "sv_beneficiaries (bk_service k) u \<noteq> None"
    and "IngestBankEvent env reason rnd now u ev k = (Inr det, k1)"
  shows "\<exists>det' k2. IngestBankEvent env reason rnd now u ev (with_service (\<lambda>s. s\<lparr>sv_freezeState := f\<rparr>) k) = (Inr det', k2) \<and>
    rd_RiskLevel det' = rd_RiskLevel det \<and> user_funds (bk_service k2) = user_funds (bk_service k1)"
proof -
  let ?f = "with_service (\<lambda>s. s\<lparr>sv_freezeState := f\<rparr>) k" and ?e = "fill_event u (rnd 0) now ev"
  have same: "sv_accounts (bk_service ?f) = sv_accounts (bk_service k)"
    "sv_beneficiaries (bk_service ?f) u \<noteq> None" using assms(2) by (simp_all add: with_service_def)
  note funds = accounts_funds [OF same(1)]
  have "event_error u ev ?f = event_error u ev k" by (simp add: event_error_def with_service_def)
  moreover have "fst (assess_event env u ?e (bk_service ?f)) = fst (assess_event env u ?e (bk_service k))"
    by (cases "GetRiskScore (env_H env) (be_Counterparty ?e) (sv_fraudGraph (bk_service k))")
      (simp add: assess_event_def graph_score_def with_service_def risk_signal_def average_floor_def known_recipient_def
        Let_def)
  moreover obtain r k2 where r: "IngestBankEvent env reason rnd now u ev ?f = (r, k2)" by fastforce
  ultimately show ?thesis
    using bank_event_run [OF assms(1,2), where env = env and reason = reason and rnd = rnd and now = now and ev = ev] assms(3)
      bank_event_run [OF _ same(2), where env = env and reason = reason and rnd = rnd and now = now and ev = ev] funds assms(1)
    by (cases r) (auto simp: Let_def split: if_splits)
qed

section \<open>A concrete run\<close>

definition demo_event :: BankTransactionEvent where
  "demo_event = \<lparr>be_EventID = ''e1'', be_BankCustomerID = [], be_BankAccountID = [], be_AmountPaise = 10000,
     be_Counterparty = ''Ravi'', be_Channel = ''upi'', be_EventTimestamp = 12 * hour, be_DeviceTrustScore = 1,
     be_BehaviourDrift = 0, be_FailedAuthAttempts = 0, be_IsSynthetic = False, be_Source = []\<rparr>"

definition demo_bank :: "unit bank_service" where
  "demo_bank = \<lparr>bk_service = pay_service, bk_connections = [''u1'' \<mapsto>
       \<lparr>bs_ConnectionID = ''c'', bs_Provider = ''b'', bs_BaseURL = [], bs_ClientID = [], bs_Connected = True,
        bs_Sandbox = True, bs_ConnectedAt = 0, bs_LastHeartbeatAt = 0\<rparr>], bk_detections = (\<lambda>_. None)\<rparr>"

definition demo_ingest :: "unit bank_service \<Rightarrow> (unit, RealtimeDetectionResult) bank_call" where
  "demo_ingest = IngestBankEvent pay_env (\<lambda>_. []) (\<lambda>_. ''r'') (12 * hour) ''u1'' demo_event"

lemma demo_bank_start:
  "all_solvent (bk_service demo_bank)" "sv_beneficiaries (bk_service demo_bank) ''u1'' \<noteq> None"
  "event_error ''u1'' demo_event demo_bank = None" "user_funds (bk_service demo_bank) ''u1'' = 80000"
  using pay_service_solvent
  by (simp_all add: demo_bank_def pay_service_def demo_service_def fresh_service_def event_error_def demo_event_def
      user_funds_def get_list_def demo_account_def TrimSpace_def is_space_def)

lemma demo_event_low: "as_Level (fst (assess_event pay_env ''u1'' e (bk_service demo_bank))) = RiskLow"
  using pay_rating by (simp add: assess_event_def graph_score_def demo_bank_def risk_signal_def Let_def split: prod.split)

lemma bank_event_effect_witness: "user_funds (bk_service (snd (demo_ingest demo_bank))) ''u1'' = 70000"
proof -
  have "\<exists>det k'. demo_ingest demo_bank = (Inr det, k') \<and> rd_RiskLevel det = RiskLow"
    using bank_event_run [OF demo_bank_start(1,2), where env = pay_env and reason = "\<lambda>_. []" and rnd = "\<lambda>_. ''r''" and now = "12 * hour" and
        ev = demo_event]
      demo_bank_start(3) demo_event_low
    by (cases "demo_ingest demo_bank") (auto simp: demo_ingest_def split: sum.splits)
  then obtain det k' where "demo_ingest demo_bank = (Inr det, k')" "rd_RiskLevel det = RiskLow" by blast
  with bank_event_effect [OF demo_bank_start(1,2), where env = pay_env and reason = "\<lambda>_. []" and rnd = "\<lambda>_. ''r''" and now = "12 * hour" and
        ev = demo_event] demo_bank_start(4)
  show ?thesis by (simp add: demo_ingest_def Let_def) (simp add: demo_event_def)
qed

end
