(* ===== verification/CustomerRecords.thy ===== *)
theory CustomerRecords
  imports TransactionEndpoints PlatformGoals
begin

text \<open>
  The records of \<open>service_expansion.go\<close> that live beside the service: insurance policies and claims, emergency
  contacts, scanned addresses, data exports, forwarded fraud reports, feedback, the history of goals and of consents, and the
  rows other services ask to have written on the chain.
\<close>

section \<open>State\<close>

text \<open>A policy entered by the customer has a number and a date, one copied from the policies of the service has amounts.\<close>

record policy_entry =
  pl_policy_id :: string
  pl_category :: string
  pl_insurer_name :: string
  pl_policy_number :: "string option"
  pl_verified :: bool
  pl_created_at :: "time option"
  pl_sum_assured :: "int option"
  pl_premium_amount :: "int option"
  pl_next_premium_date :: "string option"
  pl_deleted_at :: "time option"

record claim_stage =
  sg_status :: string
  sg_timestamp :: time
  sg_note :: string

record claim =
  cl_claim_id :: string
  cl_policy_id :: string
  cl_claim_type :: string
  cl_status :: string
  cl_amount :: int
  cl_documents :: "json option"
  cl_timeline :: "claim_stage list"
  cl_created_at :: time
  cl_updated_at :: time

record contact_entry =
  ct_id :: string
  ct_name :: string
  ct_phone :: string
  ct_relation :: string
  ct_created_at :: time

record url_scan =
  uc_url :: string
  uc_verdict :: string
  uc_flags :: "string list"

record data_export =
  dx_export_id :: string
  dx_user_id :: string
  dx_format :: string
  dx_status :: string
  dx_created_at :: time
  dx_expires_at :: time
  dx_download_url :: "string option"

record goal_event =
  ge_event_type :: string
  ge_created_at :: time
  ge_new_monthly_paise :: "int option"
  ge_goal_id :: "string option"

record consent_event =
  cv_consent_type :: string
  cv_action :: string
  cv_created_at :: time

record feedback_entry =
  fe_insight_id :: string
  fe_action :: string
  fe_reason :: string
  fe_created_at :: time

record 'f records =
  rc_exp :: "'f exp_service"
  rc_insuranceData :: "string \<rightharpoonup> policy_entry list"
  rc_insuranceClaims :: "string \<rightharpoonup> claim list"
  rc_emergencyContact :: "string \<rightharpoonup> contact_entry list"
  rc_urlScans :: "string \<rightharpoonup> url_scan list"
  rc_dataExports :: "string \<rightharpoonup> data_export"
  rc_goalHistory :: "string \<rightharpoonup> goal_event list"
  rc_consentHistory :: "string \<rightharpoonup> consent_event list"
  rc_insightFeedback :: "string \<rightharpoonup> feedback_entry list"
  rc_fraudForwarded :: "string \<rightharpoonup> bool"

datatype record_error =
    RecordService svc_error | PolicyNotFound | ClaimNotFound | ContactNotFound | ExportNotFound | PremiumAmountRequired
  | NameAndPhoneRequired | URLRequired | ReportIDRequired | RecordUserRequired | RecordGoalRequired

type_synonym ('f, 'a) rec = "(record_error + 'a) \<times> 'f records"

abbreviation rc_service :: "'f records \<Rightarrow> 'f Service" where
  "rc_service r \<equiv> xs_service (rc_exp r)"

definition of_customer :: "string \<Rightarrow> 'f records \<Rightarrow> ('f, 'a) rec \<Rightarrow> ('f, 'a) rec" where
  "of_customer userID r res =
     (case requireUser userID (rc_service r) of Some e \<Rightarrow> (Inl (RecordService e), r) | None \<Rightarrow> res)"

definition record_audit ::
  "sv_env \<Rightarrow> time \<Rightarrow> string \<Rightarrow> string \<Rightarrow> string \<Rightarrow> string \<Rightarrow> 'f records \<Rightarrow> 'f records" where
  "record_audit env now userID eventType resource details r =
     r\<lparr>rc_exp := on_service (recordExpandedAudit env now userID eventType resource details) (rc_exp r)\<rparr>"

definition record_block ::
  "sv_env \<Rightarrow> string \<Rightarrow> time \<Rightarrow> string \<Rightarrow> string \<Rightarrow> string \<Rightarrow> string \<Rightarrow> 'f records \<Rightarrow> 'f records" where
  "record_block env rnd now userID recordType referenceID payload r =
     r\<lparr>rc_exp := appendBlockchainRecordLocked env rnd now userID recordType referenceID payload (rc_exp r)\<rparr>"

section \<open>Policies\<close>

definition insurance_add ::
  "sv_env \<Rightarrow> (json \<Rightarrow> string) \<Rightarrow> string \<Rightarrow> time \<Rightarrow> string \<Rightarrow> EndpointInput \<Rightarrow> 'f records \<Rightarrow> ('f, policy_entry) rec" where
  "insurance_add env fmt rnd now userID input r =
     of_customer userID r
       (let number = expString fmt (ei_Body input) ''policy_number'';
            policy = \<lparr>pl_policy_id = ''policy-'' @ rnd,
              pl_category = firstNonEmpty (expString fmt (ei_Body input) ''category'') ''life'',
              pl_insurer_name = firstNonEmpty (expString fmt (ei_Body input) ''insurer_name'') ''Demo Insurance'',
              pl_policy_number = Some number, pl_verified = (\<not> contains (ToLower number) ''fake''),
              pl_created_at = Some now, pl_sum_assured = None, pl_premium_amount = None, pl_next_premium_date = None,
              pl_deleted_at = None\<rparr>;
            r1 = r\<lparr>rc_insuranceData := (rc_insuranceData r)(userID \<mapsto> get_list (rc_insuranceData r) userID @ [policy])\<rparr>
        in (Inr policy, record_audit env now userID ''insurance_policy_added'' ''insurance'' ''Insurance policy added'' r1))"

definition legacy_policy :: "InsurancePolicy \<Rightarrow> policy_entry" where
  "legacy_policy p =
     \<lparr>pl_policy_id = ip_PolicyID p, pl_category = ip_PolicyType p, pl_insurer_name = ip_Insurer p,
      pl_policy_number = None, pl_verified = True, pl_created_at = None, pl_sum_assured = Some (ip_SumAssuredPaise p),
      pl_premium_amount = Some (ip_PremiumPaise p), pl_next_premium_date = Some (ip_NextDueDate p), pl_deleted_at = None\<rparr>"

text \<open>An empty list is filled from the policies of the service first.\<close>

definition findInsurancePolicy :: "string \<Rightarrow> string \<Rightarrow> 'f records \<Rightarrow> policy_entry option \<times> 'f records" where
  "findInsurancePolicy userID policyID r =
     (let legacy = map legacy_policy (get_list (pe_insurance (sv_personal (rc_service r))) userID);
          r1 = (if get_list (rc_insuranceData r) userID = [] \<and> legacy \<noteq> []
                then r\<lparr>rc_insuranceData := (rc_insuranceData r)(userID \<mapsto> legacy)\<rparr> else r)
      in (find (\<lambda>p. pl_policy_id p = policyID) (get_list (rc_insuranceData r1) userID), r1))"

definition insurance_detail :: "string \<Rightarrow> EndpointInput \<Rightarrow> 'f records \<Rightarrow> ('f, policy_entry) rec" where
  "insurance_detail userID input r =
     of_customer userID r
       (case findInsurancePolicy userID (path_id ''policyID'' input) r of
          (None, r1) \<Rightarrow> (Inl PolicyNotFound, r1) | (Some p, r1) \<Rightarrow> (Inr p, r1))"

definition insurance_delete ::
  "sv_env \<Rightarrow> time \<Rightarrow> string \<Rightarrow> EndpointInput \<Rightarrow> 'f records \<Rightarrow> ('f, string) rec" where
  "insurance_delete env now userID input r =
     of_customer userID r
       (let i = path_id ''policyID'' input; items = get_list (rc_insuranceData r) userID in
        if find (\<lambda>p. pl_policy_id p = i) items = None then (Inl PolicyNotFound, r)
        else (Inr i, record_audit env now userID ''insurance_policy_deleted'' ''insurance''
               ''Insurance policy soft deleted''
               (r\<lparr>rc_insuranceData := (rc_insuranceData r)(userID \<mapsto>
                  update_first (\<lambda>p. pl_policy_id p = i) (pl_deleted_at_update (\<lambda>_. Some now)) items)\<rparr>)))"

definition insurance_premium_payment ::
  "sv_env \<Rightarrow> (string \<Rightarrow> int \<Rightarrow> string) \<Rightarrow> string \<Rightarrow> time \<Rightarrow> string \<Rightarrow> EndpointInput \<Rightarrow> 'f records \<Rightarrow> ('f, string \<times> int) rec" where
  "insurance_premium_payment env print rnd now userID input r =
     of_customer userID r
       (let policyID = path_id ''policyID'' input; amount = expInt64 (ei_Body input) ''amount'' in
        if amount \<le> 0 then (Inl PremiumAmountRequired, r)
        else (Inr (policyID, amount),
              record_audit env now userID ''insurance_premium_paid'' ''insurance'' ''Insurance premium payment recorded''
                (record_block env rnd now userID ''insurance_premium'' policyID (print policyID amount) r)))"

section \<open>Claims\<close>

definition insurance_claim_create ::
  "sv_env \<Rightarrow> (json \<Rightarrow> string) \<Rightarrow> (claim \<Rightarrow> string) \<Rightarrow> string \<Rightarrow> string \<Rightarrow> time \<Rightarrow> string \<Rightarrow> EndpointInput \<Rightarrow> 'f records
     \<Rightarrow> ('f, claim) rec" where
  "insurance_claim_create env fmt print rnd rndBlock now userID input r =
     of_customer userID r
       (let policyID = path_id ''policyID'' input; claimID = ''claim-'' @ rnd;
            claim = \<lparr>cl_claim_id = claimID, cl_policy_id = policyID,
              cl_claim_type = firstNonEmpty (expString fmt (ei_Body input) ''claim_type'') ''general'',
              cl_status = ''initiated'', cl_amount = expInt64 (ei_Body input) ''amount'',
              cl_documents = ei_Body input ''documents'',
              cl_timeline = [\<lparr>sg_status = ''initiated'', sg_timestamp = now, sg_note = ''Claim initiated''\<rparr>],
              cl_created_at = now, cl_updated_at = now\<rparr>;
            r1 = r\<lparr>rc_insuranceClaims := (rc_insuranceClaims r)(policyID \<mapsto>
                   get_list (rc_insuranceClaims r) policyID @ [claim])\<rparr>
        in (Inr claim, record_audit env now userID ''insurance_claim_created'' ''insurance'' ''Insurance claim initiated''
              (record_block env rndBlock now userID ''insurance_claim'' claimID (print claim) r1)))"

definition insurance_claims_list :: "string \<Rightarrow> EndpointInput \<Rightarrow> 'f records \<Rightarrow> ('f, claim list) rec" where
  "insurance_claims_list userID input r =
     of_customer userID r (Inr (get_list (rc_insuranceClaims r) (path_id ''policyID'' input)), r)"

definition find_claim :: "EndpointInput \<Rightarrow> 'f records \<Rightarrow> claim option" where
  "find_claim input r =
     find (\<lambda>c. cl_claim_id c = path_id ''claimID'' input) (get_list (rc_insuranceClaims r) (path_id ''policyID'' input))"

definition insurance_claim_detail :: "string \<Rightarrow> EndpointInput \<Rightarrow> 'f records \<Rightarrow> ('f, claim) rec" where
  "insurance_claim_detail userID input r =
     of_customer userID r (case find_claim input r of None \<Rightarrow> (Inl ClaimNotFound, r) | Some c \<Rightarrow> (Inr c, r))"

definition advance_claim :: "time \<Rightarrow> string \<Rightarrow> string \<Rightarrow> claim \<Rightarrow> claim" where
  "advance_claim now status note c =
     c\<lparr>cl_status := status, cl_timeline := cl_timeline c @ [\<lparr>sg_status = status, sg_timestamp = now, sg_note = note\<rparr>],
       cl_updated_at := now\<rparr>"

definition insurance_claim_update ::
  "sv_env \<Rightarrow> (json \<Rightarrow> string) \<Rightarrow> time \<Rightarrow> string \<Rightarrow> EndpointInput \<Rightarrow> 'f records \<Rightarrow> ('f, claim) rec" where
  "insurance_claim_update env fmt now userID input r =
     of_customer userID r
       (let policyID = path_id ''policyID'' input; claimID = path_id ''claimID'' input;
            status = firstNonEmpty (expString fmt (ei_Body input) ''status'') ''under_review'';
            note = firstNonEmpty (expString fmt (ei_Body input) ''note'') ''status updated''
        in case find_claim input r of
            None \<Rightarrow> (Inl ClaimNotFound, r)
          | Some c \<Rightarrow>
              (Inr (advance_claim now status note c),
               record_audit env now userID ''insurance_claim_updated'' ''insurance'' ''Insurance claim status updated''
                 (r\<lparr>rc_insuranceClaims := (rc_insuranceClaims r)(policyID \<mapsto>
                    update_first (\<lambda>c. cl_claim_id c = claimID) (advance_claim now status note)
                      (get_list (rc_insuranceClaims r) policyID))\<rparr>)))"

section \<open>Contacts\<close>

definition security_emergency_contacts_list :: "string \<Rightarrow> 'f records \<Rightarrow> ('f, contact_entry list) rec" where
  "security_emergency_contacts_list userID r = of_customer userID r (Inr (get_list (rc_emergencyContact r) userID), r)"

definition security_emergency_contacts_add ::
  "sv_env \<Rightarrow> (json \<Rightarrow> string) \<Rightarrow> string \<Rightarrow> time \<Rightarrow> string \<Rightarrow> EndpointInput \<Rightarrow> 'f records \<Rightarrow> ('f, contact_entry) rec" where
  "security_emergency_contacts_add env fmt rnd now userID input r =
     of_customer userID r
       (let name = TrimSpace (expString fmt (ei_Body input) ''name''); phone = TrimSpace (expString fmt (ei_Body input) ''phone'')
        in if name = [] \<or> phone = [] then (Inl NameAndPhoneRequired, r)
           else
             let entry = \<lparr>ct_id = ''contact-'' @ rnd, ct_name = name, ct_phone = phone,
                   ct_relation = expString fmt (ei_Body input) ''relation'', ct_created_at = now\<rparr>
             in (Inr entry, record_audit env now userID ''emergency_contact_added'' ''security'' ''Emergency contact added''
                   (r\<lparr>rc_emergencyContact := (rc_emergencyContact r)(userID \<mapsto>
                      get_list (rc_emergencyContact r) userID @ [entry])\<rparr>)))"

fun delete_first :: "('a \<Rightarrow> bool) \<Rightarrow> 'a list \<Rightarrow> 'a list" where
  "delete_first P [] = []"
| "delete_first P (x # xs) = (if P x then xs else x # delete_first P xs)"

definition security_emergency_contacts_delete ::
  "sv_env \<Rightarrow> time \<Rightarrow> string \<Rightarrow> EndpointInput \<Rightarrow> 'f records \<Rightarrow> ('f, string) rec" where
  "security_emergency_contacts_delete env now userID input r =
     of_customer userID r
       (let i = path_id ''contactID'' input; rows = get_list (rc_emergencyContact r) userID in
        if find (\<lambda>c. ct_id c = i) rows = None then (Inl ContactNotFound, r)
        else (Inr i, record_audit env now userID ''emergency_contact_deleted'' ''security'' ''Emergency contact deleted''
               (r\<lparr>rc_emergencyContact := (rc_emergencyContact r)(userID \<mapsto> delete_first (\<lambda>c. ct_id c = i) rows)\<rparr>)))"

section \<open>Security\<close>

definition scan_verdict :: "string \<Rightarrow> string \<times> string list" where
  "scan_verdict url =
     (let l = ToLower url;
          (v1, f1) = (if contains l ''bit.ly'' \<or> contains l ''tinyurl'' then (''suspicious'', [''short_link'']) else (''safe'', []))
      in if contains l ''free-money'' \<or> contains l ''urgent'' then (''blocked'', f1 @ [''social_engineering_pattern''])
         else (v1, f1))"

definition security_url_scan ::
  "sv_env \<Rightarrow> (json \<Rightarrow> string) \<Rightarrow> (url_scan \<Rightarrow> string) \<Rightarrow> string \<Rightarrow> time \<Rightarrow> string \<Rightarrow> EndpointInput \<Rightarrow> 'f records
     \<Rightarrow> ('f, url_scan) rec" where
  "security_url_scan env fmt print rnd now userID input r =
     of_customer userID r
       (let url = TrimSpace (expString fmt (ei_Body input) ''url'') in
        if url = [] then (Inl URLRequired, r)
        else
          let (verdict, flags) = scan_verdict url;
              scan = \<lparr>uc_url = url, uc_verdict = verdict, uc_flags = flags\<rparr>;
              r1 = r\<lparr>rc_urlScans := (rc_urlScans r)(userID \<mapsto> get_list (rc_urlScans r) userID @ [scan])\<rparr>
          in (Inr scan, record_audit env now userID ''url_scanned'' ''security'' ''URL scan completed''
                (record_block env rnd now userID ''security_url_scan'' ''url-scan'' (print scan) r1)))"

definition security_tips :: "string \<Rightarrow> 'f records \<Rightarrow> ('f, string list) rec" where
  "security_tips userID r =
     of_customer userID r
       (let tips = [''Never share OTP, UPI PIN, or CVV over calls or messages.'',
              ''Verify payment links against official lender domains before paying.'',
              ''Use emergency freeze immediately if device compromise is suspected.''];
            scans = get_list (rc_urlScans r) userID
        in (Inr (if scans \<noteq> [] \<and> uc_verdict (last scans) \<noteq> ''safe''
                 then ''Recent suspicious URL activity detected. Re-check unknown links before opening.'' # tips
                 else tips), r))"

definition security_forward_nccp ::
  "sv_env \<Rightarrow> (json \<Rightarrow> string) \<Rightarrow> time \<Rightarrow> string \<Rightarrow> EndpointInput \<Rightarrow> 'f records \<Rightarrow> ('f, string) rec" where
  "security_forward_nccp env fmt now userID input r =
     of_customer userID r
       (let reportID = TrimSpace (expString fmt (ei_Body input) ''report_id'') in
        if reportID = [] then (Inl ReportIDRequired, r)
        else (Inr reportID, record_audit env now userID ''fraud_report_forwarded'' ''security''
                ''Fraud report forwarded to NCCP''
                (r\<lparr>rc_fraudForwarded := (rc_fraudForwarded r)(reportID \<mapsto> True)\<rparr>)))"

definition insights_feedback ::
  "(json \<Rightarrow> string) \<Rightarrow> time \<Rightarrow> string \<Rightarrow> EndpointInput \<Rightarrow> 'f records \<Rightarrow> ('f, feedback_entry) rec" where
  "insights_feedback fmt now userID input r =
     of_customer userID r
       (let entry = \<lparr>fe_insight_id = path_id ''insightID'' input,
              fe_action = firstNonEmpty (expString fmt (ei_Body input) ''action'') ''thumbs_up'',
              fe_reason = expString fmt (ei_Body input) ''reason'', fe_created_at = now\<rparr>
        in (Inr entry, r\<lparr>rc_insightFeedback := (rc_insightFeedback r)(userID \<mapsto>
              get_list (rc_insightFeedback r) userID @ [entry])\<rparr>))"

section \<open>Settings\<close>

definition settings_data_export_create ::
  "sv_env \<Rightarrow> (json \<Rightarrow> string) \<Rightarrow> string \<Rightarrow> time \<Rightarrow> string \<Rightarrow> EndpointInput \<Rightarrow> 'f records \<Rightarrow> ('f, string) rec" where
  "settings_data_export_create env fmt rnd now userID input r =
     of_customer userID r
       (let exportID = ''export-'' @ rnd;
            rec = \<lparr>dx_export_id = exportID, dx_user_id = userID,
              dx_format = firstNonEmpty (expString fmt (ei_Body input) ''format'') ''pdf'', dx_status = ''processing'',
              dx_created_at = now, dx_expires_at = now + 24 * hour, dx_download_url = None\<rparr>
        in (Inr exportID, record_audit env now userID ''data_export_requested'' ''settings'' ''User requested data export''
              (r\<lparr>rc_dataExports := (rc_dataExports r)(exportID \<mapsto> rec)\<rparr>)))"

definition settings_data_export_status ::
  "time \<Rightarrow> string \<Rightarrow> EndpointInput \<Rightarrow> 'f records \<Rightarrow> ('f, data_export) rec" where
  "settings_data_export_status now userID input r =
     of_customer userID r
       (let exportID = path_id ''exportID'' input in
        case rc_dataExports r exportID of None \<Rightarrow> (Inl ExportNotFound, r)
        | Some rec0 \<Rightarrow>
            if now - dx_created_at rec0 > 2 * second then
              let rec = rec0\<lparr>dx_status := ''ready'', dx_download_url := Some (''/downloads/'' @ exportID)\<rparr>
              in (Inr rec, r\<lparr>rc_dataExports := (rc_dataExports r)(exportID \<mapsto> rec)\<rparr>)
            else (Inr rec0, r))"

text \<open>\<open>order\<close> lists the customer's consents as the range over the map visits them.\<close>

definition settings_consent_history ::
  "(string \<times> bool) list \<Rightarrow> time \<Rightarrow> string \<Rightarrow> 'f records \<Rightarrow> ('f, consent_event list) rec" where
  "settings_consent_history order now userID r =
     of_customer userID r
       (let events = map (\<lambda>(k, v). \<lparr>cv_consent_type = k, cv_action = (if v then ''granted'' else ''revoked''),
              cv_created_at = now - 7 * 24 * hour\<rparr>) order;
            r1 = (if get_list (rc_consentHistory r) userID = [] \<and> events \<noteq> []
                  then r\<lparr>rc_consentHistory := (rc_consentHistory r)(userID \<mapsto> events)\<rparr> else r)
        in (Inr (get_list (rc_consentHistory r1) userID), r1))"

section \<open>Goals\<close>

definition goal_path :: "EndpointInput \<Rightarrow> string" where
  "goal_path input = path_id ''goalID'' input"

record goal_plan =
  gp_new_monthly :: int
  gp_extend_deadline :: time
  gp_increase_by :: int

definition replan :: "time \<Rightarrow> Goal \<Rightarrow> goal_plan" where
  "replan now goal =
     (let remaining0 = i64 (gl_TargetAmountPaise goal - gl_SavedAmountPaise goal); remaining = max 0 remaining0;
          monthsLeft = max 1 (int_of_float (fl (Hours (Sub (gl_TargetDate goal) now) / 720)));
          newMonthly = remaining div monthsLeft
      in \<lparr>gp_new_monthly = newMonthly, gp_extend_deadline = AddMonths (gl_TargetDate goal) 6,
          gp_increase_by = int64_of (fl (fl (of_int newMonthly) * fl (18 / 100)))\<rparr>)"

definition goals_recalculate ::
  "sv_env \<Rightarrow> time \<Rightarrow> string \<Rightarrow> EndpointInput \<Rightarrow> 'f records \<Rightarrow> ('f, goal_plan) rec" where
  "goals_recalculate env now userID input r =
     of_customer userID r
       (let goalID = goal_path input in
        if goalID = [] then (Inl RecordGoalRequired, r)
        else case GoalByID userID goalID (rc_service r) of
            Inl e \<Rightarrow> (Inl (RecordService e), r)
          | Inr goal \<Rightarrow>
              let plan = replan now goal; hKey = userID @ '':'' @ goalID;
                  event = \<lparr>ge_event_type = ''recalculated'', ge_created_at = now,
                    ge_new_monthly_paise = Some (gp_new_monthly plan), ge_goal_id = None\<rparr>;
                  r1 = r\<lparr>rc_goalHistory := (rc_goalHistory r)(hKey \<mapsto> get_list (rc_goalHistory r) hKey @ [event])\<rparr>
              in (Inr plan, record_audit env now userID ''goal_recalculated'' ''goal''
                    ''Goal allocation recalculated after missed contribution'' r1))"

definition goals_archived :: "string \<Rightarrow> 'f records \<Rightarrow> ('f, Goal list) rec" where
  "goals_archived userID r =
     of_customer userID r
       (Inr (filter (\<lambda>g. gl_Status g = ''closed'' \<or> gl_Status g = ''completed'') (Goals userID (rc_service r))), r)"

definition milestones_reached :: "Goal \<Rightarrow> string list" where
  "milestones_reached goal =
     (let completion = (if gl_TargetAmountPaise goal > 0
            then fl (fl (of_int (gl_SavedAmountPaise goal)) / fl (of_int (gl_TargetAmountPaise goal))) else 0)
      in map snd (filter (\<lambda>(pct, label). completion \<ge> pct)
           [(1 / 4, ''25%''), (1 / 2, ''50%''), (3 / 4, ''75%''), (1, ''100%'')]))"

definition goals_milestones :: "string \<Rightarrow> EndpointInput \<Rightarrow> 'f records \<Rightarrow> ('f, string list) rec" where
  "goals_milestones userID input r =
     of_customer userID r
       (case GoalByID userID (goal_path input) (rc_service r) of
          Inl e \<Rightarrow> (Inl (RecordService e), r) | Inr goal \<Rightarrow> (Inr (milestones_reached goal), r))"

text \<open>Two events of one instant may come in either order; the model keeps the stored one.\<close>

definition goals_history :: "time \<Rightarrow> string \<Rightarrow> EndpointInput \<Rightarrow> 'f records \<Rightarrow> ('f, goal_event list) rec" where
  "goals_history now userID input r =
     of_customer userID r
       (let goalID = goal_path input;
            stored = get_list (rc_goalHistory r) (userID @ '':'' @ goalID);
            events = (if stored = [] then [\<lparr>ge_event_type = ''created'', ge_created_at = AddMonths now (- 2),
                        ge_new_monthly_paise = None, ge_goal_id = Some goalID\<rparr>] else stored)
        in (Inr (sort_key ge_created_at events), r))"

definition goals_market_impact_recalculate ::
  "sv_env \<Rightarrow> time \<Rightarrow> string \<Rightarrow> 'f records \<Rightarrow> ('f, (string \<times> time \<times> time) list) rec" where
  "goals_market_impact_recalculate env now userID r =
     of_customer userID r
       (Inr (map (\<lambda>g. (gl_ID g, gl_TargetDate g, AddMonths (gl_TargetDate g) 2))
          (filter (\<lambda>g. gl_Status g = ''active'') (Goals userID (rc_service r)))),
        record_audit env now userID ''goals_market_recalculated'' ''goal''
          ''Active goals updated after market impact event'' r)"

section \<open>Records for other services\<close>

datatype block_endpoint = ConsentRecord | InsuranceClaimRecord | LoanRepaymentRecord | InvestmentTradeRecord

fun block_type :: "block_endpoint \<Rightarrow> string" where
  "block_type ConsentRecord = ''consent''"
| "block_type InsuranceClaimRecord = ''insurance_claim''"
| "block_type LoanRepaymentRecord = ''loan_repayment''"
| "block_type InvestmentTradeRecord = ''investment_trade''"

definition blockchain_record_endpoint ::
  "sv_env \<Rightarrow> (json \<Rightarrow> string) \<Rightarrow> (string \<Rightarrow> string \<Rightarrow> time \<Rightarrow> string) \<Rightarrow> string \<Rightarrow> time \<Rightarrow> block_endpoint \<Rightarrow> string
     \<Rightarrow> EndpointInput \<Rightarrow> 'f records \<Rightarrow> ('f, string \<times> int) rec" where
  "blockchain_record_endpoint env fmt print rnd now endpoint userID input r =
     (let field = expString fmt (ei_Body input);
          targetUser0 = TrimSpace (field ''user_id''); targetUser = (if targetUser0 = [] then userID else targetUser0)
      in if TrimSpace targetUser = [] then (Inl RecordUserRequired, r)
         else
           let reference0 = firstNonEmpty (field ''consent_event_id'') (field ''claim_id'');
               referenceID = (if reference0 = [] then firstNonEmpty (field ''order_id'') (field ''loan_id'') else reference0);
               recordType = block_type endpoint;
               r1 = record_block env rnd now targetUser recordType referenceID (print referenceID recordType now) r;
               item = last (get_list (xs_blockchainData (rc_exp r1)) targetUser)
           in (Inr (bc_tx_hash item, bc_block_number item), r1))"

definition blockchain_cooling_off ::
  "(json \<Rightarrow> string) \<Rightarrow> time \<Rightarrow> string \<Rightarrow> EndpointInput \<Rightarrow> 'f records \<Rightarrow> ('f, string \<times> bool \<times> int) rec" where
  "blockchain_cooling_off fmt now userID input r =
     (let txID = path_id ''txID'' input; targetUser = firstNonEmpty (expString fmt (ei_Body input) ''user_id'') userID
      in if targetUser = [] then (Inl RecordUserRequired, r)
         else case CoolingOffState now targetUser txID (rc_service r) of
             Inl e \<Rightarrow> (Inl (RecordService e), r)
           | Inr (active, remaining) \<Rightarrow> (Inr (txID, active, int_of_float (Seconds remaining)), r))"

section \<open>Runs\<close>

text \<open>A call names its random strings, its instant, the caller and the request.\<close>

datatype record_call =
    PolicyAdd string time string EndpointInput | PolicyDetail string EndpointInput | PolicyDelete time string EndpointInput
  | PremiumPay string time string EndpointInput | ClaimCreate string string time string EndpointInput
  | ClaimUpdate time string EndpointInput | ContactAdd string time string EndpointInput
  | ContactDelete time string EndpointInput | UrlScan string time string EndpointInput
  | ForwardReport time string EndpointInput | Feedback time string EndpointInput
  | ExportCreate string time string EndpointInput | ExportStatus time string EndpointInput
  | ConsentEvents "(string \<times> bool) list" time string | GoalReplan time string EndpointInput
  | GoalImpact time string | BlockRecord string time block_endpoint string EndpointInput

text \<open>The printers of payloads.\<close>

record printers =
  pr_value :: "json \<Rightarrow> string"
  pr_premium :: "string \<Rightarrow> int \<Rightarrow> string"
  pr_claim :: "claim \<Rightarrow> string"
  pr_scan :: "url_scan \<Rightarrow> string"
  pr_block :: "string \<Rightarrow> string \<Rightarrow> time \<Rightarrow> string"

fun record_step :: "sv_env \<Rightarrow> printers \<Rightarrow> 'f records \<Rightarrow> record_call \<Rightarrow> 'f records" where
  "record_step env pr r (PolicyAdd rnd now u input) = snd (insurance_add env (pr_value pr) rnd now u input r)"
| "record_step env pr r (PolicyDetail u input) = snd (insurance_detail u input r)"
| "record_step env pr r (PolicyDelete now u input) = snd (insurance_delete env now u input r)"
| "record_step env pr r (PremiumPay rnd now u input) = snd (insurance_premium_payment env (pr_premium pr) rnd now u input r)"
| "record_step env pr r (ClaimCreate rnd rndB now u input) =
     snd (insurance_claim_create env (pr_value pr) (pr_claim pr) rnd rndB now u input r)"
| "record_step env pr r (ClaimUpdate now u input) = snd (insurance_claim_update env (pr_value pr) now u input r)"
| "record_step env pr r (ContactAdd rnd now u input) = snd (security_emergency_contacts_add env (pr_value pr) rnd now u input r)"
| "record_step env pr r (ContactDelete now u input) = snd (security_emergency_contacts_delete env now u input r)"
| "record_step env pr r (UrlScan rnd now u input) = snd (security_url_scan env (pr_value pr) (pr_scan pr) rnd now u input r)"
| "record_step env pr r (ForwardReport now u input) = snd (security_forward_nccp env (pr_value pr) now u input r)"
| "record_step env pr r (Feedback now u input) = snd (insights_feedback (pr_value pr) now u input r)"
| "record_step env pr r (ExportCreate rnd now u input) = snd (settings_data_export_create env (pr_value pr) rnd now u input r)"
| "record_step env pr r (ExportStatus now u input) = snd (settings_data_export_status now u input r)"
| "record_step env pr r (ConsentEvents order now u) = snd (settings_consent_history order now u r)"
| "record_step env pr r (GoalReplan now u input) = snd (goals_recalculate env now u input r)"
| "record_step env pr r (GoalImpact now u) = snd (goals_market_impact_recalculate env now u r)"
| "record_step env pr r (BlockRecord rnd now e u input) =
     snd (blockchain_record_endpoint env (pr_value pr) (pr_block pr) rnd now e u input r)"

section \<open>Claims keep their history\<close>

lemma record_frames [simp]:
  "rc_insuranceClaims (record_audit env now u a b c r) = rc_insuranceClaims r"
  "rc_insuranceClaims (record_block env rnd now u a b c r) = rc_insuranceClaims r"
  "rc_emergencyContact (record_audit env now u a b c r) = rc_emergencyContact r"
  "rc_dataExports (record_audit env now u a b c r) = rc_dataExports r"
  "rc_insuranceData (record_audit env now u a b c r) = rc_insuranceData r"
  by (simp_all add: record_audit_def record_block_def)

lemma record_audit_user [simp]: "requireUser v (rc_service (record_audit env now u a b c r)) = requireUser v (rc_service r)"
  by (auto simp: record_audit_def on_service_def recordExpandedAudit_def requireUser_def frame_simps)

lemma of_customer_snd: "snd (of_customer u r res) = (if requireUser u (rc_service r) = None then snd res else r)"
  by (simp add: of_customer_def split: option.split)

text \<open>The claims after a call: unchanged, one more at the end of a list, or one advanced.\<close>

definition claim_made :: "string \<Rightarrow> time \<Rightarrow> claim \<Rightarrow> bool" where
  "claim_made policyID now c \<longleftrightarrow> cl_policy_id c = policyID \<and> cl_status c = ''initiated'' \<and>
     cl_timeline c = [\<lparr>sg_status = ''initiated'', sg_timestamp = now, sg_note = ''Claim initiated''\<rparr>] \<and>
     cl_created_at c = now \<and> cl_updated_at c = now"

lemma record_step_claims:
  obtains (same) "rc_insuranceClaims (record_step env pr r call) = rc_insuranceClaims r"
  | (made) p now c where "claim_made p now c"
      "rc_insuranceClaims (record_step env pr r call) = (rc_insuranceClaims r)(p \<mapsto> get_list (rc_insuranceClaims r) p @ [c])"
  | (advanced) p i now status remark where
      "rc_insuranceClaims (record_step env pr r call) = (rc_insuranceClaims r)(p \<mapsto>
         update_first (\<lambda>c. cl_claim_id c = i) (advance_claim now status remark) (get_list (rc_insuranceClaims r) p))"
proof (cases call)
  case (ClaimCreate rnd rndB now u input)
  have "\<exists>c. claim_made (path_id ''policyID'' input) now c \<and> rc_insuranceClaims (record_step env pr r call) =
      (rc_insuranceClaims r)(path_id ''policyID'' input \<mapsto> get_list (rc_insuranceClaims r) (path_id ''policyID'' input) @ [c])"
    if "requireUser u (rc_service r) = None"
    using that by (simp add: ClaimCreate insurance_claim_create_def of_customer_snd Let_def claim_made_def)
      (intro exI conjI; (rule refl)?; simp)
  with same made show ?thesis
    by (cases "requireUser u (rc_service r) = None") (auto simp: ClaimCreate insurance_claim_create_def of_customer_snd)
next
  case (ClaimUpdate now u input)
  show ?thesis
  proof (cases "requireUser u (rc_service r) = None \<and> find_claim input r \<noteq> None")
    case True
    with advanced show ?thesis
      by (auto simp: ClaimUpdate insurance_claim_update_def of_customer_snd Let_def)
  next
    case False
    with same show ?thesis
      by (auto simp: ClaimUpdate insurance_claim_update_def of_customer_snd Let_def)
  qed
qed (rule same; auto simp: of_customer_snd insurance_add_def insurance_detail_def findInsurancePolicy_def insurance_delete_def
      insurance_premium_payment_def security_emergency_contacts_add_def security_emergency_contacts_delete_def
      security_url_scan_def security_forward_nccp_def insights_feedback_def settings_data_export_create_def
      settings_data_export_status_def settings_consent_history_def goals_recalculate_def
      goals_market_impact_recalculate_def blockchain_record_endpoint_def Let_def
      split: option.split sum.split prod.split)+

lemma advance_claim_fields [simp]:
  "cl_claim_id (advance_claim now status remark c) = cl_claim_id c"
  "cl_policy_id (advance_claim now status remark c) = cl_policy_id c"
  by (simp_all add: advance_claim_def)

definition claim_ok :: "claim \<Rightarrow> bool" where
  "claim_ok c \<longleftrightarrow> cl_timeline c \<noteq> [] \<and> sg_status (hd (cl_timeline c)) = ''initiated'' \<and>
     sg_timestamp (hd (cl_timeline c)) = cl_created_at c \<and>
     sg_status (last (cl_timeline c)) = cl_status c \<and> sg_timestamp (last (cl_timeline c)) = cl_updated_at c"

definition claims_ok :: "'f records \<Rightarrow> bool" where
  "claims_ok r \<longleftrightarrow> (\<forall>p. \<forall>c \<in> set (get_list (rc_insuranceClaims r) p). claim_ok c \<and> cl_policy_id c = p)"

lemma claim_ok_steps:
  "claim_made p now c \<Longrightarrow> claim_ok c" "claim_ok c \<Longrightarrow> claim_ok (advance_claim now status note c)"
  by (auto simp: claim_made_def claim_ok_def advance_claim_def)

lemma claims_ok_step: "claims_ok r \<Longrightarrow> claims_ok (record_step env pr r call)"
proof (cases rule: record_step_claims [of env pr r call])
  case same
  then show "claims_ok r \<Longrightarrow> ?thesis" by (simp add: claims_ok_def)
next
  case (made p now c)
  moreover have "cl_policy_id c = p" using made(1) by (simp add: claim_made_def)
  ultimately show "claims_ok r \<Longrightarrow> ?thesis" by (auto simp: claims_ok_def claim_ok_steps)
next
  case (advanced p i now status remark)
  assume "claims_ok r"
  then have "\<forall>c \<in> set (get_list (rc_insuranceClaims r) p). claim_ok c \<and> cl_policy_id c = p" by (simp add: claims_ok_def)
  then have "\<forall>c \<in> set (update_first (\<lambda>c. cl_claim_id c = i) (advance_claim now status remark)
      (get_list (rc_insuranceClaims r) p)). claim_ok c \<and> cl_policy_id c = p"
    using set_update_first_subset [of "\<lambda>c. cl_claim_id c = i" "advance_claim now status remark" "get_list (rc_insuranceClaims r) p"]
    by (auto simp: claim_ok_steps(2))
  with \<open>claims_ok r\<close> advanced show ?thesis by (simp add: claims_ok_def)
qed

text \<open>What has been written into the timeline of a claim stays.\<close>

definition timeline_of :: "string \<Rightarrow> string \<Rightarrow> 'f records \<Rightarrow> claim_stage list" where
  "timeline_of p i r =
     (case find (\<lambda>c. cl_claim_id c = i) (get_list (rc_insuranceClaims r) p) of None \<Rightarrow> [] | Some c \<Rightarrow> cl_timeline c)"

lemma find_advance:
  "find (\<lambda>c. cl_claim_id c = i) (update_first (\<lambda>c. cl_claim_id c = j) (advance_claim now status note) cs) =
     (if i = j then map_option (advance_claim now status note) (find (\<lambda>c. cl_claim_id c = i) cs)
      else find (\<lambda>c. cl_claim_id c = i) cs)"
  by (induction cs) auto

lemma timeline_grows: "prefix (timeline_of p i r) (timeline_of p i (record_step env pr r call))"
proof (cases rule: record_step_claims [of env pr r call])
  case same
  then show ?thesis by (simp add: timeline_of_def)
next
  case (made q now c)
  then show ?thesis by (auto simp: timeline_of_def find_snoc split: option.split)
next
  case (advanced q j now status remark)
  then show ?thesis by (auto simp: timeline_of_def find_advance advance_claim_def split: option.split)
qed

interpretation claim_log: append_only "timeline_of p i" "\<lambda>r r'. \<exists>call. r' = record_step env pr r call"
  for p i env pr
  by unfold_locales (auto intro: timeline_grows)

lemma record_run: "(\<lambda>r r'. \<exists>call. r' = record_step env pr r call)\<^sup>*\<^sup>* r (foldl (record_step env pr) r calls)"
proof (induction calls arbitrary: r)
  case (Cons call calls)
  then show ?case by (metis (mono_tags, lifting) converse_rtranclp_into_rtranclp foldl_Cons)
qed simp

text \<open>Whatever calls any customers make, the timeline of every claim begins with its creation, ends with
  its present status, and loses nothing in later calls.\<close>

theorem claim_history_kept:
  assumes "rc_insuranceClaims r = (\<lambda>_. None)"
  shows "(\<forall>p. \<forall>c \<in> set (get_list (rc_insuranceClaims (foldl (record_step env pr) r calls)) p).
      cl_policy_id c = p \<and> cl_timeline c \<noteq> [] \<and> sg_status (hd (cl_timeline c)) = ''initiated'' \<and>
      sg_timestamp (hd (cl_timeline c)) = cl_created_at c \<and> sg_status (last (cl_timeline c)) = cl_status c \<and>
      sg_timestamp (last (cl_timeline c)) = cl_updated_at c) \<and>
    (\<forall>p i. prefix (timeline_of p i (foldl (record_step env pr) r calls))
       (timeline_of p i (foldl (record_step env pr) r (calls @ later))))"
proof -
  have "claims_ok (foldl (record_step env pr) s calls)" if "claims_ok s" for s
    using that by (induction calls arbitrary: s) (simp_all add: claims_ok_step)
  moreover have "claims_ok r" using assms by (simp add: claims_ok_def)
  ultimately have "claims_ok (foldl (record_step env pr) r calls)" by blast
  moreover have "prefix (timeline_of p i (foldl (record_step env pr) r calls))
      (timeline_of p i (foldl (record_step env pr) r (calls @ later)))" for p i
    unfolding foldl_append by (rule claim_log.run_appends [OF record_run])
  ultimately show ?thesis by (simp add: claims_ok_def claim_ok_def)
qed

section \<open>Records of other customers\<close>

text \<open>Claims are found by policy and claim alone: every customer reads and advances the claims of all.\<close>

theorem claims_open_to_all:
  assumes "requireUser v (rc_service r) = None" and "find_claim input r = Some c"
  shows "insurance_claim_detail v input r = (Inr c, r) \<and>
    fst (insurance_claim_update env fmt now v input r) = Inr (advance_claim now
      (firstNonEmpty (expString fmt (ei_Body input) ''status'') ''under_review'')
      (firstNonEmpty (expString fmt (ei_Body input) ''note'') ''status updated'') c)"
  using assms by (simp add: insurance_claim_detail_def insurance_claim_update_def of_customer_def Let_def)

text \<open>Every customer reads the data export of every other.\<close>

theorem exports_open_to_all:
  assumes "requireUser u (rc_service r) = None" and "requireUser v (rc_service r) = None"
  shows "settings_data_export_status now v input r = settings_data_export_status now u input r"
  using assms by (simp add: settings_data_export_status_def of_customer_def)

text \<open>Whoever names a user in the body writes into that user's records.\<close>

lemma block_lands_elsewhere:
  assumes "expString fmt (ei_Body input) ''user_id'' = v" and "TrimSpace v = v" and "v \<noteq> []"
  shows "blockchain_record_endpoint env fmt print rnd now e u input r =
    blockchain_record_endpoint env fmt print rnd now e v input r"
  using assms by (simp add: blockchain_record_endpoint_def Let_def)

section \<open>Policies and contacts\<close>

text \<open>A policy that has been deleted is still shown.\<close>

theorem deleted_policy_still_shown:
  assumes "fst (insurance_delete env now u input r) = Inr i"
  shows "\<exists>p. fst (insurance_detail u input (snd (insurance_delete env now u input r))) = Inr p \<and>
    pl_policy_id p = i \<and> pl_deleted_at p = Some now"
proof -
  let ?items = "get_list (rc_insuranceData r) u" and ?f = "pl_deleted_at_update (\<lambda>_. Some now)"
  have ok: "requireUser u (rc_service r) = None" "i = path_id ''policyID'' input"
    "find (\<lambda>p. pl_policy_id p = i) ?items \<noteq> None"
    using assms by (auto simp: insurance_delete_def of_customer_def Let_def split: option.splits if_splits)
  then obtain p where p: "find (\<lambda>p. pl_policy_id p = i) ?items = Some p" by auto
  have found: "find (\<lambda>p. pl_policy_id p = i) (update_first (\<lambda>p. pl_policy_id p = i) ?f ?items) = Some (?f p)"
    by (rule find_update_first_same [OF p]) simp
  then have "update_first (\<lambda>p. pl_policy_id p = i) ?f ?items \<noteq> []" by auto
  moreover have "pl_policy_id p = i" using p by (auto simp: find_Some_iff)
  moreover have "requireUser u (rc_service (snd (insurance_delete env now u input r))) = None"
    using ok(1) by (simp add: insurance_delete_def of_customer_snd Let_def)
  moreover have "rc_insuranceData (snd (insurance_delete env now u input r)) =
      (rc_insuranceData r)(u \<mapsto> update_first (\<lambda>p. pl_policy_id p = i) ?f ?items)"
    using ok by (auto simp: insurance_delete_def of_customer_snd Let_def)
  ultimately show ?thesis using ok(2) found
    by (simp add: insurance_detail_def of_customer_def findInsurancePolicy_def Let_def)
qed

text \<open>A contact that is added and then deleted leaves the list as it was.\<close>

lemma delete_first_snoc: "find P xs = None \<Longrightarrow> P x \<Longrightarrow> delete_first P (xs @ [x]) = xs"
  by (induction xs) (auto split: if_splits)

theorem contact_added_then_deleted:
  assumes "requireUser u (rc_service r) = None"
    and "TrimSpace (expString fmt (ei_Body input) ''name'') \<noteq> []" and "TrimSpace (expString fmt (ei_Body input) ''phone'') \<noteq> []"
    and "find (\<lambda>c. ct_id c = ''contact-'' @ rnd) (get_list (rc_emergencyContact r) u) = None"
    and "path_id ''contactID'' del = ''contact-'' @ rnd"
  shows "rc_emergencyContact (snd (security_emergency_contacts_delete env t u del
      (snd (security_emergency_contacts_add env fmt rnd now u input r)))) =
    (rc_emergencyContact r)(u \<mapsto> get_list (rc_emergencyContact r) u)"
proof -
  have added: "\<exists>c. ct_id c = ''contact-'' @ rnd \<and>
      rc_emergencyContact (snd (security_emergency_contacts_add env fmt rnd now u input r)) =
        (rc_emergencyContact r)(u \<mapsto> get_list (rc_emergencyContact r) u @ [c])"
    using assms(1-3) by (simp add: security_emergency_contacts_add_def of_customer_snd Let_def)
      (intro exI conjI; (rule refl)?; simp)
  moreover have "requireUser u (rc_service (snd (security_emergency_contacts_add env fmt rnd now u input r))) = None"
    using assms(1-3) by (simp add: security_emergency_contacts_add_def of_customer_snd Let_def)
  ultimately show ?thesis using assms(4,5)
    by (auto simp: security_emergency_contacts_delete_def of_customer_snd Let_def find_snoc delete_first_snoc)
qed

text \<open>The first policy a customer adds hides the policies the service already had.\<close>

theorem added_policy_hides_others:
  assumes "requireUser u (rc_service r) = None" and "get_list (rc_insuranceData r) u = []"
    and "path_id ''policyID'' look \<noteq> ''policy-'' @ rnd"
  shows "fst (insurance_detail u look (snd (insurance_add env fmt rnd now u input r))) = Inl PolicyNotFound"
proof -
  have "\<exists>p. pl_policy_id p = ''policy-'' @ rnd \<and> rc_insuranceData (snd (insurance_add env fmt rnd now u input r)) =
      (rc_insuranceData r)(u \<mapsto> [p])"
    using assms(1,2) by (simp add: insurance_add_def of_customer_snd Let_def) (intro exI conjI; (rule refl)?; simp)
  moreover have "requireUser u (rc_service (snd (insurance_add env fmt rnd now u input r))) = None"
    using assms(1) by (simp add: insurance_add_def of_customer_snd Let_def)
  ultimately show ?thesis using assms(3)
    by (auto simp: insurance_detail_def of_customer_def findInsurancePolicy_def Let_def)
qed

text \<open>The history of consents is drawn up once: what the customer grants or withdraws later never enters it.\<close>

theorem consent_history_frozen:
  assumes "requireUser u (rc_service r) = None" and "get_list (rc_consentHistory r) u \<noteq> []"
  shows "settings_consent_history order now u r = (Inr (get_list (rc_consentHistory r) u), r)"
  using assms by (simp add: settings_consent_history_def of_customer_def Let_def)

text \<open>An amount set aside for every remaining month never overshoots the goal.\<close>

theorem replan_never_overshoots:
  assumes "is_i64 (gl_TargetAmountPaise g - gl_SavedAmountPaise g)"
  shows "0 \<le> gp_new_monthly (replan now g) \<and>
    gp_new_monthly (replan now g) * max 1 (int_of_float (fl (Hours (Sub (gl_TargetDate g) now) / 720)))
      \<le> max 0 (gl_TargetAmountPaise g - gl_SavedAmountPaise g)"
proof -
  have "x div y * y \<le> x" if "0 < y" for x y :: int using that by (simp add: minus_mod_eq_div_mult [symmetric])
  with assms show ?thesis by (simp add: replan_def Let_def i64_id pos_imp_zdiv_nonneg_iff)
qed

section \<open>Concrete runs\<close>

definition demo_records :: "unit records" where
  "demo_records = \<lparr>rc_exp = \<lparr>xs_service = demo_service, xs_simBindings = (\<lambda>_. None), xs_upiPins = (\<lambda>_. None),
       xs_sipActions = (\<lambda>_. None), xs_nomineeChanges = (\<lambda>_. None), xs_blockchainData = (\<lambda>_. None)\<rparr>,
     rc_insuranceData = (\<lambda>_. None), rc_insuranceClaims = (\<lambda>_. None), rc_emergencyContact = (\<lambda>_. None),
     rc_urlScans = (\<lambda>_. None), rc_dataExports = (\<lambda>_. None), rc_goalHistory = (\<lambda>_. None),
     rc_consentHistory = (\<lambda>_. None), rc_insightFeedback = (\<lambda>_. None), rc_fraudForwarded = (\<lambda>_. None)\<rparr>"

definition demo_printers :: printers where
  "demo_printers = \<lparr>pr_value = (\<lambda>_. []), pr_premium = (\<lambda>_ _. []), pr_claim = (\<lambda>_. []), pr_scan = (\<lambda>_. []),
     pr_block = (\<lambda>_ _ _. [])\<rparr>"

definition claim_input :: EndpointInput where
  "claim_input = \<lparr>ei_PathParams = (\<lambda>k. if k = ''policyID'' then ''p1'' else ''claim-r''),
     ei_Body = [''amount'' \<mapsto> JNumber 500], ei_Headers = (\<lambda>_. [])\<rparr>"

lemma claim_history_kept_witness:
  "(\<forall>c \<in> set (get_list (rc_insuranceClaims (foldl (record_step demo_env demo_printers) demo_records
      [ClaimCreate ''r'' ''b'' 5 ''u1'' claim_input])) ''p1''). sg_status (last (cl_timeline c)) = cl_status c) \<and>
   prefix (timeline_of ''p1'' ''claim-r'' (foldl (record_step demo_env demo_printers) demo_records
       [ClaimCreate ''r'' ''b'' 5 ''u1'' claim_input]))
     (timeline_of ''p1'' ''claim-r'' (foldl (record_step demo_env demo_printers) demo_records
       ([ClaimCreate ''r'' ''b'' 5 ''u1'' claim_input] @ [ClaimUpdate 6 ''u1'' claim_input])))"
proof -
  have "rc_insuranceClaims demo_records = (\<lambda>_. None)" by (simp add: demo_records_def)
  note kept = claim_history_kept [OF this, where env = demo_env and pr = demo_printers and
      calls = "[ClaimCreate ''r'' ''b'' 5 ''u1'' claim_input]" and later = "[ClaimUpdate 6 ''u1'' claim_input]"]
  show ?thesis
    by (intro conjI ballI) (erule kept [THEN conjunct1, rule_format, THEN conjunct2, THEN conjunct2, THEN conjunct2,
      THEN conjunct2, THEN conjunct1], rule kept [THEN conjunct2, rule_format])
qed

end
