(* ===== verification/Notifications.thy ===== *)
theory Notifications
  imports CustomerViews SessionGuarantees PlatformPayments
begin

text \<open>
  The notification feed, \<open>domain/platform/notifications.go\<close> and the notification centre of
  \<open>service.go\<close>: entries derived from payments, the audit trail, goals and premiums, merged with
  stored entries that carry the read mark. Instants are read in UTC. \<open>xai\<close> prints the reason of a payment,
  whose numbers Go formats.
\<close>

section \<open>Texts\<close>

definition rupee :: string where "rupee = [CHR 0xE2, CHR 0x82, CHR 0xB9]"
definition middle_dot :: string where "middle_dot = [CHR 0xC2, CHR 0xB7]"

text \<open>Pairs of digits from the right.\<close>

function digit_groups :: "string \<Rightarrow> string list" where
  "digit_groups rest =
     (if length rest > 2 then digit_groups (take (length rest - 2) rest) @ [drop (length rest - 2) rest]
      else if rest \<noteq> [] then [rest] else [])"
  by auto
termination by (relation "measure length") auto

declare digit_groups.simps [simp del]

definition formatRupees :: "int \<Rightarrow> string" where
  "formatRupees paise0 =
     (let paise = (if paise0 < 0 then i64 (- paise0) else paise0);
          digits = dec (paise sdiv 100); n = length digits
      in if n \<le> 3 then rupee @ digits
         else rupee @ concat (map (\<lambda>g. g @ '','') (digit_groups (take (n - 3) digits))) @ drop (n - 3) digits)"

definition firstFilled :: "string list \<Rightarrow> string" where
  "firstFilled values = (case filter (\<lambda>v. TrimSpace v \<noteq> []) values of [] \<Rightarrow> [] | v # _ \<Rightarrow> v)"

definition readablePolicyType :: "string \<Rightarrow> string" where
  "readablePolicyType t = map (\<lambda>c. if c = CHR ''_'' then CHR '' '' else c) t"

text \<open>\<open>time.Parse("2006-01-02", s)\<close>, and \<open>Format("2 Jan")\<close>.\<close>

definition ParseDate :: "string \<Rightarrow> time option" where
  "ParseDate s =
     (if length s = 10 \<and> s ! 4 = CHR ''-'' \<and> s ! 7 = CHR ''-'' \<and>
        list_all is_digit (take 4 s @ take 2 (drop 5 s) @ drop 8 s)
      then
        let y = int (undec (take 4 s)); m = undec (take 2 (drop 5 s)); d = undec (drop 8 s)
        in if 1 \<le> m \<and> m \<le> 12 \<and> 1 \<le> d \<and> int d \<le> month_lengths y ! (m - 1)
           then Some ((days_before_month y (m - 1) + int d - 1) * (86400 * second)) else None
      else None)"

definition month_names :: "string list" where
  "month_names = [''Jan'', ''Feb'', ''Mar'', ''Apr'', ''May'', ''Jun'', ''Jul'', ''Aug'', ''Sep'', ''Oct'', ''Nov'', ''Dec'']"

definition day_month :: "time \<Rightarrow> string" where
  "day_month t = (let (y, m, d) = civil_date t in dec d @ '' '' @ month_names ! nat (m - 1))"

section \<open>Derived entries\<close>

definition notificationWindow :: duration where "notificationWindow = 30 * 24 * hour"

definition enabledCategoriesLocked :: "string \<Rightarrow> 'f Service \<Rightarrow> string \<Rightarrow> bool" where
  "enabledCategoriesLocked userID s =
     (let settings = get_list (pe_notifications (sv_personal s)) userID in
      if settings = [] then (\<lambda>c. c \<in> {''transactions'', ''security'', ''goals'', ''insights'', ''tax''})
      else foldl (\<lambda>m n. m(ns_Category n := ns_Enabled n)) (\<lambda>_. False) settings)"

text \<open>A recorded level is low, medium or high; the fall-back on the score is never taken.\<close>

definition isElevatedRisk :: "Transaction \<Rightarrow> bool" where
  "isElevatedRisk t \<longleftrightarrow> txn_RiskLevel t = RiskHigh"

definition transaction_notice :: "(xai_reason \<Rightarrow> string) \<Rightarrow> Transaction \<Rightarrow> NotificationItem" where
  "transaction_notice xai t =
     (let counterparty = firstFilled [txn_MerchantName t, txn_Recipient t, ''your account''];
          body = (if txn_Description t \<noteq> [] then txn_Description t
            else ToUpper (firstNonEmpty (txn_Channel t) ''UPI'') @ '' '' @ middle_dot @ '' '' @ txn_Status t);
          risky = isElevatedRisk t
      in \<lparr>ni_ID = ''ntf_txn_'' @ txn_ID t, ni_Category = ''transactions'',
          ni_Title = (if EqualFold (txn_DebitCredit t) ''credit''
            then ''Received '' @ formatRupees (txn_AmountPaise t) @ '' from '' @ counterparty
            else ''Paid '' @ formatRupees (txn_AmountPaise t) @ '' to '' @ counterparty),
          ni_Body = (if risky \<and> xai (txn_XAIReason t) \<noteq> [] then xai (txn_XAIReason t) else body),
          ni_Severity = (if risky then ''warning'' else ''info''), ni_Read = False,
          ni_CreatedAt = txn_CreatedAt t\<rparr>)"

definition transactionNotificationsLocked ::
  "(xai_reason \<Rightarrow> string) \<Rightarrow> string \<Rightarrow> time \<Rightarrow> 'f Service \<Rightarrow> NotificationItem list" where
  "transactionNotificationsLocked xai userID cutoff s =
     map (transaction_notice xai)
       (filter (\<lambda>t. \<not> txn_CreatedAt t < cutoff \<and> settled t) (get_list (sv_transactions s) userID))"

definition securityEventTitles :: "string \<rightharpoonup> string \<times> string" where
  "securityEventTitles =
     [''pin_login_success'' \<mapsto> (''New sign-in to your account'', ''info''),
      ''pin_login_failure'' \<mapsto> (''Failed sign-in attempt'', ''warning''),
      ''emergency_freeze'' \<mapsto> (''Account frozen'', ''critical''),
      ''account_unfreeze'' \<mapsto> (''Account unfrozen'', ''warning''),
      ''biometric_register'' \<mapsto> (''Biometric unlock enabled'', ''info''),
      ''device_bound'' \<mapsto> (''New device linked'', ''warning''),
      ''beneficiary_added'' \<mapsto> (''New payee added'', ''warning'')]"

definition security_notice :: "AuditEvent \<Rightarrow> string \<times> string \<Rightarrow> NotificationItem" where
  "security_notice e meta =
     \<lparr>ni_ID = ''ntf_sec_'' @ au_ID e, ni_Category = ''security'', ni_Title = fst meta,
      ni_Body = firstFilled [au_XAIReason e, au_Details e, ''Reviewed by FINIX security.''],
      ni_Severity = snd meta, ni_Read = False, ni_CreatedAt = au_Timestamp e\<rparr>"

definition securityNotificationsLocked :: "string \<Rightarrow> time \<Rightarrow> 'f Service \<Rightarrow> NotificationItem list" where
  "securityNotificationsLocked userID cutoff s =
     concat (map (\<lambda>e. if au_UserID e \<noteq> userID \<or> au_Timestamp e < cutoff then []
       else case securityEventTitles (au_EventType e) of None \<Rightarrow> [] | Some meta \<Rightarrow> [security_notice e meta])
       (sv_audit s))"

text \<open>The highest of 25, 50, 75 and 100 per cent that is reached.\<close>

definition milestone :: "Goal \<Rightarrow> int option" where
  "milestone g =
     (let progress = fl (fl (of_int (gl_SavedAmountPaise g)) / fl (of_int (gl_TargetAmountPaise g)))
      in foldl (\<lambda>reached m. if progress \<ge> of_int m / 100 then Some m else reached) None [25, 50, 75, 100])"

definition goal_notice :: "time \<Rightarrow> Goal \<Rightarrow> NotificationItem list" where
  "goal_notice now g =
     (if gl_TargetAmountPaise g \<le> 0 then []
      else case milestone g of None \<Rightarrow> []
      | Some m \<Rightarrow>
          let at0 = (if gl_CreatedAt g = 0 then gl_StartDate g else gl_CreatedAt g)
          in [\<lparr>ni_ID = ''ntf_goal_'' @ gl_ID g @ ''_'' @ dec m, ni_Category = ''goals'',
               ni_Title = (if m \<ge> 100 then gl_Name g @ '' reached''
                 else gl_Name g @ '' is '' @ dec m @ ''% funded''),
               ni_Body = (if m \<ge> 100 then ''Fully funded at '' @ formatRupees (gl_TargetAmountPaise g) @ ''.''
                 else formatRupees (gl_SavedAmountPaise g) @ '' of '' @ formatRupees (gl_TargetAmountPaise g) @ '' saved.''),
               ni_Severity = ''info'', ni_Read = False,
               ni_CreatedAt = (if at0 = 0 \<or> at0 > now then now else at0)\<rparr>])"

definition goalNotificationsLocked :: "string \<Rightarrow> time \<Rightarrow> 'f Service \<Rightarrow> NotificationItem list" where
  "goalNotificationsLocked userID now s = concat (map (goal_notice now) (get_list (sv_goals s) userID))"

definition premium_notice :: "time \<Rightarrow> InsurancePolicy \<Rightarrow> NotificationItem list" where
  "premium_notice now p =
     (case ParseDate (ip_NextDueDate p) of None \<Rightarrow> []
      | Some due \<Rightarrow>
          if due > now + 14 * 24 * hour then []
          else [\<lparr>ni_ID = ''ntf_prem_'' @ ip_PolicyID p, ni_Category = ''insights'',
                 ni_Title = ip_Insurer p @ '' premium due '' @ day_month due,
                 ni_Body = formatRupees (ip_PremiumPaise p) @ '' for your '' @ readablePolicyType (ip_PolicyType p) @ '' policy.'',
                 ni_Severity = (if due < now then ''warning'' else ''info''), ni_Read = False,
                 ni_CreatedAt = due\<rparr>])"

definition dueDateNotificationsLocked :: "string \<Rightarrow> time \<Rightarrow> 'f Service \<Rightarrow> NotificationItem list" where
  "dueDateNotificationsLocked userID now s =
     concat (map (premium_notice now) (get_list (pe_insurance (sv_personal s)) userID))"

text \<open>\<open>sort.SliceStable\<close>, newest first.\<close>

definition newest_first :: "NotificationItem list \<Rightarrow> NotificationItem list" where
  "newest_first = sort_key (\<lambda>i. - ni_CreatedAt i)"

definition derivedNotifications :: "(xai_reason \<Rightarrow> string) \<Rightarrow> time \<Rightarrow> string \<Rightarrow> 'f Service \<Rightarrow> NotificationItem list" where
  "derivedNotifications xai now userID s =
     (if sv_users s userID = None then []
      else
        let cutoff = now - notificationWindow; enabled = enabledCategoriesLocked userID s
        in newest_first
             ((if enabled ''transactions'' then transactionNotificationsLocked xai userID cutoff s else []) @
              (if enabled ''security'' then securityNotificationsLocked userID cutoff s else []) @
              (if enabled ''goals'' then goalNotificationsLocked userID now s else []) @
              (if enabled ''insights'' then dueDateNotificationsLocked userID now s else [])))"

section \<open>The centre\<close>

definition merged :: "(xai_reason \<Rightarrow> string) \<Rightarrow> time \<Rightarrow> string \<Rightarrow> 'f Service \<Rightarrow> NotificationItem list" where
  "merged xai now userID s =
     (let stored = get_list (sv_notificationCenter s) userID
      in newest_first (stored @ filter (\<lambda>d. ni_ID d \<notin> ni_ID ` set stored) (derivedNotifications xai now userID s)))"

text \<open>\<open>None\<close> is the panic of a slice whose bounds have overflowed.\<close>

definition NotificationCentre ::
  "(xai_reason \<Rightarrow> string) \<Rightarrow> time \<Rightarrow> string \<Rightarrow> int \<Rightarrow> int \<Rightarrow> 'f Service \<Rightarrow> NotificationItem list option" where
  "NotificationCentre xai now userID page0 limit0 s =
     (let items = merged xai now userID s;
          limit = (if limit0 \<le> 0 then 20 else limit0); page = (if page0 \<le> 0 then 1 else page0);
          start = i64 ((page - 1) * limit)
      in if start \<ge> int (length items) then Some []
         else
           let stop0 = i64 (start + limit); stop = (if stop0 > int (length items) then int (length items) else stop0)
           in slice start stop items)"

datatype notif_error = NotificationNotFound

definition set_center :: "string \<Rightarrow> NotificationItem list \<Rightarrow> 'f Service \<Rightarrow> 'f Service" where
  "set_center userID items s = s\<lparr>sv_notificationCenter := (sv_notificationCenter s)(userID \<mapsto> items)\<rparr>"

definition DismissNotification ::
  "(xai_reason \<Rightarrow> string) \<Rightarrow> time \<Rightarrow> string \<Rightarrow> string \<Rightarrow> 'f Service \<Rightarrow> (notif_error + unit) \<times> 'f Service" where
  "DismissNotification xai now userID notificationID s =
     (let items = get_list (sv_notificationCenter s) userID in
      if \<exists>i \<in> set items. ni_ID i = notificationID
      then (Inr (), set_center userID
              (update_first (\<lambda>i. ni_ID i = notificationID) (\<lambda>i. i\<lparr>ni_Read := True\<rparr>) items) s)
      else case find (\<lambda>d. ni_ID d = notificationID) (derivedNotifications xai now userID s) of
          Some d \<Rightarrow> (Inr (), set_center userID (items @ [d\<lparr>ni_Read := True\<rparr>]) s)
        | None \<Rightarrow> (Inl NotificationNotFound, s))"

section \<open>Amounts\<close>

lemma concat_digit_groups: "concat (digit_groups ds) = ds"
proof (induction ds rule: digit_groups.induct)
  case (1 rest)
  then show ?case by (subst digit_groups.simps) auto
qed

lemma filter_commas: "\<forall>g \<in> set gs. \<forall>c \<in> set g. c \<noteq> CHR '','' \<Longrightarrow>
   filter (\<lambda>c. c \<noteq> CHR '','') (concat (map (\<lambda>g. g @ '','') gs)) = concat gs"
  by (induction gs) auto

text \<open>The commas taken away, an amount is the rupee sign and the decimal number of whole rupees.\<close>

theorem rupees_without_commas:
  assumes "- (2 ^ 63) < p" and "p < 2 ^ 63"
  shows "filter (\<lambda>c. c \<noteq> CHR '','') (formatRupees p) = rupee @ dec (\<bar>p\<bar> div 100)"
proof -
  have "(if p < 0 then i64 (- p) else p) = \<bar>p\<bar>" using assms by (auto simp: i64_id is_i64_def)
  moreover have "\<bar>p\<bar> sdiv 100 = \<bar>p\<bar> div 100" by (simp add: signed_divide_int_def sgn_if)
  moreover define ds where "ds = dec (\<bar>p\<bar> div 100)"
  moreover have digits: "\<forall>c \<in> set ds. c \<noteq> CHR '',''"
    using dec_digits_chars [of "CHR '',''" "nat (\<bar>p\<bar> div 100)"]
    unfolding ds_def dec_def by (auto simp: is_digit_def Let_def)
  ultimately have f: "formatRupees p = (if length ds \<le> 3 then rupee @ ds else rupee @
      concat (map (\<lambda>g. g @ '','') (digit_groups (take (length ds - 3) ds))) @ drop (length ds - 3) ds)"
    by (simp add: formatRupees_def Let_def)
  have r: "filter (\<lambda>c. c \<noteq> CHR '','') rupee = rupee" by (simp add: rupee_def)
  have d: "filter (\<lambda>c. c \<noteq> CHR '','') xs = xs" if "set xs \<subseteq> set ds" for xs
    using that digits by (auto simp: filter_id_conv)
  have "\<forall>g \<in> set (digit_groups (take n ds)). \<forall>c \<in> set g. c \<noteq> CHR '',''" for n
    using digits concat_digit_groups [of "take n ds"] set_take_subset [of n ds] by (metis UN_I set_concat subsetD)
  then have "filter (\<lambda>c. c \<noteq> CHR '','') (concat (map (\<lambda>g. g @ '','') (digit_groups (take n ds)))) =
      concat (digit_groups (take n ds))" for n
    by (intro filter_commas) blast
  then show ?thesis by (simp add: f r d set_drop_subset concat_digit_groups flip: ds_def)
qed

section \<open>A dismissal lasts\<close>

text \<open>Everything else the service does leaves the centre alone; a push must find room.\<close>

inductive feed_step :: "(xai_reason \<Rightarrow> string) \<Rightarrow> string \<Rightarrow> 'f Service \<Rightarrow> 'f Service \<Rightarrow> bool" for xai u where
  push: "length (get_list (sv_notificationCenter s) u) < 100 \<or> v \<noteq> u \<Longrightarrow>
    feed_step xai u s (PushNotification now v category title body s)"
| dismiss: "feed_step xai u s (snd (DismissNotification xai now v i s))"
| other: "sv_notificationCenter s' = sv_notificationCenter s \<Longrightarrow> feed_step xai u s s'"

inductive_cases feed_stepE: "feed_step xai u s s'"

text \<open>An entry is stored under the name, and each stored entry of that name is read.\<close>

definition marked :: "string \<Rightarrow> string \<Rightarrow> 'f Service \<Rightarrow> bool" where
  "marked u i s \<longleftrightarrow> (\<exists>n \<in> set (get_list (sv_notificationCenter s) u). ni_ID n = i) \<and>
     (\<forall>n \<in> set (get_list (sv_notificationCenter s) u). ni_ID n = i \<longrightarrow> ni_Read n)"

lemma get_list_center [simp]:
  "get_list (sv_notificationCenter (set_center v items s)) u = (if u = v then items else get_list (sv_notificationCenter s) u)"
  by (simp add: set_center_def get_list_def)

lemma update_read:
  "ni_ID ` set (update_first P (\<lambda>i. i\<lparr>ni_Read := True\<rparr>) xs) = ni_ID ` set xs"
  "\<forall>n \<in> set xs. ni_ID n = i \<longrightarrow> ni_Read n \<Longrightarrow>
   n \<in> set (update_first P (\<lambda>i. i\<lparr>ni_Read := True\<rparr>) xs) \<Longrightarrow> ni_ID n = i \<Longrightarrow> ni_Read n"
  by (induction xs) (auto split: if_splits)

lemma marked_dismiss: "marked u i s \<Longrightarrow> marked u i (snd (DismissNotification xai now v j s))"
proof -
  assume m: "marked u i s"
  let ?old = "get_list (sv_notificationCenter s) u"
  let ?new = "update_first (\<lambda>n. ni_ID n = j) (\<lambda>n. n\<lparr>ni_Read := True\<rparr>) ?old"
  have "i \<in> ni_ID ` set ?new" using m unfolding update_read(1) by (auto simp: marked_def)
  then have "marked u i (set_center u ?new s)"
    using m update_read(2) [of ?old i] by (auto simp: marked_def)
  moreover have "marked u i (set_center u (?old @ [d\<lparr>ni_Read := True\<rparr>]) s)" for d
    using m by (auto simp: marked_def)
  moreover have "marked u i (set_center v items s)" if "v \<noteq> u" for items
    using m that by (simp add: marked_def)
  ultimately show ?thesis
    using m by (cases "v = u") (auto simp: DismissNotification_def Let_def split: option.split)
qed

lemma nextID_prefix: "fst (nextID p s) \<noteq> i" if "take (length p + 1) i \<noteq> p @ ''-''"
  using that by (auto simp: nextID_def Let_def)

lemma marked_push:
  assumes "marked u i s" and "length (get_list (sv_notificationCenter s) u) < 100 \<or> v \<noteq> u"
    and "take 6 i \<noteq> ''notif-''"
  shows "marked u i (PushNotification now v c t b s)"
proof -
  obtain k s1 where k: "nextID ''notif'' s = (k, s1)" by fastforce
  have ki: "k \<noteq> i" using nextID_prefix [of "''notif''" i s] assms(3) k by (simp add: eval_nat_numeral)
  have sc: "sv_notificationCenter s1 = sv_notificationCenter s" using k by (auto simp: nextID_def Let_def)
  define n where "n = \<lparr>ni_ID = k, ni_Category = c, ni_Title = t, ni_Body = b, ni_Severity = [], ni_Read = False,
    ni_CreatedAt = now\<rparr>"
  have n: "ni_ID n = k" "get_list (sv_notificationCenter (PushNotification now v c t b s)) u =
      (if v = u then take 100 (n # get_list (sv_notificationCenter s) u) else get_list (sv_notificationCenter s) u)"
    using k sc by (simp_all add: n_def PushNotification_def Let_def get_list_def)
  show ?thesis
  proof (cases "v = u")
    case True
    then have "take 100 (n # get_list (sv_notificationCenter s) u) = n # get_list (sv_notificationCenter s) u"
      using assms(2) by simp
    then show ?thesis using n ki assms(1) True by (simp add: marked_def)
  qed (use n assms(1) in \<open>simp add: marked_def\<close>)
qed

lemma marked_other: "marked u i s \<Longrightarrow> sv_notificationCenter s' = sv_notificationCenter s \<Longrightarrow> marked u i s'"
  by (simp add: marked_def)

lemma marked_steps:
  assumes "(feed_step xai u)\<^sup>*\<^sup>* s s'" and "marked u i s" and "take 6 i \<noteq> ''notif-''"
  shows "marked u i s'"
  using assms(1,2)
proof (induction rule: rtranclp_induct)
  case (step s1 s2)
  note m = step.IH [OF step.prems]
  from step.hyps(2) show ?case
    by (cases rule: feed_stepE)
      (use m assms(3) in \<open>blast intro: marked_dismiss marked_push marked_other\<close>)+
qed

lemma dismissed_derived:
  assumes "DismissNotification xai now u i s = (Inr (), s1)" and "\<forall>n \<in> set (get_list (sv_notificationCenter s) u). ni_ID n \<noteq> i"
  shows "marked u i s1"
proof -
  obtain d where "find (\<lambda>d. ni_ID d = i) (derivedNotifications xai now u s) = Some d"
      "s1 = set_center u (get_list (sv_notificationCenter s) u @ [d\<lparr>ni_Read := True\<rparr>]) s"
    using assms by (auto simp: DismissNotification_def Let_def split: option.splits if_splits)
  moreover from this have "ni_ID d = i" by (auto simp: find_Some_iff)
  ultimately show ?thesis using assms(2) by (auto simp: marked_def)
qed

lemma slice_set: "slice a b xs = Some ys \<Longrightarrow> set ys \<subseteq> set xs"
  by (auto simp: slice_def split: if_splits dest!: in_set_takeD in_set_dropD)

lemma centre_shows_merged: "NotificationCentre xai now u p l s = Some ys \<Longrightarrow> n \<in> set ys \<Longrightarrow> n \<in> set (merged xai now u s)"
  using slice_set by (fastforce simp: NotificationCentre_def Let_def split: if_splits)

text \<open>C32: an entry derived from the customer's activity, once dismissed, is read on every page ever after, as
  long as each later push finds fewer than a hundred stored entries.\<close>

theorem dismissal_lasts:
  assumes "DismissNotification xai now u i s = (Inr (), s1)"
    and "\<forall>n \<in> set (get_list (sv_notificationCenter s) u). ni_ID n \<noteq> i" and "take 6 i \<noteq> ''notif-''"
    and "(feed_step xai u)\<^sup>*\<^sup>* s1 s2" and "NotificationCentre xai later u page limit s2 = Some ys"
    and "n \<in> set ys" and "ni_ID n = i"
  shows "ni_Read n"
proof -
  have "marked u i s2" by (rule marked_steps [OF assms(4) dismissed_derived [OF assms(1,2)] assms(3)])
  moreover have "n \<in> set (merged xai later u s2)" by (rule centre_shows_merged [OF assms(5,6)])
  then have "n \<in> set (get_list (sv_notificationCenter s2) u) \<or>
      ni_ID n \<notin> ni_ID ` set (get_list (sv_notificationCenter s2) u)"
    by (auto simp: merged_def newest_first_def Let_def)
  ultimately show ?thesis using assms(7) unfolding marked_def by blast
qed

section \<open>Events without a notice\<close>

text \<open>Steps that only append events the table of titles does not know.\<close>

definition quiet :: "'f Service \<Rightarrow> 'f Service \<Rightarrow> bool" where
  "quiet s s' \<longleftrightarrow> (\<exists>es. sv_audit s' = sv_audit s @ es \<and> (\<forall>e \<in> set es. securityEventTitles (au_EventType e) = None))"

lemma quiet_feed: "quiet s s' \<Longrightarrow> securityNotificationsLocked u cutoff s' = securityNotificationsLocked u cutoff s"
  by (auto simp: quiet_def securityNotificationsLocked_def)

lemma quiet_same: "sv_audit s' = sv_audit s \<Longrightarrow> quiet s s'"
  by (simp add: quiet_def)

lemma quiet_refl [simp]: "quiet s s"
  by (simp add: quiet_same)

lemma quiet_trans: "quiet s1 s2 \<Longrightarrow> quiet s2 s3 \<Longrightarrow> quiet s1 s3"
  by (fastforce simp: quiet_def)

lemma appendAudit_trail:
  "\<exists>e. sv_audit (appendAudit env now u ev r out det trig s) = sv_audit s @ [e] \<and> au_EventType e = ev"
  by (simp add: appendAudit_def nextID_def Let_def ledger_write_frame)

lemma quiet_audit:
  "quiet s s' \<Longrightarrow> securityEventTitles ev = None \<Longrightarrow> quiet s (appendAudit env now u ev r out det trig s')"
  using appendAudit_trail [of env now u ev r out det trig s'] by (fastforce simp: quiet_def)

lemma quiet_ledger: "quiet s s' \<Longrightarrow> quiet s (ledger_write env now u a r p s')"
  by (simp add: quiet_def ledger_write_frame)

lemma trail_frames:
  "sv_audit (set_profile u p s) = sv_audit s" "sv_audit (with_login f s) = sv_audit s"
  "sv_audit (set_freeze u b s) = sv_audit s" "sv_audit (set_payees u bs s) = sv_audit s"
  "sv_audit (reset_otp_counters u s) = sv_audit s" "sv_audit (set_user u x s) = sv_audit s"
  "sv_audit (change_profile u g s) = sv_audit s" "sv_audit (snd (nextID pfx s)) = sv_audit s"
  "sv_audit (snd (count_failure now u e1 e2 s)) = sv_audit s"
  by (simp_all add: set_profile_def with_login_def set_freeze_def set_payees_def reset_otp_counters_def set_user_def
      change_profile_def count_failure_def Let_def split: option.split)

lemma titles_none [simp]:
  "securityEventTitles ''otp_verified'' = None" "securityEventTitles ''emergency_unfreeze'' = None"
  "securityEventTitles ''beneficiary_created'' = None" "securityEventTitles ''biometric_setup'' = None"
  "securityEventTitles ''login_failed'' = None" "securityEventTitles ''login_success'' = None"
  "securityEventTitles ''pin_login_failed'' = None" "securityEventTitles ''pin_login_locked'' = None"
  by (simp_all add: securityEventTitles_def)

lemma quiet_otp: "quiet s (snd (VerifyOTPToken env now u otp s))"
proof (cases rule: VerifyOTPToken_cases [of env now u otp s])
  case (right p e)
  show ?thesis unfolding right(6) by (simp add: quiet_audit quiet_same trail_frames)
qed (simp_all add: quiet_same trail_frames)

lemma quiet_unfreeze:
  fixes s :: "'f Service"
  shows "quiet s (snd (Unfreeze env flag now u req s))"
proof -
  have lift: "quiet s0 (snd (lift_freeze env now u s0))" for s0 :: "'f Service"
    by (simp add: lift_freeze_def Let_def quiet_ledger quiet_audit quiet_same trail_frames)
  have "quiet s (snd (case VerifyOTPToken env now u otp s of (Inl e, s1) \<Rightarrow> (Inl e, s1) | (Inr _, s1) \<Rightarrow> lift_freeze env now u s1))" for otp
  proof -
    obtain r s1 where v: "VerifyOTPToken env now u otp s = (r, s1)" by fastforce
    then have "quiet s s1" using quiet_otp [of s env now u otp] by simp
    with v show ?thesis using lift [of s1] by (cases r) (auto intro: quiet_trans)
  qed
  then show ?thesis using lift by (simp add: Unfreeze_def Let_def)
qed

lemma quiet_payee: "quiet s (snd (CreateBeneficiary env bank rnd now u req s))"
  by (auto simp: CreateBeneficiary_def Let_def nextID_def quiet_audit quiet_same trail_frames)

lemma quiet_biometric: "quiet s (snd (RegisterBiometric env now rnd req s))"
  by (auto simp: RegisterBiometric_def Let_def quiet_audit quiet_same trail_frames split: option.split prod.split sum.split)

lemma quiet_verify_login: "quiet s (snd (VerifyLogin env now rnd q s))"
proof (cases rule: VerifyLogin_cases [of env now rnd q s])
  case (failed u e reason pm)
  let ?s = "with_login (\<lambda>lm. lm\<lparr>lg_passkey := pm\<rparr>) s"
  have "sv_audit (failed_signature env now u reason ?s) = sv_audit (audit env now u ''login_failed'' ''failure''
      (''Biometric signature verification failed: '' @ reason) ''System'' ?s)"
    by (simp only: failed_signature_def Let_def split: option.split if_split) (simp add: trail_frames)
  moreover have "quiet s (audit env now u ''login_failed'' ''failure''
      (''Biometric signature verification failed: '' @ reason) ''System'' ?s)"
    unfolding audit_def by (intro quiet_audit quiet_same trail_frames titles_none)
  ultimately show ?thesis unfolding failed by (simp add: quiet_def)
next
  case (unbound u e details pm)
  then show ?thesis by (simp add: audit_def quiet_audit quiet_same trail_frames)
next
  case (accepted user pm)
  show ?thesis unfolding accepted(2) by (simp add: accept_passkey_def audit_def quiet_audit quiet_same trail_frames)
qed simp

lemma quiet_pin_failure: "LoginWithPIN env now rnd jrnd q s = (Inl e, s') \<Longrightarrow> quiet s s'"
proof (cases rule: LoginWithPIN_cases [of env now rnd jrnd q s])
  case (checked u user p)
  moreover assume "LoginWithPIN env now rnd jrnd q s = (Inl e, s')"
  ultimately show ?thesis
    by (auto simp: check_pin_def Let_def audit_def quiet_audit quiet_same trail_frames split: if_splits)
qed simp

text \<open>The feed of security notices does not change when a login with a passkey fails or succeeds, when a PIN
  is refused, when an account is unfrozen, when a payee is added and when a biometric key is registered: the
  table of titles names other events than the operations record.\<close>

theorem security_events_unannounced:
  "securityNotificationsLocked v c (snd (VerifyLogin env now rnd q s)) = securityNotificationsLocked v c s \<and>
   (case LoginWithPIN env now rnd jrnd pq s of
      (Inl e, s') \<Rightarrow> securityNotificationsLocked v c s' = securityNotificationsLocked v c s | (Inr _, _) \<Rightarrow> True) \<and>
   securityNotificationsLocked v c (snd (Unfreeze senv flag now u ureq s)) = securityNotificationsLocked v c s \<and>
   securityNotificationsLocked v c (snd (CreateBeneficiary senv bank rnd now u breq s)) = securityNotificationsLocked v c s \<and>
   securityNotificationsLocked v c (snd (RegisterBiometric oenv now rnd kreq s)) = securityNotificationsLocked v c s"
proof (intro conjI)
  show "case LoginWithPIN env now rnd jrnd pq s of
      (Inl e, s') \<Rightarrow> securityNotificationsLocked v c s' = securityNotificationsLocked v c s | (Inr _, _) \<Rightarrow> True"
    using quiet_feed quiet_pin_failure [of env now rnd jrnd pq s] by (auto split: prod.split sum.split)
qed (intro quiet_feed quiet_verify_login quiet_unfreeze quiet_payee quiet_biometric)+

section \<open>A concrete feed\<close>

definition notif_service :: "unit Service" where
  "notif_service = demo_service\<lparr>sv_audit := [\<lparr>au_ID = ''a1'', au_Timestamp = 4, au_UserID = ''u1'',
     au_EventType = ''emergency_freeze'', au_TriggeredBy = ''User'', au_Outcome = ''success'', au_Details = ''x'',
     au_XAIReason = []\<rparr>]\<rparr>"

definition demo_notice :: NotificationItem where
  "demo_notice = \<lparr>ni_ID = ''ntf_sec_a1'', ni_Category = ''security'', ni_Title = ''Account frozen'', ni_Body = ''x'',
     ni_Severity = ''critical'', ni_Read = False, ni_CreatedAt = 4\<rparr>"

lemma demo_derived:
  assumes "0 < t" and "t < 10"
  shows "derivedNotifications (\<lambda>_. []) t ''u1'' notif_service = [demo_notice]"
    and "get_list (sv_notificationCenter notif_service) ''u1'' = []"
  using assms
  by (simp_all add: derivedNotifications_def notif_service_def demo_service_def fresh_service_def fresh_personal_def
      enabledCategoriesLocked_def get_list_def transactionNotificationsLocked_def securityNotificationsLocked_def
      goalNotificationsLocked_def dueDateNotificationsLocked_def newest_first_def security_notice_def firstFilled_def
      securityEventTitles_def notificationWindow_def demo_notice_def TrimSpace_def is_space_def Let_def)

lemma derived_set_center: "derivedNotifications xai t u (set_center v items s) = derivedNotifications xai t u s"
  by (simp add: derivedNotifications_def set_center_def enabledCategoriesLocked_def transactionNotificationsLocked_def
      securityNotificationsLocked_def goalNotificationsLocked_def dueDateNotificationsLocked_def Let_def)

lemma dismissal_lasts_witness:
  "\<exists>s1 ys n. DismissNotification (\<lambda>_. []) 5 ''u1'' ''ntf_sec_a1'' notif_service = (Inr (), s1) \<and>
     NotificationCentre (\<lambda>_. []) 9 ''u1'' 1 20 s1 = Some ys \<and> n \<in> set ys \<and> ni_ID n = ''ntf_sec_a1'' \<and> ni_Read n"
proof -
  let ?n = "demo_notice\<lparr>ni_Read := True\<rparr>"
  define s1 where "s1 = set_center ''u1'' [?n] notif_service"
  note d = demo_derived [of 5] demo_derived [of 9]
  have s1: "DismissNotification (\<lambda>_. []) 5 ''u1'' ''ntf_sec_a1'' notif_service = (Inr (), s1)"
    using d by (simp add: DismissNotification_def Let_def s1_def demo_notice_def)
  have "merged (\<lambda>_. []) 9 ''u1'' s1 = [?n]"
    using d by (simp add: merged_def s1_def derived_set_center newest_first_def demo_notice_def Let_def)
  then have ys: "NotificationCentre (\<lambda>_. []) 9 ''u1'' 1 20 s1 = Some [?n]"
    by (simp add: NotificationCentre_def Let_def slice_def i64_id is_i64_def)
  have "ni_Read ?n"
    by (rule dismissal_lasts [OF s1 _ _ rtranclp.rtrancl_refl ys]) (simp_all add: d demo_notice_def)
  with s1 ys show ?thesis by (force simp: demo_notice_def)
qed

end
