(* ===== verification/MoneyFlows.thy ===== *)
theory MoneyFlows
  imports MoneyRefinement OnboardingGuarantees SessionGuarantees BankEvents CustomerRecords Notifications
begin

text \<open>
  The money of the platform under all its operations. To the operations of \<open>MoneyRefinement\<close> this theory adds
  registration, which opens an account with 85,000 rupees, the events a bank delivers and investment orders, which
  take money, and everything else that writes the service: onboarding, logins, records, SIM binding, UPI PINs,
  savings plans, step-up and payees. Each is an action of the abstract purse. Loading the stored state and the demo
  data at start-up is not an operation; it yields the state a run begins in.
\<close>

section \<open>The whole state\<close>

record 'f platform =
  pf_records :: "'f records"
  pf_connections :: "string \<rightharpoonup> BankConnectionStatus"
  pf_detections :: "string \<rightharpoonup> RealtimeDetectionResult list"

definition pf_service :: "'f platform \<Rightarrow> 'f Service" where
  "pf_service p = xs_service (rc_exp (pf_records p))"

definition on_records :: "('f records \<Rightarrow> 'f records) \<Rightarrow> 'f platform \<Rightarrow> 'f platform" where
  "on_records f p = p\<lparr>pf_records := f (pf_records p)\<rparr>"

definition on_expanded :: "('f exp_service \<Rightarrow> 'f exp_service) \<Rightarrow> 'f platform \<Rightarrow> 'f platform" where
  "on_expanded f = on_records (\<lambda>r. r\<lparr>rc_exp := f (rc_exp r)\<rparr>)"

definition on_platform :: "('f Service \<Rightarrow> 'f Service) \<Rightarrow> 'f platform \<Rightarrow> 'f platform" where
  "on_platform f = on_expanded (on_service f)"

definition bank_of :: "'f platform \<Rightarrow> 'f bank_service" where
  "bank_of p = \<lparr>bk_service = pf_service p, bk_connections = pf_connections p, bk_detections = pf_detections p\<rparr>"

definition on_bank :: "('f bank_service \<Rightarrow> 'f bank_service) \<Rightarrow> 'f platform \<Rightarrow> 'f platform" where
  "on_bank f p = (let k = f (bank_of p) in
     on_platform (\<lambda>_. bk_service k) (p\<lparr>pf_connections := bk_connections k, pf_detections := bk_detections k\<rparr>))"

lemma pf_service_on [simp]:
  "pf_service (on_records f p) = xs_service (rc_exp (f (pf_records p)))"
  "pf_service (on_expanded g p) = xs_service (g (rc_exp (pf_records p)))"
  "pf_service (on_platform h p) = h (pf_service p)"
  "pf_service (on_bank b p) = bk_service (b (bank_of p))" "bk_service (bank_of p) = pf_service p"
  by (simp_all add: pf_service_def on_records_def on_expanded_def on_platform_def on_service_def on_bank_def bank_of_def Let_def)

section \<open>Operations\<close>

text \<open>What the operations take from outside: the parameters of the parts, and the printers of their values.\<close>

record 'key flow_env =
  fl_onb :: "'key onb_env"
  fl_print :: printers
  fl_order :: "order_view \<Rightarrow> string"
  fl_reason :: "risk_reason list \<Rightarrow> string"
  fl_date :: "time \<Rightarrow> string"
  fl_rag :: "string \<Rightarrow> string \<Rightarrow> rag_answer option"
  fl_xai :: "xai_reason \<Rightarrow> string"

abbreviation fl_sv :: "'key flow_env \<Rightarrow> sv_env" where "fl_sv env \<equiv> oe_sv (fl_onb env)"

abbreviation fl_login :: "'key flow_env \<Rightarrow> 'key login_env" where "fl_login env \<equiv> oe_login (fl_onb env)"

abbreviation fl_fmt :: "'key flow_env \<Rightarrow> json \<Rightarrow> string" where "fl_fmt env \<equiv> pr_value (fl_print env)"

datatype flow =
    Core call
  | Onboarding onb_event
  | Session login_event
  | Keeping record_call
  | ConnectBank "(string + BankConnectionStatus) option" string time string BankConnectionRequest
  | BankEvent "nat \<Rightarrow> string" time string BankTransactionEvent
  | InvestmentOrder string string time string EndpointInput
  | BindSIM string time EndpointInput
  | ReverifySIM "string \<Rightarrow> bool option" time string EndpointInput
  | MakeKIN string string
  | StoreUPIPIN bool time string EndpointInput
  | StartSIP string time string EndpointInput
  | ChangeSIP sip_change time string EndpointInput
  | ChangeNominee time string EndpointInput
  | AskStepUp "string option" "string option" time string
  | AskStepUpFor "string option" "string option" time string string
  | StepUp time string string string
  | StepUpFor time string string string string
  | SchedulePayment time string EndpointInput
  | RateTransaction string EndpointInput
  | RatePayee string EndpointInput
  | DeletePayee time string EndpointInput
  | ShowPayee string EndpointInput
  | ScanMessage time string string string
  | Dismiss time string string

fun flow_step :: "'key flow_env \<Rightarrow> 'f platform \<Rightarrow> flow \<Rightarrow> 'f platform" where
  "flow_step env p (Core c) = on_platform (\<lambda>s. exec (fl_sv env) s c) p"
| "flow_step env p (Onboarding e) = on_platform (\<lambda>s. onb_step (fl_onb env) s e) p"
| "flow_step env p (Session e) = on_platform (\<lambda>s. login_step (fl_login env) s e) p"
| "flow_step env p (Keeping c) = on_records (\<lambda>r. record_step (fl_sv env) (fl_print env) r c) p"
| "flow_step env p (ConnectBank adapter rnd now u req) =
     on_bank (\<lambda>k. snd (ConnectBankAPI (fl_sv env) adapter rnd now u req k)) p"
| "flow_step env p (BankEvent rnd now u event) =
     on_bank (\<lambda>k. snd (IngestBankEvent (fl_sv env) (fl_reason env) rnd now u event k)) p"
| "flow_step env p (InvestmentOrder rnd1 rnd2 now u input) =
     on_expanded (\<lambda>x. snd (investment_order (fl_sv env) (le_pk (fl_login env)) (fl_order env) (fl_fmt env) rnd1 rnd2 now u input x)) p"
| "flow_step env p (BindSIM rnd now input) = on_expanded (\<lambda>x. snd (auth_sim_bind (fl_sv env) (fl_fmt env) rnd now input x)) p"
| "flow_step env p (ReverifySIM detect now u input) =
     on_expanded (\<lambda>x. snd (auth_sim_bind_reverify (fl_sv env) (fl_fmt env)
       (hashSIMICCID (oe_hmac (fl_onb env)) (oe_getenv (fl_onb env))) detect now u input x)) p"
| "flow_step env p (MakeKIN rnd u) = on_expanded (\<lambda>x. snd (auth_kin rnd u x)) p"
| "flow_step env p (StoreUPIPIN reset now u input) =
     on_expanded (\<lambda>x. snd (upi_pin_update (fl_sv env) (fl_fmt env) reset now u input x)) p"
| "flow_step env p (StartSIP rnd now u input) =
     on_expanded (\<lambda>x. snd (investment_sip_start (fl_sv env) (fl_fmt env) (fl_date env) rnd now u input x)) p"
| "flow_step env p (ChangeSIP change now u input) =
     on_expanded (\<lambda>x. snd (investment_sip_change (fl_sv env) (fl_fmt env) change now u input x)) p"
| "flow_step env p (ChangeNominee now u input) =
     on_expanded (\<lambda>x. snd (insurance_nominee_change (fl_sv env) (le_pk (fl_login env)) (fl_fmt env) now u input x)) p"
| "flow_step env p (AskStepUp rndB rndID now u) = on_platform (\<lambda>s. snd (CreateStepUpChallenge rndB rndID now u s)) p"
| "flow_step env p (AskStepUpFor rndB rndID now u action) =
     on_platform (\<lambda>s. snd (CreateStepUpChallengeForAction rndB rndID now u action s)) p"
| "flow_step env p (StepUp now u cid sig) =
     on_platform (\<lambda>s. snd (VerifyBiometricChallenge (le_pk (fl_login env)) now u cid sig s)) p"
| "flow_step env p (StepUpFor now u cid sig action) =
     on_platform (\<lambda>s. snd (VerifyBiometricChallengeForAction (le_pk (fl_login env)) now u cid sig action s)) p"
| "flow_step env p (SchedulePayment now u input) = on_platform (\<lambda>s. snd (tx_schedule (fl_sv env) now u input s)) p"
| "flow_step env p (RateTransaction u input) = on_platform (\<lambda>s. snd (tx_risk_score (fl_sv env) u input s)) p"
| "flow_step env p (RatePayee u input) = on_platform (\<lambda>s. snd (beneficiary_risk_check (fl_sv env) (fl_fmt env) u input s)) p"
| "flow_step env p (DeletePayee now u input) = on_platform (\<lambda>s. snd (beneficiary_delete (fl_sv env) now u input s)) p"
| "flow_step env p (ShowPayee u input) = on_platform (\<lambda>s. snd (beneficiary_detail (fl_sv env) u input s)) p"
| "flow_step env p (ScanMessage now u sender message) =
     on_platform (\<lambda>s. snd (ScanSMS (fl_sv env) (fl_rag env) now u sender message s)) p"
| "flow_step env p (Dismiss now u i) = on_platform (\<lambda>s. snd (DismissNotification (fl_xai env) now u i s)) p"

text \<open>Who may lose money by an operation: the payer, the customer of a bank event, the buyer.\<close>

fun may_pay :: "string \<Rightarrow> flow \<Rightarrow> bool" where
  "may_pay u (Core c) \<longleftrightarrow> may_spend u c"
| "may_pay u (BankEvent rnd now v event) \<longleftrightarrow> u = v"
| "may_pay u (InvestmentOrder rnd1 rnd2 now v input) \<longleftrightarrow> u = v"
| "may_pay u _ \<longleftrightarrow> False"

text \<open>The opening balance a registration gives its new customer; a known mobile number gets nothing.\<close>

definition enrols :: "reg_random \<Rightarrow> RegisterRequest \<Rightarrow> 'f Service \<Rightarrow> bool" where
  "enrols rnd req0 s \<longleftrightarrow> (let req = trim_register req0 in
     rg_Mobile req \<noteq> [] \<and> rg_DeviceIDFingerprint req \<noteq> [] \<and> lg_mobileIndex (sv_login s) (rg_Mobile req) = None)"

fun opening_balance :: "string \<Rightarrow> 'f platform \<Rightarrow> flow \<Rightarrow> int" where
  "opening_balance u p (Onboarding (Enrol t rnd req)) =
     (if u = ''usr_'' @ rr_uuid rnd \<and> enrols rnd req (pf_service p) then 8500000 else 0)"
| "opening_balance u p _ = 0"

text \<open>A registration draws an id under which no account is kept.\<close>

fun flow_allowed :: "'f platform \<Rightarrow> flow \<Rightarrow> bool" where
  "flow_allowed p (Onboarding (Enrol t rnd req)) \<longleftrightarrow> get_list (sv_accounts (pf_service p)) (''usr_'' @ rr_uuid rnd) = []"
| "flow_allowed p _ \<longleftrightarrow> True"

section \<open>Operations that touch neither accounts nor goals\<close>

lemma still_frame_more [simp]:
  "still s (with_login g t) = still s t" "still s (with_personal h t) = still s t"
  "still s (set_profile u q t) = still s t" "still s (change_profile u f t) = still s t"
  "still s (set_user u x t) = still s t" "still s (set_kyc u k t) = still s t" "still s (audit le now u e oc d b t) = still s t"
  "still s (t\<lparr>sv_login := lm\<rparr>) = still s t" "still s (t\<lparr>sv_personal := pm\<rparr>) = still s t"
  "still s (t\<lparr>sv_users := us\<rparr>) = still s t" "still s (t\<lparr>sv_threatResponse := tr\<rparr>) = still s t"
  "still s (t\<lparr>sv_investmentOrders := io\<rparr>) = still s t" "still s (t\<lparr>sv_notificationCenter := nc\<rparr>) = still s t"
  "still s (t\<lparr>sv_accountingLedger := al\<rparr>) = still s t" "still s (set_payees u bs t) = still s t"
  "still s (recordExpandedAudit env now u ev r d t) = still s t"
  by (simp_all add: still_def with_login_def with_personal_def set_profile_def change_profile_def set_user_def set_kyc_def
    audit_def set_payees_def recordExpandedAudit_def frame_simps split: option.split)

lemma step_up_still: "still s (snd (step_up verify u cid sig s))"
  by (simp add: step_up_def Let_def split: option.split prod.split sum.split)

lemma new_step_up_still: "still s (snd (new_step_up create u s))"
  by (simp add: new_step_up_def Let_def split: option.split prod.split sum.split)

lemma step_up_flows_still:
  "still s (snd (CreateStepUpChallenge rndB rndID now u s))" "still s (snd (CreateStepUpChallengeForAction rndB rndID now u act s))"
  "still s (snd (VerifyBiometricChallenge pk now u cid sig s))"
  "still s (snd (VerifyBiometricChallengeForAction pk now u cid sig act s))"
  by (simp_all add: CreateStepUpChallenge_def CreateStepUpChallengeForAction_def VerifyBiometricChallenge_def
    VerifyBiometricChallengeForAction_def step_up_still new_step_up_still)

lemma graph_score_still: "graph_score env r s = (x, t) \<Longrightarrow> still s t"
  by (auto simp: graph_score_def split: prod.splits)

lemma endpoint_still:
  "still s (snd (tx_schedule env now u input s))" "still s (snd (beneficiary_delete env now u input s))"
  "still s (snd (tx_risk_score env u input s))" "still s (snd (beneficiary_risk_check env fmt u input s))"
  "still s (snd (beneficiary_detail env u input s))"
  by (auto simp: tx_schedule_def beneficiary_delete_def tx_risk_score_def beneficiary_risk_check_def beneficiary_detail_def
    known_customer_def Let_def intro: graph_score_still split: option.split prod.split sum.split)

lemma view_still: "still s (snd (ScanSMS env rag now u sender message s))" "still s (snd (DismissNotification xai now u i s))"
  by (simp_all add: ScanSMS_def DismissNotification_def set_center_def Let_def split: option.split)

text \<open>Logins and sessions.\<close>

lemma invalidate_still: "still s (invalidateAllSessionsLocked env now u t) = still s t"
  by (simp add: invalidateAllSessionsLocked_def)

lemma pin_still: "still s (snd (LoginWithPIN env t r j q s))" "still s (snd (SetPIN env t u p s))"
    "still s (snd (SetInitialPIN env t1 t2 u p f s))"
  by (simp_all add: LoginWithPIN_def check_pin_def SetInitialPIN_def SetPIN_def invalidate_still Let_def
    split: option.split sum.split)

lemma session_still: "still s (snd (AuthenticateToken env t1 t2 k d s))" "still s (snd (sv_RefreshToken env clk j k d s))"
  by (auto simp: AuthenticateToken_def sv_RefreshToken_def refresh_mint_def refresh_register_def Let_def
    split: option.split prod.split sum.split)

lemma passkey_still: "still s (snd (sv_CreateChallenge env b i n t u s))" "still s (snd (VerifyLogin env t r q s))"
  by (auto simp: sv_CreateChallenge_def VerifyLogin_def failed_signature_def accept_passkey_def Let_def
    split: option.split prod.split sum.split bool.split)

lemma login_still: "still s (login_step env s e)"
  by (cases e) (simp_all add: pin_still session_still passkey_still)

text \<open>Onboarding, apart from a registration.\<close>

lemma onboarding_still: "\<forall>t rnd req. e \<noteq> Enrol t rnd req \<Longrightarrow> still s (onb_step env s e)"
  by (cases e) (auto simp: VerifyEKYC_def RegisterBiometric_def UpdateAuthProfile_def UpsertKYCProfile_def SetConsent_def
    SetNudgePreference_def SubmitFeedback_def AddNetWorthAsset_def RemoveNetWorthAsset_def AddEmergencyContact_def
    DeleteEmergencyContact_def Let_def intro: nextID_still split: option.split prod.split sum.split)

text \<open>The expanded service and its records.\<close>

lemma chain_still [simp]:
  "still s (xs_service (on_service f x)) = still s (f (xs_service x))"
  "still s (xs_service (appendBlockchainRecordLocked env rnd now u a b c x)) = still s (xs_service x)"
  "xs_service (x\<lparr>xs_service := t\<rparr>) = t"
  by (simp_all add: on_service_def appendBlockchainRecordLocked_def Let_def)

lemma verify_otp_still: "verify_otp env now u otp x = (r, y) \<Longrightarrow> still (xs_service x) (xs_service y)"
  using otp_still(2) [of "xs_service x" env now u otp] by (auto simp: verify_otp_def split: prod.splits sum.splits)

lemma lift_step_up_still:
  "lift_step_up (VerifyBiometricChallenge pk now u cid sig) x = (r, y) \<Longrightarrow> still (xs_service x) (xs_service y)"
  using step_up_flows_still(3) [of "xs_service x" pk now u cid sig] by (auto simp: lift_step_up_def split: prod.splits)

lemma sim_still:
  "still (xs_service x) (xs_service (snd (auth_sim_bind env fmt rnd now input x)))"
  "still (xs_service x) (xs_service (snd (auth_sim_bind_reverify env fmt hash detect now u input x)))"
  "still (xs_service x) (xs_service (snd (auth_kin rnd u x)))"
  by (simp_all add: auth_sim_bind_def auth_sim_bind_reverify_def auth_kin_def Let_def split: option.split)

lemma otp_flows_still:
  "still (xs_service x) (xs_service (snd (upi_pin_update env fmt reset now u input x)))"
  "still (xs_service x) (xs_service (snd (investment_sip_change env fmt change now u input x)))"
  by (auto simp: upi_pin_update_def store_upi_pin_def investment_sip_change_def Let_def intro: verify_otp_still
    split: option.split prod.split sum.split)

lemma sip_start_still: "still (xs_service x) (xs_service (snd (investment_sip_start env fmt date rnd now u input x)))"
  by (simp add: investment_sip_start_def Let_def split: option.split)

lemma nominee_still: "still (xs_service x) (xs_service (snd (insurance_nominee_change env pk fmt now u input x)))"
  by (auto simp: insurance_nominee_change_def challenge_of_def Let_def
    intro: verify_otp_still still_trans [OF verify_otp_still lift_step_up_still] split: option.split prod.split sum.split)

lemma records_still [simp]:
  "still s (xs_service (rc_exp (record_audit env now u a b c r))) = still s (xs_service (rc_exp r))"
  "still s (xs_service (rc_exp (record_block env rnd now u a b c r))) = still s (xs_service (rc_exp r))"
  by (simp_all add: record_audit_def record_block_def)

lemma record_still: "still (xs_service (rc_exp r)) (xs_service (rc_exp (record_step env pr r c)))"
  by (cases c) (auto simp: of_customer_snd insurance_add_def insurance_detail_def findInsurancePolicy_def insurance_delete_def
      insurance_premium_payment_def insurance_claim_create_def insurance_claim_update_def security_emergency_contacts_add_def
      security_emergency_contacts_delete_def security_url_scan_def security_forward_nccp_def insights_feedback_def
      settings_data_export_create_def settings_data_export_status_def settings_consent_history_def goals_recalculate_def
      goals_market_impact_recalculate_def blockchain_record_endpoint_def Let_def split: option.split sum.split prod.split)

lemma connect_still: "still (bk_service k) (bk_service (snd (ConnectBankAPI env adapter rnd now u req k)))"
  by (simp add: ConnectBankAPI_def with_service_def split: option.split sum.split)

section \<open>Operations that move money\<close>

text \<open>An event takes its amount or nothing.\<close>

lemma settle_moves:
  assumes ok: "money_ok s"
  shows "\<exists>m. moves (Spend u m) s (snd (settle_event r1 r2 now u e s))"
proof -
  let ?s = "post_event r1 r2 now u e s"
  have st: "still s ?s" by (simp add: post_event_def split: list.split)
  obtain r t where d: "applyDebitToFirstAccount u (be_AmountPaise e) ?s = (r, t)" by fastforce
  have blocked: "still s (block_last_event u s)" for s :: "'a Service"
    by (simp add: block_last_event_def split: list.split)
  have payee: "still t v" if "add_beneficiary u y t = Some v" for y v
    using that by (auto simp: add_beneficiary_def split: option.splits)
  note none = stay_moves [OF ok]
  have "money_ok ?s" by (rule calm_ok [OF still_calm [OF st] ok])
  from debit_moves [OF this d] show ?thesis
  proof
    assume "(\<exists>er. r = Inl er) \<and> t = ?s"
    then show ?thesis using none [OF still_trans [OF st blocked]] by (auto simp: settle_event_def d)
  next
    assume "r = Inr () \<and> moves (Spend u (max 0 (be_AmountPaise e))) ?s t \<and> sv_goals t = sv_goals ?s \<and>
        sv_beneficiaries t = sv_beneficiaries ?s \<and> sv_transactions t = sv_transactions ?s"
    then have "r = Inr ()" and "moves (Spend u (max 0 (be_AmountPaise e))) s t" using still_moves [OF st] by auto
    then show ?thesis using moves_still payee by (auto simp: settle_event_def d split: option.split) blast+
  qed
qed

lemma event_moves:
  assumes ok: "money_ok (bk_service k)"
  shows "\<exists>m. moves (Spend u m) (bk_service k) (bk_service (snd (IngestBankEvent env reason rnd now u event k)))"
proof (cases "event_error u event k")
  case (Some err)
  with stay_moves [OF ok still_frame(1)] show ?thesis by (simp add: IngestBankEvent_def)
next
  case None
  let ?e = "fill_event u (rnd 0) now event"
  obtain a s1 where a: "assess_event env u ?e (bk_service k) = (a, s1)" by fastforce
  define s3 where "s3 = (append_transaction u (event_transaction reason (rnd 1) u ?e a) s1)
    \<lparr>sv_fraudGraph := AddTransaction (env_H env) now u (be_Counterparty ?e) (be_AmountPaise ?e)
       (sv_fraudGraph (append_transaction u (event_transaction reason (rnd 1) u ?e a) s1))\<rparr>"
  define settled where "settled = (if as_Level a = RiskLow then settle_event (rnd 2) (rnd 3) now u ?e s3 else (True, s3))"
  have run: "IngestBankEvent env reason rnd now u event k =
      (case settled of (False, s4) \<Rightarrow> (Inl (BankService NilMapPanic), k\<lparr>bk_service := s4\<rparr>)
       | (True, s4) \<Rightarrow> (Inr (event_detection reason now u ?e a),
           record_detection env now u (event_detection reason now u ?e a) (k\<lparr>bk_service := s4\<rparr>)))"
    unfolding IngestBankEvent_def settled_def s3_def Let_def None option.case a prod.case ..
  have st: "still (bk_service k) s3"
    using a by (auto simp: s3_def append_transaction_def assess_event_def dest: graph_score_still split: prod.splits)
  have "\<exists>m. moves (Spend u m) s3 (snd settled)"
  proof (cases "as_Level a = RiskLow")
    case True
    with settle_moves [OF calm_ok [OF still_calm [OF st] ok]] show ?thesis by (simp add: settled_def)
  next
    case False
    with stay_moves [OF calm_ok [OF still_calm [OF st] ok] still_frame(1)] show ?thesis by (simp add: settled_def)
  qed
  then obtain m where m: "moves (Spend u m) (bk_service k) (snd settled)" using still_moves [OF st] by blast
  have recorded: "still t (bk_service (record_detection env now u d (k\<lparr>bk_service := t\<rparr>)))" for t d
    by (simp add: record_detection_def with_service_def Let_def)
  from m have "moves (Spend u m) (bk_service k) (bk_service (snd (IngestBankEvent env reason rnd now u event k)))"
    unfolding run by (cases settled) (auto intro: moves_still [OF _ recorded] split: bool.split)
  then show ?thesis by blast
qed

text \<open>An order takes its amount or nothing.\<close>

lemma place_order_moves:
  assumes ok: "money_ok (xs_service x)"
  shows "\<exists>m. moves (Spend u m) (xs_service x) (xs_service (snd (place_order env p fmt r1 r2 now u amount input x)))"
proof -
  obtain risk fg where g: "GetRiskScore (env_H env) (firstNonEmpty (expString fmt (ei_Body input) ''instrument'')
      (TrimSpace (expString fmt (ei_Body input) ''holding_id''))) (sv_fraudGraph (xs_service x)) = (risk, fg)"
    by fastforce
  let ?s = "xs_service x\<lparr>sv_fraudGraph := fg\<rparr>"
  have st: "still (xs_service x) ?s" by simp
  have ok': "money_ok ?s" by (rule calm_ok [OF still_calm [OF st] ok])
  have recorded: "still t (xs_service (record_order env p r2 now u ord y)) = still t (xs_service y)" for t ord y
    by (simp add: record_order_def)
  note none = stay_moves [OF ok]
  obtain r t where d: "applyDebitToFirstAccount u amount ?s = (r, t)" by fastforce
  have "(\<exists>e. r = Inl e) \<and> t = ?s \<or> r = Inr () \<and> moves (Spend u (max 0 amount)) (xs_service x) t"
    using debit_moves [OF ok' d] still_moves [OF st] by blast
  then show ?thesis
    using none [of "xs_service (snd (place_order env p fmt r1 r2 now u amount input x))"]
      moves_still [of "Spend u (max 0 amount)" "xs_service x" t
        "xs_service (snd (place_order env p fmt r1 r2 now u amount input x))"]
    by (auto simp: place_order_def g on_service_def d recorded Let_def split: if_splits)
qed

lemma order_moves:
  assumes ok: "money_ok (xs_service x)"
  shows "\<exists>m. moves (Spend u m) (xs_service x) (xs_service (snd (investment_order env pk p fmt r1 r2 now u input x)))"
proof -
  note none = stay_moves [OF ok]
  obtain r y where v: "lift_step_up (VerifyBiometricChallenge pk now u (TrimSpace (fst (challenge_of input)))
      (TrimSpace (snd (challenge_of input)))) x = (r, y)" by fastforce
  note st = lift_step_up_still [OF v]
  have "money_ok (xs_service y)" by (rule calm_ok [OF still_calm [OF st] ok])
  then have "\<exists>m. moves (Spend u m) (xs_service x) (xs_service (snd (place_order env p fmt r1 r2 now u a input y)))" for a
    using place_order_moves still_moves [OF st] by blast
  with none [OF still_frame(1)] none [OF st] place_order_moves [OF ok] v show ?thesis
    by (auto simp: investment_order_def Let_def split: option.split prod.split sum.split)
qed

text \<open>A registration opens the account of its customer.\<close>

lemma enrol_money:
  assumes "enrol env now rnd u req s = (x, s')"
  shows "\<exists>a. sv_accounts s' = (sv_accounts s)(u \<mapsto> [a]) \<and> ac_BalancePaise a = 8500000" and "sv_goals s' = sv_goals s"
  using assms by (auto simp: enrol_def Let_def nextID_def first_account_def set_profile_def with_login_def split: prod.splits)

lemma open_moves:
  assumes ok: "money_ok s" and none: "get_list (sv_accounts s) u = []"
    and acc: "sv_accounts t = (sv_accounts s)(u \<mapsto> [a])" "ac_BalancePaise a = 8500000" and goals: "sv_goals t = sv_goals s"
  shows "moves (Open u 8500000) s t"
proof -
  have F: "user_funds t = (user_funds s)(u := 8500000)" by (rule ext) (simp add: user_funds_def acc)
  have G: "user_savings t = user_savings s" by (simp add: user_savings_def [abs_def] goals)
  have old: "user_funds s u = 0" using none by (simp add: user_funds_def)
  have g: "\<forall>g \<in> set (get_list (sv_goals s) u). 0 \<le> gl_SavedAmountPaise g" "\<not> 0 < user_savings s u"
    using ok none by (auto simp: money_ok_def goals_ok_def)
  have zero: "user_savings s u = 0"
  proof -
    have "0 \<le> user_savings s u" using g(1) by (auto simp: user_savings_def savings_def intro!: sum_list_nonneg)
    with g(2) show ?thesis by simp
  qed
  have count: "account_count t = (account_count s)(u := 1)" by (rule ext) (simp add: account_count_def acc)
  have sol: "all_solvent t" using ok acc by (simp add: money_ok_def all_solvent_def solvent_def)
  have "goals_ok t" unfolding goals_ok_def count_nonempty F G goals count
    using ok zero by (auto simp: money_ok_def goals_ok_def count_nonempty)
  with F G old zero sol count none show ?thesis
    by (simp add: moves_def abs_money_def money_ok_def account_count_def)
qed

lemma register_moves:
  assumes ok: "money_ok s" and none: "get_list (sv_accounts s) (''usr_'' @ rr_uuid rnd) = []"
  shows "moves (if enrols rnd req s then Open (''usr_'' @ rr_uuid rnd) 8500000 else Keep) s
    (snd (sv_Register env t rnd req s))"
proof (cases "enrols rnd req s")
  case False
  then have "snd (sv_Register env t rnd req s) = s"
    by (auto simp: sv_Register_def enrols_def Let_def split: option.split)
  with False show ?thesis using calm_moves [OF ok calm_refl] by simp
next
  case True
  obtain x s1 where e: "enrol env t rnd (''usr_'' @ rr_uuid rnd) (trim_register req) s = (x, s1)" by fastforce
  note m = enrol_money [OF e]
  have "moves (Open (''usr_'' @ rr_uuid rnd) 8500000) s s1" using m open_moves [OF ok none] by blast
  then have "moves (Open (''usr_'' @ rr_uuid rnd) 8500000) s (appendAudit (oe_sv env) t (us_ID x) ''registration_completed''
      ''system'' ''success'' ''User registration and SIM binding completed'' ''System'' s1)"
    by (rule moves_still) simp
  with True show ?thesis by (simp add: sv_Register_def enrols_def e Let_def del: append_Cons)
qed

section \<open>The simulation\<close>

lemma quiet_flow:
  assumes "\<forall>c. f \<noteq> Core c" and "\<forall>t rnd req. f \<noteq> Onboarding (Enrol t rnd req)"
    and "\<forall>rnd now u e. f \<noteq> BankEvent rnd now u e" and "\<forall>r1 r2 now u i. f \<noteq> InvestmentOrder r1 r2 now u i"
  shows "still (pf_service p) (pf_service (flow_step env p f))"
  using assms
  by (cases f) (simp_all add: onboarding_still login_still record_still sim_still otp_flows_still sip_start_still
    nominee_still step_up_flows_still endpoint_still view_still connect_still [of "bank_of p", simplified]
    pf_service_def [symmetric],
    simp_all add: pf_service_def sim_still otp_flows_still sip_start_still nominee_still record_still)

lemma flow_moves:
  assumes ok: "money_ok (pf_service p)" and al: "flow_allowed p f"
  shows "\<exists>a. moves a (pf_service p) (pf_service (flow_step env p f)) \<and>
    (\<forall>u. 0 < spent u a \<longrightarrow> may_pay u f) \<and> (\<forall>u. gained u a = opening_balance u p f)"
proof -
  consider (core) c where "f = Core c" | (enrol) t rnd req where "f = Onboarding (Enrol t rnd req)"
    | (event) rnd now u e where "f = BankEvent rnd now u e" | (order) r1 r2 now u i where "f = InvestmentOrder r1 r2 now u i"
    | (quiet) "\<forall>c. f \<noteq> Core c" "\<forall>t rnd req. f \<noteq> Onboarding (Enrol t rnd req)"
        "\<forall>rnd now u e. f \<noteq> BankEvent rnd now u e" "\<forall>r1 r2 now u i. f \<noteq> InvestmentOrder r1 r2 now u i"
    by blast
  then show ?thesis
  proof cases
    case core
    then show ?thesis using exec_moves [OF ok, of "fl_sv env" c] by auto
  next
    case enrol
    then show ?thesis using register_moves [OF ok, of rnd req "fl_onb env" t] al
      by (intro exI [of _ "if enrols rnd req (pf_service p) then Open (''usr_'' @ rr_uuid rnd) 8500000 else Keep"])
        (auto simp: spent_def gained_def simp del: append_Cons)
  next
    case event
    have "money_ok (bk_service (bank_of p))" using ok by simp
    from event_moves [OF this, of u "fl_sv env" "fl_reason env" rnd now e] obtain m where
      "moves (Spend u m) (pf_service p) (pf_service (flow_step env p f))" using event by auto
    then show ?thesis using event by (intro exI [of _ "Spend u m"]) (simp add: spent_def gained_def)
  next
    case order
    have "money_ok (xs_service (rc_exp (pf_records p)))" using ok by (simp add: pf_service_def)
    then obtain m where "moves (Spend u m) (xs_service (rc_exp (pf_records p))) (xs_service (snd (investment_order (fl_sv env)
        (le_pk (fl_login env)) (fl_order env) (fl_fmt env) r1 r2 now u i (rc_exp (pf_records p)))))"
      using order_moves by blast
    then have "moves (Spend u m) (pf_service p) (pf_service (flow_step env p f))"
      using order by (simp add: pf_service_def on_expanded_def on_records_def)
    then show ?thesis using order by (intro exI [of _ "Spend u m"]) (simp add: spent_def gained_def)
  next
    case quiet
    have "opening_balance u p f = 0" for u using quiet(2) by (cases "(u, p, f)" rule: opening_balance.cases) auto
    then show ?thesis using calm_moves [OF ok still_calm [OF quiet_flow [OF quiet]]]
      by (intro exI [of _ Keep]) (simp add: spent_def gained_def)
  qed
qed

text \<open>Who holds an account.\<close>

definition holds_account :: "'f platform \<Rightarrow> string \<Rightarrow> bool" where
  "holds_account p u \<longleftrightarrow> get_list (sv_accounts (pf_service p)) u \<noteq> []"

lemma opening_cases:
  assumes "opening_balance u p f \<noteq> 0"
  obtains t rnd req where "f = Onboarding (Enrol t rnd req)" "u = ''usr_'' @ rr_uuid rnd" "opening_balance u p f = 8500000"
  using assms by (cases "(u, p, f)" rule: opening_balance.cases) (auto split: if_splits)

interpretation platform: simulation "\<lambda>p. money_ok (pf_service p)" "\<lambda>p. abs_money (pf_service p)" "flow_step env"
    flow_allowed may_pay opening_balance holds_account 8500000
  for env
proof
  fix p :: "'a platform" and f u
  assume ok: "money_ok (pf_service p)" and al: "flow_allowed p f"
  from flow_moves [OF ok al, of env] obtain a where a: "moves a (pf_service p) (pf_service (flow_step env p f))"
    "\<forall>u. 0 < spent u a \<longrightarrow> may_pay u f" "\<forall>u. gained u a = opening_balance u p f" by blast
  show "money_ok (pf_service (flow_step env p f))" using a(1) by (simp add: moves_def)
  show "\<exists>a. abstract_step a (abs_money (pf_service p)) = Some (abs_money (pf_service (flow_step env p f))) \<and>
      (\<forall>u. 0 < spent u a \<longrightarrow> may_pay u f) \<and> (\<forall>u. gained u a = opening_balance u p f)"
    using a by (auto simp: moves_def)
  show held: "holds_account (flow_step env p f) u" if "holds_account p u"
    using a(1) that unfolding moves_def holds_account_def count_nonempty by (metis order_less_le_trans)
  show "opening_balance u p f = 0 \<or> opening_balance u p f = 8500000 \<and> \<not> holds_account p u \<and> holds_account (flow_step env p f) u"
  proof (cases "opening_balance u p f = 0")
    case False
    then obtain t rnd req where f: "f = Onboarding (Enrol t rnd req)" "u = ''usr_'' @ rr_uuid rnd" "opening_balance u p f = 8500000"
      by (rule opening_cases)
    then have "gained u a = 8500000" using a(3) by metis
    then have "(user_funds (pf_service p))(u := 8500000) = user_funds (pf_service (flow_step env p f))"
      using a(1) by (cases a) (auto simp: gained_def moves_def abs_money_def split: if_splits)
    then have "user_funds (pf_service (flow_step env p f)) u = 8500000" by (metis fun_upd_same)
    then have "holds_account (flow_step env p f) u" by (auto simp: holds_account_def user_funds_def)
    with f al show ?thesis by (simp add: holds_account_def)
  qed simp
qed

section \<open>Properties\<close>

text \<open>
  C18: Every operation of the service is one action of the abstract purse: it keeps all money, spends from one user's
  funds, saves from funds into goals, releases savings to funds, or opens the account of a new customer, and takes
  never more than is there. Only a payment, an override or an order of the caller and an event of the caller's bank
  spend; only a registration that enrols a new customer opens, with exactly 85,000 rupees. The state stays
  well-formed (no overdrawn account, no negative savings, nothing beyond an \<open>int64\<close>). A registration draws an id
  that keeps no account yet.
\<close>

theorem service_refines_purse:
  assumes "money_ok (pf_service p)" and "flow_allowed p f"
  shows "money_ok (pf_service (flow_step env p f)) \<and>
    (\<exists>a. abstract_step a (user_funds (pf_service p), user_savings (pf_service p))
        = Some (user_funds (pf_service (flow_step env p f)), user_savings (pf_service (flow_step env p f))) \<and>
      (\<forall>u. 0 < spent u a \<longrightarrow> may_pay u f) \<and> (\<forall>u. gained u a = opening_balance u p f))"
  using platform.inv_step [OF assms] platform.simulated [OF assms, of env] by (simp add: abs_money_def)

text \<open>
  C19: Through any run of operations of anyone, the wealth of a user (the funds of the accounts plus the savings of
  the goals) grows by nothing but the opening balance of a registration, which is paid at most once and never to
  somebody who has an account; and it changes by exactly that as long as the user makes no payment, override or
  order and no event of the bank is delivered for the user.
\<close>

theorem wealth_conserved:
  assumes "money_ok (pf_service p)" and "run_allowed_by (flow_step env) flow_allowed p fs"
  shows "let q = foldl (flow_step env) p fs;
      wealth_before = user_funds (pf_service p) u + user_savings (pf_service p) u;
      wealth_after = user_funds (pf_service q) u + user_savings (pf_service q) u;
      opened = run_total (flow_step env) (opening_balance u) p fs
    in wealth_after \<le> wealth_before + opened \<and>
      ((\<forall>f \<in> set fs. \<not> may_pay u f) \<longrightarrow> wealth_after = wealth_before + opened) \<and>
      (opened = 0 \<or> opened = 8500000 \<and> get_list (sv_accounts (pf_service p)) u = [])"
  using platform.run_wealth [OF assms, of u] platform.run_grants [OF assms, of u]
  by (simp add: wealth_def abs_money_def holds_account_def Let_def)

section \<open>A concrete run\<close>

definition demo_flows :: "unit flow_env" where
  "demo_flows = \<lparr>fl_onb = demo_onb,
     fl_print = \<lparr>pr_value = (\<lambda>_. []), pr_premium = (\<lambda>_ _. []), pr_claim = (\<lambda>_. []), pr_scan = (\<lambda>_. []),
       pr_block = (\<lambda>_ _ _. [])\<rparr>,
     fl_order = (\<lambda>_. []), fl_reason = (\<lambda>_. []), fl_date = (\<lambda>_. []), fl_rag = (\<lambda>_ _. None), fl_xai = (\<lambda>_. [])\<rparr>"

definition new_platform :: "'f Service \<Rightarrow> 'f platform" where
  "new_platform s = \<lparr>pf_records = \<lparr>rc_exp = \<lparr>xs_service = s, xs_simBindings = (\<lambda>_. None), xs_upiPins = (\<lambda>_. None),
       xs_sipActions = (\<lambda>_. None), xs_nomineeChanges = (\<lambda>_. None), xs_blockchainData = (\<lambda>_. None)\<rparr>,
     rc_insuranceData = (\<lambda>_. None), rc_insuranceClaims = (\<lambda>_. None), rc_emergencyContact = (\<lambda>_. None),
     rc_urlScans = (\<lambda>_. None), rc_dataExports = (\<lambda>_. None), rc_goalHistory = (\<lambda>_. None), rc_consentHistory = (\<lambda>_. None),
     rc_insightFeedback = (\<lambda>_. None), rc_fraudForwarded = (\<lambda>_. None)\<rparr>,
     pf_connections = (\<lambda>_. None), pf_detections = (\<lambda>_. None)\<rparr>"

lemma new_platform_service [simp]: "pf_service (new_platform s) = s"
  by (simp add: new_platform_def pf_service_def)

lemma demo_start_ok: "money_ok demo_start"
  by (simp add: money_ok_def goals_ok_def all_solvent_def solvent_def user_funds_def user_savings_def fresh_service_def get_list_def)

lemma demo_opening: "opening_balance u (new_platform demo_start) (Onboarding (Enrol 0 demo_random demo_register)) =
    (if u = ''usr_1'' then 8500000 else 0)"
  using demo_trimmed by (simp add: enrols_def demo_random_def fresh_service_def fresh_login_def) (simp add: demo_register_def)

text \<open>A registration, a goal of 100 rupees, one contribution, and the goal dissolved again.\<close>

definition goal_flows :: "flow list" where
  "goal_flows =
     [Core (0, ''usr_1'', NewGoal \<lparr>gq_Name = ''Bike'', gq_Description = [], gq_TargetAmountPaise = 10000,
        gq_Currency = [], gq_MonthlyContributionPaise = 0, gq_Frequency = [], gq_Priority = [], gq_StartDate = 0,
        gq_TargetDate = 5, gq_LinkedAccount = []\<rparr>),
      Core (1, ''usr_1'', Contribute ''goal-000001'' \<lparr>gc_AmountPaise = 6000, gc_IdempotencyKey = []\<rparr>),
      Core (2, ''usr_1'', Dissolve ''goal-000001'')]"

lemma service_refines_purse_witness:
  "\<exists>a. abstract_step a (user_funds demo_start, user_savings demo_start) =
      Some (user_funds (pf_service (flow_step demo_flows (new_platform demo_start) (Onboarding (Enrol 0 demo_random demo_register)))),
        user_savings (pf_service (flow_step demo_flows (new_platform demo_start) (Onboarding (Enrol 0 demo_random demo_register))))) \<and>
    gained ''usr_1'' a = 8500000"
  using service_refines_purse [of "new_platform demo_start" "Onboarding (Enrol 0 demo_random demo_register)" demo_flows]
    demo_start_ok demo_opening [of "''usr_1''"]
  by (auto simp: fresh_service_def get_list_def simp del: flow_step.simps)

lemma wealth_conserved_witness:
  "user_funds (pf_service (foldl (flow_step demo_flows) (new_platform demo_start)
       (Onboarding (Enrol 0 demo_random demo_register) # goal_flows))) ''usr_1'' +
     user_savings (pf_service (foldl (flow_step demo_flows) (new_platform demo_start)
       (Onboarding (Enrol 0 demo_random demo_register) # goal_flows))) ''usr_1'' = 8500000"
proof -
  have "run_total (flow_step demo_flows) (opening_balance ''usr_1'') (new_platform demo_start)
      (Onboarding (Enrol 0 demo_random demo_register) # goal_flows) = 8500000"
    using demo_opening [of "''usr_1''"] by (simp add: goal_flows_def del: flow_step.simps opening_balance.simps(1))
  moreover have "run_allowed_by (flow_step demo_flows) flow_allowed (new_platform demo_start)
      (Onboarding (Enrol 0 demo_random demo_register) # goal_flows)"
    by (simp add: goal_flows_def fresh_service_def get_list_def del: flow_step.simps)
  moreover have "user_funds demo_start ''usr_1'' = 0" "user_savings demo_start ''usr_1'' = 0"
    by (simp_all add: user_funds_def user_savings_def fresh_service_def get_list_def)
  moreover have "\<forall>f \<in> set (Onboarding (Enrol 0 demo_random demo_register) # goal_flows). \<not> may_pay ''usr_1'' f"
    by (simp add: goal_flows_def)
  ultimately show ?thesis
    using wealth_conserved [of "new_platform demo_start" demo_flows
        "Onboarding (Enrol 0 demo_random demo_register) # goal_flows" "''usr_1''"] demo_start_ok
    by (simp add: Let_def del: flow_step.simps foldl_Cons)
qed

end
