(* ===== verification/DebtGuarantees.thy ===== *)
theory DebtGuarantees
  imports DebtEngine
begin

text \<open>
  What the loan mathematics guarantees, for principals up to ten trillion rupees and annual rates
  from 0 to 1000 percent: a table pays off exactly, a simulation ends when the instalment covers the
  interest, paying ahead never costs interest or time, and a payoff strategy is never slower than paying
  each loan alone. Where the code promises more than it does, a concrete case shows it.
\<close>

section \<open>Interface: monthly interest\<close>

text \<open>
  All that matters of the interest is that it is not negative, not above the balance and monotone in it. Under a
  fixed instalment that covers it, the balance of a higher debt stays higher and every balance falls.
\<close>

locale interest_law =
  fixes interest :: "'r \<Rightarrow> int \<Rightarrow> int"
    and sane :: "'r \<Rightarrow> bool"
    and cap :: int
  assumes interest_nonneg: "sane r \<Longrightarrow> 0 \<le> b \<Longrightarrow> b \<le> cap \<Longrightarrow> 0 \<le> interest r b"
    and interest_le: "sane r \<Longrightarrow> 0 \<le> b \<Longrightarrow> b \<le> cap \<Longrightarrow> interest r b \<le> b"
    and interest_mono: "sane r \<Longrightarrow> 0 \<le> a \<Longrightarrow> a \<le> b \<Longrightarrow> b \<le> cap \<Longrightarrow> interest r a \<le> interest r b"
begin

definition next_balance :: "'r \<Rightarrow> int \<Rightarrow> int \<Rightarrow> int" where
  "next_balance r emi b = b - min b (emi - interest r b)"

lemma next_nonneg: "0 \<le> next_balance r emi b"
  by (simp add: next_balance_def)

lemma next_falls:
  assumes "sane r" and "0 \<le> b" and "b \<le> p" and "p \<le> cap" and "interest r p < emi"
  shows "next_balance r emi b \<le> max 0 (b - (emi - interest r p))"
  using interest_mono [OF assms(1-4)] by (auto simp: next_balance_def)

lemma next_mono:
  assumes "sane r" and "0 \<le> a" and "a \<le> b" and "b \<le> cap"
  shows "next_balance r emi a \<le> next_balance r emi b"
  using interest_mono [OF assms] assms(2,3) by (auto simp: next_balance_def min_def)

end

section \<open>The interest of the code\<close>

definition sane_rate :: "float64 \<Rightarrow> bool" where
  "sane_rate r \<longleftrightarrow> (case r of Fin q \<Rightarrow> 0 \<le> q \<and> q \<le> 1 | _ \<Rightarrow> False)"

definition max_principal :: int where "max_principal = 10 ^ 15"

lemma monthlyRate_sane:
  assumes "0 \<le> a" and "a \<le> 1000"
  shows "sane_rate (monthlyRate (Fin a))"
proof -
  have "of_int 0 \<le> a / 12" "a / 12 \<le> of_int 84" using assms by simp_all
  then have m: "0 \<le> fl (a / 12)" "fl (a / 12) \<le> 84" using fl_range [of 0 "a / 12" 84] by simp_all
  then have "of_int 0 \<le> fl (a / 12) / 100" "fl (a / 12) / 100 \<le> of_int 1" by simp_all
  then have "0 \<le> fl (fl (a / 12) / 100)" "fl (fl (a / 12) / 100) \<le> 1"
    using fl_range [of 0 "fl (a / 12) / 100" 1] by simp_all
  moreover have "f64 (a / 12) = Fin (fl (a / 12))" using assms by (intro f64_small) (simp add: abs_le_iff)
  moreover have "f64 (fl (a / 12) / 100) = Fin (fl (fl (a / 12) / 100))"
    using m by (intro f64_small) (simp add: abs_le_iff)
  ultimately show ?thesis by (simp add: sane_rate_def monthlyRate_def)
qed

lemma interest_on_exact:
  assumes "0 \<le> q" and "q \<le> 1" and "0 \<le> b" and "b \<le> max_principal"
  shows "interest_on (Fin q) b = round_away (fl (of_int b * q))"
    and "0 \<le> round_away (fl (of_int b * q))" and "round_away (fl (of_int b * q)) \<le> b"
proof -
  have b: "\<bar>b\<bar> \<le> 2 ^ 53" using assms(3, 4) by (simp add: max_principal_def)
  have "of_int b * q \<le> of_int b * 1" using assms by (intro mult_left_mono) auto
  moreover have "0 \<le> of_int b * q" using assms by simp
  ultimately have x: "of_int 0 \<le> of_int b * q" "of_int b * q \<le> of_int b" by simp_all
  then have fl: "of_int 0 \<le> fl (of_int b * q)" "fl (of_int b * q) \<le> of_int b"
    using fl_range [OF x] b by simp_all
  show nonneg: "0 \<le> round_away (fl (of_int b * q))" using fl(1) by (intro round_away_nonneg) simp
  show le: "round_away (fl (of_int b * q)) \<le> b" using round_away_mono [OF fl(2)] by simp
  have "(of_int b :: rat) \<le> of_int (2 ^ 53)" using b by (simp only: of_int_le_iff)
  then have "\<bar>of_int b * q\<bar> \<le> 2 ^ 53" using x by (simp add: abs_le_iff)
  then show "interest_on (Fin q) b = round_away (fl (of_int b * q))"
    using nonneg le assms(4) b
    by (simp add: interest_on_def roundPaise_def of_int64_small f64_small to_int64_def is_i64_def max_principal_def)
qed

interpretation loan: interest_law interest_on sane_rate max_principal
proof
  fix r b
  assume r: "sane_rate r" and b: "0 \<le> b" "b \<le> max_principal"
  then obtain q where q: "r = Fin q" "0 \<le> q" "q \<le> 1" by (auto simp: sane_rate_def split: float64.splits)
  show "0 \<le> interest_on r b" and "interest_on r b \<le> b" using interest_on_exact [OF q(2,3) b] by (simp_all add: q)
next
  fix r a b
  assume r: "sane_rate r" and b: "0 \<le> a" "a \<le> b" "b \<le> max_principal"
  then obtain q where q: "r = Fin q" "0 \<le> q" "q \<le> 1" by (auto simp: sane_rate_def split: float64.splits)
  have "of_int a * q \<le> of_int b * q" using b q by (intro mult_right_mono) auto
  then show "interest_on r a \<le> interest_on r b"
    using b q by (simp add: interest_on_exact fl_mono round_away_mono)
qed

section \<open>Sums\<close>

definition interest_sum :: "Row list \<Rightarrow> int" where
  "interest_sum rows = (\<Sum>row\<leftarrow>rows. rw_InterestPaise row)"

definition principal_sum :: "Row list \<Rightarrow> int" where
  "principal_sum rows = (\<Sum>row\<leftarrow>rows. rw_PrincipalPaise row)"

lemma sums_simps [simp]:
  "interest_sum [] = 0" "interest_sum (row # rows) = rw_InterestPaise row + interest_sum rows"
  "principal_sum [] = 0" "principal_sum (row # rows) = rw_PrincipalPaise row + principal_sum rows"
  by (simp_all add: interest_sum_def principal_sum_def)

lemma foldl_i64_sum:
  "is_i64 t \<Longrightarrow> foldl (\<lambda>t x. i64 (t + f x)) t xs = i64 (t + (\<Sum>x\<leftarrow>xs. f x))"
proof (induction xs arbitrary: t)
  case (Cons x xs)
  have "is_i64 (i64 (t + f x))" by simp
  from Cons.IH [OF this] show ?case by (simp add: i64_simps add.assoc)
qed (simp add: i64_id)

lemma Totals: "TotalInterest rows = i64 (interest_sum rows)" "TotalPrincipal rows = i64 (principal_sum rows)"
  using foldl_i64_sum [of 0 rw_InterestPaise rows] foldl_i64_sum [of 0 rw_PrincipalPaise rows]
  by (simp_all add: TotalInterest_def TotalPrincipal_def interest_sum_def principal_sum_def is_i64_def)

definition final_balance :: "int \<Rightarrow> Row list \<Rightarrow> int" where
  "final_balance b rows = (if rows = [] then b else rw_BalancePaise (last rows))"

lemma final_balance_simps [simp]:
  "final_balance b [] = b" "final_balance b (row # rows) = final_balance (rw_BalancePaise row) rows"
  by (simp_all add: final_balance_def)

lemma converged_final: "scheduleConverged rows \<longleftrightarrow> rows = [] \<or> final_balance b rows = 0"
  by (simp add: scheduleConverged_def final_balance_def)

section \<open>One month\<close>

text \<open>A debt at most \<open>p\<close> with an instalment that covers the interest on \<open>p\<close>.\<close>

definition covered :: "float64 \<Rightarrow> int \<Rightarrow> int \<Rightarrow> bool" where
  "covered r emi p \<longleftrightarrow> sane_rate r \<and> p \<le> max_principal \<and> interest_on r p < emi \<and> is_i64 emi"

lemma covered_month:
  assumes "covered r emi p" and "0 < b" and "b \<le> p"
  shows "0 \<le> interest_on r b" "interest_on r b \<le> interest_on r p" "interest_on r b \<le> b"
    "i64 (emi - interest_on r b) = emi - interest_on r b" "0 < emi - interest_on r b"
    "loan.next_balance r emi b = (if emi - interest_on r b \<ge> b then 0 else b - (emi - interest_on r b))"
    "loan.next_balance r emi b < b" "loan.next_balance r emi b \<le> p"
proof -
  have c: "sane_rate r" "p \<le> max_principal" "interest_on r p < emi" "is_i64 emi"
    using assms(1) by (simp_all add: covered_def)
  show i: "0 \<le> interest_on r b" "interest_on r b \<le> interest_on r p" "interest_on r b \<le> b"
    using loan.interest_nonneg [of r b] loan.interest_mono [of r b p] loan.interest_le [of r b] c assms by simp_all
  show pos: "0 < emi - interest_on r b" using i c by simp
  show "i64 (emi - interest_on r b) = emi - interest_on r b"
    using pos i c(4) by (intro i64_id) (simp add: is_i64_def)
  show "loan.next_balance r emi b = (if emi - interest_on r b \<ge> b then 0 else b - (emi - interest_on r b))"
    by (simp add: loan.next_balance_def)
  then show "loan.next_balance r emi b < b" "loan.next_balance r emi b \<le> p" using pos assms by simp_all
qed

lemma covered_less: "covered r emi p \<Longrightarrow> 0 \<le> b \<Longrightarrow> b \<le> p \<Longrightarrow> covered r emi b"
  using loan.interest_mono [of r b p] by (simp add: covered_def)

section \<open>The amortisation table\<close>

lemma balance_i64: "0 \<le> b \<Longrightarrow> b \<le> max_principal \<Longrightarrow> i64 b = b"
  by (intro i64_id) (simp add: is_i64_def max_principal_def)

lemma schedule_loop_step:
  assumes c: "covered r emi p" and b: "0 < b" "b \<le> p" and k: "k \<le> months"
  shows "schedule_loop r emi months k b =
    (let b' = (if k = months then 0 else loan.next_balance r emi b)
     in \<lparr>rw_Month = k, rw_InterestPaise = interest_on r b, rw_PrincipalPaise = b - b', rw_BalancePaise = b'\<rparr>
          # schedule_loop r emi months (k + 1) b')"
proof -
  note m = covered_month [OF c b]
  have "0 \<le> loan.next_balance r emi b" "p \<le> max_principal"
    using c by (simp_all add: loan.next_nonneg covered_def)
  then have "i64 (loan.next_balance r emi b) = loan.next_balance r emi b" using m by (intro balance_i64) simp_all
  then show ?thesis using m b k by (auto simp: schedule_loop.simps [of r emi months k b] Let_def)
qed

lemma schedule_loop_0: "schedule_loop r emi months k 0 = []"
  by (simp add: schedule_loop.simps)

text \<open>A table that pays \<open>b\<close> off from month \<open>k\<close> on.\<close>

definition pays_off :: "int \<Rightarrow> int \<Rightarrow> Row list \<Rightarrow> bool" where
  "pays_off k b rows \<longleftrightarrow>
     principal_sum rows = b \<and> final_balance b rows = 0 \<and>
     sorted_wrt (>) (b # map rw_BalancePaise rows) \<and>
     map rw_Month rows = map (\<lambda>i. k + int i) [0..<length rows] \<and>
     (\<forall>row \<in> set rows. 0 < rw_PrincipalPaise row \<and> 0 \<le> rw_InterestPaise row \<and> 0 \<le> rw_BalancePaise row) \<and>
     sorted_wrt (\<ge>) (map rw_InterestPaise rows)"

lemma months_Cons: "map (\<lambda>i. k + int i) [0..<Suc n] = k # map (\<lambda>i. k + 1 + int i) [0..<n]"
  by (simp add: upt_conv_Cons map_Suc_upt [symmetric] comp_def add.assoc del: upt_Suc map_Suc_upt)

lemma schedule_loop_pays_off:
  assumes "covered r emi p" and "0 \<le> b" and "b \<le> p" and "k \<le> months \<or> b = 0"
  shows "pays_off k b (schedule_loop r emi months k b) \<and>
    int (length (schedule_loop r emi months k b)) \<le> max 0 (months + 1 - k) \<and>
    (\<forall>row \<in> set (schedule_loop r emi months k b). rw_InterestPaise row \<le> interest_on r b)"
  using assms(2-4)
proof (induction "nat (months + 1 - k)" arbitrary: k b rule: less_induct)
  case less
  note c = assms(1)
  show ?case
  proof (cases "b = 0")
    case True
    then show ?thesis by (simp add: schedule_loop_0 pays_off_def)
  next
    case False
    then have b: "0 < b" "b \<le> p" "k \<le> months" using less.prems by auto
    note m = covered_month [OF c b(1,2)]
    obtain b' where nb: "0 \<le> b'" "b' < b" "k = months \<longrightarrow> b' = 0"
        and step: "schedule_loop r emi months k b =
          \<lparr>rw_Month = k, rw_InterestPaise = interest_on r b, rw_PrincipalPaise = b - b', rw_BalancePaise = b'\<rparr>
            # schedule_loop r emi months (k + 1) b'"
      using schedule_loop_step [OF c b] m b by (cases "k = months") (auto simp: Let_def loan.next_nonneg)
    let ?rows = "schedule_loop r emi months (k + 1) b'"
    have IH: "pays_off (k + 1) b' ?rows \<and> int (length ?rows) \<le> max 0 (months + 1 - (k + 1)) \<and>
        (\<forall>row \<in> set ?rows. rw_InterestPaise row \<le> interest_on r b')"
      using nb b by (intro less.hyps) auto
    moreover have "interest_on r b' \<le> interest_on r b"
      using c b nb by (intro loan.interest_mono) (auto simp: covered_def)
    moreover have "\<forall>x \<in> set ?rows. rw_BalancePaise x < b" using IH nb(2) by (auto simp: pays_off_def)
    ultimately show ?thesis using nb m b
      by (auto simp: step pays_off_def months_Cons simp del: upt_Suc)
  qed
qed

lemma roundPaise_i64 [simp]: "is_i64 (roundPaise f)"
  by (simp add: roundPaise_def to_int64_def is_i64_def split: float64.split)

lemma EMI_i64 [simp]: "is_i64 (EMI p a n)"
  by (simp add: EMI_def Let_def) (simp add: is_i64_def)

lemma Schedule_covered:
  assumes "Schedule p (Fin a) months \<noteq> []" and "p \<le> max_principal" and "0 \<le> a" and "a \<le> 1000"
  shows "0 < p" "0 < months" "covered (monthlyRate (Fin a)) (EMI p (Fin a) months) p"
    "Schedule p (Fin a) months = schedule_loop (monthlyRate (Fin a)) (EMI p (Fin a) months) months 1 p"
proof -
  let ?r = "monthlyRate (Fin a)"
  have s: "sane_rate ?r" using assms(3, 4) by (rule monthlyRate_sane)
  show p: "0 < p" "0 < months"
    and eq: "Schedule p (Fin a) months = schedule_loop ?r (EMI p (Fin a) months) months 1 p"
    using assms(1) by (auto simp: Schedule_def Let_def split: if_splits)
  have e: "0 < EMI p (Fin a) months" "\<not> (flt (Fin 0) ?r \<and> EMI p (Fin a) months \<le> interest_on ?r p)"
    using assms(1) by (auto simp: Schedule_def Let_def split: if_splits)
  obtain q where q: "?r = Fin q" "0 \<le> q" "q \<le> 1" using s by (auto simp: sane_rate_def split: float64.splits)
  have "interest_on ?r p < EMI p (Fin a) months"
  proof (cases "q = 0")
    case True
    then have "interest_on ?r p = 0" using interest_on_exact(1) [of q p] p assms(2) q by simp
    then show ?thesis using e by simp
  next
    case False
    then show ?thesis using e q by simp
  qed
  then show "covered ?r (EMI p (Fin a) months) p" using s assms(2) by (simp add: covered_def)
qed

text \<open>
  C23: whenever a table is produced at all, for a principal up to ten trillion rupees and a
  rate from 0 to 1000 percent, it pays the loan off exactly: the principals add up to the loan to the
  paisa, the balances fall strictly and end at 0, the months are numbered from 1 and are at most the
  months asked for, and the interest is never negative and never rises.
\<close>
theorem schedule_pays_off:
  assumes "Schedule p (Fin a) months \<noteq> []" and "p \<le> max_principal" and "0 \<le> a" and "a \<le> 1000"
  shows "pays_off 1 p (Schedule p (Fin a) months) \<and> TotalPrincipal (Schedule p (Fin a) months) = p \<and>
    int (length (Schedule p (Fin a) months)) \<le> months"
proof -
  note c = Schedule_covered [OF assms]
  have "pays_off 1 p (Schedule p (Fin a) months) \<and>
      int (length (Schedule p (Fin a) months)) \<le> max 0 (months + 1 - 1)"
    unfolding c(4) using schedule_loop_pays_off [OF c(3), of p 1 months] c by simp
  moreover have "i64 p = p" using c(1) assms(2) by (simp add: balance_i64)
  ultimately show ?thesis using c(2) by (simp add: Totals pays_off_def)
qed

theorem schedule_pays_off_witness:
  "pays_off 1 100000 (Schedule 100000 (Fin 12) 1) \<and> TotalPrincipal (Schedule 100000 (Fin 12) 1) = 100000 \<and>
   int (length (Schedule 100000 (Fin 12) 1)) \<le> 1"
proof (rule schedule_pays_off)
  show "Schedule 100000 (Fin 12) 1 \<noteq> []" by code_simp
qed (simp_all add: max_principal_def)

section \<open>Simulated payoffs\<close>

definition prepaid :: "(int \<Rightarrow> int option) \<Rightarrow> int \<Rightarrow> int \<Rightarrow> int" where
  "prepaid m k b = (case m k of Some x \<Rightarrow> if x > 0 then min x b else 0 | None \<Rightarrow> 0)"

lemma prepaid_bounds: "0 \<le> b \<Longrightarrow> 0 \<le> prepaid m k b \<and> prepaid m k b \<le> b"
  by (simp add: prepaid_def split: option.split)

lemma prepay_loop_0: "prepay_loop r emi m k 0 = []" "k > monthCap \<Longrightarrow> prepay_loop r emi m k b = []"
  by (simp_all add: prepay_loop.simps)

lemma prepay_loop_step:
  assumes c: "covered r emi p" and b: "0 < b" "b \<le> p" and k: "k \<le> monthCap"
  shows "prepay_loop r emi m k b =
    (let b1 = b - prepaid m k b in
     if b1 = 0 then [\<lparr>rw_Month = k, rw_InterestPaise = 0, rw_PrincipalPaise = b, rw_BalancePaise = 0\<rparr>]
     else let b' = loan.next_balance r emi b1 in
       \<lparr>rw_Month = k, rw_InterestPaise = interest_on r b1, rw_PrincipalPaise = b1 - b', rw_BalancePaise = b'\<rparr>
         # prepay_loop r emi m (k + 1) b')"
proof -
  let ?b1 = "b - prepaid m k b"
  have e: "(case m k of Some x \<Rightarrow> if x > 0 then (if x > b then b else x) else 0 | None \<Rightarrow> 0) = prepaid m k b"
    by (simp add: prepaid_def split: option.split)
  show ?thesis
  proof (cases "?b1 = 0")
    case True
    then show ?thesis using b k by (simp add: prepay_loop.simps [of r emi m k b] e Let_def)
  next
    case False
    then have b1: "0 < ?b1" "?b1 \<le> p" using prepaid_bounds [of b m k] b by simp_all
    show ?thesis using covered_month [OF c b1] b k False
      by (auto simp: prepay_loop.simps [of r emi m k b] e Let_def)
  qed
qed

text \<open>Paying ahead, or owing less, never costs more interest, time or remaining debt.\<close>

lemma prepay_loop_mono:
  assumes c: "covered r emi p" and "0 \<le> a" and "a \<le> b" and "b \<le> p"
  shows "interest_sum (prepay_loop r emi m k a) \<le> interest_sum (prepay_loop r emi (\<lambda>_. None) k b) \<and>
    length (prepay_loop r emi m k a) \<le> length (prepay_loop r emi (\<lambda>_. None) k b) \<and>
    final_balance a (prepay_loop r emi m k a) \<le> final_balance b (prepay_loop r emi (\<lambda>_. None) k b) \<and>
    0 \<le> interest_sum (prepay_loop r emi (\<lambda>_. None) k b) \<and>
    0 \<le> final_balance a (prepay_loop r emi m k a)"
  using assms(2-4)
proof (induction "nat (monthCap + 1 - k)" arbitrary: k a b rule: less_induct)
  case less
  show ?case
  proof (cases "b = 0 \<or> monthCap < k")
    case True
    with less.prems show ?thesis by (auto simp: prepay_loop_0)
  next
    case False
    with less.prems have b: "0 < b" "b \<le> p" "k \<le> monthCap" by auto
    let ?nb = "loan.next_balance r emi b" and ?a1 = "a - prepaid m k a"
    let ?base = "prepay_loop r emi (\<lambda>_. None) (k + 1) ?nb"
    have base: "prepay_loop r emi (\<lambda>_. None) k b =
        \<lparr>rw_Month = k, rw_InterestPaise = interest_on r b, rw_PrincipalPaise = b - ?nb, rw_BalancePaise = ?nb\<rparr> # ?base"
      using prepay_loop_step [OF c b, of "\<lambda>_. None"] b by (simp add: prepaid_def Let_def)
    note m = covered_month [OF c b(1,2)]
    have IH: "interest_sum (prepay_loop r emi m (k + 1) a') \<le> interest_sum ?base \<and>
        length (prepay_loop r emi m (k + 1) a') \<le> length ?base \<and>
        final_balance a' (prepay_loop r emi m (k + 1) a') \<le> final_balance ?nb ?base \<and> 0 \<le> interest_sum ?base \<and>
        0 \<le> final_balance a' (prepay_loop r emi m (k + 1) a')" if "0 \<le> a'" "a' \<le> ?nb" for a'
      using that m b by (intro less.hyps) auto
    have a1: "0 \<le> ?a1" "?a1 \<le> b" using prepaid_bounds [of a m k] less.prems by auto
    show ?thesis
    proof (cases "?a1 = 0")
      case True
      have "prepay_loop r emi m k a = [] \<or>
          prepay_loop r emi m k a =
            [\<lparr>rw_Month = k, rw_InterestPaise = 0, rw_PrincipalPaise = a, rw_BalancePaise = 0\<rparr>]"
        using True prepay_loop_step [OF c _ _ b(3), of a m] less.prems
        by (cases "a = 0") (auto simp: prepay_loop_0 Let_def)
      moreover have "a = 0" if "prepay_loop r emi m k a = []"
        using that True prepay_loop_step [OF c _ _ b(3), of a m] less.prems by (cases "a = 0") (auto simp: Let_def)
      ultimately show ?thesis using IH [of 0] m base
        by (auto simp: prepay_loop_0 loan.next_nonneg)
    next
      case False
      let ?na = "loan.next_balance r emi ?a1"
      have "0 < a" using False a1 prepaid_bounds [of a m k] less.prems by (cases "a = 0") auto
      then have step: "prepay_loop r emi m k a =
          \<lparr>rw_Month = k, rw_InterestPaise = interest_on r ?a1, rw_PrincipalPaise = ?a1 - ?na, rw_BalancePaise = ?na\<rparr>
            # prepay_loop r emi m (k + 1) ?na"
        using False prepay_loop_step [OF c _ _ b(3), of a m] less.prems by (simp add: Let_def)
      have "interest_on r ?a1 \<le> interest_on r b" "?na \<le> ?nb"
        using loan.interest_mono [of r ?a1 b] loan.next_mono [of r ?a1 b emi] a1 b c by (auto simp: covered_def)
      then show ?thesis using IH [of ?na] m by (simp add: step base loan.next_nonneg)
    qed
  qed
qed

lemma prepay_loop_nonneg:
  assumes c: "covered r emi p" and "0 \<le> b" and "b \<le> p"
  shows "0 \<le> interest_sum (prepay_loop r emi m k b)"
  using assms(2,3)
proof (induction "nat (monthCap + 1 - k)" arbitrary: k b rule: less_induct)
  case less
  show ?case
  proof (cases "b = 0 \<or> monthCap < k")
    case False
    with less.prems have b: "0 < b" "b \<le> p" "k \<le> monthCap" by auto
    show ?thesis
    proof (cases "b - prepaid m k b = 0")
      case True
      then show ?thesis using prepay_loop_step [OF c b, of m] by (simp add: Let_def)
    next
      case b1: False
      then have "0 < b - prepaid m k b" "b - prepaid m k b \<le> p" using prepaid_bounds [of b m k] b by auto
      note n = covered_month [OF c this]
      have "0 \<le> interest_sum (prepay_loop r emi m (k + 1) (loan.next_balance r emi (b - prepaid m k b)))"
        using n b by (intro less.hyps) (auto simp: loan.next_nonneg)
      then show ?thesis using prepay_loop_step [OF c b, of m] b1 n by (simp add: Let_def)
    qed
  qed (auto simp: prepay_loop_0)
qed

text \<open>How long a simulation is and how much interest it can collect.\<close>

lemma prepay_loop_bounds:
  assumes c: "covered r emi p" and "0 \<le> b" and "b \<le> p"
  shows "interest_sum (prepay_loop r emi m k b) \<le> int (length (prepay_loop r emi m k b)) * b \<and>
    int (length (prepay_loop r emi m k b)) \<le> max 0 (monthCap + 1 - k)"
  using assms(2,3)
proof (induction "nat (monthCap + 1 - k)" arbitrary: k b rule: less_induct)
  case less
  show ?case
  proof (cases "b = 0 \<or> monthCap < k")
    case True
    with less.prems show ?thesis by (auto simp: prepay_loop_0)
  next
    case False
    with less.prems have b: "0 < b" "b \<le> p" "k \<le> monthCap" by auto
    let ?b1 = "b - prepaid m k b"
    let ?nb = "loan.next_balance r emi ?b1"
    let ?rows = "prepay_loop r emi m (k + 1) ?nb"
    show ?thesis
    proof (cases "?b1 = 0")
      case True
      then show ?thesis using prepay_loop_step [OF c b, of m] b by (simp add: Let_def)
    next
      case False
      then have b1: "0 < ?b1" "?b1 \<le> p" "?b1 \<le> b" using prepaid_bounds [of b m k] b by auto
      note n = covered_month [OF c b1(1,2)]
      have IH: "interest_sum ?rows \<le> int (length ?rows) * ?nb" "int (length ?rows) \<le> max 0 (monthCap + 1 - (k + 1))"
        using less.hyps [of "k + 1" ?nb] n b by (simp_all add: loan.next_nonneg)
      have "int (length ?rows) * ?nb \<le> int (length ?rows) * b" using n b1 by (intro mult_left_mono) auto
      then show ?thesis using IH n b1 b False prepay_loop_step [OF c b, of m]
        by (simp add: Let_def algebra_simps)
    qed
  qed
qed

lemma interest_is_i64:
  assumes "covered r emi p" and "0 \<le> p" and "interest_sum rows \<le> interest_sum (prepay_loop r emi m 1 p)"
    and "0 \<le> interest_sum rows"
  shows "is_i64 (interest_sum rows)"
proof -
  have l: "interest_sum (prepay_loop r emi m 1 p) \<le> int (length (prepay_loop r emi m 1 p)) * p"
    "int (length (prepay_loop r emi m 1 p)) \<le> 1200"
    using prepay_loop_bounds [OF assms(1,2), of m 1] by (simp_all add: monthCap_def)
  have "int (length (prepay_loop r emi m 1 p)) * p \<le> 1200 * 10 ^ 15"
    using l(2) assms(1,2) by (intro mult_mono) (auto simp: covered_def max_principal_def)
  then show ?thesis using l(1) assms(3,4) by (simp add: is_i64_def)
qed

lemmas interest_i64 = i64_id [OF interest_is_i64]

definition loan_covered :: "Loan \<Rightarrow> bool" where
  "loan_covered l \<longleftrightarrow> 0 < ln_PrincipalPaise l \<and> 0 < loan_emi l \<and>
     covered (monthlyRate (ln_AnnualRatePct l)) (loan_emi l) (ln_PrincipalPaise l)"

definition alone :: "Loan \<Rightarrow> Row list" where
  "alone l = prepaySchedule (ln_PrincipalPaise l) (ln_AnnualRatePct l) (loan_emi l) (\<lambda>_. None)"

lemma alone_loop:
  "loan_covered l \<Longrightarrow> alone l =
     prepay_loop (monthlyRate (ln_AnnualRatePct l)) (loan_emi l) (\<lambda>_. None) 1 (ln_PrincipalPaise l)"
  by (simp add: alone_def prepaySchedule_def loan_covered_def)

lemma loop_nonempty:
  "covered r emi p \<Longrightarrow> 0 < p \<Longrightarrow> prepay_loop r emi m 1 p \<noteq> []"
  using prepay_loop_step [of r emi p p 1 m] by (auto simp: monthCap_def Let_def split: if_splits)

text \<open>
  C24: for a loan whose instalment covers the interest (\<open>loan_covered\<close>, which also bounds the rate
  and the principal; without it the plain schedule is empty and counts as one without interest), a lump sum of any size in any month never costs
  interest or time: the savings the answer reports are exactly the differences of the two simulations
  (the code's guards against negative differences never act), nothing overflows, and if the plain simulation
  clears the loan within its 1200 months, so does the prepaid one.
\<close>
theorem prepayment_never_hurts:
  assumes "loan_covered l"
  shows "let res = PrepaymentImpact l extra month in
    pp_InterestSavedPaise res = pp_BaselineInterest res - pp_NewInterest res \<and>
    0 \<le> pp_NewInterest res \<and> pp_NewInterest res \<le> pp_BaselineInterest res \<and>
    pp_TenureReducedMonths res = pp_BaselineMonths res - pp_NewMonths res \<and>
    pp_NewMonths res \<le> pp_BaselineMonths res \<and> pp_BaselineMonths res \<le> 1200 \<and>
    (pp_Converged res \<longleftrightarrow> scheduleConverged (alone l))"
proof -
  let ?p = "ln_PrincipalPaise l" and ?r = "monthlyRate (ln_AnnualRatePct l)" and ?e = "loan_emi l"
  let ?m = "[(if month < 1 then 1 else month) \<mapsto> extra]"
  let ?base = "prepay_loop ?r ?e (\<lambda>_. None) 1 ?p" and ?new = "prepay_loop ?r ?e ?m 1 ?p"
  have l: "0 < ?p" "0 < ?e" "covered ?r ?e ?p" using assms by (simp_all add: loan_covered_def)
  have m: "interest_sum ?new \<le> interest_sum ?base" "length ?new \<le> length ?base"
      "final_balance ?p ?new \<le> final_balance ?p ?base" "0 \<le> final_balance ?p ?new"
    using prepay_loop_mono [OF l(3), of ?p ?p ?m 1] l by simp_all
  have nonneg: "0 \<le> interest_sum ?new"
    using prepay_loop_nonneg [OF l(3), of ?p ?m 1] l by simp
  have base: "prepaySchedule ?p (ln_AnnualRatePct l) ?e (\<lambda>_. None) = ?base"
    and new: "prepaySchedule ?p (ln_AnnualRatePct l) ?e ?m = ?new"
    using l by (simp_all add: prepaySchedule_def)
  have i: "i64 (interest_sum ?base) = interest_sum ?base" "i64 (interest_sum ?new) = interest_sum ?new"
    using interest_i64 [OF l(3), of ?base "\<lambda>_. None"] interest_i64 [OF l(3), of ?new "\<lambda>_. None"] m nonneg l by auto
  moreover have "i64 (interest_sum ?base - interest_sum ?new) = interest_sum ?base - interest_sum ?new"
    using interest_is_i64 [OF l(3), of ?base "\<lambda>_. None"] m nonneg l by (intro i64_id) (auto simp: is_i64_def)
  moreover have "int (length ?base) \<le> 1200" using prepay_loop_bounds [OF l(3), of ?p "\<lambda>_. None" 1] l
    by (simp add: monthCap_def)
  moreover have "scheduleConverged ?base \<longleftrightarrow> final_balance ?p ?base = 0"
      "scheduleConverged ?new \<longleftrightarrow> final_balance ?p ?new = 0"
    using loop_nonempty [OF l(3,1)] by (auto simp: converged_final [of _ ?p])
  ultimately show ?thesis using m nonneg assms
    by (auto simp: PrepaymentImpact_def base new Let_def Totals i alone_loop)
qed

definition demo_loan :: Loan where
  "demo_loan = \<lparr>ln_ID = ''L1'', ln_PrincipalPaise = 60, ln_AnnualRatePct = Fin 60, ln_Months = 12,
     ln_EMIPaise = 20, ln_Floating = False, ln_LoanType = ''personal''\<rparr>"

lemma demo_loan_covered: "loan_covered demo_loan"
  by code_simp

theorem prepayment_never_hurts_witness:
  "pp_NewInterest (PrepaymentImpact demo_loan 10 2) \<le> pp_BaselineInterest (PrepaymentImpact demo_loan 10 2)"
  using prepayment_never_hurts [OF demo_loan_covered, of 10 2] by (simp add: Let_def)

section \<open>How long a simulation takes\<close>

lemma prepay_loop_ends:
  assumes c: "covered r emi p" and "0 \<le> b" and "b \<le> p"
    and "b \<le> int n * (emi - interest_on r p)" and "k + int n \<le> monthCap + 1"
  shows "final_balance b (prepay_loop r emi (\<lambda>_. None) k b) = 0 \<and> length (prepay_loop r emi (\<lambda>_. None) k b) \<le> n"
  using assms(2-5)
proof (induction n arbitrary: k b)
  case 0
  then show ?case by (simp add: prepay_loop_0)
next
  case (Suc n)
  show ?case
  proof (cases "b = 0")
    case False
    then have b: "0 < b" "b \<le> p" "k \<le> monthCap" using Suc.prems by auto
    let ?nb = "loan.next_balance r emi b"
    note m = covered_month [OF c b(1,2)]
    have "?nb \<le> max 0 (b - (emi - interest_on r p))"
      using c b by (intro loan.next_falls) (auto simp: covered_def)
    also have "\<dots> \<le> int n * (emi - interest_on r p)"
    proof -
      have "0 \<le> int n * (emi - interest_on r p)" using c by (simp add: covered_def)
      then show ?thesis using Suc.prems(3) by (simp add: algebra_simps)
    qed
    finally have "?nb \<le> int n * (emi - interest_on r p)" .
    then show ?thesis
      using Suc.IH [of ?nb "k + 1"] Suc.prems(4) m b prepay_loop_step [OF c b, of "\<lambda>_. None"]
      by (simp add: prepaid_def Let_def loan.next_nonneg)
  qed (simp add: prepay_loop_0)
qed

text \<open>
  C25: a simulation really pays the loan off, and in time: if the instalment covers the first month's
  interest with \<open>d\<close> paise to spare and the principal is at most \<open>n\<close> times \<open>d\<close>, with \<open>n\<close> at most the 1200 months the
  loop allows, the loan is cleared within \<open>n\<close> months.
\<close>
theorem simulation_ends:
  assumes "loan_covered l" and "n \<le> 1200"
    and "ln_PrincipalPaise l \<le>
      int n * (loan_emi l - interest_on (monthlyRate (ln_AnnualRatePct l)) (ln_PrincipalPaise l))"
  shows "alone l \<noteq> [] \<and> rw_BalancePaise (last (alone l)) = 0 \<and> length (alone l) \<le> n"
proof -
  let ?p = "ln_PrincipalPaise l" and ?r = "monthlyRate (ln_AnnualRatePct l)"
  have l: "0 < ?p" "covered ?r (loan_emi l) ?p" using assms(1) by (simp_all add: loan_covered_def)
  show ?thesis
    using prepay_loop_ends [OF l(2), of ?p n 1] loop_nonempty [OF l(2,1), of "\<lambda>_. None"] assms(2,3) l
    by (simp add: alone_loop [OF assms(1)] monthCap_def final_balance_def)
qed

theorem simulation_ends_witness:
  "alone demo_loan \<noteq> [] \<and> rw_BalancePaise (last (alone demo_loan)) = 0 \<and> length (alone demo_loan) \<le> 4"
proof (rule simulation_ends [OF demo_loan_covered])
  show "ln_PrincipalPaise demo_loan \<le> int 4 *
      (loan_emi demo_loan - interest_on (monthlyRate (ln_AnnualRatePct demo_loan)) (ln_PrincipalPaise demo_loan))"
    by code_simp
qed simp

text \<open>
  The flag that should tell a caller that a loan is not being paid off is wrong where it matters most: when
  the instalment does not even cover the first month's interest, the answer reports no interest, no months and that the
  simulation converged.
\<close>
theorem stalled_loan_reported_converged:
  assumes "0 < loan_emi l" and "loan_emi l \<le> interest_on (monthlyRate (ln_AnnualRatePct l)) (ln_PrincipalPaise l)"
    and "0 < ln_PrincipalPaise l" and "extra \<le> 0 \<or> 1 < month"
  shows "PrepaymentImpact l extra month =
    \<lparr>pp_InterestSavedPaise = 0, pp_TenureReducedMonths = 0, pp_BaselineMonths = 0, pp_NewMonths = 0,
     pp_BaselineInterest = 0, pp_NewInterest = 0, pp_Converged = True\<rparr>"
proof -
  let ?p = "ln_PrincipalPaise l" and ?r = "monthlyRate (ln_AnnualRatePct l)"
  have "is_i64 (interest_on ?r ?p)" by (simp add: interest_on_def)
  then have "i64 (loan_emi l - interest_on ?r ?p) = loan_emi l - interest_on ?r ?p"
    using assms(1,2) by (intro i64_id) (simp add: is_i64_def)
  then have none: "prepay_loop ?r (loan_emi l) m 1 ?p = []" if "\<And>x. m 1 = Some x \<Longrightarrow> x \<le> 0" for m
    using that assms by (cases "m 1") (simp_all add: prepay_loop.simps [of _ _ _ 1] Let_def)
  have "prepay_loop ?r (loan_emi l) [(if month < 1 then 1 else month) \<mapsto> extra] 1 ?p = []"
    using assms(4) by (intro none) (auto split: if_splits)
  moreover have "prepay_loop ?r (loan_emi l) (\<lambda>_. None) 1 ?p = []" by (intro none) simp
  ultimately show ?thesis using assms
    by (simp add: PrepaymentImpact_def prepaySchedule_def Let_def TotalInterest_def scheduleConverged_def
        del: fun_upd_apply split del: if_split)
qed

definition stalled_loan :: Loan where
  "stalled_loan = \<lparr>ln_ID = ''L2'', ln_PrincipalPaise = 1000, ln_AnnualRatePct = Fin 60, ln_Months = 12,
     ln_EMIPaise = 20, ln_Floating = False, ln_LoanType = ''personal''\<rparr>"

theorem stalled_loan_reported_converged_witness:
  "pp_Converged (PrepaymentImpact stalled_loan 500 6) \<and> pp_NewMonths (PrepaymentImpact stalled_loan 500 6) = 0"
proof -
  have "0 < loan_emi stalled_loan" "0 < ln_PrincipalPaise stalled_loan"
      "loan_emi stalled_loan \<le> interest_on (monthlyRate (ln_AnnualRatePct stalled_loan)) (ln_PrincipalPaise stalled_loan)"
    by code_simp+
  then show ?thesis using stalled_loan_reported_converged [of stalled_loan 500 6] by simp
qed

section \<open>Payoff strategies\<close>

definition good_acct :: "acct \<Rightarrow> bool" where
  "good_acct a \<longleftrightarrow> 0 \<le> wa_bal a \<and> covered (wa_r a) (wa_emi a) (wa_bal a)"

definition rest :: "int \<Rightarrow> acct \<Rightarrow> Row list" where
  "rest k a = prepay_loop (wa_r a) (wa_emi a) (\<lambda>_. None) k (wa_bal a)"

definition accrued :: "acct \<Rightarrow> int" where
  "accrued a = (if wa_bal a \<le> 0 then 0 else interest_on (wa_r a) (wa_bal a))"

text \<open>One month later: the same loan with at most the balance its own instalment leaves.\<close>

definition month_later :: "acct \<Rightarrow> acct \<Rightarrow> bool" where
  "month_later a a' \<longleftrightarrow> wa_r a' = wa_r a \<and> wa_emi a' = wa_emi a \<and> 0 \<le> wa_bal a' \<and>
     wa_bal a' \<le> loan.next_balance (wa_r a) (wa_emi a) (wa_bal a)"

lemma next_balance_0: "covered r emi 0 \<Longrightarrow> loan.next_balance r emi 0 = 0"
  using loan.interest_le [of r 0] by (simp add: covered_def loan.next_balance_def max_principal_def)

lemma pay_emi_later: "good_acct a \<Longrightarrow> month_later a (pay_emi a)"
proof (cases "wa_bal a = 0")
  case False
  assume "good_acct a"
  then have c: "covered (wa_r a) (wa_emi a) (wa_bal a)" "0 < wa_bal a" using False by (simp_all add: good_acct_def)
  show ?thesis using covered_month [OF c(1,2)] c
    by (auto simp: month_later_def pay_emi_def Let_def)
qed (auto simp: good_acct_def month_later_def pay_emi_def next_balance_0)

lemma pick_loop_index:
  "pick_loop s accts i as best = Some j \<Longrightarrow> (\<And>b. best = Some b \<Longrightarrow> b < i \<and> P b) \<Longrightarrow>
   (\<And>n. n < length as \<Longrightarrow> 0 < wa_bal (as ! n) \<Longrightarrow> P (i + n)) \<Longrightarrow> j < i + length as \<and> P j"
proof (induction s accts i as best rule: pick_loop.induct)
  case (2 s accts i a as best)
  let ?next = "if wa_bal a \<le> 0 then best else case best of None \<Rightarrow> Some i
      | Some b \<Rightarrow> if better s a (accts ! b) then Some i else best"
  have "P i" if "0 < wa_bal a" using 2(4) [of 0] that by simp
  then have "b < Suc i \<and> P b" if "?next = Some b" for b
    using that 2(3) by (fastforce split: if_splits option.splits)
  moreover have "P (Suc i + n)" if "n < length as" "0 < wa_bal (as ! n)" for n using 2(4) [of "Suc n"] that by simp
  ultimately show ?case using 2(1) 2(2) by simp
qed simp

lemma pickTarget_active: "pickTarget accts s = Some j \<Longrightarrow> j < length accts \<and> 0 < wa_bal (accts ! j)"
  using pick_loop_index [of s accts 0 accts None j "\<lambda>j. 0 < wa_bal (accts ! j)"] by (simp add: pickTarget_def)

lemma pour_lowers:
  "\<forall>a \<in> set accts. 0 \<le> wa_bal a \<Longrightarrow>
   list_all2 (\<lambda>a a'. wa_r a' = wa_r a \<and> wa_emi a' = wa_emi a \<and> 0 \<le> wa_bal a' \<and> wa_bal a' \<le> wa_bal a)
     accts (pour s pool accts)"
proof (cases "pickTarget accts s")
  case (Some j)
  assume nonneg: "\<forall>a \<in> set accts. 0 \<le> wa_bal a"
  from pickTarget_active [OF Some] have "j < length accts" ..
  with nonneg show ?thesis by (auto simp: pour_def Some list_all2_conv_all_nth nth_list_update Let_def)
qed (simp add: pour_def list_all2_conv_all_nth)

lemma waterfall_month_later:
  assumes "\<forall>a \<in> set accts. good_acct a"
  shows "list_all2 month_later accts (waterfall_month s extra accts)"
proof -
  let ?paid = "map pay_emi accts"
  have p: "list_all2 month_later accts ?paid"
    using assms pay_emi_later by (simp add: list_all2_conv_all_nth)
  then have "\<forall>a \<in> set ?paid. 0 \<le> wa_bal a"
    by (auto simp: month_later_def list_all2_conv_all_nth in_set_conv_nth)
  from list_all2_trans [OF _ p pour_lowers [OF this, of s "month_pool extra ?paid"]]
  show ?thesis unfolding waterfall_month_def Let_def by (fastforce simp: month_later_def)
qed

lemma accrued_nonneg: "good_acct a \<Longrightarrow> 0 \<le> accrued a"
  using covered_month(1) [of "wa_r a" "wa_emi a" "wa_bal a" "wa_bal a"] by (simp add: accrued_def good_acct_def)

lemma month_later_rest:
  assumes "good_acct a" and "month_later a a'" and "k \<le> monthCap"
  shows "good_acct a'" and "interest_sum (rest (k + 1) a') + accrued a \<le> interest_sum (rest k a)"
    and "length (rest (k + 1) a') \<le> length (rest k a) - 1"
    and "0 \<le> final_balance (wa_bal a') (rest (k + 1) a')"
    and "final_balance (wa_bal a') (rest (k + 1) a') \<le> final_balance (wa_bal a) (rest k a)"
proof -
  let ?r = "wa_r a" and ?e = "wa_emi a" and ?b = "wa_bal a" and ?b' = "wa_bal a'"
  have c: "covered ?r ?e ?b" "0 \<le> ?b" using assms(1) by (simp_all add: good_acct_def)
  have a': "wa_r a' = ?r" "wa_emi a' = ?e" "0 \<le> ?b'" "?b' \<le> loan.next_balance ?r ?e ?b"
    using assms(2) by (simp_all add: month_later_def)
  have n: "loan.next_balance ?r ?e ?b \<le> ?b"
    using covered_month(7) [OF c(1), of ?b] c next_balance_0 [of ?r ?e] by (cases "?b = 0") auto
  have mono: "interest_sum (rest (k + 1) a') \<le>
        interest_sum (prepay_loop ?r ?e (\<lambda>_. None) (k + 1) (loan.next_balance ?r ?e ?b)) \<and>
      length (rest (k + 1) a') \<le> length (prepay_loop ?r ?e (\<lambda>_. None) (k + 1) (loan.next_balance ?r ?e ?b)) \<and>
      final_balance ?b' (rest (k + 1) a') \<le>
        final_balance (loan.next_balance ?r ?e ?b) (prepay_loop ?r ?e (\<lambda>_. None) (k + 1) (loan.next_balance ?r ?e ?b)) \<and>
      0 \<le> final_balance ?b' (rest (k + 1) a')"
    using prepay_loop_mono [OF c(1) a'(3,4) n] by (simp add: rest_def a')
  have step: "rest k a = (if ?b = 0 then [] else
      \<lparr>rw_Month = k, rw_InterestPaise = interest_on ?r ?b, rw_PrincipalPaise = ?b - loan.next_balance ?r ?e ?b,
        rw_BalancePaise = loan.next_balance ?r ?e ?b\<rparr>
        # prepay_loop ?r ?e (\<lambda>_. None) (k + 1) (loan.next_balance ?r ?e ?b))"
    using prepay_loop_step [OF c(1) _ order_refl assms(3), of "\<lambda>_. None"] c(2)
    by (simp add: rest_def prepay_loop_0 prepaid_def Let_def)
  show "good_acct a'" using covered_less [OF c(1) a'(3)] n a' by (simp add: good_acct_def)
  show "0 \<le> final_balance ?b' (rest (k + 1) a')" using mono by simp
  have z: "?b' = 0" "loan.next_balance ?r ?e ?b = 0" if "?b = 0"
    using a' that next_balance_0 [of ?r ?e] c by simp_all
  show "interest_sum (rest (k + 1) a') + accrued a \<le> interest_sum (rest k a)"
    and "length (rest (k + 1) a') \<le> length (rest k a) - 1"
    and "final_balance ?b' (rest (k + 1) a') \<le> final_balance ?b (rest k a)"
    using mono step z c(2) by (auto simp: accrued_def rest_def prepay_loop_0 split: if_splits)
qed

lemma list_all2_sum_le:
  fixes f :: "'b \<Rightarrow> int"
  shows "list_all2 (\<lambda>x y. f y + h x \<le> g x) xs ys \<Longrightarrow> (\<Sum>y\<leftarrow>ys. f y) + (\<Sum>x\<leftarrow>xs. h x) \<le> (\<Sum>x\<leftarrow>xs. g x)"
  by (induction rule: list_all2_induct) auto

lemma month_interest_sum: "is_i64 t \<Longrightarrow> month_interest accts t = i64 (t + (\<Sum>a\<leftarrow>accts. accrued a))"
proof (induction accts arbitrary: t)
  case (Cons a accts)
  have "is_i64 (if wa_bal a \<le> 0 then t else i64 (t + interest_on (wa_r a) (wa_bal a)))" using Cons.prems by simp
  from Cons.IH [OF this] show ?case by (simp add: month_interest_def accrued_def i64_simps add.assoc)
qed (simp add: month_interest_def i64_id)


lemma waterfall_loop_bound:
  assumes "\<forall>a \<in> set accts. good_acct a" and "0 \<le> month" and "month \<le> monthCap" and "0 \<le> t"
    and "t + (\<Sum>a\<leftarrow>accts. interest_sum (rest (month + 1) a)) < 2 ^ 63"
    and "\<forall>a \<in> set accts. length (rest (month + 1) a) \<le> n"
  shows "case waterfall_loop s extra month t accts of (interest, months, converged) \<Rightarrow>
    0 \<le> interest \<and> interest \<le> t + (\<Sum>a\<leftarrow>accts. interest_sum (rest (month + 1) a)) \<and> months \<le> month + int n \<and>
    ((\<forall>a \<in> set accts. final_balance (wa_bal a) (rest (month + 1) a) = 0) \<longrightarrow> converged)"
  using assms
proof (induction "nat (monthCap - month)" arbitrary: month t accts n rule: less_induct)
  case less
  have inactive: "(\<Sum>a\<leftarrow>accts. interest_sum (rest (month + 1) a)) \<ge> 0"
  proof (intro sum_list_nonneg, clarsimp)
    fix a assume "a \<in> set accts"
    then have "covered (wa_r a) (wa_emi a) (wa_bal a)" "0 \<le> wa_bal a" using less.prems(1) by (auto simp: good_acct_def)
    then show "0 \<le> interest_sum (rest (month + 1) a)" unfolding rest_def by (intro prepay_loop_nonneg) auto
  qed
  show ?case
  proof (cases "month < monthCap \<and> anyActive accts")
    case False
    have "\<not> anyActive accts" if "\<forall>a \<in> set accts. final_balance (wa_bal a) (rest (month + 1) a) = 0"
    proof (cases "month < monthCap")
      case m: False
      then have "rest (month + 1) a = []" for a by (simp add: rest_def prepay_loop_0)
      then show ?thesis using that by (simp add: anyActive_def list_ex_iff)
    qed (use False in simp)
    then show ?thesis using False inactive less.prems
      by (subst waterfall_loop.simps) (auto simp: split del: if_split simp: if_not_P)
  next
    case True
    let ?accts = "waterfall_month s extra accts" and ?t = "t + (\<Sum>a\<leftarrow>accts. accrued a)"
    have later: "list_all2 month_later accts ?accts" using less.prems(1) by (rule waterfall_month_later)
    have k: "month + 1 \<le> monthCap" using True by simp
    note rest = month_later_rest [OF _ _ k]
    have good: "\<forall>a \<in> set ?accts. good_acct a" and long: "\<forall>a \<in> set ?accts. length (rest (month + 1 + 1) a) \<le> n - 1"
      and final: "(\<forall>a \<in> set accts. final_balance (wa_bal a) (rest (month + 1) a) = 0) \<Longrightarrow>
        (\<forall>a \<in> set ?accts. final_balance (wa_bal a) (rest (month + 1 + 1) a) = 0)"
      using later less.prems(1,6) rest
      by (fastforce simp: list_all2_conv_all_nth in_set_conv_nth Ball_def)+
    have "list_all2 (\<lambda>a a'. interest_sum (rest (month + 1 + 1) a') + accrued a \<le> interest_sum (rest (month + 1) a))
        accts ?accts"
      using later less.prems(1) rest(2) by (auto simp: list_all2_conv_all_nth)
    from list_all2_sum_le [OF this]
    have sum: "?t + (\<Sum>a\<leftarrow>?accts. interest_sum (rest (month + 1 + 1) a)) \<le>
        t + (\<Sum>a\<leftarrow>accts. interest_sum (rest (month + 1) a))" by simp
    have "0 \<le> (\<Sum>a\<leftarrow>accts. accrued a)"
      using less.prems(1) accrued_nonneg by (intro sum_list_nonneg) auto
    moreover have "0 \<le> (\<Sum>a\<leftarrow>?accts. interest_sum (rest (month + 1 + 1) a))"
      using good by (intro sum_list_nonneg) (auto simp: good_acct_def rest_def intro!: prepay_loop_nonneg)
    ultimately have t: "0 \<le> ?t" "month_interest accts t = ?t"
      using sum less.prems(4,5) by (simp_all add: month_interest_sum i64_id is_i64_def)
    have "0 < n"
    proof -
      obtain a where a: "a \<in> set accts" "0 < wa_bal a" using True by (auto simp: anyActive_def list_ex_iff)
      then have "rest (month + 1) a \<noteq> []"
        using less.prems(1) prepay_loop_step [of "wa_r a" "wa_emi a" "wa_bal a" "wa_bal a" "month + 1" "\<lambda>_. None"] k
        by (auto simp: rest_def good_acct_def Let_def split: if_splits)
      then show ?thesis using less.prems(6) a by (cases "rest (month + 1) a") fastforce+
    qed
    have "case waterfall_loop s extra (month + 1) ?t ?accts of (interest, months, converged) \<Rightarrow>
        0 \<le> interest \<and> interest \<le> ?t + (\<Sum>a\<leftarrow>?accts. interest_sum (rest (month + 1 + 1) a)) \<and>
        months \<le> month + 1 + int (n - 1) \<and>
        ((\<forall>a \<in> set ?accts. final_balance (wa_bal a) (rest (month + 1 + 1) a) = 0) \<longrightarrow> converged)"
      using good long t sum less.prems(2,5) k by (intro less.hyps) auto
    then show ?thesis using True t sum final \<open>0 < n\<close>
      by (auto simp: waterfall_loop.simps [of s extra month])
  qed
qed

text \<open>
  C26: whatever the strategy and the extra budget, the waterfall over several loans costs no more interest and takes no
  longer than paying every loan alone by its own instalment, its running total never overflows, and it clears every
  loan if each is cleared alone.
\<close>
theorem strategy_no_worse_than_alone:
  assumes "\<forall>l \<in> set loans. loan_covered l \<and> length (alone l) \<le> n"
    and "(\<Sum>l\<leftarrow>loans. ln_PrincipalPaise l) \<le> max_principal"
  shows "case simulateWaterfall loans extra s of (interest, months, converged) \<Rightarrow>
    0 \<le> interest \<and> interest \<le> (\<Sum>l\<leftarrow>loans. interest_sum (alone l)) \<and> months \<le> int n \<and>
    ((\<forall>l \<in> set loans. scheduleConverged (alone l)) \<longrightarrow> converged)"
proof (cases "loans = []")
  case False
  let ?accts = "map to_acct loans"
  have pos: "\<forall>l \<in> set loans. 0 < ln_PrincipalPaise l" using assms(1) by (simp add: loan_covered_def)
  have alone: "rest 1 (to_acct l) = alone l" "good_acct (to_acct l)" "alone l \<noteq> []"
      "interest_sum (alone l) \<le> 1200 * ln_PrincipalPaise l" if "l \<in> set loans" for l
  proof -
    let ?r = "monthlyRate (ln_AnnualRatePct l)" and ?p = "ln_PrincipalPaise l"
    have l: "loan_covered l" "covered ?r (loan_emi l) ?p" "0 < ?p"
      using that assms(1) by (simp_all add: loan_covered_def)
    show "rest 1 (to_acct l) = alone l" "good_acct (to_acct l)" "alone l \<noteq> []"
      using l loop_nonempty [OF l(2,3)] by (simp_all add: rest_def to_acct_def alone_loop good_acct_def)
    have "interest_sum (alone l) \<le> int (length (alone l)) * ?p" "int (length (alone l)) \<le> 1200"
      using prepay_loop_bounds [OF l(2), of ?p "\<lambda>_. None" 1] l by (simp_all add: alone_loop monthCap_def)
    moreover from this(2) have "int (length (alone l)) * ?p \<le> 1200 * ?p"
      using l(3) by (intro mult_right_mono) simp_all
    ultimately show "interest_sum (alone l) \<le> 1200 * ?p" by (blast intro: order_trans)
  qed
  have eq: "(\<Sum>a\<leftarrow>?accts. interest_sum (rest (0 + 1) a)) = (\<Sum>l\<leftarrow>loans. interest_sum (alone l))"
    using alone(1) by (simp add: comp_def cong: map_cong)
  have "(\<Sum>l\<leftarrow>loans. interest_sum (alone l)) \<le> (\<Sum>l\<leftarrow>loans. 1200 * ln_PrincipalPaise l)"
    using alone(4) by (intro sum_list_mono)
  also have "\<dots> = 1200 * (\<Sum>l\<leftarrow>loans. ln_PrincipalPaise l)" by (simp add: sum_list_const_mult)
  finally have small: "(\<Sum>l\<leftarrow>loans. interest_sum (alone l)) < 2 ^ 63"
    using assms(2) by (simp add: max_principal_def)
  have "case waterfall_loop s extra 0 0 ?accts of (interest, months, converged) \<Rightarrow>
      0 \<le> interest \<and> interest \<le> 0 + (\<Sum>a\<leftarrow>?accts. interest_sum (rest (0 + 1) a)) \<and> months \<le> 0 + int n \<and>
      ((\<forall>a \<in> set ?accts. final_balance (wa_bal a) (rest (0 + 1) a) = 0) \<longrightarrow> converged)"
    using alone(1,2) small eq assms(1) by (intro waterfall_loop_bound) (auto simp: monthCap_def)
  moreover have "filter (\<lambda>l. 0 < ln_PrincipalPaise l) loans = loans" using pos by (simp add: filter_id_conv)
  ultimately show ?thesis using False alone(1,3) eq
    by (auto simp: simulateWaterfall_def scheduleConverged_def final_balance_def to_acct_def)
qed (simp add: simulateWaterfall_def)

definition small_debts :: "Loan list" where
  "small_debts = [demo_loan\<lparr>ln_PrincipalPaise := 40, ln_AnnualRatePct := Fin 36, ln_EMIPaise := 20\<rparr>,
                  demo_loan\<lparr>ln_PrincipalPaise := 120, ln_AnnualRatePct := Fin 60, ln_EMIPaise := 100\<rparr>]"

theorem strategy_no_worse_than_alone_witness:
  "case simulateWaterfall small_debts 10 Snowball of (interest, months, converged) \<Rightarrow> months \<le> 3"
proof -
  have "\<forall>l \<in> set small_debts. loan_covered l \<and> length (alone l) \<le> 3" by code_simp
  moreover have "(\<Sum>l\<leftarrow>small_debts. ln_PrincipalPaise l) \<le> max_principal" by code_simp
  ultimately show ?thesis using strategy_no_worse_than_alone [of small_debts 3 10 Snowball] by auto
qed

lemma small_debts_interest:
  "interest_on (monthlyRate (Fin 36)) 40 = 1" "interest_on (monthlyRate (Fin 36)) 21 = 1"
  "interest_on (monthlyRate (Fin 36)) 11 = 0"
  "interest_on (monthlyRate (Fin 60)) 120 = 6" "interest_on (monthlyRate (Fin 60)) 26 = 1"
  "interest_on (monthlyRate (Fin 60)) 16 = 1"
  by code_simp+

lemmas small_debts_run = simulateWaterfall_def small_debts_def demo_loan_def to_acct_def loan_emi_def
  waterfall_loop.simps [of _ _ 0] waterfall_loop.simps [of _ _ 1] waterfall_loop.simps [of _ _ 2]
  monthCap_def anyActive_def waterfall_month_def pay_emi_def month_interest_def month_pool_def pour_def
  pickTarget_def better_def i64_def small_debts_interest

text \<open>
  The reported price of preferring the snowball is not what the code takes it for: "avalanche is provably never worse"
  fails on two small loans, where the avalanche collects 9 paise of interest and the snowball 8, and the answer
  hides it by reporting a price of 0.
\<close>
theorem avalanche_can_cost_more:
  "simulateWaterfall small_debts 10 Avalanche = (9, 2, True) \<and>
   simulateWaterfall small_debts 10 Snowball = (8, 2, True) \<and>
   op_InterestCostOfSnowball (OptimiseStrategy small_debts 10 (Fin 0) (Fin 0)) = 0"
proof -
  have a: "simulateWaterfall small_debts 10 Avalanche = (9, 2, True)" by (simp add: small_debts_run Let_def)
  have b: "simulateWaterfall small_debts 10 Snowball = (8, 2, True)" by (simp add: small_debts_run Let_def)
  show ?thesis by (simp add: OptimiseStrategy_def a b i64_def Let_def)
qed

end
