(* ===== verification/TaxRegimes.thy ===== *)
theory TaxRegimes
  imports PlatformOnboarding
begin

text \<open>
  The income-tax estimates of \<open>domain/platform/service.go\<close>: the two regimes, the deductions, capital
  gains and the comparison a customer sees. Amounts are \<open>int64\<close> paise and wrap around where the code
  multiplies. The calendar fields of the dashboard are arguments.
\<close>

section \<open>The regimes\<close>

text \<open>\<open>x * k / 100\<close>, truncated towards zero.\<close>

definition pct :: "int \<Rightarrow> int \<Rightarrow> int" where
  "pct x k = i64 (x * k) sdiv 100"

definition surcharge :: "int \<Rightarrow> int \<Rightarrow> int" where
  "surcharge income tax =
     (if income > 5000000000 then pct tax 37 else if income > 2000000000 then pct tax 25
      else if income > 1000000000 then pct tax 15 else if income > 500000000 then pct tax 10 else 0)"

text \<open>The rebate of section 87A up to an income and an amount.\<close>

definition rebate :: "int \<Rightarrow> int \<Rightarrow> int \<Rightarrow> int \<Rightarrow> int" where
  "rebate cap_income amount income tax =
     (if income \<le> cap_income \<and> tax > 0 then (if tax \<le> amount then 0 else tax - amount) else tax)"

definition with_cess :: "int \<Rightarrow> int \<Rightarrow> int" where
  "with_cess tax s = i64 (i64 (tax + s) + pct (i64 (tax + s)) 4)"

definition old_slab :: "int \<Rightarrow> int" where
  "old_slab income =
     (if income \<le> 25000000 then 0
      else if income \<le> 50000000 then pct (income - 25000000) 5
      else if income \<le> 100000000 then i64 (1250000 + pct (income - 50000000) 20)
      else i64 (1250000 + 10000000 + pct (income - 100000000) 30))"

definition calculateOldRegimeTax :: "int \<Rightarrow> int" where
  "calculateOldRegimeTax income =
     (if income \<le> 0 then 0
      else let tax = rebate 50000000 1250000 income (old_slab income) in with_cess tax (surcharge income tax))"

definition new_slab :: "int \<Rightarrow> int" where
  "new_slab income =
     (if income \<le> 30000000 then 0
      else if income \<le> 60000000 then pct (income - 30000000) 5
      else if income \<le> 90000000 then i64 (1500000 + pct (income - 60000000) 10)
      else if income \<le> 120000000 then i64 (1500000 + 3000000 + pct (income - 90000000) 15)
      else if income \<le> 150000000 then i64 (1500000 + 3000000 + 4500000 + pct (income - 120000000) 20)
      else i64 (1500000 + 3000000 + 4500000 + 6000000 + pct (income - 150000000) 30))"

definition calculateNewRegimeTax :: "int \<Rightarrow> int" where
  "calculateNewRegimeTax income =
     (if income \<le> 0 then 0
      else let tax = rebate 70000000 2500000 income (new_slab income) in with_cess tax (surcharge income tax))"

section \<open>Income, deductions, gains\<close>

definition estimateTaxableIncomeLocked :: "string \<Rightarrow> 'f Service \<Rightarrow> int" where
  "estimateTaxableIncomeLocked userID s =
     foldl (\<lambda>total h. let gain = i64 (ih_CurrentValuePaise h - ih_InvestedPaise h)
              in if gain > 0 then i64 (total + gain) else total)
       120000000 (get_list (pe_investments (sv_personal s)) userID)"

record Deduction =
  de_Section :: string
  de_UsedPaise :: int
  de_LimitPaise :: int
  de_RemainingPaise :: int
  de_Recommendation :: string

definition deduction :: "string \<Rightarrow> int \<Rightarrow> int \<Rightarrow> string \<Rightarrow> Deduction" where
  "deduction name used limit advice =
     \<lparr>de_Section = name, de_UsedPaise = min used limit, de_LimitPaise = limit,
      de_RemainingPaise = max (i64 (limit - used)) 0,
      de_Recommendation = advice\<rparr>"

definition used_80C :: "InvestmentHolding list \<Rightarrow> int" where
  "used_80C invs = foldl (\<lambda>used h. let c = ToLower (ih_Category h) in
     if contains c ''elss'' \<or> contains c ''mutual'' then i64 (used + ih_InvestedPaise h) else used) 0 invs"

definition used_24b :: "LoanRecord list \<Rightarrow> int" where
  "used_24b loans = foldl (\<lambda>used l. if contains (ToLower (lr_LoanType l)) ''home''
     then i64 (used + i64 (lr_EMIPaise l * lr_RemainingMonths l) sdiv 12) else used) 0 loans"

definition estimateDeductionsLocked :: "string \<Rightarrow> 'f Service \<Rightarrow> Deduction list" where
  "estimateDeductionsLocked userID s =
     (let u = used_80C (get_list (pe_investments (sv_personal s)) userID);
          home = used_24b (get_list (pe_loans (sv_personal s)) userID)
      in [deduction ''80C'' (if u = 0 then 5000000 else u) 150000000
            ''Use ELSS/PPF to close the remaining 80C room before March.'',
          deduction ''80D'' 2600000 10000000 ''Top-up family floater health premium for additional deduction.'',
          deduction ''80CCD(1B)'' 1500000 5000000 ''NPS contribution can reduce taxable income further.'',
          deduction ''24(b)'' (if home = 0 then 3000000 else home) 20000000
            ''Home loan interest still has eligible headroom.''])"

definition Deductions :: "string \<Rightarrow> 'f Service \<Rightarrow> onb_error + Deduction list" where
  "Deductions userID s =
     (if sv_users s userID = None then Inl OnbUserNotFound else Inr (estimateDeductionsLocked userID s))"

text \<open>A holding of less than a year of 365 days, or without a date, is short term.\<close>

definition short_term :: "time \<Rightarrow> InvestmentHolding \<Rightarrow> bool" where
  "short_term now h \<longleftrightarrow> ih_TaxLotDate h = 0 \<or>
     fl (Hours (now - ih_TaxLotDate h) / 8760) < 1"

record CapitalGains =
  cg_STCGPaise :: int
  cg_LTCGPaise :: int
  cg_Tip :: string

definition sv_CapitalGains :: "time \<Rightarrow> string \<Rightarrow> 'f Service \<Rightarrow> onb_error + CapitalGains" where
  "sv_CapitalGains now userID s =
     (if sv_users s userID = None then Inl OnbUserNotFound
      else
        let (stcg, ltcg) = foldl (\<lambda>(stcg, ltcg) h.
              let gain = i64 (ih_CurrentValuePaise h - ih_InvestedPaise h) in
              if gain \<le> 0 then (stcg, ltcg)
              else if short_term now h then (i64 (stcg + gain), ltcg) else (stcg, i64 (ltcg + gain)))
            (0, 0) (get_list (pe_investments (sv_personal s)) userID)
        in Inr \<lparr>cg_STCGPaise = stcg, cg_LTCGPaise = ltcg,
             cg_Tip = (if stcg > ltcg
               then ''Consider holding short-term positions beyond 12 months to qualify for LTCG indexation benefits.''
               else ''Waiting for holding period completion can reduce tax incidence on select holdings.'')\<rparr>)"

section \<open>What a customer sees\<close>

record TaxDashboard =
  td_PANMasked :: string
  td_FinancialYear :: string
  td_TaxableIncomePaise :: int
  td_IncomeBreakdown :: "(string \<times> int) list"
  td_Deductions :: "Deduction list"
  td_TaxRegime :: string
  td_EstimatedTaxLiabilityPaise :: int
  td_TdsDeductedPaise :: int
  td_NetPayablePaise :: int
  td_ITRStatus :: string
  td_ITRReferenceNumber :: string
  td_TaxFilingProvider :: string
  td_Suggestions :: "string list"
  td_DaysToITRDeadline :: int

text \<open>The texts are byte strings; a dash is three bytes of UTF-8. The last suggestion is never reached.\<close>

definition taxSuggestionsLocked :: "string \<Rightarrow> int \<Rightarrow> string list" where
  "taxSuggestionsLocked regime currentTax =
     (let suggestions =
        (if regime = ''new''
         then [''Consider switching to old regime if you have significant 80C/80D deductions and home loan interest.'']
         else [''Maximize 80C with ELSS/PPF and 80D with health insurance premiums.'']) @
        (if currentTax > 100000000
         then [''Advance tax payments due quarterly '' @ [CHR 0xE2, CHR 0x80, CHR 0x94] @
           '' ensure you'' @ [CHR 0x27] @ ''ve paid estimated tax to avoid interest under Section 234B/C.''] else [])
      in if suggestions = [] then [''Your estimated tax liability is minimal. Ensure TDS is correctly deducted.'']
         else suggestions)"

text \<open>The year and the days to the filing deadline come from the calendar.\<close>

definition sv_TaxDashboard :: "int \<Rightarrow> int \<Rightarrow> string \<Rightarrow> 'f Service \<Rightarrow> onb_error + TaxDashboard" where
  "sv_TaxDashboard year days userID s =
     (if sv_users s userID = None then Inl OnbUserNotFound
      else
        let profile = lg_kycProfiles (sv_login s) userID;
            income = estimateTaxableIncomeLocked userID s;
            regime = (case profile of None \<Rightarrow> ''new''
                      | Some p \<Rightarrow> if kp_TaxResidency p \<noteq> [] then kp_TaxResidency p else ''new'');
            liability = (if regime = ''old'' then calculateOldRegimeTax income else calculateNewRegimeTax income);
            tds0 = i64 (income * 10) sdiv 1000;
            tds = (if tds0 > liability then liability else tds0);
            net0 = i64 (liability - tds)
        in Inr \<lparr>td_PANMasked = (case profile of None \<Rightarrow> [] | Some p \<Rightarrow> kp_PANMasked p),
             td_FinancialYear = ''FY'' @ dec year @ ''-'' @ dec (year + 1),
             td_TaxableIncomePaise = income,
             td_IncomeBreakdown = [(''salary'', pct income 75), (''capital_gains'', pct income 15),
               (''other_income'', pct income 10)],
             td_Deductions = estimateDeductionsLocked userID s, td_TaxRegime = regime,
             td_EstimatedTaxLiabilityPaise = liability, td_TdsDeductedPaise = tds,
             td_NetPayablePaise = (if net0 < 0 then 0 else net0), td_ITRStatus = ''not_filed'',
             td_ITRReferenceNumber = [], td_TaxFilingProvider = [], td_Suggestions = taxSuggestionsLocked regime liability,
             td_DaysToITRDeadline = days\<rparr>)"

record TaxRegimeComparison =
  tr_OldRegimeTaxPaise :: int
  tr_NewRegimeTaxPaise :: int
  tr_Recommended :: string
  tr_XAIReason :: string

definition RegimeComparison :: "string \<Rightarrow> 'f Service \<Rightarrow> onb_error + TaxRegimeComparison" where
  "RegimeComparison userID s =
     (if sv_users s userID = None then Inl OnbUserNotFound
      else
        let income = estimateTaxableIncomeLocked userID s;
            oldTax = calculateOldRegimeTax income; newTax = calculateNewRegimeTax income
        in Inr \<lparr>tr_OldRegimeTaxPaise = oldTax, tr_NewRegimeTaxPaise = newTax,
             tr_Recommended = (if newTax < oldTax then ''new'' else ''old''),
             tr_XAIReason = (if newTax < oldTax
               then ''Lower deductions and salary composition make new regime currently more efficient.''
               else ''Higher deduction utilization under 80C, 80D, and home-loan interest makes old regime lower for your profile.'')\<rparr>)"

section \<open>Exact values\<close>

text \<open>Up to a quadrillion rupees nothing wraps.\<close>

definition max_income :: int where "max_income = 10 ^ 17"

lemma pct_exact: "0 \<le> x \<Longrightarrow> x \<le> 2 * max_income \<Longrightarrow> 0 \<le> k \<Longrightarrow> k \<le> 40 \<Longrightarrow> pct x k = x * k div 100"
proof -
  assume x: "0 \<le> x" "x \<le> 2 * max_income" and k: "0 \<le> k" "k \<le> 40"
  have "x * k \<le> 2 * max_income * 40" using x k by (intro mult_mono) auto
  moreover have "0 \<le> x * k" using x k by simp
  ultimately show ?thesis
    by (simp add: pct_def i64_id is_i64_def max_income_def signed_divide_int_def sgn_if)
qed

fun rate_of :: "int \<Rightarrow> int" where
  "rate_of income = (if income > 5000000000 then 37 else if income > 2000000000 then 25
     else if income > 1000000000 then 15 else if income > 500000000 then 10 else 0)"

definition due :: "int \<Rightarrow> int \<Rightarrow> int" where
  "due tax r = (let t = tax + tax * r div 100 in t + t * 4 div 100)"

lemma half_bound: "0 \<le> (t::int) \<Longrightarrow> 0 \<le> t * 4 div 100 \<and> t * 4 div 100 \<le> t"
  by linarith

lemma due_exact:
  assumes "0 \<le> tax" and "tax \<le> max_income"
  shows "with_cess tax (surcharge income tax) = due tax (rate_of income)"
proof -
  define r where "r = rate_of income"
  define u where "u = tax + tax * r div 100"
  have r: "0 \<le> r" "r \<le> 40" by (simp_all add: r_def)
  have s: "surcharge income tax = tax * r div 100"
    using assms by (simp add: surcharge_def pct_exact r_def)
  have "tax * r \<le> tax * 100" using assms(1) r by (intro mult_left_mono) auto
  then have "tax * r div 100 \<le> tax" by simp
  moreover have "0 \<le> tax * r div 100" using assms r by (simp add: pos_imp_zdiv_nonneg_iff)
  ultimately have u: "0 \<le> u" "u \<le> 2 * max_income"
    using assms unfolding u_def by linarith+
  then have "i64 u = u" "i64 (u + u * 4 div 100) = u + u * 4 div 100"
    using half_bound [of u] by (auto intro!: i64_id simp: is_i64_def max_income_def)
  with u show ?thesis
    by (simp only: with_cess_def s due_def Let_def pct_exact flip: u_def r_def)
qed

lemma due_mono: "0 \<le> t \<Longrightarrow> t \<le> t' \<Longrightarrow> 0 \<le> r \<Longrightarrow> r \<le> r' \<Longrightarrow> due t r \<le> due t' r'"
proof -
  assume a: "0 \<le> t" "t \<le> t'" "0 \<le> r" "r \<le> r'"
  define u u' where "u = t + t * r div 100" and "u' = t' + t' * r' div 100"
  from a have "t * r div 100 \<le> t' * r' div 100" by (intro zdiv_mono1 mult_mono) auto
  with a have *: "u \<le> u'" unfolding u_def u'_def by linarith
  then have "u * 4 div 100 \<le> u' * 4 div 100" by (intro zdiv_mono1) auto
  with * show ?thesis by (simp add: due_def Let_def flip: u_def u'_def)
qed

lemma rate_of_mono: "a \<le> b \<Longrightarrow> rate_of a \<le> rate_of b"
  by auto

definition old_base :: "int \<Rightarrow> int" where
  "old_base x = (if x \<le> 50000000 then 0 else if x \<le> 100000000 then 1250000 + (x - 50000000) * 20 div 100
     else 11250000 + (x - 100000000) * 30 div 100)"

definition new_base :: "int \<Rightarrow> int" where
  "new_base x = (if x \<le> 70000000 then 0 else if x \<le> 90000000 then 1500000 + (x - 60000000) * 10 div 100
     else if x \<le> 120000000 then 4500000 + (x - 90000000) * 15 div 100
     else if x \<le> 150000000 then 9000000 + (x - 120000000) * 20 div 100
     else 15000000 + (x - 150000000) * 30 div 100)"

lemma small_i64: "0 \<le> x \<Longrightarrow> x \<le> 2 * max_income \<Longrightarrow> i64 x = x"
  by (intro i64_id) (simp add: is_i64_def max_income_def)

lemma slabs_exact:
  assumes "0 \<le> x" and "x \<le> max_income"
  shows "rebate 50000000 1250000 x (old_slab x) = old_base x"
    and "rebate 70000000 2500000 x (new_slab x) = new_base x"
  using assms
  by (auto simp: old_slab_def new_slab_def rebate_def old_base_def new_base_def pct_exact small_i64 max_income_def)

lemma bases:
  assumes "0 \<le> x"
  shows "0 \<le> new_base x" and "new_base x \<le> old_base x" and "10 * old_base x \<le> 3 * x"
  using assms unfolding new_base_def old_base_def by (auto split: if_split)

lemma bases_mono: "x \<le> y \<Longrightarrow> old_base x \<le> old_base y" "x \<le> y \<Longrightarrow> new_base x \<le> new_base y"
  unfolding old_base_def new_base_def by (auto split: if_split intro: zdiv_mono1)

lemma due_0 [simp]: "due 0 r = 0"
  by (simp add: due_def)

lemma taxes_exact:
  assumes "0 \<le> x" and "x \<le> max_income"
  shows "calculateOldRegimeTax x = due (old_base x) (rate_of x)"
    and "calculateNewRegimeTax x = due (new_base x) (rate_of x)"
proof -
  have "0 \<le> new_base x" "new_base x \<le> old_base x" "10 * old_base x \<le> 3 * x" using bases [OF assms(1)] by auto
  then have t: "0 \<le> old_base x" "old_base x \<le> max_income" "0 \<le> new_base x" "new_base x \<le> max_income"
    using assms by linarith+
  have z: "old_base 0 = 0" "new_base 0 = 0" by (simp_all add: old_base_def new_base_def)
  show "calculateOldRegimeTax x = due (old_base x) (rate_of x)"
    unfolding calculateOldRegimeTax_def Let_def slabs_exact [OF assms] due_exact [OF t(1,2)]
    using assms(1) z by (cases "x = 0") (simp_all del: rate_of.simps)
  show "calculateNewRegimeTax x = due (new_base x) (rate_of x)"
    unfolding calculateNewRegimeTax_def Let_def slabs_exact [OF assms] due_exact [OF t(3,4)]
    using assms(1) z by (cases "x = 0") (simp_all del: rate_of.simps)
qed

lemma taxes_zero: "x \<le> 0 \<Longrightarrow> calculateOldRegimeTax x = 0 \<and> calculateNewRegimeTax x = 0"
  by (simp add: calculateOldRegimeTax_def calculateNewRegimeTax_def)

lemma rate_of_bounds: "0 \<le> rate_of x \<and> rate_of x \<le> 37"
  by simp

lemma due_nonneg: "0 \<le> t \<Longrightarrow> 0 \<le> r \<Longrightarrow> 0 \<le> due t r"
  using due_mono [of 0 t 0 r] by (simp add: due_def)

lemma due_half: "0 \<le> t \<Longrightarrow> 10 * t \<le> 3 * x \<Longrightarrow> 0 \<le> r \<Longrightarrow> r \<le> 37 \<Longrightarrow> 2 * due t r \<le> x"
proof -
  assume a: "0 \<le> t" "10 * t \<le> 3 * x" "0 \<le> r" "r \<le> 37"
  then have "due t r \<le> due t 37" by (intro due_mono) auto
  moreover have "2 * due t 37 \<le> x"
  proof -
    define p where "p = t * 37 div 100"
    define q where "q = (t + p) * 4 div 100"
    have "100 * p \<le> t * 37" "100 * q \<le> (t + p) * 4" unfolding p_def q_def by linarith+
    then have "2 * (t + p + q) \<le> 3 * t" using a(1) by (simp add: algebra_simps)
    moreover have "3 * t \<le> x" using a(1,2) by linarith
    ultimately have "2 * (t + p + q) \<le> x" by linarith
    then show ?thesis by (simp only: due_def Let_def flip: p_def q_def)
  qed
  ultimately show ?thesis by linarith
qed

section \<open>The two regimes compared\<close>

text \<open>A larger income never owes less tax under either regime, up to a quadrillion rupees.\<close>

theorem tax_grows_with_income:
  assumes "x \<le> y" and "y \<le> max_income"
  shows "calculateOldRegimeTax x \<le> calculateOldRegimeTax y \<and> calculateNewRegimeTax x \<le> calculateNewRegimeTax y"
proof (cases "x \<le> 0")
  case True
  then show ?thesis
    using assms bases [of y] taxes_exact [of y] taxes_zero rate_of_bounds due_nonneg
    by (cases "y \<le> 0") (auto simp del: rate_of.simps)
next
  case False
  then have b: "0 \<le> old_base x" "0 \<le> new_base x" using bases [of x] by auto
  show ?thesis
    using False assms b bases_mono [OF assms(1)] rate_of_mono [OF assms(1)] rate_of_bounds
    by (auto simp: taxes_exact due_mono simp del: rate_of.simps)
qed

lemma tax_grows_with_income_witness:
  "calculateOldRegimeTax 500000000 \<le> calculateOldRegimeTax 500000001 \<and>
   calculateNewRegimeTax 500000000 \<le> calculateNewRegimeTax 500000001"
  using tax_grows_with_income [of 500000000 500000001] by (simp add: max_income_def)

text \<open>C30: the new regime never costs more than the old one, no regime takes more than half of the income, and
  no tax is negative.\<close>

theorem new_regime_never_dearer:
  assumes "0 \<le> x" and "x \<le> max_income"
  shows "0 \<le> calculateNewRegimeTax x \<and> calculateNewRegimeTax x \<le> calculateOldRegimeTax x \<and>
    2 * calculateOldRegimeTax x \<le> x"
proof -
  note b = bases [OF assms(1)]
  have "0 \<le> due (new_base x) (rate_of x)" using b(1) rate_of_bounds by (intro due_nonneg) auto
  moreover have "due (new_base x) (rate_of x) \<le> due (old_base x) (rate_of x)"
    using b rate_of_bounds by (intro due_mono) auto
  moreover have "2 * due (old_base x) (rate_of x) \<le> x"
    using b rate_of_bounds by (intro due_half) auto
  ultimately show ?thesis using assms by (simp add: taxes_exact del: rate_of.simps)
qed

lemma new_regime_never_dearer_witness:
  "calculateNewRegimeTax 120000000 = 9360000 \<and> calculateOldRegimeTax 120000000 = 17940000 \<and>
   calculateNewRegimeTax 120000000 \<le> calculateOldRegimeTax 120000000"
  using new_regime_never_dearer [of 120000000]
  by (simp add: max_income_def calculateNewRegimeTax_def calculateOldRegimeTax_def new_slab_def old_slab_def
      rebate_def with_cess_def surcharge_def pct_def i64_id is_i64_def signed_divide_int_def)

text \<open>The surcharge has no marginal relief: one paisa past fifty lakh rupees costs over a lakh.\<close>

theorem surcharge_cliff:
  "calculateNewRegimeTax 500000001 - calculateNewRegimeTax 500000000 = 12480000"
  by (simp add: calculateNewRegimeTax_def new_slab_def
      rebate_def with_cess_def surcharge_def pct_def i64_id is_i64_def signed_divide_int_def)

definition gains :: "InvestmentHolding list \<Rightarrow> int" where
  "gains hs = (\<Sum>h\<leftarrow>hs. max 0 (i64 (ih_CurrentValuePaise h - ih_InvestedPaise h)))"

lemma gains_nonneg: "0 \<le> gains hs"
  unfolding gains_def by (induction hs) auto

lemma income_loop:
  "0 \<le> t \<Longrightarrow> t + gains hs \<le> max_income \<Longrightarrow>
   foldl (\<lambda>total h. let gain = i64 (ih_CurrentValuePaise h - ih_InvestedPaise h)
     in if gain > 0 then i64 (total + gain) else total) t hs = t + gains hs"
proof (induction hs arbitrary: t)
  case (Cons h hs)
  let ?g = "i64 (ih_CurrentValuePaise h - ih_InvestedPaise h)"
  have g: "gains (h # hs) = max 0 ?g + gains hs" by (simp add: gains_def)
  have small: "i64 (t + max 0 ?g) = t + max 0 ?g"
    using Cons.prems g gains_nonneg [of hs] by (intro small_i64) auto
  have "t + max 0 ?g + gains hs \<le> max_income" "0 \<le> t + max 0 ?g" using Cons.prems g by auto
  then show ?case using Cons.IH [of "t + max 0 ?g"] small g by (auto simp: Let_def max_def split: if_splits)
qed (simp add: gains_def)

lemma estimated_income:
  "120000000 + gains (get_list (pe_investments (sv_personal s)) u) \<le> max_income \<Longrightarrow>
   estimateTaxableIncomeLocked u s = 120000000 + gains (get_list (pe_investments (sv_personal s)) u)"
  unfolding estimateTaxableIncomeLocked_def by (rule income_loop) auto

lemma due_strict: "0 \<le> t \<Longrightarrow> t < t' \<Longrightarrow> 0 \<le> r \<Longrightarrow> due t r < due t' r"
proof -
  assume a: "0 \<le> t" "t < t'" "0 \<le> r"
  define u u' where "u = t + t * r div 100" and "u' = t' + t' * r div 100"
  from a have "t * r div 100 \<le> t' * r div 100" by (intro zdiv_mono1 mult_right_mono) auto
  with a have *: "u < u'" unfolding u_def u'_def by linarith
  then have "u * 4 div 100 \<le> u' * 4 div 100" by (intro zdiv_mono1) auto
  with * show ?thesis by (simp add: due_def Let_def flip: u_def u'_def)
qed

lemma bases_strict: "120000000 \<le> x \<Longrightarrow> new_base x < old_base x"
  unfolding new_base_def old_base_def by (auto split: if_split)

text \<open>The comparison recommends the new regime to every customer. It taxes one estimated income, never
  below twelve lakh rupees, under both regimes and leaves out the deductions that only the old one allows.\<close>

theorem comparison_always_new:
  assumes "sv_users s u \<noteq> None"
    and "120000000 + gains (get_list (pe_investments (sv_personal s)) u) \<le> max_income"
  shows "\<exists>c. RegimeComparison u s = Inr c \<and> tr_Recommended c = ''new'' \<and>
    tr_NewRegimeTaxPaise c < tr_OldRegimeTaxPaise c"
proof -
  let ?x = "estimateTaxableIncomeLocked u s"
  have x: "120000000 \<le> ?x" "?x \<le> max_income"
    using estimated_income [OF assms(2)] gains_nonneg assms(2) by auto
  have "due (new_base ?x) (rate_of ?x) < due (old_base ?x) (rate_of ?x)"
    using x(1) bases(1) [of ?x] bases_strict rate_of_bounds by (intro due_strict) auto
  then have "calculateNewRegimeTax ?x < calculateOldRegimeTax ?x"
    using x by (simp add: taxes_exact del: rate_of.simps)
  with assms(1) show ?thesis by (auto simp: RegimeComparison_def Let_def)
qed

text \<open>A customer with one gold holding in profit.\<close>

definition demo_holding :: InvestmentHolding where
  "demo_holding =
     \<lparr>ih_ID = ''h1'', ih_Name = ''Gold'', ih_InstrumentName = ''Gold'', ih_Category = ''gold'', ih_QuantityUnits = Fin 1,
      ih_AvgPurchasePricePaise = 600000, ih_CurrentValuePaise = 900000, ih_InvestedPaise = 600000,
      ih_LastValuationDate = 0, ih_SIPAmountPaise = 0, ih_SIPFrequency = [], ih_SIPStartDate = 0,
      ih_SIPStatus = [], ih_BrokerFundHouse = [], ih_DividendsPaise = 0, ih_TaxLotDate = 0, ih_CAGR = Fin 0,
      ih_RecommendationID = [], ih_RecommendationExplainability = [], ih_CreatedAt = 0\<rparr>"

definition tax_service :: "unit Service" where
  "tax_service = demo_service\<lparr>sv_personal := fresh_personal\<lparr>pe_investments := [''u1'' \<mapsto> [demo_holding]]\<rparr>\<rparr>"

lemma comparison_always_new_witness:
  "\<exists>c. RegimeComparison ''u1'' tax_service = Inr c \<and> tr_Recommended c = ''new'' \<and>
    tr_NewRegimeTaxPaise c < tr_OldRegimeTaxPaise c"
  by (rule comparison_always_new)
    (simp_all add: tax_service_def demo_service_def gains_def get_list_def demo_holding_def max_income_def
      i64_id is_i64_def)

end
