(* ===== verification/OAuthServer.thy ===== *)
theory OAuthServer
  imports JwtTokens EdgeGates
begin

text \<open>
  The OAuth token endpoint of \<open>oauth_redis_telemetry.go\<close> and its two HTTP handlers in
  \<open>api/router.go\<close>: authorization codes with PKCE, and refresh tokens. SHA-256 (as bytes), random hexadecimal
  strings and the decoders of the two bodies are arguments.
\<close>

section \<open>Data\<close>

record TokenRequest =
  tq_GrantType :: string
  tq_Code :: string
  tq_CodeVerifier :: string
  tq_RedirectURI :: string
  tq_ClientID :: string
  tq_ClientSecret :: string
  tq_RefreshToken :: string

record TokenResponse =
  to_AccessToken :: string
  to_TokenType :: string
  to_ExpiresIn :: int
  to_RefreshToken :: string
  to_Scope :: string

record AuthCodeEntry =
  ae_UserID :: string
  ae_CodeChallenge :: string
  ae_CreatedAt :: time
  ae_Used :: bool

record OAuthServer =
  oa_authCodes :: "string \<rightharpoonup> AuthCodeEntry"
  oa_refreshTokens :: "string \<rightharpoonup> string"
  oa_clientSecrets :: "string \<rightharpoonup> string"

datatype oauth_error = UnsupportedGrant | CodeRequired | InvalidClient | InvalidCode | CodeExpired | PKCEMismatch
  | RefreshRequired | InvalidRefresh

text \<open>\<open>secret\<close> is the value of the environment variable, \<open>rnd\<close> the random fall-back.\<close>

definition NewOAuthServer :: "string \<Rightarrow> string option \<Rightarrow> OAuthServer" where
  "NewOAuthServer secret rnd =
     \<lparr>oa_authCodes = (\<lambda>_. None), oa_refreshTokens = (\<lambda>_. None),
      oa_clientSecrets = [''finix-mobile'' \<mapsto>
        (if secret \<noteq> [] then secret
         else case rnd of None \<Rightarrow> ''change-this-immediately'' | Some s \<Rightarrow> s)]\<rparr>"

section \<open>Operations\<close>

definition GenerateAuthCode :: "string \<Rightarrow> time \<Rightarrow> string \<Rightarrow> string \<Rightarrow> OAuthServer \<Rightarrow> string \<times> OAuthServer" where
  "GenerateAuthCode rnd now userID codeChallenge oa =
     (let code = ''auth_code_'' @ rnd
      in (code, oa\<lparr>oa_authCodes := (oa_authCodes oa)(code \<mapsto>
            \<lparr>ae_UserID = userID, ae_CodeChallenge = codeChallenge, ae_CreatedAt = now, ae_Used = False\<rparr>)\<rparr>))"

definition verifyPKCE :: "(string \<Rightarrow> string) \<Rightarrow> string \<Rightarrow> string \<Rightarrow> bool" where
  "verifyPKCE sha challenge verifier \<longleftrightarrow>
     \<not> (challenge = [] \<or> verifier = []) \<and> \<not> (length verifier < 43 \<or> length verifier > 128) \<and>
     challenge = EncodeToString (sha verifier)"

definition token_response :: "string \<Rightarrow> string \<Rightarrow> TokenResponse" where
  "token_response accessToken refreshToken =
     \<lparr>to_AccessToken = accessToken, to_TokenType = ''Bearer'', to_ExpiresIn = 900, to_RefreshToken = refreshToken,
      to_Scope = ''openid profile transactions goals portfolio''\<rparr>"

definition good_client :: "TokenRequest \<Rightarrow> OAuthServer \<Rightarrow> bool" where
  "good_client req oa \<longleftrightarrow>
     (case oa_clientSecrets oa (tq_ClientID req) of None \<Rightarrow> False
      | Some expected \<Rightarrow> tq_ClientSecret req \<noteq> [] \<and> tq_ClientSecret req = expected)"

definition handleAuthorizationCode ::
  "(string \<Rightarrow> string) \<Rightarrow> string \<Rightarrow> string \<Rightarrow> time \<Rightarrow> TokenRequest \<Rightarrow> OAuthServer
     \<Rightarrow> (oauth_error + TokenResponse) \<times> OAuthServer" where
  "handleAuthorizationCode sha rndA rndR now req oa =
     (if TrimSpace (tq_Code req) = [] then (Inl CodeRequired, oa)
      else if \<not> good_client req oa then (Inl InvalidClient, oa)
      else (case oa_authCodes oa (tq_Code req) of None \<Rightarrow> (Inl InvalidCode, oa)
        | Some entry \<Rightarrow>
            if ae_Used entry then (Inl InvalidCode, oa)
            else if now - ae_CreatedAt entry > 5 * minute
            then (Inl CodeExpired, oa\<lparr>oa_authCodes := (oa_authCodes oa)(tq_Code req := None)\<rparr>)
            else if \<not> verifyPKCE sha (ae_CodeChallenge entry) (tq_CodeVerifier req) then (Inl PKCEMismatch, oa)
            else
              let accessToken = ''access_'' @ rndA; refreshToken = ''refresh_'' @ rndR
              in (Inr (token_response accessToken refreshToken),
                  oa\<lparr>oa_authCodes := (oa_authCodes oa)(tq_Code req \<mapsto> entry\<lparr>ae_Used := True\<rparr>),
                     oa_refreshTokens := (oa_refreshTokens oa)(refreshToken \<mapsto> ae_UserID entry)\<rparr>)))"

definition handleRefreshToken ::
  "string \<Rightarrow> string \<Rightarrow> TokenRequest \<Rightarrow> OAuthServer \<Rightarrow> (oauth_error + TokenResponse) \<times> OAuthServer" where
  "handleRefreshToken rndA rndR req oa =
     (if TrimSpace (tq_RefreshToken req) = [] then (Inl RefreshRequired, oa)
      else (case oa_refreshTokens oa (tq_RefreshToken req) of None \<Rightarrow> (Inl InvalidRefresh, oa)
        | Some userID \<Rightarrow>
            let accessToken = ''access_'' @ rndA; newRefreshToken = ''refresh_'' @ rndR
            in (Inr (token_response accessToken newRefreshToken),
                oa\<lparr>oa_refreshTokens := (oa_refreshTokens oa)
                     (tq_RefreshToken req := None, newRefreshToken \<mapsto> userID)\<rparr>)))"

definition ExchangeToken ::
  "(string \<Rightarrow> string) \<Rightarrow> string \<Rightarrow> string \<Rightarrow> time \<Rightarrow> TokenRequest \<Rightarrow> OAuthServer
     \<Rightarrow> (oauth_error + TokenResponse) \<times> OAuthServer" where
  "ExchangeToken sha rndA rndR now req oa =
     (if tq_GrantType req = ''authorization_code'' then handleAuthorizationCode sha rndA rndR now req oa
      else if tq_GrantType req = ''refresh_token'' then handleRefreshToken rndA rndR req oa
      else (Inl UnsupportedGrant, oa))"

section \<open>Handlers\<close>

text \<open>An answer is a value or a status.\<close>

datatype 'a http_answer = Ok200 'a | Failed nat

definition oauthToken ::
  "(string \<Rightarrow> string) \<Rightarrow> (string \<Rightarrow> TokenRequest option) \<Rightarrow> string \<Rightarrow> string \<Rightarrow> time \<Rightarrow> http_request \<Rightarrow> OAuthServer
     \<Rightarrow> TokenResponse http_answer \<times> OAuthServer" where
  "oauthToken sha decode rndA rndR now r oa =
     (case (case rq_Body r of None \<Rightarrow> None | Some raw \<Rightarrow> decode raw) of None \<Rightarrow> (Failed 400, oa)
      | Some req \<Rightarrow>
          (case ExchangeToken sha rndA rndR now req oa of
             (Inl e, oa1) \<Rightarrow> (Failed 400, oa1)
           | (Inr res, oa1) \<Rightarrow> (Ok200 res, oa1)))"

definition oauthAuthorize ::
  "(string \<Rightarrow> string option) \<Rightarrow> string \<Rightarrow> time \<Rightarrow> http_request \<Rightarrow> OAuthServer \<Rightarrow> string http_answer \<times> OAuthServer" where
  "oauthAuthorize decode rnd now r oa =
     (case gate_user r of None \<Rightarrow> (Failed 401, oa)
      | Some uid \<Rightarrow>
          (case (case rq_Body r of None \<Rightarrow> None | Some raw \<Rightarrow> decode raw) of None \<Rightarrow> (Failed 400, oa)
           | Some codeChallenge \<Rightarrow>
               if TrimSpace codeChallenge = [] then (Failed 400, oa)
               else case GenerateAuthCode rnd now uid codeChallenge oa of (code, oa1) \<Rightarrow> (Ok200 code, oa1)))"

section \<open>Runs of the server\<close>

datatype oauth_event = Authorize string time string string | Exchange string string time TokenRequest

fun oauth_step :: "(string \<Rightarrow> string) \<Rightarrow> OAuthServer \<Rightarrow> oauth_event \<Rightarrow> OAuthServer" where
  "oauth_step sha oa (Authorize rnd now u c) = snd (GenerateAuthCode rnd now u c oa)"
| "oauth_step sha oa (Exchange a b now req) = snd (ExchangeToken sha a b now req oa)"

text \<open>The code or refresh token an exchange redeems.\<close>

fun redeemed :: "(string \<Rightarrow> string) \<Rightarrow> OAuthServer \<Rightarrow> oauth_event \<Rightarrow> (bool \<times> string) option" where
  "redeemed sha oa (Authorize rnd now u c) = None"
| "redeemed sha oa (Exchange a b now req) =
     (case fst (ExchangeToken sha a b now req oa) of Inl e \<Rightarrow> None
      | Inr res \<Rightarrow> if tq_GrantType req = ''authorization_code'' then Some (True, tq_Code req)
          else Some (False, tq_RefreshToken req))"

definition grant_spent :: "OAuthServer \<Rightarrow> bool \<times> string \<Rightarrow> bool" where
  "grant_spent oa k =
     (if fst k then (case oa_authCodes oa (snd k) of None \<Rightarrow> True | Some e \<Rightarrow> ae_Used e)
      else oa_refreshTokens oa (snd k) = None)"

text \<open>The random strings of an event do not make the code or token again.\<close>

fun grant_fresh :: "OAuthServer \<Rightarrow> oauth_event \<Rightarrow> bool \<times> string \<Rightarrow> bool" where
  "grant_fresh oa (Authorize rnd now u c) k \<longleftrightarrow> k \<noteq> (True, ''auth_code_'' @ rnd)"
| "grant_fresh oa (Exchange a b now req) k \<longleftrightarrow> k \<noteq> (False, ''refresh_'' @ b)"

lemmas oauth_defs = ExchangeToken_def handleAuthorizationCode_def handleRefreshToken_def GenerateAuthCode_def Let_def

interpretation grants: single_use "oauth_step sha" "redeemed sha" grant_spent grant_fresh
  for sha
proof
  fix s k e
  assume "grant_spent s k" "grant_fresh s e k"
  then show "redeemed sha s e \<noteq> Some k"
    by (cases e) (auto simp: grant_spent_def oauth_defs split: if_splits option.splits)
next
  fix s k e
  assume "redeemed sha s e = Some k" "grant_fresh s e k"
  then show "grant_spent (oauth_step sha s e) k"
    by (cases e) (auto simp: grant_spent_def oauth_defs split: if_splits option.splits)
next
  fix s k e
  assume "grant_spent s k" "grant_fresh s e k"
  then show "grant_spent (oauth_step sha s e) k"
    by (cases e; cases k) (auto simp: grant_spent_def oauth_defs split: if_splits option.splits)
qed

text \<open>Whatever is authorised and exchanged, a code yields tokens at most once, and so does a refresh token, as
  long as the same random string is not drawn again.\<close>

theorem oauth_grant_single_use:
  assumes "\<forall>(t, e) \<in> set (trace (oauth_step sha) oa es). grant_fresh t e k"
  shows "length (filter (\<lambda>(t, e). redeemed sha t e = Some k) (trace (oauth_step sha) oa es)) \<le> 1"
  using grants.redeemed_at_most_once [of sha oa es k] assms by (simp add: grants.allowed_def grants.redemptions_def)

text \<open>What an exchange of a code takes.\<close>

theorem code_exchange_iff:
  "fst (handleAuthorizationCode sha a b now req oa) = Inr (token_response (''access_'' @ a) (''refresh_'' @ b)) \<longleftrightarrow>
     TrimSpace (tq_Code req) \<noteq> [] \<and> good_client req oa \<and>
     (\<exists>e. oa_authCodes oa (tq_Code req) = Some e \<and> \<not> ae_Used e \<and> now \<le> ae_CreatedAt e + 5 * minute \<and>
        43 \<le> length (tq_CodeVerifier req) \<and> length (tq_CodeVerifier req) \<le> 128 \<and>
        ae_CodeChallenge e = EncodeToString (sha (tq_CodeVerifier req)) \<and> ae_CodeChallenge e \<noteq> [])"
  by (auto simp: handleAuthorizationCode_def verifyPKCE_def Let_def split: option.split)

text \<open>A refresh token needs no client secret.\<close>

theorem refresh_needs_no_client:
  assumes "tq_GrantType req = ''refresh_token''"
  shows "ExchangeToken sha a b now (req\<lparr>tq_ClientID := c, tq_ClientSecret := d, tq_RedirectURI := e\<rparr>) oa =
    ExchangeToken sha a b now req oa"
  using assms by (simp add: ExchangeToken_def handleRefreshToken_def Let_def split: option.split)

section \<open>Runs of the two routes\<close>

text \<open>Both routes stand outside the groups with an \<open>Auth\<close> gate, so a request arrives without a user.\<close>

datatype oauth_call = CallAuthorize string time http_request | CallToken string string time http_request

fun oauth_serve ::
  "(string \<Rightarrow> string) \<Rightarrow> (string \<Rightarrow> string option) \<Rightarrow> (string \<Rightarrow> TokenRequest option) \<Rightarrow> OAuthServer \<Rightarrow> oauth_call
     \<Rightarrow> bool \<times> OAuthServer" where
  "oauth_serve sha dc dt oa (CallAuthorize rnd now r) =
     (case oauthAuthorize dc rnd now r oa of (Ok200 _, oa1) \<Rightarrow> (True, oa1) | (Failed _, oa1) \<Rightarrow> (False, oa1))"
| "oauth_serve sha dc dt oa (CallToken a b now r) =
     (case oauthToken sha dt a b now r oa of (Ok200 _, oa1) \<Rightarrow> (True, oa1) | (Failed _, oa1) \<Rightarrow> (False, oa1))"

fun call_request :: "oauth_call \<Rightarrow> http_request" where
  "call_request (CallAuthorize rnd now r) = r"
| "call_request (CallToken a b now r) = r"

definition no_grants :: "OAuthServer \<Rightarrow> bool" where
  "no_grants oa \<longleftrightarrow> oa_authCodes oa = (\<lambda>_. None) \<and> oa_refreshTokens oa = (\<lambda>_. None)"

lemma no_grants_serve:
  assumes "no_grants oa" and "rq_UserID (call_request c) = None"
  shows "oauth_serve sha dc dt oa c = (False, oa)"
  using assms
  by (cases c) (auto simp: no_grants_def oauthAuthorize_def oauthToken_def oauth_defs gate_user_def UserIDFromContext_def
      split: option.splits)

text \<open>Neither route ever succeeds: the authorisation handler asks for a user that no gate before it
  provides, so no code is ever issued, and without a code there is nothing to exchange.\<close>

theorem oauth_routes_dead:
  assumes "\<forall>c \<in> set calls. rq_UserID (call_request c) = None"
  shows "\<forall>(oa, c) \<in> set (trace (\<lambda>oa c. snd (oauth_serve sha dc dt oa c)) (NewOAuthServer secret rnd) calls).
    \<not> fst (oauth_serve sha dc dt oa c)"
proof -
  have "\<forall>(oa, c) \<in> set (trace (\<lambda>oa c. snd (oauth_serve sha dc dt oa c)) oa calls). \<not> fst (oauth_serve sha dc dt oa c)"
    if "no_grants oa" for oa
    using assms that by (induction calls arbitrary: oa) (auto simp: no_grants_serve)
  moreover have "no_grants (NewOAuthServer secret rnd)" by (simp add: no_grants_def NewOAuthServer_def)
  ultimately show ?thesis by blast
qed

lemma oauth_routes_dead_witness:
  "\<forall>(oa, c) \<in> set (trace (\<lambda>oa c. snd (oauth_serve (\<lambda>b. b) Some (\<lambda>_. None) oa c)) (NewOAuthServer ''s'' None)
      [CallAuthorize ''r'' 5 (demo_request\<lparr>rq_UserID := None\<rparr>), CallToken ''a'' ''b'' 6 (demo_request\<lparr>rq_UserID := None\<rparr>)]).
    \<not> fst (oauth_serve (\<lambda>b. b) Some (\<lambda>_. None) oa c)"
  by (rule oauth_routes_dead) simp

definition verifier43 :: string where "verifier43 = replicate 43 (CHR ''v'')"

definition code_request :: TokenRequest where
  "code_request = \<lparr>tq_GrantType = ''authorization_code'', tq_Code = ''auth_code_r'', tq_CodeVerifier = verifier43,
     tq_RedirectURI = [], tq_ClientID = ''finix-mobile'', tq_ClientSecret = ''s'', tq_RefreshToken = []\<rparr>"

lemma oauth_grant_single_use_witness:
  "length (filter (\<lambda>(t, e). redeemed (\<lambda>b. b) t e = Some (True, ''auth_code_r''))
     (trace (oauth_step (\<lambda>b. b)) (snd (GenerateAuthCode ''r'' 0 ''u1'' (EncodeToString verifier43) (NewOAuthServer ''s'' None)))
       [Exchange ''a'' ''b'' 1 code_request, Exchange ''c'' ''d'' 2 code_request])) \<le> 1"
  by (rule oauth_grant_single_use) simp

end
