(* ===== verification/MuleGraph.thy ===== *)
theory MuleGraph
  imports PlatformState FloatArith "HOL-Library.List_Lexorder" "HOL-Library.Char_ord"
begin

text \<open>
  From accounts and transfers to scores of mule accounts: the preprocessing of features
  (\<open>ml/preprocess/preprocess.go\<close>), the tensors of the payment graph (\<open>domain/fraud/graph_predictor.go\<close>), the
  softmax, and the input the platform service builds for them. The trained model is an argument, as is the
  exponential function. A \<open>float32\<close> is a \<open>float64\<close> value that \<open>f32\<close> has rounded.
\<close>

section \<open>Single precision\<close>

definition ulp32 :: "rat \<Rightarrow> rat" where
  "ulp32 x = pow2 (max (exponent x) (- 126) - 23)"

definition f32_pos :: "rat \<Rightarrow> rat" where
  "f32_pos x = (if x = 0 then 0 else of_int (round_even (x / ulp32 x)) * ulp32 x)"

definition f32 :: "float64 \<Rightarrow> float64" where
  "f32 v = (case v of
      Fin x \<Rightarrow> let y = f32_pos \<bar>x\<bar> in if pow2 128 \<le> y then inf_of (sgn x) else Fin (sgn x * y)
    | _ \<Rightarrow> v)"

lemma f32_zero [simp]: "f32 (Fin 0) = Fin 0"
  by (simp add: f32_def f32_pos_def Let_def pow2_def)

section \<open>Preprocessing\<close>

record Artifact =
  pa_FeatureOrder :: "string list"
  pa_ScaledColumns :: "string list"
  pa_Mean :: "float64 list"
  pa_Scale :: "float64 list"
  pa_Categoricals :: "string \<rightharpoonup> string list"

definition finalize :: "Artifact \<Rightarrow> bool" where
  "finalize a \<longleftrightarrow> pa_FeatureOrder a \<noteq> [] \<and> length (pa_Mean a) = length (pa_Scale a) \<and>
     length (pa_ScaledColumns a) = length (pa_Mean a)"

text \<open>The position of a value; of equal values the last one counts.\<close>

definition last_index :: "string list \<Rightarrow> string \<Rightarrow> nat option" where
  "last_index xs = map_of (rev (zip xs [0..<length xs]))"

definition FeatureCount :: "Artifact \<Rightarrow> nat" where
  "FeatureCount a = length (pa_FeatureOrder a)"

definition Encode :: "Artifact \<Rightarrow> string \<Rightarrow> string \<Rightarrow> nat option" where
  "Encode a col v = (case pa_Categoricals a col of None \<Rightarrow> None | Some classes \<Rightarrow> last_index classes v)"

definition scaleValue :: "Artifact \<Rightarrow> string \<Rightarrow> float64 \<Rightarrow> float64" where
  "scaleValue a col raw =
     (case last_index (pa_ScaledColumns a) col of None \<Rightarrow> raw
      | Some i \<Rightarrow>
          let s = pa_Scale a ! i in
          if feq s (Fin 0) then fsub raw (pa_Mean a ! i) else fdiv (fsub raw (pa_Mean a ! i)) s)"

definition meanFor :: "Artifact \<Rightarrow> string \<Rightarrow> float64" where
  "meanFor a col = (case last_index (pa_ScaledColumns a) col of None \<Rightarrow> Fin 0 | Some i \<Rightarrow> pa_Mean a ! i)"

text \<open>The input of a column, if there is a usable one.\<close>

definition column_input :: "Artifact \<Rightarrow> (string \<rightharpoonup> float64) \<Rightarrow> (string \<rightharpoonup> string) \<Rightarrow> string \<Rightarrow> float64 option" where
  "column_input a numeric categorical col =
     (case pa_Categoricals a col of
        Some _ \<Rightarrow>
          (case categorical col of None \<Rightarrow> None
           | Some raw \<Rightarrow> (case Encode a col raw of None \<Rightarrow> None | Some code \<Rightarrow> Some (of_int64 (int code))))
      | None \<Rightarrow> numeric col)"

definition BuildVector :: "Artifact \<Rightarrow> (string \<rightharpoonup> float64) \<Rightarrow> (string \<rightharpoonup> string) \<Rightarrow> float64 list \<times> string list" where
  "BuildVector a numeric categorical =
     (map (\<lambda>col. f32 (scaleValue a col (case column_input a numeric categorical col of
              Some v \<Rightarrow> v | None \<Rightarrow> meanFor a col))) (pa_FeatureOrder a),
      filter (\<lambda>col. column_input a numeric categorical col = None) (pa_FeatureOrder a))"

section \<open>The graph\<close>

definition muleNodeFeatureWidth :: nat where "muleNodeFeatureWidth = 20"

definition muleClassCount :: nat where "muleClassCount = 2"

record MuleAccount =
  ma_ID :: string
  ma_Raw :: "string \<rightharpoonup> float64"
  ma_Cat :: "string \<rightharpoonup> string"

record MuleTransfer =
  mt_From :: string
  mt_To :: string

record MuleGraphInput =
  mg_Accounts :: "MuleAccount list"
  mg_Transfers :: "MuleTransfer list"

record AssembledGraph =
  ag_NodeFeatures :: "float64 list"
  ag_NumNodes :: nat
  ag_EdgeIndex :: "nat list"
  ag_NumEdges :: nat
  ag_Order :: "string list"
  ag_IndexOf :: "string \<rightharpoonup> nat"

datatype mule_error = EncodingUnset | WrongWidth nat | PredictFailed | WrongLogits nat

text \<open>The process-wide encoder; an artifact of the wrong width does not replace it.\<close>

definition SetMuleEncoder :: "Artifact option \<Rightarrow> Artifact option \<Rightarrow> Artifact option" where
  "SetMuleEncoder new old =
     (case new of None \<Rightarrow> None | Some a \<Rightarrow> if FeatureCount a \<noteq> muleNodeFeatureWidth then old else Some a)"

definition encodeMuleNode :: "Artifact option \<Rightarrow> MuleAccount \<Rightarrow> mule_error + float64 list" where
  "encodeMuleNode encoder acct =
     (case encoder of None \<Rightarrow> Inl EncodingUnset | Some a \<Rightarrow> Inr (fst (BuildVector a (ma_Raw acct) (ma_Cat acct))))"

fun encode_rows :: "(MuleAccount \<Rightarrow> mule_error + float64 list) \<Rightarrow> MuleAccount list \<Rightarrow> mule_error + float64 list" where
  "encode_rows enc [] = Inr []"
| "encode_rows enc (acct # accts) =
     (case enc acct of Inl e \<Rightarrow> Inl e
      | Inr row \<Rightarrow>
          if length row \<noteq> muleNodeFeatureWidth then Inl (WrongWidth (length row))
          else (case encode_rows enc accts of Inl e \<Rightarrow> Inl e | Inr rest \<Rightarrow> Inr (row @ rest)))"

text \<open>The first account of an id counts; the ids are sorted byte by byte.\<close>

definition account_of :: "MuleAccount list \<Rightarrow> string \<Rightarrow> MuleAccount option" where
  "account_of accts i = find (\<lambda>a. ma_ID a = i) accts"

definition node_order :: "MuleAccount list \<Rightarrow> string list" where
  "node_order accts = sort (remdups (map ma_ID accts))"

definition edge_of :: "(string \<rightharpoonup> nat) \<Rightarrow> MuleTransfer \<Rightarrow> (nat \<times> nat) option" where
  "edge_of indexOf t =
     (if mt_From t = mt_To t then None
      else case indexOf (mt_From t) of None \<Rightarrow> None
        | Some si \<Rightarrow> (case indexOf (mt_To t) of None \<Rightarrow> None | Some ri \<Rightarrow> Some (si, ri)))"

definition AssembleGraph :: "Artifact option \<Rightarrow> MuleGraphInput \<Rightarrow> mule_error + AssembledGraph" where
  "AssembleGraph encoder inp =
     (let order = node_order (mg_Accounts inp);
          indexOf = map_of (zip order [0..<length order])
      in case encode_rows (encodeMuleNode encoder) (List.map_filter (account_of (mg_Accounts inp)) order) of
           Inl e \<Rightarrow> Inl e
         | Inr nodeFeatures \<Rightarrow>
             let edges = List.map_filter (edge_of indexOf) (mg_Transfers inp)
             in Inr \<lparr>ag_NodeFeatures = nodeFeatures, ag_NumNodes = length order,
                  ag_EdgeIndex = map fst edges @ map snd edges, ag_NumEdges = length edges,
                  ag_Order = order, ag_IndexOf = indexOf\<rparr>)"

section \<open>Scores\<close>

definition flt_max :: "float64 \<Rightarrow> float64 \<Rightarrow> float64" where
  "flt_max m v = (if flt m v then v else m)"

definition Softmax :: "(float64 \<Rightarrow> float64) \<Rightarrow> float64 list \<Rightarrow> float64 list" where
  "Softmax expo logits =
     (case logits of [] \<Rightarrow> []
      | l # ls \<Rightarrow>
          let maxLogit = foldl flt_max l ls;
              es = map (\<lambda>v. expo (f32 (fsub v maxLogit))) logits;
              sum = foldl fadd (Fin 0) es;
              out = map f32 es
          in if feq sum (Fin 0) then out else map (\<lambda>v. f32 (fdiv v sum)) out)"

text \<open>The row of the logits of node \<open>i\<close>.\<close>

definition logit_row :: "float64 list \<Rightarrow> nat \<Rightarrow> float64 list" where
  "logit_row logits i = take muleClassCount (drop (i * muleClassCount) logits)"

text \<open>The predictor is an argument: \<open>None\<close> if there is none or it is not available. \<open>Inr None\<close> means no scores.\<close>

definition ScoreMuleAccounts ::
  "(float64 \<Rightarrow> float64) \<Rightarrow> (float64 list \<Rightarrow> nat \<Rightarrow> nat list \<Rightarrow> nat \<Rightarrow> float64 list option) option \<Rightarrow> Artifact option
     \<Rightarrow> MuleGraphInput \<Rightarrow> mule_error + (string \<rightharpoonup> float64) option" where
  "ScoreMuleAccounts expo predictor encoder inp =
     (case predictor of None \<Rightarrow> Inr None
      | Some predict \<Rightarrow>
          (case AssembleGraph encoder inp of
             Inl EncodingUnset \<Rightarrow> Inr None
           | Inl e \<Rightarrow> Inl e
           | Inr g \<Rightarrow>
               if ag_NumNodes g = 0 then Inr (Some (\<lambda>_. None))
               else (case predict (ag_NodeFeatures g) (ag_NumNodes g) (ag_EdgeIndex g) (ag_NumEdges g) of
                   None \<Rightarrow> Inl PredictFailed
                 | Some logits \<Rightarrow>
                     if length logits \<noteq> ag_NumNodes g * muleClassCount then Inl (WrongLogits (length logits))
                     else Inr (Some (map_of (map (\<lambda>(i, n). (n, Softmax expo (logit_row logits i) ! 1))
                            (zip [0..<length (ag_Order g)] (ag_Order g))))))))"

section \<open>The input of the service\<close>

text \<open>What the loop over the transactions of a user adds up, per key.\<close>

record tally =
  ty_outCount :: "string \<Rightarrow> int"
  ty_inCount :: "string \<Rightarrow> int"
  ty_outSum :: "string \<Rightarrow> float64"
  ty_inSum :: "string \<Rightarrow> float64"
  ty_outRecips :: "string \<Rightarrow> string set"
  ty_inSenders :: "string \<Rightarrow> string set"
  ty_transfers :: "MuleTransfer list"

definition empty_tally :: tally where
  "empty_tally = \<lparr>ty_outCount = (\<lambda>_. 0), ty_inCount = (\<lambda>_. 0), ty_outSum = (\<lambda>_. Fin 0), ty_inSum = (\<lambda>_. Fin 0),
     ty_outRecips = (\<lambda>_. {}), ty_inSenders = (\<lambda>_. {}), ty_transfers = []\<rparr>"

definition tally_transaction :: "string \<Rightarrow> Transaction \<Rightarrow> tally \<Rightarrow> tally" where
  "tally_transaction uid t y =
     (if txn_Status t \<noteq> ''success'' \<and> txn_Status t \<noteq> [] then y
      else
        let amt = fdiv (of_int64 (txn_AmountPaise t)) (Fin 100); to = txn_Recipient t
        in y\<lparr>ty_transfers := ty_transfers y @ [\<lparr>mt_From = uid, mt_To = to\<rparr>],
             ty_outCount := (ty_outCount y)(uid := ty_outCount y uid + 1),
             ty_outSum := (ty_outSum y)(uid := fadd (ty_outSum y uid) amt),
             ty_outRecips := (ty_outRecips y)(uid := insert to (ty_outRecips y uid)),
             ty_inCount := (ty_inCount y)(to := ty_inCount y to + 1),
             ty_inSum := (ty_inSum y)(to := fadd (ty_inSum y to) amt),
             ty_inSenders := (ty_inSenders y)(to := insert uid (ty_inSenders y to))\<rparr>)"

definition capitalizeFirst :: "string \<Rightarrow> string" where
  "capitalizeFirst s0 = (case TrimSpace s0 of [] \<Rightarrow> [] | c # cs \<Rightarrow> ToUpper [c] @ ToLower cs)"

definition average_of :: "float64 \<Rightarrow> int \<Rightarrow> float64" where
  "average_of amount n = (if n > 0 then fdiv amount (of_int64 n) else Fin 0)"

definition node_numbers :: "time \<Rightarrow> User option \<Rightarrow> Account list \<Rightarrow> string \<Rightarrow> tally \<Rightarrow> string \<rightharpoonup> float64" where
  "node_numbers now user accs uid y =
     (let od = ty_outCount y uid; ind = ty_inCount y uid;
          m1 = (case user of None \<Rightarrow> (\<lambda>_. None)
            | Some u \<Rightarrow> [''account_age_days'' \<mapsto> Fin (fl (Hours (now - us_CreatedAt u) / 24))]);
          m2 = (case accs of [] \<Rightarrow> m1
            | a # _ \<Rightarrow> m1(''current_balance'' \<mapsto> fdiv (of_int64 (ac_BalancePaise a)) (Fin 100)))
      in m2(''out_degree'' \<mapsto> of_int64 od, ''in_degree'' \<mapsto> of_int64 ind, ''total_degree'' \<mapsto> of_int64 (od + ind),
            ''unique_receivers'' \<mapsto> of_int64 (int (card (ty_outRecips y uid))),
            ''unique_senders'' \<mapsto> of_int64 (int (card (ty_inSenders y uid))),
            ''total_outgoing_amount'' \<mapsto> ty_outSum y uid, ''total_incoming_amount'' \<mapsto> ty_inSum y uid,
            ''avg_outgoing_amount'' \<mapsto> average_of (ty_outSum y uid) od,
            ''avg_incoming_amount'' \<mapsto> average_of (ty_inSum y uid) ind))"

definition node_categories :: "User option \<Rightarrow> Account list \<Rightarrow> string \<rightharpoonup> string" where
  "node_categories user accs =
     (let m1 = (case user of None \<Rightarrow> (\<lambda>_. None)
            | Some u \<Rightarrow> [''kyc_status'' \<mapsto> if us_EKYCVerified u then ''Verified'' else ''Pending''])
      in case accs of [] \<Rightarrow> m1
         | a # _ \<Rightarrow> (case capitalizeFirst (ac_AccountType a) of [] \<Rightarrow> m1 | t \<Rightarrow> m1(''account_type'' \<mapsto> t)))"

text \<open>\<open>torder\<close> and \<open>aorder\<close> list the users of the two maps as the ranges visit them.\<close>

definition buildMuleGraphInput :: "string list \<Rightarrow> string list \<Rightarrow> time \<Rightarrow> 'f Service \<Rightarrow> MuleGraphInput" where
  "buildMuleGraphInput torder aorder now s =
     (let y = fold (\<lambda>uid. fold (tally_transaction uid) (get_list (sv_transactions s) uid)) torder empty_tally
      in \<lparr>mg_Accounts = map (\<lambda>uid. let accs = get_list (sv_accounts s) uid in
            \<lparr>ma_ID = uid, ma_Raw = node_numbers now (sv_users s uid) accs uid y,
             ma_Cat = node_categories (sv_users s uid) accs\<rparr>) aorder,
          mg_Transfers = ty_transfers y\<rparr>)"

text \<open>The scores after a rebuild: kept if the model cannot run, emptied if it fails.\<close>

definition rebuildMuleScores ::
  "(float64 \<Rightarrow> float64) \<Rightarrow> (float64 list \<Rightarrow> nat \<Rightarrow> nat list \<Rightarrow> nat \<Rightarrow> float64 list option) option \<Rightarrow> Artifact option
     \<Rightarrow> string list \<Rightarrow> string list \<Rightarrow> time \<Rightarrow> 'f Service \<Rightarrow> (string \<rightharpoonup> float64) \<Rightarrow> string \<rightharpoonup> float64" where
  "rebuildMuleScores expo predictor encoder torder aorder now s scores =
     (if predictor = None \<or> encoder = None then scores
      else case ScoreMuleAccounts expo predictor encoder (buildMuleGraphInput torder aorder now s) of
          Inr (Some new) \<Rightarrow> new
        | _ \<Rightarrow> (\<lambda>_. None))"

section \<open>Preprocessing is neutral where it must guess\<close>

lemma last_index_bound: "last_index xs x = Some i \<Longrightarrow> i < length xs \<and> xs ! i = x"
proof -
  assume "last_index xs x = Some i"
  then have "(x, i) \<in> set (zip xs [0..<length xs])" by (auto simp: last_index_def dest: map_of_SomeD)
  then show ?thesis by (auto simp: in_set_zip)
qed

lemma f64_0: "f64 0 = Fin 0"
  by (simp add: f64_def overflow_bound_def Let_def)

text \<open>A vector has the width of the feature order, and a column without a usable input is scaled to zero, if its mean and
  its scale are finite.\<close>

theorem missing_input_is_neutral:
  shows "length (fst (BuildVector a numeric categorical)) = FeatureCount a"
    and "\<lbrakk>i < FeatureCount a; column_input a numeric categorical (pa_FeatureOrder a ! i) = None;
      last_index (pa_ScaledColumns a) (pa_FeatureOrder a ! i) = Some j; pa_Mean a ! j = Fin m; pa_Scale a ! j = Fin sc\<rbrakk>
      \<Longrightarrow> fst (BuildVector a numeric categorical) ! i = Fin 0"
proof -
  show "length (fst (BuildVector a numeric categorical)) = FeatureCount a"
    by (simp add: BuildVector_def FeatureCount_def)
  assume "i < FeatureCount a" "column_input a numeric categorical (pa_FeatureOrder a ! i) = None"
    "last_index (pa_ScaledColumns a) (pa_FeatureOrder a ! i) = Some j" "pa_Mean a ! j = Fin m" "pa_Scale a ! j = Fin sc"
  then show "fst (BuildVector a numeric categorical) ! i = Fin 0"
    by (simp add: BuildVector_def FeatureCount_def scaleValue_def meanFor_def fsub_def fneg_def f64_0 feq_def Let_def)
qed

section \<open>The tensors\<close>

lemma order_facts:
  "distinct (node_order accts)" "set (node_order accts) = ma_ID ` set accts" "sorted (node_order accts)"
  by (simp_all add: node_order_def)

lemma index_of_order:
  assumes "distinct order"
  shows "map_of (zip order [0..<length order]) x = Some i \<longleftrightarrow> i < length order \<and> order ! i = x"
  using assms by (subst map_of_eq_Some_iff) (auto simp: in_set_zip)

lemma encode_rows_length:
  "encode_rows enc accts = Inr rows \<Longrightarrow> length rows = muleNodeFeatureWidth * length accts"
  by (induction accts arbitrary: rows) (auto split: sum.splits if_splits)

lemma account_of_order:
  assumes "i \<in> ma_ID ` set accts"
  shows "\<exists>a. account_of accts i = Some a \<and> ma_ID a = i"
proof -
  obtain a where "account_of accts i = Some a"
    using assms by (auto simp: account_of_def find_None_iff image_iff dest: not_Some_eq [THEN iffD1]) (metis (mono_tags, lifting) find_None_iff not_None_eq)
  then show ?thesis by (auto simp: account_of_def find_Some_iff)
qed

lemma map_filter_all_Some:
  "\<forall>x \<in> set xs. f x \<noteq> None \<Longrightarrow> length (List.map_filter f xs) = length xs"
  by (induction xs) (auto simp: List.map_filter_simps)

text \<open>The tensors fit: twenty features for every account, and for each edge a sender and a receiver that are
  different rows of the table and belong to one of the transfers.\<close>

theorem tensors_fit:
  assumes "AssembleGraph encoder inp = Inr g"
  shows "ag_NumNodes g = card (ma_ID ` set (mg_Accounts inp)) \<and>
    length (ag_NodeFeatures g) = 20 * ag_NumNodes g \<and> length (ag_EdgeIndex g) = 2 * ag_NumEdges g \<and>
    (\<forall>j < ag_NumEdges g. ag_EdgeIndex g ! j < ag_NumNodes g \<and> ag_EdgeIndex g ! (ag_NumEdges g + j) < ag_NumNodes g \<and>
       ag_EdgeIndex g ! j \<noteq> ag_EdgeIndex g ! (ag_NumEdges g + j) \<and>
       (\<exists>t \<in> set (mg_Transfers inp). mt_From t = ag_Order g ! (ag_EdgeIndex g ! j) \<and>
          mt_To t = ag_Order g ! (ag_EdgeIndex g ! (ag_NumEdges g + j))))"
proof -
  let ?order = "node_order (mg_Accounts inp)"
  let ?ix = "map_of (zip ?order [0..<length ?order])"
  let ?edges = "List.map_filter (edge_of ?ix) (mg_Transfers inp)"
  from assms obtain rows where rows: "encode_rows (encodeMuleNode encoder)
      (List.map_filter (account_of (mg_Accounts inp)) ?order) = Inr rows"
    and g: "g = \<lparr>ag_NodeFeatures = rows, ag_NumNodes = length ?order, ag_EdgeIndex = map fst ?edges @ map snd ?edges,
      ag_NumEdges = length ?edges, ag_Order = ?order, ag_IndexOf = ?ix\<rparr>"
    by (auto simp: AssembleGraph_def Let_def split: sum.splits)
  have "\<forall>i \<in> set ?order. account_of (mg_Accounts inp) i \<noteq> None"
    using account_of_order order_facts(2) by fastforce
  then have width: "length rows = 20 * length ?order"
    using encode_rows_length [OF rows] map_filter_all_Some by (simp add: muleNodeFeatureWidth_def)
  have nodes: "length ?order = card (ma_ID ` set (mg_Accounts inp))"
    using distinct_card [OF order_facts(1)] order_facts(2) by metis
  have edge: "fst (?edges ! j) < length ?order \<and> snd (?edges ! j) < length ?order \<and> fst (?edges ! j) \<noteq> snd (?edges ! j) \<and>
      (\<exists>t \<in> set (mg_Transfers inp). mt_From t = ?order ! fst (?edges ! j) \<and> mt_To t = ?order ! snd (?edges ! j))"
    if "j < length ?edges" for j
  proof -
    have "?edges ! j \<in> set ?edges" using that by simp
    then obtain t where t: "t \<in> set (mg_Transfers inp)" "edge_of ?ix t = Some (?edges ! j)"
      by (auto simp: List.map_filter_def)
    obtain a b where ab: "?edges ! j = (a, b)" by (cases "?edges ! j")
    show ?thesis using t unfolding ab
      by (auto simp: edge_of_def index_of_order [OF order_facts(1)] split: if_splits option.splits intro!: bexI [of _ t])
  qed
  show ?thesis using edge width nodes by (auto simp: g nth_append)
qed

text \<open>The order in which the accounts arrive does not matter, if no id occurs twice.\<close>

theorem assembly_order_free:
  assumes "distinct (map ma_ID accts)" and "set accts = set accts'" and "distinct (map ma_ID accts')"
  shows "AssembleGraph encoder \<lparr>mg_Accounts = accts, mg_Transfers = ts\<rparr> =
    AssembleGraph encoder \<lparr>mg_Accounts = accts', mg_Transfers = ts\<rparr>"
proof -
  have "node_order accts = node_order accts'"
    using order_facts [of accts] order_facts [of accts'] assms(2) by (metis sorted_distinct_set_unique)
  moreover have "account_of accts = account_of accts'"
  proof (intro ext)
    fix i
    have unique: "account_of xs i = Some a \<longleftrightarrow> a \<in> set xs \<and> ma_ID a = i" if "distinct (map ma_ID xs)" for xs a
      using that by (induction xs) (auto simp: account_of_def)
    show "account_of accts i = account_of accts' i"
      using unique [OF assms(1)] unique [OF assms(3)] assms(2) by (metis option.exhaust)
  qed
  ultimately show ?thesis by (simp add: AssembleGraph_def Let_def split: sum.split)
qed

text \<open>Scores exist for accounts only.\<close>

lemma dom_numbered: "dom (map_of (map2 (\<lambda>i n. (n, f i)) [0..<length xs] xs)) = set xs"
proof -
  have "set xs = snd ` set (zip [0..<length xs] xs)"
    by (metis length_upt map_snd_zip minus_nat.diff_0 set_map)
  then show ?thesis by (simp add: dom_map_of_conv_image_fst image_image case_prod_unfold)
qed

theorem scores_cover_accounts:
  assumes "ScoreMuleAccounts expo predictor encoder inp = Inr (Some scores)"
  shows "dom scores = ma_ID ` set (mg_Accounts inp)"
proof -
  from assms obtain g where g: "AssembleGraph encoder inp = Inr g"
    by (auto simp: ScoreMuleAccounts_def split: option.splits sum.splits mule_error.splits)
  have order: "ag_Order g = node_order (mg_Accounts inp)" "ag_NumNodes g = length (ag_Order g)"
    using g by (auto simp: AssembleGraph_def Let_def split: sum.splits)
  have "dom scores = set (ag_Order g)"
  proof (cases "ag_NumNodes g = 0")
    case True
    with assms g order show ?thesis by (auto simp: ScoreMuleAccounts_def split: option.splits)
  next
    case False
    with assms g obtain f where
      "scores = map_of (map2 (\<lambda>i n. (n, f i)) [0..<length (ag_Order g)] (ag_Order g))"
      by (auto simp: ScoreMuleAccounts_def split: option.splits if_splits)
    then show ?thesis by (simp add: dom_numbered)
  qed
  then show ?thesis using order(1) order_facts(2) by simp
qed

text \<open>The service asks for the score of a recipient by the name in the payment, but the scores carry the ids of users: a
  recipient that is no user id has none, and the model is not heard.\<close>

theorem recipients_have_no_mule_score:
  assumes "r \<notin> set aorder" and "scores r = None"
  shows "rebuildMuleScores expo predictor encoder torder aorder now s scores r = None"
proof -
  have "new r = None"
    if "ScoreMuleAccounts expo predictor encoder (buildMuleGraphInput torder aorder now s) = Inr (Some new)" for new
  proof -
    have "ma_ID ` set (mg_Accounts (buildMuleGraphInput torder aorder now s)) = set aorder"
      by (simp add: buildMuleGraphInput_def Let_def image_image)
    with scores_cover_accounts [OF that] assms(1) show ?thesis by (metis domIff)
  qed
  then show ?thesis using assms(2) by (auto simp: rebuildMuleScores_def split: sum.split option.split)
qed

end
