(* ===== verification/KeyManagers.thy ===== *)
theory KeyManagers
  imports DataProtection
begin

text \<open>
  The two key managers of \<open>domain/security\<close>: \<open>dilithium.go\<close> (signatures) and \<open>pqc.go\<close>
  (key encapsulation and its sessions), with the AES-GCM envelope of \<open>encryption.go\<close>. Both keep a current key and,
  for a while, the one before; what they promise about old keys is stated once, in the locale \<open>key_ring\<close>. The
  lattice schemes, HKDF, AES-GCM and fresh random bytes are arguments. A string of characters stands for bytes.
\<close>

section \<open>Interface: a ring of two keys\<close>

text \<open>
  \<open>lookup\<close> finds a key by its id, \<open>current\<close> is the id of the active key. An event may rotate (the
  active key becomes the one before) or prune (only the active key stays).
\<close>

locale key_ring =
  fixes lookup :: "'s \<Rightarrow> string \<Rightarrow> 'k option"
    and current :: "'s \<Rightarrow> string option"
    and step :: "'s \<Rightarrow> 'e \<Rightarrow> 's"
    and rotates :: "'s \<Rightarrow> 'e \<Rightarrow> bool"
    and prunes :: "'s \<Rightarrow> 'e \<Rightarrow> bool"
    and new_id :: "'e \<Rightarrow> string"
    and ok :: "'s \<Rightarrow> bool"
  assumes ok_step: "ok s \<Longrightarrow> ok (step s e)"
    and rotate_lookup: "ok s \<Longrightarrow> rotates s e \<Longrightarrow> i \<noteq> new_id e \<Longrightarrow>
      lookup (step s e) i = (if current s = Some i then lookup s i else None)"
    and rotate_current: "ok s \<Longrightarrow> rotates s e \<Longrightarrow> current (step s e) = Some (new_id e)"
    and prune_lookup: "ok s \<Longrightarrow> \<not> rotates s e \<Longrightarrow> prunes s e \<Longrightarrow>
      lookup (step s e) i = (if current s = Some i then lookup s i else None)"
    and keep_lookup: "ok s \<Longrightarrow> \<not> rotates s e \<Longrightarrow> \<not> prunes s e \<Longrightarrow> lookup (step s e) i = lookup s i"
    and keep_current: "ok s \<Longrightarrow> \<not> rotates s e \<Longrightarrow> current (step s e) = current s"
begin

definition rotations :: "'s \<Rightarrow> 'e list \<Rightarrow> nat" where
  "rotations s es = length (filter (\<lambda>(t, e). rotates t e) (trace step s es))"

definition prunings :: "'s \<Rightarrow> 'e list \<Rightarrow> nat" where
  "prunings s es = length (filter (\<lambda>(t, e). \<not> rotates t e \<and> prunes t e) (trace step s es))"

lemma counts_Nil [simp]: "rotations s [] = 0" "prunings s [] = 0"
  by (simp_all add: rotations_def prunings_def)

lemma counts_Cons [simp]:
  "rotations s (e # es) = (if rotates s e then 1 else 0) + rotations (step s e) es"
  "prunings s (e # es) = (if \<not> rotates s e \<and> prunes s e then 1 else 0) + prunings (step s e) es"
  by (simp_all add: rotations_def prunings_def)

lemma forgotten_step: "ok s \<Longrightarrow> lookup s i = None \<Longrightarrow> i \<noteq> new_id e \<Longrightarrow> lookup (step s e) i = None"
  by (cases "rotates s e"; cases "prunes s e") (simp_all add: rotate_lookup prune_lookup keep_lookup)

lemma forgotten: "ok s \<Longrightarrow> lookup s i = None \<Longrightarrow> i \<notin> new_id ` set es \<Longrightarrow> lookup (foldl step s es) i = None"
  by (induction es arbitrary: s) (simp_all add: forgotten_step ok_step)

lemma old_key_kept:
  "ok s \<Longrightarrow> rotations s es = 0 \<Longrightarrow> prunings s es = 0 \<Longrightarrow> lookup (foldl step s es) i = lookup s i"
  by (induction es arbitrary: s) (simp_all add: keep_lookup ok_step split: if_splits)

lemma old_key_evicted:
  assumes "ok s" and "current s \<noteq> Some i" and "i \<notin> new_id ` set es" and "0 < rotations s es + prunings s es"
  shows "lookup (foldl step s es) i = None"
  using assms
proof (induction es arbitrary: s)
  case Nil
  then show ?case by simp
next
  case (Cons e es)
  show ?case
  proof (cases "rotates s e \<or> prunes s e")
    case True
    with Cons.prems(1-3) have "lookup (step s e) i = None"
      by (cases "rotates s e") (auto simp: rotate_lookup prune_lookup)
    with Cons.prems(1,3) show ?thesis by (simp add: forgotten ok_step)
  next
    case False
    with Cons show ?thesis by (simp add: keep_current ok_step)
  qed
qed

lemma active_key_kept: "ok s \<Longrightarrow> current s = Some i \<Longrightarrow> rotations s es = 0 \<Longrightarrow>
    lookup (foldl step s es) i = lookup s i \<and> current (foldl step s es) = Some i"
proof (induction es arbitrary: s)
  case Nil
  then show ?case by simp
next
  case (Cons e es)
  then have "\<not> rotates s e" by (auto split: if_splits)
  moreover from this Cons.prems(1,2) have "lookup (step s e) i = lookup s i"
    by (cases "prunes s e") (simp_all add: prune_lookup keep_lookup)
  ultimately show ?case using Cons by (simp add: keep_current ok_step)
qed

lemma replaced_key_kept:
  assumes "ok s" and "current s = Some i" and "rotates s e" and "i \<noteq> new_id e"
    and "rotations (step s e) es = 0" and "prunings (step s e) es = 0"
  shows "lookup (foldl step s (e # es)) i = lookup s i"
  using assms by (simp add: old_key_kept rotate_lookup ok_step)

lemma replaced_key_gone:
  assumes "ok s" and "rotates s e" and "i \<notin> new_id ` set (e # es)"
    and "0 < rotations (step s e) es + prunings (step s e) es"
  shows "lookup (foldl step s (e # es)) i = None"
proof -
  have "current (step s e) \<noteq> Some i" using assms(1-3) by (auto simp: rotate_current)
  moreover have "i \<notin> new_id ` set es" using assms(3) by simp
  ultimately have "lookup (foldl step (step s e) es) i = None"
    using ok_step [OF assms(1)] assms(4) by (intro old_key_evicted)
  then show ?thesis by simp
qed

end

section \<open>Signing keys\<close>

record DilithiumKeypair =
  dk_KeyID :: string
  dk_PublicKey :: string
  dk_PrivateKey :: string
  dk_Algorithm :: string
  dk_CreatedAt :: time
  dk_RotatedAt :: time
  dk_RotationActor :: string

record DilithiumSignature =
  ds_KeyID :: string
  ds_Algorithm :: string
  ds_Signature :: string
  ds_SignedAt :: time

record DilithiumKeyInfo =
  di_KeyID :: string
  di_Algorithm :: string
  di_PublicKey :: string
  di_CreatedAt :: time
  di_RotatedAt :: time
  di_RotationActor :: string

record DilithiumManager =
  dm_current :: "DilithiumKeypair option"
  dm_previous :: "DilithiumKeypair option"
  dm_rotatedAt :: time
  dm_nextRotation :: time

datatype dilithium_error = SignerNotInitialized | BadPrivateKey | NilSignature | BadDilithiumEncoding | BadSigningPublicKey
  | UnknownSigningKey

text \<open>The scheme: signing under private key bytes and checking under public key bytes, \<open>None\<close> if the bytes are no
  key. Freshly generated material is the bytes of the id, the public and the private key; \<open>None\<close> if the source of
  randomness fails.\<close>

record mode3_lib =
  mo_sign :: "string \<Rightarrow> string \<Rightarrow> string option"
  mo_verify :: "string \<Rightarrow> string \<Rightarrow> string \<Rightarrow> bool option"

type_synonym key_material = "(string \<times> string \<times> string) option"

definition dilithiumKeyRotation :: duration where "dilithiumKeyRotation = 24 * hour"

definition dilithiumGracePeriod :: duration where "dilithiumGracePeriod = 1 * hour"

text \<open>\<open>base64.URLEncoding\<close>: the URL alphabet with padding.\<close>

definition URLEncodeToString :: "string \<Rightarrow> string" where
  "URLEncodeToString s = (let t = EncodeToString s in t @ replicate ((4 - length t mod 4) mod 4) (CHR ''=''))"

definition dilithium_pair :: "string \<times> string \<times> string \<Rightarrow> time \<Rightarrow> string \<Rightarrow> DilithiumKeypair" where
  "dilithium_pair fresh now actor = (case fresh of (idBytes, pk, sk) \<Rightarrow>
     \<lparr>dk_KeyID = ''dilithium_'' @ URLEncodeToString idBytes, dk_PublicKey = pk, dk_PrivateKey = sk,
      dk_Algorithm = ''CRYSTALS-Dilithium3'', dk_CreatedAt = now, dk_RotatedAt = now, dk_RotationActor = actor\<rparr>)"

definition NewDilithiumManager :: "key_material \<Rightarrow> time \<Rightarrow> DilithiumManager option" where
  "NewDilithiumManager fresh now =
     map_option (\<lambda>f. \<lparr>dm_current = Some (dilithium_pair f now ''system''), dm_previous = None, dm_rotatedAt = now,
       dm_nextRotation = now + dilithiumKeyRotation\<rparr>) fresh"

definition dil_Sign :: "mode3_lib \<Rightarrow> time \<Rightarrow> string \<Rightarrow> DilithiumManager \<Rightarrow> dilithium_error + DilithiumSignature" where
  "dil_Sign lib now data d =
     (case dm_current d of None \<Rightarrow> Inl SignerNotInitialized
      | Some k \<Rightarrow>
          (case mo_sign lib (dk_PrivateKey k) data of None \<Rightarrow> Inl BadPrivateKey
           | Some sig \<Rightarrow> Inr \<lparr>ds_KeyID = dk_KeyID k, ds_Algorithm = dk_Algorithm k,
                ds_Signature = StdEncodeToString sig, ds_SignedAt = now\<rparr>))"

text \<open>The public key of an id: the active one, then the one before.\<close>

definition signing_key :: "DilithiumManager \<Rightarrow> string \<Rightarrow> string option" where
  "signing_key d i =
     (case dm_current d of
        Some k \<Rightarrow> if dk_KeyID k = i then Some (dk_PublicKey k)
          else (case dm_previous d of Some p \<Rightarrow> if dk_KeyID p = i then Some (dk_PublicKey p) else None | None \<Rightarrow> None)
      | None \<Rightarrow> (case dm_previous d of Some p \<Rightarrow> if dk_KeyID p = i then Some (dk_PublicKey p) else None | None \<Rightarrow> None))"

definition dil_Verify ::
  "mode3_lib \<Rightarrow> DilithiumSignature option \<Rightarrow> string \<Rightarrow> DilithiumManager \<Rightarrow> dilithium_error + bool" where
  "dil_Verify lib sig data d =
     (case sig of None \<Rightarrow> Inl NilSignature
      | Some sg \<Rightarrow>
          (case StdDecodeString (ds_Signature sg) of None \<Rightarrow> Inl BadDilithiumEncoding
           | Some sigBytes \<Rightarrow>
               (case signing_key d (ds_KeyID sg) of None \<Rightarrow> Inl UnknownSigningKey
                | Some pk \<Rightarrow>
                    (case mo_verify lib pk data sigBytes of None \<Rightarrow> Inl BadSigningPublicKey | Some b \<Rightarrow> Inr b))))"

text \<open>\<open>None\<close>: the read through a missing current key panics.\<close>

definition GetCurrentKeyInfo :: "DilithiumManager \<Rightarrow> DilithiumKeyInfo option" where
  "GetCurrentKeyInfo d = map_option (\<lambda>k. \<lparr>di_KeyID = dk_KeyID k, di_Algorithm = dk_Algorithm k,
     di_PublicKey = StdEncodeToString (dk_PublicKey k), di_CreatedAt = dk_CreatedAt k, di_RotatedAt = dk_RotatedAt k,
     di_RotationActor = dk_RotationActor k\<rparr>) (dm_current d)"

definition dil_rotateLocked :: "key_material \<Rightarrow> time \<Rightarrow> string \<Rightarrow> DilithiumManager \<Rightarrow> bool \<times> DilithiumManager" where
  "dil_rotateLocked fresh now actor d =
     (case fresh of None \<Rightarrow> (False, d)
      | Some f \<Rightarrow> (True, d\<lparr>dm_current := Some (dilithium_pair f now actor),
            dm_previous := (case dm_current d of None \<Rightarrow> dm_previous d | Some old \<Rightarrow> Some old),
            dm_rotatedAt := now, dm_nextRotation := now + dilithiumKeyRotation\<rparr>))"

definition dil_MaybeRotate :: "key_material \<Rightarrow> time \<Rightarrow> string \<Rightarrow> DilithiumManager \<Rightarrow> bool \<times> DilithiumManager" where
  "dil_MaybeRotate fresh now actor d =
     (if dm_nextRotation d < now then dil_rotateLocked fresh now actor d else (False, d))"

definition dil_PrunePreviousKey :: "time \<Rightarrow> DilithiumManager \<Rightarrow> DilithiumManager" where
  "dil_PrunePreviousKey now d =
     (if dm_previous d \<noteq> None \<and> dilithiumGracePeriod < now - dm_rotatedAt d then d\<lparr>dm_previous := None\<rparr> else d)"

definition dil_janitor_tick :: "key_material \<Rightarrow> time \<Rightarrow> DilithiumManager \<Rightarrow> DilithiumManager" where
  "dil_janitor_tick fresh now d = dil_PrunePreviousKey now (snd (dil_MaybeRotate fresh now ''system-janitor'' d))"

text \<open>What happens to the keys, one lock section at a time.\<close>

datatype key_event = KeyRotate key_material time string | KeyMaybeRotate key_material time string | KeyPrune time

primrec dil_step :: "DilithiumManager \<Rightarrow> key_event \<Rightarrow> DilithiumManager" where
  "dil_step d (KeyRotate fresh now actor) = snd (dil_rotateLocked fresh now actor d)"
| "dil_step d (KeyMaybeRotate fresh now actor) = snd (dil_MaybeRotate fresh now actor d)"
| "dil_step d (KeyPrune now) = dil_PrunePreviousKey now d"

primrec key_event_time :: "key_event \<Rightarrow> time" where
  "key_event_time (KeyRotate fresh now actor) = now"
| "key_event_time (KeyMaybeRotate fresh now actor) = now"
| "key_event_time (KeyPrune now) = now"

primrec by_janitor :: "key_event \<Rightarrow> bool" where
  "by_janitor (KeyRotate fresh now actor) = False"
| "by_janitor (KeyMaybeRotate fresh now actor) = True"
| "by_janitor (KeyPrune now) = True"

text \<open>The id an event gives to its fresh key.\<close>

definition id_of_material :: "string \<Rightarrow> key_material \<Rightarrow> string" where
  "id_of_material label fresh = (case fresh of None \<Rightarrow> [] | Some (b, _, _) \<Rightarrow> label @ URLEncodeToString b)"

primrec material_id :: "string \<Rightarrow> key_event \<Rightarrow> string" where
  "material_id label (KeyRotate fresh now actor) = id_of_material label fresh"
| "material_id label (KeyMaybeRotate fresh now actor) = id_of_material label fresh"
| "material_id label (KeyPrune now) = []"

primrec key_rotates :: "time \<Rightarrow> key_event \<Rightarrow> bool" where
  "key_rotates due (KeyRotate fresh now actor) = (fresh \<noteq> None)"
| "key_rotates due (KeyMaybeRotate fresh now actor) = (fresh \<noteq> None \<and> due < now)"
| "key_rotates due (KeyPrune now) = False"

primrec key_prunes :: "time \<Rightarrow> key_event \<Rightarrow> bool" where
  "key_prunes rotated (KeyRotate fresh now actor) = False"
| "key_prunes rotated (KeyMaybeRotate fresh now actor) = False"
| "key_prunes rotated (KeyPrune now) = (1 * hour < now - rotated)"

lemma dil_janitor_tick_run:
  "dil_janitor_tick fresh now d = foldl dil_step d [KeyMaybeRotate fresh now ''system-janitor'', KeyPrune now]"
  by (simp add: dil_janitor_tick_def)

definition dil_ok :: "DilithiumManager \<Rightarrow> bool" where
  "dil_ok d \<longleftrightarrow> dm_current d \<noteq> None \<and> dm_nextRotation d = dm_rotatedAt d + dilithiumKeyRotation"

definition signing_id :: "DilithiumManager \<Rightarrow> string option" where
  "signing_id d = map_option dk_KeyID (dm_current d)"

lemmas dil_defs = dil_MaybeRotate_def dil_rotateLocked_def dil_PrunePreviousKey_def dil_ok_def signing_id_def
  signing_key_def id_of_material_def dilithium_pair_def dilithiumKeyRotation_def dilithiumGracePeriod_def

interpretation signers: key_ring signing_key signing_id dil_step "\<lambda>d. key_rotates (dm_nextRotation d)"
  "\<lambda>d. key_prunes (dm_rotatedAt d)" "material_id ''dilithium_''" dil_ok
proof (unfold_locales, goal_cases)
  case (1 s e)
  then show ?case by (cases e) (auto simp: dil_defs split: option.split prod.split)
next
  case (2 s e i)
  then show ?case by (cases e) (auto simp: dil_defs split: option.splits prod.splits)
next
  case (3 s e)
  then show ?case by (cases e) (auto simp: dil_defs split: option.splits prod.splits)
next
  case (4 s e i)
  then show ?case by (cases e) (auto simp: dil_defs split: option.splits prod.splits)
next
  case (5 s e i)
  then show ?case by (cases e) (auto simp: dil_defs split: option.splits prod.splits)
next
  case (6 s e)
  then show ?case by (cases e) (auto simp: dil_defs split: option.splits prod.splits)
qed

lemma quiet_hour:
  assumes "dil_ok d" and "\<forall>e \<in> set es. by_janitor e \<and> key_event_time e \<le> dm_rotatedAt d + dilithiumGracePeriod"
  shows "foldl dil_step d es = d"
proof -
  have "dil_step d e = d" if "e \<in> set es" for e
    using bspec [OF assms(2) that] assms(1) by (cases e) (auto simp: dil_defs)
  then show ?thesis by (induction es) simp_all
qed

lemma rotation_facts:
  "key_rotates (dm_nextRotation d) e \<Longrightarrow> dm_rotatedAt (dil_step d e) = key_event_time e \<and> dil_ok (dil_step d e)"
  by (cases e) (auto simp: dil_defs split: option.split prod.split)

lemma signed_by_active: "dil_Sign lib now data d = Inr sig \<Longrightarrow> signing_id d = Some (ds_KeyID sig)"
  by (auto simp: dil_Sign_def signing_id_def split: option.splits)

lemma dil_Verify_cong: "signing_key d (ds_KeyID sig) = signing_key d' (ds_KeyID sig) \<Longrightarrow>
    dil_Verify lib (Some sig) data d = dil_Verify lib (Some sig) data d'"
  by (simp add: dil_Verify_def split: option.split)

lemma dil_Verify_unknown:
  assumes "dil_Sign lib now data d0 = Inr sig" and "signing_key d (ds_KeyID sig) = None"
  shows "dil_Verify lib (Some sig) data' d = Inl UnknownSigningKey"
proof -
  have "StdDecodeString (ds_Signature sig) \<noteq> None"
    using assms(1) by (auto simp: dil_Sign_def StdDecode_StdEncode split: option.splits)
  with assms(2) show ?thesis by (auto simp: dil_Verify_def)
qed

text \<open>C40: a signature is checked with the same result for as long as the janitor ticks within the hour after its key
  was replaced, and can never be checked again from the first tick after that hour on.\<close>

theorem signature_lifetime:
  assumes "dil_ok d" and "dil_Sign lib now data d = Inr sig" and "key_rotates (dm_nextRotation d) e"
    and "\<forall>e' \<in> set es. by_janitor e' \<and> key_event_time e' \<le> key_event_time e + dilithiumGracePeriod"
    and "key_event_time e + dilithiumGracePeriod < late"
    and "ds_KeyID sig \<notin> material_id ''dilithium_'' ` set (e # es @ KeyPrune late # later)"
  shows "dil_Verify lib (Some sig) data (foldl dil_step d (e # es)) = dil_Verify lib (Some sig) data d \<and>
    dil_Verify lib (Some sig) data (foldl dil_step d (e # es @ KeyPrune late # later)) = Inl UnknownSigningKey"
proof -
  let ?d = "dil_step d e" and ?i = "ds_KeyID sig"
  have ok: "dil_ok ?d" and at: "dm_rotatedAt ?d = key_event_time e" using rotation_facts [OF assms(3)] by simp_all
  have quiet: "foldl dil_step ?d es = ?d"
    using quiet_hour [OF ok] assms(4) at by simp
  have "signing_key ?d ?i = signing_key d ?i"
    using signers.rotate_lookup [OF assms(1,3)] assms(6) signed_by_active [OF assms(2)] by simp
  then have kept: "dil_Verify lib (Some sig) data (foldl dil_step d (e # es)) = dil_Verify lib (Some sig) data d"
    using quiet by (intro dil_Verify_cong) simp
  have "key_prunes (dm_rotatedAt ?d) (KeyPrune late)" using assms(5) at by (simp add: dilithiumGracePeriod_def)
  then have "0 < signers.rotations ?d (KeyPrune late # later) + signers.prunings ?d (KeyPrune late # later)" by auto
  then have "signing_key (foldl dil_step d (e # KeyPrune late # later)) ?i = None"
    using assms(6) by (intro signers.replaced_key_gone [OF assms(1,3)]) (simp_all add: image_Un)
  then have "signing_key (foldl dil_step d (e # es @ KeyPrune late # later)) ?i = None" using quiet by simp
  from kept dil_Verify_unknown [OF assms(2) this] show ?thesis ..
qed

definition demo_signer :: DilithiumManager where
  "demo_signer = \<lparr>dm_current = Some (dilithium_pair (''a'', ''pk'', ''sk'') 0 ''system''), dm_previous = None, dm_rotatedAt = 0,
     dm_nextRotation = 24 * hour\<rparr>"

definition demo_mode3 :: mode3_lib where
  "demo_mode3 = \<lparr>mo_sign = (\<lambda>sk m. Some m), mo_verify = (\<lambda>pk m sig. Some (sig = m))\<rparr>"

lemma signature_lifetime_witness:
  "\<exists>sig. dil_Sign demo_mode3 0 ''m'' demo_signer = Inr sig \<and>
     dil_Verify demo_mode3 (Some sig) ''m''
       (foldl dil_step demo_signer [KeyMaybeRotate (Some (''b'', ''pk'', ''sk'')) (25 * hour) ''j'', KeyPrune (26 * hour)]) = Inr True \<and>
     dil_Verify demo_mode3 (Some sig) ''m''
       (foldl dil_step demo_signer [KeyMaybeRotate (Some (''b'', ''pk'', ''sk'')) (25 * hour) ''j'', KeyPrune (26 * hour),
          KeyPrune (27 * hour)]) = Inl UnknownSigningKey"
proof -
  let ?e = "KeyMaybeRotate (Some (''b'', ''pk'', ''sk'')) (25 * hour) ''j''"
  obtain sig where sig: "dil_Sign demo_mode3 0 ''m'' demo_signer = Inr sig" "ds_KeyID sig = ''dilithium_YQ==''"
      "dil_Verify demo_mode3 (Some sig) ''m'' demo_signer = Inr True"
    by (simp add: dil_Sign_def dil_Verify_def demo_signer_def demo_mode3_def dilithium_pair_def StdDecode_StdEncode signing_key_def
        URLEncodeToString_def b64_char_def b64_alphabet_def numeral_2_eq_2)
  have ok: "dil_ok demo_signer" "key_rotates (dm_nextRotation demo_signer) ?e"
    by (simp_all add: dil_ok_def demo_signer_def dilithiumKeyRotation_def)
  have fresh: "ds_KeyID sig \<notin> material_id ''dilithium_'' ` set (?e # [KeyPrune (26 * hour)] @ KeyPrune (27 * hour) # [])"
    by (simp add: sig(2) id_of_material_def URLEncodeToString_def b64_char_def b64_alphabet_def)
  show ?thesis
    using signature_lifetime [OF ok(1) sig(1) ok(2), where es = "[KeyPrune (26 * hour)]" and late = "27 * hour" and later = "[]"]
      sig(1,3) fresh by (simp add: dilithiumGracePeriod_def)
qed

section \<open>Encapsulation keys and their sessions\<close>

record PQCSession =
  qs_SessionID :: string
  qs_SharedSecret :: string
  qs_CreatedAt :: time
  qs_ExpiresAt :: time

record PQCKeyInfo =
  qi_KeyID :: string
  qi_Algorithm :: string
  qi_PublicKeyRef :: string
  qi_KeyCreatedAt :: time
  qi_KeyRotatedAt :: time
  qi_RotationActor :: string

record Keypair =
  kp_PublicKey :: string
  kp_PrivateKey :: string

record PQCManager =
  pq_ServerKeypair :: "Keypair option"
  pq_keyInfo :: "PQCKeyInfo option"
  pq_previousKey :: "Keypair option"
  pq_previousInfo :: "PQCKeyInfo option"
  pq_sessions :: "string \<rightharpoonup> PQCSession"
  pq_rotatedAt :: time
  pq_nextRotation :: time

datatype pqc_error = BadCiphertextEncoding | BadCiphertextSize | UnknownPQCKey | SessionIDFailed | PQCSessionNotFound
  | PQCSessionExpired | EmptySharedSecret | KDFFailed | BadKeyLength | NonceFailed | BadNonceEncoding | NoncePanic
  | NotAuthentic

text \<open>The scheme: the size of its ciphertexts, and decapsulation under a private key, which always yields a secret.\<close>

record kyber_lib =
  ky_CiphertextSize :: nat
  ky_decapsulate :: "string \<Rightarrow> string \<Rightarrow> string"

definition pqcSessionTTL :: duration where "pqcSessionTTL = 5 * minute"

definition pqcKeyRotationInterval :: duration where "pqcKeyRotationInterval = 24 * hour"

definition pqcKeyGracePeriod :: duration where "pqcKeyGracePeriod = 1 * hour"

definition kyber_pair :: "string \<times> string \<times> string \<Rightarrow> Keypair" where
  "kyber_pair fresh = (case fresh of (_, pk, sk) \<Rightarrow> \<lparr>kp_PublicKey = pk, kp_PrivateKey = sk\<rparr>)"

definition kyber_info :: "string \<times> string \<times> string \<Rightarrow> time \<Rightarrow> string \<Rightarrow> PQCKeyInfo" where
  "kyber_info fresh now actor = (case fresh of (idBytes, pk, _) \<Rightarrow>
     \<lparr>qi_KeyID = ''kyber_'' @ URLEncodeToString idBytes, qi_Algorithm = ''CRYSTALS-Kyber-1024'',
      qi_PublicKeyRef = StdEncodeToString pk, qi_KeyCreatedAt = now, qi_KeyRotatedAt = now, qi_RotationActor = actor\<rparr>)"

definition NewPQCManager :: "key_material \<Rightarrow> time \<Rightarrow> PQCManager option" where
  "NewPQCManager fresh now =
     map_option (\<lambda>f. \<lparr>pq_ServerKeypair = Some (kyber_pair f), pq_keyInfo = Some (kyber_info f now ''system''),
       pq_previousKey = None, pq_previousInfo = None, pq_sessions = (\<lambda>_. None), pq_rotatedAt = now,
       pq_nextRotation = now + pqcKeyRotationInterval\<rparr>) fresh"

definition selectPrivateKeyLocked :: "string \<Rightarrow> PQCManager \<Rightarrow> string option" where
  "selectPrivateKeyLocked keyID m =
     (case pq_ServerKeypair m of
        Some kp \<Rightarrow>
          if keyID = [] \<or> map_option qi_KeyID (pq_keyInfo m) = Some keyID then Some (kp_PrivateKey kp)
          else (case pq_previousKey m of
              Some p \<Rightarrow> if map_option qi_KeyID (pq_previousInfo m) = Some keyID then Some (kp_PrivateKey p) else None
            | None \<Rightarrow> None)
      | None \<Rightarrow> (case pq_previousKey m of
              Some p \<Rightarrow> if map_option qi_KeyID (pq_previousInfo m) = Some keyID then Some (kp_PrivateKey p) else None
            | None \<Rightarrow> None))"

text \<open>Decapsulation reads under one lock and stores under another: the secret first, the session then.\<close>

definition decapsulated_secret :: "kyber_lib \<Rightarrow> string \<Rightarrow> string \<Rightarrow> PQCManager \<Rightarrow> pqc_error + string" where
  "decapsulated_secret lib ciphertextB64 keyID m =
     (case StdDecodeString ciphertextB64 of None \<Rightarrow> Inl BadCiphertextEncoding
      | Some ct \<Rightarrow>
          if length ct \<noteq> ky_CiphertextSize lib then Inl BadCiphertextSize
          else (case selectPrivateKeyLocked keyID m of None \<Rightarrow> Inl UnknownPQCKey
                | Some sk \<Rightarrow> Inr (ky_decapsulate lib sk ct)))"

definition store_session :: "string \<Rightarrow> string \<Rightarrow> time \<Rightarrow> PQCManager \<Rightarrow> PQCManager" where
  "store_session sessionID secret now m =
     m\<lparr>pq_sessions := (pq_sessions m)(sessionID \<mapsto> \<lparr>qs_SessionID = sessionID, qs_SharedSecret = secret, qs_CreatedAt = now,
        qs_ExpiresAt = now + pqcSessionTTL\<rparr>)\<rparr>"

definition DecapsulateWithKey ::
  "kyber_lib \<Rightarrow> string option \<Rightarrow> time \<Rightarrow> string \<Rightarrow> string \<Rightarrow> PQCManager \<Rightarrow> (pqc_error + string \<times> string) \<times> PQCManager" where
  "DecapsulateWithKey lib rnd now ciphertextB64 keyID m =
     (case decapsulated_secret lib ciphertextB64 keyID m of Inl e \<Rightarrow> (Inl e, m)
      | Inr secret \<Rightarrow>
          (case rnd of None \<Rightarrow> (Inl SessionIDFailed, m)
           | Some b \<Rightarrow>
               let sessionID = URLEncodeToString b
               in (Inr (sessionID, secret), store_session sessionID secret now m)))"

definition drop_pqc_session :: "string \<Rightarrow> PQCManager \<Rightarrow> PQCManager" where
  "drop_pqc_session sessionID m = m\<lparr>pq_sessions := (pq_sessions m)(sessionID := None)\<rparr>"

definition ValidatePQCAuth :: "time \<Rightarrow> string \<Rightarrow> PQCManager \<Rightarrow> bool \<times> PQCManager" where
  "ValidatePQCAuth now sessionID m =
     (if sessionID = [] then (False, m)
      else case pq_sessions m sessionID of None \<Rightarrow> (False, m)
        | Some session \<Rightarrow> if qs_ExpiresAt session < now then (False, drop_pqc_session sessionID m) else (True, m))"

text \<open>\<open>hkdf\<close> stretches a secret to a key of 32 bytes.\<close>

definition DeriveKeyFromSharedSecret :: "(string \<Rightarrow> string option) \<Rightarrow> string \<Rightarrow> pqc_error + string" where
  "DeriveKeyFromSharedSecret hkdf sharedSecret =
     (if sharedSecret = [] then Inl EmptySharedSecret
      else case hkdf sharedSecret of None \<Rightarrow> Inl KDFFailed | Some key \<Rightarrow> Inr key)"

definition DeriveSessionKey ::
  "(string \<Rightarrow> string option) \<Rightarrow> time \<Rightarrow> string \<Rightarrow> PQCManager \<Rightarrow> (pqc_error + string) \<times> PQCManager" where
  "DeriveSessionKey hkdf now sessionID m =
     (case pq_sessions m sessionID of None \<Rightarrow> (Inl PQCSessionNotFound, m)
      | Some session \<Rightarrow>
          if qs_ExpiresAt session < now then (Inl PQCSessionExpired, drop_pqc_session sessionID m)
          else (DeriveKeyFromSharedSecret hkdf (qs_SharedSecret session), m))"

section \<open>The AES-GCM envelope\<close>

record EncryptedPayload =
  ep_Ciphertext :: string
  ep_Nonce :: string

text \<open>The cipher: sealing and opening under key and nonce. Go's \<open>Open\<close> panics if the nonce has another length than 12.\<close>

record aead =
  ae_seal :: "string \<Rightarrow> string \<Rightarrow> string \<Rightarrow> string"
  ae_open :: "string \<Rightarrow> string \<Rightarrow> string \<Rightarrow> string option"

definition EncryptAESGCM :: "aead \<Rightarrow> string option \<Rightarrow> string \<Rightarrow> string \<Rightarrow> pqc_error + EncryptedPayload" where
  "EncryptAESGCM ae nonce key plaintext =
     (if length key \<noteq> 32 then Inl BadKeyLength
      else case nonce of None \<Rightarrow> Inl NonceFailed
        | Some n \<Rightarrow> Inr \<lparr>ep_Ciphertext = StdEncodeToString (ae_seal ae key n plaintext), ep_Nonce = StdEncodeToString n\<rparr>)"

definition DecryptAESGCM :: "aead \<Rightarrow> string \<Rightarrow> EncryptedPayload \<Rightarrow> pqc_error + string" where
  "DecryptAESGCM ae key payload =
     (if length key \<noteq> 32 then Inl BadKeyLength
      else case StdDecodeString (ep_Ciphertext payload) of None \<Rightarrow> Inl BadCiphertextEncoding
        | Some ciphertext \<Rightarrow>
            (case StdDecodeString (ep_Nonce payload) of None \<Rightarrow> Inl BadNonceEncoding
             | Some nonce \<Rightarrow>
                 if length nonce \<noteq> 12 then Inl NoncePanic
                 else (case ae_open ae key nonce ciphertext of None \<Rightarrow> Inl NotAuthentic | Some p \<Rightarrow> Inr p)))"

definition pqc_Encrypt ::
  "(string \<Rightarrow> string option) \<Rightarrow> aead \<Rightarrow> string option \<Rightarrow> time \<Rightarrow> string \<Rightarrow> string \<Rightarrow> PQCManager
     \<Rightarrow> (pqc_error + EncryptedPayload) \<times> PQCManager" where
  "pqc_Encrypt hkdf ae nonce now sessionID plaintext m =
     (case DeriveSessionKey hkdf now sessionID m of
        (Inl e, m1) \<Rightarrow> (Inl e, m1)
      | (Inr key, m1) \<Rightarrow> (EncryptAESGCM ae nonce key plaintext, m1))"

definition pqc_Decrypt ::
  "(string \<Rightarrow> string option) \<Rightarrow> aead \<Rightarrow> time \<Rightarrow> string \<Rightarrow> EncryptedPayload \<Rightarrow> PQCManager
     \<Rightarrow> (pqc_error + string) \<times> PQCManager" where
  "pqc_Decrypt hkdf ae now sessionID payload m =
     (case DeriveSessionKey hkdf now sessionID m of
        (Inl e, m1) \<Rightarrow> (Inl e, m1)
      | (Inr key, m1) \<Rightarrow> (DecryptAESGCM ae key payload, m1))"

section \<open>Rotation and the janitor\<close>

definition pqc_rotateLocked :: "key_material \<Rightarrow> time \<Rightarrow> string \<Rightarrow> PQCManager \<Rightarrow> bool \<times> PQCManager" where
  "pqc_rotateLocked fresh now actor m =
     (case fresh of None \<Rightarrow> (False, m)
      | Some f \<Rightarrow>
          let m1 = (case pq_ServerKeypair m of None \<Rightarrow> m
                | Some kp \<Rightarrow> m\<lparr>pq_previousKey := Some kp,
                    pq_previousInfo := (case pq_keyInfo m of None \<Rightarrow> pq_previousInfo m | Some i \<Rightarrow> Some i)\<rparr>)
          in (True, m1\<lparr>pq_ServerKeypair := Some (kyber_pair f), pq_keyInfo := Some (kyber_info f now actor),
                pq_rotatedAt := now, pq_nextRotation := now + pqcKeyRotationInterval\<rparr>))"

definition pqc_MaybeRotate :: "key_material \<Rightarrow> time \<Rightarrow> string \<Rightarrow> PQCManager \<Rightarrow> bool \<times> PQCManager" where
  "pqc_MaybeRotate fresh now actor m =
     (if pq_nextRotation m < now then pqc_rotateLocked fresh now actor m else (False, m))"

definition cleanupExpiredSessions :: "time \<Rightarrow> PQCManager \<Rightarrow> PQCManager" where
  "cleanupExpiredSessions now m =
     m\<lparr>pq_sessions := (\<lambda>i. case pq_sessions m i of None \<Rightarrow> None
        | Some session \<Rightarrow> if qs_ExpiresAt session < now then None else Some session)\<rparr>"

definition pqc_prunePreviousKey :: "time \<Rightarrow> PQCManager \<Rightarrow> PQCManager" where
  "pqc_prunePreviousKey now m =
     (if pq_previousKey m \<noteq> None \<and> pqcKeyGracePeriod < now - pq_rotatedAt m
      then m\<lparr>pq_previousKey := None, pq_previousInfo := None\<rparr> else m)"

definition pqc_janitor_tick :: "key_material \<Rightarrow> time \<Rightarrow> PQCManager \<Rightarrow> PQCManager" where
  "pqc_janitor_tick fresh now m =
     pqc_prunePreviousKey now (snd (pqc_MaybeRotate fresh now ''system-janitor'' (cleanupExpiredSessions now m)))"

text \<open>What happens to the manager, one lock section at a time. \<open>PqcDrop\<close> is the delete that a validation or a
  derivation does after it has found a session expired.\<close>

datatype pqc_event = PqcKeys key_event | PqcCleanup time | PqcStore string string time | PqcDrop string

primrec pqc_key_step :: "PQCManager \<Rightarrow> key_event \<Rightarrow> PQCManager" where
  "pqc_key_step m (KeyRotate fresh now actor) = snd (pqc_rotateLocked fresh now actor m)"
| "pqc_key_step m (KeyMaybeRotate fresh now actor) = snd (pqc_MaybeRotate fresh now actor m)"
| "pqc_key_step m (KeyPrune now) = pqc_prunePreviousKey now m"

primrec pqc_step :: "PQCManager \<Rightarrow> pqc_event \<Rightarrow> PQCManager" where
  "pqc_step m (PqcKeys e) = pqc_key_step m e"
| "pqc_step m (PqcCleanup now) = cleanupExpiredSessions now m"
| "pqc_step m (PqcStore sid secret now) = store_session sid secret now m"
| "pqc_step m (PqcDrop sid) = drop_pqc_session sid m"

lemma pqc_janitor_tick_run:
  "pqc_janitor_tick fresh now m = foldl pqc_step m
     [PqcCleanup now, PqcKeys (KeyMaybeRotate fresh now ''system-janitor''), PqcKeys (KeyPrune now)]"
  by (simp add: pqc_janitor_tick_def)

primrec pqc_rotates :: "time \<Rightarrow> pqc_event \<Rightarrow> bool" where
  "pqc_rotates due (PqcKeys e) = key_rotates due e"
| "pqc_rotates due (PqcCleanup now) = False"
| "pqc_rotates due (PqcStore sid secret now) = False"
| "pqc_rotates due (PqcDrop sid) = False"

primrec pqc_prunes :: "time \<Rightarrow> pqc_event \<Rightarrow> bool" where
  "pqc_prunes rotated (PqcKeys e) = key_prunes rotated e"
| "pqc_prunes rotated (PqcCleanup now) = False"
| "pqc_prunes rotated (PqcStore sid secret now) = False"
| "pqc_prunes rotated (PqcDrop sid) = False"

primrec pqc_new_id :: "pqc_event \<Rightarrow> string" where
  "pqc_new_id (PqcKeys e) = material_id ''kyber_'' e"
| "pqc_new_id (PqcCleanup now) = []"
| "pqc_new_id (PqcStore sid secret now) = []"
| "pqc_new_id (PqcDrop sid) = []"

definition pqc_ok :: "PQCManager \<Rightarrow> bool" where
  "pqc_ok m \<longleftrightarrow> pq_ServerKeypair m \<noteq> None \<and> pq_keyInfo m \<noteq> None \<and> (pq_previousKey m = None \<longleftrightarrow> pq_previousInfo m = None) \<and>
     pq_nextRotation m = pq_rotatedAt m + pqcKeyRotationInterval"

definition pqc_current :: "PQCManager \<Rightarrow> string option" where
  "pqc_current m = map_option qi_KeyID (pq_keyInfo m)"

text \<open>The private key of a named id; the empty id is no name.\<close>

definition named_key :: "PQCManager \<Rightarrow> string \<Rightarrow> string option" where
  "named_key m i = (if i = [] then None else selectPrivateKeyLocked i m)"

lemmas pqc_defs = pqc_MaybeRotate_def pqc_rotateLocked_def pqc_prunePreviousKey_def pqc_ok_def pqc_current_def
  named_key_def selectPrivateKeyLocked_def id_of_material_def kyber_pair_def kyber_info_def pqcKeyRotationInterval_def
  pqcKeyGracePeriod_def

lemma session_frames [simp]:
  "named_key (cleanupExpiredSessions now m) i = named_key m i" "named_key (store_session sid secret now m) i = named_key m i"
  "named_key (drop_pqc_session sid m) i = named_key m i"
  "pqc_current (cleanupExpiredSessions now m) = pqc_current m" "pqc_current (store_session sid secret now m) = pqc_current m"
  "pqc_current (drop_pqc_session sid m) = pqc_current m"
  "pqc_ok (cleanupExpiredSessions now m) = pqc_ok m" "pqc_ok (store_session sid secret now m) = pqc_ok m"
  "pqc_ok (drop_pqc_session sid m) = pqc_ok m"
  "pq_rotatedAt (cleanupExpiredSessions now m) = pq_rotatedAt m" "pq_rotatedAt (store_session sid secret now m) = pq_rotatedAt m"
  "pq_rotatedAt (drop_pqc_session sid m) = pq_rotatedAt m"
  by (simp_all add: cleanupExpiredSessions_def store_session_def drop_pqc_session_def pqc_defs cong: option.case_cong if_cong)

lemma key_events:
  assumes "pqc_ok m"
  shows "pqc_ok (pqc_key_step m e)"
    and "key_rotates (pq_nextRotation m) e \<Longrightarrow> i \<noteq> material_id ''kyber_'' e \<Longrightarrow>
      named_key (pqc_key_step m e) i = (if pqc_current m = Some i then named_key m i else None)"
    and "key_rotates (pq_nextRotation m) e \<Longrightarrow> pqc_current (pqc_key_step m e) = Some (material_id ''kyber_'' e)"
    and "key_rotates (pq_nextRotation m) e \<Longrightarrow> pq_rotatedAt (pqc_key_step m e) = key_event_time e"
    and "\<not> key_rotates (pq_nextRotation m) e \<Longrightarrow> key_prunes (pq_rotatedAt m) e \<Longrightarrow>
      named_key (pqc_key_step m e) i = (if pqc_current m = Some i then named_key m i else None)"
    and "\<not> key_rotates (pq_nextRotation m) e \<Longrightarrow> \<not> key_prunes (pq_rotatedAt m) e \<Longrightarrow>
      pqc_key_step m e = m"
    and "\<not> key_rotates (pq_nextRotation m) e \<Longrightarrow> pqc_current (pqc_key_step m e) = pqc_current m"
  using assms by (cases e; auto simp: pqc_defs split: option.splits prod.splits)+

interpretation kems: key_ring named_key pqc_current pqc_step "\<lambda>m. pqc_rotates (pq_nextRotation m)"
  "\<lambda>m. pqc_prunes (pq_rotatedAt m)" pqc_new_id pqc_ok
proof (unfold_locales, goal_cases)
  case (1 s e)
  then show ?case by (cases e) (simp_all add: key_events)
next
  case (2 s e i)
  then show ?case by (cases e) (simp_all add: key_events)
next
  case (3 s e)
  then show ?case by (cases e) (simp_all add: key_events)
next
  case (4 s e i)
  then show ?case by (cases e) (simp_all add: key_events)
next
  case (5 s e i)
  then show ?case by (cases e) (simp_all add: key_events)
next
  case (6 s e)
  then show ?case by (cases e) (simp_all add: key_events)
qed

primrec pqc_quiet :: "time \<Rightarrow> pqc_event \<Rightarrow> bool" where
  "pqc_quiet limit (PqcKeys e) = (by_janitor e \<and> key_event_time e \<le> limit)"
| "pqc_quiet limit (PqcCleanup now) = True"
| "pqc_quiet limit (PqcStore sid secret now) = True"
| "pqc_quiet limit (PqcDrop sid) = True"

lemma quiet_key_event:
  assumes "pqc_ok m" and "by_janitor e" and "key_event_time e \<le> pq_rotatedAt m + pqcKeyGracePeriod"
  shows "\<not> key_rotates (pq_nextRotation m) e" and "\<not> key_prunes (pq_rotatedAt m) e"
  using assms by (cases e; simp add: pqc_defs)+

lemma quiet_counts:
  "pqc_ok m \<Longrightarrow> \<forall>e \<in> set es. pqc_quiet (pq_rotatedAt m + pqcKeyGracePeriod) e \<Longrightarrow>
     kems.rotations m es = 0 \<and> kems.prunings m es = 0 \<and> pqc_ok (foldl pqc_step m es) \<and>
     pq_rotatedAt (foldl pqc_step m es) = pq_rotatedAt m"
proof (induction es arbitrary: m)
  case Nil
  then show ?case by simp
next
  case (Cons e es)
  have still: "\<not> pqc_rotates (pq_nextRotation m) e" "\<not> pqc_prunes (pq_rotatedAt m) e" "pq_rotatedAt (pqc_step m e) = pq_rotatedAt m"
    using Cons.prems quiet_key_event [OF Cons.prems(1)] key_events(6) [OF Cons.prems(1)] by (cases e; force)+
  then show ?case using Cons.IH [of "pqc_step m e"] Cons.prems kems.ok_step [OF Cons.prems(1)] by simp
qed

lemma secret_of_named_key:
  "keyID \<noteq> [] \<Longrightarrow> named_key m keyID = named_key m' keyID \<Longrightarrow>
     decapsulated_secret lib ct keyID m = decapsulated_secret lib ct keyID m'"
  by (simp add: decapsulated_secret_def named_key_def split: option.split)

text \<open>A ciphertext for a key that has just been replaced opens to the same secret for an hour, whatever the janitor
  and the sessions do, and is refused from the first pruning after that hour on.\<close>

theorem old_ciphertext_window:
  assumes "pqc_ok m" and "pqc_current m = Some keyID" and "pqc_rotates (pq_nextRotation m) (PqcKeys e)"
    and "\<forall>e' \<in> set es. pqc_quiet (key_event_time e + pqcKeyGracePeriod) e'" and "key_event_time e + pqcKeyGracePeriod < late"
    and "keyID \<notin> pqc_new_id ` set (PqcKeys e # es @ PqcKeys (KeyPrune late) # later)"
  shows "decapsulated_secret lib ct keyID (foldl pqc_step m (PqcKeys e # es)) = decapsulated_secret lib ct keyID m \<and>
    decapsulated_secret lib ct keyID (foldl pqc_step m (PqcKeys e # es @ PqcKeys (KeyPrune late) # later)) \<noteq> Inr secret"
proof -
  let ?m = "pqc_step m (PqcKeys e)"
  have at: "pqc_ok ?m" "pq_rotatedAt ?m = key_event_time e" using key_events(1,4) [OF assms(1)] assms(3) by simp_all
  have quiet: "kems.rotations ?m es = 0" "kems.prunings ?m es = 0" "pqc_ok (foldl pqc_step ?m es)"
      "pq_rotatedAt (foldl pqc_step ?m es) = key_event_time e"
    using quiet_counts [OF at(1)] assms(4) at(2) by simp_all
  have named: "keyID \<noteq> []" using assms(6) by auto
  have "named_key (foldl pqc_step m (PqcKeys e # es)) keyID = named_key m keyID"
    using assms(6) quiet by (intro kems.replaced_key_kept [OF assms(1-3)]) simp_all
  then have kept: "decapsulated_secret lib ct keyID (foldl pqc_step m (PqcKeys e # es)) = decapsulated_secret lib ct keyID m"
    by (rule secret_of_named_key [OF named])
  have current: "pqc_current (foldl pqc_step ?m es) \<noteq> Some keyID"
  proof -
    have "pqc_current ?m = Some (pqc_new_id (PqcKeys e))" by (rule kems.rotate_current [OF assms(1,3)])
    then have "pqc_current (foldl pqc_step ?m es) = Some (pqc_new_id (PqcKeys e))"
      using kems.active_key_kept [OF at(1)] quiet(1) by blast
    then show ?thesis using assms(6) by auto
  qed
  have "named_key (foldl pqc_step (foldl pqc_step ?m es) (PqcKeys (KeyPrune late) # later)) keyID = None"
    using assms(5,6) quiet(4)
    by (intro kems.old_key_evicted [OF quiet(3) current]) (auto simp: image_Un pqcKeyGracePeriod_def)
  then have "named_key (foldl pqc_step m (PqcKeys e # es @ PqcKeys (KeyPrune late) # later)) keyID = None" by simp
  with named have "decapsulated_secret lib ct keyID (foldl pqc_step m (PqcKeys e # es @ PqcKeys (KeyPrune late) # later)) \<noteq> Inr secret"
    by (simp add: decapsulated_secret_def named_key_def split: option.split)
  with kept show ?thesis ..
qed

definition demo_kems :: PQCManager where
  "demo_kems = \<lparr>pq_ServerKeypair = Some \<lparr>kp_PublicKey = ''pk'', kp_PrivateKey = ''sk''\<rparr>,
     pq_keyInfo = Some (kyber_info (''a'', ''pk'', ''sk'') 0 ''system''), pq_previousKey = None, pq_previousInfo = None,
     pq_sessions = (\<lambda>_. None), pq_rotatedAt = 0, pq_nextRotation = 24 * hour\<rparr>"

definition demo_kyber :: kyber_lib where
  "demo_kyber = \<lparr>ky_CiphertextSize = 2, ky_decapsulate = (\<lambda>sk ct. sk @ ct)\<rparr>"

lemma old_ciphertext_window_witness:
  "decapsulated_secret demo_kyber (StdEncodeToString ''ct'') ''kyber_YQ=='' (foldl pqc_step demo_kems
     [PqcKeys (KeyMaybeRotate (Some (''b'', ''pk2'', ''sk2'')) (25 * hour) ''j''), PqcCleanup (26 * hour), PqcKeys (KeyPrune (26 * hour))])
     = Inr ''skct''"
proof -
  let ?e = "KeyMaybeRotate (Some (''b'', ''pk2'', ''sk2'')) (25 * hour) ''j''"
  have start: "pqc_ok demo_kems" "pqc_current demo_kems = Some ''kyber_YQ==''" "pqc_rotates (pq_nextRotation demo_kems) (PqcKeys ?e)"
    by (simp_all add: demo_kems_def pqc_ok_def pqc_current_def kyber_info_def pqcKeyRotationInterval_def URLEncodeToString_def
        b64_char_def b64_alphabet_def numeral_2_eq_2)
  have "''kyber_YQ=='' \<notin> pqc_new_id ` set (PqcKeys ?e # [PqcCleanup (26 * hour), PqcKeys (KeyPrune (26 * hour))] @
      PqcKeys (KeyPrune (27 * hour)) # [])"
    by (simp add: id_of_material_def URLEncodeToString_def b64_char_def b64_alphabet_def)
  moreover have "decapsulated_secret demo_kyber (StdEncodeToString ''ct'') ''kyber_YQ=='' demo_kems = Inr ''skct''"
    using start(2) by (simp add: decapsulated_secret_def StdDecode_StdEncode demo_kyber_def selectPrivateKeyLocked_def demo_kems_def
        pqc_current_def)
  ultimately show ?thesis
    using old_ciphertext_window [OF start, where es = "[PqcCleanup (26 * hour), PqcKeys (KeyPrune (26 * hour))]" and late = "27 * hour"
        and later = "[]" and lib = demo_kyber and ct = "StdEncodeToString ''ct''"]
    by (simp add: pqcKeyGracePeriod_def)
qed

section \<open>Sessions\<close>

text \<open>Whole calls, for runs of the session table.\<close>

datatype pqc_call =
    CallOpen "string option" time string string
  | CallValidate time string
  | CallDerive time string
  | CallTick key_material time
  | CallRotate key_material time string

fun pqc_call_step :: "kyber_lib \<Rightarrow> (string \<Rightarrow> string option) \<Rightarrow> PQCManager \<Rightarrow> pqc_call \<Rightarrow> PQCManager" where
  "pqc_call_step lib hkdf m (CallOpen rnd now ct keyID) = snd (DecapsulateWithKey lib rnd now ct keyID m)"
| "pqc_call_step lib hkdf m (CallValidate now sid) = snd (ValidatePQCAuth now sid m)"
| "pqc_call_step lib hkdf m (CallDerive now sid) = snd (DeriveSessionKey hkdf now sid m)"
| "pqc_call_step lib hkdf m (CallTick fresh now) = pqc_janitor_tick fresh now m"
| "pqc_call_step lib hkdf m (CallRotate fresh now actor) = snd (pqc_rotateLocked fresh now actor m)"

primrec pqc_call_time :: "pqc_call \<Rightarrow> time" where
  "pqc_call_time (CallOpen rnd now ct keyID) = now"
| "pqc_call_time (CallValidate now sid) = now"
| "pqc_call_time (CallDerive now sid) = now"
| "pqc_call_time (CallTick fresh now) = now"
| "pqc_call_time (CallRotate fresh now actor) = now"

primrec opens_id :: "pqc_call \<Rightarrow> string option" where
  "opens_id (CallOpen rnd now ct keyID) = map_option URLEncodeToString rnd"
| "opens_id (CallValidate now sid) = None"
| "opens_id (CallDerive now sid) = None"
| "opens_id (CallTick fresh now) = None"
| "opens_id (CallRotate fresh now actor) = None"

lemma key_steps_sessions [simp]:
  "pq_sessions (snd (pqc_rotateLocked fresh now actor m)) = pq_sessions m"
  "pq_sessions (snd (pqc_MaybeRotate fresh now actor m)) = pq_sessions m"
  "pq_sessions (pqc_prunePreviousKey now m) = pq_sessions m"
  by (auto simp: pqc_rotateLocked_def pqc_MaybeRotate_def pqc_prunePreviousKey_def Let_def split: option.split)

text \<open>A call keeps a session, or removes it when it has expired.\<close>

lemma call_keeps_session:
  assumes "pq_sessions m sid = Some session" and "opens_id c \<noteq> Some sid"
  shows "pq_sessions (pqc_call_step lib hkdf m c) sid = Some session \<or>
    pq_sessions (pqc_call_step lib hkdf m c) sid = None \<and> qs_ExpiresAt session < pqc_call_time c"
proof (cases c)
  case (CallOpen rnd now ct keyID)
  with assms show ?thesis
    by (auto simp: DecapsulateWithKey_def store_session_def Let_def split: sum.split option.split)
next
  case (CallValidate now i)
  with assms show ?thesis by (auto simp: ValidatePQCAuth_def drop_pqc_session_def split: option.split)
next
  case (CallDerive now i)
  with assms show ?thesis by (auto simp: DeriveSessionKey_def drop_pqc_session_def split: option.split)
next
  case (CallTick fresh now)
  with assms show ?thesis by (simp add: pqc_janitor_tick_def cleanupExpiredSessions_def)
next
  case (CallRotate fresh now actor)
  with assms show ?thesis by simp
qed

lemma call_leaves_none:
  assumes "pq_sessions m sid = None" and "opens_id c \<noteq> Some sid"
  shows "pq_sessions (pqc_call_step lib hkdf m c) sid = None"
proof (cases c)
  case (CallOpen rnd now ct keyID)
  with assms show ?thesis
    by (auto simp: DecapsulateWithKey_def store_session_def Let_def split: sum.split option.split)
next
  case (CallValidate now i)
  with assms show ?thesis by (auto simp: ValidatePQCAuth_def drop_pqc_session_def split: option.split)
next
  case (CallDerive now i)
  with assms show ?thesis by (auto simp: DeriveSessionKey_def drop_pqc_session_def split: option.split)
qed (use assms in \<open>simp_all add: pqc_janitor_tick_def cleanupExpiredSessions_def\<close>)

lemma session_run:
  assumes "pq_sessions m sid = Some session" and "\<forall>c \<in> set cs. opens_id c \<noteq> Some sid \<and> pqc_call_time c \<le> t"
  shows "pq_sessions (foldl (pqc_call_step lib hkdf) m cs) sid = Some session \<or>
    pq_sessions (foldl (pqc_call_step lib hkdf) m cs) sid = None \<and> qs_ExpiresAt session < t"
  using assms
proof (induction cs arbitrary: m)
  case Nil
  then show ?case by simp
next
  case (Cons c cs)
  have none: "pq_sessions (foldl (pqc_call_step lib hkdf) m' cs) sid = None" if "pq_sessions m' sid = None" for m'
    using that Cons.prems(2) by (induction cs arbitrary: m') (auto simp: call_leaves_none)
  from call_keeps_session [OF Cons.prems(1), of c lib hkdf] Cons.prems(2) Cons.IH [of "pqc_call_step lib hkdf m c"] none
  show ?case by fastforce
qed

lemma URLEncode_nonempty: "b \<noteq> [] \<Longrightarrow> URLEncodeToString b \<noteq> []"
  by (cases b rule: EncodeToString.cases) (simp_all add: URLEncodeToString_def Let_def)

text \<open>C39: whoever sends any bytes of the right size, without the name of a key, gets a session, and the session
  authorises requests for exactly five minutes, whatever other sessions, the janitor and rotations do meanwhile.\<close>

theorem any_ciphertext_opens_session:
  assumes "pqc_ok m" and "length ct = ky_CiphertextSize lib" and "b \<noteq> []"
    and "\<forall>c \<in> set cs. opens_id c \<noteq> Some (URLEncodeToString b) \<and> pqc_call_time c \<le> t"
  shows "\<exists>secret m'. DecapsulateWithKey lib (Some b) now (StdEncodeToString ct) [] m = (Inr (URLEncodeToString b, secret), m') \<and>
    fst (ValidatePQCAuth t (URLEncodeToString b) (foldl (pqc_call_step lib hkdf) m' cs)) = (t \<le> now + pqcSessionTTL)"
proof -
  let ?sid = "URLEncodeToString b"
  obtain kp where kp: "pq_ServerKeypair m = Some kp" using assms(1) by (auto simp: pqc_ok_def)
  let ?secret = "ky_decapsulate lib (kp_PrivateKey kp) ct"
  let ?m = "store_session ?sid ?secret now m"
  let ?s = "\<lparr>qs_SessionID = ?sid, qs_SharedSecret = ?secret, qs_CreatedAt = now, qs_ExpiresAt = now + pqcSessionTTL\<rparr>"
  have opened: "DecapsulateWithKey lib (Some b) now (StdEncodeToString ct) [] m = (Inr (?sid, ?secret), ?m)"
    using assms(2) kp by (simp add: DecapsulateWithKey_def decapsulated_secret_def StdDecode_StdEncode selectPrivateKeyLocked_def Let_def)
  have "pq_sessions ?m ?sid = Some ?s" by (simp add: store_session_def)
  from session_run [OF this assms(4), of lib hkdf]
  have "fst (ValidatePQCAuth t ?sid (foldl (pqc_call_step lib hkdf) ?m cs)) = (t \<le> now + pqcSessionTTL)"
    using URLEncode_nonempty [OF assms(3)] by (auto simp: ValidatePQCAuth_def split: if_splits)
  with opened show ?thesis by blast
qed

lemma any_ciphertext_opens_session_witness:
  "\<exists>secret m'. DecapsulateWithKey demo_kyber (Some ''s'') 0 (StdEncodeToString ''xx'') [] demo_kems = (Inr (URLEncodeToString ''s'', secret), m') \<and>
     fst (ValidatePQCAuth (5 * minute) (URLEncodeToString ''s'')
       (foldl (pqc_call_step demo_kyber (\<lambda>_. None)) m' [CallTick None minute, CallValidate minute ''other''])) = True"
proof -
  have "pqc_ok demo_kems" by (simp add: demo_kems_def pqc_ok_def pqcKeyRotationInterval_def)
  moreover have "length ''xx'' = ky_CiphertextSize demo_kyber" by (simp add: demo_kyber_def)
  ultimately show ?thesis
    using any_ciphertext_opens_session [of demo_kems "''xx''" demo_kyber "''s''" "[CallTick None minute, CallValidate minute ''other'']"
        "5 * minute" 0 "\<lambda>_. None"] by (simp add: pqcSessionTTL_def)
qed

text \<open>What is sealed under a session opens under it, if the cipher opens what it seals.\<close>

theorem sealed_opens:
  assumes "pqc_Encrypt hkdf ae (Some nonce) now sid plaintext m = (Inr payload, m')" and "length nonce = 12"
    and "\<And>key. ae_open ae key nonce (ae_seal ae key nonce plaintext) = Some plaintext"
  shows "pqc_Decrypt hkdf ae now sid payload m = (Inr plaintext, m)"
  using assms by (auto simp: pqc_Encrypt_def pqc_Decrypt_def DeriveSessionKey_def EncryptAESGCM_def DecryptAESGCM_def StdDecode_StdEncode
      split: prod.splits sum.splits option.splits if_splits)

text \<open>An envelope with a nonce of another length stops the process instead of being refused.\<close>

theorem foreign_nonce_panics:
  "length key = 32 \<Longrightarrow> length n \<noteq> 12 \<Longrightarrow>
     DecryptAESGCM ae key \<lparr>ep_Ciphertext = StdEncodeToString c, ep_Nonce = StdEncodeToString n\<rparr> = Inl NoncePanic"
  by (simp add: DecryptAESGCM_def StdDecode_StdEncode)

end
