(* ===== verification/CertPins.thy ===== *)
theory CertPins
  imports EdgeGates "HOL-Library.AList"
begin

text \<open>
  Certificate pins (\<open>api/middleware/cert_pinning.go\<close>): the set of fingerprints per host, and the gate that
  compares the fingerprint of a request with it. The pin map is an association list without duplicates; SHA-256 in
  hexadecimal is an argument. \<open>peer\<close> is the first certificate of the TLS handshake, if the client sent one.
\<close>

section \<open>The set of pins\<close>

record CertificatePinningManager =
  cp_pins :: "(string \<times> string list) list"
  cp_enforce :: bool

definition wildcardDomain :: string where "wildcardDomain = ''*''"

definition NewCertificatePinningManager :: CertificatePinningManager where
  "NewCertificatePinningManager = \<lparr>cp_pins = [], cp_enforce = False\<rparr>"

definition GetPins :: "string \<Rightarrow> CertificatePinningManager \<Rightarrow> string list" where
  "GetPins domain m = (case map_of (cp_pins m) domain of None \<Rightarrow> [] | Some pins \<Rightarrow> pins)"

definition AddPin :: "string \<Rightarrow> string \<Rightarrow> CertificatePinningManager \<Rightarrow> CertificatePinningManager" where
  "AddPin domain fingerprint m = m\<lparr>cp_pins := AList.update domain (GetPins domain m @ [fingerprint]) (cp_pins m)\<rparr>"

text \<open>\<open>strings.Split\<close> at commas.\<close>

fun split_commas :: "string \<Rightarrow> string list" where
  "split_commas [] = [[]]"
| "split_commas (c # s) =
     (if c = CHR '','' then [] # split_commas s
      else case split_commas s of [] \<Rightarrow> [[c]] | w # ws \<Rightarrow> (c # w) # ws)"

definition truthy :: "string \<Rightarrow> bool" where
  "truthy s = (ToLower (TrimSpace s) \<in> {''1'', ''true'', ''yes'', ''on''})"

definition NewCertificatePinningManagerFromEnv :: "string \<Rightarrow> string \<Rightarrow> CertificatePinningManager" where
  "NewCertificatePinningManagerFromEnv certPins pinEnforce =
     (fold (AddPin wildcardDomain) (filter (\<lambda>p. p \<noteq> []) (map TrimSpace (split_commas certPins))) NewCertificatePinningManager)
       \<lparr>cp_enforce := truthy pinEnforce\<rparr>"

definition PinCount :: "CertificatePinningManager \<Rightarrow> nat" where
  "PinCount m = sum_list (map (\<lambda>(d, pins). length pins) (cp_pins m))"

definition pins_Enabled :: "CertificatePinningManager \<Rightarrow> bool" where
  "pins_Enabled m \<longleftrightarrow> 0 < PinCount m"

definition EnforceStrict :: "CertificatePinningManager \<Rightarrow> bool" where
  "EnforceStrict m = cp_enforce m"

text \<open>The first equal pin goes; \<open>remove1\<close> leaves a list without it as it is.\<close>

definition RemovePin :: "string \<Rightarrow> string \<Rightarrow> CertificatePinningManager \<Rightarrow> CertificatePinningManager" where
  "RemovePin domain fingerprint m =
     (if fingerprint \<in> set (GetPins domain m)
      then m\<lparr>cp_pins := AList.update domain (remove1 fingerprint (GetPins domain m)) (cp_pins m)\<rparr> else m)"

definition ValidatePin :: "string \<Rightarrow> string \<Rightarrow> CertificatePinningManager \<Rightarrow> bool" where
  "ValidatePin domain fingerprint m =
     (let pins = GetPins domain m @ GetPins wildcardDomain m in pins = [] \<or> fingerprint \<in> set pins)"

section \<open>The gate\<close>

definition presented_fingerprint :: "(string \<Rightarrow> string) \<Rightarrow> string option \<Rightarrow> http_request \<Rightarrow> string" where
  "presented_fingerprint sha_hex peer r =
     (case peer of Some raw \<Rightarrow> sha_hex raw | None \<Rightarrow> TrimSpace (rq_Header r ''X-Cert-Fingerprint''))"

definition PinVerification ::
  "(string \<Rightarrow> string) \<Rightarrow> CertificatePinningManager \<Rightarrow> string option \<Rightarrow> string \<Rightarrow> http_request \<Rightarrow> gate" where
  "PinVerification sha_hex m peer host r =
     (let fingerprint = presented_fingerprint sha_hex peer r in
      if fingerprint = [] then
        (if pins_Enabled m \<and> cp_enforce m then Reject 403 [] ''client certificate required for pinned endpoint'' else Pass r)
      else if \<not> ValidatePin host fingerprint m
      then Reject 403 [] ''certificate pin validation failed - possible MITM attack''
      else Pass r)"

section \<open>What the gate admits\<close>

lemma GetPins_updates:
  "GetPins d (AddPin e f m) = (if d = e then GetPins d m @ [f] else GetPins d m)"
  "GetPins d (RemovePin e f m) = (if d = e then remove1 f (GetPins d m) else GetPins d m)"
  by (auto simp: GetPins_def AddPin_def RemovePin_def update_conv remove1_idem split: option.splits)

lemma cp_enforce_updates [simp]: "cp_enforce (AddPin e f m) = cp_enforce m" "cp_enforce (RemovePin e f m) = cp_enforce m"
  by (simp_all add: AddPin_def RemovePin_def)

lemma enabled_iff: "distinct (map fst (cp_pins m)) \<Longrightarrow> pins_Enabled m \<longleftrightarrow> (\<exists>d. GetPins d m \<noteq> [])"
proof -
  assume d: "distinct (map fst (cp_pins m))"
  have "pins_Enabled m \<longleftrightarrow> (\<exists>(d, pins) \<in> set (cp_pins m). pins \<noteq> [])"
    by (auto simp: pins_Enabled_def PinCount_def case_prod_unfold neq0_conv [symmetric] simp del: neq0_conv)
  also have "\<dots> \<longleftrightarrow> (\<exists>d pins. map_of (cp_pins m) d = Some pins \<and> pins \<noteq> [])"
    using d by (auto simp: map_of_eq_Some_iff)
  also have "\<dots> \<longleftrightarrow> (\<exists>d. GetPins d m \<noteq> [])"
  proof (intro ex_cong1)
    fix d
    show "(\<exists>pins. map_of (cp_pins m) d = Some pins \<and> pins \<noteq> []) = (GetPins d m \<noteq> [])"
      by (cases "map_of (cp_pins m) d") (simp_all add: GetPins_def)
  qed
  finally show ?thesis .
qed

text \<open>With wildcard pins and strict enforcement a request passes exactly when it presents a fingerprint that is
  pinned for its host or for all; without a client certificate the header alone decides.\<close>

theorem strict_gate:
  assumes "distinct (map fst (cp_pins m))" and "GetPins wildcardDomain m \<noteq> []" and "cp_enforce m"
    and "[] \<notin> set (GetPins host m @ GetPins wildcardDomain m)"
  shows "passes (PinVerification sha_hex m peer host r) \<longleftrightarrow>
    presented_fingerprint sha_hex peer r \<in> set (GetPins host m @ GetPins wildcardDomain m)"
proof -
  have "pins_Enabled m" using enabled_iff [OF assms(1)] assms(2) by blast
  then show ?thesis using assms(2-4) by (auto simp: PinVerification_def ValidatePin_def Let_def)
qed

text \<open>Without wildcard pins a request that names a host nobody has pinned passes with any fingerprint.\<close>

theorem foreign_host_unpinned:
  assumes "GetPins wildcardDomain m = []" and "GetPins host m = []" and "presented_fingerprint sha_hex peer r \<noteq> []"
  shows "PinVerification sha_hex m peer host r = Pass r"
  using assms by (simp add: PinVerification_def ValidatePin_def)

text \<open>Revoking the last pin of all hosts opens the gate instead of closing it: the revoked certificate passes again.\<close>

theorem revoked_last_pin_passes:
  assumes "GetPins wildcardDomain m = [f]" and "GetPins host m = []" and "presented_fingerprint sha_hex peer r = f" and "f \<noteq> []"
    and "host \<noteq> wildcardDomain"
  shows "PinVerification sha_hex (RemovePin wildcardDomain f m) peer host r = Pass r"
  using assms by (simp add: PinVerification_def ValidatePin_def GetPins_updates presented_fingerprint_def cong: option.case_cong)

text \<open>Pins of the environment keep their case, while the fingerprint of a certificate is lower-case hexadecimal: a pin
  with an upper-case letter matches no certificate.\<close>

theorem upper_case_pin_never_matches:
  assumes "\<And>raw. ToLower (sha_hex raw) = sha_hex raw"
    and "\<forall>p \<in> set (GetPins host m @ GetPins wildcardDomain m). ToLower p \<noteq> p" and "GetPins wildcardDomain m \<noteq> []"
    and "sha_hex raw \<noteq> []"
  shows "\<not> passes (PinVerification sha_hex m (Some raw) host r)"
  using assms by (auto simp: PinVerification_def ValidatePin_def presented_fingerprint_def Let_def)

lemma from_env: "GetPins wildcardDomain (NewCertificatePinningManagerFromEnv ''ab, cd,'' ''TRUE'') = [''ab'', ''cd''] \<and>
    cp_enforce (NewCertificatePinningManagerFromEnv ''ab, cd,'' ''TRUE'')"
  by code_simp

end
