(* ===== verification/FlowTelemetry.thy ===== *)
theory FlowTelemetry
  imports EdgeGates CustomerViews "HOL-Library.List_Lexorder" "HOL-Library.Char_ord" "HOL-Library.Product_Lexorder"
    "HOL-Library.Signed_Division" "HOL-Library.Multiset"
begin

text \<open>
  The traffic dashboard (\<open>api/flow_dashboard.go\<close>): counters per feature area, the most recent requests, and the
  snapshot that is shown. The page, the suggested flows and the uptime are constant text and left out. Counters wrap
  at 64 bits.
\<close>

section \<open>The tracker\<close>

record flowEvent =
  fe_At :: time
  fe_Method :: string
  fe_Route :: string
  fe_Group :: string
  fe_Status :: int
  fe_DurationMs :: int

record flowTotals =
  fl_Requests :: int
  fl_Errors :: int

record flowGroupAggregate =
  fa_Requests :: int
  fa_Errors :: int
  fa_TotalLatencyMs :: int
  fa_LastStatus :: int
  fa_LastRoute :: string
  fa_LastSeen :: time

record flowGroupSummary =
  fs_Group :: string
  fs_Requests :: int
  fs_Errors :: int
  fs_AverageLatency :: int
  fs_LastStatus :: int
  fs_LastRoute :: string
  fs_LastSeen :: time

record flowTracker =
  ft_startedAt :: time
  ft_totals :: flowTotals
  ft_groups :: "string \<rightharpoonup> flowGroupAggregate"
  ft_recent :: "flowEvent list"
  ft_maxRecent :: int

record flowDashboardPayload =
  fd_Totals :: flowTotals
  fd_Groups :: "flowGroupSummary list"
  fd_Recent :: "flowEvent list"

definition newFlowTracker :: "time \<Rightarrow> int \<Rightarrow> flowTracker" where
  "newFlowTracker now maxRecent =
     \<lparr>ft_startedAt = now, ft_totals = \<lparr>fl_Requests = 0, fl_Errors = 0\<rparr>, ft_groups = (\<lambda>_. None), ft_recent = [],
      ft_maxRecent = (if maxRecent \<le> 0 then 300 else maxRecent)\<rparr>"

text \<open>The recorder keeps the status a handler sets last, and counts a body without a status as 200.\<close>

datatype response_call = WriteHeader int | WriteBody

primrec record_status :: "int \<Rightarrow> response_call \<Rightarrow> int" where
  "record_status code (WriteHeader c) = c"
| "record_status code WriteBody = (if code = 0 then 200 else code)"

definition final_status :: "response_call list \<Rightarrow> int" where
  "final_status calls = (let code = foldl record_status 0 calls in if code = 0 then 200 else code)"

definition groupFromPath :: "string \<Rightarrow> string" where
  "groupFromPath path =
     (let p = ToLower (TrimSpace path) in
      if p = [] \<or> p = ''/'' then ''system''
      else if HasPrefix p ''/healthz'' \<or> HasPrefix p ''/readyz'' \<or> HasPrefix p ''/v1/system'' \<or> HasPrefix p ''/ops''
      then ''system''
      else if HasPrefix p ''/v1/auth'' then ''auth''
      else if HasPrefix p ''/v1/dashboard'' then ''dashboard''
      else if HasPrefix p ''/v1/transactions'' then ''transactions''
      else if HasPrefix p ''/v1/goals'' then ''goals''
      else if HasPrefix p ''/v1/portfolio'' then ''portfolio''
      else if HasPrefix p ''/v1/security'' then ''security''
      else if HasPrefix p ''/v1/insights'' then ''insights''
      else if HasPrefix p ''/v1/tax'' then ''tax''
      else if HasPrefix p ''/v1/chatbot'' then ''chatbot''
      else if HasPrefix p ''/v1/settings'' then ''settings''
      else if HasPrefix p ''/v1/aiml'' then ''aiml''
      else if HasPrefix p ''/v1/simulations'' then ''simulation''
      else if HasPrefix p ''/v1/accounts'' \<or> HasPrefix p ''/v1/aggregator'' then ''accounts''
      else ''other'')"

definition empty_aggregate :: flowGroupAggregate where
  "empty_aggregate = \<lparr>fa_Requests = 0, fa_Errors = 0, fa_TotalLatencyMs = 0, fa_LastStatus = 0, fa_LastRoute = [],
     fa_LastSeen = 0\<rparr>"

definition is_error :: "flowEvent \<Rightarrow> bool" where
  "is_error e \<longleftrightarrow> 400 \<le> fe_Status e"

definition add_event :: "flowEvent \<Rightarrow> flowGroupAggregate \<Rightarrow> flowGroupAggregate" where
  "add_event e a =
     \<lparr>fa_Requests = i64 (fa_Requests a + 1), fa_Errors = (if is_error e then i64 (fa_Errors a + 1) else fa_Errors a),
      fa_TotalLatencyMs = i64 (fa_TotalLatencyMs a + fe_DurationMs e), fa_LastStatus = fe_Status e,
      fa_LastRoute = fe_Route e, fa_LastSeen = fe_At e\<rparr>"

definition keep_last :: "nat \<Rightarrow> 'a list \<Rightarrow> 'a list" where
  "keep_last n xs = drop (length xs - n) xs"

definition record_flow :: "flowTracker \<Rightarrow> flowEvent \<Rightarrow> flowTracker" where
  "record_flow ft e =
     (let t = ft_totals ft;
          agg = (case ft_groups ft (fe_Group e) of None \<Rightarrow> empty_aggregate | Some a \<Rightarrow> a);
          recent = ft_recent ft @ [e]
      in ft\<lparr>ft_totals := \<lparr>fl_Requests = i64 (fl_Requests t + 1),
              fl_Errors = (if is_error e then i64 (fl_Errors t + 1) else fl_Errors t)\<rparr>,
            ft_groups := (ft_groups ft)(fe_Group e \<mapsto> add_event e agg),
            ft_recent := (if ft_maxRecent ft < int (length recent) then keep_last (nat (ft_maxRecent ft)) recent else recent)\<rparr>)"

text \<open>The middleware: a request that took \<open>ms\<close> milliseconds from \<open>start\<close>, with the calls its handler made and the
  pattern of the route that served it, if any.\<close>

definition flow_middleware ::
  "time \<Rightarrow> int \<Rightarrow> http_request \<Rightarrow> string option \<Rightarrow> response_call list \<Rightarrow> flowTracker \<Rightarrow> flowTracker" where
  "flow_middleware start ms r pattern calls ft =
     (let route = (case pattern of None \<Rightarrow> rq_Path r | Some p \<Rightarrow> if TrimSpace p = [] then rq_Path r else TrimSpace p)
      in record_flow ft \<lparr>fe_At = start, fe_Method = rq_Method r, fe_Route = route, fe_Group = groupFromPath route,
           fe_Status = final_status calls, fe_DurationMs = ms\<rparr>)"

definition summary_of :: "string \<Rightarrow> flowGroupAggregate \<Rightarrow> flowGroupSummary" where
  "summary_of g a =
     \<lparr>fs_Group = g, fs_Requests = fa_Requests a, fs_Errors = fa_Errors a,
      fs_AverageLatency = (if fa_Requests a > 0 then fa_TotalLatencyMs a sdiv fa_Requests a else 0),
      fs_LastStatus = fa_LastStatus a, fs_LastRoute = fa_LastRoute a, fs_LastSeen = fa_LastSeen a\<rparr>"

text \<open>\<open>order\<close> is the order in which the range visits the groups.\<close>

definition Snapshot :: "string list \<Rightarrow> flowTracker \<Rightarrow> flowDashboardPayload" where
  "Snapshot order ft =
     (let groups = List.map_filter (\<lambda>g. map_option (summary_of g) (ft_groups ft g)) order
      in \<lparr>fd_Totals = ft_totals ft, fd_Groups = sort_key (\<lambda>s. (- fs_Requests s, fs_Group s)) groups,
          fd_Recent = rev (ft_recent ft)\<rparr>)"

section \<open>What the dashboard shows\<close>

lemma i64_succ: "i64 (i64 x + y) = i64 (x + y)"
  by (simp add: i64_def algebra_simps mod_simps)

lemma i64_succ': "i64 (y + i64 x) = i64 (y + x)"
  using i64_succ [of x y] by (simp add: add.commute)

definition group_events :: "string \<Rightarrow> flowEvent list \<Rightarrow> flowEvent list" where
  "group_events g es = filter (\<lambda>e. fe_Group e = g) es"

lemma group_events_snoc [simp]: "group_events g (es @ [e]) = group_events g es @ (if fe_Group e = g then [e] else [])"
  by (simp add: group_events_def)

lemma keep_last_snoc: "0 < n \<Longrightarrow> keep_last n (keep_last n xs @ [x]) = keep_last n (xs @ [x])"
  by (cases "n \<le> length xs") (auto simp: keep_last_def Suc_diff_le)

definition accounts_for :: "flowEvent list \<Rightarrow> flowTracker \<Rightarrow> bool" where
  "accounts_for es ft \<longleftrightarrow>
     ft_totals ft = \<lparr>fl_Requests = i64 (int (length es)), fl_Errors = i64 (int (length (filter is_error es)))\<rparr> \<and>
     ft_recent ft = keep_last (nat (ft_maxRecent ft)) es \<and>
     (\<forall>g. case ft_groups ft g of None \<Rightarrow> group_events g es = []
        | Some a \<Rightarrow> group_events g es \<noteq> [] \<and> fa_Requests a = i64 (int (length (group_events g es))) \<and>
            fa_Errors a = i64 (int (length (filter is_error (group_events g es)))) \<and>
            fa_TotalLatencyMs a = i64 (\<Sum>e\<leftarrow>group_events g es. fe_DurationMs e) \<and>
            fa_LastRoute a = fe_Route (last (group_events g es)))"

lemma record_flow_maxRecent [simp]: "ft_maxRecent (record_flow ft e) = ft_maxRecent ft"
  by (simp add: record_flow_def Let_def)

lemma accounts_step:
  assumes "accounts_for es ft" and "0 < ft_maxRecent ft"
  shows "accounts_for (es @ [e]) (record_flow ft e)"
proof -
  have recent: "ft_recent (record_flow ft e) = keep_last (nat (ft_maxRecent ft)) (es @ [e])"
  proof (cases "ft_maxRecent ft < int (length (ft_recent ft @ [e]))")
    case True
    with assms show ?thesis by (simp add: record_flow_def Let_def accounts_for_def keep_last_snoc)
  next
    case False
    with assms show ?thesis by (auto simp: record_flow_def Let_def accounts_for_def keep_last_def)
  qed
  have groups: "case ft_groups (record_flow ft e) g of None \<Rightarrow> group_events g (es @ [e]) = []
        | Some a \<Rightarrow> group_events g (es @ [e]) \<noteq> [] \<and> fa_Requests a = i64 (int (length (group_events g (es @ [e])))) \<and>
            fa_Errors a = i64 (int (length (filter is_error (group_events g (es @ [e]))))) \<and>
            fa_TotalLatencyMs a = i64 (\<Sum>e\<leftarrow>group_events g (es @ [e]). fe_DurationMs e) \<and>
            fa_LastRoute a = fe_Route (last (group_events g (es @ [e])))" for g
    using assms(1) by (cases "fe_Group e = g"; cases "ft_groups ft g")
      (auto simp: accounts_for_def record_flow_def Let_def add_event_def empty_aggregate_def i64_succ i64_succ'
        add.commute dest!: spec [of _ g])
  have "ft_totals (record_flow ft e) =
      \<lparr>fl_Requests = i64 (int (length (es @ [e]))), fl_Errors = i64 (int (length (filter is_error (es @ [e]))))\<rparr>"
    using assms(1) by (simp add: accounts_for_def record_flow_def Let_def i64_succ i64_succ' add.commute)
  with recent groups show ?thesis unfolding accounts_for_def record_flow_maxRecent by blast
qed

text \<open>After any sequence of requests the totals count all of them and the failed ones, every area counts its own and
  holds the last of them, and the list of recent requests is the tail of the sequence.\<close>

theorem traffic_accounted: "accounts_for es (foldl record_flow (newFlowTracker now n) es)"
proof -
  have "accounts_for es (foldl record_flow (newFlowTracker now n) es) \<and> 0 < ft_maxRecent (foldl record_flow (newFlowTracker now n) es)"
  proof (induction es rule: rev_induct)
    case Nil
    show ?case by (simp add: accounts_for_def newFlowTracker_def keep_last_def group_events_def)
  next
    case (snoc e es)
    then show ?case by (simp add: accounts_step)
  qed
  then show ?thesis ..
qed

text \<open>There are fifteen areas at most, whatever paths clients ask for, so the table of the areas stays small.\<close>

definition flow_areas :: "string list" where
  "flow_areas = [''system'', ''auth'', ''dashboard'', ''transactions'', ''goals'', ''portfolio'', ''security'', ''insights'', ''tax'',
     ''chatbot'', ''settings'', ''aiml'', ''simulation'', ''accounts'', ''other'']"

lemma area_known: "groupFromPath p \<in> set flow_areas"
  by (simp add: groupFromPath_def flow_areas_def Let_def)

theorem areas_bounded:
  assumes "\<forall>e \<in> set es. \<exists>p. fe_Group e = groupFromPath p"
  shows "card (dom (ft_groups (foldl record_flow (newFlowTracker now n) es))) \<le> 15"
proof -
  have "g \<in> set flow_areas" if "ft_groups (foldl record_flow (newFlowTracker now n) es) g = Some a" for g a
  proof -
    from traffic_accounted [of es now n] that have "group_events g es \<noteq> []"
      by (auto simp: accounts_for_def dest!: spec [of _ g])
    then obtain e where "e \<in> set es" "fe_Group e = g" by (auto simp: group_events_def filter_empty_conv)
    with assms area_known show ?thesis by metis
  qed
  then have "dom (ft_groups (foldl record_flow (newFlowTracker now n) es)) \<subseteq> set flow_areas" by auto
  from card_mono [OF _ this] show ?thesis by (simp add: flow_areas_def)
qed

text \<open>The order of the table does not show: the snapshot lists the busiest areas first, ties by name.\<close>

theorem snapshot_order_free:
  assumes "distinct order" and "distinct order'" and "set order = set order'"
  shows "Snapshot order ft = Snapshot order' ft"
proof -
  let ?groups = "\<lambda>order. List.map_filter (\<lambda>g. map_option (summary_of g) (ft_groups ft g)) order"
  let ?key = "\<lambda>s. (- fs_Requests s, fs_Group s)"
  have names: "map fs_Group (?groups xs) = filter (\<lambda>g. ft_groups ft g \<noteq> None) xs" for xs
    by (induction xs) (auto simp: List.map_filter_simps summary_of_def split: option.split)
  have dist: "distinct (map ?key (?groups xs))" if "distinct xs" for xs
  proof -
    have "distinct (map fs_Group (?groups xs))" using that by (simp add: names)
    then show ?thesis by (auto simp: distinct_map inj_on_def)
  qed
  have "mset order = mset order'" using assms by (simp add: set_eq_iff_mset_eq_distinct)
  then have m: "mset (?groups order) = mset (?groups order')"
    by (simp add: List.map_filter_def mset_map mset_filter)
  have "inj_on ?key (set (?groups order))" using dist [OF assms(1)] by (simp add: distinct_map)
  with m have "sort_key ?key (?groups order) = sort_key ?key (?groups order')"
    by (intro sort_key_inj_key_eq) simp_all
  then show ?thesis by (simp add: Snapshot_def Let_def)
qed

end
