(* ===== verification/Spec2Isabelle.thy ===== *)
theory Spec2Isabelle
  imports AccountingLedger EventLedger JsonText Chaincode Resilience JwtTokens SimBinding Passkey AdaptiveAuth
    RiskEngine FraudGraph MoneyRefinement MoneyFlows SessionGuarantees DebtGuarantees OnboardingGuarantees TaxRegimes Notifications StepUpRoutes
    OAuthServer CreditAndLoans CustomerRecords BankEvents MuleGraph KeyManagers CertPins FlowTelemetry
begin

text \<open>
  Verification library of the FINIX banking backend (Go, \<open>src/backend\<close> and
  \<open>src/chaincode\<close>).

  The program. \<open>domain/platform/service.go\<close> holds one record of in-memory maps behind one
  mutex, the platform service; an HTTP handler decodes a request and calls one operation of it. A
  payment asks the risk engine (\<open>domain/transaction\<close>), the fraud graph
  (\<open>domain/fraud\<close>), the SIM binding and the adaptive authentication (\<open>domain/security\<close>)
  what to think of it, writes its events into the event ledger (\<open>domain/blockchain\<close>), which a
  Fabric chaincode mirrors, posts two entries into the double-entry book, debits an account and
  remembers the answer in an idempotency cache. Sessions are JWT tokens, a second factor is a passkey
  or a one-time password.

  Theories and code. Names of definitions are the names of the Go functions; a name that occurs in
  two packages carries a suffix or prefix.
    \<^item> \<open>FINIX_Prelude\<close>: 64-bit wrap-around, instants (nanoseconds, an \<open>int\<close>),
      maps, \<open>strings.TrimSpace\<close>/\<open>ToLower\<close>, decimal printing; the collections of
      facts; the locales \<open>append_only\<close> and \<open>single_use\<close>.
    \<^item> \<open>AccountingLedger\<close>: \<open>ledger_accounting.go\<close>. \<open>EventLedger\<close>:
      \<open>blockchain/ledger.go\<close> with its index, rules, hash chain and Merkle root.
      \<open>Chaincode\<close>: \<open>chaincode/finix/main.go\<close> over a world state of string keys;
      \<open>JsonText\<close>: what \<open>encoding/json\<close> does to a string that is not UTF-8, and which
      instants it can write.
    \<^item> \<open>Resilience\<close>: \<open>infrastructure.go\<close> (secrets, outbox, circuit breaker).
    \<^item> \<open>JwtTokens\<close>, \<open>SimBinding\<close>, \<open>Passkey\<close>, \<open>AdaptiveAuth\<close>:
      \<open>domain/security\<close>.
    \<^item> \<open>Float64\<close>: the \<open>float64\<close> operations the scores use, as rounding of exact
      rationals with NaN and the infinities. \<open>RiskEngine\<close>: \<open>domain/transaction\<close>.
      \<open>FraudGraph\<close>: \<open>domain/fraud/gnn.go\<close>; its edges are objects in a store, because
      the two indexes share them.
    \<^item> \<open>PlatformState\<close>: the record of the service and the helpers every operation uses.
      \<open>PlatformStepUp\<close>: one-time passwords and the freeze. \<open>PlatformTransactions\<close> and
      \<open>PaymentGuarantees\<close>: payments, overrides and what they guarantee.
      \<open>PlatformGoals\<close>, \<open>PlatformAccounts\<close>, \<open>PlatformPayments\<close>: the other
      operations on money and payees. \<open>MoneyRefinement\<close>: these operations as one step function
      \<open>exec\<close> and its refinement of an abstract purse. \<open>MoneyFlows\<close>: the same for every
      modelled operation that writes the service (\<open>flow_step\<close>), so with registrations, bank
      events and investment orders, over a state with all records.
    \<^item> \<open>PlatformLogin\<close>: \<open>auth_pin.go\<close> and the login, session and refresh
      operations of the service, with its in-memory session store; \<open>SessionGuarantees\<close>: runs of
      them, and what they guarantee.
    \<^item> \<open>FloatArith\<close>, \<open>DebtEngine\<close>, \<open>DebtGuarantees\<close>:
      \<open>domain/debt\<close>, on rounded rationals with overflow.
    \<^item> \<open>DataProtection\<close>: \<open>data_protection.go\<close>, field encryption around a cipher
      argument, masks and the account-token vault. \<open>PlatformOnboarding\<close> and
      \<open>OnboardingGuarantees\<close>: registration, e-KYC (\<open>security/ekyc.go\<close>), biometric keys,
      profiles, consents, contacts, and runs of them.
    \<^item> \<open>TaxRegimes\<close>: the tax estimates of \<open>service.go\<close>.
      \<open>HealthScore\<close>: \<open>domain/healthscore\<close>, on rounded rationals.
      \<open>CustomerViews\<close>: what a customer is shown of the state (score, net worth, portfolio,
      dashboard, persona, security) and the SMS scanner. \<open>Notifications\<close>: the derived feed and
      the notification centre.
    \<^item> \<open>EdgeGates\<close>: \<open>api/middleware\<close>, each gate as a function of a request
      and its own state. \<open>StepUpRoutes\<close>: the operations of \<open>service_expansion.go\<close>
      that ask for a second factor, and the gated routes of \<open>api/router.go\<close> before them.
    \<^item> \<open>OAuthServer\<close>: the authorization codes and refresh tokens of
      \<open>oauth_redis_telemetry.go\<close> with their two handlers. \<open>CreditAndLoans\<close>:
      \<open>domain/credit\<close> and the loan endpoints that call the debt engine.
    \<^item> \<open>TransactionEndpoints\<close>: views and scheduling of a transaction, payees, the history of the
      net worth, and a verdict that meets a settled payment. \<open>CustomerRecords\<close>: policies, claims,
      contacts, exports, goal plans and the other records of \<open>service_expansion.go\<close>.
    \<^item> \<open>BankEvents\<close>: the bank connection and the events a bank delivers
      (\<open>aiml.go\<close>). \<open>MuleGraph\<close>: \<open>ml/preprocess\<close>, the graph and the
      scores of the mule model (\<open>fraud/graph_predictor.go\<close>), its input from the service.
    \<^item> \<open>KeyManagers\<close>: the signature and encapsulation keys with their sessions
      (\<open>security/dilithium.go\<close>, \<open>pqc.go\<close>, \<open>encryption.go\<close>). \<open>CertPins\<close>:
      \<open>middleware/cert_pinning.go\<close>. \<open>FlowTelemetry\<close>: \<open>api/flow_dashboard.go\<close>.

  Modelling. A struct is a record, a pointer into a map is a lookup and an update, a mutex is the
  atomicity of one operation (operations that take a lock twice are two definitions, and their runs
  interleave: \<open>Passkey\<close>, \<open>Resilience\<close>, the refresh of \<open>JwtTokens\<close>, whose checks and
  whose claim are two steps). Time is an argument, one instant per
  operation. An error return is a constructor of an error datatype; every operation returns the state
  it leaves, also when it fails. An \<open>int64\<close> is an \<open>int\<close> with the wrap-around written
  out wherever a sum can leave the range, and so is the \<open>int32\<close> of the circuit breaker; a property about a
  range says so.

  Parameters. SHA-256 and HMAC are functions from strings to strings; nothing is assumed of them, and a
  property that needs more says that a collision among the strings hashed is the alternative. The JSON
  encoder (but for the strings and instants it changes or refuses on chain), the signature check of a passkey, the bank adapter, the mule scores and the optional risk
  model, bcrypt, AES-GCM, the outside SIM and KYC providers, the natural logarithm, random digits and fresh random strings are arguments as well.

  Interfaces. Each locale is interpreted on the model: the append-only log by the book, the event
  ledger, the outbox and the timelines of claims, the rule queries by the ledger index and by the chaincode's range scan, the
  single-use token by the refresh rotation, the passkey challenges and the OAuth grants, the one-shot check by the one-time code
  and the step-up challenge, the budget of guesses by the
  one-time passwords, the simulation by the whole service, the monthly interest by the loan arithmetic,
  the ring of two keys by both key managers.

  What the lemmas show. For the ledgers: balances sum to zero, the chain verifies in every reachable
  state and its head binds the history, the on-chain and off-chain rules block exactly what they name.
  For authentication: a token rotates at most once and never verifies after its revocation, a challenge
  authorises once, a code meets three guesses. For money: what a payment debits and when, that a retry
  changes nothing, that a freeze stops payments, and that the service as a whole refines a purse in
  which nothing is created but the opening balance of a registration, once per customer. For sessions: a token authenticates only the
  session an event opened for it, or in the single instant in which a session found only in the store is restored, wrong PINs cost time, a new PIN ends every session. For loans: a table
  pays off to the paisa, a simulation ends, paying ahead never hurts, a strategy is never worse than paying
  each loan alone. For customers: a handle names one customer, only e-KYC verifies, a token resolves to its
  account. For events of the bank: exactly when one takes its amount. For the mule model: that its tensors fit, do not depend on the order of a map, and that its scores never reach a payment by name. For keys: how long a signature and a ciphertext outlive their key, and what opens a session. For cards: when an alert about their utilisation is raised. For insurance claims: that their timeline is never cut. For taxes: they grow with the income and the new regime never costs more. For
  the customer's screens: the health score stays in its range and cash never lowers it, where the two net
  worth figures differ, that a dismissal lasts. For the edge: what the rate limiter lets through in a
  window, that an idempotency key stands for one body, what the role gates
  admit, and that routes whose gate and operation use up the same code or challenge refuse every request. For scores: bounds, monotonicity and freshness of a cached score, including
  NaN. Where the code does something else than its comments say, the behaviour is what is proved, and
  the divergence is listed in the manifest.

  Bounds and fuel. The circuit breaker is shown not to wedge within \<open>2 ^ 31\<close> steps; after that its
  counter can wrap, and it does wedge. No definition runs on fuel. Loops over maps are folds over an argument order or are
  proved independent of it; the Merkle loop, the decimal printer, the escalating cache eviction and the
  loan loops have measures; a loan simulation stops after 1200 months, as the code does.

  Not modelled. HTTP encodings and the routes without gates, the Redis rate limiter; persistence in Postgres and Redis (the maps are
  the state); clients of outside services; the sessions of the ONNX predictors (their models are not in the repository; what is fed to the mule model and read from it is modelled);
  the ciphers, lattice schemes and key derivation themselves (library calls; the managers around them are modelled); the AI pages, text templates, synthetic and seed data and market feeds.
  Server-sent events and background goroutines of an operation are left out where its result does not
  depend on them.
\<close>

end
